(* ===== verification/Prelude.thy ===== *)
theory Prelude
  imports Main "HOL-Library.Monad_Syntax" "HOL-Library.Signed_Division"
begin

text \<open>
  What every component shares: the error codes of \<^verbatim>\<open>osip_port.h\<close>, the C string
  functions the library calls (\<^verbatim>\<open>strcmp\<close>, \<^verbatim>\<open>osip_strcasecmp\<close>, \<^verbatim>\<open>osip_atoi\<close>), the
  option monad in which undefined behaviour (a NULL dereference, a use after free, a double
  free) is the value \<^term>\<open>None\<close>, and the collections of definitions and rules the
  component proofs unfold.
\<close>

section \<open>Collections of facts\<close>

named_theorems cstring_defs \<open>definitions of the string helpers\<close>
named_theorems header_defs \<open>definitions of the header operations\<close>
named_theorems fsm_defs \<open>definitions of the state machine methods\<close>
named_theorems ctx_defs \<open>definitions of the transaction contexts\<close>
named_theorems stack_defs \<open>definitions of the operations on the stack\<close>

section \<open>Error codes\<close>

abbreviation (input) OSIP_SUCCESS :: int where "OSIP_SUCCESS \<equiv> 0"
abbreviation (input) OSIP_UNDEFINED_ERROR :: int where "OSIP_UNDEFINED_ERROR \<equiv> -1"
abbreviation (input) OSIP_BADPARAMETER :: int where "OSIP_BADPARAMETER \<equiv> -2"
abbreviation (input) OSIP_WRONG_STATE :: int where "OSIP_WRONG_STATE \<equiv> -3"
abbreviation (input) OSIP_NOMEM :: int where "OSIP_NOMEM \<equiv> -4"
abbreviation (input) OSIP_SYNTAXERROR :: int where "OSIP_SYNTAXERROR \<equiv> -5"

section \<open>Undefined behaviour as \<^term>\<open>None\<close>\<close>

text \<open>
  A C pointer that may be NULL is an \<^typ>\<open>'a option\<close>; following it is a bind in the
  option monad, so a computation that follows a NULL pointer has the value \<^term>\<open>None\<close>.
  \<open>ub_unless c\<close> is the same for any other condition the code relies on.
\<close>

definition ub_unless :: "bool \<Rightarrow> unit option" where
  "ub_unless c = (if c then Some () else None)"

lemma ub_unless_simps [simp]:
  "ub_unless True = Some ()"
  "ub_unless False = None"
  by (simp_all add: ub_unless_def)

lemma ub_unless_eq_Some [simp]: "ub_unless c = Some u \<longleftrightarrow> c"
  by (simp add: ub_unless_def)

lemma bind_ub_unless [simp]:
  "(ub_unless c \<bind> f) = (if c then f () else None)"
  by (simp add: ub_unless_def)

section \<open>Allocation\<close>

text \<open>
  \<^verbatim>\<open>osip_malloc\<close> may fail. The allocator is a schedule of answers, one per call; an
  exhausted schedule answers yes for ever, so that the empty schedule is an allocator that
  never fails.
\<close>

type_synonym mem = "bool list"

fun osip_malloc :: "mem \<Rightarrow> bool \<times> mem" where
  "osip_malloc [] = (True, [])"
| "osip_malloc (ok # m) = (ok, m)"

definition never_fails :: "mem \<Rightarrow> bool" where
  "never_fails m \<longleftrightarrow> (\<forall>ok \<in> set m. ok)"

lemma osip_malloc_never_fails:
  "never_fails m \<Longrightarrow> \<exists>m'. osip_malloc m = (True, m') \<and> never_fails m'"
  by (cases m) (auto simp: never_fails_def)

lemma never_fails_Nil [simp]: "never_fails []"
  by (simp add: never_fails_def)

section \<open>C strings\<close>

text \<open>
  A C string is the list of its characters before the terminating NUL, and a
  \<^verbatim>\<open>char *\<close> is a \<^typ>\<open>string option\<close>. \<^verbatim>\<open>0 == strcmp (a, b)\<close> is equality.
\<close>

type_synonym cstr = "string option"

definition osip_strdup :: "cstr \<Rightarrow> mem \<Rightarrow> cstr \<times> mem" where
  "osip_strdup s m =
    (case s of None \<Rightarrow> (None, m)
     | Some t \<Rightarrow> (case osip_malloc m of (ok, m) \<Rightarrow> (if ok then Some t else None, m)))"

definition tolower :: "char \<Rightarrow> char" where
  "tolower c = (let n = of_char c :: nat in if 65 \<le> n \<and> n \<le> 90 then char_of (n + 32) else c)"

definition osip_strcasecmp_eq :: "string \<Rightarrow> string \<Rightarrow> bool" where
  "osip_strcasecmp_eq s t \<longleftrightarrow> map tolower s = map tolower t"

definition is_c_space :: "char \<Rightarrow> bool" where
  "is_c_space c \<longleftrightarrow> c \<in> {CHR '' '', CHR 0x09, CHR 0x0A, CHR 0x0B, CHR 0x0C, CHR 0x0D}"

definition is_c_digit :: "char \<Rightarrow> bool" where
  "is_c_digit c \<longleftrightarrow> 48 \<le> (of_char c :: nat) \<and> of_char c \<le> (57 :: nat)"

definition digits_value :: "string \<Rightarrow> int" where
  "digits_value ds = foldl (\<lambda>n d. 10 * n + (of_char d - 48)) 0 ds"

text \<open>
  \<^verbatim>\<open>osip_atoi\<close> is \<^verbatim>\<open>atoi\<close> in this build: blanks are skipped, then an optional sign,
  then the longest run of digits. A number that does not fit an \<open>int\<close> becomes the nearest
  one that does, as the C library of the build does it.
\<close>

definition osip_atoi :: "string \<Rightarrow> int" where
  "osip_atoi s = max (- (2 ^ 31)) (min (2 ^ 31 - 1)
    (case dropWhile is_c_space s of
       [] \<Rightarrow> 0
     | c # r \<Rightarrow>
         if c = CHR ''-'' then - digits_value (takeWhile is_c_digit r)
         else if c = CHR ''+'' then digits_value (takeWhile is_c_digit r)
         else digits_value (takeWhile is_c_digit (c # r))))"

lemmas [cstring_defs] =
  tolower_def osip_strcasecmp_eq_def is_c_space_def is_c_digit_def digits_value_def osip_atoi_def

lemma osip_strdup_cases: "fst (osip_strdup s m) = s \<or> fst (osip_strdup s m) = None"
  by (auto simp: osip_strdup_def split: option.splits prod.splits)

lemma osip_strdup_never_fails:
  "never_fails m \<Longrightarrow> \<exists>m'. osip_strdup s m = (s, m') \<and> never_fails m'"
  using osip_malloc_never_fails [of m] by (auto simp: osip_strdup_def split: option.splits)

lemma osip_strcasecmp_eq_refl [simp]: "osip_strcasecmp_eq s s"
  by (simp add: osip_strcasecmp_eq_def)

lemma osip_strcasecmp_eq_sym: "osip_strcasecmp_eq s t \<Longrightarrow> osip_strcasecmp_eq t s"
  by (simp add: osip_strcasecmp_eq_def)

lemma osip_strcasecmp_eq_trans:
  "osip_strcasecmp_eq s t \<Longrightarrow> osip_strcasecmp_eq t u \<Longrightarrow> osip_strcasecmp_eq s u"
  by (simp add: osip_strcasecmp_eq_def)

lemma osip_strcasecmp_eq_length: "osip_strcasecmp_eq s t \<Longrightarrow> length s = length t"
  unfolding osip_strcasecmp_eq_def by (metis length_map)

end
