(* ===== verification/Osip_List.thy ===== *)
theory Osip_List
  imports Prelude
begin

text \<open>
  \<^verbatim>\<open>osip_list.c\<close>: the singly linked list every header list, event queue and transaction
  list of the library is made of. The first part is the code on an explicit heap of nodes;
  the second part relates it to HOL lists, which the other theories use, by one refinement
  lemma per operation.
\<close>

section \<open>The code on a heap of nodes\<close>

text \<open>
  A node is an element and a \<^verbatim>\<open>next\<close> pointer; freeing a node removes its address from
  the heap, so that following a dangling pointer is \<^term>\<open>None\<close>. The result of
  \<^verbatim>\<open>osip_malloc\<close> is an argument: \<^term>\<open>None\<close> when the allocation fails.
\<close>

type_synonym 'a nodes = "nat \<rightharpoonup> 'a \<times> nat option"

record osip_list =
  nb_elt :: int
  node :: "nat option"

definition osip_list_init :: "osip_list option \<Rightarrow> int \<times> osip_list option" where
  "osip_list_init li =
    (case li of None \<Rightarrow> (OSIP_BADPARAMETER, None)
     | Some l \<Rightarrow> (OSIP_SUCCESS, Some \<lparr>nb_elt = 0, node = None\<rparr>))"

definition osip_list_size :: "osip_list option \<Rightarrow> int" where
  "osip_list_size li = (case li of None \<Rightarrow> OSIP_BADPARAMETER | Some l \<Rightarrow> nb_elt l)"

definition osip_list_eol :: "osip_list option \<Rightarrow> int \<Rightarrow> int" where
  "osip_list_eol li i =
    (case li of None \<Rightarrow> OSIP_BADPARAMETER
     | Some l \<Rightarrow> if i < nb_elt l then OSIP_SUCCESS else 1)"

text \<open>\<open>walk h n p\<close>: the pointer reached from \<open>p\<close> by \<open>n\<close> steps of \<^verbatim>\<open>ntmp = ntmp->next\<close>.\<close>

fun walk :: "'a nodes \<Rightarrow> nat \<Rightarrow> nat option \<Rightarrow> nat option option" where
  "walk h 0 p = Some p"
| "walk h (Suc n) p = do { a \<leftarrow> p; (e, nx) \<leftarrow> h a; walk h n nx }"

definition osip_list_add ::
  "nat option \<Rightarrow> 'a nodes \<Rightarrow> osip_list option \<Rightarrow> 'a \<Rightarrow> int
    \<Rightarrow> (int \<times> 'a nodes \<times> osip_list option) option" where
  "osip_list_add new h li el pos =
    (case li of None \<Rightarrow> Some (OSIP_BADPARAMETER, h, None)
     | Some l \<Rightarrow>
       if nb_elt l = 0 then
         (case new of
            None \<Rightarrow> Some (OSIP_NOMEM, h, Some (l\<lparr>node := None\<rparr>))
          | Some a \<Rightarrow> Some (nb_elt l + 1, h(a \<mapsto> (el, None)),
                        Some (l\<lparr>nb_elt := nb_elt l + 1, node := Some a\<rparr>)))
       else
         let pos = (if pos = -1 \<or> pos \<ge> nb_elt l then nb_elt l else pos) in
         if pos = 0 then
           (case new of
              None \<Rightarrow> Some (OSIP_NOMEM, h, Some l)
            | Some a \<Rightarrow> Some (nb_elt l + 1, h(a \<mapsto> (el, node l)),
                          Some (l\<lparr>nb_elt := nb_elt l + 1, node := Some a\<rparr>)))
         else do {
           p \<leftarrow> walk h (nat (pos - 1)) (node l);
           b \<leftarrow> p;
           (e, nextnode) \<leftarrow> h b;
           if pos = nb_elt l then
             (case new of
                None \<Rightarrow> Some (OSIP_NOMEM, h(b \<mapsto> (e, None)), Some l)
              | Some a \<Rightarrow> Some (nb_elt l + 1, h(b \<mapsto> (e, Some a), a \<mapsto> (el, None)),
                            Some (l\<lparr>nb_elt := nb_elt l + 1\<rparr>)))
           else
             (case new of
                None \<Rightarrow> Some (OSIP_NOMEM, h, Some l)
              | Some a \<Rightarrow> Some (nb_elt l + 1, h(b \<mapsto> (e, Some a), a \<mapsto> (el, nextnode)),
                            Some (l\<lparr>nb_elt := nb_elt l + 1\<rparr>)))
         })"

text \<open>A NULL result is the inner \<^term>\<open>None\<close>.\<close>

definition osip_list_get :: "'a nodes \<Rightarrow> osip_list option \<Rightarrow> int \<Rightarrow> 'a option option" where
  "osip_list_get h li pos =
    (case li of None \<Rightarrow> Some None
     | Some l \<Rightarrow>
       if pos < 0 \<or> pos \<ge> nb_elt l then Some None
       else do {
         p \<leftarrow> walk h (nat pos) (node l);
         a \<leftarrow> p;
         (e, nx) \<leftarrow> h a;
         Some (Some e)
       })"

definition osip_list_remove ::
  "'a nodes \<Rightarrow> osip_list option \<Rightarrow> int \<Rightarrow> (int \<times> 'a nodes \<times> osip_list option) option" where
  "osip_list_remove h li pos =
    (case li of None \<Rightarrow> Some (OSIP_BADPARAMETER, h, None)
     | Some l \<Rightarrow>
       if pos < 0 \<or> pos \<ge> nb_elt l then Some (OSIP_UNDEFINED_ERROR, h, Some l)
       else if pos = 0 then do {
         a \<leftarrow> node l;
         (e, nx) \<leftarrow> h a;
         Some (nb_elt l - 1, h(a := None), Some (l\<lparr>nb_elt := nb_elt l - 1, node := nx\<rparr>))
       } else do {
         p \<leftarrow> walk h (nat (pos - 1)) (node l);
         b \<leftarrow> p;
         (e, rem) \<leftarrow> h b;
         r \<leftarrow> rem;
         (e', nx) \<leftarrow> h r;
         Some (nb_elt l - 1, (h(b \<mapsto> (e, nx)))(r := None), Some (l\<lparr>nb_elt := nb_elt l - 1\<rparr>))
       })"

text \<open>
  The iterator: \<^verbatim>\<open>prev\<close> points at the pointer that leads to the actual node, either the
  head of the list or the \<^verbatim>\<open>next\<close> field of a node. \<^verbatim>\<open>osip_list_get_first\<close> on an empty list
  sets only \<^verbatim>\<open>actual\<close>; the other fields are then the ones the iterator had.
\<close>

datatype ploc = HeadOf | NextOf nat

record osip_list_iterator =
  actual :: "nat option"
  prev :: ploc
  it_pos :: int

definition osip_list_iterator_has_elem :: "osip_list \<Rightarrow> osip_list_iterator \<Rightarrow> bool" where
  "osip_list_iterator_has_elem l it \<longleftrightarrow> actual it \<noteq> None \<and> it_pos it < nb_elt l"

definition osip_list_get_first ::
  "'a nodes \<Rightarrow> osip_list \<Rightarrow> osip_list_iterator \<Rightarrow> ('a option \<times> osip_list_iterator) option" where
  "osip_list_get_first h l it =
    (if 0 \<ge> nb_elt l then Some (None, it\<lparr>actual := None\<rparr>)
     else do {
       a \<leftarrow> node l;
       (e, nx) \<leftarrow> h a;
       Some (Some e, it\<lparr>actual := node l, prev := HeadOf, it_pos := 0\<rparr>)
     })"

definition osip_list_get_next ::
  "'a nodes \<Rightarrow> osip_list \<Rightarrow> osip_list_iterator \<Rightarrow> ('a option \<times> osip_list_iterator) option" where
  "osip_list_get_next h l it =
    (case actual it of None \<Rightarrow> Some (None, it)
     | Some a \<Rightarrow> do {
         (e, nx) \<leftarrow> h a;
         let it = it\<lparr>prev := NextOf a, actual := nx, it_pos := it_pos it + 1\<rparr>;
         if osip_list_iterator_has_elem l it
         then do { b \<leftarrow> actual it; (e', nx') \<leftarrow> h b; Some (Some e', it) }
         else Some (None, it\<lparr>actual := None\<rparr>)
       })"

definition osip_list_iterator_remove ::
  "'a nodes \<Rightarrow> osip_list \<Rightarrow> osip_list_iterator
    \<Rightarrow> ('a option \<times> 'a nodes \<times> osip_list \<times> osip_list_iterator) option" where
  "osip_list_iterator_remove h l it =
    do {
      (h, l, it) \<leftarrow>
        (if osip_list_iterator_has_elem l it then do {
           a \<leftarrow> actual it;
           (e, nx) \<leftarrow> h a;
           (h, l) \<leftarrow> (case prev it of
               HeadOf \<Rightarrow> Some (h, l\<lparr>nb_elt := nb_elt l - 1, node := nx\<rparr>)
             | NextOf b \<Rightarrow> do { (e', nx') \<leftarrow> h b;
                              Some (h(b \<mapsto> (e', nx)), l\<lparr>nb_elt := nb_elt l - 1\<rparr>) });
           Some (h(a := None), l, it\<lparr>actual := nx\<rparr>)
         } else Some (h, l, it));
      if osip_list_iterator_has_elem l it
      then do { b \<leftarrow> actual it; (e', nx') \<leftarrow> h b; Some (Some e', h, l, it) }
      else Some (None, h, l, it)
    }"

section \<open>Chains of nodes\<close>

text \<open>
  \<open>chain h p ps q\<close>: following \<^verbatim>\<open>next\<close> from \<open>p\<close> visits the nodes \<open>ps\<close> (address and
  element) and ends in \<open>q\<close>.
\<close>

fun chain :: "'a nodes \<Rightarrow> nat option \<Rightarrow> (nat \<times> 'a) list \<Rightarrow> nat option \<Rightarrow> bool" where
  "chain h p [] q \<longleftrightarrow> p = q"
| "chain h p ((a, x) # ps) q \<longleftrightarrow> p = Some a \<and> (\<exists>nx. h a = Some (x, nx) \<and> chain h nx ps q)"

lemma chain_append: "chain h p (xs @ ys) q \<longleftrightarrow> (\<exists>r. chain h p xs r \<and> chain h r ys q)"
proof (induction xs arbitrary: p)
  case Nil
  then show ?case by simp
next
  case (Cons x xs)
  then show ?case by (cases x) (auto; blast)
qed

lemma chain_upd [simp]: "a \<notin> fst ` set ps \<Longrightarrow> chain (h(a := v)) p ps q \<longleftrightarrow> chain h p ps q"
  by (induction ps arbitrary: p) auto

lemma chain_head: "chain h p (x # ps) q \<Longrightarrow> p = Some (fst x)"
  by (cases x) auto

lemma walk_chain:
  assumes "chain h p (xs @ ys) q"
  shows "walk h (length xs) p = Some (if ys = [] then q else Some (fst (hd ys)))"
  using assms
proof (induction xs arbitrary: p)
  case Nil
  then show ?case by (cases ys) (auto dest: chain_head)
next
  case (Cons x xs)
  then show ?case by (cases x) auto
qed

definition lrel :: "'a nodes \<Rightarrow> osip_list \<Rightarrow> (nat \<times> 'a) list \<Rightarrow> bool" where
  "lrel h l ps \<longleftrightarrow> distinct (map fst ps) \<and> chain h (node l) ps None \<and> nb_elt l = int (length ps)"

text \<open>\<open>list_on h l xs\<close>: the heap list \<open>l\<close> holds the elements \<open>xs\<close>.\<close>

definition list_on :: "'a nodes \<Rightarrow> osip_list \<Rightarrow> 'a list \<Rightarrow> bool" where
  "list_on h l xs \<longleftrightarrow> (\<exists>ps. lrel h l ps \<and> map snd ps = xs)"

lemma chain_dom: "chain h p ps q \<Longrightarrow> fst ` set ps \<subseteq> dom h"
  by (induction h p ps q rule: chain.induct) (auto simp: subset_iff)

lemma split_at:
  assumes "i < length ps"
  obtains xs x ys where "ps = xs @ x # ys" and "length xs = i" and "x = ps ! i"
    and "xs = take i ps" and "ys = drop (Suc i) ps"
  using assms by (metis id_take_nth_drop length_take min.absorb4)

lemma nat_pred_less: "0 < n \<Longrightarrow> q \<le> int n \<Longrightarrow> nat (q - 1) < n"
  by arith

section \<open>The operations on HOL lists\<close>

text \<open>
  What the operations do to the sequence of elements. \<^verbatim>\<open>osip_list_add\<close> with a negative
  position other than \<open>-1\<close> inserts behind the first element.
\<close>

definition l_add :: "'a list \<Rightarrow> 'a \<Rightarrow> int \<Rightarrow> 'a list" where
  "l_add xs el pos =
    (if xs = [] \<or> pos = -1 \<or> pos \<ge> int (length xs) then xs @ [el]
     else if pos = 0 then el # xs
     else let k = (if pos < 0 then 1 else nat pos) in take k xs @ el # drop k xs)"

definition l_get :: "'a list \<Rightarrow> int \<Rightarrow> 'a option" where
  "l_get xs pos = (if pos < 0 \<or> pos \<ge> int (length xs) then None else Some (xs ! nat pos))"

definition l_eol :: "'a list \<Rightarrow> int \<Rightarrow> bool" where
  "l_eol xs pos \<longleftrightarrow> \<not> pos < int (length xs)"

definition l_remove :: "'a list \<Rightarrow> int \<Rightarrow> 'a list" where
  "l_remove xs pos =
    (if pos < 0 \<or> pos \<ge> int (length xs) then xs
     else take (nat pos) xs @ drop (Suc (nat pos)) xs)"

lemma l_add_end [simp]: "l_add xs el (-1) = xs @ [el]"
  by (simp add: l_add_def)

lemma l_add_front [simp]: "l_add xs el 0 = el # xs"
  by (simp add: l_add_def)

lemma l_get_0 [simp]: "l_get xs 0 = (case xs of [] \<Rightarrow> None | x # _ \<Rightarrow> Some x)"
  by (auto simp: l_get_def split: list.split)

lemma l_remove_0 [simp]: "l_remove xs 0 = tl xs"
  by (cases xs) (auto simp: l_remove_def)

lemma length_l_add: "length (l_add xs el pos) = Suc (length xs)"
  by (auto simp: l_add_def Let_def)

lemma mset_l_add_set: "set (l_add xs el pos) = insert el (set xs)"
proof -
  have "set (take k xs @ el # drop k xs) = insert el (set xs)" for k
    by (simp del: set_append add: set_append) (metis append_take_drop_id set_append)
  then show ?thesis by (auto simp: l_add_def Let_def)
qed

lemma l_get_l_add:
  assumes "0 \<le> pos" "pos \<le> int (length xs)"
  shows "l_get (l_add xs el pos) pos = Some el"
  using assms by (auto simp: l_get_def l_add_def Let_def nth_append)

lemma l_remove_l_add:
  assumes "0 \<le> pos" "pos \<le> int (length xs)"
  shows "l_remove (l_add xs el pos) pos = xs"
  using assms by (auto simp: l_remove_def l_add_def Let_def)

section \<open>Refinement\<close>

lemma osip_list_init_refines: "osip_list_init (Some l) = (r, Some l') \<Longrightarrow> list_on h l' []"
  by (auto simp: osip_list_init_def list_on_def lrel_def)

lemma osip_list_size_refines: "list_on h l xs \<Longrightarrow> osip_list_size (Some l) = int (length xs)"
  by (auto simp: osip_list_size_def list_on_def lrel_def)

lemma osip_list_eol_refines:
  "list_on h l xs \<Longrightarrow> (osip_list_eol (Some l) i \<noteq> 0) \<longleftrightarrow> l_eol xs i"
  by (auto simp: osip_list_eol_def list_on_def lrel_def l_eol_def)

lemma osip_list_get_refines:
  assumes "list_on h l xs"
  shows "osip_list_get h (Some l) pos = Some (l_get xs pos)"
proof -
  from assms obtain ps where l: "lrel h l ps" and xs: "map snd ps = xs"
    by (auto simp: list_on_def)
  show ?thesis
  proof (cases "pos < 0 \<or> pos \<ge> int (length ps)")
    case True
    with l xs show ?thesis
      by (auto simp: osip_list_get_def lrel_def l_get_def)
  next
    case False
    then have "nat pos < length ps" by auto
    then obtain as y bs where ps: "ps = as @ y # bs" and len: "length as = nat pos"
      by (rule split_at)
    have ch: "chain h (node l) (as @ y # bs) None"
      using l ps by (simp add: lrel_def)
    have w: "walk h (nat pos) (node l) = Some (Some (fst y))"
      using walk_chain [OF ch] len by simp
    from ch obtain nx where "h (fst y) = Some (snd y, nx)"
      by (cases y) (auto simp: chain_append)
    then have "osip_list_get h (Some l) pos = Some (Some (snd y))"
      using False l w by (simp add: osip_list_get_def lrel_def)
    moreover have "xs ! nat pos = snd y"
      using xs ps len by (simp add: nth_append flip: xs)
    moreover have "length xs = length ps" using xs by auto
    ultimately show ?thesis
      using False by (simp add: l_get_def)
  qed
qed

lemma chain_snoc_step:
  assumes "chain h p (as @ [(b, x)]) q" "b \<notin> fst ` set as"
  shows "chain (h(b \<mapsto> (x, nx))) p (as @ [(b, x)]) nx"
  using assms by (auto simp: chain_append)

lemma l_add_map: "map f (l_add xs el pos) = l_add (map f xs) (f el) pos"
  by (auto simp: l_add_def Let_def take_map drop_map)

text \<open>
  Adding takes one fresh node, leaves the other nodes of the heap alone and returns the new
  number of elements.
\<close>

lemma lrel_add:
  assumes l: "lrel h l ps" and fresh: "a \<notin> dom h"
  shows "\<exists>h' l'. osip_list_add (Some a) h (Some l) el pos = Some (int (length ps) + 1, h', Some l')
    \<and> lrel h' l' (l_add ps (a, el) pos) \<and> dom h' = insert a (dom h)
    \<and> (\<forall>b. b \<notin> fst ` set ps \<longrightarrow> b \<noteq> a \<longrightarrow> h' b = h b)"
proof -
  have dist: "distinct (map fst ps)" and ch: "chain h (node l) ps None"
    and n: "nb_elt l = int (length ps)"
    using l by (simp_all add: lrel_def)
  have a: "a \<notin> fst ` set ps" using fresh chain_dom [OF ch] by auto
  consider (empty) "ps = []" | (front) "ps \<noteq> []" "pos = 0"
    | (inner) "ps \<noteq> []" "pos \<noteq> 0" by auto
  then show ?thesis
  proof cases
    case empty
    then show ?thesis
      using n by (simp add: osip_list_add_def lrel_def l_add_def)
  next
    case front
    then show ?thesis
      using n dist ch a by (auto simp: osip_list_add_def lrel_def)
  next
    case inner
    let ?at_end = "pos = -1 \<or> pos \<ge> int (length ps)"
    let ?pos = "if ?at_end then int (length ps) else pos"
    let ?i = "nat (?pos - 1)"
    have len: "0 < length ps" using inner by simp
    have "?i < length ps" using len by (intro nat_pred_less) auto
    then obtain as y bs where ps: "ps = as @ y # bs" and las: "length as = ?i"
      by (rule split_at)
    obtain b x where y: "y = (b, x)" by (cases y)
    obtain nx where hb: "h b = Some (x, nx)" and bs: "chain h nx bs None"
      and as: "chain h (node l) as (Some b)"
      using ch by (auto simp: ps y chain_append)
    have b: "b \<notin> fst ` set as" "b \<notin> fst ` set bs" "b \<noteq> a" using dist a by (auto simp: ps y)
    have a': "a \<notin> fst ` set as" "a \<notin> fst ` set bs" using a by (auto simp: ps)
    have "walk h (length as) (node l) = Some (Some b)"
      using walk_chain [of h "node l" as "y # bs" None] ch by (simp add: ps y)
    then have w: "walk h ?i (node l) = Some (Some b)" by (simp only: las)
    have n0: "nb_elt l \<noteq> 0" "?pos \<noteq> 0" using n len inner by auto
    show ?thesis
    proof (cases ?at_end)
      case True
      then have "length as = length ps - 1" unfolding las by auto
      then have "bs = []" using ps by simp
      then have nx: "nx = None" using bs by simp
      have "osip_list_add (Some a) h (Some l) el pos
          = Some (int (length ps) + 1, h(b \<mapsto> (x, Some a), a \<mapsto> (el, None)),
                  Some (l\<lparr>nb_elt := nb_elt l + 1\<rparr>))"
        using True n n0 w hb by (simp add: osip_list_add_def Let_def)
      moreover have "l_add ps (a, el) pos = as @ (b, x) # [(a, el)]"
        using True \<open>bs = []\<close> by (auto simp: l_add_def ps y)
      moreover have "chain (h(b \<mapsto> (x, Some a), a \<mapsto> (el, None))) (node l) (as @ (b, x) # [(a, el)]) None"
        using as a' b by (auto simp: chain_append)
      ultimately show ?thesis
        using dist a' b n hb \<open>bs = []\<close> by (auto simp: lrel_def ps y)
    next
      case False
      have add: "osip_list_add (Some a) h (Some l) el pos
          = Some (int (length ps) + 1, h(b \<mapsto> (x, Some a), a \<mapsto> (el, nx)),
                  Some (l\<lparr>nb_elt := nb_elt l + 1\<rparr>))"
        using False n n0 w hb by (simp add: osip_list_add_def Let_def)
      have k: "length as = (if pos < 0 then 1 else nat pos) - 1" "(if pos < 0 then 1 else nat pos) > 0"
        using las False inner by auto
      have spec: "l_add ps (a, el) pos = as @ (b, x) # (a, el) # bs"
        using False inner k by (simp add: l_add_def Let_def ps y)
      have "chain (h(b \<mapsto> (x, Some a), a \<mapsto> (el, nx))) (node l) (as @ (b, x) # (a, el) # bs) None"
        using as bs a' b by (auto simp: chain_append)
      then show ?thesis
        using dist a' b n hb add spec by (auto simp: lrel_def ps y)
    qed
  qed
qed

lemma osip_list_add_refines:
  assumes "list_on h l xs" "a \<notin> dom h"
  obtains h' l' where
    "osip_list_add (Some a) h (Some l) el pos = Some (int (length xs) + 1, h', Some l')"
    "list_on h' l' (l_add xs el pos)" "dom h' = insert a (dom h)"
proof -
  from assms obtain ps where l: "lrel h l ps" and xs: "map snd ps = xs"
    by (auto simp: list_on_def)
  from lrel_add [OF l assms(2), of el pos] obtain h' l' where
    add: "osip_list_add (Some a) h (Some l) el pos = Some (int (length ps) + 1, h', Some l')"
    and rel: "lrel h' l' (l_add ps (a, el) pos)" and d: "dom h' = insert a (dom h)"
    by blast
  have "list_on h' l' (l_add xs el pos)"
    unfolding list_on_def using rel xs by (intro exI [of _ "l_add ps (a, el) pos"]) (simp add: l_add_map)
  moreover have "length ps = length xs" using xs by auto
  ultimately show thesis using that add d by simp
qed

lemma osip_list_add_nomem:
  assumes "list_on h l xs"
  obtains h' l' where "osip_list_add None h (Some l) el pos = Some (OSIP_NOMEM, h', Some l')"
    "list_on h' l' xs"
proof -
  from assms obtain ps where l: "lrel h l ps" and xs: "map snd ps = xs"
    by (auto simp: list_on_def)
  have dist: "distinct (map fst ps)" and ch: "chain h (node l) ps None"
    and n: "nb_elt l = int (length ps)"
    using l by (simp_all add: lrel_def)
  let ?pos = "if pos = -1 \<or> pos \<ge> int (length ps) then int (length ps) else pos"
  show thesis
  proof (cases "ps = [] \<or> ?pos = 0")
    case True
    then have "osip_list_add None h (Some l) el pos = Some (OSIP_NOMEM, h, Some l)"
      using n ch by (cases l) (auto simp: osip_list_add_def Let_def)
    then show thesis using that assms by simp
  next
    case False
    let ?i = "nat (?pos - 1)"
    have "?i < length ps" using False by (intro nat_pred_less) auto
    then obtain as y bs where ps: "ps = as @ y # bs" and las: "length as = ?i"
      by (rule split_at)
    obtain b x where y: "y = (b, x)" by (cases y)
    obtain nx where hb: "h b = Some (x, nx)" and bs: "chain h nx bs None"
      using ch by (auto simp: ps y chain_append)
    have "walk h (length as) (node l) = Some (Some b)"
      using walk_chain [of h "node l" as "y # bs" None] ch by (simp add: ps y)
    then have w: "walk h ?i (node l) = Some (Some b)" by (simp only: las)
    have n0: "nb_elt l \<noteq> 0" using n False by auto
    have "nx = None" if "?pos = int (length ps)"
    proof -
      have "length as = length ps - 1" unfolding las that by auto
      then have "bs = []" using ps by simp
      then show ?thesis using bs by simp
    qed
    then have "osip_list_add None h (Some l) el pos = Some (OSIP_NOMEM, h, Some l)"
      using n n0 False w hb by (auto simp: osip_list_add_def Let_def fun_upd_idem)
    then show thesis using that assms by simp
  qed
qed

text \<open>Removing an element frees exactly its node.\<close>

lemma lrel_remove:
  assumes l: "lrel h l ps" and pos: "0 \<le> pos" "pos < int (length ps)"
  shows "\<exists>h' l'. osip_list_remove h (Some l) pos = Some (int (length ps) - 1, h', Some l')
    \<and> lrel h' l' (l_remove ps pos) \<and> dom h' = dom h - {fst (ps ! nat pos)}
    \<and> (\<forall>b. b \<notin> fst ` set ps \<longrightarrow> h' b = h b)"
proof -
  have dist: "distinct (map fst ps)" and ch: "chain h (node l) ps None"
    and n: "nb_elt l = int (length ps)"
    using l by (simp_all add: lrel_def)
  have "nat pos < length ps" using pos by auto
  then obtain as y bs where ps: "ps = as @ y # bs" and las: "length as = nat pos"
    by (rule split_at)
  obtain a x where y: "y = (a, x)" by (cases y)
  have at: "ps ! nat pos = (a, x)" by (simp add: ps y flip: las)
  have spec: "l_remove ps pos = as @ bs"
  proof -
    have "l_remove ps pos = take (length as) ps @ drop (Suc (length as)) ps"
      using pos by (simp add: l_remove_def las)
    then show ?thesis by (simp add: ps)
  qed
  obtain nx where ha: "h a = Some (x, nx)" and bs: "chain h nx bs None"
    and as: "chain h (node l) as (Some a)"
    using ch by (auto simp: ps y chain_append)
  have a: "a \<notin> fst ` set as" "a \<notin> fst ` set bs" using dist by (auto simp: ps y)
  show ?thesis
  proof (cases as rule: rev_cases)
    case Nil
    then have p0: "pos = 0" using las pos by simp
    have "node l = Some a" using as Nil by simp
    with p0 have "osip_list_remove h (Some l) pos
        = Some (nb_elt l - 1, h(a := None), Some (l\<lparr>nb_elt := nb_elt l - 1, node := nx\<rparr>))"
      using n ha by (simp add: osip_list_remove_def ps)
    then show ?thesis
      using n bs dist a spec p0 by (auto simp: lrel_def ps y Nil)
  next
    case (snoc as' z)
    obtain b u where z: "z = (b, u)" by (cases z)
    have p0: "pos \<noteq> 0" "nat (pos - 1) = length as'" using las pos snoc by auto
    have "walk h (length as') (node l) = Some (Some b)"
      using walk_chain [of h "node l" as' "z # y # bs" None] ch by (simp add: ps snoc z)
    then have w: "walk h (nat (pos - 1)) (node l) = Some (Some b)" by (simp only: p0)
    have hb: "h b = Some (u, Some a)" and as': "chain h (node l) as' (Some b)"
      using as by (auto simp: snoc z chain_append)
    have ab: "b \<noteq> a" "b \<notin> fst ` set as'" "b \<notin> fst ` set bs" "a \<notin> fst ` set as'"
      using dist a by (auto simp: ps y snoc z)
    have rm: "osip_list_remove h (Some l) pos
        = Some (nb_elt l - 1, (h(b \<mapsto> (u, nx)))(a := None), Some (l\<lparr>nb_elt := nb_elt l - 1\<rparr>))"
      using n p0 pos w hb ha by (simp add: osip_list_remove_def)
    have "chain ((h(b \<mapsto> (u, nx)))(a := None)) (node l) (as @ bs) None"
      using as' bs a ab by (auto simp: chain_append snoc z)
    moreover have "fst (ps ! nat pos) = a" by (simp add: at)
    moreover have "distinct (map fst (as @ bs))" using dist by (auto simp: ps)
    moreover have "length ps = Suc (length (as @ bs))" by (simp add: ps)
    moreover have "b \<in> fst ` set ps" "a \<in> fst ` set ps" by (auto simp: ps y snoc z)
    ultimately show ?thesis
      using n ab hb ha spec rm by (auto simp: lrel_def)
  qed
qed

lemma l_remove_map: "map f (l_remove xs pos) = l_remove (map f xs) pos"
  by (auto simp: l_remove_def take_map drop_map)

lemma osip_list_remove_refines:
  assumes "list_on h l xs" "0 \<le> pos" "pos < int (length xs)"
  obtains h' l' where
    "osip_list_remove h (Some l) pos = Some (int (length xs) - 1, h', Some l')"
    "list_on h' l' (l_remove xs pos)" "dom h' \<subseteq> dom h"
proof -
  from assms(1) obtain ps where l: "lrel h l ps" and xs: "map snd ps = xs"
    by (auto simp: list_on_def)
  then have len: "length ps = length xs" by auto
  from lrel_remove [OF l assms(2)] assms(3) len obtain h' l' where
    rm: "osip_list_remove h (Some l) pos = Some (int (length ps) - 1, h', Some l')"
    and rel: "lrel h' l' (l_remove ps pos)" and d: "dom h' = dom h - {fst (ps ! nat pos)}"
    by auto
  have "list_on h' l' (l_remove xs pos)"
    unfolding list_on_def using rel xs by (intro exI [of _ "l_remove ps pos"]) (simp add: l_remove_map)
  then show thesis using that rm d len by auto
qed

lemma osip_list_remove_out:
  assumes "list_on h l xs" "pos < 0 \<or> pos \<ge> int (length xs)"
  shows "osip_list_remove h (Some l) pos = Some (OSIP_UNDEFINED_ERROR, h, Some l)"
  using assms by (auto simp: osip_list_remove_def list_on_def lrel_def)

section \<open>Iterators\<close>

text \<open>\<open>at_elem l ps it i\<close>: the iterator stands on element \<open>i\<close>, or behind the last one.\<close>

definition at_elem :: "(nat \<times> 'a) list \<Rightarrow> osip_list_iterator \<Rightarrow> nat \<Rightarrow> bool" where
  "at_elem ps it i \<longleftrightarrow> i \<le> length ps \<and>
    (if i = length ps then actual it = None
     else actual it = Some (fst (ps ! i)) \<and> it_pos it = int i
       \<and> prev it = (if i = 0 then HeadOf else NextOf (fst (ps ! (i - 1)))))"

lemma has_elem_iff:
  "lrel h l ps \<Longrightarrow> at_elem ps it i \<Longrightarrow> osip_list_iterator_has_elem l it \<longleftrightarrow> i < length ps"
  by (auto simp: osip_list_iterator_has_elem_def at_elem_def lrel_def split: if_splits)

lemma lrel_nth:
  assumes "lrel h l ps" "i < length ps"
  shows "h (fst (ps ! i)) = Some (snd (ps ! i), if Suc i = length ps then None else Some (fst (ps ! Suc i)))"
proof -
  obtain as y bs where ps: "ps = as @ y # bs" and i: "length as = i" using assms(2) by (rule split_at)
  have "chain h (node l) (as @ y # bs) None" using assms(1) by (simp add: lrel_def ps)
  then obtain nx where "h (fst y) = Some (snd y, nx)" "chain h nx bs None"
    by (cases y) (auto simp: chain_append)
  moreover have "nx = (if bs = [] then None else Some (fst (hd bs)))"
    using \<open>chain h nx bs None\<close> by (cases bs) (auto dest: chain_head)
  ultimately show ?thesis
    by (cases bs) (auto simp: ps nth_append simp flip: i)
qed

lemma get_first_refines:
  assumes "lrel h l ps"
  obtains it' where "osip_list_get_first h l it = Some (l_get (map snd ps) 0, it')" "at_elem ps it' 0"
proof (cases ps)
  case Nil
  then show thesis using that assms
    by (simp add: osip_list_get_first_def lrel_def at_elem_def)
next
  case (Cons p ps')
  then have "node l = Some (fst p)"
    using assms by (auto simp: lrel_def dest: chain_head)
  show thesis
    by (rule that [of "it\<lparr>actual := node l, prev := HeadOf, it_pos := 0\<rparr>"])
      (use assms Cons \<open>node l = _\<close> lrel_nth [OF assms, of 0] in
        \<open>simp_all add: osip_list_get_first_def lrel_def at_elem_def\<close>)
qed

lemma get_next_refines:
  assumes l: "lrel h l ps" and it: "at_elem ps it i" "i < length ps"
  obtains it' where "osip_list_get_next h l it = Some (l_get (map snd ps) (int (Suc i)), it')"
    "at_elem ps it' (Suc i)"
proof (cases "Suc i = length ps")
  case True
  then show thesis using that it lrel_nth [OF l it(2)]
    by (simp add: osip_list_get_next_def at_elem_def osip_list_iterator_has_elem_def l_get_def)
next
  case False
  then have "Suc i < length ps" using it(2) by simp
  show thesis
    by (rule that [of "it\<lparr>prev := NextOf (fst (ps ! i)), actual := Some (fst (ps ! Suc i)),
            it_pos := it_pos it + 1\<rparr>"])
      (use \<open>Suc i < length ps\<close> it lrel_nth [OF l it(2)] lrel_nth [OF l, of "Suc i"] l in
        \<open>simp_all add: osip_list_get_next_def at_elem_def osip_list_iterator_has_elem_def lrel_def
          l_get_def nat_add_distrib\<close>)
qed

text \<open>Removing at the iterator frees the node it stands on and moves it to the next one.\<close>

lemma iterator_remove_refines:
  assumes l: "lrel h l ps" and it: "at_elem ps it i" "i < length ps"
  obtains h' l' it' where
    "osip_list_iterator_remove h l it = Some (l_get (map snd ps) (int (Suc i)), h', l', it')"
    "lrel h' l' (l_remove ps (int i))" "at_elem (l_remove ps (int i)) it' i"
proof -
  have dist: "distinct (map fst ps)" and ch: "chain h (node l) ps None"
    and n: "nb_elt l = int (length ps)"
    using l by (simp_all add: lrel_def)
  obtain as y bs where ps: "ps = as @ y # bs" and las: "length as = i"
    using it(2) by (rule split_at)
  obtain a x where y: "y = (a, x)" by (cases y)
  have spec: "l_remove ps (int i) = as @ bs" by (simp add: l_remove_def ps flip: las)
  obtain nx where ha: "h a = Some (x, nx)" and bs: "chain h nx bs None"
    and as: "chain h (node l) as (Some a)"
    using ch by (auto simp: ps y chain_append)
  have a: "a \<notin> fst ` set as" "a \<notin> fst ` set bs" using dist by (auto simp: ps y)
  have act: "actual it = Some a" "it_pos it = int i"
    using it by (auto simp: at_elem_def ps y simp flip: las)
  have nxb: "nx = (if bs = [] then None else Some (fst (hd bs)))"
    using bs by (cases bs) (auto dest: chain_head)
  have next_elem: "h (fst (hd bs)) \<noteq> None \<and> fst (the (h (fst (hd bs)))) = snd (hd bs)" if "bs \<noteq> []"
    using that bs by (cases bs) auto
  have hdb: "fst (hd bs) \<noteq> a" if "bs \<noteq> []" using that a by (cases bs) auto
  have get: "l_get (map snd ps) (int (Suc i)) = (if bs = [] then None else Some (snd (hd bs)))"
    by (cases bs) (auto simp: l_get_def ps nth_append simp flip: las)
  let ?it = "it\<lparr>actual := nx\<rparr>"
  let ?l = "\<lambda>l. l\<lparr>nb_elt := nb_elt l - 1\<rparr>"
  have at': "at_elem (as @ bs) ?it i"
    using it act nxb by (cases bs) (auto simp: at_elem_def ps nth_append simp flip: las split: if_splits)
  show thesis
  proof (cases as rule: rev_cases)
    case Nil
    let ?h' = "h(a := None)" and ?l' = "l\<lparr>nb_elt := nb_elt l - 1, node := nx\<rparr>"
    have "prev it = HeadOf" using it las Nil by (auto simp: at_elem_def)
    then have rm: "osip_list_iterator_remove h l it = Some (l_get (map snd ps) (int (Suc i)), ?h', ?l', ?it)"
      using act ha n nxb next_elem hdb las Nil unfolding get
      by (auto simp: osip_list_iterator_remove_def osip_list_iterator_has_elem_def ps)
    show thesis
      by (rule that [OF rm]) (use n bs dist a at' spec in \<open>auto simp: lrel_def ps y Nil\<close>)
  next
    case (snoc as' z)
    obtain b u where z: "z = (b, u)" by (cases z)
    have prev: "prev it = NextOf b"
      using it las by (auto simp: at_elem_def ps snoc z nth_append)
    have hb: "h b = Some (u, Some a)" and as': "chain h (node l) as' (Some b)"
      using as by (auto simp: snoc z chain_append)
    have ab: "b \<noteq> a" "b \<notin> fst ` set as'" "b \<notin> fst ` set bs" "a \<notin> fst ` set as'"
      using dist a by (auto simp: ps y snoc z)
    have hdb': "fst (hd bs) \<noteq> b" if "bs \<noteq> []" using that ab by (cases bs) auto
    let ?h' = "(h(b \<mapsto> (u, nx)))(a := None)" and ?l' = "l\<lparr>nb_elt := nb_elt l - 1\<rparr>"
    have rm: "osip_list_iterator_remove h l it = Some (l_get (map snd ps) (int (Suc i)), ?h', ?l', ?it)"
      using act ha hb prev n nxb next_elem hdb hdb' las unfolding get
      by (auto simp: osip_list_iterator_remove_def osip_list_iterator_has_elem_def ps snoc)
    have "chain ?h' (node l) (as @ bs) None"
      using as' bs a ab by (auto simp: chain_append snoc z)
    then show thesis
      by (intro that [OF rm]) (use n dist ab at' spec in \<open>auto simp: lrel_def ps y snoc z\<close>)
  qed
qed

section \<open>List operations with the allocator\<close>

text \<open>
  What the other theories use: a list and the allocator in place of the heap. The callers of
  \<^verbatim>\<open>osip_list_add\<close> ignore its result, so an element whose node cannot be allocated is not
  added. \<^verbatim>\<open>osip_list_clone\<close> stops at the first element that cannot be cloned and leaves the
  clones made so far in the destination.
\<close>

definition list_add :: "'a list \<Rightarrow> 'a \<Rightarrow> int \<Rightarrow> mem \<Rightarrow> 'a list \<times> mem" where
  "list_add xs el pos m =
    (case osip_malloc m of (ok, m) \<Rightarrow> (if ok then l_add xs el pos else xs, m))"

fun osip_list_clone ::
  "('a \<Rightarrow> mem \<Rightarrow> (int \<times> 'b option) \<times> mem) \<Rightarrow> 'a list \<Rightarrow> 'b list \<Rightarrow> mem
    \<Rightarrow> (int \<times> 'b list) \<times> mem" where
  "osip_list_clone clone_func [] dst m = ((OSIP_SUCCESS, dst), m)"
| "osip_list_clone clone_func (x # xs) dst m =
    (case clone_func x m of
       ((i, y), m) \<Rightarrow>
         if i \<noteq> 0 then ((i, dst), m)
         else (case y of
             None \<Rightarrow> ((i, dst), m)
           | Some z \<Rightarrow> (case list_add dst z (-1) m of
                 (dst, m) \<Rightarrow> osip_list_clone clone_func xs dst m)))"

text \<open>The operation on lists is what the code does on a heap that represents the list.\<close>

lemma list_add_refines:
  assumes "list_on h l xs" "a \<notin> dom h"
  obtains r h' l' where
    "osip_list_add (if fst (osip_malloc m) then Some a else None) h (Some l) el pos
      = Some (r, h', Some l')"
    "list_on h' l' (fst (list_add xs el pos m))"
    "r = (if fst (osip_malloc m) then int (length xs) + 1 else OSIP_NOMEM)"
proof (cases "osip_malloc m")
  case (Pair ok m')
  show thesis
  proof (cases ok)
    case True
    obtain h' l' where "osip_list_add (Some a) h (Some l) el pos = Some (int (length xs) + 1, h', Some l')"
      "list_on h' l' (l_add xs el pos)"
      using osip_list_add_refines [OF assms, of el pos] by blast
    with True Pair show thesis by (intro that) (simp_all add: list_add_def)
  next
    case False
    obtain h' l' where "osip_list_add None h (Some l) el pos = Some (OSIP_NOMEM, h', Some l')"
      "list_on h' l' xs"
      using osip_list_add_nomem [OF assms(1), of el pos] by blast
    with False Pair show thesis by (intro that) (simp_all add: list_add_def)
  qed
qed

text \<open>A clone that copies every element copies the list.\<close>

lemma osip_list_clone_copies:
  assumes "\<And>x m. x \<in> set xs \<Longrightarrow> never_fails m
      \<Longrightarrow> \<exists>m'. f x m = ((0, Some (g x)), m') \<and> never_fails m'" "never_fails m"
  shows "\<exists>m'. osip_list_clone f xs dst m = ((0, dst @ map g xs), m') \<and> never_fails m'"
  using assms
proof (induction xs arbitrary: dst m)
  case Nil
  then show ?case by simp
next
  case (Cons x xs)
  from Cons.prems(1) [of x m] Cons.prems(2) obtain m1 where
    m1: "f x m = ((0, Some (g x)), m1)" "never_fails m1" by auto
  obtain m2 where m2: "osip_malloc m1 = (True, m2)" "never_fails m2"
    using osip_malloc_never_fails [OF m1(2)] by blast
  show ?case
    using Cons.IH [of m2 "dst @ [g x]"] Cons.prems(1) m1 m2 by (simp add: list_add_def)
qed

end
