(* ===== verification/Osip_Headers.thy ===== *)
theory Osip_Headers
  imports Osip_List
begin

text \<open>
  The headers the transaction and dialog layers work on, from \<^verbatim>\<open>osip_uri.c\<close>,
  \<^verbatim>\<open>osip_via.c\<close>, \<^verbatim>\<open>osip_from.c\<close>, \<^verbatim>\<open>osip_to.c\<close>, \<^verbatim>\<open>osip_call_id.c\<close>, \<^verbatim>\<open>osip_cseq.c\<close> and
  \<^verbatim>\<open>osip_authorization.c\<close>: their records, accessors, comparisons and clones, with every
  allocation the code makes. A header is a value here: no two messages share one, and freeing
  it is forgetting it. Route, record route, contact and To headers are the From record, as
  in the code.
\<close>

section \<open>Parameters\<close>

record osip_uri_param =
  gname :: cstr
  gvalue :: cstr

type_synonym osip_generic_param = osip_uri_param

text \<open>
  The result is the code and \<^verbatim>\<open>*url_param\<close>. A parameter whose name is NULL makes
  \<^verbatim>\<open>strlen\<close> follow a NULL pointer.
\<close>

fun osip_uri_param_find ::
  "osip_uri_param list \<Rightarrow> string \<Rightarrow> (int \<times> osip_uri_param option) option" where
  "osip_uri_param_find [] pname = Some (OSIP_UNDEFINED_ERROR, None)"
| "osip_uri_param_find (p # ps) pname =
    do {
      n \<leftarrow> gname p;
      if length pname = length n \<and> osip_strcasecmp_eq n pname
      then Some (OSIP_SUCCESS, Some p)
      else osip_uri_param_find ps pname
    }"

definition osip_uri_param_get_byname ::
  "osip_uri_param list \<Rightarrow> cstr \<Rightarrow> (int \<times> osip_uri_param option) option" where
  "osip_uri_param_get_byname params pname =
    (case pname of
       None \<Rightarrow> Some (OSIP_BADPARAMETER, None)
     | Some n \<Rightarrow> if length n = 0 then Some (OSIP_BADPARAMETER, None)
                else osip_uri_param_find params n)"

text \<open>What the callers of \<^verbatim>\<open>osip_generic_param_get_byname\<close> use: the parameter found.\<close>

definition param_byname ::
  "osip_uri_param list \<Rightarrow> string \<Rightarrow> osip_uri_param option option" where
  "param_byname params n = do { (i, p) \<leftarrow> osip_uri_param_get_byname params (Some n); Some p }"

definition named :: "osip_uri_param list \<Rightarrow> bool" where
  "named params \<longleftrightarrow> (\<forall>p \<in> set params. gname p \<noteq> None)"

lemma named_simps [simp]:
  "named []"
  "named (p # ps) \<longleftrightarrow> gname p \<noteq> None \<and> named ps"
  "named (ps @ qs) \<longleftrightarrow> named ps \<and> named qs"
  by (auto simp: named_def)

definition has_name :: "string \<Rightarrow> osip_uri_param \<Rightarrow> bool" where
  "has_name n p \<longleftrightarrow> (\<exists>s. gname p = Some s \<and> osip_strcasecmp_eq s n)"

lemma param_byname_find:
  assumes "named params" "n \<noteq> []"
  shows "param_byname params n = Some (List.find (has_name n) params)"
proof -
  have "osip_uri_param_find params n
      = Some (case List.find (has_name n) params of None \<Rightarrow> (OSIP_UNDEFINED_ERROR, None)
              | Some p \<Rightarrow> (OSIP_SUCCESS, Some p))"
    using assms(1)
  proof (induction params)
    case (Cons p ps)
    have len: "osip_strcasecmp_eq s n \<Longrightarrow> length n = length s" for s
      by (simp add: osip_strcasecmp_eq_length)
    show ?case using Cons by (auto simp: has_name_def len split: option.split)
  qed simp
  then show ?thesis
    using assms(2)
    by (simp add: param_byname_def osip_uri_param_get_byname_def split: option.split)
qed

lemma param_byname_defined: "named params \<Longrightarrow> n \<noteq> [] \<Longrightarrow> param_byname params n \<noteq> None"
  by (simp add: param_byname_find)

section \<open>Headers\<close>

record osip_uri =
  uri_scheme :: cstr
  uri_username :: cstr
  uri_password :: cstr
  uri_host :: cstr
  uri_port :: cstr
  url_params :: "osip_uri_param list"
  url_headers :: "osip_uri_param list"
  uri_string :: cstr

record osip_via =
  via_version :: cstr
  via_protocol :: cstr
  via_host :: cstr
  via_port :: cstr
  via_comment :: cstr
  via_params :: "osip_generic_param list"

record osip_from =
  displayname :: cstr
  url :: "osip_uri option"
  gen_params :: "osip_generic_param list"

type_synonym osip_to = osip_from
type_synonym osip_route = osip_from
type_synonym osip_record_route = osip_from
type_synonym osip_contact = osip_from

record osip_call_id =
  callid_number :: cstr
  callid_host :: cstr

record osip_cseq =
  cseq_method :: cstr
  cseq_number :: cstr

record osip_authorization =
  auth_type :: cstr
  auth_username :: cstr
  auth_realm :: cstr
  auth_nonce :: cstr
  auth_uri :: cstr
  auth_response :: cstr
  auth_digest :: cstr
  auth_algorithm :: cstr
  auth_cnonce :: cstr
  auth_opaque :: cstr
  auth_message_qop :: cstr
  auth_nonce_count :: cstr
  auth_version :: cstr
  auth_targetname :: cstr
  auth_gssapi_data :: cstr
  auth_crand :: cstr
  auth_cnum :: cstr
  auth_param :: cstr

definition osip_uri_init :: osip_uri where
  "osip_uri_init = \<lparr>uri_scheme = None, uri_username = None, uri_password = None,
    uri_host = None, uri_port = None, url_params = [], url_headers = [], uri_string = None\<rparr>"

definition osip_via_init :: osip_via where
  "osip_via_init = \<lparr>via_version = None, via_protocol = None, via_host = None, via_port = None,
    via_comment = None, via_params = []\<rparr>"

definition osip_from_init :: osip_from where
  "osip_from_init = \<lparr>displayname = None, url = None, gen_params = []\<rparr>"

definition osip_call_id_init :: osip_call_id where
  "osip_call_id_init = \<lparr>callid_number = None, callid_host = None\<rparr>"

definition osip_cseq_init :: osip_cseq where
  "osip_cseq_init = \<lparr>cseq_method = None, cseq_number = None\<rparr>"

definition osip_authorization_init :: osip_authorization where
  "osip_authorization_init = \<lparr>auth_type = None, auth_username = None, auth_realm = None,
    auth_nonce = None, auth_uri = None, auth_response = None, auth_digest = None,
    auth_algorithm = None, auth_cnonce = None, auth_opaque = None, auth_message_qop = None,
    auth_nonce_count = None, auth_version = None, auth_targetname = None,
    auth_gssapi_data = None, auth_crand = None, auth_cnum = None, auth_param = None\<rparr>"

section \<open>Clones\<close>

text \<open>
  The steps of a clone, in continuation style: an allocation whose failure the code checks,
  one it does not, and a call whose error code the caller passes on.
\<close>

definition checked_malloc ::
  "mem \<Rightarrow> (mem \<Rightarrow> (int \<times> 'a option) \<times> mem) \<Rightarrow> (int \<times> 'a option) \<times> mem" where
  "checked_malloc m k =
    (case osip_malloc m of (ok, m) \<Rightarrow> if ok then k m else ((OSIP_NOMEM, None), m))"

definition checked_strdup ::
  "cstr \<Rightarrow> mem \<Rightarrow> (cstr \<Rightarrow> mem \<Rightarrow> (int \<times> 'a option) \<times> mem) \<Rightarrow> (int \<times> 'a option) \<times> mem" where
  "checked_strdup s m k =
    (case osip_strdup s m of (r, m) \<Rightarrow>
       if s \<noteq> None \<and> r = None then ((OSIP_NOMEM, None), m) else k r m)"

definition unchecked_strdup ::
  "cstr \<Rightarrow> mem \<Rightarrow> (cstr \<Rightarrow> mem \<Rightarrow> (int \<times> 'a option) \<times> mem) \<Rightarrow> (int \<times> 'a option) \<times> mem" where
  "unchecked_strdup s m k = (case osip_strdup s m of (r, m) \<Rightarrow> k r m)"

definition checked_call ::
  "(int \<times> 'b) \<times> mem \<Rightarrow> ('b \<Rightarrow> mem \<Rightarrow> (int \<times> 'a option) \<times> mem) \<Rightarrow> (int \<times> 'a option) \<times> mem" where
  "checked_call r k = (case r of ((i, x), m) \<Rightarrow> if i \<noteq> 0 then ((i, None), m) else k x m)"

definition osip_uri_param_clone ::
  "osip_uri_param \<Rightarrow> mem \<Rightarrow> (int \<times> osip_uri_param option) \<times> mem" where
  "osip_uri_param_clone p m =
    (if gname p = None then ((OSIP_BADPARAMETER, None), m)
     else checked_malloc m (\<lambda>m.
       unchecked_strdup (gname p) m (\<lambda>n m.
       unchecked_strdup (gvalue p) m (\<lambda>v m.
       ((OSIP_SUCCESS, Some \<lparr>gname = n, gvalue = v\<rparr>), m)))))"

definition osip_uri_clone ::
  "osip_uri option \<Rightarrow> mem \<Rightarrow> (int \<times> osip_uri option) \<times> mem" where
  "osip_uri_clone u m =
    (case u of
       None \<Rightarrow> ((OSIP_BADPARAMETER, None), m)
     | Some u \<Rightarrow>
         if uri_host u = None \<and> uri_string u = None then ((OSIP_BADPARAMETER, None), m)
         else checked_malloc m (\<lambda>m.
           unchecked_strdup (uri_scheme u) m (\<lambda>scheme m.
           unchecked_strdup (uri_username u) m (\<lambda>username m.
           unchecked_strdup (uri_password u) m (\<lambda>password m.
           unchecked_strdup (uri_host u) m (\<lambda>host m.
           unchecked_strdup (uri_port u) m (\<lambda>port m.
           unchecked_strdup (uri_string u) m (\<lambda>string m.
           checked_call (osip_list_clone osip_uri_param_clone (url_params u) [] m) (\<lambda>params m.
           checked_call (osip_list_clone osip_uri_param_clone (url_headers u) [] m) (\<lambda>headers m.
           ((OSIP_SUCCESS,
             Some \<lparr>uri_scheme = scheme, uri_username = username, uri_password = password,
               uri_host = host, uri_port = port, url_params = params, url_headers = headers,
               uri_string = string\<rparr>), m)))))))))))"

definition osip_via_clone ::
  "osip_via option \<Rightarrow> mem \<Rightarrow> (int \<times> osip_via option) \<times> mem" where
  "osip_via_clone v m =
    (case v of
       None \<Rightarrow> ((OSIP_BADPARAMETER, None), m)
     | Some v \<Rightarrow>
         if via_version v = None then ((OSIP_BADPARAMETER, None), m)
         else if via_protocol v = None then ((OSIP_BADPARAMETER, None), m)
         else if via_host v = None then ((OSIP_BADPARAMETER, None), m)
         else checked_malloc m (\<lambda>m.
           checked_strdup (via_version v) m (\<lambda>version m.
           checked_strdup (via_protocol v) m (\<lambda>protocol m.
           checked_strdup (via_host v) m (\<lambda>host m.
           checked_strdup (via_port v) m (\<lambda>port m.
           checked_strdup (via_comment v) m (\<lambda>comment m.
           checked_call (osip_list_clone osip_uri_param_clone (via_params v) [] m) (\<lambda>params m.
           ((OSIP_SUCCESS,
             Some \<lparr>via_version = version, via_protocol = protocol, via_host = host,
               via_port = port, via_comment = comment, via_params = params\<rparr>), m)))))))))"

definition osip_from_clone ::
  "osip_from option \<Rightarrow> mem \<Rightarrow> (int \<times> osip_from option) \<times> mem" where
  "osip_from_clone f m =
    (case f of
       None \<Rightarrow> ((OSIP_BADPARAMETER, None), m)
     | Some f \<Rightarrow>
         checked_malloc m (\<lambda>m.
         checked_strdup (displayname f) m (\<lambda>name m.
         checked_call (if url f = None then ((OSIP_SUCCESS, None), m)
                       else osip_uri_clone (url f) m) (\<lambda>u m.
         checked_call (osip_list_clone osip_uri_param_clone (gen_params f) [] m) (\<lambda>params m.
         ((OSIP_SUCCESS, Some \<lparr>displayname = name, url = u, gen_params = params\<rparr>), m))))))"

definition osip_to_clone ::
  "osip_to option \<Rightarrow> mem \<Rightarrow> (int \<times> osip_to option) \<times> mem" where
  "osip_to_clone to m = osip_from_clone to m"

text \<open>\<^verbatim>\<open>osip_call_id_clone\<close> and \<^verbatim>\<open>osip_cseq_clone\<close> do not check the copies of their strings.\<close>

definition osip_call_id_clone ::
  "osip_call_id option \<Rightarrow> mem \<Rightarrow> (int \<times> osip_call_id option) \<times> mem" where
  "osip_call_id_clone c m =
    (case c of
       None \<Rightarrow> ((OSIP_BADPARAMETER, None), m)
     | Some c \<Rightarrow>
         if callid_number c = None then ((OSIP_BADPARAMETER, None), m)
         else checked_malloc m (\<lambda>m.
           unchecked_strdup (callid_number c) m (\<lambda>number m.
           unchecked_strdup (callid_host c) m (\<lambda>host m.
           ((OSIP_SUCCESS, Some \<lparr>callid_number = number, callid_host = host\<rparr>), m)))))"

definition osip_cseq_clone ::
  "osip_cseq option \<Rightarrow> mem \<Rightarrow> (int \<times> osip_cseq option) \<times> mem" where
  "osip_cseq_clone c m =
    (case c of
       None \<Rightarrow> ((OSIP_BADPARAMETER, None), m)
     | Some c \<Rightarrow>
         if cseq_method c = None then ((OSIP_BADPARAMETER, None), m)
         else if cseq_number c = None then ((OSIP_BADPARAMETER, None), m)
         else checked_malloc m (\<lambda>m.
           unchecked_strdup (cseq_method c) m (\<lambda>method m.
           unchecked_strdup (cseq_number c) m (\<lambda>number m.
           ((OSIP_SUCCESS, Some \<lparr>cseq_method = method, cseq_number = number\<rparr>), m)))))"

text \<open>
  Several of the checks of \<^verbatim>\<open>osip_authorization_clone\<close> test the field of the source instead
  of the copy, so they never fire: those copies are unchecked. \<^verbatim>\<open>auth_param\<close> is not copied.
\<close>

definition osip_authorization_clone ::
  "osip_authorization \<Rightarrow> mem \<Rightarrow> (int \<times> osip_authorization option) \<times> mem" where
  "osip_authorization_clone a m =
    checked_malloc m (\<lambda>m.
    checked_strdup (auth_type a) m (\<lambda>type m.
    checked_strdup (auth_username a) m (\<lambda>username m.
    unchecked_strdup (auth_realm a) m (\<lambda>realm m.
    unchecked_strdup (auth_nonce a) m (\<lambda>nonce m.
    checked_strdup (auth_uri a) m (\<lambda>uri m.
    unchecked_strdup (auth_response a) m (\<lambda>response m.
    checked_strdup (auth_digest a) m (\<lambda>digest m.
    unchecked_strdup (auth_algorithm a) m (\<lambda>algorithm m.
    checked_strdup (auth_cnonce a) m (\<lambda>cnonce m.
    unchecked_strdup (auth_opaque a) m (\<lambda>opaque m.
    unchecked_strdup (auth_message_qop a) m (\<lambda>message_qop m.
    unchecked_strdup (auth_nonce_count a) m (\<lambda>nonce_count m.
    unchecked_strdup (auth_version a) m (\<lambda>version m.
    unchecked_strdup (auth_targetname a) m (\<lambda>targetname m.
    unchecked_strdup (auth_gssapi_data a) m (\<lambda>gssapi_data m.
    unchecked_strdup (auth_crand a) m (\<lambda>crand m.
    unchecked_strdup (auth_cnum a) m (\<lambda>cnum m.
    ((OSIP_SUCCESS,
      Some \<lparr>auth_type = type, auth_username = username, auth_realm = realm, auth_nonce = nonce,
        auth_uri = uri, auth_response = response, auth_digest = digest,
        auth_algorithm = algorithm, auth_cnonce = cnonce, auth_opaque = opaque,
        auth_message_qop = message_qop, auth_nonce_count = nonce_count, auth_version = version,
        auth_targetname = targetname, auth_gssapi_data = gssapi_data, auth_crand = crand,
        auth_cnum = cnum, auth_param = None\<rparr>), m)))))))))))))))))))"

section \<open>What a clone copies\<close>

lemma checked_malloc_ok:
  "never_fails m \<Longrightarrow> (\<And>m. never_fails m \<Longrightarrow> \<exists>m'. k m = (r, m') \<and> never_fails m')
    \<Longrightarrow> \<exists>m'. checked_malloc m k = (r, m') \<and> never_fails m'"
  using osip_malloc_never_fails [of m] by (auto simp: checked_malloc_def)

lemma checked_strdup_ok:
  "never_fails m \<Longrightarrow> (\<And>m. never_fails m \<Longrightarrow> \<exists>m'. k s m = (r, m') \<and> never_fails m')
    \<Longrightarrow> \<exists>m'. checked_strdup s m k = (r, m') \<and> never_fails m'"
  using osip_strdup_never_fails [of m s] by (auto simp: checked_strdup_def)

lemma unchecked_strdup_ok:
  "never_fails m \<Longrightarrow> (\<And>m. never_fails m \<Longrightarrow> \<exists>m'. k s m = (r, m') \<and> never_fails m')
    \<Longrightarrow> \<exists>m'. unchecked_strdup s m k = (r, m') \<and> never_fails m'"
  using osip_strdup_never_fails [of m s] by (auto simp: unchecked_strdup_def)

lemma checked_call_ok:
  "\<exists>m'. c = ((0, x), m') \<and> never_fails m'
    \<Longrightarrow> (\<And>m. never_fails m \<Longrightarrow> \<exists>m'. k x m = (r, m') \<and> never_fails m')
    \<Longrightarrow> \<exists>m'. checked_call c k = (r, m') \<and> never_fails m'"
  by (auto simp: checked_call_def)

lemmas clone_ok = checked_malloc_ok checked_strdup_ok unchecked_strdup_ok

lemma osip_uri_param_clone_ok:
  "gname p \<noteq> None \<Longrightarrow> never_fails m
    \<Longrightarrow> \<exists>m'. osip_uri_param_clone p m = ((0, Some p), m') \<and> never_fails m'"
  unfolding osip_uri_param_clone_def by (simp, intro clone_ok) auto

lemma params_clone_ok:
  "named ps \<Longrightarrow> never_fails m
    \<Longrightarrow> \<exists>m'. osip_list_clone osip_uri_param_clone ps [] m = ((0, ps), m') \<and> never_fails m'"
  using osip_list_clone_copies [of ps osip_uri_param_clone id m "[]"] osip_uri_param_clone_ok
  by (auto simp: named_def)

lemmas params_call_ok = checked_call_ok [OF params_clone_ok]

definition uri_ok :: "osip_uri \<Rightarrow> bool" where
  "uri_ok u \<longleftrightarrow> (uri_host u \<noteq> None \<or> uri_string u \<noteq> None) \<and> named (url_params u) \<and> named (url_headers u)"

definition via_ok :: "osip_via \<Rightarrow> bool" where
  "via_ok v \<longleftrightarrow> via_version v \<noteq> None \<and> via_protocol v \<noteq> None \<and> via_host v \<noteq> None \<and> named (via_params v)"

definition from_ok :: "osip_from \<Rightarrow> bool" where
  "from_ok f \<longleftrightarrow> (\<forall>u. url f = Some u \<longrightarrow> uri_ok u) \<and> named (gen_params f)"

lemma osip_uri_clone_ok:
  assumes "uri_ok u" "never_fails m"
  shows "\<exists>m'. osip_uri_clone (Some u) m = ((0, Some u), m') \<and> never_fails m'"
proof -
  have "\<not> (uri_host u = None \<and> uri_string u = None)" "named (url_params u)" "named (url_headers u)"
    using assms by (auto simp: uri_ok_def)
  then show ?thesis
    unfolding osip_uri_clone_def using assms(2)
    by (simp del: de_Morgan_conj, intro clone_ok params_call_ok) auto
qed

lemma osip_via_clone_ok:
  assumes "via_ok v" "never_fails m"
  shows "\<exists>m'. osip_via_clone (Some v) m = ((0, Some v), m') \<and> never_fails m'"
proof -
  have "via_version v \<noteq> None" "via_protocol v \<noteq> None" "via_host v \<noteq> None" "named (via_params v)"
    using assms by (auto simp: via_ok_def)
  then show ?thesis
    unfolding osip_via_clone_def using assms(2)
    by (simp del: not_None_eq, intro clone_ok params_call_ok) auto
qed

lemma osip_from_clone_ok:
  assumes "from_ok f" "never_fails m"
  shows "\<exists>m'. osip_from_clone (Some f) m = ((0, Some f), m') \<and> never_fails m'"
proof -
  have u: "\<exists>m'. (if url f = None then ((OSIP_SUCCESS, None), m) else osip_uri_clone (url f) m)
      = ((0, url f), m') \<and> never_fails m'" if "never_fails m" for m
    using assms(1) that osip_uri_clone_ok by (cases "url f") (auto simp: from_ok_def)
  have "named (gen_params f)" using assms(1) by (simp add: from_ok_def)
  then show ?thesis
    unfolding osip_from_clone_def using assms(2)
    by (simp del: not_None_eq, intro clone_ok checked_call_ok [OF u] params_call_ok) auto
qed

lemma osip_call_id_clone_ok:
  assumes "callid_number c \<noteq> None" "never_fails m"
  shows "\<exists>m'. osip_call_id_clone (Some c) m = ((0, Some c), m') \<and> never_fails m'"
  unfolding osip_call_id_clone_def using assms
  by (simp del: not_None_eq, intro clone_ok) auto

lemma osip_cseq_clone_ok:
  assumes "cseq_method c \<noteq> None" "cseq_number c \<noteq> None" "never_fails m"
  shows "\<exists>m'. osip_cseq_clone (Some c) m = ((0, Some c), m') \<and> never_fails m'"
  unfolding osip_cseq_clone_def using assms
  by (simp del: not_None_eq, intro clone_ok) auto

lemma osip_authorization_clone_ok:
  assumes "never_fails m"
  shows "\<exists>m'. osip_authorization_clone a m = ((0, Some (a\<lparr>auth_param := None\<rparr>)), m') \<and> never_fails m'"
  unfolding osip_authorization_clone_def using assms by (intro clone_ok) auto

end
