(* ===== verification/Osip_Compare.thy ===== *)
theory Osip_Compare
  imports Osip_Headers
begin

text \<open>
  How headers are compared: \<^verbatim>\<open>osip_via_match\<close> through the printed form of the header,
  \<^verbatim>\<open>osip_call_id_match\<close>, \<^verbatim>\<open>osip_cseq_match\<close>, \<^verbatim>\<open>osip_from_compare\<close> and
  \<^verbatim>\<open>osip_from_tag_match\<close>. A printed header is built in a buffer whose size the code
  computes first; writing past it is \<^term>\<open>None\<close>, and so is using the NULL of a
  \<^verbatim>\<open>osip_realloc\<close> the code does not check.
\<close>

section \<open>Printing\<close>

fun via_params_to_str ::
  "osip_generic_param list \<Rightarrow> string \<Rightarrow> nat \<Rightarrow> mem \<Rightarrow> ((string \<times> nat) \<times> mem) option" where
  "via_params_to_str [] buf len m = Some ((buf, len), m)"
| "via_params_to_str (p # ps) buf len m =
    do {
      n \<leftarrow> gname p;
      let plen = (case gvalue p of None \<Rightarrow> length n + 2 | Some v \<Rightarrow> length n + length v + 3);
      let len = len + plen;
      let (ok, m) = osip_malloc m;
      ub_unless ok;
      let buf = buf @ (case gvalue p of None \<Rightarrow> '';'' @ n | Some v \<Rightarrow> '';'' @ n @ ''='' @ v);
      ub_unless (length buf < len);
      via_params_to_str ps buf len m
    }"

definition osip_via_to_str :: "osip_via option \<Rightarrow> mem \<Rightarrow> ((int \<times> cstr) \<times> mem) option" where
  "osip_via_to_str via m =
    (case via of None \<Rightarrow> Some ((OSIP_BADPARAMETER, None), m)
     | Some v \<Rightarrow>
       (case (via_host v, via_version v, via_protocol v) of
          (Some host, Some version, Some protocol) \<Rightarrow>
            let len = length version + 1 + length protocol + 1 + 3 + 2 + length host + 3 + 1
                + (case via_port v of None \<Rightarrow> 0 | Some p \<Rightarrow> length p + 2);
                (ok, m) = osip_malloc m
            in if \<not> ok then Some ((OSIP_NOMEM, None), m)
            else do {
              let buf = ''SIP/'' @ version @ ''/'' @ protocol @ '' ''
                @ (if CHR '':'' \<in> set host then ''['' @ host @ '']'' else host)
                @ (case via_port v of None \<Rightarrow> [] | Some p \<Rightarrow> '':'' @ p);
              ub_unless (length buf < len);
              ((buf, len), m) \<leftarrow> via_params_to_str (via_params v) buf len m;
              (case via_comment v of
                 None \<Rightarrow> Some ((OSIP_SUCCESS, Some buf), m)
               | Some c \<Rightarrow> do {
                   let len = len + length c + 4;
                   let (ok, m) = osip_malloc m;
                   ub_unless ok;
                   Some ((OSIP_SUCCESS, Some (take (len - 1) (buf @ '' ('' @ c @ '')''))), m)
                 })
            }
        | _ \<Rightarrow> Some ((OSIP_BADPARAMETER, None), m)))"

definition osip_call_id_to_str ::
  "osip_call_id option \<Rightarrow> mem \<Rightarrow> ((int \<times> cstr) \<times> mem) option" where
  "osip_call_id_to_str callid m =
    (case callid of None \<Rightarrow> Some ((OSIP_BADPARAMETER, None), m)
     | Some c \<Rightarrow>
       (case callid_number c of None \<Rightarrow> Some ((OSIP_BADPARAMETER, None), m)
        | Some n \<Rightarrow>
          (case osip_malloc m of (ok, m) \<Rightarrow>
             if \<not> ok then Some ((OSIP_NOMEM, None), m)
             else (case callid_host c of
                 None \<Rightarrow> do {
                   ub_unless (length n < length n + 1);
                   Some ((OSIP_SUCCESS, Some n), m) }
               | Some h \<Rightarrow> do {
                   ub_unless (length (n @ ''@'' @ h) < length n + length h + 2);
                   Some ((OSIP_SUCCESS, Some (n @ ''@'' @ h)), m) }))))"

section \<open>Matching\<close>

definition osip_via_match ::
  "osip_via option \<Rightarrow> osip_via option \<Rightarrow> mem \<Rightarrow> (int \<times> mem) option" where
  "osip_via_match via1 via2 m =
    (if via1 = None \<or> via2 = None then Some (OSIP_BADPARAMETER, m)
     else do {
       ((i, s1), m) \<leftarrow> osip_via_to_str via1 m;
       if i \<noteq> 0 then Some (i, m)
       else do {
         ((i, s2), m) \<leftarrow> osip_via_to_str via2 m;
         if i \<noteq> 0 then Some (i, m)
         else do {
           t1 \<leftarrow> s1;
           t2 \<leftarrow> s2;
           Some (if t1 \<noteq> t2 then OSIP_UNDEFINED_ERROR else OSIP_SUCCESS, m)
         }
       }
     })"

definition osip_cseq_match :: "osip_cseq option \<Rightarrow> osip_cseq option \<Rightarrow> int" where
  "osip_cseq_match cseq1 cseq2 =
    (case (cseq1, cseq2) of
       (Some c1, Some c2) \<Rightarrow>
         (case (cseq_number c1, cseq_number c2, cseq_method c1, cseq_method c2) of
            (Some n1, Some n2, Some m1, Some m2) \<Rightarrow>
              if n1 = n2
                \<and> (if m2 = ''INVITE'' \<or> m2 = ''ACK'' then m1 = ''INVITE'' \<or> m1 = ''ACK'' else m1 = m2)
              then OSIP_SUCCESS else OSIP_UNDEFINED_ERROR
          | _ \<Rightarrow> OSIP_BADPARAMETER)
     | _ \<Rightarrow> OSIP_BADPARAMETER)"

definition osip_call_id_match :: "osip_call_id option \<Rightarrow> osip_call_id option \<Rightarrow> int" where
  "osip_call_id_match callid1 callid2 =
    (case (callid1, callid2) of
       (Some c1, Some c2) \<Rightarrow>
         (case (callid_number c1, callid_number c2) of
            (Some n1, Some n2) \<Rightarrow>
              if n1 \<noteq> n2 then OSIP_UNDEFINED_ERROR
              else (case (callid_host c1, callid_host c2) of
                  (None, None) \<Rightarrow> OSIP_SUCCESS
                | (None, Some _) \<Rightarrow> OSIP_UNDEFINED_ERROR
                | (Some _, None) \<Rightarrow> OSIP_UNDEFINED_ERROR
                | (Some h1, Some h2) \<Rightarrow> if h1 \<noteq> h2 then OSIP_UNDEFINED_ERROR else OSIP_SUCCESS)
          | _ \<Rightarrow> OSIP_BADPARAMETER)
     | _ \<Rightarrow> OSIP_BADPARAMETER)"

definition osip_from_tag_match :: "osip_from option \<Rightarrow> osip_from option \<Rightarrow> int option" where
  "osip_from_tag_match from1 from2 =
    (case (from1, from2) of
       (Some f1, Some f2) \<Rightarrow> do {
         tag1 \<leftarrow> param_byname (gen_params f1) ''tag'';
         tag2 \<leftarrow> param_byname (gen_params f2) ''tag'';
         (case (tag1, tag2) of
            (None, None) \<Rightarrow> Some OSIP_SUCCESS
          | (Some t1, Some t2) \<Rightarrow>
              (case (gvalue t1, gvalue t2) of
                 (Some v1, Some v2) \<Rightarrow> Some (if v1 \<noteq> v2 then OSIP_UNDEFINED_ERROR else OSIP_SUCCESS)
               | _ \<Rightarrow> Some OSIP_UNDEFINED_ERROR)
          | _ \<Rightarrow> Some OSIP_UNDEFINED_ERROR)
       }
     | _ \<Rightarrow> Some OSIP_BADPARAMETER)"

definition osip_to_tag_match :: "osip_to option \<Rightarrow> osip_to option \<Rightarrow> int option" where
  "osip_to_tag_match to1 to2 = osip_from_tag_match to1 to2"

text \<open>The tag of \<^verbatim>\<open>osip_from_compare\<close>: the first parameter whose name begins with \<open>tag\<close>.\<close>

fun compare_tag :: "osip_generic_param list \<Rightarrow> cstr option" where
  "compare_tag [] = Some None"
| "compare_tag (p # ps) =
    do { n \<leftarrow> gname p; if take 3 n = ''tag'' then Some (gvalue p) else compare_tag ps }"

definition osip_from_compare :: "osip_from option \<Rightarrow> osip_from option \<Rightarrow> int option" where
  "osip_from_compare from1 from2 =
    (case (from1, from2) of
       (Some f1, Some f2) \<Rightarrow>
         (case (url f1, url f2) of
            (Some u1, Some u2) \<Rightarrow>
              if uri_host u1 = None \<and> uri_host u2 = None
                \<and> (uri_string u1 = None \<or> uri_string u2 = None) then Some OSIP_UNDEFINED_ERROR
              else if uri_host u1 = None \<and> uri_host u2 = None \<and> uri_string u1 = uri_string u2
              then Some OSIP_SUCCESS
              else if uri_host u1 = None \<or> uri_host u2 = None then Some OSIP_UNDEFINED_ERROR
              else if uri_host u1 \<noteq> uri_host u2 then Some OSIP_UNDEFINED_ERROR
              else if uri_username u1 \<noteq> None \<and> uri_username u2 \<noteq> None
                \<and> uri_username u1 \<noteq> uri_username u2 then Some OSIP_UNDEFINED_ERROR
              else do {
                tag1 \<leftarrow> compare_tag (gen_params f1);
                tag2 \<leftarrow> compare_tag (gen_params f2);
                Some (if tag1 \<noteq> None \<and> tag2 \<noteq> None \<and> tag1 \<noteq> tag2
                      then OSIP_UNDEFINED_ERROR else OSIP_SUCCESS)
              }
          | _ \<Rightarrow> Some OSIP_BADPARAMETER)
     | _ \<Rightarrow> Some OSIP_BADPARAMETER)"

section \<open>What they compute\<close>

text \<open>The text of a Via header, and that the buffers the code allocates hold it.\<close>

definition param_text :: "osip_generic_param \<Rightarrow> string" where
  "param_text p = '';'' @ the (gname p) @ (case gvalue p of None \<Rightarrow> [] | Some v \<Rightarrow> ''='' @ v)"

definition via_text :: "osip_via \<Rightarrow> string" where
  "via_text v =
    (let host = the (via_host v) in
     ''SIP/'' @ the (via_version v) @ ''/'' @ the (via_protocol v) @ '' ''
     @ (if CHR '':'' \<in> set host then ''['' @ host @ '']'' else host)
     @ (case via_port v of None \<Rightarrow> [] | Some p \<Rightarrow> '':'' @ p)
     @ concat (map param_text (via_params v))
     @ (case via_comment v of None \<Rightarrow> [] | Some c \<Rightarrow> '' ('' @ c @ '')''))"

lemma via_params_to_str_ok:
  assumes "named ps" "length buf < len" "never_fails m"
  shows "\<exists>len' m'. via_params_to_str ps buf len m
      = Some ((buf @ concat (map param_text ps), len'), m')
    \<and> length (buf @ concat (map param_text ps)) < len' \<and> never_fails m'"
  using assms
proof (induction ps arbitrary: buf len m)
  case Nil
  then show ?case by simp
next
  case (Cons p ps)
  obtain m1 where m1: "osip_malloc m = (True, m1)" "never_fails m1"
    using osip_malloc_never_fails [OF Cons.prems(3)] by blast
  obtain n where n: "gname p = Some n" "named ps" using Cons.prems(1) by auto
  let ?len = "len + (case gvalue p of None \<Rightarrow> length n + 2 | Some v \<Rightarrow> length n + length v + 3)"
  have fits: "length (buf @ param_text p) < ?len"
    using Cons.prems(2) n by (simp add: param_text_def split: option.split)
  have "via_params_to_str (p # ps) buf len m = via_params_to_str ps (buf @ param_text p) ?len m1"
    using fits n m1 by (simp add: param_text_def Let_def split: option.splits)
  then show ?case
    using Cons.IH [OF n(2) fits m1(2)] by simp
qed

lemma osip_via_to_str_ok:
  assumes "via_ok v" "never_fails m"
  shows "\<exists>m'. osip_via_to_str (Some v) m = Some ((OSIP_SUCCESS, Some (via_text v)), m') \<and> never_fails m'"
proof -
  obtain host version protocol where v:
    "via_host v = Some host" "via_version v = Some version" "via_protocol v = Some protocol"
    "named (via_params v)"
    using assms(1) by (auto simp: via_ok_def)
  obtain m1 where m1: "osip_malloc m = (True, m1)" "never_fails m1"
    using osip_malloc_never_fails [OF assms(2)] by blast
  let ?buf = "''SIP/'' @ version @ ''/'' @ protocol @ '' ''
    @ (if CHR '':'' \<in> set host then ''['' @ host @ '']'' else host)
    @ (case via_port v of None \<Rightarrow> [] | Some p \<Rightarrow> '':'' @ p)"
  let ?len = "length version + 1 + length protocol + 1 + 3 + 2 + length host + 3 + 1
    + (case via_port v of None \<Rightarrow> 0 | Some p \<Rightarrow> length p + 2)"
  let ?txt = "?buf @ concat (map param_text (via_params v))"
  have fits: "length ?buf < ?len" by (simp split: option.split)
  obtain len2 m2 where m2:
    "via_params_to_str (via_params v) ?buf ?len m1 = Some ((?txt, len2), m2)"
    "length ?txt < len2" "never_fails m2"
    using via_params_to_str_ok [OF v(4) fits m1(2)] by blast
  have start: "osip_via_to_str (Some v) m
      = (case via_comment v of
                 None \<Rightarrow> Some ((OSIP_SUCCESS, Some ?txt), m2)
               | Some c \<Rightarrow> do {
                   let len = len2 + length c + 4;
                   let (ok, m) = osip_malloc m2;
                   ub_unless ok;
                   Some ((OSIP_SUCCESS, Some (take (len - 1) (?txt @ '' ('' @ c @ '')''))), m)
                 })"
    unfolding osip_via_to_str_def using v(1-3) m1(1) fits m2(1)
    by (simp del: append.simps append_assoc add: Let_def)
  obtain m3 where m3: "osip_malloc m2 = (True, m3)" "never_fails m3"
    using osip_malloc_never_fails [OF m2(3)] by blast
  show ?thesis
  proof (cases "via_comment v")
    case None
    then show ?thesis using start m2(3) v by (auto simp: via_text_def)
  next
    case (Some c)
    have "take (len2 + length c + 4 - 1) (?txt @ '' ('' @ c @ '')'') = ?txt @ '' ('' @ c @ '')''"
      using m2(2) by (intro take_all) simp
    then show ?thesis using start m3 v Some by (auto simp: via_text_def)
  qed
qed

lemma osip_via_match_ok:
  assumes "via_ok v1" "via_ok v2" "never_fails m"
  shows "\<exists>m'. osip_via_match (Some v1) (Some v2) m
      = Some (if via_text v1 = via_text v2 then OSIP_SUCCESS else OSIP_UNDEFINED_ERROR, m')
    \<and> never_fails m'"
proof -
  obtain m1 where m1: "osip_via_to_str (Some v1) m = Some ((0, Some (via_text v1)), m1)" "never_fails m1"
    using osip_via_to_str_ok [OF assms(1,3)] by blast
  obtain m2 where m2: "osip_via_to_str (Some v2) m1 = Some ((0, Some (via_text v2)), m2)" "never_fails m2"
    using osip_via_to_str_ok [OF assms(2) m1(2)] by blast
  show ?thesis unfolding osip_via_match_def using m1(1) m2 by simp
qed

definition callid_text :: "osip_call_id \<Rightarrow> string" where
  "callid_text c = the (callid_number c) @ (case callid_host c of None \<Rightarrow> [] | Some h \<Rightarrow> ''@'' @ h)"

lemma osip_call_id_to_str_ok:
  assumes "callid_number c \<noteq> None" "never_fails m"
  shows "\<exists>m'. osip_call_id_to_str (Some c) m = Some ((OSIP_SUCCESS, Some (callid_text c)), m')
    \<and> never_fails m'"
proof -
  obtain m1 where m1: "osip_malloc m = (True, m1)" "never_fails m1"
    using osip_malloc_never_fails [OF assms(2)] by blast
  obtain n where n: "callid_number c = Some n" using assms(1) by blast
  show ?thesis
    unfolding osip_call_id_to_str_def callid_text_def using m1 n
    by (cases "callid_host c") simp_all
qed

lemma osip_call_id_match_eq:
  "osip_call_id_match (Some c1) (Some c2) = 0
    \<longleftrightarrow> callid_number c1 = callid_number c2 \<and> callid_host c1 = callid_host c2
      \<and> callid_number c1 \<noteq> None"
  by (cases "callid_number c1"; cases "callid_number c2"; cases "callid_host c1"; cases "callid_host c2")
    (simp_all add: osip_call_id_match_def)

text \<open>ACK and INVITE are the same method for \<^verbatim>\<open>osip_cseq_match\<close>; other methods only match themselves.\<close>

definition cseq_class :: "string \<Rightarrow> string" where
  "cseq_class m = (if m = ''ACK'' then ''INVITE'' else m)"

lemma osip_cseq_match_eq:
  "osip_cseq_match (Some c1) (Some c2) = 0
    \<longleftrightarrow> (\<exists>n m1 m2. cseq_number c1 = Some n \<and> cseq_number c2 = Some n
        \<and> cseq_method c1 = Some m1 \<and> cseq_method c2 = Some m2 \<and> cseq_class m1 = cseq_class m2)"
  by (cases "cseq_number c1"; cases "cseq_number c2"; cases "cseq_method c1"; cases "cseq_method c2")
    (simp_all add: osip_cseq_match_def cseq_class_def)

definition tag_of :: "osip_from \<Rightarrow> osip_generic_param option" where
  "tag_of f = List.find (has_name ''tag'') (gen_params f)"

lemma osip_from_tag_match_ok:
  assumes "named (gen_params f1)" "named (gen_params f2)"
  shows "osip_from_tag_match (Some f1) (Some f2)
    = Some (case (tag_of f1, tag_of f2) of
              (None, None) \<Rightarrow> OSIP_SUCCESS
            | (Some t1, Some t2) \<Rightarrow>
                if gvalue t1 \<noteq> None \<and> gvalue t1 = gvalue t2 then OSIP_SUCCESS else OSIP_UNDEFINED_ERROR
            | _ \<Rightarrow> OSIP_UNDEFINED_ERROR)"
  using assms
  by (auto simp: osip_from_tag_match_def param_byname_find tag_of_def split: option.splits)

lemma compare_tag_defined: "named ps \<Longrightarrow> compare_tag ps \<noteq> None"
  by (induction ps) auto

lemma osip_from_compare_defined:
  "named (gen_params f1) \<Longrightarrow> named (gen_params f2) \<Longrightarrow> osip_from_compare (Some f1) (Some f2) \<noteq> None"
  using compare_tag_defined [of "gen_params f1"] compare_tag_defined [of "gen_params f2"]
  by (auto simp: osip_from_compare_def split: option.splits)

end
