(* ===== verification/Osip_Message.thy ===== *)
theory Osip_Message
  imports Osip_Compare
begin

text \<open>
  \<^verbatim>\<open>osip_message_t\<close> with the headers the transaction and dialog layers read, the
  \<^verbatim>\<open>MSG_IS_*\<close> macros of \<^verbatim>\<open>osip_message.h\<close>, and the accessors of the Via and Route lists.
  A request has status code 0; testing its method compares \<^verbatim>\<open>sip_method\<close>, which must then
  not be NULL.
\<close>

record osip_message =
  sip_version :: cstr
  req_uri :: "osip_uri option"
  sip_method :: cstr
  status_code :: int
  reason_phrase :: cstr
  authorizations :: "osip_authorization list"
  call_id :: "osip_call_id option"
  contacts :: "osip_contact list"
  cseq :: "osip_cseq option"
  msg_from :: "osip_from option"
  proxy_authorizations :: "osip_authorization list"
  record_routes :: "osip_record_route list"
  routes :: "osip_route list"
  msg_to :: "osip_to option"
  vias :: "osip_via list"
  message_property :: int

definition osip_message_init :: osip_message where
  "osip_message_init = \<lparr>sip_version = None, req_uri = None, sip_method = None, status_code = 0,
    reason_phrase = None, authorizations = [], call_id = None, contacts = [], cseq = None,
    msg_from = None, proxy_authorizations = [], record_routes = [], routes = [],
    msg_to = None, vias = [], message_property = 3\<rparr>"

definition MSG_IS_REQUEST :: "osip_message \<Rightarrow> bool" where
  "MSG_IS_REQUEST m \<longleftrightarrow> status_code m = 0"

definition MSG_IS_RESPONSE :: "osip_message \<Rightarrow> bool" where
  "MSG_IS_RESPONSE m \<longleftrightarrow> status_code m \<noteq> 0"

definition MSG_IS :: "string \<Rightarrow> osip_message \<Rightarrow> bool option" where
  "MSG_IS name m =
    (if MSG_IS_REQUEST m then do { s \<leftarrow> sip_method m; Some (s = name) } else Some False)"

definition MSG_IS_STATUS :: "int \<Rightarrow> osip_message \<Rightarrow> bool" where
  "MSG_IS_STATUS k m \<longleftrightarrow> k * 100 \<le> status_code m \<and> status_code m < (k + 1) * 100"

definition osip_message_get_via :: "osip_message option \<Rightarrow> int \<Rightarrow> int \<times> osip_via option" where
  "osip_message_get_via sip pos =
    (case sip of None \<Rightarrow> (OSIP_BADPARAMETER, None)
     | Some m \<Rightarrow> if int (length (vias m)) \<le> pos then (OSIP_UNDEFINED_ERROR, None)
                else (pos, l_get (vias m) pos))"

definition osip_message_get_route :: "osip_message \<Rightarrow> int \<Rightarrow> int \<times> osip_route option" where
  "osip_message_get_route m pos =
    (if int (length (routes m)) \<le> pos then (OSIP_UNDEFINED_ERROR, None)
     else (pos, l_get (routes m) pos))"

definition via_get_protocol :: "osip_via option \<Rightarrow> cstr" where
  "via_get_protocol v = (case v of None \<Rightarrow> None | Some v \<Rightarrow> via_protocol v)"

definition via_get_host :: "osip_via option \<Rightarrow> cstr" where
  "via_get_host v = (case v of None \<Rightarrow> None | Some v \<Rightarrow> via_host v)"

definition via_get_port :: "osip_via option \<Rightarrow> cstr" where
  "via_get_port v = (case v of None \<Rightarrow> None | Some v \<Rightarrow> via_port v)"

text \<open>
  The test the state machines and the initialisers share: a protocol other than TCP, TLS and
  SCTP is unreliable.
\<close>

definition unreliable :: "string \<Rightarrow> bool" where
  "unreliable proto \<longleftrightarrow>
     \<not> osip_strcasecmp_eq proto ''TCP'' \<and> \<not> osip_strcasecmp_eq proto ''TLS''
     \<and> \<not> osip_strcasecmp_eq proto ''SCTP''"

section \<open>Facts\<close>

lemma MSG_IS_REQUEST_RESPONSE: "MSG_IS_REQUEST m \<longleftrightarrow> \<not> MSG_IS_RESPONSE m"
  by (simp add: MSG_IS_REQUEST_def MSG_IS_RESPONSE_def)

text \<open>A message of which the method can be tested.\<close>

definition method_ok :: "osip_message \<Rightarrow> bool" where
  "method_ok m \<longleftrightarrow> (status_code m = 0 \<longrightarrow> sip_method m \<noteq> None)"

definition is_method :: "string \<Rightarrow> osip_message \<Rightarrow> bool" where
  "is_method n m \<longleftrightarrow> status_code m = 0 \<and> sip_method m = Some n"

lemma MSG_IS_ok [simp]: "method_ok m \<Longrightarrow> MSG_IS n m = Some (is_method n m)"
  by (auto simp: MSG_IS_def MSG_IS_REQUEST_def method_ok_def is_method_def)

definition topvia_of :: "osip_message \<Rightarrow> osip_via option" where
  "topvia_of m = (case vias m of [] \<Rightarrow> None | v # _ \<Rightarrow> Some v)"

lemma get_via_0 [simp]:
  "osip_message_get_via (Some m) 0
    = (case topvia_of m of None \<Rightarrow> (OSIP_UNDEFINED_ERROR, None) | Some v \<Rightarrow> (0, Some v))"
  by (cases "vias m") (simp_all add: osip_message_get_via_def topvia_of_def)

lemma get_route_0 [simp]:
  "osip_message_get_route m 0
    = (case routes m of [] \<Rightarrow> (OSIP_UNDEFINED_ERROR, None) | r # _ \<Rightarrow> (0, Some r))"
  by (cases "routes m") (simp_all add: osip_message_get_route_def)

lemma MSG_IS_STATUS_disjoint:
  "MSG_IS_STATUS j m \<Longrightarrow> MSG_IS_STATUS k m \<Longrightarrow> j = k"
  by (auto simp: MSG_IS_STATUS_def)

end
