(* ===== verification/Osip_Event.thy ===== *)
theory Osip_Event
  imports Osip_Message
begin

text \<open>
  \<^verbatim>\<open>osip_event.c\<close> and the enumerations of \<^verbatim>\<open>osip.h\<close>: the states and the events of the
  four state machines, the callbacks they announce, and how a message becomes an event.
  The messages an event points to live on a heap; an event holds the address.
\<close>

datatype state_t =
    ICT_PRE_CALLING | ICT_CALLING | ICT_PROCEEDING | ICT_COMPLETED | ICT_TERMINATED
  | IST_PRE_PROCEEDING | IST_PROCEEDING | IST_COMPLETED | IST_CONFIRMED | IST_TERMINATED
  | NICT_PRE_TRYING | NICT_TRYING | NICT_PROCEEDING | NICT_COMPLETED | NICT_TERMINATED
  | NIST_PRE_TRYING | NIST_TRYING | NIST_PROCEEDING | NIST_COMPLETED | NIST_TERMINATED
  | DIALOG_EARLY | DIALOG_CONFIRMED | DIALOG_CLOSE

datatype type_t =
    TIMEOUT_A | TIMEOUT_B | TIMEOUT_D
  | TIMEOUT_E | TIMEOUT_F | TIMEOUT_K
  | TIMEOUT_G | TIMEOUT_H | TIMEOUT_I
  | TIMEOUT_J
  | RCV_REQINVITE | RCV_REQACK | RCV_REQUEST
  | RCV_STATUS_1XX | RCV_STATUS_2XX | RCV_STATUS_3456XX
  | SND_REQINVITE | SND_REQACK | SND_REQUEST
  | SND_STATUS_1XX | SND_STATUS_2XX | SND_STATUS_3456XX
  | KILL_TRANSACTION | UNKNOWN_EVT

datatype osip_fsm_type_t = ICT | IST | NICT | NIST

text \<open>The macros compare event types as the integers the enumeration gives them.\<close>

primrec type_val :: "type_t \<Rightarrow> nat" where
  "type_val TIMEOUT_A = 0"
| "type_val TIMEOUT_B = 1"
| "type_val TIMEOUT_D = 2"
| "type_val TIMEOUT_E = 3"
| "type_val TIMEOUT_F = 4"
| "type_val TIMEOUT_K = 5"
| "type_val TIMEOUT_G = 6"
| "type_val TIMEOUT_H = 7"
| "type_val TIMEOUT_I = 8"
| "type_val TIMEOUT_J = 9"
| "type_val RCV_REQINVITE = 10"
| "type_val RCV_REQACK = 11"
| "type_val RCV_REQUEST = 12"
| "type_val RCV_STATUS_1XX = 13"
| "type_val RCV_STATUS_2XX = 14"
| "type_val RCV_STATUS_3456XX = 15"
| "type_val SND_REQINVITE = 16"
| "type_val SND_REQACK = 17"
| "type_val SND_REQUEST = 18"
| "type_val SND_STATUS_1XX = 19"
| "type_val SND_STATUS_2XX = 20"
| "type_val SND_STATUS_3456XX = 21"
| "type_val KILL_TRANSACTION = 22"
| "type_val UNKNOWN_EVT = 23"

lemma type_val_inject: "type_val a = type_val b \<longleftrightarrow> a = b"
  by (cases a; cases b) simp_all

instantiation type_t :: linorder
begin

definition less_eq_type_t :: "type_t \<Rightarrow> type_t \<Rightarrow> bool" where
  "less_eq_type_t a b \<longleftrightarrow> type_val a \<le> type_val b"

definition less_type_t :: "type_t \<Rightarrow> type_t \<Rightarrow> bool" where
  "less_type_t a b \<longleftrightarrow> type_val a < type_val b"

instance
  by standard (auto simp: less_eq_type_t_def less_type_t_def type_val_inject)

end

record osip_event =
  type :: type_t
  ev_transactionid :: int
  sip :: "nat option"

definition EVT_IS_INCOMINGMSG :: "osip_event \<Rightarrow> bool" where
  "EVT_IS_INCOMINGMSG e \<longleftrightarrow> type e \<ge> RCV_REQINVITE \<and> type e \<le> RCV_STATUS_3456XX"

definition EVT_IS_OUTGOINGMSG :: "osip_event \<Rightarrow> bool" where
  "EVT_IS_OUTGOINGMSG e \<longleftrightarrow> type e \<ge> SND_REQINVITE \<and> type e \<le> SND_STATUS_3456XX"

definition EVT_IS_MSG :: "osip_event \<Rightarrow> bool" where
  "EVT_IS_MSG e \<longleftrightarrow> type e \<ge> RCV_REQINVITE \<and> type e \<le> SND_STATUS_3456XX"

definition EVT_IS_INCOMINGREQ :: "osip_event \<Rightarrow> bool" where
  "EVT_IS_INCOMINGREQ e \<longleftrightarrow>
     type e = RCV_REQINVITE \<or> type e = RCV_REQACK \<or> type e = RCV_REQUEST"

definition EVT_IS_INCOMINGRESP :: "osip_event \<Rightarrow> bool" where
  "EVT_IS_INCOMINGRESP e \<longleftrightarrow>
     type e = RCV_STATUS_1XX \<or> type e = RCV_STATUS_2XX \<or> type e = RCV_STATUS_3456XX"

definition EVT_IS_OUTGOINGREQ :: "osip_event \<Rightarrow> bool" where
  "EVT_IS_OUTGOINGREQ e \<longleftrightarrow>
     type e = SND_REQINVITE \<or> type e = SND_REQACK \<or> type e = SND_REQUEST"

definition EVT_IS_OUTGOINGRESP :: "osip_event \<Rightarrow> bool" where
  "EVT_IS_OUTGOINGRESP e \<longleftrightarrow>
     type e = SND_STATUS_1XX \<or> type e = SND_STATUS_2XX \<or> type e = SND_STATUS_3456XX"

definition EVT_IS_KILL_TRANSACTION :: "osip_event \<Rightarrow> bool" where
  "EVT_IS_KILL_TRANSACTION e \<longleftrightarrow> type e = KILL_TRANSACTION"

definition evt_set_type_incoming_sipmessage :: "osip_message \<Rightarrow> type_t option" where
  "evt_set_type_incoming_sipmessage m =
    (if MSG_IS_REQUEST m then do {
       invite \<leftarrow> MSG_IS ''INVITE'' m;
       if invite then Some RCV_REQINVITE
       else do {
         ack \<leftarrow> MSG_IS ''ACK'' m;
         Some (if ack then RCV_REQACK else RCV_REQUEST)
       }
     }
     else if MSG_IS_STATUS 1 m then Some RCV_STATUS_1XX
     else if MSG_IS_STATUS 2 m then Some RCV_STATUS_2XX
     else Some RCV_STATUS_3456XX)"

definition evt_set_type_outgoing_sipmessage :: "osip_message \<Rightarrow> type_t option" where
  "evt_set_type_outgoing_sipmessage m =
    (if MSG_IS_REQUEST m then do {
       invite \<leftarrow> MSG_IS ''INVITE'' m;
       if invite then Some SND_REQINVITE
       else do {
         ack \<leftarrow> MSG_IS ''ACK'' m;
         Some (if ack then SND_REQACK else SND_REQUEST)
       }
     }
     else if MSG_IS_STATUS 1 m then Some SND_STATUS_1XX
     else if MSG_IS_STATUS 2 m then Some SND_STATUS_2XX
     else Some SND_STATUS_3456XX)"

text \<open>An inner \<^term>\<open>None\<close> is the NULL event.\<close>

definition osip_event_new :: "type_t \<Rightarrow> int \<Rightarrow> mem \<Rightarrow> osip_event option \<times> mem" where
  "osip_event_new ty tid m =
    (case osip_malloc m of (ok, m) \<Rightarrow>
       (if ok then Some \<lparr>type = ty, ev_transactionid = tid, sip = None\<rparr> else None, m))"

definition osip_new_outgoing_sipmessage ::
  "(nat \<rightharpoonup> osip_message) \<Rightarrow> nat option \<Rightarrow> mem \<Rightarrow> (osip_event option \<times> mem) option" where
  "osip_new_outgoing_sipmessage h p m =
    (case p of None \<Rightarrow> Some (None, m)
     | Some a \<Rightarrow> do {
         msg \<leftarrow> h a;
         if MSG_IS_REQUEST msg \<and> (sip_method msg = None \<or> req_uri msg = None) then Some (None, m)
         else (case osip_malloc m of (ok, m) \<Rightarrow>
           if \<not> ok then Some (None, m)
           else do {
             ty \<leftarrow> evt_set_type_outgoing_sipmessage msg;
             Some (Some \<lparr>type = ty, ev_transactionid = 0, sip = Some a\<rparr>, m)
           })
       })"

section \<open>Facts\<close>

lemmas evt_kind_defs =
  EVT_IS_INCOMINGMSG_def EVT_IS_OUTGOINGMSG_def EVT_IS_MSG_def EVT_IS_INCOMINGREQ_def
  EVT_IS_INCOMINGRESP_def EVT_IS_OUTGOINGREQ_def EVT_IS_OUTGOINGRESP_def
  EVT_IS_KILL_TRANSACTION_def less_eq_type_t_def less_type_t_def

lemma EVT_IS_INCOMINGMSG_cases:
  "EVT_IS_INCOMINGMSG e \<longleftrightarrow> EVT_IS_INCOMINGREQ e \<or> EVT_IS_INCOMINGRESP e"
  by (cases "type e") (simp_all add: evt_kind_defs)

lemma EVT_IS_OUTGOINGMSG_cases:
  "EVT_IS_OUTGOINGMSG e \<longleftrightarrow> EVT_IS_OUTGOINGREQ e \<or> EVT_IS_OUTGOINGRESP e"
  by (cases "type e") (simp_all add: evt_kind_defs)

lemma EVT_IS_MSG_cases:
  "EVT_IS_MSG e \<longleftrightarrow> EVT_IS_INCOMINGMSG e \<or> EVT_IS_OUTGOINGMSG e"
  by (cases "type e") (simp_all add: evt_kind_defs)

text \<open>
  An event agrees with its message: \<open>event_for\<close> is what the rest of the library may assume of
  an event that carries one, and both constructors establish it.
\<close>

definition event_for :: "osip_event \<Rightarrow> osip_message \<Rightarrow> bool" where
  "event_for e m \<longleftrightarrow>
     (if MSG_IS_REQUEST m then
        sip_method m \<noteq> None
        \<and> (EVT_IS_INCOMINGREQ e \<or> EVT_IS_OUTGOINGREQ e)
        \<and> (is_method ''INVITE'' m \<longleftrightarrow> type e \<in> {RCV_REQINVITE, SND_REQINVITE})
        \<and> (is_method ''ACK'' m \<longleftrightarrow> type e \<in> {RCV_REQACK, SND_REQACK})
      else
        (EVT_IS_INCOMINGRESP e \<or> EVT_IS_OUTGOINGRESP e)
        \<and> (MSG_IS_STATUS 1 m \<longleftrightarrow> type e \<in> {RCV_STATUS_1XX, SND_STATUS_1XX})
        \<and> (MSG_IS_STATUS 2 m \<longleftrightarrow> type e \<in> {RCV_STATUS_2XX, SND_STATUS_2XX}))"

lemma event_for_msg: "event_for e m \<Longrightarrow> EVT_IS_MSG e"
  by (auto simp: event_for_def EVT_IS_MSG_cases EVT_IS_INCOMINGMSG_cases EVT_IS_OUTGOINGMSG_cases
      split: if_splits)

lemma event_for_method_ok: "event_for e m \<Longrightarrow> method_ok m"
  by (auto simp: event_for_def method_ok_def MSG_IS_REQUEST_def)

lemma is_method_unique: "is_method a m \<Longrightarrow> is_method b m \<Longrightarrow> a = b"
  by (simp add: is_method_def)

lemma evt_set_type_incoming_event_for:
  assumes "method_ok m"
  shows "\<exists>ty. evt_set_type_incoming_sipmessage m = Some ty \<and> (type e = ty \<longrightarrow> event_for e m)"
proof -
  have ok: "MSG_IS_REQUEST m \<Longrightarrow> sip_method m \<noteq> None"
    using assms by (simp add: method_ok_def MSG_IS_REQUEST_def)
  have "\<not> (is_method ''INVITE'' m \<and> is_method ''ACK'' m)"
    using is_method_unique [of "''INVITE''" m "''ACK''"] by auto
  moreover have "\<not> (MSG_IS_STATUS 1 m \<and> MSG_IS_STATUS 2 m)"
    using MSG_IS_STATUS_disjoint [of 1 m 2] by auto
  ultimately show ?thesis
    using ok assms
    by (auto simp: evt_set_type_incoming_sipmessage_def event_for_def evt_kind_defs split: if_splits)
qed

lemma evt_set_type_outgoing_event_for:
  assumes "method_ok m"
  shows "\<exists>ty. evt_set_type_outgoing_sipmessage m = Some ty \<and> (type e = ty \<longrightarrow> event_for e m)"
proof -
  have ok: "MSG_IS_REQUEST m \<Longrightarrow> sip_method m \<noteq> None"
    using assms by (simp add: method_ok_def MSG_IS_REQUEST_def)
  have "\<not> (is_method ''INVITE'' m \<and> is_method ''ACK'' m)"
    using is_method_unique [of "''INVITE''" m "''ACK''"] by auto
  moreover have "\<not> (MSG_IS_STATUS 1 m \<and> MSG_IS_STATUS 2 m)"
    using MSG_IS_STATUS_disjoint [of 1 m 2] by auto
  ultimately show ?thesis
    using ok assms
    by (auto simp: evt_set_type_outgoing_sipmessage_def event_for_def evt_kind_defs split: if_splits)
qed

end
