(* ===== verification/Osip_Time.thy ===== *)
theory Osip_Time
  imports Prelude
begin

text \<open>
  \<^verbatim>\<open>osip_time.c\<close> and \<^verbatim>\<open>osip_time.h\<close>: \<^verbatim>\<open>struct timeval\<close> and the operations the timers
  use. \<^verbatim>\<open>osip_gettimeofday\<close> reads the system clock and is a value handed to the
  operations that call it. A timer whose \<^verbatim>\<open>tv_sec\<close> is \<open>-1\<close> is not started.
\<close>

record timeval =
  tv_sec :: int
  tv_usec :: int

definition timer_off :: "timeval \<Rightarrow> timeval" where
  "timer_off tv = tv\<lparr>tv_sec := -1\<rparr>"

definition timer_is_off :: "timeval \<Rightarrow> bool" where
  "timer_is_off tv \<longleftrightarrow> tv_sec tv = -1"

text \<open>\<^verbatim>\<open>osip_timercmp (a, b, >)\<close>\<close>

definition osip_timer_gt :: "timeval \<Rightarrow> timeval \<Rightarrow> bool" where
  "osip_timer_gt a b =
    (if tv_sec a = tv_sec b then tv_usec a > tv_usec b else tv_sec a > tv_sec b)"

text \<open>C division truncates towards zero, hence \<open>sdiv\<close> and \<open>smod\<close>.\<close>

definition add_gettimeofday :: "timeval \<Rightarrow> int \<Rightarrow> timeval" where
  "add_gettimeofday atv ms =
    (if ms \<ge> 1000000
     then \<lparr>tv_sec = tv_sec atv + ms sdiv 1000, tv_usec = 0\<rparr>
     else
       let usec = tv_usec atv + ms * 1000;
           m = usec sdiv 1000000
       in \<lparr>tv_sec = tv_sec atv + m, tv_usec = usec smod 1000000\<rparr>)"

definition min_timercmp :: "timeval \<Rightarrow> timeval \<Rightarrow> timeval" where
  "min_timercmp tv1 tv2 =
    (if tv_sec tv2 = -1 then tv1
     else if osip_timer_gt tv1 tv2 then tv2 else tv1)"

section \<open>Times as microseconds\<close>

definition usecs :: "timeval \<Rightarrow> int" where
  "usecs tv = tv_sec tv * 1000000 + tv_usec tv"

definition tv_normal :: "timeval \<Rightarrow> bool" where
  "tv_normal tv \<longleftrightarrow> 0 \<le> tv_usec tv \<and> tv_usec tv < 1000000"

lemma sdiv_smod_nonneg:
  fixes a b :: int
  assumes "0 \<le> a" "0 < b"
  shows "a sdiv b = a div b" and "a smod b = a mod b"
proof -
  have d: "a sdiv b = a div b"
    using assms by (cases "a = 0") (simp_all add: signed_divide_int_def)
  show "a sdiv b = a div b" by (rule d)
  show "a smod b = a mod b"
    using minus_sdiv_mult_eq_smod [of a b] by (simp add: d minus_div_mult_eq_mod)
qed

lemma osip_timer_gt_usecs:
  assumes "tv_normal a" "tv_normal b"
  shows "osip_timer_gt a b \<longleftrightarrow> usecs a > usecs b"
  using assms unfolding osip_timer_gt_def usecs_def tv_normal_def by auto

lemma osip_timer_gt_irrefl [simp]: "\<not> osip_timer_gt a a"
  by (simp add: osip_timer_gt_def)

lemma osip_timer_gt_trans: "osip_timer_gt a b \<Longrightarrow> osip_timer_gt b c \<Longrightarrow> osip_timer_gt a c"
  by (auto simp: osip_timer_gt_def split: if_splits)

lemma osip_timer_gt_total: "\<not> osip_timer_gt a b \<Longrightarrow> \<not> osip_timer_gt b a \<Longrightarrow> a = b"
  by (cases a; cases b) (auto simp: osip_timer_gt_def split: if_splits)

lemma add_gettimeofday_exact:
  assumes "tv_normal tv" "0 \<le> ms" "ms < 1000000"
  shows "usecs (add_gettimeofday tv ms) = usecs tv + ms * 1000"
    and "tv_normal (add_gettimeofday tv ms)"
proof -
  let ?u = "tv_usec tv + ms * 1000"
  have u: "0 \<le> ?u" using assms by (simp add: tv_normal_def)
  have eq: "add_gettimeofday tv ms
      = \<lparr>tv_sec = tv_sec tv + ?u div 1000000, tv_usec = ?u mod 1000000\<rparr>"
    using assms u by (simp add: add_gettimeofday_def Let_def sdiv_smod_nonneg)
  show "tv_normal (add_gettimeofday tv ms)"
    by (simp add: eq tv_normal_def)
  have "?u div 1000000 * 1000000 + ?u mod 1000000 = ?u" by simp
  then show "usecs (add_gettimeofday tv ms) = usecs tv + ms * 1000"
    by (simp add: eq usecs_def algebra_simps)
qed

lemma add_gettimeofday_long:
  assumes "1000000 \<le> ms"
  shows "add_gettimeofday tv ms = \<lparr>tv_sec = tv_sec tv + ms div 1000, tv_usec = 0\<rparr>"
  using assms by (simp add: add_gettimeofday_def sdiv_smod_nonneg)

lemma min_timercmp_le: "\<not> osip_timer_gt (min_timercmp a b) a"
  by (auto simp: min_timercmp_def osip_timer_gt_def)

lemma min_timercmp_le_started: "tv_sec b \<noteq> -1 \<Longrightarrow> \<not> osip_timer_gt (min_timercmp a b) b"
  by (auto simp: min_timercmp_def)

lemma min_timercmp_cases: "min_timercmp a b = a \<or> (tv_sec b \<noteq> -1 \<and> min_timercmp a b = b)"
  by (auto simp: min_timercmp_def)

end
