(* ===== verification/Port_Fifo.thy ===== *)
theory Port_Fifo
  imports Osip_List
begin

text \<open>
  \<^verbatim>\<open>port_fifo.c\<close>: the queue in which a transaction receives its events, a list with a
  semaphore that counts the elements and a flag that says whether there are any. The mutex
  makes every operation atomic; the semaphore is its count.
\<close>

datatype osip_fifo_state = osip_ok | osip_empty

record 'a osip_fifo =
  queue :: "'a list"
  fifo_state :: osip_fifo_state
  qisempty :: nat

definition osip_fifo_init :: "'a osip_fifo" where
  "osip_fifo_init = \<lparr>queue = [], fifo_state = osip_empty, qisempty = 0\<rparr>"

definition osip_fifo_add :: "'a osip_fifo \<Rightarrow> 'a \<Rightarrow> mem \<Rightarrow> (int \<times> 'a osip_fifo) \<times> mem" where
  "osip_fifo_add ff el m =
    (case list_add (queue ff) el (-1) m of
       (q, m) \<Rightarrow> ((OSIP_SUCCESS,
                  ff\<lparr>queue := q, fifo_state := osip_ok, qisempty := qisempty ff + 1\<rparr>), m))"

definition osip_fifo_insert :: "'a osip_fifo \<Rightarrow> 'a \<Rightarrow> mem \<Rightarrow> (int \<times> 'a osip_fifo) \<times> mem" where
  "osip_fifo_insert ff el m =
    (case list_add (queue ff) el 0 m of
       (q, m) \<Rightarrow> ((OSIP_SUCCESS,
                  ff\<lparr>queue := q, fifo_state := osip_ok, qisempty := qisempty ff + 1\<rparr>), m))"

definition osip_fifo_size :: "'a osip_fifo \<Rightarrow> int" where
  "osip_fifo_size ff = int (length (queue ff))"

text \<open>
  What \<^verbatim>\<open>osip_fifo_get\<close> and \<^verbatim>\<open>osip_fifo_tryget\<close> do once they hold the mutex. The first
  component of the result is true on the path the source marks as impossible.
\<close>

definition osip_fifo_take :: "'a osip_fifo \<Rightarrow> bool \<times> 'a option \<times> 'a osip_fifo" where
  "osip_fifo_take ff =
    (if fifo_state ff \<noteq> osip_empty then
       (let el = l_get (queue ff) 0;
            q = l_remove (queue ff) 0
        in (False, el,
            ff\<lparr>queue := q, fifo_state := (if length q = 0 then osip_empty else osip_ok)\<rparr>))
     else (True, None, ff))"

text \<open>\<^term>\<open>None\<close> when the caller blocks in \<^verbatim>\<open>osip_sem_wait\<close>.\<close>

definition osip_fifo_get :: "'a osip_fifo \<Rightarrow> ('a option \<times> 'a osip_fifo) option" where
  "osip_fifo_get ff =
    (if qisempty ff = 0 then None
     else Some (snd (osip_fifo_take (ff\<lparr>qisempty := qisempty ff - 1\<rparr>))))"

definition osip_fifo_tryget :: "'a osip_fifo \<Rightarrow> 'a option \<times> 'a osip_fifo" where
  "osip_fifo_tryget ff =
    (if qisempty ff = 0 then (None, ff)
     else snd (osip_fifo_take (ff\<lparr>qisempty := qisempty ff - 1\<rparr>)))"

section \<open>The semaphore, the flag and the list agree\<close>

definition fifo_ok :: "'a osip_fifo \<Rightarrow> bool" where
  "fifo_ok ff \<longleftrightarrow> qisempty ff = length (queue ff)
    \<and> (fifo_state ff = osip_empty \<longleftrightarrow> queue ff = [])"

lemma fifo_ok_init [simp]: "fifo_ok osip_fifo_init"
  by (simp add: fifo_ok_def osip_fifo_init_def)

lemma queue_init [simp]: "queue osip_fifo_init = []"
  by (simp add: osip_fifo_init_def)

lemma osip_fifo_add_ok:
  assumes "fifo_ok ff" "osip_malloc m = (True, m')"
  obtains ff' where "osip_fifo_add ff el m = ((OSIP_SUCCESS, ff'), m')" "fifo_ok ff'"
    "queue ff' = queue ff @ [el]"
  using assms by (auto simp: osip_fifo_add_def list_add_def fifo_ok_def)

lemma osip_fifo_insert_ok:
  assumes "fifo_ok ff" "osip_malloc m = (True, m')"
  obtains ff' where "osip_fifo_insert ff el m = ((OSIP_SUCCESS, ff'), m')" "fifo_ok ff'"
    "queue ff' = el # queue ff"
  using assms by (auto simp: osip_fifo_insert_def list_add_def fifo_ok_def)

lemma osip_fifo_tryget_ok:
  assumes "fifo_ok ff"
  obtains ff' where
    "osip_fifo_tryget ff = ((case queue ff of [] \<Rightarrow> None | x # _ \<Rightarrow> Some x), ff')"
    "fifo_ok ff'" "queue ff' = tl (queue ff)"
proof (cases "queue ff")
  case Nil
  then show thesis using that [of ff] assms by (simp add: osip_fifo_tryget_def fifo_ok_def)
next
  case (Cons x q)
  then show thesis
    using assms by (intro that) (auto simp: osip_fifo_tryget_def osip_fifo_take_def fifo_ok_def Let_def split: if_splits)
qed

lemma osip_fifo_take_never_impossible:
  "fifo_ok ff \<Longrightarrow> qisempty ff \<noteq> 0 \<Longrightarrow> \<not> fst (osip_fifo_take (ff\<lparr>qisempty := n\<rparr>))"
  by (auto simp: osip_fifo_take_def fifo_ok_def Let_def)

lemma osip_fifo_size_ok: "osip_fifo_size ff = int (length (queue ff))"
  by (simp add: osip_fifo_size_def)

section \<open>The contract of an event queue\<close>

text \<open>
  What the transaction layer relies on: an invariant, the contents as a list, elements that
  leave in the order they came, and a queue that drains. The laws hold while the allocator
  does not fail; \<open>fifo_add_lost\<close> below says what happens when it does.
\<close>

locale event_queue =
  fixes new :: 'q
    and add :: "'q \<Rightarrow> 'a \<Rightarrow> 'q"
    and tryget :: "'q \<Rightarrow> 'a option \<times> 'q"
    and inv :: "'q \<Rightarrow> bool"
    and contents :: "'q \<Rightarrow> 'a list"
  assumes inv_new: "inv new"
    and contents_new: "contents new = []"
    and inv_add: "inv q \<Longrightarrow> inv (add q x)"
    and contents_add: "inv q \<Longrightarrow> contents (add q x) = contents q @ [x]"
    and inv_tryget: "inv q \<Longrightarrow> inv (snd (tryget q))"
    and tryget_elem: "inv q \<Longrightarrow> fst (tryget q) = (case contents q of [] \<Rightarrow> None | x # _ \<Rightarrow> Some x)"
    and tryget_rest: "inv q \<Longrightarrow> contents (snd (tryget q)) = tl (contents q)"
begin

lemma inv_adds: "inv q \<Longrightarrow> inv (foldl add q xs)"
  by (induction xs arbitrary: q) (simp_all add: inv_add)

lemma contents_adds: "inv q \<Longrightarrow> contents (foldl add q xs) = contents q @ xs"
  by (induction xs arbitrary: q) (simp_all add: inv_add contents_add)

lemma inv_trygets: "inv q \<Longrightarrow> inv (((snd \<circ> tryget) ^^ n) q)"
  by (induction n) (simp_all add: inv_tryget)

lemma contents_trygets: "inv q \<Longrightarrow> contents (((snd \<circ> tryget) ^^ n) q) = drop n (contents q)"
proof (induction n)
  case (Suc n)
  then show ?case by (simp add: inv_trygets [unfolded o_def] tryget_rest drop_Suc tl_drop o_def)
qed simp

lemma nth_tryget:
  "inv q \<Longrightarrow> fst (tryget (((snd \<circ> tryget) ^^ n) q))
    = (if n < length (contents q) then Some (contents q ! n) else None)"
  by (simp add: tryget_elem inv_trygets contents_trygets split: list.split)
    (metis hd_drop_conv_nth list.sel(1))

lemma first_in_first_out:
  "n < length xs \<Longrightarrow> fst (tryget (((snd \<circ> tryget) ^^ n) (foldl add new xs))) = Some (xs ! n)"
  by (simp add: nth_tryget inv_adds inv_new contents_adds contents_new)

lemma drained: "inv q \<Longrightarrow> fst (tryget q) = None \<longleftrightarrow> contents q = []"
  by (simp add: tryget_elem split: list.split)

end

text \<open>The code's queue, with an allocator that does not fail, keeps the contract.\<close>

definition fifo_add :: "'a osip_fifo \<Rightarrow> 'a \<Rightarrow> 'a osip_fifo" where
  "fifo_add ff el = snd (fst (osip_fifo_add ff el []))"

lemma fifo_add_simps [simp]:
  "queue (fifo_add ff el) = queue ff @ [el]"
  "fifo_ok ff \<Longrightarrow> fifo_ok (fifo_add ff el)"
  by (simp_all add: fifo_add_def osip_fifo_add_def list_add_def fifo_ok_def)

interpretation fifo: event_queue osip_fifo_init fifo_add osip_fifo_tryget fifo_ok queue
proof
  show "fifo_ok (osip_fifo_init :: 'a osip_fifo)" "queue (osip_fifo_init :: 'a osip_fifo) = []"
    by simp_all
next
  fix q :: "'a osip_fifo" and x
  assume q: "fifo_ok q"
  then show "fifo_ok (fifo_add q x)" "queue (fifo_add q x) = queue q @ [x]" by simp_all
  from osip_fifo_tryget_ok [OF q] obtain q' where
    "osip_fifo_tryget q = ((case queue q of [] \<Rightarrow> None | x # _ \<Rightarrow> Some x), q')"
    "fifo_ok q'" "queue q' = tl (queue q)" .
  then show "fifo_ok (snd (osip_fifo_tryget q))"
    "fst (osip_fifo_tryget q) = (case queue q of [] \<Rightarrow> None | x # _ \<Rightarrow> Some x)"
    "queue (snd (osip_fifo_tryget q)) = tl (queue q)" by simp_all
qed

lemma fifo_add_lost:
  assumes "fifo_ok ff" "osip_malloc m = (False, m')"
  shows "osip_fifo_add ff el m
    = ((OSIP_SUCCESS, ff\<lparr>fifo_state := osip_ok, qisempty := qisempty ff + 1\<rparr>), m')"
  using assms by (simp add: osip_fifo_add_def list_add_def)

end
