(* ===== verification/Osip_Transaction_State.thy ===== *)
theory Osip_Transaction_State
  imports Osip_Event Osip_Time Port_Fifo
begin

text \<open>
  The state the four state machines share: the transaction record of \<^verbatim>\<open>osip.h\<close> with its
  four contexts, the heap of messages, and what the library does to the outside (messages
  sent, callbacks), recorded in a log. The callbacks of \<^verbatim>\<open>osip_t\<close> are parameters: which of
  them are registered, and what \<^verbatim>\<open>cb_send_message\<close> answers. They may read what they are
  given and do not change the transaction.
\<close>

section \<open>Contexts\<close>

record osip_ict =
  timer_a_length :: int
  timer_a_start :: timeval
  timer_b_length :: int
  timer_b_start :: timeval
  timer_d_length :: int
  timer_d_start :: timeval
  ict_destination :: cstr
  ict_port :: int

record osip_nict =
  timer_e_length :: int
  timer_e_start :: timeval
  timer_f_length :: int
  timer_f_start :: timeval
  timer_k_length :: int
  timer_k_start :: timeval
  nict_destination :: cstr
  nict_port :: int

record osip_ist =
  timer_g_length :: int
  timer_g_start :: timeval
  timer_h_length :: int
  timer_h_start :: timeval
  timer_i_length :: int
  timer_i_start :: timeval

record osip_nist =
  timer_j_length :: int
  timer_j_start :: timeval

abbreviation DEFAULT_T1 :: int where "DEFAULT_T1 \<equiv> 500"
abbreviation DEFAULT_T1_TCP_PROGRESS :: int where "DEFAULT_T1_TCP_PROGRESS \<equiv> 50"
abbreviation DEFAULT_T2 :: int where "DEFAULT_T2 \<equiv> 4000"
abbreviation DEFAULT_T4 :: int where "DEFAULT_T4 \<equiv> 5000"

text \<open>
  A pointer to a context: NULL, the only pointer to a live context, or a pointer to one that
  has been freed.
\<close>

datatype 'a ptr = Null | Live 'a | Dangling

fun load :: "'a ptr \<Rightarrow> 'a option" where
  "load (Live x) = Some x"
| "load Null = None"
| "load Dangling = None"

section \<open>Callbacks\<close>

datatype osip_message_callback_type =
    OSIP_ICT_INVITE_SENT | OSIP_ICT_INVITE_SENT_AGAIN | OSIP_ICT_ACK_SENT
  | OSIP_ICT_ACK_SENT_AGAIN | OSIP_ICT_STATUS_1XX_RECEIVED | OSIP_ICT_STATUS_2XX_RECEIVED
  | OSIP_ICT_STATUS_2XX_RECEIVED_AGAIN | OSIP_ICT_STATUS_3XX_RECEIVED
  | OSIP_ICT_STATUS_4XX_RECEIVED | OSIP_ICT_STATUS_5XX_RECEIVED
  | OSIP_ICT_STATUS_6XX_RECEIVED | OSIP_ICT_STATUS_3456XX_RECEIVED_AGAIN
  | OSIP_IST_INVITE_RECEIVED | OSIP_IST_INVITE_RECEIVED_AGAIN | OSIP_IST_ACK_RECEIVED
  | OSIP_IST_ACK_RECEIVED_AGAIN | OSIP_IST_STATUS_1XX_SENT | OSIP_IST_STATUS_2XX_SENT
  | OSIP_IST_STATUS_2XX_SENT_AGAIN | OSIP_IST_STATUS_3XX_SENT | OSIP_IST_STATUS_4XX_SENT
  | OSIP_IST_STATUS_5XX_SENT | OSIP_IST_STATUS_6XX_SENT | OSIP_IST_STATUS_3456XX_SENT_AGAIN
  | OSIP_NICT_REGISTER_SENT | OSIP_NICT_BYE_SENT | OSIP_NICT_OPTIONS_SENT | OSIP_NICT_INFO_SENT
  | OSIP_NICT_CANCEL_SENT | OSIP_NICT_NOTIFY_SENT | OSIP_NICT_SUBSCRIBE_SENT
  | OSIP_NICT_UNKNOWN_REQUEST_SENT | OSIP_NICT_REQUEST_SENT_AGAIN
  | OSIP_NICT_STATUS_1XX_RECEIVED | OSIP_NICT_STATUS_2XX_RECEIVED
  | OSIP_NICT_STATUS_2XX_RECEIVED_AGAIN | OSIP_NICT_STATUS_3XX_RECEIVED
  | OSIP_NICT_STATUS_4XX_RECEIVED | OSIP_NICT_STATUS_5XX_RECEIVED
  | OSIP_NICT_STATUS_6XX_RECEIVED | OSIP_NICT_STATUS_3456XX_RECEIVED_AGAIN
  | OSIP_NIST_REGISTER_RECEIVED | OSIP_NIST_BYE_RECEIVED | OSIP_NIST_OPTIONS_RECEIVED
  | OSIP_NIST_INFO_RECEIVED | OSIP_NIST_CANCEL_RECEIVED | OSIP_NIST_NOTIFY_RECEIVED
  | OSIP_NIST_SUBSCRIBE_RECEIVED | OSIP_NIST_UNKNOWN_REQUEST_RECEIVED
  | OSIP_NIST_REQUEST_RECEIVED_AGAIN | OSIP_NIST_STATUS_1XX_SENT | OSIP_NIST_STATUS_2XX_SENT
  | OSIP_NIST_STATUS_2XX_SENT_AGAIN | OSIP_NIST_STATUS_3XX_SENT | OSIP_NIST_STATUS_4XX_SENT
  | OSIP_NIST_STATUS_5XX_SENT | OSIP_NIST_STATUS_6XX_SENT | OSIP_NIST_STATUS_3456XX_SENT_AGAIN
  | OSIP_ICT_STATUS_TIMEOUT | OSIP_NICT_STATUS_TIMEOUT
  | OSIP_MESSAGE_CALLBACK_COUNT

datatype osip_kill_callback_type =
    OSIP_ICT_KILL_TRANSACTION | OSIP_IST_KILL_TRANSACTION | OSIP_NICT_KILL_TRANSACTION
  | OSIP_NIST_KILL_TRANSACTION | OSIP_KILL_CALLBACK_COUNT

datatype osip_transport_error_callback_type =
    OSIP_ICT_TRANSPORT_ERROR | OSIP_IST_TRANSPORT_ERROR | OSIP_NICT_TRANSPORT_ERROR
  | OSIP_NIST_TRANSPORT_ERROR | OSIP_TRANSPORT_ERROR_CALLBACK_COUNT

text \<open>
  What leaves the library: the message is its address, then host, port, socket and the
  answer of the transport. \<open>Send_ixt\<close> is the retransmission of a copy that belongs to no
  transaction.
\<close>

datatype action =
    Send nat cstr int int int
  | Send_ixt osip_message cstr int int int
  | Message_cb osip_message_callback_type "nat option"
  | Kill_cb osip_kill_callback_type
  | Transport_error_cb osip_transport_error_callback_type int

text \<open>
  \<open>cb_send_message\<close> answers a message, a host, a port and a socket after what happened so
  far; \<open>clock\<close> and \<open>systime\<close> give the n-th time the library asks for.
\<close>

record osip_config =
  cb_send_message :: "action list \<Rightarrow> osip_message \<Rightarrow> cstr \<Rightarrow> int \<Rightarrow> int \<Rightarrow> int"
  msg_callbacks :: "osip_message_callback_type \<Rightarrow> bool"
  kill_callbacks :: "osip_kill_callback_type \<Rightarrow> bool"
  tp_error_callbacks :: "osip_transport_error_callback_type \<Rightarrow> bool"
  clock :: "nat \<Rightarrow> timeval"
  systime :: "nat \<Rightarrow> int"

section \<open>Transactions\<close>

record osip_srv_entry =
  srv :: string
  srv_priority :: int
  srv_weight :: int
  srv_rweight :: int
  srv_port :: int
  ipaddress :: string
  srv_is_broken :: timeval

record osip_srv_record =
  srv_name :: string
  srv_state :: int
  srv_protocol :: string
  srv_order :: int
  srv_preference :: int
  srv_index :: int
  srventry :: "osip_srv_entry list"

text \<open>
  Of the two fields the code names \<^verbatim>\<open>from\<close> and \<^verbatim>\<open>to\<close> the names are Isabelle's own, so the
  headers kept from the request have the prefix \<open>tr\<close>. \<open>config\<close> says that the pointer to
  the stack is set.
\<close>

record osip_transaction =
  transactionid :: int
  transactionff :: "osip_event osip_fifo option"
  topvia :: "osip_via option"
  tr_from :: "osip_from option"
  tr_to :: "osip_to option"
  callid :: "osip_call_id option"
  tr_cseq :: "osip_cseq option"
  orig_request :: "nat option"
  last_response :: "nat option"
  ack :: "nat option"
  state :: state_t
  birth_time :: int
  completed_time :: int
  in_socket :: int
  out_socket :: int
  config :: bool
  ctx_type :: osip_fsm_type_t
  ict_context :: "osip_ict ptr"
  ist_context :: "osip_ist ptr"
  nict_context :: "osip_nict ptr"
  nist_context :: "osip_nist ptr"
  srv_record :: "osip_srv_record option"
  naptr_record :: "nat option"
  reserved1 :: "nat option"
  reserved2 :: "nat option"
  reserved3 :: "nat option"
  reserved4 :: "nat option"
  reserved5 :: "nat option"
  reserved6 :: "nat option"

text \<open>
  The world: the messages, the next address \<^verbatim>\<open>osip_malloc\<close> gives to one, the allocator,
  the number of times the clock has been read, and the log. A step of a state machine works
  on the world and one transaction.
\<close>

record world =
  msgs :: "nat \<rightharpoonup> osip_message"
  brk :: nat
  mem :: mem
  ticks :: nat
  log :: "action list"

record st = world +
  tr :: osip_transaction

definition deref :: "'a world_scheme \<Rightarrow> nat option \<Rightarrow> osip_message option" where
  "deref w p = do { a \<leftarrow> p; msgs w a }"

end
