(* ===== verification/Fsm_Misc.thy ===== *)
theory Fsm_Misc
  imports Osip_Transaction_State
begin

text \<open>
  What the four state machines are made of: \<^verbatim>\<open>fsm_misc.c\<close>, the callbacks of
  \<^verbatim>\<open>osip.c\<close>, the timer test and the response sender of \<^verbatim>\<open>osip_transaction.c\<close>, and the
  choice of the next hop that \<^verbatim>\<open>ict.c\<close>, \<^verbatim>\<open>nict.c\<close> and \<^verbatim>\<open>ict_fsm.c\<close> repeat.
\<close>

section \<open>The transition table\<close>

record 'm transition =
  t_state :: state_t
  t_type :: type_t
  t_method :: 'm

definition fsm_findmethod ::
  "type_t \<Rightarrow> state_t \<Rightarrow> 'm transition list \<Rightarrow> 'm transition option" where
  "fsm_findmethod ty st statemachine =
    List.find (\<lambda>t. t_type t = ty \<and> t_state t = st) statemachine"

type_synonym 's handler = "osip_config \<Rightarrow> osip_event \<Rightarrow> 's \<Rightarrow> 's option"

definition fsm_callmethod ::
  "osip_config \<Rightarrow> type_t \<Rightarrow> state_t \<Rightarrow> 's handler transition list \<Rightarrow> osip_event \<Rightarrow> 's
    \<Rightarrow> (int \<times> 's) option" where
  "fsm_callmethod cf ty st statemachine sipevent s =
    (case fsm_findmethod ty st statemachine of
       None \<Rightarrow> Some (OSIP_UNDEFINED_ERROR, s)
     | Some t \<Rightarrow> do { s \<leftarrow> t_method t cf sipevent s; Some (OSIP_SUCCESS, s) })"

section \<open>Messages and time\<close>

text \<open>Freeing NULL does nothing; freeing what is not live is a double free.\<close>

definition osip_message_free :: "nat option \<Rightarrow> 'a world_scheme \<Rightarrow> 'a world_scheme option" where
  "osip_message_free p w =
    (case p of None \<Rightarrow> Some w
     | Some a \<Rightarrow> do { ub_unless (a \<in> dom (msgs w)); Some (w\<lparr>msgs := (msgs w)(a := None)\<rparr>) })"

definition osip_gettimeofday :: "osip_config \<Rightarrow> 'a world_scheme \<Rightarrow> timeval \<times> 'a world_scheme" where
  "osip_gettimeofday cf w = (clock cf (ticks w), w\<lparr>ticks := ticks w + 1\<rparr>)"

text \<open>The idiom \<^verbatim>\<open>osip_gettimeofday (&t, NULL); add_gettimeofday (&t, ms)\<close>.\<close>

definition time_in :: "osip_config \<Rightarrow> int \<Rightarrow> 'a world_scheme \<Rightarrow> timeval \<times> 'a world_scheme" where
  "time_in cf ms w =
    (case osip_gettimeofday cf w of (now, w) \<Rightarrow> (add_gettimeofday now ms, w))"

definition osip_transaction_need_timer_x_event ::
  "osip_config \<Rightarrow> 'c ptr \<Rightarrow> ('c \<Rightarrow> timeval) \<Rightarrow> bool \<Rightarrow> int \<Rightarrow> type_t \<Rightarrow> 'a world_scheme
    \<Rightarrow> (osip_event option \<times> 'a world_scheme) option" where
  "osip_transaction_need_timer_x_event cf xixt timer cond_state tid ty w =
    (case osip_gettimeofday cf w of (now, w) \<Rightarrow>
       if xixt = Null then Some (None, w)
       else if cond_state then do {
         c \<leftarrow> load xixt;
         if tv_sec (timer c) = -1 then Some (None, w)
         else if osip_timer_gt now (timer c) then
           (case osip_event_new ty tid (mem w) of (e, m) \<Rightarrow> Some (e, w\<lparr>mem := m\<rparr>))
         else Some (None, w)
       }
       else Some (None, w))"

section \<open>Callbacks\<close>

text \<open>A callback may look at the message it is given, so the pointer is NULL or live.\<close>

definition osip_message_callback ::
  "osip_config \<Rightarrow> osip_message_callback_type \<Rightarrow> nat option \<Rightarrow> st \<Rightarrow> st option" where
  "osip_message_callback cf ty msg s =
    do {
      ub_unless (config (tr s));
      if ty = OSIP_MESSAGE_CALLBACK_COUNT then Some s
      else if \<not> msg_callbacks cf ty then Some s
      else do {
        ub_unless (msg = None \<or> deref s msg \<noteq> None);
        Some (s\<lparr>log := log s @ [Message_cb ty msg]\<rparr>)
      }
    }"

definition osip_kill_transaction_callback ::
  "osip_config \<Rightarrow> osip_kill_callback_type \<Rightarrow> st \<Rightarrow> st option" where
  "osip_kill_transaction_callback cf ty s =
    do {
      ub_unless (config (tr s));
      if ty = OSIP_KILL_CALLBACK_COUNT then Some s
      else do {
        let s = s\<lparr>tr := (tr s)\<lparr>completed_time := systime cf (ticks s)\<rparr>, ticks := ticks s + 1\<rparr>;
        if \<not> kill_callbacks cf ty then Some s
        else Some (s\<lparr>log := log s @ [Kill_cb ty]\<rparr>)
      }
    }"

definition osip_transport_error_callback ::
  "osip_config \<Rightarrow> osip_transport_error_callback_type \<Rightarrow> int \<Rightarrow> st \<Rightarrow> st option" where
  "osip_transport_error_callback cf ty error s =
    do {
      ub_unless (config (tr s));
      if ty = OSIP_TRANSPORT_ERROR_CALLBACK_COUNT then Some s
      else if \<not> tp_error_callbacks cf ty then Some s
      else Some (s\<lparr>log := log s @ [Transport_error_cb ty error]\<rparr>)
    }"

definition osip_transaction_set_state :: "state_t \<Rightarrow> st \<Rightarrow> st" where
  "osip_transaction_set_state x s = s\<lparr>tr := (tr s)\<lparr>state := x\<rparr>\<rparr>"

text \<open>\<^verbatim>\<open>osip->cb_send_message (tr, msg, host, port, tr->out_socket)\<close>\<close>

definition transaction_send ::
  "osip_config \<Rightarrow> nat option \<Rightarrow> cstr \<Rightarrow> int \<Rightarrow> st \<Rightarrow> (int \<times> st) option" where
  "transaction_send cf msg host port s =
    do {
      ub_unless (config (tr s));
      a \<leftarrow> msg;
      m \<leftarrow> msgs s a;
      let i = cb_send_message cf (log s) m host port (out_socket (tr s));
      Some (i, s\<lparr>log := log s @ [Send a host port (out_socket (tr s)) i]\<rparr>)
    }"

definition via_destination :: "osip_via \<Rightarrow> (cstr \<times> int) option" where
  "via_destination v =
    do {
      maddr \<leftarrow> param_byname (via_params v) ''maddr'';
      received \<leftarrow> param_byname (via_params v) ''received'';
      rport \<leftarrow> param_byname (via_params v) ''rport'';
      let host = (case maddr of Some p \<Rightarrow> gvalue p
                  | None \<Rightarrow> (case received of Some p \<Rightarrow> gvalue p | None \<Rightarrow> via_host v));
      let port = (case (case rport of None \<Rightarrow> None | Some p \<Rightarrow> gvalue p) of
                    Some r \<Rightarrow> osip_atoi r
                  | None \<Rightarrow> (case via_port v of Some p \<Rightarrow> osip_atoi p | None \<Rightarrow> 5060));
      Some (host, port)
    }"

definition osip_transaction_snd_xxx :: "osip_config \<Rightarrow> nat option \<Rightarrow> st \<Rightarrow> (int \<times> st) option" where
  "osip_transaction_snd_xxx cf msg s =
    do {
      m \<leftarrow> deref s msg;
      (case l_get (vias m) 0 of
         None \<Rightarrow> Some (OSIP_SYNTAXERROR, s)
       | Some via \<Rightarrow> do {
           (host, port) \<leftarrow> via_destination via;
           transaction_send cf msg host port s
         })
    }"

section \<open>The next hop of a request\<close>

text \<open>
  The first route when it is a loose router, the request URI otherwise; there \<^verbatim>\<open>maddr\<close>
  comes first, then the pair \<^verbatim>\<open>x-obr\<close>, \<^verbatim>\<open>x-obp\<close>, then the host. The host is copied.
\<close>

definition port_or_default :: "cstr \<Rightarrow> int" where
  "port_or_default p = (case p of None \<Rightarrow> 5060 | Some p \<Rightarrow> osip_atoi p)"

definition value_of :: "osip_uri_param option \<Rightarrow> cstr" where
  "value_of p = (case p of None \<Rightarrow> None | Some p \<Rightarrow> gvalue p)"

definition request_destination :: "osip_message \<Rightarrow> mem \<Rightarrow> ((cstr \<times> int) \<times> mem) option" where
  "request_destination r m =
    do {
      let route_url = (case snd (osip_message_get_route r 0) of None \<Rightarrow> None | Some rt \<Rightarrow> url rt);
      route_url \<leftarrow> (case route_url of
          None \<Rightarrow> Some None
        | Some u \<Rightarrow> do {
            lr_param \<leftarrow> param_byname (url_params u) ''lr'';
            Some (if lr_param = None then None else Some u)
          });
      (case route_url of
         Some u \<Rightarrow>
           (case osip_strdup (uri_host u) m of
              (host, m) \<Rightarrow> Some ((host, port_or_default (uri_port u)), m))
       | None \<Rightarrow> do {
           u \<leftarrow> req_uri r;
           let port = port_or_default (uri_port u);
           obr_param \<leftarrow> param_byname (url_params u) ''x-obr'';
           obp_param \<leftarrow> param_byname (url_params u) ''x-obp'';
           maddr_param \<leftarrow> param_byname (url_params u) ''maddr'';
           (if value_of maddr_param \<noteq> None then
              (case osip_strdup (value_of maddr_param) m of (host, m) \<Rightarrow> Some ((host, port), m))
            else if value_of obr_param \<noteq> None \<and> value_of obp_param \<noteq> None then
              (case osip_strdup (value_of obr_param) m of
                 (host, m) \<Rightarrow> Some ((host, osip_atoi (the (value_of obp_param))), m))
            else
              (case osip_strdup (uri_host u) m of (host, m) \<Rightarrow> Some ((host, port), m)))
         })
    }"

section \<open>Rules\<close>

text \<open>
  The callbacks in closed form: what they add to the log. \<open>deref_ok\<close> says that a pointer is
  NULL or live.
\<close>

definition ptr_ok :: "(nat \<rightharpoonup> osip_message) \<Rightarrow> nat option \<Rightarrow> bool" where
  "ptr_ok h p \<longleftrightarrow> (case p of None \<Rightarrow> True | Some a \<Rightarrow> h a \<noteq> None)"

abbreviation deref_ok :: "'a world_scheme \<Rightarrow> nat option \<Rightarrow> bool" where
  "deref_ok w p \<equiv> ptr_ok (msgs w) p"

definition message_cb_log ::
  "osip_config \<Rightarrow> osip_message_callback_type \<Rightarrow> nat option \<Rightarrow> action list" where
  "message_cb_log cf ty p =
    (if ty \<noteq> OSIP_MESSAGE_CALLBACK_COUNT \<and> msg_callbacks cf ty then [Message_cb ty p] else [])"

definition kill_cb_log :: "osip_config \<Rightarrow> osip_kill_callback_type \<Rightarrow> action list" where
  "kill_cb_log cf ty = (if kill_callbacks cf ty then [Kill_cb ty] else [])"

definition error_cb_log ::
  "osip_config \<Rightarrow> osip_transport_error_callback_type \<Rightarrow> int \<Rightarrow> action list" where
  "error_cb_log cf ty i =
    (if ty \<noteq> OSIP_TRANSPORT_ERROR_CALLBACK_COUNT \<and> tp_error_callbacks cf ty
     then [Transport_error_cb ty i] else [])"

lemma ptr_ok_simps [simp]: "ptr_ok h None" "ptr_ok h (Some a) \<longleftrightarrow> h a \<noteq> None"
  by (simp_all add: ptr_ok_def)

lemma deref_Some [simp]: "deref w (Some a) = msgs w a"
  by (simp add: deref_def)

lemma deref_None [simp]: "deref w None = None"
  by (simp add: deref_def)

lemma osip_message_free_None [simp]: "osip_message_free None w = Some w"
  by (simp add: osip_message_free_def)

lemma osip_message_free_Some [simp]:
  "msgs w a \<noteq> None \<Longrightarrow> osip_message_free (Some a) w = Some (w\<lparr>msgs := (msgs w)(a := None)\<rparr>)"
  by (simp add: osip_message_free_def dom_def)

lemma osip_message_callback_ok [simp]:
  "config (tr s) \<Longrightarrow> deref_ok s p
    \<Longrightarrow> osip_message_callback cf ty p s = Some (s\<lparr>log := log s @ message_cb_log cf ty p\<rparr>)"
  by (cases p) (auto simp: osip_message_callback_def message_cb_log_def)

lemma osip_kill_transaction_callback_ok [simp]:
  "config (tr s) \<Longrightarrow> ty \<noteq> OSIP_KILL_CALLBACK_COUNT
    \<Longrightarrow> osip_kill_transaction_callback cf ty s
      = Some (s\<lparr>tr := (tr s)\<lparr>completed_time := systime cf (ticks s)\<rparr>, ticks := ticks s + 1,
          log := log s @ kill_cb_log cf ty\<rparr>)"
  by (simp add: osip_kill_transaction_callback_def kill_cb_log_def)

lemma osip_transport_error_callback_ok [simp]:
  "config (tr s)
    \<Longrightarrow> osip_transport_error_callback cf ty i s = Some (s\<lparr>log := log s @ error_cb_log cf ty i\<rparr>)"
  by (simp add: osip_transport_error_callback_def error_cb_log_def)

lemma via_destination_defined: "named (via_params v) \<Longrightarrow> via_destination v \<noteq> None"
  by (simp add: via_destination_def param_byname_find)

text \<open>A message whose parameters have names and whose method can be tested.\<close>

definition named_from :: "osip_from option \<Rightarrow> bool" where
  "named_from f \<longleftrightarrow> (\<forall>x u. f = Some x \<longrightarrow> named (gen_params x)
     \<and> (url x = Some u \<longrightarrow> named (url_params u) \<and> named (url_headers u)))"

definition msg_ok :: "osip_message \<Rightarrow> bool" where
  "msg_ok m \<longleftrightarrow> method_ok m \<and> (\<forall>v \<in> set (vias m). named (via_params v))
     \<and> (\<forall>r \<in> set (routes m). named_from (Some r))
     \<and> named_from (msg_from m) \<and> named_from (msg_to m)
     \<and> (\<forall>u. req_uri m = Some u \<longrightarrow> named (url_params u) \<and> named (url_headers u))
     \<and> (status_code m = 0 \<longrightarrow> req_uri m \<noteq> None)"

lemma msg_ok_method [simp]: "msg_ok m \<Longrightarrow> method_ok m"
  by (simp add: msg_ok_def)

text \<open>The answer to a message the transaction sends, and what it adds to the log.\<close>

definition send_answer :: "osip_config \<Rightarrow> st \<Rightarrow> nat \<Rightarrow> cstr \<Rightarrow> int \<Rightarrow> int" where
  "send_answer cf s a host port =
    cb_send_message cf (log s) (the (msgs s a)) host port (out_socket (tr s))"

lemma transaction_send_ok [simp]:
  "config (tr s) \<Longrightarrow> msgs s a \<noteq> None
    \<Longrightarrow> transaction_send cf (Some a) host port s
      = Some (send_answer cf s a host port,
          s\<lparr>log := log s @ [Send a host port (out_socket (tr s)) (send_answer cf s a host port)]\<rparr>)"
  by (auto simp: transaction_send_def send_answer_def Let_def)

definition snd_xxx_answer :: "osip_config \<Rightarrow> st \<Rightarrow> nat \<Rightarrow> int \<times> action list" where
  "snd_xxx_answer cf s a =
    (case topvia_of (the (msgs s a)) of
       None \<Rightarrow> (OSIP_SYNTAXERROR, [])
     | Some v \<Rightarrow>
         (case the (via_destination v) of
            (h, p) \<Rightarrow> (send_answer cf s a h p, [Send a h p (out_socket (tr s)) (send_answer cf s a h p)])))"

lemma snd_xxx_ok [simp]:
  assumes "config (tr s)" "msgs s a = Some m" "msg_ok m"
  shows "osip_transaction_snd_xxx cf (Some a) s
    = Some (fst (snd_xxx_answer cf s a), s\<lparr>log := log s @ snd (snd_xxx_answer cf s a)\<rparr>)"
proof (cases "vias m")
  case Nil
  then show ?thesis
    using assms by (simp add: osip_transaction_snd_xxx_def snd_xxx_answer_def topvia_of_def)
next
  case (Cons v vs)
  then have "named (via_params v)" using assms(3) by (auto simp: msg_ok_def)
  then obtain h p where "via_destination v = Some (h, p)"
    using via_destination_defined [of v] by auto
  then show ?thesis
    using Cons assms by (simp add: osip_transaction_snd_xxx_def snd_xxx_answer_def topvia_of_def)
qed

text \<open>A next hop exists for every request.\<close>

lemma osip_strdup_pair: "osip_strdup s m = (fst (osip_strdup s m), snd (osip_strdup s m))"
  by simp

lemma request_destination_defined:
  assumes "msg_ok m" "req_uri m \<noteq> None"
  shows "\<exists>host port a. request_destination m a0 = Some ((host, port), a)"
proof -
  obtain u where u: "req_uri m = Some u" "named (url_params u)"
    using assms by (auto simp: msg_ok_def)
  have found: "param_byname (url_params u) n = Some (List.find (has_name n) (url_params u))"
    if "n \<noteq> []" for n
    using that u(2) by (simp add: param_byname_find)
  show ?thesis
  proof (cases "routes m")
    case Nil
    then show ?thesis
      using u(1) found by (auto simp: request_destination_def Let_def split: prod.split)
  next
    case (Cons r rs)
    then have "\<forall>v. url r = Some v \<longrightarrow> named (url_params v)"
      using assms(1) by (auto simp: msg_ok_def named_from_def)
    then have lr: "\<forall>v. url r = Some v
        \<longrightarrow> param_byname (url_params v) ''lr'' = Some (List.find (has_name ''lr'') (url_params v))"
      by (simp add: param_byname_find)
    show ?thesis
      using Cons u(1) found lr
      by (cases "url r") (auto simp: request_destination_def Let_def split: prod.split)
  qed
qed

end
