(* ===== verification/Fsm_Inv.thy ===== *)
theory Fsm_Inv
  imports Fsm_Misc
begin

text \<open>
  Who owns which message. A transaction owns its request, its last response and its ACK; an
  event owns its message until a handler takes it. \<open>mem_ok\<close> is the invariant of a
  transaction and the heap, \<open>evt_ok\<close> what a handler may assume of its event, and \<open>tidy\<close>
  what it promises: afterwards the live messages are those of the others and those the
  transaction owns, so that nothing leaked and nothing was freed twice.
\<close>

definition opt_list :: "'a option \<Rightarrow> 'a list" where
  "opt_list p = (case p of None \<Rightarrow> [] | Some a \<Rightarrow> [a])"

lemma opt_list_simps [simp]: "opt_list None = []" "opt_list (Some a) = [a]"
  by (simp_all add: opt_list_def)

lemma set_opt_list [simp]: "set (opt_list p) = set_option p"
  by (cases p) simp_all

definition owned3 :: "nat option \<Rightarrow> nat option \<Rightarrow> nat option \<Rightarrow> nat list" where
  "owned3 p q r = opt_list p @ opt_list q @ opt_list r"

abbreviation owned :: "osip_transaction \<Rightarrow> nat list" where
  "owned t \<equiv> owned3 (orig_request t) (last_response t) (ack t)"

definition heap_ok :: "(nat \<rightharpoonup> osip_message) \<Rightarrow> nat \<Rightarrow> mem \<Rightarrow> nat list \<Rightarrow> bool" where
  "heap_ok h b m ps \<longleftrightarrow> distinct ps \<and> set ps \<subseteq> dom h \<and> (\<forall>a \<in> dom h. a < b)
     \<and> (\<forall>a x. h a = Some x \<longrightarrow> msg_ok x) \<and> never_fails m"

abbreviation mem_ok :: "st \<Rightarrow> bool" where
  "mem_ok s \<equiv> heap_ok (msgs s) (brk s) (mem s) (owned (tr s))"

definition evt_ok :: "osip_event \<Rightarrow> st \<Rightarrow> bool" where
  "evt_ok e s \<longleftrightarrow>
     (case sip e of
        None \<Rightarrow> \<not> EVT_IS_MSG e
      | Some a \<Rightarrow> a \<notin> set (owned (tr s)) \<and> (\<exists>m. msgs s a = Some m \<and> event_for e m))"

definition heap_tidy ::
  "osip_event \<Rightarrow> st \<Rightarrow> (nat \<rightharpoonup> osip_message) \<Rightarrow> nat \<Rightarrow> mem \<Rightarrow> nat list \<Rightarrow> bool" where
  "heap_tidy e s h b m ps \<longleftrightarrow> heap_ok h b m ps
     \<and> dom h = (dom (msgs s) - set (owned (tr s)) - set_option (sip e)) \<union> set ps
     \<and> (\<forall>a \<in> dom h \<inter> dom (msgs s). h a = msgs s a)
     \<and> (\<forall>a \<in> dom h - dom (msgs s). brk s \<le> a) \<and> brk s \<le> b
     \<and> set ps \<inter> dom (msgs s) \<subseteq> set (owned (tr s)) \<union> set_option (sip e)"

abbreviation tidy :: "osip_event \<Rightarrow> st \<Rightarrow> st \<Rightarrow> bool" where
  "tidy e s s' \<equiv> heap_tidy e s (msgs s') (brk s') (mem s') (owned (tr s'))"

text \<open>What a handler never touches.\<close>

definition same_call :: "osip_transaction \<Rightarrow> osip_transaction \<Rightarrow> bool" where
  "same_call t t' \<longleftrightarrow> transactionid t' = transactionid t \<and> transactionff t' = transactionff t
     \<and> topvia t' = topvia t \<and> tr_from t' = tr_from t \<and> tr_to t' = tr_to t
     \<and> callid t' = callid t \<and> tr_cseq t' = tr_cseq t \<and> config t' = config t
     \<and> ctx_type t' = ctx_type t \<and> in_socket t' = in_socket t \<and> out_socket t' = out_socket t"

lemma same_call_refl [simp]: "same_call t t"
  by (simp add: same_call_def)

lemma same_call_trans: "same_call t u \<Longrightarrow> same_call u v \<Longrightarrow> same_call t v"
  by (simp add: same_call_def)

lemma same_call_updates [simp]:
  "same_call t (u\<lparr>state := x\<rparr>) = same_call t u"
  "same_call t (u\<lparr>completed_time := n\<rparr>) = same_call t u"
  "same_call t (u\<lparr>ict_context := p1\<rparr>) = same_call t u"
  "same_call t (u\<lparr>ist_context := p2\<rparr>) = same_call t u"
  "same_call t (u\<lparr>nict_context := p3\<rparr>) = same_call t u"
  "same_call t (u\<lparr>nist_context := p4\<rparr>) = same_call t u"
  "same_call t (u\<lparr>orig_request := q\<rparr>) = same_call t u"
  "same_call t (u\<lparr>last_response := q\<rparr>) = same_call t u"
  "same_call t (u\<lparr>ack := q\<rparr>) = same_call t u"
  by (simp_all add: same_call_def)

section \<open>Using the invariant\<close>

lemma tidy_mem_ok: "tidy e s s' \<Longrightarrow> mem_ok s'"
  by (simp add: heap_tidy_def)

lemma heap_ok_never_fails: "heap_ok h b m ps \<Longrightarrow> never_fails m"
  by (simp add: heap_ok_def)

lemma heap_ok_msg_ok: "heap_ok h b m ps \<Longrightarrow> h a = Some x \<Longrightarrow> msg_ok x"
  by (simp add: heap_ok_def)

lemma heap_tidy_mem: "heap_tidy e s h b m ps \<Longrightarrow> never_fails m' \<Longrightarrow> heap_tidy e s h b m' ps"
  unfolding heap_tidy_def heap_ok_def by blast

text \<open>A step that takes no message and changes no pointer.\<close>

lemma tidy_refl: "mem_ok s \<Longrightarrow> sip e = None \<Longrightarrow> tidy e s s"
  by (auto simp: heap_tidy_def heap_ok_def)

lemma evt_ok_timeout: "evt_ok e s \<Longrightarrow> \<not> EVT_IS_MSG e \<Longrightarrow> sip e = None"
  by (auto simp: evt_ok_def dest: event_for_msg split: option.splits)

lemma evt_ok_msg:
  assumes "evt_ok e s" "EVT_IS_MSG e"
  obtains a m where "sip e = Some a" "a \<notin> set (owned (tr s))" "msgs s a = Some m" "event_for e m"
  using assms by (auto simp: evt_ok_def split: option.splits)

lemma owned_live:
  assumes "heap_ok h b m (owned3 p q r)"
  shows "p = Some a \<Longrightarrow> h a \<noteq> None" "q = Some a \<Longrightarrow> h a \<noteq> None" "r = Some a \<Longrightarrow> h a \<noteq> None"
  using assms by (auto simp: heap_ok_def owned3_def)

section \<open>The ways a handler takes the message of its event\<close>

lemma take_as_orig:
  assumes "mem_ok s" "sip e = Some a" "a \<notin> set (owned (tr s))" "msgs s a = Some m"
    "orig_request (tr s) = None"
  shows "heap_tidy e s (msgs s) (brk s) (mem s) (owned3 (Some a) (last_response (tr s)) (ack (tr s)))"
  using assms by (auto simp: heap_tidy_def heap_ok_def owned3_def)

lemma take_as_last_response:
  assumes "mem_ok s" "sip e = Some a" "a \<notin> set (owned (tr s))" "msgs s a = Some m"
  obtains h where "osip_message_free (last_response (tr s)) s = Some (s\<lparr>msgs := h\<rparr>)"
    "heap_tidy e s h (brk s) (mem s) (owned3 (orig_request (tr s)) (Some a) (ack (tr s)))"
    "h a = Some m" "\<And>b. orig_request (tr s) = Some b \<Longrightarrow> h b = msgs s b"
    "\<And>b. ack (tr s) = Some b \<Longrightarrow> h b = msgs s b"
proof (cases "last_response (tr s)")
  case None
  show thesis
    by (rule that [of "msgs s"]) (use None assms in \<open>auto simp: heap_tidy_def heap_ok_def owned3_def\<close>)
next
  case (Some b)
  then have "msgs s b \<noteq> None" using owned_live [OF assms(1)] by simp
  then show thesis
    by (intro that [of "(msgs s)(b := None)"])
      (use Some assms in \<open>auto simp: heap_tidy_def heap_ok_def owned3_def split: if_splits\<close>)
qed

lemma take_as_ack:
  assumes "mem_ok s" "sip e = Some a" "a \<notin> set (owned (tr s))" "msgs s a = Some m"
  obtains h where "osip_message_free (ack (tr s)) s = Some (s\<lparr>msgs := h\<rparr>)"
    "heap_tidy e s h (brk s) (mem s) (owned3 (orig_request (tr s)) (last_response (tr s)) (Some a))"
    "h a = Some m"
proof (cases "ack (tr s)")
  case None
  show thesis
    by (rule that [of "msgs s"]) (use None assms in \<open>auto simp: heap_tidy_def heap_ok_def owned3_def\<close>)
next
  case (Some b)
  then have "msgs s b \<noteq> None" using owned_live [OF assms(1)] by simp
  then show thesis
    by (intro that [of "(msgs s)(b := None)"])
      (use Some assms in \<open>auto simp: heap_tidy_def heap_ok_def owned3_def split: if_splits\<close>)
qed

lemma take_and_free:
  assumes "mem_ok s" "sip e = Some a" "a \<notin> set (owned (tr s))" "msgs s a = Some m"
  obtains h where "osip_message_free (sip e) s = Some (s\<lparr>msgs := h\<rparr>)" "tidy e s (s\<lparr>msgs := h\<rparr>)"
    "heap_ok h (brk s) (mem s) (owned (tr s))"
  by (rule that [of "(msgs s)(a := None)"])
    (use assms in \<open>auto simp: heap_tidy_def heap_ok_def owned3_def split: if_splits\<close>)

section \<open>Announcing the end\<close>

text \<open>How often the application has been told that the transaction is over.\<close>

definition is_kill :: "action \<Rightarrow> bool" where
  "is_kill a = (case a of Kill_cb _ \<Rightarrow> True | _ \<Rightarrow> False)"

definition kills :: "action list \<Rightarrow> nat" where
  "kills l = length (filter is_kill l)"

lemma is_kill_simps [simp]:
  "\<not> is_kill (Send a host port sock j)"
  "\<not> is_kill (Message_cb ty p)"
  "is_kill (Kill_cb tyk)"
  "\<not> is_kill (Transport_error_cb tye i)"
  by (simp_all add: is_kill_def)

lemma kills_simps [simp]:
  "kills [] = 0"
  "kills (x # l) = (if is_kill x then 1 else 0) + kills l"
  "kills (l @ l') = kills l + kills l'"
  "kills (message_cb_log cf ty p) = 0"
  "kills (error_cb_log cf tye i) = 0"
  "kills (kill_cb_log cf tyk) = (if kill_callbacks cf tyk then 1 else 0)"
  by (simp_all add: kills_def message_cb_log_def error_cb_log_def kill_cb_log_def)

lemma kills_snd_xxx [simp]: "kills (snd (snd_xxx_answer cf s a)) = 0"
  by (auto simp: snd_xxx_answer_def kills_def is_kill_def split: option.split prod.split)

section \<open>What a handler promises\<close>

text \<open>
  \<open>handled I k over succ cf e s r\<close>: the handler returns, keeps the messages tidy, the
  invariant of its machine and the identity of the transaction, moves to one of the states
  \<open>succ\<close>, and announces the end with \<open>k\<close> once if it moved to \<open>over\<close>, else not at all.
\<close>

definition handled ::
  "(osip_transaction \<Rightarrow> bool) \<Rightarrow> osip_kill_callback_type \<Rightarrow> state_t \<Rightarrow> state_t set
    \<Rightarrow> osip_config \<Rightarrow> osip_event \<Rightarrow> st \<Rightarrow> st option \<Rightarrow> bool" where
  "handled I k over succ cf e s r \<longleftrightarrow>
     (\<exists>s'. r = Some s' \<and> tidy e s s' \<and> I (tr s') \<and> same_call (tr s) (tr s')
       \<and> state (tr s') \<in> succ
       \<and> kills (log s') = kills (log s) + (if state (tr s') = over \<and> kill_callbacks cf k then 1 else 0))"

lemma handledI:
  "r = Some s' \<Longrightarrow> tidy e s s' \<Longrightarrow> I (tr s') \<Longrightarrow> same_call (tr s) (tr s') \<Longrightarrow> state (tr s') \<in> succ
    \<Longrightarrow> kills (log s') = kills (log s) + (if state (tr s') = over \<and> kill_callbacks cf k then 1 else 0)
    \<Longrightarrow> handled I k over succ cf e s r"
  by (auto simp: handled_def)

lemma handled_mono:
  "handled I k over succ cf e s r \<Longrightarrow> succ \<subseteq> succ' \<Longrightarrow> handled I k over succ' cf e s r"
  by (auto simp: handled_def)

lemma handled_None [simp]: "\<not> handled I k over succ cf e s None"
  by (simp add: handled_def)

lemma handled_Some:
  "handled I k over succ cf e s (Some s') \<longleftrightarrow>
     tidy e s s' \<and> I (tr s') \<and> same_call (tr s) (tr s') \<and> state (tr s') \<in> succ
     \<and> kills (log s') = kills (log s) + (if state (tr s') = over \<and> kill_callbacks cf k then 1 else 0)"
  by (simp add: handled_def)

text \<open>A piece of a handler that moves no message and announces no end.\<close>

definition calm :: "state_t \<Rightarrow> st \<Rightarrow> st \<Rightarrow> bool" where
  "calm x s s' \<longleftrightarrow> msgs s' = msgs s \<and> brk s' = brk s \<and> mem s' = mem s
     \<and> orig_request (tr s') = orig_request (tr s) \<and> last_response (tr s') = last_response (tr s)
     \<and> ack (tr s') = ack (tr s) \<and> same_call (tr s) (tr s') \<and> state (tr s') = x
     \<and> kills (log s') = kills (log s)"

lemma handled_calm:
  assumes "r = Some s'" "calm x s0 s'" "tidy e s s0" "same_call (tr s) (tr s0)"
    "kills (log s0) = kills (log s)" "I (tr s')" "x \<in> succ" "x \<noteq> over"
  shows "handled I k over succ cf e s r"
  using assms by (auto simp: handled_def calm_def intro: same_call_trans)

section \<open>The contract of a state machine\<close>

text \<open>
  What executing one event does, for a machine with the invariant \<open>I\<close>, the diagram
  \<open>diagram\<close>, the final state \<open>over\<close> and the kill callback \<open>k\<close>: the step is one of the diagram,
  or the diagram has none, the transaction is left alone and the message is freed. The kill
  callback goes with the step into the final state.
\<close>

definition executed ::
  "(osip_transaction \<Rightarrow> bool) \<Rightarrow> (state_t \<Rightarrow> type_t \<Rightarrow> state_t \<Rightarrow> bool) \<Rightarrow> state_t
    \<Rightarrow> osip_kill_callback_type \<Rightarrow> osip_config \<Rightarrow> osip_event \<Rightarrow> st \<Rightarrow> st \<Rightarrow> bool" where
  "executed I diagram over k cf e s s' \<longleftrightarrow>
     tidy e s s' \<and> I (tr s') \<and> same_call (tr s) (tr s')
     \<and> (diagram (state (tr s)) (type e) (state (tr s'))
        \<or> (\<nexists>st. diagram (state (tr s)) (type e) st) \<and> tr s' = tr s \<and> log s' = log s)
     \<and> kills (log s') = kills (log s)
         + (if state (tr s) \<noteq> over \<and> state (tr s') = over \<and> kill_callbacks cf k then 1 else 0)"

text \<open>The event whose message no method took: the dispatcher frees it.\<close>

definition free_useless :: "int \<Rightarrow> osip_event \<Rightarrow> st \<Rightarrow> st option" where
  "free_useless i evt s =
    (if i \<noteq> 0 \<and> EVT_IS_MSG evt \<and> sip evt \<noteq> None then osip_message_free (sip evt) s else Some s)"

locale fsm =
  fixes table :: "st handler transition list"
    and I :: "osip_transaction \<Rightarrow> bool"
    and diagram :: "state_t \<Rightarrow> type_t \<Rightarrow> state_t \<Rightarrow> bool"
    and over :: state_t
    and k :: osip_kill_callback_type
  assumes table_diagram: "fsm_findmethod ty st table \<noteq> None \<longleftrightarrow> (\<exists>st'. diagram st ty st')"
    and method_handled: "mem_ok s \<Longrightarrow> I (tr s) \<Longrightarrow> evt_ok e s
      \<Longrightarrow> fsm_findmethod (type e) (state (tr s)) table = Some t
      \<Longrightarrow> handled I k over {st. diagram (state (tr s)) (type e) st} cf e s (t_method t cf e s)"
    and over_final: "\<not> diagram over ty st"
begin

lemma useless:
  assumes "mem_ok s" "I (tr s)" "evt_ok e s" "fsm_findmethod (type e) (state (tr s)) table = None"
  shows "\<exists>s'. free_useless (-1) e s = Some s' \<and> executed I diagram over k cf e s s'"
proof -
  have none: "\<nexists>st. diagram (state (tr s)) (type e) st"
    using table_diagram [of "type e" "state (tr s)"] assms(4) by simp
  show ?thesis
  proof (cases "sip e")
    case None
    then show ?thesis
      using tidy_refl [OF assms(1) None] none assms(2) by (simp add: executed_def free_useless_def)
  next
    case (Some a)
    then obtain m where a: "a \<notin> set (owned (tr s))" "msgs s a = Some m" "event_for e m"
      using assms(3) by (auto simp: evt_ok_def)
    obtain h where "osip_message_free (sip e) s = Some (s\<lparr>msgs := h\<rparr>)" "tidy e s (s\<lparr>msgs := h\<rparr>)"
      using take_and_free [OF assms(1) Some a(1,2)] .
    then show ?thesis
      using none assms(2) event_for_msg [OF a(3)] Some
      by (intro exI [of _ "s\<lparr>msgs := h\<rparr>"]) (simp add: executed_def free_useless_def)
  qed
qed

lemma called:
  assumes "mem_ok s" "I (tr s)" "evt_ok e s" "fsm_findmethod (type e) (state (tr s)) table = Some t"
  shows "\<exists>s'. t_method t cf e s = Some s' \<and> executed I diagram over k cf e s s'"
proof -
  have "state (tr s) \<noteq> over"
    using table_diagram [of "type e" "state (tr s)"] assms(4) over_final by auto
  then have "executed I diagram over k cf e s s'"
    if "handled I k over {st. diagram (state (tr s)) (type e) st} cf e s (Some s')" for s'
    using that by (simp add: handled_Some executed_def)
  then show ?thesis
    using method_handled [OF assms, of cf] by (cases "t_method t cf e s") auto
qed

lemma dispatch:
  assumes "mem_ok s" "I (tr s)" "evt_ok e s"
  shows "\<exists>s'. do { (i, s) \<leftarrow> fsm_callmethod cf (type e) (state (tr s)) table e s; free_useless i e s }
      = Some s' \<and> executed I diagram over k cf e s s'"
proof (cases "fsm_findmethod (type e) (state (tr s)) table")
  case None
  then show ?thesis using useless [OF assms] by (simp add: fsm_callmethod_def)
next
  case (Some t)
  then show ?thesis
    using called [OF assms Some, of cf] by (auto simp: fsm_callmethod_def free_useless_def)
qed

lemma final_ignores:
  assumes "executed I diagram over k cf e s s'" "state (tr s) = over"
  shows "tr s' = tr s" "log s' = log s"
  using assms over_final by (auto simp: executed_def)

end

end
