(* ===== verification/Ict.thy ===== *)
theory Ict
  imports Fsm_Inv
begin

text \<open>
  The INVITE client transaction: \<^verbatim>\<open>ict.c\<close> (its context and timers) and \<^verbatim>\<open>ict_fsm.c\<close> (its
  state machine). The build has non-blocking sockets: a reliable transport whose connection
  is not ready answers a positive number, and timer A then polls it.
\<close>

section \<open>The context\<close>

definition osip_ict_set_destination :: "osip_ict ptr \<Rightarrow> cstr \<Rightarrow> int \<Rightarrow> (int \<times> osip_ict ptr) option" where
  "osip_ict_set_destination ict dest port =
    (if ict = Null then Some (OSIP_BADPARAMETER, Null)
     else do {
       c \<leftarrow> load ict;
       Some (OSIP_SUCCESS, Live (c\<lparr>ict_destination := dest, ict_port := port\<rparr>))
     })"

definition ict_zero :: osip_ict where
  "ict_zero = \<lparr>timer_a_length = 0, timer_a_start = \<lparr>tv_sec = 0, tv_usec = 0\<rparr>,
    timer_b_length = 0, timer_b_start = \<lparr>tv_sec = 0, tv_usec = 0\<rparr>,
    timer_d_length = 0, timer_d_start = \<lparr>tv_sec = 0, tv_usec = 0\<rparr>,
    ict_destination = None, ict_port = 0\<rparr>"

text \<open>
  The two error paths after the allocation free the context and leave \<^verbatim>\<open>*ict\<close> pointing at
  it; the other three machines set it to NULL.
\<close>

definition osip_ict_init ::
  "osip_config \<Rightarrow> osip_message \<Rightarrow> 'a world_scheme
    \<Rightarrow> ((int \<times> osip_ict ptr) \<times> 'a world_scheme) option" where
  "osip_ict_init cf invite w =
    (case osip_malloc (mem w) of (ok, m) \<Rightarrow>
     let w = w\<lparr>mem := m\<rparr> in
     if \<not> ok then Some ((OSIP_NOMEM, Null), w)
     else let (i, via) = osip_message_get_via (Some invite) 0 in
     if i < 0 then Some ((i, Dangling), w)
     else (case via_get_protocol via of
         None \<Rightarrow> Some ((OSIP_SYNTAXERROR, Dangling), w)
       | Some proto \<Rightarrow> do {
           let d = (if unreliable proto then (if 64 * DEFAULT_T1 < 32000 then 32000 else 64 * DEFAULT_T1)
                    else 0);
           let (a_start, w) = time_in cf DEFAULT_T1 w;
           let c = ict_zero\<lparr>timer_a_length := DEFAULT_T1, timer_d_length := d,
                     timer_a_start := a_start,
                     timer_d_start := timer_off (timer_d_start ict_zero)\<rparr>;
           ((host, port), m) \<leftarrow> request_destination invite (mem w);
           let w = w\<lparr>mem := m\<rparr>;
           (r, p) \<leftarrow> osip_ict_set_destination (Live c) host port;
           c \<leftarrow> load p;
           let (b_start, w) = time_in cf (64 * DEFAULT_T1) w;
           let c = c\<lparr>timer_b_length := 64 * DEFAULT_T1, timer_b_start := b_start\<rparr>;
           Some ((OSIP_SUCCESS, Live c), w)
         }))"

text \<open>Freeing NULL does nothing; freeing a context twice is undefined.\<close>

definition osip_ict_free :: "osip_ict ptr \<Rightarrow> (int \<times> osip_ict ptr) option" where
  "osip_ict_free ict =
    (if ict = Null then Some (OSIP_SUCCESS, Null)
     else do { c \<leftarrow> load ict; Some (OSIP_SUCCESS, Dangling) })"

definition osip_ict_need_timer_a_event ::
  "osip_config \<Rightarrow> osip_ict ptr \<Rightarrow> state_t \<Rightarrow> int \<Rightarrow> 'a world_scheme
    \<Rightarrow> (osip_event option \<times> 'a world_scheme) option" where
  "osip_ict_need_timer_a_event cf ict st tid w =
    osip_transaction_need_timer_x_event cf ict timer_a_start (st = ICT_CALLING) tid TIMEOUT_A w"

definition osip_ict_need_timer_b_event ::
  "osip_config \<Rightarrow> osip_ict ptr \<Rightarrow> state_t \<Rightarrow> int \<Rightarrow> 'a world_scheme
    \<Rightarrow> (osip_event option \<times> 'a world_scheme) option" where
  "osip_ict_need_timer_b_event cf ict st tid w =
    osip_transaction_need_timer_x_event cf ict timer_b_start (st = ICT_CALLING) tid TIMEOUT_B w"

definition osip_ict_need_timer_d_event ::
  "osip_config \<Rightarrow> osip_ict ptr \<Rightarrow> state_t \<Rightarrow> int \<Rightarrow> 'a world_scheme
    \<Rightarrow> (osip_event option \<times> 'a world_scheme) option" where
  "osip_ict_need_timer_d_event cf ict st tid w =
    osip_transaction_need_timer_x_event cf ict timer_d_start (st = ICT_COMPLETED) tid TIMEOUT_D w"

section \<open>The state machine\<close>

definition upd_ict :: "(osip_ict \<Rightarrow> osip_ict) \<Rightarrow> st \<Rightarrow> st option" where
  "upd_ict f s =
    do { c \<leftarrow> load (ict_context (tr s)); Some (s\<lparr>tr := (tr s)\<lparr>ict_context := Live (f c)\<rparr>\<rparr>) }"

definition ict_handle_transport_error :: "osip_config \<Rightarrow> int \<Rightarrow> st \<Rightarrow> st option" where
  "ict_handle_transport_error cf err s =
    do {
      s \<leftarrow> osip_transport_error_callback cf OSIP_ICT_TRANSPORT_ERROR err s;
      let s = osip_transaction_set_state ICT_TERMINATED s;
      osip_kill_transaction_callback cf OSIP_ICT_KILL_TRANSACTION s
    }"

text \<open>
  The block that stops timer A once a reliable transport has taken the message. It either
  ends the transaction with a transport error or goes on with \<open>k\<close>.
\<close>

definition ict_stop_timer_a :: "osip_config \<Rightarrow> (st \<Rightarrow> st option) \<Rightarrow> st \<Rightarrow> st option" where
  "ict_stop_timer_a cf k s =
    do {
      m \<leftarrow> deref s (orig_request (tr s));
      let (i, via) = osip_message_get_via (Some m) 0;
      (if i < 0 then ict_handle_transport_error cf i s
       else (case via_get_protocol via of
           None \<Rightarrow> ict_handle_transport_error cf i s
         | Some proto \<Rightarrow>
             if unreliable proto then k s
             else do {
               s \<leftarrow> upd_ict (\<lambda>c. c\<lparr>timer_a_length := -1,
                                  timer_a_start := timer_off (timer_a_start c)\<rparr>) s;
               k s
             }))
    }"

definition ict_snd_invite :: "osip_config \<Rightarrow> osip_event \<Rightarrow> st \<Rightarrow> st option" where
  "ict_snd_invite cf evt s =
    do {
      let s = s\<lparr>tr := (tr s)\<lparr>orig_request := sip evt\<rparr>\<rparr>;
      c \<leftarrow> load (ict_context (tr s));
      (i, s) \<leftarrow> transaction_send cf (sip evt) (ict_destination c) (ict_port c) s;
      let sent = (\<lambda>s. do {
          s \<leftarrow> osip_message_callback cf OSIP_ICT_INVITE_SENT (orig_request (tr s)) s;
          Some (osip_transaction_set_state ICT_CALLING s)
        });
      (if i < 0 then ict_handle_transport_error cf i s
       else if i = 0 then ict_stop_timer_a cf sent s
       else sent s)
    }"

definition osip_ict_timeout_a_event :: "osip_config \<Rightarrow> osip_event \<Rightarrow> st \<Rightarrow> st option" where
  "osip_ict_timeout_a_event cf evt s =
    do {
      s \<leftarrow> upd_ict (\<lambda>c. c\<lparr>timer_a_length := timer_a_length c * 2\<rparr>) s;
      c \<leftarrow> load (ict_context (tr s));
      let (t, s) = time_in cf (timer_a_length c) s;
      s \<leftarrow> upd_ict (\<lambda>c. c\<lparr>timer_a_start := t\<rparr>) s;
      (i, s) \<leftarrow> transaction_send cf (orig_request (tr s)) (ict_destination c) (ict_port c) s;
      (if i < 0 then ict_handle_transport_error cf i s
       else if i = 0 then
         ict_stop_timer_a cf
           (\<lambda>s. osip_message_callback cf OSIP_ICT_INVITE_SENT_AGAIN (orig_request (tr s)) s) s
       else Some s)
    }"

definition osip_ict_timeout_b_event :: "osip_config \<Rightarrow> osip_event \<Rightarrow> st \<Rightarrow> st option" where
  "osip_ict_timeout_b_event cf evt s =
    do {
      s \<leftarrow> upd_ict (\<lambda>c. c\<lparr>timer_b_length := -1, timer_b_start := timer_off (timer_b_start c)\<rparr>) s;
      s \<leftarrow> osip_message_callback cf OSIP_ICT_STATUS_TIMEOUT (sip evt) s;
      let s = osip_transaction_set_state ICT_TERMINATED s;
      osip_kill_transaction_callback cf OSIP_ICT_KILL_TRANSACTION s
    }"

definition ict_rcv_1xx :: "osip_config \<Rightarrow> osip_event \<Rightarrow> st \<Rightarrow> st option" where
  "ict_rcv_1xx cf evt s =
    do {
      s \<leftarrow> osip_message_free (last_response (tr s)) s;
      let s = s\<lparr>tr := (tr s)\<lparr>last_response := sip evt\<rparr>\<rparr>;
      s \<leftarrow> osip_message_callback cf OSIP_ICT_STATUS_1XX_RECEIVED (sip evt) s;
      Some (osip_transaction_set_state ICT_PROCEEDING s)
    }"

definition ict_rcv_2xx :: "osip_config \<Rightarrow> osip_event \<Rightarrow> st \<Rightarrow> st option" where
  "ict_rcv_2xx cf evt s =
    do {
      s \<leftarrow> osip_message_free (last_response (tr s)) s;
      let s = s\<lparr>tr := (tr s)\<lparr>last_response := sip evt\<rparr>\<rparr>;
      s \<leftarrow> osip_message_callback cf OSIP_ICT_STATUS_2XX_RECEIVED (sip evt) s;
      let s = osip_transaction_set_state ICT_TERMINATED s;
      osip_kill_transaction_callback cf OSIP_ICT_KILL_TRANSACTION s
    }"

text \<open>
  \<^verbatim>\<open>ict_create_ack\<close> as a message: any failure gives NULL. The copies of the routes stop at
  the first route that cannot be copied, as \<^verbatim>\<open>osip_list_clone\<close> does.
\<close>

definition needed_strdup ::
  "cstr \<Rightarrow> mem \<Rightarrow> (cstr \<Rightarrow> mem \<Rightarrow> (int \<times> 'a option) \<times> mem) \<Rightarrow> (int \<times> 'a option) \<times> mem" where
  "needed_strdup s m k =
    (case osip_strdup s m of (r, m) \<Rightarrow> if r = None then ((OSIP_NOMEM, None), m) else k r m)"

definition ict_create_ack_message ::
  "osip_message \<Rightarrow> osip_message \<Rightarrow> mem \<Rightarrow> (int \<times> osip_message option) \<times> mem" where
  "ict_create_ack_message orig response m =
    checked_malloc m (\<lambda>m.
    checked_call (osip_from_clone (msg_from response) m) (\<lambda>from m.
    checked_call (osip_to_clone (msg_to response) m) (\<lambda>to m.
    checked_call (osip_call_id_clone (call_id response) m) (\<lambda>cid m.
    checked_call (osip_cseq_clone (cseq response) m) (\<lambda>cs m.
    needed_strdup (Some ''ACK'') m (\<lambda>method m.
    checked_malloc m (\<lambda>m.
    needed_strdup (sip_version orig) m (\<lambda>version m.
    checked_call (osip_uri_clone (req_uri orig) m) (\<lambda>uri m.
    (case snd (osip_message_get_via (Some orig) 0) of
       None \<Rightarrow> ((OSIP_SYNTAXERROR, None), m)
     | Some orig_via \<Rightarrow>
    checked_call (osip_via_clone (Some orig_via) m) (\<lambda>via m.
    (case list_add [] (the via) (-1) m of (new_vias, m) \<Rightarrow>
    checked_call (osip_list_clone (\<lambda>r. osip_from_clone (Some r)) (routes orig) [] m) (\<lambda>rts m.
    checked_call
      (if status_code response \<noteq> 401 \<and> status_code response \<noteq> 407
          \<and> int (length (authorizations orig)) > 0
       then osip_list_clone osip_authorization_clone (authorizations orig) [] m
       else ((OSIP_SUCCESS, []), m)) (\<lambda>auths m.
    checked_call
      (if status_code response \<noteq> 401 \<and> status_code response \<noteq> 407
          \<and> int (length (proxy_authorizations orig)) > 0
       then osip_list_clone osip_authorization_clone (proxy_authorizations orig) [] m
       else ((OSIP_SUCCESS, []), m)) (\<lambda>proxy_auths m.
    ((OSIP_SUCCESS,
      Some (osip_message_init
        \<lparr>msg_from := from, msg_to := to, call_id := cid,
         cseq := map_option (\<lambda>c. c\<lparr>cseq_method := method\<rparr>) cs,
         sip_method := Some ''ACK'', sip_version := version,
         status_code := 0, reason_phrase := None, req_uri := uri,
         vias := new_vias, routes := rts,
         authorizations := auths, proxy_authorizations := proxy_auths\<rparr>)), m))))))))))))))))"

text \<open>On the heap: the new message gets the next address.\<close>

definition ict_create_ack :: "nat option \<Rightarrow> st \<Rightarrow> (nat option \<times> st) option" where
  "ict_create_ack response s =
    do {
      orig \<leftarrow> deref s (orig_request (tr s));
      resp \<leftarrow> deref s response;
      (case ict_create_ack_message orig resp (mem s) of
         ((i, a), m) \<Rightarrow>
           (case a of
              None \<Rightarrow> Some (None, s\<lparr>mem := m\<rparr>)
            | Some msg \<Rightarrow> Some (Some (brk s),
                s\<lparr>mem := m, msgs := (msgs s)(brk s \<mapsto> msg), brk := brk s + 1\<rparr>)))
    }"

definition ict_3456xx_type :: "osip_message \<Rightarrow> osip_message_callback_type" where
  "ict_3456xx_type m =
    (if MSG_IS_STATUS 3 m then OSIP_ICT_STATUS_3XX_RECEIVED
     else if MSG_IS_STATUS 4 m then OSIP_ICT_STATUS_4XX_RECEIVED
     else if MSG_IS_STATUS 5 m then OSIP_ICT_STATUS_5XX_RECEIVED
     else OSIP_ICT_STATUS_6XX_RECEIVED)"

definition ict_reset_destination :: "osip_message \<Rightarrow> st \<Rightarrow> st option" where
  "ict_reset_destination ackm s =
    do {
      c \<leftarrow> load (ict_context (tr s));
      (if ict_destination c = None then do {
         ((host, port), m) \<leftarrow> request_destination ackm (mem s);
         (r, p) \<leftarrow> osip_ict_set_destination (ict_context (tr s)) host port;
         Some (s\<lparr>mem := m, tr := (tr s)\<lparr>ict_context := p\<rparr>\<rparr>)
       } else Some s)
    }"

definition ict_start_timer_d :: "osip_config \<Rightarrow> st \<Rightarrow> st option" where
  "ict_start_timer_d cf s =
    do {
      c \<leftarrow> load (ict_context (tr s));
      let (t, s) = time_in cf (timer_d_length c) s;
      s \<leftarrow> upd_ict (\<lambda>c. c\<lparr>timer_d_start := t\<rparr>) s;
      Some (osip_transaction_set_state ICT_COMPLETED s)
    }"

definition ict_rcv_3456xx :: "osip_config \<Rightarrow> osip_event \<Rightarrow> st \<Rightarrow> st option" where
  "ict_rcv_3456xx cf evt s =
    do {
      s \<leftarrow> osip_message_free (last_response (tr s)) s;
      let s = s\<lparr>tr := (tr s)\<lparr>last_response := sip evt\<rparr>\<rparr>;
      (if state (tr s) \<noteq> ICT_COMPLETED then do {
         (a, s) \<leftarrow> ict_create_ack (sip evt) s;
         let s = s\<lparr>tr := (tr s)\<lparr>ack := a\<rparr>\<rparr>;
         (if a = None then do {
            let s = osip_transaction_set_state ICT_TERMINATED s;
            osip_kill_transaction_callback cf OSIP_ICT_KILL_TRANSACTION s
          } else do {
            ackm \<leftarrow> deref s a;
            s \<leftarrow> ict_reset_destination ackm s;
            c \<leftarrow> load (ict_context (tr s));
            (i, s) \<leftarrow> transaction_send cf a (ict_destination c) (ict_port c) s;
            (if i \<noteq> 0 then ict_handle_transport_error cf i s
             else do {
               m \<leftarrow> deref s (sip evt);
               s \<leftarrow> osip_message_callback cf (ict_3456xx_type m) (sip evt) s;
               s \<leftarrow> osip_message_callback cf OSIP_ICT_ACK_SENT a s;
               ict_start_timer_d cf s
             })
          })
       } else ict_start_timer_d cf s)
    }"

definition osip_ict_timeout_d_event :: "osip_config \<Rightarrow> osip_event \<Rightarrow> st \<Rightarrow> st option" where
  "osip_ict_timeout_d_event cf evt s =
    do {
      s \<leftarrow> upd_ict (\<lambda>c. c\<lparr>timer_d_length := -1, timer_d_start := timer_off (timer_d_start c)\<rparr>) s;
      let s = osip_transaction_set_state ICT_TERMINATED s;
      osip_kill_transaction_callback cf OSIP_ICT_KILL_TRANSACTION s
    }"

definition ict_retransmit_ack :: "osip_config \<Rightarrow> osip_event \<Rightarrow> st \<Rightarrow> st option" where
  "ict_retransmit_ack cf evt s =
    do {
      s \<leftarrow> osip_message_callback cf OSIP_ICT_STATUS_3456XX_RECEIVED_AGAIN (sip evt) s;
      s \<leftarrow> osip_message_free (sip evt) s;
      c \<leftarrow> load (ict_context (tr s));
      (i, s) \<leftarrow> transaction_send cf (ack (tr s)) (ict_destination c) (ict_port c) s;
      (if i = 0 then do {
         s \<leftarrow> osip_message_callback cf OSIP_ICT_ACK_SENT_AGAIN (ack (tr s)) s;
         Some (osip_transaction_set_state ICT_COMPLETED s)
       } else ict_handle_transport_error cf i s)
    }"

definition ict_transition :: "st handler transition list" where
  "ict_transition =
    [\<lparr>t_state = ICT_PRE_CALLING, t_type = SND_REQINVITE, t_method = ict_snd_invite\<rparr>,
     \<lparr>t_state = ICT_CALLING, t_type = TIMEOUT_A, t_method = osip_ict_timeout_a_event\<rparr>,
     \<lparr>t_state = ICT_CALLING, t_type = TIMEOUT_B, t_method = osip_ict_timeout_b_event\<rparr>,
     \<lparr>t_state = ICT_CALLING, t_type = RCV_STATUS_1XX, t_method = ict_rcv_1xx\<rparr>,
     \<lparr>t_state = ICT_CALLING, t_type = RCV_STATUS_2XX, t_method = ict_rcv_2xx\<rparr>,
     \<lparr>t_state = ICT_CALLING, t_type = RCV_STATUS_3456XX, t_method = ict_rcv_3456xx\<rparr>,
     \<lparr>t_state = ICT_PROCEEDING, t_type = RCV_STATUS_1XX, t_method = ict_rcv_1xx\<rparr>,
     \<lparr>t_state = ICT_PROCEEDING, t_type = RCV_STATUS_2XX, t_method = ict_rcv_2xx\<rparr>,
     \<lparr>t_state = ICT_PROCEEDING, t_type = RCV_STATUS_3456XX, t_method = ict_rcv_3456xx\<rparr>,
     \<lparr>t_state = ICT_COMPLETED, t_type = RCV_STATUS_3456XX, t_method = ict_retransmit_ack\<rparr>,
     \<lparr>t_state = ICT_COMPLETED, t_type = TIMEOUT_D, t_method = osip_ict_timeout_d_event\<rparr>]"

lemmas [fsm_defs] =
  ict_handle_transport_error_def ict_stop_timer_a_def ict_snd_invite_def
  osip_ict_timeout_a_event_def osip_ict_timeout_b_event_def ict_rcv_1xx_def ict_rcv_2xx_def
  ict_rcv_3456xx_def osip_ict_timeout_d_event_def ict_retransmit_ack_def
  ict_reset_destination_def ict_start_timer_d_def upd_ict_def

section \<open>What a clone gives when it gives anything\<close>

text \<open>
  \<open>gives r y\<close>: with an allocator that does not fail, the call answers \<open>y\<close> or an error code;
  \<open>gives_msg r x\<close> is the same where an error comes with a NULL pointer. No condition on the
  source of the copy is needed: what cannot be copied is an error.
\<close>

definition gives :: "(int \<times> 'a) \<times> mem \<Rightarrow> 'a \<Rightarrow> bool" where
  "gives r y \<longleftrightarrow> never_fails (snd r) \<and> (fst r = (0, y) \<or> fst (fst r) \<noteq> 0)"

definition gives_opt :: "(int \<times> 'a option) \<times> mem \<Rightarrow> 'a \<Rightarrow> bool" where
  "gives_opt r x \<longleftrightarrow> never_fails (snd r) \<and> (fst r = (0, Some x) \<or> fst (fst r) \<noteq> 0 \<and> snd (fst r) = None)"

lemma gives_opt_simps [simp]:
  "gives_opt ((0, y), m) x \<longleftrightarrow> never_fails m \<and> y = Some x"
  "i \<noteq> 0 \<Longrightarrow> gives_opt ((i, None), m) x \<longleftrightarrow> never_fails m"
  by (auto simp: gives_opt_def)

lemma gives_opt_gives: "gives_opt r x \<Longrightarrow> gives r (Some x)"
  by (auto simp: gives_opt_def gives_def)

lemma gives_opt_malloc:
  "never_fails m \<Longrightarrow> (\<And>m. never_fails m \<Longrightarrow> gives_opt (k m) x) \<Longrightarrow> gives_opt (checked_malloc m k) x"
  using osip_malloc_never_fails [of m] by (auto simp: checked_malloc_def)

lemma gives_opt_strdup:
  "never_fails m \<Longrightarrow> (\<And>m. never_fails m \<Longrightarrow> gives_opt (k s m) x) \<Longrightarrow> gives_opt (checked_strdup s m k) x"
  "never_fails m \<Longrightarrow> (\<And>m. never_fails m \<Longrightarrow> gives_opt (k s m) x) \<Longrightarrow> gives_opt (unchecked_strdup s m k) x"
  "never_fails m \<Longrightarrow> (\<And>m. never_fails m \<Longrightarrow> gives_opt (k s m) x) \<Longrightarrow> gives_opt (needed_strdup s m k) x"
  using osip_strdup_never_fails [of m s]
  by (auto simp: checked_strdup_def unchecked_strdup_def needed_strdup_def)

lemma gives_opt_call:
  "gives c y \<Longrightarrow> (\<And>m. never_fails m \<Longrightarrow> gives_opt (k y m) x) \<Longrightarrow> gives_opt (checked_call c k) x"
  by (cases c; cases "fst c") (auto simp: checked_call_def gives_def)

lemma gives_list_clone:
  assumes "\<And>x m. never_fails m \<Longrightarrow> gives_opt (f x m) (g x)" "never_fails m"
  shows "gives (osip_list_clone f xs dst m) (dst @ map g xs)"
  using assms(2)
proof (induction xs arbitrary: dst m)
  case Nil
  then show ?case by (simp add: gives_def)
next
  case (Cons x xs)
  obtain i y m1 where f: "f x m = ((i, y), m1)" by (metis surj_pair)
  then have m1: "never_fails m1" "(i, y) = (0, Some (g x)) \<or> i \<noteq> 0"
    using assms(1) [of m x] Cons.prems by (auto simp: gives_opt_def)
  obtain m2 where m2: "osip_malloc m1 = (True, m2)" "never_fails m2"
    using osip_malloc_never_fails [OF m1(1)] by blast
  show ?case
    using Cons.IH [of m2 "dst @ [g x]"] f m1 m2 by (auto simp: list_add_def gives_def)
qed

lemmas gives_intros = gives_opt_malloc gives_opt_strdup

lemma uri_param_clone_gives: "never_fails m \<Longrightarrow> gives_opt (osip_uri_param_clone p m) p"
  unfolding osip_uri_param_clone_def by (simp, intro impI gives_intros) auto

lemma params_clone_gives:
  "never_fails m \<Longrightarrow> gives (osip_list_clone osip_uri_param_clone ps [] m) ps"
  using gives_list_clone [of osip_uri_param_clone id m ps "[]"] uri_param_clone_gives by simp

lemmas params_call_gives = gives_opt_call [OF params_clone_gives]

lemma uri_clone_gives:
  assumes "never_fails m"
  shows "gives (osip_uri_clone (Some u) m) (Some u)"
  unfolding osip_uri_clone_def using assms
  by (intro gives_opt_gives)
    (simp del: de_Morgan_conj, intro impI gives_intros params_call_gives, auto)

lemma uri_clone_None: "never_fails m \<Longrightarrow> gives (osip_uri_clone None m) y"
  by (simp add: osip_uri_clone_def gives_def)

lemma via_clone_gives:
  assumes "never_fails m"
  shows "gives (osip_via_clone (Some v) m) (Some v)"
  unfolding osip_via_clone_def using assms
  by (intro gives_opt_gives)
    (simp del: not_None_eq, intro conjI impI gives_intros params_call_gives, auto)

lemma from_clone_gives:
  assumes "never_fails m"
  shows "gives_opt (osip_from_clone (Some f) m) f"
proof -
  have u: "gives (if url f = None then ((OSIP_SUCCESS, None), m) else osip_uri_clone (url f) m) (url f)"
    if "never_fails m" for m
    using that uri_clone_gives by (cases "url f") (auto simp: gives_def)
  show ?thesis
    unfolding osip_from_clone_def using assms
    by (simp del: not_None_eq, intro gives_intros gives_opt_call [OF u] params_call_gives) auto
qed

lemma authorization_clone_gives:
  "never_fails m \<Longrightarrow> gives_opt (osip_authorization_clone a m) (a\<lparr>auth_param := None\<rparr>)"
  using osip_authorization_clone_ok [of m a] by auto

lemma from_call_gives: "never_fails m \<Longrightarrow> gives (osip_from_clone f m) f"
  using gives_opt_gives [OF from_clone_gives, of m "the f"]
  by (cases f) (auto simp: osip_from_clone_def gives_def)

lemma call_id_call_gives: "never_fails m \<Longrightarrow> gives (osip_call_id_clone c m) c"
  using osip_call_id_clone_ok [of "the c" m]
  by (cases c; cases "callid_number (the c)") (auto simp: osip_call_id_clone_def gives_def)

lemma cseq_call_gives: "never_fails m \<Longrightarrow> gives (osip_cseq_clone c m) c"
  using osip_cseq_clone_ok [of "the c" m]
  by (cases c; cases "cseq_method (the c)"; cases "cseq_number (the c)")
    (auto simp: osip_cseq_clone_def gives_def)

lemma uri_call_gives: "never_fails m \<Longrightarrow> gives (osip_uri_clone u m) u"
  by (cases u) (auto intro: uri_clone_gives uri_clone_None)

section \<open>The ACK of a final response\<close>

text \<open>
  RFC 3261, 17.1.1.3: the ACK has the request URI, the routes and only the top Via of the
  INVITE, the From, To, Call-ID and CSeq number of the response, and the credentials of the
  INVITE unless the response asks for others.
\<close>

definition ack_for :: "osip_message \<Rightarrow> osip_message \<Rightarrow> osip_message" where
  "ack_for orig response =
    (let keep = (\<lambda>as. if status_code response \<in> {401, 407} then []
                      else map (\<lambda>a. a\<lparr>auth_param := None\<rparr>) as)
     in osip_message_init
       \<lparr>msg_from := msg_from response, msg_to := msg_to response, call_id := call_id response,
        cseq := map_option (\<lambda>c. c\<lparr>cseq_method := Some ''ACK''\<rparr>) (cseq response),
        sip_method := Some ''ACK'', sip_version := sip_version orig, status_code := 0,
        reason_phrase := None, req_uri := req_uri orig, vias := opt_list (topvia_of orig),
        routes := routes orig, authorizations := keep (authorizations orig),
        proxy_authorizations := keep (proxy_authorizations orig)\<rparr>)"

lemma auths_call_gives:
  "never_fails m \<Longrightarrow> gives
     (if st \<noteq> 401 \<and> st \<noteq> 407 \<and> int (length as) > 0
      then osip_list_clone osip_authorization_clone as [] m else ((OSIP_SUCCESS, []), m))
     (if st \<in> {401, 407} then [] else map (\<lambda>a. a\<lparr>auth_param := None\<rparr>) as)"
  using gives_list_clone [of osip_authorization_clone "\<lambda>a. a\<lparr>auth_param := None\<rparr>" m as "[]",
      OF authorization_clone_gives]
  by (auto simp: gives_def)

lemma routes_call_gives:
  "never_fails m \<Longrightarrow> gives (osip_list_clone (\<lambda>r. osip_from_clone (Some r)) rs [] m) rs"
  using gives_list_clone [of "\<lambda>r. osip_from_clone (Some r)" id m rs "[]"] from_clone_gives by simp

lemma list_add_single: "never_fails m \<Longrightarrow> \<exists>m'. list_add [] x (-1) m = ([x], m') \<and> never_fails m'"
  using osip_malloc_never_fails [of m] by (auto simp: list_add_def)

lemma ict_create_ack_message_gives_uri:
  assumes "never_fails m" "\<And>m. never_fails m \<Longrightarrow> gives (osip_uri_clone (req_uri orig) m) u"
  shows "gives_opt (ict_create_ack_message orig resp m) (ack_for (orig\<lparr>req_uri := u\<rparr>) resp)"
proof (cases "topvia_of orig")
  case None
  have *: "gives_opt ((OSIP_SYNTAXERROR, None), m) (ack_for (orig\<lparr>req_uri := u\<rparr>) resp)" if "never_fails m" for m
    using that by simp
  show ?thesis
    unfolding ict_create_ack_message_def osip_to_clone_def using assms(1) None
    by (simp, intro gives_intros * gives_opt_call [OF from_call_gives] gives_opt_call [OF assms(2)]
        gives_opt_call [OF call_id_call_gives] gives_opt_call [OF cseq_call_gives]) auto
next
  case (Some v)
  have tail: "gives_opt (case list_add [] (the (Some v)) (-1) m of (new_vias, m) \<Rightarrow> k new_vias m) x"
    if "never_fails m" "\<And>m. never_fails m \<Longrightarrow> gives_opt (k [v] m) x" for m k and x :: osip_message
    using list_add_single [OF that(1), of v] that(2) by auto
  show ?thesis
    unfolding ict_create_ack_message_def osip_to_clone_def using assms(1) Some
    by (simp only: get_via_0 option.case snd_conv,
        intro gives_intros tail gives_opt_call [OF from_call_gives] gives_opt_call [OF assms(2)]
          gives_opt_call [OF call_id_call_gives] gives_opt_call [OF cseq_call_gives]
          gives_opt_call [OF via_clone_gives] gives_opt_call [OF auths_call_gives]
          gives_opt_call [OF routes_call_gives])
      (simp_all add: ack_for_def topvia_of_def Let_def)
qed

lemma ict_create_ack_message_gives:
  "never_fails m \<Longrightarrow> gives_opt (ict_create_ack_message orig resp m) (ack_for orig resp)"
  using ict_create_ack_message_gives_uri [OF _ uri_call_gives, of m orig resp] by simp

lemma ack_for_ok:
  assumes "msg_ok orig" "req_uri orig \<noteq> None" "msg_ok response"
  shows "msg_ok (ack_for orig response)"
proof -
  have "set (opt_list (topvia_of orig)) \<subseteq> set (vias orig)"
    by (cases "vias orig") (auto simp: topvia_of_def)
  then show ?thesis
    using assms by (auto simp: ack_for_def msg_ok_def method_ok_def Let_def)
qed

lemma ict_create_ack_message_ok:
  assumes "never_fails m" "msg_ok orig" "msg_ok resp"
  obtains i a m' where "ict_create_ack_message orig resp m = ((i, a), m')" "never_fails m'"
    "\<And>x. a = Some x \<Longrightarrow> msg_ok x \<and> req_uri x \<noteq> None"
proof -
  let ?u = "if req_uri orig = None then Some osip_uri_init else req_uri orig"
  let ?x = "ack_for (orig\<lparr>req_uri := ?u\<rparr>) resp"
  have u: "gives (osip_uri_clone (req_uri orig) m) ?u" if "never_fails m" for m
    using that uri_call_gives uri_clone_None by simp
  obtain i a m' where r: "ict_create_ack_message orig resp m = ((i, a), m')" by (metis surj_pair)
  have "gives_opt ((i, a), m') ?x"
    using ict_create_ack_message_gives_uri [OF assms(1) u, of resp] r by simp
  moreover have "msg_ok (orig\<lparr>req_uri := ?u\<rparr>)"
    using assms(2) by (auto simp: msg_ok_def method_ok_def osip_uri_init_def named_def)
  then have "msg_ok ?x" using assms(3) by (intro ack_for_ok) auto
  moreover have "req_uri ?x \<noteq> None" by (simp add: ack_for_def Let_def)
  ultimately show ?thesis
    using r by (intro that [of i a m']) (auto simp: gives_opt_def)
qed

section \<open>The invariant of the machine\<close>

definition ict_ok :: "osip_transaction \<Rightarrow> bool" where
  "ict_ok t \<longleftrightarrow>
     state t \<in> {ICT_PRE_CALLING, ICT_CALLING, ICT_PROCEEDING, ICT_COMPLETED, ICT_TERMINATED}
     \<and> config t \<and> (\<exists>c. ict_context t = Live c)
     \<and> (if state t = ICT_PRE_CALLING then orig_request t = None \<and> last_response t = None
        else orig_request t \<noteq> None)
     \<and> (state t \<in> {ICT_PRE_CALLING, ICT_CALLING, ICT_PROCEEDING} \<longrightarrow> ack t = None)
     \<and> (state t = ICT_COMPLETED \<longrightarrow> ack t \<noteq> None)"

abbreviation ict_handled ::
  "state_t set \<Rightarrow> osip_config \<Rightarrow> osip_event \<Rightarrow> st \<Rightarrow> st option \<Rightarrow> bool" where
  "ict_handled \<equiv> handled ict_ok OSIP_ICT_KILL_TRANSACTION ICT_TERMINATED"

lemma ict_error_ok [simp]:
  "config (tr s) \<Longrightarrow> ict_handle_transport_error cf i s
    = Some (s\<lparr>tr := (tr s)\<lparr>state := ICT_TERMINATED, completed_time := systime cf (ticks s)\<rparr>,
        ticks := ticks s + 1,
        log := log s @ error_cb_log cf OSIP_ICT_TRANSPORT_ERROR i
          @ kill_cb_log cf OSIP_ICT_KILL_TRANSACTION\<rparr>)"
  by (simp add: ict_handle_transport_error_def osip_transaction_set_state_def)

lemma upd_ict_ok [simp]:
  "ict_context (tr s) = Live c
    \<Longrightarrow> upd_ict f s = Some (s\<lparr>tr := (tr s)\<lparr>ict_context := Live (f c)\<rparr>\<rparr>)"
  by (simp add: upd_ict_def)

lemmas ict_step_simps =
  osip_transaction_set_state_def ict_ok_def handled_Some time_in_def osip_gettimeofday_def Let_def

text \<open>Stopping timer A: an error, or the continuation from a state that differs in the timer.\<close>

lemma ict_stop_timer_a_cases:
  assumes "orig_request (tr s) = Some a" "msgs s a = Some m" "ict_context (tr s) = Live c"
  obtains i where "ict_stop_timer_a cf k s = ict_handle_transport_error cf i s"
  | s' c' where "ict_stop_timer_a cf k s = k s'" "calm (state (tr s)) s s'" "log s' = log s"
    "ict_context (tr s') = Live c'"
proof (cases "topvia_of m")
  case None
  then show ?thesis using assms by (intro that(1) [of "-1"]) (simp add: ict_stop_timer_a_def)
next
  case (Some v)
  show ?thesis
  proof (cases "via_protocol v")
    case None
    then show ?thesis
      using assms Some by (intro that(1) [of 0]) (simp add: ict_stop_timer_a_def via_get_protocol_def)
  next
    case proto: (Some proto)
    show ?thesis
    proof (cases "unreliable proto")
      case True
      then show ?thesis
        using assms Some proto
        by (intro that(2) [of s c]) (simp_all add: ict_stop_timer_a_def via_get_protocol_def calm_def)
    next
      case False
      let ?c = "c\<lparr>timer_a_length := -1, timer_a_start := timer_off (timer_a_start c)\<rparr>"
      show ?thesis
        using assms Some proto False
        by (intro that(2) [of "s\<lparr>tr := (tr s)\<lparr>ict_context := Live ?c\<rparr>\<rparr>" ?c])
          (simp_all add: ict_stop_timer_a_def via_get_protocol_def calm_def)
    qed
  qed
qed

lemma ict_ok_calm:
  assumes "calm x s s'" "ict_context (tr s') = Live c" "x \<in> {ICT_CALLING, ICT_PROCEEDING}"
    "config (tr s)" "ack (tr s) = None" "orig_request (tr s) \<noteq> None"
  shows "ict_ok (tr s')"
  using assms by (auto simp: calm_def ict_ok_def same_call_def)

lemma calm_sent:
  assumes "calm x s s'" "config (tr s)" "deref_ok s (orig_request (tr s))" "ict_context (tr s') = Live c"
  shows "\<exists>s2. (do { s \<leftarrow> osip_message_callback cf ty (orig_request (tr s')) s';
                Some (osip_transaction_set_state y s) }) = Some s2
      \<and> calm y s s2 \<and> ict_context (tr s2) = Live c"
  using assms by (auto simp: calm_def same_call_def osip_transaction_set_state_def)

lemma ict_snd_invite_handled:
  assumes "mem_ok s" "ict_ok (tr s)" "evt_ok e s" "EVT_IS_MSG e" "state (tr s) = ICT_PRE_CALLING"
  shows "ict_handled {ICT_CALLING, ICT_TERMINATED} cf e s (ict_snd_invite cf e s)"
proof -
  obtain a m where a: "sip e = Some a" "a \<notin> set (owned (tr s))" "msgs s a = Some m" "event_for e m"
    using evt_ok_msg [OF assms(3,4)] .
  obtain c where c: "ict_context (tr s) = Live c" "config (tr s)"
    using assms(2) by (auto simp: ict_ok_def)
  have none: "orig_request (tr s) = None" "ack (tr s) = None"
    using assms(2,5) by (simp_all add: ict_ok_def)
  note tidy = take_as_orig [OF assms(1) a(1-3) none(1)]
  let ?t = "(tr s)\<lparr>orig_request := Some a\<rparr>"
  let ?i = "send_answer cf (s\<lparr>tr := ?t\<rparr>) a (ict_destination c) (ict_port c)"
  let ?l = "[Send a (ict_destination c) (ict_port c) (out_socket (tr s)) ?i]"
  let ?s = "s\<lparr>tr := ?t, log := log s @ ?l\<rparr>"
  let ?sent = "\<lambda>s. do { s \<leftarrow> osip_message_callback cf OSIP_ICT_INVITE_SENT (orig_request (tr s)) s;
                       Some (osip_transaction_set_state ICT_CALLING s) }"
  have run: "ict_snd_invite cf e s = (if ?i < 0 then ict_handle_transport_error cf ?i ?s
      else if ?i = 0 then ict_stop_timer_a cf ?sent ?s else ?sent ?s)"
    using a c by (simp add: ict_snd_invite_def Let_def)
  have s: "orig_request (tr ?s) = Some a" "msgs ?s a = Some m" "ict_context (tr ?s) = Live c"
    "config (tr ?s)" "deref_ok ?s (orig_request (tr ?s))"
    using a c by simp_all
  have finish: "ict_handled {ICT_CALLING, ICT_TERMINATED} cf e s (?sent s')"
    if s': "calm (state (tr ?s)) ?s s'" "ict_context (tr s') = Live c'" for s' c'
  proof -
    obtain s2 where s2: "?sent s' = Some s2" "calm ICT_CALLING ?s s2" "ict_context (tr s2) = Live c'"
      using calm_sent [OF s'(1) s(4,5) s'(2)] by blast
    have "ict_ok (tr s2)"
      by (rule ict_ok_calm [OF s2(2,3)]) (use c none in simp_all)
    then show ?thesis using tidy by (auto intro: handled_calm [OF s2(1,2)])
  qed
  have err: "ict_handled {ICT_CALLING, ICT_TERMINATED} cf e s (ict_handle_transport_error cf i ?s)" for i
    using tidy c by (auto simp: ict_step_simps)
  consider "?i < 0" | "?i > 0" | "?i = 0" by linarith
  then show ?thesis
  proof cases
    case 1
    then show ?thesis using run err by simp
  next
    case 2
    have "calm (state (tr ?s)) ?s ?s" by (simp add: calm_def)
    from finish [OF this s(3)] show ?thesis using run 2 by simp
  next
    case 3
    show ?thesis
      by (rule ict_stop_timer_a_cases [OF s(1-3), of cf ?sent]) (use run 3 err finish in simp_all)
  qed
qed

lemma osip_ict_timeout_a_event_handled:
  assumes "mem_ok s" "ict_ok (tr s)" "evt_ok e s" "\<not> EVT_IS_MSG e" "state (tr s) = ICT_CALLING"
  shows "ict_handled {ICT_CALLING, ICT_TERMINATED} cf e s (osip_ict_timeout_a_event cf e s)"
proof -
  obtain a where a: "orig_request (tr s) = Some a" using assms(2,5) by (auto simp: ict_ok_def)
  then obtain m where m: "msgs s a = Some m" using owned_live(1) [OF assms(1)] by auto
  obtain c where c: "ict_context (tr s) = Live c" "config (tr s)" "ack (tr s) = None"
    using assms(2,5) by (auto simp: ict_ok_def)
  note tidy = tidy_refl [OF assms(1) evt_ok_timeout [OF assms(3,4)]]
  let ?len = "timer_a_length c * 2"
  let ?c = "c\<lparr>timer_a_length := ?len, timer_a_start := fst (time_in cf ?len s)\<rparr>"
  let ?s0 = "s\<lparr>ticks := ticks s + 1, tr := (tr s)\<lparr>ict_context := Live ?c\<rparr>\<rparr>"
  let ?i = "send_answer cf ?s0 a (ict_destination c) (ict_port c)"
  let ?s = "?s0\<lparr>log := log s @ [Send a (ict_destination c) (ict_port c) (out_socket (tr s)) ?i]\<rparr>"
  let ?again = "\<lambda>s. osip_message_callback cf OSIP_ICT_INVITE_SENT_AGAIN (orig_request (tr s)) s"
  have run: "osip_ict_timeout_a_event cf e s = (if ?i < 0 then ict_handle_transport_error cf ?i ?s
      else if ?i = 0 then ict_stop_timer_a cf ?again ?s else Some ?s)"
    using a m c by (simp add: osip_ict_timeout_a_event_def time_in_def osip_gettimeofday_def)
  have s: "orig_request (tr ?s) = Some a" "msgs ?s a = Some m" "ict_context (tr ?s) = Live ?c"
    "config (tr ?s)" "deref_ok ?s (orig_request (tr ?s))" "state (tr ?s) = ICT_CALLING"
    using a m c assms(5) by simp_all
  have err: "ict_handled {ICT_CALLING, ICT_TERMINATED} cf e s (ict_handle_transport_error cf i ?s)" for i
    using tidy a c by (auto simp: ict_step_simps)
  have stay: "ict_handled {ICT_CALLING, ICT_TERMINATED} cf e s (Some s')"
    if "calm ICT_CALLING ?s s'" "ict_context (tr s') = Live c'" for s' c'
  proof -
    have "ict_ok (tr s')"
      by (rule ict_ok_calm [OF that]) (use a c in simp_all)
    then show ?thesis using tidy by (auto intro: handled_calm [OF _ that(1)])
  qed
  consider "?i < 0" | "?i > 0" | "?i = 0" by linarith
  then show ?thesis
  proof cases
    case 1
    then show ?thesis using run err by simp
  next
    case 2
    have "calm ICT_CALLING ?s ?s" using s(6) by (simp add: calm_def)
    from stay [OF this s(3)] show ?thesis using run 2 by simp
  next
    case 3
    show ?thesis
    proof (rule ict_stop_timer_a_cases [OF s(1-3), of cf ?again])
      fix i assume "ict_stop_timer_a cf ?again ?s = ict_handle_transport_error cf i ?s"
      then show ?thesis using run 3 err by simp
    next
      fix s' c'
      assume s': "ict_stop_timer_a cf ?again ?s = ?again s'" "calm (state (tr ?s)) ?s s'"
        "ict_context (tr s') = Live c'"
      then have "orig_request (tr s') = Some a" "msgs s' a = Some m" "config (tr s')"
        using s by (simp_all add: calm_def same_call_def)
      then have "?again s' = Some (s'\<lparr>log := log s' @ message_cb_log cf OSIP_ICT_INVITE_SENT_AGAIN (Some a)\<rparr>)"
        (is "_ = Some ?s'") by simp
      moreover have "calm ICT_CALLING ?s ?s'" "ict_context (tr ?s') = Live c'"
        using s'(2,3) s(6) by (simp_all add: calm_def)
      ultimately show ?thesis using stay run 3 s'(1) by simp
    qed
  qed
qed

lemma ict_timeout_handled:
  assumes "mem_ok s" "ict_ok (tr s)" "evt_ok e s" "\<not> EVT_IS_MSG e"
  shows osip_ict_timeout_b_event_handled: "state (tr s) = ICT_CALLING
      \<Longrightarrow> ict_handled {ICT_TERMINATED} cf e s (osip_ict_timeout_b_event cf e s)"
    and osip_ict_timeout_d_event_handled: "state (tr s) = ICT_COMPLETED
      \<Longrightarrow> ict_handled {ICT_TERMINATED} cf e s (osip_ict_timeout_d_event cf e s)"
  using assms(2) evt_ok_timeout [OF assms(3,4)] tidy_refl [OF assms(1) evt_ok_timeout [OF assms(3,4)]]
  by (auto simp: osip_ict_timeout_b_event_def osip_ict_timeout_d_event_def ict_step_simps)

lemma ict_rcv_handled:
  assumes "mem_ok s" "ict_ok (tr s)" "evt_ok e s" "EVT_IS_MSG e"
    "state (tr s) \<in> {ICT_CALLING, ICT_PROCEEDING}"
  shows ict_rcv_1xx_handled: "ict_handled {ICT_PROCEEDING} cf e s (ict_rcv_1xx cf e s)"
    and ict_rcv_2xx_handled: "ict_handled {ICT_TERMINATED} cf e s (ict_rcv_2xx cf e s)"
proof -
  obtain a m where a: "sip e = Some a" "a \<notin> set (owned (tr s))" "msgs s a = Some m" "event_for e m"
    using evt_ok_msg [OF assms(3,4)] .
  obtain h where h: "osip_message_free (last_response (tr s)) s = Some (s\<lparr>msgs := h\<rparr>)"
    "heap_tidy e s h (brk s) (mem s) (owned3 (orig_request (tr s)) (Some a) (ack (tr s)))"
    "h a = Some m"
    using take_as_last_response [OF assms(1) a(1-3)] .
  show "ict_handled {ICT_PROCEEDING} cf e s (ict_rcv_1xx cf e s)"
    using assms(2,5) a h by (auto simp: ict_rcv_1xx_def ict_step_simps)
  show "ict_handled {ICT_TERMINATED} cf e s (ict_rcv_2xx cf e s)"
    using assms(2,5) a h by (auto simp: ict_rcv_2xx_def ict_step_simps)
qed

text \<open>The new ACK gets an address no message has had.\<close>

lemma tidy_new_ack:
  assumes "mem_ok s" "heap_tidy e s h (brk s) (mem s) (owned3 p q None)" "msg_ok x" "never_fails m"
  shows "heap_tidy e s (h(brk s \<mapsto> x)) (brk s + 1) m (owned3 p q (Some (brk s)))"
    and "h a = Some y \<Longrightarrow> a \<noteq> brk s"
proof -
  have s: "brk s \<notin> dom (msgs s)" using assms(1) by (auto simp: heap_ok_def)
  have h: "\<forall>a \<in> dom h. a < brk s" "distinct (owned3 p q None)" "set (owned3 p q None) \<subseteq> dom h"
    "\<forall>a x. h a = Some x \<longrightarrow> msg_ok x"
    "dom h = (dom (msgs s) - set (owned (tr s)) - set_option (sip e)) \<union> set (owned3 p q None)"
    "\<forall>a \<in> dom h \<inter> dom (msgs s). h a = msgs s a" "\<forall>a \<in> dom h - dom (msgs s). brk s \<le> a"
    "set (owned3 p q None) \<inter> dom (msgs s) \<subseteq> set (owned (tr s)) \<union> set_option (sip e)"
    using assms(2) unfolding heap_tidy_def heap_ok_def by blast+
  have b: "brk s \<notin> dom h" using h(1) by auto
  have own: "set (owned3 p q (Some (brk s))) = insert (brk s) (set (owned3 p q None))"
    "distinct (owned3 p q (Some (brk s)))"
    using h(2,3) b by (auto simp: owned3_def)
  have "heap_ok (h(brk s \<mapsto> x)) (brk s + 1) m (owned3 p q (Some (brk s)))"
    unfolding heap_ok_def using own h(1,3,4) assms(3,4) by (auto simp: less_Suc_eq)
  moreover have "\<forall>a \<in> dom (h(brk s \<mapsto> x)) \<inter> dom (msgs s). (h(brk s \<mapsto> x)) a = msgs s a"
    using h(6) s by auto
  moreover have "dom (h(brk s \<mapsto> x)) = (dom (msgs s) - set (owned (tr s)) - set_option (sip e))
      \<union> set (owned3 p q (Some (brk s)))"
    using own(1) h(5) by simp
  moreover have "\<forall>a \<in> dom (h(brk s \<mapsto> x)) - dom (msgs s). brk s \<le> a"
    using h(7) by auto
  moreover have "set (owned3 p q (Some (brk s))) \<inter> dom (msgs s) \<subseteq> set (owned (tr s)) \<union> set_option (sip e)"
    unfolding own(1) using h(8) s by blast
  ultimately show "heap_tidy e s (h(brk s \<mapsto> x)) (brk s + 1) m (owned3 p q (Some (brk s)))"
    unfolding heap_tidy_def by (intro conjI) (assumption | rule le_add1)+
  show "h a = Some y \<Longrightarrow> a \<noteq> brk s" using b by auto
qed

lemma request_destination_mem:
  assumes "request_destination x m = Some (d, m')" "never_fails m"
  shows "never_fails m'"
proof -
  have dup: "never_fails (snd (osip_strdup z m))" for z
    using osip_strdup_never_fails [OF assms(2), of z] by auto
  show ?thesis
    using assms(1) unfolding request_destination_def
    by (auto simp: Let_def bind_eq_Some_conv case_prod_beta dup split: option.splits if_splits)
qed

text \<open>The destination, which the ACK sets when the context has none, exists.\<close>

lemma ict_reset_destination_ok:
  assumes "ict_context (tr s) = Live c" "msg_ok x" "req_uri x \<noteq> None" "never_fails (mem s)"
  shows "\<exists>m c'. ict_reset_destination x s = Some (s\<lparr>mem := m, tr := (tr s)\<lparr>ict_context := Live c'\<rparr>\<rparr>)
    \<and> never_fails m"
proof -
  obtain host port m where d: "request_destination x (mem s) = Some ((host, port), m)"
    using request_destination_defined [OF assms(2,3)] by blast
  then have "never_fails m" using assms(4) request_destination_mem by blast
  show ?thesis
  proof (cases "ict_destination c = None")
    case True
    then show ?thesis
      using assms(1) d \<open>never_fails m\<close>
      by (intro exI [of _ m] exI [of _ "c\<lparr>ict_destination := host, ict_port := port\<rparr>"])
        (simp add: ict_reset_destination_def osip_ict_set_destination_def)
  next
    case False
    have "s\<lparr>mem := mem s, tr := (tr s)\<lparr>ict_context := Live c\<rparr>\<rparr> = s"
      using assms(1) by (cases s, cases "tr s") simp
    then show ?thesis
      using False assms(1,4)
      by (intro exI [of _ "mem s"] exI [of _ c]) (simp add: ict_reset_destination_def del: not_None_eq)
  qed
qed

text \<open>The part of \<^verbatim>\<open>ict_rcv_3456xx\<close> that sends the ACK the state holds.\<close>

definition ict_send_ack :: "osip_config \<Rightarrow> osip_event \<Rightarrow> nat \<Rightarrow> st \<Rightarrow> st option" where
  "ict_send_ack cf evt b s =
    do {
      ackm \<leftarrow> deref s (Some b);
      s \<leftarrow> ict_reset_destination ackm s;
      c \<leftarrow> load (ict_context (tr s));
      (i, s) \<leftarrow> transaction_send cf (Some b) (ict_destination c) (ict_port c) s;
      (if i \<noteq> 0 then ict_handle_transport_error cf i s
       else do {
         m \<leftarrow> deref s (sip evt);
         s \<leftarrow> osip_message_callback cf (ict_3456xx_type m) (sip evt) s;
         s \<leftarrow> osip_message_callback cf OSIP_ICT_ACK_SENT (Some b) s;
         ict_start_timer_d cf s
       })
    }"

lemma ict_send_ack_handled:
  assumes "tidy e s s0" "same_call (tr s) (tr s0)" "kills (log s0) = kills (log s)"
    "config (tr s0)" "ict_context (tr s0) = Live c" "orig_request (tr s0) \<noteq> None"
    "ack (tr s0) = Some b" "msgs s0 b = Some x" "msg_ok x" "req_uri x \<noteq> None"
    "sip e = Some a" "msgs s0 a = Some y"
  shows "ict_handled {ICT_COMPLETED, ICT_TERMINATED} cf e s (ict_send_ack cf e b s0)"
proof -
  have nf: "never_fails (mem s0)" using assms(1) by (simp add: heap_tidy_def heap_ok_def)
  obtain m c' where r: "ict_reset_destination x s0
      = Some (s0\<lparr>mem := m, tr := (tr s0)\<lparr>ict_context := Live c'\<rparr>\<rparr>)" "never_fails m"
    using ict_reset_destination_ok [OF assms(5,9,10) nf] by blast
  let ?s = "s0\<lparr>mem := m, tr := (tr s0)\<lparr>ict_context := Live c'\<rparr>\<rparr>"
  have tidy: "heap_tidy e s (msgs s0) (brk s0) m (owned (tr s0))"
    using heap_tidy_mem [OF assms(1) r(2)] .
  show ?thesis
    using assms(2-8,11,12) r(1) tidy
    by (auto simp: ict_send_ack_def ict_start_timer_d_def ict_step_simps)
qed

lemma ict_rcv_3456xx_handled:
  assumes "mem_ok s" "ict_ok (tr s)" "evt_ok e s" "EVT_IS_MSG e"
    "state (tr s) \<in> {ICT_CALLING, ICT_PROCEEDING}"
  shows "ict_handled {ICT_COMPLETED, ICT_TERMINATED} cf e s (ict_rcv_3456xx cf e s)"
proof -
  obtain a m where a: "sip e = Some a" "a \<notin> set (owned (tr s))" "msgs s a = Some m" "event_for e m"
    using evt_ok_msg [OF assms(3,4)] .
  obtain h where h: "osip_message_free (last_response (tr s)) s = Some (s\<lparr>msgs := h\<rparr>)"
    "heap_tidy e s h (brk s) (mem s) (owned3 (orig_request (tr s)) (Some a) (ack (tr s)))"
    "h a = Some m"
    using take_as_last_response [OF assms(1) a(1-3)] .
  obtain oa c where t: "orig_request (tr s) = Some oa" "ack (tr s) = None" "config (tr s)"
    "ict_context (tr s) = Live c" "state (tr s) \<noteq> ICT_COMPLETED"
    using assms(2,5) by (auto simp: ict_ok_def)
  have hok: "heap_ok h (brk s) (mem s) (owned3 (Some oa) (Some a) None)"
    using h(2) t by (simp add: heap_tidy_def)
  obtain om where om: "h oa = Some om" using owned_live(1) [OF hok] by auto
  obtain i r mm where ack: "ict_create_ack_message om m (mem s) = ((i, r), mm)" "never_fails mm"
    "\<And>x. r = Some x \<Longrightarrow> msg_ok x \<and> req_uri x \<noteq> None"
    using ict_create_ack_message_ok heap_ok_never_fails [OF hok] heap_ok_msg_ok [OF hok om]
      heap_ok_msg_ok [OF hok h(3)] by metis
  show ?thesis
  proof (cases r)
    case None
    have "heap_tidy e s h (brk s) mm (owned3 (Some oa) (Some a) None)"
      using heap_tidy_mem [OF h(2) ack(2)] t by simp
    then show ?thesis
      using assms(2) None a t h om ack(1)
      by (auto simp: ict_rcv_3456xx_def ict_create_ack_def ict_step_simps)
  next
    case (Some x)
    let ?t = "(tr s)\<lparr>last_response := Some a, ack := Some (brk s)\<rparr>"
    let ?s = "s\<lparr>mem := mm, msgs := h(brk s \<mapsto> x), brk := brk s + 1, tr := ?t\<rparr>"
    have x: "msg_ok x" "req_uri x \<noteq> None" using ack(3) Some by auto
    note new = tidy_new_ack [OF assms(1) h(2) [unfolded t(1,2)] x(1) ack(2)]
    have run: "ict_rcv_3456xx cf e s = ict_send_ack cf e (brk s) ?s"
      using Some a t h om ack(1)
      by (simp add: ict_rcv_3456xx_def ict_create_ack_def ict_send_ack_def Let_def)
    show ?thesis
      unfolding run
      by (rule ict_send_ack_handled [where a = a and y = m and c = c and x = x])
        (use new(1) new(2) [OF h(3)] a h(3) t x in simp_all)
  qed
qed

lemma ict_retransmit_ack_handled:
  assumes "mem_ok s" "ict_ok (tr s)" "evt_ok e s" "EVT_IS_MSG e" "state (tr s) = ICT_COMPLETED"
  shows "ict_handled {ICT_COMPLETED, ICT_TERMINATED} cf e s (ict_retransmit_ack cf e s)"
proof -
  obtain a m where a: "sip e = Some a" "a \<notin> set (owned (tr s))" "msgs s a = Some m" "event_for e m"
    using evt_ok_msg [OF assms(3,4)] .
  obtain h where h: "osip_message_free (sip e) s = Some (s\<lparr>msgs := h\<rparr>)" "tidy e s (s\<lparr>msgs := h\<rparr>)"
      "heap_ok h (brk s) (mem s) (owned (tr s))"
    using take_and_free [OF assms(1) a(1-3)] .
  obtain b where b: "ack (tr s) = Some b" "h b \<noteq> None"
    using assms(2,5) owned_live(3) [OF h(3)] by (auto simp: ict_ok_def)
  have "msgs (s\<lparr>msgs := (msgs s)(a := None)\<rparr>) = msgs (s\<lparr>msgs := h\<rparr>)"
    using h(1) a by simp
  then have "(msgs s)(a := None) = h" by simp
  then show ?thesis
    using assms(2,5) a h(2) b by (auto simp: ict_retransmit_ack_def ict_step_simps simp del: fun_upd_apply)
qed

section \<open>The diagram of RFC 3261, 17.1.1\<close>

text \<open>
  Figure 5 of the RFC, with a state before the request, the transport error of the sends and
  the end when no ACK can be made.
\<close>

inductive ict_diagram :: "state_t \<Rightarrow> type_t \<Rightarrow> state_t \<Rightarrow> bool" where
  "ict_diagram ICT_PRE_CALLING SND_REQINVITE ICT_CALLING"
| "ict_diagram ICT_CALLING TIMEOUT_A ICT_CALLING"
| "ict_diagram ICT_CALLING TIMEOUT_B ICT_TERMINATED"
| "st \<in> {ICT_CALLING, ICT_PROCEEDING} \<Longrightarrow> ict_diagram st RCV_STATUS_1XX ICT_PROCEEDING"
| "st \<in> {ICT_CALLING, ICT_PROCEEDING} \<Longrightarrow> ict_diagram st RCV_STATUS_2XX ICT_TERMINATED"
| "st \<in> {ICT_CALLING, ICT_PROCEEDING} \<Longrightarrow> ict_diagram st RCV_STATUS_3456XX ICT_COMPLETED"
| "ict_diagram ICT_COMPLETED RCV_STATUS_3456XX ICT_COMPLETED"
| "ict_diagram ICT_COMPLETED TIMEOUT_D ICT_TERMINATED"
| "ict_diagram ICT_PRE_CALLING SND_REQINVITE ICT_TERMINATED"
| "ict_diagram ICT_CALLING TIMEOUT_A ICT_TERMINATED"
| "st \<in> {ICT_CALLING, ICT_PROCEEDING, ICT_COMPLETED}
    \<Longrightarrow> ict_diagram st RCV_STATUS_3456XX ICT_TERMINATED"

code_pred ict_diagram .

inductive_simps ict_diagram_simps: "ict_diagram st ty st'"

lemma ict_table_diagram:
  "fsm_findmethod ty st ict_transition \<noteq> None \<longleftrightarrow> (\<exists>st'. ict_diagram st ty st')"
  by (cases st; cases ty)
    (simp_all add: fsm_findmethod_def ict_transition_def ict_diagram_simps ex_disj_distrib)

lemma ict_method_handled:
  assumes "mem_ok s" "ict_ok (tr s)" "evt_ok e s"
    "fsm_findmethod (type e) (state (tr s)) ict_transition = Some t"
  shows "ict_handled {st. ict_diagram (state (tr s)) (type e) st} cf e s (t_method t cf e s)"
proof -
  have msg: "EVT_IS_MSG e \<longleftrightarrow> type e \<notin> {TIMEOUT_A, TIMEOUT_B, TIMEOUT_D}"
    and "(state (tr s), type e, t_method t) \<in> (\<lambda>t. (t_state t, t_type t, t_method t)) ` set ict_transition"
    using assms(4) by (auto simp: fsm_findmethod_def ict_transition_def evt_kind_defs split: if_splits)
  then consider
    "state (tr s) = ICT_PRE_CALLING" "type e = SND_REQINVITE" "t_method t = ict_snd_invite"
  | "state (tr s) = ICT_CALLING" "type e = TIMEOUT_A" "t_method t = osip_ict_timeout_a_event"
  | "state (tr s) = ICT_CALLING" "type e = TIMEOUT_B" "t_method t = osip_ict_timeout_b_event"
  | "state (tr s) \<in> {ICT_CALLING, ICT_PROCEEDING}" "type e = RCV_STATUS_1XX" "t_method t = ict_rcv_1xx"
  | "state (tr s) \<in> {ICT_CALLING, ICT_PROCEEDING}" "type e = RCV_STATUS_2XX" "t_method t = ict_rcv_2xx"
  | "state (tr s) \<in> {ICT_CALLING, ICT_PROCEEDING}" "type e = RCV_STATUS_3456XX"
      "t_method t = ict_rcv_3456xx"
  | "state (tr s) = ICT_COMPLETED" "type e = RCV_STATUS_3456XX" "t_method t = ict_retransmit_ack"
  | "state (tr s) = ICT_COMPLETED" "type e = TIMEOUT_D" "t_method t = osip_ict_timeout_d_event"
    by (auto simp: ict_transition_def)
  then show ?thesis
  proof cases
    case 1
    with ict_snd_invite_handled [OF assms(1-3), of cf] msg show ?thesis
      by (auto simp: ict_diagram_simps elim: handled_mono)
  next
    case 2
    with osip_ict_timeout_a_event_handled [OF assms(1-3), of cf] msg show ?thesis
      by (auto simp: ict_diagram_simps elim: handled_mono)
  next
    case 3
    with osip_ict_timeout_b_event_handled [OF assms(1-3), of cf] msg show ?thesis
      by (auto simp: ict_diagram_simps elim: handled_mono)
  next
    case 4
    with ict_rcv_1xx_handled [OF assms(1-3), of cf] msg show ?thesis
      by (auto simp: ict_diagram_simps elim: handled_mono)
  next
    case 5
    with ict_rcv_2xx_handled [OF assms(1-3), of cf] msg show ?thesis
      by (auto simp: ict_diagram_simps elim: handled_mono)
  next
    case 6
    with ict_rcv_3456xx_handled [OF assms(1-3), of cf] msg show ?thesis
      by (auto simp: ict_diagram_simps elim: handled_mono)
  next
    case 7
    with ict_retransmit_ack_handled [OF assms(1-3), of cf] msg show ?thesis
      by (auto simp: ict_diagram_simps elim: handled_mono)
  next
    case 8
    with osip_ict_timeout_d_event_handled [OF assms(1-3), of cf] msg show ?thesis
      by (auto simp: ict_diagram_simps elim: handled_mono)
  qed
qed

interpretation ict_fsm: fsm ict_transition ict_ok ict_diagram ICT_TERMINATED OSIP_ICT_KILL_TRANSACTION
  by unfold_locales
    (use ict_table_diagram ict_method_handled in \<open>auto simp: ict_diagram_simps\<close>)

end
