(* ===== verification/Ist.thy ===== *)
theory Ist
  imports Fsm_Inv
begin

text \<open>The INVITE server transaction: \<^verbatim>\<open>ist.c\<close> and \<^verbatim>\<open>ist_fsm.c\<close>.\<close>

section \<open>The context\<close>

definition ist_zero :: osip_ist where
  "ist_zero = \<lparr>timer_g_length = 0, timer_g_start = \<lparr>tv_sec = 0, tv_usec = 0\<rparr>,
    timer_h_length = 0, timer_h_start = \<lparr>tv_sec = 0, tv_usec = 0\<rparr>,
    timer_i_length = 0, timer_i_start = \<lparr>tv_sec = 0, tv_usec = 0\<rparr>\<rparr>"

definition osip_ist_init ::
  "osip_config \<Rightarrow> osip_message \<Rightarrow> 'a world_scheme
    \<Rightarrow> ((int \<times> osip_ist ptr) \<times> 'a world_scheme) option" where
  "osip_ist_init cf invite w =
    (case osip_malloc (mem w) of (ok, m) \<Rightarrow>
     let w = w\<lparr>mem := m\<rparr> in
     if \<not> ok then Some ((OSIP_NOMEM, Null), w)
     else let (i, via) = osip_message_get_via (Some invite) 0 in
     if i < 0 then Some ((i, Null), w)
     else (case via_get_protocol via of
         None \<Rightarrow> Some ((OSIP_UNDEFINED_ERROR, Null), w)
       | Some proto \<Rightarrow>
           let c = (if unreliable proto
                    then ist_zero\<lparr>timer_g_length := DEFAULT_T1, timer_i_length := DEFAULT_T4,
                           timer_g_start := timer_off (timer_g_start ist_zero),
                           timer_i_start := timer_off (timer_i_start ist_zero)\<rparr>
                    else ist_zero\<lparr>timer_g_length := -1, timer_i_length := 0,
                           timer_g_start := timer_off (timer_g_start ist_zero),
                           timer_i_start := timer_off (timer_i_start ist_zero)\<rparr>);
               c = c\<lparr>timer_h_length := 64 * DEFAULT_T1,
                      timer_h_start := timer_off (timer_h_start c)\<rparr>
           in Some ((OSIP_SUCCESS, Live c), w)))"

definition osip_ist_free :: "osip_ist ptr \<Rightarrow> (int \<times> osip_ist ptr) option" where
  "osip_ist_free ist =
    (if ist = Null then Some (OSIP_SUCCESS, Null)
     else do { c \<leftarrow> load ist; Some (OSIP_SUCCESS, Dangling) })"

definition osip_ist_need_timer_g_event ::
  "osip_config \<Rightarrow> osip_ist ptr \<Rightarrow> state_t \<Rightarrow> int \<Rightarrow> 'a world_scheme
    \<Rightarrow> (osip_event option \<times> 'a world_scheme) option" where
  "osip_ist_need_timer_g_event cf ist st tid w =
    osip_transaction_need_timer_x_event cf ist timer_g_start (st = IST_COMPLETED) tid TIMEOUT_G w"

definition osip_ist_need_timer_h_event ::
  "osip_config \<Rightarrow> osip_ist ptr \<Rightarrow> state_t \<Rightarrow> int \<Rightarrow> 'a world_scheme
    \<Rightarrow> (osip_event option \<times> 'a world_scheme) option" where
  "osip_ist_need_timer_h_event cf ist st tid w =
    osip_transaction_need_timer_x_event cf ist timer_h_start (st = IST_COMPLETED) tid TIMEOUT_H w"

definition osip_ist_need_timer_i_event ::
  "osip_config \<Rightarrow> osip_ist ptr \<Rightarrow> state_t \<Rightarrow> int \<Rightarrow> 'a world_scheme
    \<Rightarrow> (osip_event option \<times> 'a world_scheme) option" where
  "osip_ist_need_timer_i_event cf ist st tid w =
    osip_transaction_need_timer_x_event cf ist timer_i_start (st = IST_CONFIRMED) tid TIMEOUT_I w"

section \<open>The state machine\<close>

definition upd_ist :: "(osip_ist \<Rightarrow> osip_ist) \<Rightarrow> st \<Rightarrow> st option" where
  "upd_ist f s =
    do { c \<leftarrow> load (ist_context (tr s)); Some (s\<lparr>tr := (tr s)\<lparr>ist_context := Live (f c)\<rparr>\<rparr>) }"

definition ist_handle_transport_error :: "osip_config \<Rightarrow> int \<Rightarrow> st \<Rightarrow> st option" where
  "ist_handle_transport_error cf err s =
    do {
      s \<leftarrow> osip_transport_error_callback cf OSIP_IST_TRANSPORT_ERROR err s;
      let s = osip_transaction_set_state IST_TERMINATED s;
      osip_kill_transaction_callback cf OSIP_IST_KILL_TRANSACTION s
    }"

definition ist_resent_type :: "osip_message \<Rightarrow> osip_message_callback_type" where
  "ist_resent_type m =
    (if MSG_IS_STATUS 1 m then OSIP_IST_STATUS_1XX_SENT
     else if MSG_IS_STATUS 2 m then OSIP_IST_STATUS_2XX_SENT_AGAIN
     else OSIP_IST_STATUS_3456XX_SENT_AGAIN)"

definition ist_rcv_invite :: "osip_config \<Rightarrow> osip_event \<Rightarrow> st \<Rightarrow> st option" where
  "ist_rcv_invite cf evt s =
    (if state (tr s) = IST_PRE_PROCEEDING then do {
       let s = s\<lparr>tr := (tr s)\<lparr>orig_request := sip evt\<rparr>\<rparr>;
       s \<leftarrow> osip_message_callback cf OSIP_IST_INVITE_RECEIVED (sip evt) s;
       Some (osip_transaction_set_state IST_PROCEEDING s)
     } else do {
       s \<leftarrow> osip_message_free (sip evt) s;
       s \<leftarrow> osip_message_callback cf OSIP_IST_INVITE_RECEIVED_AGAIN (orig_request (tr s)) s;
       (if last_response (tr s) \<noteq> None then do {
          (i, s) \<leftarrow> osip_transaction_snd_xxx cf (last_response (tr s)) s;
          (if i \<noteq> 0 then ist_handle_transport_error cf i s
           else do {
             m \<leftarrow> deref s (last_response (tr s));
             osip_message_callback cf (ist_resent_type m) (last_response (tr s)) s
           })
        } else Some s)
     })"

definition osip_ist_timeout_g_event :: "osip_config \<Rightarrow> osip_event \<Rightarrow> st \<Rightarrow> st option" where
  "osip_ist_timeout_g_event cf evt s =
    do {
      s \<leftarrow> upd_ist (\<lambda>c. c\<lparr>timer_g_length := timer_g_length c * 2\<rparr>) s;
      s \<leftarrow> upd_ist (\<lambda>c. if timer_g_length c > DEFAULT_T2 then c\<lparr>timer_g_length := DEFAULT_T2\<rparr> else c) s;
      c \<leftarrow> load (ist_context (tr s));
      let (t, s) = time_in cf (timer_g_length c) s;
      s \<leftarrow> upd_ist (\<lambda>c. c\<lparr>timer_g_start := t\<rparr>) s;
      (i, s) \<leftarrow> osip_transaction_snd_xxx cf (last_response (tr s)) s;
      (if i \<noteq> 0 then ist_handle_transport_error cf i s
       else osip_message_callback cf OSIP_IST_STATUS_3456XX_SENT_AGAIN (last_response (tr s)) s)
    }"

definition osip_ist_timeout_h_event :: "osip_config \<Rightarrow> osip_event \<Rightarrow> st \<Rightarrow> st option" where
  "osip_ist_timeout_h_event cf evt s =
    do {
      s \<leftarrow> upd_ist (\<lambda>c. c\<lparr>timer_h_length := -1, timer_h_start := timer_off (timer_h_start c)\<rparr>) s;
      let s = osip_transaction_set_state IST_TERMINATED s;
      osip_kill_transaction_callback cf OSIP_IST_KILL_TRANSACTION s
    }"

definition osip_ist_timeout_i_event :: "osip_config \<Rightarrow> osip_event \<Rightarrow> st \<Rightarrow> st option" where
  "osip_ist_timeout_i_event cf evt s =
    do {
      s \<leftarrow> upd_ist (\<lambda>c. c\<lparr>timer_i_length := -1, timer_i_start := timer_off (timer_i_start c)\<rparr>) s;
      let s = osip_transaction_set_state IST_TERMINATED s;
      osip_kill_transaction_callback cf OSIP_IST_KILL_TRANSACTION s
    }"

definition ist_snd_1xx :: "osip_config \<Rightarrow> osip_event \<Rightarrow> st \<Rightarrow> st option" where
  "ist_snd_1xx cf evt s =
    do {
      s \<leftarrow> osip_message_free (last_response (tr s)) s;
      let s = s\<lparr>tr := (tr s)\<lparr>last_response := sip evt\<rparr>\<rparr>;
      (i, s) \<leftarrow> osip_transaction_snd_xxx cf (sip evt) s;
      (if i \<noteq> 0 then ist_handle_transport_error cf i s
       else osip_message_callback cf OSIP_IST_STATUS_1XX_SENT (last_response (tr s)) s)
    }"

definition ist_snd_2xx :: "osip_config \<Rightarrow> osip_event \<Rightarrow> st \<Rightarrow> st option" where
  "ist_snd_2xx cf evt s =
    do {
      s \<leftarrow> osip_message_free (last_response (tr s)) s;
      let s = s\<lparr>tr := (tr s)\<lparr>last_response := sip evt\<rparr>\<rparr>;
      (i, s) \<leftarrow> osip_transaction_snd_xxx cf (sip evt) s;
      (if i \<noteq> 0 then ist_handle_transport_error cf i s
       else do {
         s \<leftarrow> osip_message_callback cf OSIP_IST_STATUS_2XX_SENT (last_response (tr s)) s;
         let s = osip_transaction_set_state IST_TERMINATED s;
         osip_kill_transaction_callback cf OSIP_IST_KILL_TRANSACTION s
       })
    }"

definition ist_3456xx_type :: "osip_message \<Rightarrow> osip_message_callback_type" where
  "ist_3456xx_type m =
    (if MSG_IS_STATUS 3 m then OSIP_IST_STATUS_3XX_SENT
     else if MSG_IS_STATUS 4 m then OSIP_IST_STATUS_4XX_SENT
     else if MSG_IS_STATUS 5 m then OSIP_IST_STATUS_5XX_SENT
     else OSIP_IST_STATUS_6XX_SENT)"

definition ist_snd_3456xx :: "osip_config \<Rightarrow> osip_event \<Rightarrow> st \<Rightarrow> st option" where
  "ist_snd_3456xx cf evt s =
    do {
      s \<leftarrow> osip_message_free (last_response (tr s)) s;
      let s = s\<lparr>tr := (tr s)\<lparr>last_response := sip evt\<rparr>\<rparr>;
      (i, s) \<leftarrow> osip_transaction_snd_xxx cf (sip evt) s;
      (if i \<noteq> 0 then ist_handle_transport_error cf i s
       else do {
         m \<leftarrow> deref s (last_response (tr s));
         s \<leftarrow> osip_message_callback cf (ist_3456xx_type m) (last_response (tr s)) s;
         c \<leftarrow> load (ist_context (tr s));
         s \<leftarrow> (if timer_g_length c \<noteq> -1 then do {
                let (t, s) = time_in cf (timer_g_length c) s;
                upd_ist (\<lambda>c. c\<lparr>timer_g_start := t\<rparr>) s
              } else Some s);
         let (t, s) = time_in cf (timer_h_length c) s;
         s \<leftarrow> upd_ist (\<lambda>c. c\<lparr>timer_h_start := t\<rparr>) s;
         Some (osip_transaction_set_state IST_COMPLETED s)
       })
    }"

definition ist_rcv_ack :: "osip_config \<Rightarrow> osip_event \<Rightarrow> st \<Rightarrow> st option" where
  "ist_rcv_ack cf evt s =
    do {
      s \<leftarrow> osip_message_free (ack (tr s)) s;
      let s = s\<lparr>tr := (tr s)\<lparr>ack := sip evt\<rparr>\<rparr>;
      s \<leftarrow> osip_message_callback cf
             (if state (tr s) = IST_COMPLETED then OSIP_IST_ACK_RECEIVED
              else OSIP_IST_ACK_RECEIVED_AGAIN) (ack (tr s)) s;
      c \<leftarrow> load (ist_context (tr s));
      let (t, s) = time_in cf (timer_i_length c) s;
      s \<leftarrow> upd_ist (\<lambda>c. c\<lparr>timer_i_start := t\<rparr>) s;
      Some (osip_transaction_set_state IST_CONFIRMED s)
    }"

definition ist_transition :: "st handler transition list" where
  "ist_transition =
    [\<lparr>t_state = IST_PRE_PROCEEDING, t_type = RCV_REQINVITE, t_method = ist_rcv_invite\<rparr>,
     \<lparr>t_state = IST_PROCEEDING, t_type = RCV_REQINVITE, t_method = ist_rcv_invite\<rparr>,
     \<lparr>t_state = IST_COMPLETED, t_type = RCV_REQINVITE, t_method = ist_rcv_invite\<rparr>,
     \<lparr>t_state = IST_COMPLETED, t_type = TIMEOUT_G, t_method = osip_ist_timeout_g_event\<rparr>,
     \<lparr>t_state = IST_COMPLETED, t_type = TIMEOUT_H, t_method = osip_ist_timeout_h_event\<rparr>,
     \<lparr>t_state = IST_PROCEEDING, t_type = SND_STATUS_1XX, t_method = ist_snd_1xx\<rparr>,
     \<lparr>t_state = IST_PROCEEDING, t_type = SND_STATUS_2XX, t_method = ist_snd_2xx\<rparr>,
     \<lparr>t_state = IST_PROCEEDING, t_type = SND_STATUS_3456XX, t_method = ist_snd_3456xx\<rparr>,
     \<lparr>t_state = IST_COMPLETED, t_type = RCV_REQACK, t_method = ist_rcv_ack\<rparr>,
     \<lparr>t_state = IST_CONFIRMED, t_type = RCV_REQACK, t_method = ist_rcv_ack\<rparr>,
     \<lparr>t_state = IST_CONFIRMED, t_type = TIMEOUT_I, t_method = osip_ist_timeout_i_event\<rparr>]"

lemmas [fsm_defs] =
  ist_handle_transport_error_def ist_rcv_invite_def osip_ist_timeout_g_event_def
  osip_ist_timeout_h_event_def osip_ist_timeout_i_event_def ist_snd_1xx_def ist_snd_2xx_def
  ist_snd_3456xx_def ist_rcv_ack_def upd_ist_def

section \<open>The invariant of the machine\<close>

definition ist_ok :: "osip_transaction \<Rightarrow> bool" where
  "ist_ok t \<longleftrightarrow>
     state t \<in> {IST_PRE_PROCEEDING, IST_PROCEEDING, IST_COMPLETED, IST_CONFIRMED, IST_TERMINATED}
     \<and> config t \<and> (\<exists>c. ist_context t = Live c)
     \<and> (if state t = IST_PRE_PROCEEDING then orig_request t = None \<and> last_response t = None \<and> ack t = None
        else orig_request t \<noteq> None)
     \<and> (state t \<in> {IST_COMPLETED, IST_CONFIRMED} \<longrightarrow> last_response t \<noteq> None)"

abbreviation ist_handled ::
  "state_t set \<Rightarrow> osip_config \<Rightarrow> osip_event \<Rightarrow> st \<Rightarrow> st option \<Rightarrow> bool" where
  "ist_handled \<equiv> handled ist_ok OSIP_IST_KILL_TRANSACTION IST_TERMINATED"

lemma ist_error_ok [simp]:
  "config (tr s) \<Longrightarrow> ist_handle_transport_error cf i s
    = Some (s\<lparr>tr := (tr s)\<lparr>state := IST_TERMINATED, completed_time := systime cf (ticks s)\<rparr>,
        ticks := ticks s + 1,
        log := log s @ error_cb_log cf OSIP_IST_TRANSPORT_ERROR i
          @ kill_cb_log cf OSIP_IST_KILL_TRANSACTION\<rparr>)"
  by (simp add: ist_handle_transport_error_def osip_transaction_set_state_def)

lemmas ist_step_simps =
  osip_transaction_set_state_def ist_ok_def handled_Some upd_ist_def time_in_def
  osip_gettimeofday_def Let_def

lemma ist_rcv_invite_first:
  assumes "mem_ok s" "ist_ok (tr s)" "evt_ok e s" "EVT_IS_MSG e" "state (tr s) = IST_PRE_PROCEEDING"
  shows "ist_handled {IST_PROCEEDING} cf e s (ist_rcv_invite cf e s)"
proof -
  obtain a m where a: "sip e = Some a" "a \<notin> set (owned (tr s))" "msgs s a = Some m" "event_for e m"
    using evt_ok_msg [OF assms(3,4)] .
  have "orig_request (tr s) = None" using assms(2,5) by (simp add: ist_ok_def)
  note take_as_orig [OF assms(1) a(1-3) this]
  then show ?thesis
    using assms(2,5) a by (auto simp: ist_rcv_invite_def ist_step_simps)
qed

lemma ist_rcv_invite_again:
  assumes "mem_ok s" "ist_ok (tr s)" "evt_ok e s" "EVT_IS_MSG e"
    "state (tr s) \<in> {IST_PROCEEDING, IST_COMPLETED}"
  shows "ist_handled {state (tr s), IST_TERMINATED} cf e s (ist_rcv_invite cf e s)"
proof -
  obtain a m where a: "sip e = Some a" "a \<notin> set (owned (tr s))" "msgs s a = Some m" "event_for e m"
    using evt_ok_msg [OF assms(3,4)] .
  obtain h where h: "osip_message_free (sip e) s = Some (s\<lparr>msgs := h\<rparr>)" "tidy e s (s\<lparr>msgs := h\<rparr>)"
      "heap_ok h (brk s) (mem s) (owned (tr s))"
    using take_and_free [OF assms(1) a(1-3)] .
  obtain oa where orig: "orig_request (tr s) = Some oa" "h oa \<noteq> None"
    using assms(2,5) owned_live(1) [OF h(3)] by (auto simp: ist_ok_def)
  show ?thesis
  proof (cases "last_response (tr s)")
    case None
    then show ?thesis
      using assms(2,5) h orig by (auto simp: ist_rcv_invite_def ist_step_simps)
  next
    case (Some b)
    then obtain mb where mb: "h b = Some mb" using owned_live(2) [OF h(3)] by auto
    then have "msg_ok mb" using heap_ok_msg_ok [OF h(3)] by simp
    then show ?thesis
      using assms(2,5) h orig Some mb by (auto simp: ist_rcv_invite_def ist_step_simps)
  qed
qed

text \<open>The three handlers that send a response, from the state in which the response is stored.\<close>

lemma ist_snd_handled:
  assumes "mem_ok s" "ist_ok (tr s)" "evt_ok e s" "EVT_IS_MSG e" "state (tr s) = IST_PROCEEDING"
  shows ist_snd_1xx_handled: "ist_handled {IST_PROCEEDING, IST_TERMINATED} cf e s (ist_snd_1xx cf e s)"
    and ist_snd_2xx_handled: "ist_handled {IST_TERMINATED} cf e s (ist_snd_2xx cf e s)"
    and ist_snd_3456xx_handled:
      "ist_handled {IST_COMPLETED, IST_TERMINATED} cf e s (ist_snd_3456xx cf e s)"
proof -
  obtain a m where a: "sip e = Some a" "a \<notin> set (owned (tr s))" "msgs s a = Some m" "event_for e m"
    using evt_ok_msg [OF assms(3,4)] .
  obtain h where h: "osip_message_free (last_response (tr s)) s = Some (s\<lparr>msgs := h\<rparr>)"
    "heap_tidy e s h (brk s) (mem s) (owned3 (orig_request (tr s)) (Some a) (ack (tr s)))"
    "h a = Some m"
    using take_as_last_response [OF assms(1) a(1-3)] .
  have m: "msg_ok m" using heap_ok_msg_ok [OF assms(1) a(3)] .
  show "ist_handled {IST_PROCEEDING, IST_TERMINATED} cf e s (ist_snd_1xx cf e s)"
    using assms(2,5) a h m by (auto simp: ist_snd_1xx_def ist_step_simps)
  show "ist_handled {IST_TERMINATED} cf e s (ist_snd_2xx cf e s)"
    using assms(2,5) a h m by (auto simp: ist_snd_2xx_def ist_step_simps)
  show "ist_handled {IST_COMPLETED, IST_TERMINATED} cf e s (ist_snd_3456xx cf e s)"
    using assms(2,5) a h m by (auto simp: ist_snd_3456xx_def ist_step_simps)
qed

lemma ist_rcv_ack_handled:
  assumes "mem_ok s" "ist_ok (tr s)" "evt_ok e s" "EVT_IS_MSG e"
    "state (tr s) \<in> {IST_COMPLETED, IST_CONFIRMED}"
  shows "ist_handled {IST_CONFIRMED} cf e s (ist_rcv_ack cf e s)"
proof -
  obtain a m where a: "sip e = Some a" "a \<notin> set (owned (tr s))" "msgs s a = Some m" "event_for e m"
    using evt_ok_msg [OF assms(3,4)] .
  obtain h where h: "osip_message_free (ack (tr s)) s = Some (s\<lparr>msgs := h\<rparr>)"
    "heap_tidy e s h (brk s) (mem s) (owned3 (orig_request (tr s)) (last_response (tr s)) (Some a))"
    "h a = Some m"
    using take_as_ack [OF assms(1) a(1-3)] .
  show ?thesis
    using assms(2,5) a h by (auto simp: ist_rcv_ack_def ist_step_simps)
qed

lemma osip_ist_timeout_g_event_handled:
  assumes "mem_ok s" "ist_ok (tr s)" "evt_ok e s" "\<not> EVT_IS_MSG e" "state (tr s) = IST_COMPLETED"
  shows "ist_handled {IST_COMPLETED, IST_TERMINATED} cf e s (osip_ist_timeout_g_event cf e s)"
proof -
  obtain b where b: "last_response (tr s) = Some b" using assms(2,5) by (auto simp: ist_ok_def)
  then obtain mb where mb: "msgs s b = Some mb" using owned_live(2) [OF assms(1)] by auto
  then have "msg_ok mb" using heap_ok_msg_ok [OF assms(1)] by simp
  then show ?thesis
    using assms(2,5) tidy_refl [OF assms(1) evt_ok_timeout [OF assms(3,4)]] b mb
    by (auto simp: osip_ist_timeout_g_event_def ist_step_simps)
qed

lemma osip_ist_timeout_h_event_handled:
  assumes "mem_ok s" "ist_ok (tr s)" "evt_ok e s" "\<not> EVT_IS_MSG e" "state (tr s) = IST_COMPLETED"
  shows "ist_handled {IST_TERMINATED} cf e s (osip_ist_timeout_h_event cf e s)"
  using assms(2,5) tidy_refl [OF assms(1) evt_ok_timeout [OF assms(3,4)]]
  by (auto simp: osip_ist_timeout_h_event_def ist_step_simps)

lemma osip_ist_timeout_i_event_handled:
  assumes "mem_ok s" "ist_ok (tr s)" "evt_ok e s" "\<not> EVT_IS_MSG e" "state (tr s) = IST_CONFIRMED"
  shows "ist_handled {IST_TERMINATED} cf e s (osip_ist_timeout_i_event cf e s)"
  using assms(2,5) tidy_refl [OF assms(1) evt_ok_timeout [OF assms(3,4)]]
  by (auto simp: osip_ist_timeout_i_event_def ist_step_simps)

section \<open>The diagram of RFC 3261, 17.2.1\<close>

text \<open>
  Figure 7 of the RFC, with a state before the first INVITE and the transport error of every
  arrow that sends. An ACK in Confirmed restarts timer I, which the figure does not show.
\<close>

inductive ist_diagram :: "state_t \<Rightarrow> type_t \<Rightarrow> state_t \<Rightarrow> bool" where
  "ist_diagram IST_PRE_PROCEEDING RCV_REQINVITE IST_PROCEEDING"
| "st \<in> {IST_PROCEEDING, IST_COMPLETED} \<Longrightarrow> ist_diagram st RCV_REQINVITE st"
| "ist_diagram IST_PROCEEDING SND_STATUS_1XX IST_PROCEEDING"
| "ist_diagram IST_PROCEEDING SND_STATUS_2XX IST_TERMINATED"
| "ist_diagram IST_PROCEEDING SND_STATUS_3456XX IST_COMPLETED"
| "ist_diagram IST_COMPLETED TIMEOUT_G IST_COMPLETED"
| "ist_diagram IST_COMPLETED TIMEOUT_H IST_TERMINATED"
| "st \<in> {IST_COMPLETED, IST_CONFIRMED} \<Longrightarrow> ist_diagram st RCV_REQACK IST_CONFIRMED"
| "ist_diagram IST_CONFIRMED TIMEOUT_I IST_TERMINATED"
| "ty \<in> {RCV_REQINVITE, SND_STATUS_1XX, SND_STATUS_3456XX}
    \<Longrightarrow> ist_diagram IST_PROCEEDING ty IST_TERMINATED"
| "ty \<in> {RCV_REQINVITE, TIMEOUT_G} \<Longrightarrow> ist_diagram IST_COMPLETED ty IST_TERMINATED"

code_pred ist_diagram .

inductive_simps ist_diagram_simps: "ist_diagram st ty st'"

lemma ist_table_diagram:
  "fsm_findmethod ty st ist_transition \<noteq> None \<longleftrightarrow> (\<exists>st'. ist_diagram st ty st')"
  by (cases st; cases ty)
    (simp_all add: fsm_findmethod_def ist_transition_def ist_diagram_simps ex_disj_distrib)

lemma ist_method_handled:
  assumes "mem_ok s" "ist_ok (tr s)" "evt_ok e s"
    "fsm_findmethod (type e) (state (tr s)) ist_transition = Some t"
  shows "ist_handled {st. ist_diagram (state (tr s)) (type e) st} cf e s (t_method t cf e s)"
proof -
  have msg: "EVT_IS_MSG e \<longleftrightarrow> type e \<notin> {TIMEOUT_G, TIMEOUT_H, TIMEOUT_I}"
    and "(state (tr s), type e, t_method t) \<in> (\<lambda>t. (t_state t, t_type t, t_method t)) ` set ist_transition"
    using assms(4) by (auto simp: fsm_findmethod_def ist_transition_def evt_kind_defs split: if_splits)
  then consider
    "state (tr s) = IST_PRE_PROCEEDING" "type e = RCV_REQINVITE" "t_method t = ist_rcv_invite"
  | "state (tr s) \<in> {IST_PROCEEDING, IST_COMPLETED}" "type e = RCV_REQINVITE" "t_method t = ist_rcv_invite"
  | "state (tr s) = IST_PROCEEDING" "type e = SND_STATUS_1XX" "t_method t = ist_snd_1xx"
  | "state (tr s) = IST_PROCEEDING" "type e = SND_STATUS_2XX" "t_method t = ist_snd_2xx"
  | "state (tr s) = IST_PROCEEDING" "type e = SND_STATUS_3456XX" "t_method t = ist_snd_3456xx"
  | "state (tr s) \<in> {IST_COMPLETED, IST_CONFIRMED}" "type e = RCV_REQACK" "t_method t = ist_rcv_ack"
  | "state (tr s) = IST_COMPLETED" "type e = TIMEOUT_G" "t_method t = osip_ist_timeout_g_event"
  | "state (tr s) = IST_COMPLETED" "type e = TIMEOUT_H" "t_method t = osip_ist_timeout_h_event"
  | "state (tr s) = IST_CONFIRMED" "type e = TIMEOUT_I" "t_method t = osip_ist_timeout_i_event"
    by (auto simp: ist_transition_def)
  then show ?thesis
  proof cases
    case 1
    with ist_rcv_invite_first [OF assms(1-3), of cf] msg show ?thesis
      by (auto simp: ist_diagram_simps elim: handled_mono)
  next
    case 2
    with ist_rcv_invite_again [OF assms(1-3), of cf] msg show ?thesis
      by (auto simp: ist_diagram_simps elim: handled_mono)
  next
    case 3
    with ist_snd_1xx_handled [OF assms(1-3), of cf] msg show ?thesis
      by (auto simp: ist_diagram_simps elim: handled_mono)
  next
    case 4
    with ist_snd_2xx_handled [OF assms(1-3), of cf] msg show ?thesis
      by (auto simp: ist_diagram_simps elim: handled_mono)
  next
    case 5
    with ist_snd_3456xx_handled [OF assms(1-3), of cf] msg show ?thesis
      by (auto simp: ist_diagram_simps elim: handled_mono)
  next
    case 6
    with ist_rcv_ack_handled [OF assms(1-3), of cf] msg show ?thesis
      by (auto simp: ist_diagram_simps elim: handled_mono)
  next
    case 7
    with osip_ist_timeout_g_event_handled [OF assms(1-3), of cf] msg show ?thesis
      by (auto simp: ist_diagram_simps elim: handled_mono)
  next
    case 8
    with osip_ist_timeout_h_event_handled [OF assms(1-3), of cf] msg show ?thesis
      by (auto simp: ist_diagram_simps elim: handled_mono)
  next
    case 9
    with osip_ist_timeout_i_event_handled [OF assms(1-3), of cf] msg show ?thesis
      by (auto simp: ist_diagram_simps elim: handled_mono)
  qed
qed

interpretation ist_fsm: fsm ist_transition ist_ok ist_diagram IST_TERMINATED OSIP_IST_KILL_TRANSACTION
  by unfold_locales
    (use ist_table_diagram ist_method_handled in \<open>auto simp: ist_diagram_simps\<close>)

end
