(* ===== verification/Nict.thy ===== *)
theory Nict
  imports Fsm_Inv
begin

text \<open>
  The client transaction of the other requests: \<^verbatim>\<open>nict.c\<close> and \<^verbatim>\<open>nict_fsm.c\<close>. As in the
  INVITE machine, a positive answer of the transport means that the connection is not
  ready; timer E then polls it every 50 ms at first.
\<close>

section \<open>The context\<close>

definition osip_nict_set_destination ::
  "osip_nict ptr \<Rightarrow> cstr \<Rightarrow> int \<Rightarrow> (int \<times> osip_nict ptr) option" where
  "osip_nict_set_destination nict dest port =
    (if nict = Null then Some (OSIP_BADPARAMETER, Null)
     else do {
       c \<leftarrow> load nict;
       Some (OSIP_SUCCESS, Live (c\<lparr>nict_destination := dest, nict_port := port\<rparr>))
     })"

definition nict_zero :: osip_nict where
  "nict_zero = \<lparr>timer_e_length = 0, timer_e_start = \<lparr>tv_sec = 0, tv_usec = 0\<rparr>,
    timer_f_length = 0, timer_f_start = \<lparr>tv_sec = 0, tv_usec = 0\<rparr>,
    timer_k_length = 0, timer_k_start = \<lparr>tv_sec = 0, tv_usec = 0\<rparr>,
    nict_destination = None, nict_port = 0\<rparr>"

definition osip_nict_init ::
  "osip_config \<Rightarrow> osip_message \<Rightarrow> 'a world_scheme
    \<Rightarrow> ((int \<times> osip_nict ptr) \<times> 'a world_scheme) option" where
  "osip_nict_init cf request w =
    (case osip_malloc (mem w) of (ok, m) \<Rightarrow>
     let w = w\<lparr>mem := m\<rparr> in
     if \<not> ok then Some ((OSIP_NOMEM, Null), w)
     else let (i, via) = osip_message_get_via (Some request) 0 in
     if i < 0 then Some ((i, Null), w)
     else (case via_get_protocol via of
         None \<Rightarrow> Some ((OSIP_UNDEFINED_ERROR, Null), w)
       | Some proto \<Rightarrow> do {
           let c = nict_zero\<lparr>timer_e_length := DEFAULT_T1,
                     timer_k_length := (if unreliable proto then DEFAULT_T4 else 0),
                     timer_e_start := timer_off (timer_e_start nict_zero),
                     timer_k_start := timer_off (timer_k_start nict_zero)\<rparr>;
           ((host, port), m) \<leftarrow> request_destination request (mem w);
           let w = w\<lparr>mem := m\<rparr>;
           (r, p) \<leftarrow> osip_nict_set_destination (Live c) host port;
           c \<leftarrow> load p;
           let (f_start, w) = time_in cf (64 * DEFAULT_T1) w;
           let c = c\<lparr>timer_f_length := 64 * DEFAULT_T1, timer_f_start := f_start\<rparr>;
           Some ((OSIP_SUCCESS, Live c), w)
         }))"

definition osip_nict_free :: "osip_nict ptr \<Rightarrow> (int \<times> osip_nict ptr) option" where
  "osip_nict_free nict =
    (if nict = Null then Some (OSIP_SUCCESS, Null)
     else do { c \<leftarrow> load nict; Some (OSIP_SUCCESS, Dangling) })"

definition osip_nict_need_timer_e_event ::
  "osip_config \<Rightarrow> osip_nict ptr \<Rightarrow> state_t \<Rightarrow> int \<Rightarrow> 'a world_scheme
    \<Rightarrow> (osip_event option \<times> 'a world_scheme) option" where
  "osip_nict_need_timer_e_event cf nict st tid w =
    osip_transaction_need_timer_x_event cf nict timer_e_start
      (st = NICT_PROCEEDING \<or> st = NICT_TRYING) tid TIMEOUT_E w"

definition osip_nict_need_timer_f_event ::
  "osip_config \<Rightarrow> osip_nict ptr \<Rightarrow> state_t \<Rightarrow> int \<Rightarrow> 'a world_scheme
    \<Rightarrow> (osip_event option \<times> 'a world_scheme) option" where
  "osip_nict_need_timer_f_event cf nict st tid w =
    osip_transaction_need_timer_x_event cf nict timer_f_start
      (st = NICT_PROCEEDING \<or> st = NICT_TRYING) tid TIMEOUT_F w"

definition osip_nict_need_timer_k_event ::
  "osip_config \<Rightarrow> osip_nict ptr \<Rightarrow> state_t \<Rightarrow> int \<Rightarrow> 'a world_scheme
    \<Rightarrow> (osip_event option \<times> 'a world_scheme) option" where
  "osip_nict_need_timer_k_event cf nict st tid w =
    osip_transaction_need_timer_x_event cf nict timer_k_start (st = NICT_COMPLETED) tid TIMEOUT_K w"

section \<open>The state machine\<close>

definition upd_nict :: "(osip_nict \<Rightarrow> osip_nict) \<Rightarrow> st \<Rightarrow> st option" where
  "upd_nict f s =
    do { c \<leftarrow> load (nict_context (tr s)); Some (s\<lparr>tr := (tr s)\<lparr>nict_context := Live (f c)\<rparr>\<rparr>) }"

definition nict_handle_transport_error :: "osip_config \<Rightarrow> int \<Rightarrow> st \<Rightarrow> st option" where
  "nict_handle_transport_error cf err s =
    do {
      s \<leftarrow> osip_transport_error_callback cf OSIP_NICT_TRANSPORT_ERROR err s;
      let s = osip_transaction_set_state NICT_TERMINATED s;
      osip_kill_transaction_callback cf OSIP_NICT_KILL_TRANSACTION s
    }"

definition nict_sent_type :: "osip_message \<Rightarrow> osip_message_callback_type option" where
  "nict_sent_type m =
    do {
      register \<leftarrow> MSG_IS ''REGISTER'' m;
      if register then Some OSIP_NICT_REGISTER_SENT else do {
      bye \<leftarrow> MSG_IS ''BYE'' m;
      if bye then Some OSIP_NICT_BYE_SENT else do {
      options \<leftarrow> MSG_IS ''OPTIONS'' m;
      if options then Some OSIP_NICT_OPTIONS_SENT else do {
      info \<leftarrow> MSG_IS ''INFO'' m;
      if info then Some OSIP_NICT_INFO_SENT else do {
      cancel \<leftarrow> MSG_IS ''CANCEL'' m;
      if cancel then Some OSIP_NICT_CANCEL_SENT else do {
      notify \<leftarrow> MSG_IS ''NOTIFY'' m;
      if notify then Some OSIP_NICT_NOTIFY_SENT else do {
      subscribe \<leftarrow> MSG_IS ''SUBSCRIBE'' m;
      Some (if subscribe then OSIP_NICT_SUBSCRIBE_SENT else OSIP_NICT_UNKNOWN_REQUEST_SENT)
      }}}}}}
    }"

text \<open>
  The transport of the request's top Via: the error \<open>-1\<close> ends the transaction, otherwise
  \<open>k\<close> goes on.
\<close>

definition nict_with_protocol ::
  "osip_config \<Rightarrow> (string \<Rightarrow> st \<Rightarrow> st option) \<Rightarrow> st \<Rightarrow> st option" where
  "nict_with_protocol cf k s =
    do {
      m \<leftarrow> deref s (orig_request (tr s));
      let (i, via) = osip_message_get_via (Some m) 0;
      (if i < 0 then nict_handle_transport_error cf (-1) s
       else (case via_get_protocol via of
           None \<Rightarrow> nict_handle_transport_error cf (-1) s
         | Some proto \<Rightarrow> k proto s))
    }"

definition nict_sent :: "osip_config \<Rightarrow> int \<Rightarrow> string \<Rightarrow> st \<Rightarrow> st option" where
  "nict_sent cf i proto s =
    do {
      s \<leftarrow> (if unreliable proto then Some s
            else if i = 0 then
              upd_nict (\<lambda>c. c\<lparr>timer_e_length := -1, timer_e_start := timer_off (timer_e_start c)\<rparr>) s
            else upd_nict (\<lambda>c. c\<lparr>timer_e_length := DEFAULT_T1_TCP_PROGRESS\<rparr>) s);
      c \<leftarrow> load (nict_context (tr s));
      s \<leftarrow> (if timer_e_length c > 0 then do {
              let (t, s) = time_in cf (timer_e_length c) s;
              upd_nict (\<lambda>c. c\<lparr>timer_e_start := t\<rparr>) s
            } else Some s);
      Some (osip_transaction_set_state NICT_TRYING s)
    }"

definition nict_snd_request :: "osip_config \<Rightarrow> osip_event \<Rightarrow> st \<Rightarrow> st option" where
  "nict_snd_request cf evt s =
    do {
      let s = s\<lparr>tr := (tr s)\<lparr>orig_request := sip evt\<rparr>\<rparr>;
      c \<leftarrow> load (nict_context (tr s));
      (i, s) \<leftarrow> transaction_send cf (sip evt) (nict_destination c) (nict_port c) s;
      (if i \<ge> 0 then do {
         m \<leftarrow> deref s (sip evt);
         ty \<leftarrow> nict_sent_type m;
         s \<leftarrow> osip_message_callback cf ty (orig_request (tr s)) s;
         nict_with_protocol cf (nict_sent cf i) s
       } else nict_handle_transport_error cf i s)
    }"

definition nict_next_e_length :: "state_t \<Rightarrow> int \<Rightarrow> int" where
  "nict_next_e_length st len =
    (if st = NICT_TRYING then
       let l = (if len < DEFAULT_T1 then len + DEFAULT_T1_TCP_PROGRESS else len * 2)
       in if l > DEFAULT_T2 then DEFAULT_T2 else l
     else DEFAULT_T2)"

definition nict_resent :: "osip_config \<Rightarrow> string \<Rightarrow> st \<Rightarrow> st option" where
  "nict_resent cf proto s =
    do {
      s \<leftarrow> (if unreliable proto then Some s
            else upd_nict (\<lambda>c. c\<lparr>timer_e_length := -1, timer_e_start := timer_off (timer_e_start c)\<rparr>) s);
      osip_message_callback cf OSIP_NICT_REQUEST_SENT_AGAIN (orig_request (tr s)) s
    }"

definition osip_nict_timeout_e_event :: "osip_config \<Rightarrow> osip_event \<Rightarrow> st \<Rightarrow> st option" where
  "osip_nict_timeout_e_event cf evt s =
    do {
      s \<leftarrow> upd_nict (\<lambda>c. c\<lparr>timer_e_length := nict_next_e_length (state (tr s)) (timer_e_length c)\<rparr>) s;
      c \<leftarrow> load (nict_context (tr s));
      let (t, s) = time_in cf (timer_e_length c) s;
      s \<leftarrow> upd_nict (\<lambda>c. c\<lparr>timer_e_start := t\<rparr>) s;
      (i, s) \<leftarrow> transaction_send cf (orig_request (tr s)) (nict_destination c) (nict_port c) s;
      (if i < 0 then nict_handle_transport_error cf i s
       else if i = 0 then
         nict_with_protocol cf (nict_resent cf) s
       else Some s)
    }"

definition osip_nict_timeout_f_event :: "osip_config \<Rightarrow> osip_event \<Rightarrow> st \<Rightarrow> st option" where
  "osip_nict_timeout_f_event cf evt s =
    do {
      s \<leftarrow> upd_nict (\<lambda>c. c\<lparr>timer_f_length := -1, timer_f_start := timer_off (timer_f_start c)\<rparr>) s;
      s \<leftarrow> osip_message_callback cf OSIP_NICT_STATUS_TIMEOUT (sip evt) s;
      let s = osip_transaction_set_state NICT_TERMINATED s;
      osip_kill_transaction_callback cf OSIP_NICT_KILL_TRANSACTION s
    }"

definition osip_nict_timeout_k_event :: "osip_config \<Rightarrow> osip_event \<Rightarrow> st \<Rightarrow> st option" where
  "osip_nict_timeout_k_event cf evt s =
    do {
      s \<leftarrow> upd_nict (\<lambda>c. c\<lparr>timer_k_length := -1, timer_k_start := timer_off (timer_k_start c)\<rparr>) s;
      let s = osip_transaction_set_state NICT_TERMINATED s;
      osip_kill_transaction_callback cf OSIP_NICT_KILL_TRANSACTION s
    }"

definition nict_rcv_1xx :: "osip_config \<Rightarrow> osip_event \<Rightarrow> st \<Rightarrow> st option" where
  "nict_rcv_1xx cf evt s =
    do {
      s \<leftarrow> osip_message_free (last_response (tr s)) s;
      let s = s\<lparr>tr := (tr s)\<lparr>last_response := sip evt\<rparr>\<rparr>;
      c \<leftarrow> load (nict_context (tr s));
      s \<leftarrow> (if timer_e_length c > 0 then do {
              s \<leftarrow> upd_nict (\<lambda>c. c\<lparr>timer_e_length := DEFAULT_T2\<rparr>) s;
              let (t, s) = time_in cf DEFAULT_T2 s;
              upd_nict (\<lambda>c. c\<lparr>timer_e_start := t\<rparr>) s
            } else Some s);
      s \<leftarrow> osip_message_callback cf OSIP_NICT_STATUS_1XX_RECEIVED (sip evt) s;
      Some (osip_transaction_set_state NICT_PROCEEDING s)
    }"

definition nict_received_type :: "osip_event \<Rightarrow> osip_message \<Rightarrow> osip_message_callback_type" where
  "nict_received_type evt m =
    (if type evt = RCV_STATUS_2XX then OSIP_NICT_STATUS_2XX_RECEIVED
     else if MSG_IS_STATUS 3 m then OSIP_NICT_STATUS_3XX_RECEIVED
     else if MSG_IS_STATUS 4 m then OSIP_NICT_STATUS_4XX_RECEIVED
     else if MSG_IS_STATUS 5 m then OSIP_NICT_STATUS_5XX_RECEIVED
     else OSIP_NICT_STATUS_6XX_RECEIVED)"

definition nict_rcv_23456xx :: "osip_config \<Rightarrow> osip_event \<Rightarrow> st \<Rightarrow> st option" where
  "nict_rcv_23456xx cf evt s =
    do {
      s \<leftarrow> osip_message_free (last_response (tr s)) s;
      let s = s\<lparr>tr := (tr s)\<lparr>last_response := sip evt\<rparr>\<rparr>;
      m \<leftarrow> deref s (last_response (tr s));
      s \<leftarrow> osip_message_callback cf (nict_received_type evt m) (last_response (tr s)) s;
      s \<leftarrow> (if state (tr s) \<noteq> NICT_COMPLETED then do {
              c \<leftarrow> load (nict_context (tr s));
              let (t, s) = time_in cf (timer_k_length c) s;
              upd_nict (\<lambda>c. c\<lparr>timer_k_start := t\<rparr>) s
            } else Some s);
      Some (osip_transaction_set_state NICT_COMPLETED s)
    }"

definition nict_transition :: "st handler transition list" where
  "nict_transition =
    [\<lparr>t_state = NICT_PRE_TRYING, t_type = SND_REQUEST, t_method = nict_snd_request\<rparr>,
     \<lparr>t_state = NICT_TRYING, t_type = TIMEOUT_F, t_method = osip_nict_timeout_f_event\<rparr>,
     \<lparr>t_state = NICT_TRYING, t_type = TIMEOUT_E, t_method = osip_nict_timeout_e_event\<rparr>,
     \<lparr>t_state = NICT_TRYING, t_type = RCV_STATUS_1XX, t_method = nict_rcv_1xx\<rparr>,
     \<lparr>t_state = NICT_TRYING, t_type = RCV_STATUS_2XX, t_method = nict_rcv_23456xx\<rparr>,
     \<lparr>t_state = NICT_TRYING, t_type = RCV_STATUS_3456XX, t_method = nict_rcv_23456xx\<rparr>,
     \<lparr>t_state = NICT_PROCEEDING, t_type = TIMEOUT_F, t_method = osip_nict_timeout_f_event\<rparr>,
     \<lparr>t_state = NICT_PROCEEDING, t_type = TIMEOUT_E, t_method = osip_nict_timeout_e_event\<rparr>,
     \<lparr>t_state = NICT_PROCEEDING, t_type = RCV_STATUS_1XX, t_method = nict_rcv_1xx\<rparr>,
     \<lparr>t_state = NICT_PROCEEDING, t_type = RCV_STATUS_2XX, t_method = nict_rcv_23456xx\<rparr>,
     \<lparr>t_state = NICT_PROCEEDING, t_type = RCV_STATUS_3456XX, t_method = nict_rcv_23456xx\<rparr>,
     \<lparr>t_state = NICT_COMPLETED, t_type = TIMEOUT_K, t_method = osip_nict_timeout_k_event\<rparr>]"

lemmas [fsm_defs] =
  nict_handle_transport_error_def nict_with_protocol_def nict_snd_request_def
  osip_nict_timeout_e_event_def osip_nict_timeout_f_event_def osip_nict_timeout_k_event_def
  nict_rcv_1xx_def nict_rcv_23456xx_def upd_nict_def

section \<open>The invariant of the machine\<close>

definition nict_ok :: "osip_transaction \<Rightarrow> bool" where
  "nict_ok t \<longleftrightarrow>
     state t \<in> {NICT_PRE_TRYING, NICT_TRYING, NICT_PROCEEDING, NICT_COMPLETED, NICT_TERMINATED}
     \<and> config t \<and> (\<exists>c. nict_context t = Live c) \<and> ack t = None
     \<and> (if state t = NICT_PRE_TRYING then orig_request t = None \<and> last_response t = None
        else orig_request t \<noteq> None)"

abbreviation nict_handled ::
  "state_t set \<Rightarrow> osip_config \<Rightarrow> osip_event \<Rightarrow> st \<Rightarrow> st option \<Rightarrow> bool" where
  "nict_handled \<equiv> handled nict_ok OSIP_NICT_KILL_TRANSACTION NICT_TERMINATED"

lemma nict_error_ok [simp]:
  "config (tr s) \<Longrightarrow> nict_handle_transport_error cf i s
    = Some (s\<lparr>tr := (tr s)\<lparr>state := NICT_TERMINATED, completed_time := systime cf (ticks s)\<rparr>,
        ticks := ticks s + 1,
        log := log s @ error_cb_log cf OSIP_NICT_TRANSPORT_ERROR i
          @ kill_cb_log cf OSIP_NICT_KILL_TRANSACTION\<rparr>)"
  by (simp add: nict_handle_transport_error_def osip_transaction_set_state_def)

lemmas nict_step_simps =
  osip_transaction_set_state_def nict_ok_def handled_Some upd_nict_def time_in_def
  osip_gettimeofday_def Let_def

lemma nict_sent_type_ok: "method_ok m \<Longrightarrow> \<exists>ty. nict_sent_type m = Some ty"
  by (simp add: nict_sent_type_def)

text \<open>The protocol of a request that is there: an error, or the continuation.\<close>

lemma nict_with_protocol_cases:
  assumes "orig_request (tr s) = Some a" "msgs s a = Some m"
  obtains "nict_with_protocol cf k s = nict_handle_transport_error cf (-1) s"
  | proto where "nict_with_protocol cf k s = k proto s"
  using assms
  by (cases "topvia_of m"; cases "via_get_protocol (topvia_of m)")
    (auto simp: nict_with_protocol_def via_get_protocol_def)

lemma upd_nict_ok [simp]:
  "nict_context (tr s) = Live c
    \<Longrightarrow> upd_nict f s = Some (s\<lparr>tr := (tr s)\<lparr>nict_context := Live (f c)\<rparr>\<rparr>)"
  by (simp add: upd_nict_def)

lemma nict_ok_calm:
  assumes "calm x s s'" "nict_context (tr s') = Live c" "x \<in> {NICT_TRYING, NICT_PROCEEDING}"
    "config (tr s)" "ack (tr s) = None" "orig_request (tr s) \<noteq> None"
  shows "nict_ok (tr s')"
  using assms by (auto simp: calm_def nict_ok_def same_call_def)

lemma nict_sent_calm:
  assumes "nict_context (tr s) = Live c"
  shows "\<exists>s' c'. nict_sent cf i proto s = Some s' \<and> calm NICT_TRYING s s' \<and> nict_context (tr s') = Live c'"
  using assms
  by (cases "unreliable proto"; cases "i = 0"; cases "timer_e_length c > 0")
    (simp_all add: nict_sent_def calm_def time_in_def osip_gettimeofday_def osip_transaction_set_state_def)

lemma nict_snd_request_handled:
  assumes "mem_ok s" "nict_ok (tr s)" "evt_ok e s" "EVT_IS_MSG e" "state (tr s) = NICT_PRE_TRYING"
  shows "nict_handled {NICT_TRYING, NICT_TERMINATED} cf e s (nict_snd_request cf e s)"
proof -
  obtain a m where a: "sip e = Some a" "a \<notin> set (owned (tr s))" "msgs s a = Some m" "event_for e m"
    using evt_ok_msg [OF assms(3,4)] .
  obtain ty where ty: "nict_sent_type m = Some ty"
    using nict_sent_type_ok event_for_method_ok [OF a(4)] by blast
  obtain c where c: "nict_context (tr s) = Live c" using assms(2) by (auto simp: nict_ok_def)
  have "orig_request (tr s) = None" using assms(2,5) by (simp add: nict_ok_def)
  note tidy = take_as_orig [OF assms(1) a(1-3) this]
  let ?t = "(tr s)\<lparr>orig_request := Some a\<rparr>"
  let ?i = "send_answer cf (s\<lparr>tr := ?t\<rparr>) a (nict_destination c) (nict_port c)"
  let ?l = "[Send a (nict_destination c) (nict_port c) (out_socket (tr s)) ?i]"
  let ?s = "s\<lparr>tr := ?t, log := log s @ ?l @ message_cb_log cf ty (Some a)\<rparr>"
  have run: "nict_snd_request cf e s
      = (if ?i \<ge> 0 then nict_with_protocol cf (nict_sent cf ?i) ?s
         else nict_handle_transport_error cf ?i (s\<lparr>tr := ?t, log := log s @ ?l\<rparr>))"
    using a ty c assms(2) by (simp add: nict_snd_request_def nict_ok_def Let_def)
  have s: "orig_request (tr ?s) = Some a" "msgs ?s a = Some m" "nict_context (tr ?s) = Live c"
    using a c by simp_all
  show ?thesis
  proof (cases "?i \<ge> 0")
    case False
    then show ?thesis using run tidy assms(2,5) c by (auto simp: nict_step_simps)
  next
    case True
    from nict_with_protocol_cases [OF s(1,2)]
    consider "nict_with_protocol cf (nict_sent cf ?i) ?s = nict_handle_transport_error cf (-1) ?s"
      | proto where "nict_with_protocol cf (nict_sent cf ?i) ?s = nict_sent cf ?i proto ?s"
      by blast
    then show ?thesis
    proof cases
      case 1
      then show ?thesis using True run tidy assms(2,5) c by (auto simp: nict_step_simps)
    next
      case 2
      obtain s' c' where s': "nict_sent cf ?i proto ?s = Some s'" "calm NICT_TRYING ?s s'"
        "nict_context (tr s') = Live c'"
        using nict_sent_calm [OF s(3)] by blast
      have "nict_ok (tr s')"
        by (rule nict_ok_calm [OF s'(2,3)]) (use assms(2) in \<open>simp_all add: nict_ok_def\<close>)
      moreover have "nict_snd_request cf e s = Some s'" using run True 2 s'(1) by simp
      ultimately show ?thesis
        using tidy by (auto intro: handled_calm [OF _ s'(2)])
    qed
  qed
qed

lemma nict_resent_calm:
  assumes "nict_context (tr s) = Live c" "config (tr s)" "deref_ok s (orig_request (tr s))"
  shows "\<exists>s' c'. nict_resent cf proto s = Some s' \<and> calm (state (tr s)) s s' \<and> nict_context (tr s') = Live c'"
  using assms by (cases "unreliable proto") (simp_all add: nict_resent_def calm_def)

lemma osip_nict_timeout_e_event_handled:
  assumes "mem_ok s" "nict_ok (tr s)" "evt_ok e s" "\<not> EVT_IS_MSG e"
    "state (tr s) \<in> {NICT_TRYING, NICT_PROCEEDING}"
  shows "nict_handled {state (tr s), NICT_TERMINATED} cf e s (osip_nict_timeout_e_event cf e s)"
proof -
  obtain a where a: "orig_request (tr s) = Some a" using assms(2,5) by (auto simp: nict_ok_def)
  then obtain m where m: "msgs s a = Some m" using owned_live(1) [OF assms(1)] by auto
  obtain c where c: "nict_context (tr s) = Live c" "config (tr s)"
    using assms(2) by (auto simp: nict_ok_def)
  note tidy = tidy_refl [OF assms(1) evt_ok_timeout [OF assms(3,4)]]
  let ?len = "nict_next_e_length (state (tr s)) (timer_e_length c)"
  let ?c = "c\<lparr>timer_e_length := ?len, timer_e_start := fst (time_in cf ?len s)\<rparr>"
  let ?s = "s\<lparr>ticks := ticks s + 1, tr := (tr s)\<lparr>nict_context := Live ?c\<rparr>\<rparr>"
  let ?i = "send_answer cf ?s a (nict_destination c) (nict_port c)"
  let ?s' = "?s\<lparr>log := log s @ [Send a (nict_destination c) (nict_port c) (out_socket (tr s)) ?i]\<rparr>"
  have run: "osip_nict_timeout_e_event cf e s
      = (if ?i < 0 then nict_handle_transport_error cf ?i ?s'
         else if ?i = 0 then nict_with_protocol cf (nict_resent cf) ?s' else Some ?s')"
    using a m c
    by (simp add: osip_nict_timeout_e_event_def time_in_def osip_gettimeofday_def)
  have s: "orig_request (tr ?s') = Some a" "msgs ?s' a = Some m" "nict_context (tr ?s') = Live ?c"
    "config (tr ?s')" "deref_ok ?s' (orig_request (tr ?s'))"
    using a m c by simp_all
  consider "?i < 0" | "?i > 0" | "?i = 0" by linarith
  then show ?thesis
  proof cases
    case 1
    then show ?thesis using run tidy assms(2,5) c by (auto simp: nict_step_simps)
  next
    case 2
    then show ?thesis using run tidy assms(2,5) c by (auto simp: nict_step_simps)
  next
    case 3
    from nict_with_protocol_cases [OF s(1,2)]
    consider "nict_with_protocol cf (nict_resent cf) ?s' = nict_handle_transport_error cf (-1) ?s'"
      | proto where "nict_with_protocol cf (nict_resent cf) ?s' = nict_resent cf proto ?s'"
      by blast
    then show ?thesis
    proof cases
      case 1
      then show ?thesis using 3 run tidy assms(2,5) c by (auto simp: nict_step_simps)
    next
      case 2
      obtain s' c' where s': "nict_resent cf proto ?s' = Some s'" "calm (state (tr ?s')) ?s' s'"
        "nict_context (tr s') = Live c'"
        using nict_resent_calm [OF s(3-5)] by blast
      have "nict_ok (tr s')"
        by (rule nict_ok_calm [OF s'(2,3)]) (use assms(2,5) a in \<open>auto simp: nict_ok_def\<close>)
      moreover have "osip_nict_timeout_e_event cf e s = Some s'" using run 3 2 s'(1) by simp
      ultimately show ?thesis
        using tidy assms(5) by (auto intro: handled_calm [OF _ s'(2)])
    qed
  qed
qed

lemma nict_timeout_handled:
  assumes "mem_ok s" "nict_ok (tr s)" "evt_ok e s" "\<not> EVT_IS_MSG e"
  shows osip_nict_timeout_f_event_handled: "state (tr s) \<in> {NICT_TRYING, NICT_PROCEEDING}
      \<Longrightarrow> nict_handled {NICT_TERMINATED} cf e s (osip_nict_timeout_f_event cf e s)"
    and osip_nict_timeout_k_event_handled: "state (tr s) = NICT_COMPLETED
      \<Longrightarrow> nict_handled {NICT_TERMINATED} cf e s (osip_nict_timeout_k_event cf e s)"
  using assms(2) evt_ok_timeout [OF assms(3,4)] tidy_refl [OF assms(1) evt_ok_timeout [OF assms(3,4)]]
  by (auto simp: osip_nict_timeout_f_event_def osip_nict_timeout_k_event_def nict_step_simps)

lemma nict_rcv_handled:
  assumes "mem_ok s" "nict_ok (tr s)" "evt_ok e s" "EVT_IS_MSG e"
    "state (tr s) \<in> {NICT_TRYING, NICT_PROCEEDING}"
  shows nict_rcv_1xx_handled: "nict_handled {NICT_PROCEEDING} cf e s (nict_rcv_1xx cf e s)"
    and nict_rcv_23456xx_handled: "nict_handled {NICT_COMPLETED} cf e s (nict_rcv_23456xx cf e s)"
proof -
  obtain a m where a: "sip e = Some a" "a \<notin> set (owned (tr s))" "msgs s a = Some m" "event_for e m"
    using evt_ok_msg [OF assms(3,4)] .
  obtain h where h: "osip_message_free (last_response (tr s)) s = Some (s\<lparr>msgs := h\<rparr>)"
    "heap_tidy e s h (brk s) (mem s) (owned3 (orig_request (tr s)) (Some a) (ack (tr s)))"
    "h a = Some m"
    using take_as_last_response [OF assms(1) a(1-3)] .
  show "nict_handled {NICT_PROCEEDING} cf e s (nict_rcv_1xx cf e s)"
    using assms(2,5) a h by (auto simp: nict_rcv_1xx_def nict_step_simps)
  show "nict_handled {NICT_COMPLETED} cf e s (nict_rcv_23456xx cf e s)"
    using assms(2,5) a h by (auto simp: nict_rcv_23456xx_def nict_step_simps)
qed

section \<open>The diagram of RFC 3261, 17.1.2\<close>

text \<open>Figure 6 of the RFC, with a state before the request and the transport error of the sends.\<close>

inductive nict_diagram :: "state_t \<Rightarrow> type_t \<Rightarrow> state_t \<Rightarrow> bool" where
  "nict_diagram NICT_PRE_TRYING SND_REQUEST NICT_TRYING"
| "st \<in> {NICT_TRYING, NICT_PROCEEDING} \<Longrightarrow> nict_diagram st TIMEOUT_E st"
| "st \<in> {NICT_TRYING, NICT_PROCEEDING} \<Longrightarrow> nict_diagram st TIMEOUT_F NICT_TERMINATED"
| "st \<in> {NICT_TRYING, NICT_PROCEEDING} \<Longrightarrow> nict_diagram st RCV_STATUS_1XX NICT_PROCEEDING"
| "st \<in> {NICT_TRYING, NICT_PROCEEDING} \<Longrightarrow> ty \<in> {RCV_STATUS_2XX, RCV_STATUS_3456XX}
    \<Longrightarrow> nict_diagram st ty NICT_COMPLETED"
| "nict_diagram NICT_COMPLETED TIMEOUT_K NICT_TERMINATED"
| "nict_diagram NICT_PRE_TRYING SND_REQUEST NICT_TERMINATED"
| "st \<in> {NICT_TRYING, NICT_PROCEEDING} \<Longrightarrow> nict_diagram st TIMEOUT_E NICT_TERMINATED"

code_pred nict_diagram .

inductive_simps nict_diagram_simps: "nict_diagram st ty st'"

lemma nict_table_diagram:
  "fsm_findmethod ty st nict_transition \<noteq> None \<longleftrightarrow> (\<exists>st'. nict_diagram st ty st')"
  by (cases st; cases ty)
    (simp_all add: fsm_findmethod_def nict_transition_def nict_diagram_simps ex_disj_distrib)

lemma nict_method_handled:
  assumes "mem_ok s" "nict_ok (tr s)" "evt_ok e s"
    "fsm_findmethod (type e) (state (tr s)) nict_transition = Some t"
  shows "nict_handled {st. nict_diagram (state (tr s)) (type e) st} cf e s (t_method t cf e s)"
proof -
  have msg: "EVT_IS_MSG e \<longleftrightarrow> type e \<notin> {TIMEOUT_E, TIMEOUT_F, TIMEOUT_K}"
    and "(state (tr s), type e, t_method t) \<in> (\<lambda>t. (t_state t, t_type t, t_method t)) ` set nict_transition"
    using assms(4) by (auto simp: fsm_findmethod_def nict_transition_def evt_kind_defs split: if_splits)
  then consider
    "state (tr s) = NICT_PRE_TRYING" "type e = SND_REQUEST" "t_method t = nict_snd_request"
  | "state (tr s) \<in> {NICT_TRYING, NICT_PROCEEDING}" "type e = TIMEOUT_E"
      "t_method t = osip_nict_timeout_e_event"
  | "state (tr s) \<in> {NICT_TRYING, NICT_PROCEEDING}" "type e = TIMEOUT_F"
      "t_method t = osip_nict_timeout_f_event"
  | "state (tr s) \<in> {NICT_TRYING, NICT_PROCEEDING}" "type e = RCV_STATUS_1XX" "t_method t = nict_rcv_1xx"
  | "state (tr s) \<in> {NICT_TRYING, NICT_PROCEEDING}" "type e \<in> {RCV_STATUS_2XX, RCV_STATUS_3456XX}"
      "t_method t = nict_rcv_23456xx"
  | "state (tr s) = NICT_COMPLETED" "type e = TIMEOUT_K" "t_method t = osip_nict_timeout_k_event"
    by (auto simp: nict_transition_def)
  then show ?thesis
  proof cases
    case 1
    with nict_snd_request_handled [OF assms(1-3), of cf] msg show ?thesis
      by (auto simp: nict_diagram_simps elim: handled_mono)
  next
    case 2
    with osip_nict_timeout_e_event_handled [OF assms(1-3), of cf] msg show ?thesis
      by (auto simp: nict_diagram_simps elim: handled_mono)
  next
    case 3
    with osip_nict_timeout_f_event_handled [OF assms(1-3), of cf] msg show ?thesis
      by (auto simp: nict_diagram_simps elim: handled_mono)
  next
    case 4
    with nict_rcv_1xx_handled [OF assms(1-3), of cf] msg show ?thesis
      by (auto simp: nict_diagram_simps elim: handled_mono)
  next
    case 5
    with nict_rcv_23456xx_handled [OF assms(1-3), of cf] msg show ?thesis
      by (auto simp: nict_diagram_simps elim: handled_mono)
  next
    case 6
    with osip_nict_timeout_k_event_handled [OF assms(1-3), of cf] msg show ?thesis
      by (auto simp: nict_diagram_simps elim: handled_mono)
  qed
qed

interpretation nict_fsm: fsm nict_transition nict_ok nict_diagram NICT_TERMINATED OSIP_NICT_KILL_TRANSACTION
  by unfold_locales
    (use nict_table_diagram nict_method_handled in \<open>auto simp: nict_diagram_simps\<close>)

end
