(* ===== verification/Nist.thy ===== *)
theory Nist
  imports Fsm_Inv
begin

text \<open>The server transaction of the other requests: \<^verbatim>\<open>nist.c\<close> and \<^verbatim>\<open>nist_fsm.c\<close>.\<close>

section \<open>The context\<close>

definition nist_zero :: osip_nist where
  "nist_zero = \<lparr>timer_j_length = 0, timer_j_start = \<lparr>tv_sec = 0, tv_usec = 0\<rparr>\<rparr>"

definition osip_nist_init ::
  "osip_config \<Rightarrow> osip_message \<Rightarrow> 'a world_scheme
    \<Rightarrow> ((int \<times> osip_nist ptr) \<times> 'a world_scheme) option" where
  "osip_nist_init cf invite w =
    (case osip_malloc (mem w) of (ok, m) \<Rightarrow>
     let w = w\<lparr>mem := m\<rparr> in
     if \<not> ok then Some ((OSIP_NOMEM, Null), w)
     else let (i, via) = osip_message_get_via (Some invite) 0 in
     if i < 0 then Some ((i, Null), w)
     else (case via_get_protocol via of
         None \<Rightarrow> Some ((OSIP_UNDEFINED_ERROR, Null), w)
       | Some proto \<Rightarrow>
           Some ((OSIP_SUCCESS,
             Live (nist_zero\<lparr>timer_j_length := (if unreliable proto then 64 * DEFAULT_T1 else 0),
                     timer_j_start := timer_off (timer_j_start nist_zero)\<rparr>)), w)))"

definition osip_nist_free :: "osip_nist ptr \<Rightarrow> (int \<times> osip_nist ptr) option" where
  "osip_nist_free nist =
    (if nist = Null then Some (OSIP_SUCCESS, Null)
     else do { c \<leftarrow> load nist; Some (OSIP_SUCCESS, Dangling) })"

definition osip_nist_need_timer_j_event ::
  "osip_config \<Rightarrow> osip_nist ptr \<Rightarrow> state_t \<Rightarrow> int \<Rightarrow> 'a world_scheme
    \<Rightarrow> (osip_event option \<times> 'a world_scheme) option" where
  "osip_nist_need_timer_j_event cf nist st tid w =
    osip_transaction_need_timer_x_event cf nist timer_j_start (st = NIST_COMPLETED) tid TIMEOUT_J w"

section \<open>The state machine\<close>

definition upd_nist :: "(osip_nist \<Rightarrow> osip_nist) \<Rightarrow> st \<Rightarrow> st option" where
  "upd_nist f s =
    do { c \<leftarrow> load (nist_context (tr s)); Some (s\<lparr>tr := (tr s)\<lparr>nist_context := Live (f c)\<rparr>\<rparr>) }"

definition nist_handle_transport_error :: "osip_config \<Rightarrow> int \<Rightarrow> st \<Rightarrow> st option" where
  "nist_handle_transport_error cf err s =
    do {
      s \<leftarrow> osip_transport_error_callback cf OSIP_NIST_TRANSPORT_ERROR err s;
      let s = osip_transaction_set_state NIST_TERMINATED s;
      osip_kill_transaction_callback cf OSIP_NIST_KILL_TRANSACTION s
    }"

definition nist_received_type :: "osip_message \<Rightarrow> osip_message_callback_type option" where
  "nist_received_type m =
    do {
      register \<leftarrow> MSG_IS ''REGISTER'' m;
      if register then Some OSIP_NIST_REGISTER_RECEIVED else do {
      bye \<leftarrow> MSG_IS ''BYE'' m;
      if bye then Some OSIP_NIST_BYE_RECEIVED else do {
      options \<leftarrow> MSG_IS ''OPTIONS'' m;
      if options then Some OSIP_NIST_OPTIONS_RECEIVED else do {
      info \<leftarrow> MSG_IS ''INFO'' m;
      if info then Some OSIP_NIST_INFO_RECEIVED else do {
      cancel \<leftarrow> MSG_IS ''CANCEL'' m;
      if cancel then Some OSIP_NIST_CANCEL_RECEIVED else do {
      notify \<leftarrow> MSG_IS ''NOTIFY'' m;
      if notify then Some OSIP_NIST_NOTIFY_RECEIVED else do {
      subscribe \<leftarrow> MSG_IS ''SUBSCRIBE'' m;
      Some (if subscribe then OSIP_NIST_SUBSCRIBE_RECEIVED else OSIP_NIST_UNKNOWN_REQUEST_RECEIVED)
      }}}}}}
    }"

definition nist_resent_type :: "osip_message \<Rightarrow> osip_message_callback_type" where
  "nist_resent_type m =
    (if MSG_IS_STATUS 1 m then OSIP_NIST_STATUS_1XX_SENT
     else if MSG_IS_STATUS 2 m then OSIP_NIST_STATUS_2XX_SENT_AGAIN
     else OSIP_NIST_STATUS_3456XX_SENT_AGAIN)"

definition nist_rcv_request :: "osip_config \<Rightarrow> osip_event \<Rightarrow> st \<Rightarrow> st option" where
  "nist_rcv_request cf evt s =
    (if state (tr s) = NIST_PRE_TRYING then do {
       let s = s\<lparr>tr := (tr s)\<lparr>orig_request := sip evt\<rparr>\<rparr>;
       m \<leftarrow> deref s (sip evt);
       ty \<leftarrow> nist_received_type m;
       s \<leftarrow> osip_message_callback cf ty (orig_request (tr s)) s;
       Some (osip_transaction_set_state NIST_TRYING s)
     } else do {
       s \<leftarrow> osip_message_free (sip evt) s;
       s \<leftarrow> osip_message_callback cf OSIP_NIST_REQUEST_RECEIVED_AGAIN (orig_request (tr s)) s;
       (if last_response (tr s) \<noteq> None then do {
          (i, s) \<leftarrow> osip_transaction_snd_xxx cf (last_response (tr s)) s;
          (if i \<noteq> 0 then nist_handle_transport_error cf i s
           else do {
             m \<leftarrow> deref s (last_response (tr s));
             osip_message_callback cf (nist_resent_type m) (last_response (tr s)) s
           })
        } else Some s)
     })"

definition nist_snd_1xx :: "osip_config \<Rightarrow> osip_event \<Rightarrow> st \<Rightarrow> st option" where
  "nist_snd_1xx cf evt s =
    do {
      s \<leftarrow> osip_message_free (last_response (tr s)) s;
      let s = s\<lparr>tr := (tr s)\<lparr>last_response := sip evt\<rparr>\<rparr>;
      (i, s) \<leftarrow> osip_transaction_snd_xxx cf (last_response (tr s)) s;
      (if i \<noteq> 0 then nist_handle_transport_error cf i s
       else do {
         s \<leftarrow> osip_message_callback cf OSIP_NIST_STATUS_1XX_SENT (last_response (tr s)) s;
         Some (osip_transaction_set_state NIST_PROCEEDING s)
       })
    }"

definition nist_final_type :: "osip_event \<Rightarrow> osip_message \<Rightarrow> osip_message_callback_type" where
  "nist_final_type evt m =
    (if type evt = SND_STATUS_2XX then OSIP_NIST_STATUS_2XX_SENT
     else if MSG_IS_STATUS 3 m then OSIP_NIST_STATUS_3XX_SENT
     else if MSG_IS_STATUS 4 m then OSIP_NIST_STATUS_4XX_SENT
     else if MSG_IS_STATUS 5 m then OSIP_NIST_STATUS_5XX_SENT
     else OSIP_NIST_STATUS_6XX_SENT)"

definition nist_snd_23456xx :: "osip_config \<Rightarrow> osip_event \<Rightarrow> st \<Rightarrow> st option" where
  "nist_snd_23456xx cf evt s =
    do {
      s \<leftarrow> osip_message_free (last_response (tr s)) s;
      let s = s\<lparr>tr := (tr s)\<lparr>last_response := sip evt\<rparr>\<rparr>;
      (i, s) \<leftarrow> osip_transaction_snd_xxx cf (last_response (tr s)) s;
      (if i \<noteq> 0 then nist_handle_transport_error cf i s
       else do {
         m \<leftarrow> deref s (last_response (tr s));
         s \<leftarrow> osip_message_callback cf (nist_final_type evt m) (last_response (tr s)) s;
         s \<leftarrow> (if state (tr s) \<noteq> NIST_COMPLETED then do {
                 c \<leftarrow> load (nist_context (tr s));
                 let (t, s) = time_in cf (timer_j_length c) s;
                 upd_nist (\<lambda>c. c\<lparr>timer_j_start := t\<rparr>) s
               } else Some s);
         Some (osip_transaction_set_state NIST_COMPLETED s)
       })
    }"

definition osip_nist_timeout_j_event :: "osip_config \<Rightarrow> osip_event \<Rightarrow> st \<Rightarrow> st option" where
  "osip_nist_timeout_j_event cf evt s =
    do {
      s \<leftarrow> upd_nist (\<lambda>c. c\<lparr>timer_j_length := -1, timer_j_start := timer_off (timer_j_start c)\<rparr>) s;
      let s = osip_transaction_set_state NIST_TERMINATED s;
      osip_kill_transaction_callback cf OSIP_NIST_KILL_TRANSACTION s
    }"

definition nist_transition :: "st handler transition list" where
  "nist_transition =
    [\<lparr>t_state = NIST_PRE_TRYING, t_type = RCV_REQUEST, t_method = nist_rcv_request\<rparr>,
     \<lparr>t_state = NIST_TRYING, t_type = SND_STATUS_1XX, t_method = nist_snd_1xx\<rparr>,
     \<lparr>t_state = NIST_TRYING, t_type = SND_STATUS_2XX, t_method = nist_snd_23456xx\<rparr>,
     \<lparr>t_state = NIST_TRYING, t_type = SND_STATUS_3456XX, t_method = nist_snd_23456xx\<rparr>,
     \<lparr>t_state = NIST_PROCEEDING, t_type = SND_STATUS_1XX, t_method = nist_snd_1xx\<rparr>,
     \<lparr>t_state = NIST_PROCEEDING, t_type = SND_STATUS_2XX, t_method = nist_snd_23456xx\<rparr>,
     \<lparr>t_state = NIST_PROCEEDING, t_type = SND_STATUS_3456XX, t_method = nist_snd_23456xx\<rparr>,
     \<lparr>t_state = NIST_PROCEEDING, t_type = RCV_REQUEST, t_method = nist_rcv_request\<rparr>,
     \<lparr>t_state = NIST_COMPLETED, t_type = TIMEOUT_J, t_method = osip_nist_timeout_j_event\<rparr>,
     \<lparr>t_state = NIST_COMPLETED, t_type = RCV_REQUEST, t_method = nist_rcv_request\<rparr>]"

lemmas [fsm_defs] =
  nist_handle_transport_error_def nist_rcv_request_def nist_snd_1xx_def nist_snd_23456xx_def
  osip_nist_timeout_j_event_def upd_nist_def

section \<open>The invariant of the machine\<close>

definition nist_ok :: "osip_transaction \<Rightarrow> bool" where
  "nist_ok t \<longleftrightarrow>
     state t \<in> {NIST_PRE_TRYING, NIST_TRYING, NIST_PROCEEDING, NIST_COMPLETED, NIST_TERMINATED}
     \<and> config t \<and> (\<exists>c. nist_context t = Live c) \<and> ack t = None
     \<and> (if state t = NIST_PRE_TRYING then orig_request t = None \<and> last_response t = None
        else orig_request t \<noteq> None)"

abbreviation nist_handled ::
  "state_t set \<Rightarrow> osip_config \<Rightarrow> osip_event \<Rightarrow> st \<Rightarrow> st option \<Rightarrow> bool" where
  "nist_handled \<equiv> handled nist_ok OSIP_NIST_KILL_TRANSACTION NIST_TERMINATED"

lemma nist_error_ok [simp]:
  "config (tr s) \<Longrightarrow> nist_handle_transport_error cf i s
    = Some (s\<lparr>tr := (tr s)\<lparr>state := NIST_TERMINATED, completed_time := systime cf (ticks s)\<rparr>,
        ticks := ticks s + 1,
        log := log s @ error_cb_log cf OSIP_NIST_TRANSPORT_ERROR i
          @ kill_cb_log cf OSIP_NIST_KILL_TRANSACTION\<rparr>)"
  by (simp add: nist_handle_transport_error_def osip_transaction_set_state_def)

lemma nist_received_type_ok: "method_ok m \<Longrightarrow> \<exists>ty. nist_received_type m = Some ty"
  by (simp add: nist_received_type_def)

lemma nist_rcv_request_first:
  assumes "mem_ok s" "nist_ok (tr s)" "evt_ok e s" "EVT_IS_MSG e" "state (tr s) = NIST_PRE_TRYING"
  shows "nist_handled {NIST_TRYING} cf e s (nist_rcv_request cf e s)"
proof -
  obtain a m where a: "sip e = Some a" "a \<notin> set (owned (tr s))" "msgs s a = Some m" "event_for e m"
    using evt_ok_msg [OF assms(3,4)] .
  obtain ty where ty: "nist_received_type m = Some ty"
    using nist_received_type_ok event_for_method_ok [OF a(4)] by blast
  have "orig_request (tr s) = None" using assms(2,5) by (simp add: nist_ok_def)
  note take_as_orig [OF assms(1) a(1-3) this]
  then show ?thesis
    using assms(2,5) a ty
    by (auto simp: nist_rcv_request_def osip_transaction_set_state_def nist_ok_def handled_Some)
qed

lemma nist_rcv_request_again:
  assumes "mem_ok s" "nist_ok (tr s)" "evt_ok e s" "EVT_IS_MSG e"
    "state (tr s) \<noteq> NIST_PRE_TRYING" "state (tr s) \<noteq> NIST_TERMINATED"
  shows "nist_handled {state (tr s), NIST_TERMINATED} cf e s (nist_rcv_request cf e s)"
proof -
  obtain a m where a: "sip e = Some a" "a \<notin> set (owned (tr s))" "msgs s a = Some m" "event_for e m"
    using evt_ok_msg [OF assms(3,4)] .
  obtain h where h: "osip_message_free (sip e) s = Some (s\<lparr>msgs := h\<rparr>)" "tidy e s (s\<lparr>msgs := h\<rparr>)"
      "heap_ok h (brk s) (mem s) (owned (tr s))"
    using take_and_free [OF assms(1) a(1-3)] .
  obtain oa where orig: "orig_request (tr s) = Some oa" "h oa \<noteq> None"
    using assms(2,5) owned_live(1) [OF h(3)] by (auto simp: nist_ok_def)
  show ?thesis
  proof (cases "last_response (tr s)")
    case None
    then show ?thesis
      using assms(2,5,6) h orig by (auto simp: nist_rcv_request_def nist_ok_def handled_Some)
  next
    case (Some b)
    then obtain mb where mb: "h b = Some mb" using owned_live(2) [OF h(3)] by auto
    then have "msg_ok mb" using heap_ok_msg_ok [OF h(3)] by simp
    then show ?thesis
      using assms(2,5,6) h orig Some mb
      by (auto simp: nist_rcv_request_def nist_ok_def handled_Some)
  qed
qed

lemma nist_snd_1xx_handled:
  assumes "mem_ok s" "nist_ok (tr s)" "evt_ok e s" "EVT_IS_MSG e"
    "state (tr s) \<in> {NIST_TRYING, NIST_PROCEEDING}"
  shows "nist_handled {NIST_PROCEEDING, NIST_TERMINATED} cf e s (nist_snd_1xx cf e s)"
proof -
  obtain a m where a: "sip e = Some a" "a \<notin> set (owned (tr s))" "msgs s a = Some m" "event_for e m"
    using evt_ok_msg [OF assms(3,4)] .
  obtain h where h: "osip_message_free (last_response (tr s)) s = Some (s\<lparr>msgs := h\<rparr>)"
    "heap_tidy e s h (brk s) (mem s) (owned3 (orig_request (tr s)) (Some a) (ack (tr s)))"
    "h a = Some m"
    using take_as_last_response [OF assms(1) a(1-3)] .
  show ?thesis
    using assms(2,5) a h heap_ok_msg_ok [OF assms(1) a(3)]
    by (auto simp: nist_snd_1xx_def osip_transaction_set_state_def nist_ok_def handled_Some)
qed

lemma nist_snd_23456xx_handled:
  assumes "mem_ok s" "nist_ok (tr s)" "evt_ok e s" "EVT_IS_MSG e"
    "state (tr s) \<in> {NIST_TRYING, NIST_PROCEEDING}"
  shows "nist_handled {NIST_COMPLETED, NIST_TERMINATED} cf e s (nist_snd_23456xx cf e s)"
proof -
  obtain a m where a: "sip e = Some a" "a \<notin> set (owned (tr s))" "msgs s a = Some m" "event_for e m"
    using evt_ok_msg [OF assms(3,4)] .
  obtain h where h: "osip_message_free (last_response (tr s)) s = Some (s\<lparr>msgs := h\<rparr>)"
    "heap_tidy e s h (brk s) (mem s) (owned3 (orig_request (tr s)) (Some a) (ack (tr s)))"
    "h a = Some m"
    using take_as_last_response [OF assms(1) a(1-3)] .
  show ?thesis
    using assms(2,5) a h heap_ok_msg_ok [OF assms(1) a(3)]
    by (auto simp: nist_snd_23456xx_def osip_transaction_set_state_def nist_ok_def handled_Some
        upd_nist_def time_in_def osip_gettimeofday_def Let_def)
qed

lemma osip_nist_timeout_j_event_handled:
  assumes "mem_ok s" "nist_ok (tr s)" "evt_ok e s" "\<not> EVT_IS_MSG e" "state (tr s) = NIST_COMPLETED"
  shows "nist_handled {NIST_TERMINATED} cf e s (osip_nist_timeout_j_event cf e s)"
  using assms(2,5) tidy_refl [OF assms(1) evt_ok_timeout [OF assms(3,4)]]
  by (auto simp: osip_nist_timeout_j_event_def osip_transaction_set_state_def nist_ok_def
      handled_Some upd_nist_def)

section \<open>The diagram of RFC 3261, 17.2.2\<close>

text \<open>
  Figure 8 of the RFC, with the first arrow of the figure as a transition from the state
  before it, and the transport error of every state that sends.
\<close>

inductive nist_diagram :: "state_t \<Rightarrow> type_t \<Rightarrow> state_t \<Rightarrow> bool" where
  "nist_diagram NIST_PRE_TRYING RCV_REQUEST NIST_TRYING"
| "st \<in> {NIST_TRYING, NIST_PROCEEDING} \<Longrightarrow> nist_diagram st SND_STATUS_1XX NIST_PROCEEDING"
| "st \<in> {NIST_TRYING, NIST_PROCEEDING} \<Longrightarrow> ty \<in> {SND_STATUS_2XX, SND_STATUS_3456XX}
    \<Longrightarrow> nist_diagram st ty NIST_COMPLETED"
| "st \<in> {NIST_PROCEEDING, NIST_COMPLETED} \<Longrightarrow> nist_diagram st RCV_REQUEST st"
| "nist_diagram NIST_COMPLETED TIMEOUT_J NIST_TERMINATED"
| "st \<in> {NIST_TRYING, NIST_PROCEEDING} \<Longrightarrow> ty \<in> {SND_STATUS_1XX, SND_STATUS_2XX, SND_STATUS_3456XX}
    \<Longrightarrow> nist_diagram st ty NIST_TERMINATED"
| "st \<in> {NIST_PROCEEDING, NIST_COMPLETED} \<Longrightarrow> nist_diagram st RCV_REQUEST NIST_TERMINATED"

code_pred nist_diagram .

inductive_simps nist_diagram_simps: "nist_diagram st ty st'"

text \<open>The table has a method exactly where the diagram has an arrow.\<close>

lemma nist_table_diagram:
  "fsm_findmethod ty st nist_transition \<noteq> None \<longleftrightarrow> (\<exists>st'. nist_diagram st ty st')"
  by (cases st; cases ty) (simp_all add: fsm_findmethod_def nist_transition_def nist_diagram_simps ex_disj_distrib)

lemma nist_method_handled:
  assumes "mem_ok s" "nist_ok (tr s)" "evt_ok e s"
    "fsm_findmethod (type e) (state (tr s)) nist_transition = Some t"
  shows "nist_handled {st. nist_diagram (state (tr s)) (type e) st} cf e s (t_method t cf e s)"
proof -
  have msg: "EVT_IS_MSG e \<longleftrightarrow> type e \<noteq> TIMEOUT_J"
    and "(state (tr s), type e, t_method t) \<in> (\<lambda>t. (t_state t, t_type t, t_method t)) ` set nist_transition"
    using assms(4) by (auto simp: fsm_findmethod_def nist_transition_def evt_kind_defs split: if_splits)
  then consider
    "state (tr s) = NIST_PRE_TRYING" "type e = RCV_REQUEST" "t_method t = nist_rcv_request"
  | "state (tr s) \<in> {NIST_PROCEEDING, NIST_COMPLETED}" "type e = RCV_REQUEST" "t_method t = nist_rcv_request"
  | "state (tr s) \<in> {NIST_TRYING, NIST_PROCEEDING}" "type e = SND_STATUS_1XX" "t_method t = nist_snd_1xx"
  | "state (tr s) \<in> {NIST_TRYING, NIST_PROCEEDING}" "type e \<in> {SND_STATUS_2XX, SND_STATUS_3456XX}"
      "t_method t = nist_snd_23456xx"
  | "state (tr s) = NIST_COMPLETED" "type e = TIMEOUT_J" "t_method t = osip_nist_timeout_j_event"
    by (auto simp: nist_transition_def)
  then show ?thesis
  proof cases
    case 1
    with nist_rcv_request_first [OF assms(1-3), of cf] msg show ?thesis
      by (auto intro: nist_diagram.intros elim: handled_mono)
  next
    case 2
    with nist_rcv_request_again [OF assms(1-3), of cf] msg show ?thesis
      by (auto simp: nist_diagram_simps elim: handled_mono)
  next
    case 3
    with nist_snd_1xx_handled [OF assms(1-3), of cf] msg show ?thesis
      by (auto simp: nist_diagram_simps elim: handled_mono)
  next
    case 4
    with nist_snd_23456xx_handled [OF assms(1-3), of cf] msg show ?thesis
      by (auto simp: nist_diagram_simps elim: handled_mono)
  next
    case 5
    with osip_nist_timeout_j_event_handled [OF assms(1-3), of cf] msg show ?thesis
      by (auto simp: nist_diagram_simps elim: handled_mono)
  qed
qed

interpretation nist_fsm: fsm nist_transition nist_ok nist_diagram NIST_TERMINATED OSIP_NIST_KILL_TRANSACTION
  by unfold_locales
    (use nist_table_diagram nist_method_handled in \<open>auto simp: nist_diagram_simps\<close>)

end
