(* ===== verification/Osip_Transaction.thy ===== *)
theory Osip_Transaction
  imports Ict Ist Nict Nist
begin

text \<open>
  \<^verbatim>\<open>osip_transaction.c\<close> on one transaction: the headers it keeps of its request, its queue of
  events, the dispatch of an event to the state machine of its kind, the destination, the
  attached pointers, and the matching of messages to transactions of RFC 3261, 17.1.3 and
  17.2.3. What involves the lists of the stack is in \<^verbatim>\<open>Osip_Stack\<close>.
\<close>

section \<open>The headers of the request\<close>

definition osip_transaction_set_topvia ::
  "osip_transaction option \<Rightarrow> osip_via option \<Rightarrow> mem \<Rightarrow> (int \<times> osip_transaction option) \<times> mem" where
  "osip_transaction_set_topvia transaction via m =
    (case transaction of None \<Rightarrow> ((OSIP_BADPARAMETER, None), m)
     | Some t \<Rightarrow>
         (case osip_via_clone via m of ((i, v), m) \<Rightarrow>
            if i = 0 then ((OSIP_SUCCESS, Some (t\<lparr>topvia := v\<rparr>)), m)
            else ((i, Some (t\<lparr>topvia := None\<rparr>)), m)))"

definition osip_transaction_set_from ::
  "osip_transaction option \<Rightarrow> osip_from option \<Rightarrow> mem \<Rightarrow> (int \<times> osip_transaction option) \<times> mem" where
  "osip_transaction_set_from transaction from m =
    (case transaction of None \<Rightarrow> ((OSIP_BADPARAMETER, None), m)
     | Some t \<Rightarrow>
         (case osip_from_clone from m of ((i, f), m) \<Rightarrow>
            if i = 0 then ((OSIP_SUCCESS, Some (t\<lparr>tr_from := f\<rparr>)), m)
            else ((i, Some (t\<lparr>tr_from := None\<rparr>)), m)))"

definition osip_transaction_set_to ::
  "osip_transaction option \<Rightarrow> osip_to option \<Rightarrow> mem \<Rightarrow> (int \<times> osip_transaction option) \<times> mem" where
  "osip_transaction_set_to transaction to m =
    (case transaction of None \<Rightarrow> ((OSIP_BADPARAMETER, None), m)
     | Some t \<Rightarrow>
         (case osip_to_clone to m of ((i, f), m) \<Rightarrow>
            if i = 0 then ((OSIP_SUCCESS, Some (t\<lparr>tr_to := f\<rparr>)), m)
            else ((i, Some (t\<lparr>tr_to := None\<rparr>)), m)))"

definition osip_transaction_set_call_id ::
  "osip_transaction option \<Rightarrow> osip_call_id option \<Rightarrow> mem \<Rightarrow> (int \<times> osip_transaction option) \<times> mem" where
  "osip_transaction_set_call_id transaction cid m =
    (case transaction of None \<Rightarrow> ((OSIP_BADPARAMETER, None), m)
     | Some t \<Rightarrow>
         (case osip_call_id_clone cid m of ((i, c), m) \<Rightarrow>
            if i = 0 then ((OSIP_SUCCESS, Some (t\<lparr>callid := c\<rparr>)), m)
            else ((i, Some (t\<lparr>callid := None\<rparr>)), m)))"

definition osip_transaction_set_cseq ::
  "osip_transaction option \<Rightarrow> osip_cseq option \<Rightarrow> mem \<Rightarrow> (int \<times> osip_transaction option) \<times> mem" where
  "osip_transaction_set_cseq transaction cs m =
    (case transaction of None \<Rightarrow> ((OSIP_BADPARAMETER, None), m)
     | Some t \<Rightarrow>
         (case osip_cseq_clone cs m of ((i, c), m) \<Rightarrow>
            if i = 0 then ((OSIP_SUCCESS, Some (t\<lparr>tr_cseq := c\<rparr>)), m)
            else ((i, Some (t\<lparr>tr_cseq := None\<rparr>)), m)))"

section \<open>Events\<close>

text \<open>The event keeps its own transaction id on an error.\<close>

definition osip_transaction_add_event ::
  "osip_transaction option \<Rightarrow> osip_event option \<Rightarrow> mem
    \<Rightarrow> ((int \<times> osip_transaction option) \<times> mem) option" where
  "osip_transaction_add_event transaction evt m =
    (case evt of None \<Rightarrow> Some ((OSIP_BADPARAMETER, transaction), m)
     | Some e \<Rightarrow>
       (case transaction of None \<Rightarrow> Some ((OSIP_BADPARAMETER, None), m)
        | Some t \<Rightarrow> do {
            let e = e\<lparr>ev_transactionid := transactionid t\<rparr>;
            ff \<leftarrow> transactionff t;
            (case osip_fifo_add ff e m of ((i, ff), m) \<Rightarrow>
               Some ((OSIP_SUCCESS, Some (t\<lparr>transactionff := Some ff\<rparr>)), m))
          }))"

definition statemachine_of :: "osip_fsm_type_t \<Rightarrow> st handler transition list" where
  "statemachine_of ty =
    (if ty = ICT then ict_transition else if ty = IST then ist_transition
     else if ty = NICT then nict_transition else nist_transition)"

definition osip_transaction_execute :: "osip_config \<Rightarrow> osip_event \<Rightarrow> st \<Rightarrow> (int \<times> st) option" where
  "osip_transaction_execute cf evt s =
    (if EVT_IS_KILL_TRANSACTION evt then Some (OSIP_SUCCESS, s)
     else do {
       (i, s) \<leftarrow> fsm_callmethod cf (type evt) (state (tr s)) (statemachine_of (ctx_type (tr s))) evt s;
       s \<leftarrow> free_useless i evt s;
       Some (1, s)
     })"

section \<open>Attributes\<close>

definition osip_transaction_get_destination ::
  "osip_transaction option \<Rightarrow> (int \<times> cstr \<times> int) option" where
  "osip_transaction_get_destination transaction =
    (case transaction of None \<Rightarrow> Some (OSIP_BADPARAMETER, None, 0)
     | Some t \<Rightarrow>
         if ict_context t \<noteq> Null then do {
           c \<leftarrow> load (ict_context t); Some (OSIP_SUCCESS, ict_destination c, ict_port c) }
         else if nict_context t \<noteq> Null then do {
           c \<leftarrow> load (nict_context t); Some (OSIP_SUCCESS, nict_destination c, nict_port c) }
         else Some (OSIP_UNDEFINED_ERROR, None, 0))"

definition set_attr ::
  "(osip_transaction \<Rightarrow> osip_transaction) \<Rightarrow> osip_transaction option \<Rightarrow> int \<times> osip_transaction option" where
  "set_attr f transaction =
    (case transaction of None \<Rightarrow> (OSIP_BADPARAMETER, None) | Some t \<Rightarrow> (OSIP_SUCCESS, Some (f t)))"

definition get_attr ::
  "(osip_transaction \<Rightarrow> nat option) \<Rightarrow> osip_transaction option \<Rightarrow> nat option" where
  "get_attr f transaction = (case transaction of None \<Rightarrow> None | Some t \<Rightarrow> f t)"

definition osip_transaction_set_srv_record ::
  "osip_transaction option \<Rightarrow> osip_srv_record \<Rightarrow> int \<times> osip_transaction option" where
  "osip_transaction_set_srv_record t rec = set_attr (\<lambda>t. t\<lparr>srv_record := Some rec\<rparr>) t"

definition osip_transaction_set_naptr_record ::
  "osip_transaction option \<Rightarrow> nat option \<Rightarrow> int \<times> osip_transaction option" where
  "osip_transaction_set_naptr_record t rec = set_attr (\<lambda>t. t\<lparr>naptr_record := rec\<rparr>) t"

definition osip_transaction_set_your_instance ::
  "osip_transaction option \<Rightarrow> nat option \<Rightarrow> int \<times> osip_transaction option" where
  "osip_transaction_set_your_instance t p = set_attr (\<lambda>t. t\<lparr>reserved1 := p\<rparr>) t"

definition osip_transaction_set_reserved1 ::
  "osip_transaction option \<Rightarrow> nat option \<Rightarrow> int \<times> osip_transaction option" where
  "osip_transaction_set_reserved1 t p = set_attr (\<lambda>t. t\<lparr>reserved1 := p\<rparr>) t"

definition osip_transaction_set_reserved2 ::
  "osip_transaction option \<Rightarrow> nat option \<Rightarrow> int \<times> osip_transaction option" where
  "osip_transaction_set_reserved2 t p = set_attr (\<lambda>t. t\<lparr>reserved2 := p\<rparr>) t"

definition osip_transaction_set_reserved3 ::
  "osip_transaction option \<Rightarrow> nat option \<Rightarrow> int \<times> osip_transaction option" where
  "osip_transaction_set_reserved3 t p = set_attr (\<lambda>t. t\<lparr>reserved3 := p\<rparr>) t"

definition osip_transaction_set_reserved4 ::
  "osip_transaction option \<Rightarrow> nat option \<Rightarrow> int \<times> osip_transaction option" where
  "osip_transaction_set_reserved4 t p = set_attr (\<lambda>t. t\<lparr>reserved4 := p\<rparr>) t"

definition osip_transaction_set_reserved5 ::
  "osip_transaction option \<Rightarrow> nat option \<Rightarrow> int \<times> osip_transaction option" where
  "osip_transaction_set_reserved5 t p = set_attr (\<lambda>t. t\<lparr>reserved5 := p\<rparr>) t"

definition osip_transaction_set_reserved6 ::
  "osip_transaction option \<Rightarrow> nat option \<Rightarrow> int \<times> osip_transaction option" where
  "osip_transaction_set_reserved6 t p = set_attr (\<lambda>t. t\<lparr>reserved6 := p\<rparr>) t"

definition osip_transaction_get_your_instance ::
  "osip_transaction option \<Rightarrow> nat option" where
  "osip_transaction_get_your_instance t = get_attr reserved1 t"

definition osip_transaction_get_reserved1 ::
  "osip_transaction option \<Rightarrow> nat option" where
  "osip_transaction_get_reserved1 t = get_attr reserved1 t"

definition osip_transaction_get_reserved2 ::
  "osip_transaction option \<Rightarrow> nat option" where
  "osip_transaction_get_reserved2 t = get_attr reserved2 t"

definition osip_transaction_get_reserved3 ::
  "osip_transaction option \<Rightarrow> nat option" where
  "osip_transaction_get_reserved3 t = get_attr reserved3 t"

definition osip_transaction_get_reserved4 ::
  "osip_transaction option \<Rightarrow> nat option" where
  "osip_transaction_get_reserved4 t = get_attr reserved4 t"

definition osip_transaction_get_reserved5 ::
  "osip_transaction option \<Rightarrow> nat option" where
  "osip_transaction_get_reserved5 t = get_attr reserved5 t"

definition osip_transaction_get_reserved6 ::
  "osip_transaction option \<Rightarrow> nat option" where
  "osip_transaction_get_reserved6 t = get_attr reserved6 t"

definition osip_transaction_set_in_socket ::
  "osip_transaction option \<Rightarrow> int \<Rightarrow> int \<times> osip_transaction option" where
  "osip_transaction_set_in_socket t sock = set_attr (\<lambda>t. t\<lparr>in_socket := sock\<rparr>) t"

definition osip_transaction_set_out_socket ::
  "osip_transaction option \<Rightarrow> int \<Rightarrow> int \<times> osip_transaction option" where
  "osip_transaction_set_out_socket t sock = set_attr (\<lambda>t. t\<lparr>out_socket := sock\<rparr>) t"


section \<open>Matching\<close>

definition matching_response_osip_to_xict_17_1_3 ::
  "osip_transaction option \<Rightarrow> osip_message option \<Rightarrow> int option" where
  "matching_response_osip_to_xict_17_1_3 trn response =
    (case (trn, response) of
       (Some t, Some r) \<Rightarrow>
         if ict_context t = Null \<and> nict_context t = Null then Some OSIP_BADPARAMETER
         else (case (case cseq r of None \<Rightarrow> None | Some c \<Rightarrow> cseq_method c) of
           None \<Rightarrow> Some OSIP_BADPARAMETER
         | Some response_method \<Rightarrow>
           (case l_get (vias r) 0 of
              None \<Rightarrow> Some OSIP_SYNTAXERROR
            | Some topvia_response \<Rightarrow> do {
                via \<leftarrow> topvia t;
                b_request \<leftarrow> param_byname (via_params via) ''branch'';
                if b_request = None then Some OSIP_SYNTAXERROR
                else do {
                  b_response \<leftarrow> param_byname (via_params topvia_response) ''branch'';
                  (case (value_of b_request, value_of b_response) of
                     (Some v1, Some v2) \<Rightarrow>
                       if v1 \<noteq> v2 then Some OSIP_UNDEFINED_ERROR
                       else do {
                         c \<leftarrow> tr_cseq t;
                         request_method \<leftarrow> cseq_method c;
                         Some (if response_method = request_method then OSIP_SUCCESS
                               else OSIP_UNDEFINED_ERROR)
                       }
                   | _ \<Rightarrow> Some OSIP_SYNTAXERROR)
                }
              }))
     | _ \<Rightarrow> Some OSIP_BADPARAMETER)"

definition magic_cookie :: string where
  "magic_cookie = ''z9hG4bK''"

text \<open>Whether the sent-by values differ: the hosts, and the ports with 5060 for a missing one.\<close>

definition sent_by_differs :: "osip_via option \<Rightarrow> osip_via option \<Rightarrow> bool" where
  "sent_by_differs topvia_request topvia_orig =
    (let b_port = via_get_port topvia_request; b_origport = via_get_port topvia_orig;
         b_host = via_get_host topvia_request; b_orighost = via_get_host topvia_orig
     in b_host = None \<or> b_orighost = None \<or> b_orighost \<noteq> b_host
        \<or> (b_port \<noteq> None \<and> b_origport = None \<and> b_port \<noteq> Some ''5060'')
        \<or> (b_origport \<noteq> None \<and> b_port = None \<and> b_origport \<noteq> Some ''5060'')
        \<or> (b_origport \<noteq> None \<and> b_port \<noteq> None \<and> b_origport \<noteq> b_port))"

text \<open>Both branches have the cookie: RFC 3261.\<close>

definition match_request_3261 ::
  "osip_transaction \<Rightarrow> osip_via \<Rightarrow> string \<Rightarrow> string \<Rightarrow> string \<Rightarrow> int option" where
  "match_request_3261 t topvia_request orig_branch branch request_method =
    (if orig_branch \<noteq> branch then Some OSIP_UNDEFINED_ERROR
     else if sent_by_differs (Some topvia_request) (topvia t) then Some OSIP_UNDEFINED_ERROR
     else do {
       c \<leftarrow> tr_cseq t;
       orig_method \<leftarrow> cseq_method c;
       Some (if \<not> (orig_method = ''INVITE'' \<and> request_method = ''ACK'') \<and> orig_method \<noteq> request_method
             then OSIP_UNDEFINED_ERROR else OSIP_SUCCESS)
     })"

text \<open>
  The old mechanism: Call-ID, tags, CSeq and the whole Via. The To of an ACK may have a tag
  the INVITE did not have.
\<close>

definition to_differs_2543 :: "(nat \<rightharpoonup> osip_message) \<Rightarrow> osip_transaction \<Rightarrow> osip_message \<Rightarrow> bool option" where
  "to_differs_2543 h t r =
    do {
      is_ack \<leftarrow> MSG_IS ''ACK'' r;
      (if is_ack then do {
         to1 \<leftarrow> tr_to t;
         to2 \<leftarrow> msg_to r;
         tag1 \<leftarrow> param_byname (gen_params to1) ''tag'';
         tag2 \<leftarrow> param_byname (gen_params to2) ''tag'';
         (if tag1 = None \<and> tag2 \<noteq> None then Some False
          else if tag1 \<noteq> None \<and> tag2 = None then Some True
          else do { i \<leftarrow> osip_to_tag_match (tr_to t) (msg_to r); Some (i \<noteq> 0) })
       }
       else (case orig_request t of
           None \<Rightarrow> Some True
         | Some a \<Rightarrow> do {
             orig \<leftarrow> h a;
             if msg_to orig = None then Some True
             else do { i \<leftarrow> osip_to_tag_match (msg_to orig) (msg_to r); Some (i \<noteq> 0) }
           }))
    }"

definition match_request_2543 ::
  "(nat \<rightharpoonup> osip_message) \<Rightarrow> osip_transaction \<Rightarrow> osip_message \<Rightarrow> osip_via \<Rightarrow> mem \<Rightarrow> (int \<times> mem) option" where
  "match_request_2543 h t r topvia_request m =
    (if osip_call_id_match (callid t) (call_id r) \<noteq> 0 then Some (OSIP_UNDEFINED_ERROR, m)
     else do {
       to_differs \<leftarrow> to_differs_2543 h t r;
       if to_differs then Some (OSIP_UNDEFINED_ERROR, m)
       else do {
         i \<leftarrow> osip_from_tag_match (tr_from t) (msg_from r);
         if i \<noteq> 0 then Some (OSIP_UNDEFINED_ERROR, m)
         else if osip_cseq_match (tr_cseq t) (cseq r) \<noteq> 0 then Some (OSIP_UNDEFINED_ERROR, m)
         else do {
           (i, m) \<leftarrow> osip_via_match (topvia t) (Some topvia_request) m;
           Some (if i \<noteq> 0 then OSIP_UNDEFINED_ERROR else OSIP_SUCCESS, m)
         }
       }
     })"

definition matching_request_osip_to_xist_17_2_3 ::
  "(nat \<rightharpoonup> osip_message) \<Rightarrow> osip_transaction option \<Rightarrow> osip_message option \<Rightarrow> mem \<Rightarrow> (int \<times> mem) option" where
  "matching_request_osip_to_xist_17_2_3 h trn request m =
    (case (trn, request) of
       (Some t, Some r) \<Rightarrow>
         if ist_context t = Null \<and> nist_context t = Null then Some (OSIP_BADPARAMETER, m)
         else (case (case cseq r of None \<Rightarrow> None | Some c \<Rightarrow> cseq_method c) of
           None \<Rightarrow> Some (OSIP_BADPARAMETER, m)
         | Some request_method \<Rightarrow>
           (case l_get (vias r) 0 of
              None \<Rightarrow> Some (OSIP_SYNTAXERROR, m)
            | Some topvia_request \<Rightarrow> do {
                b_request \<leftarrow> param_byname (via_params topvia_request) ''branch'';
                via \<leftarrow> topvia t;
                b_origrequest \<leftarrow> param_byname (via_params via) ''branch'';
                (case (b_origrequest, b_request) of
                   (None, Some _) \<Rightarrow> Some (OSIP_SYNTAXERROR, m)
                 | (Some _, None) \<Rightarrow> Some (OSIP_SYNTAXERROR, m)
                 | (None, None) \<Rightarrow> match_request_2543 h t r topvia_request m
                 | (Some b1, Some b2) \<Rightarrow>
                     (case (gvalue b1, gvalue b2) of
                        (Some v1, Some v2) \<Rightarrow>
                          if length v1 \<noteq> length v2 then Some (OSIP_UNDEFINED_ERROR, m)
                          else if take 7 v1 = magic_cookie \<and> take 7 v2 = magic_cookie then do {
                            i \<leftarrow> match_request_3261 t topvia_request v1 v2 request_method;
                            Some (i, m)
                          }
                          else match_request_2543 h t r topvia_request m
                      | _ \<Rightarrow> Some (OSIP_UNDEFINED_ERROR, m)))
              }))
     | _ \<Rightarrow> Some (OSIP_BADPARAMETER, m))"

section \<open>Executing an event\<close>

text \<open>The four machines as one: the invariant, the diagram, the final state and the callback.\<close>

definition tr_ok :: "osip_transaction \<Rightarrow> bool" where
  "tr_ok t = (case ctx_type t of ICT \<Rightarrow> ict_ok t | IST \<Rightarrow> ist_ok t | NICT \<Rightarrow> nict_ok t | NIST \<Rightarrow> nist_ok t)"

definition rfc3261_diagram :: "osip_fsm_type_t \<Rightarrow> state_t \<Rightarrow> type_t \<Rightarrow> state_t \<Rightarrow> bool" where
  "rfc3261_diagram c =
    (case c of ICT \<Rightarrow> ict_diagram | IST \<Rightarrow> ist_diagram | NICT \<Rightarrow> nict_diagram | NIST \<Rightarrow> nist_diagram)"

definition initial_state :: "osip_fsm_type_t \<Rightarrow> state_t" where
  "initial_state c = (case c of ICT \<Rightarrow> ICT_PRE_CALLING | IST \<Rightarrow> IST_PRE_PROCEEDING
     | NICT \<Rightarrow> NICT_PRE_TRYING | NIST \<Rightarrow> NIST_PRE_TRYING)"

definition final_state :: "osip_fsm_type_t \<Rightarrow> state_t" where
  "final_state c = (case c of ICT \<Rightarrow> ICT_TERMINATED | IST \<Rightarrow> IST_TERMINATED
     | NICT \<Rightarrow> NICT_TERMINATED | NIST \<Rightarrow> NIST_TERMINATED)"

definition kill_type :: "osip_fsm_type_t \<Rightarrow> osip_kill_callback_type" where
  "kill_type c = (case c of ICT \<Rightarrow> OSIP_ICT_KILL_TRANSACTION | IST \<Rightarrow> OSIP_IST_KILL_TRANSACTION
     | NICT \<Rightarrow> OSIP_NICT_KILL_TRANSACTION | NIST \<Rightarrow> OSIP_NIST_KILL_TRANSACTION)"

lemmas machine_defs = tr_ok_def rfc3261_diagram_def final_state_def initial_state_def kill_type_def
  statemachine_of_def

definition executes :: "osip_config \<Rightarrow> osip_event \<Rightarrow> st \<Rightarrow> st \<Rightarrow> bool" where
  "executes cf e s s' \<longleftrightarrow>
     executed tr_ok (rfc3261_diagram (ctx_type (tr s))) (final_state (ctx_type (tr s)))
       (kill_type (ctx_type (tr s))) cf e s s'"

lemma same_call_ctx_type: "same_call t t' \<Longrightarrow> ctx_type t' = ctx_type t"
  by (simp add: same_call_def)

lemma machine_simps:
  "statemachine_of ICT = ict_transition" "statemachine_of IST = ist_transition"
  "statemachine_of NICT = nict_transition" "statemachine_of NIST = nist_transition"
  by (simp_all add: statemachine_of_def)

lemma executed_mono:
  "executed I d x k cf e s s' \<Longrightarrow> (\<And>t. same_call (tr s) t \<Longrightarrow> I t \<Longrightarrow> J t) \<Longrightarrow> executed J d x k cf e s s'"
  by (simp add: executed_def)

lemma executes_as:
  "ctx_type (tr s) = ICT \<Longrightarrow>
     executed ict_ok ict_diagram ICT_TERMINATED OSIP_ICT_KILL_TRANSACTION cf e s s' \<Longrightarrow> executes cf e s s'"
  "ctx_type (tr s) = IST \<Longrightarrow>
     executed ist_ok ist_diagram IST_TERMINATED OSIP_IST_KILL_TRANSACTION cf e s s' \<Longrightarrow> executes cf e s s'"
  "ctx_type (tr s) = NICT \<Longrightarrow>
     executed nict_ok nict_diagram NICT_TERMINATED OSIP_NICT_KILL_TRANSACTION cf e s s' \<Longrightarrow> executes cf e s s'"
  "ctx_type (tr s) = NIST \<Longrightarrow>
     executed nist_ok nist_diagram NIST_TERMINATED OSIP_NIST_KILL_TRANSACTION cf e s s' \<Longrightarrow> executes cf e s s'"
  unfolding executes_def
  by (simp_all add: rfc3261_diagram_def final_state_def kill_type_def,
      (erule executed_mono, simp add: tr_ok_def same_call_def)+)

lemma osip_transaction_execute_ok:
  assumes "mem_ok s" "tr_ok (tr s)" "evt_ok e s" "type e \<noteq> KILL_TRANSACTION"
  shows "\<exists>s'. osip_transaction_execute cf e s = Some (1, s') \<and> executes cf e s s'"
proof -
  let ?c = "ctx_type (tr s)"
  have run: "osip_transaction_execute cf e s
      = map_option (Pair 1)
          (do { (i, s) \<leftarrow> fsm_callmethod cf (type e) (state (tr s)) (statemachine_of ?c) e s;
                free_useless i e s })"
    using assms(4)
    by (simp add: osip_transaction_execute_def EVT_IS_KILL_TRANSACTION_def map_option_case
        split: Option.bind_splits)
  have "\<exists>s'. do { (i, s) \<leftarrow> fsm_callmethod cf (type e) (state (tr s)) (statemachine_of ?c) e s;
                  free_useless i e s } = Some s' \<and> executes cf e s s'"
  proof (cases ?c)
    case ICT
    then have "ict_ok (tr s)" using assms(2) by (simp add: tr_ok_def)
    from ict_fsm.dispatch [OF assms(1) this assms(3), of cf] show ?thesis
      using executes_as(1) [OF ICT] unfolding ICT machine_simps by blast
  next
    case IST
    then have "ist_ok (tr s)" using assms(2) by (simp add: tr_ok_def)
    from ist_fsm.dispatch [OF assms(1) this assms(3), of cf] show ?thesis
      using executes_as(2) [OF IST] unfolding IST machine_simps by blast
  next
    case NICT
    then have "nict_ok (tr s)" using assms(2) by (simp add: tr_ok_def)
    from nict_fsm.dispatch [OF assms(1) this assms(3), of cf] show ?thesis
      using executes_as(3) [OF NICT] unfolding NICT machine_simps by blast
  next
    case NIST
    then have "nist_ok (tr s)" using assms(2) by (simp add: tr_ok_def)
    from nist_fsm.dispatch [OF assms(1) this assms(3), of cf] show ?thesis
      using executes_as(4) [OF NIST] unfolding NIST machine_simps by blast
  qed
  then show ?thesis unfolding run by auto
qed

lemma final_no_step: "\<not> rfc3261_diagram c (final_state c) ty st"
  by (cases c)
    (simp_all add: machine_defs ict_diagram_simps ist_diagram_simps nict_diagram_simps nist_diagram_simps)

section \<open>Sequences of events\<close>

text \<open>
  What happens to a transaction: an event is executed, or outside code brings a new message
  into the heap. The invariants hold on every such path.
\<close>

inductive tr_path :: "osip_config \<Rightarrow> st \<Rightarrow> st \<Rightarrow> bool" for cf where
  tr_path_refl: "tr_path cf s s"
| tr_path_execute: "tr_path cf s s' \<Longrightarrow> type e \<noteq> KILL_TRANSACTION \<Longrightarrow> evt_ok e s'
    \<Longrightarrow> osip_transaction_execute cf e s' = Some (i, s'') \<Longrightarrow> tr_path cf s s''"
| tr_path_arrive: "tr_path cf s s' \<Longrightarrow> msg_ok m
    \<Longrightarrow> tr_path cf s (s'\<lparr>msgs := (msgs s')(brk s' \<mapsto> m), brk := brk s' + 1\<rparr>)"

lemma executes_invariant:
  assumes "executes cf e s s'"
  shows "mem_ok s'" "tr_ok (tr s')" "same_call (tr s) (tr s')" "ctx_type (tr s') = ctx_type (tr s)"
  using assms by (simp_all add: executes_def executed_def heap_tidy_def same_call_def)

lemma arrive_mem_ok:
  assumes "mem_ok s" "msg_ok m"
  shows "mem_ok (s\<lparr>msgs := (msgs s)(brk s \<mapsto> m), brk := brk s + 1\<rparr>)"
proof -
  have "\<forall>a \<in> dom ((msgs s)(brk s \<mapsto> m)). a < brk s + 1"
    using assms(1) by (auto simp: heap_ok_def less_Suc_eq)
  moreover have "set (owned (tr s)) \<subseteq> dom ((msgs s)(brk s \<mapsto> m))"
    using assms(1) by (auto simp: heap_ok_def)
  ultimately show ?thesis using assms by (simp add: heap_ok_def)
qed

text \<open>How many kill callbacks a transaction owes in a state.\<close>

definition kills_due :: "osip_config \<Rightarrow> osip_transaction \<Rightarrow> nat" where
  "kills_due cf t =
    (if state t = final_state (ctx_type t) \<and> kill_callbacks cf (kill_type (ctx_type t)) then 1 else 0)"

lemma executes_kills:
  assumes "executes cf e s s'"
  shows "kills (log s') + kills_due cf (tr s) = kills (log s) + kills_due cf (tr s')"
proof -
  have "kills (log s') = kills (log s)
    + (if state (tr s) \<noteq> final_state (ctx_type (tr s)) \<and> state (tr s') = final_state (ctx_type (tr s))
        \<and> kill_callbacks cf (kill_type (ctx_type (tr s))) then 1 else 0)"
    "state (tr s) = final_state (ctx_type (tr s)) \<Longrightarrow> state (tr s') = state (tr s)"
    using assms final_no_step [of "ctx_type (tr s)"] by (auto simp: executes_def executed_def)
  then show ?thesis
    using executes_invariant(4) [OF assms] by (auto simp: kills_due_def)
qed

lemma tr_path_invariant:
  assumes "tr_path cf s s'" "mem_ok s" "tr_ok (tr s)"
  shows "mem_ok s' \<and> tr_ok (tr s') \<and> same_call (tr s) (tr s')
    \<and> kills (log s') + kills_due cf (tr s) = kills (log s) + kills_due cf (tr s')"
  using assms
proof induction
  case (tr_path_refl s)
  then show ?case by simp
next
  case (tr_path_execute s s' e i s'')
  then have s': "mem_ok s'" "tr_ok (tr s')" "same_call (tr s) (tr s')"
    "kills (log s') + kills_due cf (tr s) = kills (log s) + kills_due cf (tr s')" by blast+
  have ex: "executes cf e s' s''"
    using osip_transaction_execute_ok [OF s'(1,2) tr_path_execute.hyps(3,2), of cf]
      tr_path_execute.hyps(4) by auto
  show ?case
    using executes_invariant [OF ex] executes_kills [OF ex] s'(3,4) same_call_trans by auto
next
  case (tr_path_arrive s s' m)
  then have s': "mem_ok s'" "tr_ok (tr s')" "same_call (tr s) (tr s')"
    "kills (log s') + kills_due cf (tr s) = kills (log s) + kills_due cf (tr s')" by blast+
  show ?case using arrive_mem_ok [OF s'(1) tr_path_arrive.hyps(2)] s'(2-4) by (simp del: fun_upd_apply)
qed

section \<open>What matches what\<close>

text \<open>The branch of a Via, and the sent-by value with the default port filled in.\<close>

definition branch_of :: "osip_via \<Rightarrow> cstr" where
  "branch_of v = value_of (List.find (has_name ''branch'') (via_params v))"

definition sent_by :: "osip_via \<Rightarrow> cstr \<times> string" where
  "sent_by v = (via_host v, case via_port v of None \<Rightarrow> ''5060'' | Some p \<Rightarrow> p)"

lemma sent_by_differs_iff:
  "sent_by_differs (Some w) (Some v) \<longleftrightarrow> via_host v = None \<or> sent_by v \<noteq> sent_by w"
  by (auto simp: sent_by_differs_def sent_by_def via_get_port_def via_get_host_def Let_def
      split: option.split)

text \<open>What the library keeps of a request is what it needs to match.\<close>

definition call_ok :: "osip_transaction \<Rightarrow> bool" where
  "call_ok t \<longleftrightarrow> (\<exists>v c m. topvia t = Some v \<and> named (via_params v) \<and> tr_cseq t = Some c \<and> cseq_method c = Some m)
     \<and> tr_to t \<noteq> None \<and> named_from (tr_to t) \<and> named_from (tr_from t)"

definition method_of :: "osip_cseq option \<Rightarrow> cstr" where
  "method_of c = (case c of None \<Rightarrow> None | Some c \<Rightarrow> cseq_method c)"

definition response_of :: "osip_transaction \<Rightarrow> osip_message \<Rightarrow> bool" where
  "response_of t r \<longleftrightarrow>
     (\<exists>v w. topvia t = Some v \<and> topvia_of r = Some w \<and> branch_of v \<noteq> None \<and> branch_of w = branch_of v)
     \<and> method_of (cseq r) = method_of (tr_cseq t) \<and> method_of (cseq r) \<noteq> None"

lemma get_0_topvia: "(case vias r of [] \<Rightarrow> None | x # _ \<Rightarrow> Some x) = topvia_of r"
  by (simp add: topvia_of_def)

lemma topvia_of_named: "msg_ok r \<Longrightarrow> topvia_of r = Some w \<Longrightarrow> named (via_params w)"
  by (cases "vias r") (auto simp: msg_ok_def topvia_of_def)

lemma value_of_find:
  "value_of p = None \<longleftrightarrow> p = None \<or> gvalue (the p) = None"
  by (simp add: value_of_def split: option.split)

lemma matching_response_ok:
  assumes "ict_context t \<noteq> Null \<or> nict_context t \<noteq> Null" "call_ok t" "msg_ok r"
  shows "\<exists>i. matching_response_osip_to_xict_17_1_3 (Some t) (Some r) = Some i
    \<and> (i = OSIP_SUCCESS \<longleftrightarrow> response_of t r)"
proof -
  obtain v c m where t: "topvia t = Some v" "named (via_params v)" "tr_cseq t = Some c"
    "cseq_method c = Some m"
    using assms(2) by (auto simp: call_ok_def)
  show ?thesis
  proof (cases "topvia_of r")
    case None
    then show ?thesis
      using assms(1) t
      by (auto simp: matching_response_osip_to_xict_17_1_3_def response_of_def get_0_topvia
          split: option.split)
  next
    case (Some w)
    have "named (via_params w)" using topvia_of_named [OF assms(3) Some] .
    then have b: "param_byname (via_params v) ''branch'' = Some (List.find (has_name ''branch'') (via_params v))"
      "param_byname (via_params w) ''branch'' = Some (List.find (has_name ''branch'') (via_params w))"
      using t(2) by (simp_all add: param_byname_find)
    have rm: "(case cseq r of None \<Rightarrow> None | Some c \<Rightarrow> cseq_method c) = method_of (cseq r)"
      by (simp add: method_of_def)
    show ?thesis
    proof (cases "method_of (cseq r)")
      case None
      then show ?thesis
        using assms(1) rm by (simp add: matching_response_osip_to_xict_17_1_3_def response_of_def)
    next
      case m: (Some rm)
      have run: "matching_response_osip_to_xict_17_1_3 (Some t) (Some r)
          = (case (branch_of v, branch_of w) of
               (Some v1, Some v2) \<Rightarrow>
                 if v1 \<noteq> v2 then Some OSIP_UNDEFINED_ERROR
                 else Some (if rm = m then OSIP_SUCCESS else OSIP_UNDEFINED_ERROR)
             | _ \<Rightarrow> Some OSIP_SYNTAXERROR)"
        unfolding matching_response_osip_to_xict_17_1_3_def
        using assms(1) t(1,3,4) b Some m rm
        by (cases "List.find (has_name ''branch'') (via_params v)"; cases "branch_of v"; cases "branch_of w")
          (auto simp: get_0_topvia branch_of_def value_of_def split: option.splits)
      show ?thesis
        unfolding run response_of_def using t(1,3,4) Some m
        by (cases "branch_of v"; cases "branch_of w") (simp_all add: method_of_def)
    qed
  qed
qed

text \<open>RFC 3261, 17.2.3: the same branch and sent-by value, and the same method, except that an ACK matches an INVITE.\<close>

definition request_of :: "osip_transaction \<Rightarrow> osip_message \<Rightarrow> bool" where
  "request_of t r \<longleftrightarrow>
     (\<exists>v w. topvia t = Some v \<and> topvia_of r = Some w \<and> branch_of w = branch_of v
        \<and> via_host v \<noteq> None \<and> sent_by w = sent_by v)
     \<and> method_of (cseq r) \<noteq> None
     \<and> (method_of (cseq r) = method_of (tr_cseq t)
        \<or> method_of (tr_cseq t) = Some ''INVITE'' \<and> method_of (cseq r) = Some ''ACK'')"

definition has_cookie :: "osip_via \<Rightarrow> bool" where
  "has_cookie v \<longleftrightarrow> (\<exists>b. branch_of v = Some b \<and> take 7 b = magic_cookie)"

lemma matching_request_3261_ok:
  assumes "ist_context t \<noteq> Null \<or> nist_context t \<noteq> Null" "call_ok t" "msg_ok r"
    "topvia t = Some v" "has_cookie v" "topvia_of r = Some w" "has_cookie w"
  shows "\<exists>i. matching_request_osip_to_xist_17_2_3 h (Some t) (Some r) m = Some (i, m)
    \<and> (i = OSIP_SUCCESS \<longleftrightarrow> request_of t r)"
proof -
  obtain c mt where t: "named (via_params v)" "tr_cseq t = Some c" "cseq_method c = Some mt"
    using assms(2,4) by (auto simp: call_ok_def)
  have "named (via_params w)" using topvia_of_named [OF assms(3,6)] .
  then have b: "param_byname (via_params v) ''branch'' = Some (List.find (has_name ''branch'') (via_params v))"
    "param_byname (via_params w) ''branch'' = Some (List.find (has_name ''branch'') (via_params w))"
    using t(1) by (simp_all add: param_byname_find)
  obtain p1 p2 v1 v2 where p: "List.find (has_name ''branch'') (via_params v) = Some p1" "gvalue p1 = Some v1"
    "List.find (has_name ''branch'') (via_params w) = Some p2" "gvalue p2 = Some v2"
    "take 7 v1 = magic_cookie" "take 7 v2 = magic_cookie"
    using assms(5,7) by (auto simp: has_cookie_def branch_of_def value_of_def split: option.splits)
  then have br: "branch_of v = Some v1" "branch_of w = Some v2"
    by (simp_all add: branch_of_def value_of_def)
  have start: "(case cseq r of None \<Rightarrow> None | Some c \<Rightarrow> cseq_method c) = method_of (cseq r)"
    by (simp add: method_of_def)
  show ?thesis
  proof (cases "method_of (cseq r)")
    case None
    then show ?thesis
      using assms(1) start
      by (simp add: matching_request_osip_to_xist_17_2_3_def request_of_def)
  next
    case (Some rm)
    then have run: "matching_request_osip_to_xist_17_2_3 h (Some t) (Some r) m
        = (if length v1 \<noteq> length v2 then Some (OSIP_UNDEFINED_ERROR, m)
           else do { i \<leftarrow> match_request_3261 t w v1 v2 rm; Some (i, m) })"
      using assms(1,4,6) start b p
      by (auto simp: matching_request_osip_to_xist_17_2_3_def get_0_topvia)
    have "length v1 = length v2" if "v1 = v2" using that by simp
    then show ?thesis
      using run assms(4,6) br t Some
      by (auto simp: match_request_3261_def request_of_def sent_by_differs_iff method_of_def)
  qed
qed

text \<open>Matching a request never fails, by whatever mechanism, if the request has a To header.\<close>

lemma osip_via_match_defined:
  assumes "named (via_params v)" "named (via_params w)" "never_fails m"
  shows "\<exists>i m'. osip_via_match (Some v) (Some w) m = Some (i, m') \<and> never_fails m'
    \<and> (i = 0 \<longleftrightarrow> via_ok v \<and> via_ok w \<and> via_text v = via_text w)"
proof -
  have to_str: "\<exists>r m'. osip_via_to_str (Some v) m = Some (r, m') \<and> never_fails m'
      \<and> (fst r = 0 \<longleftrightarrow> via_ok v) \<and> (fst r = 0 \<longrightarrow> snd r = Some (via_text v))"
    if "named (via_params v)" "never_fails m" for v m
  proof (cases "via_ok v")
    case True
    then show ?thesis using osip_via_to_str_ok that by fastforce
  next
    case False
    then have "via_host v = None \<or> via_version v = None \<or> via_protocol v = None"
      using that by (auto simp: via_ok_def)
    then show ?thesis
      using that(2) False by (auto simp: osip_via_to_str_def split: option.split)
  qed
  obtain i s1 m1 where 1: "osip_via_to_str (Some v) m = Some ((i, s1), m1)" "never_fails m1"
    "i = 0 \<longleftrightarrow> via_ok v" "i = 0 \<longrightarrow> s1 = Some (via_text v)"
    using to_str [OF assms(1,3)] by auto
  obtain j s2 m2 where 2: "osip_via_to_str (Some w) m1 = Some ((j, s2), m2)" "never_fails m2"
    "j = 0 \<longleftrightarrow> via_ok w" "j = 0 \<longrightarrow> s2 = Some (via_text w)"
    using to_str [OF assms(2) 1(2)] by auto
  show ?thesis
    using 1 2 by (cases "i = 0"; cases "j = 0") (auto simp: osip_via_match_def)
qed

lemma osip_from_tag_match_defined:
  "named_from f1 \<Longrightarrow> named_from f2 \<Longrightarrow> \<exists>i. osip_from_tag_match f1 f2 = Some i"
  by (cases f1; cases f2)
    (auto simp: osip_from_tag_match_ok named_from_def, simp_all add: osip_from_tag_match_def)

lemma to_differs_2543_defined:
  assumes "call_ok t" "msg_ok r" "msg_to r \<noteq> None"
    "\<forall>a. orig_request t = Some a \<longrightarrow> (\<exists>x. h a = Some x \<and> msg_ok x)"
  shows "to_differs_2543 h t r \<noteq> None"
proof -
  obtain to1 to2 where to: "tr_to t = Some to1" "msg_to r = Some to2"
    using assms(1,3) by (auto simp: call_ok_def)
  have named: "named_from (tr_to t)" "named_from (msg_to r)"
    using assms(1,2) by (simp_all add: call_ok_def msg_ok_def)
  then obtain p1 p2 where tags: "param_byname (gen_params to1) ''tag'' = Some p1"
    "param_byname (gen_params to2) ''tag'' = Some p2"
    using to by (auto simp: named_from_def param_byname_find)
  obtain i where i: "osip_to_tag_match (tr_to t) (msg_to r) = Some i"
    using osip_from_tag_match_defined [OF named] by (auto simp: osip_to_tag_match_def)
  show ?thesis
  proof (cases "is_method ''ACK'' r")
    case True
    then show ?thesis
      using assms(2) to tags i by (cases p1; cases p2) (simp_all add: to_differs_2543_def)
  next
    case False
    show ?thesis
    proof (cases "orig_request t")
      case None
      then show ?thesis using assms(2) False by (simp add: to_differs_2543_def)
    next
      case (Some a)
      then obtain x where x: "h a = Some x" "msg_ok x" using assms(4) by blast
      then have "named_from (msg_to x)" by (simp add: msg_ok_def)
      then obtain i where "osip_to_tag_match (msg_to x) (msg_to r) = Some i"
        using osip_from_tag_match_defined [OF _ named(2), of "msg_to x"] by (auto simp: osip_to_tag_match_def)
      then show ?thesis
        using assms(2) False Some x(1) by (cases "msg_to x") (simp_all add: to_differs_2543_def)
    qed
  qed
qed

lemma match_request_2543_defined:
  assumes "call_ok t" "msg_ok r" "msg_to r \<noteq> None" "named (via_params w)"
    "\<forall>a. orig_request t = Some a \<longrightarrow> (\<exists>x. h a = Some x \<and> msg_ok x)"
  shows "\<exists>q. \<forall>m. never_fails m \<longrightarrow> (\<exists>i m'. match_request_2543 h t r w m = Some (i, m') \<and> never_fails m'
    \<and> (i = 0 \<longleftrightarrow> q))"
proof -
  obtain v where v: "topvia t = Some v" "named (via_params v)" using assms(1) by (auto simp: call_ok_def)
  have named: "named_from (tr_from t)" "named_from (msg_from r)"
    using assms(1,2) by (simp_all add: call_ok_def msg_ok_def)
  obtain d where d: "to_differs_2543 h t r = Some d"
    using to_differs_2543_defined [OF assms(1-3,5)] by blast
  obtain i where i: "osip_from_tag_match (tr_from t) (msg_from r) = Some i"
    using osip_from_tag_match_defined [OF named] by blast
  let ?q = "osip_call_id_match (callid t) (call_id r) = 0 \<and> \<not> d \<and> i = 0
    \<and> osip_cseq_match (tr_cseq t) (cseq r) = 0 \<and> via_ok v \<and> via_ok w \<and> via_text v = via_text w"
  have "\<exists>i m'. match_request_2543 h t r w m = Some (i, m') \<and> never_fails m' \<and> (i = 0 \<longleftrightarrow> ?q)"
    if m: "never_fails m" for m
  proof -
    obtain j m' where j: "osip_via_match (topvia t) (Some w) m = Some (j, m')" "never_fails m'"
      "j = 0 \<longleftrightarrow> via_ok v \<and> via_ok w \<and> via_text v = via_text w"
      using osip_via_match_defined [OF v(2) assms(4) m] v(1) by auto
    show ?thesis
      unfolding match_request_2543_def using d i j m by (cases d; cases "i = 0"; cases "j = 0") simp_all
  qed
  then show ?thesis by blast
qed

lemma matching_request_defined:
  assumes "call_ok t" "msg_ok r" "msg_to r \<noteq> None"
    "\<forall>a. orig_request t = Some a \<longrightarrow> (\<exists>x. h a = Some x \<and> msg_ok x)"
  shows "\<exists>q. \<forall>m. never_fails m \<longrightarrow>
    (\<exists>i m'. matching_request_osip_to_xist_17_2_3 h (Some t) (Some r) m = Some (i, m') \<and> never_fails m'
       \<and> (i = 0 \<longleftrightarrow> q))"
proof (cases "(ist_context t = Null \<and> nist_context t = Null) \<or> method_of (cseq r) = None \<or> topvia_of r = None")
  case True
  then show ?thesis
    by (intro exI [of _ False])
      (auto simp: matching_request_osip_to_xist_17_2_3_def method_of_def get_0_topvia split: option.splits)
next
  case False
  then obtain rm w where r: "(case cseq r of None \<Rightarrow> None | Some c \<Rightarrow> cseq_method c) = Some rm"
    "topvia_of r = Some w" by (auto simp: method_of_def)
  have nn: "\<not> (ist_context t = Null \<and> nist_context t = Null)" using False by blast
  obtain v c mt where t: "topvia t = Some v" "named (via_params v)" "tr_cseq t = Some c" "cseq_method c = Some mt"
    using assms(1) by (auto simp: call_ok_def)
  have w: "named (via_params w)" using topvia_of_named [OF assms(2) r(2)] .
  have b: "param_byname (via_params v) ''branch'' = Some (List.find (has_name ''branch'') (via_params v))"
    "param_byname (via_params w) ''branch'' = Some (List.find (has_name ''branch'') (via_params w))"
    using t(2) w by (simp_all add: param_byname_find)
  obtain q where old: "\<forall>m. never_fails m \<longrightarrow>
      (\<exists>i m'. match_request_2543 h t r w m = Some (i, m') \<and> never_fails m' \<and> (i = 0 \<longleftrightarrow> q))"
    using match_request_2543_defined [OF assms(1-3) w assms(4)] by blast
  have new: "\<exists>i. match_request_3261 t w v1 v2 rm = Some i" for v1 v2
    using t(3,4) by (simp add: match_request_3261_def)
  have run: "matching_request_osip_to_xist_17_2_3 h (Some t) (Some r) m
      = (case (List.find (has_name ''branch'') (via_params v), List.find (has_name ''branch'') (via_params w)) of
           (None, Some _) \<Rightarrow> Some (OSIP_SYNTAXERROR, m)
         | (Some _, None) \<Rightarrow> Some (OSIP_SYNTAXERROR, m)
         | (None, None) \<Rightarrow> match_request_2543 h t r w m
         | (Some b1, Some b2) \<Rightarrow>
             (case (gvalue b1, gvalue b2) of
                (Some v1, Some v2) \<Rightarrow>
                  if length v1 \<noteq> length v2 then Some (OSIP_UNDEFINED_ERROR, m)
                  else if take 7 v1 = magic_cookie \<and> take 7 v2 = magic_cookie then do {
                    i \<leftarrow> match_request_3261 t w v1 v2 rm;
                    Some (i, m)
                  }
                  else match_request_2543 h t r w m
              | _ \<Rightarrow> Some (OSIP_UNDEFINED_ERROR, m)))" for m
    unfolding matching_request_osip_to_xist_17_2_3_def
    using nn [simplified] nn r t(1) b by (auto simp: get_0_topvia)
  show ?thesis
  proof (cases "List.find (has_name ''branch'') (via_params v)";
      cases "List.find (has_name ''branch'') (via_params w)")
    fix b1 b2
    assume p: "List.find (has_name ''branch'') (via_params v) = Some b1"
      "List.find (has_name ''branch'') (via_params w) = Some b2"
    show ?thesis
    proof (cases "gvalue b1"; cases "gvalue b2")
      fix v1 v2
      assume g: "gvalue b1 = Some v1" "gvalue b2 = Some v2"
      obtain i1 where i1: "match_request_3261 t w v1 v2 rm = Some i1" using new by blast
      have run: "matching_request_osip_to_xist_17_2_3 h (Some t) (Some r) m
          = (if length v1 \<noteq> length v2 then Some (OSIP_UNDEFINED_ERROR, m)
             else if take 7 v1 = magic_cookie \<and> take 7 v2 = magic_cookie then Some (i1, m)
             else match_request_2543 h t r w m)" for m
        unfolding run using p g i1 by simp
      consider "length v1 \<noteq> length v2" | "length v1 = length v2" "take 7 v1 = magic_cookie \<and> take 7 v2 = magic_cookie"
        | "length v1 = length v2" "\<not> (take 7 v1 = magic_cookie \<and> take 7 v2 = magic_cookie)" by blast
      then show ?thesis
      proof cases
        case 1
        then show ?thesis unfolding run by (intro exI [of _ False]) simp
      next
        case 2
        then show ?thesis unfolding run by (intro exI [of _ "i1 = 0"]) simp
      next
        case 3
        then have "matching_request_osip_to_xist_17_2_3 h (Some t) (Some r) m = match_request_2543 h t r w m" for m
          unfolding run by auto
        then show ?thesis using old by (intro exI [of _ q]) simp
      qed
    qed (unfold run, use p in \<open>auto intro!: exI [of _ False]\<close>)
  next
    show ?thesis if "List.find (has_name ''branch'') (via_params v) = None"
      "List.find (has_name ''branch'') (via_params w) = None"
      unfolding run using that old by (intro exI [of _ q]) simp
  qed (unfold run, auto intro!: exI [of _ False])
qed

end
