(* ===== verification/Osip_Stack.thy ===== *)
theory Osip_Stack
  imports Osip_Transaction
begin

text \<open>
  \<^verbatim>\<open>osip.c\<close> and the part of \<^verbatim>\<open>osip_transaction.c\<close> that works on the stack: the four lists
  of transactions, how a transaction is created, found, executed, timed and freed.
  Transactions live on a heap of their own and the lists hold addresses. The mutexes make
  each operation on a list atomic. The hash tables are not compiled in this build.
\<close>

section \<open>The stack\<close>

record ixt =
  ixt_dialog :: "nat option"
  msg2xx :: "osip_message option"
  ixt_ack :: "osip_message option"
  ixt_start :: timeval
  interval :: int
  ixt_dest :: cstr
  ixt_port :: int
  ixt_sock :: int
  counter :: int

record osip = world +
  application_context :: "nat option"
  next_transactionid :: int
  osip_ict_transactions :: "nat list"
  osip_ist_transactions :: "nat list"
  osip_nict_transactions :: "nat list"
  osip_nist_transactions :: "nat list"
  ixt_retransmissions :: "ixt list"
  transactions :: "nat \<rightharpoonup> osip_transaction"
  tr_brk :: nat

text \<open>A step of one transaction, lifted to the stack.\<close>

definition focus :: "osip \<Rightarrow> osip_transaction \<Rightarrow> st" where
  "focus s t = \<lparr>msgs = msgs s, brk = brk s, mem = mem s, ticks = ticks s, log = log s, tr = t\<rparr>"

definition unfocus :: "nat \<Rightarrow> st \<Rightarrow> osip \<Rightarrow> osip" where
  "unfocus a s' s = s\<lparr>msgs := msgs s', brk := brk s', mem := mem s', ticks := ticks s',
     log := log s', transactions := (transactions s)(a \<mapsto> tr s')\<rparr>"

definition on_tr :: "nat \<Rightarrow> (st \<Rightarrow> ('r \<times> st) option) \<Rightarrow> osip \<Rightarrow> ('r \<times> osip) option" where
  "on_tr a f s =
    do { t \<leftarrow> transactions s a; (r, s') \<leftarrow> f (focus s t); Some (r, unfocus a s' s) }"

section \<open>The lists\<close>

definition osip_add_ict :: "nat \<Rightarrow> osip \<Rightarrow> int \<times> osip" where
  "osip_add_ict a s =
    (case list_add (osip_ict_transactions s) a (-1) (mem s) of
       (l, m) \<Rightarrow> (OSIP_SUCCESS, s\<lparr>mem := m, osip_ict_transactions := l\<rparr>))"

definition osip_add_ist :: "nat \<Rightarrow> osip \<Rightarrow> int \<times> osip" where
  "osip_add_ist a s =
    (case list_add (osip_ist_transactions s) a (-1) (mem s) of
       (l, m) \<Rightarrow> (OSIP_SUCCESS, s\<lparr>mem := m, osip_ist_transactions := l\<rparr>))"

definition osip_add_nict :: "nat \<Rightarrow> osip \<Rightarrow> int \<times> osip" where
  "osip_add_nict a s =
    (case list_add (osip_nict_transactions s) a (-1) (mem s) of
       (l, m) \<Rightarrow> (OSIP_SUCCESS, s\<lparr>mem := m, osip_nict_transactions := l\<rparr>))"

definition osip_add_nist :: "nat \<Rightarrow> osip \<Rightarrow> int \<times> osip" where
  "osip_add_nist a s =
    (case list_add (osip_nist_transactions s) a (-1) (mem s) of
       (l, m) \<Rightarrow> (OSIP_SUCCESS, s\<lparr>mem := m, osip_nist_transactions := l\<rparr>))"

text \<open>The first element with the id is removed; every element before it is looked at.\<close>

fun remove_by_id :: "(nat \<rightharpoonup> osip_transaction) \<Rightarrow> int \<Rightarrow> nat list \<Rightarrow> (int \<times> nat list) option" where
  "remove_by_id h tid [] = Some (OSIP_UNDEFINED_ERROR, [])"
| "remove_by_id h tid (a # as) =
    do {
      t \<leftarrow> h a;
      if transactionid t = tid then Some (OSIP_SUCCESS, as)
      else do { (i, as) \<leftarrow> remove_by_id h tid as; Some (i, a # as) }
    }"

definition osip_remove_ict_transaction :: "nat \<Rightarrow> osip \<Rightarrow> (int \<times> osip) option" where
  "osip_remove_ict_transaction a s =
    do {
      t \<leftarrow> transactions s a;
      (i, l) \<leftarrow> remove_by_id (transactions s) (transactionid t) (osip_ict_transactions s);
      Some (i, s\<lparr>osip_ict_transactions := l\<rparr>)
    }"

definition osip_remove_ist_transaction :: "nat \<Rightarrow> osip \<Rightarrow> (int \<times> osip) option" where
  "osip_remove_ist_transaction a s =
    do {
      t \<leftarrow> transactions s a;
      (i, l) \<leftarrow> remove_by_id (transactions s) (transactionid t) (osip_ist_transactions s);
      Some (i, s\<lparr>osip_ist_transactions := l\<rparr>)
    }"

definition osip_remove_nict_transaction :: "nat \<Rightarrow> osip \<Rightarrow> (int \<times> osip) option" where
  "osip_remove_nict_transaction a s =
    do {
      t \<leftarrow> transactions s a;
      (i, l) \<leftarrow> remove_by_id (transactions s) (transactionid t) (osip_nict_transactions s);
      Some (i, s\<lparr>osip_nict_transactions := l\<rparr>)
    }"

definition osip_remove_nist_transaction :: "nat \<Rightarrow> osip \<Rightarrow> (int \<times> osip) option" where
  "osip_remove_nist_transaction a s =
    do {
      t \<leftarrow> transactions s a;
      (i, l) \<leftarrow> remove_by_id (transactions s) (transactionid t) (osip_nist_transactions s);
      Some (i, s\<lparr>osip_nist_transactions := l\<rparr>)
    }"

definition osip_remove_transaction :: "nat option \<Rightarrow> osip \<Rightarrow> (int \<times> osip) option" where
  "osip_remove_transaction p s =
    (case p of None \<Rightarrow> Some (OSIP_BADPARAMETER, s)
     | Some a \<Rightarrow> do {
         t \<leftarrow> transactions s a;
         (case ctx_type t of
            ICT \<Rightarrow> osip_remove_ict_transaction a s
          | IST \<Rightarrow> osip_remove_ist_transaction a s
          | NICT \<Rightarrow> osip_remove_nict_transaction a s
          | NIST \<Rightarrow> osip_remove_nist_transaction a s)
       })"

section \<open>Freeing a transaction\<close>

function empty_fifo :: "osip_event osip_fifo \<Rightarrow> 'a world_scheme \<Rightarrow> 'a world_scheme option" where
  "empty_fifo ff w =
    (case osip_fifo_tryget ff of
       (None, ff') \<Rightarrow> Some w
     | (Some e, ff') \<Rightarrow> do { w \<leftarrow> osip_message_free (sip e) w; empty_fifo ff' w })"
  by pat_completeness auto

termination
  by (relation "measure (\<lambda>(ff, w). qisempty ff)")
    (auto simp: osip_fifo_tryget_def osip_fifo_take_def Let_def split: if_splits)

definition free_context :: "osip_transaction \<Rightarrow> int option" where
  "free_context t =
    (case ctx_type t of
       ICT \<Rightarrow> do { (i, p) \<leftarrow> osip_ict_free (ict_context t); Some i }
     | IST \<Rightarrow> do { (i, p) \<leftarrow> osip_ist_free (ist_context t); Some i }
     | NICT \<Rightarrow> do { (i, p) \<leftarrow> osip_nict_free (nict_context t); Some i }
     | NIST \<Rightarrow> do { (i, p) \<leftarrow> osip_nist_free (nist_context t); Some i })"

definition osip_transaction_free2 :: "nat option \<Rightarrow> osip \<Rightarrow> (int \<times> osip) option" where
  "osip_transaction_free2 p s =
    (case p of None \<Rightarrow> Some (OSIP_BADPARAMETER, s)
     | Some a \<Rightarrow> do {
         t \<leftarrow> transactions s a;
         ub_unless (deref_ok s (orig_request t));
         i \<leftarrow> free_context t;
         s \<leftarrow> (case transactionff t of None \<Rightarrow> Some s | Some ff \<Rightarrow> empty_fifo ff s);
         s \<leftarrow> osip_message_free (orig_request t) s;
         s \<leftarrow> osip_message_free (last_response t) s;
         s \<leftarrow> osip_message_free (ack t) s;
         Some (OSIP_SUCCESS, s\<lparr>transactions := (transactions s)(a := None)\<rparr>)
       })"

definition osip_transaction_free :: "nat option \<Rightarrow> osip \<Rightarrow> (int \<times> osip) option" where
  "osip_transaction_free p s =
    (case p of None \<Rightarrow> Some (OSIP_BADPARAMETER, s)
     | Some a \<Rightarrow> do {
         (i, s) \<leftarrow> osip_remove_transaction p s;
         osip_transaction_free2 p s
       })"

section \<open>Creating a transaction\<close>

definition transaction_zero :: osip_transaction where
  "transaction_zero = \<lparr>transactionid = 0, transactionff = None, topvia = None, tr_from = None,
    tr_to = None, callid = None, tr_cseq = None, orig_request = None, last_response = None,
    ack = None, state = ICT_PRE_CALLING, birth_time = 0, completed_time = 0, in_socket = 0,
    out_socket = 0, config = False, ctx_type = ICT, ict_context = Null, ist_context = Null,
    nict_context = Null, nist_context = Null, srv_record = None, naptr_record = None,
    reserved1 = None, reserved2 = None, reserved3 = None, reserved4 = None, reserved5 = None,
    reserved6 = None\<rparr>"

text \<open>The setters in a row, up to the first that fails.\<close>

fun set_headers ::
  "(osip_transaction option \<Rightarrow> mem \<Rightarrow> (int \<times> osip_transaction option) \<times> mem) list
    \<Rightarrow> osip_transaction \<Rightarrow> mem \<Rightarrow> (int \<times> osip_transaction) \<times> mem" where
  "set_headers [] t m = ((OSIP_SUCCESS, t), m)"
| "set_headers (f # fs) t m =
    (case f (Some t) m of ((i, t'), m) \<Rightarrow>
       (case t' of
          None \<Rightarrow> ((i, t), m)
        | Some t' \<Rightarrow> if i \<noteq> 0 then ((i, t'), m) else set_headers fs t' m))"

definition copy_headers ::
  "osip_message \<Rightarrow> osip_transaction \<Rightarrow> mem \<Rightarrow> (int \<times> osip_transaction) \<times> mem" where
  "copy_headers r t m =
    (case l_get (vias r) 0 of
       None \<Rightarrow> ((OSIP_SYNTAXERROR, t), m)
     | Some v \<Rightarrow>
         set_headers
           [\<lambda>t. osip_transaction_set_topvia t (Some v),
            \<lambda>t. osip_transaction_set_from t (msg_from r),
            \<lambda>t. osip_transaction_set_to t (msg_to r),
            \<lambda>t. osip_transaction_set_call_id t (call_id r),
            \<lambda>t. osip_transaction_set_cseq t (cseq r)] t m)"

text \<open>The context of each kind, with the state the transaction starts in.\<close>

definition init_context ::
  "osip_config \<Rightarrow> osip_message \<Rightarrow> osip_transaction \<Rightarrow> osip \<Rightarrow> ((int \<times> osip_transaction) \<times> osip) option" where
  "init_context cf r t s =
    (case ctx_type t of
       ICT \<Rightarrow> do { ((i, p), s) \<leftarrow> osip_ict_init cf r s;
                   Some ((i, t\<lparr>state := ICT_PRE_CALLING, ict_context := p\<rparr>), s) }
     | IST \<Rightarrow> do { ((i, p), s) \<leftarrow> osip_ist_init cf r s;
                   Some ((i, t\<lparr>state := IST_PRE_PROCEEDING, ist_context := p\<rparr>), s) }
     | NICT \<Rightarrow> do { ((i, p), s) \<leftarrow> osip_nict_init cf r s;
                    Some ((i, t\<lparr>state := NICT_PRE_TRYING, nict_context := p\<rparr>), s) }
     | NIST \<Rightarrow> do { ((i, p), s) \<leftarrow> osip_nist_init cf r s;
                    Some ((i, t\<lparr>state := NIST_PRE_TRYING, nist_context := p\<rparr>), s) })"

definition add_to_list :: "osip_fsm_type_t \<Rightarrow> nat \<Rightarrow> osip \<Rightarrow> int \<times> osip" where
  "add_to_list ty a s =
    (case ty of ICT \<Rightarrow> osip_add_ict a s | IST \<Rightarrow> osip_add_ist a s
     | NICT \<Rightarrow> osip_add_nict a s | NIST \<Rightarrow> osip_add_nist a s)"

definition put_tr :: "nat \<Rightarrow> osip_transaction \<Rightarrow> osip \<Rightarrow> osip" where
  "put_tr a t s = s\<lparr>transactions := (transactions s)(a \<mapsto> t)\<rparr>"

text \<open>An error after the allocation frees the transaction and sets the pointer to NULL.\<close>

definition init_fails :: "int \<Rightarrow> nat \<Rightarrow> osip_transaction \<Rightarrow> osip \<Rightarrow> ((int \<times> nat option) \<times> osip) option" where
  "init_fails i a t s =
    do { (j, s) \<leftarrow> osip_transaction_free (Some a) (put_tr a t s); Some ((i, None), s) }"

definition osip_transaction_init ::
  "osip_config \<Rightarrow> osip_fsm_type_t \<Rightarrow> nat option \<Rightarrow> osip \<Rightarrow> ((int \<times> nat option) \<times> osip) option" where
  "osip_transaction_init cf ty request s =
    (case request of None \<Rightarrow> Some ((OSIP_BADPARAMETER, None), s)
     | Some ra \<Rightarrow> do {
         r \<leftarrow> msgs s ra;
         (if (case call_id r of None \<Rightarrow> None | Some c \<Rightarrow> callid_number c) = None
          then Some ((OSIP_BADPARAMETER, None), s)
          else (case osip_malloc (mem s) of (ok, m) \<Rightarrow>
            let s = s\<lparr>mem := m\<rparr> in
            if \<not> ok then Some ((OSIP_NOMEM, None), s)
            else do {
              let a = tr_brk s;
              let t = transaction_zero\<lparr>birth_time := systime cf (ticks s),
                        transactionid := next_transactionid s, ctx_type := ty, config := True\<rparr>;
              let s = s\<lparr>ticks := ticks s + 1, next_transactionid := next_transactionid s + 1,
                        tr_brk := a + 1\<rparr>;
              let ((i, t), m) = copy_headers r t (mem s);
              let s = s\<lparr>mem := m\<rparr>;
              (if i \<noteq> 0 then init_fails i a t s
               else (case osip_malloc (mem s) of (ok, m) \<Rightarrow>
                 let s = s\<lparr>mem := m\<rparr> in
                 if \<not> ok then init_fails OSIP_NOMEM a t s
                 else do {
                   ((i, t), s) \<leftarrow> init_context cf r (t\<lparr>transactionff := Some osip_fifo_init\<rparr>) s;
                   (if i \<noteq> 0 then init_fails i a t s
                    else (case add_to_list ty a (put_tr a t s) of
                        (j, s) \<Rightarrow> Some ((OSIP_SUCCESS, Some a), s)))
                 }))
            }))
       })"

text \<open>The event of the caller gets the id of the transaction.\<close>

definition osip_create_transaction ::
  "osip_config \<Rightarrow> osip_event option \<Rightarrow> osip \<Rightarrow> ((nat option \<times> osip_event option) \<times> osip) option" where
  "osip_create_transaction cf evt s =
    (case evt of None \<Rightarrow> Some ((None, evt), s)
     | Some e \<Rightarrow>
       (case sip e of None \<Rightarrow> Some ((None, evt), s)
        | Some a \<Rightarrow> do {
            r \<leftarrow> msgs s a;
            let cmethod = method_of (cseq r);
            (if MSG_IS_REQUEST r \<and> (cmethod = None \<or> sip_method r = None) then Some ((None, evt), s)
             else if MSG_IS_REQUEST r \<and> cmethod \<noteq> sip_method r then Some ((None, evt), s)
             else do {
               is_ack \<leftarrow> MSG_IS ''ACK'' r;
               if is_ack then Some ((None, evt), s)
               else if \<not> EVT_IS_INCOMINGREQ e \<and> \<not> EVT_IS_OUTGOINGREQ e then Some ((None, evt), s)
               else do {
                 mtd \<leftarrow> cmethod;
                 let ty = (if EVT_IS_INCOMINGREQ e
                           then (if mtd = ''INVITE'' then IST else NIST)
                           else (if mtd = ''INVITE'' then ICT else NICT));
                 ((i, p), s) \<leftarrow> osip_transaction_init cf ty (Some a) s;
                 (if i \<noteq> 0 then Some ((None, evt), s)
                  else do {
                    b \<leftarrow> p;
                    t \<leftarrow> transactions s b;
                    Some ((Some b, Some (e\<lparr>ev_transactionid := transactionid t\<rparr>)), s)
                  })
               }
             })
          }))"

section \<open>Finding a transaction\<close>

fun find_first :: "(nat \<Rightarrow> mem \<Rightarrow> (bool \<times> mem) option) \<Rightarrow> nat list \<Rightarrow> mem \<Rightarrow> (nat option \<times> mem) option" where
  "find_first p [] m = Some (None, m)"
| "find_first p (a # as) m =
    do { (b, m) \<leftarrow> p a m; if b then Some (Some a, m) else find_first p as m }"

definition osip_transaction_find ::
  "nat list \<Rightarrow> osip_event \<Rightarrow> osip \<Rightarrow> (nat option \<times> mem) option" where
  "osip_transaction_find l evt s =
    (case l of [] \<Rightarrow> Some (None, mem s)
     | a # _ \<Rightarrow> do {
         t \<leftarrow> transactions s a;
         if \<not> config t then Some (None, mem s)
         else do {
           r \<leftarrow> (case sip evt of None \<Rightarrow> Some None | Some ra \<Rightarrow> map_option Some (msgs s ra));
           (if EVT_IS_INCOMINGREQ evt then
              find_first (\<lambda>a m. do {
                  t \<leftarrow> transactions s a;
                  (i, m) \<leftarrow> matching_request_osip_to_xist_17_2_3 (msgs s) (Some t) r m;
                  Some (i = 0, m) }) l (mem s)
            else if EVT_IS_INCOMINGRESP evt then
              find_first (\<lambda>a m. do {
                  t \<leftarrow> transactions s a;
                  i \<leftarrow> matching_response_osip_to_xict_17_1_3 (Some t) r;
                  Some (i = 0, m) }) l (mem s)
            else
              find_first (\<lambda>a m. do {
                  t \<leftarrow> transactions s a;
                  Some (transactionid t = ev_transactionid evt, m) }) l (mem s))
         }
       })"

text \<open>The list an event belongs to: from its direction, its kind and the method of its CSeq.\<close>

definition list_for :: "osip_event \<Rightarrow> osip_message \<Rightarrow> string \<Rightarrow> osip_fsm_type_t" where
  "list_for evt m mtd =
    (if EVT_IS_INCOMINGMSG evt then
       (if MSG_IS_REQUEST m then (if mtd = ''INVITE'' \<or> mtd = ''ACK'' then IST else NIST)
        else (if mtd = ''INVITE'' then ICT else NICT))
     else
       (if MSG_IS_RESPONSE m then (if mtd = ''INVITE'' then IST else NIST)
        else (if mtd = ''INVITE'' \<or> mtd = ''ACK'' then ICT else NICT)))"

definition transactions_of :: "osip_fsm_type_t \<Rightarrow> osip \<Rightarrow> nat list" where
  "transactions_of ty s =
    (case ty of ICT \<Rightarrow> osip_ict_transactions s | IST \<Rightarrow> osip_ist_transactions s
     | NICT \<Rightarrow> osip_nict_transactions s | NIST \<Rightarrow> osip_nist_transactions s)"

definition osip_find_transaction_consume ::
  "osip_event option \<Rightarrow> bool \<Rightarrow> osip \<Rightarrow> (nat option \<times> osip) option" where
  "osip_find_transaction_consume evt consume s =
    (case evt of None \<Rightarrow> Some (None, s)
     | Some e \<Rightarrow>
       (case sip e of None \<Rightarrow> Some (None, s)
        | Some ra \<Rightarrow> do {
            m \<leftarrow> msgs s ra;
            (case cseq m of None \<Rightarrow> Some (None, s)
             | Some c \<Rightarrow>
                if \<not> EVT_IS_INCOMINGMSG e \<and> \<not> EVT_IS_OUTGOINGMSG e then Some (None, s)
                else do {
                  mtd \<leftarrow> cseq_method c;
                  (p, mm) \<leftarrow> osip_transaction_find (transactions_of (list_for e m mtd) s) e s;
                  let s = s\<lparr>mem := mm\<rparr>;
                  (case p of
                     Some a \<Rightarrow>
                       if consume then do {
                         t \<leftarrow> transactions s a;
                         ((i, t), mm) \<leftarrow> osip_transaction_add_event (Some t) (Some e) (mem s);
                         t \<leftarrow> t;
                         Some (Some a, put_tr a t (s\<lparr>mem := mm\<rparr>))
                       }
                       else Some (Some a, s)
                   | None \<Rightarrow> Some (None, s))
                })
          }))"

definition osip_find_transaction_and_add_event ::
  "osip_event option \<Rightarrow> osip \<Rightarrow> (int \<times> osip) option" where
  "osip_find_transaction_and_add_event evt s =
    do {
      (p, s) \<leftarrow> osip_find_transaction_consume evt True s;
      Some (if p = None then OSIP_UNDEFINED_ERROR else OSIP_SUCCESS, s)
    }"

section \<open>Starting and stopping\<close>

definition osip_init :: "'a world_scheme \<Rightarrow> (int \<times> osip option) \<times> mem" where
  "osip_init w =
    (case osip_malloc (mem w) of (ok, m) \<Rightarrow>
       if \<not> ok then ((OSIP_NOMEM, None), m)
       else ((OSIP_SUCCESS,
              Some \<lparr>msgs = msgs w, brk = brk w, mem = m, ticks = ticks w, log = log w,
                application_context = None, next_transactionid = 1, osip_ict_transactions = [],
                osip_ist_transactions = [], osip_nict_transactions = [], osip_nist_transactions = [],
                ixt_retransmissions = [], transactions = Map.empty, tr_brk = 0\<rparr>), m))"

definition osip_set_application_context :: "nat option \<Rightarrow> osip \<Rightarrow> osip" where
  "osip_set_application_context p s = s\<lparr>application_context := p\<rparr>"

definition osip_get_application_context :: "osip option \<Rightarrow> nat option" where
  "osip_get_application_context p = (case p of None \<Rightarrow> None | Some s \<Rightarrow> application_context s)"

section \<open>Executing the transactions\<close>

text \<open>
  The events of one transaction, until its queue is empty; \<^term>\<open>None\<close> also when it never is.
\<close>

partial_function (option) drain :: "osip_config \<Rightarrow> nat \<Rightarrow> osip \<Rightarrow> osip option" where
  "drain cf a s =
    do {
      t \<leftarrow> transactions s a;
      ff \<leftarrow> transactionff t;
      (case osip_fifo_tryget ff of
         (se, ff) \<Rightarrow>
           let s = put_tr a (t\<lparr>transactionff := Some ff\<rparr>) s in
           (case se of
              None \<Rightarrow> Some s
            | Some e \<Rightarrow> do { (i, s) \<leftarrow> on_tr a (osip_transaction_execute cf e) s; drain cf a s }))
    }"

declare drain.simps [code]

fun drain_all :: "osip_config \<Rightarrow> nat list \<Rightarrow> osip \<Rightarrow> osip option" where
  "drain_all cf [] s = Some s"
| "drain_all cf (a # as) s = do { s \<leftarrow> drain cf a s; drain_all cf as s }"

text \<open>The list is copied first, because executing an event may change it.\<close>

definition execute_list :: "osip_config \<Rightarrow> nat list \<Rightarrow> osip \<Rightarrow> (int \<times> osip) option" where
  "execute_list cf l s =
    (if int (length l) \<le> 0 then Some (OSIP_SUCCESS, s)
     else (case osip_malloc (mem s) of (ok, m) \<Rightarrow>
       let s = s\<lparr>mem := m\<rparr> in
       if \<not> ok then Some (OSIP_NOMEM, s)
       else do { s \<leftarrow> drain_all cf l s; Some (OSIP_SUCCESS, s) }))"

definition osip_ict_execute :: "osip_config \<Rightarrow> osip \<Rightarrow> (int \<times> osip) option" where
  "osip_ict_execute cf s = execute_list cf (osip_ict_transactions s) s"

definition osip_ist_execute :: "osip_config \<Rightarrow> osip \<Rightarrow> (int \<times> osip) option" where
  "osip_ist_execute cf s = execute_list cf (osip_ist_transactions s) s"

definition osip_nict_execute :: "osip_config \<Rightarrow> osip \<Rightarrow> (int \<times> osip) option" where
  "osip_nict_execute cf s = execute_list cf (osip_nict_transactions s) s"

definition osip_nist_execute :: "osip_config \<Rightarrow> osip \<Rightarrow> (int \<times> osip) option" where
  "osip_nist_execute cf s = execute_list cf (osip_nist_transactions s) s"

section \<open>Timers\<close>

text \<open>The first of several timers that has an event.\<close>

fun first_event ::
  "(osip \<Rightarrow> (osip_event option \<times> osip) option) list \<Rightarrow> osip \<Rightarrow> (osip_event option \<times> osip) option" where
  "first_event [] s = Some (None, s)"
| "first_event (f # fs) s =
    do { (e, s) \<leftarrow> f s; (case e of None \<Rightarrow> first_event fs s | Some e \<Rightarrow> Some (Some e, s)) }"

definition queue_event :: "nat \<Rightarrow> osip_event \<Rightarrow> osip \<Rightarrow> osip option" where
  "queue_event a e s =
    do {
      t \<leftarrow> transactions s a;
      ff \<leftarrow> transactionff t;
      (case osip_fifo_add ff e (mem s) of
         ((i, ff), m) \<Rightarrow> Some (put_tr a (t\<lparr>transactionff := Some ff\<rparr>) (s\<lparr>mem := m\<rparr>)))
    }"

definition timer_step ::
  "(osip_transaction \<Rightarrow> (osip \<Rightarrow> (osip_event option \<times> osip) option) list) \<Rightarrow> nat \<Rightarrow> osip \<Rightarrow> osip option" where
  "timer_step timers a s =
    do {
      t \<leftarrow> transactions s a;
      (e, s) \<leftarrow> first_event (timers t) s;
      (case e of None \<Rightarrow> Some s | Some e \<Rightarrow> queue_event a e s)
    }"

fun each_tr :: "(nat \<Rightarrow> osip \<Rightarrow> osip option) \<Rightarrow> nat list \<Rightarrow> osip \<Rightarrow> osip option" where
  "each_tr f [] s = Some s"
| "each_tr f (a # as) s = do { s \<leftarrow> f a s; each_tr f as s }"

definition ict_timers :: "osip_config \<Rightarrow> osip_transaction \<Rightarrow> (osip \<Rightarrow> (osip_event option \<times> osip) option) list" where
  "ict_timers cf t =
    [osip_ict_need_timer_b_event cf (ict_context t) (state t) (transactionid t),
     osip_ict_need_timer_a_event cf (ict_context t) (state t) (transactionid t),
     osip_ict_need_timer_d_event cf (ict_context t) (state t) (transactionid t)]"

definition ist_timers :: "osip_config \<Rightarrow> osip_transaction \<Rightarrow> (osip \<Rightarrow> (osip_event option \<times> osip) option) list" where
  "ist_timers cf t =
    [osip_ist_need_timer_i_event cf (ist_context t) (state t) (transactionid t),
     osip_ist_need_timer_h_event cf (ist_context t) (state t) (transactionid t),
     osip_ist_need_timer_g_event cf (ist_context t) (state t) (transactionid t)]"

definition nict_timers :: "osip_config \<Rightarrow> osip_transaction \<Rightarrow> (osip \<Rightarrow> (osip_event option \<times> osip) option) list" where
  "nict_timers cf t =
    [osip_nict_need_timer_k_event cf (nict_context t) (state t) (transactionid t),
     osip_nict_need_timer_f_event cf (nict_context t) (state t) (transactionid t),
     osip_nict_need_timer_e_event cf (nict_context t) (state t) (transactionid t)]"

definition nist_timers :: "osip_config \<Rightarrow> osip_transaction \<Rightarrow> (osip \<Rightarrow> (osip_event option \<times> osip) option) list" where
  "nist_timers cf t =
    [osip_nist_need_timer_j_event cf (nist_context t) (state t) (transactionid t)]"

text \<open>Only the INVITE client loop leaves a transaction with pending events alone.\<close>

definition osip_timers_ict_execute :: "osip_config \<Rightarrow> osip \<Rightarrow> osip option" where
  "osip_timers_ict_execute cf s =
    each_tr (\<lambda>a s. do {
        t \<leftarrow> transactions s a;
        ff \<leftarrow> transactionff t;
        if 1 \<le> osip_fifo_size ff then Some s else timer_step (ict_timers cf) a s
      }) (osip_ict_transactions s) s"

definition osip_timers_ist_execute :: "osip_config \<Rightarrow> osip \<Rightarrow> osip option" where
  "osip_timers_ist_execute cf s = each_tr (timer_step (ist_timers cf)) (osip_ist_transactions s) s"

definition osip_timers_nict_execute :: "osip_config \<Rightarrow> osip \<Rightarrow> osip option" where
  "osip_timers_nict_execute cf s = each_tr (timer_step (nict_timers cf)) (osip_nict_transactions s) s"

definition osip_timers_nist_execute :: "osip_config \<Rightarrow> osip \<Rightarrow> osip option" where
  "osip_timers_nist_execute cf s = each_tr (timer_step (nist_timers cf)) (osip_nist_transactions s) s"

section \<open>The time to sleep\<close>

text \<open>
  The timers of one transaction that the loop looks at, in its order, and whether the loop
  stops at once for a transaction with a pending event (it does for INVITE clients only).
\<close>

definition watched :: "osip_fsm_type_t \<Rightarrow> osip_transaction \<Rightarrow> timeval list option" where
  "watched ty t =
    (case ty of
       ICT \<Rightarrow> (if state t = ICT_CALLING
               then do { c \<leftarrow> load (ict_context t); Some [timer_b_start c, timer_a_start c] }
               else if state t = ICT_COMPLETED
               then do { c \<leftarrow> load (ict_context t); Some [timer_d_start c] } else Some [])
     | IST \<Rightarrow> (if state t = IST_CONFIRMED
               then do { c \<leftarrow> load (ist_context t); Some [timer_i_start c] }
               else if state t = IST_COMPLETED
               then do { c \<leftarrow> load (ist_context t); Some [timer_h_start c, timer_g_start c] } else Some [])
     | NICT \<Rightarrow> (if state t = NICT_COMPLETED
               then do { c \<leftarrow> load (nict_context t); Some [timer_k_start c] }
               else if state t = NICT_PROCEEDING \<or> state t = NICT_TRYING
               then do { c \<leftarrow> load (nict_context t); Some [timer_f_start c, timer_e_start c] } else Some [])
     | NIST \<Rightarrow> (if state t = NIST_COMPLETED
               then do { c \<leftarrow> load (nist_context t); Some [timer_j_start c] } else Some []))"

text \<open>The first component is true once the loop has returned with a zero timeout.\<close>

fun lower_timers ::
  "osip_fsm_type_t \<Rightarrow> timeval \<Rightarrow> (nat \<rightharpoonup> osip_transaction) \<Rightarrow> nat list \<Rightarrow> timeval \<Rightarrow> (bool \<times> timeval) option" where
  "lower_timers ty now h [] lower = Some (False, lower)"
| "lower_timers ty now h (a # as) lower =
    do {
      t \<leftarrow> h a;
      pending \<leftarrow> (if ty = ICT then do { ff \<leftarrow> transactionff t; Some (1 \<le> osip_fifo_size ff) }
                  else Some False);
      if pending then Some (True, lower)
      else do {
        tvs \<leftarrow> watched ty t;
        let lower = foldl min_timercmp lower tvs;
        if osip_timer_gt now lower then Some (True, lower)
        else lower_timers ty now h as lower
      }
    }"

fun lower_ixt :: "timeval \<Rightarrow> ixt list \<Rightarrow> timeval \<Rightarrow> bool \<times> timeval" where
  "lower_ixt now [] lower = (False, lower)"
| "lower_ixt now (x # xs) lower =
    (let lower = min_timercmp lower (ixt_start x)
     in if osip_timer_gt now lower then (True, lower) else lower_ixt now xs lower)"

definition tv_zero :: timeval where
  "tv_zero = \<lparr>tv_sec = 0, tv_usec = 0\<rparr>"

definition relative_timeout :: "timeval \<Rightarrow> timeval \<Rightarrow> timeval" where
  "relative_timeout now lower =
    (let sec = tv_sec lower - tv_sec now; usec = tv_usec lower - tv_usec now;
         (sec, usec) = (if usec < 0 then (sec - 1, usec + 1000000) else (sec, usec));
         (sec, usec) = (if sec < 0 then (0, 0) else (sec, usec));
         (sec, usec) = (if usec > 1000000 then (sec + 1, usec - 1000000) else (sec, usec))
     in \<lparr>tv_sec = sec, tv_usec = usec\<rparr>)"

definition osip_timers_gettimeout :: "osip_config \<Rightarrow> osip \<Rightarrow> (timeval \<times> osip) option" where
  "osip_timers_gettimeout cf s =
    (case osip_gettimeofday cf s of (now, s) \<Rightarrow> do {
       let lower = \<lparr>tv_sec = tv_sec now + 3600 * 24 * 365, tv_usec = tv_usec now\<rparr>;
       (stop, lower) \<leftarrow> lower_timers ICT now (transactions s) (osip_ict_transactions s) lower;
       if stop then Some (tv_zero, s) else do {
       (stop, lower) \<leftarrow> lower_timers IST now (transactions s) (osip_ist_transactions s) lower;
       if stop then Some (tv_zero, s) else do {
       (stop, lower) \<leftarrow> lower_timers NICT now (transactions s) (osip_nict_transactions s) lower;
       if stop then Some (tv_zero, s) else do {
       (stop, lower) \<leftarrow> lower_timers NIST now (transactions s) (osip_nist_transactions s) lower;
       if stop then Some (tv_zero, s) else
       (case lower_ixt now (ixt_retransmissions s) lower of (stop, lower) \<Rightarrow>
         if stop then Some (tv_zero, s) else Some (relative_timeout now lower, s))
       }}}
     })"

end
