(* ===== verification/Stack_Inv.thy ===== *)
theory Stack_Inv
  imports Osip_Stack
begin

text \<open>
  The invariant of the whole stack: every message is held once, by one transaction or by
  nobody the stack knows; every transaction is as its machine wants it, has a queue whose
  events carry live messages, and is in at most one list, the one of its kind. The operations
  of \<^verbatim>\<open>Osip_Stack\<close> keep it and run into no undefined behaviour.
\<close>

lemma transactions_of_upd [simp]:
  "transactions_of ty (s\<lparr>mem := m\<rparr>) = transactions_of ty s"
  "transactions_of ty (s\<lparr>ticks := n\<rparr>) = transactions_of ty s"
  "transactions_of ty (s\<lparr>log := l\<rparr>) = transactions_of ty s"
  "transactions_of ty (s\<lparr>msgs := h\<rparr>) = transactions_of ty s"
  "transactions_of ty (s\<lparr>brk := b\<rparr>) = transactions_of ty s"
  "transactions_of ty (s\<lparr>transactions := ts\<rparr>) = transactions_of ty s"
  "transactions_of ty (s\<lparr>next_transactionid := i\<rparr>) = transactions_of ty s"
  "transactions_of ty (s\<lparr>tr_brk := b\<rparr>) = transactions_of ty s"
  by (cases ty; simp add: transactions_of_def)+

section \<open>Who holds what\<close>

definition ev_msgs :: "osip_event list \<Rightarrow> nat list" where
  "ev_msgs q = concat (map (\<lambda>e. opt_list (sip e)) q)"

definition queue_of :: "osip_transaction \<Rightarrow> osip_event list" where
  "queue_of t = (case transactionff t of None \<Rightarrow> [] | Some ff \<Rightarrow> queue ff)"

definition holds :: "osip_transaction \<Rightarrow> nat list" where
  "holds t = owned t @ ev_msgs (queue_of t)"

lemma ev_msgs_simps [simp]:
  "ev_msgs [] = []"
  "ev_msgs (e # q) = opt_list (sip e) @ ev_msgs q"
  "ev_msgs (q @ q') = ev_msgs q @ ev_msgs q'"
  by (simp_all add: ev_msgs_def)

definition queued_ok :: "(nat \<rightharpoonup> osip_message) \<Rightarrow> osip_event \<Rightarrow> bool" where
  "queued_ok h e \<longleftrightarrow>
     (case sip e of None \<Rightarrow> \<not> EVT_IS_MSG e | Some a \<Rightarrow> \<exists>m. h a = Some m \<and> event_for e m)"

definition tr_wf :: "(nat \<rightharpoonup> osip_message) \<Rightarrow> osip_transaction \<Rightarrow> bool" where
  "tr_wf h t \<longleftrightarrow> tr_ok t \<and> call_ok t \<and> (\<exists>ff. transactionff t = Some ff \<and> fifo_ok ff)
     \<and> distinct (holds t) \<and> set (holds t) \<subseteq> dom h \<and> (\<forall>e \<in> set (queue_of t). queued_ok h e)"

definition others :: "osip \<Rightarrow> nat \<Rightarrow> nat set" where
  "others s a = {x. \<exists>b u. b \<noteq> a \<and> transactions s b = Some u \<and> x \<in> set (holds u)}"

definition lists_ok :: "osip \<Rightarrow> bool" where
  "lists_ok s \<longleftrightarrow> (\<forall>ty. distinct (transactions_of ty s)
     \<and> (\<forall>a \<in> set (transactions_of ty s). \<exists>t. transactions s a = Some t \<and> ctx_type t = ty))"

definition ids_ok :: "osip \<Rightarrow> bool" where
  "ids_ok s \<longleftrightarrow> (\<forall>a t. transactions s a = Some t \<longrightarrow> a < tr_brk s \<and> transactionid t < next_transactionid s)
     \<and> (\<forall>a b t u. transactions s a = Some t \<longrightarrow> transactions s b = Some u
         \<longrightarrow> transactionid t = transactionid u \<longrightarrow> a = b)"

definition stack_ok :: "osip \<Rightarrow> bool" where
  "stack_ok s \<longleftrightarrow> heap_ok (msgs s) (brk s) (mem s) []
     \<and> (\<forall>a t. transactions s a = Some t \<longrightarrow> tr_wf (msgs s) t \<and> set (holds t) \<inter> others s a = {})
     \<and> lists_ok s \<and> ids_ok s"

section \<open>Changing one transaction\<close>

lemma stack_ok_tr:
  assumes "stack_ok s" "transactions s a = Some t"
  shows "tr_wf (msgs s) t" "set (holds t) \<inter> others s a = {}"
  using assms by (simp_all add: stack_ok_def)

lemma stack_ok_mem: "stack_ok s \<Longrightarrow> never_fails (mem s)"
  by (simp add: stack_ok_def heap_ok_def)

lemma tr_wf_queue:
  assumes "tr_wf h t"
  obtains ff where "transactionff t = Some ff" "fifo_ok ff" "queue_of t = queue ff"
  using assms by (auto simp: tr_wf_def queue_of_def)

lemma others_live: "stack_ok s \<Longrightarrow> others s a \<subseteq> dom (msgs s)"
  using stack_ok_tr(1) unfolding others_def tr_wf_def by blast

lemma queued_ok_cong:
  "queued_ok h e \<Longrightarrow> (\<forall>x \<in> set_option (sip e). h' x = h x) \<Longrightarrow> queued_ok h' e"
  by (auto simp: queued_ok_def split: option.splits)

lemma tr_wf_cong:
  assumes "tr_wf h t" "\<forall>x \<in> set (holds t). h' x = h x"
  shows "tr_wf h' t"
proof -
  have q: "queued_ok h' e" if "e \<in> set (queue_of t)" for e
  proof -
    have "set_option (sip e) \<subseteq> set (holds t)"
      using that by (auto simp: holds_def ev_msgs_def)
    then show ?thesis
      using that assms queued_ok_cong [of h e h'] by (auto simp: tr_wf_def)
  qed
  have "set (holds t) \<subseteq> dom h'" using assms by (auto simp: tr_wf_def dom_def)
  then show ?thesis using assms(1) q by (simp add: tr_wf_def)
qed

lemma others_put: "others (s\<lparr>transactions := (transactions s)(a \<mapsto> t)\<rparr>) a = others s a"
  by (auto simp: others_def)

lemma others_put_other:
  "transactions s a \<noteq> None \<Longrightarrow> b \<noteq> a
    \<Longrightarrow> others (s\<lparr>transactions := (transactions s)(a \<mapsto> t)\<rparr>) b \<subseteq> others s b \<union> set (holds t)"
  by (auto simp: others_def)

definition same_id :: "osip_transaction \<Rightarrow> osip_transaction \<Rightarrow> bool" where
  "same_id t t' \<longleftrightarrow> transactionid t' = transactionid t \<and> ctx_type t' = ctx_type t"

text \<open>One transaction and the heap change; the messages of the others do not.\<close>

definition update ::
  "nat \<Rightarrow> osip_transaction \<Rightarrow> (nat \<rightharpoonup> osip_message) \<Rightarrow> nat \<Rightarrow> mem \<Rightarrow> nat \<Rightarrow> action list \<Rightarrow> osip \<Rightarrow> osip" where
  "update a t h b m n l s = s\<lparr>msgs := h, brk := b, mem := m, ticks := n, log := l,
     transactions := (transactions s)(a \<mapsto> t)\<rparr>"

lemma update_simps [simp]:
  "msgs (update a t h b m n l s) = h" "brk (update a t h b m n l s) = b"
  "mem (update a t h b m n l s) = m" "ticks (update a t h b m n l s) = n"
  "log (update a t h b m n l s) = l"
  "transactions (update a t h b m n l s) = (transactions s)(a \<mapsto> t)"
  "transactions_of ty (update a t h b m n l s) = transactions_of ty s"
  "next_transactionid (update a t h b m n l s) = next_transactionid s"
  "tr_brk (update a t h b m n l s) = tr_brk s"
  "osip_ict_transactions (update a t h b m n l s) = osip_ict_transactions s"
  "osip_ist_transactions (update a t h b m n l s) = osip_ist_transactions s"
  "osip_nict_transactions (update a t h b m n l s) = osip_nict_transactions s"
  "osip_nist_transactions (update a t h b m n l s) = osip_nist_transactions s"
  by (simp_all add: update_def transactions_of_def split: osip_fsm_type_t.split)

lemma others_update: "others (update a t h b m n l s) c = others (s\<lparr>transactions := (transactions s)(a \<mapsto> t)\<rparr>) c"
  by (simp add: others_def)

lemma stack_ok_update:
  assumes s: "stack_ok s" and t: "transactions s a = Some t"
    and heap: "heap_ok h b m []" and wf: "tr_wf h t'" and same: "same_id t t'"
    and rest: "\<forall>x \<in> others s a. h x = msgs s x" "set (holds t') \<inter> others s a = {}"
  shows "stack_ok (update a t' h b m n l s)"
proof -
  let ?s = "update a t' h b m n l s"
  have tr: "tr_wf (msgs ?s) u \<and> set (holds u) \<inter> others ?s c = {}" if "transactions ?s c = Some u" for c u
  proof (cases "c = a")
    case True
    then show ?thesis using that wf rest(2) by (simp add: others_update others_put)
  next
    case False
    then have u: "transactions s c = Some u" using that by simp
    then have "tr_wf (msgs s) u" "set (holds u) \<inter> others s c = {}" "set (holds u) \<subseteq> others s a"
      using s False by (auto simp: stack_ok_def others_def)
    moreover from this have "tr_wf h u" using rest(1) by (auto intro: tr_wf_cong)
    moreover have "set (holds u) \<inter> others ?s c = {}"
      using others_put_other [of s a c t'] t False calculation(2,3) rest(2)
      unfolding others_update by auto
    ultimately show ?thesis by simp
  qed
  have "ids_ok ?s"
    using s t same by (auto simp: stack_ok_def ids_ok_def same_id_def)
  moreover have "lists_ok ?s"
    using s t same by (fastforce simp: stack_ok_def lists_ok_def same_id_def)
  ultimately show ?thesis using tr heap by (simp add: stack_ok_def)
qed

section \<open>Executing an event\<close>

lemma focus_simps [simp]:
  "msgs (focus s t) = msgs s" "brk (focus s t) = brk s" "mem (focus s t) = mem s"
  "ticks (focus s t) = ticks s" "log (focus s t) = log s" "tr (focus s t) = t"
  by (simp_all add: focus_def)

lemma unfocus_update: "unfocus a s' s = update a (tr s') (msgs s') (brk s') (mem s') (ticks s') (log s') s"
  by (simp add: unfocus_def update_def)

lemma tidy_kept:
  assumes "tidy e s s'" "x \<in> dom (msgs s)" "x \<notin> set (owned (tr s))" "x \<notin> set_option (sip e)"
  shows "msgs s' x = msgs s x" "x \<notin> set (owned (tr s'))"
proof -
  have t: "dom (msgs s') = (dom (msgs s) - set (owned (tr s)) - set_option (sip e)) \<union> set (owned (tr s'))"
    "\<forall>a \<in> dom (msgs s') \<inter> dom (msgs s). msgs s' a = msgs s a"
    "set (owned (tr s')) \<inter> dom (msgs s) \<subseteq> set (owned (tr s)) \<union> set_option (sip e)"
    using assms(1) unfolding heap_tidy_def by blast+
  have "x \<in> dom (msgs s')" using t(1) assms(2-4) by blast
  then show "msgs s' x = msgs s x" using t(2) assms(2) by blast
  show "x \<notin> set (owned (tr s'))" using t(3) assms(2-4) by blast
qed

lemma tr_wf_executed:
  assumes wf: "tr_wf (msgs s) (tr s)" and ex: "executes cf e s s'"
    and e: "set_option (sip e) \<inter> set (holds (tr s)) = {}"
  shows "tr_wf (msgs s') (tr s')"
proof -
  have tidy: "tidy e s s'" and ok: "tr_ok (tr s')" and same: "same_call (tr s) (tr s')"
    using ex by (simp_all add: executes_def executed_def)
  have q: "queue_of (tr s') = queue_of (tr s)" "transactionff (tr s') = transactionff (tr s)"
    using same by (simp_all add: queue_of_def same_call_def)
  have call: "call_ok (tr s')"
    using wf same by (simp add: tr_wf_def call_ok_def same_call_def)
  have ev: "set (ev_msgs (queue_of (tr s))) \<subseteq> dom (msgs s)"
    "set (ev_msgs (queue_of (tr s))) \<inter> set (owned (tr s)) = {}"
    "distinct (ev_msgs (queue_of (tr s)))"
    using wf by (auto simp: tr_wf_def holds_def)
  have kept: "msgs s' x = msgs s x \<and> x \<notin> set (owned (tr s'))" if "x \<in> set (ev_msgs (queue_of (tr s)))" for x
  proof -
    have "x \<in> dom (msgs s)" "x \<notin> set (owned (tr s))" "x \<notin> set_option (sip e)"
      using that ev e by (auto simp: holds_def)
    from tidy_kept [OF tidy this] show ?thesis by blast
  qed
  have own: "distinct (owned (tr s'))" "set (owned (tr s')) \<subseteq> dom (msgs s')"
    using tidy by (simp_all add: heap_tidy_def heap_ok_def)
  have "distinct (holds (tr s'))"
    using own(1) ev(3) kept by (auto simp: holds_def q)
  moreover have "set (holds (tr s')) \<subseteq> dom (msgs s')"
    using own(2) ev(1) kept by (auto simp: holds_def q)
  moreover have "queued_ok (msgs s') d" if "d \<in> set (queue_of (tr s))" for d
  proof -
    have "set_option (sip d) \<subseteq> set (ev_msgs (queue_of (tr s)))"
      using that by (auto simp: ev_msgs_def)
    then show ?thesis
      using wf that kept queued_ok_cong [of "msgs s" d "msgs s'"] by (auto simp: tr_wf_def)
  qed
  moreover have "\<exists>ff. transactionff (tr s) = Some ff \<and> fifo_ok ff" using wf by (simp add: tr_wf_def)
  ultimately show ?thesis using ok call by (simp add: tr_wf_def q)
qed

lemma focus_ok:
  assumes "stack_ok s" "transactions s a = Some t"
  shows "mem_ok (focus s t)" "tr_ok t"
  using assms unfolding stack_ok_def tr_wf_def heap_ok_def holds_def by auto

lemma focus_evt_ok:
  assumes "queued_ok (msgs s) e" "set_option (sip e) \<inter> set (holds t) = {}"
  shows "evt_ok e (focus s t)"
  using assms by (auto simp: queued_ok_def evt_ok_def holds_def split: option.splits)

lemma on_tr_execute_ok:
  assumes s: "stack_ok s" and t: "transactions s a = Some t"
    and e: "queued_ok (msgs s) e" "set_option (sip e) \<inter> (set (holds t) \<union> others s a) = {}"
  shows "\<exists>i s' t'. on_tr a (osip_transaction_execute cf e) s = Some (i, s') \<and> stack_ok s'
    \<and> transactions s' = (transactions s)(a \<mapsto> t') \<and> same_call t t'
    \<and> (\<forall>ty. transactions_of ty s' = transactions_of ty s)"
proof (cases "type e = KILL_TRANSACTION")
  case True
  have id: "transactions s = (transactions s)(a \<mapsto> t)" using t by auto
  have "on_tr a (osip_transaction_execute cf e) s = Some (0, unfocus a (focus s t) s)"
    using True t by (simp add: on_tr_def osip_transaction_execute_def EVT_IS_KILL_TRANSACTION_def)
  moreover have "unfocus a (focus s t) s = s"
    using id [symmetric] by (simp add: unfocus_def)
  ultimately show ?thesis
    using s t id by (intro exI [of _ 0] exI [of _ s] exI [of _ t]) simp
next
  case False
  have e': "set_option (sip e) \<inter> set (holds t) = {}" using e(2) by blast
  obtain s' where s': "osip_transaction_execute cf e (focus s t) = Some (1, s')"
    "executes cf e (focus s t) s'"
    using osip_transaction_execute_ok [OF focus_ok(1) [OF s t] _ focus_evt_ok [OF e(1) e'] False, of cf]
      focus_ok(2) [OF s t] by auto
  have tidy: "tidy e (focus s t) s'" and same: "same_call t (tr s')"
    using s'(2) by (simp_all add: executes_def executed_def)
  have t': "tr_wf (msgs s) t" "set (holds t) \<inter> others s a = {}"
    using s t by (auto simp: stack_ok_def)
  have wf: "tr_wf (msgs s') (tr s')"
    by (rule tr_wf_executed [OF _ s'(2)]) (use t'(1) e' in simp_all)
  have o: "x \<in> dom (msgs (focus s t))" "x \<notin> set (owned (tr (focus s t)))" "x \<notin> set_option (sip e)"
    if "x \<in> others s a" for x
    using that t'(2) e(2) subsetD [OF others_live [OF s] that] by (auto simp: holds_def)
  have q: "ev_msgs (queue_of (tr s')) = ev_msgs (queue_of t)"
    using same by (simp add: queue_of_def same_call_def)
  have rest: "\<forall>x \<in> others s a. msgs s' x = msgs s x" "set (holds (tr s')) \<inter> others s a = {}"
    using tidy_kept [OF tidy o] t'(2) by (auto simp: holds_def q)
  have heap: "heap_ok (msgs s') (brk s') (mem s') []"
    using tidy by (simp add: heap_tidy_def heap_ok_def)
  have "stack_ok (unfocus a s' s)"
    unfolding unfocus_update
    by (rule stack_ok_update [OF s t heap wf _ rest]) (use same in \<open>simp add: same_id_def same_call_def\<close>)
  then show ?thesis
    using s'(1) t same
    by (intro exI [of _ 1] exI [of _ "unfocus a s' s"] exI [of _ "tr s'"])
      (simp add: on_tr_def unfocus_update)
qed

section \<open>Draining a queue\<close>

lemma put_tr_update: "put_tr a t s = update a t (msgs s) (brk s) (mem s) (ticks s) (log s) s"
  by (simp add: put_tr_def update_def)

lemma tr_ok_queue [simp]:
  "tr_ok (t\<lparr>transactionff := ff\<rparr>) = tr_ok t" "call_ok (t\<lparr>transactionff := ff\<rparr>) = call_ok t"
  by (simp_all add: tr_ok_def call_ok_def ict_ok_def ist_ok_def nict_ok_def nist_ok_def
      split: osip_fsm_type_t.split)

lemma stack_ok_queue:
  assumes s: "stack_ok s" and t: "transactions s a = Some t" and ff: "fifo_ok ff"
    and q: "distinct (owned t @ ev_msgs (queue ff))" "set (ev_msgs (queue ff)) \<subseteq> dom (msgs s)"
      "\<forall>e \<in> set (queue ff). queued_ok (msgs s) e" "set (ev_msgs (queue ff)) \<inter> others s a = {}"
    and m: "never_fails m"
  shows "stack_ok (put_tr a (t\<lparr>transactionff := Some ff\<rparr>) (s\<lparr>mem := m\<rparr>))"
proof -
  let ?t = "t\<lparr>transactionff := Some ff\<rparr>"
  have t': "tr_wf (msgs s) t" "set (holds t) \<inter> others s a = {}"
    using s t by (auto simp: stack_ok_def)
  have h: "holds ?t = owned t @ ev_msgs (queue ff)" "queue_of ?t = queue ff"
    by (simp_all add: holds_def queue_of_def)
  have "tr_wf (msgs s) ?t"
    using t'(1) ff q(1-3) unfolding tr_wf_def h by (auto simp: holds_def)
  moreover have "set (holds ?t) \<inter> others s a = {}"
    using t'(2) q(4) unfolding h by (auto simp: holds_def)
  moreover have "heap_ok (msgs s) (brk s) m []"
    using s m by (simp add: stack_ok_def heap_ok_def)
  moreover have "put_tr a ?t (s\<lparr>mem := m\<rparr>) = update a ?t (msgs s) (brk s) m (ticks s) (log s) s"
    by (simp add: put_tr_def update_def)
  ultimately show ?thesis
    using stack_ok_update [OF s t, of "msgs s" "brk s" m ?t "ticks s" "log s"] by (simp add: same_id_def)
qed

lemma drain_ok:
  assumes "stack_ok s" "transactions s a = Some t"
  shows "\<exists>s' t'. drain cf a s = Some s' \<and> stack_ok s' \<and> transactions s' = (transactions s)(a \<mapsto> t')
    \<and> queue_of t' = [] \<and> same_id t t' \<and> (\<forall>ty. transactions_of ty s' = transactions_of ty s)"
  using assms
proof (induction "length (queue_of t)" arbitrary: s t)
  case 0
  obtain ff where ff: "transactionff t = Some ff" "fifo_ok ff"
    using tr_wf_queue [OF stack_ok_tr(1) [OF 0(2,3)]] by blast
  have q: "queue ff = []" using 0(1) ff by (simp add: queue_of_def)
  have get: "osip_fifo_tryget ff = (None, ff)"
    using ff(2) q by (simp add: osip_fifo_tryget_def fifo_ok_def)
  have same: "t\<lparr>transactionff := transactionff t\<rparr> = t" by simp
  have t: "t\<lparr>transactionff := Some ff\<rparr> = t" using same unfolding ff(1) .
  have "(transactions s)(a \<mapsto> t) = transactions s" using 0(3) by auto
  then have "put_tr a t s = s" by (simp add: put_tr_def)
  then have "drain cf a s = Some s"
    using 0(3) ff(1) get by (subst drain.simps) (simp add: Let_def t)
  then show ?case
    using 0 \<open>(transactions s)(a \<mapsto> t) = transactions s\<close>
    by (intro exI [of _ s] exI [of _ t]) (simp add: same_id_def)
next
  case (Suc n)
  obtain ff where ff: "transactionff t = Some ff" "fifo_ok ff"
    using tr_wf_queue [OF stack_ok_tr(1) [OF Suc.prems]] by blast
  obtain e q where q: "queue ff = e # q" "length q = n"
    using Suc(2) ff by (cases "queue ff") (auto simp: queue_of_def)
  obtain ff' where get: "osip_fifo_tryget ff = (Some e, ff')" "fifo_ok ff'" "queue ff' = q"
    using osip_fifo_tryget_ok [OF ff(2)] q by auto
  let ?t = "t\<lparr>transactionff := Some ff'\<rparr>"
  let ?s = "put_tr a ?t s"
  have wf: "tr_wf (msgs s) t" "set (holds t) \<inter> others s a = {}" "never_fails (mem s)"
    using stack_ok_tr [OF Suc.prems] stack_ok_mem [OF Suc.prems(1)] by blast+
  have h: "holds t = owned t @ opt_list (sip e) @ ev_msgs q" "queue_of t = e # q"
    using ff q by (simp_all add: holds_def queue_of_def)
  have "stack_ok (put_tr a ?t (s\<lparr>mem := mem s\<rparr>))"
    by (rule stack_ok_queue [OF Suc.prems get(2)])
      (use wf get(3) h in \<open>auto simp: tr_wf_def\<close>)
  then have ok: "stack_ok ?s" by simp
  have at: "transactions ?s a = Some ?t" "msgs ?s = msgs s" by (simp_all add: put_tr_def)
  have oth: "others ?s a = others s a" by (simp add: put_tr_def others_put)
  have e: "queued_ok (msgs ?s) e" "set_option (sip e) \<inter> (set (holds ?t) \<union> others ?s a) = {}"
    using wf(1,2) h get(3) unfolding oth by (auto simp: tr_wf_def holds_def queue_of_def put_tr_def)
  obtain i s1 t1 where s1: "on_tr a (osip_transaction_execute cf e) ?s = Some (i, s1)" "stack_ok s1"
    "transactions s1 = (transactions ?s)(a \<mapsto> t1)" "same_call ?t t1"
    "\<forall>ty. transactions_of ty s1 = transactions_of ty ?s"
    using on_tr_execute_ok [OF ok at(1) e, of cf] by blast
  have t1: "transactions s1 a = Some t1" "n = length (queue_of t1)"
    using s1(3,4) get(3) q(2) by (simp_all add: queue_of_def same_call_def)
  obtain s2 t2 where s2: "drain cf a s1 = Some s2" "stack_ok s2"
    "transactions s2 = (transactions s1)(a \<mapsto> t2)" "queue_of t2 = []" "same_id t1 t2"
    "\<forall>ty. transactions_of ty s2 = transactions_of ty s1"
    using Suc(1) [OF t1(2) s1(2) t1(1)] by blast
  have "drain cf a s = Some s2"
    using Suc.prems(2) ff(1) get(1) s1(1) s2(1) by (subst drain.simps) (simp add: Let_def)
  moreover have "transactions s2 = (transactions s)(a \<mapsto> t2)"
    using s2(3) s1(3) by (simp add: put_tr_def)
  moreover have "same_id t t2" using s1(4) s2(5) by (simp add: same_id_def same_call_def)
  moreover have "transactions_of ty s2 = transactions_of ty s" for ty
    using s1(5) s2(6) by (simp add: put_tr_def transactions_of_def split: osip_fsm_type_t.split)
  ultimately show ?case using s2(2,4) by blast
qed

lemma drain_all_ok:
  assumes "stack_ok s" "set l \<subseteq> dom (transactions s)"
  shows "\<exists>s'. drain_all cf l s = Some s' \<and> stack_ok s' \<and> dom (transactions s') = dom (transactions s)
    \<and> (\<forall>ty. transactions_of ty s' = transactions_of ty s)
    \<and> (\<forall>a \<in> set l. \<forall>t. transactions s' a = Some t \<longrightarrow> queue_of t = [])
    \<and> (\<forall>a. a \<notin> set l \<longrightarrow> transactions s' a = transactions s a)"
  using assms
proof (induction l arbitrary: s)
  case Nil
  then show ?case by simp
next
  case (Cons a l)
  obtain t where t: "transactions s a = Some t" using Cons.prems(2) by auto
  obtain s1 t1 where s1: "drain cf a s = Some s1" "stack_ok s1"
    "transactions s1 = (transactions s)(a \<mapsto> t1)" "queue_of t1 = []"
    "\<forall>ty. transactions_of ty s1 = transactions_of ty s"
    using drain_ok [OF Cons.prems(1) t, of cf] by blast
  have d1: "dom (transactions s1) = dom (transactions s)" using s1(3) t by auto
  then have "set l \<subseteq> dom (transactions s1)" using Cons.prems(2) by simp
  from Cons.IH [OF s1(2) this] obtain s2 where s2: "drain_all cf l s1 = Some s2" "stack_ok s2"
    "dom (transactions s2) = dom (transactions s1)"
    "\<forall>ty. transactions_of ty s2 = transactions_of ty s1"
    "\<forall>a \<in> set l. \<forall>t. transactions s2 a = Some t \<longrightarrow> queue_of t = []"
    "\<forall>a. a \<notin> set l \<longrightarrow> transactions s2 a = transactions s1 a"
    by blast
  have a: "transactions s2 a = Some t1 \<or> a \<in> set l" using s2(6) s1(3) by auto
  have "\<forall>b \<in> set (a # l). \<forall>t. transactions s2 b = Some t \<longrightarrow> queue_of t = []"
    using a s2(5) s1(4) by auto
  moreover have "\<forall>b. b \<notin> set (a # l) \<longrightarrow> transactions s2 b = transactions s b"
    using s2(6) s1(3) by simp
  ultimately show ?case using s1(1,5) s2(1-4) d1 by simp
qed

lemma lists_dom: "stack_ok s \<Longrightarrow> set (transactions_of ty s) \<subseteq> dom (transactions s)"
  unfolding stack_ok_def lists_ok_def by blast

lemma stack_ok_mem_upd: "stack_ok s \<Longrightarrow> never_fails m \<Longrightarrow> stack_ok (s\<lparr>mem := m\<rparr>)"
  by (simp add: stack_ok_def heap_ok_def others_def lists_ok_def ids_ok_def)

lemma execute_list_ok:
  assumes "stack_ok s"
  shows "\<exists>s'. execute_list cf (transactions_of ty s) s = Some (OSIP_SUCCESS, s') \<and> stack_ok s'
    \<and> (\<forall>ty. transactions_of ty s' = transactions_of ty s)
    \<and> (\<forall>a \<in> set (transactions_of ty s). \<forall>t. transactions s' a = Some t \<longrightarrow> queue_of t = [])"
proof (cases "transactions_of ty s")
  case Nil
  then show ?thesis using assms by (simp add: execute_list_def)
next
  case (Cons a l)
  obtain m where m: "osip_malloc (mem s) = (True, m)" "never_fails m"
    using osip_malloc_never_fails [OF stack_ok_mem [OF assms]] by blast
  let ?s = "s\<lparr>mem := m\<rparr>"
  have same: "transactions_of ty ?s = transactions_of ty s" for ty by simp
  have "set (transactions_of ty s) \<subseteq> dom (transactions ?s)" using lists_dom [OF assms] by simp
  from drain_all_ok [OF stack_ok_mem_upd [OF assms m(2)] this, of cf] obtain s' where
    s': "drain_all cf (transactions_of ty s) ?s = Some s'" "stack_ok s'"
    "\<forall>ty. transactions_of ty s' = transactions_of ty s"
    "\<forall>a \<in> set (transactions_of ty s). \<forall>t. transactions s' a = Some t \<longrightarrow> queue_of t = []"
    unfolding same by blast
  moreover have "execute_list cf (transactions_of ty s) s = Some (OSIP_SUCCESS, s')"
    using s'(1) m(1) Cons by (auto simp: execute_list_def bind_eq_Some_conv)
  ultimately show ?thesis by blast
qed

lemma execute_as_list:
  "osip_ict_execute cf s = execute_list cf (transactions_of ICT s) s"
  "osip_ist_execute cf s = execute_list cf (transactions_of IST s) s"
  "osip_nict_execute cf s = execute_list cf (transactions_of NICT s) s"
  "osip_nist_execute cf s = execute_list cf (transactions_of NIST s) s"
  by (simp_all add: osip_ict_execute_def osip_ist_execute_def osip_nict_execute_def
      osip_nist_execute_def transactions_of_def)

section \<open>Queueing events\<close>

text \<open>The transactions and the lists are the same but for what a step may change.\<close>

definition id_of :: "osip_transaction \<Rightarrow> int \<times> osip_fsm_type_t" where
  "id_of t = (transactionid t, ctx_type t)"

lemma same_id_id_of: "same_id t t' \<longleftrightarrow> id_of t' = id_of t"
  by (simp add: same_id_def id_of_def)

definition keeps :: "osip \<Rightarrow> osip \<Rightarrow> bool" where
  "keeps s s' \<longleftrightarrow> stack_ok s' \<and> (\<forall>ty. transactions_of ty s' = transactions_of ty s)
     \<and> (\<forall>a. map_option id_of (transactions s' a) = map_option id_of (transactions s a))"

lemma same_id_refl [simp]: "same_id t t"
  by (simp add: same_id_def)

lemma keeps_refl: "stack_ok s \<Longrightarrow> keeps s s"
  by (simp add: keeps_def)

lemma keeps_trans: "keeps s s1 \<Longrightarrow> keeps s1 s2 \<Longrightarrow> keeps s s2"
  by (simp add: keeps_def)

lemma keeps_same_tr:
  "stack_ok s' \<Longrightarrow> transactions s' = transactions s \<Longrightarrow> (\<forall>ty. transactions_of ty s' = transactions_of ty s)
    \<Longrightarrow> keeps s s'"
  by (simp add: keeps_def)

lemma keeps_tr:
  assumes "keeps s s'" "transactions s a = Some t"
  obtains t' where "transactions s' a = Some t'" "same_id t t'"
proof -
  have "map_option id_of (transactions s' a) = Some (id_of t)"
    using assms by (simp add: keeps_def)
  then show thesis using that by (auto simp: same_id_id_of)
qed

text \<open>An event of a timer carries no message.\<close>

definition timer_event :: "osip_event \<Rightarrow> bool" where
  "timer_event e \<longleftrightarrow> sip e = None \<and> \<not> EVT_IS_MSG e"

lemma add_event_ok:
  assumes s: "stack_ok s" and t: "transactions s a = Some t" and ff: "transactionff t = Some ff"
    and e: "queued_ok (msgs s) e" "set_option (sip e) \<inter> (set (holds t) \<union> others s a) = {}"
  shows "\<exists>ff' m. osip_fifo_add ff e (mem s) = ((OSIP_SUCCESS, ff'), m) \<and> queue ff' = queue ff @ [e]
    \<and> keeps s (put_tr a (t\<lparr>transactionff := Some ff'\<rparr>) (s\<lparr>mem := m\<rparr>))"
proof -
  have wf: "tr_wf (msgs s) t" "set (holds t) \<inter> others s a = {}" using stack_ok_tr [OF s t] by blast+
  then have ffok: "fifo_ok ff" using ff by (auto simp: tr_wf_def)
  obtain m where m: "osip_malloc (mem s) = (True, m)" "never_fails m"
    using osip_malloc_never_fails [OF stack_ok_mem [OF s]] by blast
  obtain ff' where ff': "osip_fifo_add ff e (mem s) = ((OSIP_SUCCESS, ff'), m)" "fifo_ok ff'"
    "queue ff' = queue ff @ [e]"
    using osip_fifo_add_ok [OF ffok m(1)] by blast
  let ?s = "put_tr a (t\<lparr>transactionff := Some ff'\<rparr>) (s\<lparr>mem := m\<rparr>)"
  have h: "holds t = owned t @ ev_msgs (queue ff)" "queue_of t = queue ff"
    using ff by (simp_all add: holds_def queue_of_def)
  have "set_option (sip e) \<subseteq> dom (msgs s)"
    using e(1) by (auto simp: queued_ok_def split: option.splits)
  moreover have "distinct (opt_list (sip e))" by (cases "sip e") simp_all
  ultimately have "stack_ok ?s"
    using wf e h ff'(3) m(2)
    by (intro stack_ok_queue [OF s t ff'(2)]) (auto simp: tr_wf_def)
  moreover have "transactions_of ty ?s = transactions_of ty s" for ty by (simp add: put_tr_def)
  moreover have "map_option id_of (transactions ?s b) = map_option id_of (transactions s b)" for b
    using t by (simp add: put_tr_def id_of_def)
  ultimately show ?thesis using ff'(1,3) by (auto simp: keeps_def)
qed

lemma queue_event_ok:
  assumes "stack_ok s" "transactions s a = Some t" "timer_event e"
  shows "\<exists>s' t'. queue_event a e s = Some s' \<and> keeps s s' \<and> transactions s' a = Some t'
    \<and> queue_of t' = queue_of t @ [e]"
proof -
  obtain ff where ff: "transactionff t = Some ff" "queue_of t = queue ff"
    using tr_wf_queue [OF stack_ok_tr(1) [OF assms(1,2)]] by blast
  have "queued_ok (msgs s) e" "set_option (sip e) \<inter> (set (holds t) \<union> others s a) = {}"
    using assms(3) by (simp_all add: timer_event_def queued_ok_def)
  from add_event_ok [OF assms(1,2) ff(1) this] obtain ff' m where
    "osip_fifo_add ff e (mem s) = ((OSIP_SUCCESS, ff'), m)" "queue ff' = queue ff @ [e]"
    "keeps s (put_tr a (t\<lparr>transactionff := Some ff'\<rparr>) (s\<lparr>mem := m\<rparr>))" by blast
  then show ?thesis
    using assms(2) ff by (simp add: queue_event_def queue_of_def put_tr_def)
qed

section \<open>Timers\<close>

lemma need_timer_x_ok:
  assumes "p = Live c" "never_fails (mem w)"
  shows "\<exists>m. osip_transaction_need_timer_x_event cf p f cond tid ty w
      = Some (if cond \<and> tv_sec (f c) \<noteq> -1 \<and> osip_timer_gt (clock cf (ticks w)) (f c)
              then Some \<lparr>type = ty, ev_transactionid = tid, sip = None\<rparr> else None,
          w\<lparr>mem := m, ticks := ticks w + 1\<rparr>) \<and> never_fails m"
proof (cases "cond \<and> tv_sec (f c) \<noteq> -1 \<and> osip_timer_gt (clock cf (ticks w)) (f c)")
  case True
  obtain m where "osip_malloc (mem w) = (True, m)" "never_fails m"
    using osip_malloc_never_fails [OF assms(2)] by blast
  then show ?thesis
    using True assms
    by (intro exI [of _ m])
      (simp add: osip_transaction_need_timer_x_event_def osip_gettimeofday_def osip_event_new_def)
next
  case False
  then show ?thesis
    using assms
    by (intro exI [of _ "mem w"])
      (auto simp: osip_transaction_need_timer_x_event_def osip_gettimeofday_def)
qed

definition asks :: "(osip \<Rightarrow> (osip_event option \<times> osip) option) \<Rightarrow> bool" where
  "asks f \<longleftrightarrow> (\<forall>s. stack_ok s \<longrightarrow> (\<exists>e s'. f s = Some (e, s') \<and> stack_ok s' \<and> transactions s' = transactions s
     \<and> (\<forall>ty. transactions_of ty s' = transactions_of ty s) \<and> (\<forall>x. e = Some x \<longrightarrow> timer_event x)))"

lemma stack_ok_ticks: "stack_ok (s\<lparr>ticks := n\<rparr>) = stack_ok s"
  by (simp add: stack_ok_def heap_ok_def others_def lists_ok_def ids_ok_def)

lemma need_timer_asks:
  assumes "p = Live c" "ty \<in> {TIMEOUT_A, TIMEOUT_B, TIMEOUT_D, TIMEOUT_E, TIMEOUT_F, TIMEOUT_K,
    TIMEOUT_G, TIMEOUT_H, TIMEOUT_I, TIMEOUT_J}"
  shows "asks (osip_transaction_need_timer_x_event cf p f cond tid ty)"
  unfolding asks_def
proof (intro allI impI)
  fix s :: osip
  assume s: "stack_ok s"
  let ?e = "if cond \<and> tv_sec (f c) \<noteq> -1 \<and> osip_timer_gt (clock cf (ticks s)) (f c)
      then Some \<lparr>type = ty, ev_transactionid = tid, sip = None\<rparr> else None"
  obtain m where r: "osip_transaction_need_timer_x_event cf p f cond tid ty s
      = Some (?e, s\<lparr>mem := m, ticks := ticks s + 1\<rparr>)" "never_fails m"
    using need_timer_x_ok [OF assms(1) stack_ok_mem [OF s], of cf f cond tid ty] by blast
  have "stack_ok (s\<lparr>mem := m, ticks := ticks s + 1\<rparr>)"
    using stack_ok_mem_upd [OF s r(2)] stack_ok_ticks by simp
  moreover have "timer_event x" if "?e = Some x" for x
    using that assms(2) by (auto simp: timer_event_def evt_kind_defs split: if_splits)
  ultimately show "\<exists>e s'. osip_transaction_need_timer_x_event cf p f cond tid ty s = Some (e, s')
      \<and> stack_ok s' \<and> transactions s' = transactions s
      \<and> (\<forall>ty. transactions_of ty s' = transactions_of ty s) \<and> (\<forall>x. e = Some x \<longrightarrow> timer_event x)"
    using r(1) by (intro exI [of _ ?e]) simp
qed

lemma first_event_ok:
  assumes "\<forall>f \<in> set fs. asks f"
  shows "asks (first_event fs)"
  using assms
proof (induction fs)
  case Nil
  then show ?case by (simp add: asks_def)
next
  case (Cons f fs)
  have f: "asks f" and fs: "asks (first_event fs)" using Cons by simp_all
  show ?case
    unfolding asks_def
  proof (intro allI impI)
    fix s assume s: "stack_ok s"
    obtain e s1 where 1: "f s = Some (e, s1)" "stack_ok s1" "transactions s1 = transactions s"
      "\<forall>ty. transactions_of ty s1 = transactions_of ty s" "\<forall>x. e = Some x \<longrightarrow> timer_event x"
      using f s unfolding asks_def by blast
    obtain e2 s2 where 2: "first_event fs s1 = Some (e2, s2)" "stack_ok s2" "transactions s2 = transactions s1"
      "\<forall>ty. transactions_of ty s2 = transactions_of ty s1" "\<forall>x. e2 = Some x \<longrightarrow> timer_event x"
      using fs 1(2) unfolding asks_def by blast
    show "\<exists>e s'. first_event (f # fs) s = Some (e, s') \<and> stack_ok s' \<and> transactions s' = transactions s
        \<and> (\<forall>ty. transactions_of ty s' = transactions_of ty s) \<and> (\<forall>x. e = Some x \<longrightarrow> timer_event x)"
      using 1 2 by (cases e) simp_all
  qed
qed

lemma timer_step_ok:
  assumes s: "stack_ok s" and t: "transactions s a = Some t" and f: "\<forall>f \<in> set (timers t). asks f"
  shows "\<exists>s'. timer_step timers a s = Some s' \<and> keeps s s'"
proof -
  obtain e s1 where 1: "first_event (timers t) s = Some (e, s1)" "stack_ok s1"
    "transactions s1 = transactions s" "\<forall>ty. transactions_of ty s1 = transactions_of ty s"
    "\<forall>x. e = Some x \<longrightarrow> timer_event x"
    using first_event_ok [OF f] s unfolding asks_def by blast
  have k: "keeps s s1" using keeps_same_tr 1(2-4) by blast
  show ?thesis
  proof (cases e)
    case None
    then show ?thesis using 1(1) t k by (simp add: timer_step_def)
  next
    case (Some x)
    then obtain s2 where "queue_event a x s1 = Some s2" "keeps s1 s2"
      using queue_event_ok [OF 1(2), of a t x] 1(3,5) t by auto
    then show ?thesis using Some 1(1) t keeps_trans [OF k] by (auto simp: timer_step_def)
  qed
qed

lemma each_tr_ok:
  assumes "stack_ok s"
    "\<And>a s t. stack_ok s \<Longrightarrow> transactions s a = Some t \<Longrightarrow> ctx_type t = ty \<Longrightarrow> \<exists>s'. f a s = Some s' \<and> keeps s s'"
    "\<forall>a \<in> set l. \<exists>t. transactions s a = Some t \<and> ctx_type t = ty"
  shows "\<exists>s'. each_tr f l s = Some s' \<and> keeps s s'"
  using assms(1,3)
proof (induction l arbitrary: s)
  case Nil
  then show ?case by (simp add: keeps_refl)
next
  case (Cons a l)
  then obtain t where t: "transactions s a = Some t" "ctx_type t = ty" by auto
  obtain s1 where s1: "f a s = Some s1" "keeps s s1" using assms(2) [OF Cons.prems(1) t] by blast
  have "\<exists>t. transactions s1 b = Some t \<and> ctx_type t = ty" if b: "b \<in> set l" for b
  proof -
    obtain u where u: "transactions s b = Some u" "ctx_type u = ty" using Cons.prems(2) b by auto
    obtain u' where "transactions s1 b = Some u'" "same_id u u'" using keeps_tr [OF s1(2) u(1)] .
    then show ?thesis using u(2) by (simp add: same_id_def)
  qed
  then obtain s2 where "each_tr f l s1 = Some s2" "keeps s1 s2"
    using Cons.IH [of s1] s1(2) by (auto simp: keeps_def)
  then show ?case using s1 keeps_trans by auto
qed

lemma tr_ok_context:
  "tr_ok t \<Longrightarrow> ctx_type t = ICT \<Longrightarrow> \<exists>c. ict_context t = Live c"
  "tr_ok t \<Longrightarrow> ctx_type t = IST \<Longrightarrow> \<exists>c. ist_context t = Live c"
  "tr_ok t \<Longrightarrow> ctx_type t = NICT \<Longrightarrow> \<exists>c. nict_context t = Live c"
  "tr_ok t \<Longrightarrow> ctx_type t = NIST \<Longrightarrow> \<exists>c. nist_context t = Live c"
  by (simp_all add: tr_ok_def ict_ok_def ist_ok_def nict_ok_def nist_ok_def)

lemma ict_timers_asks:
  assumes "tr_ok t" "ctx_type t = ICT"
  shows "\<forall>f \<in> set (ict_timers cf t). asks f"
proof -
  obtain c where "ict_context t = Live c" using tr_ok_context(1) [OF assms] by blast
  then show ?thesis
    unfolding ict_timers_def osip_ict_need_timer_a_event_def
      osip_ict_need_timer_b_event_def
      osip_ict_need_timer_d_event_def
    by (simp add: need_timer_asks)
qed

lemma ist_timers_asks:
  assumes "tr_ok t" "ctx_type t = IST"
  shows "\<forall>f \<in> set (ist_timers cf t). asks f"
proof -
  obtain c where "ist_context t = Live c" using tr_ok_context(2) [OF assms] by blast
  then show ?thesis
    unfolding ist_timers_def osip_ist_need_timer_g_event_def
      osip_ist_need_timer_h_event_def
      osip_ist_need_timer_i_event_def
    by (simp add: need_timer_asks)
qed

lemma nict_timers_asks:
  assumes "tr_ok t" "ctx_type t = NICT"
  shows "\<forall>f \<in> set (nict_timers cf t). asks f"
proof -
  obtain c where "nict_context t = Live c" using tr_ok_context(3) [OF assms] by blast
  then show ?thesis
    unfolding nict_timers_def osip_nict_need_timer_e_event_def
      osip_nict_need_timer_f_event_def
      osip_nict_need_timer_k_event_def
    by (simp add: need_timer_asks)
qed

lemma nist_timers_asks:
  assumes "tr_ok t" "ctx_type t = NIST"
  shows "\<forall>f \<in> set (nist_timers cf t). asks f"
proof -
  obtain c where "nist_context t = Live c" using tr_ok_context(4) [OF assms] by blast
  then show ?thesis
    unfolding nist_timers_def osip_nist_need_timer_j_event_def
    by (simp add: need_timer_asks)
qed

lemma stack_ok_list:
  "stack_ok s \<Longrightarrow> \<forall>a \<in> set (transactions_of ty s). \<exists>t. transactions s a = Some t \<and> ctx_type t = ty"
  by (simp add: stack_ok_def lists_ok_def)

lemma stack_ok_tr_ok: "stack_ok s \<Longrightarrow> transactions s a = Some t \<Longrightarrow> tr_ok t"
  by (simp add: stack_ok_def tr_wf_def)

lemma timers_execute_ok:
  assumes "stack_ok s"
  shows "\<exists>s'. osip_timers_ict_execute cf s = Some s' \<and> keeps s s'"
    and "\<exists>s'. osip_timers_ist_execute cf s = Some s' \<and> keeps s s'"
    and "\<exists>s'. osip_timers_nict_execute cf s = Some s' \<and> keeps s s'"
    and "\<exists>s'. osip_timers_nist_execute cf s = Some s' \<and> keeps s s'"
proof -
  have l: "osip_ict_transactions s = transactions_of ICT s" "osip_ist_transactions s = transactions_of IST s"
    "osip_nict_transactions s = transactions_of NICT s" "osip_nist_transactions s = transactions_of NIST s"
    by (simp_all add: transactions_of_def)
  show "\<exists>s'. osip_timers_ict_execute cf s = Some s' \<and> keeps s s'"
    unfolding osip_timers_ict_execute_def l
  proof (rule each_tr_ok [OF assms _ stack_ok_list [OF assms]])
    fix a s t
    assume *: "stack_ok s" "transactions s a = Some t" "ctx_type t = ICT"
    obtain ff where ff: "transactionff t = Some ff"
      using tr_wf_queue [OF stack_ok_tr(1) [OF *(1,2)]] by blast
    have "\<exists>s'. timer_step (ict_timers cf) a s = Some s' \<and> keeps s s'"
      by (rule timer_step_ok [OF *(1,2)]) (rule ict_timers_asks [OF stack_ok_tr_ok [OF *(1,2)] *(3)])
    then show "\<exists>s'. (do { t \<leftarrow> transactions s a; ff \<leftarrow> transactionff t;
        if 1 \<le> osip_fifo_size ff then Some s else timer_step (ict_timers cf) a s }) = Some s' \<and> keeps s s'"
      using * ff keeps_refl by simp
  qed
  show "\<exists>s'. osip_timers_ist_execute cf s = Some s' \<and> keeps s s'"
    unfolding osip_timers_ist_execute_def l
    by (rule each_tr_ok [OF assms timer_step_ok stack_ok_list [OF assms]])
      (use ist_timers_asks stack_ok_tr_ok in blast)+
  show "\<exists>s'. osip_timers_nict_execute cf s = Some s' \<and> keeps s s'"
    unfolding osip_timers_nict_execute_def l
    by (rule each_tr_ok [OF assms timer_step_ok stack_ok_list [OF assms]])
      (use nict_timers_asks stack_ok_tr_ok in blast)+
  show "\<exists>s'. osip_timers_nist_execute cf s = Some s' \<and> keeps s s'"
    unfolding osip_timers_nist_execute_def l
    by (rule each_tr_ok [OF assms timer_step_ok stack_ok_list [OF assms]])
      (use nist_timers_asks stack_ok_tr_ok in blast)+
qed

section \<open>Finding a transaction\<close>

lemma find_first_ok:
  assumes "\<forall>a \<in> set l. \<forall>m. never_fails m \<longrightarrow> (\<exists>m'. p a m = Some (q a, m') \<and> never_fails m')" "never_fails m"
  shows "\<exists>m'. find_first p l m = Some (List.find q l, m') \<and> never_fails m'"
  using assms
proof (induction l arbitrary: m)
  case Nil
  then show ?case by simp
next
  case (Cons a l)
  obtain m1 where m1: "p a m = Some (q a, m1)" "never_fails m1" using Cons.prems by auto
  show ?case
  proof (cases "q a")
    case True
    then show ?thesis using m1 by simp
  next
    case False
    then show ?thesis using m1 Cons.IH [of m1] Cons.prems(1) by simp
  qed
qed

text \<open>Which transactions an event matches.\<close>

definition matches :: "osip \<Rightarrow> osip_event \<Rightarrow> osip_message \<Rightarrow> nat \<Rightarrow> bool" where
  "matches s e r a =
    (case transactions s a of None \<Rightarrow> False
     | Some t \<Rightarrow>
         if EVT_IS_INCOMINGREQ e then
           map_option fst (matching_request_osip_to_xist_17_2_3 (msgs s) (Some t) (Some r) []) = Some OSIP_SUCCESS
         else if EVT_IS_INCOMINGRESP e then
           matching_response_osip_to_xict_17_1_3 (Some t) (Some r) = Some OSIP_SUCCESS
         else transactionid t = ev_transactionid e)"

lemma matching_response_defined:
  assumes "call_ok t" "msg_ok r"
  shows "\<exists>i. matching_response_osip_to_xict_17_1_3 (Some t) (Some r) = Some i"
proof (cases "ict_context t = Null \<and> nict_context t = Null")
  case True
  then show ?thesis by (simp add: matching_response_osip_to_xict_17_1_3_def)
next
  case False
  then show ?thesis using matching_response_ok [OF _ assms] by blast
qed

lemma matches_request:
  assumes s: "stack_ok s" and t: "transactions s a = Some t" and r: "msg_ok r" "msg_to r \<noteq> None"
    and e: "EVT_IS_INCOMINGREQ e" and m: "never_fails m"
  shows "\<exists>m'. (do { t \<leftarrow> transactions s a;
        (i, m) \<leftarrow> matching_request_osip_to_xist_17_2_3 (msgs s) (Some t) (Some r) m;
        Some (i = 0, m) }) = Some (matches s e r a, m') \<and> never_fails m'"
proof -
  have wf: "tr_wf (msgs s) t" using stack_ok_tr(1) [OF s t] .
  have orig: "\<forall>b. orig_request t = Some b \<longrightarrow> (\<exists>x. msgs s b = Some x \<and> msg_ok x)"
  proof (intro allI impI)
    fix b assume "orig_request t = Some b"
    then have "b \<in> dom (msgs s)" using wf by (auto simp: tr_wf_def holds_def owned3_def)
    then show "\<exists>x. msgs s b = Some x \<and> msg_ok x" using s by (auto simp: stack_ok_def heap_ok_def)
  qed
  have call: "call_ok t" using wf by (simp add: tr_wf_def)
  obtain q where q: "\<forall>m. never_fails m \<longrightarrow>
      (\<exists>i m'. matching_request_osip_to_xist_17_2_3 (msgs s) (Some t) (Some r) m = Some (i, m')
        \<and> never_fails m' \<and> (i = 0 \<longleftrightarrow> q))"
    using matching_request_defined [OF call r orig] by blast
  then obtain i0 m0 where "matching_request_osip_to_xist_17_2_3 (msgs s) (Some t) (Some r) [] = Some (i0, m0)"
    "i0 = 0 \<longleftrightarrow> q" using never_fails_Nil by blast
  then have "matches s e r a \<longleftrightarrow> q" using t e by (simp add: matches_def)
  moreover obtain i m' where
    "matching_request_osip_to_xist_17_2_3 (msgs s) (Some t) (Some r) m = Some (i, m')" "never_fails m'"
    "i = 0 \<longleftrightarrow> q" using q m by blast
  ultimately show ?thesis using t by simp
qed

lemma osip_transaction_find_ok:
  assumes s: "stack_ok s" and l: "set l \<subseteq> dom (transactions s)"
    and r: "sip e = Some ra" "msgs s ra = Some r" "msg_to r \<noteq> None"
  shows "\<exists>m. osip_transaction_find l e s = Some (List.find (matches s e r) l, m) \<and> never_fails m"
proof (cases l)
  case Nil
  then show ?thesis using stack_ok_mem [OF s] by (simp add: osip_transaction_find_def)
next
  case (Cons a l')
  then obtain t where t: "transactions s a = Some t" using l by auto
  have cfg: "config t"
    using stack_ok_tr_ok [OF s t]
    by (auto simp: tr_ok_def ict_ok_def ist_ok_def nict_ok_def nist_ok_def split: osip_fsm_type_t.splits)
  have m: "never_fails (mem s)" using stack_ok_mem [OF s] .
  have msg: "msg_ok r" using s r(2) by (simp add: stack_ok_def heap_ok_def)
  have live: "\<exists>t. transactions s b = Some t" if "b \<in> set l" for b using l that by auto
  note start = osip_transaction_find_def [of l e s]
  show ?thesis
  proof (cases "EVT_IS_INCOMINGREQ e")
    case True
    have "\<exists>m. find_first (\<lambda>a m. do { t \<leftarrow> transactions s a;
                  (i, m) \<leftarrow> matching_request_osip_to_xist_17_2_3 (msgs s) (Some t) (Some r) m;
                  Some (i = 0, m) }) l (mem s) = Some (List.find (matches s e r) l, m) \<and> never_fails m"
      by (rule find_first_ok [OF _ m]) (use matches_request [OF s _ msg r(3) True] live in blast)
    then show ?thesis using start Cons t cfg r(1,2) True by simp
  next
    case False
    show ?thesis
    proof (cases "EVT_IS_INCOMINGRESP e")
      case True
      have "\<exists>m'. (do { t \<leftarrow> transactions s b;
                  i \<leftarrow> matching_response_osip_to_xict_17_1_3 (Some t) (Some r); Some (i = 0, m) })
          = Some (matches s e r b, m') \<and> never_fails m'" if b: "b \<in> set l" and nf: "never_fails m" for b m
      proof -
        obtain u where u: "transactions s b = Some u" using live [OF b] by blast
        then have "call_ok u" using stack_ok_tr(1) [OF s u] by (simp add: tr_wf_def)
        then obtain i where "matching_response_osip_to_xict_17_1_3 (Some u) (Some r) = Some i"
          using matching_response_defined [OF _ msg] by blast
        then show ?thesis using u True False nf by (simp add: matches_def)
      qed
      then have "\<exists>m. find_first (\<lambda>a m. do { t \<leftarrow> transactions s a;
                  i \<leftarrow> matching_response_osip_to_xict_17_1_3 (Some t) (Some r);
                  Some (i = 0, m) }) l (mem s) = Some (List.find (matches s e r) l, m) \<and> never_fails m"
        by (intro find_first_ok [OF _ m]) blast
      then show ?thesis using start Cons t cfg r(1,2) True False by simp
    next
      case other: False
      have "\<exists>m. find_first (\<lambda>a m. do { t \<leftarrow> transactions s a;
                  Some (transactionid t = ev_transactionid e, m) }) l (mem s)
            = Some (List.find (matches s e r) l, m) \<and> never_fails m"
        by (rule find_first_ok [OF _ m]) (use live False other in \<open>fastforce simp: matches_def\<close>)
      then show ?thesis using start Cons t cfg r(1,2) False other by simp
    qed
  qed
qed

text \<open>A message no transaction holds.\<close>

definition unheld :: "osip \<Rightarrow> nat \<Rightarrow> bool" where
  "unheld s x \<longleftrightarrow> (\<forall>a t. transactions s a = Some t \<longrightarrow> x \<notin> set (holds t))"

lemma unheld_others: "unheld s x \<Longrightarrow> x \<notin> others s a"
  by (auto simp: unheld_def others_def)

lemma event_for_id: "event_for (e\<lparr>ev_transactionid := i\<rparr>) m = event_for e m"
proof -
  have "EVT_IS_INCOMINGREQ (e\<lparr>ev_transactionid := i\<rparr>) = EVT_IS_INCOMINGREQ e"
    "EVT_IS_OUTGOINGREQ (e\<lparr>ev_transactionid := i\<rparr>) = EVT_IS_OUTGOINGREQ e"
    "EVT_IS_INCOMINGRESP (e\<lparr>ev_transactionid := i\<rparr>) = EVT_IS_INCOMINGRESP e"
    "EVT_IS_OUTGOINGRESP (e\<lparr>ev_transactionid := i\<rparr>) = EVT_IS_OUTGOINGRESP e"
    by (simp_all add: evt_kind_defs)
  then show ?thesis by (simp add: event_for_def)
qed

lemma find_and_add_ok:
  assumes s: "stack_ok s" and e: "sip e = Some ra" "msgs s ra = Some r" "event_for e r" "unheld s ra"
    and r: "msg_to r \<noteq> None" "cseq r = Some c" "cseq_method c = Some mtd"
  shows "\<exists>s'. osip_find_transaction_consume (Some e) True s
      = Some (List.find (matches s e r) (transactions_of (list_for e r mtd) s), s') \<and> keeps s s'
    \<and> (case List.find (matches s e r) (transactions_of (list_for e r mtd) s) of
         None \<Rightarrow> transactions s' = transactions s
       | Some a \<Rightarrow> \<exists>t t'. transactions s a = Some t \<and> transactions s' a = Some t'
           \<and> queue_of t' = queue_of t @ [e\<lparr>ev_transactionid := transactionid t\<rparr>])"
proof -
  let ?l = "transactions_of (list_for e r mtd) s"
  have kind: "EVT_IS_INCOMINGMSG e \<or> EVT_IS_OUTGOINGMSG e"
    using event_for_msg [OF e(3)] by (simp add: EVT_IS_MSG_cases)
  obtain m where m: "osip_transaction_find ?l e s = Some (List.find (matches s e r) ?l, m)" "never_fails m"
    using osip_transaction_find_ok [OF s lists_dom [OF s] e(1,2) r(1)] by blast
  let ?s = "s\<lparr>mem := m\<rparr>"
  have s1: "stack_ok ?s" using stack_ok_mem_upd [OF s m(2)] .
  have k1: "keeps s ?s" by (rule keeps_same_tr [OF s1]) simp_all
  show ?thesis
  proof (cases "List.find (matches s e r) ?l")
    case None
    then show ?thesis
      using m(1) e(1,2) r kind k1 by (auto simp: osip_find_transaction_consume_def)
  next
    case (Some a)
    then have "a \<in> set ?l" by (auto simp: find_Some_iff)
    then obtain t where t: "transactions s a = Some t" using lists_dom [OF s] by blast
    obtain ff where ff: "transactionff t = Some ff" "queue_of t = queue ff"
      using tr_wf_queue [OF stack_ok_tr(1) [OF s t]] by blast
    let ?e = "e\<lparr>ev_transactionid := transactionid t\<rparr>"
    have ev: "event_for ?e r" using e(3) by (simp add: event_for_id)
    have "queued_ok (msgs ?s) ?e" using e(1,2) ev by (simp add: queued_ok_def)
    moreover have "others ?s a = others s a" by (simp add: others_def)
    then have "set_option (sip ?e) \<inter> (set (holds t) \<union> others ?s a) = {}"
      using e(1,4) t unheld_others [OF e(4), of a] by (auto simp: unheld_def)
    ultimately obtain ff' m' where add: "osip_fifo_add ff ?e (mem ?s) = ((OSIP_SUCCESS, ff'), m')"
      "queue ff' = queue ff @ [?e]" "keeps ?s (put_tr a (t\<lparr>transactionff := Some ff'\<rparr>) (?s\<lparr>mem := m'\<rparr>))"
      using add_event_ok [OF s1 _ ff(1), of a ?e] t by auto
    then show ?thesis
      using Some m(1) e(1,2) r kind t ff keeps_trans [OF k1]
      by (auto simp: osip_find_transaction_consume_def osip_transaction_add_event_def put_tr_def queue_of_def)
  qed
qed

section \<open>Freeing a transaction\<close>

lemma osip_message_free_restrict:
  "set_option p \<subseteq> dom (msgs w) \<Longrightarrow> osip_message_free p w = Some (w\<lparr>msgs := msgs w |` (- set_option p)\<rparr>)"
  by (cases p) (auto simp: osip_message_free_def restrict_map_def fun_eq_iff intro!: arg_cong [where f = "\<lambda>h. w\<lparr>msgs := h\<rparr>"])

lemma empty_fifo_ok:
  assumes "fifo_ok ff" "distinct (ev_msgs (queue ff))" "set (ev_msgs (queue ff)) \<subseteq> dom (msgs w)"
  shows "empty_fifo ff w = Some (w\<lparr>msgs := msgs w |` (- set (ev_msgs (queue ff)))\<rparr>)"
  using assms
proof (induction "length (queue ff)" arbitrary: ff w)
  case 0
  then have "osip_fifo_tryget ff = (None, ff)" by (simp add: osip_fifo_tryget_def fifo_ok_def)
  then show ?case using 0(1) by (simp add: restrict_map_def)
next
  case (Suc n)
  then obtain e q where q: "queue ff = e # q" "length q = n" by (cases "queue ff") auto
  obtain ff' where ff': "osip_fifo_tryget ff = (Some e, ff')" "fifo_ok ff'" "queue ff' = q"
    using osip_fifo_tryget_ok [OF Suc.prems(1)] q by auto
  let ?w = "w\<lparr>msgs := msgs w |` (- set_option (sip e))\<rparr>"
  have free: "osip_message_free (sip e) w = Some ?w"
    using Suc.prems(3) q by (intro osip_message_free_restrict) simp
  have "empty_fifo ff' ?w = Some (?w\<lparr>msgs := msgs ?w |` (- set (ev_msgs (queue ff')))\<rparr>)"
    using Suc.prems(2,3) q ff' by (intro Suc.hyps(1)) auto
  moreover have "msgs w |` (- set_option (sip e)) |` (- set (ev_msgs q)) = msgs w |` (- set (ev_msgs (queue ff)))"
    using q by (simp add: restrict_map_def fun_eq_iff)
  ultimately show ?case using ff' free by simp
qed

definition set_list :: "osip_fsm_type_t \<Rightarrow> nat list \<Rightarrow> osip \<Rightarrow> osip" where
  "set_list ty l s =
    (case ty of ICT \<Rightarrow> s\<lparr>osip_ict_transactions := l\<rparr> | IST \<Rightarrow> s\<lparr>osip_ist_transactions := l\<rparr>
     | NICT \<Rightarrow> s\<lparr>osip_nict_transactions := l\<rparr> | NIST \<Rightarrow> s\<lparr>osip_nist_transactions := l\<rparr>)"

lemma set_list_simps [simp]:
  "transactions_of ty (set_list ty' l s) = (if ty = ty' then l else transactions_of ty s)"
  "transactions (set_list ty l s) = transactions s" "msgs (set_list ty l s) = msgs s"
  "brk (set_list ty l s) = brk s" "mem (set_list ty l s) = mem s" "ticks (set_list ty l s) = ticks s"
  "log (set_list ty l s) = log s" "tr_brk (set_list ty l s) = tr_brk s"
  "next_transactionid (set_list ty l s) = next_transactionid s"
  by (simp_all add: set_list_def transactions_of_def split: osip_fsm_type_t.split)

lemma remove_by_id_ok:
  assumes "set l \<subseteq> dom h" "h a = Some t" "\<forall>b u. h b = Some u \<longrightarrow> transactionid u = transactionid t \<longrightarrow> b = a"
  shows "remove_by_id h (transactionid t) l
    = Some (if a \<in> set l then OSIP_SUCCESS else OSIP_UNDEFINED_ERROR, remove1 a l)"
  using assms(1)
proof (induction l)
  case (Cons b l)
  then obtain u where u: "h b = Some u" by auto
  show ?case
  proof (cases "b = a")
    case True
    then show ?thesis using u assms(2) by simp
  next
    case False
    then have "transactionid u \<noteq> transactionid t" using assms(3) u by blast
    then show ?thesis using False u Cons by simp
  qed
qed simp

definition freeable :: "(nat \<rightharpoonup> osip_message) \<Rightarrow> osip_transaction \<Rightarrow> bool" where
  "freeable h t \<longleftrightarrow> free_context t \<noteq> None \<and> (\<forall>ff. transactionff t = Some ff \<longrightarrow> fifo_ok ff)
     \<and> distinct (holds t) \<and> set (holds t) \<subseteq> dom h"

lemma osip_transaction_free2_ok:
  assumes "transactions s a = Some t" "freeable (msgs s) t"
  shows "osip_transaction_free2 (Some a) s
    = Some (OSIP_SUCCESS, s\<lparr>msgs := msgs s |` (- set (holds t)), transactions := (transactions s)(a := None)\<rparr>)"
proof -
  obtain i where i: "free_context t = Some i" using assms(2) by (auto simp: freeable_def)
  let ?q = "set (ev_msgs (queue_of t))"
  have d: "distinct (ev_msgs (queue_of t))" "?q \<subseteq> dom (msgs s)"
    "set_option (orig_request t) \<subseteq> dom (msgs s) - ?q"
    "set_option (last_response t) \<subseteq> dom (msgs s) - ?q - set_option (orig_request t)"
    "set_option (ack t) \<subseteq> dom (msgs s) - ?q - set_option (orig_request t) - set_option (last_response t)"
    using assms(2) by (auto simp: freeable_def holds_def owned3_def)
  have q: "(case transactionff t of None \<Rightarrow> Some s | Some ff \<Rightarrow> empty_fifo ff s)
      = Some (s\<lparr>msgs := msgs s |` (- ?q)\<rparr>)"
    using assms(2) d(1,2) empty_fifo_ok
    by (cases "transactionff t") (auto simp: freeable_def queue_of_def restrict_map_def)
  have orig: "deref_ok s (orig_request t)" using d(3) by (cases "orig_request t") auto
  let ?s1 = "s\<lparr>msgs := msgs s |` (- ?q)\<rparr>"
  let ?s2 = "?s1\<lparr>msgs := msgs ?s1 |` (- set_option (orig_request t))\<rparr>"
  let ?s3 = "?s2\<lparr>msgs := msgs ?s2 |` (- set_option (last_response t))\<rparr>"
  let ?s4 = "?s3\<lparr>msgs := msgs ?s3 |` (- set_option (ack t))\<rparr>"
  have f: "osip_message_free (orig_request t) ?s1 = Some ?s2"
    "osip_message_free (last_response t) ?s2 = Some ?s3" "osip_message_free (ack t) ?s3 = Some ?s4"
    using d(3-5) by (intro osip_message_free_restrict; auto)+
  have m: "msgs ?s4 = msgs s |` (- set (holds t))"
    by (auto simp: restrict_map_def holds_def owned3_def fun_eq_iff)
  have "osip_transaction_free2 (Some a) s
      = Some (OSIP_SUCCESS, ?s4\<lparr>transactions := (transactions ?s4)(a := None)\<rparr>)"
    using assms(1) i orig q f by (simp add: osip_transaction_free2_def)
  then show ?thesis using m by simp
qed

lemma osip_transaction_free_ok:
  assumes lists: "\<forall>ty. set (transactions_of ty s) \<subseteq> dom (transactions s)"
    and t: "transactions s a = Some t" and free: "freeable (msgs s) t"
    and uniq: "\<forall>b u. transactions s b = Some u \<longrightarrow> transactionid u = transactionid t \<longrightarrow> b = a"
  shows "osip_transaction_free (Some a) s
    = Some (OSIP_SUCCESS, (set_list (ctx_type t) (remove1 a (transactions_of (ctx_type t) s)) s)
        \<lparr>msgs := msgs s |` (- set (holds t)), transactions := (transactions s)(a := None)\<rparr>)"
proof -
  let ?l = "transactions_of (ctx_type t) s"
  have r: "remove_by_id (transactions s) (transactionid t) ?l
      = Some (if a \<in> set ?l then OSIP_SUCCESS else OSIP_UNDEFINED_ERROR, remove1 a ?l)"
    using lists by (intro remove_by_id_ok [OF _ t uniq]) blast
  have rm: "\<exists>i. osip_remove_transaction (Some a) s = Some (i, set_list (ctx_type t) (remove1 a ?l) s)"
    using r t
    by (cases "ctx_type t")
      (simp_all add: osip_remove_transaction_def osip_remove_ict_transaction_def
        osip_remove_ist_transaction_def osip_remove_nict_transaction_def osip_remove_nist_transaction_def
        transactions_of_def set_list_def)
  then obtain i where "osip_remove_transaction (Some a) s = Some (i, set_list (ctx_type t) (remove1 a ?l) s)" ..
  then show ?thesis
    using osip_transaction_free2_ok [of "set_list (ctx_type t) (remove1 a ?l) s" a t] t free
    by (simp add: osip_transaction_free_def)
qed

lemma free_stack_ok:
  assumes s: "stack_ok s" and t: "transactions s a = Some t"
  shows "\<exists>s'. osip_transaction_free (Some a) s = Some (OSIP_SUCCESS, s') \<and> stack_ok s'
    \<and> transactions s' = (transactions s)(a := None) \<and> dom (msgs s') = dom (msgs s) - set (holds t)
    \<and> (\<forall>ty. a \<notin> set (transactions_of ty s'))"
proof -
  note wf = stack_ok_tr [OF s t]
  obtain ff where "transactionff t = Some ff" "fifo_ok ff" using tr_wf_queue [OF wf(1)] by blast
  moreover have "tr_ok t" using wf(1) by (simp add: tr_wf_def)
  then have "free_context t \<noteq> None"
    using tr_ok_context [of t]
    by (cases "ctx_type t")
      (auto simp: free_context_def osip_ict_free_def osip_ist_free_def osip_nict_free_def osip_nist_free_def)
  ultimately have free: "freeable (msgs s) t" using wf(1) by (auto simp: freeable_def tr_wf_def)
  have uniq: "\<forall>b u. transactions s b = Some u \<longrightarrow> transactionid u = transactionid t \<longrightarrow> b = a"
    using s t by (auto simp: stack_ok_def ids_ok_def)
  let ?s = "(set_list (ctx_type t) (remove1 a (transactions_of (ctx_type t) s)) s)
        \<lparr>msgs := msgs s |` (- set (holds t)), transactions := (transactions s)(a := None)\<rparr>"
  have run: "osip_transaction_free (Some a) s = Some (OSIP_SUCCESS, ?s)"
    using osip_transaction_free_ok [OF _ t free uniq] lists_dom [OF s] by blast
  have lists: "lists_ok s" and ids: "ids_ok s" and heap: "heap_ok (msgs s) (brk s) (mem s) []"
    using s by (simp_all add: stack_ok_def)
  have "a \<notin> set (transactions_of ty s)" if "ty \<noteq> ctx_type t" for ty
    using stack_ok_list [OF s, of ty] t that by auto
  then have gone: "a \<notin> set (transactions_of ty ?s)" for ty
    using lists by (cases "ty = ctx_type t") (auto simp: lists_ok_def)
  have tr: "tr_wf (msgs ?s) u \<and> set (holds u) \<inter> others ?s b = {}" if u: "transactions ?s b = Some u" for b u
  proof -
    have b: "b \<noteq> a" "transactions s b = Some u" using u by (auto split: if_splits)
    have "set (holds u) \<inter> set (holds t) = {}"
      using stack_ok_tr(2) [OF s t] b by (auto simp: others_def)
    then have "\<forall>x \<in> set (holds u). msgs ?s x = msgs s x"
      by (auto simp: restrict_map_def)
    then have "tr_wf (msgs ?s) u" by (rule tr_wf_cong [OF stack_ok_tr(1) [OF s b(2)]])
    moreover have "others ?s b \<subseteq> others s b" by (auto simp: others_def split: if_splits)
    ultimately show ?thesis using stack_ok_tr(2) [OF s b(2)] by blast
  qed
  have "lists_ok ?s"
  proof -
    have "\<exists>u. transactions ?s b = Some u \<and> ctx_type u = ty" if b: "b \<in> set (transactions_of ty ?s)" for ty b
    proof -
      have "b \<noteq> a" using gone b by blast
      moreover have "b \<in> set (transactions_of ty s)" using b set_remove1_subset [of a "transactions_of (ctx_type t) s"] by (auto split: if_splits)
      ultimately show ?thesis using lists by (auto simp: lists_ok_def)
    qed
    moreover have "distinct (transactions_of ty ?s)" for ty using lists by (auto simp: lists_ok_def)
    ultimately show ?thesis by (simp add: lists_ok_def)
  qed
  moreover have "ids_ok ?s" using ids by (auto simp: ids_ok_def split: if_splits)
  moreover have "heap_ok (msgs ?s) (brk ?s) (mem ?s) []"
    using heap by (auto simp: heap_ok_def restrict_map_def split: if_splits)
  ultimately have "stack_ok ?s" using tr by (simp add: stack_ok_def)
  moreover have "dom (msgs ?s) = dom (msgs s) - set (holds t)" by auto
  ultimately show ?thesis using run gone by auto
qed

section \<open>Creating a transaction\<close>

lemma gives_cases:
  assumes "gives r y"
  obtains m where "r = ((0, y), m)" "never_fails m"
  | i z m where "r = ((i, z), m)" "i \<noteq> 0" "never_fails m"
  using assms by (cases r; cases "fst r"; cases "fst (fst r) = 0") (auto simp: gives_def)

lemma via_clone_protocol: "osip_via_clone (Some v) m = ((0, w), m') \<Longrightarrow> via_protocol v \<noteq> None"
  by (auto simp: osip_via_clone_def split: if_splits)

lemma set_topvia_ok:
  assumes "never_fails m"
  shows "\<exists>i x m'. osip_transaction_set_topvia (Some t) (Some v) m = ((i, Some (t\<lparr>topvia := x\<rparr>)), m')
    \<and> never_fails m' \<and> (i = 0 \<longrightarrow> x = Some v \<and> via_protocol v \<noteq> None)"
  using via_clone_gives [OF assms, of v]
  by (cases rule: gives_cases) (auto simp: osip_transaction_set_topvia_def via_clone_protocol)

lemma set_from_ok:
  assumes "never_fails m"
  shows "\<exists>i x m'. osip_transaction_set_from (Some t) f m = ((i, Some (t\<lparr>tr_from := x\<rparr>)), m')
    \<and> never_fails m' \<and> (i = 0 \<longrightarrow> x = f)"
  using from_call_gives [OF assms, of f]
  by (cases rule: gives_cases) (auto simp: osip_transaction_set_from_def)

lemma set_to_ok:
  assumes "never_fails m"
  shows "\<exists>i x m'. osip_transaction_set_to (Some t) f m = ((i, Some (t\<lparr>tr_to := x\<rparr>)), m')
    \<and> never_fails m' \<and> (i = 0 \<longrightarrow> x = f \<and> f \<noteq> None)"
  using from_call_gives [OF assms, of f]
  by (cases f; cases rule: gives_cases)
    (auto simp: osip_transaction_set_to_def osip_to_clone_def, simp_all add: osip_from_clone_def)

lemma set_call_id_ok:
  assumes "never_fails m"
  shows "\<exists>i x m'. osip_transaction_set_call_id (Some t) c m = ((i, Some (t\<lparr>callid := x\<rparr>)), m')
    \<and> never_fails m' \<and> (i = 0 \<longrightarrow> x = c)"
  using call_id_call_gives [OF assms, of c]
  by (cases rule: gives_cases) (auto simp: osip_transaction_set_call_id_def)

lemma cseq_clone_method: "osip_cseq_clone c m = ((0, x), m') \<Longrightarrow> method_of c \<noteq> None"
  by (auto simp: osip_cseq_clone_def method_of_def split: option.splits if_splits)

lemma set_cseq_ok:
  assumes "never_fails m"
  shows "\<exists>i x m'. osip_transaction_set_cseq (Some t) c m = ((i, Some (t\<lparr>tr_cseq := x\<rparr>)), m')
    \<and> never_fails m' \<and> (i = 0 \<longrightarrow> x = c \<and> method_of c \<noteq> None)"
  using cseq_call_gives [OF assms, of c]
  by (cases rule: gives_cases) (auto simp: osip_transaction_set_cseq_def cseq_clone_method)

text \<open>What a transaction keeps of its request, when it keeps it.\<close>

definition keeps_headers :: "osip_message \<Rightarrow> osip_transaction \<Rightarrow> bool" where
  "keeps_headers r t \<longleftrightarrow> topvia t = topvia_of r \<and> tr_from t = msg_from r \<and> tr_to t = msg_to r
     \<and> callid t = call_id r \<and> tr_cseq t = cseq r
     \<and> (\<exists>v. topvia_of r = Some v \<and> via_protocol v \<noteq> None) \<and> msg_to r \<noteq> None \<and> method_of (cseq r) \<noteq> None"

definition only_headers :: "osip_transaction \<Rightarrow> osip_transaction \<Rightarrow> bool" where
  "only_headers t t' \<longleftrightarrow> transactionid t' = transactionid t \<and> transactionff t' = transactionff t
     \<and> orig_request t' = orig_request t \<and> last_response t' = last_response t \<and> ack t' = ack t
     \<and> state t' = state t \<and> config t' = config t \<and> ctx_type t' = ctx_type t
     \<and> ict_context t' = ict_context t \<and> ist_context t' = ist_context t
     \<and> nict_context t' = nict_context t \<and> nist_context t' = nist_context t"

lemma copy_headers_ok:
  assumes "never_fails m"
  shows "\<exists>i t' m'. copy_headers r t m = ((i, t'), m') \<and> never_fails m' \<and> only_headers t t'
    \<and> (i = 0 \<longrightarrow> keeps_headers r t')"
proof (cases "topvia_of r")
  case None
  then show ?thesis using assms by (simp add: copy_headers_def get_0_topvia only_headers_def)
next
  case (Some v)
  obtain i1 x1 m1 where 1: "osip_transaction_set_topvia (Some t) (Some v) m = ((i1, Some (t\<lparr>topvia := x1\<rparr>)), m1)"
    "never_fails m1" "i1 = 0 \<longrightarrow> x1 = Some v \<and> via_protocol v \<noteq> None" using set_topvia_ok [OF assms, of t v] by blast
  let ?t1 = "t\<lparr>topvia := x1\<rparr>"
  obtain i2 x2 m2 where 2: "osip_transaction_set_from (Some ?t1) (msg_from r) m1 = ((i2, Some (?t1\<lparr>tr_from := x2\<rparr>)), m2)"
    "never_fails m2" "i2 = 0 \<longrightarrow> x2 = msg_from r" using set_from_ok [OF 1(2), of ?t1 "msg_from r"] by blast
  let ?t2 = "?t1\<lparr>tr_from := x2\<rparr>"
  obtain i3 x3 m3 where 3: "osip_transaction_set_to (Some ?t2) (msg_to r) m2 = ((i3, Some (?t2\<lparr>tr_to := x3\<rparr>)), m3)"
    "never_fails m3" "i3 = 0 \<longrightarrow> x3 = msg_to r \<and> msg_to r \<noteq> None" using set_to_ok [OF 2(2), of ?t2 "msg_to r"] by blast
  let ?t3 = "?t2\<lparr>tr_to := x3\<rparr>"
  obtain i4 x4 m4 where 4: "osip_transaction_set_call_id (Some ?t3) (call_id r) m3 = ((i4, Some (?t3\<lparr>callid := x4\<rparr>)), m4)"
    "never_fails m4" "i4 = 0 \<longrightarrow> x4 = call_id r" using set_call_id_ok [OF 3(2), of ?t3 "call_id r"] by blast
  let ?t4 = "?t3\<lparr>callid := x4\<rparr>"
  obtain i5 x5 m5 where 5: "osip_transaction_set_cseq (Some ?t4) (cseq r) m4 = ((i5, Some (?t4\<lparr>tr_cseq := x5\<rparr>)), m5)"
    "never_fails m5" "i5 = 0 \<longrightarrow> x5 = cseq r \<and> method_of (cseq r) \<noteq> None" using set_cseq_ok [OF 4(2), of ?t4 "cseq r"] by blast
  let ?t5 = "?t4\<lparr>tr_cseq := x5\<rparr>"
  have o: "only_headers t ?t1" "only_headers t ?t2" "only_headers t ?t3" "only_headers t ?t4" "only_headers t ?t5"
    by (simp_all add: only_headers_def)
  have run: "copy_headers r t m = (if i1 \<noteq> 0 then ((i1, ?t1), m1) else if i2 \<noteq> 0 then ((i2, ?t2), m2)
      else if i3 \<noteq> 0 then ((i3, ?t3), m3) else if i4 \<noteq> 0 then ((i4, ?t4), m4)
      else if i5 \<noteq> 0 then ((i5, ?t5), m5) else ((0, ?t5), m5))"
    using Some 1(1) 2(1) 3(1) 4(1) 5(1) by (simp add: copy_headers_def get_0_topvia)
  consider "i1 \<noteq> 0" | "i1 = 0" "i2 \<noteq> 0" | "i1 = 0" "i2 = 0" "i3 \<noteq> 0" | "i1 = 0" "i2 = 0" "i3 = 0" "i4 \<noteq> 0"
    | "i1 = 0" "i2 = 0" "i3 = 0" "i4 = 0" "i5 \<noteq> 0" | "i1 = 0" "i2 = 0" "i3 = 0" "i4 = 0" "i5 = 0" by blast
  then show ?thesis
  proof cases
    case 6
    then have "keeps_headers r ?t5"
      using Some 1(3) 2(3) 3(3) 4(3) 5(3) by (simp add: keeps_headers_def)
    then show ?thesis using 6 run 5(2) o(5) by simp
  qed (use run 1(2) 2(2) 3(2) 4(2) 5(2) o in simp_all)
qed

lemma time_in_eq: "time_in cf ms w = (add_gettimeofday (clock cf (ticks w)) ms, w\<lparr>ticks := ticks w + 1\<rparr>)"
  by (simp add: time_in_def osip_gettimeofday_def)

lemma request_destination_ok:
  assumes "msg_ok r" "req_uri r \<noteq> None" "never_fails m"
  shows "\<exists>host port m'. request_destination r m = Some ((host, port), m') \<and> never_fails m'"
  using request_destination_defined [OF assms(1,2), of m] request_destination_mem [OF _ assms(3)] by blast

lemma client_init_ok:
  fixes s :: osip
  assumes "msg_ok r" "req_uri r \<noteq> None" "topvia_of r = Some v" "via_protocol v = Some proto" "never_fails (mem s)"
  shows "\<exists>c m n. osip_ict_init cf r s = Some ((0, Live c), s\<lparr>mem := m, ticks := n\<rparr>) \<and> never_fails m"
    and "\<exists>c m n. osip_nict_init cf r s = Some ((0, Live c), s\<lparr>mem := m, ticks := n\<rparr>) \<and> never_fails m"
proof -
  obtain m where m: "osip_malloc (mem s) = (True, m)" "never_fails m"
    using osip_malloc_never_fails [OF assms(5)] by blast
  obtain host port m' where d: "request_destination r m = Some ((host, port), m')" "never_fails m'"
    using request_destination_ok [OF assms(1,2) m(2)] by blast
  have "\<exists>c n. osip_ict_init cf r s = Some ((0, Live c), s\<lparr>mem := m', ticks := n\<rparr>)"
    using m(1) d(1) assms(3,4)
    by (simp add: osip_ict_init_def via_get_protocol_def time_in_eq osip_ict_set_destination_def Let_def) blast
  then show "\<exists>c m n. osip_ict_init cf r s = Some ((0, Live c), s\<lparr>mem := m, ticks := n\<rparr>) \<and> never_fails m"
    using d(2) by blast
  have "\<exists>c n. osip_nict_init cf r s = Some ((0, Live c), s\<lparr>mem := m', ticks := n\<rparr>)"
    using m(1) d(1) assms(3,4)
    by (simp add: osip_nict_init_def via_get_protocol_def time_in_eq osip_nict_set_destination_def Let_def) blast
  then show "\<exists>c m n. osip_nict_init cf r s = Some ((0, Live c), s\<lparr>mem := m, ticks := n\<rparr>) \<and> never_fails m"
    using d(2) by blast
qed

lemma server_init_ok:
  fixes s :: osip
  assumes "topvia_of r = Some v" "via_protocol v = Some proto" "never_fails (mem s)"
  shows "\<exists>c m n. osip_ist_init cf r s = Some ((0, Live c), s\<lparr>mem := m, ticks := n\<rparr>) \<and> never_fails m"
    and "\<exists>c m n. osip_nist_init cf r s = Some ((0, Live c), s\<lparr>mem := m, ticks := n\<rparr>) \<and> never_fails m"
proof -
  obtain m where m: "osip_malloc (mem s) = (True, m)" "never_fails m"
    using osip_malloc_never_fails [OF assms(3)] by blast
  have id: "s\<lparr>mem := m, ticks := ticks s\<rparr> = s\<lparr>mem := m\<rparr>" by simp
  have "\<exists>c. osip_ist_init cf r s = Some ((0, Live c), s\<lparr>mem := m, ticks := ticks s\<rparr>)"
    unfolding id using m(1) assms(1,2) by (simp add: osip_ist_init_def via_get_protocol_def Let_def)
  then show "\<exists>c m n. osip_ist_init cf r s = Some ((0, Live c), s\<lparr>mem := m, ticks := n\<rparr>) \<and> never_fails m"
    using m(2) by blast
  have "\<exists>c. osip_nist_init cf r s = Some ((0, Live c), s\<lparr>mem := m, ticks := ticks s\<rparr>)"
    unfolding id using m(1) assms(1,2) by (simp add: osip_nist_init_def via_get_protocol_def Let_def)
  then show "\<exists>c m n. osip_nist_init cf r s = Some ((0, Live c), s\<lparr>mem := m, ticks := n\<rparr>) \<and> never_fails m"
    using m(2) by blast
qed

text \<open>A transaction that has just been set up.\<close>

definition fresh_tr :: "osip_fsm_type_t \<Rightarrow> osip_transaction \<Rightarrow> bool" where
  "fresh_tr ty t \<longleftrightarrow> ctx_type t = ty \<and> state t = initial_state ty \<and> config t
     \<and> orig_request t = None \<and> last_response t = None \<and> ack t = None
     \<and> transactionff t = Some osip_fifo_init"

definition with_context :: "osip_transaction \<Rightarrow> bool" where
  "with_context t \<longleftrightarrow> (case ctx_type t of
     ICT \<Rightarrow> \<exists>c. ict_context t = Live c | IST \<Rightarrow> \<exists>c. ist_context t = Live c
   | NICT \<Rightarrow> \<exists>c. nict_context t = Live c | NIST \<Rightarrow> \<exists>c. nist_context t = Live c)"

lemma init_context_ok:
  assumes "msg_ok r" "req_uri r \<noteq> None" "keeps_headers r t" "never_fails (mem s)"
  shows "\<exists>t' m n. init_context cf r t s = Some ((0, t'), s\<lparr>mem := m, ticks := n\<rparr>) \<and> never_fails m
    \<and> with_context t' \<and> state t' = initial_state (ctx_type t) \<and> keeps_headers r t'
    \<and> transactionid t' = transactionid t \<and> ctx_type t' = ctx_type t \<and> config t' = config t
    \<and> orig_request t' = orig_request t \<and> last_response t' = last_response t \<and> ack t' = ack t
    \<and> transactionff t' = transactionff t"
proof -
  obtain v proto where v: "topvia_of r = Some v" "via_protocol v = Some proto"
    using assms(3) by (auto simp: keeps_headers_def)
  show ?thesis
  proof (cases "ctx_type t")
    case ICT
    obtain c m n where "osip_ict_init cf r s = Some ((0, Live c), s\<lparr>mem := m, ticks := n\<rparr>)" "never_fails m"
      using client_init_ok(1) [OF assms(1,2) v assms(4), of cf] by blast
    then show ?thesis
      using ICT assms(3) by (auto simp: init_context_def with_context_def initial_state_def keeps_headers_def)
  next
    case IST
    obtain c m n where "osip_ist_init cf r s = Some ((0, Live c), s\<lparr>mem := m, ticks := n\<rparr>)" "never_fails m"
      using server_init_ok(1) [OF v assms(4), of cf] by blast
    then show ?thesis
      using IST assms(3) by (auto simp: init_context_def with_context_def initial_state_def keeps_headers_def)
  next
    case NICT
    obtain c m n where "osip_nict_init cf r s = Some ((0, Live c), s\<lparr>mem := m, ticks := n\<rparr>)" "never_fails m"
      using client_init_ok(2) [OF assms(1,2) v assms(4), of cf] by blast
    then show ?thesis
      using NICT assms(3) by (auto simp: init_context_def with_context_def initial_state_def keeps_headers_def)
  next
    case NIST
    obtain c m n where "osip_nist_init cf r s = Some ((0, Live c), s\<lparr>mem := m, ticks := n\<rparr>)" "never_fails m"
      using server_init_ok(2) [OF v assms(4), of cf] by blast
    then show ?thesis
      using NIST assms(3) by (auto simp: init_context_def with_context_def initial_state_def keeps_headers_def)
  qed
qed

lemma fresh_tr_wf:
  assumes "fresh_tr ty t" "with_context t" "keeps_headers r t" "msg_ok r"
  shows "tr_wf h t" "holds t = []"
proof -
  show h: "holds t = []" using assms(1) by (simp add: fresh_tr_def holds_def owned3_def queue_of_def)
  have "tr_ok t"
    using assms(1,2)
    by (cases ty) (auto simp: fresh_tr_def with_context_def tr_ok_def initial_state_def ict_ok_def ist_ok_def
        nict_ok_def nist_ok_def)
  moreover obtain v where v: "topvia_of r = Some v" using assms(3) by (auto simp: keeps_headers_def)
  then have "call_ok t"
    using assms(3,4) topvia_of_named [OF assms(4) v]
    by (auto simp: keeps_headers_def call_ok_def msg_ok_def method_of_def split: option.splits)
  ultimately show "tr_wf h t" using assms(1) h by (simp add: tr_wf_def fresh_tr_def queue_of_def)
qed

lemma stack_ok_new:
  assumes s: "stack_ok s" and wf: "tr_wf (msgs s) t" "holds t = []"
    and id: "transactionid t = next_transactionid s" and m: "never_fails m"
  shows "stack_ok (set_list (ctx_type t) (transactions_of (ctx_type t) s @ [tr_brk s])
    (s\<lparr>next_transactionid := next_transactionid s + 1, tr_brk := tr_brk s + 1, ticks := n,
       transactions := (transactions s)(tr_brk s \<mapsto> t), mem := m\<rparr>))" (is "stack_ok ?s")
proof -
  have lists: "lists_ok s" and ids: "ids_ok s" and heap: "heap_ok (msgs s) (brk s) (mem s) []"
    using s by (simp_all add: stack_ok_def)
  have new: "transactions s (tr_brk s) = None"
    using ids by (cases "transactions s (tr_brk s)") (auto simp: ids_ok_def)
  have notin: "tr_brk s \<notin> set (transactions_of ty s)" for ty
    using lists_dom [OF s, of ty] new by auto
  have oth: "others ?s b \<subseteq> others s b" for b using wf(2) by (auto simp: others_def)
  have "tr_wf (msgs ?s) u \<and> set (holds u) \<inter> others ?s b = {}" if u: "transactions ?s b = Some u" for b u
  proof (cases "b = tr_brk s")
    case True
    then show ?thesis using u wf by simp
  next
    case False
    then have u: "transactions s b = Some u" using u by simp
    show ?thesis using stack_ok_tr [OF s u] oth [of b] by auto
  qed
  moreover have "lists_ok ?s"
    using lists notin new by (fastforce simp: lists_ok_def)
  moreover have "ids_ok ?s" using ids new id by (fastforce simp: ids_ok_def)
  moreover have "heap_ok (msgs ?s) (brk ?s) (mem ?s) []" using heap m by (simp add: heap_ok_def)
  ultimately show ?thesis by (simp add: stack_ok_def)
qed

text \<open>The failing branch: the half-built transaction goes, and nothing else does.\<close>

lemma init_fails_ok:
  assumes s: "stack_ok s" and a: "a = tr_brk s"
    and t: "holds t = []" "transactionff t = None" "ict_context t = Null" "ist_context t = Null"
      "nict_context t = Null" "nist_context t = Null" "transactionid t = next_transactionid s"
    and m: "never_fails m"
  shows "\<exists>s'. init_fails i a t (s\<lparr>ticks := n, next_transactionid := next_transactionid s + 1,
      tr_brk := tr_brk s + 1, mem := m\<rparr>) = Some ((i, None), s') \<and> keeps s s' \<and> msgs s' = msgs s"
proof -
  let ?s = "s\<lparr>ticks := n, next_transactionid := next_transactionid s + 1, tr_brk := tr_brk s + 1, mem := m\<rparr>"
  let ?p = "put_tr a t ?s"
  have ids: "ids_ok s" using s by (simp add: stack_ok_def)
  have new: "transactions s a = None"
    using ids a by (cases "transactions s a") (auto simp: ids_ok_def)
  have notin: "a \<notin> set (transactions_of ty s)" for ty using lists_dom [OF s, of ty] new by auto
  have free: "freeable (msgs ?p) t"
    using t(1-6) by (cases "ctx_type t") (simp_all add: freeable_def free_context_def osip_ict_free_def
        osip_ist_free_def osip_nict_free_def osip_nist_free_def)
  have lists: "transactions_of ty ?p = transactions_of ty s" for ty by (simp add: put_tr_def)
  have at: "transactions ?p a = Some t" "transactions ?p = (transactions s)(a \<mapsto> t)" "msgs ?p = msgs s"
    by (simp_all add: put_tr_def)
  have "b = a" if "transactions ?p b = Some u" "transactionid u = transactionid t" for b u
    using that ids t(7) unfolding at(2) ids_ok_def by (cases "b = a") fastforce+
  then have "\<forall>b u. transactions ?p b = Some u \<longrightarrow> transactionid u = transactionid t \<longrightarrow> b = a"
    by blast
  moreover have "\<forall>ty. set (transactions_of ty ?p) \<subseteq> dom (transactions ?p)"
    unfolding lists at(2) using lists_dom [OF s] by auto
  ultimately have run: "osip_transaction_free (Some a) ?p
    = Some (OSIP_SUCCESS, (set_list (ctx_type t) (remove1 a (transactions_of (ctx_type t) ?p)) ?p)
        \<lparr>msgs := msgs ?p |` (- set (holds t)), transactions := (transactions ?p)(a := None)\<rparr>)"
    (is "_ = Some (_, ?f)")
    using osip_transaction_free_ok [OF _ at(1) free] by blast
  have f: "transactions ?f = transactions s" "msgs ?f = msgs s" "\<forall>ty. transactions_of ty ?f = transactions_of ty s"
    "brk ?f = brk s" "mem ?f = m" "next_transactionid ?f = next_transactionid s + 1" "tr_brk ?f = tr_brk s + 1"
    using new t(1) notin unfolding lists by (auto simp: remove1_idem restrict_map_def put_tr_def)
  have "ids_ok ?f" using ids f(1,6,7) by (fastforce simp: ids_ok_def)
  moreover have "lists_ok ?f" using s f(1,3) by (simp add: stack_ok_def lists_ok_def)
  moreover have "others ?f b = others s b" for b using f(1) by (simp add: others_def)
  ultimately have "stack_ok ?f" using s m f(1,2,4,5) by (simp add: stack_ok_def heap_ok_def)
  then have "keeps s ?f" using f(1,3) by (intro keeps_same_tr)
  then show ?thesis using run f(2) by (auto simp: init_fails_def)
qed

text \<open>The outcome of an initialisation.\<close>

definition created :: "osip_fsm_type_t \<Rightarrow> osip_message \<Rightarrow> nat \<Rightarrow> osip \<Rightarrow> osip \<Rightarrow> bool" where
  "created ty r a s s' \<longleftrightarrow> transactions s a = None \<and> transactions_of ty s' = transactions_of ty s @ [a]
     \<and> (\<forall>ty'. ty' \<noteq> ty \<longrightarrow> transactions_of ty' s' = transactions_of ty' s) \<and> msgs s' = msgs s
     \<and> (\<exists>t. transactions s' = (transactions s)(a \<mapsto> t) \<and> fresh_tr ty t \<and> keeps_headers r t
         \<and> transactionid t = next_transactionid s)"

lemma set_list_add:
  assumes "never_fails (mem s)"
  shows "\<exists>m. add_to_list ty a s = (OSIP_SUCCESS, set_list ty (transactions_of ty s @ [a]) (s\<lparr>mem := m\<rparr>))
    \<and> never_fails m"
proof -
  obtain m where "osip_malloc (mem s) = (True, m)" "never_fails m"
    using osip_malloc_never_fails [OF assms] by blast
  then show ?thesis
    by (intro exI [of _ m], cases ty) (simp_all add: add_to_list_def osip_add_ict_def osip_add_ist_def osip_add_nict_def
        osip_add_nist_def list_add_def set_list_def transactions_of_def)
qed

lemma osip_transaction_init_ok:
  assumes s: "stack_ok s" and r: "msgs s ra = Some r" "req_uri r \<noteq> None"
  shows "\<exists>i p s'. osip_transaction_init cf ty (Some ra) s = Some ((i, p), s') \<and> stack_ok s'
    \<and> (if i = OSIP_SUCCESS then \<exists>a. p = Some a \<and> created ty r a s s'
       else p = None \<and> keeps s s' \<and> msgs s' = msgs s)"
proof (cases "(case call_id r of None \<Rightarrow> None | Some c \<Rightarrow> callid_number c) = None")
  case True
  then show ?thesis using s r keeps_refl by (simp add: osip_transaction_init_def)
next
  case False
  then obtain num where num: "(case call_id r of None \<Rightarrow> None | Some c \<Rightarrow> callid_number c) = Some num" by blast
  have msg: "msg_ok r" using s r(1) by (simp add: stack_ok_def heap_ok_def)
  obtain m1 where m1: "osip_malloc (mem s) = (True, m1)" "never_fails m1"
    using osip_malloc_never_fails [OF stack_ok_mem [OF s]] by blast
  let ?t0 = "transaction_zero\<lparr>birth_time := systime cf (ticks s),
    transactionid := next_transactionid s, ctx_type := ty, config := True\<rparr>"
  let ?upd = "\<lambda>m n. s\<lparr>ticks := n, next_transactionid := next_transactionid s + 1, tr_brk := tr_brk s + 1, mem := m\<rparr>"
  obtain i t m2 where c: "copy_headers r ?t0 m1 = ((i, t), m2)" "never_fails m2" "only_headers ?t0 t"
    "i = 0 \<longrightarrow> keeps_headers r t"
    using copy_headers_ok [OF m1(2), of r ?t0] by blast
  have t: "transactionff t = None" "orig_request t = None" "last_response t = None" "ack t = None"
    "ict_context t = Null" "ist_context t = Null" "nict_context t = Null" "nist_context t = Null"
    "transactionid t = next_transactionid s" "ctx_type t = ty" "config t"
    using c(3) by (simp_all add: only_headers_def transaction_zero_def)
  have h: "holds t = []" using t(1-4) by (simp add: holds_def owned3_def queue_of_def)
  let ?a = "tr_brk s"
  have run: "osip_transaction_init cf ty (Some ra) s
      = (if i \<noteq> 0 then init_fails i ?a t (?upd m2 (ticks s + 1))
         else (case osip_malloc m2 of (ok, m) \<Rightarrow>
           if \<not> ok then init_fails OSIP_NOMEM ?a t (?upd m (ticks s + 1))
           else do {
             ((i, t), s) \<leftarrow> init_context cf r (t\<lparr>transactionff := Some osip_fifo_init\<rparr>) (?upd m (ticks s + 1));
             (if i \<noteq> 0 then init_fails i ?a t s
              else (case add_to_list ty ?a (put_tr ?a t s) of (j, s) \<Rightarrow> Some ((OSIP_SUCCESS, Some ?a), s)))
           }))"
    unfolding osip_transaction_init_def using r(1) num m1(1) c(1)
    by (cases "osip_malloc m2") (simp add: Let_def)
  show ?thesis
  proof (cases "i = 0")
    case False
    obtain s' where s': "init_fails i ?a t (?upd m2 (ticks s + 1)) = Some ((i, None), s')" "keeps s s'" "msgs s' = msgs s"
      using init_fails_ok [OF s refl h t(1,5-9) c(2)] by blast
    then have "stack_ok s'" by (simp add: keeps_def)
    then show ?thesis unfolding run using False s' by simp
  next
    case True
    obtain m3 where m3: "osip_malloc m2 = (True, m3)" "never_fails m3"
      using osip_malloc_never_fails [OF c(2)] by blast
    let ?t = "t\<lparr>transactionff := Some osip_fifo_init\<rparr>"
    have kt: "keeps_headers r ?t" using c(4) True by (simp add: keeps_headers_def)
    have mem3: "never_fails (mem (?upd m3 (ticks s + 1)))" using m3(2) by simp
    obtain t' m4 n where ctx: "init_context cf r ?t (?upd m3 (ticks s + 1))
        = Some ((0, t'), (?upd m3 (ticks s + 1))\<lparr>mem := m4, ticks := n\<rparr>)" "never_fails m4"
      "with_context t'" "state t' = initial_state ty" "keeps_headers r t'"
      "transactionid t' = next_transactionid s" "ctx_type t' = ty" "config t'"
      "orig_request t' = None" "last_response t' = None" "ack t' = None"
      "transactionff t' = Some osip_fifo_init"
      using init_context_ok [OF msg r(2) kt mem3, of cf] t by auto
    have fresh: "fresh_tr ty t'" using ctx(4,7-12) by (simp add: fresh_tr_def)
    note wf = fresh_tr_wf [OF fresh ctx(3,5) msg]
    let ?s4 = "put_tr ?a t' ((?upd m3 (ticks s + 1))\<lparr>mem := m4, ticks := n\<rparr>)"
    obtain m5 where m5: "add_to_list ty ?a ?s4 = (OSIP_SUCCESS, set_list ty (transactions_of ty ?s4 @ [?a]) (?s4\<lparr>mem := m5\<rparr>))"
      "never_fails m5"
      using set_list_add [of ?s4 ty ?a] ctx(2) by (auto simp: put_tr_def)
    let ?s' = "set_list ty (transactions_of ty s @ [?a]) (s\<lparr>next_transactionid := next_transactionid s + 1,
      tr_brk := tr_brk s + 1, ticks := n, transactions := (transactions s)(?a \<mapsto> t'), mem := m5\<rparr>)"
    have same: "set_list ty (transactions_of ty ?s4 @ [?a]) (?s4\<lparr>mem := m5\<rparr>) = ?s'"
      by (simp add: put_tr_def)
    have ok: "stack_ok ?s'"
      using stack_ok_new [OF s wf(1,2) ctx(6) m5(2), of n] ctx(7) by simp
    have "transactions s ?a = None"
      using s by (cases "transactions s ?a") (auto simp: stack_ok_def ids_ok_def)
    then have "created ty r ?a s ?s'"
      using fresh ctx(5,6) unfolding created_def by (intro conjI exI [of _ t']) simp_all
    moreover have "osip_transaction_init cf ty (Some ra) s = Some ((0, Some ?a), ?s')"
      unfolding run using True m3(1) ctx(1) m5(1) same by simp
    ultimately show ?thesis using ok by auto
  qed
qed

text \<open>The machine a request starts, from its direction and its method.\<close>

definition machine_for :: "osip_event \<Rightarrow> osip_message \<Rightarrow> osip_fsm_type_t" where
  "machine_for e r =
    (if EVT_IS_INCOMINGREQ e then (if method_of (cseq r) = Some ''INVITE'' then IST else NIST)
     else (if method_of (cseq r) = Some ''INVITE'' then ICT else NICT))"

lemma osip_create_transaction_ok:
  assumes s: "stack_ok s" and e: "sip e = Some ra" "msgs s ra = Some r" "event_for e r"
  shows "\<exists>p evt s'. osip_create_transaction cf (Some e) s = Some ((p, evt), s') \<and> stack_ok s'
    \<and> (case p of
         None \<Rightarrow> evt = Some e \<and> keeps s s' \<and> msgs s' = msgs s
       | Some a \<Rightarrow> evt = Some (e\<lparr>ev_transactionid := next_transactionid s\<rparr>)
           \<and> created (machine_for e r) r a s s' \<and> MSG_IS_REQUEST r \<and> \<not> is_method ''ACK'' r
           \<and> method_of (cseq r) = sip_method r)"
proof -
  have msg: "msg_ok r" using s e(2) by (simp add: stack_ok_def heap_ok_def)
  have none: ?thesis if "osip_create_transaction cf (Some e) s = Some ((None, Some e), s)"
    using that s keeps_refl by simp
  let ?bad = "MSG_IS_REQUEST r \<and> (method_of (cseq r) = None \<or> sip_method r = None \<or> method_of (cseq r) \<noteq> sip_method r)"
  show ?thesis
  proof (cases "?bad \<or> is_method ''ACK'' r \<or> \<not> MSG_IS_REQUEST r")
    case True
    have "\<not> MSG_IS_REQUEST r \<Longrightarrow> \<not> EVT_IS_INCOMINGREQ e \<and> \<not> EVT_IS_OUTGOINGREQ e"
      using e(3) by (cases "type e") (simp_all add: event_for_def evt_kind_defs)
    then show ?thesis
      using True e(1,2) msg by (intro none) (auto simp: osip_create_transaction_def Let_def)
  next
    case False
    then obtain mtd where mtd: "method_of (cseq r) = Some mtd" "sip_method r = Some mtd" "MSG_IS_REQUEST r"
      "\<not> is_method ''ACK'' r" by auto
    have uri: "req_uri r \<noteq> None" using msg mtd(3) by (auto simp: msg_ok_def MSG_IS_REQUEST_def)
    have dir: "EVT_IS_INCOMINGREQ e \<or> EVT_IS_OUTGOINGREQ e" using e(3) mtd(3) by (simp add: event_for_def)
    have run: "osip_create_transaction cf (Some e) s = do {
        ((i, p), s) \<leftarrow> osip_transaction_init cf (machine_for e r) (Some ra) s;
        (if i \<noteq> 0 then Some ((None, Some e), s)
         else do { b \<leftarrow> p; t \<leftarrow> transactions s b; Some ((Some b, Some (e\<lparr>ev_transactionid := transactionid t\<rparr>)), s) }) }"
      unfolding osip_create_transaction_def machine_for_def using e(1,2) mtd msg dir by (auto simp: Let_def)
    obtain i p s' where i: "osip_transaction_init cf (machine_for e r) (Some ra) s = Some ((i, p), s')" "stack_ok s'"
      "if i = OSIP_SUCCESS then \<exists>a. p = Some a \<and> created (machine_for e r) r a s s'
       else p = None \<and> keeps s s' \<and> msgs s' = msgs s"
      using osip_transaction_init_ok [OF s e(2) uri] by blast
    show ?thesis
    proof (cases "i = OSIP_SUCCESS")
      case True
      then obtain a where a: "p = Some a" "created (machine_for e r) r a s s'" using i(3) by auto
      then obtain t where "transactions s' a = Some t" "transactionid t = next_transactionid s"
        by (auto simp: created_def)
      then have "osip_create_transaction cf (Some e) s
          = Some ((Some a, Some (e\<lparr>ev_transactionid := next_transactionid s\<rparr>)), s')"
        unfolding run using i(1) True a(1) by simp
      then show ?thesis using i(2) a(2) mtd by auto
    next
      case False
      then have "osip_create_transaction cf (Some e) s = Some ((None, Some e), s')"
        unfolding run using i(1) by simp
      then show ?thesis using i(2,3) False by simp
    qed
  qed
qed

section \<open>Messages outside the transactions\<close>

lemma arrive_stack_ok:
  assumes "stack_ok s" "msg_ok m"
  shows "stack_ok (s\<lparr>msgs := (msgs s)(brk s \<mapsto> m), brk := brk s + 1\<rparr>)" (is "stack_ok ?s")
proof -
  have fresh: "brk s \<notin> dom (msgs s)" using assms(1) by (auto simp: stack_ok_def heap_ok_def)
  have "heap_ok (msgs ?s) (brk ?s) (mem ?s) []"
    using assms by (auto simp: stack_ok_def heap_ok_def less_Suc_eq)
  moreover have "tr_wf (msgs ?s) t" if t: "transactions s a = Some t" for a t
  proof (rule tr_wf_cong [OF stack_ok_tr(1) [OF assms(1) t]])
    have "set (holds t) \<subseteq> dom (msgs s)" using stack_ok_tr(1) [OF assms(1) t] by (simp add: tr_wf_def)
    then show "\<forall>x \<in> set (holds t). msgs ?s x = msgs s x" using fresh by auto
  qed
  moreover have "others ?s a = others s a" for a by (simp add: others_def)
  ultimately show ?thesis
    using assms(1) by (simp add: stack_ok_def lists_ok_def ids_ok_def)
qed

lemma discard_stack_ok:
  assumes "stack_ok s" "unheld s x"
  shows "stack_ok (s\<lparr>msgs := (msgs s)(x := None)\<rparr>)" (is "stack_ok ?s")
proof -
  have "heap_ok (msgs ?s) (brk ?s) (mem ?s) []"
    using assms by (auto simp: stack_ok_def heap_ok_def)
  moreover have "tr_wf (msgs ?s) t" if t: "transactions s a = Some t" for a t
    by (rule tr_wf_cong [OF stack_ok_tr(1) [OF assms(1) t]]) (use assms(2) t in \<open>auto simp: unheld_def\<close>)
  moreover have "others ?s a = others s a" for a by (simp add: others_def)
  ultimately show ?thesis
    using assms(1) by (simp add: stack_ok_def lists_ok_def ids_ok_def)
qed

section \<open>The time to sleep\<close>

lemma watched_ok: "tr_ok t \<Longrightarrow> ctx_type t = ty \<Longrightarrow> watched ty t \<noteq> None"
  using tr_ok_context [of t] by (cases ty) (auto simp: watched_def)

lemma lower_timers_ok:
  assumes "stack_ok s" "\<forall>a \<in> set l. \<exists>t. transactions s a = Some t \<and> ctx_type t = ty"
  shows "lower_timers ty now (transactions s) l lower \<noteq> None"
  using assms(2)
proof (induction l arbitrary: lower)
  case (Cons a l)
  then obtain t where t: "transactions s a = Some t" "ctx_type t = ty" by auto
  obtain ff where "transactionff t = Some ff" using tr_wf_queue [OF stack_ok_tr(1) [OF assms(1) t(1)]] by blast
  moreover obtain tvs where "watched ty t = Some tvs"
    using watched_ok [OF stack_ok_tr_ok [OF assms(1) t(1)] t(2)] by blast
  moreover have "lower_timers ty now (transactions s) l (foldl min_timercmp lower tvs) \<noteq> None"
    using Cons by (simp del: not_None_eq)
  ultimately show ?case
    using t(1) by (cases "ty = ICT"; simp add: Let_def del: not_None_eq)
qed simp

lemma osip_timers_gettimeout_ok:
  assumes s: "stack_ok s"
  shows "\<exists>tv. osip_timers_gettimeout cf s = Some (tv, s\<lparr>ticks := ticks s + 1\<rparr>)"
proof -
  have l: "osip_ict_transactions s = transactions_of ICT s" "osip_ist_transactions s = transactions_of IST s"
    "osip_nict_transactions s = transactions_of NICT s" "osip_nist_transactions s = transactions_of NIST s"
    by (simp_all add: transactions_of_def)
  let ?now = "clock cf (ticks s)"
  have lt: "\<exists>b tv. lower_timers ty ?now (transactions s) (transactions_of ty s) lower = Some (b, tv)" for ty lower
    using lower_timers_ok [OF s stack_ok_list [OF s]] by (metis not_None_eq surj_pair)
  obtain b1 t1 where 1: "lower_timers ICT ?now (transactions s) (osip_ict_transactions s)
      \<lparr>tv_sec = tv_sec ?now + 3600 * 24 * 365, tv_usec = tv_usec ?now\<rparr> = Some (b1, t1)"
    using lt unfolding l by blast
  obtain b2 t2 where 2: "lower_timers IST ?now (transactions s) (osip_ist_transactions s) t1 = Some (b2, t2)"
    using lt unfolding l by blast
  obtain b3 t3 where 3: "lower_timers NICT ?now (transactions s) (osip_nict_transactions s) t2 = Some (b3, t3)"
    using lt unfolding l by blast
  obtain b4 t4 where 4: "lower_timers NIST ?now (transactions s) (osip_nist_transactions s) t3 = Some (b4, t4)"
    using lt unfolding l by blast
  note 1 2 3 4
  moreover obtain b5 t5 where "lower_ixt (clock cf (ticks s)) (ixt_retransmissions s) t4 = (b5, t5)"
    by (cases "lower_ixt (clock cf (ticks s)) (ixt_retransmissions s) t4")
  ultimately show ?thesis
    by (cases b1; cases b2; cases b3; cases b4; cases b5)
      (simp_all add: osip_timers_gettimeout_def osip_gettimeofday_def)
qed

end
