(* ===== verification/Stack_Steps.thy ===== *)
theory Stack_Steps
  imports Stack_Inv
begin

text \<open>
  Sequences of calls of the API of \<^verbatim>\<open>osip.c\<close> and \<^verbatim>\<open>osip_transaction.c\<close>: the calls an
  application makes, what it may pass to them, the stacks it can reach, and that no sequence of
  such calls reaches undefined behaviour.
\<close>

section \<open>The calls of an application\<close>

datatype api_call =
    Arrive osip_message
  | Discard nat
  | Create osip_event
  | Deliver osip_event
  | Add_event nat osip_event
  | Execute osip_fsm_type_t
  | Timers osip_fsm_type_t
  | Sleep
  | Free nat

definition osip_execute :: "osip_fsm_type_t \<Rightarrow> osip_config \<Rightarrow> osip \<Rightarrow> (int \<times> osip) option" where
  "osip_execute ty =
    (case ty of ICT \<Rightarrow> osip_ict_execute | IST \<Rightarrow> osip_ist_execute
     | NICT \<Rightarrow> osip_nict_execute | NIST \<Rightarrow> osip_nist_execute)"

definition osip_timers_execute :: "osip_fsm_type_t \<Rightarrow> osip_config \<Rightarrow> osip \<Rightarrow> osip option" where
  "osip_timers_execute ty =
    (case ty of ICT \<Rightarrow> osip_timers_ict_execute | IST \<Rightarrow> osip_timers_ist_execute
     | NICT \<Rightarrow> osip_timers_nict_execute | NIST \<Rightarrow> osip_timers_nist_execute)"

text \<open>The application adds an event to a transaction it knows.\<close>

definition add_event :: "nat \<Rightarrow> osip_event \<Rightarrow> osip \<Rightarrow> (int \<times> osip) option" where
  "add_event a e s =
    do {
      t \<leftarrow> transactions s a;
      ((i, t), m) \<leftarrow> osip_transaction_add_event (Some t) (Some e) (mem s);
      t \<leftarrow> t;
      Some (i, put_tr a t (s\<lparr>mem := m\<rparr>))
    }"

text \<open>A message the parser or the application allocates, and one the application frees.\<close>

definition message_arrives :: "osip_message \<Rightarrow> osip \<Rightarrow> osip" where
  "message_arrives m s = s\<lparr>msgs := (msgs s)(brk s \<mapsto> m), brk := brk s + 1\<rparr>"

fun call :: "osip_config \<Rightarrow> api_call \<Rightarrow> osip \<Rightarrow> osip option" where
  "call cf (Arrive m) s = Some (message_arrives m s)"
| "call cf (Discard x) s = osip_message_free (Some x) s"
| "call cf (Create e) s = map_option snd (osip_create_transaction cf (Some e) s)"
| "call cf (Deliver e) s = map_option snd (osip_find_transaction_and_add_event (Some e) s)"
| "call cf (Add_event a e) s = map_option snd (add_event a e s)"
| "call cf (Execute ty) s = map_option snd (osip_execute ty cf s)"
| "call cf (Timers ty) s = osip_timers_execute ty cf s"
| "call cf Sleep s = map_option snd (osip_timers_gettimeout cf s)"
| "call cf (Free a) s = map_option snd (osip_transaction_free (Some a) s)"

text \<open>
  What the application promises: a message it hands over is one it still owns and has the
  headers a SIP message must have, and the events of the timers are the stack's own.
\<close>

definition own_message :: "osip \<Rightarrow> osip_event \<Rightarrow> bool" where
  "own_message s e =
    (case sip e of None \<Rightarrow> False
     | Some x \<Rightarrow> unheld s x \<and> (case msgs s x of None \<Rightarrow> False
         | Some m \<Rightarrow> event_for e m \<and> msg_to m \<noteq> None \<and> method_of (cseq m) \<noteq> None))"

fun allowed :: "osip \<Rightarrow> api_call \<Rightarrow> bool" where
  "allowed s (Arrive m) \<longleftrightarrow> msg_ok m"
| "allowed s (Discard x) \<longleftrightarrow> msgs s x \<noteq> None \<and> unheld s x"
| "allowed s (Create e) \<longleftrightarrow> own_message s e"
| "allowed s (Deliver e) \<longleftrightarrow> own_message s e"
| "allowed s (Add_event a e) \<longleftrightarrow> transactions s a \<noteq> None \<and> own_message s e"
| "allowed s (Execute ty) \<longleftrightarrow> True"
| "allowed s (Timers ty) \<longleftrightarrow> True"
| "allowed s Sleep \<longleftrightarrow> True"
| "allowed s (Free a) \<longleftrightarrow> transactions s a \<noteq> None"

text \<open>A stack that has just been made has nothing; the rest is reached by allowed calls.\<close>

definition empty_stack :: "mem \<Rightarrow> nat \<Rightarrow> action list \<Rightarrow> osip" where
  "empty_stack m n l = \<lparr>msgs = Map.empty, brk = 0, mem = m, ticks = n, log = l,
     application_context = None, next_transactionid = 1, osip_ict_transactions = [],
     osip_ist_transactions = [], osip_nict_transactions = [], osip_nist_transactions = [],
     ixt_retransmissions = [], transactions = Map.empty, tr_brk = 0\<rparr>"

inductive stack_reachable :: "osip_config \<Rightarrow> osip \<Rightarrow> bool" for cf where
  start: "never_fails m \<Longrightarrow> stack_reachable cf (empty_stack m n l)"
| step: "stack_reachable cf s \<Longrightarrow> allowed s c \<Longrightarrow> call cf c s = Some s' \<Longrightarrow> stack_reachable cf s'"

section \<open>Every allowed call is safe\<close>

lemma own_messageE:
  assumes "own_message s e"
  obtains x m c mtd where "sip e = Some x" "msgs s x = Some m" "event_for e m" "unheld s x"
    "msg_to m \<noteq> None" "cseq m = Some c" "cseq_method c = Some mtd"
  using assms by (auto simp: own_message_def method_of_def split: option.splits)

lemma empty_stack_ok: "never_fails m \<Longrightarrow> stack_ok (empty_stack m n l)"
  by (simp add: stack_ok_def heap_ok_def lists_ok_def ids_ok_def empty_stack_def transactions_of_def
      split: osip_fsm_type_t.split)

lemma osip_init_empty:
  assumes "osip_init w = ((i, Some s), m)" "msgs w = Map.empty" "brk w = 0"
  shows "s = empty_stack (mem s) (ticks w) (log w)"
  using assms by (auto simp: osip_init_def empty_stack_def split: prod.splits if_splits)

lemma execute_ok:
  assumes "stack_ok s"
  shows "\<exists>s'. osip_execute ty cf s = Some (OSIP_SUCCESS, s') \<and> stack_ok s'
    \<and> (\<forall>ty'. transactions_of ty' s' = transactions_of ty' s)
    \<and> (\<forall>a \<in> set (transactions_of ty s). \<forall>t. transactions s' a = Some t \<longrightarrow> queue_of t = [])"
proof -
  have "osip_execute ty cf s = execute_list cf (transactions_of ty s) s"
    by (cases ty) (simp_all add: osip_execute_def execute_as_list)
  then show ?thesis using execute_list_ok [OF assms, of cf ty] by simp
qed

lemma timers_ok:
  assumes "stack_ok s"
  shows "\<exists>s'. osip_timers_execute ty cf s = Some s' \<and> keeps s s'"
  using timers_execute_ok [OF assms, of cf] by (cases ty) (simp_all add: osip_timers_execute_def)

lemma add_message_ok:
  assumes s: "stack_ok s" and a: "transactions s a = Some t" and e: "own_message s e"
  shows "\<exists>s' t'. add_event a e s = Some (OSIP_SUCCESS, s') \<and> keeps s s' \<and> transactions s' a = Some t'
    \<and> queue_of t' = queue_of t @ [e\<lparr>ev_transactionid := transactionid t\<rparr>]"
proof -
  let ?e = "e\<lparr>ev_transactionid := transactionid t\<rparr>"
  obtain x m where x: "sip e = Some x" "msgs s x = Some m" "event_for e m" "unheld s x"
    using own_messageE [OF e] by metis
  obtain ff where ff: "transactionff t = Some ff" "queue_of t = queue ff"
    using tr_wf_queue [OF stack_ok_tr(1) [OF s a]] by blast
  have q: "queued_ok (msgs s) ?e"
    using x(1-3) by (simp add: queued_ok_def event_for_id)
  have "set_option (sip ?e) \<inter> (set (holds t) \<union> others s a) = {}"
    using x(1,4) a by (auto simp: unheld_def others_def)
  then obtain ff' m' where "osip_fifo_add ff ?e (mem s) = ((OSIP_SUCCESS, ff'), m')"
    "queue ff' = queue ff @ [?e]"
    "keeps s (put_tr a (t\<lparr>transactionff := Some ff'\<rparr>) (s\<lparr>mem := m'\<rparr>))"
    using add_event_ok [OF s a ff(1) q] by blast
  then show ?thesis
    using a ff by (simp add: add_event_def osip_transaction_add_event_def put_tr_def queue_of_def)
qed

theorem call_ok:
  assumes s: "stack_ok s" and c: "allowed s c"
  shows "\<exists>s'. call cf c s = Some s' \<and> stack_ok s'"
proof (cases c)
  case (Arrive m)
  then show ?thesis using arrive_stack_ok [OF s] c by (simp add: message_arrives_def)
next
  case (Discard x)
  then show ?thesis using discard_stack_ok [OF s, of x] c
    by (auto simp: osip_message_free_def)
next
  case (Create e)
  then have "own_message s e" using c by simp
  then obtain x m where "sip e = Some x" "msgs s x = Some m" "event_for e m"
    by (rule own_messageE)
  then show ?thesis
    using osip_create_transaction_ok [OF s, of e x m cf] Create by auto
next
  case (Deliver e)
  then have "own_message s e" using c by simp
  then obtain x m cs mtd where "sip e = Some x" "msgs s x = Some m" "event_for e m" "unheld s x"
    "msg_to m \<noteq> None" "cseq m = Some cs" "cseq_method cs = Some mtd"
    by (rule own_messageE)
  then obtain p s' where "osip_find_transaction_consume (Some e) True s = Some (p, s')" "keeps s s'"
    using find_and_add_ok [OF s, of e x m cs mtd] by blast
  then show ?thesis using Deliver
    by (simp add: osip_find_transaction_and_add_event_def keeps_def)
next
  case (Add_event a e)
  then obtain t where "transactions s a = Some t" "own_message s e" using c by auto
  then show ?thesis using add_message_ok [OF s, of a t e] Add_event by (auto simp: keeps_def)
next
  case (Execute ty)
  then show ?thesis using execute_ok [OF s, of ty cf] by auto
next
  case (Timers ty)
  then show ?thesis using timers_ok [OF s, of ty cf] by (auto simp: keeps_def)
next
  case Sleep
  obtain tv where "osip_timers_gettimeout cf s = Some (tv, s\<lparr>ticks := ticks s + 1\<rparr>)"
    using osip_timers_gettimeout_ok [OF s] by blast
  then show ?thesis using s Sleep stack_ok_ticks by simp
next
  case (Free a)
  then obtain t where "transactions s a = Some t" using c by auto
  then show ?thesis using free_stack_ok [OF s, of a t] Free by auto
qed

lemma stack_reachable_ok: "stack_reachable cf s \<Longrightarrow> stack_ok s"
proof (induction rule: stack_reachable.induct)
  case (start m n l)
  then show ?case by (rule empty_stack_ok)
next
  case (step s c s')
  then show ?case using call_ok [of s c cf] by auto
qed

end
