(* ===== verification/Call_Matching.thy ===== *)
theory Call_Matching
  imports Stack_Steps
begin

text \<open>
  Which messages of a call meet: the transaction that \<^verbatim>\<open>osip_transaction_init\<close> makes from a
  request keeps of it what the matching of RFC 3261 needs, so that a response to the request
  finds the client transaction, the ACK the client builds finds the server transaction, and a
  request of another method does not.
\<close>

lemma keeps_headers_call_ok:
  assumes "keeps_headers r t" "msg_ok r"
  shows "call_ok t"
proof -
  obtain v where v: "topvia_of r = Some v" "topvia t = Some v" using assms(1) by (auto simp: keeps_headers_def)
  have "named (via_params v)" using topvia_of_named [OF assms(2) v(1)] .
  moreover obtain c m where "tr_cseq t = Some c" "cseq_method c = Some m"
    using assms(1) by (auto simp: keeps_headers_def method_of_def split: option.splits)
  moreover have "tr_to t \<noteq> None" "named_from (tr_to t)" "named_from (tr_from t)"
    using assms by (simp_all add: keeps_headers_def msg_ok_def)
  ultimately show ?thesis
    unfolding call_ok_def using v(2) by blast
qed

text \<open>A response that carries the top Via and the CSeq of the request finds its transaction.\<close>

lemma response_finds_client:
  assumes "keeps_headers orig t" "msg_ok orig" "ict_context t \<noteq> Null \<or> nict_context t \<noteq> Null"
    and "msg_ok resp" "topvia_of resp = topvia_of orig" "cseq resp = cseq orig"
    and "topvia_of orig = Some v" "branch_of v \<noteq> None"
  shows "matching_response_osip_to_xict_17_1_3 (Some t) (Some resp) = Some OSIP_SUCCESS"
proof -
  have "response_of t resp"
    using assms by (auto simp: response_of_def keeps_headers_def)
  then show ?thesis
    using matching_response_ok [OF assms(3) keeps_headers_call_ok [OF assms(1,2)] assms(4)] by auto
qed

text \<open>The ACK that the client builds for a response to its INVITE finds the server transaction.\<close>

lemma topvia_ack_for: "topvia_of (ack_for orig resp) = topvia_of orig"
  by (cases "topvia_of orig") (simp_all add: ack_for_def Let_def topvia_of_def)

lemma method_ack_for: "method_of (cseq (ack_for orig resp)) = map_option (\<lambda>_. ''ACK'') (cseq resp)"
  by (simp add: ack_for_def Let_def method_of_def split: option.split)

lemma ack_finds_server:
  assumes t: "keeps_headers orig t" "msg_ok orig" "ist_context t \<noteq> Null" "method_of (cseq orig) = Some ''INVITE''"
    and v: "topvia_of orig = Some v" "has_cookie v" "via_host v \<noteq> None"
    and r: "msg_ok resp" "cseq resp \<noteq> None" "req_uri orig \<noteq> None" "never_fails m"
    and a: "ict_create_ack_message orig resp m = ((OSIP_SUCCESS, Some a), m')"
  shows "matching_request_osip_to_xist_17_2_3 h (Some t) (Some a) mm = Some (OSIP_SUCCESS, mm)"
proof -
  have a: "a = ack_for orig resp"
    using ict_create_ack_message_gives [OF r(4), of orig resp] a by (simp add: gives_opt_def)
  then have ok: "msg_ok a" using ack_for_ok [OF t(2) r(3) r(1)] by simp
  have via: "topvia_of a = Some v" "topvia t = Some v"
    using v(1) t(1) a topvia_ack_for by (simp_all add: keeps_headers_def)
  have "method_of (cseq a) = Some ''ACK''" using a r(2) method_ack_for by auto
  moreover have "method_of (tr_cseq t) = Some ''INVITE''" using t(1,4) by (simp add: keeps_headers_def)
  ultimately have "request_of t a" using via v(3) by (auto simp: request_of_def)
  then show ?thesis
    using matching_request_3261_ok [of t a v v h mm] t(3) keeps_headers_call_ok [OF t(1,2)] ok via v(2)
    by auto
qed

text \<open>A CANCEL, or any other request but the INVITE and its ACK, finds no INVITE transaction.\<close>

lemma other_method_finds_none:
  assumes "call_ok t" "msg_ok r" "ist_context t \<noteq> Null" "method_of (tr_cseq t) = Some ''INVITE''"
    and "topvia t = Some v" "has_cookie v" "topvia_of r = Some w" "has_cookie w"
    and "method_of (cseq r) \<notin> {Some ''INVITE'', Some ''ACK''}"
  shows "\<exists>i. matching_request_osip_to_xist_17_2_3 h (Some t) (Some r) m = Some (i, m) \<and> i \<noteq> OSIP_SUCCESS"
proof -
  have "\<not> request_of t r" using assms by (auto simp: request_of_def)
  then show ?thesis
    using matching_request_3261_ok [of t r v w h m] assms by auto
qed

end
