(* ===== verification/Timing.thy ===== *)
theory Timing
  imports Stack_Steps
begin

text \<open>
  When the library sends again and how long it may sleep: the retransmission timers A, E and G
  of the machines, the event of a timer, and the time \<^verbatim>\<open>osip_timers_gettimeout\<close> answers,
  which is exactly the time to the first deadline.
\<close>

section \<open>The event of a timer\<close>

lemma need_timer_event:
  assumes "never_fails (mem w)"
  shows "\<exists>w'. osip_transaction_need_timer_x_event cf (Live c) timer active tid ty w
    = Some (if active \<and> tv_sec (timer c) \<noteq> -1 \<and> osip_timer_gt (clock cf (ticks w)) (timer c)
            then Some \<lparr>type = ty, ev_transactionid = tid, sip = None\<rparr> else None, w')"
  using osip_malloc_never_fails [OF assms]
  by (auto simp: osip_transaction_need_timer_x_event_def osip_gettimeofday_def osip_event_new_def)

section \<open>The time to sleep\<close>

definition started :: "timeval list \<Rightarrow> timeval list" where
  "started = filter (\<lambda>tv. tv_sec tv \<noteq> -1)"

definition watched_timers :: "osip_fsm_type_t \<Rightarrow> (nat \<rightharpoonup> osip_transaction) \<Rightarrow> nat list \<Rightarrow> timeval list" where
  "watched_timers ty h l =
    concat (map (\<lambda>a. case h a of None \<Rightarrow> []
       | Some t \<Rightarrow> (case watched ty t of None \<Rightarrow> [] | Some tvs \<Rightarrow> started tvs)) l)"

definition pending :: "(nat \<rightharpoonup> osip_transaction) \<Rightarrow> nat list \<Rightarrow> bool" where
  "pending h l \<longleftrightarrow> (\<exists>a \<in> set l. \<exists>t. h a = Some t \<and> queue_of t \<noteq> [])"

definition deadlines :: "osip \<Rightarrow> timeval list" where
  "deadlines s =
    concat (map (\<lambda>ty. watched_timers ty (transactions s) (transactions_of ty s)) [ICT, IST, NICT, NIST])
    @ started (map ixt_start (ixt_retransmissions s))"

definition first_deadline :: "int \<Rightarrow> timeval list \<Rightarrow> int" where
  "first_deadline x tvs = foldl min x (map usecs tvs)"

lemma first_deadline_simps [simp]:
  "first_deadline x [] = x"
  "first_deadline x (tv # tvs) = first_deadline (min x (usecs tv)) tvs"
  "first_deadline x (tvs @ tvs') = first_deadline (first_deadline x tvs) tvs'"
  by (simp_all add: first_deadline_def)

lemma first_deadline_Min: "first_deadline x tvs = Min (insert x (usecs ` set tvs))"
proof (induction tvs arbitrary: x)
  case (Cons tv tvs)
  have "Min (insert (min x (usecs tv)) (usecs ` set tvs)) = Min (insert x (insert (usecs tv) (usecs ` set tvs)))"
    by (cases tvs) (simp_all add: min.assoc)
  then show ?case using Cons by simp
qed simp

lemma first_deadline_le: "first_deadline x tvs \<le> x"
  by (simp add: first_deadline_Min)

lemma first_deadline_mem: "tv \<in> set tvs \<Longrightarrow> first_deadline x tvs \<le> usecs tv"
  by (simp add: first_deadline_Min)

lemma started_simps [simp]:
  "started [] = []"
  "started (tv # tvs) = (if tv_sec tv = -1 then started tvs else tv # started tvs)"
  by (simp_all add: started_def)

lemma usecs_min_timercmp:
  assumes "tv_normal a" "tv_normal b"
  shows "tv_normal (min_timercmp a b)"
    and "usecs (min_timercmp a b) = (if tv_sec b = -1 then usecs a else min (usecs a) (usecs b))"
  using assms by (auto simp: min_timercmp_def osip_timer_gt_usecs)

lemma usecs_foldl_min_timercmp:
  assumes "tv_normal lower" "\<forall>tv \<in> set tvs. tv_normal tv"
  shows "tv_normal (foldl min_timercmp lower tvs)
    \<and> usecs (foldl min_timercmp lower tvs) = first_deadline (usecs lower) (started tvs)"
  using assms
proof (induction tvs arbitrary: lower)
  case (Cons tv tvs)
  then show ?case
    using usecs_min_timercmp [of lower tv] by simp
qed simp

text \<open>
  One list: the loop stops because an INVITE client has events or because a timer is due, or
  goes through and has the first deadline so far.
\<close>

definition scanned :: "bool \<Rightarrow> int \<Rightarrow> int \<Rightarrow> timeval list \<Rightarrow> bool \<Rightarrow> timeval \<Rightarrow> bool" where
  "scanned p now x tvs b lo \<longleftrightarrow>
     (if b then p \<or> first_deadline x tvs < now
      else \<not> p \<and> tv_normal lo \<and> now \<le> usecs lo \<and> usecs lo = first_deadline x tvs)"

lemma scanned_next:
  assumes "scanned p now x tvs b lo"
    and "\<not> b \<Longrightarrow> tv_normal lo \<Longrightarrow> now \<le> usecs lo \<Longrightarrow> scanned False now (usecs lo) tvs' b' lo'"
  shows "scanned p now x (tvs @ tvs') (b \<or> b') lo'"
proof (cases b)
  case True
  then show ?thesis
    using assms(1) first_deadline_le [of "first_deadline x tvs" tvs'] by (auto simp: scanned_def)
next
  case False
  then show ?thesis using assms by (auto simp: scanned_def)
qed

lemma lower_timers_spec:
  assumes "\<forall>a \<in> set l. \<exists>t ff tvs. h a = Some t \<and> transactionff t = Some ff
      \<and> watched ty t = Some tvs \<and> (\<forall>tv \<in> set tvs. tv_normal tv)"
    and "tv_normal now" "tv_normal lower" "usecs now \<le> usecs lower"
    and "lower_timers ty now h l lower = Some (b, lo)"
  shows "scanned (ty = ICT \<and> pending h l) (usecs now) (usecs lower) (watched_timers ty h l) b lo"
  using assms
proof (induction l arbitrary: lower)
  case Nil
  then show ?case by (simp add: scanned_def pending_def watched_timers_def)
next
  case (Cons a l)
  obtain t ff tvs where t: "h a = Some t" "transactionff t = Some ff" "watched ty t = Some tvs"
    "\<forall>tv \<in> set tvs. tv_normal tv" using Cons.prems(1) by auto
  have q: "pending h (a # l) \<longleftrightarrow> 1 \<le> osip_fifo_size ff \<or> pending h l"
    using t(1,2) by (auto simp: pending_def queue_of_def osip_fifo_size_def Suc_le_eq)
  have w: "watched_timers ty h (a # l) = started tvs @ watched_timers ty h l"
    using t by (simp add: watched_timers_def)
  let ?lower = "foldl min_timercmp lower tvs"
  have lower: "tv_normal ?lower" "usecs ?lower = first_deadline (usecs lower) (started tvs)"
    using usecs_foldl_min_timercmp [OF Cons.prems(3) t(4)] by simp_all
  have gt: "osip_timer_gt now ?lower \<longleftrightarrow> usecs ?lower < usecs now"
    using osip_timer_gt_usecs [OF Cons.prems(2) lower(1)] .
  show ?case
  proof (cases "ty = ICT \<and> 1 \<le> osip_fifo_size ff")
    case True
    then show ?thesis using Cons.prems(5) t q by (auto simp: scanned_def)
  next
    case False
    then have run: "(if osip_timer_gt now ?lower then Some (True, ?lower)
        else lower_timers ty now h l ?lower) = Some (b, lo)"
      using Cons.prems(5) t by (auto simp: Let_def split: if_splits)
    show ?thesis
    proof (cases "osip_timer_gt now ?lower")
      case True
      then show ?thesis
        using run gt lower(2) w first_deadline_le [of "usecs ?lower" "watched_timers ty h l"]
        by (simp add: scanned_def)
    next
      case later: False
      then show ?thesis
        using run gt lower w q False Cons.IH [OF _ Cons.prems(2) lower(1)] Cons.prems(1)
        by (auto simp: scanned_def)
    qed
  qed
qed

lemma lower_ixt_spec:
  assumes "\<forall>x \<in> set l. tv_normal (ixt_start x)"
    and "tv_normal now" "tv_normal lower" "usecs now \<le> usecs lower"
    and "lower_ixt now l lower = (b, lo)"
  shows "scanned False (usecs now) (usecs lower) (started (map ixt_start l)) b lo"
  using assms
proof (induction l arbitrary: lower)
  case Nil
  then show ?case by (simp add: scanned_def)
next
  case (Cons x l)
  let ?lower = "min_timercmp lower (ixt_start x)"
  have x: "tv_normal (ixt_start x)" using Cons.prems(1) by simp
  note lower = usecs_min_timercmp [OF Cons.prems(3) x]
  have gt: "osip_timer_gt now ?lower \<longleftrightarrow> usecs ?lower < usecs now"
    using osip_timer_gt_usecs [OF Cons.prems(2) lower(1)] .
  have w: "first_deadline (usecs lower) (started (map ixt_start (x # l)))
      = first_deadline (usecs ?lower) (started (map ixt_start l))"
    using lower(2) by simp
  show ?case
  proof (cases "osip_timer_gt now ?lower")
    case True
    then show ?thesis
      using Cons.prems(5) gt first_deadline_le [of "usecs ?lower" "started (map ixt_start l)"]
      unfolding scanned_def w by (auto simp: Let_def)
  next
    case False
    then show ?thesis
      using Cons.IH [OF _ Cons.prems(2) lower(1)] Cons.prems(1,5) gt unfolding scanned_def w by (auto simp: Let_def)
  qed
qed

lemma tv_zero_normal: "tv_normal tv_zero" "usecs tv_zero = 0"
  by (simp_all add: tv_zero_def tv_normal_def usecs_def)

lemma relative_timeout_exact:
  assumes "tv_normal now" "tv_normal lower" "usecs now \<le> usecs lower"
  shows "usecs (relative_timeout now lower) = usecs lower - usecs now"
    and "tv_normal (relative_timeout now lower)"
  using assms by (auto simp: relative_timeout_def tv_normal_def usecs_def Let_def split: prod.split)

definition timers_normal :: "osip \<Rightarrow> bool" where
  "timers_normal s \<longleftrightarrow>
     (\<forall>ty. \<forall>a \<in> set (transactions_of ty s). \<forall>t tvs. transactions s a = Some t \<longrightarrow> watched ty t = Some tvs
        \<longrightarrow> (\<forall>tv \<in> set tvs. tv_normal tv))
     \<and> (\<forall>x \<in> set (ixt_retransmissions s). tv_normal (ixt_start x))"

lemma watched_list:
  assumes s: "stack_ok s" and n: "timers_normal s"
  shows "\<forall>a \<in> set (transactions_of ty s). \<exists>t ff tvs. transactions s a = Some t \<and> transactionff t = Some ff
      \<and> watched ty t = Some tvs \<and> (\<forall>tv \<in> set tvs. tv_normal tv)"
proof
  fix a assume a: "a \<in> set (transactions_of ty s)"
  obtain t where t: "transactions s a = Some t" "ctx_type t = ty" using stack_ok_list [OF s] a by blast
  obtain ff where "transactionff t = Some ff" using tr_wf_queue [OF stack_ok_tr(1) [OF s t(1)]] by blast
  moreover obtain tvs where "watched ty t = Some tvs"
    using watched_ok [OF stack_ok_tr_ok [OF s t(1)] t(2)] by blast
  ultimately show "\<exists>t ff tvs. transactions s a = Some t \<and> transactionff t = Some ff
      \<and> watched ty t = Some tvs \<and> (\<forall>tv \<in> set tvs. tv_normal tv)"
    using n a t(1) unfolding timers_normal_def by blast
qed

definition usecs_per_year :: int where
  "usecs_per_year = 3600 * 24 * 365 * 1000000"

lemma osip_timers_gettimeout_exact:
  assumes s: "stack_ok s" "timers_normal s" "tv_normal (clock cf (ticks s))"
  shows "\<exists>tv. osip_timers_gettimeout cf s = Some (tv, s\<lparr>ticks := ticks s + 1\<rparr>) \<and> tv_normal tv
    \<and> usecs tv = (if pending (transactions s) (osip_ict_transactions s) then 0
        else max 0 (first_deadline (usecs (clock cf (ticks s)) + usecs_per_year) (deadlines s)
               - usecs (clock cf (ticks s))))"
proof -
  let ?now = "clock cf (ticks s)"
  let ?l0 = "\<lparr>tv_sec = tv_sec ?now + 3600 * 24 * 365, tv_usec = tv_usec ?now\<rparr>"
  let ?w = "\<lambda>ty. watched_timers ty (transactions s) (transactions_of ty s)"
  let ?x = "started (map ixt_start (ixt_retransmissions s))"
  let ?p = "pending (transactions s) (osip_ict_transactions s)"
  have l: "osip_ict_transactions s = transactions_of ICT s" "osip_ist_transactions s = transactions_of IST s"
    "osip_nict_transactions s = transactions_of NICT s" "osip_nist_transactions s = transactions_of NIST s"
    by (simp_all add: transactions_of_def)
  have l0: "tv_normal ?l0" "usecs ?l0 = usecs ?now + usecs_per_year" "usecs ?now \<le> usecs ?l0"
    using s(3) by (simp_all add: tv_normal_def usecs_def usecs_per_year_def)
  have lt: "\<exists>b tv. lower_timers ty ?now (transactions s) (transactions_of ty s) lower = Some (b, tv)" for ty lower
    using lower_timers_ok [OF s(1) stack_ok_list [OF s(1)]] by (metis not_None_eq surj_pair)
  note spec = lower_timers_spec [OF watched_list [OF s(1,2)] s(3)]
  obtain b1 t1 where 1: "lower_timers ICT ?now (transactions s) (transactions_of ICT s) ?l0 = Some (b1, t1)"
    using lt by blast
  obtain b2 t2 where 2: "lower_timers IST ?now (transactions s) (transactions_of IST s) t1 = Some (b2, t2)"
    using lt by blast
  obtain b3 t3 where 3: "lower_timers NICT ?now (transactions s) (transactions_of NICT s) t2 = Some (b3, t3)"
    using lt by blast
  obtain b4 t4 where 4: "lower_timers NIST ?now (transactions s) (transactions_of NIST s) t3 = Some (b4, t4)"
    using lt by blast
  obtain b5 t5 where 5: "lower_ixt ?now (ixt_retransmissions s) t4 = (b5, t5)" by fastforce
  let ?b = "(((b1 \<or> b2) \<or> b3) \<or> b4) \<or> b5"
  have run: "osip_timers_gettimeout cf s
      = Some (if ?b then tv_zero else relative_timeout ?now t5, s\<lparr>ticks := ticks s + 1\<rparr>)"
    using 1 [folded l] 2 [folded l] 3 [folded l] 4 [folded l] 5
    unfolding osip_timers_gettimeout_def osip_gettimeofday_def
    by (cases b1; cases b2; cases b3; cases b4; cases b5) simp_all
  have x: "\<forall>x \<in> set (ixt_retransmissions s). tv_normal (ixt_start x)"
    using s(2) by (simp add: timers_normal_def)
  have d: "deadlines s = (((?w ICT @ ?w IST) @ ?w NICT) @ ?w NIST) @ ?x"
    by (simp add: deadlines_def)
  have "scanned ?p (usecs ?now) (usecs ?l0) (?w ICT) b1 t1"
    using spec [OF l0(1,3) 1] l(1) by simp
  then have "scanned ?p (usecs ?now) (usecs ?l0) (?w ICT @ ?w IST) (b1 \<or> b2) t2"
    by (rule scanned_next) (use spec [OF _ _ 2] in simp)
  then have "scanned ?p (usecs ?now) (usecs ?l0) ((?w ICT @ ?w IST) @ ?w NICT) ((b1 \<or> b2) \<or> b3) t3"
    by (rule scanned_next) (use spec [OF _ _ 3] in simp)
  then have "scanned ?p (usecs ?now) (usecs ?l0) (((?w ICT @ ?w IST) @ ?w NICT) @ ?w NIST) (((b1 \<or> b2) \<or> b3) \<or> b4) t4"
    by (rule scanned_next) (use spec [OF _ _ 4] in simp)
  then have "scanned ?p (usecs ?now) (usecs ?l0) (deadlines s) ?b t5"
    unfolding d by (rule scanned_next) (use lower_ixt_spec [OF x s(3) _ _ 5] in simp)
  moreover define b where "b = ?b"
  ultimately have "scanned ?p (usecs ?now) (usecs ?l0) (deadlines s) b t5"
    and "osip_timers_gettimeout cf s
      = Some (if b then tv_zero else relative_timeout ?now t5, s\<lparr>ticks := ticks s + 1\<rparr>)"
    using run by simp_all
  then show ?thesis
    using relative_timeout_exact [OF s(3), of t5] unfolding scanned_def l0(2)
    by (cases b) (auto simp: tv_zero_normal)
qed

section \<open>The timers of a new transaction\<close>

text \<open>Table 4 of RFC 3261, for the transport of the top Via.\<close>

lemma client_timers:
  assumes "msg_ok r" "req_uri r \<noteq> None" "topvia_of r = Some v" "via_protocol v = Some proto" "never_fails (mem w)"
  shows "\<exists>c w'. osip_ict_init cf r w = Some ((OSIP_SUCCESS, Live c), w')
      \<and> timer_a_length c = 500 \<and> timer_a_start c = add_gettimeofday (clock cf (ticks w)) 500
      \<and> timer_b_length c = 32000 \<and> timer_b_start c = add_gettimeofday (clock cf (ticks w + 1)) 32000
      \<and> timer_d_length c = (if unreliable proto then 32000 else 0) \<and> timer_is_off (timer_d_start c)"
    and "\<exists>c w'. osip_nict_init cf r w = Some ((OSIP_SUCCESS, Live c), w')
      \<and> timer_e_length c = 500 \<and> timer_is_off (timer_e_start c)
      \<and> timer_f_length c = 32000 \<and> timer_f_start c = add_gettimeofday (clock cf (ticks w)) 32000
      \<and> timer_k_length c = (if unreliable proto then 5000 else 0) \<and> timer_is_off (timer_k_start c)"
proof -
  obtain m where m: "osip_malloc (mem w) = (True, m)" "never_fails m"
    using osip_malloc_never_fails [OF assms(5)] by blast
  obtain host port m' where d: "request_destination r m = Some ((host, port), m')"
    using request_destination_ok [OF assms(1,2) m(2)] by blast
  note via = assms(3,4)
  show "\<exists>c w'. osip_ict_init cf r w = Some ((OSIP_SUCCESS, Live c), w')
      \<and> timer_a_length c = 500 \<and> timer_a_start c = add_gettimeofday (clock cf (ticks w)) 500
      \<and> timer_b_length c = 32000 \<and> timer_b_start c = add_gettimeofday (clock cf (ticks w + 1)) 32000
      \<and> timer_d_length c = (if unreliable proto then 32000 else 0) \<and> timer_is_off (timer_d_start c)"
    using m(1) d via
    by (simp add: osip_ict_init_def via_get_protocol_def time_in_eq osip_ict_set_destination_def Let_def
        timer_is_off_def timer_off_def)
  show "\<exists>c w'. osip_nict_init cf r w = Some ((OSIP_SUCCESS, Live c), w')
      \<and> timer_e_length c = 500 \<and> timer_is_off (timer_e_start c)
      \<and> timer_f_length c = 32000 \<and> timer_f_start c = add_gettimeofday (clock cf (ticks w)) 32000
      \<and> timer_k_length c = (if unreliable proto then 5000 else 0) \<and> timer_is_off (timer_k_start c)"
    using m(1) d via
    by (simp add: osip_nict_init_def via_get_protocol_def time_in_eq osip_nict_set_destination_def Let_def
        timer_is_off_def timer_off_def)
qed

lemma server_timers:
  assumes "topvia_of r = Some v" "via_protocol v = Some proto" "never_fails (mem w)"
  shows "\<exists>c w'. osip_ist_init cf r w = Some ((OSIP_SUCCESS, Live c), w')
      \<and> timer_g_length c = (if unreliable proto then 500 else -1) \<and> timer_is_off (timer_g_start c)
      \<and> timer_h_length c = 32000 \<and> timer_is_off (timer_h_start c)
      \<and> timer_i_length c = (if unreliable proto then 5000 else 0) \<and> timer_is_off (timer_i_start c)"
    and "\<exists>c w'. osip_nist_init cf r w = Some ((OSIP_SUCCESS, Live c), w')
      \<and> timer_j_length c = (if unreliable proto then 32000 else 0) \<and> timer_is_off (timer_j_start c)"
  using osip_malloc_never_fails [OF assms(3)] assms(1,2)
  by (auto simp: osip_ist_init_def osip_nist_init_def via_get_protocol_def Let_def timer_is_off_def timer_off_def)

end
