(* ===== verification/Retransmission.thy ===== *)
theory Retransmission
  imports Osip_Transaction
begin

text \<open>
  The retransmissions over an unreliable transport: timer A of the INVITE client doubles
  without a bound, timer E of the other client doubles up to T2 and is T2 once a provisional
  response came, timer G of the INVITE server doubles up to T2.
\<close>

section \<open>What was sent\<close>

definition is_send :: "action \<Rightarrow> bool" where
  "is_send a = (case a of Send _ _ _ _ _ \<Rightarrow> True | _ \<Rightarrow> False)"

definition sends :: "action list \<Rightarrow> action list" where
  "sends l = filter is_send l"

lemma sends_simps [simp]:
  "sends [] = []"
  "sends (x # l) = (if is_send x then x # sends l else sends l)"
  "sends (l @ l') = sends l @ sends l'"
  "sends (message_cb_log cf ty p) = []"
  "is_send (Send a host port sock j)"
  "\<not> is_send (Message_cb ty p)"
  by (simp_all add: sends_def is_send_def message_cb_log_def)

text \<open>A request that waits over an unreliable transport that takes every message.\<close>

definition accepting :: "osip_config \<Rightarrow> bool" where
  "accepting cf \<longleftrightarrow> (\<forall>l m host port sock. cb_send_message cf l m host port sock = 0)"

definition unreliable_request :: "nat \<Rightarrow> st \<Rightarrow> bool" where
  "unreliable_request a s \<longleftrightarrow> config (tr s) \<and> orig_request (tr s) = Some a
     \<and> (\<exists>m v proto. msgs s a = Some m \<and> topvia_of m = Some v \<and> via_protocol v = Some proto \<and> unreliable proto)"

fun repeatedly :: "nat \<Rightarrow> ('s \<Rightarrow> 's option) \<Rightarrow> 's \<Rightarrow> 's option" where
  "repeatedly 0 f s = Some s"
| "repeatedly (Suc n) f s = do { s \<leftarrow> repeatedly n f s; f s }"

section \<open>Timer A\<close>

lemma timer_a_step:
  assumes "unreliable_request a s" "ict_context (tr s) = Live c" "accepting cf"
  shows "\<exists>s' c'. osip_ict_timeout_a_event cf e s = Some s' \<and> unreliable_request a s'
    \<and> ict_context (tr s') = Live c' \<and> timer_a_length c' = 2 * timer_a_length c
    \<and> timer_a_start c' = add_gettimeofday (clock cf (ticks s)) (timer_a_length c')
    \<and> ict_destination c' = ict_destination c \<and> ict_port c' = ict_port c
    \<and> state (tr s') = state (tr s) \<and> out_socket (tr s') = out_socket (tr s)
    \<and> sends (log s') = sends (log s) @ [Send a (ict_destination c) (ict_port c) (out_socket (tr s)) 0]"
proof -
  obtain m v proto where m: "config (tr s)" "orig_request (tr s) = Some a" "msgs s a = Some m"
    "topvia_of m = Some v" "via_protocol v = Some proto" "unreliable proto"
    using assms(1) by (auto simp: unreliable_request_def)
  have "send_answer cf s' a host port = 0" for s' host port
    using assms(3) by (simp add: send_answer_def accepting_def)
  then show ?thesis
    using m assms(2)
    by (simp add: osip_ict_timeout_a_event_def ict_stop_timer_a_def time_in_def osip_gettimeofday_def
        via_get_protocol_def Let_def unreliable_request_def)
qed

lemma timer_a_schedule:
  assumes "unreliable_request a s" "ict_context (tr s) = Live c" "accepting cf"
  shows "\<exists>s' c'. repeatedly n (osip_ict_timeout_a_event cf e) s = Some s' \<and> unreliable_request a s'
    \<and> ict_context (tr s') = Live c' \<and> timer_a_length c' = 2 ^ n * timer_a_length c
    \<and> ict_destination c' = ict_destination c \<and> ict_port c' = ict_port c
    \<and> state (tr s') = state (tr s) \<and> out_socket (tr s') = out_socket (tr s)
    \<and> sends (log s') = sends (log s)
        @ replicate n (Send a (ict_destination c) (ict_port c) (out_socket (tr s)) 0)"
proof (induction n)
  case 0
  then show ?case using assms by simp
next
  case (Suc n)
  then obtain s1 c1 where s1: "repeatedly n (osip_ict_timeout_a_event cf e) s = Some s1"
    "unreliable_request a s1" "ict_context (tr s1) = Live c1" "timer_a_length c1 = 2 ^ n * timer_a_length c"
    "ict_destination c1 = ict_destination c" "ict_port c1 = ict_port c"
    "state (tr s1) = state (tr s)" "out_socket (tr s1) = out_socket (tr s)"
    "sends (log s1) = sends (log s)
      @ replicate n (Send a (ict_destination c) (ict_port c) (out_socket (tr s)) 0)" by blast
  obtain s2 c2 where s2: "osip_ict_timeout_a_event cf e s1 = Some s2" "unreliable_request a s2"
    "ict_context (tr s2) = Live c2" "timer_a_length c2 = 2 * timer_a_length c1"
    "ict_destination c2 = ict_destination c1" "ict_port c2 = ict_port c1"
    "state (tr s2) = state (tr s1)" "out_socket (tr s2) = out_socket (tr s1)"
    "sends (log s2) = sends (log s1) @ [Send a (ict_destination c1) (ict_port c1) (out_socket (tr s1)) 0]"
    using timer_a_step [OF s1(2,3) assms(3), of e] by blast
  then show ?case
    using s1 by (simp add: replicate_append_same [symmetric])
qed

section \<open>Timer E\<close>

lemma nict_next_e_length_bounds:
  assumes "0 < len"
  shows "0 < nict_next_e_length st len" "nict_next_e_length st len \<le> DEFAULT_T2"
  using assms by (auto simp: nict_next_e_length_def Let_def)

lemma timer_e_step:
  assumes "unreliable_request a s" "nict_context (tr s) = Live c" "accepting cf"
  shows "\<exists>s' c'. osip_nict_timeout_e_event cf e s = Some s' \<and> unreliable_request a s'
    \<and> nict_context (tr s') = Live c'
    \<and> timer_e_length c' = nict_next_e_length (state (tr s)) (timer_e_length c)
    \<and> timer_e_start c' = add_gettimeofday (clock cf (ticks s)) (timer_e_length c')
    \<and> nict_destination c' = nict_destination c \<and> nict_port c' = nict_port c
    \<and> state (tr s') = state (tr s) \<and> out_socket (tr s') = out_socket (tr s)
    \<and> sends (log s') = sends (log s) @ [Send a (nict_destination c) (nict_port c) (out_socket (tr s)) 0]"
proof -
  obtain m v proto where m: "config (tr s)" "orig_request (tr s) = Some a" "msgs s a = Some m"
    "topvia_of m = Some v" "via_protocol v = Some proto" "unreliable proto"
    using assms(1) by (auto simp: unreliable_request_def)
  have "send_answer cf s' a host port = 0" for s' host port
    using assms(3) by (simp add: send_answer_def accepting_def)
  then show ?thesis
    using m assms(2)
    by (simp add: osip_nict_timeout_e_event_def nict_with_protocol_def nict_resent_def time_in_def
        osip_gettimeofday_def via_get_protocol_def Let_def unreliable_request_def)
qed

lemma timer_e_doubles:
  "DEFAULT_T1 \<le> len \<Longrightarrow> nict_next_e_length NICT_TRYING len = min (2 * len) DEFAULT_T2"
  by (simp add: nict_next_e_length_def Let_def min_def)

lemma timer_e_schedule:
  assumes "unreliable_request a s" "nict_context (tr s) = Live c" "accepting cf"
    "state (tr s) = NICT_TRYING" "timer_e_length c = DEFAULT_T1"
  shows "\<exists>s' c'. repeatedly n (osip_nict_timeout_e_event cf e) s = Some s' \<and> unreliable_request a s'
    \<and> nict_context (tr s') = Live c' \<and> timer_e_length c' = min (2 ^ n * DEFAULT_T1) DEFAULT_T2
    \<and> nict_destination c' = nict_destination c \<and> nict_port c' = nict_port c
    \<and> state (tr s') = NICT_TRYING \<and> out_socket (tr s') = out_socket (tr s)
    \<and> sends (log s') = sends (log s)
        @ replicate n (Send a (nict_destination c) (nict_port c) (out_socket (tr s)) 0)"
proof (induction n)
  case 0
  then show ?case using assms by simp
next
  case (Suc n)
  then obtain s1 c1 where s1: "repeatedly n (osip_nict_timeout_e_event cf e) s = Some s1"
    "unreliable_request a s1" "nict_context (tr s1) = Live c1"
    "timer_e_length c1 = min (2 ^ n * DEFAULT_T1) DEFAULT_T2"
    "nict_destination c1 = nict_destination c" "nict_port c1 = nict_port c"
    "state (tr s1) = NICT_TRYING" "out_socket (tr s1) = out_socket (tr s)"
    "sends (log s1) = sends (log s)
      @ replicate n (Send a (nict_destination c) (nict_port c) (out_socket (tr s)) 0)" by blast
  obtain s2 c2 where s2: "osip_nict_timeout_e_event cf e s1 = Some s2" "unreliable_request a s2"
    "nict_context (tr s2) = Live c2"
    "timer_e_length c2 = nict_next_e_length (state (tr s1)) (timer_e_length c1)"
    "nict_destination c2 = nict_destination c1" "nict_port c2 = nict_port c1"
    "state (tr s2) = state (tr s1)" "out_socket (tr s2) = out_socket (tr s1)"
    "sends (log s2) = sends (log s1) @ [Send a (nict_destination c1) (nict_port c1) (out_socket (tr s1)) 0]"
    using timer_e_step [OF s1(2,3) assms(3), of e] by blast
  have "DEFAULT_T1 \<le> timer_e_length c1" using s1(4) by (simp add: min_def)
  then have "timer_e_length c2 = min (2 ^ Suc n * DEFAULT_T1) DEFAULT_T2"
    using timer_e_doubles s1(4,7) s2(4) by (simp add: min_def)
  then show ?case
    using s1 s2 by (simp add: replicate_append_same [symmetric])
qed

section \<open>Timer G\<close>

lemma timer_g_step:
  assumes "config (tr s)" "last_response (tr s) = Some b" "msgs s b = Some r" "topvia_of r = Some v"
    "named (via_params v)" "via_destination v = Some (host, port)" "ist_context (tr s) = Live c" "accepting cf"
  shows "\<exists>s' c'. osip_ist_timeout_g_event cf e s = Some s' \<and> ist_context (tr s') = Live c'
    \<and> timer_g_length c' = min (2 * timer_g_length c) DEFAULT_T2
    \<and> timer_g_start c' = add_gettimeofday (clock cf (ticks s)) (timer_g_length c')
    \<and> state (tr s') = state (tr s)
    \<and> sends (log s') = sends (log s) @ [Send b host port (out_socket (tr s)) 0]"
proof -
  have "send_answer cf s' a host port = 0" for s' a host port
    using assms(8) by (simp add: send_answer_def accepting_def)
  moreover have "l_get (vias r) 0 = Some v" using assms(4) by (cases "vias r") (simp_all add: topvia_of_def)
  ultimately show ?thesis
    using assms
    by (simp add: osip_ist_timeout_g_event_def upd_ist_def osip_transaction_snd_xxx_def time_in_def
        osip_gettimeofday_def Let_def min_def)
qed

end
