(* ===== verification/Samples.thy ===== *)
theory Samples
  imports Call_Matching Timing Retransmission
begin

text \<open>
  A call to evaluate the theorems at: an INVITE over UDP, a provisional and a final response
  to it, a CANCEL, the events that carry them, and a stack whose transport takes every
  message and whose clock advances by one second per reading.
\<close>

definition no_time :: timeval where
  "no_time = \<lparr>tv_sec = 0, tv_usec = 0\<rparr>"

definition sample_config :: osip_config where
  "sample_config = \<lparr>cb_send_message = (\<lambda>_ _ _ _ _. 0), msg_callbacks = (\<lambda>_. True),
     kill_callbacks = (\<lambda>_. True), tp_error_callbacks = (\<lambda>_. True),
     clock = (\<lambda>n. \<lparr>tv_sec = 1000 + int n, tv_usec = 0\<rparr>), systime = (\<lambda>n. 1000 + int n)\<rparr>"

definition sample_via :: osip_via where
  "sample_via = \<lparr>via_version = Some ''2.0'', via_protocol = Some ''UDP'', via_host = Some ''10.0.0.1'',
     via_port = Some ''5070'', via_comment = None,
     via_params = [\<lparr>gname = Some ''branch'', gvalue = Some ''z9hG4bK74bf9''\<rparr>]\<rparr>"

definition sample_uri :: osip_uri where
  "sample_uri = osip_uri_init\<lparr>uri_scheme := Some ''sip'', uri_username := Some ''bob'',
     uri_host := Some ''example.org''\<rparr>"

definition sample_from :: osip_from where
  "sample_from = \<lparr>displayname = None, url = Some sample_uri,
     gen_params = [\<lparr>gname = Some ''tag'', gvalue = Some ''a6c85cf''\<rparr>]\<rparr>"

definition sample_to :: osip_to where
  "sample_to = \<lparr>displayname = None, url = Some sample_uri, gen_params = []\<rparr>"

definition sample_request :: "string \<Rightarrow> osip_message" where
  "sample_request mtd = osip_message_init\<lparr>sip_version := Some ''SIP/2.0'', req_uri := Some sample_uri,
     sip_method := Some mtd, call_id := Some \<lparr>callid_number = Some ''3848276298220188511'', callid_host = None\<rparr>,
     cseq := Some \<lparr>cseq_method = Some mtd, cseq_number = Some ''1''\<rparr>, msg_from := Some sample_from,
     msg_to := Some sample_to, vias := [sample_via]\<rparr>"

abbreviation sample_invite :: osip_message where
  "sample_invite \<equiv> sample_request ''INVITE''"

definition sample_response :: "int \<Rightarrow> osip_message" where
  "sample_response code = (sample_request ''INVITE'')\<lparr>req_uri := None, sip_method := None,
     status_code := code, reason_phrase := Some ''reason''\<rparr>"

definition message_event :: "type_t \<Rightarrow> nat \<Rightarrow> osip_event" where
  "message_event ty a = \<lparr>type = ty, ev_transactionid = 0, sip = Some a\<rparr>"

definition timer_event_of :: "type_t \<Rightarrow> osip_event" where
  "timer_event_of ty = \<lparr>type = ty, ev_transactionid = 0, sip = None\<rparr>"

lemmas sample_defs =
  sample_via_def sample_uri_def sample_from_def sample_to_def sample_request_def sample_response_def
  osip_message_init_def osip_uri_init_def message_event_def timer_event_of_def no_time_def

section \<open>A client and a server transaction\<close>

definition sample_tr :: "osip_fsm_type_t \<Rightarrow> osip_transaction" where
  "sample_tr ty = transaction_zero\<lparr>transactionff := Some osip_fifo_init, topvia := Some sample_via,
     tr_from := Some sample_from, tr_to := Some sample_to, callid := call_id sample_invite,
     tr_cseq := cseq sample_invite, state := initial_state ty, config := True, ctx_type := ty,
     ict_context := (if ty = ICT then Live (ict_zero\<lparr>timer_a_length := 500\<rparr>) else Null),
     ist_context := (if ty = IST then Live (ist_zero\<lparr>timer_g_length := 500\<rparr>) else Null),
     nict_context := (if ty = NICT then Live (nict_zero\<lparr>timer_e_length := 500\<rparr>) else Null),
     nist_context := (if ty = NIST then Live nist_zero else Null)\<rparr>"

definition sample_st :: "osip_fsm_type_t \<Rightarrow> osip_message \<Rightarrow> st" where
  "sample_st ty m = \<lparr>msgs = [0 \<mapsto> m], brk = 1, mem = [], ticks = 0, log = [], tr = sample_tr ty\<rparr>"

definition sample_sent :: "osip_fsm_type_t \<Rightarrow> st" where
  "sample_sent ty = (sample_st ty sample_invite)
     \<lparr>tr := (sample_tr ty)\<lparr>orig_request := Some 0,
        state := (if ty = ICT then ICT_CALLING else NICT_TRYING)\<rparr>\<rparr>"

lemma sample_msg_ok [simp]: "msg_ok (sample_request mtd)" "code \<noteq> 0 \<Longrightarrow> msg_ok (sample_response code)"
  by (auto simp: msg_ok_def method_ok_def named_from_def sample_defs)

lemma sample_keeps_headers: "keeps_headers sample_invite (sample_tr ty)"
  by (simp add: keeps_headers_def sample_tr_def sample_defs topvia_of_def method_of_def)

lemma sample_call_ok [simp]: "call_ok (sample_tr ty)"
  by (rule keeps_headers_call_ok [OF sample_keeps_headers]) simp

lemma sample_tr_ok [simp]: "tr_ok (sample_tr ty)"
  by (cases ty) (simp_all add: tr_ok_def sample_tr_def initial_state_def transaction_zero_def
      ict_ok_def ist_ok_def nict_ok_def nist_ok_def)

lemma sample_mem_ok [simp]: "msg_ok m \<Longrightarrow> mem_ok (sample_st ty m)"
  by (simp add: heap_ok_def sample_st_def sample_tr_def transaction_zero_def owned3_def)

lemma sample_evt_ok [simp]: "evt_ok (message_event SND_REQINVITE 0) (sample_st ty sample_invite)"
  by (simp add: evt_ok_def event_for_def MSG_IS_REQUEST_def is_method_def evt_kind_defs
      sample_defs sample_st_def sample_tr_def transaction_zero_def owned3_def)

section \<open>A stack that has received one message\<close>

definition sample_stack :: "osip_message \<Rightarrow> osip" where
  "sample_stack m = message_arrives m (empty_stack [] 0 [])"

lemma sample_reachable: "msg_ok m \<Longrightarrow> stack_reachable sample_config (sample_stack m)"
  by (rule stack_reachable.step [OF stack_reachable.start [of "[]" _ 0 "[]"], of "Arrive m"])
    (simp_all add: sample_stack_def)

lemma sample_stack_ok: "msg_ok m \<Longrightarrow> stack_ok (sample_stack m)"
  using stack_reachable_ok [OF sample_reachable] .

lemma sample_own_message:
  "own_message (sample_stack sample_invite) (message_event SND_REQINVITE 0)"
  "own_message (sample_stack sample_invite) (message_event RCV_REQINVITE 0)"
  by (simp_all add: own_message_def unheld_def event_for_def MSG_IS_REQUEST_def is_method_def evt_kind_defs
      sample_stack_def message_arrives_def empty_stack_def sample_defs method_of_def)

lemma sample_event:
  "sip (message_event ty 0) = Some 0" "msgs (sample_stack m) 0 = Some m"
  "event_for (message_event RCV_REQINVITE 0) sample_invite" "unheld (sample_stack m) 0"
  by (simp_all add: unheld_def event_for_def MSG_IS_REQUEST_def is_method_def evt_kind_defs
      sample_stack_def message_arrives_def empty_stack_def sample_defs)

text \<open>A transaction it has created, and the stack then.\<close>

definition sample_call :: "type_t \<Rightarrow> osip option" where
  "sample_call ty =
    map_option snd (osip_create_transaction sample_config (Some (message_event ty 0)) (sample_stack sample_invite))"

lemma sample_call_runs:
  "map_option (\<lambda>s. (next_transactionid s, osip_ist_transactions s, map_option state (transactions s 0)))
     (sample_call RCV_REQINVITE) = Some (2, [0], Some IST_PRE_PROCEEDING)"
  by code_simp

lemma sample_call_stack:
  obtains s t where "sample_call RCV_REQINVITE = Some s" "stack_ok s" "transactions s 0 = Some t"
proof -
  obtain s where s: "sample_call RCV_REQINVITE = Some s" "transactions s 0 \<noteq> None"
    using sample_call_runs by auto
  have c: "allowed (sample_stack sample_invite) (Create (message_event RCV_REQINVITE 0))"
    using sample_own_message(2) by simp
  have "call sample_config (Create (message_event RCV_REQINVITE 0)) (sample_stack sample_invite) = Some s"
    using s(1) by (simp add: sample_call_def)
  then have "stack_ok s" using call_ok [OF sample_stack_ok c, of sample_config] by auto
  then show ?thesis using that s by auto
qed

end
