(* ===== verification/Osip_Strings.thy ===== *)
theory Osip_Strings
  imports Prelude
begin

text \<open>
  The string functions of \<^verbatim>\<open>osip_port.c\<close> the parsers are written with: the copies that
  trim blanks (\<^verbatim>\<open>osip_clrspace\<close>, \<^verbatim>\<open>osip_clrncpy\<close>), tokens and substrings, and the
  functions of the C library they use (\<^verbatim>\<open>strchr\<close>, \<^verbatim>\<open>strncpy\<close>).

  A pointer into a string is the rest of the string from there, so \<open>p + 1\<close> is the tail,
  the character under the end of the string is NUL, and the difference of two pointers into
  one string is a difference of lengths. What C leaves undefined is \<^term>\<open>None\<close>: reading
  behind the NUL, in front of the string, or writing outside an allocated buffer.
\<close>

named_theorems defined \<open>rules that show that a result is not undefined\<close>

section \<open>Pointers into a string\<close>

abbreviation (input) NUL :: char where "NUL \<equiv> CHR 0x00"

definition cur :: "string \<Rightarrow> char" where
  "cur p = (case p of [] \<Rightarrow> NUL | c # _ \<Rightarrow> c)"

text \<open>The C expression \<open>p - q\<close> for two pointers into one string.\<close>

definition ptr_diff :: "string \<Rightarrow> string \<Rightarrow> int" where
  "ptr_diff p q = int (length q) - int (length p)"

definition advance :: "nat \<Rightarrow> string \<Rightarrow> cstr" where
  "advance n p = (if n \<le> length p then Some (drop n p) else None)"

definition strchr :: "string \<Rightarrow> char \<Rightarrow> cstr" where
  "strchr s c = (case dropWhile (\<lambda>d. d \<noteq> c) s of [] \<Rightarrow> None | t \<Rightarrow> Some t)"

text \<open>
  A buffer of \<open>n\<close> bytes into which \<open>osip_strncpy\<close> copies \<open>len\<close> bytes: the terminating NUL is
  written at index \<open>len\<close>, and \<^verbatim>\<open>strncpy\<close> stops at the end of the source.
\<close>

definition osip_strncpy :: "int \<Rightarrow> string \<Rightarrow> int \<Rightarrow> cstr" where
  "osip_strncpy n src len = (if 0 \<le> len \<and> len < n then Some (take (nat len) src) else None)"

definition is_blank :: "char \<Rightarrow> bool" where
  "is_blank c \<longleftrightarrow> c = CHR '' '' \<or> c = CHR 0x0D \<or> c = CHR 0x0A \<or> c = CHR 0x09"

text \<open>
  An allocation in the middle of a parser: the rest of the parser runs with the allocator
  that is left, or the parser answers \<open>r\<close> at once.
\<close>

definition alloc_or :: "mem \<Rightarrow> 'r \<Rightarrow> (mem \<Rightarrow> ('r \<times> mem) option) \<Rightarrow> ('r \<times> mem) option" where
  "alloc_or m r k = (case osip_malloc m of (ok, m) \<Rightarrow> if ok then k m else Some (r, m))"

text \<open>A printer writes behind what is in the buffer of \<open>n\<close> bytes, and a NUL.\<close>

definition sprintf_at :: "nat \<Rightarrow> string \<Rightarrow> string \<Rightarrow> cstr" where
  "sprintf_at n buf s = (if length (buf @ s) < n then Some (buf @ s) else None)"

definition snprintf_at :: "nat \<Rightarrow> string \<Rightarrow> string \<Rightarrow> string" where
  "snprintf_at n buf s = buf @ take (n - length buf - 1) s"

section \<open>Blanks\<close>

text \<open>
  Both functions look for the first and the last character that is not blank. \<open>skip_back\<close>
  is the loop that moves \<open>pend\<close> back; it gives up when \<open>pend\<close> falls below \<open>pbeg\<close>.
\<close>

fun skip_back :: "string \<Rightarrow> nat \<Rightarrow> nat \<Rightarrow> nat option" where
  "skip_back w pbeg pend =
    (if \<not> is_blank (cur (drop pend w)) then Some pend
     else if pend \<le> pbeg then None
     else skip_back w pbeg (pend - 1))"

declare skip_back.simps [simp del]

definition osip_clrspace :: "cstr \<Rightarrow> int \<times> cstr" where
  "osip_clrspace word =
    (case word of
       None \<Rightarrow> (OSIP_UNDEFINED_ERROR, None)
     | Some w \<Rightarrow>
         if w = [] then (OSIP_SUCCESS, Some w)
         else let pbeg = length (takeWhile is_blank w) in
           (case skip_back w pbeg (length w - 1) of
              None \<Rightarrow> (OSIP_SUCCESS, Some [])
            | Some pend \<Rightarrow> (OSIP_SUCCESS, Some (drop pbeg (take (pend + 1) w)))))"

text \<open>
  The destination has \<open>n\<close> bytes. The last byte looked at is \<open>src[len - 1]\<close>, which may be the
  NUL; the copy is padded with NUL up to \<open>len\<close> bytes.
\<close>

definition osip_clrncpy :: "int \<Rightarrow> cstr \<Rightarrow> int \<Rightarrow> cstr" where
  "osip_clrncpy n src len =
    (if src = None \<or> len = 0 then do { ub_unless (0 < n); Some [] }
     else do {
       s \<leftarrow> src;
       ub_unless (0 < len \<and> len \<le> int (length s) + 1);
       let pbeg = length (takeWhile is_blank s);
       (case skip_back s pbeg (nat len - 1) of
          None \<Rightarrow> do { ub_unless (0 < n); Some [] }
        | Some pend \<Rightarrow> do {
            let spaceless_length = pend + 1 - pbeg;
            ub_unless (int spaceless_length < n \<and> len - 1 < n);
            Some (take spaceless_length (drop pbeg s))
          })
     })"

definition trim :: "string \<Rightarrow> string" where
  "trim s = rev (dropWhile is_blank (rev (dropWhile is_blank s)))"

section \<open>Tokens, substrings, case\<close>

text \<open>
  \<^verbatim>\<open>__osip_set_next_token\<close> answers the code, \<^verbatim>\<open>*dest\<close> (unset on an error) and \<^verbatim>\<open>*next\<close>.
\<close>

definition osip_set_next_token :: "string \<Rightarrow> char \<Rightarrow> mem \<Rightarrow> ((int \<times> cstr \<times> cstr) \<times> mem) option" where
  "osip_set_next_token buf end_separator m =
    (let sep = dropWhile (\<lambda>c. c \<noteq> end_separator \<and> c \<noteq> CHR 0x0D \<and> c \<noteq> CHR 0x0A) buf in
     if (cur sep = CHR 0x0D \<or> cur sep = CHR 0x0A) \<and> cur sep \<noteq> end_separator
     then Some ((OSIP_UNDEFINED_ERROR, None, None), m)
     else if sep = [] then Some ((OSIP_UNDEFINED_ERROR, None, None), m)
     else if sep = buf then Some ((OSIP_UNDEFINED_ERROR, None, None), m)
     else (case osip_malloc m of (ok, m) \<Rightarrow>
       if \<not> ok then Some ((OSIP_NOMEM, None, None), m)
       else do {
         dest \<leftarrow> osip_strncpy (ptr_diff sep buf + 1) buf (ptr_diff sep buf);
         next \<leftarrow> advance 1 sep;
         Some ((OSIP_SUCCESS, Some dest, Some next), m)
       }))"

definition osip_tolower :: "string \<Rightarrow> int \<times> string" where
  "osip_tolower word = (OSIP_SUCCESS, map tolower word)"

text \<open>\<open>0 == strncasecmp (s, t, len)\<close>, which stops at the end of either string.\<close>

definition osip_strncasecmp_eq :: "string \<Rightarrow> string \<Rightarrow> nat \<Rightarrow> bool" where
  "osip_strncasecmp_eq s t len \<longleftrightarrow> map tolower (take len s) = map tolower (take len t)"

fun strcasestr_from :: "string \<Rightarrow> char \<Rightarrow> string \<Rightarrow> cstr" where
  "strcasestr_from [] c needle = None"
| "strcasestr_from (sc # haystack) c needle =
    (if tolower sc = tolower c \<and> osip_strncasecmp_eq haystack needle (length needle)
     then Some (sc # haystack) else strcasestr_from haystack c needle)"

definition osip_strcasestr :: "string \<Rightarrow> string \<Rightarrow> cstr" where
  "osip_strcasestr haystack needle =
    (case needle of [] \<Rightarrow> Some haystack | c # needle \<Rightarrow> strcasestr_from haystack c needle)"

section \<open>What they compute\<close>

lemma cur_simps [simp]:
  "cur [] = NUL"
  "cur (c # p) = c"
  by (simp_all add: cur_def)

lemma alloc_or_Nil [simp]: "alloc_or [] r k = k []"
  by (simp add: alloc_or_def)

text \<open>Rules that show a parser is never undefined, one for each construct it is made of.\<close>

lemma alloc_or_defined [defined]: "(\<And>m. k m \<noteq> None) \<Longrightarrow> alloc_or m r k \<noteq> None"
  by (simp add: alloc_or_def split: prod.split)

lemma Some_defined [defined]: "Some x \<noteq> None"
  by simp

lemma bind_defined [defined]:
  "x \<noteq> None \<Longrightarrow> (\<And>y. x = Some y \<Longrightarrow> f y \<noteq> None) \<Longrightarrow> (x \<bind> f) \<noteq> None"
  by (cases x) simp_all

lemma if_defined [defined]:
  "(c \<Longrightarrow> x \<noteq> None) \<Longrightarrow> (\<not> c \<Longrightarrow> y \<noteq> None) \<Longrightarrow> (if c then x else y) \<noteq> None"
  by simp

lemma case_option_defined [defined]:
  "(x = None \<Longrightarrow> y \<noteq> None) \<Longrightarrow> (\<And>z. x = Some z \<Longrightarrow> f z \<noteq> None)
    \<Longrightarrow> (case x of None \<Rightarrow> y | Some z \<Rightarrow> f z) \<noteq> None"
  by (simp split: option.split)

lemma case_prod_defined [defined]:
  "(\<And>x y. p = (x, y) \<Longrightarrow> f x y \<noteq> None) \<Longrightarrow> (case p of (x, y) \<Rightarrow> f x y) \<noteq> None"
  by (simp split: prod.split)

lemma case_prod_app_defined [defined]:
  "(\<And>x y. p = (x, y) \<Longrightarrow> f x y z \<noteq> None) \<Longrightarrow> (case p of (x, y) \<Rightarrow> f x y) z \<noteq> None"
  by (simp split: prod.split)

lemma osip_strncpy_defined [defined]: "0 \<le> len \<Longrightarrow> len < n \<Longrightarrow> osip_strncpy n src len \<noteq> None"
  by (simp add: osip_strncpy_def)

lemma advance_defined [defined]: "n \<le> length p \<Longrightarrow> advance n p \<noteq> None"
  by (simp add: advance_def)

lemma alloc_or_ok:
  "never_fails m \<Longrightarrow> (\<And>m. never_fails m \<Longrightarrow> \<exists>m'. k m = Some (x, m') \<and> never_fails m')
    \<Longrightarrow> \<exists>m'. alloc_or m r k = Some (x, m') \<and> never_fails m'"
  using osip_malloc_never_fails [of m] by (auto simp: alloc_or_def)

lemma advance_simps [simp]:
  "advance 1 (c # p) = Some p"
  "advance (Suc 0) (c # p) = Some p"
  "advance n [] = (if n = 0 then Some [] else None)"
  "advance 0 p = Some p"
  by (simp_all add: advance_def)

lemma advance_le: "n \<le> length p \<Longrightarrow> advance n p = Some (drop n p)"
  by (simp add: advance_def)

lemma strchr_append: "c \<notin> set a \<Longrightarrow> strchr (a @ c # b) c = Some (c # b)"
  by (induction a) (auto simp: strchr_def)

lemma strchr_simps [simp]:
  "strchr [] c = None"
  "strchr (d # s) c = (if d = c then Some (d # s) else strchr s c)"
  by (simp_all add: strchr_def)

lemma strchr_None [simp]: "strchr s c = None \<longleftrightarrow> c \<notin> set s"
  by (induction s) auto

lemma strchr_notin [simp]: "c \<notin> set s \<Longrightarrow> strchr s c = None"
  by simp

lemma cur_Cons: "c \<noteq> NUL \<Longrightarrow> cur p = c \<longleftrightarrow> (\<exists>r. p = c # r)"
  by (cases p) auto

lemma strchr_append_notin: "c \<notin> set a \<Longrightarrow> strchr (a @ b) c = strchr b c"
  by (induction a) auto

lemma strchr_SomeD: "strchr s c = Some t \<Longrightarrow> \<exists>a r. s = a @ c # r \<and> t = c # r \<and> c \<notin> set a"
proof -
  assume "strchr s c = Some t"
  then have t: "dropWhile (\<lambda>d. d \<noteq> c) s = t" "t \<noteq> []" by (auto simp: strchr_def split: list.splits)
  then have "hd t = c" using hd_dropWhile [of "\<lambda>d. d \<noteq> c" s] by auto
  then have "s = takeWhile (\<lambda>d. d \<noteq> c) s @ c # tl t" using t by (metis list.collapse takeWhile_dropWhile_id)
  moreover have "t = c # tl t" using t(2) \<open>hd t = c\<close> by auto
  moreover have "c \<notin> set (takeWhile (\<lambda>d. d \<noteq> c) s)" using set_takeWhileD by fastforce
  ultimately show ?thesis by blast
qed

lemma osip_strncpy_exact: "osip_strncpy n (a @ b) (int (length a)) = (if int (length a) < n then Some a else None)"
  by (simp add: osip_strncpy_def)

lemma trim_Nil [simp]: "trim [] = []"
  by (simp add: trim_def)

lemma trim_blanks: "\<forall>c \<in> set s. is_blank c \<Longrightarrow> trim s = []"
proof -
  assume "\<forall>c \<in> set s. is_blank c"
  then have nil: "dropWhile is_blank s = []" by simp
  show ?thesis unfolding trim_def nil by simp
qed

lemma trim_snoc: "is_blank c \<Longrightarrow> trim (s @ [c]) = trim s"
proof (cases "\<forall>d \<in> set s. is_blank d")
  case True
  assume "is_blank c"
  then show ?thesis using True trim_blanks [of s] trim_blanks [of "s @ [c]"] by auto
next
  case False
  assume "is_blank c"
  then show ?thesis using False by (auto simp: trim_def dropWhile_append)
qed

text \<open>A string that neither begins nor ends with a blank.\<close>

definition tight :: "string \<Rightarrow> bool" where
  "tight s \<longleftrightarrow> (s \<noteq> [] \<longrightarrow> \<not> is_blank (hd s) \<and> \<not> is_blank (last s))"

lemma trim_tight [simp]: "tight s \<Longrightarrow> trim s = s"
proof (cases "s = []")
  case False
  assume "tight s"
  then have front: "dropWhile is_blank s = s" and rev_ends: "dropWhile is_blank (rev s) = rev s"
    using False by (simp_all add: tight_def dropWhile_eq_self_iff hd_rev)
  show ?thesis unfolding trim_def front rev_ends by simp
qed simp

lemma skip_back_trim:
  assumes "pend < length w" "pbeg = length (takeWhile is_blank w)"
  shows "(case skip_back w pbeg pend of None \<Rightarrow> [] | Some p \<Rightarrow> drop pbeg (take (p + 1) w))
    = trim (take (pend + 1) w)"
  using assms
proof (induction w pbeg pend rule: skip_back.induct)
  case (1 w pbeg pend)
  have cur: "cur (drop pend w) = w ! pend" using 1(2) by (simp add: Cons_nth_drop_Suc [symmetric])
  have last: "take (pend + 1) w = take pend w @ [w ! pend]"
    using 1(2) by (simp add: take_Suc_conv_app_nth)
  show ?case
  proof (cases "is_blank (w ! pend)")
    case True
    show ?thesis
    proof (cases "pend \<le> pbeg")
      case True
      have "take (pend + 1) w = take (pend + 1) (takeWhile is_blank w) \<or> pend = pbeg"
        using True 1(3) by (metis add.commute le_neq_implies_less plus_1_eq_Suc Suc_leI takeWhile_eq_take take_take min.absorb1)
      moreover have "pend \<noteq> pbeg" using \<open>is_blank (w ! pend)\<close> 1(2,3) nth_length_takeWhile by metis
      ultimately have "\<forall>c \<in> set (take (pend + 1) w). is_blank c"
        by (metis in_set_takeD set_takeWhileD)
      then show ?thesis
        using True \<open>is_blank (w ! pend)\<close> cur by (simp add: skip_back.simps [of w pbeg pend] trim_blanks)
    next
      case False
      have "trim (take (pend + 1) w) = trim (take pend w)"
        using \<open>is_blank (w ! pend)\<close> unfolding last by (rule trim_snoc)
      moreover have "(case skip_back w pbeg (pend - 1) of None \<Rightarrow> [] | Some p \<Rightarrow> drop pbeg (take (p + 1) w))
          = trim (take pend w)"
        using 1(1) [OF _ False] False \<open>is_blank (w ! pend)\<close> cur 1(2,3) by simp
      ultimately show ?thesis
        using False \<open>is_blank (w ! pend)\<close> cur by (simp add: skip_back.simps [of w pbeg pend])
    qed
  next
    case False
    have pb: "pbeg \<le> pend" using False 1(3) by (metis nth_mem not_le set_takeWhileD takeWhile_nth)
    have "drop pbeg (take (pend + 1) w) = dropWhile is_blank (take (pend + 1) w)"
    proof -
      have "w ! pend \<in> set (take (pend + 1) w)" unfolding last by simp
      then have "takeWhile is_blank (take (pend + 1) w) = takeWhile is_blank w"
        using False by (metis append_take_drop_id takeWhile_append1)
      then show ?thesis by (metis 1(3) dropWhile_eq_drop)
    qed
    moreover have "trim (take (pend + 1) w) = dropWhile is_blank (take (pend + 1) w)"
      using False unfolding last trim_def by (auto simp: dropWhile_append)
    ultimately show ?thesis
      using False cur by (simp add: skip_back.simps [of w pbeg pend])
  qed
qed

lemma osip_clrspace_trim: "osip_clrspace (Some w) = (OSIP_SUCCESS, Some (trim w))"
proof (cases "w = []")
  case False
  let ?pbeg = "length (takeWhile is_blank w)"
  have "(case skip_back w ?pbeg (length w - 1) of None \<Rightarrow> [] | Some p \<Rightarrow> drop ?pbeg (take (p + 1) w)) = trim w"
    using skip_back_trim [of "length w - 1" w ?pbeg] False by simp
  then show ?thesis using False by (auto simp: osip_clrspace_def Let_def split: option.splits)
qed (simp add: osip_clrspace_def)

lemma skip_back_le: "skip_back w pbeg pend = Some p \<Longrightarrow> p \<le> pend"
proof (induction w pbeg pend rule: skip_back.induct)
  case (1 w pbeg pend)
  then show ?case
    by (subst (asm) (2) skip_back.simps) (fastforce split: if_splits)
qed

text \<open>
  The copy of \<^verbatim>\<open>osip_clrncpy\<close> is the trimmed source, unless the length asked for includes
  the NUL: then the blanks at the end stay.
\<close>

lemma osip_clrncpy_trim:
  assumes "0 \<le> len" "len \<le> int (length s)" "len < n"
  shows "osip_clrncpy n (Some s) len = Some (trim (take (nat len) s))"
proof (cases "len = 0")
  case True
  then show ?thesis using assms by (simp add: osip_clrncpy_def)
next
  case False
  let ?pbeg = "length (takeWhile is_blank s)"
  have pend: "nat len - 1 < length s" "Suc (nat len - 1) = nat len" using assms False by auto
  note spec = skip_back_trim [OF pend(1) refl]
  show ?thesis
  proof (cases "skip_back s ?pbeg (nat len - 1)")
    case None
    then show ?thesis
      using assms False spec pend(2) by (simp add: osip_clrncpy_def)
  next
    case (Some p)
    have "int (p + 1 - ?pbeg) < n" using skip_back_le [OF Some] assms False by linarith
    then show ?thesis
      using assms False spec pend(2) Some
      by (simp add: osip_clrncpy_def Let_def drop_take)
  qed
qed

lemma osip_clrncpy_whole:
  assumes "tight s" "int (length s) < n"
  shows "osip_clrncpy n (Some (s @ t)) (int (length s)) = Some s"
  using osip_clrncpy_trim [of "int (length s)" "s @ t" n] assms by simp

lemma osip_clrncpy_nul:
  assumes "int (length s) + 1 < n" "len = int (length s) + 1"
  shows "osip_clrncpy n (Some s) len = Some (dropWhile is_blank s)"
proof -
  let ?pbeg = "length (takeWhile is_blank s)"
  have "skip_back s ?pbeg (length s) = Some (length s)"
    by (simp add: skip_back.simps is_blank_def)
  moreover have "length s + 1 - ?pbeg = length (drop ?pbeg s) + 1"
    using length_takeWhile_le [of is_blank s] by simp
  moreover have "int (length s + 1 - ?pbeg) < n" using assms by linarith
  moreover have "nat len - 1 = length s" using assms by simp
  ultimately show ?thesis
    using assms(1) by (simp add: osip_clrncpy_def assms(2) Let_def dropWhile_eq_drop)
qed

lemma osip_clrncpy_defined [defined]:
  assumes "0 \<le> len" "len \<le> int (length s)" "len < n"
  shows "osip_clrncpy n (Some s) len \<noteq> None"
  using osip_clrncpy_trim [OF assms] by simp

end
