(* ===== verification/Osip_Quotes.thy ===== *)
theory Osip_Quotes
  imports Osip_Strings
begin

text \<open>
  Quoted strings, from \<^verbatim>\<open>osip_port.c\<close>: the search for the closing quote
  (\<^verbatim>\<open>__osip_quote_find\<close>), quoting (\<^verbatim>\<open>osip_enquote\<close>) and its inverse (\<^verbatim>\<open>osip_dequote\<close>).
\<close>

section \<open>Quotes\<close>

text \<open>
  \<^verbatim>\<open>__osip_quote_find\<close> counts the backslashes in front of a quote. \<open>b\<close> is \<^verbatim>\<open>qstring\<close>, \<open>q\<close> is
  \<^verbatim>\<open>quote\<close>, both as offsets in \<open>s\<close>, and \<open>i\<close> the count plus one. The result is the offset of
  the quote.
\<close>

definition next_quote :: "string \<Rightarrow> nat \<Rightarrow> nat option" where
  "next_quote s k = (if k \<le> length s \<and> CHR 0x22 \<in> set (drop k s)
     then Some (k + length (takeWhile (\<lambda>c. c \<noteq> CHR 0x22) (drop k s))) else None)"

lemma takeWhile_shorter: "x \<in> set xs \<Longrightarrow> \<not> P x \<Longrightarrow> length (takeWhile P xs) < length xs"
  by (induction xs) auto

lemma next_quote_SomeD:
  "next_quote s k = Some q \<Longrightarrow> k \<le> q \<and> q < length s \<and> s ! q = CHR 0x22 \<and> (\<forall>j \<in> {k..<q}. s ! j \<noteq> CHR 0x22)"
proof -
  assume "next_quote s k = Some q"
  then have k: "k \<le> length s" "CHR 0x22 \<in> set (drop k s)"
    and q: "q = k + length (takeWhile (\<lambda>c. c \<noteq> CHR 0x22) (drop k s))"
    by (auto simp: next_quote_def split: if_splits)
  let ?n = "length (takeWhile (\<lambda>c. c \<noteq> CHR 0x22) (drop k s))"
  have n: "?n < length (drop k s)" using takeWhile_shorter [OF k(2)] by simp
  have "drop k s ! ?n = CHR 0x22" using nth_length_takeWhile [OF n] by simp
  moreover have "s ! j \<noteq> CHR 0x22" if "j \<in> {k..<q}" for j
  proof -
    from that q have j: "j - k < ?n" "k \<le> j" by auto
    then have "drop k s ! (j - k) = takeWhile (\<lambda>c. c \<noteq> CHR 0x22) (drop k s) ! (j - k)"
      by (simp add: takeWhile_nth)
    moreover have "takeWhile (\<lambda>c. c \<noteq> CHR 0x22) (drop k s) ! (j - k) \<noteq> CHR 0x22"
      using nth_mem [OF j(1)] set_takeWhileD by fastforce
    ultimately show ?thesis using j k by simp
  qed
  ultimately show ?thesis using k n q by auto
qed

lemma next_quote_None_iff:
  "k \<le> length s \<Longrightarrow> next_quote s k = None \<longleftrightarrow> (\<forall>j \<in> {k..<length s}. s ! j \<noteq> CHR 0x22)"
  by (auto simp: next_quote_def in_set_conv_nth nth_append)
    (metis add.commute le_add_diff_inverse2 less_diff_conv)

function quote_loop :: "string \<Rightarrow> nat \<Rightarrow> nat \<Rightarrow> nat \<Rightarrow> nat option option" where
  "quote_loop s b q i =
    (if q < i \<or> length s \<le> q then None
     else
       if s ! (q - i) \<noteq> CHR 0x5C \<and> i mod 2 = 1 then Some (Some q)
       else
         (case (if s ! (q - i) = CHR 0x5C then Some (q, i + 1)
                else map_option (\<lambda>q'. (q', 1)) (next_quote s (q + 1))) of
            None \<Rightarrow> Some None
          | Some (q, i) \<Rightarrow>
              if int q - int i = int b - 1
              then
                if (if s ! b = CHR 0x5C then i + 1 else i) mod 2 = 0 then Some (Some q)
                else (case next_quote s (q + 1) of
                    None \<Rightarrow> Some None
                  | Some q' \<Rightarrow> quote_loop s (q + 1) q' 1)
              else quote_loop s b q i))"
  by pat_completeness auto

termination
  by (relation "measures [\<lambda>(s, b, q, i). length s - q, \<lambda>(s, b, q, i). q + 1 - i]")
    (auto dest!: next_quote_SomeD split: if_splits)

declare quote_loop.simps [simp del]

definition osip_quote_find :: "string \<Rightarrow> nat option option" where
  "osip_quote_find qstring =
    (case next_quote qstring 0 of
       None \<Rightarrow> Some None
     | Some q \<Rightarrow> if q = 0 then Some (Some 0) else quote_loop qstring 0 q 1)"

text \<open>The number of backslashes right in front of a position, and the quote that ends a string.\<close>

fun backslashes :: "string \<Rightarrow> nat \<Rightarrow> nat" where
  "backslashes s 0 = 0"
| "backslashes s (Suc q) = (if s ! q = CHR 0x5C then backslashes s q + 1 else 0)"

definition closing_quote :: "string \<Rightarrow> nat \<Rightarrow> nat option" where
  "closing_quote s k = List.find (\<lambda>j. s ! j = CHR 0x22 \<and> even (backslashes s j)) [k..<length s]"

lemma backslashes_run:
  "\<forall>k < n. s ! (q - 1 - k) = CHR 0x5C \<Longrightarrow> n \<le> q \<Longrightarrow> backslashes s q = n + backslashes s (q - n)"
proof (induction n arbitrary: q)
  case (Suc n)
  then obtain p where q: "q = Suc p" by (cases q) auto
  have "s ! p = CHR 0x5C" using Suc.prems(1) q by auto
  moreover have "\<forall>k < n. s ! (p - 1 - k) = CHR 0x5C"
    using Suc.prems(1) q by (metis Suc_less_eq diff_Suc_1 diff_diff_left plus_1_eq_Suc)
  ultimately show ?case using Suc.IH [of p] Suc.prems(2) q by simp
qed simp

lemma closing_quote_here:
  "q < length s \<Longrightarrow> s ! q = CHR 0x22 \<Longrightarrow> even (backslashes s q) \<Longrightarrow> closing_quote s q = Some q"
  by (simp add: closing_quote_def upt_conv_Cons)

lemma closing_quote_skip:
  "\<forall>j \<in> {k..<q}. s ! j \<noteq> CHR 0x22 \<Longrightarrow> k \<le> q \<Longrightarrow> q \<le> length s \<Longrightarrow> closing_quote s k = closing_quote s q"
proof (induction "q - k" arbitrary: k)
  case (Suc n)
  then have "k < length s" "s ! k \<noteq> CHR 0x22" by auto
  then have "closing_quote s k = closing_quote s (Suc k)"
    by (simp add: closing_quote_def upt_conv_Cons)
  also have "\<dots> = closing_quote s q" using Suc by auto
  finally show ?case .
qed simp

lemma closing_quote_next:
  assumes "k \<le> length s"
  shows "closing_quote s k = (case next_quote s k of None \<Rightarrow> None | Some q \<Rightarrow> closing_quote s q)"
proof (cases "next_quote s k")
  case None
  then have "closing_quote s k = closing_quote s (length s)"
    using assms by (intro closing_quote_skip) (auto simp: next_quote_None_iff)
  then show ?thesis using None by (simp add: closing_quote_def)
next
  case (Some q)
  then show ?thesis using next_quote_SomeD [OF Some] by (simp add: closing_quote_skip)
qed

lemma closing_quote_escaped:
  assumes "q < length s" "odd (backslashes s q)"
  shows "closing_quote s q = (case next_quote s (q + 1) of None \<Rightarrow> None | Some q' \<Rightarrow> closing_quote s q')"
  using assms closing_quote_next [of "q + 1" s] by (simp add: closing_quote_def upt_conv_Cons)

lemma quote_loop_steps:
  assumes "i \<le> q" "q < length s"
  shows quote_loop_back: "s ! (q - i) = CHR 0x5C \<Longrightarrow> q \<noteq> b + i \<Longrightarrow> quote_loop s b q i = quote_loop s b q (i + 1)"
    and quote_loop_start: "s ! b = CHR 0x5C \<Longrightarrow> q = b + i \<Longrightarrow> quote_loop s b q i
      = (if even i then Some (Some q)
         else case next_quote s (q + 1) of None \<Rightarrow> Some None | Some q' \<Rightarrow> quote_loop s (q + 1) q' 1)"
    and quote_loop_found: "s ! (q - i) \<noteq> CHR 0x5C \<Longrightarrow> odd i \<Longrightarrow> quote_loop s b q i = Some (Some q)"
    and quote_loop_escaped: "s ! (q - i) \<noteq> CHR 0x5C \<Longrightarrow> even i \<Longrightarrow> b \<le> q \<Longrightarrow> quote_loop s b q i
      = (case next_quote s (q + 1) of None \<Rightarrow> Some None | Some q' \<Rightarrow> quote_loop s b q' 1)"
  using assms quote_loop.simps [of s b q i]
  by (auto simp: odd_iff_mod_2_eq_one split: option.splits dest!: next_quote_SomeD)

definition quote_at :: "string \<Rightarrow> nat \<Rightarrow> nat \<Rightarrow> nat \<Rightarrow> bool" where
  "quote_at s b q i \<longleftrightarrow> q < length s \<and> s ! q = CHR 0x22 \<and> 1 \<le> i \<and> (\<forall>k < i - 1. s ! (q - 1 - k) = CHR 0x5C)
    \<and> (b = 0 \<or> s ! (b - 1) = CHR 0x22) \<and> (b + i \<le> q \<or> i = 1 \<and> q = b \<and> 0 < b)"

lemma quote_at_next:
  assumes "quote_at s b q i" "next_quote s (q + 1) = Some q'"
  shows "quote_at s b q' 1" "quote_at s (q + 1) q' 1" "q < q'"
  using assms(1) next_quote_SomeD [OF assms(2)] by (auto simp: quote_at_def)

lemma quote_at_back:
  assumes "quote_at s b q i" "s ! (q - i) = CHR 0x5C"
  shows "b + i \<le> q" "\<forall>k < i. s ! (q - 1 - k) = CHR 0x5C"
proof -
  show le: "b + i \<le> q" using assms by (auto simp: quote_at_def)
  have "q - 1 - (i - 1) = q - i" using assms(1) by (auto simp: quote_at_def)
  moreover have "k < i - 1 \<or> k = i - 1" if "k < i" for k using that by linarith
  ultimately show "\<forall>k < i. s ! (q - 1 - k) = CHR 0x5C"
    using assms unfolding quote_at_def by metis
qed

lemma quote_at_count:
  assumes "quote_at s b q i"
  shows "s ! (q - i) = CHR 0x5C \<Longrightarrow> q = b + i \<Longrightarrow> backslashes s q = i"
    and "s ! (q - i) \<noteq> CHR 0x5C \<Longrightarrow> backslashes s q = i - 1"
proof -
  have iq: "1 \<le> i" "i \<le> q" using assms by (auto simp: quote_at_def)
  show "backslashes s q = i" if "s ! (q - i) = CHR 0x5C" "q = b + i"
  proof -
    have "backslashes s b = 0" using assms by (cases b) (auto simp: quote_at_def)
    then show ?thesis
      using backslashes_run [OF quote_at_back(2) [OF assms that(1)] iq(2)] that(2) by simp
  qed
  show "backslashes s q = i - 1" if "s ! (q - i) \<noteq> CHR 0x5C"
  proof -
    have "backslashes s q = i - 1 + backslashes s (q - (i - 1))"
      using assms iq by (intro backslashes_run) (auto simp: quote_at_def)
    moreover have eq: "q - (i - 1) = Suc (q - i)" using iq by simp
    have "backslashes s (q - (i - 1)) = 0" unfolding eq using that by simp
    ultimately show ?thesis by simp
  qed
qed

lemma quote_loop_closing:
  assumes "quote_at s b q i"
  shows "quote_loop s b q i = Some (closing_quote s q)"
  using assms
proof (induction "(length s - q) * (length s + 2) + (q + 1 - i)" arbitrary: b q i rule: less_induct)
  case less
  note iq = less.prems [unfolded quote_at_def]
  have le: "i \<le> q" "q < length s" "b \<le> q" using iq by auto
  note steps = quote_loop_steps [OF le(1,2)] and count = quote_at_count [OF less.prems]
  have later: "quote_loop s b' q' 1 = Some (closing_quote s q')"
    if "next_quote s (q + 1) = Some q'" "b' = b \<or> b' = q + 1" for b' q'
  proof (rule less.hyps)
    note q' = quote_at_next [OF less.prems that(1)] and lt = next_quote_SomeD [OF that(1)]
    show "quote_at s b' q' 1" using q' that(2) by auto
    define k where "k = length s + 2"
    have "(length s - q') * k + q' < (length s - q' + 1) * k" using lt by (simp add: k_def [symmetric])
        (simp add: k_def)
    also have "\<dots> \<le> (length s - q) * k" using q'(3) lt by (intro mult_right_mono) auto
    finally have "(length s - q') * k + (q' + 1 - 1) < (length s - q) * k + (q + 1 - i)" by linarith
    then show "(length s - q') * (length s + 2) + (q' + 1 - 1)
      < (length s - q) * (length s + 2) + (q + 1 - i)" by (fold k_def)
  qed
  show ?case
  proof (cases "s ! (q - i) = CHR 0x5C")
    case True
    note bk = quote_at_back [OF less.prems True]
    show ?thesis
    proof (cases "q = b + i")
      case at: True
      show ?thesis
        using steps(2) [of b] count(1) True at later closing_quote_here [of q s] closing_quote_escaped [of q s] iq
        by (auto split: option.split)
    next
      case False
      then have "quote_loop s b q (i + 1) = Some (closing_quote s q)"
        using bk iq by (intro less.hyps) (auto simp: quote_at_def)
      then show ?thesis using steps(1) [of b] True False by simp
    qed
  next
    case False
    then show ?thesis
      using steps(3,4) [of b] count(2) later closing_quote_here [of q s] closing_quote_escaped [of q s] iq le
      by (cases "even i") (auto split: option.split)
  qed
qed

theorem osip_quote_find_closing: "osip_quote_find s = Some (closing_quote s 0)"
proof (cases "next_quote s 0")
  case None
  then show ?thesis using closing_quote_next [of 0 s] by (simp add: osip_quote_find_def)
next
  case (Some q)
  note q = next_quote_SomeD [OF Some]
  have eq: "closing_quote s 0 = closing_quote s q" using closing_quote_next [of 0 s] Some by simp
  show ?thesis
  proof (cases "q = 0")
    case True
    then show ?thesis using Some q closing_quote_here [of 0 s] by (simp add: osip_quote_find_def)
  next
    case False
    then have "quote_at s 0 q 1" using q by (simp add: quote_at_def)
    then show ?thesis
      using Some eq False quote_loop_closing [of s 0 q 1] by (simp add: osip_quote_find_def)
  qed
qed

text \<open>
  The same, read from left to right: a backslash takes the next character with it. The flag
  tells whether the last character was such a backslash.
\<close>

fun scan_quote :: "bool \<Rightarrow> string \<Rightarrow> nat option" where
  "scan_quote esc [] = None"
| "scan_quote esc (c # s) =
    (if \<not> esc \<and> c = CHR 0x22 then Some 0
     else map_option Suc (scan_quote (\<not> esc \<and> c = CHR 0x5C) s))"

lemma backslashes_append: "k \<le> length p \<Longrightarrow> backslashes (p @ s) k = backslashes p k"
  by (induction k) (auto simp: nth_append)

lemma closing_quote_scan:
  "closing_quote (p @ s) (length p)
    = map_option ((+) (length p)) (scan_quote (odd (backslashes p (length p))) s)"
proof (induction s arbitrary: p)
  case Nil
  then show ?case by (simp add: closing_quote_def)
next
  case (Cons c s)
  let ?e = "odd (backslashes p (length p))"
  have bs: "backslashes (p @ c # s) (length p) = backslashes p (length p)"
    by (simp add: backslashes_append)
  have esc: "odd (backslashes (p @ [c]) (length (p @ [c]))) = (\<not> ?e \<and> c = CHR 0x5C)"
    using backslashes_append [of "length p" p "[c]"] by auto
  have step: "closing_quote (p @ c # s) (length p)
      = (if \<not> ?e \<and> c = CHR 0x22 then Some (length p) else closing_quote ((p @ [c]) @ s) (length (p @ [c])))"
  proof -
    have range: "[length p..<length (p @ c # s)] = length p # [Suc (length p)..<length (p @ c # s)]"
      by (intro upt_conv_Cons) simp
    show ?thesis unfolding closing_quote_def range using bs by simp
  qed
  show ?case
    unfolding step Cons.IH esc by (auto simp: option.map_comp intro!: option.map_cong)
qed

theorem osip_quote_find_scan: "osip_quote_find s = Some (scan_quote False s)"
  using osip_quote_find_closing [of s] closing_quote_scan [of "[]" s]
  by (cases "scan_quote False s") simp_all

section \<open>Quoting\<close>

fun enquote_chars :: "string \<Rightarrow> string" where
  "enquote_chars [] = []"
| "enquote_chars (c # s) =
    (if c = CHR 0x22 \<or> c = CHR 0x5C \<or> c = CHR 0x7F then CHR 0x5C # c # enquote_chars s
     else if c = CHR 0x0A \<or> c = CHR 0x0D then CHR '' '' # enquote_chars s
     else c # enquote_chars s)"

definition osip_enquote :: "string \<Rightarrow> mem \<Rightarrow> (cstr \<times> mem) option" where
  "osip_enquote s m =
    (case osip_malloc m of (ok, m) \<Rightarrow>
       if \<not> ok then Some (None, m)
       else do {
         let rtn = CHR 0x22 # enquote_chars s @ [CHR 0x22];
         ub_unless (length rtn < length s * 2 + 3);
         Some (Some rtn, m)
       })"

text \<open>
  \<^verbatim>\<open>osip_dequote\<close> works in place. A backslash is dropped and the character behind it kept
  without a further look; a backslash at the end of the string is dropped.
\<close>

fun dequote_chars :: "string \<Rightarrow> string" where
  "dequote_chars [] = []"
| "dequote_chars (c # s) =
    (if c = CHR 0x5C then (case s of [] \<Rightarrow> [] | d # t \<Rightarrow> d # dequote_chars t) else c # dequote_chars s)"

definition osip_dequote :: "string \<Rightarrow> string" where
  "osip_dequote s =
    (if cur s \<noteq> CHR 0x22 then s
     else let t = tl s in
       dequote_chars (if t \<noteq> [] \<and> last t = CHR 0x22 then butlast t else t))"

text \<open>
  \<^verbatim>\<open>osip_strdup_without_quote\<close> drops the quote in front and the last character. For a lone
  quote it writes one byte in front of the copy.
\<close>

definition osip_strdup_without_quote :: "string \<Rightarrow> mem \<Rightarrow> (cstr \<times> mem) option" where
  "osip_strdup_without_quote ch m =
    (case osip_malloc m of (ok, m) \<Rightarrow>
       if \<not> ok then Some (None, m)
       else if cur ch = CHR 0x22
       then do { ub_unless (tl ch \<noteq> []); Some (Some (butlast (tl ch)), m) }
       else Some (Some ch, m))"

lemma enquote_chars_length: "length (enquote_chars s) \<le> 2 * length s"
  by (induction s) auto

lemma osip_enquote_fits: "osip_enquote s m \<noteq> None"
  using enquote_chars_length [of s] by (auto simp: osip_enquote_def split: prod.splits)

lemma osip_enquote_ok:
  "never_fails m \<Longrightarrow>
    \<exists>m'. osip_enquote s m = Some (Some (CHR 0x22 # enquote_chars s @ [CHR 0x22]), m') \<and> never_fails m'"
  using osip_malloc_never_fails [of m] enquote_chars_length [of s] by (auto simp: osip_enquote_def)

lemma scan_enquoted: "scan_quote False (enquote_chars s @ CHR 0x22 # r) = Some (length (enquote_chars s))"
  by (induction s) auto

lemma dequote_enquote_chars:
  "CHR 0x0A \<notin> set s \<Longrightarrow> CHR 0x0D \<notin> set s \<Longrightarrow> dequote_chars (enquote_chars s) = s"
  by (induction s) auto

lemma osip_dequote_enquote:
  assumes "CHR 0x0A \<notin> set s" "CHR 0x0D \<notin> set s"
  shows "osip_dequote (CHR 0x22 # enquote_chars s @ [CHR 0x22]) = s"
  using dequote_enquote_chars [OF assms] by (simp add: osip_dequote_def butlast_append)

lemma osip_strdup_without_quote_lone: "osip_strdup_without_quote [CHR 0x22] [] = None"
  by (simp add: osip_strdup_without_quote_def)

end
