(* ===== verification/Uri_Escape.thy ===== *)
theory Uri_Escape
  imports Osip_Strings
begin

text \<open>
  The escaping of URI components, from \<^verbatim>\<open>osip_uri.c\<close>: a character that is neither a letter,
  nor a digit, nor in the set of the component is written as \<open>%XX\<close>; \<^verbatim>\<open>__osip_uri_unescape\<close>
  reads it back with \<^verbatim>\<open>sscanf\<close>. The buffer of the printer and its growth are explicit:
  writing past its end is \<^term>\<open>None\<close>.
\<close>

section \<open>Hexadecimal digits\<close>

definition is_hex :: "char \<Rightarrow> bool" where
  "is_hex c \<longleftrightarrow> (let n = of_char c :: nat in 48 \<le> n \<and> n \<le> 57 \<or> 97 \<le> n \<and> n \<le> 102 \<or> 65 \<le> n \<and> n \<le> 70)"

definition hex_value :: "char \<Rightarrow> int" where
  "hex_value c = (let n = of_char c :: int in if n \<le> 57 then n - 48 else if n \<le> 70 then n - 55 else n - 87)"

definition hex_digit :: "nat \<Rightarrow> char" where
  "hex_digit n = ''0123456789ABCDEF'' ! n"

text \<open>
  \<^verbatim>\<open>sscanf (s, "%02X", &hex)\<close>: blanks are skipped, then at most two characters are read as
  an unsigned hexadecimal number with an optional sign; \<^verbatim>\<open>0x\<close> alone is a prefix of a number
  and matches nothing. A negative number wraps around.
\<close>

definition sscanf_02X :: "string \<Rightarrow> int option" where
  "sscanf_02X s =
    (let w = take 2 (dropWhile is_c_space s);
         neg = (cur w = CHR ''-'');
         body = (if cur w = CHR ''-'' \<or> cur w = CHR ''+'' then tl w else w);
         ds = takeWhile is_hex body
     in if ds = [] \<or> map tolower w = ''0x'' then None
        else let v = foldl (\<lambda>n d. 16 * n + hex_value d) 0 ds in
          Some (if neg then (- v) mod 2 ^ 32 else v))"

section \<open>Unescaping\<close>

text \<open>
  The string is rewritten in place; writing never overtakes reading. An escape that cannot be
  read ends the string, and so does an escaped NUL.
\<close>

function unescape_chars :: "string \<Rightarrow> string" where
  "unescape_chars [] = []"
| "unescape_chars (c # s) =
    (if c \<noteq> CHR ''%'' then c # unescape_chars s
     else if 2 \<le> length s then
       (case sscanf_02X s of
          None \<Rightarrow> []
        | Some hex \<Rightarrow> char_of hex # (if is_hex (s ! 1) then unescape_chars (drop 2 s) else unescape_chars (drop 1 s)))
     else [])"
  by pat_completeness auto
termination by (relation "measure length") auto

definition osip_uri_unescape :: "string \<Rightarrow> string" where
  "osip_uri_unescape s = takeWhile (\<lambda>c. c \<noteq> NUL) (unescape_chars s)"

section \<open>Escaping\<close>

definition is_alphanum :: "char \<Rightarrow> bool" where
  "is_alphanum c \<longleftrightarrow> (let n = of_char c :: nat in
     97 \<le> n \<and> n \<le> 122 \<or> 65 \<le> n \<and> n \<le> 90 \<or> 48 \<le> n \<and> n \<le> 57)"

definition escaped :: "char \<Rightarrow> string" where
  "escaped c = [CHR ''%'', hex_digit (of_char c div 16), hex_digit (of_char c mod 16)]"

text \<open>
  The loop: what is written so far, \<^verbatim>\<open>newlen\<close> and \<^verbatim>\<open>alloc\<close>. \<^verbatim>\<open>sprintf\<close> writes three
  characters and a NUL.
\<close>

fun escape_loop :: "string \<Rightarrow> string \<Rightarrow> string \<Rightarrow> nat \<Rightarrow> nat \<Rightarrow> mem \<Rightarrow> (cstr \<times> mem) option" where
  "escape_loop def [] ns newlen alloc m = do { ub_unless (length ns < alloc); Some (Some ns, m) }"
| "escape_loop def (c # s) ns newlen alloc m =
    (if is_alphanum c \<or> c \<in> set def
     then do { ub_unless (length ns < alloc); escape_loop def s (ns @ [c]) newlen alloc m }
     else let newlen = newlen + 2 in
       if alloc < newlen
       then (case osip_malloc m of (ok, m) \<Rightarrow>
         if \<not> ok then Some (None, m)
         else do {
           ub_unless (length ns + 3 < 2 * alloc);
           escape_loop def s (ns @ escaped c) newlen (2 * alloc) m
         })
       else do {
         ub_unless (length ns + 3 < alloc);
         escape_loop def s (ns @ escaped c) newlen alloc m
       })"

definition osip_uri_escape_nonascii_and_nondef ::
  "string \<Rightarrow> string \<Rightarrow> mem \<Rightarrow> (cstr \<times> mem) option" where
  "osip_uri_escape_nonascii_and_nondef s def m =
    (case osip_malloc m of (ok, m) \<Rightarrow>
       if \<not> ok then Some (None, m) else escape_loop def s [] (length s + 1) (length s + 1) m)"

definition userinfo_def :: string where "userinfo_def = ''-_.!~*'()&=+$,;?/''"
definition password_def :: string where "password_def = ''-_.!~*'()&=+$,''"
definition uri_param_def :: string where "uri_param_def = ''-_.!~*'()[]/:&+$''"
definition header_param_def :: string where "header_param_def = ''-_.!~*'()[]/?:+$''"

definition osip_uri_escape_userinfo :: "string \<Rightarrow> mem \<Rightarrow> (cstr \<times> mem) option" where
  "osip_uri_escape_userinfo s m = osip_uri_escape_nonascii_and_nondef s userinfo_def m"

definition osip_uri_escape_password :: "string \<Rightarrow> mem \<Rightarrow> (cstr \<times> mem) option" where
  "osip_uri_escape_password s m = osip_uri_escape_nonascii_and_nondef s password_def m"

definition osip_uri_escape_uri_param :: "string \<Rightarrow> mem \<Rightarrow> (cstr \<times> mem) option" where
  "osip_uri_escape_uri_param s m = osip_uri_escape_nonascii_and_nondef s uri_param_def m"

definition osip_uri_escape_header_param :: "string \<Rightarrow> mem \<Rightarrow> (cstr \<times> mem) option" where
  "osip_uri_escape_header_param s m = osip_uri_escape_nonascii_and_nondef s header_param_def m"

section \<open>What they compute\<close>

definition escape :: "string \<Rightarrow> string \<Rightarrow> string" where
  "escape def s = concat (map (\<lambda>c. if is_alphanum c \<or> c \<in> set def then [c] else escaped c) s)"

lemma escape_simps [simp]:
  "escape def [] = []"
  "escape def (c # s) = (if is_alphanum c \<or> c \<in> set def then [c] else escaped c) @ escape def s"
  by (simp_all add: escape_def)

lemma escaped_length [simp]: "length (escaped c) = 3"
  by (simp add: escaped_def)

lemma escape_length: "length s \<le> length (escape def s) \<and> length (escape def s) \<le> 3 * length s"
  by (induction s) auto

text \<open>
  The buffer always has room: at every step the rest of the string and a NUL fit behind what is
  written, counting one byte for each character to come.
\<close>

lemma escape_loop_ok:
  assumes "newlen = length ns + length s + 1" "newlen \<le> alloc"
  shows "escape_loop def s ns newlen alloc m \<noteq> None"
    and "never_fails m \<Longrightarrow> \<exists>m'. escape_loop def s ns newlen alloc m = Some (Some (ns @ escape def s), m') \<and> never_fails m'"
proof -
  show "escape_loop def s ns newlen alloc m \<noteq> None"
    using assms
  proof (induction def s ns newlen alloc m rule: escape_loop.induct)
    case (2 def c s ns newlen alloc m)
    moreover have four: "4 + n = Suc (Suc (Suc (Suc n)))" for n by simp
    ultimately show ?case by (cases "osip_malloc m") (auto simp: Let_def four simp del: not_None_eq)
  qed simp
  show "\<exists>m'. escape_loop def s ns newlen alloc m = Some (Some (ns @ escape def s), m') \<and> never_fails m'"
    if "never_fails m"
    using assms that
  proof (induction def s ns newlen alloc m rule: escape_loop.induct)
    case (2 def c s ns newlen alloc m)
    obtain m1 where "osip_malloc m = (True, m1)" "never_fails m1"
      using osip_malloc_never_fails [OF 2(6)] by blast
    moreover have four: "4 + n = Suc (Suc (Suc (Suc n)))" for n by simp
    ultimately show ?case using 2 by (auto simp: Let_def four)
  qed simp
qed

lemma escape_defined: "osip_uri_escape_nonascii_and_nondef s def m \<noteq> None"
  using escape_loop_ok(1) [of "length s + 1" "[]" s "length s + 1" def]
  by (auto simp: osip_uri_escape_nonascii_and_nondef_def split: prod.split)

lemma escape_ok:
  assumes "never_fails m"
  shows "\<exists>m'. osip_uri_escape_nonascii_and_nondef s def m = Some (Some (escape def s), m') \<and> never_fails m'"
proof -
  obtain m1 where m1: "osip_malloc m = (True, m1)" "never_fails m1"
    using osip_malloc_never_fails [OF assms] by blast
  show ?thesis
    using escape_loop_ok(2) [of "length s + 1" "[]" s "length s + 1" m1 def] m1
    by (simp add: osip_uri_escape_nonascii_and_nondef_def)
qed

text \<open>Reading back what was written.\<close>

lemma hex_digit_read:
  assumes "n < 16"
  shows "is_hex (hex_digit n)" "hex_value (hex_digit n) = int n" "\<not> is_c_space (hex_digit n)"
    "hex_digit n \<noteq> CHR ''-''" "hex_digit n \<noteq> CHR ''+''" "tolower (hex_digit n) \<noteq> CHR ''x''"
    "is_alphanum (hex_digit n)"
proof -
  have "n \<in> set [0..<16]" using assms by simp
  also have "[0..<16] = [0, 1, 2, 3, 4, 5, 6, 7, 8, 9, 10, 11, 12, 13, 14, 15]" by (simp add: upt_rec)
  finally have n: "n \<in> set [0, 1, 2, 3, 4, 5, 6, 7, 8, 9, 10, 11, 12, 13, 14, 15]" .
  have "is_hex (hex_digit n) \<and> hex_value (hex_digit n) = int n \<and> \<not> is_c_space (hex_digit n)
    \<and> hex_digit n \<noteq> CHR ''-'' \<and> hex_digit n \<noteq> CHR ''+'' \<and> tolower (hex_digit n) \<noteq> CHR ''x''
    \<and> is_alphanum (hex_digit n)"
    using n unfolding list.set
    by (elim insertE emptyE; hypsubst; simp add: hex_digit_def is_hex_def hex_value_def is_c_space_def
      tolower_def is_alphanum_def Let_def char_of_def)
  then show "is_hex (hex_digit n)" "hex_value (hex_digit n) = int n" "\<not> is_c_space (hex_digit n)"
    "hex_digit n \<noteq> CHR ''-''" "hex_digit n \<noteq> CHR ''+''" "tolower (hex_digit n) \<noteq> CHR ''x''"
    "is_alphanum (hex_digit n)" by blast+
qed

lemma of_char_bound: "(of_char c :: nat) < 256"
  by (metis char_of_char mod_less_divisor of_char_of zero_less_numeral)

lemma sscanf_escaped:
  "sscanf_02X (hex_digit (of_char c div 16) # hex_digit (of_char c mod 16) # s) = Some (of_char c)"
proof -
  have d: "(of_char c :: nat) div 16 < 16" "(of_char c :: nat) mod 16 < 16"
    using of_char_bound [of c] by (auto simp: less_mult_imp_div_less)
  note h = hex_digit_read [OF d(1)] hex_digit_read [OF d(2)]
  have "16 * int (of_char c div 16) + int (of_char c mod 16) = (of_char c :: int)"
    by (metis mult_div_mod_eq of_nat_add of_nat_mult of_nat_numeral of_nat_of_char)
  then show ?thesis using h by (simp add: sscanf_02X_def)
qed

lemma unescape_escaped: "unescape_chars (escaped c @ s) = c # unescape_chars s"
proof -
  have "(of_char c :: nat) mod 16 < 16" by simp
  then have "is_hex (hex_digit (of_char c mod 16))" by (rule hex_digit_read)
  then show ?thesis
    using sscanf_escaped [of c s] by (simp add: escaped_def)
qed

lemma unescape_escape:
  assumes "CHR ''%'' \<notin> set def"
  shows "unescape_chars (escape def s) = s"
proof (induction s)
  case (Cons c s)
  have "\<not> is_alphanum (CHR ''%'')" by (simp add: is_alphanum_def)
  then show ?case using Cons assms unescape_escaped by auto
qed simp

lemma osip_uri_unescape_escape:
  assumes "CHR ''%'' \<notin> set def" "NUL \<notin> set s"
  shows "osip_uri_unescape (escape def s) = s"
proof -
  have "takeWhile (\<lambda>c. c \<noteq> NUL) s = s" using assms(2) by auto
  then show ?thesis using unescape_escape [OF assms(1)] by (simp add: osip_uri_unescape_def)
qed

text \<open>The characters of an escaped string.\<close>

definition plain :: "string \<Rightarrow> char \<Rightarrow> bool" where
  "plain def c \<longleftrightarrow> is_alphanum c \<or> c \<in> set def \<or> c = CHR ''%''"

lemma set_escape: "c \<in> set (escape def s) \<Longrightarrow> plain def c"
proof (induction s)
  case (Cons d s)
  have "is_alphanum (hex_digit n)" if "n < 16" for n using hex_digit_read that by blast
  moreover have "(of_char d :: nat) div 16 < 16" using of_char_bound [of d] by (simp add: less_mult_imp_div_less)
  ultimately show ?case using Cons by (auto simp: escaped_def plain_def split: if_splits)
qed simp

lemma escape_Nil_iff [simp]: "escape def s = [] \<longleftrightarrow> s = []"
  by (cases s) (auto simp: escaped_def)

end
