(* ===== verification/Uri_Parse.thy ===== *)
theory Uri_Parse
  imports Uri_Escape Osip_Headers
begin

text \<open>
  \<^verbatim>\<open>osip_uri_parse\<close> with the parsers of parameters and headers, from \<^verbatim>\<open>osip_uri.c\<close>. The
  parsers fill a URI step by step and may stop anywhere, so the answer is the code and the
  URI as it is then. The pieces \<open>uri_userinfo\<close>, \<open>uri_tail\<close> and \<open>uri_hostport\<close> are the stages
  of \<^verbatim>\<open>osip_uri_parse\<close> between its comments.
\<close>

type_synonym uri_result = "((int \<times> osip_uri) \<times> mem) option"

section \<open>Separators and parameters\<close>

definition next_separator :: "string \<Rightarrow> char \<Rightarrow> char \<Rightarrow> cstr" where
  "next_separator ch separator before_separator =
    (case strchr ch separator of
       None \<Rightarrow> None
     | Some ind \<Rightarrow>
         (case (if before_separator \<noteq> NUL then strchr ch before_separator else None) of
            None \<Rightarrow> Some ind
          | Some tmp \<Rightarrow> if 0 < ptr_diff tmp ind then Some ind else None))"

definition osip_uri_param_set :: "cstr \<Rightarrow> cstr \<Rightarrow> osip_uri_param" where
  "osip_uri_param_set pname pvalue =
    \<lparr>gname = snd (osip_clrspace pname),
     gvalue = (if pvalue \<noteq> None then snd (osip_clrspace pvalue) else None)\<rparr>"

definition osip_uri_param_add ::
  "osip_uri_param list \<Rightarrow> cstr \<Rightarrow> cstr \<Rightarrow> mem \<Rightarrow> ((int \<times> osip_uri_param list) \<times> mem) option" where
  "osip_uri_param_add params pname pvalue m =
    alloc_or m (OSIP_NOMEM, params) (\<lambda>m.
      case list_add params (osip_uri_param_set pname pvalue) (-1) m of
        (params, m) \<Rightarrow> Some ((OSIP_SUCCESS, params), m))"

text \<open>\<^verbatim>\<open>osip_uri_parse_params\<close> treats the last parameter like the others, with the end for the comma.\<close>

definition uri_parse_param :: "osip_uri \<Rightarrow> string \<Rightarrow> cstr \<Rightarrow> string \<Rightarrow> mem \<Rightarrow> uri_result" where
  "uri_parse_param uri params equal comma m =
    (let named_param = (\<lambda>equal pvalue m.
       if ptr_diff equal params < 2 then Some ((OSIP_SYNTAXERROR, uri), m)
       else alloc_or m (OSIP_NOMEM, uri) (\<lambda>m. do {
         rest \<leftarrow> advance 1 params;
         pname \<leftarrow> osip_strncpy (ptr_diff equal params) rest (ptr_diff equal params - 1);
         ((i, ps), m) \<leftarrow> osip_uri_param_add (url_params uri) (Some (osip_uri_unescape pname)) pvalue m;
         let uri = uri\<lparr>url_params := ps\<rparr>;
         Some (if i \<noteq> 0 then (OSIP_NOMEM, uri) else (OSIP_SUCCESS, uri), m)
       }))
     in (case equal of
         None \<Rightarrow> named_param comma None m
       | Some equal \<Rightarrow>
           if ptr_diff comma equal < 2 then Some ((OSIP_SYNTAXERROR, uri), m)
           else alloc_or m (OSIP_NOMEM, uri) (\<lambda>m. do {
             rest \<leftarrow> advance 1 equal;
             pvalue \<leftarrow> osip_strncpy (ptr_diff comma equal) rest (ptr_diff comma equal - 1);
             named_param equal (Some (osip_uri_unescape pvalue)) m
           })))"

lemma strchr_shorter: "strchr s c = Some t \<Longrightarrow> 0 < length t \<and> length t \<le> length s"
  by (auto dest!: strchr_SomeD)

function osip_uri_parse_params :: "osip_uri \<Rightarrow> string \<Rightarrow> mem \<Rightarrow> uri_result" where
  "osip_uri_parse_params uri params m =
    (case advance 1 params of
       None \<Rightarrow> None
     | Some rest \<Rightarrow>
         (case strchr rest CHR '';'' of
            Some comma \<Rightarrow> do {
              ((i, uri), m) \<leftarrow> uri_parse_param uri params (next_separator rest CHR ''='' CHR '';'') comma m;
              if i \<noteq> 0 then Some ((i, uri), m) else osip_uri_parse_params uri comma m
            }
          | None \<Rightarrow> uri_parse_param uri params (next_separator rest CHR ''='' CHR '';'') [] m))"
  by pat_completeness auto
termination
  by (relation "measure (\<lambda>(uri, params, m). length params)")
    (auto simp: advance_def dest!: strchr_shorter split: if_splits)

declare osip_uri_parse_params.simps [simp del]

text \<open>One header, up to the next \<open>&\<close> or to the end of the string.\<close>

definition uri_parse_header :: "osip_uri \<Rightarrow> string \<Rightarrow> string \<Rightarrow> cstr \<Rightarrow> mem \<Rightarrow> uri_result" where
  "uri_parse_header uri headers equal amp m =
    alloc_or m (OSIP_NOMEM, uri) (\<lambda>m. do {
      rest \<leftarrow> advance 1 headers;
      hname \<leftarrow> osip_strncpy (ptr_diff equal headers) rest (ptr_diff equal headers - 1);
      value \<leftarrow> advance 1 equal;
      let add = (\<lambda>hvalue m. do {
        ((i, hs), m) \<leftarrow> osip_uri_param_add (url_headers uri) (Some (osip_uri_unescape hname))
          (Some (osip_uri_unescape hvalue)) m;
        Some ((i, uri\<lparr>url_headers := hs\<rparr>), m)
      });
      (case amp of
         Some amp \<Rightarrow>
           if ptr_diff amp equal < 2 then Some ((OSIP_SYNTAXERROR, uri), m)
           else alloc_or m (OSIP_NOMEM, uri) (\<lambda>m. do {
             hvalue \<leftarrow> osip_strncpy (ptr_diff amp equal) value (ptr_diff amp equal - 1);
             add hvalue m
           })
       | None \<Rightarrow>
           if ptr_diff [] equal + 1 < 2 then Some ((OSIP_SYNTAXERROR, uri), m)
           else alloc_or m (OSIP_NOMEM, uri) (\<lambda>m. do {
             hvalue \<leftarrow> osip_strncpy (ptr_diff [] equal + 1) value (ptr_diff [] equal);
             add hvalue m
           }))
    })"

function osip_uri_parse_headers :: "osip_uri \<Rightarrow> string \<Rightarrow> mem \<Rightarrow> uri_result" where
  "osip_uri_parse_headers uri headers m =
    (case advance 1 headers of
       None \<Rightarrow> None
     | Some rest \<Rightarrow>
         (case strchr headers CHR ''='' of
            None \<Rightarrow> Some ((OSIP_SYNTAXERROR, uri), m)
          | Some equal \<Rightarrow>
              (case strchr rest CHR ''&'' of
                 Some amp \<Rightarrow> do {
                   ((i, uri), m) \<leftarrow> uri_parse_header uri headers equal (Some amp) m;
                   if i \<noteq> 0 then Some ((i, uri), m) else osip_uri_parse_headers uri amp m
                 }
               | None \<Rightarrow> uri_parse_header uri headers equal None m)))"
  by pat_completeness auto
termination
  by (relation "measure (\<lambda>(uri, headers, m). length headers)")
    (auto simp: advance_def dest!: strchr_shorter split: if_splits)

declare osip_uri_parse_headers.simps [simp del]

section \<open>Parsing a URI\<close>

definition osip_is_alpha :: "char \<Rightarrow> bool" where
  "osip_is_alpha c \<longleftrightarrow> (let n = of_char c :: nat in 97 \<le> n \<and> n \<le> 122 \<or> 65 \<le> n \<and> n \<le> 90)"

text \<open>User name and password; \<open>username\<close> points to the colon behind the scheme.\<close>

definition uri_userinfo ::
  "osip_uri \<Rightarrow> string \<Rightarrow> string \<Rightarrow> mem \<Rightarrow> (string \<Rightarrow> osip_uri \<Rightarrow> mem \<Rightarrow> uri_result) \<Rightarrow> uri_result" where
  "uri_userinfo uri buf username m k =
    (case strchr buf CHR ''@'' of
       None \<Rightarrow> k username uri m
     | Some host \<Rightarrow> do {
         rest \<leftarrow> advance 1 username;
         if cur rest = CHR ''@'' then k rest uri m
         else let set_username = (\<lambda>password uri m.
             if ptr_diff password username < 2 then Some ((OSIP_SYNTAXERROR, uri), m)
             else alloc_or m (OSIP_NOMEM, uri) (\<lambda>m. do {
               u \<leftarrow> osip_strncpy (ptr_diff password username) rest (ptr_diff password username - 1);
               k host (uri\<lparr>uri_username := Some (osip_uri_unescape u)\<rparr>) m
             }))
           in (case next_separator rest CHR '':'' CHR ''@'' of
               None \<Rightarrow> set_username host uri m
             | Some password \<Rightarrow>
                 if ptr_diff host password < 2 then Some ((OSIP_SYNTAXERROR, uri), m)
                 else alloc_or m (OSIP_NOMEM, uri) (\<lambda>m. do {
                   rest \<leftarrow> advance 1 password;
                   p \<leftarrow> osip_strncpy (ptr_diff host password) rest (ptr_diff host password - 1);
                   set_username password (uri\<lparr>uri_password := Some (osip_uri_unescape p)\<rparr>) m
                 }))
       })"

text \<open>
  Headers and parameters behind the host; the codes of the two parsers are ignored. The
  continuation gets the place where the parameters, or the headers, or nothing, begin.
\<close>

definition uri_tail ::
  "osip_uri \<Rightarrow> string \<Rightarrow> mem \<Rightarrow> (string \<Rightarrow> osip_uri \<Rightarrow> mem \<Rightarrow> uri_result) \<Rightarrow> uri_result" where
  "uri_tail uri host m k = do {
     let headers = (case strchr host CHR ''?'' of None \<Rightarrow> [] | Some h \<Rightarrow> h);
     ((i, uri), m) \<leftarrow> (if strchr host CHR ''?'' = None then Some ((OSIP_SUCCESS, uri), m)
                       else osip_uri_parse_headers uri headers m);
     (case strchr host CHR '';'' of
        None \<Rightarrow> k headers uri m
      | Some params \<Rightarrow>
          if ptr_diff headers params + 1 < 2 then Some ((OSIP_SYNTAXERROR, uri), m)
          else alloc_or m (OSIP_NOMEM, uri) (\<lambda>m. do {
            tmpbuf \<leftarrow> osip_strncpy (ptr_diff headers params + 1) params (ptr_diff headers params);
            ((i, uri), m) \<leftarrow> osip_uri_parse_params uri tmpbuf m;
            k params uri m
          }))
   }"

text \<open>Moves a pointer back to a character, but not in front of \<open>host\<close>; as an offset from \<open>host\<close>.\<close>

fun back_to :: "(char \<Rightarrow> bool) \<Rightarrow> string \<Rightarrow> nat \<Rightarrow> nat" where
  "back_to halt host 0 = 0"
| "back_to halt host (Suc n) = (if halt (cur (drop (Suc n) host)) then Suc n else back_to halt host n)"

text \<open>\<open>host\<close> points in front of the host, and \<open>params\<close> behind the port; both as offsets from \<open>host\<close>.\<close>

definition uri_host_at :: "osip_uri \<Rightarrow> string \<Rightarrow> nat \<Rightarrow> mem \<Rightarrow> uri_result" where
  "uri_host_at uri host port m =
    (let tmp = back_to (\<lambda>c. c = CHR '']'') host port;
         ipv6 = (cur (drop tmp host) = CHR '']'');
         port = (if ipv6 then tmp else port);
         start = (if ipv6 then length (takeWhile (\<lambda>c. c \<noteq> CHR ''['') (take port host)) else 0)
     in if ipv6 \<and> port \<le> start then Some ((OSIP_SYNTAXERROR, uri), m)
        else if int port - int start < 2 then Some ((OSIP_SYNTAXERROR, uri), m)
        else alloc_or m (OSIP_NOMEM, uri) (\<lambda>m. do {
          rest \<leftarrow> advance (start + 1) host;
          h \<leftarrow> osip_clrncpy (int port - int start) (Some rest) (int port - int start - 1);
          Some ((OSIP_SUCCESS, uri\<lparr>uri_host := Some h\<rparr>), m)
        }))"

definition uri_hostport :: "osip_uri \<Rightarrow> string \<Rightarrow> string \<Rightarrow> mem \<Rightarrow> uri_result" where
  "uri_hostport uri host params m =
    (if ptr_diff params host < 1 then None
     else let stop = nat (ptr_diff params host);
              port = back_to (\<lambda>c. c = CHR '']'' \<or> c = CHR '':'') host (stop - 1)
       in if cur (drop port host) = CHR '':'' \<and> port \<noteq> 0
          then
            if stop - port < 2 \<or> 8 < stop - port then Some ((OSIP_SYNTAXERROR, uri), m)
            else alloc_or m (OSIP_NOMEM, uri) (\<lambda>m. do {
              rest \<leftarrow> advance (port + 1) host;
              p \<leftarrow> osip_clrncpy (int (stop - port)) (Some rest) (int (stop - port) - 1);
              uri_host_at (uri\<lparr>uri_port := Some p\<rparr>) host port m
            })
          else uri_host_at uri host stop m)"

definition osip_uri_parse :: "osip_uri \<Rightarrow> cstr \<Rightarrow> mem \<Rightarrow> uri_result" where
  "osip_uri_parse uri buf m =
    (case buf of
       None \<Rightarrow> Some ((OSIP_BADPARAMETER, uri), m)
     | Some buf \<Rightarrow>
         if buf = [] then Some ((OSIP_BADPARAMETER, uri), m)
         else (case strchr buf CHR '':'' of
           None \<Rightarrow> Some ((OSIP_SYNTAXERROR, uri), m)
         | Some tmp \<Rightarrow>
             if ptr_diff tmp buf < 2 then Some ((OSIP_SYNTAXERROR, uri), m)
             else if \<not> list_all osip_is_alpha (take (nat (ptr_diff tmp buf)) buf)
             then Some ((OSIP_SYNTAXERROR, uri), m)
             else alloc_or m (OSIP_NOMEM, uri) (\<lambda>m. do {
               scheme \<leftarrow> osip_strncpy (ptr_diff tmp buf + 1) buf (ptr_diff tmp buf);
               let uri = uri\<lparr>uri_scheme := Some scheme\<rparr>;
               if strchr scheme CHR '' '' \<noteq> None then Some ((OSIP_SYNTAXERROR, uri), m)
               else if length scheme < 3
                 \<or> \<not> osip_strncasecmp_eq scheme ''sip'' 3 \<and> \<not> osip_strncasecmp_eq scheme ''sips'' 4
               then do {
                 rest \<leftarrow> advance 1 tmp;
                 if length rest < 2 then Some ((OSIP_SYNTAXERROR, uri), m)
                 else alloc_or m (OSIP_NOMEM, uri) (\<lambda>m. do {
                   s \<leftarrow> osip_strncpy (int (length rest) + 1) rest (int (length rest));
                   Some ((OSIP_SUCCESS, uri\<lparr>uri_string := Some s\<rparr>), m)
                 })
               }
               else uri_userinfo uri buf tmp m (\<lambda>host uri m.
                 uri_tail uri host m (\<lambda>params uri m.
                 uri_hostport uri host params m))
             })))"

section \<open>No undefined behaviour on any input\<close>

lemma strchr_hd: "strchr s c = Some t \<Longrightarrow> \<exists>r. t = c # r \<and> length r < length s"
  by (auto dest!: strchr_SomeD)

lemma next_separator_hd: "next_separator s c b = Some t \<Longrightarrow> \<exists>r. t = c # r \<and> length r < length s"
  by (auto simp: next_separator_def dest!: strchr_hd split: option.splits if_splits)

lemma osip_uri_param_add_defined [defined]: "osip_uri_param_add ps n v m \<noteq> None"
  unfolding osip_uri_param_add_def by (intro defined)

lemma uri_parse_param_defined [defined]:
  assumes "params \<noteq> []" "\<And>e. equal = Some e \<Longrightarrow> e \<noteq> []"
  shows "uri_parse_param uri params equal comma m \<noteq> None"
  using assms unfolding uri_parse_param_def Let_def
  by (intro defined) (auto simp: Suc_le_eq)

lemma osip_uri_parse_params_defined [defined]:
  "params \<noteq> [] \<Longrightarrow> osip_uri_parse_params uri params m \<noteq> None"
proof (induction uri params m rule: osip_uri_parse_params.induct)
  case (1 uri params m)
  obtain rest where rest: "advance 1 params = Some rest" using 1(2) by (cases params) auto
  have sep: "next_separator rest CHR ''='' CHR '';'' = Some e \<Longrightarrow> e \<noteq> []" for e
    using next_separator_hd by blast
  show ?case
  proof (cases "strchr rest CHR '';''")
    case None
    then show ?thesis
      using rest 1(2) sep by (simp add: osip_uri_parse_params.simps [of uri params] uri_parse_param_defined)
  next
    case (Some comma)
    have comma: "comma \<noteq> []" using strchr_hd [OF Some] by auto
    have "osip_uri_parse_params u comma m' \<noteq> None"
      if "uri_parse_param uri params (next_separator rest CHR ''='' CHR '';'') comma m = Some ((0, u), m')"
      for u m'
      using 1(1) [OF rest Some that] comma by auto
    then show ?thesis
      using rest 1(2) sep Some
      by (simp add: osip_uri_parse_params.simps [of uri params] del: not_None_eq) (intro defined, auto)
  qed
qed

lemma uri_parse_header_defined [defined]:
  assumes "headers \<noteq> []" "equal \<noteq> []" "length equal < length headers"
  shows "uri_parse_header uri headers equal amp m \<noteq> None"
  using assms unfolding uri_parse_header_def Let_def
  by (intro defined) (auto simp: Suc_le_eq ptr_diff_def)

lemma osip_uri_parse_headers_defined [defined]:
  "headers \<noteq> [] \<Longrightarrow> hd headers \<noteq> CHR ''='' \<Longrightarrow> osip_uri_parse_headers uri headers m \<noteq> None"
proof (induction uri headers m rule: osip_uri_parse_headers.induct)
  case (1 uri headers m)
  obtain c rest where h: "headers = c # rest" using 1(2) by (cases headers) auto
  show ?case
  proof (cases "strchr rest CHR ''=''")
    case None
    then show ?thesis using 1(3) unfolding h by (simp add: osip_uri_parse_headers.simps [of uri "c # rest"])
  next
    case (Some equal)
    have eq: "equal \<noteq> []" "length equal < length headers" using strchr_hd [OF Some] h by auto
    show ?thesis
    proof (cases "strchr rest CHR ''&''")
      case None
      then show ?thesis
        using 1(3) Some eq unfolding h
        by (simp add: osip_uri_parse_headers.simps [of uri "c # rest"] uri_parse_header_defined del: not_None_eq)
    next
      case amp: (Some amp)
      have hd: "amp \<noteq> []" "hd amp \<noteq> CHR ''=''" using strchr_hd [OF amp] by auto
      have "advance 1 headers = Some rest" "strchr headers CHR ''='' = Some equal" using h 1(3) Some by auto
      then have "osip_uri_parse_headers u amp m' \<noteq> None"
        if "uri_parse_header uri headers equal (Some amp) m = Some ((0, u), m')" for u m'
        using 1(1) [OF _ _ amp that] hd by auto
      then show ?thesis
        using 1(3) Some eq amp unfolding h
        by (simp add: osip_uri_parse_headers.simps [of uri "c # rest"] del: not_None_eq) (intro defined, auto)
    qed
  qed
qed

lemma uri_userinfo_defined:
  assumes "\<And>host uri m. host \<noteq> [] \<Longrightarrow> hd host \<in> {CHR '':'', CHR ''@''} \<Longrightarrow> k host uri m \<noteq> None"
    "username \<noteq> []" "hd username = CHR '':''"
  shows "uri_userinfo uri buf username m k \<noteq> None"
  using assms(2,3) unfolding uri_userinfo_def Let_def
  by (intro defined assms(1))
    (auto simp: Suc_le_eq neq_Nil_conv cur_Cons dest!: strchr_hd next_separator_hd split: if_splits)

lemma uri_tail_defined:
  assumes "\<And>params uri m. length params < length host \<Longrightarrow> k params uri m \<noteq> None"
    "host \<noteq> []" "hd host \<in> {CHR '':'', CHR ''@''}"
  shows "uri_tail uri host m k \<noteq> None"
proof -
  obtain c rest where h: "host = c # rest" using assms(2) by (cases host) auto
  have shorter: "strchr host d = Some t \<Longrightarrow> length t < length host \<and> t \<noteq> [] \<and> hd t = d"
    if "d \<notin> {CHR '':'', CHR ''@''}" for t d
    using strchr_hd [of rest d t] h assms(3) that by (auto split: if_splits)
  let ?headers = "case strchr host CHR ''?'' of None \<Rightarrow> [] | Some h \<Rightarrow> h"
  have headers: "length ?headers < length host"
    using shorter [of "CHR ''?''"] h by (cases "strchr host CHR ''?''") simp_all
  have parse: "(if strchr host CHR ''?'' = None then Some ((OSIP_SUCCESS, uri), m)
      else osip_uri_parse_headers uri ?headers m) \<noteq> None"
    using shorter [of "CHR ''?''"]
    by (cases "strchr host CHR ''?''") (simp_all add: osip_uri_parse_headers_defined del: not_None_eq strchr_None)
  have copy: "osip_strncpy (n + 1) params n = Some tmpbuf \<Longrightarrow> \<not> n + 1 < 2 \<Longrightarrow> strchr host CHR '';'' = Some params
      \<Longrightarrow> osip_uri_parse_params uri tmpbuf m \<noteq> None" for n params tmpbuf uri m
    using shorter [of "CHR '';''" params]
    by (intro osip_uri_parse_params_defined) (auto simp: osip_strncpy_def split: if_splits)
  show ?thesis
    unfolding uri_tail_def Let_def
    by (rule bind_defined [OF parse])
      (intro bind_defined case_prod_defined case_prod_app_defined case_option_defined if_defined Some_defined
        alloc_or_defined osip_strncpy_defined copy assms(1) headers;
        use shorter [of "CHR '';''"] in \<open>simp; fail\<close>)
qed

lemma back_to_le: "back_to halt host n \<le> n"
proof (induction n)
  case (Suc n)
  then show ?case by (cases "halt (cur (drop (Suc n) host))") simp_all
qed simp

lemma copy_behind_defined:
  assumes "stop \<le> length host" "start + 2 \<le> stop" "len = int stop - int start - 1" "n = int stop - int start"
    "\<And>h m. k h m \<noteq> None"
  shows "alloc_or m r (\<lambda>m. do { rest \<leftarrow> advance (start + 1) host; h \<leftarrow> osip_clrncpy n (Some rest) len; k h m }) \<noteq> None"
proof -
  have "start + 1 \<le> length host" using assms(1,2) by simp
  then have rest: "advance (start + 1) host = Some (drop (start + 1) host)" by (rule advance_le)
  have "osip_clrncpy n (Some (drop (start + 1) host)) len \<noteq> None"
    by (rule osip_clrncpy_defined) (use assms in simp_all)
  then show ?thesis
    unfolding rest using assms(5) by (intro alloc_or_defined bind_defined Some_defined) simp_all
qed

lemma uri_host_at_defined [defined]:
  assumes "port \<le> length host"
  shows "uri_host_at uri host port m \<noteq> None"
proof -
  have "back_to f host port \<le> length host" for f using back_to_le [of f host port] assms by simp
  then show ?thesis
    using assms unfolding uri_host_at_def Let_def
    by (intro if_defined Some_defined copy_behind_defined) simp_all
qed

lemma uri_hostport_defined:
  assumes "length params < length host"
  shows "uri_hostport uri host params m \<noteq> None"
proof -
  define stop where "stop = nat (ptr_diff params host)"
  define port where "port = back_to (\<lambda>c. c = CHR '']'' \<or> c = CHR '':'') host (stop - 1)"
  have stop: "stop \<le> length host" "1 \<le> stop" "\<not> ptr_diff params host < 1"
    using assms by (auto simp: ptr_diff_def stop_def)
  have "port \<le> stop - 1" unfolding port_def by (rule back_to_le)
  then have port: "port \<le> length host" using stop by simp
  show ?thesis
    unfolding uri_hostport_def Let_def stop_def [symmetric] port_def [symmetric]
    by (simp only: stop(3) if_False)
      (intro if_defined Some_defined copy_behind_defined [of stop] uri_host_at_defined,
        use port stop in \<open>(simp; fail | arith)+\<close>)
qed

theorem osip_uri_parse_defined: "osip_uri_parse uri buf m \<noteq> None"
  unfolding osip_uri_parse_def Let_def
  by (intro defined uri_userinfo_defined uri_tail_defined uri_hostport_defined)
    (auto simp: Suc_le_eq dest!: strchr_hd)

end
