(* ===== verification/Uri_Print.thy ===== *)
theory Uri_Print
  imports Uri_Parse
begin

text \<open>
  \<^verbatim>\<open>osip_uri_to_str\<close> and \<^verbatim>\<open>osip_uri_to_str_canonical\<close>, from \<^verbatim>\<open>osip_uri.c\<close>. The printer works
  in a buffer of \<open>len\<close> bytes, a size it computes before it writes; \<^verbatim>\<open>sprintf\<close> past the end of
  the buffer is \<^term>\<open>None\<close>.
\<close>

section \<open>The printer\<close>

text \<open>
  A parameter or header that cannot be escaped is reported as a syntax error. The parameters
  \<^verbatim>\<open>x-obr\<close> and \<^verbatim>\<open>x-obp\<close> are not printed.
\<close>

fun uri_params_to_str ::
  "osip_uri_param list \<Rightarrow> string \<Rightarrow> nat \<Rightarrow> mem \<Rightarrow> ((int \<times> string \<times> nat) \<times> mem) option" where
  "uri_params_to_str [] buf len m = Some ((OSIP_SUCCESS, buf, len), m)"
| "uri_params_to_str (p # ps) buf len m = do {
     name \<leftarrow> gname p;
     if osip_strcasecmp_eq name ''x-obr'' \<or> osip_strcasecmp_eq name ''x-obp''
     then uri_params_to_str ps buf len m
     else do {
       (tmp1, m) \<leftarrow> osip_uri_escape_uri_param name m;
       (case tmp1 of
          None \<Rightarrow> Some ((OSIP_SYNTAXERROR, buf, len), m)
        | Some tmp1 \<Rightarrow>
            (case gvalue p of
               None \<Rightarrow>
                 let len = len + (length tmp1 + 2) in
                 alloc_or m (OSIP_NOMEM, buf, len) (\<lambda>m. do {
                   buf \<leftarrow> sprintf_at len buf ('';'' @ tmp1);
                   uri_params_to_str ps buf len m
                 })
             | Some v \<Rightarrow> do {
                 (tmp2, m) \<leftarrow> osip_uri_escape_uri_param v m;
                 (case tmp2 of
                    None \<Rightarrow> Some ((OSIP_SYNTAXERROR, buf, len), m)
                  | Some tmp2 \<Rightarrow>
                      let len = len + (length tmp1 + length tmp2 + 3) in
                      alloc_or m (OSIP_NOMEM, buf, len) (\<lambda>m. do {
                        buf \<leftarrow> sprintf_at len buf ('';'' @ tmp1 @ ''='' @ tmp2);
                        uri_params_to_str ps buf len m
                      }))
               }))
     }
   }"

text \<open>\<open>pos\<close> is the position of the iterator. A header without a value is not checked for.\<close>

fun uri_headers_to_str ::
  "osip_uri_param list \<Rightarrow> nat \<Rightarrow> string \<Rightarrow> nat \<Rightarrow> mem \<Rightarrow> ((int \<times> string \<times> nat) \<times> mem) option" where
  "uri_headers_to_str [] pos buf len m = Some ((OSIP_SUCCESS, buf, len), m)"
| "uri_headers_to_str (h # hs) pos buf len m = do {
     name \<leftarrow> gname h;
     (tmp1, m) \<leftarrow> osip_uri_escape_header_param name m;
     (case tmp1 of
        None \<Rightarrow> Some ((OSIP_SYNTAXERROR, buf, len), m)
      | Some tmp1 \<Rightarrow> do {
          v \<leftarrow> gvalue h;
          (tmp2, m) \<leftarrow> osip_uri_escape_header_param v m;
          (case tmp2 of
             None \<Rightarrow> Some ((OSIP_SYNTAXERROR, buf, len), m)
           | Some tmp2 \<Rightarrow>
               let len = len + (length tmp1 + length tmp2 + 4) in
               alloc_or m (OSIP_NOMEM, buf, len) (\<lambda>m.
                 uri_headers_to_str hs (pos + 1)
                   (snprintf_at len buf ((if pos = 0 then ''?'' else ''&'') @ tmp1 @ ''='' @ tmp2)) len m))
        })
   }"

text \<open>The user name, with the password when there is one, and the \<open>@\<close>.\<close>

definition uri_userinfo_to_str ::
  "osip_uri \<Rightarrow> string \<Rightarrow> nat \<Rightarrow> mem \<Rightarrow> (string \<Rightarrow> mem \<Rightarrow> ((int \<times> cstr) \<times> mem) option)
    \<Rightarrow> ((int \<times> cstr) \<times> mem) option" where
  "uri_userinfo_to_str uri buf len m k =
    (case uri_username uri of
       None \<Rightarrow> k buf m
     | Some u \<Rightarrow> do {
         (tmp2, m) \<leftarrow> osip_uri_escape_userinfo u m;
         (case tmp2 of
            None \<Rightarrow> Some ((OSIP_NOMEM, None), m)
          | Some tmp2 \<Rightarrow> do {
              buf \<leftarrow> sprintf_at len buf tmp2;
              (case uri_password uri of
                 None \<Rightarrow> do { buf \<leftarrow> sprintf_at len buf ''@''; k buf m }
               | Some p \<Rightarrow> do {
                   (tmp2, m) \<leftarrow> osip_uri_escape_password p m;
                   (case tmp2 of
                      None \<Rightarrow> Some ((OSIP_NOMEM, None), m)
                    | Some tmp2 \<Rightarrow> do {
                        buf \<leftarrow> sprintf_at len buf ('':'' @ tmp2);
                        buf \<leftarrow> sprintf_at len buf ''@'';
                        k buf m
                      })
                 })
            })
       })"

text \<open>Host, port, parameters and headers.\<close>

definition uri_tail_to_str ::
  "osip_uri \<Rightarrow> string \<Rightarrow> string \<Rightarrow> nat \<Rightarrow> mem \<Rightarrow> ((int \<times> cstr) \<times> mem) option" where
  "uri_tail_to_str uri host buf len m = do {
     buf \<leftarrow> sprintf_at len buf (if strchr host CHR '':'' \<noteq> None then ''['' @ host @ '']'' else host);
     buf \<leftarrow> (case uri_port uri of None \<Rightarrow> Some buf | Some p \<Rightarrow> sprintf_at len buf ('':'' @ p));
     ((i, buf, len), m) \<leftarrow> uri_params_to_str (url_params uri) buf len m;
     if i \<noteq> 0 then Some ((i, None), m)
     else do {
       ((i, buf, len), m) \<leftarrow> uri_headers_to_str (url_headers uri) 0 buf len m;
       if i \<noteq> 0 then Some ((i, None), m) else Some ((OSIP_SUCCESS, Some buf), m)
     }
   }"

definition osip_uri_to_str :: "osip_uri option \<Rightarrow> mem \<Rightarrow> ((int \<times> cstr) \<times> mem) option" where
  "osip_uri_to_str u m =
    (case u of
       None \<Rightarrow> Some ((OSIP_BADPARAMETER, None), m)
     | Some uri \<Rightarrow>
         if uri_host uri = None \<and> uri_string uri = None then Some ((OSIP_BADPARAMETER, None), m)
         else if uri_scheme uri = None \<and> uri_string uri \<noteq> None then Some ((OSIP_BADPARAMETER, None), m)
         else let scheme = (case uri_scheme uri of None \<Rightarrow> ''sip'' | Some s \<Rightarrow> s) in
           (case uri_string uri of
              Some s \<Rightarrow>
                let len = length scheme + length s + 3 in
                alloc_or m (OSIP_NOMEM, None) (\<lambda>m. do {
                  buf \<leftarrow> sprintf_at len [] (scheme @ '':'');
                  buf \<leftarrow> sprintf_at len buf s;
                  Some ((OSIP_SUCCESS, Some buf), m)
                })
            | None \<Rightarrow> do {
                host \<leftarrow> uri_host uri;
                let len = length scheme + 1 + length host + 5
                  + (case uri_username uri of None \<Rightarrow> 0 | Some s \<Rightarrow> length s * 3 + 1)
                  + (case uri_password uri of None \<Rightarrow> 0 | Some s \<Rightarrow> length s * 3 + 1)
                  + (case uri_port uri of None \<Rightarrow> 0 | Some s \<Rightarrow> length s + 3);
                alloc_or m (OSIP_NOMEM, None) (\<lambda>m. do {
                  buf \<leftarrow> sprintf_at len [] (scheme @ '':'');
                  uri_userinfo_to_str uri buf len m (\<lambda>buf m. uri_tail_to_str uri host buf len m)
                })
              }))"

text \<open>\<^verbatim>\<open>osip_uri_to_str_canonical\<close> unescapes the whole string in place.\<close>

definition osip_uri_to_str_canonical :: "osip_uri option \<Rightarrow> mem \<Rightarrow> ((int \<times> cstr) \<times> mem) option" where
  "osip_uri_to_str_canonical u m = do {
     ((result, dest), m) \<leftarrow> osip_uri_to_str u m;
     if result = 0 then do { d \<leftarrow> dest; Some ((result, Some (osip_uri_unescape d)), m) }
     else Some ((result, dest), m)
   }"

section \<open>What it prints\<close>

definition uri_param_text :: "osip_uri_param \<Rightarrow> string" where
  "uri_param_text p =
    (let name = the (gname p) in
     if osip_strcasecmp_eq name ''x-obr'' \<or> osip_strcasecmp_eq name ''x-obp'' then []
     else '';'' @ escape uri_param_def name
       @ (case gvalue p of None \<Rightarrow> [] | Some v \<Rightarrow> ''='' @ escape uri_param_def v))"

definition uri_header_text :: "osip_uri_param \<Rightarrow> string" where
  "uri_header_text h = escape header_param_def (the (gname h)) @ ''='' @ escape header_param_def (the (gvalue h))"

fun uri_headers_text :: "char \<Rightarrow> osip_uri_param list \<Rightarrow> string" where
  "uri_headers_text sep [] = []"
| "uri_headers_text sep (h # hs) = sep # uri_header_text h @ uri_headers_text CHR ''&'' hs"

definition uri_userinfo_text :: "osip_uri \<Rightarrow> string" where
  "uri_userinfo_text uri =
    (case uri_username uri of
       None \<Rightarrow> []
     | Some u \<Rightarrow> escape userinfo_def u
         @ (case uri_password uri of None \<Rightarrow> [] | Some p \<Rightarrow> '':'' @ escape password_def p) @ ''@'')"

definition uri_hostport_text :: "osip_uri \<Rightarrow> string" where
  "uri_hostport_text uri =
    (let host = the (uri_host uri) in
     (if CHR '':'' \<in> set host then ''['' @ host @ '']'' else host)
     @ (case uri_port uri of None \<Rightarrow> [] | Some p \<Rightarrow> '':'' @ p))"

definition uri_text :: "osip_uri \<Rightarrow> string" where
  "uri_text uri =
    (case uri_scheme uri of None \<Rightarrow> ''sip'' | Some s \<Rightarrow> s) @ '':'' @
    (case uri_string uri of
       Some s \<Rightarrow> s
     | None \<Rightarrow> uri_userinfo_text uri @ uri_hostport_text uri
         @ concat (map uri_param_text (url_params uri)) @ uri_headers_text CHR ''?'' (url_headers uri))"

definition uri_printable :: "osip_uri \<Rightarrow> bool" where
  "uri_printable uri \<longleftrightarrow>
    (uri_host uri \<noteq> None \<or> uri_string uri \<noteq> None)
    \<and> (uri_string uri \<noteq> None \<longrightarrow> uri_scheme uri \<noteq> None)
    \<and> named (url_params uri)
    \<and> (\<forall>h \<in> set (url_headers uri). gname h \<noteq> None \<and> gvalue h \<noteq> None)"

lemmas escape_component_defs =
  osip_uri_escape_userinfo_def osip_uri_escape_password_def osip_uri_escape_uri_param_def
  osip_uri_escape_header_param_def

lemma uri_params_to_str_ok:
  assumes "named ps" "length buf < len" "never_fails m"
  shows "\<exists>len' m'. uri_params_to_str ps buf len m
      = Some ((0, buf @ concat (map uri_param_text ps), len'), m')
    \<and> length (buf @ concat (map uri_param_text ps)) < len' \<and> never_fails m'"
  using assms
proof (induction ps arbitrary: buf len m)
  case (Cons p ps)
  obtain n where n: "gname p = Some n" "named ps" using Cons.prems(1) by auto
  obtain m1 where m1: "osip_uri_escape_uri_param n m = Some (Some (escape uri_param_def n), m1)" "never_fails m1"
    using escape_ok [OF Cons.prems(3)] by (auto simp: escape_component_defs)
  show ?case
  proof (cases "osip_strcasecmp_eq n ''x-obr'' \<or> osip_strcasecmp_eq n ''x-obp''")
    case True
    then show ?thesis using Cons.IH [OF n(2) Cons.prems(2,3)] n by (auto simp: uri_param_text_def)
  next
    case False
    let ?t = "uri_param_text p"
    show ?thesis
    proof (cases "gvalue p")
      case None
      obtain m2 where m2: "osip_malloc m1 = (True, m2)" "never_fails m2"
        using osip_malloc_never_fails [OF m1(2)] by blast
      have t: "?t = '';'' @ escape uri_param_def n" using False None n by (auto simp: uri_param_text_def)
      let ?len = "len + (length (escape uri_param_def n) + 2)"
      have fits: "length (buf @ ?t) < ?len" using Cons.prems(2) t by simp
      show ?thesis
        using Cons.IH [OF n(2) fits m2(2)] fits False None n m1 m2 t
        by (simp add: alloc_or_def sprintf_at_def Let_def)
    next
      case (Some v)
      obtain m2 where m2: "osip_uri_escape_uri_param v m1 = Some (Some (escape uri_param_def v), m2)" "never_fails m2"
        using escape_ok [OF m1(2)] by (auto simp: escape_component_defs)
      obtain m3 where m3: "osip_malloc m2 = (True, m3)" "never_fails m3"
        using osip_malloc_never_fails [OF m2(2)] by blast
      have t: "?t = '';'' @ escape uri_param_def n @ ''='' @ escape uri_param_def v"
        using False Some n by (auto simp: uri_param_text_def)
      let ?len = "len + (length (escape uri_param_def n) + length (escape uri_param_def v) + 3)"
      have fits: "length (buf @ ?t) < ?len" using Cons.prems(2) t by simp
      show ?thesis
        using Cons.IH [OF n(2) fits m3(2)] fits False Some n m1 m2 m3 t
        by (simp add: alloc_or_def sprintf_at_def Let_def)
    qed
  qed
qed simp

lemma uri_headers_to_str_ok:
  assumes "\<forall>h \<in> set hs. gname h \<noteq> None \<and> gvalue h \<noteq> None" "length buf < len" "never_fails m"
  shows "\<exists>len' m'. uri_headers_to_str hs pos buf len m
      = Some ((0, buf @ uri_headers_text (if pos = 0 then CHR ''?'' else CHR ''&'') hs, len'), m')
    \<and> never_fails m'"
  using assms
proof (induction hs arbitrary: pos buf len m)
  case (Cons h hs)
  let ?e = "escape header_param_def"
  obtain n v where h: "gname h = Some n" "gvalue h = Some v" using Cons.prems(1) by auto
  obtain m1 where m1: "osip_uri_escape_header_param n m = Some (Some (?e n), m1)" "never_fails m1"
    using escape_ok [OF Cons.prems(3)] by (auto simp: escape_component_defs)
  obtain m2 where m2: "osip_uri_escape_header_param v m1 = Some (Some (?e v), m2)" "never_fails m2"
    using escape_ok [OF m1(2)] by (auto simp: escape_component_defs)
  obtain m3 where m3: "osip_malloc m2 = (True, m3)" "never_fails m3"
    using osip_malloc_never_fails [OF m2(2)] by blast
  let ?t = "(if pos = 0 then CHR ''?'' else CHR ''&'') # uri_header_text h"
  let ?len = "len + (length (?e n) + length (?e v) + 4)"
  have t: "(if pos = 0 then ''?'' else ''&'') @ ?e n @ ''='' @ ?e v = ?t" using h by (simp add: uri_header_text_def)
  have fits: "length (buf @ ?t) < ?len" using Cons.prems(2) h by (simp add: uri_header_text_def)
  then have print: "snprintf_at ?len buf ?t = buf @ ?t" by (simp add: snprintf_at_def)
  have "uri_headers_to_str (h # hs) pos buf len m = uri_headers_to_str hs (pos + 1) (buf @ ?t) ?len m3"
    using h m1(1) m2(1) m3(1) print t by (simp only: uri_headers_to_str.simps) (simp add: alloc_or_def Let_def)
  then show ?case
    using Cons.IH [of "buf @ ?t" ?len m3 "pos + 1"] Cons.prems(1) fits m3(2) by simp
qed simp

lemma uri_userinfo_to_str_ok:
  assumes "never_fails m"
    "length buf + length (uri_userinfo_text uri) < len"
    "\<And>m. never_fails m \<Longrightarrow> \<exists>m'. k (buf @ uri_userinfo_text uri) m = Some (r, m') \<and> never_fails m'"
  shows "\<exists>m'. uri_userinfo_to_str uri buf len m k = Some (r, m') \<and> never_fails m'"
proof (cases "uri_username uri")
  case None
  then show ?thesis using assms by (simp add: uri_userinfo_to_str_def uri_userinfo_text_def)
next
  case (Some u)
  obtain m1 where m1: "osip_uri_escape_userinfo u m = Some (Some (escape userinfo_def u), m1)" "never_fails m1"
    using escape_ok [OF assms(1)] by (auto simp: escape_component_defs)
  show ?thesis
  proof (cases "uri_password uri")
    case None
    then show ?thesis
      using Some m1 assms(2) assms(3) [OF m1(2)]
      by (simp add: uri_userinfo_to_str_def uri_userinfo_text_def sprintf_at_def)
  next
    case p: (Some p)
    obtain m2 where m2: "osip_uri_escape_password p m1 = Some (Some (escape password_def p), m2)" "never_fails m2"
      using escape_ok [OF m1(2)] by (auto simp: escape_component_defs)
    show ?thesis
      using Some p m1 m2 assms(2) assms(3) [OF m2(2)]
      by (simp add: uri_userinfo_to_str_def uri_userinfo_text_def sprintf_at_def)
  qed
qed

lemma uri_tail_to_str_ok:
  assumes "uri_printable uri" "uri_host uri = Some host" "never_fails m"
    "length (buf @ uri_hostport_text uri) < len"
  shows "\<exists>m'. uri_tail_to_str uri host buf len m = Some ((0, Some (buf @ uri_hostport_text uri
      @ concat (map uri_param_text (url_params uri)) @ uri_headers_text CHR ''?'' (url_headers uri))), m')
    \<and> never_fails m'"
proof -
  let ?h = "if CHR '':'' \<in> set host then ''['' @ host @ '']'' else host"
  let ?all = "buf @ uri_hostport_text uri"
  let ?ps = "concat (map uri_param_text (url_params uri))"
  have pr: "named (url_params uri)" "\<forall>h \<in> set (url_headers uri). gname h \<noteq> None \<and> gvalue h \<noteq> None"
    using assms(1) by (simp_all add: uri_printable_def)
  obtain len2 m2 where m2: "uri_params_to_str (url_params uri) ?all len m = Some ((0, ?all @ ?ps, len2), m2)"
    "length (?all @ ?ps) < len2" "never_fails m2"
    using uri_params_to_str_ok [OF pr(1) assms(4,3)] by blast
  obtain len3 m3 where m3: "uri_headers_to_str (url_headers uri) 0 (?all @ ?ps) len2 m2
      = Some ((0, (?all @ ?ps) @ uri_headers_text CHR ''?'' (url_headers uri), len3), m3)" "never_fails m3"
    using uri_headers_to_str_ok [OF pr(2) m2(2,3), of 0] by auto
  have "sprintf_at len buf ?h = Some (buf @ ?h)" "(case uri_port uri of None \<Rightarrow> Some (buf @ ?h)
      | Some p \<Rightarrow> sprintf_at len (buf @ ?h) ('':'' @ p)) = Some ?all"
    using assms(2,4) by (auto simp: sprintf_at_def uri_hostport_text_def split: option.splits if_splits)
  then show ?thesis
    unfolding uri_tail_to_str_def using m2(1) m3 by (simp del: append_assoc append.simps)
qed

definition uri_len :: "osip_uri \<Rightarrow> string \<Rightarrow> string \<Rightarrow> nat" where
  "uri_len uri scheme host = length scheme + 1 + length host + 5
    + (case uri_username uri of None \<Rightarrow> 0 | Some s \<Rightarrow> length s * 3 + 1)
    + (case uri_password uri of None \<Rightarrow> 0 | Some s \<Rightarrow> length s * 3 + 1)
    + (case uri_port uri of None \<Rightarrow> 0 | Some s \<Rightarrow> length s + 3)"

lemma uri_len_enough:
  assumes "uri_host uri = Some host"
  shows "length (scheme @ '':'' @ uri_userinfo_text uri @ uri_hostport_text uri) < uri_len uri scheme host"
proof -
  have e: "length (escape def s) \<le> length s * 3" for def s using escape_length [of s def] by simp
  have "length (uri_userinfo_text uri) \<le> (case uri_username uri of None \<Rightarrow> 0 | Some s \<Rightarrow> length s * 3 + 1)
    + (case uri_password uri of None \<Rightarrow> 0 | Some s \<Rightarrow> length s * 3 + 1)"
    using e [of userinfo_def "the (uri_username uri)"] e [of password_def "the (uri_password uri)"]
    by (auto simp: uri_userinfo_text_def split: option.split)
  moreover have "length (uri_hostport_text uri) \<le> length host + 2 + (case uri_port uri of None \<Rightarrow> 0 | Some s \<Rightarrow> length s + 1)"
    using assms by (auto simp: uri_hostport_text_def Let_def split: option.split)
  moreover have "(case uri_port uri of None \<Rightarrow> 0 | Some s \<Rightarrow> length s + 1)
      \<le> (case uri_port uri of None \<Rightarrow> 0 | Some s \<Rightarrow> length s + 3)" by (simp split: option.split)
  ultimately show ?thesis by (simp add: uri_len_def)
qed

theorem osip_uri_to_str_ok:
  assumes "uri_printable uri" "never_fails m"
  shows "\<exists>m'. osip_uri_to_str (Some uri) m = Some ((OSIP_SUCCESS, Some (uri_text uri)), m') \<and> never_fails m'"
proof -
  obtain m1 where m1: "osip_malloc m = (True, m1)" "never_fails m1"
    using osip_malloc_never_fails [OF assms(2)] by blast
  define scheme where "scheme = (case uri_scheme uri of None \<Rightarrow> ''sip'' | Some s \<Rightarrow> s)"
  show ?thesis
  proof (cases "uri_string uri")
    case (Some s)
    then show ?thesis
      using assms(1) m1
      by (auto simp: osip_uri_to_str_def uri_text_def alloc_or_def sprintf_at_def uri_printable_def)
  next
    case None
    obtain host where host: "uri_host uri = Some host" using assms(1) None by (auto simp: uri_printable_def)
    let ?len = "uri_len uri scheme host"
    have fits: "length (scheme @ '':'' @ uri_userinfo_text uri @ uri_hostport_text uri) < ?len"
      using uri_len_enough [OF host] .
    have tail: "\<exists>m'. uri_tail_to_str uri host ((scheme @ '':'') @ uri_userinfo_text uri) ?len m
        = Some ((0, Some (uri_text uri)), m') \<and> never_fails m'" if "never_fails m" for m
      using uri_tail_to_str_ok [OF assms(1) host that, of "(scheme @ '':'') @ uri_userinfo_text uri" ?len] fits None
      by (simp add: uri_text_def scheme_def)
    have "osip_uri_to_str (Some uri) m
        = uri_userinfo_to_str uri (scheme @ '':'') ?len m1 (\<lambda>buf m. uri_tail_to_str uri host buf ?len m)"
      using host None m1(1) fits
      by (simp add: osip_uri_to_str_def scheme_def uri_len_def alloc_or_def sprintf_at_def Let_def)
    moreover have "\<exists>m'. uri_userinfo_to_str uri (scheme @ '':'') ?len m1
        (\<lambda>buf m. uri_tail_to_str uri host buf ?len m) = Some ((0, Some (uri_text uri)), m') \<and> never_fails m'"
      by (rule uri_userinfo_to_str_ok [OF m1(2)]) (use fits tail in simp_all)
    ultimately show ?thesis by simp
  qed
qed

end
