(* ===== verification/Uri_Roundtrip.thy ===== *)
theory Uri_Roundtrip
  imports Uri_Print
begin

text \<open>
  A well formed URI is printed to a string that \<^verbatim>\<open>osip_uri_parse\<close> reads back as the same URI:
  the stages of the parser, each on the text its part of the URI is printed to.
\<close>

section \<open>Well formed URIs\<close>

definition clean :: "string \<Rightarrow> bool" where
  "clean s \<longleftrightarrow> s \<noteq> [] \<and> NUL \<notin> set s \<and> tight s"

definition uri_param_wf :: "osip_uri_param \<Rightarrow> bool" where
  "uri_param_wf p \<longleftrightarrow>
    (case gname p of
       None \<Rightarrow> False
     | Some n \<Rightarrow> clean n \<and> \<not> osip_strcasecmp_eq n ''x-obr'' \<and> \<not> osip_strcasecmp_eq n ''x-obp'')
    \<and> (case gvalue p of None \<Rightarrow> True | Some v \<Rightarrow> clean v)"

definition uri_header_wf :: "osip_uri_param \<Rightarrow> bool" where
  "uri_header_wf h \<longleftrightarrow>
    (case gname h of None \<Rightarrow> False | Some n \<Rightarrow> clean n) \<and> (case gvalue h of None \<Rightarrow> False | Some v \<Rightarrow> clean v)"

definition uri_userinfo_wf :: "osip_uri \<Rightarrow> bool" where
  "uri_userinfo_wf uri \<longleftrightarrow>
    (case uri_username uri of None \<Rightarrow> uri_password uri = None | Some u \<Rightarrow> u \<noteq> [] \<and> NUL \<notin> set u)
    \<and> (case uri_password uri of None \<Rightarrow> True | Some p \<Rightarrow> p \<noteq> [] \<and> NUL \<notin> set p)"

definition uri_hostport_wf :: "osip_uri \<Rightarrow> bool" where
  "uri_hostport_wf uri \<longleftrightarrow>
    (case uri_host uri of
       None \<Rightarrow> False
     | Some h \<Rightarrow> h \<noteq> [] \<and> tight h \<and> set h \<inter> {CHR ''@'', CHR ''?'', CHR '';'', CHR ''['', CHR '']''} = {})
    \<and> (case uri_port uri of None \<Rightarrow> True | Some p \<Rightarrow> list_all is_c_digit p \<and> p \<noteq> [] \<and> length p \<le> 7)"

definition sip_uri_wf :: "osip_uri \<Rightarrow> bool" where
  "sip_uri_wf uri \<longleftrightarrow>
    (case uri_scheme uri of
       None \<Rightarrow> False
     | Some s \<Rightarrow> list_all osip_is_alpha s \<and> 3 \<le> length s \<and> osip_strncasecmp_eq s ''sip'' 3)
    \<and> uri_userinfo_wf uri \<and> uri_hostport_wf uri
    \<and> list_all uri_param_wf (url_params uri) \<and> list_all uri_header_wf (url_headers uri)
    \<and> uri_string uri = None"

text \<open>A URI of another scheme is kept as it is: its scheme and the rest.\<close>

definition opaque_uri_wf :: "osip_uri \<Rightarrow> bool" where
  "opaque_uri_wf uri \<longleftrightarrow>
    (case uri_scheme uri of
       None \<Rightarrow> False
     | Some s \<Rightarrow> list_all osip_is_alpha s \<and> 2 \<le> length s \<and> \<not> osip_strncasecmp_eq s ''sip'' 3
         \<and> \<not> osip_strncasecmp_eq s ''sips'' 4)
    \<and> (case uri_string uri of None \<Rightarrow> False | Some s \<Rightarrow> 2 \<le> length s)
    \<and> uri_username uri = None \<and> uri_password uri = None \<and> uri_host uri = None \<and> uri_port uri = None
    \<and> url_params uri = [] \<and> url_headers uri = []"

section \<open>Escaped text holds no separator\<close>

lemma not_plain:
  "c \<in> {CHR '';'', CHR ''='', CHR ''?'', CHR ''@''} \<Longrightarrow> c \<notin> set (escape uri_param_def s)"
  "c \<in> {CHR '';'', CHR ''='', CHR ''&'', CHR ''@''} \<Longrightarrow> c \<notin> set (escape header_param_def s)"
  "c \<in> {CHR '':'', CHR ''@''} \<Longrightarrow> c \<notin> set (escape userinfo_def s)"
  "c \<in> {CHR '':'', CHR ''@''} \<Longrightarrow> c \<notin> set (escape password_def s)"
  by (auto dest!: set_escape simp: plain_def is_alphanum_def uri_param_def_def header_param_def_def
      userinfo_def_def password_def_def)

lemma unescape_component:
  assumes "NUL \<notin> set s"
  shows "osip_uri_unescape (escape uri_param_def s) = s" "osip_uri_unescape (escape header_param_def s) = s"
    "osip_uri_unescape (escape userinfo_def s) = s" "osip_uri_unescape (escape password_def s) = s"
  using assms
  by (auto intro!: osip_uri_unescape_escape
      simp: uri_param_def_def header_param_def_def userinfo_def_def password_def_def)

lemma osip_strncpy_front:
  "n = int (length a) + 1 \<Longrightarrow> len = int (length a) \<Longrightarrow> osip_strncpy n (a @ b) len = Some a"
  by (simp add: osip_strncpy_def)

lemma ptr_diff_append [simp]: "ptr_diff b (a @ b) = int (length a)"
  by (simp add: ptr_diff_def)

lemma ptr_diff_Cons_append [simp]: "ptr_diff b (c # a @ b) = 1 + int (length a)"
  by (simp add: ptr_diff_def)

section \<open>Parameters and headers\<close>

lemma osip_uri_param_add_clean:
  assumes "tight n" "\<forall>w. v = Some w \<longrightarrow> tight w"
  shows "osip_uri_param_add ps (Some n) v [] = Some ((0, ps @ [\<lparr>gname = Some n, gvalue = v\<rparr>]), [])"
  using assms
  by (cases v) (simp_all add: osip_uri_param_add_def osip_uri_param_set_def osip_clrspace_trim list_add_def)

definition starts_with :: "char \<Rightarrow> string \<Rightarrow> bool" where
  "starts_with c s \<longleftrightarrow> (case s of [] \<Rightarrow> True | d # _ \<Rightarrow> d = c)"

lemma strchr_starts: "c \<notin> set a \<Longrightarrow> starts_with c r \<Longrightarrow> strchr (a @ r) c = (if r = [] then None else Some r)"
  by (cases r) (auto simp: starts_with_def strchr_append)

lemma parse_param_text:
  assumes "uri_param_wf p" "starts_with CHR '';'' r"
  obtains rest where
    "uri_param_text p @ r = CHR '';'' # rest"
    "strchr rest CHR '';'' = (if r = [] then None else Some r)"
    "uri_parse_param uri (CHR '';'' # rest) (next_separator rest CHR ''='' CHR '';'') r []
      = Some ((0, uri\<lparr>url_params := url_params uri @ [p]\<rparr>), [])"
proof -
  let ?e = "escape uri_param_def"
  obtain n where n: "gname p = Some n" "clean n" "\<not> osip_strcasecmp_eq n ''x-obr''" "\<not> osip_strcasecmp_eq n ''x-obp''"
    using assms(1) by (auto simp: uri_param_wf_def split: option.splits)
  have en: "CHR '';'' \<notin> set (?e n)" "CHR ''='' \<notin> set (?e n)" "?e n \<noteq> []" "osip_uri_unescape (?e n) = n" "tight n"
    using not_plain(1) n(2) unescape_component by (auto simp: clean_def)
  show thesis
  proof (cases "gvalue p")
    case None
    have p: "p = \<lparr>gname = Some n, gvalue = None\<rparr>" using n None by (cases p) simp
    have "next_separator (?e n @ r) CHR ''='' CHR '';'' = None"
      using assms(2) en(1,2) by (cases r)
        (auto simp: next_separator_def strchr_append strchr_append_notin starts_with_def ptr_diff_def
          dest!: strchr_hd split: option.split)
    then show thesis
      using n None en assms(2)
      by (intro that [of "?e n @ r"])
        (simp_all add: uri_param_text_def strchr_starts uri_parse_param_def osip_strncpy_front
          osip_uri_param_add_clean p)
  next
    case (Some v)
    have p: "p = \<lparr>gname = Some n, gvalue = Some v\<rparr>" using n Some by (cases p) simp
    have ev: "CHR '';'' \<notin> set (?e v)" "?e v \<noteq> []" "osip_uri_unescape (?e v) = v" "tight v"
      using not_plain(1) unescape_component assms(1) Some by (auto simp: uri_param_wf_def clean_def split: option.splits)
    have sep: "strchr (?e n @ CHR ''='' # ?e v @ r) CHR '';'' = (if r = [] then None else Some r)"
      using strchr_starts [of "CHR '';''" "?e n @ CHR ''='' # ?e v" r] en ev assms(2) by simp
    then have "next_separator (?e n @ CHR ''='' # ?e v @ r) CHR ''='' CHR '';'' = Some (CHR ''='' # ?e v @ r)"
      using en by (simp add: next_separator_def strchr_append ptr_diff_def)
    then show thesis
      using n Some en ev sep
      by (intro that [of "?e n @ CHR ''='' # ?e v @ r"])
        (simp_all add: uri_param_text_def uri_parse_param_def osip_strncpy_front osip_uri_param_add_clean p ptr_diff_def)
  qed
qed

lemma cur_starts: "starts_with c a \<Longrightarrow> starts_with d b \<Longrightarrow> cur (a @ b) \<in> {c, d, NUL}"
  by (cases a; cases b) (simp_all add: starts_with_def)

lemma uri_params_text_starts: "list_all uri_param_wf ps \<Longrightarrow> starts_with CHR '';'' r
    \<Longrightarrow> (ps = [] \<longrightarrow> r = []) \<Longrightarrow> starts_with CHR '';'' (concat (map uri_param_text ps) @ r)"
proof (induction ps)
  case (Cons p ps)
  then have "uri_param_wf p" by simp
  then obtain rest where "uri_param_text p = CHR '';'' # rest"
    using parse_param_text [of p "[]"] by (auto simp: starts_with_def)
  then show ?case by (simp add: starts_with_def)
qed (simp add: starts_with_def)

lemma parse_params_step:
  assumes "strchr rest CHR '';'' = Some r"
    "uri_parse_param uri (CHR '';'' # rest) (next_separator rest CHR ''='' CHR '';'') r [] = Some ((0, u), [])"
  shows "osip_uri_parse_params uri (CHR '';'' # rest) [] = osip_uri_parse_params u r []"
  using assms by (simp add: osip_uri_parse_params.simps [of uri "CHR '';'' # rest"])

lemma parse_params_text:
  assumes "list_all uri_param_wf (p # ps)"
  shows "osip_uri_parse_params uri (concat (map uri_param_text (p # ps))) []
    = Some ((0, uri\<lparr>url_params := url_params uri @ p # ps\<rparr>), [])"
  using assms
proof (induction ps arbitrary: p uri)
  case Nil
  then have p: "uri_param_wf p" by simp
  obtain rest where rest:
    "uri_param_text p @ [] = CHR '';'' # rest" "strchr rest CHR '';'' = None"
    "uri_parse_param uri (CHR '';'' # rest) (next_separator rest CHR ''='' CHR '';'') [] []
      = Some ((0, uri\<lparr>url_params := url_params uri @ [p]\<rparr>), [])"
    by (rule parse_param_text [OF p, of "[]" uri]) (simp_all add: starts_with_def)
  show ?case
    using rest by (simp add: osip_uri_parse_params.simps [of uri "CHR '';'' # rest"] del: strchr_None)
next
  case (Cons q ps)
  let ?r = "concat (map uri_param_text (q # ps))"
  have p: "uri_param_wf p" and wf: "list_all uri_param_wf (q # ps)" using Cons.prems by simp_all
  have r: "starts_with CHR '';'' ?r" using uri_params_text_starts [OF wf, of "[]"] by (simp add: starts_with_def)
  have "?r \<noteq> []"
  proof -
    obtain rest where "uri_param_text q @ [] = CHR '';'' # rest"
      using parse_param_text [of q "[]"] wf by (auto simp: starts_with_def)
    then show ?thesis by simp
  qed
  obtain rest where rest:
    "uri_param_text p @ ?r = CHR '';'' # rest" "strchr rest CHR '';'' = (if ?r = [] then None else Some ?r)"
    "uri_parse_param uri (CHR '';'' # rest) (next_separator rest CHR ''='' CHR '';'') ?r []
      = Some ((0, uri\<lparr>url_params := url_params uri @ [p]\<rparr>), [])"
    by (rule parse_param_text [OF p r])
  have "osip_uri_parse_params uri (CHR '';'' # rest) []
      = osip_uri_parse_params (uri\<lparr>url_params := url_params uri @ [p]\<rparr>) ?r []"
    using rest(2,3) \<open>?r \<noteq> []\<close> by (intro parse_params_step) (simp_all only: if_False)
  then show ?case
    using Cons.IH [OF wf, of "uri\<lparr>url_params := url_params uri @ [p]\<rparr>"] rest(1) by simp
qed

lemma parse_header_text:
  assumes "uri_header_wf h" "starts_with CHR ''&'' r" "sep \<noteq> CHR ''=''"
  obtains equal where
    "strchr (sep # uri_header_text h @ r) CHR ''='' = Some equal"
    "strchr (uri_header_text h @ r) CHR ''&'' = (if r = [] then None else Some r)"
    "uri_parse_header uri (sep # uri_header_text h @ r) equal (if r = [] then None else Some r) []
      = Some ((0, uri\<lparr>url_headers := url_headers uri @ [h]\<rparr>), [])"
proof -
  let ?e = "escape header_param_def"
  obtain n v where h: "gname h = Some n" "gvalue h = Some v" "clean n" "clean v"
    using assms(1) by (auto simp: uri_header_wf_def split: option.splits)
  then have h': "h = \<lparr>gname = Some n, gvalue = Some v\<rparr>" by (cases h) simp
  have en: "CHR ''&'' \<notin> set (?e n)" "CHR ''='' \<notin> set (?e n)" "osip_uri_unescape (?e n) = n" "tight n"
    and ev: "CHR ''&'' \<notin> set (?e v)" "?e v \<noteq> []" "osip_uri_unescape (?e v) = v" "tight v"
    using not_plain(2) h unescape_component by (auto simp: clean_def)
  have shape: "uri_header_text h = ?e n @ CHR ''='' # ?e v" using h by (simp add: uri_header_text_def)
  have amp: "strchr (?e n @ CHR ''='' # ?e v @ r) CHR ''&'' = (if r = [] then None else Some r)"
    using strchr_starts [of "CHR ''&''" "?e n @ CHR ''='' # ?e v" r] en ev assms(2) by simp
  show thesis
  proof (rule that [of "CHR ''='' # ?e v @ r"])
    show "strchr (sep # uri_header_text h @ r) CHR ''='' = Some (CHR ''='' # ?e v @ r)"
      using en(2) assms(3) by (simp add: shape strchr_append)
    show "strchr (uri_header_text h @ r) CHR ''&'' = (if r = [] then None else Some r)"
      using amp by (simp add: shape)
    show "uri_parse_header uri (sep # uri_header_text h @ r) (CHR ''='' # ?e v @ r) (if r = [] then None else Some r) []
      = Some ((0, uri\<lparr>url_headers := url_headers uri @ [h]\<rparr>), [])"
      using en ev
      by (cases r) (simp_all add: shape uri_parse_header_def Let_def ptr_diff_def osip_strncpy_def
        osip_uri_param_add_clean h' uri_header_text_def)
  qed
qed

lemma uri_headers_text_starts: "starts_with sep (uri_headers_text sep hs)"
  by (cases hs) (simp_all add: starts_with_def)

lemma parse_headers_step:
  assumes "strchr (sep # rest) CHR ''='' = Some equal" "strchr rest CHR ''&'' = Some r"
    "uri_parse_header uri (sep # rest) equal (Some r) [] = Some ((0, u), [])"
  shows "osip_uri_parse_headers uri (sep # rest) [] = osip_uri_parse_headers u r []"
  using assms by (simp add: osip_uri_parse_headers.simps [of uri "sep # rest"] del: strchr_simps)

lemma parse_headers_text:
  assumes "list_all uri_header_wf (h # hs)" "sep \<noteq> CHR ''=''"
  shows "osip_uri_parse_headers uri (uri_headers_text sep (h # hs)) []
    = Some ((0, uri\<lparr>url_headers := url_headers uri @ h # hs\<rparr>), [])"
  using assms
proof (induction hs arbitrary: h sep uri)
  case Nil
  then have h: "uri_header_wf h" by simp
  show ?case
    by (rule parse_header_text [OF h _ Nil(2), of "[]" uri])
      (simp_all add: starts_with_def osip_uri_parse_headers.simps [of uri "sep # uri_header_text h"] del: strchr_None)
next
  case (Cons g hs)
  let ?r = "uri_headers_text CHR ''&'' (g # hs)"
  have h: "uri_header_wf h" and wf: "list_all uri_header_wf (g # hs)" using Cons.prems by simp_all
  obtain equal where equal:
    "strchr (sep # uri_header_text h @ ?r) CHR ''='' = Some equal"
    "strchr (uri_header_text h @ ?r) CHR ''&'' = (if ?r = [] then None else Some ?r)"
    "uri_parse_header uri (sep # uri_header_text h @ ?r) equal (if ?r = [] then None else Some ?r) []
      = Some ((0, uri\<lparr>url_headers := url_headers uri @ [h]\<rparr>), [])"
    using parse_header_text [OF h uri_headers_text_starts Cons.prems(2)] by metis
  have "osip_uri_parse_headers uri (sep # uri_header_text h @ ?r) []
      = osip_uri_parse_headers (uri\<lparr>url_headers := url_headers uri @ [h]\<rparr>) ?r []"
    using equal by (intro parse_headers_step [of _ _ equal]) simp_all
  then show ?case
    using Cons.IH [OF wf, of "CHR ''&''" "uri\<lparr>url_headers := url_headers uri @ [h]\<rparr>"] by simp
qed

section \<open>Host and port\<close>

lemma back_to_skip:
  assumes "a \<noteq> []" "\<forall>c \<in> set b. \<not> halt c"
  shows "back_to halt (a @ b @ c) (length a + length b - 1) = back_to halt (a @ b @ c) (length a - 1)"
  using assms(2)
proof (induction b arbitrary: c rule: rev_induct)
  case (snoc x b)
  obtain n where n: "length a = Suc n" using assms(1) by (cases a) auto
  have "cur (drop (Suc (n + length b)) (a @ b @ x # c)) = x" using n by (simp add: cur_def)
  then have "back_to halt (a @ (b @ [x]) @ c) (length a + length (b @ [x]) - 1)
      = back_to halt (a @ b @ (x # c)) (length a + length b - 1)"
    using snoc.prems n by simp
  then show ?case using snoc.IH [of "x # c"] snoc.prems by simp
qed simp

lemma back_to_stop:
  assumes "halt x"
  shows "back_to halt (a @ x # c) (length a) = length a"
  using assms by (cases "length a") (simp_all add: cur_def)

lemma cur_behind: "n = length a \<Longrightarrow> cur (drop n (a @ x # c)) = x"
  by (simp add: cur_def)

definition host_text :: "string \<Rightarrow> string" where
  "host_text h = (if CHR '':'' \<in> set h then ''['' @ h @ '']'' else h)"

lemma uri_host_at_text:
  assumes "h \<noteq> []" "tight h" "set h \<inter> {CHR ''['', CHR '']''} = {}" "sep \<notin> {CHR ''['', CHR '']''}"
    "cur r \<noteq> CHR '']''"
  shows "uri_host_at uri (sep # host_text h @ r) (length (host_text h) + 1) []
    = Some ((0, uri\<lparr>uri_host := Some h\<rparr>), [])"
proof (cases "CHR '':'' \<in> set h")
  case True
  let ?host = "sep # CHR ''['' # h @ CHR '']'' # r"
  have "back_to (\<lambda>c. c = CHR '']'') ?host (length h + 3) = back_to (\<lambda>c. c = CHR '']'') ?host (length h + 2)"
    using assms(5) by (simp add: numeral_3_eq_3)
  also have "\<dots> = length h + 2"
    using back_to_stop [of "\<lambda>c. c = CHR '']''" "CHR '']''" "sep # CHR ''['' # h" r] by simp
  finally have tmp: "back_to (\<lambda>c. c = CHR '']'') ?host (length h + 3) = length h + 2" .
  have "takeWhile (\<lambda>c. c \<noteq> CHR ''['') (take (length h + 2) ?host) = [sep]"
    using assms(4) by simp
  moreover have "1 < int (length h) + 1 + 1 - 1" using assms(1) by simp
  moreover have "osip_clrncpy (1 + int (length h)) (Some (h @ CHR '']'' # r)) (int (length h)) = Some h"
    using assms(2) by (intro osip_clrncpy_whole) simp_all
  moreover have "cur (drop (length h + 2) ?host) = CHR '']''" by (simp add: cur_def)
  ultimately show ?thesis
    using True tmp assms(1,4,5) by (simp add: uri_host_at_def host_text_def advance_def Let_def)
next
  case False
  let ?host = "sep # h @ r"
  have "back_to (\<lambda>c. c = CHR '']'') ?host (length h + 1) = back_to (\<lambda>c. c = CHR '']'') ?host (length h)"
    using assms(5) by simp
  also have "\<dots> = 0"
    using back_to_skip [of "[sep]" h "\<lambda>c. c = CHR '']''" r] assms(3) by auto
  finally have tmp: "back_to (\<lambda>c. c = CHR '']'') ?host (length h + 1) = 0" .
  moreover have "osip_clrncpy (1 + int (length h)) (Some (h @ r)) (int (length h)) = Some h"
    using assms(2) by (intro osip_clrncpy_whole) simp_all
  ultimately show ?thesis
    using False assms(1,4) by (simp add: uri_host_at_def host_text_def advance_def Let_def)
qed

lemma nat_one_plus: "nat (1 + int n) = Suc n"
  by simp

lemma digit_facts:
  assumes "is_c_digit c"
  shows "c \<noteq> CHR '':''" "c \<noteq> CHR '']''" "c \<noteq> CHR ''?''" "c \<noteq> CHR '';''" "c \<noteq> CHR ''@''" "\<not> is_blank c"
  using assms by (auto simp: is_c_digit_def is_blank_def)

lemma digits_tight: "list_all is_c_digit p \<Longrightarrow> tight p"
  by (auto simp: tight_def list_all_iff digit_facts)

lemma uri_hostport_with_port:
  assumes "ptr_diff r host = int stop" "1 \<le> stop"
    "back_to (\<lambda>c. c = CHR '']'' \<or> c = CHR '':'') host (stop - 1) = port"
    "cur (drop port host) = CHR '':''" "port \<noteq> 0" "2 \<le> stop - port" "stop - port \<le> 8" "port + 1 \<le> length host"
    "osip_clrncpy (int (stop - port)) (Some (drop (port + 1) host)) (int (stop - port) - 1) = Some p"
  shows "uri_hostport uri host r [] = uri_host_at (uri\<lparr>uri_port := Some p\<rparr>) host port []"
  using assms by (simp add: uri_hostport_def advance_def Let_def)

lemma uri_hostport_text:
  assumes wf: "uri_hostport_wf uri'" and sep: "sep \<in> {CHR '':'', CHR ''@''}" and r: "cur r \<notin> {CHR '':'', CHR '']''}"
    and none: "uri_port uri = None"
  shows "uri_hostport uri (sep # uri_hostport_text uri' @ r) r []
    = Some ((0, uri\<lparr>uri_port := uri_port uri', uri_host := uri_host uri'\<rparr>), [])"
proof -
  obtain h where h: "uri_host uri' = Some h" "h \<noteq> []" "tight h"
    "set h \<inter> {CHR ''@'', CHR ''?'', CHR '';'', CHR ''['', CHR '']''} = {}"
    using wf by (auto simp: uri_hostport_wf_def split: option.splits)
  have brackets: "set h \<inter> {CHR ''['', CHR '']''} = {}" "sep \<notin> {CHR ''['', CHR '']''}" using h sep by auto
  let ?H = "host_text h"
  let ?halt = "\<lambda>c. c = CHR '']'' \<or> c = CHR '':''"
  show ?thesis
  proof (cases "uri_port uri'")
    case None
    have shape: "uri_hostport_text uri' = ?H" using h None by (simp add: uri_hostport_text_def host_text_def)
    let ?host = "sep # ?H @ r"
    let ?port = "back_to ?halt ?host (length ?H)"
    have "\<not> (cur (drop ?port ?host) = CHR '':'' \<and> ?port \<noteq> 0)"
    proof (cases "CHR '':'' \<in> set h")
      case True
      then have eq: "?host = (sep # CHR ''['' # h) @ CHR '']'' # r" "length ?H = length (sep # CHR ''['' # h)"
        by (simp_all add: host_text_def)
      have port: "?port = length (sep # CHR ''['' # h)"
        unfolding eq by (rule back_to_stop) simp
      have "cur (drop ?port ?host) = CHR '']''" unfolding port unfolding eq by (rule cur_behind) simp
      then show ?thesis by simp
    next
      case False
      then have "?port = 0"
        using back_to_skip [of "[sep]" h ?halt r] brackets by (auto simp: host_text_def)
      then show ?thesis by simp
    qed
    moreover have "uri\<lparr>uri_port := None\<rparr> = uri" using none by (cases uri) simp
    ultimately show ?thesis
      using uri_host_at_text [OF h(2,3) brackets, of r uri] r h None
      unfolding shape by (auto simp: uri_hostport_def ptr_diff_def Let_def nat_one_plus)
  next
    case (Some p)
    have digits: "list_all is_c_digit p" "p \<noteq> []" "length p \<le> 7"
      using wf Some by (auto simp: uri_hostport_wf_def)
    have shape: "uri_hostport_text uri' = ?H @ CHR '':'' # p" using h Some by (simp add: uri_hostport_text_def host_text_def)
    let ?host = "sep # ?H @ CHR '':'' # p @ r"
    have "back_to ?halt ?host (length ?H + length p + 2 - 1) = length ?H + 1"
    proof -
      have "back_to ?halt ((sep # ?H @ [CHR '':'']) @ p @ r) (length (sep # ?H @ [CHR '':'']) + length p - 1)
          = back_to ?halt ((sep # ?H @ [CHR '':'']) @ p @ r) (length (sep # ?H @ [CHR '':'']) - 1)"
        using digits(1) by (intro back_to_skip) (auto simp: list_all_iff digit_facts)
      also have "\<dots> = length ?H + 1"
        using back_to_stop [of ?halt "CHR '':''" "sep # ?H" "p @ r"] by simp
      finally show ?thesis by simp
    qed
    then have "uri_hostport uri ?host r [] = uri_host_at (uri\<lparr>uri_port := Some p\<rparr>) ?host (length ?H + 1) []"
      using cur_behind [of _ "sep # ?H" "CHR '':''" "p @ r"] digits
        osip_clrncpy_whole [OF digits_tight [OF digits(1)], of "1 + int (length p)" r]
      by (intro uri_hostport_with_port [of _ _ "length ?H + length p + 2"]) (simp_all add: ptr_diff_def Suc_le_eq)
    then show ?thesis
      using uri_host_at_text [OF h(2,3) brackets, of "CHR '':'' # p @ r" "uri\<lparr>uri_port := Some p\<rparr>"] h Some
      unfolding shape by simp
  qed
qed

section \<open>User name, parameters and headers in the whole URI\<close>

lemma params_text_chars:
  assumes "list_all uri_param_wf ps" "c \<in> {CHR ''@'', CHR ''?''}"
  shows "c \<notin> set (concat (map uri_param_text ps))"
  using assms not_plain(1) [of c] by (induction ps) (auto simp: uri_param_text_def Let_def split: option.splits)

lemma headers_text_chars:
  assumes "list_all uri_header_wf hs" "c \<in> {CHR ''@'', CHR '';''}" "sep \<notin> {CHR ''@'', CHR '';''}"
  shows "c \<notin> set (uri_headers_text sep hs)"
  using assms not_plain(2) [of c] by (induction sep hs rule: uri_headers_text.induct) (auto simp: uri_header_text_def)

lemma hostport_text_chars:
  assumes "uri_hostport_wf uri" "c \<in> {CHR ''@'', CHR ''?'', CHR '';''}"
  shows "c \<notin> set (uri_hostport_text uri)"
proof -
  obtain h where h: "uri_host uri = Some h" "c \<notin> set h"
    using assms by (auto simp: uri_hostport_wf_def split: option.splits)
  have "c \<notin> set p" if "uri_port uri = Some p" for p
    using assms that digit_facts(3-5) by (fastforce simp: uri_hostport_wf_def list_all_iff)
  moreover have "c \<notin> {CHR ''['', CHR '']'', CHR '':''}" using assms(2) by auto
  ultimately show ?thesis
    using h by (cases "uri_port uri") (simp_all add: uri_hostport_text_def)
qed

lemma uri_userinfo_parse_text:
  assumes "uri_userinfo_wf uri'" "CHR ''@'' \<notin> set scheme" "CHR ''@'' \<notin> set r"
    "uri_username uri = None" "uri_password uri = None"
  shows "uri_userinfo uri (scheme @ CHR '':'' # uri_userinfo_text uri' @ r) (CHR '':'' # uri_userinfo_text uri' @ r) [] k
    = k ((if uri_username uri' = None then CHR '':'' else CHR ''@'') # r)
        (uri\<lparr>uri_password := uri_password uri', uri_username := uri_username uri'\<rparr>) []"
proof (cases "uri_username uri'")
  case None
  then have "uri_password uri' = None" using assms(1) by (simp add: uri_userinfo_wf_def)
  moreover have "uri\<lparr>uri_password := None, uri_username := None\<rparr> = uri" using assms(4,5) by (cases uri) simp
  ultimately show ?thesis
    using None assms(2,3) by (simp add: uri_userinfo_def uri_userinfo_text_def)
next
  case (Some u)
  let ?u = "escape userinfo_def u"
  have u: "CHR ''@'' \<notin> set ?u" "CHR '':'' \<notin> set ?u" "?u \<noteq> []" "osip_uri_unescape ?u = u"
    using not_plain(3) assms(1) Some unescape_component by (auto simp: uri_userinfo_wf_def)
  have cur: "cur (?u @ t) \<noteq> CHR ''@''" for t using u(1,3) by (cases ?u) auto
  show ?thesis
  proof (cases "uri_password uri'")
    case None
    have "strchr (scheme @ CHR '':'' # ?u @ CHR ''@'' # r) CHR ''@'' = Some (CHR ''@'' # r)"
      using strchr_append [of "CHR ''@''" "scheme @ CHR '':'' # ?u" r] assms(2) u by simp
    moreover have "next_separator (?u @ CHR ''@'' # r) CHR '':'' CHR ''@'' = None"
      using u by (auto simp: next_separator_def strchr_append strchr_append_notin ptr_diff_def
          dest!: strchr_hd split: option.split)
    moreover have "uri\<lparr>uri_password := None\<rparr> = uri"
      using assms(5) by (cases uri) simp
    ultimately show ?thesis
      using Some None u cur by (simp add: uri_userinfo_def uri_userinfo_text_def Let_def ptr_diff_def osip_strncpy_def)
  next
    case p: (Some p)
    let ?p = "escape password_def p"
    have pw: "CHR ''@'' \<notin> set ?p" "?p \<noteq> []" "osip_uri_unescape ?p = p"
      using not_plain(4) assms(1) p unescape_component by (auto simp: uri_userinfo_wf_def)
    have "strchr (scheme @ CHR '':'' # ?u @ CHR '':'' # ?p @ CHR ''@'' # r) CHR ''@'' = Some (CHR ''@'' # r)"
      using strchr_append [of "CHR ''@''" "scheme @ CHR '':'' # ?u @ CHR '':'' # ?p" r] assms(2) u pw by simp
    moreover have "next_separator (?u @ CHR '':'' # ?p @ CHR ''@'' # r) CHR '':'' CHR ''@''
        = Some (CHR '':'' # ?p @ CHR ''@'' # r)"
      using u pw strchr_append [of "CHR ''@''" "?u @ CHR '':'' # ?p" r]
      by (simp add: next_separator_def strchr_append ptr_diff_def)
    ultimately show ?thesis
      using Some p u pw cur
      by (simp add: uri_userinfo_def uri_userinfo_text_def Let_def ptr_diff_def osip_strncpy_def)
  qed
qed

lemma uri_tail_stages:
  assumes "strchr host CHR ''?'' = (if hs = [] then None else Some hs)"
    "strchr host CHR '';'' = (if ps = [] then None else Some (ps @ hs))"
    "hs \<noteq> [] \<Longrightarrow> osip_uri_parse_headers uri hs [] = Some ((0, u1), [])" "hs = [] \<Longrightarrow> u1 = uri"
    "ps \<noteq> [] \<Longrightarrow> osip_uri_parse_params u1 ps [] = Some ((0, u2), [])" "ps = [] \<Longrightarrow> u2 = u1"
  shows "uri_tail uri host [] k = k (ps @ hs) u2 []"
proof -
  have "\<not> int (length ps) + 1 < 2" if "ps \<noteq> []" using that by (cases ps) simp_all
  then show ?thesis
    using assms
    by (cases "hs = []"; cases "ps = []") (simp_all add: uri_tail_def Let_def osip_strncpy_def ptr_diff_def del: strchr_None)
qed

lemma uri_tail_parse_text:
  assumes "list_all uri_param_wf ps" "list_all uri_header_wf hs" "url_params uri = []" "url_headers uri = []"
    "CHR ''?'' \<notin> set a" "CHR '';'' \<notin> set a"
  shows "uri_tail uri (a @ concat (map uri_param_text ps) @ uri_headers_text CHR ''?'' hs) [] k
    = k (concat (map uri_param_text ps) @ uri_headers_text CHR ''?'' hs)
        (uri\<lparr>url_headers := hs, url_params := ps\<rparr>) []"
proof -
  let ?ps = "concat (map uri_param_text ps)" and ?hs = "uri_headers_text CHR ''?'' hs"
  let ?host = "a @ ?ps @ ?hs"
  have chars: "CHR ''?'' \<notin> set ?ps" "CHR '';'' \<notin> set ?hs"
    using params_text_chars [OF assms(1)] headers_text_chars [OF assms(2)] by simp_all
  have nil: "(?ps = []) = (ps = [])" "(?hs = []) = (hs = [])"
  proof -
    show "(?hs = []) = (hs = [])" by (cases hs) simp_all
    show "(?ps = []) = (ps = [])"
      using assms(1) by (cases ps) (auto simp: uri_param_text_def uri_param_wf_def Let_def split: option.splits)
  qed
  have q: "strchr ?host CHR ''?'' = (if hs = [] then None else Some ?hs)"
    using strchr_starts [of "CHR ''?''" "a @ ?ps" ?hs] assms(5) chars uri_headers_text_starts nil by simp
  have s: "strchr ?host CHR '';'' = (if ps = [] then None else Some (?ps @ ?hs))"
  proof (cases "ps = []")
    case True
    then show ?thesis using assms(6) chars by simp
  next
    case False
    then have "starts_with CHR '';'' (?ps @ ?hs)"
      using uri_params_text_starts [OF assms(1), of "[]"] nil by (cases ?ps) (auto simp: starts_with_def)
    then show ?thesis using strchr_starts [of "CHR '';''" a "?ps @ ?hs"] assms(6) nil False by simp
  qed
  have headers: "hs \<noteq> [] \<Longrightarrow> osip_uri_parse_headers uri ?hs [] = Some ((0, uri\<lparr>url_headers := hs\<rparr>), [])"
    using parse_headers_text [of "hd hs" "tl hs" "CHR ''?''" uri] assms(2,4) by (cases hs) simp_all
  have params: "ps \<noteq> [] \<Longrightarrow> osip_uri_parse_params (uri\<lparr>url_headers := hs\<rparr>) ?ps []
      = Some ((0, uri\<lparr>url_headers := hs, url_params := ps\<rparr>), [])"
    using parse_params_text [of "hd ps" "tl ps" "uri\<lparr>url_headers := hs\<rparr>"] assms(1,3) by (cases ps) simp_all
  have same: "hs = [] \<Longrightarrow> uri\<lparr>url_headers := hs\<rparr> = uri"
    "ps = [] \<Longrightarrow> uri\<lparr>url_headers := hs, url_params := ps\<rparr> = uri\<lparr>url_headers := hs\<rparr>"
    using assms(3,4) by (cases uri, simp)+
  show ?thesis
    using uri_tail_stages [OF q [folded nil(2)] s [folded nil(1)], of uri "uri\<lparr>url_headers := hs\<rparr>"
        "uri\<lparr>url_headers := hs, url_params := ps\<rparr>" k] headers params same nil
    by blast
qed

theorem sip_uri_roundtrip:
  assumes "sip_uri_wf uri"
  shows "osip_uri_parse osip_uri_init (Some (uri_text uri)) [] = Some ((OSIP_SUCCESS, uri), [])"
proof -
  obtain s where s: "uri_scheme uri = Some s" "list_all osip_is_alpha s" "3 \<le> length s" "osip_strncasecmp_eq s ''sip'' 3"
    and wf: "uri_userinfo_wf uri" "uri_hostport_wf uri" "list_all uri_param_wf (url_params uri)"
    "list_all uri_header_wf (url_headers uri)" "uri_string uri = None"
    using assms by (auto simp: sip_uri_wf_def split: option.splits)
  have alpha: "c \<notin> set s" if "c \<in> {CHR '':'', CHR ''@'', CHR '' ''}" for c
    using s(2) that by (auto simp: list_all_iff osip_is_alpha_def)
  let ?rest = "concat (map uri_param_text (url_params uri)) @ uri_headers_text CHR ''?'' (url_headers uri)"
  let ?hp = "uri_hostport_text uri"
  let ?sep = "if uri_username uri = None then CHR '':'' else CHR ''@''"
  have shape: "uri_text uri = s @ CHR '':'' # uri_userinfo_text uri @ ?hp @ ?rest"
    using s(1) wf(5) by (simp add: uri_text_def)
  have at: "CHR ''@'' \<notin> set (?hp @ ?rest)"
    using hostport_text_chars [OF wf(2)] params_text_chars [OF wf(3)] headers_text_chars [OF wf(4)] by simp
  have front: "CHR ''?'' \<notin> set (?sep # ?hp)" "CHR '';'' \<notin> set (?sep # ?hp)"
    using hostport_text_chars [OF wf(2)] by simp_all
  have "starts_with CHR '';'' (concat (map uri_param_text (url_params uri)))"
    using uri_params_text_starts [OF wf(3), of "[]"] by (simp add: starts_with_def)
  from cur_starts [OF this uri_headers_text_starts [of "CHR ''?''" "url_headers uri"]]
  have behind: "cur ?rest \<notin> {CHR '':'', CHR '']''}" by auto
  let ?u0 = "osip_uri_init\<lparr>uri_scheme := Some s\<rparr>"
  let ?u1 = "?u0\<lparr>uri_password := uri_password uri, uri_username := uri_username uri\<rparr>"
  let ?u2 = "?u1\<lparr>url_headers := url_headers uri, url_params := url_params uri\<rparr>"
  have info: "uri_userinfo ?u0 (uri_text uri) (CHR '':'' # uri_userinfo_text uri @ ?hp @ ?rest) [] k
      = k (?sep # ?hp @ ?rest) ?u1 []" for k
    unfolding shape using alpha at by (intro uri_userinfo_parse_text [OF wf(1)]) (simp_all add: osip_uri_init_def)
  have tail: "uri_tail ?u1 (?sep # ?hp @ ?rest) [] k = k ?rest ?u2 []" for k
    using uri_tail_parse_text [OF wf(3,4) _ _ front, of ?u1 k] by (simp add: osip_uri_init_def)
  have host: "uri_hostport ?u2 (?sep # ?hp @ ?rest) ?rest []
      = Some ((0, ?u2\<lparr>uri_port := uri_port uri, uri_host := uri_host uri\<rparr>), [])"
    by (rule uri_hostport_text [OF wf(2) _ behind]) (simp_all add: osip_uri_init_def)
  have "?u2\<lparr>uri_port := uri_port uri, uri_host := uri_host uri\<rparr> = uri"
    using s(1) wf(5) by (cases uri) (simp add: osip_uri_init_def)
  moreover have "strchr (uri_text uri) CHR '':'' = Some (CHR '':'' # uri_userinfo_text uri @ ?hp @ ?rest)"
    unfolding shape using alpha by (simp add: strchr_append)
  moreover have "ptr_diff (CHR '':'' # uri_userinfo_text uri @ ?hp @ ?rest) (uri_text uri) = int (length s)"
    unfolding shape by (rule ptr_diff_append)
  moreover have "take (length s) (uri_text uri) = s" unfolding shape by simp
  moreover have "osip_strncpy (int (length s) + 1) (uri_text uri) (int (length s)) = Some s"
    unfolding shape by (simp add: osip_strncpy_def)
  moreover have "uri_text uri \<noteq> []" unfolding shape by simp
  ultimately show ?thesis
    using s(2-4) alpha info tail host unfolding osip_uri_parse_def by (simp add: Let_def)
qed

theorem opaque_uri_roundtrip:
  assumes "opaque_uri_wf uri"
  shows "osip_uri_parse osip_uri_init (Some (uri_text uri)) [] = Some ((OSIP_SUCCESS, uri), [])"
proof -
  obtain s t where s: "uri_scheme uri = Some s" "list_all osip_is_alpha s" "2 \<le> length s"
    "\<not> osip_strncasecmp_eq s ''sip'' 3" "\<not> osip_strncasecmp_eq s ''sips'' 4"
    and t: "uri_string uri = Some t" "2 \<le> length t"
    using assms by (auto simp: opaque_uri_wf_def split: option.splits)
  have "CHR '':'' \<notin> set s" "CHR '' '' \<notin> set s" using s(2) by (auto simp: list_all_iff osip_is_alpha_def)
  moreover have "uri = osip_uri_init\<lparr>uri_scheme := Some s, uri_string := Some t\<rparr>"
    using assms s(1) t(1) by (cases uri) (simp add: opaque_uri_wf_def osip_uri_init_def)
  moreover have "uri_text uri = s @ CHR '':'' # t" using s(1) t(1) by (simp add: uri_text_def)
  ultimately show ?thesis
    using s t unfolding osip_uri_parse_def by (simp add: Let_def strchr_append osip_strncpy_def)
qed

end
