(* ===== verification/Generic_Param.thy ===== *)
theory Generic_Param
  imports Osip_Quotes Uri_Roundtrip Osip_Compare
begin

text \<open>
  Generic header parameters, from \<^verbatim>\<open>osip_from.c\<close>: \<^verbatim>\<open>__osip_generic_param_parseall\<close>, which the
  parsers of From, To, Via, Contact and others share, and the printing of a list of
  parameters in a growing buffer. A value may be a quoted string with semicolons in it.
\<close>

type_synonym params_result = "((int \<times> osip_generic_param list) \<times> mem) option"

section \<open>Parsing\<close>

text \<open>
  Where a parameter ends: at the next semicolon, or, when its value starts with a quote, at
  the next one behind the closing quote; without a closing quote nowhere. The outer option is
  undefined behaviour.
\<close>

definition param_end :: "cstr \<Rightarrow> cstr \<Rightarrow> cstr option" where
  "param_end equal comma =
    (case equal of
       None \<Rightarrow> Some comma
     | Some equal \<Rightarrow> do {
         value \<leftarrow> advance 1 equal;
         let tmp = dropWhile (\<lambda>c. c = CHR '' '') value;
         (case comma of
            None \<Rightarrow> Some None
          | Some c \<Rightarrow>
              if cur tmp = CHR 0x22 \<and> length c < length tmp
              then do {
                inside \<leftarrow> advance 1 tmp;
                endquote \<leftarrow> osip_quote_find inside;
                (case endquote of
                   None \<Rightarrow> Some None
                 | Some i \<Rightarrow> Some (strchr (drop i inside) CHR '';''))
              }
              else Some comma)
       })"

text \<open>One parameter, up to \<open>comma\<close>; an empty one is an error unless \<open>last\<close> allows it.\<close>

definition generic_param_parse ::
  "osip_generic_param list \<Rightarrow> string \<Rightarrow> cstr \<Rightarrow> string \<Rightarrow> mem \<Rightarrow> params_result" where
  "generic_param_parse ps params equal comma m =
    (let add_named = (\<lambda>equal pvalue m.
       if ptr_diff equal params < 2 then Some ((OSIP_SYNTAXERROR, ps), m)
       else alloc_or m (OSIP_NOMEM, ps) (\<lambda>m. do {
         rest \<leftarrow> advance 1 params;
         pname \<leftarrow> osip_strncpy (ptr_diff equal params) rest (ptr_diff equal params - 1);
         ((i, ps), m) \<leftarrow> osip_uri_param_add ps (Some pname) pvalue m;
         Some (if i \<noteq> 0 then (OSIP_NOMEM, ps) else (OSIP_SUCCESS, ps), m)
       }))
     in (case equal of
         None \<Rightarrow> add_named comma None m
       | Some equal \<Rightarrow> do {
           value \<leftarrow> advance 1 equal;
           let tmp = dropWhile (\<lambda>c. c = CHR 0x09 \<or> c = CHR '' '') value;
           if cur tmp \<noteq> CHR '','' \<and> cur tmp \<noteq> NUL
           then
             if ptr_diff comma equal < 2 then Some ((OSIP_SYNTAXERROR, ps), m)
             else alloc_or m (OSIP_NOMEM, ps) (\<lambda>m. do {
               pvalue \<leftarrow> osip_strncpy (ptr_diff comma equal) value (ptr_diff comma equal - 1);
               add_named equal (Some pvalue) m
             })
           else add_named equal None m
         }))"

lemma osip_quote_find_le: "osip_quote_find s = Some (Some i) \<Longrightarrow> i \<le> length s"
  by (auto simp: osip_quote_find_closing closing_quote_def find_Some_iff)

lemma param_end_comma:
  assumes "param_end equal comma = Some (Some c)" "comma \<noteq> None"
  shows "comma = Some c \<or> (\<exists>e i s. equal = Some e \<and> length s \<le> length e \<and> strchr (drop i s) CHR '';'' = Some c)"
proof (cases equal)
  case None
  then show ?thesis using assms by (simp add: param_end_def)
next
  case (Some e)
  obtain d where d: "comma = Some d" using assms(2) by blast
  obtain val where val: "advance 1 e = Some val" using assms(1) Some by (auto simp: param_end_def split: bind_splits)
  let ?tmp = "dropWhile (\<lambda>c. c = CHR '' '') val"
  have le: "length val \<le> length e" using val by (auto simp: advance_def split: if_splits)
  show ?thesis
  proof (cases "cur ?tmp = CHR 0x22 \<and> length d < length ?tmp")
    case True
    then obtain inside where inside: "?tmp = CHR 0x22 # inside" by (auto simp: cur_Cons)
    then have "strchr (drop i inside) CHR '';'' = Some c"
      if "scan_quote False inside = Some i" for i
      using that assms(1) Some d val True by (simp add: param_end_def osip_quote_find_scan)
    moreover have "length inside \<le> length e"
      using le inside length_dropWhile_le [of "\<lambda>c. c = CHR '' ''" val] by simp
    moreover have "scan_quote False inside \<noteq> None"
      using assms(1) Some d val True inside
      by (cases "scan_quote False inside") (auto simp: param_end_def osip_quote_find_scan)
    ultimately show ?thesis using Some by blast
  next
    case False
    then show ?thesis using assms(1) Some d val by (auto simp: param_end_def)
  qed
qed

lemma param_end_shorter:
  assumes "param_end (next_separator rest c d) (strchr rest e) = Some (Some comma)"
  shows "length comma \<le> length rest \<and> comma \<noteq> []"
proof -
  have nonempty: "strchr rest e \<noteq> None"
  proof
    assume none: "strchr rest e = None"
    show False
      using assms unfolding param_end_def none
      by (cases "next_separator rest c d") (auto simp: advance_def Let_def split: if_splits)
  qed
  consider "strchr rest e = Some comma"
    | eq i s where "next_separator rest c d = Some eq" "length s \<le> length eq" "strchr (drop i s) CHR '';'' = Some comma"
    using param_end_comma [OF assms nonempty] by blast
  then show ?thesis
  proof cases
    case 1
    then show ?thesis using strchr_hd by fastforce
  next
    case 2
    obtain r where "eq = c # r" "length r < length rest" using next_separator_hd [OF 2(1)] by blast
    moreover obtain t where "comma = CHR '';'' # t" "length t < length (drop i s)" using strchr_hd [OF 2(3)] by blast
    ultimately show ?thesis using 2(2) by simp
  qed
qed

lemma param_end_defined [defined]:
  assumes "\<And>e. equal = Some e \<Longrightarrow> e \<noteq> []"
  shows "param_end equal comma \<noteq> None"
proof (cases equal)
  case (Some e)
  then obtain d val where e: "e = d # val" using assms by (cases e) auto
  have quote: "osip_quote_find inside \<noteq> None" for inside by (simp add: osip_quote_find_scan)
  have "1 \<le> length (dropWhile f val)" if "cur (dropWhile f val) = CHR 0x22" for f
    using that by (cases "dropWhile f val") auto
  then show ?thesis
    unfolding param_end_def Some e Let_def option.case advance_simps bind.bind_lunit
    by (intro defined quote) auto
qed (simp add: param_end_def)

function osip_generic_param_parseall ::
  "osip_generic_param list \<Rightarrow> string \<Rightarrow> mem \<Rightarrow> params_result" where
  "osip_generic_param_parseall ps params m =
    (case advance 1 params of
       None \<Rightarrow> None
     | Some rest \<Rightarrow>
         (case param_end (next_separator rest CHR ''='' CHR '';'') (strchr rest CHR '';'') of
            None \<Rightarrow> None
          | Some (Some comma) \<Rightarrow> do {
              ((i, ps), m) \<leftarrow> generic_param_parse ps params (next_separator rest CHR ''='' CHR '';'') comma m;
              if i \<noteq> 0 then Some ((i, ps), m) else osip_generic_param_parseall ps comma m
            }
          | Some None \<Rightarrow>
              if next_separator rest CHR ''='' CHR '';'' = None \<and> ptr_diff [] params < 2
              then Some ((OSIP_SUCCESS, ps), m)
              else generic_param_parse ps params (next_separator rest CHR ''='' CHR '';'') [] m))"
  by pat_completeness auto
termination
proof (relation "measure (\<lambda>(ps, params, m). length params)", goal_cases)
  case (2 ps params m rest stop comma)
  then have "length comma \<le> length rest" "length rest < length params"
    using param_end_shorter by (auto simp: advance_def split: if_splits)
  then show ?case by simp
qed simp

declare osip_generic_param_parseall.simps [simp del]

lemma generic_param_parse_defined [defined]:
  assumes "params \<noteq> []" "\<And>e. equal = Some e \<Longrightarrow> e \<noteq> []"
  shows "generic_param_parse ps params equal comma m \<noteq> None"
  using assms unfolding generic_param_parse_def Let_def
  by (intro defined) (auto simp: Suc_le_eq)

theorem osip_generic_param_parseall_defined [defined]:
  "params \<noteq> [] \<Longrightarrow> osip_generic_param_parseall ps params m \<noteq> None"
proof (induction ps params m rule: osip_generic_param_parseall.induct)
  case (1 ps params m)
  obtain c rest where p: "params = c # rest" using 1(2) by (cases params) auto
  let ?equal = "next_separator rest CHR ''='' CHR '';''"
  have equal: "\<And>e. ?equal = Some e \<Longrightarrow> e \<noteq> []" using next_separator_hd by blast
  note simps = osip_generic_param_parseall.simps [of ps "c # rest"]
  obtain r where r: "param_end ?equal (strchr rest CHR '';'') = Some r"
    using param_end_defined [OF equal] by blast
  have parse: "generic_param_parse ps (c # rest) ?equal comma m \<noteq> None" for comma m
    using equal by (intro defined) auto
  show ?case
  proof (cases r)
    case None
    then show ?thesis using r parse unfolding p by (simp add: simps del: not_None_eq)
  next
    case (Some comma)
    have comma: "comma \<noteq> []" using param_end_shorter r Some by blast
    have IH: "osip_generic_param_parseall ps' comma m' \<noteq> None"
      if "generic_param_parse ps params ?equal comma m = Some ((0, ps'), m')" for ps' m'
      using 1(1) [of rest "Some comma" comma _ "(0, ps')" m' 0 ps'] p r Some that comma by simp
    obtain i ps' m' where step: "generic_param_parse ps (c # rest) ?equal comma m = Some ((i, ps'), m')"
      using parse [of comma m] by auto
    show ?thesis
      using r Some IH step unfolding p by (simp add: simps del: not_None_eq)
  qed
qed

section \<open>Reading back a printed list\<close>

text \<open>
  A value that can be read back: a token without a semicolon, or a quoted string. It neither
  begins nor ends with a blank and does not begin with a comma.
\<close>

definition quoted :: "string \<Rightarrow> bool" where
  "quoted v \<longleftrightarrow> 2 \<le> length v \<and> cur v = CHR 0x22 \<and> scan_quote False (tl v) = Some (length v - 2)"

definition generic_param_wf :: "osip_generic_param \<Rightarrow> bool" where
  "generic_param_wf p \<longleftrightarrow>
    (case gname p of None \<Rightarrow> False | Some n \<Rightarrow> n \<noteq> [] \<and> tight n \<and> CHR '';'' \<notin> set n \<and> CHR ''='' \<notin> set n)
    \<and> (case gvalue p of
        None \<Rightarrow> True
      | Some v \<Rightarrow> clean v \<and> cur v \<noteq> CHR '','' \<and> (quoted v \<or> cur v \<noteq> CHR 0x22 \<and> CHR '';'' \<notin> set v))"

lemma next_separator_none:
  assumes "CHR ''='' \<notin> set n" "CHR '';'' \<notin> set n" "starts_with CHR '';'' r"
  shows "next_separator (n @ r) CHR ''='' CHR '';'' = None"
proof (cases r)
  case Nil
  then show ?thesis using assms by (simp add: next_separator_def)
next
  case (Cons d t)
  then have "r = CHR '';'' # t" using assms(3) by (simp add: starts_with_def)
  then show ?thesis
    using assms(1,2) strchr_hd [of t "CHR ''=''"]
    by (auto simp: next_separator_def strchr_append strchr_append_notin ptr_diff_def split: option.split)
qed

lemma next_separator_some:
  assumes "CHR ''='' \<notin> set n" "CHR '';'' \<notin> set n"
  shows "next_separator (n @ CHR ''='' # t) CHR ''='' CHR '';'' = Some (CHR ''='' # t)"
  using assms strchr_hd [of t "CHR '';''"]
  by (fastforce simp: next_separator_def strchr_append strchr_append_notin ptr_diff_def split: option.split)

lemma scan_quote_append: "scan_quote e w = Some i \<Longrightarrow> scan_quote e (w @ r) = Some i"
  by (induction e w arbitrary: i rule: scan_quote.induct) (auto split: if_splits)

lemma scan_quote_at: "scan_quote e w = Some i \<Longrightarrow> i < length w \<and> w ! i = CHR 0x22"
  by (induction e w arbitrary: i rule: scan_quote.induct) (auto split: if_splits)

lemma param_end_quoted:
  assumes "quoted v" "starts_with CHR '';'' r" "CHR '';'' \<notin> set n"
  shows "param_end (Some (CHR ''='' # v @ r)) (strchr (n @ CHR ''='' # v @ r) CHR '';'')
    = Some (if r = [] then None else Some r)"
proof -
  obtain w where v: "v = CHR 0x22 # w" "w \<noteq> []" "scan_quote False w = Some (length w - 1)"
    using assms(1) by (cases v; cases "tl v") (auto simp: quoted_def)
  have comma: "strchr (n @ CHR ''='' # v @ r) CHR '';'' = strchr (w @ r) CHR '';''"
    using assms(3) v by (simp add: strchr_append_notin)
  have "w ! (length w - 1) = CHR 0x22" using scan_quote_at [OF v(3)] by simp
  then have w: "w = butlast w @ [CHR 0x22]" using v(2) by (metis append_butlast_last_id last_conv_nth)
  have "drop (length w - 1) (w @ r) = CHR 0x22 # r"
    by (subst w) simp
  then have behind: "strchr (drop (length w - 1) (w @ r)) CHR '';'' = (if r = [] then None else Some r)"
    using strchr_starts [of "CHR '';''" "[]" r] assms(2) by simp
  show ?thesis
  proof (cases "strchr (w @ r) CHR '';''")
    case None
    then have "r = []" using assms(2) by (cases r) (auto simp: starts_with_def)
    then show ?thesis using None unfolding param_end_def comma by (simp add: v del: strchr_None)
  next
    case (Some d)
    then have "length d < Suc (length (w @ r))" using strchr_shorter [OF Some] by simp
    then show ?thesis
      using Some behind scan_quote_append [OF v(3), of r] unfolding param_end_def comma
      by (simp add: v osip_quote_find_scan Let_def)
  qed
qed

text \<open>The text of a parameter, with blanks behind the semicolon.\<close>

definition spaced_text :: "string \<Rightarrow> osip_generic_param \<Rightarrow> string" where
  "spaced_text b p = CHR '';'' # b @ tl (param_text p)"

lemma spaced_text_Nil: "spaced_text [] p = param_text p"
  by (simp add: spaced_text_def param_text_def)

lemma osip_uri_param_add_spaced:
  assumes "set b \<subseteq> {CHR '' ''}" "tight n" "n \<noteq> []" "\<forall>w. v = Some w \<longrightarrow> tight w"
  shows "osip_uri_param_add ps (Some (b @ n)) v [] = Some ((0, ps @ [\<lparr>gname = Some n, gvalue = v\<rparr>]), [])"
proof -
  have "dropWhile is_blank (b @ n) = dropWhile is_blank n"
    by (rule dropWhile_append2) (use assms(1) in \<open>auto simp: is_blank_def\<close>)
  then have "trim (b @ n) = n" using trim_tight [OF assms(2)] by (simp add: trim_def)
  then show ?thesis
    using assms(4) by (cases v) (simp_all add: osip_uri_param_add_def osip_uri_param_set_def osip_clrspace_trim list_add_def)
qed

lemma generic_param_text:
  assumes "generic_param_wf p" "starts_with CHR '';'' r" "set b \<subseteq> {CHR '' ''}"
  obtains rest where
    "spaced_text b p @ r = CHR '';'' # rest"
    "param_end (next_separator rest CHR ''='' CHR '';'') (strchr rest CHR '';'') = Some (if r = [] then None else Some r)"
    "generic_param_parse ps (CHR '';'' # rest) (next_separator rest CHR ''='' CHR '';'') r []
      = Some ((0, ps @ [p]), [])"
    "2 \<le> length (CHR '';'' # rest)"
proof -
  obtain n where n: "gname p = Some n" "n \<noteq> []" "tight n" "CHR '';'' \<notin> set n" "CHR ''='' \<notin> set n"
    using assms(1) by (auto simp: generic_param_wf_def split: option.splits)
  define k where "k = b @ n"
  have k: "k \<noteq> []" "CHR '';'' \<notin> set k" "CHR ''='' \<notin> set k" using n(2,4,5) assms(3) by (auto simp: k_def)
  then have len: "\<not> 1 + int (length k) < 2" by (cases k) simp_all
  have add: "osip_uri_param_add ps (Some k) v [] = Some ((0, ps @ [\<lparr>gname = Some n, gvalue = v\<rparr>]), [])"
    if "\<forall>w. v = Some w \<longrightarrow> tight w" for v
    unfolding k_def by (rule osip_uri_param_add_spaced [OF assms(3) n(3,2) that])
  have shape: "spaced_text b p = CHR '';'' # k @ (case gvalue p of None \<Rightarrow> [] | Some v \<Rightarrow> CHR ''='' # v)"
    using n(1) by (simp add: spaced_text_def param_text_def k_def split: option.split)
  show thesis
  proof (cases "gvalue p")
    case None
    have p: "p = \<lparr>gname = Some n, gvalue = None\<rparr>" using n None by (cases p) simp
    show thesis
      using k len shape None next_separator_none [OF k(3,2) assms(2)] strchr_starts [OF k(2) assms(2)] add [of None]
      by (intro that [of "k @ r"])
        (auto simp: param_end_def generic_param_parse_def osip_strncpy_def p Suc_le_eq)
  next
    case (Some v)
    have p: "p = \<lparr>gname = Some n, gvalue = Some v\<rparr>" using n Some by (cases p) simp
    have v: "v \<noteq> []" "tight v" "cur v \<noteq> CHR '',''" "cur v \<noteq> NUL"
      "quoted v \<or> cur v \<noteq> CHR 0x22 \<and> CHR '';'' \<notin> set v"
      using assms(1) Some by (cases v; auto simp: generic_param_wf_def clean_def)+
    have first: "dropWhile (\<lambda>c. c = CHR 0x09 \<or> c = CHR '' '') (v @ r) = v @ r" "dropWhile (\<lambda>c. c = CHR '' '') (v @ r) = v @ r"
      "cur (v @ r) = cur v"
      using v(1,2) by (cases v; auto simp: tight_def is_blank_def)+
    note sep = next_separator_some [OF k(3,2), of "v @ r"]
    have parse: "generic_param_parse ps (CHR '';'' # k @ CHR ''='' # v @ r) (Some (CHR ''='' # v @ r)) r []
        = Some ((0, ps @ [p]), [])"
      using n len v first add [of "Some v"]
      by (simp add: generic_param_parse_def osip_strncpy_def p ptr_diff_def Let_def Suc_le_eq)
    have "param_end (Some (CHR ''='' # v @ r)) (strchr (k @ CHR ''='' # v @ r) CHR '';'')
        = Some (if r = [] then None else Some r)"
    proof (cases "quoted v")
      case True
      then show ?thesis by (rule param_end_quoted [OF _ assms(2) k(2)])
    next
      case False
      then have "strchr (k @ CHR ''='' # v @ r) CHR '';'' = (if r = [] then None else Some r)"
        using v(5) k(2) strchr_starts [OF _ assms(2), of "k @ CHR ''='' # v"] by simp
      then show ?thesis using False v(5) first by (simp add: param_end_def Let_def)
    qed
    then show thesis
      using k sep parse Some shape
      by (intro that [of "k @ CHR ''='' # v @ r"]) (simp_all add: Suc_le_eq)
  qed
qed

lemma spaced_texts_start: "starts_with CHR '';'' (concat (map (spaced_text b) ps))"
  by (induction ps) (auto simp: starts_with_def spaced_text_def)

lemma generic_params_text_starts: "starts_with CHR '';'' (concat (map param_text ps))"
  using spaced_texts_start [of "[]" ps] by (simp only: spaced_text_Nil [abs_def])

lemma generic_params_step:
  assumes "param_end (next_separator rest CHR ''='' CHR '';'') (strchr rest CHR '';'') = Some (Some r)"
    "generic_param_parse ps (CHR '';'' # rest) (next_separator rest CHR ''='' CHR '';'') r [] = Some ((0, qs), [])"
  shows "osip_generic_param_parseall ps (CHR '';'' # rest) [] = osip_generic_param_parseall qs r []"
  using assms by (simp add: osip_generic_param_parseall.simps [of ps "CHR '';'' # rest"])

text \<open>A list of well formed parameters is read back as it was printed.\<close>

theorem spaced_params_roundtrip:
  assumes "list_all generic_param_wf (p # ps)" "set b \<subseteq> {CHR '' ''}"
  shows "osip_generic_param_parseall qs (concat (map (spaced_text b) (p # ps))) [] = Some ((0, qs @ p # ps), [])"
  using assms(1)
proof (induction ps arbitrary: p qs)
  case Nil
  then have p: "generic_param_wf p" by simp
  obtain rest where rest: "spaced_text b p @ [] = CHR '';'' # rest"
    "param_end (next_separator rest CHR ''='' CHR '';'') (strchr rest CHR '';'') = Some None"
    "generic_param_parse qs (CHR '';'' # rest) (next_separator rest CHR ''='' CHR '';'') [] [] = Some ((0, qs @ [p]), [])"
    "2 \<le> length (CHR '';'' # rest)"
    by (rule generic_param_text [OF p, of "[]" b qs]) (simp_all add: starts_with_def assms(2))
  then have "rest \<noteq> []" by auto
  then show ?case
    using rest by (simp add: osip_generic_param_parseall.simps [of qs "CHR '';'' # rest"] ptr_diff_def Suc_le_eq)
next
  case (Cons q ps)
  let ?r = "concat (map (spaced_text b) (q # ps))"
  have p: "generic_param_wf p" and wf: "list_all generic_param_wf (q # ps)" using Cons.prems by simp_all
  have r: "?r \<noteq> []" by (simp add: spaced_text_def)
  obtain rest where rest: "spaced_text b p @ ?r = CHR '';'' # rest"
    "param_end (next_separator rest CHR ''='' CHR '';'') (strchr rest CHR '';'') = Some (if ?r = [] then None else Some ?r)"
    "generic_param_parse qs (CHR '';'' # rest) (next_separator rest CHR ''='' CHR '';'') ?r [] = Some ((0, qs @ [p]), [])"
    by (rule generic_param_text [OF p spaced_texts_start assms(2)])
  then have "osip_generic_param_parseall qs (CHR '';'' # rest) [] = osip_generic_param_parseall (qs @ [p]) ?r []"
    using r by (intro generic_params_step) (simp_all only: if_False)
  then show ?case using Cons.IH [OF wf, of "qs @ [p]"] rest(1) by simp
qed

theorem generic_params_roundtrip:
  assumes "list_all generic_param_wf (p # ps)"
  shows "osip_generic_param_parseall qs (concat (map param_text (p # ps))) [] = Some ((0, qs @ p # ps), [])"
  using spaced_params_roundtrip [OF assms, of "[]"] by (simp add: spaced_text_Nil [abs_def])

text \<open>
  An empty value is accepted at the end of the list only: the check for one looks for a comma
  instead of a semicolon.
\<close>

lemma empty_value_at_the_end:
  "osip_generic_param_parseall [] '';b=1;a='' []
    = Some ((OSIP_SUCCESS, [\<lparr>gname = Some ''b'', gvalue = Some ''1''\<rparr>, \<lparr>gname = Some ''a'', gvalue = None\<rparr>]), [])"
  by code_simp

lemma empty_value_in_the_middle:
  "osip_generic_param_parseall [] '';a=;b=1'' [] = Some ((OSIP_SYNTAXERROR, []), [])"
  by code_simp

end
