(* ===== verification/Via_Parse.thy ===== *)
theory Via_Parse
  imports Generic_Param
begin

text \<open>
  The parsers of Via, Call-ID and CSeq headers and the printer of CSeq, from \<^verbatim>\<open>osip_via.c\<close>,
  \<^verbatim>\<open>osip_call_id.c\<close> and \<^verbatim>\<open>osip_cseq.c\<close>; the printers of the other two are in
  \<open>Osip_Compare\<close>. A parser answers the code and the header as far as it is filled.
\<close>

section \<open>Call-ID\<close>

definition osip_call_id_parse ::
  "osip_call_id \<Rightarrow> string \<Rightarrow> mem \<Rightarrow> ((int \<times> osip_call_id) \<times> mem) option" where
  "osip_call_id_parse callid hvalue m =
    (let callid = callid\<lparr>callid_number := None, callid_host := None\<rparr>;
         set_number = (\<lambda>callid host m.
           if ptr_diff host hvalue + 1 < 2 then Some ((OSIP_SYNTAXERROR, callid), m)
           else alloc_or m (OSIP_NOMEM, callid) (\<lambda>m. do {
             n \<leftarrow> osip_clrncpy (ptr_diff host hvalue + 1) (Some hvalue) (ptr_diff host hvalue);
             Some ((OSIP_SUCCESS, callid\<lparr>callid_number := Some n\<rparr>), m)
           }))
     in (case strchr hvalue CHR ''@'' of
         None \<Rightarrow> set_number callid [] m
       | Some host \<Rightarrow>
           if ptr_diff [] host + 1 < 2 then Some ((OSIP_SYNTAXERROR, callid), m)
           else alloc_or m (OSIP_NOMEM, callid) (\<lambda>m. do {
             rest \<leftarrow> advance 1 host;
             h \<leftarrow> osip_clrncpy (ptr_diff [] host) (Some rest) (ptr_diff [] host - 1);
             set_number (callid\<lparr>callid_host := Some h\<rparr>) host m
           })))"

section \<open>CSeq\<close>

text \<open>The length for the method counts the NUL, so blanks at its end are kept.\<close>

definition osip_cseq_parse ::
  "osip_cseq option \<Rightarrow> cstr \<Rightarrow> mem \<Rightarrow> ((int \<times> osip_cseq option) \<times> mem) option" where
  "osip_cseq_parse cseq hvalue m =
    (case (cseq, hvalue) of
       (Some cseq, Some hvalue) \<Rightarrow>
         let cseq = cseq\<lparr>cseq_number := None, cseq_method := None\<rparr> in
         (case strchr hvalue CHR '' '' of
            None \<Rightarrow> Some ((OSIP_SYNTAXERROR, Some cseq), m)
          | Some method \<Rightarrow>
              if ptr_diff method hvalue + 1 < 2 then Some ((OSIP_SYNTAXERROR, Some cseq), m)
              else alloc_or m (OSIP_NOMEM, Some cseq) (\<lambda>m. do {
                n \<leftarrow> osip_clrncpy (ptr_diff method hvalue + 1) (Some hvalue) (ptr_diff method hvalue);
                let cseq = cseq\<lparr>cseq_number := Some n\<rparr>;
                if ptr_diff [] method + 1 < 2 then Some ((OSIP_SYNTAXERROR, Some cseq), m)
                else alloc_or m (OSIP_NOMEM, Some cseq) (\<lambda>m. do {
                  rest \<leftarrow> advance 1 method;
                  mt \<leftarrow> osip_clrncpy (ptr_diff [] method + 1) (Some rest) (ptr_diff [] method);
                  Some ((OSIP_SUCCESS, Some (cseq\<lparr>cseq_method := Some mt\<rparr>)), m)
                })
              }))
     | _ \<Rightarrow> Some ((OSIP_BADPARAMETER, cseq), m))"

definition osip_cseq_to_str :: "osip_cseq option \<Rightarrow> mem \<Rightarrow> ((int \<times> cstr) \<times> mem) option" where
  "osip_cseq_to_str cseq m =
    (case cseq of
       None \<Rightarrow> Some ((OSIP_BADPARAMETER, None), m)
     | Some c \<Rightarrow>
         (case (cseq_number c, cseq_method c) of
            (Some number, Some method) \<Rightarrow>
              let len = length method + length number + 2 in
              alloc_or m (OSIP_NOMEM, None) (\<lambda>m.
                Some ((OSIP_SUCCESS, Some (snprintf_at len [] (number @ '' '' @ method))), m))
          | _ \<Rightarrow> Some ((OSIP_BADPARAMETER, None), m)))"

section \<open>Via\<close>

type_synonym via_result = "((int \<times> osip_via) \<times> mem) option"

text \<open>
  Extra blanks in front of the protocol. \<open>None\<close> is the syntax error; the loop looks for a
  string of length one, so it also leaves a string that ends in one blank at its NUL.
\<close>

fun skip_spaces :: "string \<Rightarrow> cstr" where
  "skip_spaces [] = Some []"
| "skip_spaces (c # host) =
    (if c \<noteq> CHR '' '' then Some (c # host) else if length host = 1 then None else skip_spaces host)"

text \<open>
  \<open>host\<close> points to the blank in front of the host, \<open>params\<close> to the parameters or what stands
  there instead.
\<close>

definition via_parse_host :: "osip_via \<Rightarrow> string \<Rightarrow> string \<Rightarrow> mem \<Rightarrow> via_result" where
  "via_parse_host via host params m =
    (let with_port = (\<lambda>via port ipv6 m.
       let set_host = (\<lambda>via port m.
         if ipv6 then Some ((OSIP_SUCCESS, via), m)
         else if ptr_diff port host < 2 then Some ((OSIP_SYNTAXERROR, via), m)
         else alloc_or m (OSIP_NOMEM, via) (\<lambda>m. do {
           rest \<leftarrow> advance 1 host;
           h \<leftarrow> osip_clrncpy (ptr_diff port host) (Some rest) (ptr_diff port host - 1);
           Some ((OSIP_SUCCESS, via\<lparr>via_host := Some h\<rparr>), m)
         }))
       in (case port of
           None \<Rightarrow> set_host via params m
         | Some port \<Rightarrow>
             if 0 < ptr_diff params port
             then
               if ptr_diff params port < 2 then Some ((OSIP_SYNTAXERROR, via), m)
               else alloc_or m (OSIP_NOMEM, via) (\<lambda>m. do {
                 rest \<leftarrow> advance 1 port;
                 p \<leftarrow> osip_clrncpy (ptr_diff params port) (Some rest) (ptr_diff params port - 1);
                 let via = via\<lparr>via_port := Some p\<rparr>;
                 if osip_atoi p < 0 then Some ((OSIP_SYNTAXERROR, via), m) else set_host via port m
               })
             else set_host via params m))
     in (case strchr host CHR ''['' of
         None \<Rightarrow> with_port via (strchr host CHR '':'') False m
       | Some ipv6host \<Rightarrow>
           if 0 < ptr_diff params ipv6host
           then (case strchr ipv6host CHR '']'' of
               None \<Rightarrow> Some ((OSIP_SYNTAXERROR, via), m)
             | Some port \<Rightarrow>
                 if ptr_diff port params > 0 then Some ((OSIP_SYNTAXERROR, via), m)
                 else if ptr_diff port ipv6host < 2 then Some ((OSIP_SYNTAXERROR, via), m)
                 else alloc_or m (OSIP_NOMEM, via) (\<lambda>m. do {
                   rest \<leftarrow> advance 1 ipv6host;
                   h \<leftarrow> osip_clrncpy (ptr_diff port ipv6host) (Some rest) (ptr_diff port ipv6host - 1);
                   with_port (via\<lparr>via_host := Some h\<rparr>) (strchr port CHR '':'') True m
                 }))
           else with_port via (strchr host CHR '':'') False m))"

definition via_parse_params :: "osip_via \<Rightarrow> string \<Rightarrow> string \<Rightarrow> mem \<Rightarrow> via_result" where
  "via_parse_params via host comment m =
    (case strchr host CHR '';'' of
       None \<Rightarrow> via_parse_host via host comment m
     | Some params \<Rightarrow>
         if 0 < ptr_diff comment params
         then
           if ptr_diff comment params + 1 < 2 then Some ((OSIP_SYNTAXERROR, via), m)
           else alloc_or m (OSIP_NOMEM, via) (\<lambda>m. do {
             tmp \<leftarrow> osip_strncpy (ptr_diff comment params + 1) params (ptr_diff comment params);
             ((i, ps), m) \<leftarrow> osip_generic_param_parseall (via_params via) tmp m;
             let via = via\<lparr>via_params := ps\<rparr>;
             if i \<noteq> 0 then Some ((i, via), m) else via_parse_host via host params m
           })
         else via_parse_host via host params m)"

text \<open>A comment ends the parameters; the pointer to it is moved one character back.\<close>

definition via_parse_comment :: "osip_via \<Rightarrow> string \<Rightarrow> mem \<Rightarrow> via_result" where
  "via_parse_comment via host m =
    (case strchr host CHR ''('' of
       None \<Rightarrow> via_parse_params via host [] m
     | Some comment \<Rightarrow>
         (case strchr host CHR '')'' of
            None \<Rightarrow> Some ((OSIP_SYNTAXERROR, via), m)
          | Some end_comment \<Rightarrow>
              if ptr_diff end_comment comment < 2 then Some ((OSIP_SYNTAXERROR, via), m)
              else alloc_or m (OSIP_NOMEM, via) (\<lambda>m. do {
                rest \<leftarrow> advance 1 comment;
                c \<leftarrow> osip_strncpy (ptr_diff end_comment comment) rest (ptr_diff end_comment comment - 1);
                ub_unless (0 < ptr_diff comment host);
                via_parse_params (via\<lparr>via_comment := Some c\<rparr>) host
                  (drop (nat (ptr_diff comment host - 1)) host) m
              })))"

definition osip_via_parse :: "osip_via \<Rightarrow> cstr \<Rightarrow> mem \<Rightarrow> via_result" where
  "osip_via_parse via hvalue m =
    (case hvalue of
       None \<Rightarrow> Some ((OSIP_BADPARAMETER, via), m)
     | Some hvalue \<Rightarrow>
         (case strchr hvalue CHR ''/'' of
            None \<Rightarrow> Some ((OSIP_SYNTAXERROR, via), m)
          | Some version \<Rightarrow> do {
              rest \<leftarrow> advance 1 version;
              (case strchr rest CHR ''/'' of
                 None \<Rightarrow> Some ((OSIP_SYNTAXERROR, via), m)
               | Some protocol \<Rightarrow>
                   if ptr_diff protocol version < 2 then Some ((OSIP_SYNTAXERROR, via), m)
                   else alloc_or m (OSIP_NOMEM, via) (\<lambda>m. do {
                     v \<leftarrow> osip_clrncpy (ptr_diff protocol version) (Some rest) (ptr_diff protocol version - 1);
                     let via = via\<lparr>via_version := Some v\<rparr>;
                     rest \<leftarrow> advance 1 protocol;
                     let set_protocol = (\<lambda>host.
                       if ptr_diff host protocol < 2 then Some ((OSIP_SYNTAXERROR, via), m)
                       else alloc_or m (OSIP_NOMEM, via) (\<lambda>m. do {
                         p \<leftarrow> osip_clrncpy (ptr_diff host protocol) (Some rest) (ptr_diff host protocol - 1);
                         via_parse_comment (via\<lparr>via_protocol := Some p\<rparr>) host m
                       }));
                     (case strchr rest CHR '' '' of
                        None \<Rightarrow> Some ((OSIP_SYNTAXERROR, via), m)
                      | Some host \<Rightarrow>
                          if host = rest
                          then (case skip_spaces host of
                              None \<Rightarrow> Some ((OSIP_SYNTAXERROR, via), m)
                            | Some host \<Rightarrow> do {
                                rest \<leftarrow> advance 1 host;
                                (case strchr rest CHR '' '' of
                                   None \<Rightarrow> Some ((OSIP_SYNTAXERROR, via), m)
                                 | Some host \<Rightarrow> set_protocol host)
                              })
                          else set_protocol host)
                   }))
            }))"

section \<open>No undefined behaviour\<close>

lemma osip_clrncpy_nul_defined:
  "len = int (length s) + 1 \<Longrightarrow> int (length s) + 1 < n \<Longrightarrow> osip_clrncpy n (Some s) len \<noteq> None"
  using osip_clrncpy_nul [of s n len] by simp

theorem osip_call_id_parse_defined [defined]: "osip_call_id_parse callid hvalue m \<noteq> None"
  unfolding osip_call_id_parse_def Let_def
  by (intro defined) (auto simp: ptr_diff_def Suc_le_eq dest!: strchr_hd)

theorem osip_cseq_parse_defined [defined]: "osip_cseq_parse cseq hvalue m \<noteq> None"
  unfolding osip_cseq_parse_def Let_def
  by (intro defined osip_clrncpy_nul_defined)
    (auto simp: ptr_diff_def Suc_le_eq split: option.split dest!: strchr_hd)

lemma skip_spaces_nonempty:
  "skip_spaces s = Some t \<Longrightarrow> s \<noteq> [] \<Longrightarrow> last s \<noteq> CHR '' '' \<Longrightarrow> t \<noteq> []"
  by (induction s rule: skip_spaces.induct) (auto split: if_splits)

lemma advance_strchr [defined]: "strchr s c = Some t \<Longrightarrow> advance 1 t \<noteq> None"
  using strchr_hd [of s c t] by auto

lemma clrncpy_between [defined]:
  assumes "advance 1 a = Some rest" "\<not> ptr_diff b a < 2"
  shows "osip_clrncpy (ptr_diff b a) (Some rest) (ptr_diff b a - 1) \<noteq> None"
  using assms by (intro osip_clrncpy_defined) (auto simp: ptr_diff_def advance_def split: if_splits)

lemma advance_one: "p \<noteq> [] \<Longrightarrow> advance 1 p \<noteq> None"
  by (cases p) simp_all

lemma via_parse_host_defined [defined]:
  "host \<noteq> [] \<Longrightarrow> via_parse_host via host params m \<noteq> None"
  unfolding via_parse_host_def Let_def
  by (intro case_option_defined if_defined Some_defined alloc_or_defined bind_defined
      clrncpy_between advance_one; (assumption | auto dest: strchr_hd))

lemma via_parse_params_defined [defined]:
  "host \<noteq> [] \<Longrightarrow> via_parse_params via host comment m \<noteq> None"
  unfolding via_parse_params_def Let_def
  by (intro defined; auto simp: osip_strncpy_def split: if_splits dest!: strchr_hd)

lemma via_parse_comment_defined [defined]:
  assumes "host \<noteq> []" "hd host \<noteq> CHR ''(''"
  shows "via_parse_comment via host m \<noteq> None"
proof -
  have "0 < ptr_diff comment host" if "strchr host CHR ''('' = Some comment" for comment
    using that assms strchr_hd [of "tl host" "CHR ''(''" comment] by (cases host) (auto simp: ptr_diff_def)
  then show ?thesis
    using assms(1) unfolding via_parse_comment_def Let_def
    by (intro defined; auto simp: Suc_le_eq dest!: strchr_hd)
qed

text \<open>
  The parser reads past the end of \<open>SIP/2.0/ \<close>: the blank behind the last slash is taken for
  one of several in front of the protocol, and the search goes on behind the NUL.
\<close>

lemma osip_via_parse_reads_past_the_end: "osip_via_parse osip_via_init (Some ''SIP/2.0/ '') [] = None"
  by code_simp

theorem osip_via_parse_defined:
  assumes "\<And>s. hvalue = Some s \<Longrightarrow> s \<noteq> [] \<Longrightarrow> last s \<noteq> CHR '' ''"
  shows "osip_via_parse via hvalue m \<noteq> None"
proof (cases hvalue)
  case (Some s)
  have last: "last t \<noteq> CHR '' ''" if "strchr s c = Some p" "strchr (tl p) d = Some q" "strchr (tl q) e = Some t" for c p d q e t
  proof -
    note chr = that
    obtain a r where r: "s = a @ c # r" "p = c # r" using strchr_SomeD [OF chr(1)] by blast
    obtain a' r' where r': "r = a' @ d # r'" "q = d # r'" using strchr_SomeD [OF chr(2)] r by auto
    obtain a'' r'' where "r' = a'' @ e # r''" "t = e # r''" using strchr_SomeD [OF chr(3)] r' by auto
    then show ?thesis using assms [OF Some] r r' by auto
  qed
  have skip: "h \<noteq> []" if "strchr s c = Some p" "strchr (tl p) d = Some q" "strchr (tl q) e = Some t" "skip_spaces t = Some h"
    for c p d q e t h
    using skip_spaces_nonempty [OF that(4)] last [OF that(1-3)] strchr_hd [OF that(3)] by auto
  have tl: "advance 1 p = Some r \<Longrightarrow> tl p = r" for p r by (cases p) auto
  show ?thesis
    unfolding osip_via_parse_def Some option.case Let_def
    by (intro case_option_defined if_defined Some_defined alloc_or_defined bind_defined clrncpy_between
        via_parse_comment_defined advance_one;
        (assumption | auto dest!: strchr_hd; fail | use skip tl in metis))
qed (simp add: osip_via_parse_def)

section \<open>Round trips\<close>

definition callid_wf :: "osip_call_id \<Rightarrow> bool" where
  "callid_wf c \<longleftrightarrow>
    (case callid_number c of None \<Rightarrow> False | Some n \<Rightarrow> n \<noteq> [] \<and> tight n \<and> CHR ''@'' \<notin> set n)
    \<and> (case callid_host c of None \<Rightarrow> True | Some h \<Rightarrow> tight h)"

theorem callid_roundtrip:
  assumes "callid_wf c"
  shows "osip_call_id_parse d (callid_text c) [] = Some ((OSIP_SUCCESS, c), [])"
proof -
  obtain n where n: "callid_number c = Some n" "n \<noteq> []" "tight n" "CHR ''@'' \<notin> set n"
    using assms by (auto simp: callid_wf_def split: option.splits)
  have len: "\<not> int (length n) + 1 < 2" using n(2) by (cases n) simp_all
  note number = osip_clrncpy_whole [OF n(3), of "int (length n) + 1"]
  show ?thesis
  proof (cases "callid_host c")
    case None
    have "d\<lparr>callid_number := Some n, callid_host := None\<rparr> = c" using n None by (cases c) simp
    then show ?thesis
      using n len number [of "[]"] None by (simp add: osip_call_id_parse_def callid_text_def ptr_diff_def)
  next
    case (Some h)
    have "tight h" using assms Some by (simp add: callid_wf_def)
    then have "osip_clrncpy (1 + int (length h)) (Some h) (int (length h)) = Some h"
      using osip_clrncpy_whole [of h "1 + int (length h)" "[]"] by simp
    moreover have "d\<lparr>callid_number := Some n, callid_host := Some h\<rparr> = c" using n Some by (cases c) simp
    ultimately show ?thesis
      using n len number [of "CHR ''@'' # h"] Some
      by (simp add: osip_call_id_parse_def callid_text_def ptr_diff_def strchr_append)
  qed
qed

definition cseq_wf :: "osip_cseq \<Rightarrow> bool" where
  "cseq_wf c \<longleftrightarrow>
    (case cseq_number c of None \<Rightarrow> False | Some n \<Rightarrow> n \<noteq> [] \<and> tight n \<and> CHR '' '' \<notin> set n)
    \<and> (case cseq_method c of None \<Rightarrow> False | Some m \<Rightarrow> tight m)"

theorem cseq_roundtrip:
  assumes "cseq_wf c"
  shows "\<exists>t. osip_cseq_to_str (Some c) [] = Some ((OSIP_SUCCESS, Some t), [])
    \<and> osip_cseq_parse (Some d) (Some t) [] = Some ((OSIP_SUCCESS, Some c), [])"
proof -
  obtain n mt where n: "cseq_number c = Some n" "n \<noteq> []" "tight n" "CHR '' '' \<notin> set n"
    and mt: "cseq_method c = Some mt" "tight mt"
    using assms by (auto simp: cseq_wf_def split: option.splits)
  let ?t = "n @ '' '' @ mt"
  have "osip_cseq_to_str (Some c) [] = Some ((0, Some ?t), [])"
    using n mt by (simp add: osip_cseq_to_str_def snprintf_at_def Let_def)
  moreover have "osip_cseq_parse (Some d) (Some ?t) [] = Some ((0, Some c), [])"
  proof -
    have "\<not> int (length n) + 1 < 2" using n(2) by (cases n) simp_all
    moreover have "osip_clrncpy (2 + int (length mt)) (Some mt) (1 + int (length mt)) = Some mt"
    proof -
      have "dropWhile is_blank mt = mt" using mt(2) by (cases mt) (simp_all add: tight_def)
      then show ?thesis by (simp add: osip_clrncpy_nul)
    qed
    moreover have "d\<lparr>cseq_number := Some n, cseq_method := Some mt\<rparr> = c" using n mt by (cases c) simp
    ultimately show ?thesis
      using n osip_clrncpy_whole [OF n(3), of "int (length n) + 1" "'' '' @ mt"]
      by (simp add: osip_cseq_parse_def ptr_diff_def strchr_append)
  qed
  ultimately show ?thesis by blast
qed

text \<open>A trailing blank stays in the method.\<close>

lemma cseq_keeps_trailing_blank:
  "osip_cseq_parse (Some osip_cseq_init) (Some ''1 INVITE '') []
    = Some ((OSIP_SUCCESS, Some \<lparr>cseq_method = Some ''INVITE '', cseq_number = Some ''1''\<rparr>), [])"
  by code_simp

text \<open>
  A Via header that can be printed and read back. The version and the protocol have no slash
  and blank, the host none of the characters that end it; a comment has no closing parenthesis
  and no semicolon, and the parameters no parenthesis.
\<close>

definition via_wf :: "osip_via \<Rightarrow> bool" where
  "via_wf v \<longleftrightarrow>
    (case via_version v of None \<Rightarrow> False | Some s \<Rightarrow> s \<noteq> [] \<and> tight s \<and> CHR ''/'' \<notin> set s)
    \<and> (case via_protocol v of None \<Rightarrow> False | Some s \<Rightarrow> s \<noteq> [] \<and> tight s \<and> CHR '' '' \<notin> set s)
    \<and> (case via_host v of
        None \<Rightarrow> False
      | Some h \<Rightarrow> h \<noteq> [] \<and> tight h \<and> set h \<inter> {CHR '';'', CHR ''('', CHR '')'', CHR ''['', CHR '']''} = {})
    \<and> (case via_port v of None \<Rightarrow> True | Some p \<Rightarrow> list_all is_c_digit p \<and> p \<noteq> [])
    \<and> list_all generic_param_wf (via_params v)
    \<and> set (concat (map param_text (via_params v))) \<inter> {CHR ''('', CHR '')''} = {}
    \<and> (case via_comment v of None \<Rightarrow> True | Some c \<Rightarrow> c \<noteq> [] \<and> CHR '')'' \<notin> set c \<and> CHR '';'' \<notin> set c)"

lemma digits_value_nonneg: "list_all is_c_digit p \<Longrightarrow> 0 \<le> digits_value p"
proof -
  assume p: "list_all is_c_digit p"
  have "0 \<le> n \<Longrightarrow> 0 \<le> foldl (\<lambda>n d. 10 * n + (of_char d - 48)) n p" for n :: int
    using p
  proof (induction p arbitrary: n)
    case (Cons d p)
    have "(48 :: nat) \<le> of_char d" using Cons.prems(2) by (simp add: is_c_digit_def)
    then have "(48 :: int) \<le> of_char d" by (metis of_nat_le_iff of_nat_numeral of_nat_of_char)
    then show ?case using Cons by simp
  qed simp
  then show ?thesis by (simp add: digits_value_def)
qed

lemma osip_atoi_digits: "list_all is_c_digit p \<Longrightarrow> 0 \<le> osip_atoi p"
proof -
  assume p: "list_all is_c_digit p"
  have "\<not> is_c_space c \<and> c \<noteq> CHR ''-'' \<and> c \<noteq> CHR ''+''" if "is_c_digit c" for c
    using that by (auto simp: is_c_digit_def is_c_space_def)
  moreover have "takeWhile is_c_digit p = p" using p by (simp add: list_all_iff)
  ultimately show ?thesis
    using p digits_value_nonneg [OF p]
    by (cases p) (auto simp: osip_atoi_def simp del: takeWhile.simps takeWhile_eq_all_conv)
qed

lemma strchr_late: "strchr r c = Some t \<Longrightarrow> \<not> 0 < ptr_diff r t"
  using strchr_shorter [of r c t] by (simp add: ptr_diff_def)

definition port_text :: "cstr \<Rightarrow> string" where
  "port_text port = (case port of None \<Rightarrow> [] | Some p \<Rightarrow> '':'' @ p)"

lemma via_parse_host_text:
  assumes "h \<noteq> []" "tight h" "set h \<inter> {CHR ''['', CHR '']''} = {}"
    "\<And>p. port = Some p \<Longrightarrow> list_all is_c_digit p \<and> p \<noteq> []" "via_port via = None"
  shows "via_parse_host via (CHR '' '' # host_text h @ port_text port @ r) r []
    = Some ((0, via\<lparr>via_host := Some h, via_port := port\<rparr>), [])"
proof -
  have late: "strchr r c = Some t \<Longrightarrow> \<not> length r < length t" for c t
    using strchr_shorter [of r c t] by simp
  have len: "\<not> 1 + int (length h) < 2" using assms(1) by (cases h) simp_all
  have same: "via\<lparr>via_host := Some h, via_port := None\<rparr> = via\<lparr>via_host := Some h\<rparr>"
    using assms(5) by (cases via) simp
  have port: "tight p" "\<not> 1 + int (length p) < 2" "\<not> osip_atoi p < 0"
      "CHR ''['' \<notin> set p" "osip_clrncpy (1 + int (length p)) (Some (p @ r)) (int (length p)) = Some p"
    if "port = Some p" for p
  proof -
    note p = assms(4) [OF that]
    show "tight p" using p digits_tight by blast
    then show "osip_clrncpy (1 + int (length p)) (Some (p @ r)) (int (length p)) = Some p"
      by (intro osip_clrncpy_whole) simp_all
    show "\<not> 1 + int (length p) < 2" using p by (cases p) simp_all
    show "\<not> osip_atoi p < 0" using p osip_atoi_digits by (simp add: not_less)
    show "CHR ''['' \<notin> set p" using p by (auto simp: list_all_iff is_c_digit_def)
  qed
  show ?thesis
  proof (cases "CHR '':'' \<in> set h")
    case True
    have host: "osip_clrncpy (1 + int (length h)) (Some (h @ CHR '']'' # x)) (int (length h)) = Some h" for x
      using assms(2) by (intro osip_clrncpy_whole) simp_all
    have bracket: "strchr (h @ CHR '']'' # x) CHR '']'' = Some (CHR '']'' # x)" for x
      using assms(3) by (intro strchr_append) auto
    show ?thesis
    proof (cases port)
      case None
      then show ?thesis
        using True len host bracket late [of "CHR '':''"] same
        by (cases "strchr r CHR '':''")
          (auto simp: via_parse_host_def host_text_def port_text_def ptr_diff_def Let_def simp del: strchr_None)
    next
      case (Some p)
      then show ?thesis
        using True len host bracket port [OF Some]
        by (simp add: via_parse_host_def host_text_def port_text_def ptr_diff_def Let_def)
    qed
  next
    case False
    have host: "osip_clrncpy (1 + int (length h)) (Some (h @ x)) (int (length h)) = Some h" for x
      using assms(2) by (intro osip_clrncpy_whole) simp_all
    have nobracket: "strchr (h @ port_text port @ r) CHR ''['' = strchr r CHR ''[''"
      using assms(3) port by (cases port) (simp_all add: port_text_def strchr_append_notin)
    show ?thesis
    proof (cases port)
      case None
      then have "strchr (h @ r) CHR '':'' = strchr r CHR '':''" using False by (simp add: strchr_append_notin)
      then show ?thesis
        using None False len host nobracket late [of "CHR '':''"] late [of "CHR ''[''"] same
        by (cases "strchr r CHR '':''"; cases "strchr r CHR ''[''")
          (auto simp: via_parse_host_def host_text_def port_text_def ptr_diff_def Let_def simp del: strchr_None)
    next
      case (Some p)
      have "strchr (h @ CHR '':'' # p @ r) CHR '':'' = Some (CHR '':'' # p @ r)"
        using False by (intro strchr_append)
      moreover have "via\<lparr>via_port := Some p, via_host := Some h\<rparr> = via\<lparr>via_host := Some h, via_port := Some p\<rparr>"
        by (cases via) simp
      ultimately show ?thesis
        using Some False len host nobracket late [of "CHR ''[''"] port [OF Some]
        by (cases "strchr r CHR ''[''")
          (auto simp: via_parse_host_def host_text_def port_text_def ptr_diff_def Let_def simp del: strchr_None)
    qed
  qed
qed

definition comment_text :: "cstr \<Rightarrow> string" where
  "comment_text c = (case c of None \<Rightarrow> [] | Some c \<Rightarrow> '' ('' @ c @ '')'')"

lemma via_parse_params_step:
  assumes "strchr (a @ p @ c) CHR '';'' = Some (p @ c)" "p \<noteq> []"
    "osip_generic_param_parseall (via_params via) p [] = Some ((0, ps), [])"
  shows "via_parse_params via (a @ p @ c) c [] = via_parse_host (via\<lparr>via_params := ps\<rparr>) (a @ p @ c) (p @ c) []"
proof -
  have "0 < int (length p)" using assms(2) by simp
  then show ?thesis using assms by (simp add: via_parse_params_def osip_strncpy_def Let_def)
qed

lemma via_parse_comment_step:
  assumes "CHR ''('' \<notin> set x" "CHR '')'' \<notin> set x" "CHR '')'' \<notin> set c" "c \<noteq> []"
  shows "via_parse_comment via (x @ '' ('' @ c @ '')'') []
    = via_parse_params (via\<lparr>via_comment := Some c\<rparr>) (x @ '' ('' @ c @ '')'') ('' ('' @ c @ '')'') []"
proof -
  have "strchr (x @ '' ('' @ c @ '')'') CHR ''('' = Some (CHR ''('' # c @ '')'')"
    "strchr (x @ '' ('' @ c @ '')'') CHR '')'' = Some '')''"
    using assms strchr_append [of "CHR '')''" "x @ '' ('' @ c" "[]"]
    by (simp_all add: strchr_append_notin)
  moreover have "\<not> 1 + int (length c) < 2" using assms(4) by (cases c) simp_all
  ultimately show ?thesis
    by (simp add: via_parse_comment_def ptr_diff_def osip_strncpy_def)
qed

lemma via_parse_params_text:
  assumes "list_all generic_param_wf ps" "CHR '';'' \<notin> set a" "CHR '';'' \<notin> set c" "via_params via = []"
  shows "via_parse_params via (a @ concat (map param_text ps) @ c) c []
    = via_parse_host (via\<lparr>via_params := ps\<rparr>) (a @ concat (map param_text ps) @ c) (concat (map param_text ps) @ c) []"
proof (cases ps)
  case Nil
  then have "via\<lparr>via_params := ps\<rparr> = via" using assms(4) by (cases via) simp
  then show ?thesis using Nil assms(2,3) by (simp add: via_parse_params_def)
next
  case (Cons p qs)
  let ?ps = "concat (map param_text ps)"
  have "?ps \<noteq> []" using Cons by (simp add: param_text_def)
  then have start: "strchr (a @ ?ps @ c) CHR '';'' = Some (?ps @ c)"
    using strchr_starts [of "CHR '';''" a "?ps @ c"] assms(2) generic_params_text_starts [of ps]
    by (cases ?ps; simp add: starts_with_def)
  have parse: "osip_generic_param_parseall [] ?ps [] = Some ((0, ps), [])"
    using generic_params_roundtrip [of p qs "[]"] assms(1) Cons by simp
  show ?thesis
    using via_parse_params_step [OF start \<open>?ps \<noteq> []\<close>, of via ps] parse assms(4) by simp
qed

theorem via_roundtrip:
  assumes "via_wf v"
  shows "osip_via_parse osip_via_init (Some (via_text v)) [] = Some ((OSIP_SUCCESS, v), [])"
proof -
  obtain ver proto h where v: "via_version v = Some ver" "via_protocol v = Some proto" "via_host v = Some h"
    and ver: "ver \<noteq> []" "tight ver" "CHR ''/'' \<notin> set ver"
    and proto: "proto \<noteq> []" "tight proto" "CHR '' '' \<notin> set proto"
    and h: "h \<noteq> []" "tight h" "set h \<inter> {CHR '';'', CHR ''('', CHR '')'', CHR ''['', CHR '']''} = {}"
    and port: "\<And>p. via_port v = Some p \<Longrightarrow> list_all is_c_digit p \<and> p \<noteq> []"
    and ps: "list_all generic_param_wf (via_params v)"
    "set (concat (map param_text (via_params v))) \<inter> {CHR ''('', CHR '')''} = {}"
    and com: "\<And>c. via_comment v = Some c \<Longrightarrow> c \<noteq> [] \<and> CHR '')'' \<notin> set c \<and> CHR '';'' \<notin> set c"
    using assms by (auto simp: via_wf_def split: option.splits)
  let ?ps = "concat (map param_text (via_params v))"
  let ?a = "CHR '' '' # host_text h @ port_text (via_port v)"
  let ?c = "comment_text (via_comment v)"
  let ?host = "?a @ ?ps @ ?c"
  have digits: "c \<notin> set p" if "list_all is_c_digit p" "c \<in> {CHR '';'', CHR ''('', CHR '')''}" for c p
    using that by (auto simp: list_all_iff is_c_digit_def)
  have a: "c \<notin> set ?a" if "c \<in> {CHR '';'', CHR ''('', CHR '')''}" for c
    using h(3) port digits that by (cases "via_port v") (auto simp: host_text_def port_text_def)
  have shape: "via_text v = ''SIP'' @ CHR ''/'' # ver @ CHR ''/'' # proto @ ?host"
    using v by (simp add: via_text_def host_text_def port_text_def comment_text_def Let_def)
  let ?v1 = "osip_via_init\<lparr>via_version := Some ver, via_protocol := Some proto\<rparr>"
  let ?v2 = "?v1\<lparr>via_comment := via_comment v\<rparr>"
  have params: "via_parse_params ?v2 ?host ?c [] = Some ((0, v), [])"
  proof -
    have "via_parse_params ?v2 ?host ?c [] = via_parse_host (?v2\<lparr>via_params := via_params v\<rparr>) ?host (?ps @ ?c) []"
      using com by (intro via_parse_params_text [OF ps(1) a])
        (auto simp: comment_text_def osip_via_init_def split: option.split)
    also have "\<dots> = Some ((0, ?v2\<lparr>via_params := via_params v, via_host := Some h, via_port := via_port v\<rparr>), [])"
      using via_parse_host_text [of h "via_port v" "?v2\<lparr>via_params := via_params v\<rparr>" "?ps @ ?c"] h port
      by (auto simp: osip_via_init_def)
    also have "?v2\<lparr>via_params := via_params v, via_host := Some h, via_port := via_port v\<rparr> = v"
      using v by (cases v) (simp add: osip_via_init_def)
    finally show ?thesis .
  qed
  have comment: "via_parse_comment ?v1 ?host [] = Some ((0, v), [])"
  proof (cases "via_comment v")
    case None
    have "CHR ''('' \<notin> set (?a @ ?ps)" using a ps(2) by auto
    moreover have "?v2 = ?v1" using None by (simp add: osip_via_init_def)
    ultimately show ?thesis using params None by (simp add: via_parse_comment_def comment_text_def)
  next
    case (Some c)
    have "via_parse_comment ?v1 ((?a @ ?ps) @ '' ('' @ c @ '')'') []
        = via_parse_params ?v2 ((?a @ ?ps) @ '' ('' @ c @ '')'') ?c []"
      using a ps(2) com [OF Some] via_parse_comment_step [of "?a @ ?ps" c ?v1] Some by (auto simp: comment_text_def)
    then show ?thesis using params Some by (simp add: comment_text_def)
  qed
  have slash: "strchr (via_text v) CHR ''/'' = Some (CHR ''/'' # ver @ CHR ''/'' # proto @ ?host)"
    unfolding shape by (rule strchr_append) simp
  have slash2: "strchr (ver @ CHR ''/'' # proto @ ?host) CHR ''/'' = Some (CHR ''/'' # proto @ ?host)"
    using ver(3) by (rule strchr_append)
  have blank: "strchr (proto @ ?host) CHR '' '' = Some ?host" "?host \<noteq> proto @ ?host"
    using proto(1) strchr_append [OF proto(3), of "host_text h @ port_text (via_port v) @ ?ps @ ?c"] by simp_all
  have copy: "osip_clrncpy (1 + int (length x)) (Some (x @ y)) (int (length x)) = Some x" if "tight x" for x y
    using that by (intro osip_clrncpy_whole) simp_all
  have len: "\<not> 1 + int (length x) < 2" if "x \<noteq> []" for x :: string using that by (cases x) simp_all
  have "osip_via_parse osip_via_init (Some (via_text v)) [] = via_parse_comment ?v1 ?host []"
    using slash slash2 blank copy [OF ver(2)] copy [OF proto(2)] len [OF ver(1)] len [OF proto(1)]
    by (simp add: osip_via_parse_def ptr_diff_def Let_def del: append.simps append_assoc strchr_simps)
  then show ?thesis using comment by simp
qed

end
