(* ===== verification/From_Parse.thy ===== *)
theory From_Parse
  imports Via_Parse
begin

text \<open>
  From, To, Contact, Route and Record-Route headers, which share one representation and, but
  for the star of Contact, one parser: \<^verbatim>\<open>osip_from.c\<close>, \<^verbatim>\<open>osip_to.c\<close>, \<^verbatim>\<open>osip_contact.c\<close>,
  \<^verbatim>\<open>osip_route.c\<close> and \<^verbatim>\<open>osip_record_route.c\<close>. The header comes as a \<open>name-addr\<close>, with the
  URI in angle brackets, or as an \<open>addr-spec\<close>, in which the first semicolon ends the URI.
\<close>

section \<open>Parsing\<close>

type_synonym from_result = "((int \<times> osip_from) \<times> mem) option"

text \<open>The URI at \<open>addr\<close>, whose last character is the one behind \<open>len\<close> others.\<close>

definition from_set_url :: "osip_from \<Rightarrow> string \<Rightarrow> int \<Rightarrow> mem \<Rightarrow> from_result" where
  "from_set_url from addr len m =
    (if len + 2 < 7 then Some ((OSIP_SYNTAXERROR, from), m)
     else alloc_or m (OSIP_NOMEM, from) (\<lambda>m.
       let from = from\<lparr>url := Some osip_uri_init\<rparr> in
       alloc_or m (OSIP_NOMEM, from) (\<lambda>m. do {
         tmp \<leftarrow> osip_strncpy (len + 2) addr (len + 1);
         ((i, uri), m) \<leftarrow> osip_uri_parse osip_uri_init (Some tmp) m;
         let from = from\<lparr>url := Some uri\<rparr>;
         Some (if i \<noteq> 0 then (i, from) else (OSIP_SUCCESS, from), m)
       })))"

text \<open>
  Where the URI ends and the parameters begin; they are parsed before the URI. The search for
  a semicolon starts at the last character of the URI, not behind it.
\<close>

definition from_addr :: "osip_from \<Rightarrow> string \<Rightarrow> mem \<Rightarrow> from_result" where
  "from_addr from addr m =
    (let with_params = (\<lambda>addr len params.
       case params of
         None \<Rightarrow> from_set_url from addr len m
       | Some params \<Rightarrow> do {
           ((i, ps), m) \<leftarrow> osip_generic_param_parseall (gen_params from) params m;
           let from = from\<lparr>gen_params := ps\<rparr>;
           if i \<noteq> 0 then Some ((i, from), m) else from_set_url from addr len m
         })
     in if cur addr = CHR ''<''
        then do {
          start \<leftarrow> advance 1 addr;
          (case strchr start CHR ''>'' of
             None \<Rightarrow> Some ((OSIP_SYNTAXERROR, from), m)
           | Some close \<Rightarrow>
               let url_end = drop (nat (ptr_diff close addr - 1)) addr in
               with_params start (ptr_diff url_end start) (strchr url_end CHR '';''))
        }
        else
          (case strchr addr CHR '';'' of
             None \<Rightarrow> with_params addr (int (length addr)) None
           | Some params \<Rightarrow> with_params addr (ptr_diff params addr - 1) (Some params)))"

definition is_name_char :: "char \<Rightarrow> bool" where
  "is_name_char c \<longleftrightarrow> c = CHR '' ''
    \<or> of_char c \<in> {97..122 :: nat} \<or> of_char c \<in> {65..90 :: nat} \<or> of_char c \<in> {48..57 :: nat}
    \<or> c = CHR ''-'' \<or> c = CHR ''.'' \<or> c = CHR ''!'' \<or> c = CHR ''%'' \<or> c = CHR ''*'' \<or> c = CHR ''_''
    \<or> c = CHR ''+'' \<or> c = CHR 0x60 \<or> c = CHR 0x27 \<or> c = CHR 0x7E"

text \<open>
  A display name in quotes, and one without, for which the copy starts at \<open>hvalue\<close> although
  its length is counted from \<open>beg\<close>.
\<close>

definition from_quoted_name :: "osip_from \<Rightarrow> string \<Rightarrow> mem \<Rightarrow> from_result" where
  "from_quoted_name from name m = do {
     inside \<leftarrow> advance 1 name;
     second \<leftarrow> osip_quote_find inside;
     (case second of
        None \<Rightarrow> Some ((OSIP_SYNTAXERROR, from), m)
      | Some i \<Rightarrow>
          alloc_or m (OSIP_NOMEM, from) (\<lambda>m. do {
            let second = drop i inside;
            d \<leftarrow> osip_strncpy (ptr_diff second name + 2) name (ptr_diff second name + 1);
            let from = from\<lparr>displayname := Some d\<rparr>;
            rest \<leftarrow> advance 1 second;
            let addr = dropWhile (\<lambda>c. c = CHR '' '') rest;
            if cur addr \<noteq> CHR ''<'' \<or> length addr = 1 then Some ((OSIP_SYNTAXERROR, from), m)
            else from_addr from addr m
          }))
   }"

definition from_token_name :: "osip_from \<Rightarrow> string \<Rightarrow> string \<Rightarrow> mem \<Rightarrow> from_result" where
  "from_token_name from hvalue beg m =
    (let addr = dropWhile is_name_char beg in
     if addr = [] then Some ((OSIP_SYNTAXERROR, from), m)
     else if cur addr = CHR ''<''
     then
       if length addr = 1 then Some ((OSIP_SYNTAXERROR, from), m)
       else if 0 < ptr_diff addr beg
       then alloc_or m (OSIP_NOMEM, from) (\<lambda>m. do {
         d \<leftarrow> osip_clrncpy (ptr_diff addr beg + 1) (Some hvalue) (ptr_diff addr beg);
         from_addr (from\<lparr>displayname := Some d\<rparr>) addr m
       })
       else from_addr from addr m
     else from_addr from beg m)"

definition osip_from_parse :: "osip_from \<Rightarrow> cstr \<Rightarrow> mem \<Rightarrow> from_result" where
  "osip_from_parse from hvalue m =
    (case hvalue of
       None \<Rightarrow> Some ((OSIP_BADPARAMETER, from), m)
     | Some hvalue \<Rightarrow>
         let beg = dropWhile (\<lambda>c. c = CHR '' '') hvalue in
         if beg = [] then Some ((OSIP_SUCCESS, from), m)
         else if cur beg = CHR 0x22 then from_quoted_name from beg m
         else from_token_name from hvalue beg m)"

definition osip_to_parse :: "osip_to \<Rightarrow> cstr \<Rightarrow> mem \<Rightarrow> from_result" where
  "osip_to_parse to hvalue m = osip_from_parse to hvalue m"

definition osip_route_parse :: "osip_route \<Rightarrow> cstr \<Rightarrow> mem \<Rightarrow> from_result" where
  "osip_route_parse route hvalue m = osip_from_parse route hvalue m"

definition osip_record_route_parse :: "osip_record_route \<Rightarrow> cstr \<Rightarrow> mem \<Rightarrow> from_result" where
  "osip_record_route_parse record_route hvalue m = osip_from_parse record_route hvalue m"

text \<open>The first argument of \<^verbatim>\<open>strncmp\<close> must not be NULL.\<close>

definition osip_contact_parse :: "osip_contact \<Rightarrow> cstr \<Rightarrow> mem \<Rightarrow> from_result" where
  "osip_contact_parse contact hvalue m = do {
     h \<leftarrow> hvalue;
     if cur h = CHR ''*''
     then (case osip_strdup (Some h) m of (d, m) \<Rightarrow>
       Some ((if d = None then OSIP_NOMEM else OSIP_SUCCESS, contact\<lparr>displayname := d\<rparr>), m))
     else osip_from_parse contact hvalue m
   }"

section \<open>Printing\<close>

text \<open>Every parameter makes the buffer longer; the result of \<^verbatim>\<open>osip_realloc\<close> is not checked.\<close>

fun from_params_to_str :: "osip_generic_param list \<Rightarrow> string \<Rightarrow> nat \<Rightarrow> mem \<Rightarrow> (string \<times> mem) option" where
  "from_params_to_str [] buf len m = Some (buf, m)"
| "from_params_to_str (p # ps) buf len m = do {
     n \<leftarrow> gname p;
     let plen = (case gvalue p of None \<Rightarrow> length n + 2 | Some v \<Rightarrow> length n + length v + 3);
     let len = len + plen;
     let (ok, m) = osip_malloc m;
     ub_unless ok;
     let buf = snprintf_at len buf (case gvalue p of None \<Rightarrow> '';'' @ n | Some v \<Rightarrow> '';'' @ n @ ''='' @ v);
     from_params_to_str ps buf len m
   }"

definition osip_from_to_str :: "osip_from option \<Rightarrow> mem \<Rightarrow> ((int \<times> cstr) \<times> mem) option" where
  "osip_from_to_str from m =
    (case from of
       None \<Rightarrow> Some ((OSIP_BADPARAMETER, None), m)
     | Some f \<Rightarrow>
         if url f = None then Some ((OSIP_BADPARAMETER, None), m)
         else do {
           ((i, u), m) \<leftarrow> osip_uri_to_str (url f) m;
           if i \<noteq> 0 then Some ((i, None), m)
           else do {
             u \<leftarrow> u;
             let len = (case displayname f of None \<Rightarrow> length u + 5 | Some d \<Rightarrow> length u + length d + 5);
             alloc_or m (OSIP_NOMEM, None) (\<lambda>m. do {
               buf \<leftarrow> sprintf_at len [] (case displayname f of
                 Some d \<Rightarrow> d @ '' <'' @ u @ ''>'' | None \<Rightarrow> ''<'' @ u @ ''>'');
               (buf, m) \<leftarrow> from_params_to_str (gen_params f) buf len m;
               Some ((OSIP_SUCCESS, Some buf), m)
             })
           }
         })"

text \<open>Route and Record-Route are printed by a copy of that function.\<close>

definition osip_record_route_to_str :: "osip_record_route option \<Rightarrow> mem \<Rightarrow> ((int \<times> cstr) \<times> mem) option" where
  "osip_record_route_to_str record_route m =
    (case record_route of
       None \<Rightarrow> Some ((OSIP_BADPARAMETER, None), m)
     | Some f \<Rightarrow>
         if url f = None then Some ((OSIP_BADPARAMETER, None), m)
         else do {
           ((i, u), m) \<leftarrow> osip_uri_to_str (url f) m;
           if i \<noteq> 0 then Some ((i, None), m)
           else do {
             u \<leftarrow> u;
             let len = (case displayname f of None \<Rightarrow> length u + 5 | Some d \<Rightarrow> length u + length d + 5);
             alloc_or m (OSIP_NOMEM, None) (\<lambda>m. do {
               buf \<leftarrow> sprintf_at len [] (case displayname f of
                 Some d \<Rightarrow> d @ '' <'' @ u @ ''>'' | None \<Rightarrow> ''<'' @ u @ ''>'');
               (buf, m) \<leftarrow> from_params_to_str (gen_params f) buf len m;
               Some ((OSIP_SUCCESS, Some buf), m)
             })
           }
         })"

definition osip_route_to_str :: "osip_route option \<Rightarrow> mem \<Rightarrow> ((int \<times> cstr) \<times> mem) option" where
  "osip_route_to_str route m = osip_record_route_to_str route m"

definition osip_to_to_str :: "osip_to option \<Rightarrow> mem \<Rightarrow> ((int \<times> cstr) \<times> mem) option" where
  "osip_to_to_str to m = osip_from_to_str to m"

text \<open>A Contact whose display name begins with a star is printed as the star alone.\<close>

definition osip_contact_to_str :: "osip_contact option \<Rightarrow> mem \<Rightarrow> ((int \<times> cstr) \<times> mem) option" where
  "osip_contact_to_str contact m =
    (case contact of
       None \<Rightarrow> Some ((OSIP_BADPARAMETER, None), m)
     | Some c \<Rightarrow>
         if (case displayname c of None \<Rightarrow> False | Some d \<Rightarrow> cur d = CHR ''*'')
         then (case osip_strdup (Some ''*'') m of (d, m) \<Rightarrow>
           Some ((if d = None then OSIP_NOMEM else OSIP_SUCCESS, d), m))
         else osip_from_to_str contact m)"

section \<open>No undefined behaviour\<close>

declare osip_uri_parse_defined [defined]

lemma from_set_url_defined [defined]: "from_set_url from addr len m \<noteq> None"
  unfolding from_set_url_def Let_def by (intro defined) simp_all

lemma from_addr_defined [defined]: "from_addr from addr m \<noteq> None"
  unfolding from_addr_def Let_def
  by (intro defined) (auto simp: cur_Cons Suc_le_eq dest!: strchr_hd)

lemma osip_quote_find_defined [defined]: "osip_quote_find s \<noteq> None"
  by (simp add: osip_quote_find_scan)

lemma from_quoted_name_defined [defined]:
  assumes "name \<noteq> []"
  shows "from_quoted_name from name m \<noteq> None"
  using assms unfolding from_quoted_name_def Let_def
  by (intro defined)
    (auto simp: Suc_le_eq ptr_diff_def osip_quote_find_scan advance_def dest: scan_quote_at split: if_splits)

lemma from_token_name_defined [defined]:
  assumes "length beg \<le> length hvalue"
  shows "from_token_name from hvalue beg m \<noteq> None"
proof -
  have "ptr_diff (dropWhile is_name_char beg) beg \<le> int (length hvalue)"
    using assms by (simp add: ptr_diff_def)
  then show ?thesis
    unfolding from_token_name_def Let_def by (intro defined) simp_all
qed

theorem osip_from_parse_defined [defined]: "osip_from_parse from hvalue m \<noteq> None"
  unfolding osip_from_parse_def Let_def
  by (intro defined) (auto simp: length_dropWhile_le)

lemma osip_contact_parse_defined: "osip_contact_parse contact (Some hvalue) m \<noteq> None"
  unfolding osip_contact_parse_def bind.bind_lunit by (intro defined)

section \<open>What is printed\<close>

definition from_text :: "osip_from \<Rightarrow> string" where
  "from_text f = (case displayname f of None \<Rightarrow> [] | Some d \<Rightarrow> d @ '' '')
     @ ''<'' @ uri_text (the (url f)) @ ''>'' @ concat (map param_text (gen_params f))"

definition from_printable :: "osip_from \<Rightarrow> bool" where
  "from_printable f \<longleftrightarrow> named (gen_params f) \<and> (case url f of None \<Rightarrow> False | Some u \<Rightarrow> uri_printable u)"

lemma from_params_to_str_ok:
  assumes "named ps" "length buf < len" "never_fails m"
  shows "\<exists>m'. from_params_to_str ps buf len m = Some (buf @ concat (map param_text ps), m') \<and> never_fails m'"
  using assms
proof (induction ps arbitrary: buf len m)
  case (Cons p ps)
  obtain m1 where m1: "osip_malloc m = (True, m1)" "never_fails m1"
    using osip_malloc_never_fails [OF Cons.prems(3)] by blast
  obtain n where n: "gname p = Some n" "named ps" using Cons.prems(1) by auto
  let ?len = "len + (case gvalue p of None \<Rightarrow> length n + 2 | Some v \<Rightarrow> length n + length v + 3)"
  have fits: "length (buf @ param_text p) < ?len"
    using Cons.prems(2) n by (simp add: param_text_def split: option.split)
  then have "snprintf_at ?len buf (param_text p) = buf @ param_text p" by (simp add: snprintf_at_def)
  then have "from_params_to_str (p # ps) buf len m = from_params_to_str ps (buf @ param_text p) ?len m1"
    using n m1 by (simp add: param_text_def Let_def split: option.splits)
  then show ?case using Cons.IH [OF n(2) fits m1(2)] by simp
qed simp

theorem osip_from_to_str_ok:
  assumes "from_printable f" "never_fails m"
  shows "\<exists>m'. osip_from_to_str (Some f) m = Some ((OSIP_SUCCESS, Some (from_text f)), m') \<and> never_fails m'"
proof -
  obtain u where u: "url f = Some u" "uri_printable u" "named (gen_params f)"
    using assms(1) by (auto simp: from_printable_def split: option.splits)
  obtain m1 where m1: "osip_uri_to_str (Some u) m = Some ((0, Some (uri_text u)), m1)" "never_fails m1"
    using osip_uri_to_str_ok [OF u(2) assms(2)] by auto
  obtain m2 where m2: "osip_malloc m1 = (True, m2)" "never_fails m2"
    using osip_malloc_never_fails [OF m1(2)] by blast
  let ?buf = "case displayname f of Some d \<Rightarrow> d @ '' <'' @ uri_text u @ ''>'' | None \<Rightarrow> ''<'' @ uri_text u @ ''>''"
  let ?len = "case displayname f of None \<Rightarrow> length (uri_text u) + 5 | Some d \<Rightarrow> length (uri_text u) + length d + 5"
  have fits: "length ?buf < ?len" by (simp split: option.split)
  obtain m3 where m3: "from_params_to_str (gen_params f) ?buf ?len m2
      = Some (?buf @ concat (map param_text (gen_params f)), m3)" "never_fails m3"
    using from_params_to_str_ok [OF u(3) fits m2(2)] by blast
  have "?buf @ concat (map param_text (gen_params f)) = from_text f"
    using u(1) by (simp add: from_text_def split: option.split)
  then show ?thesis
    using u(1) m1(1) m2(1) m3 fits by (auto simp: osip_from_to_str_def alloc_or_def sprintf_at_def Let_def)
qed

lemma osip_record_route_to_str_eq: "osip_record_route_to_str r m = osip_from_to_str r m"
  by (simp only: osip_record_route_to_str_def osip_from_to_str_def)

section \<open>Reading back a printed header\<close>

definition name_wf :: "cstr \<Rightarrow> bool" where
  "name_wf d = (case d of None \<Rightarrow> True
     | Some d \<Rightarrow> quoted d \<or> d \<noteq> [] \<and> tight d \<and> list_all is_name_char d)"

definition from_wf :: "osip_from \<Rightarrow> bool" where
  "from_wf f \<longleftrightarrow> name_wf (displayname f) \<and> list_all generic_param_wf (gen_params f)
    \<and> (case url f of None \<Rightarrow> False
       | Some u \<Rightarrow> (sip_uri_wf u \<or> opaque_uri_wf u) \<and> 6 \<le> length (uri_text u)
           \<and> CHR ''>'' \<notin> set (uri_text u) \<and> last (uri_text u) \<noteq> CHR '';'')"

lemma from_set_url_text:
  assumes "osip_uri_parse osip_uri_init (Some t) [] = Some ((0, uri), [])" "6 \<le> length t" "url from = None"
  shows "from_set_url from (t @ r) (int (length t) - 1) [] = Some ((0, from\<lparr>url := Some uri\<rparr>), [])"
proof -
  have "osip_strncpy (int (length t) - 1 + 2) (t @ r) (int (length t) - 1 + 1) = Some t"
    by (simp add: osip_strncpy_def)
  then show ?thesis using assms by (simp add: from_set_url_def Let_def)
qed

lemma from_addr_text:
  assumes "osip_uri_parse osip_uri_init (Some t) [] = Some ((0, uri), [])" "6 \<le> length t"
    "CHR ''>'' \<notin> set t" "last t \<noteq> CHR '';''" "url from = None" "gen_params from = []"
    "list_all generic_param_wf ps"
  shows "from_addr from (CHR ''<'' # t @ CHR ''>'' # concat (map param_text ps)) []
    = Some ((0, from\<lparr>gen_params := ps, url := Some uri\<rparr>), [])"
proof -
  let ?ps = "concat (map param_text ps)"
  let ?close = "CHR ''>'' # ?ps"
  let ?addr = "CHR ''<'' # t @ ?close"
  obtain e z where t: "t = e @ [z]" using assms(2) by (cases t rule: rev_cases) auto
  have url_end: "drop (nat (ptr_diff ?close ?addr - 1)) ?addr = last t # ?close"
    unfolding t by (simp add: ptr_diff_def nat_one_plus)
  have params: "strchr (last t # ?close) CHR '';'' = (if ?ps = [] then None else Some ?ps)"
    using assms(4) strchr_starts [of "CHR '';''" "[]" ?ps] generic_params_text_starts by simp
  have close: "strchr (t @ ?close) CHR ''>'' = Some ?close" by (rule strchr_append [OF assms(3)])
  have diff: "ptr_diff (last t # ?close) (t @ ?close) = int (length t) - 1" by (simp add: ptr_diff_def)
  note set_url = from_set_url_text [OF assms(1,2), of _ ?close]
  show ?thesis
  proof (cases ps)
    case Nil
    then show ?thesis
      using url_end params close diff set_url [OF assms(5)] assms(6)
      by (cases "from") (simp add: from_addr_def Let_def)
  next
    case (Cons p qs)
    have "?ps \<noteq> []" unfolding Cons by (simp add: param_text_def)
    then have "strchr (last t # ?close) CHR '';'' = Some ?ps" unfolding params by (simp only: if_False)
    moreover have "osip_generic_param_parseall (gen_params from) ?ps [] = Some ((0, ps), [])"
      using generic_params_roundtrip [of p qs "[]"] assms(6,7) Cons by simp
    ultimately show ?thesis
      using url_end close diff set_url [of "from\<lparr>gen_params := ps\<rparr>"] assms(5)
      by (simp add: from_addr_def Let_def del: strchr_simps)
  qed
qed

lemma quoted_name:
  assumes "quoted d"
  shows "from_quoted_name from (d @ CHR '' '' # CHR ''<'' # x # r) [] = from_addr (from\<lparr>displayname := Some d\<rparr>) (CHR ''<'' # x # r) []"
proof -
  obtain w where d: "d = CHR 0x22 # w" "w \<noteq> []" "scan_quote False w = Some (length w - 1)"
    using assms by (cases d; cases "tl d") (auto simp: quoted_def)
  let ?r = "CHR '' '' # CHR ''<'' # x # r"
  have "w ! (length w - 1) = CHR 0x22" using scan_quote_at [OF d(3)] by simp
  then have w: "w = butlast w @ [CHR 0x22]" using d(2) by (metis append_butlast_last_id last_conv_nth)
  have second: "drop (length w - 1) (w @ ?r) = CHR 0x22 # ?r" by (subst w) simp
  have "ptr_diff (CHR 0x22 # ?r) (d @ ?r) = int (length w)" using d by (simp add: ptr_diff_def)
  moreover have "osip_strncpy (int (length w) + 2) (CHR 0x22 # w @ ?r) (int (length w) + 1) = Some d"
    using d(1) by (simp add: osip_strncpy_def nat_add_distrib)
  ultimately show ?thesis
    using scan_quote_append [OF d(3), of ?r] second d(1)
    by (simp add: from_quoted_name_def osip_quote_find_scan Let_def)
qed

lemma token_name:
  assumes "d \<noteq> []" "tight d" "list_all is_name_char d"
  shows "from_token_name from (d @ CHR '' '' # CHR ''<'' # x # r) (d @ CHR '' '' # CHR ''<'' # x # r) []
    = from_addr (from\<lparr>displayname := Some d\<rparr>) (CHR ''<'' # x # r) []"
proof -
  let ?r = "CHR ''<'' # x # r"
  have "\<not> is_name_char CHR ''<''" by (simp add: is_name_char_def)
  then have addr: "dropWhile is_name_char (d @ CHR '' '' # ?r) = ?r"
    using assms(3) by (simp add: list_all_iff is_name_char_def)
  have "trim (d @ '' '') = d" using trim_snoc [of "CHR '' ''" d] assms(2) by (simp add: is_blank_def)
  then have "osip_clrncpy (2 + int (length d)) (Some (d @ CHR '' '' # ?r)) (int (length d) + 1) = Some d"
    using osip_clrncpy_trim [of "int (length d) + 1" "d @ CHR '' '' # ?r" "2 + int (length d)"]
    by (simp add: nat_add_distrib)
  moreover have "ptr_diff ?r (d @ CHR '' '' # ?r) = int (length d) + 1" by (simp add: ptr_diff_def)
  ultimately show ?thesis using addr by (simp add: from_token_name_def Let_def)
qed

theorem from_roundtrip:
  assumes "from_wf f"
  shows "osip_from_parse osip_from_init (Some (from_text f)) [] = Some ((OSIP_SUCCESS, f), [])"
proof -
  obtain u where u: "url f = Some u" "sip_uri_wf u \<or> opaque_uri_wf u" "6 \<le> length (uri_text u)"
    "CHR ''>'' \<notin> set (uri_text u)" "last (uri_text u) \<noteq> CHR '';''"
    and ps: "list_all generic_param_wf (gen_params f)" and name: "name_wf (displayname f)"
    using assms by (auto simp: from_wf_def split: option.splits)
  have parse: "osip_uri_parse osip_uri_init (Some (uri_text u)) [] = Some ((0, u), [])"
    using u(2) sip_uri_roundtrip opaque_uri_roundtrip by auto
  let ?t = "uri_text u @ CHR ''>'' # concat (map param_text (gen_params f))"
  obtain x r where t: "?t = x # r" using u(3) by (cases "uri_text u") auto
  let ?f0 = "osip_from_init\<lparr>displayname := displayname f\<rparr>"
  have addr: "from_addr ?f0 (CHR ''<'' # ?t) [] = Some ((0, f), [])"
    using from_addr_text [OF parse u(3-5) _ _ ps, of ?f0] u(1) by (cases f) (simp add: osip_from_init_def)
  show ?thesis
  proof (cases "displayname f")
    case None
    then have "?f0 = osip_from_init" by (simp add: osip_from_init_def)
    moreover have "dropWhile is_name_char (CHR ''<'' # ?t) = CHR ''<'' # ?t" by (simp add: is_name_char_def)
    ultimately show ?thesis
      using addr u(1) None t by (simp add: osip_from_parse_def from_text_def from_token_name_def Let_def ptr_diff_def)
  next
    case (Some d)
    have shape: "from_text f = d @ CHR '' '' # CHR ''<'' # x # r" using u(1) Some t by (simp add: from_text_def)
    consider "quoted d" | "d \<noteq> []" "tight d" "list_all is_name_char d" "\<not> quoted d"
      using name Some by (auto simp: name_wf_def)
    then show ?thesis
    proof cases
      case 1
      then have "cur d = CHR 0x22" "d \<noteq> []" by (auto simp: quoted_def)
      then have "dropWhile (\<lambda>c. c = CHR '' '') (from_text f) = from_text f" "cur (from_text f) = CHR 0x22" "from_text f \<noteq> []"
        unfolding shape by (cases d; simp)+
      moreover have "from_quoted_name osip_from_init (from_text f) [] = Some ((0, f), [])"
        using addr unfolding shape t quoted_name [OF 1] Some .
      ultimately show ?thesis by (simp add: osip_from_parse_def Let_def)
    next
      case 2
      then obtain c e where d: "d = c # e" "\<not> is_blank c" "is_name_char c" by (cases d) (auto simp: tight_def)
      then have "c \<noteq> CHR '' ''" "c \<noteq> CHR 0x22" by (auto simp: is_blank_def is_name_char_def)
      then have "dropWhile (\<lambda>c. c = CHR '' '') (from_text f) = from_text f" "cur (from_text f) \<noteq> CHR 0x22" "from_text f \<noteq> []"
        unfolding shape d by simp_all
      moreover have "from_token_name osip_from_init (from_text f) (from_text f) [] = Some ((0, f), [])"
        using addr unfolding shape t token_name [OF 2(1-3)] Some .
      ultimately show ?thesis by (simp add: osip_from_parse_def Let_def)
    qed
  qed
qed

text \<open>
  A blank in front of the display name is counted in its length but not in the copy, and so
  the end of the name is lost.
\<close>

lemma leading_blanks_cut_the_name:
  "map_option (\<lambda>((i, f), m). (i, displayname f)) (osip_from_parse osip_from_init (Some ''    Bob <sip:b@h>'') [])
    = Some (OSIP_SUCCESS, Some [])"
  by code_simp

text \<open>A semicolon that ends the URI is taken for the start of the parameters.\<close>

lemma semicolon_in_the_brackets:
  "map_option (\<lambda>((i, f), m). (i, map (\<lambda>p. (gname p, gvalue p)) (gen_params f)))
    (osip_from_parse osip_from_init (Some ''<sip:b@host;>'') []) = Some (OSIP_SUCCESS, [(Some ''>'', None)])"
  by code_simp

end
