(* ===== verification/Header_Codec.thy ===== *)
theory Header_Codec
  imports From_Parse
begin

text \<open>
  What the printer and the parser of a header promise each other, as the locale
  \<open>header_codec\<close>, and that those of URI, Via, From (with To, Contact, Route and Record-Route),
  Call-ID and CSeq keep it. For the Via this makes \<^verbatim>\<open>osip_via_match\<close>, which compares the
  printed forms, a test of equality.
\<close>

section \<open>The interface\<close>

type_synonym 'h printer = "'h option \<Rightarrow> mem \<Rightarrow> ((int \<times> cstr) \<times> mem) option"
type_synonym 'h parser = "cstr \<Rightarrow> mem \<Rightarrow> ((int \<times> 'h) \<times> mem) option"

locale header_codec =
  fixes to_str :: "'h printer" and parse :: "'h parser"
    and wf :: "'h \<Rightarrow> bool" and text_of :: "'h \<Rightarrow> string"
  assumes to_str_ok: "wf h \<Longrightarrow> never_fails m
      \<Longrightarrow> \<exists>m'. to_str (Some h) m = Some ((OSIP_SUCCESS, Some (text_of h)), m') \<and> never_fails m'"
    and parse_text: "wf h \<Longrightarrow> parse (Some (text_of h)) [] = Some ((OSIP_SUCCESS, h), [])"
begin

lemma roundtrip:
  assumes "wf h" "never_fails m"
  obtains t m' where "to_str (Some h) m = Some ((OSIP_SUCCESS, Some t), m')" "never_fails m'"
    "parse (Some t) [] = Some ((OSIP_SUCCESS, h), [])"
proof -
  obtain m' where "to_str (Some h) m = Some ((OSIP_SUCCESS, Some (text_of h)), m')" "never_fails m'"
    using to_str_ok [OF assms] by blast
  then show thesis using that parse_text [OF assms(1)] by blast
qed

lemma text_of_inj:
  assumes "wf h" "wf k"
  shows "text_of h = text_of k \<longleftrightarrow> h = k"
proof
  assume eq: "text_of h = text_of k"
  have "Some ((OSIP_SUCCESS, h), [] :: mem) = Some ((OSIP_SUCCESS, k), [])"
    by (rule trans [OF parse_text [OF assms(1), symmetric] parse_text [OF assms(2), folded eq]])
  then show "h = k" by simp
qed simp

text \<open>Printing what was read from a printed header gives the same text again.\<close>

lemma normal_form:
  assumes "wf h" "never_fails m" "parse (Some (text_of h)) [] = Some ((i, k), m'')"
  shows "\<exists>m'. to_str (Some k) m = Some ((OSIP_SUCCESS, Some (text_of h)), m')"
  using to_str_ok [OF assms(1,2)] parse_text [OF assms(1)] assms(3) by auto

end

section \<open>URI\<close>

definition uri_wf :: "osip_uri \<Rightarrow> bool" where
  "uri_wf u \<longleftrightarrow> sip_uri_wf u \<or> opaque_uri_wf u"

lemma uri_wf_printable: "uri_wf u \<Longrightarrow> uri_printable u"
  unfolding uri_wf_def
proof (elim disjE)
  assume u: "sip_uri_wf u"
  have "named ps" if "list_all uri_param_wf ps" for ps
    using that by (induction ps) (auto simp: uri_param_wf_def split: option.splits)
  moreover have "gname h \<noteq> None \<and> gvalue h \<noteq> None" if "uri_header_wf h" for h
    using that by (auto simp: uri_header_wf_def split: option.splits)
  ultimately show ?thesis
    using u by (auto simp: sip_uri_wf_def uri_hostport_wf_def uri_printable_def list_all_iff split: option.splits)
next
  assume "opaque_uri_wf u"
  then show ?thesis by (auto simp: opaque_uri_wf_def uri_printable_def split: option.splits)
qed

interpretation uri_codec: header_codec osip_uri_to_str "osip_uri_parse osip_uri_init" uri_wf uri_text
proof unfold_locales
  show "\<exists>m'. osip_uri_to_str (Some u) m = Some ((OSIP_SUCCESS, Some (uri_text u)), m') \<and> never_fails m'"
    if "uri_wf u" "never_fails m" for u m
    by (rule osip_uri_to_str_ok [OF uri_wf_printable [OF that(1)] that(2)])
  show "osip_uri_parse osip_uri_init (Some (uri_text u)) [] = Some ((OSIP_SUCCESS, u), [])" if "uri_wf u" for u
    using that sip_uri_roundtrip opaque_uri_roundtrip unfolding uri_wf_def by blast
qed

section \<open>Via\<close>

lemma generic_params_named: "list_all generic_param_wf ps \<Longrightarrow> named ps"
  by (induction ps) (auto simp: generic_param_wf_def split: option.splits)

lemma via_wf_ok: "via_wf v \<Longrightarrow> via_ok v"
  using generic_params_named by (auto simp: via_wf_def via_ok_def split: option.splits)

interpretation via_codec: header_codec osip_via_to_str "osip_via_parse osip_via_init" via_wf via_text
  by unfold_locales (use osip_via_to_str_ok via_wf_ok via_roundtrip in blast)+

lemma osip_via_match_wf:
  assumes "via_wf v" "via_wf w" "never_fails m"
  shows "\<exists>m'. osip_via_match (Some v) (Some w) m = Some (if v = w then OSIP_SUCCESS else OSIP_UNDEFINED_ERROR, m')"
  using osip_via_match_ok [OF via_wf_ok via_wf_ok, OF assms]
  unfolding via_codec.text_of_inj [OF assms(1,2)] by blast

section \<open>From\<close>

lemma from_wf_printable: "from_wf f \<Longrightarrow> from_printable f"
  using generic_params_named uri_wf_printable
  by (auto simp: from_wf_def from_printable_def uri_wf_def split: option.splits)

interpretation from_codec: header_codec osip_from_to_str "osip_from_parse osip_from_init" from_wf from_text
  by unfold_locales (use osip_from_to_str_ok from_wf_printable from_roundtrip in blast)+

interpretation to_codec: header_codec osip_to_to_str "osip_to_parse osip_from_init" from_wf from_text
  unfolding osip_to_to_str_def osip_to_parse_def by (rule from_codec.header_codec_axioms)

interpretation route_codec: header_codec osip_route_to_str "osip_route_parse osip_from_init" from_wf from_text
  unfolding osip_route_to_str_def osip_route_parse_def osip_record_route_to_str_eq
  by (rule from_codec.header_codec_axioms)

interpretation record_route_codec:
  header_codec osip_record_route_to_str "osip_record_route_parse osip_from_init" from_wf from_text
  unfolding osip_record_route_parse_def osip_record_route_to_str_eq by (rule from_codec.header_codec_axioms)

text \<open>A Contact, unless its display name begins with a star.\<close>

definition contact_wf :: "osip_contact \<Rightarrow> bool" where
  "contact_wf c \<longleftrightarrow> from_wf c \<and> (case displayname c of None \<Rightarrow> True | Some d \<Rightarrow> cur d \<noteq> CHR ''*'')"

interpretation contact_codec: header_codec osip_contact_to_str "osip_contact_parse osip_from_init" contact_wf from_text
proof unfold_locales
  fix c :: osip_contact and m :: mem
  assume c: "contact_wf c"
  then have wf: "from_wf c" by (simp add: contact_wf_def)
  show "\<exists>m'. osip_contact_to_str (Some c) m = Some ((OSIP_SUCCESS, Some (from_text c)), m') \<and> never_fails m'"
    if m: "never_fails m"
    using from_codec.to_str_ok [OF wf m] c
    by (auto simp: osip_contact_to_str_def contact_wf_def split: option.splits)
  have "cur (from_text c) \<noteq> CHR ''*''"
  proof (cases "displayname c")
    case (Some d)
    then have "name_wf (Some d)" using wf by (simp add: from_wf_def)
    then obtain x e where "d = x # e" by (cases d) (auto simp: name_wf_def quoted_def)
    then show ?thesis using c Some by (simp add: from_text_def contact_wf_def)
  qed (simp add: from_text_def)
  then show "osip_contact_parse osip_from_init (Some (from_text c)) [] = Some ((OSIP_SUCCESS, c), [])"
    using from_codec.parse_text [OF wf] by (simp add: osip_contact_parse_def)
qed

section \<open>Call-ID and CSeq\<close>

interpretation callid_codec:
  header_codec osip_call_id_to_str "\<lambda>v m. do { s \<leftarrow> v; osip_call_id_parse osip_call_id_init s m }" callid_wf callid_text
proof unfold_locales
  show "\<exists>m'. osip_call_id_to_str (Some c) m = Some ((OSIP_SUCCESS, Some (callid_text c)), m') \<and> never_fails m'"
    if "callid_wf c" "never_fails m" for c m
    using that by (intro osip_call_id_to_str_ok) (auto simp: callid_wf_def split: option.splits)
  show "do { s \<leftarrow> Some (callid_text c); osip_call_id_parse osip_call_id_init s [] } = Some ((OSIP_SUCCESS, c), [])"
    if "callid_wf c" for c
    using callid_roundtrip [OF that] by simp
qed

definition cseq_text :: "osip_cseq \<Rightarrow> string" where
  "cseq_text c = the (cseq_number c) @ '' '' @ the (cseq_method c)"

lemma osip_cseq_to_str_ok:
  assumes "cseq_wf c" "never_fails m"
  shows "\<exists>m'. osip_cseq_to_str (Some c) m = Some ((OSIP_SUCCESS, Some (cseq_text c)), m') \<and> never_fails m'"
proof -
  obtain m1 where "osip_malloc m = (True, m1)" "never_fails m1"
    using osip_malloc_never_fails [OF assms(2)] by blast
  then show ?thesis
    using assms(1)
    by (auto simp: cseq_wf_def osip_cseq_to_str_def cseq_text_def alloc_or_def snprintf_at_def split: option.splits)
qed

interpretation cseq_codec:
  header_codec osip_cseq_to_str
    "\<lambda>v m. map_option (\<lambda>((i, c), m). ((i, the c), m)) (osip_cseq_parse (Some osip_cseq_init) v m)" cseq_wf cseq_text
proof unfold_locales
  show "\<exists>m'. osip_cseq_to_str (Some c) m = Some ((OSIP_SUCCESS, Some (cseq_text c)), m') \<and> never_fails m'"
    if "cseq_wf c" "never_fails m" for c m
    by (rule osip_cseq_to_str_ok [OF that])
  show "map_option (\<lambda>((i, c), m). ((i, the c), m)) (osip_cseq_parse (Some osip_cseq_init) (Some (cseq_text c)) [])
      = Some ((OSIP_SUCCESS, c), [])" if c: "cseq_wf c" for c
  proof -
    obtain t where "osip_cseq_to_str (Some c) [] = Some ((OSIP_SUCCESS, Some t), [])"
      "osip_cseq_parse (Some osip_cseq_init) (Some t) [] = Some ((OSIP_SUCCESS, Some c), [])"
      using cseq_roundtrip [OF c] by blast
    then show ?thesis using osip_cseq_to_str_ok [OF c, of "[]"] by simp
  qed
qed

section \<open>Samples\<close>

definition full_uri :: osip_uri where
  "full_uri = \<lparr>uri_scheme = Some ''sips'', uri_username = Some ''al ice'', uri_password = Some ''a:b'',
    uri_host = Some ''2001:db8::1'', uri_port = Some ''5061'',
    url_params = [\<lparr>gname = Some ''transport'', gvalue = Some ''tls''\<rparr>, \<lparr>gname = Some ''lr'', gvalue = None\<rparr>],
    url_headers = [\<lparr>gname = Some ''subject'', gvalue = Some ''a;b&c''\<rparr>], uri_string = None\<rparr>"

definition full_via :: osip_via where
  "full_via = \<lparr>via_version = Some ''2.0'', via_protocol = Some ''UDP'', via_host = Some ''2001:db8::2'',
    via_port = Some ''5070'', via_comment = Some ''Acme server'',
    via_params = [\<lparr>gname = Some ''branch'', gvalue = Some ''z9hG4bK74bf9''\<rparr>, \<lparr>gname = Some ''rport'', gvalue = None\<rparr>]\<rparr>"

definition full_from :: osip_from where
  "full_from = \<lparr>displayname = Some [CHR 0x22, CHR ''A'', CHR ''<'', CHR 0x22], url = Some full_uri,
    gen_params = [\<lparr>gname = Some ''tag'', gvalue = Some ''a6c85cf''\<rparr>,
      \<lparr>gname = Some ''x'', gvalue = Some [CHR 0x22, CHR '';'', CHR 0x22]\<rparr>]\<rparr>"

lemma full_uri_wf: "uri_wf full_uri"
  by code_simp

lemma full_via_wf: "via_wf full_via"
  by code_simp

lemma full_from_wf: "from_wf full_from"
  by code_simp

end
