(* ===== verification/Message_Lines.thy ===== *)
theory Message_Lines
  imports Header_Codec Osip_Message
begin

text \<open>
  The lines of a message, from \<^verbatim>\<open>osip_message_parse.c\<close>: unfolding of continuation lines in
  place, the search for the end of a line and of a header section, the request line and the
  status line; and from \<^verbatim>\<open>osip_message_to_str.c\<close> the printing of these two. A message may
  be the part of a larger record, hence the type variable.
\<close>

section \<open>Continuation lines\<close>

text \<open>The C library's \<^verbatim>\<open>'\r'\<close>, \<^verbatim>\<open>'\n'\<close> and \<^verbatim>\<open>'\t'\<close>.\<close>

abbreviation (input) CR :: char where "CR \<equiv> CHR 0x0D"
abbreviation (input) LF :: char where "LF \<equiv> CHR 0x0A"
abbreviation (input) TAB :: char where "TAB \<equiv> CHR 0x09"

definition is_sp_tab :: "char \<Rightarrow> bool" where
  "is_sp_tab c \<longleftrightarrow> c = CHR '' '' \<or> c = TAB"

definition ends_headers :: "string \<Rightarrow> bool" where
  "ends_headers s \<longleftrightarrow> take 4 s = [CR, LF, CR, LF] \<or> take 2 s = [CR, CR] \<or> take 2 s = [LF, LF]"

definition folds :: "string \<Rightarrow> bool" where
  "folds s \<longleftrightarrow> take 2 s = [CR, LF] \<and> is_sp_tab (cur (drop 2 s)) \<or> (cur s = CR \<or> cur s = LF) \<and> is_sp_tab (cur (drop 1 s))"

text \<open>
  The first two characters of a fold become blanks, and so do all blanks and tabs behind them;
  the loop then steps over one more character, and when that is the NUL it reads on behind it.
\<close>

function osip_util_replace_all_lws :: "string \<Rightarrow> cstr" where
  "osip_util_replace_all_lws s =
    (if length s < 4 \<or> ends_headers s then Some s
     else if folds s
     then let blanks = takeWhile is_sp_tab (drop 2 s) in
       (case dropWhile is_sp_tab (drop 2 s) of
          [] \<Rightarrow> None
        | c # t \<Rightarrow> do { t \<leftarrow> osip_util_replace_all_lws t; Some (replicate (2 + length blanks) CHR '' '' @ c # t) })
     else do { t \<leftarrow> osip_util_replace_all_lws (tl s); Some (cur s # t) })"
  by pat_completeness auto
termination
proof (relation "measure length", goal_cases)
  case (2 s blanks c t)
  then have "length (c # t) \<le> length (drop 2 s)" by (metis length_dropWhile_le)
  then show ?case using 2(1) by simp
qed auto

declare osip_util_replace_all_lws.simps [simp del]

section \<open>The end of a line\<close>

text \<open>The code is \<open>-2\<close>, and the pointer NULL, when the next line continues this one.\<close>

definition osip_find_next_crlf :: "string \<Rightarrow> int \<times> cstr" where
  "osip_find_next_crlf start_of_header =
    (let soh = dropWhile (\<lambda>c. c \<noteq> CR \<and> c \<noteq> LF) start_of_header in
     if soh = [] then (OSIP_SYNTAXERROR, None)
     else let soh = (if cur soh = CR \<and> cur (tl soh) = LF then tl soh else soh) in
       if is_sp_tab (cur (tl soh)) then (-2, None) else (OSIP_SUCCESS, Some (tl soh)))"

lemma find_next_crlf_split:
  assumes "osip_find_next_crlf s = (i, Some e)"
  shows "\<exists>a c. s = a @ c # e"
proof -
  let ?soh = "dropWhile (\<lambda>c. c \<noteq> CR \<and> c \<noteq> LF) s"
  obtain c r where soh: "?soh = c # r"
    using assms by (cases ?soh) (auto simp: osip_find_next_crlf_def)
  then have s: "s = takeWhile (\<lambda>c. c \<noteq> CR \<and> c \<noteq> LF) s @ c # r" by (metis takeWhile_dropWhile_id)
  have "e = r \<or> (\<exists>d. r = d # e)"
    using assms soh by (cases r) (auto simp: osip_find_next_crlf_def Let_def split: if_splits)
  then show ?thesis
  proof (elim disjE exE)
    fix d
    assume "r = d # e"
    then have "s = (takeWhile (\<lambda>c. c \<noteq> CR \<and> c \<noteq> LF) s @ [c]) @ d # e" using s by simp
    then show ?thesis by blast
  qed (use s in blast)
qed

lemma find_next_crlf_shorter: "osip_find_next_crlf s = (i, Some e) \<Longrightarrow> length e < length s"
  using find_next_crlf_split [of s i e] by auto

text \<open>
  The loop over the lines of a part; a continuation line makes it follow the NULL pointer.
\<close>

function osip_find_next_crlfcrlf :: "string \<Rightarrow> (int \<times> cstr) option" where
  "osip_find_next_crlfcrlf start_of_line =
    (case osip_find_next_crlf start_of_line of
       (i, end_of_line) \<Rightarrow>
         if i \<noteq> -2 \<and> i \<noteq> 0 then Some (i, None)
         else (case end_of_line of
             None \<Rightarrow> None
           | Some e \<Rightarrow>
               if e = [] then Some (OSIP_SYNTAXERROR, None)
               else if cur e = CR
               then Some (OSIP_SUCCESS, Some (if cur (tl e) = LF then drop 2 e else tl e))
               else if cur e = LF then Some (OSIP_SUCCESS, Some (tl e))
               else osip_find_next_crlfcrlf e))"
  by pat_completeness auto
termination
  by (relation "measure length") (auto dest: find_next_crlf_shorter [OF sym])

declare osip_find_next_crlfcrlf.simps [simp del]

lemma continuation_line_is_followed_into_null: "osip_find_next_crlfcrlf [CHR ''a'', CR, LF, CHR '' '', CHR ''b'', CR, LF, CR, LF] = None"
  by code_simp

section \<open>Request line\<close>

type_synonym 'a line_result = "((int \<times> 'a osip_message_scheme \<times> string) \<times> mem) option"

text \<open>An error frees the method and the URI; \<open>headers\<close> is then the start of the line.\<close>

definition startline_version ::
  "'a osip_message_scheme \<Rightarrow> string \<Rightarrow> string \<Rightarrow> mem \<Rightarrow> 'a line_result" where
  "startline_version dest buf p1 m =
    (let failed = (\<lambda>i. (i, dest\<lparr>sip_method := None, req_uri := None\<rparr>, buf)) in do {
     rest \<leftarrow> advance 1 p1;
     if length rest < 7 then Some (failed OSIP_SYNTAXERROR, m)
     else if map tolower (take 3 rest) \<noteq> ''sip'' \<or> rest ! 3 \<noteq> CHR ''/'' then Some (failed OSIP_SYNTAXERROR, m)
     else do {
       version \<leftarrow> advance 4 rest;
       let hp = dropWhile (\<lambda>c. is_c_digit c \<or> c = CHR ''.'') version;
       if cur hp \<noteq> CR \<and> cur hp \<noteq> LF then Some (failed OSIP_SYNTAXERROR, m)
       else if ptr_diff hp p1 < 2 then Some (failed OSIP_SYNTAXERROR, m)
       else alloc_or m (failed OSIP_NOMEM) (\<lambda>m. do {
         v \<leftarrow> osip_strncpy (ptr_diff hp p1) rest (ptr_diff hp p1 - 1);
         next \<leftarrow> advance 1 hp;
         let headers = (if cur next \<noteq> NUL \<and> cur hp = CR \<and> cur next = LF then tl next else next);
         Some ((OSIP_SUCCESS, dest\<lparr>sip_version := Some v\<rparr>, headers), m)
       })
     }
   })"

definition osip_message_startline_parsereq :: "'a osip_message_scheme \<Rightarrow> string \<Rightarrow> mem \<Rightarrow> 'a line_result" where
  "osip_message_startline_parsereq dest buf m =
    (let dest = dest\<lparr>sip_method := None, status_code := 0, reason_phrase := None\<rparr>;
         failed = (\<lambda>i. (i, dest, buf))
     in (case strchr buf CHR '' '' of
         None \<Rightarrow> Some (failed OSIP_SYNTAXERROR, m)
       | Some p2 \<Rightarrow>
           if length p2 < 3 then Some (failed OSIP_SYNTAXERROR, m)
           else if ptr_diff p2 buf = 0 then Some (failed OSIP_SYNTAXERROR, m)
           else alloc_or m (failed OSIP_NOMEM) (\<lambda>m. do {
             mtd \<leftarrow> osip_strncpy (ptr_diff p2 buf + 1) buf (ptr_diff p2 buf);
             rest \<leftarrow> advance 1 p2;
             search \<leftarrow> advance 2 p2;
             (case strchr search CHR '' '' of
                None \<Rightarrow> Some (failed OSIP_SYNTAXERROR, m)
              | Some p1 \<Rightarrow>
                  if ptr_diff p1 p2 < 2 then Some (failed OSIP_SYNTAXERROR, m)
                  else alloc_or m (failed OSIP_NOMEM) (\<lambda>m. do {
                    requesturi \<leftarrow> osip_clrncpy (ptr_diff p1 p2) (Some rest) (ptr_diff p1 p2 - 1);
                    alloc_or m (failed OSIP_NOMEM) (\<lambda>m. do {
                      ((i, uri), m) \<leftarrow> osip_uri_parse osip_uri_init (Some requesturi) m;
                      if i \<noteq> 0 then Some ((OSIP_SYNTAXERROR, dest\<lparr>req_uri := None\<rparr>, buf), m)
                      else startline_version (dest\<lparr>sip_method := Some mtd, req_uri := Some uri\<rparr>) buf p1 m
                    })
                  }))
           })))"

section \<open>Status line\<close>

text \<open>
  \<^verbatim>\<open>sscanf (s, "%d", &n)\<close>: the C library of the build reads a 64 bit number, the nearest one
  when it does not fit, and keeps its low 32 bits.
\<close>

definition sscanf_d :: "string \<Rightarrow> int option" where
  "sscanf_d s =
    (let w = dropWhile is_c_space s;
         body = (if cur w = CHR ''-'' \<or> cur w = CHR ''+'' then tl w else w);
         ds = takeWhile is_c_digit body;
         n = (if cur w = CHR ''-'' then - digits_value ds else digits_value ds)
     in if ds = [] then None else Some (signed_take_bit 31 (max (- (2 ^ 63)) (min (2 ^ 63 - 1) n))))"

definition osip_message_startline_parseresp :: "'a osip_message_scheme \<Rightarrow> string \<Rightarrow> mem \<Rightarrow> 'a line_result" where
  "osip_message_startline_parseresp dest buf m =
    (let dest = dest\<lparr>req_uri := None, sip_method := None\<rparr> in
     (case strchr buf CHR '' '' of
        None \<Rightarrow> Some ((OSIP_SYNTAXERROR, dest, buf), m)
      | Some statuscode \<Rightarrow>
          alloc_or m (OSIP_NOMEM, dest\<lparr>sip_version := None\<rparr>, buf) (\<lambda>m. do {
            v \<leftarrow> osip_strncpy (ptr_diff statuscode buf + 1) buf (ptr_diff statuscode buf);
            let dest = dest\<lparr>sip_version := Some v\<rparr>;
            code \<leftarrow> advance 1 statuscode;
            (case strchr code CHR '' '' of
               None \<Rightarrow> Some ((OSIP_SYNTAXERROR, dest\<lparr>sip_version := None\<rparr>, buf), m)
             | Some reasonphrase \<Rightarrow>
                 (case sscanf_d code of
                    None \<Rightarrow> Some ((OSIP_SYNTAXERROR, dest, buf), m)
                  | Some n \<Rightarrow>
                      let dest = dest\<lparr>status_code := n\<rparr> in
                      if n = 0 then Some ((OSIP_SYNTAXERROR, dest, buf), m)
                      else let hp = dropWhile (\<lambda>c. c \<noteq> CR \<and> c \<noteq> LF) reasonphrase in
                        if hp = [] then Some ((OSIP_SYNTAXERROR, dest, buf), m)
                        else alloc_or m (OSIP_NOMEM, dest\<lparr>sip_version := None, reason_phrase := None\<rparr>, buf) (\<lambda>m. do {
                          rest \<leftarrow> advance 1 reasonphrase;
                          reason \<leftarrow> osip_strncpy (ptr_diff hp reasonphrase) rest (ptr_diff hp reasonphrase - 1);
                          next \<leftarrow> advance 1 hp;
                          let headers = (if cur next \<noteq> NUL \<and> cur hp = CR \<and> cur next = LF then tl next else next);
                          Some ((OSIP_SUCCESS, dest\<lparr>reason_phrase := Some reason\<rparr>, headers), m)
                        })))
          })))"

definition osip_message_startline_parse :: "'a osip_message_scheme \<Rightarrow> string \<Rightarrow> mem \<Rightarrow> 'a line_result" where
  "osip_message_startline_parse dest buf m =
    (if take 4 buf = ''SIP/'' then osip_message_startline_parseresp dest buf m
     else osip_message_startline_parsereq dest buf m)"

section \<open>Printing\<close>

definition osip_message_startline_to_strreq :: "'a osip_message_scheme option \<Rightarrow> mem \<Rightarrow> ((int \<times> cstr) \<times> mem) option" where
  "osip_message_startline_to_strreq sip m =
    (case sip of
       None \<Rightarrow> Some ((OSIP_BADPARAMETER, None), m)
     | Some sip \<Rightarrow>
         if req_uri sip = None \<or> sip_method sip = None then Some ((OSIP_BADPARAMETER, None), m)
         else do {
           mtd \<leftarrow> sip_method sip;
           ((i, rquri), m) \<leftarrow> osip_uri_to_str (req_uri sip) m;
           if i \<noteq> 0 then Some ((i, None), m)
           else do {
             rquri \<leftarrow> rquri;
             let version = (case sip_version sip of None \<Rightarrow> ''SIP/2.0'' | Some v \<Rightarrow> v);
             alloc_or m (OSIP_NOMEM, None) (\<lambda>m. do {
               dest \<leftarrow> sprintf_at (length mtd + length rquri + length version + 3) []
                 (mtd @ '' '' @ rquri @ '' '' @ version);
               Some ((OSIP_SUCCESS, Some dest), m)
             })
           }
         })"

text \<open>The status code, printed with three digits.\<close>

definition three_digits :: "int \<Rightarrow> string" where
  "three_digits n = map (\<lambda>d. char_of (48 + nat d)) [n div 100, n div 10 mod 10, n mod 10]"

definition osip_message_startline_to_strresp :: "'a osip_message_scheme option \<Rightarrow> mem \<Rightarrow> ((int \<times> cstr) \<times> mem) option" where
  "osip_message_startline_to_strresp sip m =
    (case sip of
       None \<Rightarrow> Some ((OSIP_BADPARAMETER, None), m)
     | Some sip \<Rightarrow>
         if reason_phrase sip = None \<or> status_code sip < 100 \<or> 699 < status_code sip
         then Some ((OSIP_BADPARAMETER, None), m)
         else do {
           reason \<leftarrow> reason_phrase sip;
           let version = (case sip_version sip of None \<Rightarrow> ''SIP/2.0'' | Some v \<Rightarrow> v);
           alloc_or m (OSIP_NOMEM, None) (\<lambda>m. do {
             dest \<leftarrow> sprintf_at (length version + 3 + length reason + 4) []
               (version @ '' '' @ three_digits (status_code sip) @ '' '' @ reason);
             Some ((OSIP_SUCCESS, Some dest), m)
           })
         })"

definition osip_message_startline_to_str :: "'a osip_message_scheme option \<Rightarrow> mem \<Rightarrow> ((int \<times> cstr) \<times> mem) option" where
  "osip_message_startline_to_str sip m = do {
     s \<leftarrow> sip;
     if sip_method s \<noteq> None then osip_message_startline_to_strreq sip m
     else if status_code s \<noteq> 0 then osip_message_startline_to_strresp sip m
     else Some ((OSIP_BADPARAMETER, None), m)
   }"

section \<open>No undefined behaviour\<close>

lemma advance_line_end [defined]: "\<not> (cur s \<noteq> CR \<and> cur s \<noteq> LF) \<Longrightarrow> advance 1 s \<noteq> None"
  by (cases s) auto

lemma startline_version_defined [defined]:
  assumes "p1 \<noteq> []"
  shows "startline_version dest buf p1 m \<noteq> None"
proof -
  obtain c rest where p1: "p1 = c # rest" using assms by (cases p1) auto
  show ?thesis
    unfolding startline_version_def Let_def p1 advance_simps bind.bind_lunit
    by (intro bind_defined if_defined Some_defined alloc_or_defined advance_line_end)
      (auto simp: advance_def osip_strncpy_def split: if_splits)
qed

lemma osip_message_startline_parsereq_defined [defined]: "osip_message_startline_parsereq dest buf m \<noteq> None"
  unfolding osip_message_startline_parsereq_def Let_def
  by (intro defined) (auto simp: Suc_le_eq ptr_diff_def advance_def dest!: strchr_hd split: if_splits)

lemma osip_message_startline_parseresp_defined [defined]: "osip_message_startline_parseresp dest buf m \<noteq> None"
proof -
  have "length (dropWhile f r) < length r" if "strchr s CHR '' '' = Some r" "f CHR '' ''" for f s r
    using strchr_hd [OF that(1)] that(2) length_dropWhile_le [of f "tl r"] by auto
  then show ?thesis
    unfolding osip_message_startline_parseresp_def Let_def
    by (intro defined) (auto simp: Suc_le_eq ptr_diff_def dest!: strchr_hd)
qed

theorem osip_message_startline_parse_defined [defined]: "osip_message_startline_parse dest buf m \<noteq> None"
  unfolding osip_message_startline_parse_def by (intro defined)

section \<open>Reading back a printed start line\<close>

definition sip_version_wf :: "string \<Rightarrow> bool" where
  "sip_version_wf v \<longleftrightarrow> take 4 v = ''SIP/'' \<and> 7 \<le> length v \<and> list_all (\<lambda>c. is_c_digit c \<or> c = CHR ''.'') (drop 4 v)"

definition request_line_wf :: "'a osip_message_scheme \<Rightarrow> bool" where
  "request_line_wf sip \<longleftrightarrow> status_code sip = 0 \<and> reason_phrase sip = None
    \<and> (case sip_method sip of None \<Rightarrow> False | Some mtd \<Rightarrow> mtd \<noteq> [] \<and> CHR '' '' \<notin> set mtd \<and> take 4 mtd \<noteq> ''SIP/'')
    \<and> (case req_uri sip of None \<Rightarrow> False | Some u \<Rightarrow> uri_wf u \<and> 2 \<le> length (uri_text u) \<and> list_all (\<lambda>c. \<not> is_blank c) (uri_text u))
    \<and> (case sip_version sip of None \<Rightarrow> False | Some v \<Rightarrow> sip_version_wf v)"

definition status_line_wf :: "'a osip_message_scheme \<Rightarrow> bool" where
  "status_line_wf sip \<longleftrightarrow> sip_method sip = None \<and> req_uri sip = None
    \<and> 100 \<le> status_code sip \<and> status_code sip \<le> 699
    \<and> (case reason_phrase sip of None \<Rightarrow> False | Some r \<Rightarrow> CR \<notin> set r \<and> LF \<notin> set r)
    \<and> (case sip_version sip of None \<Rightarrow> False | Some v \<Rightarrow> sip_version_wf v)"

definition startline_text :: "'a osip_message_scheme \<Rightarrow> string" where
  "startline_text sip =
    (let version = (case sip_version sip of None \<Rightarrow> ''SIP/2.0'' | Some v \<Rightarrow> v) in
     case sip_method sip of
       Some mtd \<Rightarrow> mtd @ '' '' @ uri_text (the (req_uri sip)) @ '' '' @ version
     | None \<Rightarrow> version @ '' '' @ three_digits (status_code sip) @ '' '' @ the (reason_phrase sip))"

definition same_startline :: "'a osip_message_scheme \<Rightarrow> 'b osip_message_scheme \<Rightarrow> 'b osip_message_scheme" where
  "same_startline sip dest = dest\<lparr>sip_version := sip_version sip, req_uri := req_uri sip,
     sip_method := sip_method sip, status_code := status_code sip, reason_phrase := reason_phrase sip\<rparr>"

lemma after_version:
  assumes "sip_version_wf v"
  shows "dropWhile (\<lambda>c. is_c_digit c \<or> c = CHR ''.'') (drop 4 (v @ CR # LF # r)) = CR # LF # r"
    "map tolower (take 3 (v @ CR # LF # r)) = ''sip''" "(v @ CR # LF # r) ! 3 = CHR ''/''"
proof -
  obtain w where v: "v = ''SIP/'' @ w" "list_all (\<lambda>c. is_c_digit c \<or> c = CHR ''.'') w"
    using assms by (metis append_take_drop_id sip_version_wf_def)
  show "dropWhile (\<lambda>c. is_c_digit c \<or> c = CHR ''.'') (drop 4 (v @ CR # LF # r)) = CR # LF # r"
    using v by (auto simp: list_all_iff is_c_digit_def)
  have "tolower CHR ''S'' = CHR ''s'' \<and> tolower CHR ''I'' = CHR ''i'' \<and> tolower CHR ''P'' = CHR ''p''" by code_simp
  then show "map tolower (take 3 (v @ CR # LF # r)) = ''sip''" using v by simp
  show "(v @ CR # LF # r) ! 3 = CHR ''/''" using v by simp
qed

lemma version_no_blank:
  assumes "sip_version_wf v"
  shows "CHR '' '' \<notin> set v"
proof -
  obtain w where "v = ''SIP/'' @ w" "list_all (\<lambda>c. is_c_digit c \<or> c = CHR ''.'') w"
    using assms by (metis append_take_drop_id sip_version_wf_def)
  then show ?thesis by (auto simp: list_all_iff is_c_digit_def)
qed

lemma startline_version_text:
  assumes "sip_version_wf v"
  shows "startline_version dest buf (CHR '' '' # v @ CR # LF # r) [] = Some ((OSIP_SUCCESS, dest\<lparr>sip_version := Some v\<rparr>, r), [])"
proof -
  note after = after_version [OF assms, of r]
  have len: "7 \<le> length v" "v \<noteq> []" using assms by (auto simp: sip_version_wf_def)
  have copy: "osip_strncpy (1 + int (length v)) (v @ CR # LF # r) (int (length v)) = Some v"
    by (simp add: osip_strncpy_def)
  have diff: "ptr_diff (CR # LF # r) (CHR '' '' # v @ CR # LF # r) = 1 + int (length v)" by (simp add: ptr_diff_def)
  have four: "advance 4 (v @ CR # LF # r) = Some (drop 4 (v @ CR # LF # r))" using len by (simp add: advance_def)
  show ?thesis
    unfolding startline_version_def Let_def advance_simps bind.bind_lunit four after(1) diff
    using len after(2,3) copy by simp
qed

lemma request_line_text:
  assumes "request_line_wf sip"
  shows "osip_message_startline_parse dest (startline_text sip @ CR # LF # r) []
    = Some ((OSIP_SUCCESS, same_startline sip dest, r), [])"
proof -
  obtain mtd u v where sip: "sip_method sip = Some mtd" "req_uri sip = Some u" "sip_version sip = Some v"
    and mtd: "mtd \<noteq> []" "CHR '' '' \<notin> set mtd" "take 4 mtd \<noteq> ''SIP/''"
    and u: "uri_wf u" "2 \<le> length (uri_text u)" "list_all (\<lambda>c. \<not> is_blank c) (uri_text u)"
    and v: "sip_version_wf v" and none: "status_code sip = 0" "reason_phrase sip = None"
    using assms by (auto simp: request_line_wf_def split: option.splits)
  let ?v = "CHR '' '' # v @ CR # LF # r" and ?u = "uri_text u"
  have blank: "CHR '' '' \<notin> set ?u" "tight ?u"
    using u(3) by (auto simp: list_all_iff is_blank_def tight_def)
  have same: "dest\<lparr>status_code := 0, reason_phrase := None, sip_method := Some mtd, req_uri := Some u, sip_version := Some v\<rparr>
      = same_startline sip dest"
    using sip none by (cases dest) (simp add: same_startline_def)
  obtain x y where xy: "?u = x # y" "y \<noteq> []" using u(2) by (cases ?u) (auto simp: Suc_le_eq)
  have ne: "?u \<noteq> []" using u(2) by auto
  have "osip_clrncpy (1 + int (length ?u)) (Some (?u @ ?v)) (int (length ?u)) = Some ?u"
    by (rule osip_clrncpy_whole [OF blank(2)]) simp
  moreover have "strchr (y @ ?v) CHR '' '' = Some ?v" using blank xy by (simp add: strchr_append)
  moreover have "strchr (mtd @ CHR '' '' # ?u @ ?v) CHR '' '' = Some (CHR '' '' # ?u @ ?v)" by (rule strchr_append [OF mtd(2)])
  moreover have "osip_strncpy (int (length mtd) + 1) (mtd @ CHR '' '' # ?u @ ?v) (int (length mtd)) = Some mtd"
    by (simp add: osip_strncpy_def)
  moreover have "osip_uri_parse osip_uri_init (Some ?u) [] = Some ((OSIP_SUCCESS, u), [])" by (rule uri_codec.parse_text [OF u(1)])
  moreover have "advance 2 (CHR '' '' # ?u @ ?v) = Some (y @ ?v)" using xy by (simp add: advance_def)
  ultimately have "osip_message_startline_parsereq dest (mtd @ CHR '' '' # ?u @ ?v) []
      = Some ((OSIP_SUCCESS, same_startline sip dest, r), [])"
    using mtd ne same unfolding osip_message_startline_parsereq_def
    by (simp add: Let_def ptr_diff_def startline_version_text [OF v])
  moreover have "take 4 (mtd @ CHR '' '' # ?u @ ?v) \<noteq> ''SIP/''"
    using mtd by (cases mtd; cases "tl mtd"; cases "tl (tl mtd)"; cases "tl (tl (tl mtd))") auto
  moreover have "startline_text sip @ CR # LF # r = mtd @ CHR '' '' # ?u @ ?v"
    using sip by (simp add: startline_text_def)
  ultimately show ?thesis by (simp add: osip_message_startline_parse_def)
qed

lemma three_digits_read:
  assumes "100 \<le> n" "n \<le> 699"
  shows "sscanf_d (three_digits n @ CHR '' '' # r) = Some n" "CHR '' '' \<notin> set (three_digits n)"
proof -
  have d: "0 \<le> n div 100" "n div 100 < 10" "0 \<le> n div 10 mod 10" "n div 10 mod 10 < 10" "0 \<le> n mod 10" "n mod 10 < 10"
    using assms by auto
  have dig: "is_c_digit (char_of (48 + nat k))" "(of_char (char_of (48 + nat k) :: char) :: int) = 48 + k"
    "(of_char (char_of (48 + nat k) :: char) :: nat) = 48 + nat k"
    if "0 \<le> k" "k < 10" for k :: int
  proof -
    have "nat k < 10" using that by simp
    then show n: "(of_char (char_of (48 + nat k) :: char) :: nat) = 48 + nat k" by simp
    then show "is_c_digit (char_of (48 + nat k))" using \<open>nat k < 10\<close> by (simp add: is_c_digit_def)
    show "(of_char (char_of (48 + nat k) :: char) :: int) = 48 + k"
      using n that by (metis int_nat_eq of_nat_add of_nat_numeral of_nat_of_char)
  qed
  have plain: "\<not> is_c_space c \<and> c \<noteq> CHR ''-'' \<and> c \<noteq> CHR ''+'' \<and> c \<noteq> CHR '' ''" if "is_c_digit c" for c
    using that by (auto simp: is_c_digit_def is_c_space_def)
  note digs = dig(1) [OF d(1,2)] dig(1) [OF d(3,4)] dig(1) [OF d(5,6)]
  have all: "\<forall>c \<in> set (three_digits n). is_c_digit c" using digs by (simp add: three_digits_def)
  then show "CHR '' '' \<notin> set (three_digits n)" using plain by blast
  have "n = 10 * (n div 10) + n mod 10" "n div 10 = 10 * (n div 10 div 10) + n div 10 mod 10" by simp_all
  moreover have "n div 10 div 10 = n div 100" by (simp add: zdiv_zmult2_eq [symmetric])
  ultimately have "n = 100 * (n div 100) + 10 * (n div 10 mod 10) + n mod 10" by linarith
  then have val: "digits_value (three_digits n) = n"
    using dig(2) [OF d(1,2)] dig(2) [OF d(3,4)] dig(2) [OF d(5,6)] by (simp add: digits_value_def three_digits_def)
  have tw: "takeWhile is_c_digit (three_digits n @ CHR '' '' # r) = three_digits n"
    using digs by (simp add: three_digits_def is_c_digit_def)
  have drop: "dropWhile is_c_space (three_digits n @ CHR '' '' # r) = three_digits n @ CHR '' '' # r"
    and hd: "cur (three_digits n @ CHR '' '' # r) \<noteq> CHR ''-''" "cur (three_digits n @ CHR '' '' # r) \<noteq> CHR ''+''"
    and ne: "three_digits n \<noteq> []"
    using plain [OF digs(1)] by (simp_all add: three_digits_def)
  have "signed_take_bit 31 n = n" using assms by (simp add: signed_take_bit_int_eq_self)
  then show "sscanf_d (three_digits n @ CHR '' '' # r) = Some n"
    using drop hd ne tw val assms by (simp add: sscanf_d_def Let_def)
qed

lemma status_line_text:
  assumes "status_line_wf sip"
  shows "osip_message_startline_parse dest (startline_text sip @ CR # LF # r) []
    = Some ((OSIP_SUCCESS, same_startline sip dest, r), [])"
proof -
  obtain reason v where sip: "reason_phrase sip = Some reason" "sip_version sip = Some v"
    "sip_method sip = None" "req_uri sip = None" and n: "100 \<le> status_code sip" "status_code sip \<le> 699"
    and reason: "CR \<notin> set reason" "LF \<notin> set reason" and v: "sip_version_wf v"
    using assms by (auto simp: status_line_wf_def split: option.splits)
  note digits = three_digits_read [OF n]
  let ?n = "three_digits (status_code sip)"
  let ?reason = "CHR '' '' # reason @ CR # LF # r"
  let ?line = "v @ CHR '' '' # ?n @ ?reason"
  have "strchr ?line CHR '' '' = Some (CHR '' '' # ?n @ ?reason)" by (rule strchr_append [OF version_no_blank [OF v]])
  moreover have "strchr (?n @ ?reason) CHR '' '' = Some ?reason" by (rule strchr_append [OF digits(2)])
  moreover have "osip_strncpy (int (length v) + 1) ?line (int (length v)) = Some v" by (simp add: osip_strncpy_def)
  moreover have hp: "dropWhile (\<lambda>c. c \<noteq> CR \<and> c \<noteq> LF) ?reason = CR # LF # r"
    using reason by (induction reason) auto
  moreover have "osip_strncpy (1 + int (length reason)) (reason @ CR # LF # r) (int (length reason)) = Some reason"
    by (simp add: osip_strncpy_def)
  ultimately have "osip_message_startline_parseresp dest ?line [] = Some ((OSIP_SUCCESS, same_startline sip dest, r), [])"
    using digits(1) sip n unfolding osip_message_startline_parseresp_def
    by (cases dest) (simp add: Let_def ptr_diff_def same_startline_def)
  moreover have "take 4 ?line = ''SIP/''"
    using v by (simp add: sip_version_wf_def)
  moreover have "startline_text sip @ CR # LF # r = ?line" using sip by (simp add: startline_text_def)
  ultimately show ?thesis by (simp add: osip_message_startline_parse_def)
qed

lemma startline_to_str_ok:
  assumes "request_line_wf sip \<or> status_line_wf sip" "never_fails m"
  shows "\<exists>m'. osip_message_startline_to_str (Some sip) m = Some ((OSIP_SUCCESS, Some (startline_text sip)), m') \<and> never_fails m'"
  using assms(1)
proof
  assume "request_line_wf sip"
  then obtain mtd u where sip: "sip_method sip = Some mtd" "req_uri sip = Some u" "uri_wf u"
    by (auto simp: request_line_wf_def split: option.splits)
  obtain m1 where m1: "osip_uri_to_str (Some u) m = Some ((OSIP_SUCCESS, Some (uri_text u)), m1)" "never_fails m1"
    using uri_codec.to_str_ok [OF sip(3) assms(2)] by blast
  obtain m2 where "osip_malloc m1 = (True, m2)" "never_fails m2" using osip_malloc_never_fails [OF m1(2)] by blast
  then show ?thesis
    using sip m1 by (simp add: osip_message_startline_to_str_def osip_message_startline_to_strreq_def
        alloc_or_def sprintf_at_def startline_text_def Let_def)
next
  assume wf: "status_line_wf sip"
  then obtain reason where sip: "reason_phrase sip = Some reason" "sip_method sip = None"
    by (auto simp: status_line_wf_def split: option.splits)
  have n: "100 \<le> status_code sip" "status_code sip \<le> 699" using wf by (simp_all add: status_line_wf_def)
  obtain m1 where "osip_malloc m = (True, m1)" "never_fails m1" using osip_malloc_never_fails [OF assms(2)] by blast
  then show ?thesis
    using sip n by (simp add: osip_message_startline_to_str_def osip_message_startline_to_strresp_def
        alloc_or_def sprintf_at_def startline_text_def three_digits_def Let_def)
qed

theorem startline_roundtrip:
  assumes "request_line_wf sip \<or> status_line_wf sip" "never_fails m"
  shows "\<exists>t m'. osip_message_startline_to_str (Some sip) m = Some ((OSIP_SUCCESS, Some t), m')
    \<and> osip_message_startline_parse dest (t @ CR # LF # r) [] = Some ((OSIP_SUCCESS, same_startline sip dest, r), [])"
  using startline_to_str_ok [OF assms] assms(1) request_line_text [of sip] status_line_text [of sip] by blast

section \<open>Unfolding\<close>

lemma osip_util_replace_all_lws_length: "osip_util_replace_all_lws s = Some t \<Longrightarrow> length t = length s"
proof (induction s arbitrary: t rule: osip_util_replace_all_lws.induct)
  case (1 s)
  note simps = osip_util_replace_all_lws.simps [of s]
  show ?case
  proof (cases "length s < 4 \<or> ends_headers s")
    case True
    then show ?thesis using 1(3) by (simp add: simps)
  next
    case cont: False
    show ?thesis
    proof (cases "folds s")
      case True
      let ?blanks = "takeWhile is_sp_tab (drop 2 s)"
      obtain c r where r: "dropWhile is_sp_tab (drop 2 s) = c # r"
        using 1(3) cont True by (cases "dropWhile is_sp_tab (drop 2 s)") (auto simp: simps)
      then obtain u where u: "osip_util_replace_all_lws r = Some u" "t = replicate (2 + length ?blanks) CHR '' '' @ c # u"
        using 1(3) cont True by (auto simp: simps split: bind_splits)
      have "length (drop 2 s) = length ?blanks + length (c # r)"
        by (metis length_append r takeWhile_dropWhile_id)
      then show ?thesis using 1(1) [OF cont True refl r u(1)] u(2) cont by simp
    next
      case False
      then obtain u where "osip_util_replace_all_lws (tl s) = Some u" "t = cur s # u"
        using 1(3) cont by (auto simp: simps split: bind_splits)
      then show ?thesis using 1(2) [OF cont False] cont by (cases s) simp_all
    qed
  qed
qed

theorem osip_util_replace_all_lws_defined:
  "s = [] \<or> \<not> is_sp_tab (last s) \<Longrightarrow> osip_util_replace_all_lws s \<noteq> None"
proof (induction s rule: osip_util_replace_all_lws.induct)
  case (1 s)
  note simps = osip_util_replace_all_lws.simps [of s]
  show ?case
  proof (cases "length s < 4 \<or> ends_headers s")
    case True
    then show ?thesis by (simp add: simps)
  next
    case cont: False
    then have long: "drop 2 s \<noteq> []" "tl s \<noteq> []" by (simp, cases s) auto
    have last: "\<not> is_sp_tab (last s)" using 1(3) cont by auto
    show ?thesis
    proof (cases "folds s")
      case True
      have "last (drop 2 s) = last s" using long(1) by simp
      then have "dropWhile is_sp_tab (drop 2 s) \<noteq> []"
        using last long(1) by (metis dropWhile_eq_Nil_conv last_in_set)
      then obtain c r where r: "dropWhile is_sp_tab (drop 2 s) = c # r" by (cases "dropWhile is_sp_tab (drop 2 s)") auto
      have "r = [] \<or> last r = last s"
        using \<open>last (drop 2 s) = last s\<close> r by (metis last_appendR last_ConsR list.discI takeWhile_dropWhile_id)
      then have "osip_util_replace_all_lws r \<noteq> None" using 1(1) [OF cont True refl r] last by metis
      then show ?thesis using cont True r by (simp add: simps del: not_None_eq split: bind_splits)
    next
      case False
      have "last (tl s) = last s" using long(2) by (simp add: last_tl)
      then have "osip_util_replace_all_lws (tl s) \<noteq> None" using 1(2) [OF cont False] last by simp
      then show ?thesis using cont False by (simp add: simps del: not_None_eq split: bind_splits)
    qed
  qed
qed

text \<open>A message that ends in a continuation line of blanks only makes it read behind the NUL.\<close>

lemma osip_util_replace_all_lws_reads_past_the_end:
  "osip_util_replace_all_lws [CHR ''a'', CR, LF, CHR '' '', CHR '' ''] = None"
  by code_simp

end
