(* ===== verification/Simple_Headers.thy ===== *)
theory Simple_Headers
  imports From_Parse
begin

text \<open>
  The headers with a simple shape, from \<^verbatim>\<open>osip_content_length.c\<close> (whose type Allow,
  Content-Encoding and MIME-Version share), \<^verbatim>\<open>osip_content_type.c\<close> (Accept),
  \<^verbatim>\<open>osip_accept_encoding.c\<close> (Accept-Language), \<^verbatim>\<open>osip_call_info.c\<close> (Alert-Info and
  Error-Info), \<^verbatim>\<open>osip_content_disposition.c\<close> and \<^verbatim>\<open>osip_header.c\<close>: parsers and printers.
\<close>

section \<open>A text\<close>

record osip_content_length =
  cl_value :: cstr

definition osip_content_length_init :: osip_content_length where
  "osip_content_length_init = \<lparr>cl_value = None\<rparr>"

definition osip_content_length_parse ::
  "osip_content_length \<Rightarrow> cstr \<Rightarrow> mem \<Rightarrow> ((int \<times> osip_content_length) \<times> mem) option" where
  "osip_content_length_parse content_length hvalue m =
    (case hvalue of
       None \<Rightarrow> Some ((OSIP_BADPARAMETER, content_length), m)
     | Some hvalue \<Rightarrow>
         let len = int (length hvalue) in
         if len + 1 < 2 then Some ((OSIP_SYNTAXERROR, content_length), m)
         else alloc_or m (OSIP_NOMEM, content_length) (\<lambda>m. do {
           v \<leftarrow> osip_strncpy (len + 1) hvalue len;
           Some ((OSIP_SUCCESS, content_length\<lparr>cl_value := Some v\<rparr>), m)
         }))"

text \<open>\<^verbatim>\<open>osip_strdup\<close> of NULL is NULL, and so is reported as a lack of memory.\<close>

definition osip_content_length_to_str :: "osip_content_length option \<Rightarrow> mem \<Rightarrow> (int \<times> cstr) \<times> mem" where
  "osip_content_length_to_str cl m =
    (case cl of
       None \<Rightarrow> ((OSIP_BADPARAMETER, None), m)
     | Some cl \<Rightarrow> (case osip_strdup (cl_value cl) m of (d, m) \<Rightarrow>
         ((if d = None then OSIP_NOMEM else OSIP_SUCCESS, d), m)))"

section \<open>Content-Type and Accept\<close>

record osip_content_type =
  ct_type :: cstr
  ct_subtype :: cstr
  ct_params :: "osip_generic_param list"

definition osip_content_type_init :: osip_content_type where
  "osip_content_type_init = \<lparr>ct_type = None, ct_subtype = None, ct_params = []\<rparr>"

definition content_type_names ::
  "osip_content_type \<Rightarrow> string \<Rightarrow> string \<Rightarrow> string \<Rightarrow> mem \<Rightarrow> ((int \<times> osip_content_type) \<times> mem) option" where
  "content_type_names ct hvalue subtype params m =
    (if ptr_diff subtype hvalue + 1 < 2 then Some ((OSIP_SYNTAXERROR, ct), m)
     else alloc_or m (OSIP_NOMEM, ct) (\<lambda>m. do {
       t \<leftarrow> osip_clrncpy (ptr_diff subtype hvalue + 1) (Some hvalue) (ptr_diff subtype hvalue);
       let ct = ct\<lparr>ct_type := Some t\<rparr>;
       if ptr_diff params subtype < 2 then Some ((OSIP_SYNTAXERROR, ct), m)
       else alloc_or m (OSIP_NOMEM, ct) (\<lambda>m. do {
         rest \<leftarrow> advance 1 subtype;
         s \<leftarrow> osip_clrncpy (ptr_diff params subtype) (Some rest) (ptr_diff params subtype - 1);
         Some ((OSIP_SUCCESS, ct\<lparr>ct_subtype := Some s\<rparr>), m)
       })
     }))"

definition osip_content_type_parse ::
  "osip_content_type \<Rightarrow> cstr \<Rightarrow> mem \<Rightarrow> ((int \<times> osip_content_type) \<times> mem) option" where
  "osip_content_type_parse ct hvalue m =
    (case hvalue of
       None \<Rightarrow> Some ((OSIP_SUCCESS, ct), m)
     | Some hvalue \<Rightarrow>
         if hvalue = [] then Some ((OSIP_SUCCESS, ct), m)
         else (case strchr hvalue CHR ''/'' of
           None \<Rightarrow> Some ((OSIP_SYNTAXERROR, ct), m)
         | Some subtype \<Rightarrow>
             (case strchr hvalue CHR '';'' of
                None \<Rightarrow> content_type_names ct hvalue subtype [] m
              | Some params \<Rightarrow> do {
                  ((i, ps), m) \<leftarrow> osip_generic_param_parseall (ct_params ct) params m;
                  let ct = ct\<lparr>ct_params := ps\<rparr>;
                  if i \<noteq> 0 then Some ((i, ct), m) else content_type_names ct hvalue subtype params m
                })))"

text \<open>The buffer grows only when the next parameter does not fit.\<close>

fun content_type_params_to_str ::
  "osip_generic_param list \<Rightarrow> string \<Rightarrow> nat \<Rightarrow> mem \<Rightarrow> ((int \<times> cstr) \<times> mem) option" where
  "content_type_params_to_str [] buf len m = Some ((OSIP_SUCCESS, Some buf), m)"
| "content_type_params_to_str (p # ps) buf len m =
    (case gvalue p of
       None \<Rightarrow> Some ((OSIP_SYNTAXERROR, None), m)
     | Some v \<Rightarrow> do {
         n \<leftarrow> gname p;
         let tmp_len = length buf + 4 + length n + length v + 1;
         (len, m) \<leftarrow> (if len < tmp_len
           then (case osip_malloc m of (ok, m) \<Rightarrow> do { ub_unless ok; Some (tmp_len, m) })
           else Some (len, m));
         content_type_params_to_str ps (snprintf_at len buf (''; '' @ n @ ''='' @ v)) len m
       })"

definition osip_content_type_to_str :: "osip_content_type option \<Rightarrow> mem \<Rightarrow> ((int \<times> cstr) \<times> mem) option" where
  "osip_content_type_to_str content_type m =
    (case content_type of
       None \<Rightarrow> Some ((OSIP_BADPARAMETER, None), m)
     | Some ct \<Rightarrow>
         (case (ct_type ct, ct_subtype ct) of
            (Some t, Some s) \<Rightarrow>
              let len = length t + length s + 4 + 10 * length (ct_params ct) in
              alloc_or m (OSIP_NOMEM, None) (\<lambda>m. do {
                buf \<leftarrow> sprintf_at len [] (t @ ''/'' @ s);
                content_type_params_to_str (ct_params ct) buf len m
              })
          | _ \<Rightarrow> Some ((OSIP_BADPARAMETER, None), m)))"

text \<open>An Accept header may be empty. One with a type and no subtype prints a NULL.\<close>

definition osip_accept_to_str :: "osip_content_type option \<Rightarrow> mem \<Rightarrow> ((int \<times> cstr) \<times> mem) option" where
  "osip_accept_to_str accept m =
    (case accept of
       None \<Rightarrow> Some ((OSIP_BADPARAMETER, None), m)
     | Some a \<Rightarrow>
         let len = (case ct_type a of None \<Rightarrow> 0 | Some t \<Rightarrow> length t) + (case ct_subtype a of None \<Rightarrow> 0 | Some s \<Rightarrow> length s) in
         if len = 0 then alloc_or m (OSIP_NOMEM, None) (\<lambda>m. Some ((OSIP_SUCCESS, Some '' ''), m))
         else let len = len + 4 + 10 * length (ct_params a) in
           alloc_or m (OSIP_NOMEM, None) (\<lambda>m. do {
             t \<leftarrow> ct_type a;
             s \<leftarrow> ct_subtype a;
             buf \<leftarrow> sprintf_at len [] (t @ ''/'' @ s);
             content_type_params_to_str (ct_params a) buf len m
           }))"

section \<open>An element with parameters\<close>

record osip_accept_encoding =
  element :: cstr
  el_params :: "osip_generic_param list"

type_synonym osip_call_info = osip_accept_encoding

definition osip_accept_encoding_init :: osip_accept_encoding where
  "osip_accept_encoding_init = \<lparr>element = None, el_params = []\<rparr>"

definition set_element ::
  "osip_accept_encoding \<Rightarrow> string \<Rightarrow> string \<Rightarrow> mem \<Rightarrow> ((int \<times> osip_accept_encoding) \<times> mem) option" where
  "set_element h hvalue params m =
    (if ptr_diff params hvalue + 1 < 2 then Some ((OSIP_SYNTAXERROR, h), m)
     else alloc_or m (OSIP_NOMEM, h) (\<lambda>m. do {
       e \<leftarrow> osip_clrncpy (ptr_diff params hvalue + 1) (Some hvalue) (ptr_diff params hvalue);
       Some ((OSIP_SUCCESS, h\<lparr>element := Some e\<rparr>), m)
     }))"

definition parse_element ::
  "osip_accept_encoding \<Rightarrow> string \<Rightarrow> cstr \<Rightarrow> mem \<Rightarrow> ((int \<times> osip_accept_encoding) \<times> mem) option" where
  "parse_element h hvalue params m =
    (case params of
       None \<Rightarrow> set_element h hvalue [] m
     | Some params \<Rightarrow> do {
         ((i, ps), m) \<leftarrow> osip_generic_param_parseall (el_params h) params m;
         let h = h\<lparr>el_params := ps\<rparr>;
         if i \<noteq> 0 then Some ((i, h), m) else set_element h hvalue params m
       })"

definition osip_accept_encoding_parse ::
  "osip_accept_encoding \<Rightarrow> cstr \<Rightarrow> mem \<Rightarrow> ((int \<times> osip_accept_encoding) \<times> mem) option" where
  "osip_accept_encoding_parse accept_encoding hvalue m = do {
     hvalue \<leftarrow> hvalue;
     parse_element accept_encoding hvalue (strchr hvalue CHR '';'') m
   }"

definition osip_content_disposition_parse ::
  "osip_call_info \<Rightarrow> cstr \<Rightarrow> mem \<Rightarrow> ((int \<times> osip_call_info) \<times> mem) option" where
  "osip_content_disposition_parse cd hvalue m = do {
     hvalue \<leftarrow> hvalue;
     parse_element cd hvalue (strchr hvalue CHR '';'') m
   }"

definition osip_call_info_parse ::
  "osip_call_info \<Rightarrow> cstr \<Rightarrow> mem \<Rightarrow> ((int \<times> osip_call_info) \<times> mem) option" where
  "osip_call_info_parse call_info hvalue m = do {
     hvalue \<leftarrow> hvalue;
     (case strchr hvalue CHR ''<'' of
        None \<Rightarrow> Some ((OSIP_SYNTAXERROR, call_info), m)
      | Some open \<Rightarrow> do {
          rest \<leftarrow> advance 1 open;
          (case strchr rest CHR ''>'' of
             None \<Rightarrow> Some ((OSIP_SYNTAXERROR, call_info), m)
           | Some close \<Rightarrow> do {
               rest \<leftarrow> advance 1 close;
               parse_element call_info hvalue (strchr rest CHR '';'') m
             })
        })
   }"

definition osip_accept_encoding_to_str :: "osip_accept_encoding option \<Rightarrow> mem \<Rightarrow> ((int \<times> cstr) \<times> mem) option" where
  "osip_accept_encoding_to_str accept_encoding m =
    (case accept_encoding of
       None \<Rightarrow> Some ((OSIP_BADPARAMETER, None), m)
     | Some h \<Rightarrow>
         (case element h of
            None \<Rightarrow> Some ((OSIP_BADPARAMETER, None), m)
          | Some e \<Rightarrow> alloc_or m (OSIP_NOMEM, None) (\<lambda>m. do {
              buf \<leftarrow> sprintf_at (length e + 2) [] e;
              (buf, m) \<leftarrow> from_params_to_str (el_params h) buf (length e + 2) m;
              Some ((OSIP_SUCCESS, Some buf), m)
            })))"

definition osip_call_info_to_str :: "osip_call_info option \<Rightarrow> mem \<Rightarrow> ((int \<times> cstr) \<times> mem) option" where
  "osip_call_info_to_str call_info m =
    (case call_info of
       None \<Rightarrow> Some ((OSIP_BADPARAMETER, None), m)
     | Some h \<Rightarrow>
         (case element h of
            None \<Rightarrow> Some ((OSIP_BADPARAMETER, None), m)
          | Some e \<Rightarrow> alloc_or m (OSIP_NOMEM, None) (\<lambda>m. do {
              buf \<leftarrow> sprintf_at (length e + 2) [] e;
              ((buf, len), m) \<leftarrow> via_params_to_str (el_params h) buf (length e + 2) m;
              Some ((OSIP_SUCCESS, Some buf), m)
            })))"

section \<open>Other headers\<close>

record osip_header =
  h_name :: cstr
  h_value :: cstr

text \<open>The first letter of the name is printed as a capital.\<close>

definition capital :: "string \<Rightarrow> string" where
  "capital s = (case s of [] \<Rightarrow> [] | c # r \<Rightarrow>
     (if of_char c \<in> {97..122 :: nat} then char_of (of_char c - 32 :: nat) else c) # r)"

definition osip_header_to_str :: "osip_header option \<Rightarrow> mem \<Rightarrow> ((int \<times> cstr) \<times> mem) option" where
  "osip_header_to_str header m =
    (case header of
       None \<Rightarrow> Some ((OSIP_BADPARAMETER, None), m)
     | Some h \<Rightarrow>
         (case h_name h of
            None \<Rightarrow> Some ((OSIP_BADPARAMETER, None), m)
          | Some n \<Rightarrow>
              let len = (case h_value h of None \<Rightarrow> 0 | Some v \<Rightarrow> length v) in
              alloc_or m (OSIP_NOMEM, None) (\<lambda>m.
                let dest = snprintf_at (length n + len + 3) []
                  (case h_value h of Some v \<Rightarrow> n @ '': '' @ v | None \<Rightarrow> n @ '': '')
                in Some ((OSIP_SUCCESS, Some (capital dest)), m))))"

section \<open>No undefined behaviour\<close>

lemma strchr_nonempty: "strchr s c = Some t \<Longrightarrow> t \<noteq> []"
  using strchr_hd [of s c t] by auto

lemma strchr_le: "strchr s c = Some t \<Longrightarrow> length t \<le> length s"
  using strchr_hd [of s c t] by auto

lemma osip_content_length_parse_defined [defined]: "osip_content_length_parse cl v m \<noteq> None"
  unfolding osip_content_length_parse_def Let_def by (intro defined) auto

lemma content_type_names_defined [defined]:
  assumes "strchr hvalue CHR ''/'' = Some subtype"
  shows "content_type_names ct hvalue subtype params m \<noteq> None"
  using assms strchr_le [OF assms] unfolding content_type_names_def Let_def
  by (intro defined) (auto simp: ptr_diff_def dest: strchr_nonempty)

lemma osip_content_type_parse_defined [defined]: "osip_content_type_parse ct v m \<noteq> None"
  unfolding osip_content_type_parse_def Let_def by (intro defined; (assumption | simp add: strchr_nonempty))

lemma set_element_defined [defined]: "set_element h hvalue params m \<noteq> None"
  unfolding set_element_def by (intro defined) (auto simp: ptr_diff_def)

lemma parse_element_defined [defined]: "params \<noteq> Some [] \<Longrightarrow> parse_element h hvalue params m \<noteq> None"
  unfolding parse_element_def Let_def by (intro defined) auto

lemma osip_accept_encoding_parse_defined: "osip_accept_encoding_parse h (Some v) m \<noteq> None"
  unfolding osip_accept_encoding_parse_def bind.bind_lunit by (intro defined) (auto dest: strchr_nonempty)

lemma osip_content_disposition_parse_defined: "osip_content_disposition_parse h (Some v) m \<noteq> None"
  unfolding osip_content_disposition_parse_def bind.bind_lunit by (intro defined) (auto dest: strchr_nonempty)

lemma osip_call_info_parse_defined: "osip_call_info_parse h (Some v) m \<noteq> None"
  unfolding osip_call_info_parse_def bind.bind_lunit by (intro defined; (assumption | auto dest: strchr_nonempty))

end
