(* ===== verification/Auth_Parse.thy ===== *)
theory Auth_Parse
  imports Simple_Headers
begin

text \<open>
  The headers of HTTP authentication: the scanners \<^verbatim>\<open>__osip_quoted_string_set\<close> and
  \<^verbatim>\<open>__osip_token_set\<close> and the parser of challenges from \<^verbatim>\<open>osip_www_authenticate.c\<close> (which
  Proxy-Authenticate shares), of credentials from \<^verbatim>\<open>osip_authorization.c\<close>
  (Proxy-Authorization) and of \<^verbatim>\<open>osip_authentication_info.c\<close>. The three parsers are one loop
  over a table of parameters; the table is what differs.
\<close>

section \<open>One parameter\<close>

definition is_auth_sep :: "char \<Rightarrow> bool" where
  "is_auth_sep c \<longleftrightarrow> c = CHR '' '' \<or> c = CHR 0x09 \<or> c = CHR '',''"

text \<open>Where the next parameter begins behind \<open>tmp\<close>; \<open>None\<close> is the end of the header.\<close>

definition next_element :: "string \<Rightarrow> cstr" where
  "next_element tmp =
    (let blank = (\<lambda>c. c = CHR '' '' \<or> c = CHR 0x09);
         tmp = dropWhile (\<lambda>c. c = CHR 0x0A \<or> c = CHR 0x0D) (dropWhile blank tmp)
     in if tmp = [] then None
        else if \<not> blank (cur tmp) then Some tmp
        else (case dropWhile blank tmp of [] \<Rightarrow> None | t \<Rightarrow> Some t))"

text \<open>The answer is the code, \<^verbatim>\<open>*result\<close> and \<^verbatim>\<open>*next\<close>.\<close>

definition osip_quoted_string_set ::
  "string \<Rightarrow> string \<Rightarrow> cstr \<Rightarrow> mem \<Rightarrow> ((int \<times> cstr \<times> cstr) \<times> mem) option" where
  "osip_quoted_string_set name str result m =
    (if result \<noteq> None then Some ((OSIP_SUCCESS, result, Some str), m)
     else let str = dropWhile is_auth_sep str in
       if \<not> osip_strncasecmp_eq name str (length name) then Some ((OSIP_SUCCESS, None, Some str), m)
       else (case strchr str CHR ''='' of
           None \<Rightarrow> Some ((OSIP_SYNTAXERROR, None, None), m)
         | Some hack \<Rightarrow> do {
             let before = dropWhile (\<lambda>c. c = CHR '' '') (rev (take (nat (ptr_diff hack str)) str));
             ub_unless (before \<noteq> []);
             if length before \<noteq> length name then Some ((OSIP_SUCCESS, None, Some str), m)
             else do {
               q1 \<leftarrow> osip_quote_find str;
               (case q1 of
                  None \<Rightarrow> Some ((OSIP_SYNTAXERROR, None, None), m)
                | Some q1 \<Rightarrow> do {
                    rest \<leftarrow> advance 1 (drop q1 str);
                    q2 \<leftarrow> osip_quote_find rest;
                    (case q2 of
                       None \<Rightarrow> Some ((OSIP_SYNTAXERROR, None, None), m)
                     | Some q2 \<Rightarrow> do {
                         behind \<leftarrow> advance 1 (drop q2 rest);
                         if q2 = 0 then Some ((OSIP_SUCCESS, None, next_element behind), m)
                         else alloc_or m (OSIP_NOMEM, None, None) (\<lambda>m. do {
                           v \<leftarrow> osip_strncpy (int q2 + 4) (drop q1 str) (int q2 + 2);
                           Some ((OSIP_SUCCESS, Some v, next_element behind), m)
                         })
                       })
                  })
             }
           }))"

definition osip_token_set ::
  "string \<Rightarrow> string \<Rightarrow> cstr \<Rightarrow> mem \<Rightarrow> ((int \<times> cstr \<times> cstr) \<times> mem) option" where
  "osip_token_set name str result m =
    (if result \<noteq> None then Some ((OSIP_SUCCESS, result, Some str), m)
     else (case strchr str CHR ''='' of
         None \<Rightarrow> Some ((OSIP_SYNTAXERROR, None, None), m)
       | Some beg \<Rightarrow>
           if length str < 6 then Some ((OSIP_SUCCESS, None, None), m)
           else let str = dropWhile is_auth_sep str in
             if \<not> osip_strncasecmp_eq name str (length name) then Some ((OSIP_SUCCESS, None, Some str), m)
             else let end = (case strchr str CHR '','' of None \<Rightarrow> [] | Some e \<Rightarrow> e) in
               if ptr_diff end beg < 2 then Some ((OSIP_SYNTAXERROR, None, None), m)
               else alloc_or m (OSIP_NOMEM, None, None) (\<lambda>m. do {
                 rest \<leftarrow> advance 1 beg;
                 v \<leftarrow> osip_clrncpy (ptr_diff end beg) (Some rest) (ptr_diff end beg - 1);
                 Some ((OSIP_SUCCESS, Some v, next_element (if end \<noteq> [] then tl end else end)), m)
               })))"

section \<open>The loop over the parameters\<close>

text \<open>
  A parameter of a header: whether its value is a quoted string, its name, and how its field is
  read and written. \<open>Inl\<close> is a return from the parser, \<open>Inr\<close> the state of the loop: the header,
  \<open>space\<close>, and \<open>parse_ok\<close> as a truth value.
\<close>

type_synonym 'h auth_field = "bool \<times> string \<times> ('h \<Rightarrow> cstr) \<times> (cstr \<Rightarrow> 'h \<Rightarrow> 'h)"

fun auth_round ::
  "'h auth_field list \<Rightarrow> 'h \<Rightarrow> string \<Rightarrow> bool \<Rightarrow> mem \<Rightarrow> (((int \<times> 'h) + ('h \<times> string \<times> bool)) \<times> mem) option" where
  "auth_round [] h space parse_ok m = Some (Inr (h, space, parse_ok), m)"
| "auth_round ((is_quoted, name, get, put) # fs) h space parse_ok m = do {
     ((i, v, next), m) \<leftarrow> (if is_quoted then osip_quoted_string_set name space (get h) m
                         else osip_token_set name space (get h) m);
     let h = put v h;
     if i \<noteq> 0 then Some (Inl (i, h), m)
     else (case next of
         None \<Rightarrow> Some (Inl (OSIP_SUCCESS, h), m)
       | Some n \<Rightarrow> if n \<noteq> space then auth_round fs h n True m else auth_round fs h space parse_ok m)
   }"

text \<open>A parameter that is not known is passed over, up to the next comma outside quotes.\<close>

definition skip_unknown :: "string \<Rightarrow> (int + string) option" where
  "skip_unknown space =
    (if space = [] then Some (Inl OSIP_SUCCESS)
     else do {
       rest \<leftarrow> advance 1 space;
       (case strchr rest CHR '','' of
          None \<Rightarrow> Some (Inl OSIP_SUCCESS)
        | Some tmp \<Rightarrow> do {
            q1 \<leftarrow> osip_quote_find space;
            (case q1 of
               None \<Rightarrow> Some (Inr tmp)
             | Some q1 \<Rightarrow>
                 if length (drop q1 space) \<le> length tmp then Some (Inr tmp)
                 else do {
                   inside \<leftarrow> advance 1 (drop q1 space);
                   q2 \<leftarrow> osip_quote_find inside;
                   (case q2 of
                      None \<Rightarrow> Some (Inl OSIP_SYNTAXERROR)
                    | Some q2 \<Rightarrow>
                        (case (if length (drop q2 inside) < length tmp then strchr (drop q2 inside) CHR '','' else Some tmp) of
                           None \<Rightarrow> Some (Inl OSIP_SUCCESS)
                         | Some space \<Rightarrow> Some (Inr space)))
                 })
          })
     })"

lemma next_element_le:
  assumes "next_element s = Some t"
  shows "length t \<le> length s"
proof -
  define a where "a = dropWhile (\<lambda>c. c = CHR '' '' \<or> c = CHR 0x09) s"
  define b where "b = dropWhile (\<lambda>c. c = CHR 0x0A \<or> c = CHR 0x0D) a"
  define d where "d = dropWhile (\<lambda>c. c = CHR '' '' \<or> c = CHR 0x09) b"
  have "length a \<le> length s" "length b \<le> length a" "length d \<le> length b"
    unfolding a_def b_def d_def by (rule length_dropWhile_le)+
  moreover have "t = b \<or> t = d"
    using assms unfolding next_element_def Let_def a_def [symmetric] b_def [symmetric] d_def [symmetric]
    by (auto split: if_splits list.splits)
  ultimately show ?thesis by auto
qed

lemma next_element_Nil [simp]: "next_element [] = None"
  by (simp add: next_element_def)

lemma dropWhile_less: "dropWhile f s \<noteq> s \<Longrightarrow> length (dropWhile f s) < length s"
  by (metis length_dropWhile_le le_neq_implies_less append_eq_append_conv self_append_conv2 takeWhile_dropWhile_id)

lemma advance_one_less: "advance (Suc 0) s = Some t \<Longrightarrow> length t < length s"
  by (cases s) (auto simp: advance_def)

lemma skip_seps_progress: "Some (dropWhile f s) = Some n \<Longrightarrow> n \<noteq> s \<Longrightarrow> length n < length s"
  using dropWhile_less [of f s] by auto

lemma behind_progress:
  assumes "advance (Suc 0) (drop k t) = Some b" "next_element b = Some n" "length t \<le> length s"
  shows "length n < length s"
  using advance_one_less [OF assms(1)] next_element_le [OF assms(2)] assms(3) by simp

lemma next_param_progress:
  assumes "next_element (if e \<noteq> [] then tl e else e) = Some n" "length e \<le> length s"
  shows "length n < length s"
proof (cases e)
  case (Cons c r)
  then show ?thesis using next_element_le [of r n] assms by simp
qed (use assms in simp)

lemma osip_quoted_string_set_progress:
  assumes "osip_quoted_string_set name s r m = Some ((i, v, Some n), m')" "n \<noteq> s"
  shows "length n < length s"
proof -
  define t where "t = dropWhile is_auth_sep s"
  have t: "length t \<le> length s" unfolding t_def by (rule length_dropWhile_le)
  have inside: "length n < length s"
    if "advance (Suc 0) (drop q1 t) = Some rest" "advance (Suc 0) (drop q2 rest) = Some b" "next_element b = Some n"
    for q1 q2 rest b
    using behind_progress [OF that(2,3), of s] advance_one_less [OF that(1)] t by simp
  note first = inside [where ?q2.0 = 0, unfolded drop_0]
  have "n = t \<or> n = s \<or> length n < length s"
    using assms(1) unfolding osip_quoted_string_set_def Let_def t_def [symmetric]
    by (auto simp: alloc_or_def split: if_splits option.splits bind_splits prod.splits dest: inside first)
  then show ?thesis using assms(2) dropWhile_less [of is_auth_sep s] unfolding t_def by auto
qed

lemma osip_token_set_progress:
  assumes "osip_token_set name s r m = Some ((i, v, Some n), m')" "n \<noteq> s"
  shows "length n < length s"
proof -
  define t where "t = dropWhile is_auth_sep s"
  have t: "length t \<le> length s" unfolding t_def by (rule length_dropWhile_le)
  define e where "e = (case strchr t CHR '','' of None \<Rightarrow> [] | Some e \<Rightarrow> e)"
  have e: "length e \<le> length s"
    unfolding e_def using t strchr_le [of t "CHR '',''"] by (auto split: option.split intro: order_trans)
  have "n = t \<or> n = s \<or> next_element (if e \<noteq> [] then tl e else e) = Some n"
    using assms(1) unfolding osip_token_set_def Let_def t_def [symmetric] e_def [symmetric]
    by (auto simp: alloc_or_def split: if_splits option.splits bind_splits prod.splits)
  then show ?thesis
    using assms(2) dropWhile_less [of is_auth_sep s] next_param_progress [OF _ e] unfolding t_def by blast
qed

lemma auth_round_progress:
  "auth_round fs h s ok m = Some (Inr (h', s', ok'), m')
    \<Longrightarrow> length s' \<le> length s \<and> (ok' \<longrightarrow> ok \<or> length s' < length s) \<and> (\<not> ok' \<longrightarrow> s' = s \<and> \<not> ok)"
proof (induction fs arbitrary: h s ok m)
  case (Cons f fs)
  obtain is_quoted name get put where f: "f = (is_quoted, name, get, put)" by (cases f) auto
  from Cons.prems obtain i v nx m2 where
    step: "(if is_quoted then osip_quoted_string_set name s (get h) m
            else osip_token_set name s (get h) m) = Some ((i, v, nx), m2)" and
    rest: "(let h = put v h in if i \<noteq> 0 then Some (Inl (i, h), m2)
       else (case nx of None \<Rightarrow> Some (Inl (OSIP_SUCCESS, h), m2)
       | Some n \<Rightarrow> if n \<noteq> s then auth_round fs h n True m2 else auth_round fs h s ok m2))
       = Some (Inr (h', s', ok'), m')"
    unfolding f by (auto split: bind_splits prod.splits)
  from rest have i: "i = 0" by (auto simp: Let_def split: if_splits)
  with rest obtain n where n: "nx = Some n" by (cases nx) (auto simp: Let_def)
  have less: "length n < length s" if "n \<noteq> s"
    using step that osip_quoted_string_set_progress [of name s "get h" m i v n m2]
      osip_token_set_progress [of name s "get h" m i v n m2]
    unfolding n by (auto split: if_splits)
  show ?case
  proof (cases "n = s")
    case True
    then show ?thesis using Cons.IH [of "put v h" s ok m2] rest i n by (simp add: Let_def)
  next
    case False
    then show ?thesis using Cons.IH [of "put v h" n True m2] rest i n less by (auto simp: Let_def)
  qed
qed simp

lemma skip_unknown_progress:
  assumes "skip_unknown s = Some (Inr s')"
  shows "length s' < length s"
proof -
  have near: "length t < length s" if "advance (Suc 0) s = Some r" "strchr r c = Some t" for r c t
    using advance_one_less [OF that(1)] strchr_le [OF that(2)] by simp
  have far: "length t < length s"
    if "advance (Suc 0) (drop q1 s) = Some r" "strchr (drop q2 r) c = Some t" for r c t q1 q2
    using advance_one_less [OF that(1)] strchr_le [OF that(2)] by simp
  show ?thesis
    using assms unfolding skip_unknown_def
    by (auto split: if_splits option.splits bind_splits dest: near far)
qed

function auth_loop :: "'h auth_field list \<Rightarrow> 'h \<Rightarrow> string \<Rightarrow> mem \<Rightarrow> ((int \<times> 'h) \<times> mem) option" where
  "auth_loop fs h space m =
    (case auth_round fs h space False m of
       None \<Rightarrow> None
     | Some (Inl r, m) \<Rightarrow> Some (r, m)
     | Some (Inr (h, space, parse_ok), m) \<Rightarrow>
         if parse_ok then auth_loop fs h space m
         else (case skip_unknown space of
             None \<Rightarrow> None
           | Some (Inl i) \<Rightarrow> Some ((i, h), m)
           | Some (Inr space) \<Rightarrow> auth_loop fs h space m))"
  by pat_completeness auto
termination
  by (relation "measure (\<lambda>(fs, h, space, m). length space)")
    (auto dest!: auth_round_progress skip_unknown_progress)

declare auth_loop.simps [simp del]

section \<open>The three parsers\<close>

record osip_www_authenticate =
  www_auth_type :: cstr
  www_realm :: cstr
  www_domain :: cstr
  www_nonce :: cstr
  www_opaque :: cstr
  www_stale :: cstr
  www_algorithm :: cstr
  www_qop_options :: cstr
  www_version :: cstr
  www_targetname :: cstr
  www_gssapi_data :: cstr
  www_auth_param :: cstr

record osip_authentication_info =
  ai_auth_type :: cstr
  ai_nextnonce :: cstr
  ai_qop_options :: cstr
  ai_rspauth :: cstr
  ai_cnonce :: cstr
  ai_nonce_count :: cstr
  ai_snum :: cstr
  ai_srand :: cstr
  ai_realm :: cstr
  ai_targetname :: cstr
  ai_opaque :: cstr

definition osip_www_authenticate_init :: osip_www_authenticate where
  "osip_www_authenticate_init = \<lparr>www_auth_type = None, www_realm = None, www_domain = None, www_nonce = None, www_opaque = None, www_stale = None, www_algorithm = None, www_qop_options = None, www_version = None, www_targetname = None, www_gssapi_data = None, www_auth_param = None\<rparr>"

definition osip_authentication_info_init :: osip_authentication_info where
  "osip_authentication_info_init = \<lparr>ai_auth_type = None, ai_nextnonce = None, ai_qop_options = None, ai_rspauth = None,
    ai_cnonce = None, ai_nonce_count = None, ai_snum = None, ai_srand = None, ai_realm = None,
    ai_targetname = None, ai_opaque = None\<rparr>"

definition www_fields :: "osip_www_authenticate auth_field list" where
  "www_fields = [
    (True, ''realm'', www_realm, \<lambda>v h. h\<lparr>www_realm := v\<rparr>),
    (True, ''domain'', www_domain, \<lambda>v h. h\<lparr>www_domain := v\<rparr>),
    (True, ''nonce'', www_nonce, \<lambda>v h. h\<lparr>www_nonce := v\<rparr>),
    (True, ''opaque'', www_opaque, \<lambda>v h. h\<lparr>www_opaque := v\<rparr>),
    (False, ''stale'', www_stale, \<lambda>v h. h\<lparr>www_stale := v\<rparr>),
    (False, ''algorithm'', www_algorithm, \<lambda>v h. h\<lparr>www_algorithm := v\<rparr>),
    (True, ''qop'', www_qop_options, \<lambda>v h. h\<lparr>www_qop_options := v\<rparr>),
    (False, ''version'', www_version, \<lambda>v h. h\<lparr>www_version := v\<rparr>),
    (True, ''targetname'', www_targetname, \<lambda>v h. h\<lparr>www_targetname := v\<rparr>),
    (True, ''gssapi-data'', www_gssapi_data, \<lambda>v h. h\<lparr>www_gssapi_data := v\<rparr>)]"

definition authorization_fields :: "osip_authorization auth_field list" where
  "authorization_fields = [
    (True, ''username'', auth_username, \<lambda>v h. h\<lparr>auth_username := v\<rparr>),
    (True, ''realm'', auth_realm, \<lambda>v h. h\<lparr>auth_realm := v\<rparr>),
    (True, ''nonce'', auth_nonce, \<lambda>v h. h\<lparr>auth_nonce := v\<rparr>),
    (True, ''uri'', auth_uri, \<lambda>v h. h\<lparr>auth_uri := v\<rparr>),
    (True, ''response'', auth_response, \<lambda>v h. h\<lparr>auth_response := v\<rparr>),
    (True, ''digest'', auth_digest, \<lambda>v h. h\<lparr>auth_digest := v\<rparr>),
    (False, ''algorithm'', auth_algorithm, \<lambda>v h. h\<lparr>auth_algorithm := v\<rparr>),
    (True, ''cnonce'', auth_cnonce, \<lambda>v h. h\<lparr>auth_cnonce := v\<rparr>),
    (True, ''opaque'', auth_opaque, \<lambda>v h. h\<lparr>auth_opaque := v\<rparr>),
    (False, ''qop'', auth_message_qop, \<lambda>v h. h\<lparr>auth_message_qop := v\<rparr>),
    (False, ''nc'', auth_nonce_count, \<lambda>v h. h\<lparr>auth_nonce_count := v\<rparr>),
    (False, ''version'', auth_version, \<lambda>v h. h\<lparr>auth_version := v\<rparr>),
    (True, ''targetname'', auth_targetname, \<lambda>v h. h\<lparr>auth_targetname := v\<rparr>),
    (True, ''gssapi-data'', auth_gssapi_data, \<lambda>v h. h\<lparr>auth_gssapi_data := v\<rparr>),
    (True, ''crand'', auth_crand, \<lambda>v h. h\<lparr>auth_crand := v\<rparr>),
    (True, ''cnum'', auth_cnum, \<lambda>v h. h\<lparr>auth_cnum := v\<rparr>)]"

definition authentication_info_fields :: "osip_authentication_info auth_field list" where
  "authentication_info_fields = [
    (True, ''nextnonce'', ai_nextnonce, \<lambda>v h. h\<lparr>ai_nextnonce := v\<rparr>),
    (True, ''cnonce'', ai_cnonce, \<lambda>v h. h\<lparr>ai_cnonce := v\<rparr>),
    (True, ''rspauth'', ai_rspauth, \<lambda>v h. h\<lparr>ai_rspauth := v\<rparr>),
    (False, ''nc'', ai_nonce_count, \<lambda>v h. h\<lparr>ai_nonce_count := v\<rparr>),
    (False, ''qop'', ai_qop_options, \<lambda>v h. h\<lparr>ai_qop_options := v\<rparr>),
    (True, ''snum'', ai_snum, \<lambda>v h. h\<lparr>ai_snum := v\<rparr>),
    (True, ''srand'', ai_srand, \<lambda>v h. h\<lparr>ai_srand := v\<rparr>),
    (True, ''targetname'', ai_targetname, \<lambda>v h. h\<lparr>ai_targetname := v\<rparr>),
    (True, ''realm'', ai_realm, \<lambda>v h. h\<lparr>ai_realm := v\<rparr>),
    (True, ''opaque'', ai_opaque, \<lambda>v h. h\<lparr>ai_opaque := v\<rparr>)]"

definition osip_www_authenticate_parse ::
  "osip_www_authenticate \<Rightarrow> string \<Rightarrow> mem \<Rightarrow> ((int \<times> osip_www_authenticate) \<times> mem) option" where
  "osip_www_authenticate_parse wwwa hvalue m =
    (case strchr hvalue CHR '' '' of
       None \<Rightarrow> Some ((OSIP_SYNTAXERROR, wwwa), m)
     | Some space \<Rightarrow>
         if ptr_diff space hvalue + 1 < 2 then Some ((OSIP_SYNTAXERROR, wwwa), m)
         else alloc_or m (OSIP_NOMEM, wwwa\<lparr>www_auth_type := None\<rparr>) (\<lambda>m. do {
           v \<leftarrow> osip_strncpy (ptr_diff space hvalue + 1) hvalue (ptr_diff space hvalue);
           auth_loop www_fields (wwwa\<lparr>www_auth_type := Some v\<rparr>) space m
         }))"

definition osip_authorization_parse ::
  "osip_authorization \<Rightarrow> string \<Rightarrow> mem \<Rightarrow> ((int \<times> osip_authorization) \<times> mem) option" where
  "osip_authorization_parse auth hvalue m =
    (case strchr hvalue CHR '' '' of
       None \<Rightarrow> Some ((OSIP_SYNTAXERROR, auth), m)
     | Some space \<Rightarrow>
         if ptr_diff space hvalue < 1 then Some ((OSIP_SYNTAXERROR, auth), m)
         else alloc_or m (OSIP_NOMEM, auth\<lparr>auth_type := None\<rparr>) (\<lambda>m. do {
           v \<leftarrow> osip_strncpy (ptr_diff space hvalue + 1) hvalue (ptr_diff space hvalue);
           auth_loop authorization_fields (auth\<lparr>auth_type := Some v\<rparr>) space m
         }))"

definition osip_authentication_info_parse ::
  "osip_authentication_info \<Rightarrow> string \<Rightarrow> mem \<Rightarrow> ((int \<times> osip_authentication_info) \<times> mem) option" where
  "osip_authentication_info_parse ainfo hvalue m =
    (case (strchr hvalue CHR '' '', strchr hvalue CHR ''='') of
       (Some space, Some hack) \<Rightarrow>
         if length hack < length space
         then alloc_or m (OSIP_NOMEM, ainfo\<lparr>ai_auth_type := None\<rparr>) (\<lambda>m. do {
             v \<leftarrow> osip_strncpy (ptr_diff space hvalue + 1) hvalue (ptr_diff space hvalue);
             auth_loop authentication_info_fields (ainfo\<lparr>ai_auth_type := Some v\<rparr>) space m
           })
         else auth_loop authentication_info_fields ainfo hvalue m
     | _ \<Rightarrow> auth_loop authentication_info_fields ainfo hvalue m)"

section \<open>The parsers are safe\<close>

text \<open>The name of a parameter: what the way back from the equals sign stops at.\<close>

definition field_ok :: "'h auth_field \<Rightarrow> bool" where
  "field_ok f \<longleftrightarrow> (case f of (_, name, _, _) \<Rightarrow> name \<noteq> [] \<and> (\<forall>c \<in> set name. c \<noteq> CHR ''='' \<and> c \<noteq> CHR '' ''))"

lemma tolower_same: "of_char d \<in> {..64::nat} \<Longrightarrow> tolower c = tolower d \<Longrightarrow> c = d"
  by (auto simp: tolower_def Let_def split: if_splits)

lemma before_equals:
  assumes name: "name \<noteq> []" "\<forall>c \<in> set name. c \<noteq> CHR ''='' \<and> c \<noteq> CHR '' ''"
    and pre: "osip_strncasecmp_eq name t (length name)" and hack: "strchr t CHR ''='' = Some r"
  shows "dropWhile (\<lambda>c. c = CHR '' '') (rev (take (nat (ptr_diff r t)) t)) \<noteq> []"
proof -
  obtain a ns where a: "name = a # ns" using name(1) by (cases name) auto
  obtain b u where b: "t = b # u" using hack by (cases t) auto
  have "tolower a = tolower b" using pre unfolding a b osip_strncasecmp_eq_def by simp
  then have "b \<noteq> CHR ''=''" "b \<noteq> CHR '' ''"
    using tolower_same [of "CHR ''=''" a] tolower_same [of "CHR '' ''" a] name(2) a by auto
  moreover obtain p q where p: "t = p @ CHR ''='' # q" "r = CHR ''='' # q"
    using strchr_SomeD [OF hack] by blast
  ultimately have "b \<in> set p" using b by (cases p) auto
  moreover have "take (nat (ptr_diff r t)) t = p" using p by (simp add: ptr_diff_def)
  ultimately show ?thesis using \<open>b \<noteq> CHR '' ''\<close> by auto
qed

lemma quote_find_Some: "osip_quote_find s = Some (Some q) \<Longrightarrow> q < length s"
  by (auto simp: osip_quote_find_scan dest: scan_quote_at)

lemma quote_find_step: "osip_quote_find s = Some y \<Longrightarrow> y = Some q \<Longrightarrow> 1 \<le> length (drop q s)"
  using quote_find_Some [of s q] by simp

lemma ub_unless_defined [defined]: "c \<Longrightarrow> ub_unless c \<noteq> None"
  by simp

lemma osip_quoted_string_set_defined:
  assumes "name \<noteq> []" "\<forall>c \<in> set name. c \<noteq> CHR ''='' \<and> c \<noteq> CHR '' ''"
  shows "osip_quoted_string_set name s r m \<noteq> None"
  unfolding osip_quoted_string_set_def Let_def
  by (intro defined; (erule (1) quote_find_step | erule (1) before_equals [OF assms notnotD] | simp))

lemma one_le_length: "p \<noteq> [] \<Longrightarrow> 1 \<le> length p"
  by (cases p) simp_all

lemma osip_token_set_defined: "osip_token_set name s r m \<noteq> None"
  unfolding osip_token_set_def Let_def
  by (intro defined; (erule one_le_length [OF strchr_nonempty] | simp add: ptr_diff_def advance_def split: if_splits))

lemma auth_round_defined: "list_all field_ok fs \<Longrightarrow> auth_round fs h s ok m \<noteq> None"
proof (induction fs arbitrary: h s ok m)
  case (Cons f fs)
  obtain q name get put where f: "f = (q, name, get, put)" by (cases f) auto
  have "name \<noteq> []" "\<forall>c \<in> set name. c \<noteq> CHR ''='' \<and> c \<noteq> CHR '' ''"
    using Cons.prems by (auto simp: f field_ok_def)
  note set = osip_quoted_string_set_defined [OF this] osip_token_set_defined
  have fs: "list_all field_ok fs" using Cons.prems by simp
  show ?case unfolding f auth_round.simps Let_def by (intro defined set Cons.IH fs)
qed simp

lemma skip_unknown_defined: "skip_unknown s \<noteq> None"
  unfolding skip_unknown_def by (intro defined) (auto simp: Suc_le_eq neq_Nil_conv)

lemma auth_loop_defined: "list_all field_ok fs \<Longrightarrow> auth_loop fs h s m \<noteq> None"
proof (induction "length s" arbitrary: h s m rule: less_induct)
  case less
  obtain r m1 where r: "auth_round fs h s False m = Some (r, m1)"
    using auth_round_defined [OF less.prems] by fastforce
  show ?case
  proof (cases r)
    case (Inl a)
    then show ?thesis using r by (subst auth_loop.simps) simp
  next
    case (Inr b)
    obtain h1 s1 ok where b: "b = (h1, s1, ok)" by (cases b) auto
    note prog = auth_round_progress [OF r [unfolded Inr b]]
    obtain k where k: "skip_unknown s1 = Some k" using skip_unknown_defined by blast
    show ?thesis
    proof (cases ok)
      case True
      then have "auth_loop fs h1 s1 m1 \<noteq> None" using less prog by blast
      then show ?thesis using r Inr b True by (subst auth_loop.simps) simp
    next
      case False
      have "auth_loop fs h1 t m1 \<noteq> None" if "k = Inr t" for t
        using less prog False skip_unknown_progress [OF k [unfolded that]] by auto
      then show ?thesis using r Inr b False k by (subst auth_loop.simps) (auto split: sum.split)
    qed
  qed
qed

lemma www_fields_ok: "list_all field_ok www_fields"
  and authorization_fields_ok: "list_all field_ok authorization_fields"
  and authentication_info_fields_ok: "list_all field_ok authentication_info_fields"
  by (simp_all add: www_fields_def authorization_fields_def authentication_info_fields_def field_ok_def)

lemma osip_www_authenticate_parse_defined [defined]: "osip_www_authenticate_parse h v m \<noteq> None"
  unfolding osip_www_authenticate_parse_def
  by (intro defined auth_loop_defined www_fields_ok) (simp_all add: ptr_diff_def)

lemma osip_authorization_parse_defined [defined]: "osip_authorization_parse h v m \<noteq> None"
  unfolding osip_authorization_parse_def
  by (intro defined auth_loop_defined authorization_fields_ok) (simp_all add: ptr_diff_def)

lemma osip_authentication_info_parse_defined [defined]: "osip_authentication_info_parse h v m \<noteq> None"
  unfolding osip_authentication_info_parse_def
  by (intro defined auth_loop_defined authentication_info_fields_ok)
    (auto simp: ptr_diff_def dest: strchr_le
      intro!: defined auth_loop_defined authentication_info_fields_ok split: option.split)

end
