(* ===== verification/Message_Headers.thy ===== *)
theory Message_Headers
  imports Message_Lines Auth_Parse "HOL-Library.Word"
begin

text \<open>
  The headers of a message: the rest of \<^verbatim>\<open>osip_message_t\<close>, the setters of the header files
  (\<^verbatim>\<open>osip_message_set_*\<close>, which allocate a header, parse the value into it and put it into the
  message), the hash table of \<^verbatim>\<open>osip_parser_cfg.c\<close> that finds the setter of a name, and from
  \<^verbatim>\<open>osip_message_parse.c\<close> the splitting of a header field at its commas and the loop over the
  lines.
\<close>

section \<open>Messages\<close>

record osip_body =
  b_body :: cstr
  b_length :: nat
  b_headers :: "osip_header list"
  b_content_type :: "osip_content_type option"

record sip_message = osip_message +
  accepts :: "osip_content_type list"
  accept_encodings :: "osip_accept_encoding list"
  accept_languages :: "osip_accept_encoding list"
  alert_infos :: "osip_call_info list"
  allows :: "osip_content_length list"
  authentication_infos :: "osip_authentication_info list"
  call_infos :: "osip_call_info list"
  content_encodings :: "osip_content_length list"
  content_length :: "osip_content_length option"
  content_type :: "osip_content_type option"
  error_infos :: "osip_call_info list"
  mime_version :: "osip_content_length option"
  proxy_authenticates :: "osip_www_authenticate list"
  proxy_authentication_infos :: "osip_authentication_info list"
  www_authenticates :: "osip_www_authenticate list"
  headers :: "osip_header list"
  bodies :: "osip_body list"

definition sip_message_init :: sip_message where
  "sip_message_init = osip_message.extend osip_message_init \<lparr>accepts = [], accept_encodings = [], accept_languages = [],
    alert_infos = [], allows = [], authentication_infos = [], call_infos = [], content_encodings = [],
    content_length = None, content_type = None, error_infos = [], mime_version = None,
    proxy_authenticates = [], proxy_authentication_infos = [], www_authenticates = [],
    headers = [], bodies = []\<rparr>"

section \<open>Setters\<close>

text \<open>
  The setters do not look at the answer of \<^verbatim>\<open>osip_list_add\<close>, so that a header for which no node
  can be allocated is lost.
\<close>

type_synonym setter = "sip_message \<Rightarrow> cstr \<Rightarrow> mem \<Rightarrow> ((int \<times> sip_message) \<times> mem) option"
type_synonym 'h parse_into = "'h \<Rightarrow> cstr \<Rightarrow> mem \<Rightarrow> ((int \<times> 'h) \<times> mem) option"

text \<open>A header that may be there several times.\<close>

definition add_parsed ::
  "'h \<Rightarrow> 'h parse_into \<Rightarrow> (sip_message \<Rightarrow> 'h list) \<Rightarrow> ('h list \<Rightarrow> sip_message \<Rightarrow> sip_message) \<Rightarrow> setter" where
  "add_parsed h parse get put sip hvalue m =
    alloc_or m (OSIP_NOMEM, sip) (\<lambda>m. do {
      ((i, h), m) \<leftarrow> parse h hvalue m;
      if i \<noteq> 0 then Some ((i, sip), m)
      else (case list_add (get sip) h (-1) m of (hs, m) \<Rightarrow>
        Some ((OSIP_SUCCESS, put hs (sip\<lparr>message_property := 2\<rparr>)), m))
    })"

definition set_in_list ::
  "'h \<Rightarrow> 'h parse_into \<Rightarrow> (sip_message \<Rightarrow> 'h list) \<Rightarrow> ('h list \<Rightarrow> sip_message \<Rightarrow> sip_message) \<Rightarrow> setter" where
  "set_in_list h parse get put sip hvalue m =
    (if hvalue = None \<or> hvalue = Some [] then Some ((OSIP_SUCCESS, sip), m)
     else add_parsed h parse get put sip hvalue m)"

text \<open>A header that may be there once.\<close>

definition set_parsed ::
  "'h \<Rightarrow> 'h parse_into \<Rightarrow> ('h option \<Rightarrow> sip_message \<Rightarrow> sip_message) \<Rightarrow> setter" where
  "set_parsed h parse put sip hvalue m =
    alloc_or m (OSIP_NOMEM, sip) (\<lambda>m. do {
      ((i, h), m) \<leftarrow> parse h hvalue m;
      let sip = sip\<lparr>message_property := 2\<rparr>;
      Some ((i, put (if i \<noteq> 0 then None else Some h) sip), m)
    })"

definition set_once ::
  "int \<Rightarrow> 'h \<Rightarrow> 'h parse_into \<Rightarrow> (sip_message \<Rightarrow> 'h option) \<Rightarrow> ('h option \<Rightarrow> sip_message \<Rightarrow> sip_message) \<Rightarrow> setter" where
  "set_once e h parse get put sip hvalue m =
    (if hvalue = None \<or> hvalue = Some [] then Some ((OSIP_SUCCESS, sip), m)
     else if get sip \<noteq> None then Some ((e, sip), m)
     else set_parsed h parse put sip hvalue m)"

text \<open>Parsers that are only called with a value.\<close>

definition with_value :: "('h \<Rightarrow> string \<Rightarrow> mem \<Rightarrow> ((int \<times> 'h) \<times> mem) option) \<Rightarrow> 'h parse_into" where
  "with_value parse h hvalue m = do { v \<leftarrow> hvalue; parse h v m }"

definition cseq_parse_into :: "osip_cseq parse_into" where
  "cseq_parse_into h hvalue m = do {
     ((i, c), m) \<leftarrow> osip_cseq_parse (Some h) hvalue m;
     c \<leftarrow> c;
     Some ((i, c), m)
   }"

definition osip_message_set_accept :: setter where
  "osip_message_set_accept = add_parsed osip_content_type_init osip_content_type_parse accepts (\<lambda>hs sip. sip\<lparr>accepts := hs\<rparr>)"

definition osip_message_set_accept_encoding :: setter where
  "osip_message_set_accept_encoding = set_in_list osip_accept_encoding_init osip_accept_encoding_parse accept_encodings (\<lambda>hs sip. sip\<lparr>accept_encodings := hs\<rparr>)"

definition osip_message_set_accept_language :: setter where
  "osip_message_set_accept_language = set_in_list osip_accept_encoding_init osip_accept_encoding_parse accept_languages (\<lambda>hs sip. sip\<lparr>accept_languages := hs\<rparr>)"

definition osip_message_set_alert_info :: setter where
  "osip_message_set_alert_info = set_in_list osip_accept_encoding_init osip_call_info_parse alert_infos (\<lambda>hs sip. sip\<lparr>alert_infos := hs\<rparr>)"

definition osip_message_set_allow :: setter where
  "osip_message_set_allow = set_in_list osip_content_length_init osip_content_length_parse allows (\<lambda>hs sip. sip\<lparr>allows := hs\<rparr>)"

definition osip_message_set_authentication_info :: setter where
  "osip_message_set_authentication_info = set_in_list osip_authentication_info_init (with_value osip_authentication_info_parse) authentication_infos (\<lambda>hs sip. sip\<lparr>authentication_infos := hs\<rparr>)"

definition osip_message_set_authorization :: setter where
  "osip_message_set_authorization = set_in_list osip_authorization_init (with_value osip_authorization_parse) authorizations (\<lambda>hs sip. sip\<lparr>authorizations := hs\<rparr>)"

definition osip_message_set_call_id :: setter where
  "osip_message_set_call_id = set_once OSIP_SYNTAXERROR osip_call_id_init (with_value osip_call_id_parse) call_id (\<lambda>h sip. sip\<lparr>call_id := h\<rparr>)"

definition osip_message_set_call_info :: setter where
  "osip_message_set_call_info = set_in_list osip_accept_encoding_init osip_call_info_parse call_infos (\<lambda>hs sip. sip\<lparr>call_infos := hs\<rparr>)"

definition osip_message_set_contact :: setter where
  "osip_message_set_contact = set_in_list osip_from_init osip_contact_parse contacts (\<lambda>hs sip. sip\<lparr>contacts := hs\<rparr>)"

definition osip_message_set_content_encoding :: setter where
  "osip_message_set_content_encoding = set_in_list osip_content_length_init osip_content_length_parse content_encodings (\<lambda>hs sip. sip\<lparr>content_encodings := hs\<rparr>)"

definition osip_message_set_content_length :: setter where
  "osip_message_set_content_length = set_once OSIP_SYNTAXERROR osip_content_length_init osip_content_length_parse content_length (\<lambda>h sip. sip\<lparr>content_length := h\<rparr>)"

definition osip_message_set_content_type :: setter where
  "osip_message_set_content_type sip hvalue m =
    (if content_type sip \<noteq> None then Some ((OSIP_BADPARAMETER, sip), m)
     else if hvalue = None \<or> hvalue = Some [] then Some ((OSIP_SUCCESS, sip), m)
     else set_parsed osip_content_type_init osip_content_type_parse (\<lambda>h sip. sip\<lparr>content_type := h\<rparr>) sip hvalue m)"

definition osip_message_set_cseq :: setter where
  "osip_message_set_cseq = set_once OSIP_BADPARAMETER osip_cseq_init cseq_parse_into cseq (\<lambda>h sip. sip\<lparr>cseq := h\<rparr>)"

definition osip_message_set_error_info :: setter where
  "osip_message_set_error_info = set_in_list osip_accept_encoding_init osip_call_info_parse error_infos (\<lambda>hs sip. sip\<lparr>error_infos := hs\<rparr>)"

definition osip_message_set_from :: setter where
  "osip_message_set_from = set_once OSIP_SYNTAXERROR osip_from_init osip_from_parse msg_from (\<lambda>h sip. sip\<lparr>msg_from := h\<rparr>)"

definition osip_message_set_mime_version :: setter where
  "osip_message_set_mime_version = set_once OSIP_SYNTAXERROR osip_content_length_init osip_content_length_parse mime_version (\<lambda>h sip. sip\<lparr>mime_version := h\<rparr>)"

definition osip_message_set_proxy_authenticate :: setter where
  "osip_message_set_proxy_authenticate = set_in_list osip_www_authenticate_init (with_value osip_www_authenticate_parse) proxy_authenticates (\<lambda>hs sip. sip\<lparr>proxy_authenticates := hs\<rparr>)"

definition osip_message_set_proxy_authentication_info :: setter where
  "osip_message_set_proxy_authentication_info = set_in_list osip_authentication_info_init (with_value osip_authentication_info_parse) proxy_authentication_infos (\<lambda>hs sip. sip\<lparr>proxy_authentication_infos := hs\<rparr>)"

definition osip_message_set_proxy_authorization :: setter where
  "osip_message_set_proxy_authorization = set_in_list osip_authorization_init (with_value osip_authorization_parse) proxy_authorizations (\<lambda>hs sip. sip\<lparr>proxy_authorizations := hs\<rparr>)"

definition osip_message_set_record_route :: setter where
  "osip_message_set_record_route = set_in_list osip_from_init osip_record_route_parse record_routes (\<lambda>hs sip. sip\<lparr>record_routes := hs\<rparr>)"

definition osip_message_set_route :: setter where
  "osip_message_set_route = set_in_list osip_from_init osip_route_parse routes (\<lambda>hs sip. sip\<lparr>routes := hs\<rparr>)"

definition osip_message_set_to :: setter where
  "osip_message_set_to = set_once OSIP_SYNTAXERROR osip_from_init osip_to_parse msg_to (\<lambda>h sip. sip\<lparr>msg_to := h\<rparr>)"

definition osip_message_set_via :: setter where
  "osip_message_set_via = set_in_list osip_via_init osip_via_parse vias (\<lambda>hs sip. sip\<lparr>vias := hs\<rparr>)"

definition osip_message_set_www_authenticate :: setter where
  "osip_message_set_www_authenticate = set_in_list osip_www_authenticate_init (with_value osip_www_authenticate_parse) www_authenticates (\<lambda>hs sip. sip\<lparr>www_authenticates := hs\<rparr>)"

text \<open>A Via in front of the others.\<close>

definition osip_message_append_via :: setter where
  "osip_message_append_via sip hvalue m =
    alloc_or m (OSIP_NOMEM, sip) (\<lambda>m. do {
      ((i, via), m) \<leftarrow> osip_via_parse osip_via_init hvalue m;
      if i \<noteq> 0 then Some ((i, sip), m)
      else (case list_add (vias sip) via 0 m of (vs, m) \<Rightarrow>
        Some ((OSIP_SUCCESS, sip\<lparr>message_property := 2, vias := vs\<rparr>), m))
    })"

text \<open>Headers without a parser of their own.\<close>

definition new_header :: "string \<Rightarrow> cstr \<Rightarrow> mem \<Rightarrow> ((int \<times> osip_header option) \<times> mem) option" where
  "new_header hname hvalue m =
    alloc_or m (OSIP_NOMEM, None) (\<lambda>m. alloc_or m (OSIP_NOMEM, None) (\<lambda>m. do {
      n \<leftarrow> osip_clrncpy (int (length hname) + 1) (Some hname) (int (length hname));
      (case hvalue of
         None \<Rightarrow> Some ((OSIP_SUCCESS, Some \<lparr>h_name = Some n, h_value = None\<rparr>), m)
       | Some hvalue \<Rightarrow> alloc_or m (OSIP_NOMEM, None) (\<lambda>m. do {
           v \<leftarrow> osip_clrncpy (int (length hvalue) + 1) (Some hvalue) (int (length hvalue));
           Some ((OSIP_SUCCESS, Some \<lparr>h_name = Some n, h_value = Some v\<rparr>), m)
         }))
    }))"

definition osip_message_set_header ::
  "sip_message option \<Rightarrow> cstr \<Rightarrow> cstr \<Rightarrow> mem \<Rightarrow> ((int \<times> sip_message option) \<times> mem) option" where
  "osip_message_set_header sip hname hvalue m =
    (case (sip, hname) of
       (Some sip, Some hname) \<Rightarrow> do {
         ((i, h), m) \<leftarrow> new_header hname hvalue m;
         (case h of
            None \<Rightarrow> Some ((i, Some sip), m)
          | Some h \<Rightarrow> (case list_add (headers sip) h (-1) m of (hs, m) \<Rightarrow>
              Some ((OSIP_SUCCESS, Some (sip\<lparr>message_property := 2, headers := hs\<rparr>)), m)))
       }
     | _ \<Rightarrow> Some ((OSIP_BADPARAMETER, sip), m))"

definition osip_message_set_topheader ::
  "sip_message option \<Rightarrow> cstr \<Rightarrow> cstr \<Rightarrow> mem \<Rightarrow> ((int \<times> sip_message option) \<times> mem) option" where
  "osip_message_set_topheader sip hname hvalue m =
    (case (sip, hname) of
       (Some sip, Some hname) \<Rightarrow> do {
         ((i, h), m) \<leftarrow> new_header hname hvalue m;
         (case h of
            None \<Rightarrow> Some ((i, Some sip), m)
          | Some h \<Rightarrow> (case list_add (headers sip) h 0 m of (hs, m) \<Rightarrow>
              Some ((OSIP_SUCCESS, Some (sip\<lparr>message_property := 2, headers := hs\<rparr>)), m)))
       }
     | _ \<Rightarrow> Some ((OSIP_BADPARAMETER, sip), m))"

section \<open>The table of headers\<close>

text \<open>Name, \<^verbatim>\<open>ignored_when_invalid\<close> and \<^verbatim>\<open>setheader\<close>, in the order of \<^verbatim>\<open>pconfig\<close>.\<close>

definition pconfig :: "(string \<times> bool \<times> setter) list" where
  "pconfig = [
    (''accept'', True, osip_message_set_accept),
    (''accept-encoding'', True, osip_message_set_accept_encoding),
    (''accept-language'', True, osip_message_set_accept_language),
    (''alert-info'', True, osip_message_set_alert_info),
    (''allow'', True, osip_message_set_allow),
    (''authentication-info'', True, osip_message_set_authentication_info),
    (''authorization'', True, osip_message_set_authorization),
    (''c'', False, osip_message_set_content_type),
    (''call-id'', False, osip_message_set_call_id),
    (''call-info'', True, osip_message_set_call_info),
    (''contact'', False, osip_message_set_contact),
    (''content-encoding'', True, osip_message_set_content_encoding),
    (''content-length'', False, osip_message_set_content_length),
    (''content-type'', False, osip_message_set_content_type),
    (''cseq'', False, osip_message_set_cseq),
    (''e'', True, osip_message_set_content_encoding),
    (''error-info'', True, osip_message_set_error_info),
    (''f'', False, osip_message_set_from),
    (''from'', False, osip_message_set_from),
    (''i'', False, osip_message_set_call_id),
    (''l'', False, osip_message_set_content_length),
    (''m'', False, osip_message_set_contact),
    (''mime-version'', True, osip_message_set_mime_version),
    (''proxy-authenticate'', True, osip_message_set_proxy_authenticate),
    (''proxy-authentication-info'', True, osip_message_set_proxy_authentication_info),
    (''proxy-authorization'', True, osip_message_set_proxy_authorization),
    (''record-route'', True, osip_message_set_record_route),
    (''route'', True, osip_message_set_route),
    (''t'', False, osip_message_set_to),
    (''to'', False, osip_message_set_to),
    (''v'', False, osip_message_set_via),
    (''via'', False, osip_message_set_via),
    (''www-authenticate'', True, osip_message_set_www_authenticate)]"

text \<open>\<^verbatim>\<open>char\<close> is signed in the build, so a byte above 127 is subtracted.\<close>

definition char_int :: "char \<Rightarrow> int" where
  "char_int c = signed_take_bit 7 (of_char c)"

definition osip_hash :: "string \<Rightarrow> 32 word" where
  "osip_hash str = foldl (\<lambda>hash c. push_bit 5 hash + hash + word_of_int (char_int c)) 5381 str"

abbreviation HASH_TABLE_SIZE :: nat where "HASH_TABLE_SIZE \<equiv> 150"

fun fill_table :: "string list \<Rightarrow> int \<Rightarrow> int list \<Rightarrow> int \<times> int list" where
  "fill_table [] i table = (OSIP_SUCCESS, table)"
| "fill_table (hname # names) i table =
    (let hash = unat (osip_hash hname) mod HASH_TABLE_SIZE in
     if table ! hash = -1 then fill_table names (i + 1) (table[hash := i])
     else (OSIP_UNDEFINED_ERROR, table))"

text \<open>The answer is the code and \<^verbatim>\<open>hdr_ref_table\<close>.\<close>

definition parser_init :: "int \<times> int list" where
  "parser_init = fill_table (map fst pconfig) 0 (replicate HASH_TABLE_SIZE (-1))"

definition osip_message_is_known_header :: "string \<Rightarrow> int" where
  "osip_message_is_known_header hname =
    (let index = snd parser_init ! (unat (osip_hash hname) mod HASH_TABLE_SIZE)
     in if index \<noteq> -1 \<and> fst (pconfig ! nat index) = hname then index else -1)"

definition osip_message_call_method :: "int \<Rightarrow> setter" where
  "osip_message_call_method i dest hvalue m = do {
     ub_unless (0 \<le> i \<and> nat i < length pconfig);
     (case pconfig ! nat i of (hname, ignored_when_invalid, setheader) \<Rightarrow> do {
        ((err, dest), m) \<leftarrow> setheader dest hvalue m;
        Some ((if ignored_when_invalid then OSIP_SUCCESS else err, dest), m)
      })
   }"

section \<open>One header field\<close>

definition osip_message_set__header :: "sip_message \<Rightarrow> cstr \<Rightarrow> cstr \<Rightarrow> mem \<Rightarrow> ((int \<times> sip_message) \<times> mem) option" where
  "osip_message_set__header sip hname hvalue m =
    (case hname of
       None \<Rightarrow> Some ((OSIP_SYNTAXERROR, sip), m)
     | Some n \<Rightarrow>
         let my_index = osip_message_is_known_header n in
         if my_index \<ge> 0 then osip_message_call_method my_index sip hvalue m
         else do {
           ((i, s), m) \<leftarrow> osip_message_set_header (Some sip) hname hvalue m;
           s \<leftarrow> s;
           Some ((OSIP_SUCCESS, s), m)
         })"

text \<open>Headers that are not split at a comma.\<close>

definition not_split :: "string \<Rightarrow> bool" where
  "not_split hname \<longleftrightarrow> hname \<in> set [''date'', ''t'', ''to'', ''f'', ''from'', ''i'', ''call-id'', ''cseq'', ''s'',
     ''subject'', ''expires'', ''server'', ''user-agent'', ''www-authenticate'', ''authentication-info'',
     ''proxy-authenticate'', ''proxy-authorization'', ''proxy-authentication-info'', ''organization'',
     ''authorization'', ''r'', ''refer-to'', ''b'', ''referred-by'']"

definition opens_uri :: "string \<Rightarrow> bool" where
  "opens_uri ptr \<longleftrightarrow> (let p = tl ptr in
     (osip_strncasecmp_eq p ''sip:'' 4 \<or> osip_strncasecmp_eq p ''sips:'' 5 \<or> osip_strncasecmp_eq p ''http:'' 5
      \<or> osip_strncasecmp_eq p ''https:'' 6 \<or> osip_strncasecmp_eq p ''tel:'' 4) \<and> strchr ptr CHR ''>'' \<noteq> None)"

text \<open>The backslashes that end at \<open>ptr\<close>, where the code looks for those in front of a quote.\<close>

definition backslashes_at :: "string \<Rightarrow> string \<Rightarrow> nat" where
  "backslashes_at beg ptr =
    length (takeWhile (\<lambda>c. c = CHR 0x5C) (rev (take (nat (ptr_diff ptr beg) + 1) beg)))"

fun split_header :: "cstr \<Rightarrow> string \<Rightarrow> bool \<Rightarrow> bool \<Rightarrow> string \<Rightarrow> sip_message \<Rightarrow> mem \<Rightarrow> ((int \<times> sip_message) \<times> mem) option" where
  "split_header hname beg inquotes inuri [] sip m =
    (if beg = [] then Some ((OSIP_SUCCESS, sip), m)
     else alloc_or m (OSIP_NOMEM, sip) (\<lambda>m. do {
       avalue \<leftarrow> osip_clrncpy (ptr_diff [] beg + 1) (Some beg) (ptr_diff [] beg);
       osip_message_set__header sip hname (Some avalue) m
     }))"
| "split_header hname beg inquotes inuri (c # r) sip m =
    (if c = CHR 0x22
     then split_header hname beg (if even (backslashes_at beg (c # r)) then \<not> inquotes else inquotes) inuri r sip m
     else if c = CHR ''<''
     then split_header hname beg inquotes (inuri \<or> \<not> inquotes \<and> opens_uri (c # r)) r sip m
     else if c = CHR ''>''
     then split_header hname beg inquotes (inuri \<and> inquotes) r sip m
     else if c = CHR '','' \<and> \<not> inquotes \<and> \<not> inuri
     then if ptr_diff (c # r) beg + 1 < 2 then split_header hname r inquotes inuri r sip m
       else alloc_or m (OSIP_NOMEM, sip) (\<lambda>m. do {
         avalue \<leftarrow> osip_clrncpy (ptr_diff (c # r) beg + 1) (Some beg) (ptr_diff (c # r) beg);
         ((i, sip), m) \<leftarrow> osip_message_set__header sip hname (Some avalue) m;
         if i \<noteq> 0 then Some ((i, sip), m) else split_header hname r inquotes inuri r sip m
       })
     else split_header hname beg inquotes inuri r sip m)"

definition osip_message_set_multiple_header ::
  "sip_message \<Rightarrow> string \<Rightarrow> cstr \<Rightarrow> mem \<Rightarrow> ((int \<times> sip_message) \<times> mem) option" where
  "osip_message_set_multiple_header sip hname hvalue m =
    (let hname = map tolower hname in
     case hvalue of
       None \<Rightarrow> osip_message_set__header sip (Some hname) None m
     | Some v \<Rightarrow>
         if strchr v CHR '','' = None \<or> not_split hname then osip_message_set__header sip (Some hname) hvalue m
         else split_header (Some hname) v False False v sip m)"

section \<open>The lines\<close>

text \<open>
  The third component is \<^verbatim>\<open>*body\<close>, \<open>None\<close> where the code does not write it. Where the next
  line continues the last, \<^verbatim>\<open>end_of_header\<close> is NULL, which is below any \<^verbatim>\<open>colon_index\<close>.
\<close>

text \<open>The name and the value of a line; \<open>None\<close> is a lack of memory.\<close>

definition header_line :: "string \<Rightarrow> string \<Rightarrow> string \<Rightarrow> mem \<Rightarrow> ((string \<times> cstr) option \<times> mem) option" where
  "header_line start_of_header colon_index end_of_header m =
    alloc_or m None (\<lambda>m. do {
      hname \<leftarrow> osip_clrncpy (ptr_diff colon_index start_of_header + 1) (Some start_of_header)
        (ptr_diff colon_index start_of_header);
      k \<leftarrow> (if ptr_diff end_of_header start_of_header < 2 then None
           else Some (nat (ptr_diff end_of_header start_of_header) - 2));
      let before = start_of_header ! k;
      let end = ptr_diff end_of_header colon_index - (if before = CR \<or> before = LF then 2 else 1);
      if end < 2 then Some (Some (hname, None), m)
      else alloc_or m None (\<lambda>m. do {
        rest \<leftarrow> advance 1 colon_index;
        hvalue \<leftarrow> osip_clrncpy (end + 1) (Some rest) (end - 1);
        Some (Some (hname, Some hvalue), m)
      })
    })"

type_synonym headers_result = "((int \<times> sip_message \<times> cstr) \<times> mem) option"

function msg_headers_parse :: "sip_message \<Rightarrow> string \<Rightarrow> mem \<Rightarrow> headers_result" where
  "msg_headers_parse sip start_of_header m =
    (if start_of_header = [] then Some ((OSIP_SUCCESS, sip, None), m)
     else (case osip_find_next_crlf start_of_header of (i, end_of_header) \<Rightarrow>
       if i \<noteq> -2 \<and> i \<noteq> 0 then Some ((i, sip, None), m)
       else if cur start_of_header = CR \<or> cur start_of_header = LF
       then Some ((OSIP_SUCCESS, sip, Some start_of_header), m)
       else (case strchr start_of_header CHR '':'' of
           None \<Rightarrow> Some ((OSIP_SYNTAXERROR, sip, None), m)
         | Some colon_index \<Rightarrow>
             if ptr_diff colon_index start_of_header + 1 < 2 then Some ((OSIP_SYNTAXERROR, sip, None), m)
             else (case end_of_header of
                 None \<Rightarrow> Some ((OSIP_SYNTAXERROR, sip, None), m)
               | Some end_of_header \<Rightarrow>
                   if length colon_index \<le> length end_of_header then Some ((OSIP_SYNTAXERROR, sip, None), m)
                   else (case header_line start_of_header colon_index end_of_header m of
                       None \<Rightarrow> None
                     | Some (None, m) \<Rightarrow> Some ((OSIP_NOMEM, sip, None), m)
                     | Some (Some (hname, hvalue), m) \<Rightarrow>
                         (case osip_message_set_multiple_header sip hname hvalue m of
                            None \<Rightarrow> None
                          | Some ((i, sip), m) \<Rightarrow>
                              if i \<noteq> 0 then Some ((OSIP_SYNTAXERROR, sip, None), m)
                              else msg_headers_parse sip end_of_header m))))))"
  by pat_completeness auto

termination
  by (relation "measure (\<lambda>(sip, s, m). length s)") (auto dest: find_next_crlf_shorter [OF sym])

declare msg_headers_parse.simps [simp del]

section \<open>The hash table\<close>

lemma uint_osip_hash:
  "uint (osip_hash s) = foldl (\<lambda>h c. (33 * h + char_int c) mod 2 ^ 32) 5381 s"
proof -
  have step: "uint (push_bit 5 h + h + word_of_int (char_int c) :: 32 word) = (33 * uint h + char_int c) mod 2 ^ 32"
    for h :: "32 word" and c
  proof -
    have "push_bit 5 h + h + word_of_int (char_int c) = word_of_int (33 * uint h + char_int c)"
      by (simp add: push_bit_eq_mult algebra_simps)
    then show ?thesis by (simp only: uint_word_of_int) simp
  qed
  have "uint (foldl (\<lambda>hash c. push_bit 5 hash + hash + word_of_int (char_int c)) h s)
      = foldl (\<lambda>h c. (33 * h + char_int c) mod 2 ^ 32) (uint h) s" for h :: "32 word"
    by (induction s arbitrary: h) (simp_all only: foldl.simps step)
  from this [of 5381] show ?thesis by (simp add: osip_hash_def)
qed

definition slot :: "string \<Rightarrow> nat" where
  "slot hname = unat (osip_hash hname) mod HASH_TABLE_SIZE"

lemma slot_eq: "slot hname = nat (foldl (\<lambda>h c. (33 * h + char_int c) mod 2 ^ 32) 5381 hname mod 150)"
  unfolding slot_def uint_osip_hash [symmetric] by (simp add: nat_mod_distrib)

lemma char_int_letters:
  "char_int CHR ''-'' = 45"
  "char_int CHR ''a'' = 97"
  "char_int CHR ''c'' = 99"
  "char_int CHR ''d'' = 100"
  "char_int CHR ''e'' = 101"
  "char_int CHR ''f'' = 102"
  "char_int CHR ''g'' = 103"
  "char_int CHR ''h'' = 104"
  "char_int CHR ''i'' = 105"
  "char_int CHR ''l'' = 108"
  "char_int CHR ''m'' = 109"
  "char_int CHR ''n'' = 110"
  "char_int CHR ''o'' = 111"
  "char_int CHR ''p'' = 112"
  "char_int CHR ''q'' = 113"
  "char_int CHR ''r'' = 114"
  "char_int CHR ''s'' = 115"
  "char_int CHR ''t'' = 116"
  "char_int CHR ''u'' = 117"
  "char_int CHR ''v'' = 118"
  "char_int CHR ''w'' = 119"
  "char_int CHR ''x'' = 120"
  "char_int CHR ''y'' = 121"
  "char_int CHR ''z'' = 122"
  by (code_simp+)

lemma pconfig_names: "map fst pconfig = [''accept'', ''accept-encoding'', ''accept-language'', ''alert-info'', ''allow'', ''authentication-info'', ''authorization'', ''c'', ''call-id'', ''call-info'', ''contact'', ''content-encoding'', ''content-length'', ''content-type'', ''cseq'', ''e'', ''error-info'', ''f'', ''from'', ''i'', ''l'', ''m'', ''mime-version'', ''proxy-authenticate'', ''proxy-authentication-info'', ''proxy-authorization'', ''record-route'', ''route'', ''t'', ''to'', ''v'', ''via'', ''www-authenticate'']"
  by (simp add: pconfig_def)

lemma slots:
  "slot ''accept'' = 25"
  "slot ''accept-encoding'' = 21"
  "slot ''accept-language'' = 62"
  "slot ''alert-info'' = 24"
  "slot ''allow'' = 106"
  "slot ''authentication-info'' = 90"
  "slot ''authorization'' = 102"
  "slot ''c'' = 72"
  "slot ''call-id'' = 123"
  "slot ''call-info'' = 0"
  "slot ''contact'' = 109"
  "slot ''content-encoding'' = 144"
  "slot ''content-length'' = 83"
  "slot ''content-type'' = 59"
  "slot ''cseq'' = 49"
  "slot ''e'' = 74"
  "slot ''error-info'' = 58"
  "slot ''f'' = 75"
  "slot ''from'' = 147"
  "slot ''i'' = 78"
  "slot ''l'' = 81"
  "slot ''m'' = 82"
  "slot ''mime-version'' = 126"
  "slot ''proxy-authenticate'' = 5"
  "slot ''proxy-authentication-info'' = 139"
  "slot ''proxy-authorization'' = 117"
  "slot ''record-route'' = 4"
  "slot ''route'' = 22"
  "slot ''t'' = 89"
  "slot ''to'' = 48"
  "slot ''v'' = 91"
  "slot ''via'' = 61"
  "slot ''www-authenticate'' = 84"
  unfolding slot_eq foldl.simps char_int_letters by simp_all

lemma slots_distinct: "distinct (map slot (map fst pconfig))"
  unfolding pconfig_names list.map slots by simp

lemma fill_table_slots:
  assumes "distinct (map slot names)" "\<forall>n \<in> set names. table ! slot n = -1" "length table = HASH_TABLE_SIZE"
  shows "fst (fill_table names i table) = OSIP_SUCCESS
    \<and> (\<forall>k < length names. snd (fill_table names i table) ! slot (names ! k) = i + int k)
    \<and> (\<forall>j. j \<notin> slot ` set names \<longrightarrow> snd (fill_table names i table) ! j = table ! j)"
  using assms
proof (induction names arbitrary: i table)
  case (Cons n ns)
  let ?t = "table[slot n := i]"
  have lt: "slot n < length table" using Cons.prems(3) by (simp add: slot_def)
  have step: "fill_table (n # ns) i table = fill_table ns (i + 1) ?t"
    using Cons.prems(2) by (simp add: slot_def [symmetric])
  have new: "slot n \<notin> slot ` set ns" and dist: "distinct (map slot ns)" using Cons.prems(1) by simp_all
  have "\<forall>k \<in> set ns. ?t ! slot k = -1" using Cons.prems(2) new by (metis image_eqI list.set_intros(2) nth_list_update_neq)
  note IH = Cons.IH [OF dist this, of "i + 1"]
  show ?case
    unfolding step
    using IH new lt Cons.prems(3) by (auto simp: nth_Cons nth_list_update split: nat.split)
qed simp

text \<open>What the table stands for: the first header of the list with this name.\<close>

fun search_header :: "string \<Rightarrow> string list \<Rightarrow> int \<Rightarrow> int" where
  "search_header hname [] i = -1"
| "search_header hname (n # names) i = (if n = hname then i else search_header hname names (i + 1))"

lemma search_header_absent: "hname \<notin> set names \<Longrightarrow> search_header hname names i = -1"
  by (induction names arbitrary: i) auto

lemma search_header_at:
  "k < length names \<Longrightarrow> distinct names \<Longrightarrow> search_header (names ! k) names i = i + int k"
  by (induction names arbitrary: i k) (auto simp: nth_Cons split: nat.split)

lemma parser_init_slots:
  shows "fst parser_init = OSIP_SUCCESS"
    and "k < length pconfig \<Longrightarrow> snd parser_init ! slot (fst (pconfig ! k)) = int k"
    and "j \<notin> slot ` set (map fst pconfig) \<Longrightarrow> j < HASH_TABLE_SIZE \<Longrightarrow> snd parser_init ! j = -1"
proof -
  have "\<forall>n \<in> set (map fst pconfig). replicate HASH_TABLE_SIZE (-1 :: int) ! slot n = -1"
    by (simp add: slot_def)
  note fill = fill_table_slots [OF slots_distinct this, of 0, folded parser_init_def]
  show "fst parser_init = OSIP_SUCCESS" using fill by simp
  show "k < length pconfig \<Longrightarrow> snd parser_init ! slot (fst (pconfig ! k)) = int k"
    using fill by simp
  show "j \<notin> slot ` set (map fst pconfig) \<Longrightarrow> j < HASH_TABLE_SIZE \<Longrightarrow> snd parser_init ! j = -1"
    using fill by simp
qed

theorem osip_message_is_known_header_searches [code]:
  "osip_message_is_known_header hname = search_header hname (map fst pconfig) 0"
proof (cases "slot hname \<in> slot ` set (map fst pconfig)")
  case True
  then obtain k where k: "k < length pconfig" "slot (fst (pconfig ! k)) = slot hname"
    by (auto simp: in_set_conv_nth)
  have entry: "snd parser_init ! slot hname = int k" using parser_init_slots(2) [OF k(1)] k(2) by simp
  have distinct: "distinct (map fst pconfig)" unfolding pconfig_names by simp
  show ?thesis
  proof (cases "fst (pconfig ! k) = hname")
    case eq: True
    then show ?thesis
      using entry search_header_at [of k "map fst pconfig" 0] k(1) distinct
      by (simp add: osip_message_is_known_header_def slot_def [symmetric] del: One_nat_def)
  next
    case ne: False
    have "hname \<notin> set (map fst pconfig)"
    proof
      assume "hname \<in> set (map fst pconfig)"
      then obtain l where l: "l < length pconfig" "fst (pconfig ! l) = hname" by (auto simp: in_set_conv_nth)
      then have "int l = int k" using parser_init_slots(2) [OF l(1)] entry by simp
      then show False using l(2) ne by simp
    qed
    then have "search_header hname (map fst pconfig) 0 = -1" by (rule search_header_absent)
    moreover have "osip_message_is_known_header hname = -1"
      unfolding osip_message_is_known_header_def slot_def [symmetric] Let_def entry using ne by simp
    ultimately show ?thesis by simp
  qed
next
  case False
  have "hname \<notin> set (map fst pconfig)" using False by blast
  then have "search_header hname (map fst pconfig) 0 = -1" by (rule search_header_absent)
  moreover have "snd parser_init ! slot hname = -1"
    by (rule parser_init_slots(3) [OF False]) (simp add: slot_def)
  ultimately show ?thesis
    unfolding osip_message_is_known_header_def slot_def [symmetric] Let_def by simp
qed

section \<open>No undefined behaviour\<close>

lemma case_pair_defined [defined]:
  "(\<And>x y. p = (x, y) \<Longrightarrow> f x y \<noteq> None) \<Longrightarrow> (case p of (x, y) \<Rightarrow> f x y) \<noteq> None"
  by (cases p) simp

text \<open>
  \<^verbatim>\<open>osip_via_parse\<close> reads past the end of a value that ends in a blank. The values of a message
  are copied by \<^verbatim>\<open>osip_clrncpy\<close>, which takes the blanks away.
\<close>

definition no_blank_end :: "string \<Rightarrow> bool" where
  "no_blank_end s \<longleftrightarrow> s = [] \<or> last s \<noteq> CHR '' ''"

definition parses :: "'h parse_into \<Rightarrow> bool" where
  "parses parse \<longleftrightarrow> (\<forall>h v m. no_blank_end v \<longrightarrow> parse h (Some v) m \<noteq> None)"

definition sets :: "setter \<Rightarrow> bool" where
  "sets s \<longleftrightarrow> (\<forall>sip v m. (\<forall>w. v = Some w \<longrightarrow> no_blank_end w) \<longrightarrow> s sip v m \<noteq> None)"

lemma parsesI: "(\<And>h v m. parse h (Some v) m \<noteq> None) \<Longrightarrow> parses parse"
  by (simp add: parses_def)

lemma with_value_parses: "(\<And>h v m. parse h v m \<noteq> None) \<Longrightarrow> parses (with_value parse)"
  by (simp add: parses_def with_value_def del: not_None_eq)

lemma add_parsed_defined: "(\<And>m. parse h v m \<noteq> None) \<Longrightarrow> add_parsed h parse get put sip v m \<noteq> None"
  unfolding add_parsed_def by (intro defined) simp_all

lemma set_in_list_defined: "parses parse \<Longrightarrow> sets (set_in_list h parse get put)"
  unfolding set_in_list_def sets_def
  by (intro allI impI defined add_parsed_defined) (auto simp: parses_def)

lemma set_parsed_defined: "(\<And>m. parse h v m \<noteq> None) \<Longrightarrow> set_parsed h parse put sip v m \<noteq> None"
  unfolding set_parsed_def Let_def by (intro defined) simp_all

lemma set_once_defined: "parses parse \<Longrightarrow> sets (set_once e h parse get put)"
  unfolding set_once_def sets_def
  by (intro allI impI defined set_parsed_defined) (auto simp: parses_def)

lemma cseq_parse_keeps:
  "osip_cseq_parse (Some h) v m = Some ((i, c), m') \<Longrightarrow> c \<noteq> None"
  by (auto simp: osip_cseq_parse_def Let_def alloc_or_def split: option.splits if_splits bind_splits prod.splits)

lemma header_parsers_parse:
  "parses osip_accept_encoding_parse" "parses osip_call_info_parse" "parses osip_content_length_parse"
  "parses (with_value osip_authentication_info_parse)" "parses (with_value osip_authorization_parse)"
  "parses (with_value osip_www_authenticate_parse)" "parses (with_value osip_call_id_parse)"
  "parses osip_contact_parse" "parses osip_from_parse" "parses osip_to_parse" "parses osip_route_parse"
  "parses osip_record_route_parse" "parses osip_via_parse" "parses cseq_parse_into"
proof -
  show "parses osip_via_parse"
    by (auto simp: parses_def no_blank_end_def simp del: not_None_eq intro!: osip_via_parse_defined)
  show "parses cseq_parse_into"
    unfolding cseq_parse_into_def by (intro parsesI defined) (auto dest: cseq_parse_keeps)
qed (((rule with_value_parses | rule parsesI),
    (unfold osip_to_parse_def osip_route_parse_def osip_record_route_parse_def)?,
    rule osip_accept_encoding_parse_defined osip_call_info_parse_defined osip_content_length_parse_defined
      osip_authentication_info_parse_defined osip_authorization_parse_defined osip_www_authenticate_parse_defined
      osip_call_id_parse_defined osip_contact_parse_defined osip_from_parse_defined)+)

lemma osip_message_set_content_type_sets: "sets osip_message_set_content_type"
  unfolding sets_def osip_message_set_content_type_def
  by (intro allI impI defined set_parsed_defined osip_content_type_parse_defined)

lemma osip_message_set_accept_sets: "sets osip_message_set_accept"
  unfolding sets_def osip_message_set_accept_def
  by (intro allI impI add_parsed_defined osip_content_type_parse_defined)

lemmas setter_defs = osip_message_set_accept_encoding_def osip_message_set_accept_language_def
  osip_message_set_alert_info_def osip_message_set_allow_def osip_message_set_authentication_info_def
  osip_message_set_authorization_def osip_message_set_call_id_def osip_message_set_call_info_def
  osip_message_set_contact_def osip_message_set_content_encoding_def osip_message_set_content_length_def
  osip_message_set_cseq_def osip_message_set_error_info_def osip_message_set_from_def
  osip_message_set_mime_version_def osip_message_set_proxy_authenticate_def
  osip_message_set_proxy_authentication_info_def osip_message_set_proxy_authorization_def
  osip_message_set_record_route_def osip_message_set_route_def osip_message_set_to_def
  osip_message_set_via_def osip_message_set_www_authenticate_def

lemma setters_set: "list_all (\<lambda>(hname, ignored, setheader). sets setheader) pconfig"
  unfolding pconfig_def list.pred_inject prod.case setter_defs
  by (intro conjI TrueI osip_message_set_content_type_sets osip_message_set_accept_sets
      set_in_list_defined set_once_defined header_parsers_parse) simp

lemma osip_message_call_method_defined:
  "0 \<le> i \<Longrightarrow> i < int (length pconfig) \<Longrightarrow> (\<And>w. v = Some w \<Longrightarrow> no_blank_end w)
    \<Longrightarrow> osip_message_call_method i sip v m \<noteq> None"
  unfolding osip_message_call_method_def
proof (intro defined, goal_cases)
  case (2 u hname p ignored setheader)
  have "(\<lambda>(hname, ignored, setheader). sets setheader) (pconfig ! nat i)"
    using setters_set 2(1,2) by (simp add: list_all_length)
  then show ?case using 2 by (simp add: sets_def del: not_None_eq)
qed simp_all

lemma search_header_bounds:
  "0 \<le> i \<Longrightarrow> search_header h ns i = -1 \<or> 0 \<le> search_header h ns i \<and> search_header h ns i < i + int (length ns)"
proof (induction ns arbitrary: i)
  case (Cons n ns)
  show ?case using Cons.IH [of "i + 1"] Cons.prems by simp linarith
qed simp

lemma osip_message_is_known_header_bounds:
  "osip_message_is_known_header h = -1
    \<or> 0 \<le> osip_message_is_known_header h \<and> osip_message_is_known_header h < int (length pconfig)"
  using search_header_bounds [of 0 h "map fst pconfig"] by (simp add: osip_message_is_known_header_searches)

lemma known_header_below: "osip_message_is_known_header h \<ge> 0 \<Longrightarrow> osip_message_is_known_header h < int (length pconfig)"
  using osip_message_is_known_header_bounds [of h] by linarith

lemma new_header_defined [defined]: "new_header n v m \<noteq> None"
  unfolding new_header_def by (intro defined) simp_all

lemma osip_message_set_header_defined [defined]: "osip_message_set_header sip n v m \<noteq> None"
  unfolding osip_message_set_header_def by (intro defined)

lemma osip_message_set_header_keeps:
  "osip_message_set_header (Some sip) n v m = Some ((i, s), m') \<Longrightarrow> s \<noteq> None"
  by (auto simp: osip_message_set_header_def split: option.splits bind_splits prod.splits)

lemma osip_message_set__header_defined:
  "(\<And>w. v = Some w \<Longrightarrow> no_blank_end w) \<Longrightarrow> osip_message_set__header sip n v m \<noteq> None"
  unfolding osip_message_set__header_def Let_def
  by (intro defined osip_message_call_method_defined known_header_below)
    (auto dest: osip_message_set_header_keeps)

lemma no_blank_end_trim: "no_blank_end (trim s)"
proof -
  let ?t = "dropWhile is_blank (rev (dropWhile is_blank s))"
  have "?t \<noteq> [] \<Longrightarrow> \<not> is_blank (hd ?t)" by (rule hd_dropWhile)
  then have "trim s \<noteq> [] \<Longrightarrow> \<not> is_blank (last (trim s))" by (simp add: trim_def last_rev)
  then show ?thesis by (auto simp: no_blank_end_def is_blank_def)
qed

lemma osip_clrncpy_no_blank_end:
  "osip_clrncpy n (Some s) len = Some v \<Longrightarrow> 0 \<le> len \<Longrightarrow> len \<le> int (length s) \<Longrightarrow> len < n \<Longrightarrow> no_blank_end v"
  by (auto simp: osip_clrncpy_trim no_blank_end_trim)

lemma split_header_defined: "split_header n beg q u ptr sip m \<noteq> None"
proof (induction n beg q u ptr sip m rule: split_header.induct)
  case (1 n beg q u sip m)
  show ?case
    unfolding split_header.simps
    by (intro defined osip_message_set__header_defined)
      (auto simp: ptr_diff_def elim!: osip_clrncpy_no_blank_end)
next
  case (2 n beg q u c r sip m)
  show ?case
    unfolding split_header.simps
    by (intro defined osip_message_set__header_defined "2.IH"; assumption?)
      (auto simp: ptr_diff_def elim!: osip_clrncpy_no_blank_end)
qed

lemma osip_message_set_multiple_header_defined:
  "(\<And>w. v = Some w \<Longrightarrow> no_blank_end w) \<Longrightarrow> osip_message_set_multiple_header sip n v m \<noteq> None"
  unfolding osip_message_set_multiple_header_def Let_def
  by (intro defined osip_message_set__header_defined split_header_defined) auto

lemma header_line_defined:
  assumes "strchr s CHR '':'' = Some colon" "\<not> ptr_diff colon s + 1 < 2" "\<not> length colon \<le> length e"
  shows "header_line s colon e m \<noteq> None"
proof -
  have "length colon \<le> length s" by (rule strchr_le [OF assms(1)])
  then show ?thesis
    unfolding header_line_def Let_def using assms(2,3)
    by (intro defined) (auto simp: ptr_diff_def advance_def split: if_splits)
qed

lemma header_line_value:
  assumes "header_line s colon e m = Some (Some (n, Some v), m')"
  shows "no_blank_end v"
proof -
  have rest: "advance (Suc 0) colon = Some r \<Longrightarrow> int (length r) = int (length colon) - 1" for r
    by (cases colon) (auto simp: advance_def)
  have copied: "osip_clrncpy n (Some r) (ptr_diff e colon - k) = Some v \<Longrightarrow> advance (Suc 0) colon = Some r
      \<Longrightarrow> \<not> ptr_diff e colon < k + 1 \<Longrightarrow> ptr_diff e colon < n + k \<Longrightarrow> 2 \<le> k \<Longrightarrow> no_blank_end v" for n r k
    by (erule osip_clrncpy_no_blank_end) (use rest [of r] in \<open>auto simp: ptr_diff_def\<close>)
  show ?thesis
    using assms unfolding header_line_def Let_def
    by (auto simp: alloc_or_def elim!: copied split: if_splits bind_splits prod.splits)
qed

theorem msg_headers_parse_defined: "msg_headers_parse sip s m \<noteq> None"
proof (induction "length s" arbitrary: sip s m rule: less_induct)
  case less
  have line: "header_line s c e m \<noteq> None"
    if "strchr s CHR '':'' = Some c" "\<not> ptr_diff c s + 1 < 2" "\<not> length c \<le> length e" for c e
    using header_line_defined [OF that] .
  have set: "osip_message_set_multiple_header sip n v k \<noteq> None"
    if "header_line s c e m = Some (Some (n, v), k)" for c e n v k
    by (rule osip_message_set_multiple_header_defined) (use that header_line_value in blast)
  have loop: "msg_headers_parse sip e k \<noteq> None" if "osip_find_next_crlf s = (i, Some e)" for sip i e k
    by (rule less) (rule find_next_crlf_shorter [OF that])
  show ?case
    by (subst msg_headers_parse.simps)
      (auto simp: line set loop split: option.split prod.split simp del: not_None_eq)
qed

end
