(* ===== verification/Message_Parse.thy ===== *)
theory Message_Parse
  imports Message_Headers
begin

text \<open>
  Bodies, from \<^verbatim>\<open>osip_body.c\<close>, and the parser of a whole message, \<^verbatim>\<open>_osip_message_parse\<close> of
  \<^verbatim>\<open>osip_message_parse.c\<close>. A body may hold NUL bytes, so a pointer into the message is here the
  list of all the bytes up to its length, behind which the parser has put a NUL; the C string at
  the pointer ends at the first NUL.
\<close>

definition cstring_at :: "string \<Rightarrow> string" where
  "cstring_at bytes = takeWhile (\<lambda>c. c \<noteq> NUL) bytes"

section \<open>Bodies\<close>

definition osip_body_init :: "mem \<Rightarrow> ((int \<times> osip_body option) \<times> mem) option" where
  "osip_body_init m =
    alloc_or m (OSIP_NOMEM, None) (\<lambda>m. alloc_or m (OSIP_NOMEM, None) (\<lambda>m.
      Some ((OSIP_SUCCESS, Some \<lparr>b_body = None, b_length = 0, b_headers = [], b_content_type = None\<rparr>), m)))"

definition osip_body_parse :: "osip_body \<Rightarrow> string \<Rightarrow> mem \<Rightarrow> ((int \<times> osip_body) \<times> mem) option" where
  "osip_body_parse body bytes m =
    alloc_or m (OSIP_NOMEM, body) (\<lambda>m.
      Some ((OSIP_SUCCESS, body\<lparr>b_body := Some bytes, b_length := length bytes\<rparr>), m))"

definition osip_body_set_contenttype ::
  "osip_body \<Rightarrow> cstr \<Rightarrow> mem \<Rightarrow> ((int \<times> osip_body) \<times> mem) option" where
  "osip_body_set_contenttype body hvalue m =
    (if hvalue = None then Some ((OSIP_BADPARAMETER, body), m)
     else alloc_or m (OSIP_NOMEM, body\<lparr>b_content_type := None\<rparr>) (\<lambda>m. do {
       ((i, ct), m) \<leftarrow> osip_content_type_parse osip_content_type_init hvalue m;
       Some ((i, body\<lparr>b_content_type := if i \<noteq> 0 then None else Some ct\<rparr>), m)
     }))"

definition osip_body_set_header ::
  "osip_body \<Rightarrow> cstr \<Rightarrow> cstr \<Rightarrow> mem \<Rightarrow> ((int \<times> osip_body) \<times> mem) option" where
  "osip_body_set_header body hname hvalue m =
    (if hname = None \<or> hvalue = None then Some ((OSIP_BADPARAMETER, body), m)
     else alloc_or m (OSIP_NOMEM, body) (\<lambda>m.
       case osip_strdup hname m of (n, m) \<Rightarrow>
         if n = None then Some ((OSIP_NOMEM, body), m)
         else (case osip_strdup hvalue m of (v, m) \<Rightarrow>
           if v = None then Some ((OSIP_NOMEM, body), m)
           else (case list_add (b_headers body) \<lparr>h_name = n, h_value = v\<rparr> (-1) m of (hs, m) \<Rightarrow>
             Some ((OSIP_SUCCESS, body\<lparr>b_headers := hs\<rparr>), m)))))"

text \<open>
  The headers of a part of a multipart body. \<^verbatim>\<open>end_of_line\<close> is NULL where the next line continues
  the last; \<open>(end_of_line - 2) - colon_index\<close> is then negative. The third component of the answer
  is \<^verbatim>\<open>*next_body\<close>.
\<close>

definition osip_body_header_line ::
  "osip_body \<Rightarrow> string \<Rightarrow> string \<Rightarrow> cstr \<Rightarrow> mem \<Rightarrow> ((int \<times> osip_body) \<times> mem) option" where
  "osip_body_header_line body start_of_line colon_index end_of_line m =
    alloc_or m (OSIP_NOMEM, body) (\<lambda>m. do {
      hname \<leftarrow> osip_clrncpy (ptr_diff colon_index start_of_line + 1) (Some start_of_line)
        (ptr_diff colon_index start_of_line);
      (case end_of_line of
         None \<Rightarrow> Some ((OSIP_SYNTAXERROR, body), m)
       | Some e \<Rightarrow>
           let len = ptr_diff e colon_index - 2 in
           if len < 2 then Some ((OSIP_SYNTAXERROR, body), m)
           else alloc_or m (OSIP_NOMEM, body) (\<lambda>m. do {
             rest \<leftarrow> advance 1 colon_index;
             hvalue \<leftarrow> osip_clrncpy len (Some rest) (len - 1);
             if osip_strncasecmp_eq hname ''content-type'' 12 then osip_body_set_contenttype body (Some hvalue) m
             else osip_body_set_header body (Some hname) (Some hvalue) m
           }))
    })"

function osip_body_parse_header ::
  "osip_body \<Rightarrow> string \<Rightarrow> mem \<Rightarrow> ((int \<times> osip_body \<times> cstr) \<times> mem) option" where
  "osip_body_parse_header body start_of_line m =
    (case osip_find_next_crlf start_of_line of (i, end_of_line) \<Rightarrow>
       if i \<noteq> -2 \<and> i \<noteq> 0 then Some ((i, body, None), m)
       else (case strchr start_of_line CHR '':'' of
           None \<Rightarrow> Some ((OSIP_SYNTAXERROR, body, None), m)
         | Some colon_index \<Rightarrow>
             if ptr_diff colon_index start_of_line + 1 < 2 then Some ((OSIP_SYNTAXERROR, body, None), m)
             else (case osip_body_header_line body start_of_line colon_index end_of_line m of
                 None \<Rightarrow> None
               | Some ((i, body), m) \<Rightarrow>
                   if i \<noteq> 0 then Some ((i, body, None), m)
                   else (case end_of_line of
                       None \<Rightarrow> None
                     | Some e \<Rightarrow>
                         if take 2 e = [CR, LF] \<or> cur e = LF \<or> cur e = CR then Some ((OSIP_SUCCESS, body, Some e), m)
                         else osip_body_parse_header body e m))))"
  by pat_completeness auto
termination
  by (relation "measure (\<lambda>(body, s, m). length s)") (auto dest: find_next_crlf_shorter [OF sym])

declare osip_body_parse_header.simps [simp del]

definition osip_body_parse_mime :: "osip_body \<Rightarrow> string \<Rightarrow> mem \<Rightarrow> ((int \<times> osip_body) \<times> mem) option" where
  "osip_body_parse_mime body start_of_body m = do {
     ((i, body, next_body), m) \<leftarrow> osip_body_parse_header body (cstring_at start_of_body) m;
     if i \<noteq> 0 then Some ((i, body), m)
     else do {
       next_body \<leftarrow> next_body;
       if take 2 next_body \<noteq> [CR, LF] \<and> cur next_body \<noteq> LF \<and> cur next_body \<noteq> CR
       then Some ((OSIP_SYNTAXERROR, body), m)
       else let next_body = (if take 2 next_body = [CR, LF] then drop 2 next_body else tl next_body);
                bytes = drop (length (cstring_at start_of_body) - length next_body) start_of_body
         in if bytes = [] then Some ((OSIP_SYNTAXERROR, body), m)
            else alloc_or m (OSIP_NOMEM, body) (\<lambda>m.
              Some ((OSIP_SUCCESS, body\<lparr>b_body := Some bytes, b_length := length bytes\<rparr>), m))
     }
   }"

definition add_body ::
  "(osip_body \<Rightarrow> string \<Rightarrow> mem \<Rightarrow> ((int \<times> osip_body) \<times> mem) option) \<Rightarrow>
    sip_message \<Rightarrow> string \<Rightarrow> mem \<Rightarrow> ((int \<times> sip_message) \<times> mem) option" where
  "add_body parse sip bytes m = do {
     ((i, b), m) \<leftarrow> osip_body_init m;
     (case b of
        None \<Rightarrow> Some ((i, sip), m)
      | Some b \<Rightarrow> do {
          ((i, b), m) \<leftarrow> parse b bytes m;
          if i \<noteq> 0 then Some ((i, sip), m)
          else (case list_add (bodies sip) b (-1) m of (bs, m) \<Rightarrow>
            Some ((OSIP_SUCCESS, sip\<lparr>message_property := 2, bodies := bs\<rparr>), m))
        })
   }"

definition osip_message_set_body :: "sip_message \<Rightarrow> string \<Rightarrow> mem \<Rightarrow> ((int \<times> sip_message) \<times> mem) option" where
  "osip_message_set_body = add_body osip_body_parse"

definition osip_message_set_body_mime :: "sip_message \<Rightarrow> string \<Rightarrow> mem \<Rightarrow> ((int \<times> sip_message) \<times> mem) option" where
  "osip_message_set_body_mime = add_body osip_body_parse_mime"

section \<open>The parts of a multipart body\<close>

fun strstr :: "string \<Rightarrow> string \<Rightarrow> cstr" where
  "strstr hay needle =
    (if take (length needle) hay = needle then Some hay
     else (case hay of [] \<Rightarrow> None | c # r \<Rightarrow> strstr r needle))"

declare strstr.simps [simp del]

text \<open>The first argument is the number of rounds left.\<close>

fun find_occurence :: "nat \<Rightarrow> string \<Rightarrow> string \<Rightarrow> int \<times> cstr" where
  "find_occurence 0 str buf = (OSIP_SYNTAXERROR, None)"
| "find_occurence (Suc n) str buf =
    (case strstr (cstring_at buf) str of
       Some p \<Rightarrow> (OSIP_SUCCESS, Some (drop (length (cstring_at buf) - length p) buf))
     | None \<Rightarrow> (case drop (length (cstring_at buf)) buf of
           [] \<Rightarrow> (OSIP_SYNTAXERROR, None)
         | c # r \<Rightarrow> find_occurence n str r))"

definition osip_find_next_occurence :: "cstr \<Rightarrow> cstr \<Rightarrow> int \<times> cstr" where
  "osip_find_next_occurence str buf =
    (case (str, buf) of
       (Some str, Some buf) \<Rightarrow> find_occurence 1000 str buf
     | _ \<Rightarrow> (OSIP_BADPARAMETER, None))"

definition sep_boundary :: "string \<Rightarrow> string" where
  "sep_boundary bnd =
    LF # ''--'' @ (if cur bnd = CHR 0x22 \<and> last bnd = CHR 0x22 then take (length bnd - 2) (tl bnd) else bnd)"

text \<open>
  A part between two boundaries. Its length is a \<^verbatim>\<open>size_t\<close>, so that the copy of a negative number
  of bytes is a copy of almost all the memory there is.
\<close>

definition body_part :: "sip_message \<Rightarrow> nat \<Rightarrow> string \<Rightarrow> string \<Rightarrow> mem \<Rightarrow> ((int \<times> sip_message) \<times> mem) option" where
  "body_part sip len_sep_boundary boundary end_of_body m = do {
     start_of_body \<leftarrow> advance (len_sep_boundary + 1) boundary;
     let start_of_body = (if cur start_of_body = LF \<or> cur start_of_body = CR then tl start_of_body else start_of_body);
     let body_len = ptr_diff end_of_body start_of_body;
     let before = boundary ! (length boundary - length end_of_body - 1);
     let body_len = (if before = CR then body_len - 1 else body_len);
     alloc_or m (OSIP_NOMEM, sip) (\<lambda>m. do {
       ub_unless (0 \<le> body_len);
       osip_message_set_body_mime sip (take (nat body_len) start_of_body) m
     })
   }"

lemma strstr_SomeD: "strstr hay needle = Some p \<Longrightarrow> (\<exists>a. hay = a @ p) \<and> (\<exists>b. p = needle @ b)"
proof (induction hay needle rule: strstr.induct)
  case (1 hay needle)
  show ?case
  proof (cases "take (length needle) hay = needle")
    case True
    then show ?thesis using "1.prems" by (subst (asm) strstr.simps) (auto, metis append_take_drop_id)
  next
    case False
    then show ?thesis using 1 by (subst (asm) (2) strstr.simps) (auto split: list.splits, metis append_Cons)
  qed
qed

lemma cstring_at_append: "cstring_at bytes @ drop (length (cstring_at bytes)) bytes = bytes"
  by (metis cstring_at_def takeWhile_eq_take append_take_drop_id)

lemma find_occurence_SomeD:
  "find_occurence n str buf = (i, Some p) \<Longrightarrow> i = 0 \<and> (\<exists>a. buf = a @ p) \<and> (\<exists>b. p = str @ b)"
proof (induction n arbitrary: buf)
  case (Suc n)
  note bytes = cstring_at_append [of buf, symmetric]
  show ?case
  proof (cases "strstr (cstring_at buf) str")
    case (Some q)
    obtain a b where q: "cstring_at buf = a @ q" "q = str @ b" using strstr_SomeD [OF Some] by blast
    have buf: "buf = a @ q @ drop (length (cstring_at buf)) buf" using bytes q(1) by simp
    have "p = drop (length a) buf" using Suc.prems Some q(1) by simp
    also have "\<dots> = q @ drop (length (cstring_at buf)) buf" by (subst buf) simp
    finally have "p = q @ drop (length (cstring_at buf)) buf" .
    then show ?thesis using Suc.prems Some q(2) buf by auto
  next
    case None
    then obtain c r where r: "drop (length (cstring_at buf)) buf = c # r" "find_occurence n str r = (i, Some p)"
      using Suc.prems by (auto split: list.splits)
    then show ?thesis using Suc.IH [OF r(2)] bytes by (metis append.assoc append_Cons)
  qed
qed simp

lemma find_next_SomeD:
  "osip_find_next_occurence (Some str) (Some buf) = (i, Some p)
    \<Longrightarrow> i = 0 \<and> (\<exists>a. buf = a @ p) \<and> (\<exists>b. p = str @ b)"
  unfolding osip_find_next_occurence_def by (simp add: find_occurence_SomeD)

lemma sep_boundary_nonempty: "sep_boundary bnd \<noteq> []"
  by (simp add: sep_boundary_def)

lemma next_boundary_shorter:
  assumes "osip_find_next_occurence (Some (sep_boundary bnd)) (Some s) = (i, Some b)"
    "osip_find_next_occurence (Some (sep_boundary bnd)) (Some (drop (length (sep_boundary bnd)) b)) = (j, Some e)"
  shows "length e + length (sep_boundary bnd) \<le> length b" "length e < length s"
proof -
  obtain x y where b: "s = x @ b" "b = sep_boundary bnd @ y" using find_next_SomeD [OF assms(1)] by blast
  obtain z where "drop (length (sep_boundary bnd)) b = z @ e" using find_next_SomeD [OF assms(2)] by blast
  then have "y = z @ e" using b(2) by simp
  then show "length e + length (sep_boundary bnd) \<le> length b" "length e < length s"
    using b sep_boundary_nonempty [of bnd] by auto
qed

function multipart_loop :: "sip_message \<Rightarrow> string \<Rightarrow> string \<Rightarrow> mem \<Rightarrow> ((int \<times> sip_message) \<times> mem) option" where
  "multipart_loop sip bnd start_of_body m =
    (let sep = sep_boundary bnd in
     case osip_find_next_occurence (Some sep) (Some start_of_body) of
       (i, None) \<Rightarrow> Some ((i, sip), m)
     | (_, Some boundary) \<Rightarrow>
         (case osip_find_next_occurence (Some sep) (Some (drop (length sep) boundary)) of
            (i, None) \<Rightarrow> Some ((i, sip), m)
          | (_, Some end_of_body) \<Rightarrow>
              (case body_part sip (length sep) boundary end_of_body m of
                 None \<Rightarrow> None
               | Some ((i, sip), m) \<Rightarrow>
                   if i \<noteq> 0 then Some ((i, sip), m)
                   else if take 2 (drop (length sep) end_of_body) = ''--'' then Some ((OSIP_SUCCESS, sip), m)
                   else multipart_loop sip bnd end_of_body m)))"
  by pat_completeness auto
termination
  by (relation "measure (\<lambda>(sip, bnd, s, m). length s)")
    (auto simp: Let_def dest: next_boundary_shorter(2) [OF sym sym])

declare multipart_loop.simps [simp del]

section \<open>The body\<close>

text \<open>\<^verbatim>\<open>sprintf (tmp, "%i", n)\<close>.\<close>

fun decimal :: "nat \<Rightarrow> string" where
  "decimal n = (if n < 10 then [] else decimal (n div 10)) @ [char_of (48 + n mod 10)]"

declare decimal.simps [simp del]

definition sprintf_i :: "int \<Rightarrow> string" where
  "sprintf_i n = (if n < 0 then CHR ''-'' # decimal (nat (- n)) else decimal (nat n))"

definition plain_body :: "sip_message \<Rightarrow> string \<Rightarrow> mem \<Rightarrow> ((int \<times> sip_message) \<times> mem) option" where
  "plain_body sip start_of_buf m =
    (if start_of_buf = [] \<or> cur start_of_buf \<noteq> CR \<and> cur start_of_buf \<noteq> LF then Some ((OSIP_SYNTAXERROR, sip), m)
     else let start_of_body = (if cur start_of_buf = CR \<and> cur (tl start_of_buf) = LF then drop 2 start_of_buf
                               else tl start_of_buf)
       in if start_of_body = [] then Some ((OSIP_SYNTAXERROR, sip), m)
          else let len = int (length start_of_body) in do {
            ((i, sip, osip_body_len), m) \<leftarrow>
              (case content_length sip of
                 Some cl \<Rightarrow> do { v \<leftarrow> cl_value cl; Some ((OSIP_SUCCESS, sip, osip_atoi v mod 2 ^ 64), m) }
               | None \<Rightarrow> do {
                   ((i, sip), m) \<leftarrow> osip_message_set_content_length sip (Some (sprintf_i (signed_take_bit 31 len))) m;
                   Some ((i, sip, len), m)
                 });
            if i \<noteq> 0 then Some ((i, sip), m)
            else if len < osip_body_len then Some ((OSIP_SYNTAXERROR, sip), m)
            else alloc_or m (OSIP_NOMEM, sip) (\<lambda>m.
              osip_message_set_body sip (take (nat osip_body_len) start_of_body) m)
          })"

definition msg_osip_body_parse :: "sip_message \<Rightarrow> string \<Rightarrow> mem \<Rightarrow> ((int \<times> sip_message) \<times> mem) option" where
  "msg_osip_body_parse sip start_of_buf m =
    (case content_type sip of
       None \<Rightarrow> Some ((OSIP_SUCCESS, sip), m)
     | Some ct \<Rightarrow>
         (case (ct_type ct, ct_subtype ct) of
            (Some t, Some _) \<Rightarrow>
              if \<not> osip_strcasecmp_eq t ''multipart'' then plain_body sip start_of_buf m
              else do {
                (i, ct_param) \<leftarrow> osip_uri_param_get_byname (ct_params ct) (Some ''boundary'');
                if i \<noteq> 0 then Some ((i, sip), m)
                else (case ct_param of
                    None \<Rightarrow> Some ((OSIP_SYNTAXERROR, sip), m)
                  | Some p \<Rightarrow>
                      (case gvalue p of
                         None \<Rightarrow> Some ((OSIP_SYNTAXERROR, sip), m)
                       | Some v \<Rightarrow> alloc_or m (OSIP_NOMEM, sip) (\<lambda>m. multipart_loop sip v start_of_buf m)))
              }
          | _ \<Rightarrow> Some ((OSIP_SUCCESS, sip), m)))"

section \<open>The message\<close>

text \<open>
  The start line and the headers: the third component is the position behind them, as a position
  in the whole message. Where the headers run to the end of the text it is still their start.
\<close>

definition message_head ::
  "sip_message \<Rightarrow> string \<Rightarrow> bool \<Rightarrow> mem \<Rightarrow> ((int \<times> sip_message \<times> string) \<times> mem) option" where
  "message_head sip buf sipfrag m = alloc_or m (OSIP_NOMEM, sip, buf) (\<lambda>m. do {
     let tmp = dropWhile (\<lambda>c. c = CR \<or> c = LF) buf;
     let behind = drop (length (cstring_at tmp)) tmp;
     txt \<leftarrow> osip_util_replace_all_lws (cstring_at tmp);
     ((i, sip, start_of_header), m) \<leftarrow> osip_message_startline_parse sip txt m;
     if i \<noteq> 0 \<and> \<not> sipfrag then Some ((i, sip, start_of_header @ behind), m)
     else do {
       ((i, sip, body), m) \<leftarrow> msg_headers_parse sip start_of_header m;
       Some ((i, sip, (case body of None \<Rightarrow> start_of_header | Some b \<Rightarrow> b) @ behind), m)
     }
   })"

definition message_tail :: "sip_message \<Rightarrow> string \<Rightarrow> mem \<Rightarrow> ((int \<times> sip_message) \<times> mem) option" where
  "message_tail sip tmp m = do {
     let sip = (case content_length sip of
       Some cl \<Rightarrow> if cl_value cl = None then sip\<lparr>content_length := None\<rparr> else sip
     | None \<Rightarrow> sip);
     let len = int (length tmp);
     let body_exists = (case content_length sip of
       Some cl \<Rightarrow> (case cl_value cl of None \<Rightarrow> False | Some v \<Rightarrow> 0 < osip_atoi v)
     | None \<Rightarrow> cur tmp = CR \<and> cur (tl tmp) = LF \<and> len - 2 \<noteq> 0 \<or> cur tmp = LF \<and> len - 1 \<noteq> 0);
     ((i, sip), m) \<leftarrow> (if body_exists then msg_osip_body_parse sip tmp m else Some ((OSIP_SUCCESS, sip), m));
     if i \<noteq> 0 then Some ((i, sip), m)
     else if content_length sip = None then do {
       ((_, sip), m) \<leftarrow> osip_message_set_content_length sip (Some ''0'') m;
       Some ((OSIP_SUCCESS, sip), m)
     }
     else Some ((OSIP_SUCCESS, sip), m)
   }"

definition message_parse :: "sip_message \<Rightarrow> string \<Rightarrow> bool \<Rightarrow> mem \<Rightarrow> ((int \<times> sip_message) \<times> mem) option" where
  "message_parse sip buf sipfrag m = do {
     ((i, sip, tmp), m) \<leftarrow> message_head sip buf sipfrag m;
     if i \<noteq> 0 then Some ((i, sip), m) else message_tail sip tmp m
   }"

definition osip_message_parse :: "sip_message \<Rightarrow> string \<Rightarrow> mem \<Rightarrow> ((int \<times> sip_message) \<times> mem) option" where
  "osip_message_parse sip buf m = message_parse sip buf False m"

definition osip_message_parse_sipfrag :: "sip_message \<Rightarrow> string \<Rightarrow> mem \<Rightarrow> ((int \<times> sip_message) \<times> mem) option" where
  "osip_message_parse_sipfrag sip buf m = message_parse sip buf True m"

section \<open>No undefined behaviour\<close>

lemma osip_body_init_defined [defined]: "osip_body_init m \<noteq> None"
  unfolding osip_body_init_def by (intro defined)

lemma osip_body_parse_defined: "osip_body_parse b bytes m \<noteq> None"
  unfolding osip_body_parse_def by (intro defined)

lemma osip_body_set_contenttype_defined [defined]: "osip_body_set_contenttype b v m \<noteq> None"
  unfolding osip_body_set_contenttype_def by (intro defined)

lemma osip_body_set_header_defined [defined]: "osip_body_set_header b n v m \<noteq> None"
  unfolding osip_body_set_header_def by (intro defined)

lemma osip_body_header_line_defined:
  assumes "strchr s CHR '':'' = Some c" "\<not> ptr_diff c s + 1 < 2"
  shows "osip_body_header_line b s c e m \<noteq> None"
proof -
  have "length c \<le> length s" by (rule strchr_le [OF assms(1)])
  moreover have "advance 1 c = Some r \<Longrightarrow> int (length r) = int (length c) - 1" for r
    by (cases c) (auto simp: advance_def)
  ultimately show ?thesis
    unfolding osip_body_header_line_def Let_def using assms(2) strchr_nonempty [OF assms(1)]
    by (intro defined) (auto simp: ptr_diff_def Suc_le_eq)
qed

lemma osip_body_header_line_end:
  "osip_body_header_line b s c None m = Some ((i, b'), m') \<Longrightarrow> i \<noteq> 0"
  by (auto simp: osip_body_header_line_def alloc_or_def split: if_splits bind_splits prod.splits)

theorem osip_body_parse_header_defined: "osip_body_parse_header b s m \<noteq> None"
proof (induction "length s" arbitrary: b s m rule: less_induct)
  case less
  have loop: "osip_body_parse_header b e k \<noteq> None" if "osip_find_next_crlf s = (i, Some e)" for b i e k
    by (rule less) (rule find_next_crlf_shorter [OF that])
  show ?case
    by (subst osip_body_parse_header.simps)
      (auto simp: osip_body_header_line_defined loop dest: osip_body_header_line_end
        split: option.split prod.split simp del: not_None_eq)
qed

lemma osip_body_parse_header_next:
  "osip_body_parse_header b s m = Some ((0, b', n), m') \<Longrightarrow> n \<noteq> None"
proof (induction "length s" arbitrary: b s m rule: less_induct)
  case less
  show ?case
    using less.prems
    by (subst (asm) osip_body_parse_header.simps)
      (auto simp del: not_None_eq dest: less.hyps [OF find_next_crlf_shorter]
        split: option.splits prod.splits if_splits)
qed

lemma osip_body_parse_mime_defined: "osip_body_parse_mime b bytes m \<noteq> None"
  unfolding osip_body_parse_mime_def Let_def
  by (intro defined osip_body_parse_header_defined) (auto dest: osip_body_parse_header_next)

lemma add_body_defined: "(\<And>b bytes m. parse b bytes m \<noteq> None) \<Longrightarrow> add_body parse sip bytes m \<noteq> None"
  unfolding add_body_def by (intro defined)

lemma osip_message_set_body_defined [defined]: "osip_message_set_body sip bytes m \<noteq> None"
  unfolding osip_message_set_body_def by (intro add_body_defined osip_body_parse_defined)

lemma osip_message_set_body_mime_defined [defined]: "osip_message_set_body_mime sip bytes m \<noteq> None"
  unfolding osip_message_set_body_mime_def by (intro add_body_defined osip_body_parse_mime_defined)

text \<open>
  Where a boundary follows another there must be two bytes between them, and not two that end in
  a carriage return: otherwise the length of the part is negative.
\<close>

definition parts_apart :: "string \<Rightarrow> string \<Rightarrow> bool" where
  "parts_apart sep bytes \<longleftrightarrow> (\<forall>i < length bytes. \<forall>j < length bytes.
     take (length sep) (drop i bytes) = sep \<and> take (length sep) (drop j bytes) = sep \<and> i + length sep \<le> j
     \<longrightarrow> i + length sep + 2 \<le> j \<and> (j = i + length sep + 2 \<longrightarrow> bytes ! (j - 1) \<noteq> CR))"

lemma parts_apart_suffix: "parts_apart sep (a @ b) \<Longrightarrow> parts_apart sep b"
  unfolding parts_apart_def
proof (intro allI impI)
  fix i j
  assume all: "\<forall>i < length (a @ b). \<forall>j < length (a @ b).
     take (length sep) (drop i (a @ b)) = sep \<and> take (length sep) (drop j (a @ b)) = sep \<and> i + length sep \<le> j
     \<longrightarrow> i + length sep + 2 \<le> j \<and> (j = i + length sep + 2 \<longrightarrow> (a @ b) ! (j - 1) \<noteq> CR)"
    and ij: "i < length b" "j < length b"
    "take (length sep) (drop i b) = sep \<and> take (length sep) (drop j b) = sep \<and> i + length sep \<le> j"
  have "length a + i + length sep + 2 \<le> length a + j
      \<and> (length a + j = length a + i + length sep + 2 \<longrightarrow> (a @ b) ! (length a + j - 1) \<noteq> CR)"
    using all [rule_format, of "length a + i" "length a + j"] ij by simp
  then show "i + length sep + 2 \<le> j \<and> (j = i + length sep + 2 \<longrightarrow> b ! (j - 1) \<noteq> CR)"
    by (auto simp: nth_append)
qed

lemma body_part_defined:
  assumes apart: "parts_apart sep (sep @ x @ sep @ y)" and sep: "sep \<noteq> []"
  shows "body_part sip (length sep) (sep @ x @ sep @ y) (sep @ y) m \<noteq> None"
proof -
  let ?b = "sep @ x @ sep @ y"
  have pos: "0 < length sep" using sep by simp
  have "2 \<le> length x \<and> (length x = 2 \<longrightarrow> ?b ! (length sep + length x - 1) \<noteq> CR)"
    using apart [unfolded parts_apart_def, rule_format, of 0 "length sep + length x"] pos by auto
  then obtain a b z where x: "x = a # b # z" and z: "z = [] \<longrightarrow> b \<noteq> CR"
    by (cases x; cases "tl x") (auto simp: nth_append)
  have start: "advance (length sep + 1) ?b = Some (b # z @ sep @ y)" by (simp add: advance_def x)
  have before: "?b ! (length ?b - length (sep @ y) - 1) = (if z = [] then b else last z)"
    by (cases z rule: rev_cases) (auto simp: x nth_append)
  have "0 < length z" if "z \<noteq> []" using that by simp
  then show ?thesis
    unfolding body_part_def start bind.bind_lunit Let_def before
    using z by (intro defined) (auto simp: ptr_diff_def)
qed

lemma multipart_loop_defined:
  "parts_apart (sep_boundary bnd) s \<Longrightarrow> multipart_loop sip bnd s m \<noteq> None"
proof (induction "length s" arbitrary: s sip m rule: less_induct)
  case less
  let ?sep = "sep_boundary bnd"
  have part: "body_part sip (length ?sep) b e m \<noteq> None" "parts_apart ?sep e" "length e < length s"
    if b: "osip_find_next_occurence (Some ?sep) (Some s) = (i, Some b)"
      and e: "osip_find_next_occurence (Some ?sep) (Some (drop (length ?sep) b)) = (j, Some e)" for b e i j
  proof -
    obtain u v where 1: "s = u @ b" "b = ?sep @ v" using find_next_SomeD [OF b] by blast
    obtain x y where 2: "drop (length ?sep) b = x @ e" "e = ?sep @ y" using find_next_SomeD [OF e] by blast
    have eq: "b = ?sep @ x @ ?sep @ y" using 1 2 by simp
    have "parts_apart ?sep b" using less.prems 1 parts_apart_suffix by blast
    then show "body_part sip (length ?sep) b e m \<noteq> None"
      unfolding eq 2(2) by (rule body_part_defined [OF _ sep_boundary_nonempty])
    have "parts_apart ?sep ((u @ ?sep @ x) @ e)" using less.prems 1 2 eq by simp
    then show "parts_apart ?sep e" by (rule parts_apart_suffix)
    show "length e < length s" by (rule next_boundary_shorter(2) [OF b e])
  qed
  show ?case
    by (subst multipart_loop.simps)
      (auto simp: Let_def part less.hyps split: option.split prod.split simp del: not_None_eq)
qed

lemma osip_message_set_content_length_defined [defined]: "osip_message_set_content_length sip v m \<noteq> None"
  unfolding osip_message_set_content_length_def set_once_def
  by (intro defined set_parsed_defined)

lemma plain_body_defined:
  "(\<And>cl. content_length sip = Some cl \<Longrightarrow> cl_value cl \<noteq> None) \<Longrightarrow> plain_body sip s m \<noteq> None"
  unfolding plain_body_def Let_def by (intro defined) simp_all

text \<open>What the parser of the body asks of the headers.\<close>

definition body_readable :: "sip_message \<Rightarrow> string \<Rightarrow> bool" where
  "body_readable sip bytes \<longleftrightarrow>
    (case content_type sip of
       None \<Rightarrow> True
     | Some ct \<Rightarrow> named (ct_params ct) \<and>
         (case (ct_type ct, osip_uri_param_get_byname (ct_params ct) (Some ''boundary'')) of
            (Some t, Some (i, Some p)) \<Rightarrow> osip_strcasecmp_eq t ''multipart'' \<longrightarrow>
              (case gvalue p of None \<Rightarrow> True | Some v \<Rightarrow> parts_apart (sep_boundary v) bytes)
          | _ \<Rightarrow> True))"

lemma boundary_search_defined: "named ps \<Longrightarrow> \<exists>i p. osip_uri_param_get_byname ps (Some ''boundary'') = Some (i, p)"
proof -
  have "named ps \<Longrightarrow> \<exists>i p. osip_uri_param_find ps n = Some (i, p)" for n
    by (induction ps) auto
  then show "named ps \<Longrightarrow> ?thesis" by (simp add: osip_uri_param_get_byname_def)
qed

lemma msg_osip_body_parse_defined:
  assumes "\<And>cl. content_length sip = Some cl \<Longrightarrow> cl_value cl \<noteq> None" "body_readable sip bytes"
  shows "msg_osip_body_parse sip bytes m \<noteq> None"
proof (cases "content_type sip")
  case (Some ct)
  have get: "osip_uri_param_get_byname (ct_params ct) (Some ''boundary'') \<noteq> None"
    using assms(2) Some by (auto simp: body_readable_def intro!: boundary_search_defined)
  show ?thesis
    unfolding msg_osip_body_parse_def Some option.case
    by (intro defined plain_body_defined assms(1) get multipart_loop_defined)
      (use assms(2) Some in \<open>auto simp: body_readable_def\<close>)
qed (simp add: msg_osip_body_parse_def)

text \<open>
  The text must not end in a blank: \<^verbatim>\<open>osip_util_replace_all_lws\<close> would step over its NUL.
\<close>

definition text_ends :: "string \<Rightarrow> bool" where
  "text_ends buf \<longleftrightarrow>
    (let txt = cstring_at (dropWhile (\<lambda>c. c = CR \<or> c = LF) buf) in txt = [] \<or> \<not> is_sp_tab (last txt))"

lemma message_head_defined: "text_ends buf \<Longrightarrow> message_head sip buf sipfrag m \<noteq> None"
  unfolding message_head_def Let_def text_ends_def
  by (intro defined msg_headers_parse_defined osip_util_replace_all_lws_defined)

lemma message_tail_defined:
  assumes "body_readable sip tmp"
  shows "message_tail sip tmp m \<noteq> None"
proof -
  have "body_readable (sip\<lparr>content_length := None\<rparr>) tmp" using assms by (simp add: body_readable_def)
  then show ?thesis
    unfolding message_tail_def Let_def using assms
    by (intro defined msg_osip_body_parse_defined) (auto split: option.splits if_splits)
qed

theorem message_parse_defined:
  assumes "text_ends buf"
    and "\<And>sip' tmp m'. message_head sip buf sipfrag m = Some ((0, sip', tmp), m') \<Longrightarrow> body_readable sip' tmp"
  shows "message_parse sip buf sipfrag m \<noteq> None"
  unfolding message_parse_def
  by (intro defined message_head_defined assms(1) message_tail_defined) (use assms(2) in auto)

section \<open>What goes wrong\<close>

text \<open>A message with an empty part: the copy of \<open>-1\<close> bytes.\<close>

definition empty_part_message :: string where
  "empty_part_message = ''OPTIONS sip:a SIP/2.0'' @ [CR, LF] @ ''Content-Type: multipart/mixed;boundary=b'' @ [CR, LF]
     @ [CR, LF] @ ''--b'' @ [CR, LF] @ ''--b--'' @ [CR, LF]"

lemma empty_part_is_undefined: "osip_message_parse sip_message_init empty_part_message [] = None"
  by code_simp

text \<open>The search for a boundary gives up in a body of a thousand NUL bytes.\<close>

lemma many_nul_bytes: "n \<le> k \<Longrightarrow> LF \<in> set str \<Longrightarrow> find_occurence n str (replicate k NUL @ str) = (OSIP_SYNTAXERROR, None)"
proof (induction n arbitrary: k)
  case (Suc n)
  then obtain l where k: "k = Suc l" "n \<le> l" by (cases k) auto
  have "strstr [] str = None" using Suc.prems(2) by (auto simp: strstr.simps)
  then show ?case using Suc.IH [OF k(2) Suc.prems(2)] k(1) by (simp add: cstring_at_def)
qed simp

text \<open>A text that ends in a folded line without its own end.\<close>

lemma trailing_fold_is_undefined:
  "osip_message_parse sip_message_init (''OPTIONS sip:a SIP/2.0'' @ [CR, LF] @ ''  '') [] = None"
  by code_simp

end
