(* ===== verification/Message_Typed.thy ===== *)
theory Message_Typed
  imports Message_Parse
begin

text \<open>
  What a parser guarantees of the headers it fills: the parameters of every list have names, a
  URI has a host or a text, a Via its version, protocol and host, a CSeq its number and method.
  This is what the printers, the copies and the transactions ask of a message. The rules of
  \<open>ens\<close> prove it along the structure of a parser.
\<close>

section \<open>Guarantees\<close>

definition ensures :: "('r \<Rightarrow> bool) \<Rightarrow> ('r \<times> mem) option \<Rightarrow> bool" where
  "ensures Q r \<longleftrightarrow> (\<forall>x m. r = Some (x, m) \<longrightarrow> Q x)"

named_theorems ens \<open>rules for guarantees\<close>

lemma ensuresD: "ensures Q r \<Longrightarrow> r = Some (x, m) \<Longrightarrow> Q x"
  by (simp add: ensures_def)

lemma ensures_weaken: "ensures Q r \<Longrightarrow> (\<And>x. Q x \<Longrightarrow> R x) \<Longrightarrow> ensures R r"
  by (simp add: ensures_def)

lemma ensures_Some [ens]: "Q x \<Longrightarrow> ensures Q (Some (x, m))"
  by (simp add: ensures_def)

lemma ensures_None [ens]: "ensures Q None"
  by (simp add: ensures_def)

lemma ensures_alloc [ens]: "Q r \<Longrightarrow> (\<And>m. ensures Q (k m)) \<Longrightarrow> ensures Q (alloc_or m r k)"
  by (simp add: ensures_def alloc_or_def split: prod.split)

lemma ensures_bind [ens]: "(\<And>y. x = Some y \<Longrightarrow> ensures Q (f y)) \<Longrightarrow> ensures Q (x \<bind> f)"
  by (cases x) (simp_all add: ensures_def)

lemma ensures_if [ens]: "(c \<Longrightarrow> ensures Q x) \<Longrightarrow> (\<not> c \<Longrightarrow> ensures Q y) \<Longrightarrow> ensures Q (if c then x else y)"
  by simp

lemma ensures_option [ens]:
  "(x = None \<Longrightarrow> ensures Q y) \<Longrightarrow> (\<And>z. x = Some z \<Longrightarrow> ensures Q (f z)) \<Longrightarrow> ensures Q (case x of None \<Rightarrow> y | Some z \<Rightarrow> f z)"
  by (cases x) simp_all

lemma ensures_prod [ens]: "(\<And>x y. p = (x, y) \<Longrightarrow> ensures Q (f x y)) \<Longrightarrow> ensures Q (case p of (x, y) \<Rightarrow> f x y)"
  by (cases p) simp

lemma ensures_prod_app [ens]:
  "(\<And>x y. p = (x, y) \<Longrightarrow> ensures Q (f x y z)) \<Longrightarrow> ensures Q ((case p of (x, y) \<Rightarrow> f x y) z)"
  by (cases p) simp

section \<open>URI\<close>

definition named_uri :: "osip_uri \<Rightarrow> bool" where
  "named_uri u \<longleftrightarrow> named (url_params u) \<and> named (url_headers u)"

lemma osip_uri_param_add_named:
  "osip_uri_param_add ps (Some n) v m = Some ((i, ps'), m') \<Longrightarrow> named ps \<Longrightarrow> named ps'"
  by (auto simp: osip_uri_param_add_def osip_uri_param_set_def alloc_or_def
      osip_clrspace_trim list_add_def split: if_splits bind_splits prod.splits)

lemma uri_parse_param_named:
  "named_uri uri \<Longrightarrow> ensures (\<lambda>(i, u). named_uri u) (uri_parse_param uri params equal comma m)"
  unfolding uri_parse_param_def Let_def
  by (intro ens) (auto simp: named_uri_def dest: osip_uri_param_add_named)

lemma osip_uri_parse_params_named:
  "named_uri uri \<Longrightarrow> ensures (\<lambda>(i, u). named_uri u) (osip_uri_parse_params uri params m)"
proof (induction "length params" arbitrary: uri params m rule: less_induct)
  case less
  have shorter: "length c < length params" if "advance 1 params = Some r" "strchr r x = Some c" for r x c
    using that strchr_shorter [OF that(2)] by (cases params) auto
  show ?case
    by (subst osip_uri_parse_params.simps, intro ens)
      (auto intro!: uri_parse_param_named less shorter dest: ensuresD [OF uri_parse_param_named [OF less.prems]])
qed

lemma uri_parse_header_named:
  "named_uri uri \<Longrightarrow> ensures (\<lambda>(i, u). named_uri u) (uri_parse_header uri hs equal amp m)"
  unfolding uri_parse_header_def Let_def
  by (intro ens) (auto simp: named_uri_def dest: osip_uri_param_add_named)

lemma osip_uri_parse_headers_named:
  "named_uri uri \<Longrightarrow> ensures (\<lambda>(i, u). named_uri u) (osip_uri_parse_headers uri params m)"
proof (induction "length params" arbitrary: uri params m rule: less_induct)
  case less
  have shorter: "length c < length params" if "advance 1 params = Some r" "strchr r x = Some c" for r x c
    using that strchr_shorter [OF that(2)] by (cases params) auto
  show ?case
    by (subst osip_uri_parse_headers.simps, intro ens)
      (auto intro!: uri_parse_header_named less shorter dest: ensuresD [OF uri_parse_header_named [OF less.prems]])
qed

text \<open>The continuations of the parser of a URI keep the parameters.\<close>

lemma uri_userinfo_named:
  assumes "named_uri uri" "\<And>h u m. named_uri u \<Longrightarrow> ensures Q (k h u m)" "\<And>i u. i \<noteq> 0 \<Longrightarrow> named_uri u \<Longrightarrow> Q (i, u)"
  shows "ensures Q (uri_userinfo uri buf username m k)"
  unfolding uri_userinfo_def Let_def
  by (intro ens assms(2,3)) (use assms(1) in \<open>simp_all add: named_uri_def\<close>)

lemma uri_tail_named:
  assumes "named_uri uri" "\<And>h u m. named_uri u \<Longrightarrow> ensures Q (k h u m)" "\<And>i u. i \<noteq> 0 \<Longrightarrow> named_uri u \<Longrightarrow> Q (i, u)"
  shows "ensures Q (uri_tail uri host m k)"
proof -
  have hs: "named_uri u" if "(if strchr host CHR ''?'' = None then Some ((OSIP_SUCCESS, uri), m)
      else osip_uri_parse_headers uri h m) = Some ((i, u), m')" for h i u m'
    using that assms(1) ensuresD [OF osip_uri_parse_headers_named [OF assms(1)]] by (auto split: if_splits)
  have ps: "named_uri u'" if "named_uri u" "osip_uri_parse_params u t m = Some ((i, u'), m')" for u u' t m i m'
    using ensuresD [OF osip_uri_parse_params_named [OF that(1)] that(2)] by simp
  show ?thesis
    unfolding uri_tail_def Let_def
    by (intro ens assms(2,3))
      (auto simp del: strchr_None split del: if_split dest: hs ps)
qed

definition uri_typed :: "int \<times> osip_uri \<Rightarrow> bool" where
  "uri_typed r = (case r of (i, u) \<Rightarrow> named_uri u \<and> (i = 0 \<longrightarrow> uri_host u \<noteq> None \<or> uri_string u \<noteq> None))"

lemma uri_hostport_typed: "named_uri uri \<Longrightarrow> ensures uri_typed (uri_hostport uri host params m)"
  unfolding uri_hostport_def uri_host_at_def Let_def
  by (intro ens) (simp_all add: uri_typed_def named_uri_def)

lemma osip_uri_parse_typed:
  assumes "named_uri uri"
  shows "ensures uri_typed (osip_uri_parse uri buf m)"
  unfolding osip_uri_parse_def Let_def
  by (intro ens uri_userinfo_named uri_tail_named uri_hostport_typed)
    (use assms in \<open>simp_all add: uri_typed_def named_uri_def\<close>)

section \<open>Parameters and the headers that have them\<close>

lemma generic_param_parse_named:
  "named ps \<Longrightarrow> ensures (\<lambda>(i, ps'). named ps') (generic_param_parse ps params equal comma m)"
  unfolding generic_param_parse_def Let_def
  by (intro ens) (auto dest: osip_uri_param_add_named)

lemma osip_generic_param_parseall_named:
  "named ps \<Longrightarrow> ensures (\<lambda>(i, ps'). named ps') (osip_generic_param_parseall ps params m)"
proof (induction ps params m rule: osip_generic_param_parseall.induct)
  case (1 ps params m)
  show ?case
    by (subst osip_generic_param_parseall.simps, intro ens)
      (use "1.prems" in \<open>auto intro!: "1.IH" generic_param_parse_named
        dest: ensuresD [OF generic_param_parse_named [OF "1.prems"]]\<close>)
qed

lemma parseall_named:
  "osip_generic_param_parseall ps params m = Some ((i, ps'), m') \<Longrightarrow> named ps \<Longrightarrow> named ps'"
  using ensuresD [OF osip_generic_param_parseall_named] by fastforce

definition from_typed :: "int \<times> osip_from \<Rightarrow> bool" where
  "from_typed r = (case r of (i, f) \<Rightarrow> i = 0 \<longrightarrow> from_ok f)"

lemma from_set_url_typed: "named (gen_params from) \<Longrightarrow> ensures from_typed (from_set_url from addr len m)"
proof -
  assume named: "named (gen_params from)"
  have init: "named_uri osip_uri_init" by (simp add: named_uri_def osip_uri_init_def)
  have "uri_typed (i, u)" if "osip_uri_parse osip_uri_init b m = Some ((i, u), m')" for b m i u m'
    by (rule ensuresD [OF osip_uri_parse_typed [OF init] that])
  then show ?thesis
    unfolding from_set_url_def Let_def
    by (intro ens) (auto simp: from_typed_def from_ok_def uri_ok_def uri_typed_def named_uri_def named)
qed

lemma from_addr_typed: "named (gen_params from) \<Longrightarrow> ensures from_typed (from_addr from addr m)"
  unfolding from_addr_def Let_def
  by (intro ens from_set_url_typed) (auto simp: from_typed_def dest: parseall_named)

lemma osip_from_parse_typed:
  assumes "from_ok from"
  shows "ensures from_typed (osip_from_parse from v m)"
  unfolding osip_from_parse_def from_quoted_name_def from_token_name_def Let_def
  by (intro ens from_addr_typed) (use assms in \<open>simp_all add: from_typed_def from_ok_def\<close>)

lemma osip_contact_parse_typed:
  assumes "from_ok from"
  shows "ensures from_typed (osip_contact_parse from v m)"
  unfolding osip_contact_parse_def
  by (intro ens osip_from_parse_typed) (use assms in \<open>simp_all add: from_typed_def from_ok_def\<close>)

definition via_typed :: "int \<times> osip_via \<Rightarrow> bool" where
  "via_typed r = (case r of (i, v) \<Rightarrow> i = 0 \<longrightarrow> via_ok v)"

lemma via_parse_host_typed:
  assumes "via_version via \<noteq> None" "via_protocol via \<noteq> None" "named (via_params via)"
  shows "ensures via_typed (via_parse_host via host params m)"
  unfolding via_parse_host_def Let_def
  by (intro ens) (use assms in \<open>auto simp: via_typed_def via_ok_def\<close>)

lemma via_parse_params_typed:
  assumes "via_version via \<noteq> None" "via_protocol via \<noteq> None" "named (via_params via)"
  shows "ensures via_typed (via_parse_params via host comment m)"
  unfolding via_parse_params_def Let_def
  by (intro ens via_parse_host_typed) (use assms in \<open>auto simp: via_typed_def dest: parseall_named\<close>)

lemma osip_via_parse_typed:
  assumes "named (via_params via)"
  shows "ensures via_typed (osip_via_parse via v m)"
  unfolding osip_via_parse_def via_parse_comment_def Let_def
  by (intro ens via_parse_params_typed) (use assms in \<open>auto simp: via_typed_def\<close>)

section \<open>Other headers\<close>

lemma osip_call_id_parse_typed: "ensures (\<lambda>(i, c). i = 0 \<longrightarrow> callid_number c \<noteq> None) (osip_call_id_parse c v m)"
  unfolding osip_call_id_parse_def Let_def by (intro ens) simp_all

definition cseq_typed :: "osip_cseq \<Rightarrow> bool" where
  "cseq_typed c \<longleftrightarrow> cseq_number c \<noteq> None \<and> cseq_method c \<noteq> None"

lemma osip_cseq_parse_typed:
  "ensures (\<lambda>(i, c). i = 0 \<longrightarrow> (\<forall>x. c = Some x \<longrightarrow> cseq_typed x)) (osip_cseq_parse (Some c) v m)"
  unfolding osip_cseq_parse_def Let_def prod.case option.case
  by (intro ens) (simp_all add: cseq_typed_def)

lemma cseq_parse_into_typed: "ensures (\<lambda>(i, c). i = 0 \<longrightarrow> cseq_typed c) (cseq_parse_into c v m)"
  unfolding cseq_parse_into_def
  by (intro ens) (auto dest: ensuresD [OF osip_cseq_parse_typed])

lemma osip_content_length_parse_typed:
  "ensures (\<lambda>(i, c). i = 0 \<longrightarrow> cl_value c \<noteq> None) (osip_content_length_parse c v m)"
  unfolding osip_content_length_parse_def Let_def by (intro ens) simp_all

lemma osip_content_type_parse_named:
  "named (ct_params c) \<Longrightarrow> ensures (\<lambda>(i, c). named (ct_params c)) (osip_content_type_parse c v m)"
  unfolding osip_content_type_parse_def content_type_names_def Let_def
  by (intro ens) (auto dest: parseall_named)

definition element_typed :: "osip_accept_encoding \<Rightarrow> bool" where
  "element_typed h \<longleftrightarrow> element h \<noteq> None \<and> named (el_params h)"

lemma parse_element_typed:
  "named (el_params h) \<Longrightarrow> ensures (\<lambda>(i, h). i = 0 \<longrightarrow> element_typed h) (parse_element h v params m)"
  unfolding parse_element_def set_element_def Let_def
  by (intro ens) (auto simp: element_typed_def dest: parseall_named)

lemma element_parsers_typed:
  assumes "named (el_params h)"
  shows "ensures (\<lambda>(i, h). i = 0 \<longrightarrow> element_typed h) (osip_accept_encoding_parse h v m)"
    and "ensures (\<lambda>(i, h). i = 0 \<longrightarrow> element_typed h) (osip_call_info_parse h v m)"
  unfolding osip_accept_encoding_parse_def osip_call_info_parse_def
  by (intro ens parse_element_typed assms; simp)+

text \<open>The fields of an authentication header are set one by one, and never its type.\<close>

lemma auth_round_keeps:
  assumes "\<And>h v. P h \<Longrightarrow> list_all (\<lambda>(q, name, get, put). P (put v h)) fs" "P h"
  shows "ensures (\<lambda>r. case r of Inl (i, h) \<Rightarrow> P h | Inr (h, s, ok) \<Rightarrow> P h) (auth_round fs h s ok m)"
  using assms
proof (induction fs arbitrary: h s ok m)
  case (Cons f fs)
  obtain q name get put where f: "f = (q, name, get, put)" by (cases f) auto
  have keep: "P (put v h)" for v using Cons.prems(1) [OF Cons.prems(2), of v] by (simp add: f)
  have fs: "P h \<Longrightarrow> list_all (\<lambda>(q, name, get, put). P (put v h)) fs" for h v
    using Cons.prems(1) [of h v] by simp
  show ?case
    unfolding f auth_round.simps Let_def
    by (intro ens Cons.IH fs) (simp_all add: keep)
qed (auto intro: ens)

lemma auth_loop_keeps:
  assumes "\<And>h v. P h \<Longrightarrow> list_all (\<lambda>(q, name, get, put). P (put v h)) fs" "P h"
  shows "ensures (\<lambda>(i, h). P h) (auth_loop fs h s m)"
  using assms(2)
proof (induction "length s" arbitrary: h s m rule: less_induct)
  case less
  show ?case
  proof (cases "auth_round fs h s False m")
    case None
    then show ?thesis by (subst auth_loop.simps) (simp add: ens)
  next
    case (Some a)
    obtain r m1 where r: "auth_round fs h s False m = Some (r, m1)" using Some by (cases a) auto
    note keep = ensuresD [OF auth_round_keeps [OF assms(1) less.prems] r]
    show ?thesis
    proof (cases r)
      case (Inl a)
      then show ?thesis using r keep by (subst auth_loop.simps) (simp add: ensures_def split: prod.splits)
    next
      case (Inr b)
      obtain h1 s1 ok where b: "b = (h1, s1, ok)" by (cases b) auto
      note prog = auth_round_progress [OF r [unfolded Inr b]]
      have h1: "P h1" using keep Inr b by simp
      have "ensures (\<lambda>(i, h). P h) (auth_loop fs h1 s1 m1)" if ok using less.hyps [OF _ h1] prog that by blast
      moreover have "ensures (\<lambda>(i, h). P h) (auth_loop fs h1 t m1)" if "\<not> ok" "skip_unknown s1 = Some (Inr t)" for t
        using less.hyps [OF _ h1] prog that skip_unknown_progress [OF that(2)] by simp
      ultimately show ?thesis
        using r Inr b h1 by (subst auth_loop.simps) (auto simp: ensures_def split: option.split sum.split)
    qed
  qed
qed

lemma osip_www_authenticate_parse_typed:
  "ensures (\<lambda>(i, h). i = 0 \<longrightarrow> www_auth_type h \<noteq> None) (osip_www_authenticate_parse h v m)"
proof -
  have "ensures (\<lambda>(i, h). i = 0 \<longrightarrow> www_auth_type h \<noteq> None) (auth_loop www_fields h s m)"
    if "www_auth_type h \<noteq> None" for h s m
    by (rule ensures_weaken [OF auth_loop_keeps [of "\<lambda>h. www_auth_type h \<noteq> None"]])
      (use that in \<open>auto simp: www_fields_def\<close>)
  then show ?thesis
    unfolding osip_www_authenticate_parse_def by (intro ens) simp_all
qed

lemma osip_authorization_parse_typed:
  "ensures (\<lambda>(i, h). i = 0 \<longrightarrow> auth_type h \<noteq> None) (osip_authorization_parse h v m)"
proof -
  have "ensures (\<lambda>(i, h). i = 0 \<longrightarrow> auth_type h \<noteq> None) (auth_loop authorization_fields h s m)"
    if "auth_type h \<noteq> None" for h s m
    by (rule ensures_weaken [OF auth_loop_keeps [of "\<lambda>h. auth_type h \<noteq> None"]])
      (use that in \<open>auto simp: authorization_fields_def\<close>)
  then show ?thesis
    unfolding osip_authorization_parse_def by (intro ens) simp_all
qed

section \<open>Messages\<close>

definition headers_typed :: "sip_message \<Rightarrow> bool" where
  "headers_typed sip \<longleftrightarrow>
     (\<forall>v \<in> set (vias sip). via_ok v)
   \<and> (\<forall>f \<in> set (contacts sip) \<union> set (routes sip) \<union> set (record_routes sip)
        \<union> set_option (msg_from sip) \<union> set_option (msg_to sip). from_ok f)
   \<and> (\<forall>c \<in> set_option (call_id sip). callid_number c \<noteq> None)
   \<and> (\<forall>c \<in> set_option (cseq sip). cseq_typed c)
   \<and> (\<forall>a \<in> set (authorizations sip) \<union> set (proxy_authorizations sip). auth_type a \<noteq> None)
   \<and> (\<forall>a \<in> set (www_authenticates sip) \<union> set (proxy_authenticates sip). www_auth_type a \<noteq> None)
   \<and> (\<forall>c \<in> set_option (content_type sip) \<union> set (accepts sip). named (ct_params c))
   \<and> (\<forall>c \<in> set_option (content_length sip) \<union> set_option (mime_version sip) \<union> set (allows sip)
        \<union> set (content_encodings sip). cl_value c \<noteq> None)
   \<and> (\<forall>h \<in> set (accept_encodings sip) \<union> set (accept_languages sip) \<union> set (alert_infos sip)
        \<union> set (call_infos sip) \<union> set (error_infos sip). element_typed h)
   \<and> (\<forall>h \<in> set (headers sip). h_name h \<noteq> None)"

text \<open>What a setter keeps: the types of the headers, and the start line.\<close>

definition start_line :: "'a osip_message_scheme \<Rightarrow> cstr \<times> osip_uri option \<times> cstr \<times> int \<times> cstr" where
  "start_line sip = (sip_version sip, req_uri sip, sip_method sip, status_code sip, reason_phrase sip)"

definition typed_with :: "cstr \<times> osip_uri option \<times> cstr \<times> int \<times> cstr \<Rightarrow> sip_message \<Rightarrow> bool" where
  "typed_with f sip \<longleftrightarrow> headers_typed sip \<and> start_line sip = f"

definition setter_keeps :: "(sip_message \<Rightarrow> bool) \<Rightarrow> setter \<Rightarrow> bool" where
  "setter_keeps P s \<longleftrightarrow> (\<forall>sip v m. P sip \<longrightarrow> ensures (\<lambda>(i, sip). P sip) (s sip v m))"

lemma set_of_list_add: "list_add hs h pos m = (hs', m') \<Longrightarrow> set hs' \<subseteq> insert h (set hs)"
  by (auto simp: list_add_def mset_l_add_set split: prod.splits if_splits)

definition yields :: "('h \<Rightarrow> bool) \<Rightarrow> ((int \<times> 'h) \<times> mem) option \<Rightarrow> bool" where
  "yields T r \<longleftrightarrow> ensures (\<lambda>(i, h). i = 0 \<longrightarrow> T h) r"

lemma add_parsed_keeps:
  assumes "\<And>v m. yields T (parse h v m)"
    and put: "\<And>h hs sip. P sip \<Longrightarrow> T h \<Longrightarrow> set hs \<subseteq> insert h (set (get sip)) \<Longrightarrow> P (put hs (sip\<lparr>message_property := 2\<rparr>))"
  shows "setter_keeps P (add_parsed h parse get put)"
proof -
  have T: "T h'" if "parse h v m = Some ((0, h'), m')" for v m h' m'
    using ensuresD [OF assms(1) [unfolded yields_def] that] by simp
  show ?thesis
    unfolding setter_keeps_def add_parsed_def
    by (intro allI impI ens) (auto intro: put T dest!: set_of_list_add)
qed

lemma set_in_list_keeps:
  assumes "\<And>v m. yields T (parse h v m)"
    and "\<And>h hs sip. P sip \<Longrightarrow> T h \<Longrightarrow> set hs \<subseteq> insert h (set (get sip)) \<Longrightarrow> P (put hs (sip\<lparr>message_property := 2\<rparr>))"
  shows "setter_keeps P (set_in_list h parse get put)"
  using add_parsed_keeps [where T = T and parse = parse and h = h and P = P and get = get and put = put, OF assms] unfolding setter_keeps_def set_in_list_def by (auto intro: ens)

lemma set_parsed_keeps:
  assumes "\<And>v m. yields T (parse h v m)"
    and put: "\<And>h sip. P sip \<Longrightarrow> (\<And>x. h = Some x \<Longrightarrow> T x) \<Longrightarrow> P (put h (sip\<lparr>message_property := 2\<rparr>))"
  shows "setter_keeps P (set_parsed h parse put)"
proof -
  have T: "T h'" if "parse h v m = Some ((0, h'), m')" for v m h' m'
    using ensuresD [OF assms(1) [unfolded yields_def] that] by simp
  show ?thesis
    unfolding setter_keeps_def set_parsed_def Let_def
    by (intro allI impI ens) (auto intro: put T)
qed

lemma set_once_keeps:
  assumes "\<And>v m. yields T (parse h v m)"
    and "\<And>h sip. P sip \<Longrightarrow> (\<And>x. h = Some x \<Longrightarrow> T x) \<Longrightarrow> P (put h (sip\<lparr>message_property := 2\<rparr>))"
  shows "setter_keeps P (set_once e h parse get put)"
  using set_parsed_keeps [where T = T and parse = parse and h = h and P = P and put = put, OF assms] unfolding setter_keeps_def set_once_def by (auto intro: ens)

lemma with_value_typed: "(\<And>v m. yields T (parse h v m)) \<Longrightarrow> yields T (with_value parse h v m)"
  unfolding with_value_def yields_def by (intro ens)

lemma new_headers_typed:
  "from_ok osip_from_init" "named (via_params osip_via_init)" "named (el_params osip_accept_encoding_init)"
  "named (ct_params osip_content_type_init)"
  by (simp_all add: from_ok_def osip_from_init_def osip_via_init_def osip_accept_encoding_init_def
      osip_content_type_init_def)

lemma from_parsers_typed:
  "yields from_ok (osip_from_parse osip_from_init v m)"
  "yields from_ok (osip_to_parse osip_from_init v m)"
  "yields from_ok (osip_route_parse osip_from_init v m)"
  "yields from_ok (osip_record_route_parse osip_from_init v m)"
  "yields from_ok (osip_contact_parse osip_from_init v m)"
  using osip_from_parse_typed [OF new_headers_typed(1)] osip_contact_parse_typed [OF new_headers_typed(1)]
  by (simp_all add: yields_def from_typed_def [abs_def] osip_to_parse_def osip_route_parse_def osip_record_route_parse_def)

lemma via_parser_typed: "yields via_ok (osip_via_parse osip_via_init v m)"
  using osip_via_parse_typed [OF new_headers_typed(2)] by (simp add: yields_def via_typed_def [abs_def])

lemma content_type_parser_typed:
  "yields (\<lambda>c. named (ct_params c)) (osip_content_type_parse osip_content_type_init v m)"
  unfolding yields_def
  by (rule ensures_weaken [OF osip_content_type_parse_named [OF new_headers_typed(4)]]) auto

lemmas parsers_typed = from_parsers_typed via_parser_typed content_type_parser_typed
  element_parsers_typed [OF new_headers_typed(3), folded yields_def] osip_content_length_parse_typed [folded yields_def] cseq_parse_into_typed [folded yields_def]
  with_value_typed [OF osip_call_id_parse_typed [folded yields_def]] with_value_typed [OF osip_authorization_parse_typed [folded yields_def]]
  with_value_typed [OF osip_www_authenticate_parse_typed [folded yields_def]]

lemma ensures_True: "yields (\<lambda>_. True) r"
  by (simp add: yields_def ensures_def)

lemma set_accept_encoding_keeps: "setter_keeps (typed_with f) osip_message_set_accept_encoding"
  unfolding osip_message_set_accept_encoding_def
  by (rule set_in_list_keeps, rule parsers_typed) (auto simp: typed_with_def headers_typed_def start_line_def)

lemma set_accept_language_keeps: "setter_keeps (typed_with f) osip_message_set_accept_language"
  unfolding osip_message_set_accept_language_def
  by (rule set_in_list_keeps, rule parsers_typed) (auto simp: typed_with_def headers_typed_def start_line_def)

lemma set_alert_info_keeps: "setter_keeps (typed_with f) osip_message_set_alert_info"
  unfolding osip_message_set_alert_info_def
  by (rule set_in_list_keeps, rule parsers_typed) (auto simp: typed_with_def headers_typed_def start_line_def)

lemma set_allow_keeps: "setter_keeps (typed_with f) osip_message_set_allow"
  unfolding osip_message_set_allow_def
  by (rule set_in_list_keeps, rule parsers_typed) (auto simp: typed_with_def headers_typed_def start_line_def)

lemma set_authentication_info_keeps: "setter_keeps (typed_with f) osip_message_set_authentication_info"
  unfolding osip_message_set_authentication_info_def
  by (rule set_in_list_keeps, rule ensures_True) (auto simp: typed_with_def headers_typed_def start_line_def)

lemma set_authorization_keeps: "setter_keeps (typed_with f) osip_message_set_authorization"
  unfolding osip_message_set_authorization_def
  by (rule set_in_list_keeps, rule parsers_typed) (auto simp: typed_with_def headers_typed_def start_line_def)

lemma set_call_info_keeps: "setter_keeps (typed_with f) osip_message_set_call_info"
  unfolding osip_message_set_call_info_def
  by (rule set_in_list_keeps, rule parsers_typed) (auto simp: typed_with_def headers_typed_def start_line_def)

lemma set_contact_keeps: "setter_keeps (typed_with f) osip_message_set_contact"
  unfolding osip_message_set_contact_def
  by (rule set_in_list_keeps, rule parsers_typed) (auto simp: typed_with_def headers_typed_def start_line_def)

lemma set_content_encoding_keeps: "setter_keeps (typed_with f) osip_message_set_content_encoding"
  unfolding osip_message_set_content_encoding_def
  by (rule set_in_list_keeps, rule parsers_typed) (auto simp: typed_with_def headers_typed_def start_line_def)

lemma set_error_info_keeps: "setter_keeps (typed_with f) osip_message_set_error_info"
  unfolding osip_message_set_error_info_def
  by (rule set_in_list_keeps, rule parsers_typed) (auto simp: typed_with_def headers_typed_def start_line_def)

lemma set_proxy_authenticate_keeps: "setter_keeps (typed_with f) osip_message_set_proxy_authenticate"
  unfolding osip_message_set_proxy_authenticate_def
  by (rule set_in_list_keeps, rule parsers_typed) (auto simp: typed_with_def headers_typed_def start_line_def)

lemma set_proxy_authentication_info_keeps: "setter_keeps (typed_with f) osip_message_set_proxy_authentication_info"
  unfolding osip_message_set_proxy_authentication_info_def
  by (rule set_in_list_keeps, rule ensures_True) (auto simp: typed_with_def headers_typed_def start_line_def)

lemma set_proxy_authorization_keeps: "setter_keeps (typed_with f) osip_message_set_proxy_authorization"
  unfolding osip_message_set_proxy_authorization_def
  by (rule set_in_list_keeps, rule parsers_typed) (auto simp: typed_with_def headers_typed_def start_line_def)

lemma set_record_route_keeps: "setter_keeps (typed_with f) osip_message_set_record_route"
  unfolding osip_message_set_record_route_def
  by (rule set_in_list_keeps, rule parsers_typed) (auto simp: typed_with_def headers_typed_def start_line_def)

lemma set_route_keeps: "setter_keeps (typed_with f) osip_message_set_route"
  unfolding osip_message_set_route_def
  by (rule set_in_list_keeps, rule parsers_typed) (auto simp: typed_with_def headers_typed_def start_line_def)

lemma set_via_keeps: "setter_keeps (typed_with f) osip_message_set_via"
  unfolding osip_message_set_via_def
  by (rule set_in_list_keeps, rule parsers_typed) (auto simp: typed_with_def headers_typed_def start_line_def)

lemma set_www_authenticate_keeps: "setter_keeps (typed_with f) osip_message_set_www_authenticate"
  unfolding osip_message_set_www_authenticate_def
  by (rule set_in_list_keeps, rule parsers_typed) (auto simp: typed_with_def headers_typed_def start_line_def)

lemma set_call_id_keeps: "setter_keeps (typed_with f) osip_message_set_call_id"
  unfolding osip_message_set_call_id_def
  by (rule set_once_keeps, rule parsers_typed) (auto simp: typed_with_def headers_typed_def start_line_def)

lemma set_content_length_keeps: "setter_keeps (typed_with f) osip_message_set_content_length"
  unfolding osip_message_set_content_length_def
  by (rule set_once_keeps, rule parsers_typed) (auto simp: typed_with_def headers_typed_def start_line_def)

lemma set_cseq_keeps: "setter_keeps (typed_with f) osip_message_set_cseq"
  unfolding osip_message_set_cseq_def
  by (rule set_once_keeps, rule parsers_typed) (auto simp: typed_with_def headers_typed_def start_line_def)

lemma set_from_keeps: "setter_keeps (typed_with f) osip_message_set_from"
  unfolding osip_message_set_from_def
  by (rule set_once_keeps, rule parsers_typed) (auto simp: typed_with_def headers_typed_def start_line_def)

lemma set_mime_version_keeps: "setter_keeps (typed_with f) osip_message_set_mime_version"
  unfolding osip_message_set_mime_version_def
  by (rule set_once_keeps, rule parsers_typed) (auto simp: typed_with_def headers_typed_def start_line_def)

lemma set_to_keeps: "setter_keeps (typed_with f) osip_message_set_to"
  unfolding osip_message_set_to_def
  by (rule set_once_keeps, rule parsers_typed) (auto simp: typed_with_def headers_typed_def start_line_def)

lemma set_accept_keeps: "setter_keeps (typed_with f) osip_message_set_accept"
  unfolding osip_message_set_accept_def
  by (rule add_parsed_keeps, rule parsers_typed) (auto simp: typed_with_def headers_typed_def start_line_def)

lemma set_content_type_keeps: "setter_keeps (typed_with f) osip_message_set_content_type"
proof -
  have "setter_keeps (typed_with f) (set_parsed osip_content_type_init osip_content_type_parse (\<lambda>h sip. sip\<lparr>content_type := h\<rparr>))"
    by (rule set_parsed_keeps, rule parsers_typed) (auto simp: typed_with_def headers_typed_def start_line_def)
  then show ?thesis unfolding setter_keeps_def osip_message_set_content_type_def by (auto intro: ens)
qed

lemma pconfig_keeps: "list_all (\<lambda>(hname, ignored, setheader). setter_keeps (typed_with f) setheader) pconfig"
  unfolding pconfig_def list.pred_inject prod.case
  by (intro conjI TrueI set_accept_keeps set_accept_encoding_keeps set_accept_language_keeps set_alert_info_keeps
      set_allow_keeps set_authentication_info_keeps set_authorization_keeps set_content_type_keeps
      set_call_id_keeps set_call_info_keeps set_contact_keeps set_content_encoding_keeps
      set_content_length_keeps set_cseq_keeps set_error_info_keeps set_from_keeps set_mime_version_keeps
      set_proxy_authenticate_keeps set_proxy_authentication_info_keeps set_proxy_authorization_keeps
      set_record_route_keeps set_route_keeps set_to_keeps set_via_keeps set_www_authenticate_keeps) simp

abbreviation keeps_type where
  "keeps_type f \<equiv> ensures (\<lambda>(i :: int, sip). typed_with f sip)"

lemma osip_message_call_method_keeps:
  assumes "typed_with f sip"
  shows "keeps_type f (osip_message_call_method i sip v m)"
  unfolding osip_message_call_method_def
proof (intro ens, goal_cases)
  case (1 u hname p ignored setheader y r k err dest)
  have "nat i < length pconfig" using 1(1) by simp
  then have "setter_keeps (typed_with f) setheader"
    using pconfig_keeps [of f] 1(2,3) by (auto simp: list_all_length)
  then show ?case using 1 assms by (auto simp: setter_keeps_def dest: ensuresD)
qed

lemma new_header_named: "ensures (\<lambda>(i, h). \<forall>x. h = Some x \<longrightarrow> h_name x \<noteq> None) (new_header n v m)"
  unfolding new_header_def by (intro ens) simp_all

lemma osip_message_set_header_keeps_type:
  assumes "typed_with f sip"
  shows "ensures (\<lambda>(i, s). \<forall>x. s = Some x \<longrightarrow> typed_with f x) (osip_message_set_header (Some sip) n v m)"
proof -
  have add: "typed_with f (sip\<lparr>message_property := 2, headers := hs\<rparr>)"
    if "new_header n v m = Some ((i, Some h), m1)" "list_add (headers sip) h (-1) m1 = (hs, m2)" for n i h m1 hs m2
    using assms ensuresD [OF new_header_named that(1)] set_of_list_add [OF that(2)]
    by (auto simp: typed_with_def headers_typed_def start_line_def)
  show ?thesis
    unfolding osip_message_set_header_def prod.case option.case
    by (intro ens) (auto simp: assms intro: add ens)
qed

lemma osip_message_set__header_keeps:
  assumes "typed_with f sip"
  shows "keeps_type f (osip_message_set__header sip n v m)"
  unfolding osip_message_set__header_def Let_def
  by (intro ens osip_message_call_method_keeps assms)
    (auto simp: assms dest: ensuresD [OF osip_message_set_header_keeps_type [OF assms]])

lemma split_header_keeps: "typed_with f sip \<Longrightarrow> keeps_type f (split_header n beg q u ptr sip m)"
proof (induction n beg q u ptr sip m rule: split_header.induct)
  case (1 n beg q u sip m)
  then show ?case
    unfolding split_header.simps by (intro ens osip_message_set__header_keeps) simp_all
next
  case (2 n beg q u c r sip m)
  show ?case
    unfolding split_header.simps
    by (intro ens "2.IH" "2.prems"; assumption?)
      (auto simp: "2.prems" dest: ensuresD [OF osip_message_set__header_keeps [OF "2.prems"]])
qed

lemma osip_message_set_multiple_header_keeps:
  "typed_with f sip \<Longrightarrow> keeps_type f (osip_message_set_multiple_header sip n v m)"
  unfolding osip_message_set_multiple_header_def Let_def
  by (intro ens osip_message_set__header_keeps split_header_keeps)

lemma msg_headers_parse_keeps:
  "typed_with f sip \<Longrightarrow> ensures (\<lambda>(i, sip, body). typed_with f sip) (msg_headers_parse sip s m)"
proof (induction "length s" arbitrary: sip s m rule: less_induct)
  case less
  have loop: "ensures (\<lambda>(i, sip, body). typed_with f sip) (msg_headers_parse x e k)"
    if "osip_find_next_crlf s = (i, Some e)" "osip_message_set_multiple_header sip n v m1 = Some ((j, x), k)"
    for i e n v m1 j x k
    using less.hyps [OF find_next_crlf_shorter [OF that(1)]]
      ensuresD [OF osip_message_set_multiple_header_keeps [OF less.prems] that(2)] by simp
  have stop: "typed_with f x" if "osip_message_set_multiple_header sip n v m1 = Some ((j, x), k)" for n v m1 j x k
    using ensuresD [OF osip_message_set_multiple_header_keeps [OF less.prems] that] by simp
  show ?case
    by (subst msg_headers_parse.simps, intro ens) (auto simp: less.prems dest: stop intro: loop ens)
qed

section \<open>The start line and the body\<close>

definition start_typed :: "'a osip_message_scheme \<Rightarrow> bool" where
  "start_typed sip \<longleftrightarrow> (status_code sip = 0 \<longrightarrow> sip_method sip \<noteq> None \<and> req_uri sip \<noteq> None)
     \<and> (\<forall>u. req_uri sip = Some u \<longrightarrow> uri_ok u)"

lemma headers_typed_start [simp]:
  "headers_typed (sip\<lparr>sip_version := a\<rparr>) = headers_typed sip"
  "headers_typed (sip\<lparr>req_uri := b\<rparr>) = headers_typed sip"
  "headers_typed (sip\<lparr>sip_method := c\<rparr>) = headers_typed sip"
  "headers_typed (sip\<lparr>status_code := d\<rparr>) = headers_typed sip"
  "headers_typed (sip\<lparr>reason_phrase := e\<rparr>) = headers_typed sip"
  by (simp_all add: headers_typed_def)

lemma osip_message_startline_parse_typed:
  assumes "headers_typed dest"
  shows "ensures (\<lambda>(i, sip, rest). headers_typed sip \<and> (i = 0 \<longrightarrow> start_typed sip))
    (osip_message_startline_parse dest buf m)"
proof -
  have init: "named_uri osip_uri_init" by (simp add: named_uri_def osip_uri_init_def)
  have uri: "uri_ok u" if "osip_uri_parse osip_uri_init b k = Some ((i, u), k')" "\<not> i \<noteq> 0" for b k i u k'
    using ensuresD [OF osip_uri_parse_typed [OF init] that(1)] that(2)
    by (auto simp: uri_typed_def named_uri_def uri_ok_def)
  show ?thesis
    unfolding osip_message_startline_parse_def osip_message_startline_parsereq_def
      osip_message_startline_parseresp_def startline_version_def Let_def
    by (intro ens) (auto simp: assms start_typed_def dest: uri)
qed

lemma add_body_keeps: "typed_with f sip \<Longrightarrow> keeps_type f (add_body parse sip bytes m)"
  unfolding add_body_def
  by (intro ens) (auto simp: typed_with_def headers_typed_def start_line_def)

lemma multipart_loop_keeps: "typed_with f sip \<Longrightarrow> keeps_type f (multipart_loop sip bnd s m)"
proof (induction "length s" arbitrary: sip s m rule: less_induct)
  case less
  have part: "keeps_type f (body_part sip n b e k)" for n b e k
    unfolding body_part_def Let_def osip_message_set_body_mime_def
    by (intro ens add_body_keeps less.prems) (simp_all add: less.prems)
  have loop: "keeps_type f (multipart_loop x bnd e k')"
    if "osip_find_next_occurence (Some (sep_boundary bnd)) (Some s) = (i, Some b)"
      "osip_find_next_occurence (Some (sep_boundary bnd)) (Some (drop (length (sep_boundary bnd)) b)) = (j, Some e)"
      "body_part sip n b' e' k = Some ((l, x), k')" for i b j e n b' e' k l x k'
    using less.hyps [OF next_boundary_shorter(2) [OF that(1,2)]] ensuresD [OF part that(3)] by simp
  show ?case
    by (subst multipart_loop.simps)
      (auto simp: Let_def less.prems intro!: ens dest: ensuresD [OF part] intro: loop split: option.split)
qed

lemma osip_message_set_content_length_keeps:
  "typed_with f sip \<Longrightarrow> keeps_type f (osip_message_set_content_length sip v m)"
  using set_content_length_keeps [of f] by (simp add: setter_keeps_def)

lemma plain_body_keeps:
  assumes "typed_with f sip"
  shows "keeps_type f (plain_body sip s m)"
proof -
  have first: "typed_with f x" if "(case content_length sip of
      Some cl \<Rightarrow> do { v \<leftarrow> cl_value cl; Some ((OSIP_SUCCESS, sip, osip_atoi v mod 2 ^ 64), m) }
    | None \<Rightarrow> do { ((i, sip), m) \<leftarrow> osip_message_set_content_length sip t m; Some ((i, sip, n), m) })
      = Some ((i, x, l), m')" for t n i x l m'
    using that assms ensuresD [OF osip_message_set_content_length_keeps [OF assms]]
    by (auto split: option.splits bind_splits)
  show ?thesis
    unfolding plain_body_def Let_def osip_message_set_body_def
    by (intro ens add_body_keeps) (auto simp: assms dest!: first)
qed

lemma msg_osip_body_parse_keeps:
  "typed_with f sip \<Longrightarrow> keeps_type f (msg_osip_body_parse sip s m)"
  unfolding msg_osip_body_parse_def
  by (auto intro!: ens plain_body_keeps multipart_loop_keeps split: option.split)

section \<open>Every message that is read is well typed\<close>

lemma message_head_typed:
  assumes "headers_typed sip"
  shows "ensures (\<lambda>(i, sip, tmp). headers_typed sip \<and> (i = 0 \<longrightarrow> sipfrag \<or> start_typed sip)) (message_head sip buf sipfrag m)"
proof -
  have start: "headers_typed x \<and> (\<not> (i \<noteq> 0 \<and> \<not> sipfrag) \<longrightarrow> sipfrag \<or> start_typed x)"
    if "osip_message_startline_parse sip t k = Some ((i, x, r), k')" for t k i x r k'
    using ensuresD [OF osip_message_startline_parse_typed [OF assms] that] by auto
  have rest: "headers_typed y \<and> start_typed y = start_typed x"
    if "msg_headers_parse x t k = Some ((i, y, b), k')" "headers_typed x" for x t k i y b k'
    using ensuresD [OF msg_headers_parse_keeps [of "start_line x"] that(1)] that(2)
    by (auto simp: typed_with_def start_line_def start_typed_def)
  show ?thesis
    unfolding message_head_def Let_def
    by (intro ens) (auto simp: assms dest!: start rest)
qed

lemma message_tail_keeps:
  assumes "typed_with f sip"
  shows "keeps_type f (message_tail sip tmp m)"
proof -
  define sip1 where "sip1 = (case content_length sip of
      Some cl \<Rightarrow> if cl_value cl = None then sip\<lparr>content_length := None\<rparr> else sip | None \<Rightarrow> sip)"
  have sip1: "typed_with f sip1"
    using assms unfolding sip1_def by (auto simp: typed_with_def headers_typed_def start_line_def split: option.split)
  have body: "typed_with f x"
    if "(if c then msg_osip_body_parse sip1 tmp m else Some ((OSIP_SUCCESS, sip1), m)) = Some ((i, x), m')" for c i x m'
    using that sip1 ensuresD [OF msg_osip_body_parse_keeps [OF sip1]] by (auto split: if_splits)
  have cl: "typed_with f y" if "typed_with f x" "osip_message_set_content_length x v k = Some ((j, y), k')" for x v k j y k'
    using ensuresD [OF osip_message_set_content_length_keeps [OF that(1)] that(2)] by simp
  show ?thesis
    unfolding message_tail_def Let_def sip1_def [symmetric]
    by (intro ens) (auto split del: if_split dest!: body dest: cl)
qed

lemma osip_message_init_typed: "headers_typed sip_message_init"
  by (simp add: headers_typed_def sip_message_init_def osip_message_init_def osip_message.defs)

theorem message_parse_typed:
  assumes "headers_typed sip"
  shows "ensures (\<lambda>(i, sip). headers_typed sip \<and> (i = 0 \<longrightarrow> sipfrag \<or> start_typed sip)) (message_parse sip buf sipfrag m)"
proof -
  have head: "headers_typed x \<and> (i = 0 \<longrightarrow> sipfrag \<or> start_typed x)"
    if "message_head sip buf sipfrag m = Some ((i, x, t), k)" for i x t k
    using ensuresD [OF message_head_typed [OF assms] that] by simp
  have tail: "ensures (\<lambda>(i, y). headers_typed y \<and> (i = 0 \<longrightarrow> sipfrag \<or> start_typed y)) (message_tail x t k)"
    if "headers_typed x" "sipfrag \<or> start_typed x" for x t k
    by (rule ensures_weaken [OF message_tail_keeps [of "start_line x"]])
      (use that in \<open>auto simp: typed_with_def start_line_def start_typed_def\<close>)
  show ?thesis
    unfolding message_parse_def by (intro ens tail) (auto dest!: head)
qed

section \<open>Safety\<close>

text \<open>The parts of a multipart body are not too close.\<close>

definition parts_readable :: "sip_message \<Rightarrow> string \<Rightarrow> bool" where
  "parts_readable sip bytes \<longleftrightarrow>
    (case content_type sip of
       None \<Rightarrow> True
     | Some ct \<Rightarrow>
         (case (ct_type ct, osip_uri_param_get_byname (ct_params ct) (Some ''boundary'')) of
            (Some t, Some (i, Some p)) \<Rightarrow> osip_strcasecmp_eq t ''multipart'' \<longrightarrow>
              (case gvalue p of None \<Rightarrow> True | Some v \<Rightarrow> parts_apart (sep_boundary v) bytes)
          | _ \<Rightarrow> True))"

theorem message_parse_safe:
  assumes "headers_typed sip" "text_ends buf"
    and parts: "\<And>sip' tmp m'. message_head sip buf sipfrag m = Some ((0, sip', tmp), m') \<Longrightarrow> parts_readable sip' tmp"
  shows "message_parse sip buf sipfrag m \<noteq> None"
proof (rule message_parse_defined [OF assms(2)])
  fix sip' tmp m'
  assume head: "message_head sip buf sipfrag m = Some ((0, sip', tmp), m')"
  have "headers_typed sip'" using ensuresD [OF message_head_typed [OF assms(1)] head] by simp
  then have "named (ct_params ct)" if "content_type sip' = Some ct" for ct
    using that by (simp add: headers_typed_def)
  then show "body_readable sip' tmp"
    using parts [OF head] by (auto simp: body_readable_def parts_readable_def split: option.split)
qed

end
