(* ===== verification/Message_Event.thy ===== *)
theory Message_Event
  imports Message_Typed Stack_Steps
begin

text \<open>
  \<^verbatim>\<open>osip_parse\<close> of \<^verbatim>\<open>osip_event.c\<close>: text from the network becomes a message on the heap of the
  stack and an event for it, which the application may hand to the stack.
\<close>

definition osip_parse :: "string \<Rightarrow> osip \<Rightarrow> (osip_event option \<times> osip) option" where
  "osip_parse buf s =
    (case osip_event_new UNKNOWN_EVT 0 (mem s) of (se, m) \<Rightarrow>
       (case se of
          None \<Rightarrow> Some (None, s\<lparr>mem := m\<rparr>)
        | Some se \<Rightarrow>
            (case osip_malloc m of (ok, m) \<Rightarrow>
               if \<not> ok then Some (None, s\<lparr>mem := m\<rparr>)
               else do {
                 ((i, msg), m) \<leftarrow> osip_message_parse sip_message_init buf m;
                 if i \<noteq> 0 then Some (None, s\<lparr>mem := m\<rparr>)
                 else if status_code msg = 0 \<and> (sip_method msg = None \<or> req_uri msg = None)
                 then Some (None, s\<lparr>mem := m\<rparr>)
                 else do {
                   t \<leftarrow> evt_set_type_incoming_sipmessage (osip_message.truncate msg);
                   Some (Some (se\<lparr>type := t, sip := Some (brk s)\<rparr>),
                     message_arrives (osip_message.truncate msg) (s\<lparr>mem := m\<rparr>))
                 }
               })))"

lemma typed_msg_ok:
  assumes "headers_typed msg" "start_typed msg"
  shows "msg_ok (osip_message.truncate msg)"
proof -
  have addr: "from_ok f \<Longrightarrow> named_from (Some f)" for f
    by (auto simp: from_ok_def named_from_def uri_ok_def)
  have opt: "named_from x" if "\<forall>f \<in> set_option x. from_ok f" for x
    using that addr by (cases x) (auto simp: named_from_def)
  show ?thesis
    using assms unfolding msg_ok_def
    by (auto simp: headers_typed_def start_typed_def osip_message.truncate_def method_ok_def via_ok_def uri_ok_def
        intro!: opt addr)
qed

lemma osip_parse_gives:
  assumes "osip_parse buf s = Some (Some e, s')"
  obtains msg m where "headers_typed msg" "start_typed msg"
    "s' = message_arrives (osip_message.truncate msg) (s\<lparr>mem := m\<rparr>)"
    "sip e = Some (brk s)" "evt_set_type_incoming_sipmessage (osip_message.truncate msg) = Some (type e)"
proof -
  obtain m1 msg m where parse: "osip_message_parse sip_message_init buf m1 = Some ((0, msg), m)"
    and rest: "evt_set_type_incoming_sipmessage (osip_message.truncate msg) = Some (type e)" "sip e = Some (brk s)"
      "s' = message_arrives (osip_message.truncate msg) (s\<lparr>mem := m\<rparr>)"
    using assms by (auto simp: osip_parse_def split: prod.splits option.splits if_splits bind_splits)
  have "headers_typed msg \<and> (0 = (0 :: int) \<longrightarrow> False \<or> start_typed msg)"
    using ensuresD [OF message_parse_typed [OF osip_message_init_typed] parse [unfolded osip_message_parse_def]] by simp
  then show thesis using that rest by blast
qed

text \<open>A message that was read may be given to the stack if it has the headers eXosip asks for.\<close>

lemma osip_parse_own_message:
  assumes "stack_ok s" "osip_parse buf s = Some (Some e, s')"
  shows "\<exists>x. allowed s (Arrive x) \<and> sip e = Some (brk s) \<and> msgs s' = (msgs s)(brk s \<mapsto> x) \<and> event_for e x
    \<and> (msg_to x \<noteq> None \<longrightarrow> cseq x \<noteq> None \<longrightarrow> own_message s' e)"
proof -
  obtain msg m where msg: "headers_typed msg" "start_typed msg"
    and s': "s' = message_arrives (osip_message.truncate msg) (s\<lparr>mem := m\<rparr>)"
    and e: "sip e = Some (brk s)" "evt_set_type_incoming_sipmessage (osip_message.truncate msg) = Some (type e)"
    using osip_parse_gives [OF assms(2)] .
  let ?x = "osip_message.truncate msg"
  have ok: "msg_ok ?x" by (rule typed_msg_ok [OF msg])
  have event: "event_for e ?x"
    using evt_set_type_incoming_event_for [of ?x e] ok e(2) by auto
  have "brk s \<notin> dom (msgs s)" using assms(1) by (auto simp: stack_ok_def heap_ok_def)
  moreover have "set (holds t) \<subseteq> dom (msgs s)" if "transactions s a = Some t" for a t
    using stack_ok_tr(1) [OF assms(1) that] by (simp add: tr_wf_def)
  ultimately have "unheld s (brk s)" by (auto simp: unheld_def)
  then have unheld: "unheld s' (brk s)" by (simp add: unheld_def s' message_arrives_def)
  have "method_of (cseq ?x) \<noteq> None" if "cseq ?x \<noteq> None"
    using that msg(1) by (auto simp: headers_typed_def osip_message.truncate_def cseq_typed_def method_of_def)
  then show ?thesis
    using ok event unheld e(1) by (auto simp: own_message_def s' message_arrives_def)
qed

section \<open>Samples\<close>

definition lines :: "string list \<Rightarrow> string" where
  "lines ls = concat (map (\<lambda>l. l @ [CR, LF]) ls)"

definition multipart_text :: string where
  "multipart_text = lines [
     ''SIP/2.0 200 OK'',
     ''Content-Type: multipart/mixed;boundary=\"b\"'',
     '''',
     ''--b'',
     ''Content-Type: a/b'',
     '''',
     ''x'',
     ''--b--'']"

definition options_text :: string where
  "options_text = lines [''OPTIONS sip:bob SIP/2.0'', ''Via: SIP/2.0/UDP pc;branch=z9'', ''t: <sip:bob>'',
     ''CSeq: 1 OPTIONS'', ''Accept:'', '''']"

definition bob_uri :: osip_uri where
  "bob_uri = osip_uri_init\<lparr>uri_scheme := Some ''sip'', uri_host := Some ''bob''\<rparr>"

definition options_message :: sip_message where
  "options_message = sip_message_init\<lparr>sip_version := Some ''SIP/2.0'', req_uri := Some bob_uri,
     sip_method := Some ''OPTIONS'', message_property := 2,
     vias := [osip_via_init\<lparr>via_version := Some ''2.0'', via_protocol := Some ''UDP'', via_host := Some ''pc'',
       via_params := [\<lparr>gname = Some ''branch'', gvalue = Some ''z9''\<rparr>]\<rparr>],
     msg_to := Some (osip_from_init\<lparr>url := Some bob_uri\<rparr>),
     cseq := Some \<lparr>cseq_method = Some ''OPTIONS'', cseq_number = Some ''1''\<rparr>,
     accepts := [osip_content_type_init], content_length := Some \<lparr>cl_value = Some ''0''\<rparr>\<rparr>"

lemma options_parsed: "osip_message_parse sip_message_init options_text [] = Some ((OSIP_SUCCESS, options_message), [])"
  by code_simp


lemma options_event:
  "\<exists>e s'. osip_parse options_text (empty_stack [] 0 []) = Some (Some e, s')
    \<and> msgs s' 0 = Some (osip_message.truncate options_message)"
proof -
  have event: "evt_set_type_incoming_sipmessage (osip_message.truncate options_message) = Some RCV_REQUEST"
    by code_simp
  have start: "\<not> (status_code options_message = 0 \<and> (sip_method options_message = None \<or> req_uri options_message = None))"
    by (simp add: options_message_def)
  show ?thesis
    unfolding osip_parse_def
    by (simp add: osip_event_new_def empty_stack_def options_parsed event start message_arrives_def)
qed

text \<open>A body of one part.\<close>

definition multipart_body :: string where
  "multipart_body = lines ['''', ''--b'', ''Content-Type: a/b'', '''', ''x'', ''--b--'']"

lemma multipart_head:
  "message_head sip_message_init multipart_text False []
    = Some ((OSIP_SUCCESS, sip_message_init\<lparr>sip_version := Some ''SIP/2.0'', status_code := 200, reason_phrase := Some ''OK'',
        content_type := Some \<lparr>ct_type = Some ''multipart'', ct_subtype = Some ''mixed'',
          ct_params = [\<lparr>gname = Some ''boundary'', gvalue = Some ''\"b\"''\<rparr>]\<rparr>, message_property := 2\<rparr>, multipart_body), [])"
  by code_simp

text \<open>The boundary stands at two places.\<close>

definition occurrences :: "string \<Rightarrow> string \<Rightarrow> nat list" where
  "occurrences sep bytes = filter (\<lambda>i. take (length sep) (drop i bytes) = sep) [0..<length bytes]"

lemma parts_apart_occurrences:
  "parts_apart sep bytes \<longleftrightarrow> (\<forall>i \<in> set (occurrences sep bytes). \<forall>j \<in> set (occurrences sep bytes).
     i + length sep \<le> j \<longrightarrow> i + length sep + 2 \<le> j \<and> (j = i + length sep + 2 \<longrightarrow> bytes ! (j - 1) \<noteq> CR))"
  unfolding parts_apart_def occurrences_def by auto

lemma multipart_apart: "parts_apart (sep_boundary ''\"b\"'') multipart_body"
proof -
  have "occurrences (sep_boundary ''\"b\"'') multipart_body = [1, 30]" by code_simp
  then show ?thesis by (simp add: parts_apart_occurrences sep_boundary_def)
qed

lemma multipart_readable:
  assumes "message_head sip_message_init multipart_text False [] = Some ((0, msg, body), m')"
  shows "parts_readable msg body"
proof -
  let ?p = "\<lparr>gname = Some ''boundary'', gvalue = Some ''\"b\"''\<rparr> :: osip_generic_param"
  have "osip_uri_param_get_byname [?p] (Some ''boundary'') = Some (OSIP_SUCCESS, Some ?p)" by code_simp
  then show ?thesis using assms multipart_apart by (auto simp: multipart_head parts_readable_def)
qed

end
