(* ===== verification/Auth_Print.thy ===== *)
theory Auth_Print
  imports Auth_Parse
begin

text \<open>
  The printers of \<^verbatim>\<open>osip_www_authenticate.c\<close>, \<^verbatim>\<open>osip_authorization.c\<close> and
  \<^verbatim>\<open>osip_authentication_info.c\<close>. Each adds up the length of its text, allocates that much and
  writes the fields one behind the other; the question is whether the sum is right.
\<close>

section \<open>Writing fields\<close>

text \<open>A field that is there is written behind its text; \<open>sep\<close> is what comes in front of it.\<close>

fun put_fields :: "nat \<Rightarrow> (string \<Rightarrow> string) \<Rightarrow> string \<Rightarrow> (string \<times> cstr) list \<Rightarrow> cstr" where
  "put_fields len sep buf [] = Some buf"
| "put_fields len sep buf ((name, v) # fs) =
    (case v of
       None \<Rightarrow> put_fields len sep buf fs
     | Some v \<Rightarrow> do {
         buf \<leftarrow> sprintf_at len buf (sep buf);
         buf \<leftarrow> sprintf_at len buf name;
         buf \<leftarrow> sprintf_at len buf v;
         put_fields len sep buf fs
       })"

text \<open>The length the code counts for a field.\<close>

definition counted :: "cstr \<Rightarrow> nat \<Rightarrow> nat" where
  "counted v n = (case v of None \<Rightarrow> 0 | Some v \<Rightarrow> length v + n)"

definition counts :: "(cstr \<times> nat) list \<Rightarrow> nat" where
  "counts fs = sum_list (map (\<lambda>(v, n). counted v n) fs)"

section \<open>WWW-Authenticate\<close>

definition www_texts :: "osip_www_authenticate \<Rightarrow> (string \<times> cstr) list" where
  "www_texts h = [('' realm='', www_realm h), ('', domain='', www_domain h), ('', nonce='', www_nonce h),
     ('', opaque='', www_opaque h), ('', stale='', www_stale h), ('', algorithm='', www_algorithm h),
     ('', qop='', www_qop_options h), ('', version='', www_version h), ('', targetname='', www_targetname h),
     ('', gssapi-data='', www_gssapi_data h)]"

definition www_length :: "osip_www_authenticate \<Rightarrow> string \<Rightarrow> nat" where
  "www_length h t = length t + 1 + 2 + counts [(www_realm h, 7), (www_nonce h, 8), (www_domain h, 9),
     (www_opaque h, 9), (www_stale h, 8), (www_algorithm h, 12), (www_qop_options h, 6), (www_version h, 10),
     (www_targetname h, 13), (www_gssapi_data h, 14)]"

definition osip_www_authenticate_to_str :: "osip_www_authenticate option \<Rightarrow> mem \<Rightarrow> ((int \<times> cstr) \<times> mem) option" where
  "osip_www_authenticate_to_str wwwa m =
    (case wwwa of
       None \<Rightarrow> Some ((OSIP_BADPARAMETER, None), m)
     | Some h \<Rightarrow>
         (case www_auth_type h of
            None \<Rightarrow> Some ((OSIP_BADPARAMETER, None), m)
          | Some t \<Rightarrow> alloc_or m (OSIP_NOMEM, None) (\<lambda>m. do {
              buf \<leftarrow> sprintf_at (www_length h t) [] t;
              dest \<leftarrow> put_fields (www_length h t) (\<lambda>_. []) buf (www_texts h);
              let dest = (if www_realm h = None \<and> cur (drop (length t) dest) = CHR '',''
                then dest[length t := CHR '' ''] else dest);
              Some ((OSIP_SUCCESS, Some dest), m)
            })))"

section \<open>Authorization\<close>

definition authorization_texts :: "osip_authorization \<Rightarrow> (string \<times> cstr) list" where
  "authorization_texts h = [('' username='', auth_username h), ('' realm='', auth_realm h), ('' nonce='', auth_nonce h),
     ('' uri='', auth_uri h), ('' response='', auth_response h), ('' digest='', auth_digest h),
     ('' algorithm='', auth_algorithm h), ('' cnonce='', auth_cnonce h), ('' opaque='', auth_opaque h),
     ('' qop='', auth_message_qop h), ('' nc='', auth_nonce_count h), ('' version='', auth_version h),
     ('' targetname='', auth_targetname h), ('' gssapi-data='', auth_gssapi_data h), ('' crand='', auth_crand h),
     ('' cnum='', auth_cnum h)]"

definition authorization_length :: "osip_authorization \<Rightarrow> string \<Rightarrow> nat" where
  "authorization_length h t = length t + 1 + 2 + counts [(auth_username h, 10), (auth_realm h, 8), (auth_nonce h, 8),
     (auth_uri h, 6), (auth_response h, 11), (auth_digest h, 9), (auth_algorithm h, 12), (auth_cnonce h, 9),
     (auth_opaque h, 9), (auth_nonce_count h, 5), (auth_message_qop h, 6), (auth_version h, 10),
     (auth_targetname h, 13), (auth_gssapi_data h, 14), (auth_crand h, 8), (auth_cnum h, 7)]"

definition osip_authorization_to_str :: "osip_authorization option \<Rightarrow> mem \<Rightarrow> ((int \<times> cstr) \<times> mem) option" where
  "osip_authorization_to_str auth m =
    (case auth of
       None \<Rightarrow> Some ((OSIP_BADPARAMETER, None), m)
     | Some h \<Rightarrow>
         (case auth_type h of
            None \<Rightarrow> Some ((OSIP_BADPARAMETER, None), m)
          | Some t \<Rightarrow> alloc_or m (OSIP_NOMEM, None) (\<lambda>m. do {
              buf \<leftarrow> sprintf_at (authorization_length h t) [] t;
              dest \<leftarrow> put_fields (authorization_length h t) (\<lambda>b. if length b = length t then [] else '','')
                buf (authorization_texts h);
              Some ((OSIP_SUCCESS, Some dest), m)
            })))"

section \<open>Authentication-Info\<close>

definition authentication_info_texts :: "osip_authentication_info \<Rightarrow> (string \<times> cstr) list" where
  "authentication_info_texts h = [(''qop='', ai_qop_options h), (''nextnonce='', ai_nextnonce h),
     (''rspauth='', ai_rspauth h), (''cnonce='', ai_cnonce h), (''nc='', ai_nonce_count h), (''snum='', ai_snum h),
     (''srand='', ai_srand h), (''targetname='', ai_targetname h), (''realm='', ai_realm h), (''opaque='', ai_opaque h)]"

definition authentication_info_length :: "osip_authentication_info \<Rightarrow> nat" where
  "authentication_info_length h = counts [(ai_auth_type h, 1), (ai_nextnonce h, 11), (ai_rspauth h, 10),
     (ai_cnonce h, 9), (ai_nonce_count h, 5), (ai_qop_options h, 6), (ai_snum h, 7), (ai_srand h, 8),
     (ai_targetname h, 13), (ai_realm h, 8), (ai_opaque h, 8)]"

definition osip_authentication_info_to_str ::
  "osip_authentication_info option \<Rightarrow> mem \<Rightarrow> ((int \<times> cstr) \<times> mem) option" where
  "osip_authentication_info_to_str ainfo m =
    (case ainfo of
       None \<Rightarrow> Some ((OSIP_BADPARAMETER, None), m)
     | Some h \<Rightarrow>
         let len = authentication_info_length h in
         if len = 0 then Some ((OSIP_BADPARAMETER, None), m)
         else alloc_or m (OSIP_NOMEM, None) (\<lambda>m. do {
           start \<leftarrow> (case ai_auth_type h of
               None \<Rightarrow> Some []
             | Some t \<Rightarrow> do { buf \<leftarrow> sprintf_at len [] t; sprintf_at len buf '' '' });
           dest \<leftarrow> put_fields len (\<lambda>b. if length b = length start then [] else '', '') start (authentication_info_texts h);
           Some ((OSIP_SUCCESS, Some dest), m)
         }))"

section \<open>Whether the buffer is long enough\<close>

text \<open>What the fields need at most, a separator of \<open>k\<close> characters in front of each.\<close>

definition needed :: "nat \<Rightarrow> (string \<times> cstr) list \<Rightarrow> nat" where
  "needed k fs = sum_list (map (\<lambda>(name, v). counted v (k + length name)) fs)"

lemma counted_simps [simp]: "counted None n = 0" "counted (Some v) n = length v + n"
  by (simp_all add: counted_def)

text \<open>Numerals as successors, as the length of a literal is computed.\<close>

lemmas literal_length = eval_nat_numeral

lemma needed_simps [simp]: "needed k [] = 0" "needed k ((name, v) # fs) = counted v (k + length name) + needed k fs"
  by (simp_all add: needed_def)

lemma counts_simps [simp]: "counts [] = 0" "counts ((v, n) # fs) = counted v n + counts fs"
  by (simp_all add: counts_def)

lemma put_fields_fit:
  assumes "\<And>b. length (sep b) \<le> k" "length buf + needed k fs < len"
  shows "put_fields len sep buf fs \<noteq> None"
  using assms(2)
proof (induction fs arbitrary: buf)
  case (Cons f fs)
  obtain name v where f: "f = (name, v)" by (cases f)
  show ?case
  proof (cases v)
    case (Some w)
    have "length (buf @ sep buf @ name @ w) + needed k fs < len"
      using Cons.prems assms(1) [of buf] f Some by simp
    then show ?thesis using Cons.IH [of "buf @ sep buf @ name @ w"] f Some by (simp add: sprintf_at_def)
  qed (use Cons f in simp)
qed simp

text \<open>The first field that is written has no separator.\<close>

lemma put_fields_fit_first:
  assumes "\<And>b. length (sep b) \<le> k" "sep buf = []" "length buf + needed k fs < len + k"
  shows "put_fields len sep buf fs \<noteq> None"
  using assms(3)
proof (induction fs)
  case (Cons f fs)
  obtain name v where f: "f = (name, v)" by (cases f)
  show ?case
  proof (cases v)
    case (Some w)
    have fit: "length (buf @ name @ w) + needed k fs < len" using Cons.prems f Some by simp
    then have "put_fields len sep (buf @ name @ w) fs \<noteq> None" by (rule put_fields_fit [OF assms(1)])
    then show ?thesis using f Some assms(2) fit by (simp add: sprintf_at_def del: not_None_eq)
  qed (use Cons f in simp)
qed simp

lemma www_counts: "length t + needed 0 (www_texts h) < www_length h t"
  by (simp add: www_texts_def www_length_def literal_length)

lemma osip_www_authenticate_to_str_defined [defined]: "osip_www_authenticate_to_str h m \<noteq> None"
proof (cases "\<exists>x t. h = Some x \<and> www_auth_type x = Some t")
  case True
  then obtain x t where h: "h = Some x" "www_auth_type x = Some t" by blast
  have "sprintf_at (www_length x t) [] t = Some t" using www_counts [of t x] by (simp add: sprintf_at_def)
  moreover have "put_fields (www_length x t) (\<lambda>_. []) t (www_texts x) \<noteq> None"
    by (rule put_fields_fit [of _ 0]) (use www_counts [of t x] in simp_all)
  ultimately show ?thesis
    using h by (auto simp: osip_www_authenticate_to_str_def alloc_or_def Let_def split: prod.split)
qed (auto simp: osip_www_authenticate_to_str_def split: option.split)

lemma authorization_counts: "length t + needed 1 (authorization_texts h) < authorization_length h t + 1"
proof -
  have "needed 1 (authorization_texts h) \<le> 1 + counts [(auth_username h, 10), (auth_realm h, 8), (auth_nonce h, 8),
     (auth_uri h, 6), (auth_response h, 11), (auth_digest h, 9), (auth_algorithm h, 12), (auth_cnonce h, 9),
     (auth_opaque h, 9), (auth_nonce_count h, 5), (auth_message_qop h, 6), (auth_version h, 10),
     (auth_targetname h, 13), (auth_gssapi_data h, 14), (auth_crand h, 8), (auth_cnum h, 7)]"
    by (cases "auth_username h") (simp_all add: authorization_texts_def literal_length)
  then show ?thesis by (simp add: authorization_length_def)
qed

lemma osip_authorization_to_str_defined [defined]: "osip_authorization_to_str h m \<noteq> None"
proof (cases "\<exists>x t. h = Some x \<and> auth_type x = Some t")
  case True
  then obtain x t where h: "h = Some x" "auth_type x = Some t" by blast
  let ?sep = "\<lambda>b. if length b = length t then [] else '',''"
  have "sprintf_at (authorization_length x t) [] t = Some t"
    by (simp add: sprintf_at_def authorization_length_def)
  moreover have "put_fields (authorization_length x t) ?sep t (authorization_texts x) \<noteq> None"
    by (rule put_fields_fit_first [of _ 1]) (use authorization_counts [of t x] in simp_all)
  ultimately show ?thesis
    using h by (auto simp: osip_authorization_to_str_def alloc_or_def split: prod.split)
qed (auto simp: osip_authorization_to_str_def split: option.split)

text \<open>
  The sum of \<^verbatim>\<open>osip_authentication_info_to_str\<close> is one short for \<^verbatim>\<open>nextnonce\<close> and one short for
  \<^verbatim>\<open>opaque\<close>: it is enough unless both are there.
\<close>

lemma osip_authentication_info_to_str_defined:
  assumes "ai_nextnonce h = None \<or> ai_opaque h = None" "ai_auth_type h = None"
  shows "osip_authentication_info_to_str (Some h) m \<noteq> None"
proof -
  let ?sep = "\<lambda>b. if length b = length ([] :: string) then [] else '', ''"
  have "needed 2 (authentication_info_texts h) \<le> 1 + authentication_info_length h"
    using assms by (cases "ai_nextnonce h"; cases "ai_opaque h")
      (simp_all add: authentication_info_texts_def authentication_info_length_def literal_length)
  then have "put_fields (authentication_info_length h) ?sep [] (authentication_info_texts h) \<noteq> None"
    by (intro put_fields_fit_first [of _ 2]) simp_all
  then show ?thesis
    using assms(2) by (auto simp: osip_authentication_info_to_str_def alloc_or_def Let_def split: prod.split)
qed

text \<open>A header from the network with both, printed again, is written one byte past its buffer.\<close>

lemma nextnonce_and_opaque_overflow:
  "\<exists>h. osip_authentication_info_parse osip_authentication_info_init ''nextnonce=\"a\", opaque=\"b\"'' []
      = Some ((OSIP_SUCCESS, h), [])
    \<and> osip_authentication_info_to_str (Some h) [] = None"
proof -
  have "osip_authentication_info_parse osip_authentication_info_init ''nextnonce=\"a\", opaque=\"b\"'' []
      = Some ((OSIP_SUCCESS, osip_authentication_info_init\<lparr>ai_nextnonce := Some ''\"a\"'', ai_opaque := Some ''\"b\"''\<rparr>), [])"
    by code_simp
  moreover have "osip_authentication_info_to_str
      (Some (osip_authentication_info_init\<lparr>ai_nextnonce := Some ''\"a\"'', ai_opaque := Some ''\"b\"''\<rparr>)) [] = None"
    by code_simp
  ultimately show ?thesis by blast
qed

end
