(* ===== verification/Message_Print.thy ===== *)
theory Message_Print
  imports Message_Parse Auth_Print
begin

text \<open>
  \<^verbatim>\<open>osip_message_to_str.c\<close> and \<^verbatim>\<open>osip_body_to_str\<close> of \<^verbatim>\<open>osip_body.c\<close>: a message as text, written
  into a buffer that grows, and kept with the message until it changes.
\<close>

section \<open>The buffer\<close>

text \<open>
  What is in the buffer, NULL after a \<^verbatim>\<open>realloc\<close> that failed, and \<^verbatim>\<open>malloc_size\<close>. Writing outside
  of it is undefined.
\<close>

type_synonym out = "cstr \<times> nat"

abbreviation CRLF :: string where "CRLF \<equiv> [CR, LF]"

abbreviation SIP_MESSAGE_MAX_LENGTH :: nat where "SIP_MESSAGE_MAX_LENGTH \<equiv> 8000"

definition append_out :: "out \<Rightarrow> string \<Rightarrow> out option" where
  "append_out out t = (case out of (buf, n) \<Rightarrow> do {
     buf \<leftarrow> buf;
     buf \<leftarrow> sprintf_at n buf t;
     Some (Some buf, n)
   })"

text \<open>\<^verbatim>\<open>_osip_message_realloc\<close>, and the same steps inside of the two functions below.\<close>

definition osip_message_realloc :: "out \<Rightarrow> nat \<Rightarrow> mem \<Rightarrow> (bool \<times> out) \<times> mem" where
  "osip_message_realloc out room m =
    (case out of (buf, n) \<Rightarrow>
       let txt = (case buf of None \<Rightarrow> [] | Some b \<Rightarrow> b) in
       if n < length txt + room + 100
       then (case osip_malloc m of (ok, m) \<Rightarrow>
         ((ok, if ok then Some txt else None, length txt + room + 100), m))
       else ((True, out), m))"

section \<open>Headers\<close>

definition strcat_simple_header ::
  "string \<Rightarrow> ('h option \<Rightarrow> mem \<Rightarrow> ((int \<times> cstr) \<times> mem) option) \<Rightarrow> 'h option \<Rightarrow> out \<Rightarrow> mem \<Rightarrow> ((int \<times> out) \<times> mem) option" where
  "strcat_simple_header header_name to_str ptr_header out m =
    (if ptr_header = None then Some ((OSIP_SUCCESS, out), m)
     else (case osip_message_realloc out (length header_name) m of ((ok, out), m) \<Rightarrow>
       if \<not> ok then Some ((OSIP_NOMEM, out), m)
       else do {
         out \<leftarrow> append_out out header_name;
         ((i, tmp), m) \<leftarrow> to_str ptr_header m;
         if i \<noteq> 0 then Some ((i, out), m)
         else do {
           tmp \<leftarrow> tmp;
           (case osip_message_realloc out (length tmp) m of ((ok, out), m) \<Rightarrow>
              if \<not> ok then Some ((OSIP_NOMEM, out), m)
              else do {
                out \<leftarrow> append_out out tmp;
                out \<leftarrow> append_out out CRLF;
                Some ((OSIP_SUCCESS, out), m)
              })
         }
       }))"

fun strcat_headers_one_per_line ::
  "string \<Rightarrow> ('h option \<Rightarrow> mem \<Rightarrow> ((int \<times> cstr) \<times> mem) option) \<Rightarrow> 'h list \<Rightarrow> out \<Rightarrow> mem \<Rightarrow> ((int \<times> out) \<times> mem) option" where
  "strcat_headers_one_per_line header to_str [] out m = Some ((OSIP_SUCCESS, out), m)"
| "strcat_headers_one_per_line header to_str (h # hs) out m = do {
     ((i, out), m) \<leftarrow> strcat_simple_header header to_str (Some h) out m;
     if i \<noteq> 0 then Some ((i, out), m) else strcat_headers_one_per_line header to_str hs out m
   }"

text \<open>
  A row of the table of headers. For a header that is there once the code calls the first function
  and then the second with a NULL list, whose answer, a success, replaces that of the first.
\<close>

type_synonym row = "sip_message \<Rightarrow> out \<Rightarrow> mem \<Rightarrow> ((int \<times> out) \<times> mem) option"

definition list_row :: "string \<Rightarrow> ('h option \<Rightarrow> mem \<Rightarrow> ((int \<times> cstr) \<times> mem) option) \<Rightarrow> (sip_message \<Rightarrow> 'h list) \<Rightarrow> row" where
  "list_row header_name to_str header_list sip out m =
    strcat_headers_one_per_line header_name to_str (header_list sip) out m"

definition data_row :: "string \<Rightarrow> ('h option \<Rightarrow> mem \<Rightarrow> ((int \<times> cstr) \<times> mem) option) \<Rightarrow> (sip_message \<Rightarrow> 'h option) \<Rightarrow> row" where
  "data_row header_name to_str header_data sip out m = do {
     ((_, out), m) \<leftarrow> strcat_simple_header header_name to_str (header_data sip) out m;
     Some ((OSIP_SUCCESS, out), m)
   }"

definition content_length_to_str :: "osip_content_length option \<Rightarrow> mem \<Rightarrow> ((int \<times> cstr) \<times> mem) option" where
  "content_length_to_str cl m = Some (osip_content_length_to_str cl m)"

definition to_str_table :: "row list" where
  "to_str_table = [
     list_row ''Via: '' osip_via_to_str vias,
     list_row ''Record-Route: '' osip_record_route_to_str record_routes,
     list_row ''Route: '' osip_route_to_str routes,
     data_row ''From: '' osip_from_to_str msg_from,
     data_row ''To: '' osip_to_to_str msg_to,
     data_row ''Call-ID: '' osip_call_id_to_str call_id,
     data_row ''CSeq: '' osip_cseq_to_str cseq,
     list_row ''Contact: '' osip_contact_to_str contacts,
     list_row ''Authorization: '' osip_authorization_to_str authorizations,
     list_row ''WWW-Authenticate: '' osip_www_authenticate_to_str www_authenticates,
     list_row ''Proxy-Authenticate: '' osip_www_authenticate_to_str proxy_authenticates,
     list_row ''Proxy-Authorization: '' osip_authorization_to_str proxy_authorizations,
     list_row ''Call-Info: '' osip_call_info_to_str call_infos,
     data_row ''Content-Type: '' osip_content_type_to_str content_type,
     data_row ''Mime-Version: '' content_length_to_str mime_version,
     list_row ''Allow: '' content_length_to_str allows,
     list_row ''Content-Encoding: '' content_length_to_str content_encodings,
     list_row ''Alert-Info: '' osip_call_info_to_str alert_infos,
     list_row ''Error-Info: '' osip_call_info_to_str error_infos,
     list_row ''Accept: '' osip_accept_to_str accepts,
     list_row ''Accept-Encoding: '' osip_accept_encoding_to_str accept_encodings,
     list_row ''Accept-Language: '' osip_accept_encoding_to_str accept_languages,
     list_row ''Authentication-Info: '' osip_authentication_info_to_str authentication_infos,
     list_row ''Proxy-Authentication-Info: '' osip_authentication_info_to_str proxy_authentication_infos]"

fun print_rows :: "row list \<Rightarrow> row" where
  "print_rows [] sip out m = Some ((OSIP_SUCCESS, out), m)"
| "print_rows (r # rs) sip out m = do {
     ((i, out), m) \<leftarrow> r sip out m;
     if i \<noteq> 0 then Some ((i, out), m) else print_rows rs sip out m
   }"

fun print_headers :: "osip_header list \<Rightarrow> out \<Rightarrow> mem \<Rightarrow> ((int \<times> out) \<times> mem) option" where
  "print_headers [] out m = Some ((OSIP_SUCCESS, out), m)"
| "print_headers (h # hs) out m = do {
     ((i, tmp), m) \<leftarrow> osip_header_to_str (Some h) m;
     if i \<noteq> 0 then Some ((i, out), m)
     else do {
       tmp \<leftarrow> tmp;
       (case osip_message_realloc out (length tmp + 3) m of ((ok, out), m) \<Rightarrow>
          if \<not> ok then Some ((OSIP_NOMEM, out), m)
          else do {
            out \<leftarrow> append_out out tmp;
            out \<leftarrow> append_out out CRLF;
            print_headers hs out m
          })
     }
   }"

section \<open>Bodies\<close>

text \<open>The buffer of a body: when it is too short it grows by \<open>grow\<close>, and a failure is followed.\<close>

definition body_realloc :: "string \<Rightarrow> nat \<Rightarrow> nat \<Rightarrow> nat \<Rightarrow> mem \<Rightarrow> (nat \<times> mem) option" where
  "body_realloc buf n room grow m =
    (if n < length buf + room then (case osip_malloc m of (ok, m) \<Rightarrow> do { ub_unless ok; Some (n + grow, m) })
     else Some (n, m))"

fun body_headers_to_str :: "osip_header list \<Rightarrow> string \<Rightarrow> nat \<Rightarrow> mem \<Rightarrow> ((int \<times> string \<times> nat) \<times> mem) option" where
  "body_headers_to_str [] buf n m = Some ((OSIP_SUCCESS, buf, n), m)"
| "body_headers_to_str (h # hs) buf n m = do {
     ((i, tmp), m) \<leftarrow> osip_header_to_str (Some h) m;
     if i \<noteq> 0 then Some ((i, buf, n), m)
     else do {
       tmp \<leftarrow> tmp;
       (n, m) \<leftarrow> body_realloc buf n (length tmp + 4) (length tmp + 4) m;
       buf \<leftarrow> sprintf_at n buf tmp;
       buf \<leftarrow> sprintf_at n buf CRLF;
       body_headers_to_str hs buf n m
     }
   }"

definition body_content_type_to_str ::
  "osip_content_type option \<Rightarrow> nat \<Rightarrow> mem \<Rightarrow> ((int \<times> string \<times> nat) \<times> mem) option" where
  "body_content_type_to_str ct n m =
    (case ct of
       None \<Rightarrow> Some ((OSIP_SUCCESS, [], n), m)
     | Some _ \<Rightarrow> do {
         buf \<leftarrow> sprintf_at n [] ''content-type: '';
         ((i, tmp), m) \<leftarrow> osip_content_type_to_str ct m;
         if i \<noteq> 0 then Some ((i, buf, n), m)
         else do {
           tmp \<leftarrow> tmp;
           (n, m) \<leftarrow> body_realloc buf n (length tmp + 4) (length tmp + 4) m;
           buf \<leftarrow> sprintf_at n buf tmp;
           buf \<leftarrow> sprintf_at n buf CRLF;
           Some ((OSIP_SUCCESS, buf, n), m)
         }
       })"

text \<open>The text is not ended by a NUL; its length is the second answer of the code.\<close>

definition osip_body_to_str :: "osip_body option \<Rightarrow> mem \<Rightarrow> ((int \<times> cstr) \<times> mem) option" where
  "osip_body_to_str body m =
    (case body of
       None \<Rightarrow> Some ((OSIP_BADPARAMETER, None), m)
     | Some b \<Rightarrow>
         (case b_body b of
            None \<Rightarrow> Some ((OSIP_BADPARAMETER, None), m)
          | Some bytes \<Rightarrow>
              if b_length b = 0 then Some ((OSIP_BADPARAMETER, None), m)
              else let n = 15 + b_length b + length (b_headers b) * 40 in
                alloc_or m (OSIP_NOMEM, None) (\<lambda>m. do {
                  ((i, buf, n), m) \<leftarrow> body_content_type_to_str (b_content_type b) n m;
                  if i \<noteq> 0 then Some ((i, None), m)
                  else do {
                    ((i, buf, n), m) \<leftarrow> body_headers_to_str (b_headers b) buf n m;
                    if i \<noteq> 0 then Some ((i, None), m)
                    else do {
                      (buf, n, m) \<leftarrow> (if b_headers b \<noteq> [] \<or> b_content_type b \<noteq> None then do {
                          (n, m) \<leftarrow> body_realloc buf n 3 (3 + b_length b) m;
                          buf \<leftarrow> sprintf_at n buf CRLF;
                          Some (buf, n, m)
                        } else Some (buf, n, m));
                      (n, m) \<leftarrow> body_realloc buf n (b_length b + 4) (b_length b + 4) m;
                      ub_unless (b_length b \<le> length bytes \<and> length buf + b_length b \<le> n);
                      Some ((OSIP_SUCCESS, Some (buf @ take (b_length b) bytes)), m)
                    }
                  }
                })))"

text \<open>
  The line between two parts of a multipart body, \<open>None\<close> where the code writes none. A parameter
  that is a lone quote makes the length of a copy negative.
\<close>

definition print_boundary :: "sip_message \<Rightarrow> mem \<Rightarrow> ((int \<times> cstr) \<times> mem) option" where
  "print_boundary sip m =
    (case (mime_version sip, content_type sip) of
       (Some _, Some ct) \<Rightarrow>
         (case ct_type ct of
            None \<Rightarrow> Some ((OSIP_SUCCESS, None), m)
          | Some t \<Rightarrow>
              if \<not> osip_strcasecmp_eq t ''multipart'' then Some ((OSIP_SUCCESS, None), m)
              else do {
                (i, p) \<leftarrow> osip_uri_param_get_byname (ct_params ct) (Some ''boundary'');
                (case (if i \<ge> 0 then Option.bind p gvalue else None) of
                   None \<Rightarrow> Some ((OSIP_SUCCESS, None), m)
                 | Some v \<Rightarrow>
                     if length v > 70 then Some ((OSIP_SYNTAXERROR, None), m)
                     else alloc_or m (OSIP_NOMEM, None) (\<lambda>m.
                       if cur v = CHR 0x22 \<and> last v = CHR 0x22
                       then do {
                         ub_unless (2 \<le> length v);
                         Some ((OSIP_SUCCESS, Some (CRLF @ ''--'' @ take (length v - 2) (tl v))), m)
                       }
                       else Some ((OSIP_SUCCESS, Some (CRLF @ ''--'' @ v)), m)))
              })
     | _ \<Rightarrow> Some ((OSIP_SUCCESS, None), m))"

fun print_bodies :: "cstr \<Rightarrow> osip_body list \<Rightarrow> out \<Rightarrow> mem \<Rightarrow> ((int \<times> out) \<times> mem) option" where
  "print_bodies boundary [] out m = Some ((OSIP_SUCCESS, out), m)"
| "print_bodies boundary (b # bs) out m = do {
     out \<leftarrow> (case boundary of None \<Rightarrow> Some out | Some bnd \<Rightarrow> do { out \<leftarrow> append_out out bnd; append_out out CRLF });
     ((i, tmp), m) \<leftarrow> osip_body_to_str (Some b) m;
     if i \<noteq> 0 then Some ((i, out), m)
     else do {
       tmp \<leftarrow> tmp;
       (case osip_message_realloc out (length tmp) m of ((ok, out), m) \<Rightarrow>
          if \<not> ok then Some ((OSIP_NOMEM, out), m)
          else do {
            out \<leftarrow> append_out out tmp;
            print_bodies boundary bs out m
          })
     }
   }"

section \<open>The message\<close>

text \<open>\<^verbatim>\<open>sip->message\<close> and \<^verbatim>\<open>sip->message_length\<close>, the text kept from the last time.\<close>

type_synonym cache = "cstr \<times> nat"

text \<open>The number of bytes of the body, written over the blanks behind \<^verbatim>\<open>Content-Length:\<close>, at \<open>p\<close>.\<close>

definition write_length :: "string \<Rightarrow> nat \<Rightarrow> nat \<Rightarrow> string option" where
  "write_length dest p n = do {
     let tmp2 = take 14 (sprintf_i (int n));
     ub_unless (length tmp2 \<le> p + 5);
     Some (take (p + 5 - length tmp2) dest @ tmp2 @ drop (p + 5) dest)
   }"


text \<open>The header part: start line and headers; a failure frees the buffer.\<close>

definition print_head :: "sip_message \<Rightarrow> bool \<Rightarrow> mem \<Rightarrow> ((int \<times> out) \<times> mem) option" where
  "print_head sip sipfrag m = do {
     ((i, tmp), m) \<leftarrow> osip_message_startline_to_str (Some sip) m;
     let out = (Some [], SIP_MESSAGE_MAX_LENGTH);
     if i \<noteq> 0 \<and> \<not> sipfrag then Some ((i, None, SIP_MESSAGE_MAX_LENGTH), m)
     else do {
       ((i, out), m) \<leftarrow> (if i \<noteq> 0 then Some ((OSIP_SUCCESS, out), m)
         else do {
           tmp \<leftarrow> tmp;
           (case osip_message_realloc out (length tmp + 3) m of ((ok, out), m) \<Rightarrow>
              if \<not> ok then Some ((OSIP_NOMEM, out), m)
              else do {
                out \<leftarrow> append_out out tmp;
                out \<leftarrow> append_out out CRLF;
                Some ((OSIP_SUCCESS, out), m)
              })
         });
       if i \<noteq> 0 then Some ((i, out), m)
       else do {
         ((i, out), m) \<leftarrow> print_rows to_str_table sip out m;
         if i \<noteq> 0 then Some ((i, out), m)
         else do {
           ((i, out), m) \<leftarrow> print_headers (headers sip) out m;
           if i \<noteq> 0 then Some ((i, out), m)
           else (case osip_message_realloc out 16 m of ((ok, out), m) \<Rightarrow>
             Some ((if ok then OSIP_SUCCESS else OSIP_NOMEM, out), m))
         }
       }
     }
   }"

text \<open>The body behind the headers, when there is one.\<close>

definition print_body :: "sip_message \<Rightarrow> out \<Rightarrow> mem \<Rightarrow> ((int \<times> cstr) \<times> mem) option" where
  "print_body sip out m = do {
     p \<leftarrow> map_option length (fst out);
     out \<leftarrow> append_out out ''     '';
     out \<leftarrow> append_out out (CRLF @ CRLF);
     start_of_bodies \<leftarrow> map_option length (fst out);
     ((i, boundary), m) \<leftarrow> print_boundary sip m;
     if i \<noteq> 0 then Some ((i, None), m)
     else do {
       ((i, out), m) \<leftarrow> print_bodies boundary (bodies sip) out m;
       if i \<noteq> 0 then Some ((i, None), m)
       else do {
         out \<leftarrow> (case boundary of None \<Rightarrow> Some out | Some bnd \<Rightarrow> append_out out (bnd @ ''--'' @ CRLF));
         dest \<leftarrow> fst out;
         dest \<leftarrow> write_length dest p (length dest - start_of_bodies);
         Some ((OSIP_SUCCESS, Some dest), m)
       }
     }
   }"

definition message_to_str :: "sip_message option \<Rightarrow> cache \<Rightarrow> bool \<Rightarrow> mem \<Rightarrow> ((int \<times> cstr \<times> sip_message option \<times> cache) \<times> mem) option" where
  "message_to_str sip c sipfrag m =
    (case sip of
       None \<Rightarrow> Some ((OSIP_BADPARAMETER, None, None, c), m)
     | Some s \<Rightarrow>
         if message_property s = 1
         then alloc_or m (OSIP_NOMEM, None, sip, c) (\<lambda>m. do {
           t \<leftarrow> (if snd c = 0 then Some [] else fst c);
           ub_unless (snd c \<le> length t + 1);
           Some ((OSIP_SUCCESS, Some (take (snd c) (t @ [NUL])), sip, c), m)
         })
         else let c = (None, snd c) in
           alloc_or m (OSIP_NOMEM, None, sip, c) (\<lambda>m. do {
             ((i, out), m) \<leftarrow> print_head s sipfrag m;
             if i \<noteq> 0 then Some ((i, None, sip, c), m)
             else if sipfrag \<and> bodies s = [] then do {
               out \<leftarrow> append_out out CRLF;
               dest \<leftarrow> fst out;
               (case osip_strdup (Some dest) m of (d, m) \<Rightarrow>
                  Some ((OSIP_SUCCESS, Some dest, Some (s\<lparr>message_property := 1\<rparr>), d, length dest), m))
             }
             else do {
               out \<leftarrow> append_out out ''Content-Length: '';
               if bodies s = [] then do {
                 out \<leftarrow> append_out out ''0'';
                 out \<leftarrow> append_out out (CRLF @ CRLF);
                 dest \<leftarrow> fst out;
                 (case osip_strdup (Some dest) m of (d, m) \<Rightarrow>
                    Some ((OSIP_SUCCESS, Some dest, Some (s\<lparr>message_property := 1\<rparr>), d, length dest), m))
               }
               else do {
                 ((i, dest), m) \<leftarrow> print_body s out m;
                 if i \<noteq> 0 then Some ((i, None, sip, c), m)
                 else (case osip_strdup dest m of (d, m) \<Rightarrow>
                   Some ((OSIP_SUCCESS, dest, Some (s\<lparr>message_property := 1\<rparr>),
                     d, if d = None then snd c else length (the dest)), m))
               }
             }
           }))"

definition osip_message_to_str ::
  "sip_message option \<Rightarrow> cache \<Rightarrow> mem \<Rightarrow> ((int \<times> cstr \<times> sip_message option \<times> cache) \<times> mem) option" where
  "osip_message_to_str sip c m = message_to_str sip c False m"

definition osip_message_to_str_sipfrag ::
  "sip_message option \<Rightarrow> cache \<Rightarrow> mem \<Rightarrow> ((int \<times> cstr \<times> sip_message option \<times> cache) \<times> mem) option" where
  "osip_message_to_str_sipfrag sip c m = message_to_str sip c True m"

end
