(* ===== verification/Message_Text.thy ===== *)
theory Message_Text
  imports Message_Print
begin

text \<open>
  The text of a message as a list of lines, a name and a value each: what the loop over the headers
  reads of printed lines, and what the table of the printer writes. The two sides of one kind of
  header meet in the locales \<open>header_row\<close> and its extensions.
\<close>

section \<open>Lines\<close>

type_synonym line = "string \<times> string"

definition line_text :: "line \<Rightarrow> string" where
  "line_text l = fst l @ '': '' @ snd l @ CRLF"

definition lines_text :: "line list \<Rightarrow> string" where
  "lines_text ls = concat (map line_text ls)"

definition one_line :: "string \<Rightarrow> bool" where
  "one_line s \<longleftrightarrow> CR \<notin> set s \<and> LF \<notin> set s \<and> NUL \<notin> set s"

text \<open>The value may have blanks around it; a comma would split a header that may be there several times.\<close>

definition line_wf :: "line \<Rightarrow> bool" where
  "line_wf l \<longleftrightarrow> (case l of (n, v) \<Rightarrow>
     n \<noteq> [] \<and> tight n \<and> CHR '':'' \<notin> set n \<and> one_line n \<and> one_line v \<and> (CHR '','' \<notin> set v \<or> not_split (map tolower n)))"

lemma lines_text_simps [simp]:
  "lines_text [] = []" "lines_text (l # ls) = line_text l @ lines_text ls" "lines_text (ks @ ls) = lines_text ks @ lines_text ls"
  by (simp_all add: lines_text_def)

lemma find_next_crlf_one_line:
  assumes "one_line s" "\<not> is_sp_tab (cur r)"
  shows "osip_find_next_crlf (s @ CR # LF # r) = (OSIP_SUCCESS, Some r)"
proof -
  have "dropWhile (\<lambda>c. c \<noteq> CR \<and> c \<noteq> LF) (s @ CR # LF # r) = CR # LF # r"
    using assms(1) by (subst dropWhile_append2) (auto simp: one_line_def)
  then show ?thesis using assms(2) by (simp add: osip_find_next_crlf_def cur_def)
qed

lemma trim_subset: "set (trim s) \<subseteq> set s"
proof
  fix c
  assume "c \<in> set (trim s)"
  then have "c \<in> set (dropWhile is_blank (rev (dropWhile is_blank s)))" by (simp only: trim_def set_rev)
  then have "c \<in> set (rev (dropWhile is_blank s))" by (rule set_dropWhileD)
  then have "c \<in> set (dropWhile is_blank s)" by (simp only: set_rev)
  then show "c \<in> set s" by (rule set_dropWhileD)
qed

lemma header_line_text:
  assumes "line_wf (n, v)"
  shows "header_line (line_text (n, v) @ r) ('': '' @ v @ CRLF @ r) r [] = Some (Some (n, Some (trim v)), [])"
proof -
  let ?s = "line_text (n, v) @ r"
  have n: "tight n" "n \<noteq> []" using assms by (simp_all add: line_wf_def)
  have before: "?s ! (length n + length v + 2) = CR"
    by (simp add: line_text_def nth_append)
  have name: "osip_clrncpy (int (length n) + 1) (Some ?s) (int (length n)) = Some n"
    unfolding line_text_def fst_conv append_assoc using n(1) by (intro osip_clrncpy_whole) simp_all
  have trim_front: "trim (CHR '' '' # v) = trim v"
    by (simp add: trim_def is_blank_def)
  have "osip_clrncpy (int (length v) + 3) (Some ('' '' @ v @ CRLF @ r)) (int (length v) + 1)
      = Some (trim (take (nat (int (length v) + 1)) ('' '' @ v @ CRLF @ r)))"
    by (rule osip_clrncpy_trim) simp_all
  then have val: "osip_clrncpy (int (length v) + 3) (Some ('' '' @ v @ CRLF @ r)) (int (length v) + 1) = Some (trim v)"
    by (simp add: nat_add_distrib trim_front)
  have lens: "ptr_diff ('': '' @ v @ CRLF @ r) ?s = int (length n)" "ptr_diff r ?s = int (length n + length v + 4)"
      "ptr_diff r ('': '' @ v @ CRLF @ r) = int (length v) + 4"
    by (simp_all add: ptr_diff_def line_text_def)
  have k: "nat (int (length n + length v + 4)) - 2 = length n + length v + 2" by simp
  show ?thesis
    using before name val unfolding header_line_def alloc_or_def lens k
    by (simp add: add.commute [of "int (length v)"])
qed

text \<open>Reading lines is a step of the loop each, whatever follows them on a line of its own.\<close>

definition reads :: "line list \<Rightarrow> sip_message \<Rightarrow> sip_message \<Rightarrow> bool" where
  "reads ls s s' \<longleftrightarrow> (\<forall>r. \<not> is_sp_tab (cur r) \<longrightarrow>
     msg_headers_parse s (lines_text ls @ r) [] = msg_headers_parse s' r [])"

lemma reads_Nil: "reads [] s s"
  by (simp add: reads_def)

lemma line_starts:
  assumes "line_wf l"
  shows "\<not> is_sp_tab (cur (line_text l @ r))"
  using assms by (cases l; cases "fst l")
    (auto simp: line_wf_def line_text_def tight_def is_blank_def is_sp_tab_def)

lemma lines_start:
  assumes "list_all line_wf ls" "\<not> is_sp_tab (cur r)"
  shows "\<not> is_sp_tab (cur (lines_text ls @ r))"
  using assms line_starts by (cases ls) simp_all

lemma reads_append:
  assumes "reads ks s s'" "reads ls s' s''" "list_all line_wf ls"
  shows "reads (ks @ ls) s s''"
  using assms lines_start by (auto simp: reads_def)

lemma reads_line:
  assumes "line_wf (n, v)"
    and "osip_message_set__header s (Some (map tolower n)) (Some (trim v)) [] = Some ((OSIP_SUCCESS, s'), [])"
  shows "reads [(n, v)] s s'"
  unfolding reads_def
proof (intro allI impI)
  fix r
  assume r: "\<not> is_sp_tab (cur r)"
  let ?l = "line_text (n, v) @ r"
  have n: "n \<noteq> []" "CHR '':'' \<notin> set n" "one_line n" "one_line v" using assms(1) by (simp_all add: line_wf_def)
  have l: "?l = (n @ '': '' @ v) @ CR # LF # r" by (simp add: line_text_def)
  have "one_line (n @ '': '' @ v)" using n by (auto simp: one_line_def)
  then have crlf: "osip_find_next_crlf ?l = (OSIP_SUCCESS, Some r)"
    unfolding l by (rule find_next_crlf_one_line [OF _ r])
  have colon: "strchr ?l CHR '':'' = Some ('': '' @ v @ CRLF @ r)"
    using n(2) by (simp add: line_text_def strchr_append_notin)
  have first: "cur ?l \<noteq> CR \<and> cur ?l \<noteq> LF"
    using n(1,3) by (cases n) (auto simp: line_text_def one_line_def)
  have "CHR '','' \<notin> set (trim v) \<or> not_split (map tolower n)"
    using assms(1) trim_subset [of v] by (auto simp: line_wf_def)
  then have set: "osip_message_set_multiple_header s n (Some (trim v)) [] = Some ((OSIP_SUCCESS, s'), [])"
    using assms(2) by (auto simp: osip_message_set_multiple_header_def Let_def strchr_None)
  have nonempty: "line_text (n, v) \<noteq> []" by (simp add: line_text_def)
  have far: "\<not> ptr_diff ('': '' @ v @ CRLF @ r) ?l + 1 < 2" "\<not> length ('': '' @ v @ CRLF @ r) \<le> length r"
    using n(1) by (cases n; simp add: ptr_diff_def line_text_def)+
  have "msg_headers_parse s ?l [] = msg_headers_parse s' r []"
    unfolding msg_headers_parse.simps [of s ?l]
    using nonempty crlf first colon far header_line_text [OF assms(1), of r] set by simp
  then show "msg_headers_parse s (lines_text [(n, v)] @ r) [] = msg_headers_parse s' r []" by simp
qed

section \<open>Writing\<close>

text \<open>A step of the printer appends lines to what is in the buffer, whatever its size.\<close>

definition writes :: "line list \<Rightarrow> (out \<Rightarrow> mem \<Rightarrow> ((int \<times> out) \<times> mem) option) \<Rightarrow> bool" where
  "writes ls f \<longleftrightarrow> (\<forall>buf n m. never_fails m \<longrightarrow>
     (\<exists>n' m'. f (Some buf, n) m = Some ((OSIP_SUCCESS, Some (buf @ lines_text ls), n'), m') \<and> never_fails m'))"

lemma osip_message_realloc_ok:
  assumes "never_fails m"
  shows "\<exists>n' m'. osip_message_realloc (Some buf, n) room m = ((True, Some buf, n'), m')
    \<and> never_fails m' \<and> length buf + room + 100 \<le> n'"
  using osip_malloc_never_fails [OF assms] assms by (auto simp: osip_message_realloc_def)

lemma append_out_ok: "length buf + length t < n \<Longrightarrow> append_out (Some buf, n) t = Some (Some (buf @ t), n)"
  by (simp add: append_out_def sprintf_at_def)

lemma strcat_simple_header_ok:
  assumes "\<And>m. never_fails m \<Longrightarrow> \<exists>m'. to_str (Some h) m = Some ((OSIP_SUCCESS, Some t), m') \<and> never_fails m'"
  shows "writes [(n, t)] (strcat_simple_header (n @ '': '') to_str (Some h))"
  unfolding writes_def
proof (intro allI impI)
  fix buf size m
  assume m: "never_fails m"
  obtain n1 m1 where r1: "osip_message_realloc (Some buf, size) (length (n @ '': '')) m = ((True, Some buf, n1), m1)"
      "never_fails m1" "length buf + length (n @ '': '') + 100 \<le> n1"
    using osip_message_realloc_ok [OF m] by blast
  have a1: "append_out (Some buf, n1) (n @ '': '') = Some (Some (buf @ n @ '': ''), n1)"
    using r1(3) by (intro append_out_ok) simp
  obtain m2 where m2: "to_str (Some h) m1 = Some ((OSIP_SUCCESS, Some t), m2)" "never_fails m2"
    using assms [OF r1(2)] by blast
  obtain n3 m3 where r3: "osip_message_realloc (Some (buf @ n @ '': ''), n1) (length t) m2 = ((True, Some (buf @ n @ '': ''), n3), m3)"
      "never_fails m3" "length (buf @ n @ '': '') + length t + 100 \<le> n3"
    using osip_message_realloc_ok [OF m2(2)] by blast
  have a3: "append_out (Some (buf @ n @ '': ''), n3) t = Some (Some ((buf @ n @ '': '') @ t), n3)"
    using r3(3) by (intro append_out_ok) simp
  have a4: "append_out (Some ((buf @ n @ '': '') @ t), n3) CRLF = Some (Some (((buf @ n @ '': '') @ t) @ CRLF), n3)"
    using r3(3) by (intro append_out_ok) simp
  have "strcat_simple_header (n @ '': '') to_str (Some h) (Some buf, size) m
      = Some ((OSIP_SUCCESS, Some (((buf @ n @ '': '') @ t) @ CRLF), n3), m3)"
    unfolding strcat_simple_header_def using r1(1) a1 m2(1) r3(1) a3 a4 by simp
  then show "\<exists>n' m'. strcat_simple_header (n @ '': '') to_str (Some h) (Some buf, size) m
      = Some ((OSIP_SUCCESS, Some (buf @ lines_text [(n, t)]), n'), m') \<and> never_fails m'"
    using r3(2) by (simp add: line_text_def)
qed

lemma strcat_headers_one_per_line_ok:
  assumes "\<And>h m. h \<in> set hs \<Longrightarrow> never_fails m
    \<Longrightarrow> \<exists>m'. to_str (Some h) m = Some ((OSIP_SUCCESS, Some (t h)), m') \<and> never_fails m'"
  shows "writes (map (\<lambda>h. (n, t h)) hs) (strcat_headers_one_per_line (n @ '': '') to_str hs)"
  using assms
proof (induction hs)
  case (Cons h hs)
  have first: "writes [(n, t h)] (strcat_simple_header (n @ '': '') to_str (Some h))"
    by (rule strcat_simple_header_ok) (use Cons.prems in simp)
  have rest: "writes (map (\<lambda>h. (n, t h)) hs) (strcat_headers_one_per_line (n @ '': '') to_str hs)"
    by (rule Cons.IH) (use Cons.prems in simp)
  show ?case
    unfolding writes_def
  proof (intro allI impI)
    fix buf size m
    assume m: "never_fails m"
    obtain n1 m1 where s1: "strcat_simple_header (n @ '': '') to_str (Some h) (Some buf, size) m
        = Some ((OSIP_SUCCESS, Some (buf @ lines_text [(n, t h)]), n1), m1)" "never_fails m1"
      using first m unfolding writes_def by blast
    obtain n2 m2 where s2: "strcat_headers_one_per_line (n @ '': '') to_str hs (Some (buf @ lines_text [(n, t h)]), n1) m1
        = Some ((OSIP_SUCCESS, Some ((buf @ lines_text [(n, t h)]) @ lines_text (map (\<lambda>h. (n, t h)) hs)), n2), m2)"
        "never_fails m2"
      using rest s1(2) unfolding writes_def by blast
    show "\<exists>n' m'. strcat_headers_one_per_line (n @ '': '') to_str (h # hs) (Some buf, size) m
        = Some ((OSIP_SUCCESS, Some (buf @ lines_text (map (\<lambda>h. (n, t h)) (h # hs))), n'), m') \<and> never_fails m'"
      using s1(1) s2 by simp
  qed
qed (simp add: writes_def)

lemma print_rows_Cons:
  assumes "writes ks (r s)" "writes ls (print_rows rs s)"
  shows "writes (ks @ ls) (print_rows (r # rs) s)"
  unfolding writes_def
proof (intro allI impI)
  fix buf size m
  assume m: "never_fails m"
  obtain n1 m1 where s1: "r s (Some buf, size) m = Some ((OSIP_SUCCESS, Some (buf @ lines_text ks), n1), m1)" "never_fails m1"
    using assms(1) m unfolding writes_def by blast
  obtain n2 m2 where s2: "print_rows rs s (Some (buf @ lines_text ks), n1) m1
      = Some ((OSIP_SUCCESS, Some ((buf @ lines_text ks) @ lines_text ls), n2), m2)" "never_fails m2"
    using assms(2) s1(2) unfolding writes_def by blast
  show "\<exists>n' m'. print_rows (r # rs) s (Some buf, size) m = Some ((OSIP_SUCCESS, Some (buf @ lines_text (ks @ ls)), n'), m')
      \<and> never_fails m'"
    using s1(1) s2 by simp
qed

lemma print_rows_Nil: "writes [] (print_rows [] s)"
  by (simp add: writes_def)

end
