(* ===== verification/Simple_Codec.thy ===== *)
theory Simple_Codec
  imports Simple_Headers Header_Codec
begin

text \<open>
  The contract \<open>header_codec\<close> for the simple headers: a text (Content-Length, Allow,
  Content-Encoding, MIME-Version), an element with parameters (Accept-Encoding, Accept-Language,
  Call-Info and its like) and a media type (Content-Type, Accept).
\<close>

section \<open>A text\<close>

definition text_wf :: "osip_content_length \<Rightarrow> bool" where
  "text_wf h \<longleftrightarrow> (case cl_value h of None \<Rightarrow> False | Some v \<Rightarrow> v \<noteq> [])"

definition text_text :: "osip_content_length \<Rightarrow> string" where
  "text_text h = the (cl_value h)"

interpretation text_codec: header_codec "\<lambda>cl m. Some (osip_content_length_to_str cl m)"
  "osip_content_length_parse osip_content_length_init" text_wf text_text
proof unfold_locales
  fix h :: osip_content_length and m :: mem
  assume "text_wf h"
  then obtain v where v: "cl_value h = Some v" "v \<noteq> []" by (auto simp: text_wf_def split: option.splits)
  show "\<exists>m'. Some (osip_content_length_to_str (Some h) m) = Some ((OSIP_SUCCESS, Some (text_text h)), m') \<and> never_fails m'"
    if "never_fails m"
    using osip_strdup_never_fails [OF that, of "Some v"] v by (auto simp: osip_content_length_to_str_def text_text_def)
  show "osip_content_length_parse osip_content_length_init (Some (text_text h)) [] = Some ((OSIP_SUCCESS, h), [])"
    using v by (cases h; cases v)
      (simp_all add: osip_content_length_parse_def osip_content_length_init_def text_text_def alloc_or_def osip_strncpy_def)
qed

section \<open>An element with parameters\<close>

definition element_text :: "osip_accept_encoding \<Rightarrow> string" where
  "element_text h = the (element h) @ concat (map param_text (el_params h))"

definition element_wf :: "osip_accept_encoding \<Rightarrow> bool" where
  "element_wf h \<longleftrightarrow> list_all generic_param_wf (el_params h)
    \<and> (case element h of None \<Rightarrow> False | Some e \<Rightarrow> e \<noteq> [] \<and> tight e \<and> CHR '';'' \<notin> set e)"

text \<open>The element of a Call-Info is a URI in brackets.\<close>

definition bracketed_wf :: "osip_call_info \<Rightarrow> bool" where
  "bracketed_wf h \<longleftrightarrow> list_all generic_param_wf (el_params h)
    \<and> (case element h of None \<Rightarrow> False | Some e \<Rightarrow> 2 \<le> length e \<and> hd e = CHR ''<'' \<and> last e = CHR ''>''
         \<and> CHR ''>'' \<notin> set (butlast e))"

lemma parse_element_text:
  assumes "list_all generic_param_wf ps" "e \<noteq> []" "tight e"
  shows "parse_element osip_accept_encoding_init (e @ concat (map param_text ps))
      (if ps = [] then None else Some (concat (map param_text ps))) []
    = Some ((OSIP_SUCCESS, \<lparr>element = Some e, el_params = ps\<rparr>), [])"
proof -
  let ?r = "concat (map param_text ps)"
  have copy: "osip_clrncpy (int (length e) + 1) (Some (e @ ?r)) (int (length e)) = Some e"
    using assms(3) by (intro osip_clrncpy_whole) simp_all
  have len: "\<not> int (length e) + 1 < 2" using assms(2) by (cases e) simp_all
  show ?thesis
  proof (cases ps)
    case Nil
    then show ?thesis
      using copy len by (simp add: parse_element_def set_element_def ptr_diff_def alloc_or_def osip_accept_encoding_init_def)
  next
    case (Cons p qs)
    have "osip_generic_param_parseall [] ?r [] = Some ((0, ps), [])"
      using generic_params_roundtrip [of p qs "[]"] assms(1) Cons by simp
    then show ?thesis
      using copy len Cons
      by (simp add: parse_element_def set_element_def ptr_diff_def alloc_or_def osip_accept_encoding_init_def del: concat.simps list.map(2))
  qed
qed

lemma strchr_params:
  "CHR '';'' \<notin> set e \<Longrightarrow> strchr (e @ concat (map param_text ps)) CHR '';''
    = (if ps = [] then None else Some (concat (map param_text ps)))"
  using strchr_starts [OF _ generic_params_text_starts, of e ps] by (cases ps) (auto simp: param_text_def)

interpretation element_codec: header_codec osip_accept_encoding_to_str
  "osip_accept_encoding_parse osip_accept_encoding_init" element_wf element_text
proof unfold_locales
  fix h :: osip_accept_encoding and m :: mem
  assume wf: "element_wf h"
  then obtain e where e: "element h = Some e" "e \<noteq> []" "tight e" "CHR '';'' \<notin> set e" "list_all generic_param_wf (el_params h)"
    by (auto simp: element_wf_def split: option.splits)
  show "\<exists>m'. osip_accept_encoding_to_str (Some h) m = Some ((OSIP_SUCCESS, Some (element_text h)), m') \<and> never_fails m'"
    if m: "never_fails m"
  proof -
    obtain m1 where m1: "osip_malloc m = (True, m1)" "never_fails m1" using osip_malloc_never_fails [OF m] by blast
    obtain m2 where "from_params_to_str (el_params h) e (length e + 2) m1 = Some (element_text h, m2)" "never_fails m2"
      using from_params_to_str_ok [OF generic_params_named [OF e(5)] _ m1(2), of e "length e + 2"] e(1)
      by (auto simp: element_text_def)
    then show ?thesis using m1 e(1) by (simp add: osip_accept_encoding_to_str_def alloc_or_def sprintf_at_def)
  qed
  show "osip_accept_encoding_parse osip_accept_encoding_init (Some (element_text h)) [] = Some ((OSIP_SUCCESS, h), [])"
  proof -
    obtain ps where h: "h = \<lparr>element = Some e, el_params = ps\<rparr>" using e(1) by (cases h) simp
    show ?thesis
      using parse_element_text [of ps e] strchr_params [OF e(4), of ps] e(2,3,5)
      by (cases "ps = []") (simp_all add: h osip_accept_encoding_parse_def element_text_def)
  qed
qed

interpretation call_info_codec: header_codec osip_call_info_to_str
  "osip_call_info_parse osip_accept_encoding_init" bracketed_wf element_text
proof unfold_locales
  fix h :: osip_call_info and m :: mem
  assume wf: "bracketed_wf h"
  then obtain e where e: "element h = Some e" "2 \<le> length e" "hd e = CHR ''<''" "last e = CHR ''>''"
      "CHR ''>'' \<notin> set (butlast e)" "list_all generic_param_wf (el_params h)"
    by (auto simp: bracketed_wf_def split: option.splits)
  then obtain u where u: "e = CHR ''<'' # u @ [CHR ''>'']" "CHR ''>'' \<notin> set u"
  proof -
    obtain f where f: "e = CHR ''<'' # f" "f \<noteq> []" using e(2,3) by (cases e) (auto simp: Suc_le_eq)
    then have "f = butlast f @ [CHR ''>'']" using e(4) by (metis append_butlast_last_id last_ConsR)
    moreover have "set (butlast f) \<subseteq> set (butlast e)" using f by auto
    ultimately show thesis using that [of "butlast f"] f(1) e(5) by auto
  qed
  have tight: "e \<noteq> []" "tight e" using u by (simp_all add: tight_def is_blank_def)
  show "\<exists>m'. osip_call_info_to_str (Some h) m = Some ((OSIP_SUCCESS, Some (element_text h)), m') \<and> never_fails m'"
    if m: "never_fails m"
  proof -
    obtain m1 where m1: "osip_malloc m = (True, m1)" "never_fails m1" using osip_malloc_never_fails [OF m] by blast
    obtain l m2 where "via_params_to_str (el_params h) e (length e + 2) m1 = Some ((element_text h, l), m2)" "never_fails m2"
      using via_params_to_str_ok [OF generic_params_named [OF e(6)] _ m1(2), of e "length e + 2"] e(1)
      by (auto simp: element_text_def)
    then show ?thesis using m1 e(1) by (simp add: osip_call_info_to_str_def alloc_or_def sprintf_at_def)
  qed
  let ?r = "concat (map param_text (el_params h))"
  have "strchr (u @ CHR ''>'' # ?r) CHR ''>'' = Some (CHR ''>'' # ?r)" using u(2) by (simp add: strchr_append_notin)
  moreover have "strchr ?r CHR '';'' = (if el_params h = [] then None else Some ?r)" using strchr_params [of "[]"] by simp
  ultimately show "osip_call_info_parse osip_accept_encoding_init (Some (element_text h)) [] = Some ((OSIP_SUCCESS, h), [])"
    using parse_element_text [OF e(6) tight] e(1) u(1)
    by (cases h) (simp add: osip_call_info_parse_def element_text_def)
qed

section \<open>A media type\<close>

definition media_wf :: "osip_content_type \<Rightarrow> bool" where
  "media_wf h \<longleftrightarrow> list_all (\<lambda>p. generic_param_wf p \<and> gvalue p \<noteq> None) (ct_params h)
    \<and> (case ct_type h of None \<Rightarrow> False | Some t \<Rightarrow> t \<noteq> [] \<and> tight t \<and> CHR ''/'' \<notin> set t \<and> CHR '';'' \<notin> set t)
    \<and> (case ct_subtype h of None \<Rightarrow> False | Some s \<Rightarrow> s \<noteq> [] \<and> tight s \<and> CHR '';'' \<notin> set s)"

definition media_text :: "osip_content_type \<Rightarrow> string" where
  "media_text h = the (ct_type h) @ ''/'' @ the (ct_subtype h) @ concat (map (spaced_text '' '') (ct_params h))"

lemma content_type_params_to_str_ok:
  assumes "list_all (\<lambda>p. generic_param_wf p \<and> gvalue p \<noteq> None) ps" "length buf < len" "never_fails m"
  shows "\<exists>m'. content_type_params_to_str ps buf len m
    = Some ((OSIP_SUCCESS, Some (buf @ concat (map (spaced_text '' '') ps))), m') \<and> never_fails m'"
  using assms
proof (induction ps arbitrary: buf len m)
  case (Cons p ps)
  obtain n v where p: "gname p = Some n" "gvalue p = Some v"
    using Cons.prems(1) by (auto simp: generic_param_wf_def split: option.splits)
  let ?need = "length buf + 4 + length n + length v + 1"
  define l where "l = max len ?need"
  obtain m1 where m1: "(if len < ?need then (case osip_malloc m of (ok, m) \<Rightarrow> do { ub_unless ok; Some (?need, m) })
      else Some (len, m)) = Some (l, m1)" "never_fails m1"
  proof (cases "len < ?need")
    case True
    then show thesis using that osip_malloc_never_fails [OF Cons.prems(3)] by (auto simp: l_def)
  next
    case False
    then show thesis using that [of m] Cons.prems(3) by (simp add: l_def)
  qed
  have fits: "length (buf @ spaced_text '' '' p) < l" using p by (simp add: l_def spaced_text_def param_text_def)
  have "snprintf_at l buf (''; '' @ n @ ''='' @ v) = buf @ spaced_text '' '' p"
    using fits p by (simp add: snprintf_at_def spaced_text_def param_text_def)
  then have "content_type_params_to_str (p # ps) buf len m = content_type_params_to_str ps (buf @ spaced_text '' '' p) l m1"
    unfolding content_type_params_to_str.simps p option.case bind.bind_lunit Let_def m1(1) by simp
  then show ?case using Cons.IH [OF _ fits m1(2)] Cons.prems(1) by simp
qed simp

lemma media_parse_text:
  assumes "media_wf h"
  shows "osip_content_type_parse osip_content_type_init (Some (media_text h)) [] = Some ((OSIP_SUCCESS, h), [])"
proof -
  obtain t s where h: "ct_type h = Some t" "t \<noteq> []" "tight t" "CHR ''/'' \<notin> set t" "CHR '';'' \<notin> set t"
      "ct_subtype h = Some s" "s \<noteq> []" "tight s" "CHR '';'' \<notin> set s" "list_all generic_param_wf (ct_params h)"
    using assms by (auto simp: media_wf_def list_all_iff split: option.splits)
  define r where "r = concat (map (spaced_text '' '') (ct_params h))"
  have starts: "starts_with CHR '';'' r" unfolding r_def by (rule spaced_texts_start)
  have slash: "strchr (t @ ''/'' @ s @ r) CHR ''/'' = Some (''/'' @ s @ r)"
    using h(4) by (simp add: strchr_append_notin)
  have semi: "strchr (t @ ''/'' @ s @ r) CHR '';'' = (if r = [] then None else Some r)"
    using strchr_starts [OF _ starts, of "t @ ''/'' @ s"] h(5,9) by simp
  have t: "osip_clrncpy (int (length t) + 1) (Some (t @ CHR ''/'' # s @ r)) (int (length t)) = Some t"
    using h(3) by (intro osip_clrncpy_whole) simp_all
  have s: "osip_clrncpy (int (length s) + 1) (Some (s @ r)) (int (length s)) = Some s"
    using h(8) by (intro osip_clrncpy_whole) simp_all
  have names: "content_type_names ct (t @ ''/'' @ s @ r) (''/'' @ s @ r) r []
      = Some ((OSIP_SUCCESS, ct\<lparr>ct_type := Some t, ct_subtype := Some s\<rparr>), [])" for ct
    using t s h(2,7) by (simp add: content_type_names_def ptr_diff_def alloc_or_def Let_def add.commute [of 1])
  have params: "osip_generic_param_parseall [] r [] = Some ((0, ct_params h), [])" if "r \<noteq> []"
  proof (cases "ct_params h")
    case (Cons p ps)
    then show ?thesis using spaced_params_roundtrip [of p ps "'' ''" "[]"] h(10) by (simp add: r_def)
  qed (use that in \<open>simp add: r_def\<close>)
  have nil: "ct_params h = []" if "r = []" using that by (cases "ct_params h") (simp_all add: r_def spaced_text_def)
  have "media_text h = t @ ''/'' @ s @ r" using h(1,6) by (simp add: media_text_def r_def)
  then show ?thesis
    using slash semi names params nil h(1,6) by (cases h) (auto simp: osip_content_type_parse_def osip_content_type_init_def)
qed

lemma media_buffer:
  assumes "media_wf h" "never_fails m"
  shows "\<exists>m'. content_type_params_to_str (ct_params h) (the (ct_type h) @ ''/'' @ the (ct_subtype h))
      (length (the (ct_type h)) + length (the (ct_subtype h)) + 4 + 10 * length (ct_params h)) m
    = Some ((OSIP_SUCCESS, Some (media_text h)), m') \<and> never_fails m'"
  using content_type_params_to_str_ok [OF _ _ assms(2), of "ct_params h" "the (ct_type h) @ ''/'' @ the (ct_subtype h)"] assms(1)
  by (simp add: media_wf_def media_text_def)

interpretation media_codec: header_codec osip_content_type_to_str
  "osip_content_type_parse osip_content_type_init" media_wf media_text
proof unfold_locales
  fix h :: osip_content_type and m :: mem
  assume wf: "media_wf h"
  then obtain t s where h: "ct_type h = Some t" "ct_subtype h = Some s" by (auto simp: media_wf_def split: option.splits)
  show "\<exists>m'. osip_content_type_to_str (Some h) m = Some ((OSIP_SUCCESS, Some (media_text h)), m') \<and> never_fails m'"
    if "never_fails m"
    using osip_malloc_never_fails [OF that] media_buffer [OF wf] h
    by (fastforce simp: osip_content_type_to_str_def alloc_or_def sprintf_at_def)
qed (rule media_parse_text)

interpretation accept_codec: header_codec osip_accept_to_str
  "osip_content_type_parse osip_content_type_init" media_wf media_text
proof unfold_locales
  fix h :: osip_content_type and m :: mem
  assume wf: "media_wf h"
  then obtain t s where h: "ct_type h = Some t" "ct_subtype h = Some s" "t \<noteq> []" by (auto simp: media_wf_def split: option.splits)
  show "\<exists>m'. osip_accept_to_str (Some h) m = Some ((OSIP_SUCCESS, Some (media_text h)), m') \<and> never_fails m'"
    if "never_fails m"
    using osip_malloc_never_fails [OF that] media_buffer [OF wf] h
    by (fastforce simp: osip_accept_to_str_def alloc_or_def sprintf_at_def)
qed (rule media_parse_text)

end
