(* ===== verification/Auth_Codec.thy ===== *)
theory Auth_Codec
  imports Auth_Print Header_Codec Message_Headers
begin

text \<open>
  The contract \<open>header_codec\<close> for the headers of authentication: challenges and credentials. Their
  printers write the parameters in the order of the parser's table, so that one round of its loop
  reads them all.
\<close>

section \<open>Parameters\<close>

definition field_name :: "'h auth_field \<Rightarrow> string" where
  "field_name f = fst (snd f)"

definition field_get :: "'h auth_field \<Rightarrow> 'h \<Rightarrow> cstr" where
  "field_get f = fst (snd (snd f))"

definition field_put :: "'h auth_field \<Rightarrow> cstr \<Rightarrow> 'h \<Rightarrow> 'h" where
  "field_put f = snd (snd (snd f))"

lemma field_simps [simp]:
  "field_name (q, n, get, put) = n" "field_get (q, n, get, put) = get" "field_put (q, n, get, put) = put"
  by (simp_all add: field_name_def field_get_def field_put_def)

text \<open>The text of the parameters that are there, each with a comma and a blank in front.\<close>

fun params_text :: "'h auth_field list \<Rightarrow> 'h \<Rightarrow> string" where
  "params_text [] h = []"
| "params_text ((q, n, get, put) # fs) h =
    (case get h of None \<Rightarrow> params_text fs h | Some v \<Rightarrow> '', '' @ n @ ''='' @ v @ params_text fs h)"

definition auth_name_ok :: "string \<Rightarrow> bool" where
  "auth_name_ok n \<longleftrightarrow> 2 \<le> length n \<and> list_all (\<lambda>c. c \<noteq> CHR ''='' \<and> c \<noteq> CHR 0x22 \<and> c \<noteq> CHR 0x5C \<and> \<not> is_auth_sep c \<and> \<not> is_blank c) n"

definition auth_value_ok :: "bool \<Rightarrow> string \<Rightarrow> bool" where
  "auth_value_ok q v \<longleftrightarrow> 3 \<le> length v \<and> (if q then quoted v else tight v \<and> CHR '','' \<notin> set v)"

text \<open>Two names that differ at a place both have, the equals sign included.\<close>

definition apart :: "string \<Rightarrow> string \<Rightarrow> bool" where
  "apart n k \<longleftrightarrow> list_ex (\<lambda>(c, d). tolower c \<noteq> tolower d) (zip n (k @ ''=''))"

lemma apart_neq:
  assumes "apart n k"
  shows "\<not> osip_strncasecmp_eq n (k @ CHR ''='' # r) (length n)"
proof
  define s where "s = k @ CHR ''='' # r"
  assume "osip_strncasecmp_eq n (k @ CHR ''='' # r) (length n)"
  then have eq: "map tolower n = map tolower (take (length n) s)" by (simp add: osip_strncasecmp_eq_def s_def)
  obtain i where i: "i < length n" "i < length (k @ ''='')" "tolower (n ! i) \<noteq> tolower ((k @ ''='') ! i)"
    using assms by (auto simp: apart_def list_ex_iff set_zip)
  have s: "s = (k @ ''='') @ r" by (simp add: s_def)
  have "tolower (n ! i) = map tolower (take (length n) s) ! i" unfolding eq [symmetric] using i(1) by simp
  also have "\<dots> = tolower (take (length n) s ! i)" using i(1,2) by (intro nth_map) (simp add: s_def)
  also have "take (length n) s ! i = s ! i" using i(1) by simp
  also have "\<dots> = (k @ ''='') ! i" unfolding s using i(2) by (simp only: nth_append if_True)
  finally show False using i(3) by simp
qed

lemma name_starts:
  assumes "auth_name_ok n"
  shows "\<not> is_auth_sep (cur (n @ r))" "\<not> is_blank (cur (n @ r))" "n \<noteq> []"
  using assms by (cases n; simp add: auth_name_ok_def)+

lemma skip_gap:
  assumes "set gap \<subseteq> {c. is_auth_sep c}" "auth_name_ok n"
  shows "dropWhile is_auth_sep (gap @ n @ r) = n @ r"
proof -
  have "dropWhile is_auth_sep (gap @ n @ r) = dropWhile is_auth_sep (n @ r)"
    by (rule dropWhile_append2) (use assms(1) in blast)
  also have "\<dots> = n @ r" using name_starts(1) [OF assms(2), of r] name_starts(3) [OF assms(2)] by (cases n) simp_all
  finally show ?thesis .
qed

lemma next_element_comma: "next_element (CHR '','' # r) = Some (CHR '','' # r)"
  by (simp add: next_element_def)

lemma next_element_blank:
  assumes "auth_name_ok n"
  shows "next_element (CHR '' '' # n @ r) = Some (n @ r)"
  using name_starts(2) [OF assms, of r] name_starts(3) [OF assms] by (cases n) (simp_all add: next_element_def is_blank_def)

section \<open>One parameter\<close>

lemma gap_no_equals:
  assumes "set gap \<subseteq> {c. is_auth_sep c}" "auth_name_ok n"
  shows "strchr (gap @ n @ CHR ''='' # r) CHR ''='' = Some (CHR ''='' # r)"
proof -
  have "CHR ''='' \<notin> set gap" using assms(1) by (auto simp: is_auth_sep_def)
  moreover have "CHR ''='' \<notin> set n" using assms(2) by (auto simp: auth_name_ok_def list_all_iff)
  ultimately show ?thesis by (simp add: strchr_append_notin)
qed

lemma absent_param:
  assumes "set gap \<subseteq> {c. is_auth_sep c}" "auth_name_ok k" "apart n k" "3 \<le> length r"
  shows "osip_quoted_string_set n (gap @ k @ CHR ''='' # r) None m = Some ((OSIP_SUCCESS, None, Some (k @ CHR ''='' # r)), m)"
    "osip_token_set n (gap @ k @ CHR ''='' # r) None m = Some ((OSIP_SUCCESS, None, Some (k @ CHR ''='' # r)), m)"
proof -
  note skip = skip_gap [OF assms(1,2), of "CHR ''='' # r"] and neq = apart_neq [OF assms(3), of r]
  have "2 \<le> length k" using assms(2) by (simp add: auth_name_ok_def)
  then have long: "\<not> length (gap @ k @ CHR ''='' # r) < 6" using assms(4) by simp
  show "osip_quoted_string_set n (gap @ k @ CHR ''='' # r) None m = Some ((OSIP_SUCCESS, None, Some (k @ CHR ''='' # r)), m)"
    unfolding osip_quoted_string_set_def Let_def skip using neq by simp
  show "osip_token_set n (gap @ k @ CHR ''='' # r) None m = Some ((OSIP_SUCCESS, None, Some (k @ CHR ''='' # r)), m)"
    unfolding osip_token_set_def Let_def skip gap_no_equals [OF assms(1,2)] using neq long by simp
qed

lemma scan_name: "\<forall>c \<in> set n. c \<noteq> CHR 0x22 \<and> c \<noteq> CHR 0x5C \<Longrightarrow> scan_quote False (n @ CHR 0x22 # t) = Some (length n)"
  by (induction n) simp_all

lemma quoted_param:
  assumes "set gap \<subseteq> {c. is_auth_sep c}" "auth_name_ok n" "quoted v" "3 \<le> length v"
  shows "osip_quoted_string_set n (gap @ n @ CHR ''='' # v @ r) None [] = Some ((OSIP_SUCCESS, Some v, next_element r), [])"
proof -
  let ?s = "n @ CHR ''='' # v @ r"
  obtain w where v: "v = CHR 0x22 # w" "scan_quote False w = Some (length w - 1)" "2 \<le> length w"
    using assms(3,4) by (cases v) (auto simp: quoted_def)
  have plain: "\<forall>c \<in> set (n @ ''=''). c \<noteq> CHR 0x22 \<and> c \<noteq> CHR 0x5C" "CHR ''='' \<notin> set n" "CHR '' '' \<notin> set n"
    using assms(2) by (auto simp: auth_name_ok_def list_all_iff is_auth_sep_def)
  have eq: "osip_strncasecmp_eq n ?s (length n)" by (simp add: osip_strncasecmp_eq_def)
  have hack: "strchr ?s CHR ''='' = Some (CHR ''='' # v @ r)" using plain(2) by (simp add: strchr_append_notin)
  have "rev n \<noteq> [] \<and> hd (rev n) \<noteq> CHR '' ''"
    using name_starts(3) [OF assms(2)] plain(3) by (metis hd_in_set rev_is_Nil_conv set_rev)
  then have "dropWhile (\<lambda>c. c = CHR '' '') (rev n) = rev n" by (cases "rev n") simp_all
  then have before: "dropWhile (\<lambda>c. c = CHR '' '') (rev (take (nat (ptr_diff (CHR ''='' # v @ r) ?s)) ?s)) = rev n"
    by (simp add: ptr_diff_def)
  have q1: "osip_quote_find ?s = Some (Some (length n + 1))"
    using scan_name [OF plain(1), of "w @ r"] by (simp add: v(1) osip_quote_find_scan)
  have q2: "osip_quote_find (w @ r) = Some (Some (length w - 1))"
    using scan_quote_append [OF v(2), of r] by (simp add: osip_quote_find_scan)
  have "w ! (length w - 1) = CHR 0x22" using scan_quote_at [OF v(2)] by simp
  then have w: "w = butlast w @ [CHR 0x22]" using v(3) by (metis append_butlast_last_id last_conv_nth list.size(3) not_numeral_le_zero)
  have behind: "drop (length w - 1) (w @ r) = CHR 0x22 # r" by (subst w) simp
  have copy: "osip_strncpy (int (length w - 1) + 4) (CHR 0x22 # w @ r) (int (length w - 1) + 2) = Some (CHR 0x22 # w)"
  proof -
    have "nat (int (length w - 1) + 2) = length (CHR 0x22 # w)" using v(3) by simp
    then show ?thesis using v(3) by (simp add: osip_strncpy_def)
  qed
  have "length w - 1 \<noteq> 0" using v(3) by simp
  then show ?thesis
    unfolding osip_quoted_string_set_def Let_def skip_gap [OF assms(1,2)] hack option.case before q1
    using eq name_starts(3) [OF assms(2)] q2 behind copy by (simp add: v(1) alloc_or_def)
qed

lemma token_param:
  assumes "set gap \<subseteq> {c. is_auth_sep c}" "auth_name_ok n" "tight v" "CHR '','' \<notin> set v" "3 \<le> length v"
    "starts_with CHR '','' r"
  shows "osip_token_set n (gap @ n @ CHR ''='' # v @ r) None [] = Some ((OSIP_SUCCESS, Some v, next_element (tl r)), [])"
proof -
  let ?s = "n @ CHR ''='' # v @ r"
  have "2 \<le> length n" "CHR '','' \<notin> set n" using assms(2) by (auto simp: auth_name_ok_def list_all_iff is_auth_sep_def)
  then have long: "\<not> length (gap @ ?s) < 6" and comma: "strchr ?s CHR '','' = (if r = [] then None else Some r)"
    using assms(4,5) strchr_starts [OF _ assms(6), of "n @ CHR ''='' # v"] by simp_all
  have eq: "osip_strncasecmp_eq n ?s (length n)" by (simp add: osip_strncasecmp_eq_def)
  have copy: "osip_clrncpy (int (length v) + 1) (Some (v @ r)) (int (length v)) = Some v"
    using assms(3) by (intro osip_clrncpy_whole) simp_all
  have stop: "(case if r = [] then None else Some r of None \<Rightarrow> [] | Some e \<Rightarrow> e) = r" by simp
  have len: "ptr_diff r (CHR ''='' # v @ r) = int (length v) + 1" by (simp add: ptr_diff_def)
  have filled: "v \<noteq> []" using assms(5) by auto
  have nil: "(if r \<noteq> [] then tl r else r) = tl r" by (cases r) simp_all
  show ?thesis
    unfolding osip_token_set_def Let_def skip_gap [OF assms(1,2)] gap_no_equals [OF assms(1,2)] comma stop
    using long eq copy filled nil by (simp add: len alloc_or_def add.commute [of 1])
qed

section \<open>One round reads them all\<close>

text \<open>
  What the table of a header must be: names that are apart, and fields that do not share storage.
  \<open>params_ok\<close> is what the values of the header must be.
\<close>

fun names_ok :: "string list \<Rightarrow> bool" where
  "names_ok [] \<longleftrightarrow> True"
| "names_ok (n # ns) \<longleftrightarrow> auth_name_ok n \<and> list_all (apart n) ns \<and> names_ok ns"

fun fields_ok :: "'h auth_field list \<Rightarrow> bool" where
  "fields_ok [] \<longleftrightarrow> True"
| "fields_ok (f # fs) \<longleftrightarrow> (\<forall>h. field_get f h = None \<longrightarrow> field_put f None h = h)
    \<and> (\<forall>g \<in> set fs. \<forall>v h. field_get g (field_put f v h) = field_get g h) \<and> fields_ok fs"

definition table_ok :: "'h auth_field list \<Rightarrow> bool" where
  "table_ok fs \<longleftrightarrow> names_ok (map field_name fs) \<and> fields_ok fs"

lemma table_ok_simps [simp]:
  "table_ok []"
  "table_ok (f # fs) \<longleftrightarrow> auth_name_ok (field_name f) \<and> list_all (\<lambda>g. apart (field_name f) (field_name g)) fs
    \<and> (\<forall>h. field_get f h = None \<longrightarrow> field_put f None h = h)
    \<and> (\<forall>g \<in> set fs. \<forall>v h. field_get g (field_put f v h) = field_get g h) \<and> table_ok fs"
  by (auto simp: table_ok_def list_all_iff)

definition params_ok :: "'h auth_field list \<Rightarrow> 'h \<Rightarrow> bool" where
  "params_ok fs h \<longleftrightarrow> list_all (\<lambda>f. case field_get f h of None \<Rightarrow> True | Some v \<Rightarrow> auth_value_ok (fst f) v) fs"

definition put_params :: "'h auth_field list \<Rightarrow> 'h \<Rightarrow> 'h \<Rightarrow> 'h" where
  "put_params fs tgt h = fold (\<lambda>f h. field_put f (field_get f tgt) h) fs h"

lemma put_params_simps [simp]:
  "put_params [] tgt h = h" "put_params (f # fs) tgt h = put_params fs tgt (field_put f (field_get f tgt) h)"
  by (simp_all add: put_params_def)

lemma params_text_Cons:
  "params_text (f # fs) h = (case field_get f h of None \<Rightarrow> params_text fs h
     | Some v \<Rightarrow> '', '' @ field_name f @ ''='' @ v @ params_text fs h)"
  by (cases f) (simp split: option.split)

lemma put_no_params:
  assumes "params_text fs tgt = []" "table_ok fs" "\<forall>f \<in> set fs. field_get f h = None"
  shows "put_params fs tgt h = h"
  using assms
proof (induction fs arbitrary: h)
  case (Cons f fs)
  then have "field_get f tgt = None" "params_text fs tgt = []" by (auto simp: params_text_Cons split: option.splits)
  then show ?case using Cons by simp
qed simp

text \<open>The first parameter that is there.\<close>

lemma params_text_first:
  assumes "params_text fs h \<noteq> []" "params_ok fs h" "table_ok fs"
  obtains g v r where "g \<in> set fs" "params_text fs h = '', '' @ field_name g @ CHR ''='' # v @ r"
    "auth_name_ok (field_name g)" "3 \<le> length v"
  using assms
proof (induction fs arbitrary: thesis)
  case (Cons f fs)
  show ?case
  proof (cases "field_get f h")
    case None
    then have fs: "params_text fs h \<noteq> []" "params_ok fs h" "table_ok fs" "params_text (f # fs) h = params_text fs h"
      using Cons.prems by (simp_all add: params_text_Cons params_ok_def)
    show ?thesis
      by (rule Cons.IH [OF _ fs(1-3)]) (rule Cons.prems(1), use fs(4) in auto)
  next
    case (Some v)
    then have "auth_value_ok (fst f) v" using Cons.prems(3) by (simp add: params_ok_def)
    then show ?thesis
      using Cons.prems(1) [of f v "params_text fs h"] Cons.prems(4) Some by (simp add: params_text_Cons auth_value_ok_def)
  qed
qed simp

lemma params_text_starts: "starts_with CHR '','' (params_text fs h)"
  by (induction fs) (auto simp: params_text_Cons starts_with_def split: option.split)

lemma auth_round_text:
  assumes "table_ok fs" "params_ok fs tgt" "\<forall>f \<in> set fs. field_get f h = None" "params_text fs tgt \<noteq> []"
    "set gap \<subseteq> {c. is_auth_sep c}"
  shows "auth_round fs h (gap @ drop 2 (params_text fs tgt)) ok [] = Some (Inl (OSIP_SUCCESS, put_params fs tgt h), [])"
  using assms
proof (induction fs arbitrary: h gap ok)
  case (Cons f fs)
  obtain q n get put where f: "f = (q, n, get, put)" by (cases f) auto
  have table: "auth_name_ok n" "list_all (\<lambda>g. apart n (field_name g)) fs" "table_ok fs"
      "\<And>h. get h = None \<Longrightarrow> put None h = h" "\<And>g v h. g \<in> set fs \<Longrightarrow> field_get g (put v h) = field_get g h"
    using Cons.prems(1) by (simp_all add: f)
  have params: "params_ok fs tgt" using Cons.prems(2) by (simp add: params_ok_def)
  have unset: "get h = None" "\<forall>g \<in> set fs. field_get g (put v h) = None" for v
    using Cons.prems(3) table(5) by (simp_all add: f)
  show ?case
  proof (cases "get tgt")
    case None
    then have same: "params_text (f # fs) tgt = params_text fs tgt" by (simp add: f)
    then have some: "params_text fs tgt \<noteq> []" using Cons.prems(4) by simp
    obtain g v r where g: "g \<in> set fs" "params_text fs tgt = '', '' @ field_name g @ CHR ''='' # v @ r"
        "auth_name_ok (field_name g)" "3 \<le> length v"
      using params_text_first [OF some params table(3)] by blast
    have "apart n (field_name g)" "3 \<le> length (v @ r)" using g(1,4) table(2) by (auto simp: list_all_iff)
    note absent = absent_param [OF Cons.prems(5) g(3) this, of "[]"]
    have "auth_round fs (put None h) (gap' @ drop 2 (params_text fs tgt)) ok' []
        = Some (Inl (OSIP_SUCCESS, put_params fs tgt (put None h)), [])"
      if "set gap' \<subseteq> {c. is_auth_sep c}" for gap' ok'
      by (rule Cons.IH [OF table(3) params unset(2) some that])
    note rest = this [OF Cons.prems(5), of ok] this [of "[]" True]
    show ?thesis
      using rest absent None unset(1) unfolding same by (cases gap) (simp_all add: f g(2) Let_def)
  next
    case (Some v)
    then have vok: "auth_value_ok q v" using Cons.prems(2) by (simp add: params_ok_def f)
    have shape: "params_text (f # fs) tgt = '', '' @ n @ CHR ''='' # v @ params_text fs tgt" using Some by (simp add: f)
    let ?r = "params_text fs tgt"
    let ?next = "if ?r = [] then None else Some ((if q then '', '' else []) @ drop 2 ?r)"
    have "(if q then osip_quoted_string_set n (gap @ n @ CHR ''='' # v @ ?r) None []
        else osip_token_set n (gap @ n @ CHR ''='' # v @ ?r) None []) = Some ((OSIP_SUCCESS, Some v, ?next), [])"
    proof (cases "?r = []")
      case True
      then show ?thesis
        using vok quoted_param [OF Cons.prems(5) table(1), of v "[]"]
          token_param [OF Cons.prems(5) table(1), of v "[]"] by (auto simp: auth_value_ok_def starts_with_def)
    next
      case False
      obtain g w r where g: "g \<in> set fs" "?r = '', '' @ field_name g @ CHR ''='' # w @ r" "auth_name_ok (field_name g)"
        using params_text_first [OF False params table(3)] by blast
      show ?thesis
        using vok quoted_param [OF Cons.prems(5) table(1), of v ?r]
          token_param [OF Cons.prems(5) table(1), of v ?r] params_text_starts [of fs tgt]
          next_element_blank [OF g(3)]
        by (simp add: auth_value_ok_def g(2) next_element_comma)
    qed
    note step = this
    have arg: "gap @ drop 2 (params_text (f # fs) tgt) = gap @ n @ CHR ''='' # v @ ?r" by (simp add: shape)
    note round = auth_round.simps(2) [of q n get put fs h "gap @ n @ CHR ''='' # v @ ?r" ok "[]",
        unfolded unset(1) step bind.bind_lunit prod.case Let_def]
    show ?thesis
    proof (cases "?r = []")
      case True
      have "put_params fs tgt (put (Some v) h) = put (Some v) h"
        by (rule put_no_params [OF True table(3) unset(2)])
      then show ?thesis unfolding arg unfolding f round using True Some by simp
    next
      case False
      have "auth_round fs (put (Some v) h) (gap' @ drop 2 ?r) ok' [] = Some (Inl (OSIP_SUCCESS, put_params fs tgt (put (Some v) h)), [])"
        if "set gap' \<subseteq> {c. is_auth_sep c}" for gap' ok'
        by (rule Cons.IH [OF table(3) params unset(2) False that])
      note rest = this [of "if q then '', '' else []"]
      have "set (if q then '', '' else []) \<subseteq> {c. is_auth_sep c}" by (auto simp: is_auth_sep_def)
      note rest = rest [OF this]
      show ?thesis unfolding arg unfolding f round using False rest [of ok] rest [of True] Some
        by (cases q) (simp_all, (intro impI, simp)+)
    qed
  qed
qed simp

lemma auth_loop_text:
  assumes "table_ok fs" "params_ok fs tgt" "\<forall>f \<in> set fs. field_get f h = None" "params_text fs tgt \<noteq> []"
    "set gap \<subseteq> {c. is_auth_sep c}"
  shows "auth_loop fs h (gap @ drop 2 (params_text fs tgt)) [] = Some ((OSIP_SUCCESS, put_params fs tgt h), [])"
  using auth_round_text [OF assms, of False] by (simp add: auth_loop.simps)

section \<open>The headers\<close>

text \<open>The printer's table and the parser's have the same names in the same order.\<close>

definition www_wf :: "osip_www_authenticate \<Rightarrow> bool" where
  "www_wf h \<longleftrightarrow> params_ok www_fields h \<and> params_text www_fields h \<noteq> [] \<and> www_auth_param h = None
    \<and> (case www_auth_type h of None \<Rightarrow> False | Some t \<Rightarrow> t \<noteq> [] \<and> CHR '' '' \<notin> set t)"

definition www_text :: "osip_www_authenticate \<Rightarrow> string" where
  "www_text h = the (www_auth_type h) @ (if www_realm h = None then ''  '' else '' '') @ drop 2 (params_text www_fields h)"

definition auth_wf :: "osip_authorization \<Rightarrow> bool" where
  "auth_wf h \<longleftrightarrow> params_ok authorization_fields h \<and> params_text authorization_fields h \<noteq> [] \<and> auth_param h = None
    \<and> (case auth_type h of None \<Rightarrow> False | Some t \<Rightarrow> t \<noteq> [] \<and> CHR '' '' \<notin> set t)"

definition auth_text :: "osip_authorization \<Rightarrow> string" where
  "auth_text h = the (auth_type h) @ '' '' @ drop 2 (params_text authorization_fields h)"

lemma www_table: "table_ok www_fields"
proof -
  have "names_ok [''realm'', ''domain'', ''nonce'', ''opaque'', ''stale'', ''algorithm'', ''qop'', ''version'',
      ''targetname'', ''gssapi-data'']" by code_simp
  then show ?thesis by (simp add: table_ok_def www_fields_def)
qed

lemma authorization_table: "table_ok authorization_fields"
proof -
  have "names_ok [''username'', ''realm'', ''nonce'', ''uri'', ''response'', ''digest'', ''algorithm'', ''cnonce'',
      ''opaque'', ''qop'', ''nc'', ''version'', ''targetname'', ''gssapi-data'', ''crand'', ''cnum'']" by code_simp
  then show ?thesis by (simp add: table_ok_def authorization_fields_def)
qed

definition fields_text :: "string \<Rightarrow> (string \<times> cstr) list \<Rightarrow> string" where
  "fields_text sep fs = concat (map (\<lambda>(n, v). case v of None \<Rightarrow> [] | Some v \<Rightarrow> sep @ n @ v) fs)"

lemma fields_text_simps [simp]:
  "fields_text sep [] = []"
  "fields_text sep ((n, v) # fs) = (case v of None \<Rightarrow> fields_text sep fs | Some v \<Rightarrow> sep @ n @ v @ fields_text sep fs)"
  by (simp_all add: fields_text_def split: option.split)

lemma put_fields_text: "put_fields len (\<lambda>_. sep) buf fs = Some t \<Longrightarrow> t = buf @ fields_text sep fs"
proof (induction fs arbitrary: buf)
  case (Cons f fs)
  obtain n v where f: "f = (n, v)" by (cases f)
  show ?case
    using Cons.prems Cons.IH [of buf] Cons.IH [of "buf @ sep @ n @ the v"]
    by (cases v) (auto simp: f sprintf_at_def split: if_splits bind_splits)
qed simp

text \<open>The separator of the first field is left out.\<close>

lemma put_fields_first_text:
  assumes "put_fields len (\<lambda>b. if length b = length buf then [] else sep) buf fs = Some t" "sep \<noteq> []" "list_all (\<lambda>f. fst f \<noteq> []) fs"
  shows "t = buf @ drop (length sep) (fields_text sep fs)"
proof -
  have behind: "put_fields len (\<lambda>b. if length b = length buf then [] else sep) b fs = put_fields len (\<lambda>_. sep) b fs"
    if "length buf < length b" for b fs
    using that by (induction fs arbitrary: b) (auto simp: sprintf_at_def split: option.split bind_splits)
  show ?thesis
    using assms(1,3)
  proof (induction fs)
    case (Cons f fs)
    obtain n v where f: "f = (n, v)" "n \<noteq> []" using Cons.prems(2) by (cases f) auto
    show ?case
    proof (cases v)
      case (Some w)
      have "length buf < length (buf @ n @ w)" using f(2) by simp
      note behind [OF this, of fs]
      then show ?thesis
        using Cons.prems(1) put_fields_text [of len sep "buf @ n @ w" fs t] Some
        by (auto simp: f sprintf_at_def split: if_splits bind_splits)
    qed (use Cons f in simp)
  qed simp
qed

lemma params_text_split: "params_text fs h \<noteq> [] \<Longrightarrow> params_text fs h = CHR '','' # CHR '' '' # drop 2 (params_text fs h)"
  by (induction fs) (auto simp: params_text_Cons split: option.splits)

lemma set_gap: "set '' '' \<subseteq> {c. is_auth_sep c}" "set ''  '' \<subseteq> {c. is_auth_sep c}"
  by (simp_all add: is_auth_sep_def)

lemma type_end: "CHR '' '' \<notin> set t \<Longrightarrow> strchr (t @ CHR '' '' # r) CHR '' '' = Some (CHR '' '' # r)"
  by (simp add: strchr_append_notin)

lemma www_fields_text: "fields_text [] (www_texts h)
    = (case www_realm h of None \<Rightarrow> params_text www_fields h
       | Some _ \<Rightarrow> CHR '' '' # drop 2 (params_text www_fields h))"
  by (simp add: www_texts_def www_fields_def split: option.split del: drop_eq_Nil)

lemma params_text_fields:
  "params_text fs h = fields_text '','' (map (\<lambda>(q, n, get, put). ('' '' @ n @ ''='', get h)) fs)"
  by (induction fs) (auto simp: params_text_Cons split: option.split)

lemma authorization_fields_text: "fields_text '','' (authorization_texts h) = params_text authorization_fields h"
proof -
  have "authorization_texts h = map (\<lambda>(q, n, get, put). ('' '' @ n @ ''='', get h)) authorization_fields"
    by (simp add: authorization_texts_def authorization_fields_def)
  then show ?thesis by (simp only: params_text_fields)
qed

interpretation www_codec: header_codec osip_www_authenticate_to_str
  "with_value osip_www_authenticate_parse osip_www_authenticate_init" www_wf www_text
proof unfold_locales
  fix h :: osip_www_authenticate and m :: mem
  assume wf: "www_wf h"
  then obtain t where t: "www_auth_type h = Some t" "t \<noteq> []" "CHR '' '' \<notin> set t" "params_ok www_fields h"
      "params_text www_fields h \<noteq> []" "www_auth_param h = None"
    by (auto simp: www_wf_def split: option.splits)
  note split = params_text_split [OF t(5)]
  show "\<exists>m'. osip_www_authenticate_to_str (Some h) m = Some ((OSIP_SUCCESS, Some (www_text h)), m') \<and> never_fails m'"
    if m: "never_fails m"
  proof -
    obtain m1 where m1: "osip_malloc m = (True, m1)" "never_fails m1" using osip_malloc_never_fails [OF m] by blast
    have buf: "sprintf_at (www_length h t) [] t = Some t" using www_counts [of t h] by (simp add: sprintf_at_def)
    have "put_fields (www_length h t) (\<lambda>_. []) t (www_texts h) \<noteq> None"
      by (rule put_fields_fit [of _ 0]) (use www_counts [of t h] in simp_all)
    then have dest: "put_fields (www_length h t) (\<lambda>_. []) t (www_texts h) = Some (t @ fields_text [] (www_texts h))"
      using put_fields_text by fastforce
    obtain x where x: "params_text www_fields h = CHR '','' # CHR '' '' # x" using split by blast
    have "(if www_realm h = None \<and> cur (drop (length t) (t @ fields_text [] (www_texts h))) = CHR '',''
        then (t @ fields_text [] (www_texts h))[length t := CHR '' ''] else t @ fields_text [] (www_texts h)) = www_text h"
      using t(1) by (cases "www_realm h") (simp_all add: www_fields_text www_text_def list_update_append x)
    then show ?thesis
      using m1 buf dest t(1) by (simp add: osip_www_authenticate_to_str_def alloc_or_def Let_def)
  qed
  let ?gap = "if www_realm h = None then ''  '' else '' ''"
  let ?space = "?gap @ drop 2 (params_text www_fields h)"
  have unset: "\<forall>f \<in> set www_fields. field_get f (osip_www_authenticate_init\<lparr>www_auth_type := Some t\<rparr>) = None"
    by (simp add: www_fields_def osip_www_authenticate_init_def)
  have gap: "set ?gap \<subseteq> {c. is_auth_sep c}" using set_gap by simp
  have loop: "auth_loop www_fields (osip_www_authenticate_init\<lparr>www_auth_type := Some t\<rparr>) ?space []
      = Some ((OSIP_SUCCESS, put_params www_fields h (osip_www_authenticate_init\<lparr>www_auth_type := Some t\<rparr>)), [])"
    by (rule auth_loop_text [OF www_table t(4) unset t(5) gap])
  have same: "put_params www_fields h (osip_www_authenticate_init\<lparr>www_auth_type := Some t\<rparr>) = h"
    using t(1,6) by (cases h) (simp add: www_fields_def osip_www_authenticate_init_def)
  have "strchr (www_text h) CHR '' '' = Some ?space"
    using type_end [OF t(3)] t(1) by (simp add: www_text_def)
  then show "with_value osip_www_authenticate_parse osip_www_authenticate_init (Some (www_text h)) [] = Some ((OSIP_SUCCESS, h), [])"
    using loop [unfolded same] t(1,2)
    by (simp add: with_value_def osip_www_authenticate_parse_def alloc_or_def osip_strncpy_def www_text_def ptr_diff_def)
qed

interpretation auth_codec: header_codec osip_authorization_to_str
  "with_value osip_authorization_parse osip_authorization_init" auth_wf auth_text
proof unfold_locales
  fix h :: osip_authorization and m :: mem
  assume wf: "auth_wf h"
  then obtain t where t: "auth_type h = Some t" "t \<noteq> []" "CHR '' '' \<notin> set t" "params_ok authorization_fields h"
      "params_text authorization_fields h \<noteq> []" "auth_param h = None"
    by (auto simp: auth_wf_def split: option.splits)
  obtain x where x: "params_text authorization_fields h = CHR '','' # CHR '' '' # x"
    using params_text_split [OF t(5)] by blast
  show "\<exists>m'. osip_authorization_to_str (Some h) m = Some ((OSIP_SUCCESS, Some (auth_text h)), m') \<and> never_fails m'"
    if m: "never_fails m"
  proof -
    let ?sep = "\<lambda>b. if length b = length t then [] else '',''"
    obtain m1 where m1: "osip_malloc m = (True, m1)" "never_fails m1" using osip_malloc_never_fails [OF m] by blast
    have buf: "sprintf_at (authorization_length h t) [] t = Some t"
      by (simp add: sprintf_at_def authorization_length_def)
    have "put_fields (authorization_length h t) ?sep t (authorization_texts h) \<noteq> None"
      by (rule put_fields_fit_first [of _ 1]) (use authorization_counts [of t h] in simp_all)
    then obtain d where d: "put_fields (authorization_length h t) ?sep t (authorization_texts h) = Some d" by blast
    have "list_all (\<lambda>f. fst f \<noteq> []) (authorization_texts h)" by (simp add: authorization_texts_def)
    then have "d = auth_text h"
      using put_fields_first_text [OF d] t(1) by (simp add: authorization_fields_text x auth_text_def)
    then show ?thesis
      using m1 buf d t(1) by (simp add: osip_authorization_to_str_def alloc_or_def Let_def)
  qed
  let ?new = "osip_authorization_init\<lparr>auth_type := Some t\<rparr>"
  let ?space = "'' '' @ drop 2 (params_text authorization_fields h)"
  have unset: "\<forall>f \<in> set authorization_fields. field_get f ?new = None"
    by (simp add: authorization_fields_def osip_authorization_init_def)
  have loop: "auth_loop authorization_fields ?new ?space [] = Some ((OSIP_SUCCESS, put_params authorization_fields h ?new), [])"
    by (rule auth_loop_text [OF authorization_table t(4) unset t(5) set_gap(1)])
  have same: "put_params authorization_fields h ?new = h"
    using t(1,6) by (cases h) (simp add: authorization_fields_def osip_authorization_init_def)
  have "strchr (auth_text h) CHR '' '' = Some ?space"
    using type_end [OF t(3)] t(1) by (simp add: auth_text_def)
  then show "with_value osip_authorization_parse osip_authorization_init (Some (auth_text h)) [] = Some ((OSIP_SUCCESS, h), [])"
    using loop [unfolded same] t(1,2)
    by (simp add: with_value_def osip_authorization_parse_def alloc_or_def osip_strncpy_def auth_text_def ptr_diff_def)
qed

end
