(* ===== verification/Message_Fields.thy ===== *)
theory Message_Fields
  imports Message_Text Simple_Codec Auth_Codec
begin

text \<open>
  Where a row of the printer's table meets a setter of the parser's: the locales \<open>list_field\<close>, for
  a header that may be there several times, and \<open>once_field\<close>, and their interpretations on the
  headers of a message.
\<close>

section \<open>The interface\<close>

text \<open>The text of a header that fits on a line of its own.\<close>

definition on_line :: "string \<Rightarrow> string \<Rightarrow> bool" where
  "on_line hname t \<longleftrightarrow> t \<noteq> [] \<and> tight t \<and> line_wf (hname, t)"

lemma reads_on_line:
  assumes "on_line hname t"
    and "osip_message_set__header s (Some (map tolower hname)) (Some t) [] = Some ((OSIP_SUCCESS, s'), [])"
  shows "reads [(hname, t)] s s'"
  using assms by (intro reads_line) (simp_all add: on_line_def)

locale list_field = header_codec to_str parse wf text_of
  for to_str :: "'h printer" and parse :: "'h parser" and wf :: "'h \<Rightarrow> bool" and text_of :: "'h \<Rightarrow> string" +
  fixes hname :: string
    and get :: "sip_message \<Rightarrow> 'h list"
    and put :: "'h list \<Rightarrow> sip_message \<Rightarrow> sip_message"
  assumes get_put: "get (put hs s) = hs"
    and put_put: "put hs (put ks s) = put hs s"
    and put_get: "put (get s) s = s"
    and property_put: "message_property (put hs s) = message_property s"
    and set_header: "parse (Some v) [] = Some ((OSIP_SUCCESS, h), []) \<Longrightarrow> v \<noteq> [] \<Longrightarrow> message_property s = 2
      \<Longrightarrow> osip_message_set__header s (Some (map tolower hname)) (Some v) [] = Some ((OSIP_SUCCESS, put (get s @ [h]) s), [])"
begin

definition field_wf :: "'h \<Rightarrow> bool" where
  "field_wf h \<longleftrightarrow> wf h \<and> on_line hname (text_of h)"

definition field_lines :: "'h list \<Rightarrow> line list" where
  "field_lines hs = map (\<lambda>h. (hname, text_of h)) hs"

lemma row_writes:
  assumes "list_all field_wf (get s)"
  shows "writes (field_lines (get s)) (list_row (hname @ '': '') to_str get s)"
proof -
  have "writes (map (\<lambda>h. (hname, text_of h)) (get s)) (strcat_headers_one_per_line (hname @ '': '') to_str (get s))"
    by (rule strcat_headers_one_per_line_ok) (use assms to_str_ok in \<open>auto simp: list_all_iff field_wf_def\<close>)
  then show ?thesis by (simp add: field_lines_def list_row_def [abs_def])
qed

lemma field_lines_wf: "list_all field_wf hs \<Longrightarrow> list_all line_wf (field_lines hs)"
  by (auto simp: list_all_iff field_lines_def field_wf_def on_line_def)

lemma lines_read:
  assumes "list_all field_wf hs" "message_property s = 2"
  shows "reads (field_lines hs) s (put (get s @ hs) s)"
  using assms
proof (induction hs arbitrary: s)
  case Nil
  then show ?case by (simp add: field_lines_def put_get reads_Nil)
next
  case (Cons h hs)
  have hs: "field_wf h" "list_all field_wf hs" using Cons.prems(1) by simp_all
  then have h: "wf h" "on_line hname (text_of h)" by (simp_all add: field_wf_def)
  have "text_of h \<noteq> []" using h(2) by (simp add: on_line_def)
  note set = set_header [OF parse_text [OF h(1)] this Cons.prems(2)]
  have "reads [(hname, text_of h)] s (put (get s @ [h]) s)" by (rule reads_on_line [OF h(2) set])
  moreover have "reads (field_lines hs) (put (get s @ [h]) s) (put (get s @ h # hs) s)"
    using Cons.IH [OF hs(2), of "put (get s @ [h]) s"] Cons.prems(2) by (simp add: property_put get_put put_put)
  ultimately show ?case
    using reads_append [of "[(hname, text_of h)]" s _ "field_lines hs"] field_lines_wf [OF hs(2)] by (simp add: field_lines_def)
qed

end

locale once_field = header_codec to_str parse wf text_of
  for to_str :: "'h printer" and parse :: "'h parser" and wf :: "'h \<Rightarrow> bool" and text_of :: "'h \<Rightarrow> string" +
  fixes hname :: string
    and get :: "sip_message \<Rightarrow> 'h option"
    and put :: "'h option \<Rightarrow> sip_message \<Rightarrow> sip_message"
  assumes put_get: "put (get s) s = s"
    and property_put: "message_property (put x s) = message_property s"
    and set_header: "parse (Some v) [] = Some ((OSIP_SUCCESS, h), []) \<Longrightarrow> v \<noteq> [] \<Longrightarrow> message_property s = 2 \<Longrightarrow> get s = None
      \<Longrightarrow> osip_message_set__header s (Some (map tolower hname)) (Some v) [] = Some ((OSIP_SUCCESS, put (Some h) s), [])"
begin

definition field_wf :: "'h option \<Rightarrow> bool" where
  "field_wf h \<longleftrightarrow> (case h of None \<Rightarrow> True | Some h \<Rightarrow> wf h \<and> on_line hname (text_of h))"

definition field_lines :: "'h option \<Rightarrow> line list" where
  "field_lines h = (case h of None \<Rightarrow> [] | Some h \<Rightarrow> [(hname, text_of h)])"

lemma row_writes:
  assumes "field_wf (get s)"
  shows "writes (field_lines (get s)) (data_row (hname @ '': '') to_str get s)"
proof (cases "get s")
  case None
  then show ?thesis by (simp add: writes_def field_lines_def data_row_def strcat_simple_header_def)
next
  case (Some h)
  then have "wf h" using assms by (simp add: field_wf_def)
  have "writes [(hname, text_of h)] (strcat_simple_header (hname @ '': '') to_str (Some h))"
    by (rule strcat_simple_header_ok) (use to_str_ok \<open>wf h\<close> in blast)
  then have row: "writes [(hname, text_of h)] (data_row (hname @ '': '') to_str get s)"
    unfolding writes_def data_row_def Some
    by (elim all_forward imp_forward exE conjE) (auto intro!: exI)
  show ?thesis using row by (simp add: field_lines_def Some)
qed

lemma field_lines_wf: "field_wf h \<Longrightarrow> list_all line_wf (field_lines h)"
  by (cases h) (simp_all add: field_lines_def field_wf_def on_line_def)

lemma lines_read:
  assumes "field_wf h" "message_property s = 2" "get s = None"
  shows "reads (field_lines h) s (put h s)"
proof (cases h)
  case None
  then show ?thesis using put_get [of s] assms(3) by (simp add: field_lines_def reads_Nil)
next
  case (Some x)
  then have x: "wf x" "on_line hname (text_of x)" using assms(1) by (simp_all add: field_wf_def)
  then have "text_of x \<noteq> []" by (simp add: on_line_def)
  note set = set_header [OF parse_text [OF x(1)] this assms(2,3)]
  show ?thesis using reads_on_line [OF x(2) set] Some by (simp add: field_lines_def)
qed

end

section \<open>Setters\<close>

lemma known_header:
  assumes "osip_message_is_known_header n = int i" "i < length pconfig" "snd (snd (pconfig ! i)) = f"
    and "f s v m = Some ((OSIP_SUCCESS, s'), m')"
  shows "osip_message_set__header s (Some n) v m = Some ((OSIP_SUCCESS, s'), m')"
  using assms by (cases "pconfig ! i") (simp add: osip_message_set__header_def osip_message_call_method_def)

lemma property_2: "message_property s = 2 \<Longrightarrow> s\<lparr>message_property := 2\<rparr> = s"
  by (cases s) simp

lemma add_parsed_ok:
  assumes "parse h0 (Some v) [] = Some ((OSIP_SUCCESS, h), [])" "message_property s = 2"
  shows "add_parsed h0 parse get put s (Some v) [] = Some ((OSIP_SUCCESS, put (get s @ [h]) s), [])"
  using assms by (simp add: add_parsed_def alloc_or_def list_add_def property_2)

lemma set_list_header:
  assumes "osip_message_is_known_header n = int i" "i < length pconfig"
    "snd (snd (pconfig ! i)) \<in> {set_in_list h0 parse get put, add_parsed h0 parse get put}"
    and "parse h0 (Some v) [] = Some ((OSIP_SUCCESS, h), [])" "v \<noteq> []" "message_property s = 2"
  shows "osip_message_set__header s (Some n) (Some v) [] = Some ((OSIP_SUCCESS, put (get s @ [h]) s), [])"
  using assms(3,5) add_parsed_ok [where get = get and put = put and parse = parse, OF assms(4,6)]
  by (intro known_header [OF assms(1,2) refl]) (auto simp: set_in_list_def)

lemma set_once_header:
  assumes "osip_message_is_known_header n = int i" "i < length pconfig"
    "snd (snd (pconfig ! i)) = set_once e h0 parse get put"
    and "parse h0 (Some v) [] = Some ((OSIP_SUCCESS, h), [])" "v \<noteq> []" "message_property s = 2" "get s = None"
  shows "osip_message_set__header s (Some n) (Some v) [] = Some ((OSIP_SUCCESS, put (Some h) s), [])"
  by (rule known_header [OF assms(1-3)])
    (use assms(4-7) in \<open>simp add: set_once_def set_parsed_def alloc_or_def property_2\<close>)

lemma lower_names:
  "map tolower ''Via'' = ''via''" "map tolower ''Record-Route'' = ''record-route''" "map tolower ''Route'' = ''route''"
  "map tolower ''From'' = ''from''" "map tolower ''To'' = ''to''" "map tolower ''Call-ID'' = ''call-id''"
  "map tolower ''CSeq'' = ''cseq''" "map tolower ''Contact'' = ''contact''" "map tolower ''Content-Type'' = ''content-type''"
  "map tolower ''Mime-Version'' = ''mime-version''" "map tolower ''Allow'' = ''allow''"
  "map tolower ''Content-Encoding'' = ''content-encoding''" "map tolower ''Accept'' = ''accept''"
  "map tolower ''Accept-Encoding'' = ''accept-encoding''" "map tolower ''Accept-Language'' = ''accept-language''"
  "map tolower ''Content-Length'' = ''content-length''"
  "map tolower ''Call-Info'' = ''call-info''" "map tolower ''Alert-Info'' = ''alert-info''" "map tolower ''Error-Info'' = ''error-info''"
  "map tolower ''WWW-Authenticate'' = ''www-authenticate''" "map tolower ''Proxy-Authenticate'' = ''proxy-authenticate''"
  "map tolower ''Authorization'' = ''authorization''" "map tolower ''Proxy-Authorization'' = ''proxy-authorization''"
  by code_simp+

lemmas known_headers = osip_message_is_known_header_searches pconfig_names pconfig_def

section \<open>The headers of the transaction layer\<close>

interpretation via_field: list_field osip_via_to_str "osip_via_parse osip_via_init" via_wf via_text
  "''Via''" vias "\<lambda>hs s. s\<lparr>vias := hs\<rparr>"
proof unfold_locales
  show "osip_message_set__header s (Some (map tolower ''Via'')) (Some v) []
      = Some ((OSIP_SUCCESS, s\<lparr>vias := vias s @ [h]\<rparr>), [])"
    if "osip_via_parse osip_via_init (Some v) [] = Some ((OSIP_SUCCESS, h), [])" "v \<noteq> []" "message_property s = 2" for v h s
    unfolding lower_names
    by (rule set_list_header [where i = 31 and parse = osip_via_parse and ?h0.0 = osip_via_init])
      (use that in \<open>simp_all add: known_headers osip_message_set_via_def\<close>)
qed simp_all

interpretation record_route_field: list_field osip_record_route_to_str "osip_record_route_parse osip_from_init" from_wf from_text
  "''Record-Route''" record_routes "\<lambda>hs s. s\<lparr>record_routes := hs\<rparr>"
proof unfold_locales
  show "osip_message_set__header s (Some (map tolower ''Record-Route'')) (Some v) []
      = Some ((OSIP_SUCCESS, s\<lparr>record_routes := record_routes s @ [h]\<rparr>), [])"
    if "osip_record_route_parse osip_from_init (Some v) [] = Some ((OSIP_SUCCESS, h), [])" "v \<noteq> []" "message_property s = 2" for v h s
    unfolding lower_names
    by (rule set_list_header [where i = 26 and parse = osip_record_route_parse and ?h0.0 = osip_from_init])
      (use that in \<open>simp_all add: known_headers osip_message_set_record_route_def\<close>)
qed simp_all

interpretation route_field: list_field osip_route_to_str "osip_route_parse osip_from_init" from_wf from_text
  "''Route''" routes "\<lambda>hs s. s\<lparr>routes := hs\<rparr>"
proof unfold_locales
  show "osip_message_set__header s (Some (map tolower ''Route'')) (Some v) []
      = Some ((OSIP_SUCCESS, s\<lparr>routes := routes s @ [h]\<rparr>), [])"
    if "osip_route_parse osip_from_init (Some v) [] = Some ((OSIP_SUCCESS, h), [])" "v \<noteq> []" "message_property s = 2" for v h s
    unfolding lower_names
    by (rule set_list_header [where i = 27 and parse = osip_route_parse and ?h0.0 = osip_from_init])
      (use that in \<open>simp_all add: known_headers osip_message_set_route_def\<close>)
qed simp_all

interpretation contact_field: list_field osip_contact_to_str "osip_contact_parse osip_from_init" contact_wf from_text
  "''Contact''" contacts "\<lambda>hs s. s\<lparr>contacts := hs\<rparr>"
proof unfold_locales
  show "osip_message_set__header s (Some (map tolower ''Contact'')) (Some v) []
      = Some ((OSIP_SUCCESS, s\<lparr>contacts := contacts s @ [h]\<rparr>), [])"
    if "osip_contact_parse osip_from_init (Some v) [] = Some ((OSIP_SUCCESS, h), [])" "v \<noteq> []" "message_property s = 2" for v h s
    unfolding lower_names
    by (rule set_list_header [where i = 10 and parse = osip_contact_parse and ?h0.0 = osip_from_init])
      (use that in \<open>simp_all add: known_headers osip_message_set_contact_def\<close>)
qed simp_all

interpretation from_field: once_field osip_from_to_str
  "osip_from_parse osip_from_init" from_wf from_text
  "''From''" msg_from "\<lambda>h s. s\<lparr>msg_from := h\<rparr>"
proof unfold_locales
  show "osip_message_set__header s (Some (map tolower ''From'')) (Some v) []
      = Some ((OSIP_SUCCESS, s\<lparr>msg_from := Some h\<rparr>), [])"
    if "(osip_from_parse osip_from_init) (Some v) [] = Some ((OSIP_SUCCESS, h), [])" "v \<noteq> []" "message_property s = 2" "msg_from s = None" for v h s
    unfolding lower_names
    by (rule set_once_header [where i = 18 and parse = osip_from_parse and ?h0.0 = osip_from_init and get = msg_from and e = OSIP_SYNTAXERROR])
      (use that in \<open>simp_all add: known_headers osip_message_set_from_def\<close>)
qed simp_all

interpretation to_field: once_field osip_to_to_str
  "osip_to_parse osip_from_init" from_wf from_text
  "''To''" msg_to "\<lambda>h s. s\<lparr>msg_to := h\<rparr>"
proof unfold_locales
  show "osip_message_set__header s (Some (map tolower ''To'')) (Some v) []
      = Some ((OSIP_SUCCESS, s\<lparr>msg_to := Some h\<rparr>), [])"
    if "(osip_to_parse osip_from_init) (Some v) [] = Some ((OSIP_SUCCESS, h), [])" "v \<noteq> []" "message_property s = 2" "msg_to s = None" for v h s
    unfolding lower_names
    by (rule set_once_header [where i = 29 and parse = osip_to_parse and ?h0.0 = osip_from_init and get = msg_to and e = OSIP_SYNTAXERROR])
      (use that in \<open>simp_all add: known_headers osip_message_set_to_def\<close>)
qed simp_all

interpretation callid_field: once_field osip_call_id_to_str
  "\<lambda>v m. do { s \<leftarrow> v; osip_call_id_parse osip_call_id_init s m }" callid_wf callid_text
  "''Call-ID''" call_id "\<lambda>h s. s\<lparr>call_id := h\<rparr>"
proof unfold_locales
  show "osip_message_set__header s (Some (map tolower ''Call-ID'')) (Some v) []
      = Some ((OSIP_SUCCESS, s\<lparr>call_id := Some h\<rparr>), [])"
    if "(\<lambda>v m. do { s \<leftarrow> v; osip_call_id_parse osip_call_id_init s m }) (Some v) [] = Some ((OSIP_SUCCESS, h), [])" "v \<noteq> []" "message_property s = 2" "call_id s = None" for v h s
    unfolding lower_names
    by (rule set_once_header [where i = 8 and parse = "with_value osip_call_id_parse" and ?h0.0 = osip_call_id_init and get = call_id and e = OSIP_SYNTAXERROR])
      (use that in \<open>simp_all add: known_headers osip_message_set_call_id_def with_value_def\<close>)
qed simp_all

lemma cseq_parsed:
  assumes "map_option (\<lambda>((i, c), m). ((i, the c), m)) (osip_cseq_parse (Some osip_cseq_init) (Some v) []) = Some ((OSIP_SUCCESS, h), [])"
  shows "cseq_parse_into osip_cseq_init (Some v) [] = Some ((OSIP_SUCCESS, h), [])"
  using assms cseq_parse_keeps [of osip_cseq_init "Some v" "[]"]
  by (auto simp: cseq_parse_into_def split: prod.splits option.splits bind_splits)

interpretation cseq_field: once_field osip_cseq_to_str
  "\<lambda>v m. map_option (\<lambda>((i, c), m). ((i, the c), m)) (osip_cseq_parse (Some osip_cseq_init) v m)" cseq_wf cseq_text
  "''CSeq''" cseq "\<lambda>h s. s\<lparr>cseq := h\<rparr>"
proof unfold_locales
  show "osip_message_set__header s (Some (map tolower ''CSeq'')) (Some v) []
      = Some ((OSIP_SUCCESS, s\<lparr>cseq := Some h\<rparr>), [])"
    if "(\<lambda>v m. map_option (\<lambda>((i, c), m). ((i, the c), m)) (osip_cseq_parse (Some osip_cseq_init) v m)) (Some v) [] = Some ((OSIP_SUCCESS, h), [])" "v \<noteq> []" "message_property s = 2" "cseq s = None" for v h s
    unfolding lower_names
    by (rule set_once_header [where i = 14 and parse = cseq_parse_into and ?h0.0 = osip_cseq_init and get = cseq and e = OSIP_BADPARAMETER])
      (use that cseq_parsed in \<open>simp_all add: known_headers osip_message_set_cseq_def\<close>)
qed simp_all

section \<open>The other headers\<close>

interpretation printed_text: header_codec content_length_to_str
  "osip_content_length_parse osip_content_length_init" text_wf text_text
  unfolding content_length_to_str_def [abs_def] by (rule text_codec.header_codec_axioms)

interpretation allow_field: list_field content_length_to_str "osip_content_length_parse osip_content_length_init" text_wf text_text
  "''Allow''" allows "\<lambda>hs s. s\<lparr>allows := hs\<rparr>"
proof unfold_locales
  show "osip_message_set__header s (Some (map tolower ''Allow'')) (Some v) []
      = Some ((OSIP_SUCCESS, s\<lparr>allows := allows s @ [h]\<rparr>), [])"
    if "osip_content_length_parse osip_content_length_init (Some v) [] = Some ((OSIP_SUCCESS, h), [])" "v \<noteq> []" "message_property s = 2" for v h s
    unfolding lower_names
    by (rule set_list_header [where i = 4 and parse = osip_content_length_parse and ?h0.0 = osip_content_length_init])
      (use that in \<open>simp_all add: known_headers osip_message_set_allow_def\<close>)
qed simp_all

interpretation content_encoding_field: list_field content_length_to_str "osip_content_length_parse osip_content_length_init" text_wf text_text
  "''Content-Encoding''" content_encodings "\<lambda>hs s. s\<lparr>content_encodings := hs\<rparr>"
proof unfold_locales
  show "osip_message_set__header s (Some (map tolower ''Content-Encoding'')) (Some v) []
      = Some ((OSIP_SUCCESS, s\<lparr>content_encodings := content_encodings s @ [h]\<rparr>), [])"
    if "osip_content_length_parse osip_content_length_init (Some v) [] = Some ((OSIP_SUCCESS, h), [])" "v \<noteq> []" "message_property s = 2" for v h s
    unfolding lower_names
    by (rule set_list_header [where i = 11 and parse = osip_content_length_parse and ?h0.0 = osip_content_length_init])
      (use that in \<open>simp_all add: known_headers osip_message_set_content_encoding_def\<close>)
qed simp_all

interpretation accept_field: list_field osip_accept_to_str "osip_content_type_parse osip_content_type_init" media_wf media_text
  "''Accept''" accepts "\<lambda>hs s. s\<lparr>accepts := hs\<rparr>"
proof unfold_locales
  show "osip_message_set__header s (Some (map tolower ''Accept'')) (Some v) []
      = Some ((OSIP_SUCCESS, s\<lparr>accepts := accepts s @ [h]\<rparr>), [])"
    if "osip_content_type_parse osip_content_type_init (Some v) [] = Some ((OSIP_SUCCESS, h), [])" "v \<noteq> []" "message_property s = 2" for v h s
    unfolding lower_names
    by (rule set_list_header [where i = 0 and parse = osip_content_type_parse and ?h0.0 = osip_content_type_init])
      (use that in \<open>simp_all add: known_headers osip_message_set_accept_def\<close>)
qed simp_all

interpretation accept_encoding_field: list_field osip_accept_encoding_to_str "osip_accept_encoding_parse osip_accept_encoding_init" element_wf element_text
  "''Accept-Encoding''" accept_encodings "\<lambda>hs s. s\<lparr>accept_encodings := hs\<rparr>"
proof unfold_locales
  show "osip_message_set__header s (Some (map tolower ''Accept-Encoding'')) (Some v) []
      = Some ((OSIP_SUCCESS, s\<lparr>accept_encodings := accept_encodings s @ [h]\<rparr>), [])"
    if "osip_accept_encoding_parse osip_accept_encoding_init (Some v) [] = Some ((OSIP_SUCCESS, h), [])" "v \<noteq> []" "message_property s = 2" for v h s
    unfolding lower_names
    by (rule set_list_header [where i = 1 and parse = osip_accept_encoding_parse and ?h0.0 = osip_accept_encoding_init])
      (use that in \<open>simp_all add: known_headers osip_message_set_accept_encoding_def\<close>)
qed simp_all

interpretation accept_language_field: list_field osip_accept_encoding_to_str "osip_accept_encoding_parse osip_accept_encoding_init" element_wf element_text
  "''Accept-Language''" accept_languages "\<lambda>hs s. s\<lparr>accept_languages := hs\<rparr>"
proof unfold_locales
  show "osip_message_set__header s (Some (map tolower ''Accept-Language'')) (Some v) []
      = Some ((OSIP_SUCCESS, s\<lparr>accept_languages := accept_languages s @ [h]\<rparr>), [])"
    if "osip_accept_encoding_parse osip_accept_encoding_init (Some v) [] = Some ((OSIP_SUCCESS, h), [])" "v \<noteq> []" "message_property s = 2" for v h s
    unfolding lower_names
    by (rule set_list_header [where i = 2 and parse = osip_accept_encoding_parse and ?h0.0 = osip_accept_encoding_init])
      (use that in \<open>simp_all add: known_headers osip_message_set_accept_language_def\<close>)
qed simp_all

interpretation call_info_field: list_field osip_call_info_to_str "osip_call_info_parse osip_accept_encoding_init" bracketed_wf element_text
  "''Call-Info''" call_infos "\<lambda>hs s. s\<lparr>call_infos := hs\<rparr>"
proof unfold_locales
  show "osip_message_set__header s (Some (map tolower ''Call-Info'')) (Some v) []
      = Some ((OSIP_SUCCESS, s\<lparr>call_infos := call_infos s @ [h]\<rparr>), [])"
    if "osip_call_info_parse osip_accept_encoding_init (Some v) [] = Some ((OSIP_SUCCESS, h), [])" "v \<noteq> []" "message_property s = 2" for v h s
    unfolding lower_names
    by (rule set_list_header [where i = 9 and parse = osip_call_info_parse and ?h0.0 = osip_accept_encoding_init])
      (use that in \<open>simp_all add: known_headers osip_message_set_call_info_def\<close>)
qed simp_all

interpretation alert_info_field: list_field osip_call_info_to_str "osip_call_info_parse osip_accept_encoding_init" bracketed_wf element_text
  "''Alert-Info''" alert_infos "\<lambda>hs s. s\<lparr>alert_infos := hs\<rparr>"
proof unfold_locales
  show "osip_message_set__header s (Some (map tolower ''Alert-Info'')) (Some v) []
      = Some ((OSIP_SUCCESS, s\<lparr>alert_infos := alert_infos s @ [h]\<rparr>), [])"
    if "osip_call_info_parse osip_accept_encoding_init (Some v) [] = Some ((OSIP_SUCCESS, h), [])" "v \<noteq> []" "message_property s = 2" for v h s
    unfolding lower_names
    by (rule set_list_header [where i = 3 and parse = osip_call_info_parse and ?h0.0 = osip_accept_encoding_init])
      (use that in \<open>simp_all add: known_headers osip_message_set_alert_info_def\<close>)
qed simp_all

interpretation error_info_field: list_field osip_call_info_to_str "osip_call_info_parse osip_accept_encoding_init" bracketed_wf element_text
  "''Error-Info''" error_infos "\<lambda>hs s. s\<lparr>error_infos := hs\<rparr>"
proof unfold_locales
  show "osip_message_set__header s (Some (map tolower ''Error-Info'')) (Some v) []
      = Some ((OSIP_SUCCESS, s\<lparr>error_infos := error_infos s @ [h]\<rparr>), [])"
    if "osip_call_info_parse osip_accept_encoding_init (Some v) [] = Some ((OSIP_SUCCESS, h), [])" "v \<noteq> []" "message_property s = 2" for v h s
    unfolding lower_names
    by (rule set_list_header [where i = 16 and parse = osip_call_info_parse and ?h0.0 = osip_accept_encoding_init])
      (use that in \<open>simp_all add: known_headers osip_message_set_error_info_def\<close>)
qed simp_all

interpretation mime_version_field: once_field content_length_to_str
  "osip_content_length_parse osip_content_length_init" text_wf text_text
  "''Mime-Version''" mime_version "\<lambda>h s. s\<lparr>mime_version := h\<rparr>"
proof unfold_locales
  show "osip_message_set__header s (Some (map tolower ''Mime-Version'')) (Some v) []
      = Some ((OSIP_SUCCESS, s\<lparr>mime_version := Some h\<rparr>), [])"
    if "osip_content_length_parse osip_content_length_init (Some v) [] = Some ((OSIP_SUCCESS, h), [])" "v \<noteq> []"
      "message_property s = 2" "mime_version s = None" for v h s
    unfolding lower_names
    by (rule set_once_header [where i = 22 and parse = osip_content_length_parse and ?h0.0 = osip_content_length_init
          and get = mime_version and e = OSIP_SYNTAXERROR])
      (use that in \<open>simp_all add: known_headers osip_message_set_mime_version_def\<close>)
qed simp_all

interpretation content_type_field: once_field osip_content_type_to_str
  "osip_content_type_parse osip_content_type_init" media_wf media_text
  "''Content-Type''" content_type "\<lambda>h s. s\<lparr>content_type := h\<rparr>"
proof unfold_locales
  show "osip_message_set__header s (Some (map tolower ''Content-Type'')) (Some v) []
      = Some ((OSIP_SUCCESS, s\<lparr>content_type := Some h\<rparr>), [])"
    if "osip_content_type_parse osip_content_type_init (Some v) [] = Some ((OSIP_SUCCESS, h), [])" "v \<noteq> []"
      "message_property s = 2" "content_type s = None" for v h s
  proof -
    have "osip_message_set_content_type s (Some v) [] = Some ((OSIP_SUCCESS, s\<lparr>content_type := Some h\<rparr>), [])"
      using that by (simp add: osip_message_set_content_type_def set_parsed_def alloc_or_def property_2)
    then show ?thesis
      unfolding lower_names
      by (intro known_header [where i = 13 and f = osip_message_set_content_type]) (simp_all add: known_headers)
  qed
qed simp_all

section \<open>Challenges and credentials\<close>

interpretation authorization_field: list_field osip_authorization_to_str "with_value osip_authorization_parse osip_authorization_init" auth_wf auth_text
  "''Authorization''" authorizations "\<lambda>hs s. s\<lparr>authorizations := hs\<rparr>"
proof unfold_locales
  show "osip_message_set__header s (Some (map tolower ''Authorization'')) (Some v) []
      = Some ((OSIP_SUCCESS, s\<lparr>authorizations := authorizations s @ [h]\<rparr>), [])"
    if "with_value osip_authorization_parse osip_authorization_init (Some v) [] = Some ((OSIP_SUCCESS, h), [])" "v \<noteq> []" "message_property s = 2" for v h s
    unfolding lower_names
    by (rule set_list_header [where i = 6 and parse = "with_value osip_authorization_parse" and ?h0.0 = osip_authorization_init])
      (use that in \<open>simp_all add: known_headers osip_message_set_authorization_def\<close>)
qed simp_all

interpretation proxy_authorization_field: list_field osip_authorization_to_str "with_value osip_authorization_parse osip_authorization_init" auth_wf auth_text
  "''Proxy-Authorization''" proxy_authorizations "\<lambda>hs s. s\<lparr>proxy_authorizations := hs\<rparr>"
proof unfold_locales
  show "osip_message_set__header s (Some (map tolower ''Proxy-Authorization'')) (Some v) []
      = Some ((OSIP_SUCCESS, s\<lparr>proxy_authorizations := proxy_authorizations s @ [h]\<rparr>), [])"
    if "with_value osip_authorization_parse osip_authorization_init (Some v) [] = Some ((OSIP_SUCCESS, h), [])" "v \<noteq> []" "message_property s = 2" for v h s
    unfolding lower_names
    by (rule set_list_header [where i = 25 and parse = "with_value osip_authorization_parse" and ?h0.0 = osip_authorization_init])
      (use that in \<open>simp_all add: known_headers osip_message_set_proxy_authorization_def\<close>)
qed simp_all

interpretation www_authenticate_field: list_field osip_www_authenticate_to_str "with_value osip_www_authenticate_parse osip_www_authenticate_init" www_wf www_text
  "''WWW-Authenticate''" www_authenticates "\<lambda>hs s. s\<lparr>www_authenticates := hs\<rparr>"
proof unfold_locales
  show "osip_message_set__header s (Some (map tolower ''WWW-Authenticate'')) (Some v) []
      = Some ((OSIP_SUCCESS, s\<lparr>www_authenticates := www_authenticates s @ [h]\<rparr>), [])"
    if "with_value osip_www_authenticate_parse osip_www_authenticate_init (Some v) [] = Some ((OSIP_SUCCESS, h), [])" "v \<noteq> []" "message_property s = 2" for v h s
    unfolding lower_names
    by (rule set_list_header [where i = 32 and parse = "with_value osip_www_authenticate_parse" and ?h0.0 = osip_www_authenticate_init])
      (use that in \<open>simp_all add: known_headers osip_message_set_www_authenticate_def\<close>)
qed simp_all

interpretation proxy_authenticate_field: list_field osip_www_authenticate_to_str "with_value osip_www_authenticate_parse osip_www_authenticate_init" www_wf www_text
  "''Proxy-Authenticate''" proxy_authenticates "\<lambda>hs s. s\<lparr>proxy_authenticates := hs\<rparr>"
proof unfold_locales
  show "osip_message_set__header s (Some (map tolower ''Proxy-Authenticate'')) (Some v) []
      = Some ((OSIP_SUCCESS, s\<lparr>proxy_authenticates := proxy_authenticates s @ [h]\<rparr>), [])"
    if "with_value osip_www_authenticate_parse osip_www_authenticate_init (Some v) [] = Some ((OSIP_SUCCESS, h), [])" "v \<noteq> []" "message_property s = 2" for v h s
    unfolding lower_names
    by (rule set_list_header [where i = 23 and parse = "with_value osip_www_authenticate_parse" and ?h0.0 = osip_www_authenticate_init])
      (use that in \<open>simp_all add: known_headers osip_message_set_proxy_authenticate_def\<close>)
qed simp_all

end
