(* ===== verification/Message_Rows.thy ===== *)
theory Message_Rows
  imports Message_Fields
begin

text \<open>
  The lines of a whole message, field by field in the order of the printer's table, and the other
  headers behind them: they are what the printer writes, and reading them rebuilds the fields.
\<close>

section \<open>Headers without a field of their own\<close>

text \<open>The name is kept in lower case and printed with a capital.\<close>

definition other_wf :: "osip_header \<Rightarrow> bool" where
  "other_wf h \<longleftrightarrow> (case (h_name h, h_value h) of
     (Some n, Some v) \<Rightarrow> tight n \<and> n \<notin> set (map fst pconfig) \<and> map tolower (capital n) = n \<and> on_line (capital n) v
   | _ \<Rightarrow> False)"

definition other_line :: "osip_header \<Rightarrow> line" where
  "other_line h = (capital (the (h_name h)), the (h_value h))"

lemma other_wf_cases:
  assumes "other_wf h"
  obtains n v where "h = \<lparr>h_name = Some n, h_value = Some v\<rparr>" "n \<notin> set (map fst pconfig)" "n \<noteq> []" "tight n" "tight v" "v \<noteq> []"
    "map tolower (capital n) = n" "on_line (capital n) v"
proof -
  obtain n v where h: "h_name h = Some n" "h_value h = Some v" "tight n" "n \<notin> set (map fst pconfig)" "map tolower (capital n) = n"
      "on_line (capital n) v"
    using assms by (auto simp: other_wf_def split: option.splits)
  have tight: "tight (capital n)" "capital n \<noteq> []" "tight v" "v \<noteq> []"
    using h(6) by (simp_all add: on_line_def line_wf_def)
  have "n \<noteq> []" using tight(2) h(5) by auto
  then show thesis using that [of n v] h tight by (cases h) simp
qed

lemma capital_append: "n \<noteq> [] \<Longrightarrow> capital (n @ r) = capital n @ r"
  by (cases n) (simp_all add: capital_def)

lemma length_capital: "length (capital n) = length n"
  by (cases n) (simp_all add: capital_def)

lemma print_headers_ok:
  assumes "list_all other_wf hs"
  shows "writes (map other_line hs) (print_headers hs)"
  using assms
proof (induction hs)
  case (Cons h hs)
  have hwf: "other_wf h" using Cons.prems by simp
  have rest: "writes (map other_line hs) (print_headers hs)" using Cons by simp
  obtain n v where h: "h = \<lparr>h_name = Some n, h_value = Some v\<rparr>" "n \<noteq> []" using hwf by (rule other_wf_cases)
  let ?t = "capital n @ '': '' @ v"
  show ?case
    unfolding writes_def
  proof (intro allI impI)
    fix buf size m
    assume m: "never_fails m"
    obtain m1 where m1: "osip_malloc m = (True, m1)" "never_fails m1" using osip_malloc_never_fails [OF m] by blast
    have printed: "osip_header_to_str (Some h) m = Some ((OSIP_SUCCESS, Some ?t), m1)"
      using m1(1) capital_append [OF h(2), of "'': '' @ v"] by (simp add: osip_header_to_str_def h(1) alloc_or_def snprintf_at_def)
    obtain n2 m2 where r: "osip_message_realloc (Some buf, size) (length ?t + 3) m1 = ((True, Some buf, n2), m2)"
        "never_fails m2" "length buf + (length ?t + 3) + 100 \<le> n2"
      using osip_message_realloc_ok [OF m1(2)] by blast
    have a1: "append_out (Some buf, n2) ?t = Some (Some (buf @ ?t), n2)" using r(3) by (intro append_out_ok) simp
    have a2: "append_out (Some (buf @ ?t), n2) CRLF = Some (Some ((buf @ ?t) @ CRLF), n2)" using r(3) by (intro append_out_ok) simp
    have line: "(buf @ ?t) @ CRLF = buf @ lines_text [other_line h]" by (simp add: other_line_def line_text_def h(1))
    obtain n3 m3 where s: "print_headers hs (Some (buf @ lines_text [other_line h]), n2) m2
        = Some ((OSIP_SUCCESS, Some ((buf @ lines_text [other_line h]) @ lines_text (map other_line hs)), n3), m3)" "never_fails m3"
      using rest r(2) unfolding writes_def by blast
    have "print_headers (h # hs) (Some buf, size) m
        = Some ((OSIP_SUCCESS, Some ((buf @ lines_text [other_line h]) @ lines_text (map other_line hs)), n3), m3)"
      unfolding print_headers.simps printed bind.bind_lunit prod.case using a1 a2 [unfolded line] r(1) s(1) by simp
    then show "\<exists>n' m'. print_headers (h # hs) (Some buf, size) m
        = Some ((OSIP_SUCCESS, Some (buf @ lines_text (map other_line (h # hs))), n'), m') \<and> never_fails m'"
      using s(2) by simp
  qed
qed (simp add: writes_def)

lemma unknown_header:
  assumes "n \<notin> set (map fst pconfig)" "tight n" "tight v" "message_property s = 2"
  shows "osip_message_set__header s (Some n) (Some v) []
    = Some ((OSIP_SUCCESS, s\<lparr>headers := headers s @ [\<lparr>h_name = Some n, h_value = Some v\<rparr>]\<rparr>), [])"
proof -
  have "search_header n names i < 0" if "n \<notin> set names" for names i
    using that by (induction names arbitrary: i) auto
  then have unknown: "osip_message_is_known_header n < 0" using assms(1) by (simp add: osip_message_is_known_header_searches)
  have "osip_clrncpy (int (length w) + 1) (Some w) (int (length w)) = Some w" if "tight w" for w
    using osip_clrncpy_whole [OF that, of _ "[]"] by simp
  then show ?thesis
    using unknown assms by (simp add: osip_message_set__header_def osip_message_set_header_def new_header_def alloc_or_def list_add_def property_2)
qed

lemma other_lines_read:
  assumes "list_all other_wf hs" "message_property s = 2"
  shows "reads (map other_line hs) s (s\<lparr>headers := headers s @ hs\<rparr>)"
  using assms
proof (induction hs arbitrary: s)
  case (Cons h hs)
  have hwf: "other_wf h" using Cons.prems(1) by simp
  obtain n v where h: "h = \<lparr>h_name = Some n, h_value = Some v\<rparr>" "n \<notin> set (map fst pconfig)" "tight n" "tight v"
      "map tolower (capital n) = n" "on_line (capital n) v"
    using hwf by (rule other_wf_cases)
  note set = unknown_header [OF h(2-4) Cons.prems(2)]
  have one: "reads [other_line h] s (s\<lparr>headers := headers s @ [h]\<rparr>)"
    using reads_on_line [OF h(6), unfolded h(5), OF set] by (simp add: other_line_def h(1))
  have more: "reads (map other_line hs) (s\<lparr>headers := headers s @ [h]\<rparr>) (s\<lparr>headers := headers s @ h # hs\<rparr>)"
    using Cons.IH [of "s\<lparr>headers := headers s @ [h]\<rparr>"] Cons.prems by simp
  have "list_all line_wf (map other_line hs)"
    using Cons.prems(1) by (auto simp: list_all_iff other_line_def on_line_def elim!: other_wf_cases)
  then show ?case using reads_append [OF one more] by simp
qed (simp add: reads_Nil)

section \<open>The fields\<close>

definition routing_wf :: "sip_message \<Rightarrow> bool" where
  "routing_wf s \<longleftrightarrow> list_all via_field.field_wf (vias s)
    \<and> list_all record_route_field.field_wf (record_routes s)
    \<and> list_all route_field.field_wf (routes s)
    \<and> from_field.field_wf (msg_from s)
    \<and> to_field.field_wf (msg_to s)
    \<and> callid_field.field_wf (call_id s)
    \<and> cseq_field.field_wf (cseq s)
    \<and> list_all contact_field.field_wf (contacts s)"

definition routing_lines :: "sip_message \<Rightarrow> line list" where
  "routing_lines s = via_field.field_lines (vias s)
    @ record_route_field.field_lines (record_routes s)
    @ route_field.field_lines (routes s)
    @ from_field.field_lines (msg_from s)
    @ to_field.field_lines (msg_to s)
    @ callid_field.field_lines (call_id s)
    @ cseq_field.field_lines (cseq s)
    @ contact_field.field_lines (contacts s)"

definition auth_wf_lines :: "sip_message \<Rightarrow> bool" where
  "auth_wf_lines s \<longleftrightarrow> list_all authorization_field.field_wf (authorizations s)
    \<and> list_all www_authenticate_field.field_wf (www_authenticates s)
    \<and> list_all proxy_authenticate_field.field_wf (proxy_authenticates s)
    \<and> list_all proxy_authorization_field.field_wf (proxy_authorizations s)"

definition auth_lines :: "sip_message \<Rightarrow> line list" where
  "auth_lines s = authorization_field.field_lines (authorizations s)
    @ www_authenticate_field.field_lines (www_authenticates s)
    @ proxy_authenticate_field.field_lines (proxy_authenticates s)
    @ proxy_authorization_field.field_lines (proxy_authorizations s)"

definition content_wf :: "sip_message \<Rightarrow> bool" where
  "content_wf s \<longleftrightarrow> list_all call_info_field.field_wf (call_infos s)
    \<and> content_type_field.field_wf (content_type s)
    \<and> mime_version_field.field_wf (mime_version s)
    \<and> list_all allow_field.field_wf (allows s)
    \<and> list_all content_encoding_field.field_wf (content_encodings s)
    \<and> list_all alert_info_field.field_wf (alert_infos s)
    \<and> list_all error_info_field.field_wf (error_infos s)
    \<and> list_all accept_field.field_wf (accepts s)
    \<and> list_all accept_encoding_field.field_wf (accept_encodings s)
    \<and> list_all accept_language_field.field_wf (accept_languages s)"

definition content_lines :: "sip_message \<Rightarrow> line list" where
  "content_lines s = call_info_field.field_lines (call_infos s)
    @ content_type_field.field_lines (content_type s)
    @ mime_version_field.field_lines (mime_version s)
    @ allow_field.field_lines (allows s)
    @ content_encoding_field.field_lines (content_encodings s)
    @ alert_info_field.field_lines (alert_infos s)
    @ error_info_field.field_lines (error_infos s)
    @ accept_field.field_lines (accepts s)
    @ accept_encoding_field.field_lines (accept_encodings s)
    @ accept_language_field.field_lines (accept_languages s)"

lemma first_via:
  assumes "via_field.field_wf v"
  shows "reads (via_field.field_lines [v]) s (s\<lparr>message_property := 2, vias := vias s @ [v]\<rparr>)"
proof -
  have v: "via_wf v" "on_line ''Via'' (via_text v)" using assms by (simp_all add: via_field.field_wf_def)
  then have ne: "via_text v \<noteq> []" by (simp add: on_line_def)
  have "osip_message_set__header s (Some (map tolower ''Via'')) (Some (via_text v)) []
      = Some ((OSIP_SUCCESS, s\<lparr>message_property := 2, vias := vias s @ [v]\<rparr>), [])"
    unfolding lower_names
    by (rule known_header [where i = 31 and f = osip_message_set_via])
      (use via_codec.parse_text [OF v(1)] ne in
        \<open>simp_all add: known_headers osip_message_set_via_def set_in_list_def add_parsed_def alloc_or_def list_add_def\<close>)
  then show ?thesis unfolding via_field.field_lines_def by (simp add: reads_on_line [OF v(2)])
qed

lemma routing_lines_wf: "routing_wf s \<Longrightarrow> list_all line_wf (routing_lines s)"
  by (simp add: routing_wf_def routing_lines_def via_field.field_lines_wf
    record_route_field.field_lines_wf
    route_field.field_lines_wf
    from_field.field_lines_wf
    to_field.field_lines_wf
    callid_field.field_lines_wf
    cseq_field.field_lines_wf
    contact_field.field_lines_wf)

lemma auth_lines_wf: "auth_wf_lines s \<Longrightarrow> list_all line_wf (auth_lines s)"
  by (simp add: auth_wf_lines_def auth_lines_def authorization_field.field_lines_wf
    www_authenticate_field.field_lines_wf
    proxy_authenticate_field.field_lines_wf
    proxy_authorization_field.field_lines_wf)

lemma content_lines_wf: "content_wf s \<Longrightarrow> list_all line_wf (content_lines s)"
  by (simp add: content_wf_def content_lines_def call_info_field.field_lines_wf
    content_type_field.field_lines_wf
    mime_version_field.field_lines_wf
    allow_field.field_lines_wf
    content_encoding_field.field_lines_wf
    alert_info_field.field_lines_wf
    error_info_field.field_lines_wf
    accept_field.field_lines_wf
    accept_encoding_field.field_lines_wf
    accept_language_field.field_lines_wf)

lemma routing_lines_read:
  fixes s t :: sip_message
  assumes wf: "routing_wf s" and via: "vias s \<noteq> []"
    and via0: "vias t = []"
    and record_route0: "record_routes t = []"
    and route0: "routes t = []"
    and from0: "msg_from t = None"
    and to0: "msg_to t = None"
    and callid0: "call_id t = None"
    and cseq0: "cseq t = None"
    and contact0: "contacts t = []"
  shows "reads (routing_lines s) t (t\<lparr>message_property := 2, vias := vias s, record_routes := record_routes s, routes := routes s, msg_from := msg_from s, msg_to := msg_to s, call_id := call_id s, cseq := cseq s, contacts := contacts s\<rparr>)"
proof -
  obtain v vs where vs: "vias s = v # vs" using via by (cases "vias s") auto
  have v: "via_field.field_wf v" "list_all via_field.field_wf vs" using wf vs by (simp_all add: routing_wf_def)
  have "reads (via_field.field_lines vs) (t\<lparr>message_property := 2, vias := [v]\<rparr>) (t\<lparr>message_property := 2, vias := vias s\<rparr>)"
    using via_field.lines_read [OF v(2), of "t\<lparr>message_property := 2, vias := [v]\<rparr>"] vs by simp
  from reads_append [OF first_via [OF v(1), of t, unfolded via0 append_Nil] this via_field.field_lines_wf [OF v(2)]]
  have r0: "reads (via_field.field_lines (vias s)) t (t\<lparr>message_property := 2, vias := vias s\<rparr>)"
    by (simp add: via_field.field_lines_def vs)
  have w1: "list_all record_route_field.field_wf (record_routes s)" using wf by (simp add: routing_wf_def)
  have r1: "reads (record_route_field.field_lines (record_routes s)) (t\<lparr>message_property := 2, vias := vias s\<rparr>) (t\<lparr>message_property := 2, vias := vias s, record_routes := record_routes s\<rparr>)"
    using record_route_field.lines_read [OF w1, of "t\<lparr>message_property := 2, vias := vias s\<rparr>"] record_route0 by simp
  have w2: "list_all route_field.field_wf (routes s)" using wf by (simp add: routing_wf_def)
  have r2: "reads (route_field.field_lines (routes s)) (t\<lparr>message_property := 2, vias := vias s, record_routes := record_routes s\<rparr>) (t\<lparr>message_property := 2, vias := vias s, record_routes := record_routes s, routes := routes s\<rparr>)"
    using route_field.lines_read [OF w2, of "t\<lparr>message_property := 2, vias := vias s, record_routes := record_routes s\<rparr>"] route0 by simp
  have w3: "from_field.field_wf (msg_from s)" using wf by (simp add: routing_wf_def)
  have r3: "reads (from_field.field_lines (msg_from s)) (t\<lparr>message_property := 2, vias := vias s, record_routes := record_routes s, routes := routes s\<rparr>) (t\<lparr>message_property := 2, vias := vias s, record_routes := record_routes s, routes := routes s, msg_from := msg_from s\<rparr>)"
    using from_field.lines_read [OF w3, of "t\<lparr>message_property := 2, vias := vias s, record_routes := record_routes s, routes := routes s\<rparr>"] from0 by simp
  have w4: "to_field.field_wf (msg_to s)" using wf by (simp add: routing_wf_def)
  have r4: "reads (to_field.field_lines (msg_to s)) (t\<lparr>message_property := 2, vias := vias s, record_routes := record_routes s, routes := routes s, msg_from := msg_from s\<rparr>) (t\<lparr>message_property := 2, vias := vias s, record_routes := record_routes s, routes := routes s, msg_from := msg_from s, msg_to := msg_to s\<rparr>)"
    using to_field.lines_read [OF w4, of "t\<lparr>message_property := 2, vias := vias s, record_routes := record_routes s, routes := routes s, msg_from := msg_from s\<rparr>"] to0 by simp
  have w5: "callid_field.field_wf (call_id s)" using wf by (simp add: routing_wf_def)
  have r5: "reads (callid_field.field_lines (call_id s)) (t\<lparr>message_property := 2, vias := vias s, record_routes := record_routes s, routes := routes s, msg_from := msg_from s, msg_to := msg_to s\<rparr>) (t\<lparr>message_property := 2, vias := vias s, record_routes := record_routes s, routes := routes s, msg_from := msg_from s, msg_to := msg_to s, call_id := call_id s\<rparr>)"
    using callid_field.lines_read [OF w5, of "t\<lparr>message_property := 2, vias := vias s, record_routes := record_routes s, routes := routes s, msg_from := msg_from s, msg_to := msg_to s\<rparr>"] callid0 by simp
  have w6: "cseq_field.field_wf (cseq s)" using wf by (simp add: routing_wf_def)
  have r6: "reads (cseq_field.field_lines (cseq s)) (t\<lparr>message_property := 2, vias := vias s, record_routes := record_routes s, routes := routes s, msg_from := msg_from s, msg_to := msg_to s, call_id := call_id s\<rparr>) (t\<lparr>message_property := 2, vias := vias s, record_routes := record_routes s, routes := routes s, msg_from := msg_from s, msg_to := msg_to s, call_id := call_id s, cseq := cseq s\<rparr>)"
    using cseq_field.lines_read [OF w6, of "t\<lparr>message_property := 2, vias := vias s, record_routes := record_routes s, routes := routes s, msg_from := msg_from s, msg_to := msg_to s, call_id := call_id s\<rparr>"] cseq0 by simp
  have w7: "list_all contact_field.field_wf (contacts s)" using wf by (simp add: routing_wf_def)
  have r7: "reads (contact_field.field_lines (contacts s)) (t\<lparr>message_property := 2, vias := vias s, record_routes := record_routes s, routes := routes s, msg_from := msg_from s, msg_to := msg_to s, call_id := call_id s, cseq := cseq s\<rparr>) (t\<lparr>message_property := 2, vias := vias s, record_routes := record_routes s, routes := routes s, msg_from := msg_from s, msg_to := msg_to s, call_id := call_id s, cseq := cseq s, contacts := contacts s\<rparr>)"
    using contact_field.lines_read [OF w7, of "t\<lparr>message_property := 2, vias := vias s, record_routes := record_routes s, routes := routes s, msg_from := msg_from s, msg_to := msg_to s, call_id := call_id s, cseq := cseq s\<rparr>"] contact0 by simp
  have c6: "reads (cseq_field.field_lines (cseq s) @ contact_field.field_lines (contacts s)) (t\<lparr>message_property := 2, vias := vias s, record_routes := record_routes s, routes := routes s, msg_from := msg_from s, msg_to := msg_to s, call_id := call_id s\<rparr>) (t\<lparr>message_property := 2, vias := vias s, record_routes := record_routes s, routes := routes s, msg_from := msg_from s, msg_to := msg_to s, call_id := call_id s, cseq := cseq s, contacts := contacts s\<rparr>)"
    by (rule reads_append [OF r6 r7]) (simp add: contact_field.field_lines_wf [OF w7])
  have c5: "reads (callid_field.field_lines (call_id s) @ cseq_field.field_lines (cseq s) @ contact_field.field_lines (contacts s)) (t\<lparr>message_property := 2, vias := vias s, record_routes := record_routes s, routes := routes s, msg_from := msg_from s, msg_to := msg_to s\<rparr>) (t\<lparr>message_property := 2, vias := vias s, record_routes := record_routes s, routes := routes s, msg_from := msg_from s, msg_to := msg_to s, call_id := call_id s, cseq := cseq s, contacts := contacts s\<rparr>)"
    by (rule reads_append [OF r5 c6]) (simp add: cseq_field.field_lines_wf [OF w6] contact_field.field_lines_wf [OF w7])
  have c4: "reads (to_field.field_lines (msg_to s) @ callid_field.field_lines (call_id s) @ cseq_field.field_lines (cseq s) @ contact_field.field_lines (contacts s)) (t\<lparr>message_property := 2, vias := vias s, record_routes := record_routes s, routes := routes s, msg_from := msg_from s\<rparr>) (t\<lparr>message_property := 2, vias := vias s, record_routes := record_routes s, routes := routes s, msg_from := msg_from s, msg_to := msg_to s, call_id := call_id s, cseq := cseq s, contacts := contacts s\<rparr>)"
    by (rule reads_append [OF r4 c5]) (simp add: callid_field.field_lines_wf [OF w5] cseq_field.field_lines_wf [OF w6] contact_field.field_lines_wf [OF w7])
  have c3: "reads (from_field.field_lines (msg_from s) @ to_field.field_lines (msg_to s) @ callid_field.field_lines (call_id s) @ cseq_field.field_lines (cseq s) @ contact_field.field_lines (contacts s)) (t\<lparr>message_property := 2, vias := vias s, record_routes := record_routes s, routes := routes s\<rparr>) (t\<lparr>message_property := 2, vias := vias s, record_routes := record_routes s, routes := routes s, msg_from := msg_from s, msg_to := msg_to s, call_id := call_id s, cseq := cseq s, contacts := contacts s\<rparr>)"
    by (rule reads_append [OF r3 c4]) (simp add: to_field.field_lines_wf [OF w4] callid_field.field_lines_wf [OF w5] cseq_field.field_lines_wf [OF w6] contact_field.field_lines_wf [OF w7])
  have c2: "reads (route_field.field_lines (routes s) @ from_field.field_lines (msg_from s) @ to_field.field_lines (msg_to s) @ callid_field.field_lines (call_id s) @ cseq_field.field_lines (cseq s) @ contact_field.field_lines (contacts s)) (t\<lparr>message_property := 2, vias := vias s, record_routes := record_routes s\<rparr>) (t\<lparr>message_property := 2, vias := vias s, record_routes := record_routes s, routes := routes s, msg_from := msg_from s, msg_to := msg_to s, call_id := call_id s, cseq := cseq s, contacts := contacts s\<rparr>)"
    by (rule reads_append [OF r2 c3]) (simp add: from_field.field_lines_wf [OF w3] to_field.field_lines_wf [OF w4] callid_field.field_lines_wf [OF w5] cseq_field.field_lines_wf [OF w6] contact_field.field_lines_wf [OF w7])
  have c1: "reads (record_route_field.field_lines (record_routes s) @ route_field.field_lines (routes s) @ from_field.field_lines (msg_from s) @ to_field.field_lines (msg_to s) @ callid_field.field_lines (call_id s) @ cseq_field.field_lines (cseq s) @ contact_field.field_lines (contacts s)) (t\<lparr>message_property := 2, vias := vias s\<rparr>) (t\<lparr>message_property := 2, vias := vias s, record_routes := record_routes s, routes := routes s, msg_from := msg_from s, msg_to := msg_to s, call_id := call_id s, cseq := cseq s, contacts := contacts s\<rparr>)"
    by (rule reads_append [OF r1 c2]) (simp add: route_field.field_lines_wf [OF w2] from_field.field_lines_wf [OF w3] to_field.field_lines_wf [OF w4] callid_field.field_lines_wf [OF w5] cseq_field.field_lines_wf [OF w6] contact_field.field_lines_wf [OF w7])
  have c0: "reads (via_field.field_lines (vias s) @ record_route_field.field_lines (record_routes s) @ route_field.field_lines (routes s) @ from_field.field_lines (msg_from s) @ to_field.field_lines (msg_to s) @ callid_field.field_lines (call_id s) @ cseq_field.field_lines (cseq s) @ contact_field.field_lines (contacts s)) (t) (t\<lparr>message_property := 2, vias := vias s, record_routes := record_routes s, routes := routes s, msg_from := msg_from s, msg_to := msg_to s, call_id := call_id s, cseq := cseq s, contacts := contacts s\<rparr>)"
    by (rule reads_append [OF r0 c1]) (simp add: record_route_field.field_lines_wf [OF w1] route_field.field_lines_wf [OF w2] from_field.field_lines_wf [OF w3] to_field.field_lines_wf [OF w4] callid_field.field_lines_wf [OF w5] cseq_field.field_lines_wf [OF w6] contact_field.field_lines_wf [OF w7])
  show ?thesis using c0 by (simp add: routing_lines_def)
qed

lemma auth_lines_read:
  fixes s t :: sip_message
  assumes wf: "auth_wf_lines s" and start: "message_property t = 2"
    and authorization0: "authorizations t = []"
    and www_authenticate0: "www_authenticates t = []"
    and proxy_authenticate0: "proxy_authenticates t = []"
    and proxy_authorization0: "proxy_authorizations t = []"
  shows "reads (auth_lines s) t (t\<lparr>authorizations := authorizations s, www_authenticates := www_authenticates s, proxy_authenticates := proxy_authenticates s, proxy_authorizations := proxy_authorizations s\<rparr>)"
proof -
  have w0: "list_all authorization_field.field_wf (authorizations s)" using wf by (simp add: auth_wf_lines_def)
  have r0: "reads (authorization_field.field_lines (authorizations s)) (t) (t\<lparr>authorizations := authorizations s\<rparr>)"
    using authorization_field.lines_read [OF w0, of "t"] authorization0 start by simp
  have w1: "list_all www_authenticate_field.field_wf (www_authenticates s)" using wf by (simp add: auth_wf_lines_def)
  have r1: "reads (www_authenticate_field.field_lines (www_authenticates s)) (t\<lparr>authorizations := authorizations s\<rparr>) (t\<lparr>authorizations := authorizations s, www_authenticates := www_authenticates s\<rparr>)"
    using www_authenticate_field.lines_read [OF w1, of "t\<lparr>authorizations := authorizations s\<rparr>"] www_authenticate0 start by simp
  have w2: "list_all proxy_authenticate_field.field_wf (proxy_authenticates s)" using wf by (simp add: auth_wf_lines_def)
  have r2: "reads (proxy_authenticate_field.field_lines (proxy_authenticates s)) (t\<lparr>authorizations := authorizations s, www_authenticates := www_authenticates s\<rparr>) (t\<lparr>authorizations := authorizations s, www_authenticates := www_authenticates s, proxy_authenticates := proxy_authenticates s\<rparr>)"
    using proxy_authenticate_field.lines_read [OF w2, of "t\<lparr>authorizations := authorizations s, www_authenticates := www_authenticates s\<rparr>"] proxy_authenticate0 start by simp
  have w3: "list_all proxy_authorization_field.field_wf (proxy_authorizations s)" using wf by (simp add: auth_wf_lines_def)
  have r3: "reads (proxy_authorization_field.field_lines (proxy_authorizations s)) (t\<lparr>authorizations := authorizations s, www_authenticates := www_authenticates s, proxy_authenticates := proxy_authenticates s\<rparr>) (t\<lparr>authorizations := authorizations s, www_authenticates := www_authenticates s, proxy_authenticates := proxy_authenticates s, proxy_authorizations := proxy_authorizations s\<rparr>)"
    using proxy_authorization_field.lines_read [OF w3, of "t\<lparr>authorizations := authorizations s, www_authenticates := www_authenticates s, proxy_authenticates := proxy_authenticates s\<rparr>"] proxy_authorization0 start by simp
  have c2: "reads (proxy_authenticate_field.field_lines (proxy_authenticates s) @ proxy_authorization_field.field_lines (proxy_authorizations s)) (t\<lparr>authorizations := authorizations s, www_authenticates := www_authenticates s\<rparr>) (t\<lparr>authorizations := authorizations s, www_authenticates := www_authenticates s, proxy_authenticates := proxy_authenticates s, proxy_authorizations := proxy_authorizations s\<rparr>)"
    by (rule reads_append [OF r2 r3]) (simp add: proxy_authorization_field.field_lines_wf [OF w3])
  have c1: "reads (www_authenticate_field.field_lines (www_authenticates s) @ proxy_authenticate_field.field_lines (proxy_authenticates s) @ proxy_authorization_field.field_lines (proxy_authorizations s)) (t\<lparr>authorizations := authorizations s\<rparr>) (t\<lparr>authorizations := authorizations s, www_authenticates := www_authenticates s, proxy_authenticates := proxy_authenticates s, proxy_authorizations := proxy_authorizations s\<rparr>)"
    by (rule reads_append [OF r1 c2]) (simp add: proxy_authenticate_field.field_lines_wf [OF w2] proxy_authorization_field.field_lines_wf [OF w3])
  have c0: "reads (authorization_field.field_lines (authorizations s) @ www_authenticate_field.field_lines (www_authenticates s) @ proxy_authenticate_field.field_lines (proxy_authenticates s) @ proxy_authorization_field.field_lines (proxy_authorizations s)) (t) (t\<lparr>authorizations := authorizations s, www_authenticates := www_authenticates s, proxy_authenticates := proxy_authenticates s, proxy_authorizations := proxy_authorizations s\<rparr>)"
    by (rule reads_append [OF r0 c1]) (simp add: www_authenticate_field.field_lines_wf [OF w1] proxy_authenticate_field.field_lines_wf [OF w2] proxy_authorization_field.field_lines_wf [OF w3])
  show ?thesis using c0 by (simp add: auth_lines_def)
qed

lemma content_lines_read:
  fixes s t :: sip_message
  assumes wf: "content_wf s" and start: "message_property t = 2"
    and call_info0: "call_infos t = []"
    and content_type0: "content_type t = None"
    and mime_version0: "mime_version t = None"
    and allow0: "allows t = []"
    and content_encoding0: "content_encodings t = []"
    and alert_info0: "alert_infos t = []"
    and error_info0: "error_infos t = []"
    and accept0: "accepts t = []"
    and accept_encoding0: "accept_encodings t = []"
    and accept_language0: "accept_languages t = []"
  shows "reads (content_lines s) t (t\<lparr>call_infos := call_infos s, content_type := content_type s, mime_version := mime_version s, allows := allows s, content_encodings := content_encodings s, alert_infos := alert_infos s, error_infos := error_infos s, accepts := accepts s, accept_encodings := accept_encodings s, accept_languages := accept_languages s\<rparr>)"
proof -
  have w0: "list_all call_info_field.field_wf (call_infos s)" using wf by (simp add: content_wf_def)
  have r0: "reads (call_info_field.field_lines (call_infos s)) (t) (t\<lparr>call_infos := call_infos s\<rparr>)"
    using call_info_field.lines_read [OF w0, of "t"] call_info0 start by simp
  have w1: "content_type_field.field_wf (content_type s)" using wf by (simp add: content_wf_def)
  have r1: "reads (content_type_field.field_lines (content_type s)) (t\<lparr>call_infos := call_infos s\<rparr>) (t\<lparr>call_infos := call_infos s, content_type := content_type s\<rparr>)"
    using content_type_field.lines_read [OF w1, of "t\<lparr>call_infos := call_infos s\<rparr>"] content_type0 start by simp
  have w2: "mime_version_field.field_wf (mime_version s)" using wf by (simp add: content_wf_def)
  have r2: "reads (mime_version_field.field_lines (mime_version s)) (t\<lparr>call_infos := call_infos s, content_type := content_type s\<rparr>) (t\<lparr>call_infos := call_infos s, content_type := content_type s, mime_version := mime_version s\<rparr>)"
    using mime_version_field.lines_read [OF w2, of "t\<lparr>call_infos := call_infos s, content_type := content_type s\<rparr>"] mime_version0 start by simp
  have w3: "list_all allow_field.field_wf (allows s)" using wf by (simp add: content_wf_def)
  have r3: "reads (allow_field.field_lines (allows s)) (t\<lparr>call_infos := call_infos s, content_type := content_type s, mime_version := mime_version s\<rparr>) (t\<lparr>call_infos := call_infos s, content_type := content_type s, mime_version := mime_version s, allows := allows s\<rparr>)"
    using allow_field.lines_read [OF w3, of "t\<lparr>call_infos := call_infos s, content_type := content_type s, mime_version := mime_version s\<rparr>"] allow0 start by simp
  have w4: "list_all content_encoding_field.field_wf (content_encodings s)" using wf by (simp add: content_wf_def)
  have r4: "reads (content_encoding_field.field_lines (content_encodings s)) (t\<lparr>call_infos := call_infos s, content_type := content_type s, mime_version := mime_version s, allows := allows s\<rparr>) (t\<lparr>call_infos := call_infos s, content_type := content_type s, mime_version := mime_version s, allows := allows s, content_encodings := content_encodings s\<rparr>)"
    using content_encoding_field.lines_read [OF w4, of "t\<lparr>call_infos := call_infos s, content_type := content_type s, mime_version := mime_version s, allows := allows s\<rparr>"] content_encoding0 start by simp
  have w5: "list_all alert_info_field.field_wf (alert_infos s)" using wf by (simp add: content_wf_def)
  have r5: "reads (alert_info_field.field_lines (alert_infos s)) (t\<lparr>call_infos := call_infos s, content_type := content_type s, mime_version := mime_version s, allows := allows s, content_encodings := content_encodings s\<rparr>) (t\<lparr>call_infos := call_infos s, content_type := content_type s, mime_version := mime_version s, allows := allows s, content_encodings := content_encodings s, alert_infos := alert_infos s\<rparr>)"
    using alert_info_field.lines_read [OF w5, of "t\<lparr>call_infos := call_infos s, content_type := content_type s, mime_version := mime_version s, allows := allows s, content_encodings := content_encodings s\<rparr>"] alert_info0 start by simp
  have w6: "list_all error_info_field.field_wf (error_infos s)" using wf by (simp add: content_wf_def)
  have r6: "reads (error_info_field.field_lines (error_infos s)) (t\<lparr>call_infos := call_infos s, content_type := content_type s, mime_version := mime_version s, allows := allows s, content_encodings := content_encodings s, alert_infos := alert_infos s\<rparr>) (t\<lparr>call_infos := call_infos s, content_type := content_type s, mime_version := mime_version s, allows := allows s, content_encodings := content_encodings s, alert_infos := alert_infos s, error_infos := error_infos s\<rparr>)"
    using error_info_field.lines_read [OF w6, of "t\<lparr>call_infos := call_infos s, content_type := content_type s, mime_version := mime_version s, allows := allows s, content_encodings := content_encodings s, alert_infos := alert_infos s\<rparr>"] error_info0 start by simp
  have w7: "list_all accept_field.field_wf (accepts s)" using wf by (simp add: content_wf_def)
  have r7: "reads (accept_field.field_lines (accepts s)) (t\<lparr>call_infos := call_infos s, content_type := content_type s, mime_version := mime_version s, allows := allows s, content_encodings := content_encodings s, alert_infos := alert_infos s, error_infos := error_infos s\<rparr>) (t\<lparr>call_infos := call_infos s, content_type := content_type s, mime_version := mime_version s, allows := allows s, content_encodings := content_encodings s, alert_infos := alert_infos s, error_infos := error_infos s, accepts := accepts s\<rparr>)"
    using accept_field.lines_read [OF w7, of "t\<lparr>call_infos := call_infos s, content_type := content_type s, mime_version := mime_version s, allows := allows s, content_encodings := content_encodings s, alert_infos := alert_infos s, error_infos := error_infos s\<rparr>"] accept0 start by simp
  have w8: "list_all accept_encoding_field.field_wf (accept_encodings s)" using wf by (simp add: content_wf_def)
  have r8: "reads (accept_encoding_field.field_lines (accept_encodings s)) (t\<lparr>call_infos := call_infos s, content_type := content_type s, mime_version := mime_version s, allows := allows s, content_encodings := content_encodings s, alert_infos := alert_infos s, error_infos := error_infos s, accepts := accepts s\<rparr>) (t\<lparr>call_infos := call_infos s, content_type := content_type s, mime_version := mime_version s, allows := allows s, content_encodings := content_encodings s, alert_infos := alert_infos s, error_infos := error_infos s, accepts := accepts s, accept_encodings := accept_encodings s\<rparr>)"
    using accept_encoding_field.lines_read [OF w8, of "t\<lparr>call_infos := call_infos s, content_type := content_type s, mime_version := mime_version s, allows := allows s, content_encodings := content_encodings s, alert_infos := alert_infos s, error_infos := error_infos s, accepts := accepts s\<rparr>"] accept_encoding0 start by simp
  have w9: "list_all accept_language_field.field_wf (accept_languages s)" using wf by (simp add: content_wf_def)
  have r9: "reads (accept_language_field.field_lines (accept_languages s)) (t\<lparr>call_infos := call_infos s, content_type := content_type s, mime_version := mime_version s, allows := allows s, content_encodings := content_encodings s, alert_infos := alert_infos s, error_infos := error_infos s, accepts := accepts s, accept_encodings := accept_encodings s\<rparr>) (t\<lparr>call_infos := call_infos s, content_type := content_type s, mime_version := mime_version s, allows := allows s, content_encodings := content_encodings s, alert_infos := alert_infos s, error_infos := error_infos s, accepts := accepts s, accept_encodings := accept_encodings s, accept_languages := accept_languages s\<rparr>)"
    using accept_language_field.lines_read [OF w9, of "t\<lparr>call_infos := call_infos s, content_type := content_type s, mime_version := mime_version s, allows := allows s, content_encodings := content_encodings s, alert_infos := alert_infos s, error_infos := error_infos s, accepts := accepts s, accept_encodings := accept_encodings s\<rparr>"] accept_language0 start by simp
  have c8: "reads (accept_encoding_field.field_lines (accept_encodings s) @ accept_language_field.field_lines (accept_languages s)) (t\<lparr>call_infos := call_infos s, content_type := content_type s, mime_version := mime_version s, allows := allows s, content_encodings := content_encodings s, alert_infos := alert_infos s, error_infos := error_infos s, accepts := accepts s\<rparr>) (t\<lparr>call_infos := call_infos s, content_type := content_type s, mime_version := mime_version s, allows := allows s, content_encodings := content_encodings s, alert_infos := alert_infos s, error_infos := error_infos s, accepts := accepts s, accept_encodings := accept_encodings s, accept_languages := accept_languages s\<rparr>)"
    by (rule reads_append [OF r8 r9]) (simp add: accept_language_field.field_lines_wf [OF w9])
  have c7: "reads (accept_field.field_lines (accepts s) @ accept_encoding_field.field_lines (accept_encodings s) @ accept_language_field.field_lines (accept_languages s)) (t\<lparr>call_infos := call_infos s, content_type := content_type s, mime_version := mime_version s, allows := allows s, content_encodings := content_encodings s, alert_infos := alert_infos s, error_infos := error_infos s\<rparr>) (t\<lparr>call_infos := call_infos s, content_type := content_type s, mime_version := mime_version s, allows := allows s, content_encodings := content_encodings s, alert_infos := alert_infos s, error_infos := error_infos s, accepts := accepts s, accept_encodings := accept_encodings s, accept_languages := accept_languages s\<rparr>)"
    by (rule reads_append [OF r7 c8]) (simp add: accept_encoding_field.field_lines_wf [OF w8] accept_language_field.field_lines_wf [OF w9])
  have c6: "reads (error_info_field.field_lines (error_infos s) @ accept_field.field_lines (accepts s) @ accept_encoding_field.field_lines (accept_encodings s) @ accept_language_field.field_lines (accept_languages s)) (t\<lparr>call_infos := call_infos s, content_type := content_type s, mime_version := mime_version s, allows := allows s, content_encodings := content_encodings s, alert_infos := alert_infos s\<rparr>) (t\<lparr>call_infos := call_infos s, content_type := content_type s, mime_version := mime_version s, allows := allows s, content_encodings := content_encodings s, alert_infos := alert_infos s, error_infos := error_infos s, accepts := accepts s, accept_encodings := accept_encodings s, accept_languages := accept_languages s\<rparr>)"
    by (rule reads_append [OF r6 c7]) (simp add: accept_field.field_lines_wf [OF w7] accept_encoding_field.field_lines_wf [OF w8] accept_language_field.field_lines_wf [OF w9])
  have c5: "reads (alert_info_field.field_lines (alert_infos s) @ error_info_field.field_lines (error_infos s) @ accept_field.field_lines (accepts s) @ accept_encoding_field.field_lines (accept_encodings s) @ accept_language_field.field_lines (accept_languages s)) (t\<lparr>call_infos := call_infos s, content_type := content_type s, mime_version := mime_version s, allows := allows s, content_encodings := content_encodings s\<rparr>) (t\<lparr>call_infos := call_infos s, content_type := content_type s, mime_version := mime_version s, allows := allows s, content_encodings := content_encodings s, alert_infos := alert_infos s, error_infos := error_infos s, accepts := accepts s, accept_encodings := accept_encodings s, accept_languages := accept_languages s\<rparr>)"
    by (rule reads_append [OF r5 c6]) (simp add: error_info_field.field_lines_wf [OF w6] accept_field.field_lines_wf [OF w7] accept_encoding_field.field_lines_wf [OF w8] accept_language_field.field_lines_wf [OF w9])
  have c4: "reads (content_encoding_field.field_lines (content_encodings s) @ alert_info_field.field_lines (alert_infos s) @ error_info_field.field_lines (error_infos s) @ accept_field.field_lines (accepts s) @ accept_encoding_field.field_lines (accept_encodings s) @ accept_language_field.field_lines (accept_languages s)) (t\<lparr>call_infos := call_infos s, content_type := content_type s, mime_version := mime_version s, allows := allows s\<rparr>) (t\<lparr>call_infos := call_infos s, content_type := content_type s, mime_version := mime_version s, allows := allows s, content_encodings := content_encodings s, alert_infos := alert_infos s, error_infos := error_infos s, accepts := accepts s, accept_encodings := accept_encodings s, accept_languages := accept_languages s\<rparr>)"
    by (rule reads_append [OF r4 c5]) (simp add: alert_info_field.field_lines_wf [OF w5] error_info_field.field_lines_wf [OF w6] accept_field.field_lines_wf [OF w7] accept_encoding_field.field_lines_wf [OF w8] accept_language_field.field_lines_wf [OF w9])
  have c3: "reads (allow_field.field_lines (allows s) @ content_encoding_field.field_lines (content_encodings s) @ alert_info_field.field_lines (alert_infos s) @ error_info_field.field_lines (error_infos s) @ accept_field.field_lines (accepts s) @ accept_encoding_field.field_lines (accept_encodings s) @ accept_language_field.field_lines (accept_languages s)) (t\<lparr>call_infos := call_infos s, content_type := content_type s, mime_version := mime_version s\<rparr>) (t\<lparr>call_infos := call_infos s, content_type := content_type s, mime_version := mime_version s, allows := allows s, content_encodings := content_encodings s, alert_infos := alert_infos s, error_infos := error_infos s, accepts := accepts s, accept_encodings := accept_encodings s, accept_languages := accept_languages s\<rparr>)"
    by (rule reads_append [OF r3 c4]) (simp add: content_encoding_field.field_lines_wf [OF w4] alert_info_field.field_lines_wf [OF w5] error_info_field.field_lines_wf [OF w6] accept_field.field_lines_wf [OF w7] accept_encoding_field.field_lines_wf [OF w8] accept_language_field.field_lines_wf [OF w9])
  have c2: "reads (mime_version_field.field_lines (mime_version s) @ allow_field.field_lines (allows s) @ content_encoding_field.field_lines (content_encodings s) @ alert_info_field.field_lines (alert_infos s) @ error_info_field.field_lines (error_infos s) @ accept_field.field_lines (accepts s) @ accept_encoding_field.field_lines (accept_encodings s) @ accept_language_field.field_lines (accept_languages s)) (t\<lparr>call_infos := call_infos s, content_type := content_type s\<rparr>) (t\<lparr>call_infos := call_infos s, content_type := content_type s, mime_version := mime_version s, allows := allows s, content_encodings := content_encodings s, alert_infos := alert_infos s, error_infos := error_infos s, accepts := accepts s, accept_encodings := accept_encodings s, accept_languages := accept_languages s\<rparr>)"
    by (rule reads_append [OF r2 c3]) (simp add: allow_field.field_lines_wf [OF w3] content_encoding_field.field_lines_wf [OF w4] alert_info_field.field_lines_wf [OF w5] error_info_field.field_lines_wf [OF w6] accept_field.field_lines_wf [OF w7] accept_encoding_field.field_lines_wf [OF w8] accept_language_field.field_lines_wf [OF w9])
  have c1: "reads (content_type_field.field_lines (content_type s) @ mime_version_field.field_lines (mime_version s) @ allow_field.field_lines (allows s) @ content_encoding_field.field_lines (content_encodings s) @ alert_info_field.field_lines (alert_infos s) @ error_info_field.field_lines (error_infos s) @ accept_field.field_lines (accepts s) @ accept_encoding_field.field_lines (accept_encodings s) @ accept_language_field.field_lines (accept_languages s)) (t\<lparr>call_infos := call_infos s\<rparr>) (t\<lparr>call_infos := call_infos s, content_type := content_type s, mime_version := mime_version s, allows := allows s, content_encodings := content_encodings s, alert_infos := alert_infos s, error_infos := error_infos s, accepts := accepts s, accept_encodings := accept_encodings s, accept_languages := accept_languages s\<rparr>)"
    by (rule reads_append [OF r1 c2]) (simp add: mime_version_field.field_lines_wf [OF w2] allow_field.field_lines_wf [OF w3] content_encoding_field.field_lines_wf [OF w4] alert_info_field.field_lines_wf [OF w5] error_info_field.field_lines_wf [OF w6] accept_field.field_lines_wf [OF w7] accept_encoding_field.field_lines_wf [OF w8] accept_language_field.field_lines_wf [OF w9])
  have c0: "reads (call_info_field.field_lines (call_infos s) @ content_type_field.field_lines (content_type s) @ mime_version_field.field_lines (mime_version s) @ allow_field.field_lines (allows s) @ content_encoding_field.field_lines (content_encodings s) @ alert_info_field.field_lines (alert_infos s) @ error_info_field.field_lines (error_infos s) @ accept_field.field_lines (accepts s) @ accept_encoding_field.field_lines (accept_encodings s) @ accept_language_field.field_lines (accept_languages s)) (t) (t\<lparr>call_infos := call_infos s, content_type := content_type s, mime_version := mime_version s, allows := allows s, content_encodings := content_encodings s, alert_infos := alert_infos s, error_infos := error_infos s, accepts := accepts s, accept_encodings := accept_encodings s, accept_languages := accept_languages s\<rparr>)"
    by (rule reads_append [OF r0 c1]) (simp add: content_type_field.field_lines_wf [OF w1] mime_version_field.field_lines_wf [OF w2] allow_field.field_lines_wf [OF w3] content_encoding_field.field_lines_wf [OF w4] alert_info_field.field_lines_wf [OF w5] error_info_field.field_lines_wf [OF w6] accept_field.field_lines_wf [OF w7] accept_encoding_field.field_lines_wf [OF w8] accept_language_field.field_lines_wf [OF w9])
  show ?thesis using c0 by (simp add: content_lines_def)
qed

section \<open>The table of the printer\<close>

definition message_lines :: "sip_message \<Rightarrow> line list" where
  "message_lines s = routing_lines s @ auth_lines s @ content_lines s @ map other_line (headers s)"

text \<open>
  The two lists of Authentication-Info are empty: their parameters are printed in another order
  than the one they are read in.
\<close>

definition fields_wf :: "sip_message \<Rightarrow> bool" where
  "fields_wf s \<longleftrightarrow> routing_wf s \<and> auth_wf_lines s \<and> content_wf s \<and> list_all other_wf (headers s) \<and> vias s \<noteq> []
    \<and> authentication_infos s = [] \<and> proxy_authentication_infos s = []"

lemma list_row_empty: "get s = [] \<Longrightarrow> writes [] (list_row hname to_str get s)"
  by (simp add: writes_def list_row_def)

lemmas all_rows_write = via_field.row_writes [simplified append.simps]
  record_route_field.row_writes [simplified append.simps]
  route_field.row_writes [simplified append.simps]
  from_field.row_writes [simplified append.simps]
  to_field.row_writes [simplified append.simps]
  callid_field.row_writes [simplified append.simps]
  cseq_field.row_writes [simplified append.simps]
  contact_field.row_writes [simplified append.simps]
  authorization_field.row_writes [simplified append.simps]
  www_authenticate_field.row_writes [simplified append.simps]
  proxy_authenticate_field.row_writes [simplified append.simps]
  proxy_authorization_field.row_writes [simplified append.simps]
  call_info_field.row_writes [simplified append.simps]
  content_type_field.row_writes [simplified append.simps]
  mime_version_field.row_writes [simplified append.simps]
  allow_field.row_writes [simplified append.simps]
  content_encoding_field.row_writes [simplified append.simps]
  alert_info_field.row_writes [simplified append.simps]
  error_info_field.row_writes [simplified append.simps]
  accept_field.row_writes [simplified append.simps]
  accept_encoding_field.row_writes [simplified append.simps]
  accept_language_field.row_writes [simplified append.simps]

lemma print_rows_ok:
  assumes "fields_wf s"
  shows "writes (routing_lines s @ auth_lines s @ content_lines s) (print_rows to_str_table s)"
proof -
  have wf: "routing_wf s" "auth_wf_lines s" "content_wf s" "authentication_infos s = []" "proxy_authentication_infos s = []"
    using assms by (simp_all add: fields_wf_def)
  have "writes (via_field.field_lines (vias s)
      @ record_route_field.field_lines (record_routes s)
      @ route_field.field_lines (routes s)
      @ from_field.field_lines (msg_from s)
      @ to_field.field_lines (msg_to s)
      @ callid_field.field_lines (call_id s)
      @ cseq_field.field_lines (cseq s)
      @ contact_field.field_lines (contacts s)
      @ authorization_field.field_lines (authorizations s)
      @ www_authenticate_field.field_lines (www_authenticates s)
      @ proxy_authenticate_field.field_lines (proxy_authenticates s)
      @ proxy_authorization_field.field_lines (proxy_authorizations s)
      @ call_info_field.field_lines (call_infos s)
      @ content_type_field.field_lines (content_type s)
      @ mime_version_field.field_lines (mime_version s)
      @ allow_field.field_lines (allows s)
      @ content_encoding_field.field_lines (content_encodings s)
      @ alert_info_field.field_lines (alert_infos s)
      @ error_info_field.field_lines (error_infos s)
      @ accept_field.field_lines (accepts s)
      @ accept_encoding_field.field_lines (accept_encodings s)
      @ accept_language_field.field_lines (accept_languages s) @ [] @ [] @ []) (print_rows to_str_table s)"
    unfolding to_str_table_def
    by (intro print_rows_Cons print_rows_Nil list_row_empty wf all_rows_write)
      (use wf(1-3) in \<open>simp_all add: routing_wf_def auth_wf_lines_def content_wf_def\<close>)
  then show ?thesis by (simp add: routing_lines_def auth_lines_def content_lines_def)
qed

end
