(* ===== verification/Message_Roundtrip.thy ===== *)
theory Message_Roundtrip
  imports Message_Rows
begin

text \<open>
  A whole message written by \<^verbatim>\<open>osip_message_to_str\<close> and read by \<^verbatim>\<open>osip_message_parse\<close>: start line,
  lines, the number of bytes of the body, and the body.
\<close>

section \<open>Numbers\<close>

lemma decimal_step: "decimal n = (if n < 10 then [] else decimal (n div 10)) @ [char_of (48 + n mod 10)]"
  by (rule decimal.simps)

lemma digit_char:
  assumes "d < 10"
  shows "is_c_digit (char_of (48 + d))" "(of_char (char_of (48 + d) :: char) :: int) = 48 + int d"
proof -
  have n: "(of_char (char_of (48 + d) :: char) :: nat) = 48 + d" using assms by simp
  then show "is_c_digit (char_of (48 + d))" using assms by (simp add: is_c_digit_def)
  show "(of_char (char_of (48 + d) :: char) :: int) = 48 + int d"
    using n by (metis of_nat_add of_nat_numeral of_nat_of_char)
qed

lemma decimal_digits: "list_all is_c_digit (decimal n)" and decimal_nonempty: "decimal n \<noteq> []"
proof -
  show "list_all is_c_digit (decimal n)"
    by (induction n rule: decimal.induct) (subst decimal_step, simp add: digit_char)
  show "decimal n \<noteq> []" by (subst decimal_step) simp
qed

lemma digits_value_snoc: "digits_value (ds @ [d]) = 10 * digits_value ds + (of_char d - 48)"
  by (simp add: digits_value_def)

lemma digits_value_decimal: "digits_value (decimal n) = int n"
proof (induction n rule: decimal.induct)
  case (1 n)
  have d: "(of_char (char_of (48 + n mod 10) :: char) :: int) = 48 + int (n mod 10)" by (rule digit_char) simp
  show ?case
  proof (cases "n < 10")
    case True
    then show ?thesis using d by (subst decimal_step) (simp add: digits_value_def)
  next
    case False
    have "int n = 10 * int (n div 10) + int (n mod 10)"
      by (metis mult.commute mult_div_mod_eq of_nat_add of_nat_mult of_nat_numeral)
    then show ?thesis using 1 False d by (subst decimal_step) (simp add: digits_value_snoc)
  qed
qed

lemma length_decimal: "n < 10 ^ k \<Longrightarrow> 0 < k \<Longrightarrow> length (decimal n) \<le> k"
proof (induction k arbitrary: n)
  case (Suc k)
  show ?case
  proof (cases "n < 10")
    case False
    then have "0 < k" using Suc.prems(1) by (cases k) auto
    then have "length (decimal (n div 10)) \<le> k"
      using Suc.IH [of "n div 10"] Suc.prems(1) by (simp add: less_mult_imp_div_less mult.commute)
    then show ?thesis by (subst decimal_step) simp
  qed (subst decimal_step, simp)
qed simp

lemma decimal_plain:
  assumes "c \<in> set (decimal n)"
  shows "\<not> is_c_space c" "\<not> is_blank c" "c \<notin> {CHR ''-'', CHR ''+'', CR, LF, NUL, CHR '',''}"
  using decimal_digits [of n] assms by (auto simp: list_all_iff is_c_digit_def is_c_space_def is_blank_def)

lemma osip_atoi_decimal:
  assumes "n < 2 ^ 31"
  shows "osip_atoi (decimal n) = int n"
proof -
  obtain c r where cr: "decimal n = c # r" using decimal_nonempty by (cases "decimal n") auto
  have c: "\<not> is_c_space c" "c \<noteq> CHR ''-''" "c \<noteq> CHR ''+''" using decimal_plain [of c n] cr by auto
  have tw: "takeWhile is_c_digit (c # r) = c # r"
    using decimal_digits [of n] unfolding cr by (simp only: takeWhile_eq_all_conv list_all_iff)
  have "dropWhile is_c_space (c # r) = c # r" using c(1) by simp
  then show ?thesis
    using c(2,3) assms digits_value_decimal [of n] unfolding osip_atoi_def cr by (simp del: takeWhile.simps add: tw)
qed

section \<open>The line with the length\<close>

definition padded :: "nat \<Rightarrow> string" where
  "padded n = replicate (5 - length (decimal n)) CHR '' '' @ decimal n"

lemma trim_padded: "trim (padded n) = decimal n"
proof -
  have "dropWhile is_blank (replicate k CHR '' '' @ s) = dropWhile is_blank s" for k s
    by (induction k) (simp_all add: is_blank_def)
  then have "trim (padded n) = trim (decimal n)" by (simp add: padded_def trim_def)
  also have "tight (decimal n)" using decimal_plain(2) [of _ n] decimal_nonempty [of n] by (simp add: tight_def)
  then have "trim (decimal n) = decimal n" by simp
  finally show ?thesis .
qed

definition length_line :: "sip_message \<Rightarrow> line" where
  "length_line s = (''Content-Length'', case bodies s of [] \<Rightarrow> ''0'' | b # _ \<Rightarrow> padded (b_length b))"

definition body_bytes :: "sip_message \<Rightarrow> string" where
  "body_bytes s = (case bodies s of [] \<Rightarrow> [] | b # _ \<Rightarrow> the (b_body b))"

text \<open>The field that the parser makes of this line.\<close>

definition length_field :: "sip_message \<Rightarrow> osip_content_length" where
  "length_field s = \<lparr>cl_value = Some (decimal (case bodies s of [] \<Rightarrow> 0 | b # _ \<Rightarrow> b_length b))\<rparr>"

lemma length_line_trim: "trim (snd (length_line s)) = the (cl_value (length_field s))"
proof (cases "bodies s")
  case Nil
  have "decimal 0 = ''0''" by code_simp
  then show ?thesis using Nil by (simp add: length_line_def length_field_def trim_def is_blank_def)
qed (simp add: length_line_def length_field_def trim_padded)

lemma length_line_wf: "line_wf (length_line s)"
proof -
  have pad: "one_line (padded n)" "CHR '','' \<notin> set (padded n)" for n
    using decimal_plain(3) [of _ n] by (auto simp: one_line_def padded_def)
  have "tight ''Content-Length''" "one_line ''Content-Length''" "CHR '':'' \<notin> set ''Content-Length''"
    by (simp_all add: tight_def is_blank_def one_line_def)
  then show ?thesis
    using pad by (simp add: length_line_def line_wf_def one_line_def split: list.split)
qed

lemma length_line_reads:
  assumes "message_property t = 2" "content_length t = None"
  shows "reads [length_line s] t (t\<lparr>content_length := Some (length_field s)\<rparr>)"
proof -
  obtain v where v: "cl_value (length_field s) = Some v" "v \<noteq> []" "length_field s = \<lparr>cl_value = Some v\<rparr>"
    using decimal_nonempty by (simp add: length_field_def)
  have parse: "osip_content_length_parse osip_content_length_init (Some v) [] = Some ((OSIP_SUCCESS, length_field s), [])"
    using text_codec.parse_text [of "length_field s"] v by (simp add: text_wf_def text_text_def)
  have set: "osip_message_set__header t (Some (map tolower ''Content-Length'')) (Some v) []
      = Some ((OSIP_SUCCESS, t\<lparr>content_length := Some (length_field s)\<rparr>), [])"
    unfolding lower_names
    by (rule set_once_header [where i = 12 and parse = osip_content_length_parse and ?h0.0 = osip_content_length_init
          and get = content_length and e = OSIP_SYNTAXERROR])
      (use parse v(2) assms in \<open>simp_all add: known_headers osip_message_set_content_length_def\<close>)
  obtain w where w: "length_line s = (''Content-Length'', w)" by (simp add: length_line_def)
  have "trim w = v" using length_line_trim [of s] v(1) w by simp
  then show ?thesis
    unfolding w by (intro reads_line) (use length_line_wf [of s] set w in \<open>simp_all only:\<close>)
qed

section \<open>No line continues another\<close>

lemma lws_step:
  assumes "\<not> folds (c # t)" "osip_util_replace_all_lws t = Some t"
  shows "osip_util_replace_all_lws (c # t) = Some (c # t)"
  using assms by (subst osip_util_replace_all_lws.simps) simp

lemma lws_end: "osip_util_replace_all_lws (CR # LF # CR # LF # r) = Some (CR # LF # CR # LF # r)"
  by (subst osip_util_replace_all_lws.simps) (simp add: ends_headers_def)

lemma lws_plain:
  assumes "one_line s" "osip_util_replace_all_lws t = Some t"
  shows "osip_util_replace_all_lws (s @ t) = Some (s @ t)"
  using assms(1)
proof (induction s)
  case (Cons c s)
  then have "\<not> folds (c # s @ t)" "one_line s" by (auto simp: folds_def one_line_def)
  then show ?case using lws_step Cons by simp
qed (simp add: assms(2))

lemma lws_crlf:
  assumes "\<not> is_sp_tab (cur r)" "osip_util_replace_all_lws r = Some r"
  shows "osip_util_replace_all_lws (CR # LF # r) = Some (CR # LF # r)"
proof -
  have lf: "osip_util_replace_all_lws (LF # r) = Some (LF # r)"
    by (rule lws_step [OF _ assms(2)]) (use assms(1) in \<open>simp add: folds_def\<close>)
  show ?thesis by (rule lws_step [OF _ lf]) (use assms(1) in \<open>simp add: folds_def is_sp_tab_def\<close>)
qed

lemma lws_lines:
  assumes "list_all line_wf ls" "ls \<noteq> []"
  shows "osip_util_replace_all_lws (lines_text ls @ CR # LF # r) = Some (lines_text ls @ CR # LF # r)"
  using assms
proof (induction ls)
  case (Cons l ls)
  have l: "one_line (fst l @ '': '' @ snd l)" using Cons.prems(1) by (cases l) (auto simp: line_wf_def one_line_def)
  have eq: "lines_text (l # ls) @ CR # LF # r = (fst l @ '': '' @ snd l) @ CR # LF # lines_text ls @ CR # LF # r"
    by (simp add: line_text_def)
  show ?case
  proof (cases "ls = []")
    case True
    then show ?thesis unfolding eq using lws_plain [OF l lws_end] by simp
  next
    case False
    have "\<not> is_sp_tab (cur (lines_text ls @ CR # LF # r))"
      by (rule lines_start) (use Cons.prems in \<open>simp_all add: is_sp_tab_def\<close>)
    moreover have "osip_util_replace_all_lws (lines_text ls @ CR # LF # r) = Some (lines_text ls @ CR # LF # r)"
      using Cons False by simp
    ultimately show ?thesis unfolding eq by (intro lws_plain [OF l] lws_crlf)
  qed
qed simp

section \<open>Writing\<close>

text \<open>
  A message that can be read back: a start line on one line, fields that are, and at most one body,
  with a media type that is not multipart.
\<close>

definition body_wf :: "sip_message \<Rightarrow> bool" where
  "body_wf s \<longleftrightarrow> (case bodies s of
     [] \<Rightarrow> True
   | [b] \<Rightarrow> b_headers b = [] \<and> b_content_type b = None
       \<and> (case b_body b of None \<Rightarrow> False | Some bytes \<Rightarrow> b_length b = length bytes \<and> bytes \<noteq> [] \<and> length bytes < 10 ^ 5)
       \<and> (case content_type s of None \<Rightarrow> False
          | Some ct \<Rightarrow> (case ct_type ct of None \<Rightarrow> False | Some t \<Rightarrow> \<not> osip_strcasecmp_eq t ''multipart'') \<and> ct_subtype ct \<noteq> None)
   | _ \<Rightarrow> False)"

definition message_wf :: "sip_message \<Rightarrow> bool" where
  "message_wf s \<longleftrightarrow> (request_line_wf s \<or> status_line_wf s) \<and> one_line (startline_text s) \<and> fields_wf s \<and> body_wf s"

definition head_text :: "sip_message \<Rightarrow> string" where
  "head_text s = startline_text s @ CRLF @ lines_text (message_lines s)"

definition message_text :: "sip_message \<Rightarrow> string" where
  "message_text s = head_text s @ line_text (length_line s) @ CRLF @ body_bytes s"

lemma message_lines_wf: "fields_wf s \<Longrightarrow> list_all line_wf (message_lines s)"
  using routing_lines_wf [of s] auth_lines_wf [of s] content_lines_wf [of s]
  by (auto simp: fields_wf_def message_lines_def list_all_iff other_line_def on_line_def elim!: other_wf_cases)

lemma print_head_ok:
  assumes "message_wf s" "never_fails m"
  shows "\<exists>n m'. print_head s False m = Some ((OSIP_SUCCESS, Some (head_text s), n), m') \<and> never_fails m'
    \<and> length (head_text s) + 116 \<le> n"
proof -
  have wf: "request_line_wf s \<or> status_line_wf s" "fields_wf s" "list_all other_wf (headers s)"
    using assms(1) by (simp_all add: message_wf_def fields_wf_def)
  let ?t = "startline_text s" and ?rows = "routing_lines s @ auth_lines s @ content_lines s"
  obtain m1 where m1: "osip_message_startline_to_str (Some s) m = Some ((OSIP_SUCCESS, Some ?t), m1)" "never_fails m1"
    using startline_to_str_ok [OF wf(1) assms(2)] by blast
  obtain n2 m2 where r: "osip_message_realloc (Some [], SIP_MESSAGE_MAX_LENGTH) (length ?t + 3) m1 = ((True, Some [], n2), m2)"
      "never_fails m2" "length ([] :: string) + (length ?t + 3) + 100 \<le> n2"
    using osip_message_realloc_ok [OF m1(2)] by blast
  have a: "append_out (Some [], n2) ?t = Some (Some ?t, n2)" "append_out (Some ?t, n2) CRLF = Some (Some (?t @ CRLF), n2)"
    using append_out_ok [of "[]" ?t n2] append_out_ok [of ?t CRLF n2] r(3) by simp_all
  obtain n3 m3 where rows: "print_rows to_str_table s (Some (?t @ CRLF), n2) m2
      = Some ((OSIP_SUCCESS, Some ((?t @ CRLF) @ lines_text ?rows), n3), m3)" "never_fails m3"
    using print_rows_ok [OF wf(2)] r(2) unfolding writes_def by blast
  obtain n4 m4 where others: "print_headers (headers s) (Some ((?t @ CRLF) @ lines_text ?rows), n3) m3
      = Some ((OSIP_SUCCESS, Some (((?t @ CRLF) @ lines_text ?rows) @ lines_text (map other_line (headers s))), n4), m4)"
      "never_fails m4"
    using print_headers_ok [OF wf(3)] rows(2) unfolding writes_def by blast
  have head: "((?t @ CRLF) @ lines_text ?rows) @ lines_text (map other_line (headers s)) = head_text s"
    by (simp add: head_text_def message_lines_def)
  obtain n5 m5 where last: "osip_message_realloc (Some (head_text s), n4) 16 m4 = ((True, Some (head_text s), n5), m5)"
      "never_fails m5" "length (head_text s) + 16 + 100 \<le> n5"
    using osip_message_realloc_ok [OF others(2)] by blast
  have "print_head s False m = Some ((OSIP_SUCCESS, Some (head_text s), n5), m5)"
    unfolding print_head_def m1(1) bind.bind_lunit prod.case Let_def
    using r(1) a rows(1) others(1) [unfolded head] last(1) by simp
  then show ?thesis using last(2,3) by simp
qed

lemma osip_body_to_str_ok:
  assumes "b_headers b = []" "b_content_type b = None" "b_body b = Some bytes" "b_length b = length bytes" "bytes \<noteq> []"
    and "never_fails m"
  shows "\<exists>m'. osip_body_to_str (Some b) m = Some ((OSIP_SUCCESS, Some bytes), m') \<and> never_fails m'"
  using osip_malloc_never_fails [OF assms(6)] assms(1-5)
  by (auto simp: osip_body_to_str_def body_content_type_to_str_def body_realloc_def Let_def alloc_or_def)

lemma write_length_ok:
  assumes "n < 10 ^ 5"
  shows "write_length (buf @ ''     '' @ r) (length buf) n = Some (buf @ padded n @ r)"
proof -
  have len: "length (decimal n) \<le> 5" using length_decimal [OF assms(1)] by simp
  then have "take 14 (sprintf_i (int n)) = decimal n" by (simp add: sprintf_i_def)
  moreover have "''     '' = replicate 5 CHR '' ''" by (simp add: numeral_eq_Suc)
  moreover have "length buf + 5 - length (decimal n) = length buf + (5 - length (decimal n))" using len by simp
  ultimately show ?thesis using len by (simp add: write_length_def padded_def Let_def)
qed

lemma print_boundary_none:
  assumes "content_type s = Some ct" "ct_type ct = Some t" "\<not> osip_strcasecmp_eq t ''multipart''"
  shows "print_boundary s m = Some ((OSIP_SUCCESS, None), m)"
  using assms by (simp add: print_boundary_def split: option.split)

lemma print_body_ok:
  assumes "body_wf s" "bodies s \<noteq> []" "never_fails m" "length buf + 100 \<le> n"
  shows "\<exists>m'. print_body s (Some buf, n) m
      = Some ((OSIP_SUCCESS, Some (buf @ snd (length_line s) @ CRLF @ CRLF @ body_bytes s)), m') \<and> never_fails m'"
proof -
  obtain b bytes where b: "bodies s = [b]" "b_headers b = []" "b_content_type b = None" "b_body b = Some bytes"
      "b_length b = length bytes" "bytes \<noteq> []" "length bytes < 10 ^ 5"
    using assms(1,2) by (auto simp: body_wf_def split: list.splits option.splits)
  obtain ct t where ct: "content_type s = Some ct" "ct_type ct = Some t" "\<not> osip_strcasecmp_eq t ''multipart''"
    using assms(1) b(1) by (auto simp: body_wf_def split: option.splits)
  let ?pad = "buf @ ''     ''" and ?ends = "CRLF @ CRLF"
  have a: "append_out (Some buf, n) ''     '' = Some (Some ?pad, n)"
      "append_out (Some ?pad, n) ?ends = Some (Some (?pad @ ?ends), n)"
    using append_out_ok [of buf "''     ''" n] append_out_ok [of ?pad ?ends n] assms(4) by simp_all
  obtain m1 where m1: "osip_body_to_str (Some b) m = Some ((OSIP_SUCCESS, Some bytes), m1)" "never_fails m1"
    using osip_body_to_str_ok [OF b(2-6) assms(3)] by blast
  obtain n2 m2 where r: "osip_message_realloc (Some (?pad @ ?ends), n) (length bytes) m1 = ((True, Some (?pad @ ?ends), n2), m2)"
      "never_fails m2" "length (?pad @ ?ends) + length bytes + 100 \<le> n2"
    using osip_message_realloc_ok [OF m1(2)] by blast
  have a2: "append_out (Some (?pad @ ?ends), n2) bytes = Some (Some ((?pad @ ?ends) @ bytes), n2)"
    using r(3) by (intro append_out_ok) simp
  have bodies: "print_bodies None [b] (Some (?pad @ ?ends), n) m = Some ((OSIP_SUCCESS, Some ((?pad @ ?ends) @ bytes), n2), m2)"
    using m1(1) r(1) a2 by simp
  have dest: "write_length ((?pad @ ?ends) @ bytes) (length buf) (length bytes) = Some (buf @ padded (length bytes) @ ?ends @ bytes)"
    using write_length_ok [OF b(7), of buf "?ends @ bytes"] by simp
  have n: "length ((?pad @ ?ends) @ bytes) - length (?pad @ ?ends) = length bytes" by simp
  have "print_body s (Some buf, n) m = Some ((OSIP_SUCCESS, Some (buf @ padded (length bytes) @ ?ends @ bytes)), m2)"
    unfolding print_body_def fst_conv option.map bind.bind_lunit a print_boundary_none [OF ct] prod.case b(1) bodies
    using dest [folded n] by (simp only: option.case bind.bind_lunit fst_conv n) simp
  then show ?thesis using r(2) b by (simp add: length_line_def body_bytes_def)
qed

theorem message_to_str_ok:
  assumes "message_wf s" "never_fails m" "message_property s \<noteq> 1"
  shows "\<exists>c' m'. osip_message_to_str (Some s) c m
      = Some ((OSIP_SUCCESS, Some (message_text s), Some (s\<lparr>message_property := 1\<rparr>), c'), m') \<and> never_fails m'"
proof -
  obtain m1 where m1: "osip_malloc m = (True, m1)" "never_fails m1" using osip_malloc_never_fails [OF assms(2)] by blast
  obtain n m2 where head: "print_head s False m1 = Some ((OSIP_SUCCESS, Some (head_text s), n), m2)" "never_fails m2"
      "length (head_text s) + 116 \<le> n"
    using print_head_ok [OF assms(1) m1(2)] by blast
  let ?buf = "head_text s @ ''Content-Length: ''"
  have room: "length ?buf + 100 \<le> n" using head(3) by simp
  have a: "append_out (Some (head_text s), n) ''Content-Length: '' = Some (Some ?buf, n)"
    using head(3) by (intro append_out_ok) simp
  have body_wf: "body_wf s" using assms(1) by (simp add: message_wf_def)
  show ?thesis
  proof (cases "bodies s = []")
    case True
    have b: "append_out (Some ?buf, n) ''0'' = Some (Some (?buf @ ''0''), n)"
      using room by (intro append_out_ok) simp
    have c: "append_out (Some (?buf @ ''0''), n) (CRLF @ CRLF) = Some (Some ((?buf @ ''0'') @ CRLF @ CRLF), n)"
      using room by (intro append_out_ok) simp
    have dest: "(?buf @ ''0'') @ CRLF @ CRLF = message_text s"
      using True by (simp add: message_text_def length_line_def line_text_def body_bytes_def)
    obtain m3 where "osip_strdup (Some (message_text s)) m2 = (Some (message_text s), m3)" "never_fails m3"
      using osip_strdup_never_fails [OF head(2)] by blast
    then show ?thesis
      using assms(3) m1(1) head(1) a b c [unfolded dest] True
      by (simp add: osip_message_to_str_def message_to_str_def alloc_or_def Let_def)
  next
    case False
    obtain m3 where m3: "print_body s (Some ?buf, n) m2
        = Some ((OSIP_SUCCESS, Some (?buf @ snd (length_line s) @ CRLF @ CRLF @ body_bytes s)), m3)" "never_fails m3"
      using print_body_ok [OF body_wf False head(2) room] by blast
    have dest: "?buf @ snd (length_line s) @ CRLF @ CRLF @ body_bytes s = message_text s"
      by (simp add: message_text_def length_line_def line_text_def)
    obtain m4 where "osip_strdup (Some (message_text s)) m3 = (Some (message_text s), m4)" "never_fails m4"
      using osip_strdup_never_fails [OF m3(2)] by blast
    then show ?thesis
      using assms(3) m1(1) head(1) a m3(1) [unfolded dest] False
      by (simp add: osip_message_to_str_def message_to_str_def alloc_or_def Let_def)
  qed
qed

section \<open>Reading\<close>

text \<open>What is read back: the message, with the number of bytes of its body as a field.\<close>

definition read_back :: "sip_message \<Rightarrow> sip_message" where
  "read_back s = s\<lparr>message_property := 2, content_length := Some (length_field s)\<rparr>"

lemma message_lines_read:
  assumes "fields_wf s"
  shows "reads (message_lines s @ [length_line s]) (same_startline s sip_message_init) (read_back s\<lparr>bodies := []\<rparr>)"
proof -
  have wf: "routing_wf s" "vias s \<noteq> []" "auth_wf_lines s" "content_wf s" "list_all other_wf (headers s)"
      "authentication_infos s = []" "proxy_authentication_infos s = []"
    using assms by (simp_all add: fields_wf_def)
  note init = same_startline_def sip_message_init_def osip_message_init_def osip_message.defs
  let ?t0 = "same_startline s sip_message_init"
  let ?t1 = "?t0\<lparr>message_property := 2, vias := vias s, record_routes := record_routes s, routes := routes s,
      msg_from := msg_from s, msg_to := msg_to s, call_id := call_id s, cseq := cseq s, contacts := contacts s\<rparr>"
  let ?t2 = "?t1\<lparr>authorizations := authorizations s, www_authenticates := www_authenticates s,
      proxy_authenticates := proxy_authenticates s, proxy_authorizations := proxy_authorizations s\<rparr>"
  let ?t3 = "?t2\<lparr>call_infos := call_infos s, content_type := content_type s, mime_version := mime_version s,
      allows := allows s, content_encodings := content_encodings s, alert_infos := alert_infos s, error_infos := error_infos s,
      accepts := accepts s, accept_encodings := accept_encodings s, accept_languages := accept_languages s\<rparr>"
  let ?t4 = "?t3\<lparr>headers := headers s\<rparr>"
  have r1: "reads (routing_lines s) ?t0 ?t1" by (rule routing_lines_read [OF wf(1,2)]) (simp_all add: init)
  have r2: "reads (auth_lines s) ?t1 ?t2" by (rule auth_lines_read [OF wf(3)]) (simp_all add: init)
  have r3: "reads (content_lines s) ?t2 ?t3" by (rule content_lines_read [OF wf(4)]) (simp_all add: init)
  have r4: "reads (map other_line (headers s)) ?t3 ?t4"
    using other_lines_read [OF wf(5), of ?t3] by (simp add: init)
  have r5: "reads [length_line s] ?t4 (?t4\<lparr>content_length := Some (length_field s)\<rparr>)"
    by (rule length_line_reads) (simp_all add: init)
  have last: "?t4\<lparr>content_length := Some (length_field s)\<rparr> = read_back s\<lparr>bodies := []\<rparr>"
    using wf(6,7) by (cases s) (simp add: init read_back_def)
  have others: "list_all line_wf (map other_line (headers s))"
    using wf(5) by (auto simp: list_all_iff other_line_def on_line_def elim!: other_wf_cases)
  note l = auth_lines_wf [OF wf(3)] content_lines_wf [OF wf(4)] others length_line_wf [of s]
  have c4: "reads (map other_line (headers s) @ [length_line s]) ?t3 (read_back s\<lparr>bodies := []\<rparr>)"
    using reads_append [OF r4 r5] l(4) unfolding last by simp
  have c3: "reads (content_lines s @ map other_line (headers s) @ [length_line s]) ?t2 (read_back s\<lparr>bodies := []\<rparr>)"
    by (rule reads_append [OF r3 c4]) (use l in simp)
  have c2: "reads (auth_lines s @ content_lines s @ map other_line (headers s) @ [length_line s]) ?t1 (read_back s\<lparr>bodies := []\<rparr>)"
    by (rule reads_append [OF r2 c3]) (use l in simp)
  have "reads (routing_lines s @ auth_lines s @ content_lines s @ map other_line (headers s) @ [length_line s]) ?t0 (read_back s\<lparr>bodies := []\<rparr>)"
    by (rule reads_append [OF r1 c2]) (use l in simp)
  then show ?thesis by (simp add: message_lines_def)
qed

lemma headers_end: "msg_headers_parse t (CR # LF # r) [] = Some ((OSIP_SUCCESS, t, Some (CR # LF # r)), [])"
  by (subst msg_headers_parse.simps) (simp add: osip_find_next_crlf_def)

lemma cstring_at_append_plain: "NUL \<notin> set s \<Longrightarrow> cstring_at (s @ r) = s @ cstring_at r"
  by (auto simp: cstring_at_def takeWhile_append)

lemma lines_no_nul: "list_all line_wf ls \<Longrightarrow> NUL \<notin> set (lines_text ls)"
  by (induction ls) (auto simp: line_text_def line_wf_def one_line_def)

lemma message_head_ok:
  assumes "message_wf s"
  shows "message_head sip_message_init (message_text s) False []
    = Some ((OSIP_SUCCESS, read_back s\<lparr>bodies := []\<rparr>, CRLF @ body_bytes s), [])"
proof -
  have wf: "request_line_wf s \<or> status_line_wf s" "one_line (startline_text s)" "fields_wf s"
    using assms by (simp_all add: message_wf_def)
  let ?ls = "message_lines s @ [length_line s]" and ?c = "cstring_at (body_bytes s)"
  let ?behind = "drop (length ?c) (body_bytes s)"
  have ls: "list_all line_wf ?ls" "?ls \<noteq> []" using message_lines_wf [OF wf(3)] length_line_wf by simp_all
  have msg: "message_text s = startline_text s @ CR # LF # lines_text ?ls @ CR # LF # body_bytes s"
    by (simp add: message_text_def head_text_def)
  have first: "startline_text s \<noteq> []" using wf(1)
    by (auto simp: startline_text_def Let_def request_line_wf_def status_line_wf_def sip_version_wf_def split: option.splits)
  then have start: "dropWhile (\<lambda>c. c = CR \<or> c = LF) (message_text s) = message_text s"
    using wf(2) unfolding msg by (cases "startline_text s") (auto simp: one_line_def)
  have "NUL \<notin> set (startline_text s @ CR # LF # lines_text ?ls @ [CR, LF])"
    using wf(2) lines_no_nul [OF ls(1)] by (auto simp: one_line_def)
  from cstring_at_append_plain [OF this, of "body_bytes s"]
  have chars: "cstring_at (message_text s) = startline_text s @ CR # LF # lines_text ?ls @ CR # LF # ?c"
    by (simp add: msg)
  have behind: "drop (length (cstring_at (message_text s))) (message_text s) = ?behind"
  proof -
    have "drop (length (p @ c)) (p @ r) = drop (length c) r" for p c r :: string by simp
    from this [of "startline_text s @ CR # LF # lines_text ?ls @ [CR, LF]" ?c "body_bytes s"]
    show ?thesis unfolding chars unfolding msg by (simp only: append_assoc append_Cons append_Nil)
  qed
  have "\<not> is_sp_tab (cur (lines_text ?ls @ CR # LF # ?c))"
    by (rule lines_start [OF ls(1)]) (simp add: is_sp_tab_def)
  then have lws: "osip_util_replace_all_lws (cstring_at (message_text s)) = Some (cstring_at (message_text s))"
    unfolding chars by (intro lws_plain [OF wf(2)] lws_crlf lws_lines [OF ls])
  have line: "osip_message_startline_parse sip_message_init (cstring_at (message_text s)) []
      = Some ((OSIP_SUCCESS, same_startline s sip_message_init, lines_text ?ls @ CR # LF # ?c), [])"
    unfolding chars using wf(1) request_line_text [of s] status_line_text [of s] by blast
  have headers: "msg_headers_parse (same_startline s sip_message_init) (lines_text ?ls @ CR # LF # ?c) []
      = Some ((OSIP_SUCCESS, read_back s\<lparr>bodies := []\<rparr>, Some (CR # LF # ?c)), [])"
    using message_lines_read [OF wf(3)] headers_end by (simp add: reads_def is_sp_tab_def)
  have whole: "?c @ ?behind = body_bytes s" by (rule cstring_at_append)
  show ?thesis
    unfolding message_head_def alloc_or_def Let_def start lws bind.bind_lunit behind
    using line headers whole by simp
qed

lemma message_tail_ok:
  assumes "message_wf s"
  shows "message_tail (read_back s\<lparr>bodies := []\<rparr>) (CRLF @ body_bytes s) [] = Some ((OSIP_SUCCESS, read_back s), [])"
proof (cases "bodies s")
  case Nil
  have "osip_atoi (decimal 0) = 0" using osip_atoi_decimal [of 0] by simp
  then show ?thesis
    using Nil by (cases s) (simp add: message_tail_def read_back_def length_field_def)
next
  case (Cons b0 bs)
  then obtain b bytes where b: "bodies s = [b]" "b_headers b = []" "b_content_type b = None" "b_body b = Some bytes"
      "b_length b = length bytes" "bytes \<noteq> []" "length bytes < 10 ^ 5"
    using assms by (auto simp: message_wf_def body_wf_def split: list.splits option.splits)
  obtain ct t u where ct: "content_type s = Some ct" "ct_type ct = Some t" "ct_subtype ct = Some u"
      "\<not> osip_strcasecmp_eq t ''multipart''"
    using assms b(1) by (auto simp: message_wf_def body_wf_def split: option.splits)
  have atoi: "osip_atoi (decimal (length bytes)) = int (length bytes)" using b(7) by (intro osip_atoi_decimal) simp
  have small: "int (length bytes) mod 2 ^ 64 = int (length bytes)" using b(7) by simp
  let ?s = "read_back s\<lparr>bodies := []\<rparr>"
  have cl: "content_length ?s = Some (length_field s)" "cl_value (length_field s) = Some (decimal (length bytes))"
    by (simp_all add: read_back_def length_field_def b(1,5))
  have "b = \<lparr>b_body = Some bytes, b_length = length bytes, b_headers = [], b_content_type = None\<rparr>"
    using b by (cases b) simp
  then have add: "osip_message_set_body ?s bytes [] = Some ((OSIP_SUCCESS, read_back s), [])"
    using b(1) by (cases s)
      (simp add: osip_message_set_body_def add_body_def osip_body_init_def osip_body_parse_def alloc_or_def list_add_def read_back_def)
  have "plain_body ?s (CRLF @ bytes) [] = Some ((OSIP_SUCCESS, read_back s), [])"
    using b(6) add cl atoi small by (simp add: plain_body_def alloc_or_def Let_def)
  then have "msg_osip_body_parse ?s (CRLF @ bytes) [] = Some ((OSIP_SUCCESS, read_back s), [])"
    using ct by (simp add: msg_osip_body_parse_def read_back_def)
  moreover have "body_bytes s = bytes" by (simp add: body_bytes_def b)
  moreover have "content_length (read_back s) = Some (length_field s)" by (simp add: read_back_def)
  ultimately show ?thesis
    using cl atoi b(6) by (simp add: message_tail_def)
qed

theorem message_text_parses:
  assumes "message_wf s"
  shows "osip_message_parse sip_message_init (message_text s) [] = Some ((OSIP_SUCCESS, read_back s), [])"
  using message_head_ok [OF assms] message_tail_ok [OF assms] by (simp add: osip_message_parse_def message_parse_def)

text \<open>What is read back is written the same.\<close>

lemma read_back_startline: "startline_text (read_back s) = startline_text s"
  unfolding startline_text_def Let_def by (simp add: read_back_def cong: option.case_cong)

lemma read_back_text: "message_text (read_back s) = message_text s"
  unfolding message_text_def head_text_def read_back_startline
  by (simp add: message_lines_def read_back_def routing_lines_def auth_lines_def content_lines_def length_line_def body_bytes_def)

lemma read_back_wf: "message_wf (read_back s) = message_wf s"
  unfolding message_wf_def read_back_startline
  by (simp add: read_back_def fields_wf_def routing_wf_def auth_wf_lines_def content_wf_def body_wf_def
      request_line_wf_def status_line_wf_def cong: option.case_cong list.case_cong)

section \<open>A message with everything\<close>

definition full_auth :: osip_authorization where
  "full_auth = osip_authorization_init\<lparr>auth_type := Some ''Digest'', auth_username := Some (CHR 0x22 # ''bob'' @ [CHR 0x22]),
     auth_realm := Some (CHR 0x22 # ''a,b'' @ [CHR 0x22]), auth_algorithm := Some ''MD5'', auth_nonce_count := Some ''00000001''\<rparr>"

definition full_www :: osip_www_authenticate where
  "full_www = osip_www_authenticate_init\<lparr>www_auth_type := Some ''Digest'', www_realm := Some (CHR 0x22 # ''sip'' @ [CHR 0x22]),
     www_nonce := Some (CHR 0x22 # ''84a4'' @ [CHR 0x22]), www_stale := Some ''FALSE''\<rparr>"

definition full_type :: osip_content_type where
  "full_type = \<lparr>ct_type = Some ''text'', ct_subtype = Some ''plain'',
     ct_params = [\<lparr>gname = Some ''charset'', gvalue = Some ''utf-8''\<rparr>]\<rparr>"

definition full_body :: string where
  "full_body = ''hello'' @ [CR, LF, CHR '' '', NUL, CHR 0xFF]"

definition full_message :: sip_message where
  "full_message = sip_message_init\<lparr>sip_method := Some ''MESSAGE'', req_uri := Some full_uri, sip_version := Some ''SIP/2.0'',
     vias := [full_via, full_via\<lparr>via_comment := None\<rparr>], routes := [full_from], msg_from := Some full_from,
     msg_to := Some (full_from\<lparr>gen_params := []\<rparr>),
     call_id := Some \<lparr>callid_number = Some ''a84b4c76e66710'', callid_host = Some ''pc33''\<rparr>,
     cseq := Some \<lparr>cseq_method = Some ''MESSAGE'', cseq_number = Some ''314159''\<rparr>,
     authorizations := [full_auth], www_authenticates := [full_www], content_type := Some full_type,
     allows := [\<lparr>cl_value = Some ''INVITE''\<rparr>, \<lparr>cl_value = Some ''ACK''\<rparr>],
     headers := [\<lparr>h_name = Some ''max-forwards'', h_value = Some ''70''\<rparr>],
     bodies := [\<lparr>b_body = Some full_body, b_length = length full_body, b_headers = [], b_content_type = None\<rparr>]\<rparr>"

lemma full_fields_wf:
  "via_field.field_wf full_via" "via_field.field_wf (full_via\<lparr>via_comment := None\<rparr>)" "route_field.field_wf full_from"
  "from_field.field_wf (Some full_from)" "to_field.field_wf (Some (full_from\<lparr>gen_params := []\<rparr>))"
  "callid_field.field_wf (Some \<lparr>callid_number = Some ''a84b4c76e66710'', callid_host = Some ''pc33''\<rparr>)"
  "cseq_field.field_wf (Some \<lparr>cseq_method = Some ''MESSAGE'', cseq_number = Some ''314159''\<rparr>)"
  "authorization_field.field_wf full_auth" "www_authenticate_field.field_wf full_www"
  "content_type_field.field_wf (Some full_type)"
  "allow_field.field_wf \<lparr>cl_value = Some ''INVITE''\<rparr>" "allow_field.field_wf \<lparr>cl_value = Some ''ACK''\<rparr>"
  "other_wf \<lparr>h_name = Some ''max-forwards'', h_value = Some ''70''\<rparr>"
  unfolding via_field.field_wf_def route_field.field_wf_def from_field.field_wf_def to_field.field_wf_def callid_field.field_wf_def
    cseq_field.field_wf_def authorization_field.field_wf_def www_authenticate_field.field_wf_def
    content_type_field.field_wf_def allow_field.field_wf_def
  by code_simp+

lemma full_message_wf: "message_wf full_message"
proof -
  have none: "contact_field.field_wf x \<longleftrightarrow> contact_field.field_wf x" "mime_version_field.field_wf None" for x
    by (simp_all add: mime_version_field.field_wf_def)
  note init = full_message_def sip_message_init_def osip_message_init_def osip_message.defs
  have plain: "list_all (\<lambda>c. \<not> is_blank c) (uri_text full_uri)" "2 \<le> length (uri_text full_uri)" "sip_version_wf ''SIP/2.0''"
      "one_line (''MESSAGE '' @ uri_text full_uri @ '' SIP/2.0'')" "\<not> osip_strcasecmp_eq ''text'' ''multipart''"
    by code_simp+
  have "request_line_wf full_message" using plain(1-3) full_uri_wf by (simp add: request_line_wf_def init)
  moreover have "one_line (startline_text full_message)" using plain(4) by (simp add: startline_text_def init)
  moreover have "body_wf full_message" using plain(5) by (simp add: body_wf_def init full_body_def full_type_def)
  ultimately show ?thesis
    using full_fields_wf none
    by (simp add: message_wf_def fields_wf_def routing_wf_def auth_wf_lines_def content_wf_def init)
qed

end
