(* ===== verification/Osip_Dialog.thy ===== *)
theory Osip_Dialog
  imports Osip_Message Osip_Event
begin

text \<open>
  \<^verbatim>\<open>osip_dialog.c\<close>: the dialog a call creates at both of its ends, how a message is matched to
  a dialog, and how answers and requests update it. A pointer to a dialog or a message that the
  code tests for NULL is an option.
\<close>

section \<open>The dialog\<close>

datatype osip_dialog_type_t = CALLER | CALLEE

record osip_dialog =
  dlg_call_id :: cstr
  local_tag :: cstr
  remote_tag :: cstr
  line_param :: cstr
  route_set :: "osip_record_route list"
  local_cseq :: int
  remote_cseq :: int
  remote_uri :: "osip_to option"
  local_uri :: "osip_from option"
  remote_contact_uri :: "osip_contact option"
  secure :: int
  dlg_type :: osip_dialog_type_t
  dlg_state :: state_t

text \<open>What \<^verbatim>\<open>memset\<close> leaves; zero is the first constructor of an enumeration.\<close>

definition osip_dialog_zero :: osip_dialog where
  "osip_dialog_zero = \<lparr>dlg_call_id = None, local_tag = None, remote_tag = None, line_param = None,
     route_set = [], local_cseq = 0, remote_cseq = 0, remote_uri = None, local_uri = None,
     remote_contact_uri = None, secure = 0, dlg_type = CALLER, dlg_state = ICT_PRE_CALLING\<rparr>"

section \<open>Updates\<close>

definition osip_dialog_set_state :: "osip_dialog option \<Rightarrow> state_t \<Rightarrow> osip_dialog option" where
  "osip_dialog_set_state dialog state = map_option (dlg_state_update (\<lambda>_. state)) dialog"

text \<open>The contact of a message becomes the remote target; a failure leaves none.\<close>

definition update_contact :: "osip_dialog \<Rightarrow> osip_message \<Rightarrow> mem \<Rightarrow> (int \<times> osip_dialog) \<times> mem" where
  "update_contact d msg m =
    (if contacts msg = [] then ((OSIP_SUCCESS, d), m)
     else (case osip_from_clone (l_get (contacts msg) 0) m of ((i, c), m) \<Rightarrow>
       ((i, d\<lparr>remote_contact_uri := c\<rparr>), m)))"

definition osip_dialog_update_route_set_as_uas ::
  "osip_dialog option \<Rightarrow> osip_message option \<Rightarrow> mem \<Rightarrow> (int \<times> osip_dialog option) \<times> mem" where
  "osip_dialog_update_route_set_as_uas dialog invite m =
    (case (dialog, invite) of
       (Some d, Some msg) \<Rightarrow> (case update_contact d msg m of ((i, d), m) \<Rightarrow> ((i, Some d), m))
     | _ \<Rightarrow> ((OSIP_BADPARAMETER, dialog), m))"

definition osip_dialog_update_osip_cseq_as_uas ::
  "osip_dialog option \<Rightarrow> osip_message option \<Rightarrow> int \<times> osip_dialog option" where
  "osip_dialog_update_osip_cseq_as_uas dialog invite =
    (case (dialog, invite) of
       (Some d, Some msg) \<Rightarrow>
         (case cseq msg of
            None \<Rightarrow> (OSIP_BADPARAMETER, dialog)
          | Some c \<Rightarrow>
              (case cseq_number c of
                 None \<Rightarrow> (OSIP_BADPARAMETER, dialog)
               | Some n \<Rightarrow> (OSIP_SUCCESS, Some (d\<lparr>remote_cseq := osip_atoi n\<rparr>))))
     | _ \<Rightarrow> (OSIP_BADPARAMETER, dialog))"

text \<open>Copies of the Record-Route headers, each added at \<open>pos\<close>.\<close>

fun add_routes ::
  "int \<Rightarrow> osip_record_route list \<Rightarrow> osip_record_route list \<Rightarrow> mem \<Rightarrow> (int \<times> osip_record_route list) \<times> mem" where
  "add_routes pos [] rs m = ((OSIP_SUCCESS, rs), m)"
| "add_routes pos (rr # rrs) rs m =
    (case osip_from_clone (Some rr) m of ((i, rr2), m) \<Rightarrow>
       if i \<noteq> 0 then ((i, rs), m)
       else (case list_add rs (the rr2) pos m of (rs, m) \<Rightarrow> add_routes pos rrs rs m))"

definition osip_dialog_update_route_set_as_uac ::
  "osip_dialog option \<Rightarrow> osip_message option \<Rightarrow> mem \<Rightarrow> (int \<times> osip_dialog option) \<times> mem" where
  "osip_dialog_update_route_set_as_uac dialog response m =
    (case (dialog, response) of
       (Some d, Some resp) \<Rightarrow>
         (case update_contact d resp m of ((i, d), m) \<Rightarrow>
            if i \<noteq> 0 then ((i, Some d), m)
            else (case (if dlg_state d = DIALOG_EARLY
                then add_routes 0 (record_routes resp) [] m else ((OSIP_SUCCESS, route_set d), m)) of
              ((i, rs), m) \<Rightarrow>
                let d = d\<lparr>route_set := rs\<rparr> in
                if i \<noteq> 0 then ((i, Some d), m)
                else ((OSIP_SUCCESS, Some (if MSG_IS_STATUS 2 resp then d\<lparr>dlg_state := DIALOG_CONFIRMED\<rparr> else d)), m)))
     | _ \<Rightarrow> ((OSIP_BADPARAMETER, dialog), m))"

definition osip_get_tag :: "osip_from \<Rightarrow> (int \<times> osip_generic_param option) option" where
  "osip_get_tag header = osip_uri_param_get_byname (gen_params header) (Some ''tag'')"

definition osip_dialog_update_tag_as_uac ::
  "osip_dialog option \<Rightarrow> osip_message option \<Rightarrow> mem \<Rightarrow> ((int \<times> osip_dialog option) \<times> mem) option" where
  "osip_dialog_update_tag_as_uac dialog response m =
    (case (dialog, response) of
       (Some d, Some resp) \<Rightarrow>
         (case msg_to resp of
            None \<Rightarrow> Some ((OSIP_BADPARAMETER, dialog), m)
          | Some to \<Rightarrow>
              if remote_tag d \<noteq> None then Some ((OSIP_WRONG_STATE, dialog), m)
              else do {
                (i, tag) \<leftarrow> osip_get_tag to;
                let v = (if i \<noteq> 0 then None else Option.bind tag gvalue);
                (case osip_strdup v m of (t, m) \<Rightarrow> Some ((OSIP_SUCCESS, Some (d\<lparr>remote_tag := t\<rparr>)), m))
              })
     | _ \<Rightarrow> Some ((OSIP_BADPARAMETER, dialog), m))"

section \<open>Matching\<close>

definition same_addresses ::
  "osip_from option \<Rightarrow> osip_from option \<Rightarrow> osip_from option \<Rightarrow> osip_from option \<Rightarrow> int option" where
  "same_addresses uri1 from1 uri2 from2 = do {
     i \<leftarrow> osip_from_compare uri1 from1;
     if i \<noteq> 0 then Some OSIP_UNDEFINED_ERROR
     else do {
       j \<leftarrow> osip_from_compare uri2 from2;
       Some (if j = 0 then OSIP_SUCCESS else OSIP_UNDEFINED_ERROR)
     }
   }"

text \<open>
  The last step of both: the tag of the other side, when the message and the dialog have one, else
  both addresses. \<open>a\<close> and \<open>b\<close> are the headers to compare with the dialog's local and remote URI.
\<close>

definition match_remote_tag ::
  "osip_dialog \<Rightarrow> osip_from \<Rightarrow> int option \<Rightarrow> int option" where
  "match_remote_tag dlg remote addresses = do {
     (i, tag) \<leftarrow> osip_get_tag remote;
     if i \<noteq> 0 \<and> remote_tag dlg \<noteq> None then Some OSIP_SYNTAXERROR
     else if remote_tag dlg = None then addresses
     else do {
       tag \<leftarrow> tag;
       v \<leftarrow> gvalue tag;
       Some (if Some v = remote_tag dlg then OSIP_SUCCESS else OSIP_UNDEFINED_ERROR)
     }
   }"

text \<open>A test of the Call-ID in front of what follows.\<close>

definition match_call_id ::
  "cstr \<Rightarrow> osip_call_id \<Rightarrow> int option \<Rightarrow> mem \<Rightarrow> (int \<times> mem) option" where
  "match_call_id cid c rest m = do {
     ((i, tmp), m) \<leftarrow> osip_call_id_to_str (Some c) m;
     if i \<noteq> 0 then Some (i, m)
     else if cid \<noteq> tmp then Some (OSIP_UNDEFINED_ERROR, m)
     else do { r \<leftarrow> rest; Some (r, m) }
   }"

definition osip_dialog_match_as_uac ::
  "osip_dialog option \<Rightarrow> osip_message option \<Rightarrow> mem \<Rightarrow> (int \<times> mem) option" where
  "osip_dialog_match_as_uac dialog answer m =
    (case (dialog, answer) of
       (Some dlg, Some a) \<Rightarrow>
         if dlg_call_id dlg = None then Some (OSIP_BADPARAMETER, m)
         else (case (call_id a, msg_from a, msg_to a) of
           (Some c, Some from, Some to) \<Rightarrow>
             match_call_id (dlg_call_id dlg) c
               (do {
                 (i, tag) \<leftarrow> osip_get_tag from;
                 if i \<noteq> 0 then Some OSIP_SYNTAXERROR
                 else if local_tag dlg = None then Some OSIP_SYNTAXERROR
                 else do {
                   tag \<leftarrow> tag;
                   v \<leftarrow> gvalue tag;
                   if Some v \<noteq> local_tag dlg then Some OSIP_UNDEFINED_ERROR
                   else match_remote_tag dlg to (same_addresses (local_uri dlg) (Some from) (remote_uri dlg) (Some to))
                 }
               }) m
         | _ \<Rightarrow> Some (OSIP_BADPARAMETER, m))
     | _ \<Rightarrow> Some (OSIP_BADPARAMETER, m))"

definition osip_dialog_match_as_uas ::
  "osip_dialog option \<Rightarrow> osip_message option \<Rightarrow> mem \<Rightarrow> (int \<times> mem) option" where
  "osip_dialog_match_as_uas dialog request m =
    (case (dialog, request) of
       (Some dlg, Some r) \<Rightarrow>
         if dlg_call_id dlg = None then Some (OSIP_BADPARAMETER, m)
         else (case (call_id r, msg_from r, msg_to r) of
           (Some c, Some from, Some to) \<Rightarrow>
             match_call_id (dlg_call_id dlg) c
               (if local_tag dlg = None then Some OSIP_SYNTAXERROR
                else match_remote_tag dlg from (same_addresses (remote_uri dlg) (Some from) (local_uri dlg) (Some to))) m
         | _ \<Rightarrow> Some (OSIP_BADPARAMETER, m))
     | _ \<Rightarrow> Some (OSIP_BADPARAMETER, m))"

section \<open>Creation\<close>

text \<open>The line of a VoIP account, a parameter of the URI an INVITE is sent to.\<close>

definition line_of :: "osip_message option \<Rightarrow> cstr option" where
  "line_of invite =
    (case invite of
       None \<Rightarrow> Some None
     | Some msg \<Rightarrow> do {
         uri \<leftarrow> req_uri msg;
         (i, p) \<leftarrow> osip_uri_param_get_byname (url_params uri) (Some ''line'');
         Some (if i = 0 then Option.bind p gvalue else None)
       })"

text \<open>A failure frees the dialog, and the answer is NULL.\<close>

definition osip_dialog_init ::
  "osip_message option \<Rightarrow> osip_message option \<Rightarrow> osip_from option \<Rightarrow> osip_to option \<Rightarrow> osip_message option
    \<Rightarrow> mem \<Rightarrow> ((int \<times> osip_dialog option) \<times> mem) option" where
  "osip_dialog_init invite response local remote remote_msg m =
    (case response of
       None \<Rightarrow> Some ((OSIP_BADPARAMETER, None), m)
     | Some resp \<Rightarrow>
         (case (cseq resp, local, remote) of
            (Some c, Some loc, Some rem) \<Rightarrow>
              (case osip_malloc m of (ok, m) \<Rightarrow>
                 if \<not> ok then Some ((OSIP_NOMEM, None), m)
                 else do {
                   ((i, cid), m) \<leftarrow> osip_call_id_to_str (call_id resp) m;
                   if i \<noteq> 0 then Some ((i, None), m)
                   else do {
                     (i, tag) \<leftarrow> osip_get_tag loc;
                     if i \<noteq> 0 then Some ((i, None), m)
                     else do {
                       tag \<leftarrow> tag;
                       let (lt, m) = osip_strdup (gvalue tag) m;
                       (i, tag) \<leftarrow> osip_get_tag rem;
                       rtag \<leftarrow> (if i = 0 then do { t \<leftarrow> tag; Some (gvalue t) } else Some None);
                       let (rt, m) = osip_strdup rtag m;
                       line \<leftarrow> line_of invite;
                       let (line, m) = osip_strdup line m;
                       let ((i, rs), m) = add_routes (if invite = None then 0 else -1) (record_routes resp) [] m;
                       if i \<noteq> 0 then Some ((i, None), m)
                       else do {
                         number \<leftarrow> cseq_number c;
                         let ((i, ru), m) = osip_from_clone (Some rem) m;
                         if i \<noteq> 0 then Some ((i, None), m)
                         else let ((i, lu), m) = osip_to_clone (Some loc) m in
                         if i \<noteq> 0 then Some ((i, None), m)
                         else do {
                           rmsg \<leftarrow> remote_msg;
                           let d = osip_dialog_zero\<lparr>
                             dlg_state := if MSG_IS_STATUS 2 resp then DIALOG_CONFIRMED else DIALOG_EARLY,
                             dlg_call_id := cid, local_tag := lt, remote_tag := rt, line_param := line,
                             route_set := rs, local_cseq := osip_atoi number, remote_uri := ru, local_uri := lu,
                             secure := -1\<rparr>;
                           let ((i, d), m) = update_contact d rmsg m;
                           Some ((i, if i \<noteq> 0 then None else Some d), m)
                         }
                       }
                     }
                   }
                 })
          | _ \<Rightarrow> Some ((OSIP_SYNTAXERROR, None), m)))"

definition osip_dialog_init_as_uac ::
  "osip_message option \<Rightarrow> mem \<Rightarrow> ((int \<times> osip_dialog option) \<times> mem) option" where
  "osip_dialog_init_as_uac response m = do {
     resp \<leftarrow> response;
     ((i, d), m) \<leftarrow> osip_dialog_init None response (msg_from resp) (msg_to resp) response m;
     Some ((i, map_option (\<lambda>d. d\<lparr>dlg_type := CALLER, remote_cseq := -1\<rparr>) d), m)
   }"

definition osip_dialog_init_as_uac_with_remote_request ::
  "osip_message option \<Rightarrow> int \<Rightarrow> mem \<Rightarrow> ((int \<times> osip_dialog option) \<times> mem) option" where
  "osip_dialog_init_as_uac_with_remote_request next_request cseq_no m = do {
     req \<leftarrow> next_request;
     (case cseq req of
        None \<Rightarrow> Some ((OSIP_BADPARAMETER, None), m)
      | Some c \<Rightarrow> do {
          ((i, d), m) \<leftarrow> osip_dialog_init next_request next_request (msg_to req) (msg_from req) next_request m;
          if i \<noteq> 0 then Some ((i, None), m)
          else do {
            d \<leftarrow> d;
            number \<leftarrow> cseq_number c;
            Some ((OSIP_SUCCESS, Some (d\<lparr>dlg_type := CALLER, dlg_state := DIALOG_CONFIRMED, local_cseq := cseq_no,
              remote_cseq := osip_atoi number\<rparr>)), m)
          }
        })
   }"

definition osip_dialog_init_as_uas ::
  "osip_message option \<Rightarrow> osip_message option \<Rightarrow> mem \<Rightarrow> ((int \<times> osip_dialog option) \<times> mem) option" where
  "osip_dialog_init_as_uas invite response m = do {
     resp \<leftarrow> response;
     (case cseq resp of
        None \<Rightarrow> Some ((OSIP_SYNTAXERROR, None), m)
      | Some c \<Rightarrow> do {
          ((i, d), m) \<leftarrow> osip_dialog_init invite response (msg_to resp) (msg_from resp) invite m;
          if i \<noteq> 0 then Some ((i, None), m)
          else do {
            d \<leftarrow> d;
            number \<leftarrow> cseq_number c;
            Some ((OSIP_SUCCESS, Some (d\<lparr>dlg_type := CALLEE, remote_cseq := osip_atoi number\<rparr>)), m)
          }
        })
   }"

section \<open>What they compute\<close>

lemma osip_uri_param_get_byname_find:
  assumes "named params" "n \<noteq> []"
  shows "osip_uri_param_get_byname params (Some n)
    = Some (case List.find (has_name n) params of
        None \<Rightarrow> (OSIP_UNDEFINED_ERROR, None) | Some p \<Rightarrow> (OSIP_SUCCESS, Some p))"
proof -
  have "osip_uri_param_find params n
      = Some (case List.find (has_name n) params of
          None \<Rightarrow> (OSIP_UNDEFINED_ERROR, None) | Some p \<Rightarrow> (OSIP_SUCCESS, Some p))"
    using assms(1)
    by (induction params) (auto simp: has_name_def osip_strcasecmp_eq_length split: option.split)
  then show ?thesis using assms(2) by (simp add: osip_uri_param_get_byname_def)
qed

lemma osip_get_tag_of:
  "named (gen_params f) \<Longrightarrow> osip_get_tag f
    = Some (case tag_of f of None \<Rightarrow> (OSIP_UNDEFINED_ERROR, None) | Some p \<Rightarrow> (OSIP_SUCCESS, Some p))"
  by (simp add: osip_get_tag_def tag_of_def osip_uri_param_get_byname_find)

text \<open>The value of the tag.\<close>

definition tag_value :: "osip_from \<Rightarrow> cstr" where
  "tag_value f = Option.bind (tag_of f) gvalue"

text \<open>A tag that is there has a value.\<close>

definition tag_ok :: "osip_from \<Rightarrow> bool" where
  "tag_ok f \<longleftrightarrow> named (gen_params f) \<and> (tag_of f \<noteq> None \<longrightarrow> tag_value f \<noteq> None)"

lemma match_call_id_ok:
  assumes "callid_number c \<noteq> None" "never_fails m" "rest = Some r"
  shows "\<exists>m'. match_call_id (Some cid) c rest m
    = Some (if callid_text c = cid then r else OSIP_UNDEFINED_ERROR, m')"
  using osip_call_id_to_str_ok [OF assms(1,2)] assms(3) by (auto simp: match_call_id_def)

lemma match_remote_tag_ok:
  assumes "tag_ok f" "remote_tag d \<noteq> None"
  shows "match_remote_tag d f addresses
    = Some (if tag_of f = None then OSIP_SYNTAXERROR
            else if tag_value f = remote_tag d then OSIP_SUCCESS else OSIP_UNDEFINED_ERROR)"
  using assms
  by (cases "tag_of f") (auto simp: match_remote_tag_def tag_ok_def tag_value_def osip_get_tag_of)

text \<open>
  A request belongs to a dialog with both tags when its Call-ID is that of the dialog and its From
  has the remote tag; an answer when its From has the local and its To the remote tag.
\<close>

lemma osip_dialog_match_as_uas_iff:
  assumes "dlg_call_id d = Some cid" "local_tag d \<noteq> None" "remote_tag d \<noteq> None"
    and "call_id r = Some c" "callid_number c \<noteq> None" "msg_from r = Some f" "msg_to r \<noteq> None" "tag_ok f"
    and "never_fails m"
  shows "\<exists>i m'. osip_dialog_match_as_uas (Some d) (Some r) m = Some (i, m')
    \<and> (i = OSIP_SUCCESS \<longleftrightarrow> callid_text c = cid \<and> tag_value f = remote_tag d)"
proof -
  obtain to where to: "msg_to r = Some to" using assms(7) by blast
  let ?i = "if tag_of f = None then OSIP_SYNTAXERROR
    else if tag_value f = remote_tag d then OSIP_SUCCESS else OSIP_UNDEFINED_ERROR"
  have "match_remote_tag d f (same_addresses (remote_uri d) (Some f) (local_uri d) (Some to)) = Some ?i"
    by (rule match_remote_tag_ok [OF assms(8,3)])
  from match_call_id_ok [OF assms(5,9) this, of cid] show ?thesis
    using assms(1-4,6,8) to by (auto simp: osip_dialog_match_as_uas_def tag_value_def)
qed

lemma osip_dialog_match_as_uac_iff:
  assumes "dlg_call_id d = Some cid" "local_tag d \<noteq> None" "remote_tag d \<noteq> None"
    and "call_id a = Some c" "callid_number c \<noteq> None" "msg_from a = Some f" "msg_to a = Some t" "tag_ok f" "tag_ok t"
    and "never_fails m"
  shows "\<exists>i m'. osip_dialog_match_as_uac (Some d) (Some a) m = Some (i, m')
    \<and> (i = OSIP_SUCCESS \<longleftrightarrow> callid_text c = cid \<and> tag_value f = local_tag d \<and> tag_value t = remote_tag d)"
proof -
  define i where "i = (if tag_of f = None then OSIP_SYNTAXERROR
    else if tag_value f \<noteq> local_tag d then OSIP_UNDEFINED_ERROR
    else if tag_of t = None then OSIP_SYNTAXERROR
    else if tag_value t = remote_tag d then OSIP_SUCCESS else OSIP_UNDEFINED_ERROR)"
  let ?rest = "do {
      (i, tag) \<leftarrow> osip_get_tag f;
      if i \<noteq> 0 then Some OSIP_SYNTAXERROR
      else if local_tag d = None then Some OSIP_SYNTAXERROR
      else do {
        tag \<leftarrow> tag;
        v \<leftarrow> gvalue tag;
        if Some v \<noteq> local_tag d then Some OSIP_UNDEFINED_ERROR
        else match_remote_tag d t (same_addresses (local_uri d) (Some f) (remote_uri d) (Some t))
      }
    }"
  have "?rest = Some i"
    using assms(2,8) unfolding i_def match_remote_tag_ok [OF assms(9,3)]
    by (cases "tag_of f") (auto simp: tag_ok_def tag_value_def osip_get_tag_of)
  from match_call_id_ok [OF assms(5,10) this, of cid] show ?thesis
    using assms(1-4,6,7) by (auto simp: osip_dialog_match_as_uac_def i_def tag_value_def split: if_splits)
qed

text \<open>A tag without a value is followed as a NULL pointer.\<close>

lemma tag_without_value_is_undefined:
  assumes "dlg_call_id d = Some (callid_text c)" "local_tag d \<noteq> None" "remote_tag d \<noteq> None"
    and "call_id r = Some c" "callid_number c \<noteq> None" "msg_from r = Some f" "msg_to r \<noteq> None"
    and "named (gen_params f)" "tag_of f = Some p" "gvalue p = None" "never_fails m"
  shows "osip_dialog_match_as_uas (Some d) (Some r) m = None"
  using assms osip_call_id_to_str_ok [OF assms(5,11)]
  by (auto simp: osip_dialog_match_as_uas_def match_call_id_def match_remote_tag_def osip_get_tag_of)

section \<open>The dialogs of both sides\<close>

lemma add_routes_ok:
  assumes "\<forall>rr \<in> set rrs. from_ok rr" "never_fails m" "pos = 0 \<or> pos = -1"
  shows "\<exists>m'. add_routes pos rrs rs m = ((OSIP_SUCCESS, if pos = 0 then rev rrs @ rs else rs @ rrs), m')
    \<and> never_fails m'"
  using assms(1,2)
proof (induction rrs arbitrary: rs m)
  case (Cons rr rrs)
  obtain m1 where m1: "osip_from_clone (Some rr) m = ((0, Some rr), m1)" "never_fails m1"
    using osip_from_clone_ok [of rr m] Cons.prems by auto
  obtain m2 where m2: "osip_malloc m1 = (True, m2)" "never_fails m2"
    using osip_malloc_never_fails [OF m1(2)] by blast
  have rest: "\<forall>rr \<in> set rrs. from_ok rr" using Cons.prems(1) by simp
  then show ?case
    using Cons.IH [OF rest m2(2), of "l_add rs rr pos"] m1 m2 assms(3) by (auto simp: list_add_def)
qed simp

text \<open>The headers a dialog is made of.\<close>

definition contact_ok :: "osip_message \<Rightarrow> bool" where
  "contact_ok msg \<longleftrightarrow> (\<forall>f. l_get (contacts msg) 0 = Some f \<longrightarrow> from_ok f)"

definition dialog_response_ok :: "osip_message \<Rightarrow> bool" where
  "dialog_response_ok resp \<longleftrightarrow>
    (\<exists>c. call_id resp = Some c \<and> callid_number c \<noteq> None)
    \<and> (\<exists>q. cseq resp = Some q \<and> cseq_number q \<noteq> None)
    \<and> (\<exists>f. msg_from resp = Some f \<and> from_ok f \<and> tag_value f \<noteq> None)
    \<and> (\<exists>t. msg_to resp = Some t \<and> from_ok t \<and> tag_value t \<noteq> None)
    \<and> (\<forall>rr \<in> set (record_routes resp). from_ok rr) \<and> contact_ok resp"

definition dialog_request_ok :: "osip_message \<Rightarrow> bool" where
  "dialog_request_ok msg \<longleftrightarrow> (\<exists>u. req_uri msg = Some u \<and> named (url_params u)) \<and> contact_ok msg"

definition line_value :: "osip_message option \<Rightarrow> cstr" where
  "line_value invite = do {
     msg \<leftarrow> invite;
     uri \<leftarrow> req_uri msg;
     p \<leftarrow> List.find (has_name ''line'') (url_params uri);
     gvalue p
   }"

definition new_dialog ::
  "osip_message option \<Rightarrow> osip_message \<Rightarrow> osip_from \<Rightarrow> osip_to \<Rightarrow> osip_message \<Rightarrow> osip_dialog" where
  "new_dialog invite resp loc rem rmsg = \<lparr>
     dlg_call_id = map_option callid_text (call_id resp),
     local_tag = tag_value loc, remote_tag = tag_value rem, line_param = line_value invite,
     route_set = (if invite = None then rev (record_routes resp) else record_routes resp),
     local_cseq = (case cseq resp of None \<Rightarrow> 0 | Some q \<Rightarrow> osip_atoi (the (cseq_number q))), remote_cseq = 0,
     remote_uri = Some rem, local_uri = Some loc, remote_contact_uri = l_get (contacts rmsg) 0,
     secure = -1, dlg_type = CALLER,
     dlg_state = (if MSG_IS_STATUS 2 resp then DIALOG_CONFIRMED else DIALOG_EARLY)\<rparr>"

lemma line_of_value:
  assumes "\<forall>msg. invite = Some msg \<longrightarrow> dialog_request_ok msg"
  shows "line_of invite = Some (line_value invite)"
  using assms
  by (cases invite) (auto simp: line_of_def line_value_def dialog_request_ok_def osip_uri_param_get_byname_find split: option.split)

lemma update_contact_ok:
  assumes "contact_ok msg" "never_fails m" "remote_contact_uri d = None"
  shows "\<exists>m'. update_contact d msg m = ((OSIP_SUCCESS, d\<lparr>remote_contact_uri := l_get (contacts msg) 0\<rparr>), m') \<and> never_fails m'"
proof (cases "contacts msg")
  case Nil
  then show ?thesis using assms(2,3) by (cases d) (simp add: update_contact_def)
next
  case (Cons f fs)
  then have "from_ok f" using assms(1) by (simp add: contact_ok_def)
  then show ?thesis using osip_from_clone_ok [OF _ assms(2)] Cons by (fastforce simp: update_contact_def)
qed

lemma osip_dialog_init_ok:
  assumes "dialog_response_ok resp" "from_ok loc" "tag_value loc \<noteq> None" "from_ok rem" "tag_value rem \<noteq> None"
    and "\<forall>msg. invite = Some msg \<longrightarrow> dialog_request_ok msg" "contact_ok rmsg" "never_fails m"
  shows "\<exists>m'. osip_dialog_init invite (Some resp) (Some loc) (Some rem) (Some rmsg) m
    = Some ((OSIP_SUCCESS, Some (new_dialog invite resp loc rem rmsg)), m') \<and> never_fails m'"
proof -
  obtain c q n where c: "call_id resp = Some c" "callid_number c \<noteq> None" "cseq resp = Some q" "cseq_number q = Some n"
    using assms(1) by (auto simp: dialog_response_ok_def)
  obtain m1 where m1: "osip_malloc m = (True, m1)" "never_fails m1" using osip_malloc_never_fails [OF assms(8)] by blast
  obtain m2 where m2: "osip_call_id_to_str (Some c) m1 = Some ((OSIP_SUCCESS, Some (callid_text c)), m2)" "never_fails m2"
    using osip_call_id_to_str_ok [OF c(2) m1(2)] by blast
  obtain p1 p2 where p: "tag_of loc = Some p1" "gvalue p1 = tag_value loc" "tag_of rem = Some p2" "gvalue p2 = tag_value rem"
    using assms(3,5) unfolding tag_value_def by (cases "tag_of loc"; cases "tag_of rem") auto
  have tags: "osip_get_tag loc = Some (OSIP_SUCCESS, Some p1)" "osip_get_tag rem = Some (OSIP_SUCCESS, Some p2)"
    using assms(2,4) p by (simp_all add: osip_get_tag_of from_ok_def)
  obtain m3 where m3: "osip_strdup (tag_value loc) m2 = (tag_value loc, m3)" "never_fails m3"
    using osip_strdup_never_fails [OF m2(2)] by blast
  obtain m4 where m4: "osip_strdup (tag_value rem) m3 = (tag_value rem, m4)" "never_fails m4"
    using osip_strdup_never_fails [OF m3(2)] by blast
  obtain m5 where m5: "osip_strdup (line_value invite) m4 = (line_value invite, m5)" "never_fails m5"
    using osip_strdup_never_fails [OF m4(2)] by blast
  have routes: "\<forall>rr \<in> set (record_routes resp). from_ok rr" using assms(1) by (simp add: dialog_response_ok_def)
  obtain m6 where m6: "add_routes (if invite = None then 0 else -1) (record_routes resp) [] m5
      = ((OSIP_SUCCESS, if invite = None then rev (record_routes resp) else record_routes resp), m6)" "never_fails m6"
    using add_routes_ok [OF routes m5(2), of 0 "[]"] add_routes_ok [OF routes m5(2), of "-1" "[]"]
    by (cases "invite = None") (auto simp del: not_None_eq)
  obtain m7 where m7: "osip_from_clone (Some rem) m6 = ((0, Some rem), m7)" "never_fails m7"
    using osip_from_clone_ok [OF assms(4) m6(2)] by blast
  obtain m8 where m8: "osip_to_clone (Some loc) m7 = ((0, Some loc), m8)" "never_fails m8"
    using osip_from_clone_ok [OF assms(2) m7(2)] by (auto simp: osip_to_clone_def)
  let ?d = "(new_dialog invite resp loc rem rmsg)\<lparr>remote_contact_uri := None\<rparr>"
  obtain m9 where m9: "update_contact ?d rmsg m8
      = ((OSIP_SUCCESS, ?d\<lparr>remote_contact_uri := l_get (contacts rmsg) 0\<rparr>), m9)" "never_fails m9"
    using update_contact_ok [OF assms(7) m8(2), of ?d] by auto
  have made: "osip_dialog_zero\<lparr>
      dlg_state := if MSG_IS_STATUS 2 resp then DIALOG_CONFIRMED else DIALOG_EARLY,
      dlg_call_id := Some (callid_text c), local_tag := tag_value loc, remote_tag := tag_value rem,
      line_param := line_value invite,
      route_set := if invite = None then rev (record_routes resp) else record_routes resp,
      local_cseq := osip_atoi n, remote_uri := Some rem, local_uri := Some loc, secure := -1\<rparr> = ?d"
    by (simp add: osip_dialog_zero_def new_dialog_def c(1,3,4))
  have filled: "?d\<lparr>remote_contact_uri := l_get (contacts rmsg) 0\<rparr> = new_dialog invite resp loc rem rmsg"
    by (simp add: new_dialog_def)
  show ?thesis
    using m9(2) line_of_value [OF assms(6)] filled
    by (simp add: osip_dialog_init_def c m1 m2 m3 m4 m5 m6 m7 m8 m9(1) made tags p
        del: not_None_eq l_get_0 split del: if_split)
qed

lemma dialog_response_okE:
  assumes "dialog_response_ok resp"
  obtains c q n f t where "call_id resp = Some c" "callid_number c \<noteq> None" "cseq resp = Some q" "cseq_number q = Some n"
    "msg_from resp = Some f" "from_ok f" "tag_value f \<noteq> None" "msg_to resp = Some t" "from_ok t" "tag_value t \<noteq> None"
    "contact_ok resp"
  using assms unfolding dialog_response_ok_def by blast

definition uac_dialog :: "osip_message \<Rightarrow> osip_dialog" where
  "uac_dialog resp = (new_dialog None resp (the (msg_from resp)) (the (msg_to resp)) resp)
     \<lparr>dlg_type := CALLER, remote_cseq := -1\<rparr>"

definition uas_dialog :: "osip_message \<Rightarrow> osip_message \<Rightarrow> osip_dialog" where
  "uas_dialog invite resp =
    (let d = new_dialog (Some invite) resp (the (msg_to resp)) (the (msg_from resp)) invite
     in d\<lparr>dlg_type := CALLEE, remote_cseq := local_cseq d\<rparr>)"

lemma osip_dialog_init_as_uac_ok:
  assumes "dialog_response_ok resp" "never_fails m"
  shows "\<exists>m'. osip_dialog_init_as_uac (Some resp) m = Some ((OSIP_SUCCESS, Some (uac_dialog resp)), m') \<and> never_fails m'"
proof -
  obtain c q n f t where r: "call_id resp = Some c" "callid_number c \<noteq> None" "cseq resp = Some q" "cseq_number q = Some n"
      "msg_from resp = Some f" "from_ok f" "tag_value f \<noteq> None" "msg_to resp = Some t" "from_ok t" "tag_value t \<noteq> None"
      "contact_ok resp"
    using dialog_response_okE [OF assms(1)] .
  show ?thesis
    using osip_dialog_init_ok [OF assms(1) r(6,7,9,10) _ r(11) assms(2), of None] r(5,8)
    by (auto simp: osip_dialog_init_as_uac_def uac_dialog_def)
qed

lemma osip_dialog_init_as_uas_ok:
  assumes "dialog_response_ok resp" "dialog_request_ok invite" "never_fails m"
  shows "\<exists>m'. osip_dialog_init_as_uas (Some invite) (Some resp) m
    = Some ((OSIP_SUCCESS, Some (uas_dialog invite resp)), m') \<and> never_fails m'"
proof -
  obtain c q n f t where r: "call_id resp = Some c" "callid_number c \<noteq> None" "cseq resp = Some q" "cseq_number q = Some n"
      "msg_from resp = Some f" "from_ok f" "tag_value f \<noteq> None" "msg_to resp = Some t" "from_ok t" "tag_value t \<noteq> None"
      "contact_ok resp"
    using dialog_response_okE [OF assms(1)] .
  have "contact_ok invite" using assms(2) by (simp add: dialog_request_ok_def)
  then obtain m' where "osip_dialog_init (Some invite) (Some resp) (Some t) (Some f) (Some invite) m
      = Some ((OSIP_SUCCESS, Some (new_dialog (Some invite) resp t f invite)), m')" "never_fails m'"
    using osip_dialog_init_ok [OF assms(1) r(9,10,6,7) _ _ assms(3), of "Some invite" invite] assms(2) by auto
  then show ?thesis
    using r by (simp add: osip_dialog_init_as_uas_def uas_dialog_def new_dialog_def Let_def del: not_None_eq)
qed

text \<open>Both sides know the same call, with the roles exchanged; the callee's route set runs backwards.\<close>

lemma dialogs_agree:
  assumes "dialog_response_ok resp"
  shows "dlg_call_id (uac_dialog resp) = dlg_call_id (uas_dialog invite resp)"
    "local_tag (uac_dialog resp) = remote_tag (uas_dialog invite resp)"
    "remote_tag (uac_dialog resp) = local_tag (uas_dialog invite resp)"
    "local_uri (uac_dialog resp) = remote_uri (uas_dialog invite resp)"
    "remote_uri (uac_dialog resp) = local_uri (uas_dialog invite resp)"
    "route_set (uac_dialog resp) = rev (route_set (uas_dialog invite resp))"
    "local_cseq (uac_dialog resp) = remote_cseq (uas_dialog invite resp)"
    "dlg_state (uac_dialog resp) = dlg_state (uas_dialog invite resp)"
  by (simp_all add: uac_dialog_def uas_dialog_def new_dialog_def Let_def)

lemma dialog_tags:
  assumes "dialog_response_ok resp"
  shows "\<exists>cid lt rt. dlg_call_id (uac_dialog resp) = Some cid \<and> local_tag (uac_dialog resp) = Some lt
    \<and> remote_tag (uac_dialog resp) = Some rt"
proof -
  obtain c q n f t where "call_id resp = Some c" "callid_number c \<noteq> None" "cseq resp = Some q" "cseq_number q = Some n"
      "msg_from resp = Some f" "from_ok f" "tag_value f \<noteq> None" "msg_to resp = Some t" "from_ok t" "tag_value t \<noteq> None"
      "contact_ok resp"
    using dialog_response_okE [OF assms] .
  then show ?thesis by (simp add: uac_dialog_def new_dialog_def)
qed

section \<open>What an update may change\<close>

datatype dialog_call =
    UpdateRouteSetAsUas "osip_message option"
  | UpdateCseqAsUas "osip_message option"
  | UpdateRouteSetAsUac "osip_message option"
  | UpdateTagAsUac "osip_message option"

fun dialog_after :: "dialog_call \<Rightarrow> osip_dialog \<Rightarrow> mem \<Rightarrow> (osip_dialog option \<times> mem) option" where
  "dialog_after (UpdateRouteSetAsUas msg) d m =
    (case osip_dialog_update_route_set_as_uas (Some d) msg m of ((i, d), m) \<Rightarrow> Some (d, m))"
| "dialog_after (UpdateCseqAsUas msg) d m = Some (snd (osip_dialog_update_osip_cseq_as_uas (Some d) msg), m)"
| "dialog_after (UpdateRouteSetAsUac msg) d m =
    (case osip_dialog_update_route_set_as_uac (Some d) msg m of ((i, d), m) \<Rightarrow> Some (d, m))"
| "dialog_after (UpdateTagAsUac msg) d m = do {
     ((i, d), m) \<leftarrow> osip_dialog_update_tag_as_uac (Some d) msg m;
     Some (d, m)
   }"

inductive dialog_reaches :: "osip_dialog \<Rightarrow> osip_dialog \<Rightarrow> bool" where
  refl: "dialog_reaches d d"
| step: "dialog_reaches d d' \<Longrightarrow> dialog_after c d' m = Some (Some d'', m') \<Longrightarrow> dialog_reaches d d''"

text \<open>Who the call is between never changes, the remote tag and the route set once they are settled.\<close>

definition dialog_keeps :: "osip_dialog \<Rightarrow> osip_dialog \<Rightarrow> bool" where
  "dialog_keeps d d' \<longleftrightarrow> dlg_call_id d' = dlg_call_id d \<and> local_tag d' = local_tag d
    \<and> local_uri d' = local_uri d \<and> remote_uri d' = remote_uri d \<and> line_param d' = line_param d
    \<and> local_cseq d' = local_cseq d \<and> dlg_type d' = dlg_type d
    \<and> (remote_tag d \<noteq> None \<longrightarrow> remote_tag d' = remote_tag d)
    \<and> (dlg_state d = DIALOG_CONFIRMED \<longrightarrow> dlg_state d' = DIALOG_CONFIRMED \<and> route_set d' = route_set d)"

lemma dialog_keeps_refl: "dialog_keeps d d" by (simp add: dialog_keeps_def)

lemma dialog_keeps_trans: "dialog_keeps a b \<Longrightarrow> dialog_keeps b c \<Longrightarrow> dialog_keeps a c"
  by (simp add: dialog_keeps_def)

lemma update_contact_keeps: "update_contact d msg m = ((i, d'), m') \<Longrightarrow> dialog_keeps d d' \<and> dlg_state d' = dlg_state d"
  by (auto simp: update_contact_def dialog_keeps_def split: if_splits prod.splits)

lemma dialog_call_keeps:
  assumes "dialog_after c d m = Some (Some d', m')"
  shows "dialog_keeps d d'"
proof (cases c)
  case (UpdateRouteSetAsUas msg)
  then show ?thesis
    using assms by (auto simp: osip_dialog_update_route_set_as_uas_def dialog_keeps_refl
        split: option.splits prod.splits dest: update_contact_keeps)
next
  case (UpdateCseqAsUas msg)
  then show ?thesis
    using assms by (auto simp: osip_dialog_update_osip_cseq_as_uas_def dialog_keeps_def split: option.splits)
next
  case (UpdateRouteSetAsUac msg)
  show ?thesis
  proof (cases msg)
    case (Some resp)
    obtain i d1 m1 where d1: "update_contact d resp m = ((i, d1), m1)" by (metis prod.exhaust)
    have keeps: "dialog_keeps d d1" using update_contact_keeps [OF d1] by simp
    have "dialog_keeps d1 (d1\<lparr>route_set := rs\<rparr>)" "dialog_keeps d1 (d1\<lparr>route_set := rs, dlg_state := DIALOG_CONFIRMED\<rparr>)"
      if "dlg_state d1 = DIALOG_EARLY \<or> rs = route_set d1" for rs
      using that by (auto simp: dialog_keeps_def)
    then have "dialog_keeps d1 d'"
      using assms UpdateRouteSetAsUac Some d1
      by (auto simp: osip_dialog_update_route_set_as_uac_def dialog_keeps_refl Let_def split: if_splits prod.splits)
    then show ?thesis using keeps dialog_keeps_trans by blast
  qed (use assms UpdateRouteSetAsUac in \<open>simp add: osip_dialog_update_route_set_as_uac_def dialog_keeps_refl\<close>)
next
  case (UpdateTagAsUac msg)
  then show ?thesis
    using assms by (auto simp: osip_dialog_update_tag_as_uac_def dialog_keeps_def Let_def
        split: option.splits prod.splits if_splits bind_splits)
qed

lemma dialog_reaches_keeps: "dialog_reaches d d' \<Longrightarrow> dialog_keeps d d'"
  by (induction rule: dialog_reaches.induct)
    (auto intro: dialog_keeps_refl dialog_keeps_trans dest: dialog_call_keeps)

end
