(* ===== verification/Dialog_Samples.thy ===== *)
theory Dialog_Samples
  imports Osip_Dialog Samples
begin

text \<open>
  What a later message of a dialog is matched by, and the answer to the call of \<^verbatim>\<open>Samples\<close>, of
  which both ends make their dialog.
\<close>

section \<open>Both ends\<close>

lemma both_ends_agree:
  assumes "dialog_response_ok resp" "dialog_request_ok invite" "never_fails m"
  shows "\<exists>c d m1 m2. osip_dialog_init_as_uac (Some resp) m = Some ((OSIP_SUCCESS, Some c), m1)
    \<and> osip_dialog_init_as_uas (Some invite) (Some resp) m = Some ((OSIP_SUCCESS, Some d), m2)
    \<and> dlg_call_id c = dlg_call_id d \<and> dlg_state c = dlg_state d
    \<and> local_tag c = remote_tag d \<and> remote_tag c = local_tag d
    \<and> local_uri c = remote_uri d \<and> remote_uri c = local_uri d
    \<and> route_set c = rev (route_set d) \<and> local_cseq c = remote_cseq d
    \<and> (\<forall>r cid f t. call_id r = Some cid \<and> callid_number cid \<noteq> None \<and> msg_from r = Some f \<and> msg_to r = Some t
         \<and> tag_ok f \<and> tag_ok t \<longrightarrow>
         (\<exists>i m'. osip_dialog_match_as_uas (Some d) (Some r) m = Some (i, m')
            \<and> (i = OSIP_SUCCESS \<longleftrightarrow> Some (callid_text cid) = dlg_call_id c \<and> tag_value f = local_tag c))
         \<and> (\<exists>i m'. osip_dialog_match_as_uac (Some c) (Some r) m = Some (i, m')
            \<and> (i = OSIP_SUCCESS \<longleftrightarrow> Some (callid_text cid) = dlg_call_id d
                 \<and> tag_value f = remote_tag d \<and> tag_value t = local_tag d)))"
proof -
  let ?c = "uac_dialog resp" and ?d = "uas_dialog invite resp"
  obtain m1 where m1: "osip_dialog_init_as_uac (Some resp) m = Some ((OSIP_SUCCESS, Some ?c), m1)"
    using osip_dialog_init_as_uac_ok [OF assms(1,3)] by blast
  obtain m2 where m2: "osip_dialog_init_as_uas (Some invite) (Some resp) m = Some ((OSIP_SUCCESS, Some ?d), m2)"
    using osip_dialog_init_as_uas_ok [OF assms] by blast
  note same = dialogs_agree [OF assms(1), of invite]
  obtain id lt rt where c: "dlg_call_id ?c = Some id" "local_tag ?c = Some lt" "remote_tag ?c = Some rt"
    using dialog_tags [OF assms(1)] by blast
  have d: "dlg_call_id ?d = Some id" "local_tag ?d = Some rt" "remote_tag ?d = Some lt" using same(1-3) c by simp_all
  have known: "local_tag ?c \<noteq> None" "remote_tag ?c \<noteq> None" "local_tag ?d \<noteq> None" "remote_tag ?d \<noteq> None"
    using c d by simp_all
  show ?thesis
    apply (rule exI [of _ ?c], rule exI [of _ ?d], rule exI [of _ m1], rule exI [of _ m2])
    apply (intro conjI m1 m2 same allI impI)
    subgoal for r cid f t
      using osip_dialog_match_as_uas_iff [OF d(1) known(3,4) _ _ _ _ _ assms(3), of r cid f] c d by auto
    subgoal for r cid f t
      using osip_dialog_match_as_uac_iff [OF c(1) known(1,2) _ _ _ _ _ _ assms(3), of r cid f t] c d by auto
    done
qed

section \<open>An answer\<close>

definition sample_answer :: osip_message where
  "sample_answer = (sample_response 200)\<lparr>
     msg_to := Some (sample_to\<lparr>gen_params := [\<lparr>gname = Some ''tag'', gvalue = Some ''7cb1''\<rparr>]\<rparr>),
     contacts := [sample_to], record_routes := [sample_to, sample_from]\<rparr>"

lemma has_name_code [code]: "has_name n p = (case gname p of None \<Rightarrow> False | Some s \<Rightarrow> osip_strcasecmp_eq s n)"
  by (auto simp: has_name_def split: option.split)

lemma from_ok_code [code]:
  "from_ok f \<longleftrightarrow> (case url f of None \<Rightarrow> True | Some u \<Rightarrow> uri_ok u) \<and> named (gen_params f)"
  by (simp add: from_ok_def split: option.split)

lemma sample_tags:
  "from_ok sample_from \<and> tag_value sample_from = Some ''a6c85cf''"
  "(case msg_to sample_answer of None \<Rightarrow> False | Some t \<Rightarrow> from_ok t \<and> tag_value t = Some ''7cb1'')"
  "from_ok sample_to"
  by code_simp+

lemma sample_answer_ok: "dialog_response_ok sample_answer"
proof -
  have "msg_from sample_answer = Some sample_from" by (simp add: sample_answer_def sample_defs)
  moreover obtain t where "msg_to sample_answer = Some t" "from_ok t" "tag_value t \<noteq> None"
    using sample_tags(2) by (cases "msg_to sample_answer") auto
  moreover have "set (record_routes sample_answer) = {sample_to, sample_from}" "contact_ok sample_answer"
    using sample_tags(3) by (auto simp: sample_answer_def contact_ok_def)
  ultimately show ?thesis
    using sample_tags(1,3) by (simp add: dialog_response_ok_def) (simp add: sample_answer_def sample_response_def sample_request_def)
qed

lemma sample_invite_ok: "dialog_request_ok sample_invite"
  by (simp add: dialog_request_ok_def contact_ok_def sample_defs)

lemma sample_update:
  "\<exists>d m. dialog_after (UpdateCseqAsUas (Some sample_invite)) (uac_dialog sample_answer) [] = Some (Some d, m)
    \<and> remote_cseq d = 1"
proof -
  have "map_option (map_option remote_cseq \<circ> fst)
      (dialog_after (UpdateCseqAsUas (Some sample_invite)) (uac_dialog sample_answer) []) = Some (Some 1)"
    by code_simp
  then show ?thesis by auto
qed

end
