(* ===== verification/Osip_Md5.thy ===== *)
theory Osip_Md5
  imports Prelude "HOL-Library.Word"
begin

unbundle bit_operations_syntax

text \<open>
  \<^verbatim>\<open>osip_md5c.c\<close>: the MD5 digest the authentication of \<^verbatim>\<open>eXosip\<close> is built on. \<^verbatim>\<open>UINT4\<close> is a
  32 bit word, a byte an 8 bit word. The reference is RFC 1321: pad the whole message, then digest it
  block by block. The code takes the message in pieces and keeps a buffer.
\<close>

section \<open>The transformation of a block\<close>

type_synonym UINT4 = "32 word"
type_synonym byte = "8 word"
type_synonym md5_state = "UINT4 \<times> UINT4 \<times> UINT4 \<times> UINT4"

definition md5_F :: "UINT4 \<Rightarrow> UINT4 \<Rightarrow> UINT4 \<Rightarrow> UINT4" where "md5_F x y z = (x AND y) OR (NOT x AND z)"
definition md5_G :: "UINT4 \<Rightarrow> UINT4 \<Rightarrow> UINT4 \<Rightarrow> UINT4" where "md5_G x y z = (x AND z) OR (y AND NOT z)"
definition md5_H :: "UINT4 \<Rightarrow> UINT4 \<Rightarrow> UINT4 \<Rightarrow> UINT4" where "md5_H x y z = x XOR y XOR z"
definition md5_I :: "UINT4 \<Rightarrow> UINT4 \<Rightarrow> UINT4 \<Rightarrow> UINT4" where "md5_I x y z = y XOR (x OR NOT z)"

definition ROTATE_LEFT :: "UINT4 \<Rightarrow> nat \<Rightarrow> UINT4" where
  "ROTATE_LEFT x n = push_bit n x OR drop_bit (32 - n) x"

text \<open>
  A step \<^verbatim>\<open>FF (a, b, c, d, x[k], s, ac)\<close>. The next step names the variables \<open>d, a, b, c\<close>, so the
  answer is turned by one.
\<close>

type_synonym md5_op = "(UINT4 \<Rightarrow> UINT4 \<Rightarrow> UINT4 \<Rightarrow> UINT4) \<times> nat \<times> nat \<times> UINT4"

fun md5_step :: "UINT4 list \<Rightarrow> md5_op \<Rightarrow> md5_state \<Rightarrow> md5_state" where
  "md5_step x (f, k, s, ac) (a, b, c, d) = (d, ROTATE_LEFT (a + (f b c d + x ! k + ac)) s + b, b, c)"

definition md5_ops :: "md5_op list" where
  "md5_ops =
    [(md5_F, 0, 7, 0xd76aa478), (md5_F, 1, 12, 0xe8c7b756),
     (md5_F, 2, 17, 0x242070db), (md5_F, 3, 22, 0xc1bdceee),
     (md5_F, 4, 7, 0xf57c0faf), (md5_F, 5, 12, 0x4787c62a),
     (md5_F, 6, 17, 0xa8304613), (md5_F, 7, 22, 0xfd469501),
     (md5_F, 8, 7, 0x698098d8), (md5_F, 9, 12, 0x8b44f7af),
     (md5_F, 10, 17, 0xffff5bb1), (md5_F, 11, 22, 0x895cd7be),
     (md5_F, 12, 7, 0x6b901122), (md5_F, 13, 12, 0xfd987193),
     (md5_F, 14, 17, 0xa679438e), (md5_F, 15, 22, 0x49b40821),
     (md5_G, 1, 5, 0xf61e2562), (md5_G, 6, 9, 0xc040b340),
     (md5_G, 11, 14, 0x265e5a51), (md5_G, 0, 20, 0xe9b6c7aa),
     (md5_G, 5, 5, 0xd62f105d), (md5_G, 10, 9, 0x2441453),
     (md5_G, 15, 14, 0xd8a1e681), (md5_G, 4, 20, 0xe7d3fbc8),
     (md5_G, 9, 5, 0x21e1cde6), (md5_G, 14, 9, 0xc33707d6),
     (md5_G, 3, 14, 0xf4d50d87), (md5_G, 8, 20, 0x455a14ed),
     (md5_G, 13, 5, 0xa9e3e905), (md5_G, 2, 9, 0xfcefa3f8),
     (md5_G, 7, 14, 0x676f02d9), (md5_G, 12, 20, 0x8d2a4c8a),
     (md5_H, 5, 4, 0xfffa3942), (md5_H, 8, 11, 0x8771f681),
     (md5_H, 11, 16, 0x6d9d6122), (md5_H, 14, 23, 0xfde5380c),
     (md5_H, 1, 4, 0xa4beea44), (md5_H, 4, 11, 0x4bdecfa9),
     (md5_H, 7, 16, 0xf6bb4b60), (md5_H, 10, 23, 0xbebfbc70),
     (md5_H, 13, 4, 0x289b7ec6), (md5_H, 0, 11, 0xeaa127fa),
     (md5_H, 3, 16, 0xd4ef3085), (md5_H, 6, 23, 0x4881d05),
     (md5_H, 9, 4, 0xd9d4d039), (md5_H, 12, 11, 0xe6db99e5),
     (md5_H, 15, 16, 0x1fa27cf8), (md5_H, 2, 23, 0xc4ac5665),
     (md5_I, 0, 6, 0xf4292244), (md5_I, 7, 10, 0x432aff97),
     (md5_I, 14, 15, 0xab9423a7), (md5_I, 5, 21, 0xfc93a039),
     (md5_I, 12, 6, 0x655b59c3), (md5_I, 3, 10, 0x8f0ccc92),
     (md5_I, 10, 15, 0xffeff47d), (md5_I, 1, 21, 0x85845dd1),
     (md5_I, 8, 6, 0x6fa87e4f), (md5_I, 15, 10, 0xfe2ce6e0),
     (md5_I, 6, 15, 0xa3014314), (md5_I, 13, 21, 0x4e0811a1),
     (md5_I, 4, 6, 0xf7537e82), (md5_I, 11, 10, 0xbd3af235),
     (md5_I, 2, 15, 0x2ad7d2bb), (md5_I, 9, 21, 0xeb86d391)]"

fun osip_Encode :: "UINT4 list \<Rightarrow> byte list" where
  "osip_Encode [] = []"
| "osip_Encode (w # ws) =
    ucast w # ucast (drop_bit 8 w) # ucast (drop_bit 16 w) # ucast (drop_bit 24 w) # osip_Encode ws"

fun osip_Decode :: "byte list \<Rightarrow> UINT4 list" where
  "osip_Decode (a # b # c # d # bs) =
    (ucast a OR push_bit 8 (ucast b) OR push_bit 16 (ucast c) OR push_bit 24 (ucast d)) # osip_Decode bs"
| "osip_Decode bs = []"

definition osip_MD5Transform :: "md5_state \<Rightarrow> byte list \<Rightarrow> md5_state" where
  "osip_MD5Transform state block =
    (case (state, fold (md5_step (osip_Decode block)) md5_ops state) of
       ((s0, s1, s2, s3), (a, b, c, d)) \<Rightarrow> (s0 + a, s1 + b, s2 + c, s3 + d))"

section \<open>The context\<close>

record osip_MD5_CTX =
  ctx_state :: md5_state
  ctx_count0 :: UINT4
  ctx_count1 :: UINT4
  ctx_buffer :: "byte list"

text \<open>The buffer of a new context is not initialised; \<open>garbage\<close> is what it holds.\<close>

definition osip_MD5Init :: "byte list \<Rightarrow> osip_MD5_CTX" where
  "osip_MD5Init garbage =
    \<lparr>ctx_state = (0x67452301, 0xefcdab89, 0x98badcfe, 0x10325476), ctx_count0 = 0, ctx_count1 = 0, ctx_buffer = garbage\<rparr>"

text \<open>\<^verbatim>\<open>memcpy (&buffer[index], input, len)\<close> inside of both arrays.\<close>

definition osip_MD5_memcpy :: "byte list \<Rightarrow> nat \<Rightarrow> byte list \<Rightarrow> nat \<Rightarrow> byte list option" where
  "osip_MD5_memcpy buf index input len =
    (if index + len \<le> length buf \<and> len \<le> length input
     then Some (take index buf @ take len input @ drop (index + len) buf) else None)"

text \<open>
  \<^verbatim>\<open>for (i = partLen; i + 63 < inputLen; i += 64)\<close>; the sum is one of \<^verbatim>\<open>unsigned int\<close>. The answer has
  \<^verbatim>\<open>i\<close> at the end of the loop.
\<close>

function md5_blocks :: "byte list \<Rightarrow> nat \<Rightarrow> md5_state \<Rightarrow> (md5_state \<times> nat) option" where
  "md5_blocks input i st =
    (if (i + 63) mod 2 ^ 32 < length input
     then if i + 64 \<le> length input
       then md5_blocks input (i + 64) (osip_MD5Transform st (take 64 (drop i input)))
       else None
     else Some (st, i))"
  by pat_completeness auto
termination
  by (relation "measure (\<lambda>(input, i, st). length input - i)") auto

declare md5_blocks.simps [simp del]

definition osip_MD5Update :: "osip_MD5_CTX \<Rightarrow> byte list \<Rightarrow> osip_MD5_CTX option" where
  "osip_MD5Update context input =
    (let inputLen = of_nat (length input) :: UINT4;
         index = unat (drop_bit 3 (ctx_count0 context) AND 0x3F);
         c0 = ctx_count0 context + push_bit 3 inputLen;
         c1 = ctx_count1 context + (if c0 < push_bit 3 inputLen then 1 else 0) + drop_bit 29 inputLen;
         context = context\<lparr>ctx_count0 := c0, ctx_count1 := c1\<rparr>;
         partLen = 64 - index
     in if length input \<ge> partLen
        then do {
          b \<leftarrow> osip_MD5_memcpy (ctx_buffer context) index input partLen;
          (st, i) \<leftarrow> md5_blocks input partLen (osip_MD5Transform (ctx_state context) b);
          b \<leftarrow> osip_MD5_memcpy b 0 (drop i input) (length input - i);
          Some (context\<lparr>ctx_state := st, ctx_buffer := b\<rparr>)
        }
        else do {
          b \<leftarrow> osip_MD5_memcpy (ctx_buffer context) index input (length input);
          Some (context\<lparr>ctx_buffer := b\<rparr>)
        })"

definition PADDING :: "byte list" where "PADDING = 0x80 # replicate 63 0"

definition osip_MD5Final :: "osip_MD5_CTX \<Rightarrow> byte list option" where
  "osip_MD5Final context =
    (let bits = osip_Encode [ctx_count0 context, ctx_count1 context];
         index = unat (drop_bit 3 (ctx_count0 context) AND 0x3F);
         padLen = (if index < 56 then 56 - index else 120 - index)
     in do {
       context \<leftarrow> osip_MD5Update context (take padLen PADDING);
       context \<leftarrow> osip_MD5Update context bits;
       Some (case ctx_state context of (a, b, c, d) \<Rightarrow> osip_Encode [a, b, c, d])
     })"

section \<open>RFC 1321\<close>

text \<open>The message is padded with a one bit, zeros, and its length in bits, the low word first.\<close>

definition md5_pad :: "byte list \<Rightarrow> byte list" where
  "md5_pad msg = msg @ 0x80 # replicate ((119 - length msg mod 64) mod 64) 0
     @ osip_Encode [of_nat (8 * length msg), of_nat (8 * length msg div 2 ^ 32)]"

function blocks64 :: "byte list \<Rightarrow> byte list list" where
  "blocks64 bs = (if length bs < 64 then [] else take 64 bs # blocks64 (drop 64 bs))"
  by pat_completeness auto
termination
  by (relation "measure length") auto

declare blocks64.simps [simp del]

definition md5_initial :: md5_state where
  "md5_initial = (0x67452301, 0xefcdab89, 0x98badcfe, 0x10325476)"

definition md5_digest :: "byte list \<Rightarrow> byte list" where
  "md5_digest msg =
    (case foldl osip_MD5Transform md5_initial (blocks64 (md5_pad msg)) of (a, b, c, d) \<Rightarrow> osip_Encode [a, b, c, d])"

definition bytes_of :: "string \<Rightarrow> byte list" where "bytes_of s = map (\<lambda>c. of_nat (of_char c)) s"

section \<open>Blocks\<close>

lemma blocks64_short [simp]: "length bs < 64 \<Longrightarrow> blocks64 bs = []"
  by (simp add: blocks64.simps)

lemma blocks64_block: "length b = 64 \<Longrightarrow> blocks64 (b @ bs) = b # blocks64 bs"
  by (simp add: blocks64.simps [of "b @ bs"])

lemma blocks64_append: "64 dvd length a \<Longrightarrow> blocks64 (a @ b) = blocks64 a @ blocks64 b"
proof (induction a rule: blocks64.induct)
  case (1 a)
  show ?case
  proof (cases "length a < 64")
    case True
    then have "a = []" using 1 by (auto simp: dvd_def)
    then show ?thesis by simp
  next
    case False
    then have a: "a = take 64 a @ drop 64 a" "length (take 64 a) = 64" by simp_all
    have "64 dvd length (drop 64 a)" using 1(2) False by simp
    from 1(1) [OF False this] have "blocks64 (take 64 a @ drop 64 a @ b) = take 64 a # blocks64 (drop 64 a) @ blocks64 b"
      using blocks64_block [OF a(2)] by simp
    moreover have "blocks64 a = take 64 a # blocks64 (drop 64 a)" using False by (simp add: blocks64.simps [of a])
    ultimately show ?thesis using a(1) by (metis append.assoc append_Cons)
  qed
qed

text \<open>What is left behind the blocks.\<close>

definition tail64 :: "byte list \<Rightarrow> byte list" where
  "tail64 bs = drop (length bs - length bs mod 64) bs"

lemma tail64_split:
  obtains full where "bs = full @ tail64 bs" "64 dvd length full" "length (tail64 bs) = length bs mod 64"
    "blocks64 bs = blocks64 full"
proof -
  let ?full = "take (length bs - length bs mod 64) bs"
  have bs: "bs = ?full @ tail64 bs" by (simp add: tail64_def)
  have len: "64 dvd length ?full" "length (tail64 bs) = length bs mod 64"
    by (simp_all add: tail64_def)
  have "blocks64 bs = blocks64 ?full @ blocks64 (tail64 bs)"
    using blocks64_append [OF len(1), of "tail64 bs"] bs by simp
  then show thesis using that [OF bs len] len(2) by simp
qed

lemma tail64_small: "length bs < 64 \<Longrightarrow> tail64 bs = bs"
  by (simp add: tail64_def)

lemma tail64_append: "64 dvd length a \<Longrightarrow> tail64 (a @ b) = tail64 b"
  by (auto simp: tail64_def dvd_def)

section \<open>The count of bits\<close>

lemma unat_below: "unat (w :: UINT4) < 2 ^ 32"
  by (rule order_less_le_trans [OF unsigned_less]) simp

lemma join: "(y :: nat) < 2 ^ 32 \<Longrightarrow> (x * 2 ^ 32 + y) mod 2 ^ 64 = x mod 2 ^ 32 * 2 ^ 32 + y"
  using mod_mult2_eq [of "x * 2 ^ 32 + y" "2 ^ 32" "2 ^ 32"] by simp

lemma carry:
  fixes c0 c1 :: UINT4
  assumes "n < 2 ^ 32"
  shows "unat (c1 + (if c0 + push_bit 3 (of_nat n) < push_bit 3 (of_nat n) then 1 else 0) + drop_bit 29 (of_nat n)) * 2 ^ 32
      + unat (c0 + push_bit 3 (of_nat n)) = (unat c1 * 2 ^ 32 + unat c0 + 8 * n) mod 2 ^ 64"
proof -
  define low where "low = 8 * n mod 2 ^ 32"
  define high where "high = n div 2 ^ 29"
  have split: "8 * n = high * 2 ^ 32 + low"
  proof -
    have "8 * n div 2 ^ 32 = high" unfolding high_def by simp
    then show ?thesis unfolding low_def by (metis div_mult_mod_eq)
  qed
  have L: "unat (push_bit 3 (of_nat n) :: UINT4) = low"
    using assms by (simp add: low_def push_bit_eq_mult unat_word_ariths unat_of_nat mod_mult_left_eq mod_mult_right_eq mult.commute)
  have H: "unat (drop_bit 29 (of_nat n) :: UINT4) = high"
    using assms by (simp add: high_def drop_bit_eq_div unat_div unat_of_nat)
  have low: "low < 2 ^ 32" by (simp add: low_def)
  let ?s = "unat c0 + low"
  have sum: "unat (c0 + push_bit 3 (of_nat n)) = ?s mod 2 ^ 32"
    by (simp add: unat_word_ariths L)
  have c0: "unat c0 < 2 ^ 32" by (rule unat_below)
  have over: "c0 + push_bit 3 (of_nat n) < push_bit 3 (of_nat n) \<longleftrightarrow> 2 ^ 32 \<le> ?s"
    unfolding word_less_nat_alt sum L using c0 low by (auto simp: mod_if)
  have carry: "?s div 2 ^ 32 = (if 2 ^ 32 \<le> ?s then 1 else 0)" using c0 low by auto
  have "unat (c1 + (if c0 + push_bit 3 (of_nat n) < push_bit 3 (of_nat n) then 1 else 0) + drop_bit 29 (of_nat n))
      = (unat c1 + ?s div 2 ^ 32 + high) mod 2 ^ 32"
    using carry by (cases "2 ^ 32 \<le> ?s") (simp_all add: unat_word_ariths H over mod_add_left_eq)
  then have "unat (c1 + (if c0 + push_bit 3 (of_nat n) < push_bit 3 (of_nat n) then 1 else 0) + drop_bit 29 (of_nat n)) * 2 ^ 32
      + unat (c0 + push_bit 3 (of_nat n))
    = (unat c1 + ?s div 2 ^ 32 + high) mod 2 ^ 32 * 2 ^ 32 + ?s mod 2 ^ 32" using sum by simp
  also have "\<dots> = ((unat c1 + ?s div 2 ^ 32 + high) * 2 ^ 32 + ?s mod 2 ^ 32) mod 2 ^ 64"
    by (rule join [symmetric]) simp
  also have "(unat c1 + ?s div 2 ^ 32 + high) * 2 ^ 32 + ?s mod 2 ^ 32 = unat c1 * 2 ^ 32 + unat c0 + 8 * n"
    using div_mult_mod_eq [of ?s "2 ^ 32"] split by (simp add: algebra_simps)
  finally show ?thesis .
qed

section \<open>Taking the message in pieces\<close>

text \<open>What a context says of the bytes taken so far.\<close>

definition md5_rep :: "osip_MD5_CTX \<Rightarrow> byte list \<Rightarrow> bool" where
  "md5_rep ctx msg \<longleftrightarrow> ctx_state ctx = foldl osip_MD5Transform md5_initial (blocks64 msg)
    \<and> unat (ctx_count1 ctx) * 2 ^ 32 + unat (ctx_count0 ctx) = 8 * length msg mod 2 ^ 64
    \<and> length (ctx_buffer ctx) = 64 \<and> take (length msg mod 64) (ctx_buffer ctx) = tail64 msg"

lemma md5_rep_init: "length garbage = 64 \<Longrightarrow> md5_rep (osip_MD5Init garbage) []"
  by (simp add: md5_rep_def osip_MD5Init_def md5_initial_def tail64_def)

lemma unat_low_bits: "unat (w AND 0x3F :: UINT4) = unat w mod 64"
proof -
  have "(0x3F :: UINT4) = mask 6" by (simp add: mask_eq_exp_minus_1)
  then have "w AND 0x3F = take_bit 6 w" by (simp add: take_bit_eq_mask)
  then show ?thesis by (simp add: take_bit_eq_mod unat_mod)
qed

lemma md5_index:
  assumes "md5_rep ctx msg"
  shows "unat (drop_bit 3 (ctx_count0 ctx) AND 0x3F) = length msg mod 64"
proof -
  have "8 * length msg mod 2 ^ 64 mod 2 ^ 32 = unat (ctx_count0 ctx)"
    using assms unat_below [of "ctx_count0 ctx"] unfolding md5_rep_def by (metis mod_less mod_mult_self3)
  then have "unat (ctx_count0 ctx) = 8 * length msg mod (8 * 2 ^ 29)" by (simp add: mod_mod_cancel)
  then have "unat (ctx_count0 ctx) = 8 * (length msg mod 2 ^ 29)" by (simp only: mult_mod_right)
  then have "unat (drop_bit 3 (ctx_count0 ctx)) = length msg mod 2 ^ 29" by (simp add: drop_bit_eq_div unat_div)
  then show ?thesis by (simp add: unat_low_bits mod_mod_cancel)
qed

lemma md5_blocks_ok:
  assumes "length input + 63 < 2 ^ 32" "i \<le> length input"
  shows "\<exists>k. md5_blocks input i st = Some (foldl osip_MD5Transform st (blocks64 (drop i input)), k)
    \<and> k \<le> length input \<and> drop k input = tail64 (drop i input) \<and> length input - k < 64"
  using assms(2)
proof (induction "length input - i" arbitrary: i st rule: less_induct)
  case less
  have i: "(i + 63) mod 2 ^ 32 = i + 63" using less.prems assms(1) by simp
  show ?case
  proof (cases "i + 63 < length input")
    case True
    let ?b = "take 64 (drop i input)"
    have "drop 64 (drop i input) = drop (i + 64) input" by (simp add: add.commute)
    then have b: "drop i input = ?b @ drop (i + 64) input" "length ?b = 64"
      using True append_take_drop_id [of 64 "drop i input"] by simp_all
    have "blocks64 (drop i input) = ?b # blocks64 (drop (i + 64) input)"
      using blocks64_block [OF b(2)] b(1) by metis
    moreover have "tail64 (drop i input) = tail64 (drop (i + 64) input)"
      using tail64_append [of ?b "drop (i + 64) input"] b by simp
    moreover have "md5_blocks input i st = md5_blocks input (i + 64) (osip_MD5Transform st ?b)"
      using True i by (simp add: md5_blocks.simps [of input i])
    ultimately show ?thesis using less.hyps [of "i + 64"] True by simp
  next
    case False
    then show ?thesis
      using i less.prems by (intro exI [of _ i]) (auto simp: md5_blocks.simps [of input i] tail64_def)
  qed
qed

lemma memcpy_front:
  assumes "length c \<le> length b"
  shows "\<exists>b'. osip_MD5_memcpy b 0 c (length c) = Some b' \<and> length b' = length b \<and> take (length c) b' = c"
  using assms by (simp add: osip_MD5_memcpy_def)

lemma osip_MD5Update_ok:
  assumes "md5_rep ctx msg" "length input + 63 < 2 ^ 32"
  shows "\<exists>ctx'. osip_MD5Update ctx input = Some ctx' \<and> md5_rep ctx' (msg @ input)"
proof -
  let ?idx = "length msg mod 64"
  let ?p = "64 - ?idx"
  define ctx1 where "ctx1 = ctx\<lparr>ctx_count0 := ctx_count0 ctx + push_bit 3 (of_nat (length input)),
    ctx_count1 := ctx_count1 ctx + (if ctx_count0 ctx + push_bit 3 (of_nat (length input)) < push_bit 3 (of_nat (length input)) then 1 else 0)
      + drop_bit 29 (of_nat (length input))\<rparr>"
  have rep: "ctx_state ctx = foldl osip_MD5Transform md5_initial (blocks64 msg)" "length (ctx_buffer ctx) = 64"
      "take ?idx (ctx_buffer ctx) = tail64 msg"
      "unat (ctx_count1 ctx) * 2 ^ 32 + unat (ctx_count0 ctx) = 8 * length msg mod 2 ^ 64"
    using assms(1) by (simp_all add: md5_rep_def)
  have kept: "ctx_state ctx1 = ctx_state ctx" "ctx_buffer ctx1 = ctx_buffer ctx" by (simp_all add: ctx1_def)
  have "unat (ctx_count1 ctx1) * 2 ^ 32 + unat (ctx_count0 ctx1) = (8 * length msg mod 2 ^ 64 + 8 * length input) mod 2 ^ 64"
    unfolding ctx1_def using carry [of "length input" "ctx_count1 ctx" "ctx_count0 ctx"] assms(2) rep(4) by simp
  then have count: "unat (ctx_count1 ctx1) * 2 ^ 32 + unat (ctx_count0 ctx1) = 8 * length (msg @ input) mod 2 ^ 64"
    by (simp add: mod_add_left_eq)
  obtain full where full: "msg = full @ tail64 msg" "64 dvd length full" "length (tail64 msg) = ?idx"
      "blocks64 msg = blocks64 full"
    by (rule tail64_split [of msg]) blast
  have idx: "?idx < 64" by simp
  note update = osip_MD5Update_def [of ctx input, unfolded Let_def md5_index [OF assms(1)], folded ctx1_def]
  show ?thesis
  proof (cases "?p \<le> length input")
    case True
    let ?b = "tail64 msg @ take ?p input"
    have b: "osip_MD5_memcpy (ctx_buffer ctx1) ?idx input ?p = Some ?b"
      using True rep(2,3) kept by (simp add: osip_MD5_memcpy_def)
    have len: "length ?b = 64" using True full(3) by simp
    have whole: "msg @ input = full @ ?b @ drop ?p input" using full(1) by simp
    have blocks: "blocks64 (msg @ input) = blocks64 msg @ ?b # blocks64 (drop ?p input)"
      unfolding whole full(4) by (simp add: blocks64_append [OF full(2)] blocks64_block [OF len] del: append_assoc) 
    have tail: "tail64 (msg @ input) = tail64 (drop ?p input)"
      unfolding whole tail64_append [OF full(2)] by (rule tail64_append) (use len in simp)
    obtain k where k: "md5_blocks input ?p (osip_MD5Transform (ctx_state ctx1) ?b)
        = Some (foldl osip_MD5Transform (osip_MD5Transform (ctx_state ctx1) ?b) (blocks64 (drop ?p input)), k)"
        "k \<le> length input" "drop k input = tail64 (drop ?p input)" "length input - k < 64"
      using md5_blocks_ok [OF assms(2) True] by blast
    obtain b' where b': "osip_MD5_memcpy ?b 0 (drop k input) (length input - k) = Some b'"
        "length b' = 64" "take (length input - k) b' = drop k input"
      using memcpy_front [of "drop k input" ?b] len k(4) by auto
    have "length (msg @ input) mod 64 = length input - k"
    proof -
      have "length (tail64 (msg @ input)) = length (msg @ input) mod 64" by (rule tail64_split) 
      then show ?thesis using tail k(3) by (metis length_drop)
    qed
    then have "md5_rep (ctx1\<lparr>ctx_state := foldl osip_MD5Transform (osip_MD5Transform (ctx_state ctx1) ?b) (blocks64 (drop ?p input)),
        ctx_buffer := b'\<rparr>) (msg @ input)"
      using count blocks tail k(3) b'(2,3) rep(1) kept by (simp add: md5_rep_def)
    then show ?thesis using True b k(1) b'(1) by (simp add: update)
  next
    case False
    let ?b = "tail64 msg @ input @ drop (?idx + length input) (ctx_buffer ctx)"
    have b: "osip_MD5_memcpy (ctx_buffer ctx1) ?idx input (length input) = Some ?b"
      using False rep(2,3) kept by (simp add: osip_MD5_memcpy_def)
    have short: "length (tail64 msg @ input) < 64" using False full(3) by simp
    have whole: "msg @ input = full @ tail64 msg @ input" using full(1) by simp
    have blocks: "blocks64 (msg @ input) = blocks64 msg"
      unfolding whole full(4) using blocks64_append [OF full(2)] short by simp
    have tail: "tail64 (msg @ input) = tail64 msg @ input"
      unfolding whole tail64_append [OF full(2)] by (rule tail64_small [OF short])
    have "length (msg @ input) mod 64 = length (tail64 msg @ input)"
      using tail by (metis tail64_split)
    then have "md5_rep (ctx1\<lparr>ctx_buffer := ?b\<rparr>) (msg @ input)"
      using count blocks tail rep(1,2) kept full(3) False by (simp add: md5_rep_def)
    then show ?thesis using False b by (simp add: update)
  qed
qed

lemma osip_MD5Update_all:
  assumes "md5_rep ctx msg" "\<forall>p \<in> set pieces. length p + 63 < 2 ^ 32"
  shows "\<exists>ctx'. fold (\<lambda>p c. Option.bind c (\<lambda>c. osip_MD5Update c p)) pieces (Some ctx) = Some ctx'
    \<and> md5_rep ctx' (msg @ concat pieces)"
  using assms
proof (induction pieces arbitrary: ctx msg)
  case (Cons p ps)
  then obtain c where "osip_MD5Update ctx p = Some c" "md5_rep c (msg @ p)"
    using osip_MD5Update_ok [of ctx msg p] by auto
  then show ?case using Cons.IH [of c "msg @ p"] Cons.prems(2) by simp
qed simp

text \<open>The padding of the code is that of RFC 1321.\<close>

lemma padding:
  assumes "idx < 64"
  shows "take (if idx < 56 then 56 - idx else 120 - idx) PADDING = 0x80 # replicate ((119 - idx) mod 64) 0"
proof -
  have "(119 - idx) mod 64 = (if idx < 56 then 55 - idx else 119 - idx)"
    using assms mod_add_self2 [of "55 - idx" 64] by (auto simp: mod_if)
  then show ?thesis
    using assms by (auto simp: PADDING_def take_Cons' min_def)
qed

lemma count_bits:
  assumes "unat c1 * 2 ^ 32 + unat c0 = n mod 2 ^ 64"
  shows "c0 = (of_nat n :: UINT4)" "c1 = (of_nat (n div 2 ^ 32) :: UINT4)"
proof -
  have "unat c0 = (unat c1 * 2 ^ 32 + unat c0) mod 2 ^ 32" using unat_below [of c0] by simp
  also have "\<dots> = n mod 2 ^ 32" unfolding assms by (simp add: mod_mod_cancel)
  finally show "c0 = (of_nat n :: UINT4)" by (simp add: word_unat_eq_iff unat_of_nat)
  have "unat c1 = (unat c1 * 2 ^ 32 + unat c0) div 2 ^ 32" using unat_below [of c0] by simp
  also have "\<dots> = n mod (2 ^ 32 * 2 ^ 32) div 2 ^ 32" unfolding assms by simp
  also have "\<dots> = n div 2 ^ 32 mod 2 ^ 32" unfolding mod_mult2_eq by simp
  finally show "c1 = (of_nat (n div 2 ^ 32) :: UINT4)" by (simp add: word_unat_eq_iff unat_of_nat)
qed

lemma osip_MD5Final_ok:
  assumes "md5_rep ctx msg"
  shows "osip_MD5Final ctx = Some (md5_digest msg)"
proof -
  let ?idx = "length msg mod 64"
  let ?pad = "take (if ?idx < 56 then 56 - ?idx else 120 - ?idx) PADDING"
  let ?bits = "osip_Encode [ctx_count0 ctx, ctx_count1 ctx]"
  have pad: "?pad = 0x80 # replicate ((119 - ?idx) mod 64) 0" by (rule padding) simp
  have bits: "?bits = osip_Encode [of_nat (8 * length msg), of_nat (8 * length msg div 2 ^ 32)]"
    using count_bits [of "ctx_count1 ctx" "ctx_count0 ctx" "8 * length msg"] assms by (simp add: md5_rep_def)
  have "length ?pad \<le> length PADDING" by simp
  then have small: "length ?pad + 63 < 2 ^ 32" by (simp add: PADDING_def)
  obtain c1 where c1: "osip_MD5Update ctx ?pad = Some c1" "md5_rep c1 (msg @ ?pad)"
    using osip_MD5Update_ok [OF assms, of ?pad] small by blast
  obtain c2 where c2: "osip_MD5Update c1 ?bits = Some c2" "md5_rep c2 ((msg @ ?pad) @ ?bits)"
    using osip_MD5Update_ok [OF c1(2), of ?bits] by auto
  have "(msg @ ?pad) @ ?bits = md5_pad msg" unfolding pad bits by (simp add: md5_pad_def)
  then have "ctx_state c2 = foldl osip_MD5Transform md5_initial (blocks64 (md5_pad msg))"
    using c2(2) by (simp add: md5_rep_def)
  then show ?thesis
    using c1(1) c2(1) by (simp add: osip_MD5Final_def Let_def md5_index [OF assms] md5_digest_def)
qed

text \<open>
  Any message, in any pieces: what \<^verbatim>\<open>osip_MD5Init\<close>, \<^verbatim>\<open>osip_MD5Update\<close> for each and
  \<^verbatim>\<open>osip_MD5Final\<close> give is the digest of RFC 1321, and no access is outside of an array.
\<close>

definition md5_of_pieces :: "byte list \<Rightarrow> byte list list \<Rightarrow> byte list option" where
  "md5_of_pieces garbage pieces =
    Option.bind (fold (\<lambda>p c. Option.bind c (\<lambda>c. osip_MD5Update c p)) pieces (Some (osip_MD5Init garbage))) osip_MD5Final"

theorem md5_of_pieces_digest:
  assumes "length garbage = 64" "\<forall>p \<in> set pieces. length p + 63 < 2 ^ 32"
  shows "md5_of_pieces garbage pieces = Some (md5_digest (concat pieces))"
  using osip_MD5Update_all [OF md5_rep_init [OF assms(1)] assms(2)] osip_MD5Final_ok
  by (auto simp: md5_of_pieces_def)


section \<open>A test vector of RFC 1321\<close>

lemma md5_pad_abc: "md5_pad (bytes_of ''abc'') = [0x61, 0x62, 0x63, 0x80] @ replicate 52 0 @ [24, 0, 0, 0, 0, 0, 0, 0]"
  by (simp add: md5_pad_def bytes_of_def)

lemma transform_abc:
  "osip_MD5Transform md5_initial ([0x61, 0x62, 0x63, 0x80] @ replicate 52 0 @ [24, 0, 0, 0, 0, 0, 0, 0])
    = (0x98500190, 0xb04fd23c, 0x7d3f96d6, 0x727fe128)"
  by code_simp

lemma md5_abc: "md5_digest (bytes_of ''abc'')
  = [0x90, 0x01, 0x50, 0x98, 0x3c, 0xd2, 0x4f, 0xb0, 0xd6, 0x96, 0x3f, 0x7d, 0x28, 0xe1, 0x7f, 0x72]"
proof -
  have "blocks64 (md5_pad (bytes_of ''abc'')) = [[0x61, 0x62, 0x63, 0x80] @ replicate 52 0 @ [24, 0, 0, 0, 0, 0, 0, 0]]"
    unfolding md5_pad_abc using blocks64_block [of "[0x61, 0x62, 0x63, 0x80] @ replicate 52 0 @ [24, 0, 0, 0, 0, 0, 0, 0]" "[]"]
    by simp
  moreover have "osip_Encode [0x98500190, 0xb04fd23c, 0x7d3f96d6, 0x727fe128]
    = [0x90, 0x01, 0x50, 0x98, 0x3c, 0xd2, 0x4f, 0xb0, 0xd6, 0x96, 0x3f, 0x7d, 0x28, 0xe1, 0x7f, 0x72]"
    by code_simp
  ultimately show ?thesis by (simp add: md5_digest_def transform_abc del: append.simps osip_Encode.simps)
qed

end
