(* ===== verification/Sdp_Parse.thy ===== *)
theory Sdp_Parse
  imports Message_Lines
begin

text \<open>
  Session descriptions, from \<^verbatim>\<open>sdp_message.c\<close>: the records and the parser. The lines are read in
  the order of RFC 2327; each kind has a parser of its own, which answers \<open>WF\<close> and goes on behind
  the line, or answers \<open>ERR_DISCARD\<close> and stays when the next line is of another kind.
\<close>

abbreviation (input) ERR_ERROR :: int where "ERR_ERROR \<equiv> -1"
abbreviation (input) ERR_DISCARD :: int where "ERR_DISCARD \<equiv> 0"
abbreviation (input) WF :: int where "WF \<equiv> 1"

section \<open>Records\<close>

record sdp_bandwidth =
  b_bwtype :: cstr
  b_bandwidth :: cstr

record sdp_time_descr =
  t_start_time :: cstr
  t_stop_time :: cstr
  r_repeats :: "string list"

record sdp_key =
  k_keytype :: cstr
  k_keydata :: cstr

record sdp_attribute =
  a_att_field :: cstr
  a_att_value :: cstr

record sdp_connection =
  c_nettype :: cstr
  c_addrtype :: cstr
  c_addr :: cstr
  c_addr_multicast_ttl :: cstr
  c_addr_multicast_int :: cstr

text \<open>The fields that the description of a medium shares with the whole description begin with \<open>m_\<close> here.\<close>

record sdp_media =
  m_media :: cstr
  m_port :: cstr
  m_number_of_port :: cstr
  m_proto :: cstr
  m_payloads :: "string list"
  m_i_info :: cstr
  m_c_connections :: "sdp_connection list"
  m_b_bandwidths :: "sdp_bandwidth list"
  m_a_attributes :: "sdp_attribute list"
  m_k_key :: "sdp_key option"

record sdp_message =
  v_version :: cstr
  o_username :: cstr
  o_sess_id :: cstr
  o_sess_version :: cstr
  o_nettype :: cstr
  o_addrtype :: cstr
  o_addr :: cstr
  s_name :: cstr
  i_info :: cstr
  u_uri :: cstr
  e_emails :: "string list"
  p_phones :: "string list"
  c_connection :: "sdp_connection option"
  b_bandwidths :: "sdp_bandwidth list"
  t_descrs :: "sdp_time_descr list"
  z_adjustments :: cstr
  k_key :: "sdp_key option"
  a_attributes :: "sdp_attribute list"
  m_medias :: "sdp_media list"

definition sdp_bandwidth_init :: sdp_bandwidth where
  "sdp_bandwidth_init = \<lparr>b_bwtype = None, b_bandwidth = None\<rparr>"

definition sdp_time_descr_init :: sdp_time_descr where
  "sdp_time_descr_init = \<lparr>t_start_time = None, t_stop_time = None, r_repeats = []\<rparr>"

definition sdp_key_init :: sdp_key where
  "sdp_key_init = \<lparr>k_keytype = None, k_keydata = None\<rparr>"

definition sdp_attribute_init :: sdp_attribute where
  "sdp_attribute_init = \<lparr>a_att_field = None, a_att_value = None\<rparr>"

definition sdp_connection_init :: sdp_connection where
  "sdp_connection_init = \<lparr>c_nettype = None, c_addrtype = None, c_addr = None, c_addr_multicast_ttl = None,
     c_addr_multicast_int = None\<rparr>"

definition sdp_media_init :: sdp_media where
  "sdp_media_init = \<lparr>m_media = None, m_port = None, m_number_of_port = None, m_proto = None, m_payloads = [],
     m_i_info = None, m_c_connections = [], m_b_bandwidths = [], m_a_attributes = [], m_k_key = None\<rparr>"

definition sdp_message_init :: sdp_message where
  "sdp_message_init = \<lparr>v_version = None, o_username = None, o_sess_id = None, o_sess_version = None, o_nettype = None,
     o_addrtype = None, o_addr = None, s_name = None, i_info = None, u_uri = None, e_emails = [], p_phones = [],
     c_connection = None, b_bandwidths = [], t_descrs = [], z_adjustments = None, k_key = None, a_attributes = [],
     m_medias = []\<rparr>"

section \<open>One line\<close>

text \<open>
  A position: the character in front of it, none at the start of the text, and the rest of the text.
\<close>

type_synonym place = "char option \<times> string"

text \<open>
  The beginning that all the parsers of lines have in common. They search for the equals sign,
  also behind the end of the line, and look at the character in front of it. \<open>refused\<close> is the
  test between the two. The answer is a code, or the value and the end of the line.
\<close>

definition sdp_field :: "char \<Rightarrow> bool \<Rightarrow> place \<Rightarrow> (int + string \<times> string) option" where
  "sdp_field name refused place = (case place of (before, buf) \<Rightarrow>
     let equal = dropWhile (\<lambda>c. c \<noteq> CHR ''='') buf in
     if equal = [] then Some (Inl ERR_ERROR)
     else do {
       c \<leftarrow> (if equal = buf then before else Some (buf ! (length buf - length equal - 1)));
       if c \<noteq> name then Some (Inl ERR_DISCARD)
       else if refused then Some (Inl ERR_ERROR)
       else let value = tl equal;
                crlf = dropWhile (\<lambda>c. c \<noteq> CR \<and> c \<noteq> LF) value
         in if crlf = [] \<or> crlf = value then Some (Inl ERR_ERROR) else Some (Inr (value, crlf))
     })"

definition behind_line :: "string \<Rightarrow> place" where
  "behind_line crlf = (if cur (tl crlf) = LF then (Some LF, drop 2 crlf) else (Some (cur crlf), tl crlf))"

type_synonym 'r line_answer = "((int \<times> 'r) \<times> mem) option"

type_synonym sdp_answer = "((int \<times> sdp_message \<times> place) \<times> mem) option"

definition sdp_line ::
  "char \<Rightarrow> bool \<Rightarrow> (string \<Rightarrow> string \<Rightarrow> mem \<Rightarrow> sdp_message line_answer) \<Rightarrow> sdp_message \<Rightarrow> place \<Rightarrow> mem \<Rightarrow> sdp_answer" where
  "sdp_line name refused rest sdp place m = do {
     f \<leftarrow> sdp_field name refused place;
     (case f of
        Inl i \<Rightarrow> Some ((i, sdp, place), m)
      | Inr (value, crlf) \<Rightarrow> do {
          ((i, sdp), m) \<leftarrow> rest value crlf m;
          Some ((i, sdp, if i = WF then behind_line crlf else place), m)
        })
   }"

text \<open>The value of a line, copied.\<close>

definition sdp_text ::
  "'r \<Rightarrow> string \<Rightarrow> string \<Rightarrow> mem \<Rightarrow> (string \<Rightarrow> mem \<Rightarrow> 'r line_answer) \<Rightarrow> 'r line_answer" where
  "sdp_text failed value crlf m k = alloc_or m (OSIP_NOMEM, failed) (\<lambda>m. do {
     v \<leftarrow> osip_strncpy (ptr_diff crlf value + 1) value (ptr_diff crlf value);
     k v m
   })"

text \<open>
  A token that ends in \<open>sep\<close>; \<open>failed\<close> gets the code of \<^verbatim>\<open>__osip_set_next_token\<close>. The last token of a
  line ends in a carriage return or else in a line feed.
\<close>

definition sdp_token ::
  "string \<Rightarrow> char \<Rightarrow> (int \<Rightarrow> 'r) \<Rightarrow> mem \<Rightarrow> (string \<Rightarrow> string \<Rightarrow> mem \<Rightarrow> 'r line_answer) \<Rightarrow> 'r line_answer" where
  "sdp_token tmp sep failed m k = do {
     ((i, v, next), m) \<leftarrow> osip_set_next_token tmp sep m;
     if i \<noteq> 0 then Some ((-1, failed i), m)
     else do { v \<leftarrow> v; next \<leftarrow> next; k v next m }
   }"

definition sdp_last_token ::
  "string \<Rightarrow> (int \<Rightarrow> 'r) \<Rightarrow> mem \<Rightarrow> (string \<Rightarrow> string \<Rightarrow> mem \<Rightarrow> 'r line_answer) \<Rightarrow> 'r line_answer" where
  "sdp_last_token tmp failed m k = do {
     ((i, v, next), m) \<leftarrow> osip_set_next_token tmp CR m;
     if i \<noteq> 0 then sdp_token tmp LF (\<lambda>j. failed (if i = OSIP_NOMEM then i else j)) m k
     else do { v \<leftarrow> v; next \<leftarrow> next; k v next m }
   }"

section \<open>The lines in front of the media\<close>

definition sdp_message_parse_v :: "sdp_message \<Rightarrow> place \<Rightarrow> mem \<Rightarrow> sdp_answer" where
  "sdp_message_parse_v sdp place m =
    (if cur (snd place) = CHR ''='' then Some ((ERR_DISCARD, sdp, place), m)
     else sdp_line CHR ''v'' False (\<lambda>value crlf m.
       sdp_text (sdp\<lparr>v_version := None\<rparr>) value crlf m (\<lambda>v m. Some ((WF, sdp\<lparr>v_version := Some v\<rparr>), m))) sdp place m)"

text \<open>A token that could not be allocated leaves a NULL, one that is not there leaves what was.\<close>

definition unset_if_nomem :: "((cstr \<Rightarrow> cstr) \<Rightarrow> sdp_message \<Rightarrow> sdp_message) \<Rightarrow> sdp_message \<Rightarrow> int \<Rightarrow> sdp_message" where
  "unset_if_nomem upd sdp i = (if i = OSIP_NOMEM then upd (\<lambda>_. None) sdp else sdp)"

definition sdp_message_parse_o :: "sdp_message \<Rightarrow> place \<Rightarrow> mem \<Rightarrow> sdp_answer" where
  "sdp_message_parse_o sdp place m = sdp_line CHR ''o'' False (\<lambda>tmp crlf m.
     sdp_token tmp CHR '' '' (unset_if_nomem o_username_update sdp) m (\<lambda>v tmp m.
       let sdp = sdp\<lparr>o_username := Some v\<rparr> in
     sdp_token tmp CHR '' '' (unset_if_nomem o_sess_id_update sdp) m (\<lambda>v tmp m.
       let sdp = sdp\<lparr>o_sess_id := Some v\<rparr> in
     sdp_token tmp CHR '' '' (unset_if_nomem o_sess_version_update sdp) m (\<lambda>v tmp m.
       let sdp = sdp\<lparr>o_sess_version := Some v\<rparr> in
     sdp_token tmp CHR '' '' (unset_if_nomem o_nettype_update sdp) m (\<lambda>v tmp m.
       let sdp = sdp\<lparr>o_nettype := Some v\<rparr> in
     sdp_token tmp CHR '' '' (unset_if_nomem o_addrtype_update sdp) m (\<lambda>v tmp m.
       let sdp = sdp\<lparr>o_addrtype := Some v\<rparr> in
     sdp_last_token tmp (unset_if_nomem o_addr_update sdp) m (\<lambda>v tmp m.
       Some ((WF, sdp\<lparr>o_addr := Some v\<rparr>), m)))))))) sdp place m"

definition sdp_message_parse_s :: "sdp_message \<Rightarrow> place \<Rightarrow> mem \<Rightarrow> sdp_answer" where
  "sdp_message_parse_s sdp = sdp_line CHR ''s'' False (\<lambda>value crlf m.
     sdp_text (sdp\<lparr>s_name := None\<rparr>) value crlf m (\<lambda>v m. Some ((WF, sdp\<lparr>s_name := Some v\<rparr>), m))) sdp"

text \<open>The last medium, when there is one, otherwise the whole description.\<close>

definition place_in ::
  "(sdp_message \<Rightarrow> mem \<Rightarrow> sdp_message \<times> mem) \<Rightarrow> (sdp_media \<Rightarrow> mem \<Rightarrow> sdp_media \<times> mem) \<Rightarrow> sdp_message \<Rightarrow> mem \<Rightarrow> sdp_message \<times> mem" where
  "place_in in_sdp in_media sdp m =
    (if m_medias sdp = [] then in_sdp sdp m
     else (case in_media (last (m_medias sdp)) m of (med, m) \<Rightarrow>
       (sdp\<lparr>m_medias := butlast (m_medias sdp) @ [med]\<rparr>, m)))"

definition sdp_message_parse_i :: "sdp_message \<Rightarrow> place \<Rightarrow> mem \<Rightarrow> sdp_answer" where
  "sdp_message_parse_i sdp = sdp_line CHR ''i'' False (\<lambda>value crlf m.
     sdp_text sdp value crlf m (\<lambda>v m.
       (case place_in (\<lambda>sdp m. (sdp\<lparr>i_info := Some v\<rparr>, m)) (\<lambda>med m. (med\<lparr>m_i_info := Some v\<rparr>, m)) sdp m of (sdp, m) \<Rightarrow>
          Some ((WF, sdp), m)))) sdp"

definition sdp_message_parse_u :: "sdp_message \<Rightarrow> place \<Rightarrow> mem \<Rightarrow> sdp_answer" where
  "sdp_message_parse_u sdp = sdp_line CHR ''u'' False (\<lambda>value crlf m.
     sdp_text (sdp\<lparr>u_uri := None\<rparr>) value crlf m (\<lambda>v m. Some ((WF, sdp\<lparr>u_uri := Some v\<rparr>), m))) sdp"

definition sdp_message_parse_e :: "sdp_message \<Rightarrow> place \<Rightarrow> mem \<Rightarrow> sdp_answer" where
  "sdp_message_parse_e sdp = sdp_line CHR ''e'' False (\<lambda>value crlf m.
     sdp_text sdp value crlf m (\<lambda>v m.
       (case list_add (e_emails sdp) v (-1) m of (vs, m) \<Rightarrow> Some ((WF, sdp\<lparr>e_emails := vs\<rparr>), m)))) sdp"

definition sdp_message_parse_p :: "sdp_message \<Rightarrow> place \<Rightarrow> mem \<Rightarrow> sdp_answer" where
  "sdp_message_parse_p sdp = sdp_line CHR ''p'' False (\<lambda>value crlf m.
     sdp_text sdp value crlf m (\<lambda>v m.
       (case list_add (p_phones sdp) v (-1) m of (vs, m) \<Rightarrow> Some ((WF, sdp\<lparr>p_phones := vs\<rparr>), m)))) sdp"

text \<open>An address with a slash in front of the end of the line is a multicast address.\<close>

definition in_line :: "cstr \<Rightarrow> string \<Rightarrow> bool" where
  "in_line p crlf = (case p of None \<Rightarrow> False | Some p \<Rightarrow> length crlf < length p)"

definition sdp_connection_addr ::
  "string \<Rightarrow> string \<Rightarrow> sdp_connection \<Rightarrow> mem \<Rightarrow> sdp_connection line_answer" where
  "sdp_connection_addr tmp crlf c m =
    (let slash = strchr tmp CHR ''/'' in
     if in_line slash crlf
     then sdp_token tmp CHR ''/'' (\<lambda>_. c) m (\<lambda>v tmp m.
       let c = c\<lparr>c_addr := Some v\<rparr> in do {
         behind \<leftarrow> advance 1 (the slash);
         if in_line (strchr behind CHR ''/'') crlf
         then sdp_token tmp CHR ''/'' (\<lambda>_. c) m (\<lambda>v tmp m.
           let c = c\<lparr>c_addr_multicast_ttl := Some v\<rparr> in
           sdp_last_token tmp (\<lambda>_. c) m (\<lambda>v tmp m. Some ((WF, c\<lparr>c_addr_multicast_int := Some v\<rparr>), m)))
         else sdp_last_token tmp (\<lambda>_. c) m (\<lambda>v tmp m. Some ((WF, c\<lparr>c_addr_multicast_ttl := Some v\<rparr>), m))
       })
     else sdp_last_token tmp (\<lambda>_. c) m (\<lambda>v tmp m. Some ((WF, c\<lparr>c_addr := Some v\<rparr>), m)))"

text \<open>Behind a new element the code allocates and fills; it is freed on an error.\<close>

definition new_element ::
  "(mem \<Rightarrow> 'e line_answer) \<Rightarrow> sdp_message \<Rightarrow> mem \<Rightarrow> ('e \<Rightarrow> mem \<Rightarrow> sdp_message \<times> mem) \<Rightarrow> sdp_message line_answer" where
  "new_element fill sdp m add = alloc_or m (ERR_ERROR, sdp) (\<lambda>m. do {
     ((i, e), m) \<leftarrow> fill m;
     if i \<noteq> WF then Some ((i, sdp), m) else (case add e m of (sdp, m) \<Rightarrow> Some ((WF, sdp), m))
   })"

definition sdp_message_parse_c :: "sdp_message \<Rightarrow> place \<Rightarrow> mem \<Rightarrow> sdp_answer" where
  "sdp_message_parse_c sdp = sdp_line CHR ''c'' False (\<lambda>tmp crlf m.
     new_element
       (\<lambda>m. sdp_token tmp CHR '' '' (\<lambda>_. sdp_connection_init) m (\<lambda>v tmp m.
          let c = sdp_connection_init\<lparr>c_nettype := Some v\<rparr> in
          sdp_token tmp CHR '' '' (\<lambda>_. c) m (\<lambda>v tmp m.
            sdp_connection_addr tmp crlf (c\<lparr>c_addrtype := Some v\<rparr>) m)))
       sdp m
       (\<lambda>c. place_in (\<lambda>sdp m. (sdp\<lparr>c_connection := Some c\<rparr>, m))
          (\<lambda>med m. (case list_add (m_c_connections med) c (-1) m of (cs, m) \<Rightarrow> (med\<lparr>m_c_connections := cs\<rparr>, m))) sdp)) sdp"

definition sdp_message_parse_b :: "sdp_message \<Rightarrow> place \<Rightarrow> mem \<Rightarrow> sdp_answer" where
  "sdp_message_parse_b sdp = sdp_line CHR ''b'' False (\<lambda>tmp crlf m.
     new_element
       (\<lambda>m. sdp_token tmp CHR '':'' (\<lambda>_. sdp_bandwidth_init) m (\<lambda>v tmp m.
          let b = sdp_bandwidth_init\<lparr>b_bwtype := Some v\<rparr> in
          sdp_last_token tmp (\<lambda>_. b) m (\<lambda>v tmp m. Some ((WF, b\<lparr>b_bandwidth := Some v\<rparr>), m))))
       sdp m
       (\<lambda>b. place_in
          (\<lambda>sdp m. (case list_add (b_bandwidths sdp) b (-1) m of (bs, m) \<Rightarrow> (sdp\<lparr>b_bandwidths := bs\<rparr>, m)))
          (\<lambda>med m. (case list_add (m_b_bandwidths med) b (-1) m of (bs, m) \<Rightarrow> (med\<lparr>m_b_bandwidths := bs\<rparr>, m))) sdp)) sdp"

definition sdp_message_parse_t :: "sdp_message \<Rightarrow> place \<Rightarrow> mem \<Rightarrow> sdp_answer" where
  "sdp_message_parse_t sdp = sdp_line CHR ''t'' False (\<lambda>tmp crlf m.
     new_element
       (\<lambda>m. sdp_token tmp CHR '' '' (\<lambda>_. sdp_time_descr_init) m (\<lambda>v tmp m.
          let t = sdp_time_descr_init\<lparr>t_start_time := Some v\<rparr> in
          sdp_last_token tmp (\<lambda>_. t) m (\<lambda>v tmp m. Some ((WF, t\<lparr>t_stop_time := Some v\<rparr>), m))))
       sdp m
       (\<lambda>t m. (case list_add (t_descrs sdp) t (-1) m of (ts, m) \<Rightarrow> (sdp\<lparr>t_descrs := ts\<rparr>, m)))) sdp"

text \<open>A repeat belongs to the last time; it is refused when there is none.\<close>

definition sdp_message_parse_r :: "sdp_message \<Rightarrow> place \<Rightarrow> mem \<Rightarrow> sdp_answer" where
  "sdp_message_parse_r sdp = sdp_line CHR ''r'' (t_descrs sdp = []) (\<lambda>value crlf m.
     sdp_text sdp value crlf m (\<lambda>v m.
       (case list_add (r_repeats (last (t_descrs sdp))) v (-1) m of (rs, m) \<Rightarrow>
          Some ((WF, sdp\<lparr>t_descrs := butlast (t_descrs sdp) @ [(last (t_descrs sdp))\<lparr>r_repeats := rs\<rparr>]\<rparr>), m)))) sdp"

definition sdp_message_parse_z :: "sdp_message \<Rightarrow> place \<Rightarrow> mem \<Rightarrow> sdp_answer" where
  "sdp_message_parse_z sdp = sdp_line CHR ''z'' False (\<lambda>value crlf m.
     sdp_text sdp value crlf m (\<lambda>v m. Some ((WF, sdp\<lparr>z_adjustments := Some v\<rparr>), m))) sdp"

text \<open>A name, with a value behind a colon in front of the end of the line.\<close>

definition sdp_name_value ::
  "'e \<Rightarrow> (string \<Rightarrow> 'e) \<Rightarrow> (string \<Rightarrow> string \<Rightarrow> 'e) \<Rightarrow> string \<Rightarrow> string \<Rightarrow> mem \<Rightarrow> 'e line_answer" where
  "sdp_name_value e alone both tmp crlf m =
    (if in_line (strchr tmp CHR '':'') crlf
     then sdp_token tmp CHR '':'' (\<lambda>_. e) m (\<lambda>n tmp m.
       sdp_last_token tmp (\<lambda>_. alone n) m (\<lambda>v tmp m. Some ((WF, both n v), m)))
     else sdp_last_token tmp (\<lambda>_. e) m (\<lambda>n tmp m. Some ((WF, alone n), m)))"

definition sdp_message_parse_k :: "sdp_message \<Rightarrow> place \<Rightarrow> mem \<Rightarrow> sdp_answer" where
  "sdp_message_parse_k sdp = sdp_line CHR ''k'' False (\<lambda>tmp crlf m.
     new_element
       (sdp_name_value sdp_key_init (\<lambda>n. sdp_key_init\<lparr>k_keytype := Some n\<rparr>)
          (\<lambda>n v. sdp_key_init\<lparr>k_keytype := Some n, k_keydata := Some v\<rparr>) tmp crlf)
       sdp m
       (\<lambda>k. place_in (\<lambda>sdp m. (sdp\<lparr>k_key := Some k\<rparr>, m)) (\<lambda>med m. (med\<lparr>m_k_key := Some k\<rparr>, m)) sdp)) sdp"

definition sdp_message_parse_a :: "sdp_message \<Rightarrow> place \<Rightarrow> mem \<Rightarrow> sdp_answer" where
  "sdp_message_parse_a sdp = sdp_line CHR ''a'' False (\<lambda>tmp crlf m.
     new_element
       (sdp_name_value sdp_attribute_init (\<lambda>n. sdp_attribute_init\<lparr>a_att_field := Some n\<rparr>)
          (\<lambda>n v. sdp_attribute_init\<lparr>a_att_field := Some n, a_att_value := Some v\<rparr>) tmp crlf)
       sdp m
       (\<lambda>a. place_in
          (\<lambda>sdp m. (case list_add (a_attributes sdp) a (-1) m of (xs, m) \<Rightarrow> (sdp\<lparr>a_attributes := xs\<rparr>, m)))
          (\<lambda>med m. (case list_add (m_a_attributes med) a (-1) m of (xs, m) \<Rightarrow> (med\<lparr>m_a_attributes := xs\<rparr>, m))) sdp)) sdp"

section \<open>Media\<close>

lemma osip_set_next_token_next:
  assumes "osip_set_next_token buf sep m = Some ((0, v, next), m')"
  shows "\<exists>w r. v = Some w \<and> next = Some r \<and> w \<noteq> [] \<and> buf = w @ sep # r \<and> (\<forall>c \<in> set w. c \<noteq> CR \<and> c \<noteq> LF)"
proof -
  let ?f = "\<lambda>c. c \<noteq> sep \<and> c \<noteq> CR \<and> c \<noteq> LF"
  obtain d r where r: "dropWhile ?f buf = d # r"
    using assms by (cases "dropWhile ?f buf") (auto simp: osip_set_next_token_def Let_def split: if_splits)
  have buf: "buf = takeWhile ?f buf @ d # r" using r by (metis takeWhile_dropWhile_id)
  have d: "d = sep" using assms r hd_dropWhile [of ?f buf] by (auto simp: osip_set_next_token_def Let_def split: if_splits)
  have "takeWhile ?f buf \<noteq> []" using assms r buf by (auto simp: osip_set_next_token_def Let_def split: if_splits)
  moreover have "v = Some (takeWhile ?f buf) \<and> next = Some r"
  proof -
    have "length buf = length (takeWhile ?f buf) + length (d # r)" using buf by (metis length_append)
    then have "ptr_diff (d # r) buf = int (length (takeWhile ?f buf))" by (simp add: ptr_diff_def)
    moreover have "take (length (takeWhile ?f buf)) buf = takeWhile ?f buf" by (simp add: takeWhile_eq_take [symmetric])
    ultimately show ?thesis
      using assms r by (auto simp: osip_set_next_token_def Let_def osip_strncpy_def split: if_splits prod.splits)
  qed
  moreover have "\<forall>c \<in> set (takeWhile ?f buf). c \<noteq> CR \<and> c \<noteq> LF" by (auto dest: set_takeWhileD)
  ultimately show ?thesis using buf [unfolded d] by blast
qed

text \<open>
  The payloads. The code searches for a blank behind \<^verbatim>\<open>tmp\<close>, also when \<^verbatim>\<open>tmp\<close> is at the NUL.
\<close>

function sdp_payloads :: "string \<Rightarrow> string \<Rightarrow> string list \<Rightarrow> mem \<Rightarrow> string list line_answer" where
  "sdp_payloads crlf tmp ps m =
    (case advance 1 tmp of
       None \<Rightarrow> None
     | Some behind \<Rightarrow>
         if in_line (strchr behind CHR '' '') crlf
         then (case osip_set_next_token tmp CHR '' '' m of
             None \<Rightarrow> None
           | Some ((i, v, next), m) \<Rightarrow>
               if i \<noteq> 0 then Some ((-1, ps), m)
               else (case (v, next) of
                   (Some v, Some next) \<Rightarrow> (case list_add ps v (-1) m of (ps, m) \<Rightarrow> sdp_payloads crlf next ps m)
                 | _ \<Rightarrow> None))
         else if length crlf < length tmp
         then sdp_last_token tmp (\<lambda>_. ps) m (\<lambda>v tmp m. (case list_add ps v (-1) m of (ps, m) \<Rightarrow> Some ((WF, ps), m)))
         else Some ((WF, ps), m))"
  by pat_completeness auto
termination
proof (relation "measure (\<lambda>(crlf, tmp, ps, m). length tmp)", goal_cases)
  case (2 crlf tmp ps m behind p q i r m' v nx)
  then show ?case using osip_set_next_token_next [of tmp "CHR '' ''" m] by fastforce
qed simp

declare sdp_payloads.simps [simp del]

text \<open>The protocol may be the end of the line.\<close>

definition sdp_media_proto ::
  "string \<Rightarrow> string \<Rightarrow> sdp_media \<Rightarrow> mem \<Rightarrow> sdp_media line_answer" where
  "sdp_media_proto crlf tmp med m = do {
     ((i, v, next), m) \<leftarrow> osip_set_next_token tmp CHR '' '' m;
     let k = (\<lambda>v tmp m. do {
       ((i, ps), m) \<leftarrow> sdp_payloads crlf tmp [] m;
       Some ((i, med\<lparr>m_proto := Some v, m_payloads := ps\<rparr>), m)
     });
     if i \<noteq> 0 then sdp_last_token tmp (\<lambda>_. med) m k
     else do { v \<leftarrow> v; next \<leftarrow> next; k v next m }
   }"

definition sdp_media_fill :: "string \<Rightarrow> string \<Rightarrow> mem \<Rightarrow> sdp_media line_answer" where
  "sdp_media_fill tmp crlf m =
     sdp_token tmp CHR '' '' (\<lambda>_. sdp_media_init) m (\<lambda>v tmp m.
       let med = sdp_media_init\<lparr>m_media := Some v\<rparr> in
       (case strchr tmp CHR '' '' of
          None \<Rightarrow> Some ((ERR_ERROR, med), m)
        | Some space \<Rightarrow>
            if in_line (strchr tmp CHR ''/'') space
            then sdp_token tmp CHR ''/'' (\<lambda>_. med) m (\<lambda>v tmp m.
              let med = med\<lparr>m_port := Some v\<rparr> in
              sdp_token tmp CHR '' '' (\<lambda>_. med) m (\<lambda>v tmp m. sdp_media_proto crlf tmp (med\<lparr>m_number_of_port := Some v\<rparr>) m))
            else sdp_token tmp CHR '' '' (\<lambda>_. med) m (\<lambda>v tmp m. sdp_media_proto crlf tmp (med\<lparr>m_port := Some v\<rparr>) m)))"

definition sdp_message_parse_m :: "sdp_message \<Rightarrow> place \<Rightarrow> mem \<Rightarrow> sdp_answer" where
  "sdp_message_parse_m sdp = sdp_line CHR ''m'' False (\<lambda>tmp crlf m.
     new_element (sdp_media_fill tmp crlf) sdp m
       (\<lambda>med m. (case list_add (m_medias sdp) med (-1) m of (ms, m) \<Rightarrow> (sdp\<lparr>m_medias := ms\<rparr>, m)))) sdp"

section \<open>Where a line parser goes on\<close>

lemma dropWhile_suffix: "dropWhile f s = r \<Longrightarrow> \<exists>a. s = a @ r"
  by (metis takeWhile_dropWhile_id)

text \<open>The value has a character, and the end of the line is behind it.\<close>

lemma sdp_field_value:
  assumes "sdp_field name refused place = Some (Inr (val, crlf))"
  obtains a v d r where "snd place = a @ CHR ''='' # v @ d # r" "val = v @ d # r" "crlf = d # r" "v \<noteq> []"
    "\<forall>c \<in> set v. c \<noteq> CR \<and> c \<noteq> LF" "d = CR \<or> d = LF"
proof -
  obtain before buf where place: "place = (before, buf)" by (cases place)
  let ?equal = "dropWhile (\<lambda>c. c \<noteq> CHR ''='') buf" and ?f = "\<lambda>c. c \<noteq> CR \<and> c \<noteq> LF"
  have v: "val = tl ?equal" "crlf = dropWhile ?f val" "?equal \<noteq> []" "crlf \<noteq> []" "crlf \<noteq> val"
    using assms by (auto simp: place sdp_field_def Let_def split: if_splits bind_splits)
  obtain e where e: "?equal = e # val" using v(1,3) by (cases ?equal) auto
  have "e = CHR ''=''" using e hd_dropWhile [of "\<lambda>c. c \<noteq> CHR ''=''" buf] by simp
  moreover obtain a where "buf = a @ ?equal" using dropWhile_suffix by blast
  ultimately have buf: "buf = a @ CHR ''='' # val" using e by simp
  obtain d r where d: "crlf = d # r" using v(4) by (cases crlf) auto
  have val: "val = takeWhile ?f val @ d # r" using v(2) d by (metis takeWhile_dropWhile_id)
  have "dropWhile ?f val \<noteq> []" using v(2,4) by simp
  then have "\<not> ?f (hd (dropWhile ?f val))" by (rule hd_dropWhile)
  then have ends: "d = CR \<or> d = LF" using v(2) d by (metis list.sel(1))
  have ne: "takeWhile ?f val \<noteq> []" using v(5) d val by (metis append_Nil)
  have plain: "\<forall>c \<in> set (takeWhile ?f val). c \<noteq> CR \<and> c \<noteq> LF" by (auto dest: set_takeWhileD)
  have "snd place = a @ CHR ''='' # takeWhile ?f val @ d # r" using buf val by (simp add: place)
  then show thesis using that d val ends ne plain by blast
qed

lemma sdp_field_code: "sdp_field name refused place = Some (Inl i) \<Longrightarrow> i = -1 \<or> i = 0"
  by (auto simp: sdp_field_def Let_def split: if_splits bind_splits prod.splits)

lemma behind_line_suffix: "crlf \<noteq> [] \<Longrightarrow> \<exists>a c. crlf = a @ c # snd (behind_line crlf) \<and> fst (behind_line crlf) = Some c"
proof (cases crlf)
  case (Cons c r)
  then show ?thesis by (cases r) (auto simp: behind_line_def cur_def)
qed simp

lemma sdp_line_place:
  assumes "sdp_line name refused rest sdp place m = Some ((i, sdp', next), m')"
  shows "i \<noteq> 1 \<and> next = place \<or> i = 1 \<and> (\<exists>a c. snd place = a @ c # snd next \<and> fst next = Some c)"
proof -
  obtain f where f: "sdp_field name refused place = Some f" using assms by (auto simp: sdp_line_def split: bind_splits)
  show ?thesis
  proof (cases f)
    case (Inl j)
    then show ?thesis using assms f sdp_field_code [of name refused place j] by (auto simp: sdp_line_def)
  next
    case (Inr vc)
    obtain val crlf where vc: "vc = (val, crlf)" by (cases vc)
    obtain a v d r where l: "snd place = a @ CHR ''='' # v @ d # r" "crlf = d # r"
      by (rule sdp_field_value [OF f [unfolded Inr vc]]) (rule that, assumption+)
    obtain b c where bc: "crlf = b @ c # snd (behind_line crlf)" "fst (behind_line crlf) = Some c"
      using behind_line_suffix [of crlf] l(2) by blast
    have "snd place = a @ CHR ''='' # v @ crlf" using l by simp
    then have "snd place = (a @ CHR ''='' # v @ b) @ c # snd (behind_line crlf)" by (subst (asm) bc(1)) simp
    moreover have "rest val crlf m \<bind> (\<lambda>((j, s), n). Some ((j, s, if j = WF then behind_line crlf else place), n))
        = Some ((i, sdp', next), m')"
      using assms f Inr vc by (simp add: sdp_line_def)
    then have "i = 1 \<and> next = behind_line crlf \<or> i \<noteq> 1 \<and> next = place"
      by (cases "rest val crlf m") (auto split: if_splits)
    ultimately show ?thesis using bc(2) by blast
  qed
qed

section \<open>The description\<close>

text \<open>The kinds of lines that a loop reads.\<close>

datatype sdp_kind = Email | Phone | Connection | Bandwidth | Repeat | Attribute

fun parse_kind :: "sdp_kind \<Rightarrow> sdp_message \<Rightarrow> place \<Rightarrow> mem \<Rightarrow> sdp_answer" where
  "parse_kind Email = sdp_message_parse_e"
| "parse_kind Phone = sdp_message_parse_p"
| "parse_kind Connection = sdp_message_parse_c"
| "parse_kind Bandwidth = sdp_message_parse_b"
| "parse_kind Repeat = sdp_message_parse_r"
| "parse_kind Attribute = sdp_message_parse_a"

lemmas line_parser_defs = sdp_message_parse_o_def sdp_message_parse_s_def sdp_message_parse_i_def sdp_message_parse_u_def
  sdp_message_parse_e_def sdp_message_parse_p_def sdp_message_parse_c_def sdp_message_parse_b_def sdp_message_parse_t_def
  sdp_message_parse_r_def sdp_message_parse_z_def sdp_message_parse_k_def sdp_message_parse_a_def sdp_message_parse_m_def

lemma parse_kind_place:
  assumes "parse_kind k sdp place m = Some ((i, sdp', next), m')"
  shows "i \<noteq> 1 \<and> next = place \<or> i = 1 \<and> (\<exists>a c. snd place = a @ c # snd next \<and> fst next = Some c)"
  using assms by (cases k) (simp_all only: parse_kind.simps line_parser_defs, (erule sdp_line_place)+)

lemma parse_kind_shorter: "parse_kind k sdp place m = Some ((1, sdp', next), m') \<Longrightarrow> length (snd next) < length (snd place)"
  by (drule parse_kind_place) auto

text \<open>A step of the parser answers a result that ends it, or the description and where to go on.\<close>

type_synonym sdp_step = "(((int \<times> sdp_message) + sdp_message \<times> place) \<times> mem) option"

definition at_end :: "place \<Rightarrow> bool" where
  "at_end place \<longleftrightarrow> cur (snd place) = NUL \<or> cur (snd place) = CR \<or> cur (snd place) = LF"

text \<open>\<open>ends\<close>: whether the code looks for the end of the text behind the line.\<close>

definition sdp_one ::
  "bool \<Rightarrow> bool \<Rightarrow> (sdp_message \<Rightarrow> place \<Rightarrow> mem \<Rightarrow> sdp_answer) \<Rightarrow> sdp_message \<Rightarrow> place \<Rightarrow> mem \<Rightarrow> sdp_step" where
  "sdp_one mandatory ends parse sdp place m = do {
     ((i, sdp, next), m) \<leftarrow> parse sdp place m;
     if i = -1 \<or> mandatory \<and> i = 0 then Some (Inl (-1, sdp), m)
     else if ends \<and> at_end next then Some (Inl (OSIP_SUCCESS, sdp), m)
     else Some (Inr (sdp, next), m)
   }"

function sdp_many :: "bool \<Rightarrow> sdp_kind \<Rightarrow> sdp_message \<Rightarrow> place \<Rightarrow> mem \<Rightarrow> sdp_step" where
  "sdp_many ends k sdp place m =
    (case parse_kind k sdp place m of
       None \<Rightarrow> None
     | Some ((i, sdp, next), m) \<Rightarrow>
         if i = -1 then Some (Inl (-1, sdp), m)
         else if ends \<and> at_end next then Some (Inl (OSIP_SUCCESS, sdp), m)
         else if i = 1 then sdp_many ends k sdp next m
         else Some (Inr (sdp, next), m))"
  by pat_completeness auto
termination
  by (relation "measure (\<lambda>(ends, k, sdp, place, m). length (snd place))") (auto dest!: parse_kind_shorter)

declare sdp_many.simps [simp del]

text \<open>What a step that goes on has read.\<close>

definition goes_on :: "place \<Rightarrow> place \<Rightarrow> bool" where
  "goes_on p q \<longleftrightarrow> q = p \<or> (\<exists>a c. snd p = a @ c # snd q \<and> fst q = Some c)"

lemma goes_on_refl [simp]: "goes_on p p"
  by (simp add: goes_on_def)

lemma goes_on_trans: "goes_on p q \<Longrightarrow> goes_on q r \<Longrightarrow> goes_on p r"
  unfolding goes_on_def by (metis append.assoc append_Cons)

lemma goes_on_length: "goes_on p q \<Longrightarrow> length (snd q) \<le> length (snd p)"
  by (auto simp: goes_on_def)

lemma sdp_line_goes_on: "sdp_line name refused rest sdp p m = Some ((i, sdp', q), m') \<Longrightarrow> goes_on p q"
  using sdp_line_place [of name refused rest sdp p m i sdp' q m'] by (auto simp: goes_on_def)

lemma parse_kind_goes_on: "parse_kind k sdp p m = Some ((i, sdp', q), m') \<Longrightarrow> goes_on p q"
  using parse_kind_place [of k sdp p m i sdp' q m'] by (auto simp: goes_on_def)

lemma sdp_many_goes_on: "sdp_many ends k sdp p m = Some (Inr (sdp', q), m') \<Longrightarrow> goes_on p q"
proof (induction ends k sdp p m rule: sdp_many.induct)
  case (1 ends k sdp p m)
  then obtain i s r n where step: "parse_kind k sdp p m = Some ((i, s, r), n)"
    by (subst (asm) (2) sdp_many.simps) (auto split: option.splits)
  have go: "goes_on p r" by (rule parse_kind_goes_on [OF step])
  show ?case
  proof (cases "i = 1 \<and> \<not> (ends \<and> at_end r)")
    case True
    then have stay: "i = 1" "i \<noteq> -1" "\<not> (ends \<and> at_end r)" by auto
    have "sdp_many ends k s r n = Some (Inr (sdp', q), m')"
      using 1(2) unfolding sdp_many.simps [of ends k sdp p m] step option.case prod.case if_not_P [OF stay(2)] if_not_P [OF stay(3)] if_P [OF stay(1)] .
    then have "goes_on r q" using 1(1) [OF step refl refl refl] stay by blast
    then show ?thesis using go goes_on_trans by blast
  next
    case False
    then show ?thesis using 1(2) step go by (subst (asm) sdp_many.simps) (auto split: if_splits)
  qed
qed

lemma sdp_one_goes_on:
  assumes "\<And>i sdp' q m'. parse sdp p m = Some ((i, sdp', q), m') \<Longrightarrow> goes_on p q"
  shows "sdp_one mandatory ends parse sdp p m = Some (Inr (sdp', q), m') \<Longrightarrow> goes_on p q"
  using assms by (auto simp: sdp_one_def split: if_splits bind_splits prod.splits)

text \<open>A line with a token in it is well formed, or wrong, or of another kind.\<close>

definition codes :: "int set \<Rightarrow> 'r line_answer \<Rightarrow> bool" where
  "codes is r \<longleftrightarrow> (\<forall>i s m. r = Some ((i, s), m) \<longrightarrow> i \<in> is)"

lemma codes_Some [simp]: "codes is (Some ((i, s), m)) \<longleftrightarrow> i \<in> is"
  by (auto simp: codes_def)

lemma codes_sdp_token:
  assumes "\<And>v t m. codes {-1, 1} (k v t m)"
  shows "codes {-1, 1} (sdp_token tmp sep failed m k)" "codes {-1, 1} (sdp_last_token tmp failed m k)"
proof -
  show token: "codes {-1, 1} (sdp_token tmp sep failed m k)" for sep failed m
    using assms unfolding sdp_token_def codes_def by (auto split: bind_splits if_splits)
  show "codes {-1, 1} (sdp_last_token tmp failed m k)"
    using assms token [of LF] unfolding sdp_last_token_def codes_def by (auto split: bind_splits if_splits)
qed

lemma sdp_message_parse_t_code: "sdp_message_parse_t sdp place m = Some ((i, sdp', next), m') \<Longrightarrow> i \<in> {-1, 0, 1}"
proof -
  have fill: "codes {-1, 1} (sdp_token tmp CHR '' '' (\<lambda>_. sdp_time_descr_init) m (\<lambda>v tmp m.
      let t = sdp_time_descr_init\<lparr>t_start_time := Some v\<rparr> in
      sdp_last_token tmp (\<lambda>_. t) m (\<lambda>v tmp m. Some ((1, t\<lparr>t_stop_time := Some v\<rparr>), m))))" for tmp m
    unfolding Let_def by (intro codes_sdp_token) simp
  have element: "codes {-1, 1} (new_element e sdp m add)" if "\<And>m. codes {-1, 1} (e m)" for e m and add :: "sdp_time_descr \<Rightarrow> _"
    using that unfolding codes_def new_element_def alloc_or_def by (auto split: bind_splits prod.splits if_splits)
  have line: "i \<in> {-1, 0, 1}"
    if r: "\<And>tmp crlf m. codes {-1, 1} (rest tmp crlf m)" "sdp_line n refused rest s p k = Some ((i, s', q), k')" for n refused rest s p k i s' q k'
  proof -
    obtain f where f: "sdp_field n refused p = Some f" using r(2) by (auto simp: sdp_line_def split: bind_splits)
    show ?thesis
    proof (cases f)
      case (Inl j)
      then show ?thesis using r(2) f sdp_field_code [of n refused p j] by (auto simp: sdp_line_def)
    next
      case (Inr vc)
      obtain v c where vc: "vc = (v, c)" by (cases vc)
      then show ?thesis using r(1) [of v c k] r(2) f Inr by (auto simp: sdp_line_def codes_def split: bind_splits)
    qed
  qed
  assume "sdp_message_parse_t sdp place m = Some ((i, sdp', next), m')"
  then show ?thesis
    unfolding sdp_message_parse_t_def by (rule line [rotated]) (rule element, rule fill)
qed

lemma sdp_message_parse_t_place:
  assumes "sdp_message_parse_t sdp place m = Some ((i, sdp', next), m')"
  shows "goes_on place next" "i \<noteq> -1 \<Longrightarrow> i \<noteq> 0 \<Longrightarrow> length (snd next) < length (snd place)"
  using assms sdp_message_parse_t_code [OF assms] unfolding sdp_message_parse_t_def
  by (auto dest: sdp_line_place sdp_line_goes_on)

text \<open>More times, each with its repeats.\<close>

function sdp_times :: "sdp_message \<Rightarrow> place \<Rightarrow> mem \<Rightarrow> sdp_step" where
  "sdp_times sdp place m =
    (case sdp_many True Repeat sdp place m of
       None \<Rightarrow> None
     | Some (Inl r, m) \<Rightarrow> Some (Inl r, m)
     | Some (Inr (sdp, place), m) \<Rightarrow>
         (case sdp_message_parse_t sdp place m of
            None \<Rightarrow> None
          | Some ((i, sdp, next), m) \<Rightarrow>
              if i = -1 then Some (Inl (-1, sdp), m)
              else if at_end next then Some (Inl (OSIP_SUCCESS, sdp), m)
              else if i = 0 then Some (Inr (sdp, next), m)
              else sdp_times sdp next m))"
  by pat_completeness auto
termination
  by (relation "measure (\<lambda>(sdp, place, m). length (snd place))")
    (auto dest!: sdp_many_goes_on goes_on_length sdp_message_parse_t_place(2))

declare sdp_times.simps [simp del]

text \<open>Steps one after the other.\<close>

fun sdp_seq :: "(sdp_message \<Rightarrow> place \<Rightarrow> mem \<Rightarrow> sdp_step) list \<Rightarrow> sdp_message \<Rightarrow> place \<Rightarrow> mem \<Rightarrow> sdp_step" where
  "sdp_seq [] sdp place m = Some (Inr (sdp, place), m)"
| "sdp_seq (f # fs) sdp place m =
    (case f sdp place m of
       None \<Rightarrow> None
     | Some (Inl r, m) \<Rightarrow> Some (Inl r, m)
     | Some (Inr (sdp, place), m) \<Rightarrow> sdp_seq fs sdp place m)"

lemma sdp_seq_goes_on:
  assumes "\<And>f sdp p m sdp' q m'. f \<in> set fs \<Longrightarrow> f sdp p m = Some (Inr (sdp', q), m') \<Longrightarrow> goes_on p q"
  shows "sdp_seq fs sdp p m = Some (Inr (sdp', q), m') \<Longrightarrow> goes_on p q"
  using assms
proof (induction fs arbitrary: sdp p m)
  case (Cons f fs)
  then obtain s r n where step: "f sdp p m = Some (Inr (s, r), n)" "sdp_seq fs s r n = Some (Inr (sdp', q), m')"
    by (auto split: option.splits prod.splits sum.splits)
  have "goes_on p r" using Cons.prems(2) [of f, OF _ step(1)] by simp
  moreover have "goes_on r q"
    by (rule Cons.IH [OF step(2)]) (rule Cons.prems(2), rule list.set_intros(2))
  ultimately show ?case by (rule goes_on_trans)
qed simp

text \<open>What may stand behind the line of a medium.\<close>

definition media_steps :: "(sdp_message \<Rightarrow> place \<Rightarrow> mem \<Rightarrow> sdp_step) list" where
  "media_steps = [sdp_one False True sdp_message_parse_i, sdp_many True Connection, sdp_many True Bandwidth,
     sdp_one False True sdp_message_parse_k, sdp_many True Attribute]"

lemma line_goes_on:
  assumes "parse \<in> {sdp_message_parse_o, sdp_message_parse_s, sdp_message_parse_i, sdp_message_parse_u, sdp_message_parse_c,
    sdp_message_parse_t, sdp_message_parse_z, sdp_message_parse_k, sdp_message_parse_m}"
    "parse sdp p m = Some ((i, sdp', q), m')"
  shows "goes_on p q"
  using assms by (auto simp only: line_parser_defs insert_iff empty_iff dest: sdp_line_goes_on)

lemma media_steps_goes_on: "sdp_seq media_steps sdp p m = Some (Inr (sdp', q), m') \<Longrightarrow> goes_on p q"
  by (rule sdp_seq_goes_on [of media_steps])
    (auto simp: media_steps_def dest: sdp_many_goes_on elim!: sdp_one_goes_on [rotated] intro: line_goes_on)

lemma sdp_message_parse_m_shorter:
  "sdp_message_parse_m sdp place m = Some ((1, sdp', next), m') \<Longrightarrow> length (snd next) < length (snd place)"
  unfolding sdp_message_parse_m_def by (drule sdp_line_place) auto

function sdp_media_loop :: "sdp_message \<Rightarrow> place \<Rightarrow> mem \<Rightarrow> sdp_step" where
  "sdp_media_loop sdp place m =
    (case sdp_message_parse_m sdp place m of
       None \<Rightarrow> None
     | Some ((more_m_header, sdp, next), m) \<Rightarrow>
         if more_m_header = -1 then Some (Inl (-1, sdp), m)
         else if at_end next then Some (Inl (OSIP_SUCCESS, sdp), m)
         else (case sdp_seq media_steps sdp next m of
             None \<Rightarrow> None
           | Some (Inl r, m) \<Rightarrow> Some (Inl r, m)
           | Some (Inr (sdp, next), m) \<Rightarrow>
               if more_m_header = 1 then sdp_media_loop sdp next m else Some (Inr (sdp, next), m)))"
  by pat_completeness auto

termination
  by (relation "measure (\<lambda>(sdp, place, m). length (snd place))")
    (auto dest!: media_steps_goes_on goes_on_length sdp_message_parse_m_shorter)

declare sdp_media_loop.simps [simp del]

text \<open>
  The second parser of \<^verbatim>\<open>s=\<close> lines, in front of \<^verbatim>\<open>o=\<close>, is for a telephone that has them in this
  order. Behind the first time the parser looks for the end of the text.
\<close>

definition sdp_steps :: "(sdp_message \<Rightarrow> place \<Rightarrow> mem \<Rightarrow> sdp_step) list" where
  "sdp_steps = [sdp_one True False sdp_message_parse_v, sdp_one False False sdp_message_parse_s,
     sdp_one True False sdp_message_parse_o, sdp_one False False sdp_message_parse_s,
     sdp_one False False sdp_message_parse_i, sdp_one False False sdp_message_parse_u,
     sdp_many False Email, sdp_many False Phone, sdp_one False False sdp_message_parse_c, sdp_many False Bandwidth,
     sdp_one True True sdp_message_parse_t, sdp_many True Repeat, sdp_one False True sdp_message_parse_t, sdp_times,
     sdp_one False True sdp_message_parse_z, sdp_one False True sdp_message_parse_k, sdp_many True Attribute,
     sdp_media_loop]"

definition sdp_message_parse :: "sdp_message \<Rightarrow> string \<Rightarrow> mem \<Rightarrow> ((int \<times> sdp_message) \<times> mem) option" where
  "sdp_message_parse sdp buf m =
    (case sdp_seq sdp_steps sdp (None, buf) m of
       None \<Rightarrow> None
     | Some (Inl r, m) \<Rightarrow> Some (r, m)
     | Some (Inr (sdp, _), m) \<Rightarrow> Some ((OSIP_SUCCESS, sdp), m))"

end
