(* ===== verification/Sdp_Print.thy ===== *)
theory Sdp_Print
  imports Sdp_Parse Message_Print
begin

text \<open>
  The printer of session descriptions, from \<^verbatim>\<open>sdp_message.c\<close>. It writes into a buffer that grows
  when the next string does not fit.
\<close>

section \<open>The buffer\<close>

text \<open>What has been written, and the size of the buffer.\<close>

type_synonym sdp_buffer = "string \<times> nat"

type_synonym sdp_printer = "sdp_buffer \<Rightarrow> mem \<Rightarrow> ((int \<times> sdp_buffer) \<times> mem) option"

abbreviation (input) BODY_MESSAGE_MAX_SIZE :: nat where "BODY_MESSAGE_MAX_SIZE \<equiv> 4000"

text \<open>The result of \<^verbatim>\<open>osip_realloc\<close> is not checked; the write has to stay in the buffer.\<close>

definition sdp_append_string :: "sdp_buffer \<Rightarrow> string \<Rightarrow> mem \<Rightarrow> (sdp_buffer \<times> mem) option" where
  "sdp_append_string buf s m = (case buf of (t, room) \<Rightarrow>
     if length t + length s + 1 > room
     then (case osip_malloc m of (ok, m) \<Rightarrow> do {
       ub_unless ok;
       t \<leftarrow> sprintf_at (room + length s + 500) t s;
       Some ((t, room + length s + 500), m)
     })
     else do { t \<leftarrow> sprintf_at room t s; Some ((t, room), m) })"

text \<open>The calls one after the other, and the printers that a function calls, up to the first error.\<close>

fun sdp_put :: "string list \<Rightarrow> sdp_printer" where
  "sdp_put [] buf m = Some ((OSIP_SUCCESS, buf), m)"
| "sdp_put (s # ss) buf m = do { (buf, m) \<leftarrow> sdp_append_string buf s m; sdp_put ss buf m }"

fun sdp_print_seq :: "sdp_printer list \<Rightarrow> sdp_printer" where
  "sdp_print_seq [] buf m = Some ((OSIP_SUCCESS, buf), m)"
| "sdp_print_seq (f # fs) buf m = do {
     ((i, buf), m) \<leftarrow> f buf m;
     if i \<noteq> 0 then Some ((-1, buf), m) else sdp_print_seq fs buf m
   }"

definition sdp_refuse :: sdp_printer where
  "sdp_refuse buf m = Some ((-1, buf), m)"

section \<open>The elements\<close>

definition sdp_append_connection :: "sdp_connection \<Rightarrow> sdp_printer" where
  "sdp_append_connection conn =
    (case (c_nettype conn, c_addrtype conn, c_addr conn) of
       (Some n, Some t, Some a) \<Rightarrow> sdp_put ([''c='', n, '' '', t, '' '', a]
         @ (case c_addr_multicast_ttl conn of None \<Rightarrow> [] | Some x \<Rightarrow> [''/'', x])
         @ (case c_addr_multicast_int conn of None \<Rightarrow> [] | Some x \<Rightarrow> [''/'', x]) @ [CRLF])
     | _ \<Rightarrow> sdp_refuse)"

definition sdp_append_bandwidth :: "sdp_bandwidth \<Rightarrow> sdp_printer" where
  "sdp_append_bandwidth bandwidth =
    (case (b_bwtype bandwidth, b_bandwidth bandwidth) of
       (Some t, Some b) \<Rightarrow> sdp_put [''b='', t, '':'', b, CRLF]
     | _ \<Rightarrow> sdp_refuse)"

definition sdp_append_time_descr :: "sdp_time_descr \<Rightarrow> sdp_printer" where
  "sdp_append_time_descr time_descr =
    (case (t_start_time time_descr, t_stop_time time_descr) of
       (Some a, Some b) \<Rightarrow> sdp_print_seq (sdp_put [''t='', a, '' '', b, CRLF]
         # map (\<lambda>r. sdp_put [''r='', r, CRLF]) (r_repeats time_descr))
     | _ \<Rightarrow> sdp_refuse)"

definition sdp_append_key :: "sdp_key \<Rightarrow> sdp_printer" where
  "sdp_append_key key =
    (case k_keytype key of
       Some t \<Rightarrow> sdp_put ([''k='', t] @ (case k_keydata key of None \<Rightarrow> [] | Some d \<Rightarrow> ['':'', d]) @ [CRLF])
     | None \<Rightarrow> sdp_refuse)"

definition sdp_append_attribute :: "sdp_attribute \<Rightarrow> sdp_printer" where
  "sdp_append_attribute attribute =
    (case a_att_field attribute of
       Some f \<Rightarrow> sdp_put ([''a='', f] @ (case a_att_value attribute of None \<Rightarrow> [] | Some v \<Rightarrow> ['':'', v]) @ [CRLF])
     | None \<Rightarrow> sdp_refuse)"

text \<open>A line that is written when its value is there, and an element that is printed when it is.\<close>

definition sdp_put_line :: "string \<Rightarrow> cstr \<Rightarrow> sdp_printer" where
  "sdp_put_line k v = (case v of None \<Rightarrow> sdp_put [] | Some v \<Rightarrow> sdp_put [k, v, CRLF])"

definition sdp_put_element :: "('e \<Rightarrow> sdp_printer) \<Rightarrow> 'e option \<Rightarrow> sdp_printer" where
  "sdp_put_element f e = (case e of None \<Rightarrow> sdp_put [] | Some e \<Rightarrow> f e)"

definition sdp_append_media :: "sdp_media \<Rightarrow> sdp_printer" where
  "sdp_append_media media =
    (case (m_media media, m_port media, m_proto media) of
       (Some md, Some port, Some proto) \<Rightarrow> sdp_print_seq
         ([sdp_put ([''m='', md, '' '', port] @ (case m_number_of_port media of None \<Rightarrow> [] | Some n \<Rightarrow> [''/'', n])
             @ ['' '', proto] @ concat (map (\<lambda>p. ['' '', p]) (m_payloads media)) @ [CRLF]),
           sdp_put_line ''i='' (m_i_info media)]
          @ map sdp_append_connection (m_c_connections media)
          @ map sdp_append_bandwidth (m_b_bandwidths media)
          @ [sdp_put_element sdp_append_key (m_k_key media)]
          @ map sdp_append_attribute (m_a_attributes media))
     | _ \<Rightarrow> sdp_refuse)"

section \<open>The description\<close>

definition sdp_message_to_str :: "sdp_message option \<Rightarrow> mem \<Rightarrow> ((int \<times> cstr) \<times> mem) option" where
  "sdp_message_to_str sdp m =
    (case sdp of
       None \<Rightarrow> Some ((-1, None), m)
     | Some sdp \<Rightarrow>
         (case (v_version sdp, o_username sdp, o_sess_id sdp, o_sess_version sdp, o_nettype sdp, o_addrtype sdp, o_addr sdp) of
            (Some v, Some un, Some si, Some sv, Some nt, Some ot, Some ad) \<Rightarrow> alloc_or m (OSIP_NOMEM, None) (\<lambda>m. do {
              ((i, (str, room)), m) \<leftarrow> sdp_print_seq
                ([sdp_put [''v='', v, CRLF, ''o='', un, '' '', si, '' '', sv, '' '', nt, '' '', ot, '' '', ad, CRLF],
                  sdp_put_line ''s='' (s_name sdp), sdp_put_line ''i='' (i_info sdp), sdp_put_line ''u='' (u_uri sdp)]
                 @ map (\<lambda>e. sdp_put [''e='', e, CRLF]) (e_emails sdp)
                 @ map (\<lambda>p. sdp_put [''p='', p, CRLF]) (p_phones sdp)
                 @ [sdp_put_element sdp_append_connection (c_connection sdp)]
                 @ map sdp_append_bandwidth (b_bandwidths sdp)
                 @ map sdp_append_time_descr (t_descrs sdp)
                 @ [sdp_put_line ''z='' (z_adjustments sdp), sdp_put_element sdp_append_key (k_key sdp)]
                 @ map sdp_append_attribute (a_attributes sdp)
                 @ map sdp_append_media (m_medias sdp)) ([], BODY_MESSAGE_MAX_SIZE) m;
              if i \<noteq> 0 then Some ((-1, None), m) else Some ((OSIP_SUCCESS, Some str), m)
            })
          | _ \<Rightarrow> Some ((-1, None), m)))"

text \<open>A copy is the description that is read from the printed one; no copy on an error.\<close>

definition sdp_message_clone :: "sdp_message option \<Rightarrow> mem \<Rightarrow> ((int \<times> sdp_message option) \<times> mem) option" where
  "sdp_message_clone sdp m = alloc_or m (-1, None) (\<lambda>m. do {
     ((i, body), m) \<leftarrow> sdp_message_to_str sdp m;
     if i \<noteq> 0 then Some ((-1, None), m)
     else do {
       body \<leftarrow> body;
       ((i, dest), m) \<leftarrow> sdp_message_parse sdp_message_init body m;
       if i \<noteq> 0 then Some ((-1, None), m) else Some ((OSIP_SUCCESS, Some dest), m)
     }
   })"

section \<open>What is printed\<close>

text \<open>
  With an allocator that does not fail (the empty list) a printer writes \<open>t\<close> behind what is in the
  buffer, and its writes stay in the buffer.
\<close>

definition prints :: "sdp_printer \<Rightarrow> string \<Rightarrow> bool" where
  "prints f t \<longleftrightarrow> (\<forall>buf room. length buf < room \<longrightarrow>
     (\<exists>room'. f (buf, room) [] = Some ((OSIP_SUCCESS, (buf @ t, room')), []) \<and> length (buf @ t) < room'))"

lemma sdp_append_string_ok:
  "length buf < room \<Longrightarrow> \<exists>room'. sdp_append_string (buf, room) s [] = Some ((buf @ s, room'), []) \<and> length (buf @ s) < room'"
  by (auto simp: sdp_append_string_def sprintf_at_def ub_unless_def)

lemma prints_put [intro]: "prints (sdp_put ss) (concat ss)"
proof (induction ss)
  case (Cons s ss)
  show ?case
    unfolding prints_def
  proof (intro allI impI)
    fix buf :: string and room
    assume "length buf < room"
    then obtain room1 where 1: "sdp_append_string (buf, room) s [] = Some ((buf @ s, room1), [])" "length (buf @ s) < room1"
      using sdp_append_string_ok by blast
    then obtain room2 where "sdp_put ss (buf @ s, room1) [] = Some ((OSIP_SUCCESS, ((buf @ s) @ concat ss, room2)), [])"
        "length ((buf @ s) @ concat ss) < room2"
      using Cons unfolding prints_def by blast
    then show "\<exists>room'. sdp_put (s # ss) (buf, room) [] = Some ((OSIP_SUCCESS, (buf @ concat (s # ss), room')), [])
        \<and> length (buf @ concat (s # ss)) < room'"
      using 1 by simp
  qed
qed (simp add: prints_def)

lemma prints_seq_cons: "prints f t \<Longrightarrow> prints (sdp_print_seq fs) u \<Longrightarrow> prints (sdp_print_seq (f # fs)) (t @ u)"
  unfolding prints_def
proof (intro allI impI)
  fix buf :: string and room
  assume f: "\<forall>buf room. length buf < room \<longrightarrow> (\<exists>room'. f (buf, room) [] = Some ((OSIP_SUCCESS, (buf @ t, room')), []) \<and> length (buf @ t) < room')"
    and fs: "\<forall>buf room. length buf < room \<longrightarrow> (\<exists>room'. sdp_print_seq fs (buf, room) [] = Some ((OSIP_SUCCESS, (buf @ u, room')), [])
        \<and> length (buf @ u) < room')"
    and "length buf < room"
  then obtain room1 where 1: "f (buf, room) [] = Some ((OSIP_SUCCESS, (buf @ t, room1)), [])" "length (buf @ t) < room1" by blast
  obtain room2 where "sdp_print_seq fs (buf @ t, room1) [] = Some ((OSIP_SUCCESS, ((buf @ t) @ u, room2)), [])"
      "length ((buf @ t) @ u) < room2"
    using fs 1(2) by blast
  then show "\<exists>room'. sdp_print_seq (f # fs) (buf, room) [] = Some ((OSIP_SUCCESS, (buf @ t @ u, room')), []) \<and> length (buf @ t @ u) < room'"
    using 1 by simp
qed

lemma prints_seq_nil: "prints (sdp_print_seq []) []"
  by (simp add: prints_def)

lemma prints_seq_append:
  "prints (sdp_print_seq fs) t \<Longrightarrow> prints (sdp_print_seq gs) u \<Longrightarrow> prints (sdp_print_seq (fs @ gs)) (t @ u)"
  unfolding prints_def
proof (intro allI impI)
  fix buf :: string and room
  assume f: "\<forall>buf room. length buf < room \<longrightarrow> (\<exists>room'. sdp_print_seq fs (buf, room) [] = Some ((OSIP_SUCCESS, (buf @ t, room')), []) \<and> length (buf @ t) < room')"
    and gs: "\<forall>buf room. length buf < room \<longrightarrow> (\<exists>room'. sdp_print_seq gs (buf, room) [] = Some ((OSIP_SUCCESS, (buf @ u, room')), [])
        \<and> length (buf @ u) < room')"
    and "length buf < room"
  then obtain room1 where 1: "sdp_print_seq fs (buf, room) [] = Some ((OSIP_SUCCESS, (buf @ t, room1)), [])" "length (buf @ t) < room1" by blast
  obtain room2 where 2: "sdp_print_seq gs (buf @ t, room1) [] = Some ((OSIP_SUCCESS, ((buf @ t) @ u, room2)), [])"
      "length ((buf @ t) @ u) < room2"
    using gs 1(2) by blast
  have "sdp_print_seq fs b m = Some ((0, b'), m') \<Longrightarrow> sdp_print_seq (fs @ gs) b m = sdp_print_seq gs b' m'" for b m b' m'
    by (induction fs arbitrary: b m) (auto split: bind_splits if_splits)
  then show "\<exists>room'. sdp_print_seq (fs @ gs) (buf, room) [] = Some ((OSIP_SUCCESS, (buf @ t @ u, room')), []) \<and> length (buf @ t @ u) < room'"
    using 1 2 by simp
qed

lemma prints_seq_map:
  assumes "\<And>x. x \<in> set xs \<Longrightarrow> prints (f x) (g x)"
  shows "prints (sdp_print_seq (map f xs)) (concat (map g xs))"
  using assms by (induction xs) (auto intro: prints_seq_cons prints_seq_nil)

end
