(* ===== verification/Sdp_Text.thy ===== *)
theory Sdp_Text
  imports Sdp_Print Message_Text
begin

text \<open>
  The lines of a printed session description, a letter and a value each, and the descriptions that
  can be read back from them.
\<close>

section \<open>Lines\<close>

type_synonym sdp_row = "char \<times> string"

definition row_text :: "sdp_row \<Rightarrow> string" where
  "row_text l = fst l # ''='' @ snd l @ CRLF"

definition rows_text :: "sdp_row list \<Rightarrow> string" where
  "rows_text ls = concat (map row_text ls)"

lemma rows_text_simps [simp]:
  "rows_text [] = []" "rows_text (l # ls) = row_text l @ rows_text ls" "rows_text (ks @ ls) = rows_text ks @ rows_text ls"
  by (simp_all add: rows_text_def)

lemma rows_text_concat: "rows_text (concat lss) = concat (map rows_text lss)"
  by (induction lss) simp_all

lemma concat_rows: "concat (map (\<lambda>x. row_text (f x)) xs) = rows_text (map f xs)"
  by (simp add: rows_text_def comp_def)

definition opt_rows :: "char \<Rightarrow> ('e \<Rightarrow> string) \<Rightarrow> 'e option \<Rightarrow> sdp_row list" where
  "opt_rows k f x = (case x of None \<Rightarrow> [] | Some x \<Rightarrow> [(k, f x)])"

definition behind :: "string \<Rightarrow> cstr \<Rightarrow> string" where
  "behind sep v = (case v of None \<Rightarrow> [] | Some v \<Rightarrow> sep @ v)"

section \<open>The values\<close>

definition origin_text :: "sdp_message \<Rightarrow> string" where
  "origin_text s = the (o_username s) @ '' '' @ the (o_sess_id s) @ '' '' @ the (o_sess_version s) @ '' '' @ the (o_nettype s)
     @ '' '' @ the (o_addrtype s) @ '' '' @ the (o_addr s)"

definition connection_text :: "sdp_connection \<Rightarrow> string" where
  "connection_text c = the (c_nettype c) @ '' '' @ the (c_addrtype c) @ '' '' @ the (c_addr c)
     @ behind ''/'' (c_addr_multicast_ttl c) @ behind ''/'' (c_addr_multicast_int c)"

definition bandwidth_text :: "sdp_bandwidth \<Rightarrow> string" where
  "bandwidth_text b = the (b_bwtype b) @ '':'' @ the (b_bandwidth b)"

definition time_text :: "sdp_time_descr \<Rightarrow> string" where
  "time_text t = the (t_start_time t) @ '' '' @ the (t_stop_time t)"

definition key_text :: "sdp_key \<Rightarrow> string" where
  "key_text k = the (k_keytype k) @ behind '':'' (k_keydata k)"

definition attribute_text :: "sdp_attribute \<Rightarrow> string" where
  "attribute_text a = the (a_att_field a) @ behind '':'' (a_att_value a)"

definition payloads_text :: "string list \<Rightarrow> string" where
  "payloads_text ps = concat (map (\<lambda>p. CHR '' '' # p) ps)"

definition media_text :: "sdp_media \<Rightarrow> string" where
  "media_text m = the (m_media m) @ '' '' @ the (m_port m) @ behind ''/'' (m_number_of_port m) @ '' '' @ the (m_proto m)
     @ payloads_text (m_payloads m)"

section \<open>The lines\<close>

definition repeat_rows :: "string list \<Rightarrow> sdp_row list" where
  "repeat_rows rs = map (Pair CHR ''r'') rs"

definition time_rows :: "sdp_time_descr \<Rightarrow> sdp_row list" where
  "time_rows t = (CHR ''t'', time_text t) # repeat_rows (r_repeats t)"

definition media_body_rows :: "sdp_media \<Rightarrow> sdp_row list" where
  "media_body_rows m = opt_rows CHR ''i'' id (m_i_info m)
     @ map (\<lambda>c. (CHR ''c'', connection_text c)) (m_c_connections m)
     @ map (\<lambda>b. (CHR ''b'', bandwidth_text b)) (m_b_bandwidths m)
     @ opt_rows CHR ''k'' key_text (m_k_key m)
     @ map (\<lambda>a. (CHR ''a'', attribute_text a)) (m_a_attributes m)"

definition media_rows :: "sdp_media \<Rightarrow> sdp_row list" where
  "media_rows m = (CHR ''m'', media_text m) # media_body_rows m"

definition head_rows :: "sdp_message \<Rightarrow> sdp_row list" where
  "head_rows s = opt_rows CHR ''s'' id (s_name s) @ opt_rows CHR ''i'' id (i_info s) @ opt_rows CHR ''u'' id (u_uri s)
     @ map (Pair CHR ''e'') (e_emails s) @ map (Pair CHR ''p'') (p_phones s)
     @ opt_rows CHR ''c'' connection_text (c_connection s)
     @ map (\<lambda>b. (CHR ''b'', bandwidth_text b)) (b_bandwidths s)"

definition sdp_rows :: "sdp_message \<Rightarrow> sdp_row list" where
  "sdp_rows s = (CHR ''v'', the (v_version s)) # (CHR ''o'', origin_text s) # head_rows s
     @ concat (map time_rows (t_descrs s))
     @ opt_rows CHR ''z'' id (z_adjustments s) @ opt_rows CHR ''k'' key_text (k_key s)
     @ map (\<lambda>a. (CHR ''a'', attribute_text a)) (a_attributes s)
     @ concat (map media_rows (m_medias s))"

definition sdp_message_text :: "sdp_message \<Rightarrow> string" where
  "sdp_message_text s = rows_text (sdp_rows s)"

section \<open>Well-formed descriptions\<close>

text \<open>A word of a line ends in front of a separator, a value in front of the end of the line.\<close>

definition line_value :: "string \<Rightarrow> bool" where
  "line_value v \<longleftrightarrow> v \<noteq> [] \<and> one_line v"

definition word_of :: "char \<Rightarrow> string \<Rightarrow> bool" where
  "word_of sep v \<longleftrightarrow> line_value v \<and> sep \<notin> set v"

definition has :: "('e \<Rightarrow> bool) \<Rightarrow> 'e option \<Rightarrow> bool" where
  "has P x \<longleftrightarrow> (case x of None \<Rightarrow> False | Some x \<Rightarrow> P x)"

definition if_any :: "('e \<Rightarrow> bool) \<Rightarrow> 'e option \<Rightarrow> bool" where
  "if_any P x \<longleftrightarrow> (case x of None \<Rightarrow> True | Some x \<Rightarrow> P x)"

definition connection_wf :: "sdp_connection \<Rightarrow> bool" where
  "connection_wf c \<longleftrightarrow> has (word_of CHR '' '') (c_nettype c) \<and> has (word_of CHR '' '') (c_addrtype c)
     \<and> has (word_of CHR ''/'') (c_addr c) \<and> if_any (word_of CHR ''/'') (c_addr_multicast_ttl c)
     \<and> if_any line_value (c_addr_multicast_int c) \<and> (c_addr_multicast_ttl c = None \<longrightarrow> c_addr_multicast_int c = None)"

definition bandwidth_wf :: "sdp_bandwidth \<Rightarrow> bool" where
  "bandwidth_wf b \<longleftrightarrow> has (word_of CHR '':'') (b_bwtype b) \<and> has line_value (b_bandwidth b)"

definition time_wf :: "sdp_time_descr \<Rightarrow> bool" where
  "time_wf t \<longleftrightarrow> has (word_of CHR '' '') (t_start_time t) \<and> has line_value (t_stop_time t) \<and> list_all line_value (r_repeats t)"

definition key_wf :: "sdp_key \<Rightarrow> bool" where
  "key_wf k \<longleftrightarrow> has (word_of CHR '':'') (k_keytype k) \<and> if_any line_value (k_keydata k)"

definition attribute_wf :: "sdp_attribute \<Rightarrow> bool" where
  "attribute_wf a \<longleftrightarrow> has (word_of CHR '':'') (a_att_field a) \<and> if_any line_value (a_att_value a)"

text \<open>The port has no slash; a number of ports may have one.\<close>

definition media_line_wf :: "sdp_media \<Rightarrow> bool" where
  "media_line_wf m \<longleftrightarrow> has (word_of CHR '' '') (m_media m) \<and> has (\<lambda>p. word_of CHR '' '' p \<and> word_of CHR ''/'' p) (m_port m)
     \<and> if_any (word_of CHR '' '') (m_number_of_port m) \<and> has (word_of CHR '' '') (m_proto m)
     \<and> list_all (word_of CHR '' '') (m_payloads m)"

definition media_wf :: "sdp_media \<Rightarrow> bool" where
  "media_wf m \<longleftrightarrow> media_line_wf m \<and> if_any line_value (m_i_info m) \<and> list_all connection_wf (m_c_connections m)
     \<and> list_all bandwidth_wf (m_b_bandwidths m) \<and> if_any key_wf (m_k_key m) \<and> list_all attribute_wf (m_a_attributes m)"

definition origin_wf :: "sdp_message \<Rightarrow> bool" where
  "origin_wf s \<longleftrightarrow> has (word_of CHR '' '') (o_username s) \<and> has (word_of CHR '' '') (o_sess_id s)
     \<and> has (word_of CHR '' '') (o_sess_version s) \<and> has (word_of CHR '' '') (o_nettype s)
     \<and> has (word_of CHR '' '') (o_addrtype s) \<and> has line_value (o_addr s)"

definition sdp_wf :: "sdp_message \<Rightarrow> bool" where
  "sdp_wf s \<longleftrightarrow> has line_value (v_version s) \<and> origin_wf s
     \<and> if_any line_value (s_name s) \<and> if_any line_value (i_info s) \<and> if_any line_value (u_uri s)
     \<and> list_all line_value (e_emails s) \<and> list_all line_value (p_phones s)
     \<and> if_any connection_wf (c_connection s) \<and> list_all bandwidth_wf (b_bandwidths s)
     \<and> t_descrs s \<noteq> [] \<and> list_all time_wf (t_descrs s)
     \<and> if_any line_value (z_adjustments s) \<and> if_any key_wf (k_key s) \<and> list_all attribute_wf (a_attributes s)
     \<and> list_all media_wf (m_medias s)"

lemma has_Some: "has P x \<Longrightarrow> \<exists>v. x = Some v \<and> P v"
  by (auto simp: has_def split: option.splits)

lemma has_simps [simp]: "\<not> has P None" "has P (Some v) \<longleftrightarrow> P v"
  by (simp_all add: has_def)

lemma if_any_simps [simp]: "if_any P None" "if_any P (Some v) \<longleftrightarrow> P v"
  by (simp_all add: if_any_def)

section \<open>What is printed\<close>

lemma prints_as: "concat ss = t \<Longrightarrow> prints (sdp_put ss) t"
  using prints_put by blast

lemma prints_connection: "connection_wf c \<Longrightarrow> prints (sdp_append_connection c) (row_text (CHR ''c'', connection_text c))"
  by (auto simp: connection_wf_def sdp_append_connection_def row_text_def connection_text_def behind_def
    intro!: prints_as dest!: has_Some split: option.split)

lemma prints_bandwidth: "bandwidth_wf b \<Longrightarrow> prints (sdp_append_bandwidth b) (row_text (CHR ''b'', bandwidth_text b))"
  by (auto simp: bandwidth_wf_def sdp_append_bandwidth_def row_text_def bandwidth_text_def intro!: prints_as dest!: has_Some)

lemma prints_key: "key_wf k \<Longrightarrow> prints (sdp_append_key k) (row_text (CHR ''k'', key_text k))"
  by (auto simp: key_wf_def sdp_append_key_def row_text_def key_text_def behind_def
    intro!: prints_as dest!: has_Some split: option.split)

lemma prints_attribute: "attribute_wf a \<Longrightarrow> prints (sdp_append_attribute a) (row_text (CHR ''a'', attribute_text a))"
  by (auto simp: attribute_wf_def sdp_append_attribute_def row_text_def attribute_text_def behind_def
    intro!: prints_as dest!: has_Some split: option.split)

lemma prints_line: "prints (sdp_put_line [k, CHR ''=''] v) (rows_text (opt_rows k id v))"
  by (auto simp: sdp_put_line_def opt_rows_def row_text_def intro!: prints_as split: option.split)

lemma prints_element:
  assumes "\<And>x. P x \<Longrightarrow> prints (f x) (row_text (k, g x))" "if_any P e"
  shows "prints (sdp_put_element f e) (rows_text (opt_rows k g e))"
  using assms by (auto simp: sdp_put_element_def opt_rows_def intro!: prints_as split: option.split)

lemma prints_each:
  assumes "\<And>x. P x \<Longrightarrow> prints (f x) (row_text (k, g x))" "list_all P xs"
  shows "prints (sdp_print_seq (map f xs)) (rows_text (map (\<lambda>x. (k, g x)) xs))"
  using assms prints_seq_map [of xs f "\<lambda>x. row_text (k, g x)"] by (simp add: concat_rows list_all_iff)

lemma prints_values: "prints (sdp_print_seq (map (\<lambda>x. sdp_put [[k, CHR ''=''], x, CRLF]) xs)) (rows_text (map (Pair k) xs))"
proof -
  have "prints (sdp_put [[k, CHR ''=''], x, CRLF]) (row_text (k, id x))" for x by (simp add: row_text_def prints_as)
  then have "prints (sdp_print_seq (map (\<lambda>x. sdp_put [[k, CHR ''=''], x, CRLF]) xs)) (rows_text (map (\<lambda>x. (k, id x)) xs))"
    by (intro prints_each [of "\<lambda>_. True"]) (simp_all add: list_all_iff)
  then show ?thesis by simp
qed

lemma prints_time:
  assumes "time_wf t"
  shows "prints (sdp_append_time_descr t) (rows_text (time_rows t))"
proof -
  obtain a b where t: "t_start_time t = Some a" "t_stop_time t = Some b"
    using assms by (auto simp: time_wf_def dest!: has_Some)
  have "prints (sdp_put [''t='', a, '' '', b, CRLF]) (row_text (CHR ''t'', time_text t))"
    by (rule prints_as) (simp add: row_text_def time_text_def t)
  then have "prints (sdp_print_seq (sdp_put [''t='', a, '' '', b, CRLF] # map (\<lambda>r. sdp_put [''r='', r, CRLF]) (r_repeats t)))
      (row_text (CHR ''t'', time_text t) @ rows_text (repeat_rows (r_repeats t)))"
    unfolding repeat_rows_def by (rule prints_seq_cons [OF _ prints_values])
  then show ?thesis by (simp add: sdp_append_time_descr_def t time_rows_def)
qed

lemma prints_media:
  assumes "media_wf m"
  shows "prints (sdp_append_media m) (rows_text (media_rows m))"
proof -
  obtain md port proto where m: "m_media m = Some md" "m_port m = Some port" "m_proto m = Some proto"
    using assms by (auto simp: media_wf_def media_line_wf_def dest!: has_Some)
  have wf: "list_all connection_wf (m_c_connections m)" "list_all bandwidth_wf (m_b_bandwidths m)" "if_any key_wf (m_k_key m)"
      "list_all attribute_wf (m_a_attributes m)"
    using assms by (simp_all add: media_wf_def)
  let ?line = "sdp_put ([''m='', md, '' '', port] @ (case m_number_of_port m of None \<Rightarrow> [] | Some n \<Rightarrow> [''/'', n])
      @ ['' '', proto] @ concat (map (\<lambda>p. ['' '', p]) (m_payloads m)) @ [CRLF])"
  have ps: "concat (concat (map (\<lambda>p. ['' '', p]) ps)) = payloads_text ps" for ps
    by (induction ps) (simp_all add: payloads_text_def)
  have line: "prints ?line (row_text (CHR ''m'', media_text m))"
    by (rule prints_as) (simp add: row_text_def media_text_def m behind_def ps split: option.split)
  have key: "prints (sdp_print_seq [sdp_put_element sdp_append_key (m_k_key m)]) (rows_text (opt_rows CHR ''k'' key_text (m_k_key m)) @ [])"
    by (intro prints_seq_cons prints_element [OF prints_key wf(3)] prints_seq_nil)
  note parts = prints_each [OF prints_connection wf(1)] prints_each [OF prints_bandwidth wf(2)] key
    prints_each [OF prints_attribute wf(4)]
  have info: "prints (sdp_print_seq [?line, sdp_put_line ''i='' (m_i_info m)])
      (row_text (CHR ''m'', media_text m) @ rows_text (opt_rows CHR ''i'' id (m_i_info m)) @ [])"
    by (intro prints_seq_cons line prints_line prints_seq_nil)
  show ?thesis
    using prints_seq_append [OF info prints_seq_append [OF parts(1) prints_seq_append [OF parts(2) prints_seq_append [OF parts(3,4)]]]]
    by (simp add: sdp_append_media_def m media_rows_def media_body_rows_def)
qed

theorem sdp_message_to_str_ok:
  assumes "sdp_wf s"
  shows "sdp_message_to_str (Some s) [] = Some ((OSIP_SUCCESS, Some (sdp_message_text s)), [])"
proof -
  obtain v un si sv nt ot ad where o: "v_version s = Some v" "o_username s = Some un" "o_sess_id s = Some si"
      "o_sess_version s = Some sv" "o_nettype s = Some nt" "o_addrtype s = Some ot" "o_addr s = Some ad"
    using assms by (auto simp: sdp_wf_def origin_wf_def dest!: has_Some)
  have wf: "if_any connection_wf (c_connection s)" "list_all bandwidth_wf (b_bandwidths s)" "list_all time_wf (t_descrs s)"
      "if_any key_wf (k_key s)" "list_all attribute_wf (a_attributes s)" "list_all media_wf (m_medias s)"
    using assms by (simp_all add: sdp_wf_def)
  let ?first = "sdp_put [''v='', v, CRLF, ''o='', un, '' '', si, '' '', sv, '' '', nt, '' '', ot, '' '', ad, CRLF]"
  have first: "prints ?first (row_text (CHR ''v'', v) @ row_text (CHR ''o'', origin_text s))"
    by (rule prints_as) (simp add: row_text_def origin_text_def o)
  have heads: "prints (sdp_print_seq [?first, sdp_put_line ''s='' (s_name s), sdp_put_line ''i='' (i_info s), sdp_put_line ''u='' (u_uri s)])
      ((row_text (CHR ''v'', v) @ row_text (CHR ''o'', origin_text s)) @ rows_text (opt_rows CHR ''s'' id (s_name s))
        @ rows_text (opt_rows CHR ''i'' id (i_info s)) @ rows_text (opt_rows CHR ''u'' id (u_uri s)) @ [])"
    by (intro prints_seq_cons first prints_line prints_seq_nil)
  have conn: "prints (sdp_print_seq [sdp_put_element sdp_append_connection (c_connection s)])
      (rows_text (opt_rows CHR ''c'' connection_text (c_connection s)) @ [])"
    by (intro prints_seq_cons prints_element [OF prints_connection wf(1)] prints_seq_nil)
  have zk: "prints (sdp_print_seq [sdp_put_line ''z='' (z_adjustments s), sdp_put_element sdp_append_key (k_key s)])
      (rows_text (opt_rows CHR ''z'' id (z_adjustments s)) @ rows_text (opt_rows CHR ''k'' key_text (k_key s)) @ [])"
    by (intro prints_seq_cons prints_line prints_element [OF prints_key wf(4)] prints_seq_nil)
  have times: "prints (sdp_print_seq (map sdp_append_time_descr (t_descrs s))) (concat (map (\<lambda>t. rows_text (time_rows t)) (t_descrs s)))"
    using wf(3) by (intro prints_seq_map prints_time) (simp add: list_all_iff)
  have medias: "prints (sdp_print_seq (map sdp_append_media (m_medias s))) (concat (map (\<lambda>x. rows_text (media_rows x)) (m_medias s)))"
    using wf(6) by (intro prints_seq_map prints_media) (simp add: list_all_iff)
  let ?fs = "[?first, sdp_put_line ''s='' (s_name s), sdp_put_line ''i='' (i_info s), sdp_put_line ''u='' (u_uri s)]
      @ map (\<lambda>e. sdp_put [''e='', e, CRLF]) (e_emails s) @ map (\<lambda>p. sdp_put [''p='', p, CRLF]) (p_phones s)
      @ [sdp_put_element sdp_append_connection (c_connection s)] @ map sdp_append_bandwidth (b_bandwidths s)
      @ map sdp_append_time_descr (t_descrs s)
      @ [sdp_put_line ''z='' (z_adjustments s), sdp_put_element sdp_append_key (k_key s)]
      @ map sdp_append_attribute (a_attributes s) @ map sdp_append_media (m_medias s)"
  note parts = heads prints_values prints_values conn prints_each [OF prints_bandwidth wf(2)] times zk
    prints_each [OF prints_attribute wf(5)] medias
  have whole: "sdp_message_text s
      = ((row_text (CHR ''v'', v) @ row_text (CHR ''o'', origin_text s)) @ rows_text (opt_rows CHR ''s'' id (s_name s))
        @ rows_text (opt_rows CHR ''i'' id (i_info s)) @ rows_text (opt_rows CHR ''u'' id (u_uri s)) @ [])
      @ rows_text (map (Pair CHR ''e'') (e_emails s)) @ rows_text (map (Pair CHR ''p'') (p_phones s))
      @ (rows_text (opt_rows CHR ''c'' connection_text (c_connection s)) @ [])
      @ rows_text (map (\<lambda>b. (CHR ''b'', bandwidth_text b)) (b_bandwidths s))
      @ concat (map (\<lambda>t. rows_text (time_rows t)) (t_descrs s))
      @ (rows_text (opt_rows CHR ''z'' id (z_adjustments s)) @ rows_text (opt_rows CHR ''k'' key_text (k_key s)) @ [])
      @ rows_text (map (\<lambda>a. (CHR ''a'', attribute_text a)) (a_attributes s))
      @ concat (map (\<lambda>x. rows_text (media_rows x)) (m_medias s))"
    by (simp add: sdp_message_text_def sdp_rows_def head_rows_def o rows_text_concat comp_def)
  have "prints (sdp_print_seq ?fs) (sdp_message_text s)"
    unfolding whole by (intro prints_seq_append parts)
  moreover have "length [] < (4000::nat)" by simp
  ultimately obtain room' where "sdp_print_seq ?fs ([], 4000) [] = Some ((OSIP_SUCCESS, ([] @ sdp_message_text s, room')), [])"
    unfolding prints_def by blast
  then show ?thesis
    unfolding sdp_message_to_str_def o option.case prod.case alloc_or_def osip_malloc.simps if_True by simp
qed

end
