(* ===== verification/Sdp_Rows.thy ===== *)
theory Sdp_Rows
  imports Sdp_Text
begin

text \<open>
  Each parser of \<^verbatim>\<open>sdp_message.c\<close> reads its printed line back, and stays in front of a line of another
  kind.
\<close>

section \<open>Tokens\<close>

lemma one_line_chars: "one_line v \<Longrightarrow> c \<in> set v \<Longrightarrow> c \<noteq> CR \<and> c \<noteq> LF \<and> c \<noteq> NUL"
  by (auto simp: one_line_def)

lemma set_next_token_word:
  assumes "word_of sep w"
  shows "osip_set_next_token (w @ sep # r) sep [] = Some ((0, Some w, Some r), [])"
proof -
  have w: "w \<noteq> []" "\<forall>c \<in> set w. c \<noteq> sep \<and> c \<noteq> CR \<and> c \<noteq> LF"
    using assms by (auto simp: word_of_def line_value_def dest: one_line_chars)
  then have "dropWhile (\<lambda>c. c \<noteq> sep \<and> c \<noteq> CR \<and> c \<noteq> LF) (w @ sep # r) = sep # r"
    by (subst dropWhile_append2) auto
  then show ?thesis using w(1) by (simp add: osip_set_next_token_def cur_def ptr_diff_def osip_strncpy_def advance_def)
qed

lemma word_of_line: "line_value w \<Longrightarrow> word_of CR w"
  by (auto simp: word_of_def line_value_def one_line_def)

lemma sdp_token_word: "word_of sep w \<Longrightarrow> sdp_token (w @ sep # r) sep failed [] k = k w r []"
  by (simp add: sdp_token_def set_next_token_word)

lemma sdp_last_token_value: "line_value w \<Longrightarrow> sdp_last_token (w @ CR # r) failed [] k = k w r []"
  by (simp add: sdp_last_token_def set_next_token_word word_of_line)

lemma sdp_text_value: "sdp_text failed (w @ r) r [] k = k w []"
  by (simp add: sdp_text_def alloc_or_def ptr_diff_def osip_strncpy_def)

lemma strchr_behind: "c \<notin> set w \<Longrightarrow> strchr (w @ r) c = strchr r c"
proof -
  assume "c \<notin> set w"
  then have "dropWhile (\<lambda>d. d \<noteq> c) (w @ r) = dropWhile (\<lambda>d. d \<noteq> c) r" by (subst dropWhile_append2) auto
  then show ?thesis by (simp only: strchr_def)
qed

lemma strchr_here: "strchr (c # r) c = Some (c # r)"
  by (simp add: strchr_def)

text \<open>A character that is not in the value of a line is not found in front of its end.\<close>

lemma not_in_line: "c \<notin> set w \<Longrightarrow> \<not> in_line (strchr (w @ r) c) r"
proof -
  assume "c \<notin> set w"
  then have same: "strchr (w @ r) c = strchr r c" by (rule strchr_behind)
  have "length (dropWhile (\<lambda>d. d \<noteq> c) r) \<le> length r" by (rule length_dropWhile_le)
  then show ?thesis unfolding same by (cases "dropWhile (\<lambda>d. d \<noteq> c) r") (simp_all add: in_line_def strchr_def del: dropWhile_eq_Nil_conv)
qed

lemma in_this_line: "c \<notin> set w \<Longrightarrow> in_line (strchr (w @ c # v @ r) c) r"
  by (simp add: strchr_behind strchr_here in_line_def)

section \<open>One line\<close>

text \<open>The letter of a line is none of the characters the parser looks for.\<close>

definition letter :: "char \<Rightarrow> bool" where
  "letter k \<longleftrightarrow> k \<noteq> CHR ''='' \<and> k \<noteq> CR \<and> k \<noteq> LF \<and> k \<noteq> NUL"

lemma sdp_field_row:
  assumes "letter k" "line_value v"
  shows "sdp_field k False (b, row_text (k, v) @ r) = Some (Inr (v @ CRLF @ r, CRLF @ r))"
proof -
  have "dropWhile (\<lambda>c. c \<noteq> CR \<and> c \<noteq> LF) (v @ CR # LF # r) = CR # LF # r"
    using assms(2) by (subst dropWhile_append2) (auto simp: line_value_def dest: one_line_chars)
  then show ?thesis using assms by (simp add: sdp_field_def row_text_def letter_def line_value_def Let_def)
qed

lemma sdp_field_other:
  assumes "letter k" "k \<noteq> n"
  shows "sdp_field n refused (b, row_text (k, v) @ r) = Some (Inl 0)"
  using assms by (simp add: sdp_field_def row_text_def letter_def Let_def)

lemma behind_line_crlf: "behind_line (CRLF @ r) = (Some LF, r)"
  by (simp add: behind_line_def cur_def)

text \<open>A parser takes the line \<open>l\<close>, or no line of another kind than \<open>k\<close>.\<close>

type_synonym sdp_parser = "sdp_message \<Rightarrow> place \<Rightarrow> mem \<Rightarrow> sdp_answer"

definition takes :: "sdp_parser \<Rightarrow> sdp_row \<Rightarrow> sdp_message \<Rightarrow> sdp_message \<Rightarrow> bool" where
  "takes parse l s s' \<longleftrightarrow> (\<forall>b r. parse s (b, row_text l @ r) [] = Some ((WF, s', (Some LF, r)), []))"

definition leaves :: "sdp_parser \<Rightarrow> char \<Rightarrow> bool" where
  "leaves parse k \<longleftrightarrow> (\<forall>s b l r m. letter (fst l) \<longrightarrow> fst l \<noteq> k \<longrightarrow>
     parse s (b, row_text l @ r) m = Some ((ERR_DISCARD, s, (b, row_text l @ r)), m))"

lemma sdp_line_takes:
  assumes "letter k" "line_value v" "\<not> refused" "\<And>r. rest (v @ CRLF @ r) (CRLF @ r) [] = Some ((WF, s'), [])"
  shows "sdp_line k refused rest s (b, row_text (k, v) @ r) [] = Some ((WF, s', (Some LF, r)), [])"
  unfolding sdp_line_def using sdp_field_row [OF assms(1,2), of b r] assms(3) assms(4) [of r]
  by (simp only: behind_line_crlf bind.bind_lunit sum.case prod.case simp_thms if_True)

lemma sdp_line_leaves:
  "letter (fst l) \<Longrightarrow> fst l \<noteq> k \<Longrightarrow> sdp_line k refused rest s (b, row_text l @ r) m = Some ((ERR_DISCARD, s, (b, row_text l @ r)), m)"
  by (cases l) (simp add: sdp_line_def sdp_field_other)

lemma letters [simp]: "letter CHR ''v''" "letter CHR ''o''" "letter CHR ''s''" "letter CHR ''i''" "letter CHR ''u''"
  "letter CHR ''e''" "letter CHR ''p''" "letter CHR ''c''" "letter CHR ''b''" "letter CHR ''t''" "letter CHR ''r''"
  "letter CHR ''z''" "letter CHR ''k''" "letter CHR ''a''" "letter CHR ''m''"
  by (simp_all add: letter_def)

lemma parsers_leave: "leaves sdp_message_parse_o CHR ''o''" "leaves sdp_message_parse_s CHR ''s''"
  "leaves sdp_message_parse_i CHR ''i''" "leaves sdp_message_parse_u CHR ''u''" "leaves sdp_message_parse_e CHR ''e''"
  "leaves sdp_message_parse_p CHR ''p''" "leaves sdp_message_parse_c CHR ''c''" "leaves sdp_message_parse_b CHR ''b''"
  "leaves sdp_message_parse_t CHR ''t''" "leaves sdp_message_parse_r CHR ''r''" "leaves sdp_message_parse_z CHR ''z''"
  "leaves sdp_message_parse_k CHR ''k''" "leaves sdp_message_parse_a CHR ''a''" "leaves sdp_message_parse_m CHR ''m''"
  by (simp_all only: leaves_def line_parser_defs) (intro allI impI, rule sdp_line_leaves, assumption, assumption)+

section \<open>Lines with one value\<close>

lemma sdp_message_parse_v_takes: "line_value v \<Longrightarrow> takes sdp_message_parse_v (CHR ''v'', v) s (s\<lparr>v_version := Some v\<rparr>)"
  unfolding takes_def sdp_message_parse_v_def
proof (intro allI)
  fix b :: "char option" and r
  assume "line_value v"
  moreover have "\<not> cur (snd (b, row_text (CHR ''v'', v) @ r)) = CHR ''=''" by (simp add: cur_def row_text_def)
  ultimately show "(if cur (snd (b, row_text (CHR ''v'', v) @ r)) = CHR ''='' then Some ((0, s, b, row_text (CHR ''v'', v) @ r), [])
      else sdp_line CHR ''v'' False (\<lambda>val crlf m. sdp_text (s\<lparr>v_version := None\<rparr>) val crlf m
        (\<lambda>v m. Some ((1, s\<lparr>v_version := Some v\<rparr>), m))) s (b, row_text (CHR ''v'', v) @ r) [])
      = Some ((1, s\<lparr>v_version := Some v\<rparr>, Some LF, r), [])"
    by (simp add: sdp_line_takes sdp_text_value)
qed

lemma sdp_message_parse_s_takes: "line_value v \<Longrightarrow> takes sdp_message_parse_s (CHR ''s'', v) s (s\<lparr>s_name := Some v\<rparr>)"
  and sdp_message_parse_u_takes: "line_value v \<Longrightarrow> takes sdp_message_parse_u (CHR ''u'', v) s (s\<lparr>u_uri := Some v\<rparr>)"
  and sdp_message_parse_z_takes: "line_value v \<Longrightarrow> takes sdp_message_parse_z (CHR ''z'', v) s (s\<lparr>z_adjustments := Some v\<rparr>)"
  and sdp_message_parse_e_takes: "line_value v \<Longrightarrow> takes sdp_message_parse_e (CHR ''e'', v) s (s\<lparr>e_emails := e_emails s @ [v]\<rparr>)"
  and sdp_message_parse_p_takes: "line_value v \<Longrightarrow> takes sdp_message_parse_p (CHR ''p'', v) s (s\<lparr>p_phones := p_phones s @ [v]\<rparr>)"
  and sdp_message_parse_r_takes: "line_value v \<Longrightarrow> t_descrs s \<noteq> [] \<Longrightarrow> takes sdp_message_parse_r (CHR ''r'', v) s
    (s\<lparr>t_descrs := butlast (t_descrs s) @ [(last (t_descrs s))\<lparr>r_repeats := r_repeats (last (t_descrs s)) @ [v]\<rparr>]\<rparr>)"
  and sdp_message_parse_i_takes: "line_value v \<Longrightarrow> m_medias s = [] \<Longrightarrow> takes sdp_message_parse_i (CHR ''i'', v) s (s\<lparr>i_info := Some v\<rparr>)"
  and media_parse_i_takes: "line_value v \<Longrightarrow> takes sdp_message_parse_i (CHR ''i'', v) (s\<lparr>m_medias := ms @ [med]\<rparr>)
    (s\<lparr>m_medias := ms @ [med\<lparr>m_i_info := Some v\<rparr>]\<rparr>)"
  by (simp_all add: takes_def line_parser_defs sdp_line_takes sdp_text_value list_add_def l_add_def place_in_def)

section \<open>Lines with several words\<close>

lemma one_line_simps [simp]:
  "one_line []" "one_line (c # v) \<longleftrightarrow> c \<noteq> CR \<and> c \<noteq> LF \<and> c \<noteq> NUL \<and> one_line v" "one_line (v @ w) \<longleftrightarrow> one_line v \<and> one_line w"
  by (auto simp: one_line_def)

lemma line_value_append: "line_value v \<Longrightarrow> one_line w \<Longrightarrow> line_value (v @ w)"
  by (simp add: line_value_def)

lemma word_one_line: "word_of sep v \<Longrightarrow> line_value v" "word_of sep v \<Longrightarrow> one_line v" "line_value v \<Longrightarrow> one_line v"
  by (auto simp: word_of_def line_value_def)

lemma one_line_behind: "if_any line_value v \<Longrightarrow> one_line [c] \<Longrightarrow> one_line (behind [c] v)"
  by (cases v) (auto simp: behind_def line_value_def)

lemma if_any_word: "if_any (word_of sep) v \<Longrightarrow> if_any line_value v"
  by (cases v) (auto simp: word_one_line)

lemma new_element_fill: "fill [] = Some ((WF, e), []) \<Longrightarrow> new_element fill s [] add = (case add e [] of (s, m) \<Rightarrow> Some ((WF, s), m))"
  by (simp add: new_element_def alloc_or_def)

lemma sdp_message_parse_o_takes:
  assumes "origin_wf t"
  shows "takes sdp_message_parse_o (CHR ''o'', origin_text t) s
    (s\<lparr>o_username := o_username t, o_sess_id := o_sess_id t, o_sess_version := o_sess_version t, o_nettype := o_nettype t,
       o_addrtype := o_addrtype t, o_addr := o_addr t\<rparr>)"
proof -
  obtain un si sv nt ot ad where o: "o_username t = Some un" "o_sess_id t = Some si"
      "o_sess_version t = Some sv" "o_nettype t = Some nt" "o_addrtype t = Some ot" "o_addr t = Some ad"
    and w: "word_of CHR '' '' un" "word_of CHR '' '' si" "word_of CHR '' '' sv" "word_of CHR '' '' nt" "word_of CHR '' '' ot" "line_value ad"
    using assms by (auto simp: origin_wf_def dest!: has_Some)
  have v: "line_value (origin_text t)"
    using w by (auto simp: origin_text_def o intro!: line_value_append dest: word_one_line)
  show ?thesis
    unfolding takes_def sdp_message_parse_o_def
    by (intro allI sdp_line_takes letters v) (simp_all add: origin_text_def o w sdp_token_word sdp_last_token_value Let_def)
qed

lemma sdp_connection_addr_reads:
  assumes "word_of CHR ''/'' a" "if_any (word_of CHR ''/'') ttl" "if_any line_value num" "ttl = None \<longrightarrow> num = None"
  shows "sdp_connection_addr (a @ behind ''/'' ttl @ behind ''/'' num @ CRLF @ r) (CRLF @ r) (sdp_connection_init\<lparr>c_nettype := n, c_addrtype := t\<rparr>) []
    = Some ((WF, \<lparr>c_nettype = n, c_addrtype = t, c_addr = Some a, c_addr_multicast_ttl = ttl, c_addr_multicast_int = num\<rparr>), [])"
proof -
  have a: "CHR ''/'' \<notin> set a" "line_value a" using assms(1) by (simp_all add: word_of_def)
  show ?thesis
  proof (cases ttl)
    case None
    then show ?thesis
      using assms(4) a not_in_line [OF a(1), of "CRLF @ r"]
      by (simp add: behind_def sdp_connection_addr_def Let_def sdp_last_token_value sdp_connection_init_def)
  next
    case (Some x)
    then have x: "CHR ''/'' \<notin> set x" "word_of CHR ''/'' x" "line_value x" using assms(2) by (simp_all add: word_of_def)
    show ?thesis
    proof (cases num)
      case None
      then show ?thesis
        using Some assms(1) x in_this_line [OF a(1), of x "CRLF @ r"] not_in_line [OF x(1), of "CRLF @ r"] a(1)
        by (simp add: behind_def sdp_connection_addr_def Let_def sdp_token_word sdp_last_token_value sdp_connection_init_def
            strchr_behind strchr_here advance_def)
    next
      case y: (Some y)
      then have "line_value y" using assms(3) by simp
      then show ?thesis
        using Some y assms(1) x in_this_line [OF a(1), of "x @ CHR ''/'' # y" "CRLF @ r"] in_this_line [OF x(1), of y "CRLF @ r"] a(1)
        by (simp add: behind_def sdp_connection_addr_def Let_def sdp_token_word sdp_last_token_value sdp_connection_init_def
            strchr_behind strchr_here advance_def)
    qed
  qed
qed

lemma place_in_sdp: "m_medias s = [] \<Longrightarrow> place_in f g s m = f s m"
  by (simp add: place_in_def)

lemma place_in_media: "place_in f g (s\<lparr>m_medias := ms @ [med]\<rparr>) m = (case g med m of (med, m) \<Rightarrow> (s\<lparr>m_medias := ms @ [med]\<rparr>, m))"
  by (simp add: place_in_def)

lemma connection_line_value: "connection_wf c \<Longrightarrow> line_value (connection_text c)"
proof -
  assume c: "connection_wf c"
  obtain n t a where e: "c_nettype c = Some n" "c_addrtype c = Some t" "c_addr c = Some a"
    using c by (auto simp: connection_wf_def dest!: has_Some)
  have "one_line (behind ''/'' (c_addr_multicast_ttl c))" "one_line (behind ''/'' (c_addr_multicast_int c))"
    using c by (auto simp: connection_wf_def intro!: one_line_behind dest: if_any_word)
  moreover have "line_value n" "one_line t" "one_line a" using c e by (auto simp: connection_wf_def word_one_line)
  ultimately show ?thesis unfolding connection_text_def e option.sel by (intro line_value_append) simp_all
qed

lemma connection_reads:
  assumes "connection_wf c"
  shows "sdp_token (connection_text c @ CRLF @ r) CHR '' '' (\<lambda>_. sdp_connection_init) [] (\<lambda>v tmp m.
      let c = sdp_connection_init\<lparr>c_nettype := Some v\<rparr> in
      sdp_token tmp CHR '' '' (\<lambda>_. c) m (\<lambda>v tmp m. sdp_connection_addr tmp (CRLF @ r) (c\<lparr>c_addrtype := Some v\<rparr>) m)) = Some ((WF, c), [])"
proof -
  obtain n t a where e: "c_nettype c = Some n" "c_addrtype c = Some t" "c_addr c = Some a"
    using assms by (auto simp: connection_wf_def dest!: has_Some)
  have w: "word_of CHR '' '' n" "word_of CHR '' '' t" "word_of CHR ''/'' a" using assms e by (auto simp: connection_wf_def)
  have c: "\<lparr>c_nettype = Some n, c_addrtype = Some t, c_addr = Some a, c_addr_multicast_ttl = c_addr_multicast_ttl c,
      c_addr_multicast_int = c_addr_multicast_int c\<rparr> = c" by (simp add: e [symmetric])
  have "sdp_connection_addr (a @ behind ''/'' (c_addr_multicast_ttl c) @ behind ''/'' (c_addr_multicast_int c) @ CRLF @ r) (CRLF @ r)
      (sdp_connection_init\<lparr>c_nettype := Some n, c_addrtype := Some t\<rparr>) [] = Some ((WF, c), [])"
    using assms sdp_connection_addr_reads [OF w(3), of "c_addr_multicast_ttl c" "c_addr_multicast_int c"]
    by (simp add: connection_wf_def c)
  then show ?thesis by (simp add: connection_text_def e sdp_token_word w Let_def)
qed

lemma sdp_message_parse_c_takes:
  assumes "connection_wf c"
  shows "m_medias s = [] \<Longrightarrow> takes sdp_message_parse_c (CHR ''c'', connection_text c) s (s\<lparr>c_connection := Some c\<rparr>)"
    and "takes sdp_message_parse_c (CHR ''c'', connection_text c) (s\<lparr>m_medias := ms @ [med]\<rparr>)
      (s\<lparr>m_medias := ms @ [med\<lparr>m_c_connections := m_c_connections med @ [c]\<rparr>]\<rparr>)"
  unfolding takes_def sdp_message_parse_c_def
  by (intro allI sdp_line_takes letters connection_line_value assms,
      simp, rule trans, rule new_element_fill, rule connection_reads [OF assms], simp_all only: place_in_sdp place_in_media,
      simp_all add: list_add_def)+

lemma bandwidth_reads:
  assumes "bandwidth_wf b"
  shows "line_value (bandwidth_text b)"
    "sdp_token (bandwidth_text b @ CRLF @ r) CHR '':'' (\<lambda>_. sdp_bandwidth_init) [] (\<lambda>v tmp m.
      let b = sdp_bandwidth_init\<lparr>b_bwtype := Some v\<rparr> in
      sdp_last_token tmp (\<lambda>_. b) m (\<lambda>v tmp m. Some ((WF, b\<lparr>b_bandwidth := Some v\<rparr>), m))) = Some ((WF, b), [])"
proof -
  obtain t v where e: "b_bwtype b = Some t" "b_bandwidth b = Some v" using assms by (auto simp: bandwidth_wf_def dest!: has_Some)
  have b: "b = \<lparr>b_bwtype = Some t, b_bandwidth = Some v\<rparr>" using e by (cases b) simp
  have w: "word_of CHR '':'' t" "line_value v" using assms e by (auto simp: bandwidth_wf_def)
  show "line_value (bandwidth_text b)" unfolding bandwidth_text_def e option.sel using w by (intro line_value_append) (simp_all add: word_one_line)
  show "sdp_token (bandwidth_text b @ CRLF @ r) CHR '':'' (\<lambda>_. sdp_bandwidth_init) [] (\<lambda>v tmp m.
      let b = sdp_bandwidth_init\<lparr>b_bwtype := Some v\<rparr> in
      sdp_last_token tmp (\<lambda>_. b) m (\<lambda>v tmp m. Some ((WF, b\<lparr>b_bandwidth := Some v\<rparr>), m))) = Some ((WF, b), [])"
    using w by (simp add: b bandwidth_text_def sdp_token_word sdp_last_token_value Let_def sdp_bandwidth_init_def)
qed

lemma sdp_message_parse_b_takes:
  assumes "bandwidth_wf b"
  shows "m_medias s = [] \<Longrightarrow> takes sdp_message_parse_b (CHR ''b'', bandwidth_text b) s (s\<lparr>b_bandwidths := b_bandwidths s @ [b]\<rparr>)"
    and "takes sdp_message_parse_b (CHR ''b'', bandwidth_text b) (s\<lparr>m_medias := ms @ [med]\<rparr>)
      (s\<lparr>m_medias := ms @ [med\<lparr>m_b_bandwidths := m_b_bandwidths med @ [b]\<rparr>]\<rparr>)"
  unfolding takes_def sdp_message_parse_b_def
  by (intro allI sdp_line_takes letters bandwidth_reads(1) assms,
      simp, rule trans, rule new_element_fill, rule bandwidth_reads(2) [OF assms], simp_all only: place_in_sdp place_in_media,
      simp_all add: list_add_def)+

lemma sdp_message_parse_t_takes:
  assumes "time_wf t"
  shows "takes sdp_message_parse_t (CHR ''t'', time_text t) s (s\<lparr>t_descrs := t_descrs s @ [t\<lparr>r_repeats := []\<rparr>]\<rparr>)"
proof -
  obtain a b where e: "t_start_time t = Some a" "t_stop_time t = Some b" using assms by (auto simp: time_wf_def dest!: has_Some)
  have t: "t = \<lparr>t_start_time = Some a, t_stop_time = Some b, r_repeats = r_repeats t\<rparr>" using e by (cases t) simp
  have w: "word_of CHR '' '' a" "line_value b" using assms e by (auto simp: time_wf_def)
  have v: "line_value (time_text t)" unfolding time_text_def e option.sel using w by (intro line_value_append) (simp_all add: word_one_line)
  have fill: "sdp_token (time_text t @ CRLF @ r) CHR '' '' (\<lambda>_. sdp_time_descr_init) [] (\<lambda>v tmp m.
      let t = sdp_time_descr_init\<lparr>t_start_time := Some v\<rparr> in
      sdp_last_token tmp (\<lambda>_. t) m (\<lambda>v tmp m. Some ((WF, t\<lparr>t_stop_time := Some v\<rparr>), m))) = Some ((WF, t\<lparr>r_repeats := []\<rparr>), [])" for r
    using w by (subst (2) t) (simp add: e time_text_def sdp_token_word sdp_last_token_value Let_def sdp_time_descr_init_def)
  show ?thesis
    unfolding takes_def sdp_message_parse_t_def
    by (intro allI sdp_line_takes letters v, simp, rule trans, rule new_element_fill, rule fill) (simp add: list_add_def)
qed

lemma sdp_name_value_reads:
  assumes "word_of CHR '':'' n" "if_any line_value v"
  shows "line_value (n @ behind '':'' v)"
    "sdp_name_value e alone both (n @ behind '':'' v @ CRLF @ r) (CRLF @ r) []
      = Some ((WF, case v of None \<Rightarrow> alone n | Some v \<Rightarrow> both n v), [])"
proof -
  show "line_value (n @ behind '':'' v)" using assms by (intro line_value_append one_line_behind) (simp_all add: word_one_line)
  have n: "CHR '':'' \<notin> set n" "line_value n" using assms(1) by (simp_all add: word_of_def)
  show "sdp_name_value e alone both (n @ behind '':'' v @ CRLF @ r) (CRLF @ r) []
      = Some ((WF, case v of None \<Rightarrow> alone n | Some v \<Rightarrow> both n v), [])"
  proof (cases v)
    case None
    then show ?thesis using not_in_line [OF n(1), of "CRLF @ r"] n(2)
      by (simp add: sdp_name_value_def behind_def sdp_last_token_value)
  next
    case (Some x)
    then show ?thesis using in_this_line [OF n(1), of x "CRLF @ r"] assms
      by (simp add: sdp_name_value_def behind_def sdp_token_word sdp_last_token_value)
  qed
qed

lemma key_reads:
  assumes "key_wf k"
  shows "line_value (key_text k)"
    "sdp_name_value sdp_key_init (\<lambda>n. sdp_key_init\<lparr>k_keytype := Some n\<rparr>)
      (\<lambda>n v. sdp_key_init\<lparr>k_keytype := Some n, k_keydata := Some v\<rparr>) (key_text k @ CRLF @ r) (CRLF @ r) [] = Some ((WF, k), [])"
proof -
  obtain n where n: "k_keytype k = Some n" using assms by (auto simp: key_wf_def dest!: has_Some)
  have w: "word_of CHR '':'' n" "if_any line_value (k_keydata k)" using assms n by (simp_all add: key_wf_def)
  show "line_value (key_text k)" unfolding key_text_def n option.sel by (rule sdp_name_value_reads(1) [OF w])
  show "sdp_name_value sdp_key_init (\<lambda>n. sdp_key_init\<lparr>k_keytype := Some n\<rparr>)
      (\<lambda>n v. sdp_key_init\<lparr>k_keytype := Some n, k_keydata := Some v\<rparr>) (key_text k @ CRLF @ r) (CRLF @ r) [] = Some ((WF, k), [])"
    unfolding key_text_def n option.sel append.assoc sdp_name_value_reads(2) [OF w]
    using n by (cases k) (simp add: sdp_key_init_def split: option.split)
qed

lemma attribute_reads:
  assumes "attribute_wf a"
  shows "line_value (attribute_text a)"
    "sdp_name_value sdp_attribute_init (\<lambda>n. sdp_attribute_init\<lparr>a_att_field := Some n\<rparr>)
      (\<lambda>n v. sdp_attribute_init\<lparr>a_att_field := Some n, a_att_value := Some v\<rparr>) (attribute_text a @ CRLF @ r) (CRLF @ r) [] = Some ((WF, a), [])"
proof -
  obtain n where n: "a_att_field a = Some n" using assms by (auto simp: attribute_wf_def dest!: has_Some)
  have w: "word_of CHR '':'' n" "if_any line_value (a_att_value a)" using assms n by (simp_all add: attribute_wf_def)
  show "line_value (attribute_text a)" unfolding attribute_text_def n option.sel by (rule sdp_name_value_reads(1) [OF w])
  show "sdp_name_value sdp_attribute_init (\<lambda>n. sdp_attribute_init\<lparr>a_att_field := Some n\<rparr>)
      (\<lambda>n v. sdp_attribute_init\<lparr>a_att_field := Some n, a_att_value := Some v\<rparr>) (attribute_text a @ CRLF @ r) (CRLF @ r) [] = Some ((WF, a), [])"
    unfolding attribute_text_def n option.sel append.assoc sdp_name_value_reads(2) [OF w]
    using n by (cases a) (simp add: sdp_attribute_init_def split: option.split)
qed

lemma sdp_message_parse_k_takes:
  assumes "key_wf k"
  shows "m_medias s = [] \<Longrightarrow> takes sdp_message_parse_k (CHR ''k'', key_text k) s (s\<lparr>k_key := Some k\<rparr>)"
    and "takes sdp_message_parse_k (CHR ''k'', key_text k) (s\<lparr>m_medias := ms @ [med]\<rparr>) (s\<lparr>m_medias := ms @ [med\<lparr>m_k_key := Some k\<rparr>]\<rparr>)"
  unfolding takes_def sdp_message_parse_k_def
  by (intro allI sdp_line_takes letters key_reads(1) assms,
      simp, rule trans, rule new_element_fill, rule key_reads(2) [OF assms], simp_all only: place_in_sdp place_in_media,
      simp_all)+

lemma sdp_message_parse_a_takes:
  assumes "attribute_wf a"
  shows "m_medias s = [] \<Longrightarrow> takes sdp_message_parse_a (CHR ''a'', attribute_text a) s (s\<lparr>a_attributes := a_attributes s @ [a]\<rparr>)"
    and "takes sdp_message_parse_a (CHR ''a'', attribute_text a) (s\<lparr>m_medias := ms @ [med]\<rparr>)
      (s\<lparr>m_medias := ms @ [med\<lparr>m_a_attributes := m_a_attributes med @ [a]\<rparr>]\<rparr>)"
  unfolding takes_def sdp_message_parse_a_def
  by (intro allI sdp_line_takes letters attribute_reads(1) assms,
      simp, rule trans, rule new_element_fill, rule attribute_reads(2) [OF assms], simp_all only: place_in_sdp place_in_media,
      simp_all add: list_add_def)+

section \<open>The line of a medium\<close>

lemma set_next_token_stops:
  assumes "word_of sep w" "sep \<noteq> CR"
  shows "osip_set_next_token (w @ CR # r) sep [] = Some ((OSIP_UNDEFINED_ERROR, None, None), [])"
proof -
  have "dropWhile (\<lambda>c. c \<noteq> sep \<and> c \<noteq> CR \<and> c \<noteq> LF) (w @ CR # r) = CR # r"
    using assms by (subst dropWhile_append2) (auto simp: word_of_def line_value_def dest: one_line_chars)
  then show ?thesis using assms(2) by (simp add: osip_set_next_token_def cur_def)
qed

lemma payloads_text_simps [simp]: "payloads_text [] = []" "payloads_text (p # ps) = CHR '' '' # p @ payloads_text ps"
  by (simp_all add: payloads_text_def)

lemma sdp_payloads_none: "sdp_payloads (CRLF @ r) (LF # r) [] [] = Some ((WF, []), [])"
proof -
  have "\<not> in_line (strchr r CHR '' '') (CRLF @ r)" using not_in_line [of "CHR '' ''" "[]" r] by (auto simp: in_line_def split: option.splits)
  then show ?thesis by (subst sdp_payloads.simps) (simp add: advance_def)
qed

lemma sdp_payloads_reads:
  assumes "word_of CHR '' '' p" "list_all (word_of CHR '' '') ps"
  shows "sdp_payloads (CRLF @ r) (p @ payloads_text ps @ CRLF @ r) acc [] = Some ((WF, acc @ p # ps), [])"
  using assms
proof (induction ps arbitrary: p acc)
  case Nil
  obtain c w where p: "p = c # w" "CHR '' '' \<notin> set w" "line_value p"
    using Nil.prems(1) by (cases p) (auto simp: word_of_def line_value_def)
  have "\<not> in_line (strchr (w @ CRLF @ r) CHR '' '') (CRLF @ r)" by (rule not_in_line [OF p(2)])
  moreover have "advance 1 (p @ CRLF @ r) = Some (w @ CRLF @ r)" "length p > 0" by (simp_all add: p(1) advance_def)
  ultimately show ?case
    by (subst sdp_payloads.simps) (simp add: sdp_last_token_value p(3) list_add_def)
next
  case (Cons q qs)
  obtain c w where p: "p = c # w" "CHR '' '' \<notin> set w" using Cons.prems(1) by (cases p) (auto simp: word_of_def line_value_def)
  have "in_line (strchr (w @ CHR '' '' # (q @ payloads_text qs) @ CRLF @ r) CHR '' '') (CRLF @ r)" by (rule in_this_line [OF p(2)])
  moreover have "advance 1 (p @ payloads_text (q # qs) @ CRLF @ r) = Some (w @ CHR '' '' # (q @ payloads_text qs) @ CRLF @ r)"
    by (simp add: p advance_def)
  moreover have "osip_set_next_token (p @ payloads_text (q # qs) @ CRLF @ r) CHR '' '' [] = Some ((0, Some p, Some (q @ payloads_text qs @ CRLF @ r)), [])"
    using set_next_token_word [OF Cons.prems(1)] by simp
  ultimately have "sdp_payloads (CRLF @ r) (p @ payloads_text (q # qs) @ CRLF @ r) acc []
      = sdp_payloads (CRLF @ r) (q @ payloads_text qs @ CRLF @ r) (acc @ [p]) []"
    by (subst sdp_payloads.simps) (simp add: list_add_def)
  then show ?case using Cons.IH [of q "acc @ [p]"] Cons.prems(2) by simp
qed

lemma sdp_media_proto_reads:
  assumes "word_of CHR '' '' proto" "list_all (word_of CHR '' '') ps"
  shows "sdp_media_proto (CRLF @ r) (proto @ payloads_text ps @ CRLF @ r) med [] = Some ((WF, med\<lparr>m_proto := Some proto, m_payloads := ps\<rparr>), [])"
proof (cases ps)
  case Nil
  then show ?thesis
    using set_next_token_stops [OF assms(1)] word_one_line(1) [OF assms(1)] sdp_payloads_none [of r]
    by (simp add: sdp_media_proto_def Let_def sdp_last_token_value)
next
  case (Cons p qs)
  then show ?thesis
    using set_next_token_word [OF assms(1)] sdp_payloads_reads [of p qs r "[]"] assms(2)
    by (simp add: sdp_media_proto_def Let_def)
qed

definition bare_media :: "sdp_media \<Rightarrow> sdp_media" where
  "bare_media m = m\<lparr>m_i_info := None, m_c_connections := [], m_b_bandwidths := [], m_a_attributes := [], m_k_key := None\<rparr>"

lemma one_line_payloads: "list_all (word_of sep) ps \<Longrightarrow> one_line (payloads_text ps)"
  by (induction ps) (auto simp: word_one_line)

lemma media_reads:
  assumes "media_line_wf m"
  shows "line_value (media_text m)" "sdp_media_fill (media_text m @ CRLF @ r) (CRLF @ r) [] = Some ((WF, bare_media m), [])"
proof -
  obtain md port proto where e: "m_media m = Some md" "m_port m = Some port" "m_proto m = Some proto"
    using assms by (auto simp: media_line_wf_def dest!: has_Some)
  have w: "word_of CHR '' '' md" "word_of CHR '' '' port" "word_of CHR ''/'' port" "if_any (word_of CHR '' '') (m_number_of_port m)"
      "word_of CHR '' '' proto" "list_all (word_of CHR '' '') (m_payloads m)"
    using assms e by (auto simp: media_line_wf_def)
  have "one_line (behind ''/'' (m_number_of_port m))" using w(4) by (intro one_line_behind) (auto dest: if_any_word)
  then show "line_value (media_text m)"
    unfolding media_text_def e option.sel using w(1,2,5) one_line_payloads [OF w(6)]
    by (intro line_value_append) (simp_all add: word_one_line)
  let ?rest = "proto @ payloads_text (m_payloads m) @ CRLF @ r"
  have sp: "CHR '' '' \<notin> set port" "CHR ''/'' \<notin> set port" using w(2,3) by (simp_all add: word_of_def)
  show "sdp_media_fill (media_text m @ CRLF @ r) (CRLF @ r) [] = Some ((WF, bare_media m), [])"
  proof (cases "m_number_of_port m")
    case None
    have "strchr (port @ CHR '' '' # ?rest) CHR '' '' = Some (CHR '' '' # ?rest)" by (simp only: strchr_behind sp not_False_eq_True strchr_here)
    moreover have "\<not> in_line (strchr (port @ CHR '' '' # ?rest) CHR ''/'') (CHR '' '' # ?rest)" by (rule not_in_line [OF sp(2)])
    ultimately show ?thesis
      using None sdp_media_proto_reads [OF w(5,6)]
      by (simp add: media_text_def e behind_def sdp_media_fill_def sdp_token_word w(1,2) Let_def bare_media_def sdp_media_init_def)
  next
    case (Some n)
    then have n: "word_of CHR '' '' n" "CHR '' '' \<notin> set n" using w(4) by (simp_all add: word_of_def)
    have "strchr (port @ CHR ''/'' # n @ CHR '' '' # ?rest) CHR '' '' = Some (CHR '' '' # ?rest)"
      using strchr_behind [of "CHR '' ''" "port @ CHR ''/'' # n" "CHR '' '' # ?rest"] sp(1) n(2) by (simp add: strchr_here)
    moreover have "in_line (strchr (port @ CHR ''/'' # n @ CHR '' '' # ?rest) CHR ''/'') (CHR '' '' # ?rest)" by (rule in_this_line [OF sp(2)])
    ultimately show ?thesis
      using Some sdp_media_proto_reads [OF w(5,6)]
      by (simp add: media_text_def e behind_def sdp_media_fill_def sdp_token_word w(1,3) n(1) Let_def bare_media_def sdp_media_init_def)
  qed
qed

lemma sdp_message_parse_m_takes:
  assumes "media_line_wf m"
  shows "takes sdp_message_parse_m (CHR ''m'', media_text m) s (s\<lparr>m_medias := m_medias s @ [bare_media m]\<rparr>)"
  unfolding takes_def sdp_message_parse_m_def
  by (intro allI sdp_line_takes letters media_reads(1) assms, simp, rule trans, rule new_element_fill,
      rule media_reads(2) [OF assms]) (simp add: list_add_def)

end
