(* ===== verification/Sdp_Chain.thy ===== *)
theory Sdp_Chain
  imports Sdp_Rows
begin

text \<open>
  A printed session description is read back: the steps of \<^verbatim>\<open>sdp_message_parse\<close> take the printed
  lines one after the other, each step the lines of its own kind.
\<close>

section \<open>Steps\<close>

type_synonym step = "sdp_message \<Rightarrow> place \<Rightarrow> mem \<Rightarrow> sdp_step"

definition letters_of :: "sdp_row list \<Rightarrow> bool" where
  "letters_of ls \<longleftrightarrow> (\<forall>l \<in> set ls. letter (fst l))"

text \<open>
  A step takes the lines \<open>ls\<close> and goes on in front of the lines behind them, if the first of them is
  none of the kinds \<open>K\<close>; without a line behind them it ends the parser, if it \<open>ends\<close>.
\<close>

definition reads :: "bool \<Rightarrow> step \<Rightarrow> sdp_row list \<Rightarrow> char set \<Rightarrow> sdp_message \<Rightarrow> sdp_message \<Rightarrow> bool" where
  "reads ends f ls K s s' \<longleftrightarrow> (ls = [] \<longrightarrow> s' = s) \<and>
     (\<forall>ks. ls @ ks \<noteq> [] \<longrightarrow> (ks = [] \<longrightarrow> ends) \<longrightarrow> letters_of ks \<longrightarrow> (ks \<noteq> [] \<longrightarrow> fst (hd ks) \<notin> K) \<longrightarrow>
        f s (Some LF, rows_text (ls @ ks)) []
          = Some (if ks = [] then Inl (OSIP_SUCCESS, s') else Inr (s', (Some LF, rows_text ks)), []))"

lemma letters_of_simps [simp]: "letters_of []" "letters_of (l # ls) \<longleftrightarrow> letter (fst l) \<and> letters_of ls"
  "letters_of (ls @ ks) \<longleftrightarrow> letters_of ls \<and> letters_of ks"
  by (auto simp: letters_of_def)

lemma readsI:
  assumes "ls = [] \<Longrightarrow> s' = s"
    "ls \<noteq> [] \<Longrightarrow> ends \<Longrightarrow> f s (Some LF, rows_text ls) [] = Some (Inl (OSIP_SUCCESS, s'), [])"
    "\<And>l ks. letter (fst l) \<Longrightarrow> letters_of ks \<Longrightarrow> fst l \<notin> K \<Longrightarrow>
      f s (Some LF, rows_text (ls @ l # ks)) [] = Some (Inr (s', (Some LF, rows_text (l # ks))), [])"
  shows "reads ends f ls K s s'"
  unfolding reads_def
proof (intro conjI allI impI)
  fix ks
  assume ks: "ls @ ks \<noteq> []" "ks = [] \<longrightarrow> ends" "letters_of ks" "ks \<noteq> [] \<longrightarrow> fst (hd ks) \<notin> K"
  show "f s (Some LF, rows_text (ls @ ks)) [] = Some (if ks = [] then Inl (OSIP_SUCCESS, s') else Inr (s', (Some LF, rows_text ks)), [])"
  proof (cases ks)
    case Nil
    then show ?thesis using assms(2) ks by simp
  next
    case (Cons l ls)
    then show ?thesis using assms(3) [of l ls] ks by simp
  qed
qed (rule assms(1))

lemma reads_last: "reads ends f ls K s s' \<Longrightarrow> ls \<noteq> [] \<Longrightarrow> ends \<Longrightarrow> f s (Some LF, rows_text ls) [] = Some (Inl (OSIP_SUCCESS, s'), [])"
proof -
  assume a: "reads ends f ls K s s'" "ls \<noteq> []" "ends"
  show ?thesis using conjunct2 [OF a(1) [unfolded reads_def], THEN spec [of _ "[]"]] a(2,3) by simp
qed

lemma reads_behind:
  assumes "reads ends f ls K s s'" "ks \<noteq> []" "letters_of ks" "fst (hd ks) \<notin> K"
  shows "f s (Some LF, rows_text (ls @ ks)) [] = Some (Inr (s', (Some LF, rows_text ks)), [])"
  using assms unfolding reads_def by simp

lemma reads_nothing: "reads ends f [] K s s' \<Longrightarrow> s' = s"
  by (simp add: reads_def)

lemma reads_seq_nil: "reads ends (sdp_seq []) [] {} s s"
  by (rule readsI) simp_all

lemma reads_seq_cons:
  assumes f: "reads ends f ls K s s1" and fs: "reads e (sdp_seq fs) ms L s1 s2"
    and "ends \<or> ms \<noteq> []" "letters_of ms" "ms \<noteq> [] \<longrightarrow> fst (hd ms) \<notin> K"
  shows "reads e (sdp_seq (f # fs)) (ls @ ms) (K \<union> L) s s2"
proof (rule readsI)
  show "s2 = s" if "ls @ ms = []" using that reads_nothing [of ends f K s s1] reads_nothing [of e "sdp_seq fs" L s1 s2] f fs by simp
  show "sdp_seq (f # fs) s (Some LF, rows_text (ls @ ms)) [] = Some (Inl (0, s2), [])" if "ls @ ms \<noteq> []" e
  proof (cases "ms = []")
    case True
    then have "f s (Some LF, rows_text ls) [] = Some (Inl (0, s1), [])" using that(1) assms(3) by (intro reads_last [OF f]) simp_all
    moreover have "s2 = s1" using fs True by (simp add: reads_nothing)
    ultimately show ?thesis by (simp add: True)
  next
    case False
    then have "f s (Some LF, rows_text (ls @ ms)) [] = Some (Inr (s1, (Some LF, rows_text ms)), [])"
      using assms(4,5) by (intro reads_behind [OF f]) simp_all
    then show ?thesis using reads_last [OF fs False that(2)] by simp
  qed
  show "sdp_seq (f # fs) s (Some LF, rows_text ((ls @ ms) @ l # ks)) [] = Some (Inr (s2, (Some LF, rows_text (l # ks))), [])"
    if k: "letter (fst l)" "letters_of ks" "fst l \<notin> K \<union> L" for l ks
  proof -
    have "fst (hd (ms @ l # ks)) \<notin> K" using assms(5) k(3) by (cases ms) simp_all
    then have "f s (Some LF, rows_text (ls @ ms @ l # ks)) [] = Some (Inr (s1, (Some LF, rows_text (ms @ l # ks))), [])"
      using assms(4) k by (intro reads_behind [OF f]) simp_all
    moreover have "sdp_seq fs s1 (Some LF, rows_text (ms @ l # ks)) [] = Some (Inr (s2, (Some LF, rows_text (l # ks))), [])"
      using k by (intro reads_behind [OF fs]) simp_all
    ultimately show ?thesis unfolding sdp_seq.simps append.assoc option.case prod.case sum.case by simp
  qed
qed

lemma at_end_rows: "at_end (b, rows_text [])" "letter (fst l) \<Longrightarrow> \<not> at_end (b, rows_text (l # ls))"
  by (simp_all add: at_end_def cur_def row_text_def letter_def)

section \<open>One line, or the lines of one kind\<close>

lemma takesD: "takes parse l s s' \<Longrightarrow> parse s (b, rows_text (l # ls)) [] = Some ((WF, s', (Some LF, rows_text ls)), [])"
  by (simp add: takes_def)

lemma leavesD: "leaves parse k \<Longrightarrow> letter (fst l) \<Longrightarrow> fst l \<noteq> k
    \<Longrightarrow> parse s (b, rows_text (l # ls)) m = Some ((ERR_DISCARD, s, (b, rows_text (l # ls))), m)"
  unfolding leaves_def rows_text_simps by blast

lemma reads_one: "takes parse l s s' \<Longrightarrow> reads ends (sdp_one mandatory ends parse) [l] {} s s'"
  by (rule readsI) (simp_all add: sdp_one_def takesD [where ls = "[]", simplified] takesD at_end_rows(2)
    at_end_rows(1) [simplified] del: rows_text_simps(2) rows_text_simps(3))

lemma reads_none: "leaves parse k \<Longrightarrow> reads e (sdp_one False ends parse) [] {k} s s"
  by (rule readsI) (simp_all add: sdp_one_def leavesD at_end_rows(2) del: rows_text_simps(2))

lemma reads_opt:
  assumes "leaves parse k" "x = None \<Longrightarrow> s' = s" "\<And>v. x = Some v \<Longrightarrow> takes parse (k, f v) s s'"
  shows "reads ends (sdp_one False ends parse) (opt_rows k f x) {k} s s'"
proof (cases x)
  case None
  then show ?thesis using reads_none [OF assms(1)] assms(2) by (simp add: opt_rows_def)
next
  case (Some v)
  then show ?thesis using reads_one [OF assms(3) [OF Some], of ends False] by (simp add: opt_rows_def reads_def)
qed

text \<open>A value adds to the description with \<open>add\<close>; \<open>P\<close> is what the parser needs of the description.\<close>

lemma reads_many:
  assumes "leaves (parse_kind kind) k" "letter k"
    and "\<And>x s. x \<in> set xs \<Longrightarrow> P s \<Longrightarrow> takes (parse_kind kind) (k, f x) s (add x s) \<and> P (add x s)" "P s"
  shows "reads ends (sdp_many ends kind) (map (\<lambda>x. (k, f x)) xs) {k} s (fold add xs s)"
  using assms(3,4)
proof (induction xs arbitrary: s)
  case Nil
  show ?case
    by (rule readsI) (simp_all add: sdp_many.simps [of ends kind] leavesD [OF assms(1)] at_end_rows(2) del: rows_text_simps(2))
next
  case (Cons x xs)
  have step: "takes (parse_kind kind) (k, f x) s (add x s)" and P: "P (add x s)"
    using Cons.prems(1) [of x s] Cons.prems(2) by simp_all
  have IH: "reads ends (sdp_many ends kind) (map (\<lambda>x. (k, f x)) xs) {k} (add x s) (fold add xs (add x s))"
    using Cons.prems(1) P by (intro Cons.IH) simp_all
  let ?ms = "map (\<lambda>x. (k, f x)) xs"
  have go: "sdp_many ends kind s (Some LF, rows_text ((k, f x) # ?ms @ ks)) []
      = sdp_many ends kind (add x s) (Some LF, rows_text (?ms @ ks)) []" if "?ms @ ks \<noteq> []" "letters_of ks" for ks
  proof -
    obtain l ls where l: "?ms @ ks = l # ls" using \<open>?ms @ ks \<noteq> []\<close> by (cases "?ms @ ks") auto
    then have "letter (fst l)" using that(2) assms(2) by (cases xs) auto
    then have "\<not> at_end (Some LF, rows_text (?ms @ ks))" unfolding l by (rule at_end_rows(2))
    then show ?thesis unfolding sdp_many.simps [of ends kind s] takesD [OF step] by simp
  qed
  show ?case
  proof (rule readsI)
    show "sdp_many ends kind s (Some LF, rows_text (map (\<lambda>x. (k, f x)) (x # xs))) [] = Some (Inl (0, fold add (x # xs) s), [])" if ends
    proof (cases "?ms = []")
      case True
      then show ?thesis
        using that takesD [OF step, of "Some LF" "[]"] at_end_rows(1) [of "Some LF"]
        by (subst sdp_many.simps) (simp del: rows_text_simps)
    next
      case False
      then show ?thesis using go [of "[]"] reads_last [OF IH False that] by simp
    qed
    show "sdp_many ends kind s (Some LF, rows_text (map (\<lambda>x. (k, f x)) (x # xs) @ l # ks)) []
        = Some (Inr (fold add (x # xs) s, (Some LF, rows_text (l # ks))), [])"
      if "letter (fst l)" "letters_of ks" "fst l \<notin> {k}" for l ks
      using go [of "l # ks"] reads_behind [OF IH, of "l # ks"] that by (simp del: rows_text_simps)
  qed simp
qed

lemma fold_emails: "fold (\<lambda>x s. s\<lparr>e_emails := e_emails s @ [x]\<rparr>) xs s = s\<lparr>e_emails := e_emails s @ xs\<rparr>"
  by (induction xs arbitrary: s) simp_all

lemma fold_phones: "fold (\<lambda>x s. s\<lparr>p_phones := p_phones s @ [x]\<rparr>) xs s = s\<lparr>p_phones := p_phones s @ xs\<rparr>"
  by (induction xs arbitrary: s) simp_all

lemma fold_bandwidths: "fold (\<lambda>x s. s\<lparr>b_bandwidths := b_bandwidths s @ [x]\<rparr>) xs s = s\<lparr>b_bandwidths := b_bandwidths s @ xs\<rparr>"
  by (induction xs arbitrary: s) simp_all

lemma fold_attributes: "fold (\<lambda>x s. s\<lparr>a_attributes := a_attributes s @ [x]\<rparr>) xs s = s\<lparr>a_attributes := a_attributes s @ xs\<rparr>"
  by (induction xs arbitrary: s) simp_all

text \<open>A change of the last element.\<close>

definition at_last :: "('e \<Rightarrow> 'e) \<Rightarrow> 'e list \<Rightarrow> 'e list" where
  "at_last f xs = butlast xs @ [f (last xs)]"

lemma at_last_simps [simp]: "at_last f (xs @ [x]) = xs @ [f x]" "at_last f xs \<noteq> []"
  by (simp_all add: at_last_def)

lemma at_last_append: "at_last f xs = butlast xs @ [f (last xs)]"
  by (simp add: at_last_def)

section \<open>Chains of steps\<close>

text \<open>The first line, when there is one, is of a kind in \<open>A\<close>.\<close>

definition starts :: "sdp_row list \<Rightarrow> char set \<Rightarrow> bool" where
  "starts ls A \<longleftrightarrow> letters_of ls \<and> (ls \<noteq> [] \<longrightarrow> fst (hd ls) \<in> A)"

definition step_chain :: "step list \<Rightarrow> sdp_row list \<Rightarrow> char set \<Rightarrow> char set \<Rightarrow> sdp_message \<Rightarrow> sdp_message \<Rightarrow> bool" where
  "step_chain fs ls L A s s' \<longleftrightarrow> reads True (sdp_seq fs) ls L s s' \<and> starts ls A"

lemma chain_nil: "step_chain [] [] {} {} s s"
  by (simp add: step_chain_def starts_def reads_seq_nil)

lemma chain_cons:
  assumes "reads ends f ls K s s1" "step_chain fs ms L A s1 s2" "starts ls B" "ends \<or> ms \<noteq> []" "A \<inter> K = {}"
  shows "step_chain (f # fs) (ls @ ms) (K \<union> L) (if ls = [] then A else B) s s2"
proof -
  have "ms \<noteq> [] \<longrightarrow> fst (hd ms) \<notin> K" using assms(2,5) by (auto simp: step_chain_def starts_def)
  then have "reads True (sdp_seq (f # fs)) (ls @ ms) (K \<union> L) s s2"
    using assms by (intro reads_seq_cons [OF assms(1), where e = True]) (simp_all add: step_chain_def starts_def)
  then show ?thesis using assms(2,3) by (cases ls) (simp_all add: step_chain_def starts_def)
qed

lemma chain_mono: "step_chain fs ls L A s s' \<Longrightarrow> A \<subseteq> B \<Longrightarrow> step_chain fs ls L B s s'"
  by (auto simp: step_chain_def starts_def)

lemma chain_opt:
  assumes "step_chain fs ms L A s1 s2" "leaves parse k" "x = None \<Longrightarrow> s1 = s" "\<And>v. x = Some v \<Longrightarrow> takes parse (k, f v) s s1"
    "ends \<or> ms \<noteq> []" "k \<notin> A" "letter k"
  shows "step_chain (sdp_one False ends parse # fs) (opt_rows k f x @ ms) ({k} \<union> L) ({k} \<union> A) s s2"
proof -
  have "starts (opt_rows k f x) {k}" using assms(7) by (simp add: starts_def opt_rows_def split: option.split)
  then have "step_chain (sdp_one False ends parse # fs) (opt_rows k f x @ ms) ({k} \<union> L) (if opt_rows k f x = [] then A else {k}) s s2"
    using assms(5,6) by (intro chain_cons [OF reads_opt [OF assms(2-4)] assms(1)]) simp_all
  then show ?thesis by (rule chain_mono) auto
qed

lemma chain_many:
  assumes "step_chain fs ms L A (fold add xs s) s2" "leaves (parse_kind kind) k"
    "\<And>x s. x \<in> set xs \<Longrightarrow> P s \<Longrightarrow> takes (parse_kind kind) (k, f x) s (add x s) \<and> P (add x s)" "P s"
    "ends \<or> ms \<noteq> []" "k \<notin> A" "letter k"
  shows "step_chain (sdp_many ends kind # fs) (map (\<lambda>x. (k, f x)) xs @ ms) ({k} \<union> L) ({k} \<union> A) s s2"
proof -
  have "starts (map (\<lambda>x. (k, f x)) xs) {k}" using assms(7) by (cases xs) (auto simp: starts_def letters_of_def)
  moreover have "reads ends (sdp_many ends kind) (map (\<lambda>x. (k, f x)) xs) {k} s (fold add xs s)"
    by (rule reads_many [where P = P]) (use assms in auto)
  ultimately have "step_chain (sdp_many ends kind # fs) (map (\<lambda>x. (k, f x)) xs @ ms) ({k} \<union> L)
      (if map (\<lambda>x. (k, f x)) xs = [] then A else {k}) s s2"
    using assms(5,6) by (intro chain_cons [OF _ assms(1)]) simp_all
  then show ?thesis by (rule chain_mono) auto
qed

lemma chain_one:
  assumes "step_chain fs ms L A s1 s2" "takes parse l s s1" "ends \<or> ms \<noteq> []" "letter (fst l)"
  shows "step_chain (sdp_one mandatory ends parse # fs) (l # ms) L {fst l} s s2"
  using chain_cons [OF reads_one [OF assms(2), of ends mandatory] assms(1), of "{fst l}"] assms(3,4)
  by (simp add: starts_def)

section \<open>Times\<close>

lemma repeat_takes:
  "line_value r \<and> t_descrs s \<noteq> [] \<Longrightarrow> takes (parse_kind Repeat) (CHR ''r'', id r) s
    (s\<lparr>t_descrs := at_last (\<lambda>t. t\<lparr>r_repeats := r_repeats t @ [r]\<rparr>) (t_descrs s)\<rparr>)"
  using sdp_message_parse_r_takes [of r s] by (simp add: at_last_def)

lemma fold_repeats:
  "t_descrs s \<noteq> [] \<Longrightarrow> fold (\<lambda>r s. s\<lparr>t_descrs := at_last (\<lambda>t. t\<lparr>r_repeats := r_repeats t @ [r]\<rparr>) (t_descrs s)\<rparr>) rs s
    = s\<lparr>t_descrs := at_last (\<lambda>t. t\<lparr>r_repeats := r_repeats t @ rs\<rparr>) (t_descrs s)\<rparr>"
proof (induction rs arbitrary: s)
  case Nil
  then show ?case by (simp add: at_last_def)
next
  case (Cons r rs)
  then show ?case by (simp add: at_last_def)
qed

lemma reads_repeats:
  assumes "list_all line_value rs" "t_descrs s \<noteq> []"
  shows "reads ends (sdp_many ends Repeat) (repeat_rows rs) {CHR ''r''} s
    (s\<lparr>t_descrs := at_last (\<lambda>t. t\<lparr>r_repeats := r_repeats t @ rs\<rparr>) (t_descrs s)\<rparr>)"
proof -
  have "reads ends (sdp_many ends Repeat) (map (\<lambda>r. (CHR ''r'', id r)) rs) {CHR ''r''} s
      (fold (\<lambda>r s. s\<lparr>t_descrs := at_last (\<lambda>t. t\<lparr>r_repeats := r_repeats t @ [r]\<rparr>) (t_descrs s)\<rparr>) rs s)"
    by (rule reads_many [where P = "\<lambda>s. t_descrs s \<noteq> []"])
      (use assms repeat_takes in \<open>auto simp: list_all_iff parsers_leave simp del: parse_kind.simps(1-4,6) id_apply\<close>)
  then show ?thesis by (simp add: fold_repeats [OF assms(2)] repeat_rows_def)
qed

end
