(* ===== verification/Sdp_Roundtrip.thy ===== *)
theory Sdp_Roundtrip
  imports Sdp_Chain
begin

text \<open>
  The times and the media of a printed session description are read back, then the whole
  description, and a copy of a description is equal to it.
\<close>

section \<open>Times\<close>

definition times_rows :: "sdp_time_descr list \<Rightarrow> sdp_row list" where
  "times_rows ts = concat (map time_rows ts)"

lemma times_rows_simps [simp]: "times_rows [] = []"
  "times_rows (t # ts) = (CHR ''t'', time_text t) # repeat_rows (r_repeats t) @ times_rows ts"
  by (simp_all add: times_rows_def time_rows_def)

lemma letters_of_repeats [simp]: "letters_of (repeat_rows rs)"
  by (simp add: repeat_rows_def letters_of_def)

lemma letters_of_times [simp]: "letters_of (times_rows ts)"
  by (induction ts) simp_all

lemma same_repeats [simp]: "t\<lparr>r_repeats := r_repeats t\<rparr> = t"
  by (cases t) simp

lemma same_times [simp]: "s\<lparr>t_descrs := t_descrs s\<rparr> = s"
  by (cases s) simp

lemma at_last_same: "xs \<noteq> [] \<Longrightarrow> at_last (\<lambda>x. x) xs = xs"
  by (simp add: at_last_def)

lemma reads_times:
  assumes "list_all time_wf ts" "list_all line_value rs" "t_descrs s \<noteq> []"
  shows "reads True sdp_times (repeat_rows rs @ times_rows ts) {CHR ''r'', CHR ''t''} s
    (s\<lparr>t_descrs := at_last (\<lambda>t. t\<lparr>r_repeats := r_repeats t @ rs\<rparr>) (t_descrs s) @ ts\<rparr>)"
  using assms
proof (induction ts arbitrary: rs s)
  case Nil
  let ?s1 = "s\<lparr>t_descrs := at_last (\<lambda>t. t\<lparr>r_repeats := r_repeats t @ rs\<rparr>) (t_descrs s)\<rparr>"
  have reps: "reads True (sdp_many True Repeat) (repeat_rows rs) {CHR ''r''} s ?s1"
    by (rule reads_repeats [OF Nil(2,3)])
  have "reads True sdp_times (repeat_rows rs) {CHR ''r'', CHR ''t''} s ?s1"
  proof (rule readsI)
    show "?s1 = s" if "repeat_rows rs = []" using reps that by (simp add: reads_nothing)
    show "sdp_times s (Some LF, rows_text (repeat_rows rs)) [] = Some (Inl (0, ?s1), [])" if "repeat_rows rs \<noteq> []"
      using reads_last [OF reps that] by (subst sdp_times.simps) simp
    show "sdp_times s (Some LF, rows_text (repeat_rows rs @ l # ks)) [] = Some (Inr (?s1, (Some LF, rows_text (l # ks))), [])"
      if l: "letter (fst l)" "letters_of ks" "fst l \<notin> {CHR ''r'', CHR ''t''}" for l ks
    proof -
      have many: "sdp_many True Repeat s (Some LF, rows_text (repeat_rows rs @ l # ks)) [] = Some (Inr (?s1, (Some LF, rows_text (l # ks))), [])"
        using l by (intro reads_behind [OF reps]) simp_all
      have stay: "sdp_message_parse_t ?s1 (Some LF, rows_text (l # ks)) [] = Some ((0, ?s1, (Some LF, rows_text (l # ks))), [])"
        using l by (intro leavesD [OF parsers_leave(9)]) simp_all
      have "\<not> at_end (Some LF, rows_text (l # ks))" by (rule at_end_rows(2) [OF l(1)])
      then show ?thesis
        unfolding sdp_times.simps [of s] many option.case prod.case sum.case stay by simp
    qed
  qed
  then show ?case by simp
next
  case (Cons t ts)
  let ?s1 = "s\<lparr>t_descrs := at_last (\<lambda>t. t\<lparr>r_repeats := r_repeats t @ rs\<rparr>) (t_descrs s)\<rparr>"
  let ?s2 = "?s1\<lparr>t_descrs := t_descrs ?s1 @ [t\<lparr>r_repeats := []\<rparr>]\<rparr>"
  let ?R = "repeat_rows (r_repeats t) @ times_rows ts"
  let ?goal = "s\<lparr>t_descrs := at_last (\<lambda>t. t\<lparr>r_repeats := r_repeats t @ rs\<rparr>) (t_descrs s) @ t # ts\<rparr>"
  have "time_wf t \<and> list_all time_wf ts" using Cons.prems(1) by simp
  then have t: "time_wf t" "list_all line_value (r_repeats t)" "list_all time_wf ts" by (auto simp: time_wf_def)
  have "reads True sdp_times ?R {CHR ''r'', CHR ''t''} ?s2
      (?s2\<lparr>t_descrs := at_last (\<lambda>x. x\<lparr>r_repeats := r_repeats x @ r_repeats t\<rparr>) (t_descrs ?s2) @ ts\<rparr>)"
    by (rule Cons.IH [OF t(3,2)]) simp
  then have IH: "reads True sdp_times ?R {CHR ''r'', CHR ''t''} ?s2 ?goal" by simp
  have many: "sdp_many True Repeat s (Some LF, rows_text (repeat_rows rs @ (CHR ''t'', time_text t) # qs)) []
      = Some (Inr (?s1, (Some LF, rows_text ((CHR ''t'', time_text t) # qs))), [])" if "letters_of qs" for qs
    using that by (intro reads_behind [OF reads_repeats [OF Cons.prems(2,3)]]) simp_all
  have parse: "sdp_message_parse_t ?s1 (Some LF, rows_text ((CHR ''t'', time_text t) # qs)) [] = Some ((1, ?s2, (Some LF, rows_text qs)), [])" for qs
    by (rule takesD [OF sdp_message_parse_t_takes [OF t(1)]])
  have go: "sdp_times s (Some LF, rows_text (repeat_rows rs @ (CHR ''t'', time_text t) # qs)) []
      = (if qs = [] then Some (Inl (0, ?s2), []) else sdp_times ?s2 (Some LF, rows_text qs) [])" if "letters_of qs" for qs
  proof (cases qs)
    case Nil
    have "at_end (Some LF, rows_text [])" by (rule at_end_rows(1))
    then show ?thesis unfolding sdp_times.simps [of s] many [OF that] option.case prod.case sum.case parse by (simp add: Nil del: rows_text_simps)
  next
    case (Cons l ls)
    then have "\<not> at_end (Some LF, rows_text qs)" using that at_end_rows(2) [of l "Some LF" ls] by simp
    then show ?thesis unfolding sdp_times.simps [of s] many [OF that] option.case prod.case sum.case parse by (simp add: Cons del: rows_text_simps)
  qed
  show ?case
  proof (rule readsI)
    show "sdp_times s (Some LF, rows_text (repeat_rows rs @ times_rows (t # ts))) [] = Some (Inl (0, ?goal), [])"
    proof (cases "?R = []")
      case True
      then have "?goal = ?s2" using reads_nothing [of True sdp_times "{CHR ''r'', CHR ''t''}" ?s2 ?goal] IH by metis
      moreover have "sdp_times s (Some LF, rows_text (repeat_rows rs @ times_rows (t # ts))) [] = Some (Inl (0, ?s2), [])"
        unfolding times_rows_simps True using go [of "[]"] by (simp only: letters_of_simps simp_thms if_True)
      ultimately show ?thesis by (simp only:)
    next
      case False
      have "letters_of ?R" by simp
      then show ?thesis unfolding times_rows_simps go [OF \<open>letters_of ?R\<close>] using False reads_last [OF IH False] by (simp only: if_False simp_thms)
    qed
    show "sdp_times s (Some LF, rows_text ((repeat_rows rs @ times_rows (t # ts)) @ l # ks)) [] = Some (Inr (?goal, (Some LF, rows_text (l # ks))), [])"
      if l: "letter (fst l)" "letters_of ks" "fst l \<notin> {CHR ''r'', CHR ''t''}" for l ks
    proof -
      have letters: "letters_of (?R @ l # ks)" using l by simp
      have "sdp_times ?s2 (Some LF, rows_text (?R @ l # ks)) [] = Some (Inr (?goal, (Some LF, rows_text (l # ks))), [])"
        using l by (intro reads_behind [OF IH]) simp_all
      then show ?thesis using go [OF letters] by simp
    qed
  qed simp
qed

lemma chain_times:
  assumes "step_chain fs ms L A (s\<lparr>t_descrs := t_descrs s @ ts\<rparr>) s2" "A \<inter> {CHR ''r'', CHR ''t''} = {}"
    "list_all time_wf ts" "t_descrs s \<noteq> []"
  shows "\<exists>L. step_chain (sdp_one False True sdp_message_parse_t # sdp_times # fs) (times_rows ts @ ms) L ({CHR ''t''} \<union> A) s s2"
proof (cases ts)
  case Nil
  have "reads True sdp_times (repeat_rows [] @ times_rows []) {CHR ''r'', CHR ''t''} s
      (s\<lparr>t_descrs := at_last (\<lambda>t. t\<lparr>r_repeats := r_repeats t @ []\<rparr>) (t_descrs s) @ []\<rparr>)"
    by (rule reads_times) (simp_all add: assms(4))
  then have "reads True sdp_times [] {CHR ''r'', CHR ''t''} s (s\<lparr>t_descrs := t_descrs s @ ts\<rparr>)"
    using assms(4) Nil by (simp add: repeat_rows_def at_last_same)
  from chain_cons [OF this assms(1), of "{}"] have "step_chain (sdp_times # fs) ms ({CHR ''r'', CHR ''t''} \<union> L) A s s2"
    using assms(2) by (simp add: starts_def)
  from chain_opt [OF this parsers_leave(9), of None _ "\<lambda>_. []" True]
  have "step_chain (sdp_one False True sdp_message_parse_t # sdp_times # fs) (times_rows ts @ ms)
      ({CHR ''t''} \<union> ({CHR ''r'', CHR ''t''} \<union> L)) ({CHR ''t''} \<union> A) s s2"
    using assms(2) Nil by (simp add: opt_rows_def)
  then show ?thesis by blast
next
  case (Cons t ts')
  then have t: "time_wf t" "list_all time_wf ts'" using assms(3) by simp_all
  then have rs: "list_all line_value (r_repeats t)" by (simp add: time_wf_def)
  let ?s1 = "s\<lparr>t_descrs := t_descrs s @ [t\<lparr>r_repeats := []\<rparr>]\<rparr>"
  have "reads True sdp_times (repeat_rows (r_repeats t) @ times_rows ts') {CHR ''r'', CHR ''t''} ?s1
      (?s1\<lparr>t_descrs := at_last (\<lambda>x. x\<lparr>r_repeats := r_repeats x @ r_repeats t\<rparr>) (t_descrs ?s1) @ ts'\<rparr>)"
    by (rule reads_times [OF t(2) rs]) simp
  then have "reads True sdp_times (repeat_rows (r_repeats t) @ times_rows ts') {CHR ''r'', CHR ''t''} ?s1 (s\<lparr>t_descrs := t_descrs s @ ts\<rparr>)"
    by (simp add: Cons)
  moreover have "starts (repeat_rows (r_repeats t) @ times_rows ts') UNIV" by (simp add: starts_def)
  ultimately obtain B where "step_chain (sdp_times # fs) ((repeat_rows (r_repeats t) @ times_rows ts') @ ms) ({CHR ''r'', CHR ''t''} \<union> L) B ?s1 s2"
    using chain_cons [OF _ assms(1)] assms(2) by blast
  from chain_one [OF this sdp_message_parse_t_takes [OF t(1)], of True False]
  have "step_chain (sdp_one False True sdp_message_parse_t # sdp_times # fs) (times_rows ts @ ms)
      ({CHR ''r'', CHR ''t''} \<union> L) {CHR ''t''} s s2"
    by (simp add: Cons)
  then show ?thesis by (auto dest: chain_mono)
qed

section \<open>Media\<close>

lemma takes_in_media:
  assumes "\<And>ms med. takes parse l (s\<lparr>m_medias := ms @ [med]\<rparr>) (s\<lparr>m_medias := ms @ [g med]\<rparr>)" "m_medias s \<noteq> []"
  shows "takes parse l s (s\<lparr>m_medias := at_last g (m_medias s)\<rparr>)"
proof -
  have "s\<lparr>m_medias := butlast (m_medias s) @ [last (m_medias s)]\<rparr> = s" using assms(2) by (cases s) simp
  then show ?thesis using assms(1) [where ms = "butlast (m_medias s)" and med = "last (m_medias s)"] by (simp add: at_last_def)
qed

lemma fold_in_media:
  "m_medias s \<noteq> [] \<Longrightarrow> fold (\<lambda>x s. s\<lparr>m_medias := at_last (g x) (m_medias s)\<rparr>) xs s = s\<lparr>m_medias := at_last (fold g xs) (m_medias s)\<rparr>"
proof (induction xs arbitrary: s)
  case Nil
  then show ?case by (cases s) (simp add: at_last_def)
next
  case (Cons x xs)
  then show ?case by (simp add: at_last_def comp_def)
qed

lemma fold_media_connections: "fold (\<lambda>c x. x\<lparr>m_c_connections := m_c_connections x @ [c]\<rparr>) cs x = x\<lparr>m_c_connections := m_c_connections x @ cs\<rparr>"
  by (induction cs arbitrary: x) simp_all

lemma fold_media_bandwidths: "fold (\<lambda>c x. x\<lparr>m_b_bandwidths := m_b_bandwidths x @ [c]\<rparr>) cs x = x\<lparr>m_b_bandwidths := m_b_bandwidths x @ cs\<rparr>"
  by (induction cs arbitrary: x) simp_all

lemma fold_media_attributes: "fold (\<lambda>c x. x\<lparr>m_a_attributes := m_a_attributes x @ [c]\<rparr>) cs x = x\<lparr>m_a_attributes := m_a_attributes x @ cs\<rparr>"
  by (induction cs arbitrary: x) simp_all

lemma chain_media:
  assumes "step_chain fs ms L A (s\<lparr>m_medias := us @ [fold g xs u]\<rparr>) s2" "leaves (parse_kind kind) k"
    "\<And>x s us u. x \<in> set xs \<Longrightarrow> takes (parse_kind kind) (k, f x) (s\<lparr>m_medias := us @ [u]\<rparr>) (s\<lparr>m_medias := us @ [g x u]\<rparr>)"
    "k \<notin> A" "letter k"
  shows "step_chain (sdp_many True kind # fs) (map (\<lambda>x. (k, f x)) xs @ ms) ({k} \<union> L) ({k} \<union> A) (s\<lparr>m_medias := us @ [u]\<rparr>) s2"
  by (rule chain_many [where P = "\<lambda>s. m_medias s \<noteq> []" and add = "\<lambda>x s. s\<lparr>m_medias := at_last (g x) (m_medias s)\<rparr>"])
    (use assms in \<open>auto simp: fold_in_media intro!: takes_in_media\<close>)

theorem chain_media_steps:
  assumes "media_wf m"
  shows "step_chain media_steps (media_body_rows m) {CHR ''i'', CHR ''c'', CHR ''b'', CHR ''k'', CHR ''a''}
    {CHR ''i'', CHR ''c'', CHR ''b'', CHR ''k'', CHR ''a''} (s\<lparr>m_medias := us @ [bare_media m]\<rparr>) (s\<lparr>m_medias := us @ [m]\<rparr>)"
proof -
  have wf: "if_any line_value (m_i_info m)" "list_all connection_wf (m_c_connections m)" "list_all bandwidth_wf (m_b_bandwidths m)"
      "if_any key_wf (m_k_key m)" "list_all attribute_wf (m_a_attributes m)"
    using assms by (simp_all add: media_wf_def)
  define m1 where "m1 = (bare_media m)\<lparr>m_i_info := m_i_info m\<rparr>"
  define m2 where "m2 = m1\<lparr>m_c_connections := m_c_connections m\<rparr>"
  define m3 where "m3 = m2\<lparr>m_b_bandwidths := m_b_bandwidths m\<rparr>"
  define m4 where "m4 = m3\<lparr>m_k_key := m_k_key m\<rparr>"
  note ms = m4_def m3_def m2_def m1_def bare_media_def
  let ?M = "\<lambda>x. s\<lparr>m_medias := us @ [x]\<rparr>"
  have "fold (\<lambda>c x. x\<lparr>m_a_attributes := m_a_attributes x @ [c]\<rparr>) (m_a_attributes m) m4 = m"
    unfolding fold_media_attributes ms by (cases m) simp
  then have a: "step_chain [sdp_many True Attribute] (map (\<lambda>a. (CHR ''a'', attribute_text a)) (m_a_attributes m) @ []) ({CHR ''a''} \<union> {})
      ({CHR ''a''} \<union> {}) (?M m4) (?M m)"
    by (intro chain_media [where g = "\<lambda>c x. x\<lparr>m_a_attributes := m_a_attributes x @ [c]\<rparr>"])
      (use wf(5) in \<open>auto simp: parsers_leave list_all_iff chain_nil intro: sdp_message_parse_a_takes\<close>)
  have k1: "?M m4 = ?M m3" if "m_k_key m = None" using that by (simp add: ms)
  have k2: "takes sdp_message_parse_k (CHR ''k'', key_text x) (?M m3) (?M m4)" if "m_k_key m = Some x" for x
    using that wf(4) sdp_message_parse_k_takes(2) [where s = s and ms = us and med = m3] by (simp add: m4_def)
  have k: "step_chain [sdp_one False True sdp_message_parse_k, sdp_many True Attribute]
      (opt_rows CHR ''k'' key_text (m_k_key m) @ map (\<lambda>a. (CHR ''a'', attribute_text a)) (m_a_attributes m) @ [])
      ({CHR ''k''} \<union> ({CHR ''a''} \<union> {})) ({CHR ''k''} \<union> ({CHR ''a''} \<union> {})) (?M m3) (?M m)"
    by (rule chain_opt [OF a parsers_leave(12) k1 k2]) simp_all
  have fb: "fold (\<lambda>c x. x\<lparr>m_b_bandwidths := m_b_bandwidths x @ [c]\<rparr>) (m_b_bandwidths m) m2 = m3"
    unfolding fold_media_bandwidths ms by simp
  have "step_chain [sdp_one False True sdp_message_parse_k, sdp_many True Attribute]
      (opt_rows CHR ''k'' key_text (m_k_key m) @ map (\<lambda>a. (CHR ''a'', attribute_text a)) (m_a_attributes m) @ [])
      ({CHR ''k''} \<union> ({CHR ''a''} \<union> {})) ({CHR ''k''} \<union> ({CHR ''a''} \<union> {}))
      (?M (fold (\<lambda>c x. x\<lparr>m_b_bandwidths := m_b_bandwidths x @ [c]\<rparr>) (m_b_bandwidths m) m2)) (?M m)"
    unfolding fb by (rule k)
  then have b: "step_chain (sdp_many True Bandwidth # [sdp_one False True sdp_message_parse_k, sdp_many True Attribute])
      (map (\<lambda>b. (CHR ''b'', bandwidth_text b)) (m_b_bandwidths m) @ opt_rows CHR ''k'' key_text (m_k_key m)
        @ map (\<lambda>a. (CHR ''a'', attribute_text a)) (m_a_attributes m) @ [])
      ({CHR ''b''} \<union> ({CHR ''k''} \<union> ({CHR ''a''} \<union> {}))) ({CHR ''b''} \<union> ({CHR ''k''} \<union> ({CHR ''a''} \<union> {}))) (?M m2) (?M m)"
    by (rule chain_media) (use wf(3) in \<open>auto simp: parsers_leave list_all_iff intro: sdp_message_parse_b_takes\<close>)
  have fc: "fold (\<lambda>c x. x\<lparr>m_c_connections := m_c_connections x @ [c]\<rparr>) (m_c_connections m) m1 = m2"
    unfolding fold_media_connections ms by simp
  have "step_chain (sdp_many True Bandwidth # [sdp_one False True sdp_message_parse_k, sdp_many True Attribute])
      (map (\<lambda>b. (CHR ''b'', bandwidth_text b)) (m_b_bandwidths m) @ opt_rows CHR ''k'' key_text (m_k_key m)
        @ map (\<lambda>a. (CHR ''a'', attribute_text a)) (m_a_attributes m) @ [])
      ({CHR ''b''} \<union> ({CHR ''k''} \<union> ({CHR ''a''} \<union> {}))) ({CHR ''b''} \<union> ({CHR ''k''} \<union> ({CHR ''a''} \<union> {})))
      (?M (fold (\<lambda>c x. x\<lparr>m_c_connections := m_c_connections x @ [c]\<rparr>) (m_c_connections m) m1)) (?M m)"
    unfolding fc by (rule b)
  then have c: "step_chain (sdp_many True Connection # sdp_many True Bandwidth # [sdp_one False True sdp_message_parse_k, sdp_many True Attribute])
      (map (\<lambda>c. (CHR ''c'', connection_text c)) (m_c_connections m) @ map (\<lambda>b. (CHR ''b'', bandwidth_text b)) (m_b_bandwidths m)
        @ opt_rows CHR ''k'' key_text (m_k_key m) @ map (\<lambda>a. (CHR ''a'', attribute_text a)) (m_a_attributes m) @ [])
      ({CHR ''c''} \<union> ({CHR ''b''} \<union> ({CHR ''k''} \<union> ({CHR ''a''} \<union> {}))))
      ({CHR ''c''} \<union> ({CHR ''b''} \<union> ({CHR ''k''} \<union> ({CHR ''a''} \<union> {})))) (?M m1) (?M m)"
    by (rule chain_media) (use wf(2) in \<open>auto simp: parsers_leave list_all_iff intro: sdp_message_parse_c_takes\<close>)
  have i1: "?M m1 = ?M (bare_media m)" if "m_i_info m = None" using that by (simp add: ms)
  have i2: "takes sdp_message_parse_i (CHR ''i'', id x) (?M (bare_media m)) (?M m1)" if "m_i_info m = Some x" for x
    using that wf(1) media_parse_i_takes [where s = s and ms = us and med = "bare_media m"] by (simp add: m1_def)
  have "step_chain media_steps
      (opt_rows CHR ''i'' id (m_i_info m) @ map (\<lambda>c. (CHR ''c'', connection_text c)) (m_c_connections m)
        @ map (\<lambda>b. (CHR ''b'', bandwidth_text b)) (m_b_bandwidths m)
        @ opt_rows CHR ''k'' key_text (m_k_key m) @ map (\<lambda>a. (CHR ''a'', attribute_text a)) (m_a_attributes m) @ [])
      ({CHR ''i''} \<union> ({CHR ''c''} \<union> ({CHR ''b''} \<union> ({CHR ''k''} \<union> ({CHR ''a''} \<union> {})))))
      ({CHR ''i''} \<union> ({CHR ''c''} \<union> ({CHR ''b''} \<union> ({CHR ''k''} \<union> ({CHR ''a''} \<union> {}))))) (?M (bare_media m)) (?M m)"
    unfolding media_steps_def by (rule chain_opt [OF c parsers_leave(3) i1 i2]) simp_all
  then show ?thesis by (simp add: media_body_rows_def insert_commute)
qed

definition medias_rows :: "sdp_media list \<Rightarrow> sdp_row list" where
  "medias_rows ms = concat (map media_rows ms)"

lemma medias_rows_simps [simp]: "medias_rows [] = []"
  "medias_rows (m # ms) = (CHR ''m'', media_text m) # media_body_rows m @ medias_rows ms"
  by (simp_all add: medias_rows_def media_rows_def)

lemma letters_of_medias: "list_all media_wf ms \<Longrightarrow> letters_of (medias_rows ms)"
proof (induction ms)
  case (Cons m ms)
  then show ?case using chain_media_steps [where m = m] by (simp add: step_chain_def starts_def)
qed simp

text \<open>The media are the end of the description.\<close>

lemma sdp_media_loop_reads:
  "list_all media_wf ms \<Longrightarrow> ms \<noteq> [] \<Longrightarrow>
    sdp_media_loop s (Some LF, rows_text (medias_rows ms)) [] = Some (Inl (OSIP_SUCCESS, s\<lparr>m_medias := m_medias s @ ms\<rparr>), [])"
proof (induction ms arbitrary: s)
  case (Cons m ms)
  let ?s1 = "s\<lparr>m_medias := m_medias s @ [bare_media m]\<rparr>" and ?s2 = "s\<lparr>m_medias := m_medias s @ [m]\<rparr>"
  let ?R = "media_body_rows m @ medias_rows ms"
  have "media_wf m \<and> list_all media_wf ms" using Cons.prems(1) by simp
  then have m: "media_wf m" "media_line_wf m" "list_all media_wf ms" by (auto simp: media_wf_def)
  have line: "sdp_message_parse_m s (Some LF, rows_text (medias_rows (m # ms))) [] = Some ((1, ?s1, (Some LF, rows_text ?R)), [])"
    unfolding medias_rows_simps by (rule takesD [OF sdp_message_parse_m_takes [OF m(2)]])
  have steps: "reads True (sdp_seq media_steps) (media_body_rows m) {CHR ''i'', CHR ''c'', CHR ''b'', CHR ''k'', CHR ''a''} ?s1 ?s2"
    using chain_media_steps [OF m(1)] by (simp add: step_chain_def)
  have letters: "letters_of (media_body_rows m)" "letters_of (medias_rows ms)"
    using chain_media_steps [OF m(1)] letters_of_medias [OF m(3)] by (simp_all add: step_chain_def starts_def)
  show ?case
  proof (cases ?R)
    case Nil
    then have "media_body_rows m = []" "ms = []" by (cases ms; simp)+
    then have "?s2 = ?s1" using steps by (simp add: reads_nothing)
    moreover have "at_end (Some LF, rows_text ?R)" unfolding Nil by (rule at_end_rows(1))
    ultimately show ?thesis using \<open>ms = []\<close> unfolding sdp_media_loop.simps [of s] line option.case prod.case by simp
  next
    case (Cons l ls)
    then have "letter (fst l)" using letters by (metis letters_of_simps(2,3))
    then have go: "\<not> at_end (Some LF, rows_text ?R)" unfolding Cons by (rule at_end_rows(2))
    show ?thesis
    proof (cases "ms = []")
      case True
      then have "media_body_rows m \<noteq> []" using Cons by simp
      then have "sdp_seq media_steps ?s1 (Some LF, rows_text ?R) [] = Some (Inl (0, ?s2), [])"
        using reads_last [OF steps] True by simp
      then show ?thesis using go True unfolding sdp_media_loop.simps [of s] line option.case prod.case by simp
    next
      case False
      then obtain x ys where "ms = x # ys" by (cases ms) auto
      then have "sdp_seq media_steps ?s1 (Some LF, rows_text ?R) [] = Some (Inr (?s2, (Some LF, rows_text (medias_rows ms))), [])"
        using letters(2) by (intro reads_behind [OF steps]) simp_all
      moreover have "sdp_media_loop ?s2 (Some LF, rows_text (medias_rows ms)) []
          = Some (Inl (0, ?s2\<lparr>m_medias := m_medias ?s2 @ ms\<rparr>), [])"
        by (rule Cons.IH [OF m(3) False])
      ultimately show ?thesis using go unfolding sdp_media_loop.simps [of s] line option.case prod.case by simp
    qed
  qed
qed simp

section \<open>The whole description\<close>

lemma chain_loop:
  assumes "list_all media_wf ms"
  shows "step_chain [sdp_media_loop] (medias_rows ms) UNIV {CHR ''m''} s (s\<lparr>m_medias := m_medias s @ ms\<rparr>)"
proof -
  have "reads True (sdp_seq [sdp_media_loop]) (medias_rows ms) UNIV s (s\<lparr>m_medias := m_medias s @ ms\<rparr>)"
  proof (rule readsI)
    show "s\<lparr>m_medias := m_medias s @ ms\<rparr> = s" if "medias_rows ms = []" using that by (cases ms; cases s) simp_all
    show "sdp_seq [sdp_media_loop] s (Some LF, rows_text (medias_rows ms)) [] = Some (Inl (0, s\<lparr>m_medias := m_medias s @ ms\<rparr>), [])"
      if "medias_rows ms \<noteq> []"
    proof -
      have "ms \<noteq> []" using that by auto
      then show ?thesis by (simp add: sdp_media_loop_reads [OF assms])
    qed
  qed simp
  then show ?thesis using letters_of_medias [OF assms] by (cases ms) (simp_all add: step_chain_def starts_def)
qed

lemma chain_tail:
  assumes "sdp_wf d" "m_medias s = []" "z_adjustments s = None" "k_key s = None" "a_attributes s = []"
  shows "\<exists>L. step_chain [sdp_one False True sdp_message_parse_z, sdp_one False True sdp_message_parse_k, sdp_many True Attribute, sdp_media_loop]
    (opt_rows CHR ''z'' id (z_adjustments d) @ opt_rows CHR ''k'' key_text (k_key d)
      @ map (\<lambda>a. (CHR ''a'', attribute_text a)) (a_attributes d) @ medias_rows (m_medias d)) L
    ({CHR ''z''} \<union> ({CHR ''k''} \<union> ({CHR ''a''} \<union> {CHR ''m''}))) s
    (s\<lparr>z_adjustments := z_adjustments d, k_key := k_key d, a_attributes := a_attributes d, m_medias := m_medias d\<rparr>)"
proof -
  have wf: "if_any line_value (z_adjustments d)" "if_any key_wf (k_key d)" "list_all attribute_wf (a_attributes d)" "list_all media_wf (m_medias d)"
    using assms(1) by (simp_all add: sdp_wf_def)
  define s1 where "s1 = s\<lparr>z_adjustments := z_adjustments d\<rparr>"
  define s2 where "s2 = s1\<lparr>k_key := k_key d\<rparr>"
  define s3 where "s3 = s2\<lparr>a_attributes := a_attributes d\<rparr>"
  define s4 where "s4 = s\<lparr>z_adjustments := z_adjustments d, k_key := k_key d, a_attributes := a_attributes d, m_medias := m_medias d\<rparr>"
  have s4: "s3\<lparr>m_medias := m_medias s3 @ m_medias d\<rparr> = s4" using assms(2) by (simp add: s4_def s3_def s2_def s1_def)
  have fold: "fold (\<lambda>x s. s\<lparr>a_attributes := a_attributes s @ [x]\<rparr>) (a_attributes d) s2 = s3"
    using assms(5) by (simp add: fold_attributes s3_def s2_def s1_def)
  note m = chain_loop [OF wf(4), of s3, unfolded s4]
  have a: "step_chain [sdp_many True Attribute, sdp_media_loop] (map (\<lambda>a. (CHR ''a'', attribute_text a)) (a_attributes d) @ medias_rows (m_medias d))
      ({CHR ''a''} \<union> UNIV) ({CHR ''a''} \<union> {CHR ''m''}) s2 s4"
    by (rule chain_many [where P = "\<lambda>s. m_medias s = []" and add = "\<lambda>x s. s\<lparr>a_attributes := a_attributes s @ [x]\<rparr>"], unfold fold, rule m)
      (use wf(3) assms(2) in \<open>auto simp: parsers_leave list_all_iff s2_def s1_def intro: sdp_message_parse_a_takes\<close>)
  have k1: "s2 = s1" if "k_key d = None" using that assms(4) by (cases s) (simp add: s2_def s1_def)
  have k2: "takes sdp_message_parse_k (CHR ''k'', key_text x) s1 s2" if "k_key d = Some x" for x
    using sdp_message_parse_k_takes(1) [of x s1] that wf(2) assms(2) by (simp add: s2_def s1_def)
  have z1: "s1 = s" if "z_adjustments d = None" using that assms(3) by (cases s) (simp add: s1_def)
  have z2: "takes sdp_message_parse_z (CHR ''z'', id x) s s1" if "z_adjustments d = Some x" for x
    using sdp_message_parse_z_takes [of x s] that wf(1) by (simp add: s1_def)
  have k: "step_chain [sdp_one False True sdp_message_parse_k, sdp_many True Attribute, sdp_media_loop]
      (opt_rows CHR ''k'' key_text (k_key d) @ map (\<lambda>a. (CHR ''a'', attribute_text a)) (a_attributes d) @ medias_rows (m_medias d))
      ({CHR ''k''} \<union> ({CHR ''a''} \<union> UNIV)) ({CHR ''k''} \<union> ({CHR ''a''} \<union> {CHR ''m''})) s1 s4"
    by (rule chain_opt [OF a parsers_leave(12) k1 k2]) simp_all
  show ?thesis unfolding s4_def [symmetric] by (rule exI) (rule chain_opt [OF k parsers_leave(11) z1 z2]; simp)
qed

lemma chain_all_times:
  assumes "step_chain fs ms L A (s\<lparr>t_descrs := ts\<rparr>) s2" "A \<inter> {CHR ''r'', CHR ''t''} = {}"
    "list_all time_wf ts" "t_descrs s = []" "ts \<noteq> []"
  shows "\<exists>L. step_chain (sdp_one True True sdp_message_parse_t # sdp_many True Repeat # sdp_one False True sdp_message_parse_t # sdp_times # fs)
    (times_rows ts @ ms) L {CHR ''t''} s s2"
proof -
  obtain t ts' where ts: "ts = t # ts'" using assms(5) by (cases ts) auto
  then have t: "time_wf t" "list_all time_wf ts'" "list_all line_value (r_repeats t)" using assms(3) by (auto simp: time_wf_def)
  let ?s1 = "s\<lparr>t_descrs := [t\<lparr>r_repeats := []\<rparr>]\<rparr>" and ?s2 = "s\<lparr>t_descrs := [t]\<rparr>"
  have "?s2\<lparr>t_descrs := t_descrs ?s2 @ ts'\<rparr> = s\<lparr>t_descrs := ts\<rparr>" by (simp add: ts)
  then obtain L1 where more: "step_chain (sdp_one False True sdp_message_parse_t # sdp_times # fs) (times_rows ts' @ ms) L1 ({CHR ''t''} \<union> A) ?s2 s2"
    using chain_times [of fs ms L A ?s2 ts' s2] assms(1,2) t(2) by auto
  have "?s1\<lparr>t_descrs := at_last (\<lambda>x. x\<lparr>r_repeats := r_repeats x @ r_repeats t\<rparr>) (t_descrs ?s1)\<rparr> = ?s2"
    by (simp add: at_last_def)
  then have "reads True (sdp_many True Repeat) (repeat_rows (r_repeats t)) {CHR ''r''} ?s1 ?s2"
    using reads_repeats [OF t(3), of ?s1 True] by simp
  moreover have "starts (repeat_rows (r_repeats t)) {CHR ''r''}" by (cases "r_repeats t") (simp_all add: starts_def repeat_rows_def letters_of_def)
  ultimately have "\<exists>B. step_chain (sdp_many True Repeat # sdp_one False True sdp_message_parse_t # sdp_times # fs)
      (repeat_rows (r_repeats t) @ times_rows ts' @ ms) ({CHR ''r''} \<union> L1) B ?s1 s2"
    using chain_cons [OF _ more] assms(2) by blast
  then obtain B where reps: "step_chain (sdp_many True Repeat # sdp_one False True sdp_message_parse_t # sdp_times # fs)
      (repeat_rows (r_repeats t) @ times_rows ts' @ ms) ({CHR ''r''} \<union> L1) B ?s1 s2" by blast
  have "takes sdp_message_parse_t (CHR ''t'', time_text t) s ?s1" using sdp_message_parse_t_takes [OF t(1), of s] assms(4) by simp
  from chain_one [OF reps this, of True True] show ?thesis by (auto simp: ts)
qed

lemma chain_contact:
  assumes "sdp_wf d" "step_chain fs ms L {CHR ''t''} (s\<lparr>c_connection := c_connection d, b_bandwidths := b_bandwidths d\<rparr>) s2"
    "m_medias s = []" "c_connection s = None" "b_bandwidths s = []" "ms \<noteq> []"
  shows "\<exists>L. step_chain (sdp_one False False sdp_message_parse_c # sdp_many False Bandwidth # fs)
    (opt_rows CHR ''c'' connection_text (c_connection d) @ map (\<lambda>b. (CHR ''b'', bandwidth_text b)) (b_bandwidths d) @ ms) L
    ({CHR ''c''} \<union> ({CHR ''b''} \<union> {CHR ''t''})) s s2"
proof -
  have wf: "if_any connection_wf (c_connection d)" "list_all bandwidth_wf (b_bandwidths d)" using assms(1) by (simp_all add: sdp_wf_def)
  define s1 where "s1 = s\<lparr>c_connection := c_connection d\<rparr>"
  have fold: "fold (\<lambda>x s. s\<lparr>b_bandwidths := b_bandwidths s @ [x]\<rparr>) (b_bandwidths d) s1
      = s\<lparr>c_connection := c_connection d, b_bandwidths := b_bandwidths d\<rparr>"
    using assms(5) by (simp add: fold_bandwidths s1_def)
  have b: "step_chain (sdp_many False Bandwidth # fs) (map (\<lambda>b. (CHR ''b'', bandwidth_text b)) (b_bandwidths d) @ ms)
      ({CHR ''b''} \<union> L) ({CHR ''b''} \<union> {CHR ''t''}) s1 s2"
    by (rule chain_many [where P = "\<lambda>s. m_medias s = []" and add = "\<lambda>x s. s\<lparr>b_bandwidths := b_bandwidths s @ [x]\<rparr>"], unfold fold, rule assms(2))
      (use wf(2) assms(3,6) in \<open>auto simp: parsers_leave list_all_iff s1_def intro: sdp_message_parse_b_takes\<close>)
  have c1: "s1 = s" if "c_connection d = None" using that assms(4) by (cases s) (simp add: s1_def)
  have c2: "takes sdp_message_parse_c (CHR ''c'', connection_text x) s s1" if "c_connection d = Some x" for x
    using sdp_message_parse_c_takes(1) [of x s] that wf(1) assms(3) by (simp add: s1_def)
  show ?thesis by (rule exI) (rule chain_opt [OF b parsers_leave(7) c1 c2]; simp add: assms(6))
qed

lemma chain_people:
  assumes "sdp_wf d" "step_chain fs ms L A (s\<lparr>e_emails := e_emails d, p_phones := p_phones d\<rparr>) s2"
    "A \<inter> {CHR ''e'', CHR ''p''} = {}" "e_emails s = []" "p_phones s = []" "ms \<noteq> []"
  shows "\<exists>L. step_chain (sdp_many False Email # sdp_many False Phone # fs)
    (map (Pair CHR ''e'') (e_emails d) @ map (Pair CHR ''p'') (p_phones d) @ ms) L ({CHR ''e''} \<union> ({CHR ''p''} \<union> A)) s s2"
proof -
  have wf: "list_all line_value (e_emails d)" "list_all line_value (p_phones d)" using assms(1) by (simp_all add: sdp_wf_def)
  define s1 where "s1 = s\<lparr>e_emails := e_emails d\<rparr>"
  have fe: "fold (\<lambda>x s. s\<lparr>e_emails := e_emails s @ [x]\<rparr>) (e_emails d) s = s1" using assms(4) by (simp add: fold_emails s1_def)
  have fp: "fold (\<lambda>x s. s\<lparr>p_phones := p_phones s @ [x]\<rparr>) (p_phones d) s1 = s\<lparr>e_emails := e_emails d, p_phones := p_phones d\<rparr>"
    using assms(5) by (simp add: fold_phones s1_def)
  have p: "step_chain (sdp_many False Phone # fs) (map (Pair CHR ''p'') (p_phones d) @ ms) ({CHR ''p''} \<union> L) ({CHR ''p''} \<union> A) s1 s2"
    by (rule chain_many [where P = "\<lambda>s. True" and add = "\<lambda>x s. s\<lparr>p_phones := p_phones s @ [x]\<rparr>" and f = "\<lambda>x. x"], unfold fp, rule assms(2))
      (use wf(2) assms(3,6) in \<open>auto simp: parsers_leave list_all_iff intro: sdp_message_parse_p_takes\<close>)
  have "step_chain (sdp_many False Email # sdp_many False Phone # fs) (map (Pair CHR ''e'') (e_emails d) @ map (Pair CHR ''p'') (p_phones d) @ ms)
      ({CHR ''e''} \<union> ({CHR ''p''} \<union> L)) ({CHR ''e''} \<union> ({CHR ''p''} \<union> A)) s s2"
    by (rule chain_many [where P = "\<lambda>s. True" and add = "\<lambda>x s. s\<lparr>e_emails := e_emails s @ [x]\<rparr>" and f = "\<lambda>x. x"], unfold fe, rule p)
      (use wf(1) assms(3,6) in \<open>auto simp: parsers_leave list_all_iff intro: sdp_message_parse_e_takes\<close>)
  then show ?thesis by blast
qed

lemma chain_names:
  assumes "sdp_wf d" "step_chain fs ms L A (s\<lparr>s_name := s_name d, i_info := i_info d, u_uri := u_uri d\<rparr>) s2"
    "A \<inter> {CHR ''s'', CHR ''i'', CHR ''u''} = {}" "m_medias s = []" "s_name s = None" "i_info s = None" "u_uri s = None" "ms \<noteq> []"
  shows "\<exists>L. step_chain (sdp_one False False sdp_message_parse_s # sdp_one False False sdp_message_parse_i # sdp_one False False sdp_message_parse_u # fs)
    (opt_rows CHR ''s'' id (s_name d) @ opt_rows CHR ''i'' id (i_info d) @ opt_rows CHR ''u'' id (u_uri d) @ ms) L
    ({CHR ''s''} \<union> ({CHR ''i''} \<union> ({CHR ''u''} \<union> A))) s s2"
proof -
  have wf: "if_any line_value (s_name d)" "if_any line_value (i_info d)" "if_any line_value (u_uri d)" using assms(1) by (simp_all add: sdp_wf_def)
  define s1 where "s1 = s\<lparr>s_name := s_name d\<rparr>"
  define s2' where "s2' = s1\<lparr>i_info := i_info d\<rparr>"
  define s3 where "s3 = s\<lparr>s_name := s_name d, i_info := i_info d, u_uri := u_uri d\<rparr>"
  note ss = s3_def s2'_def s1_def
  have u1: "s3 = s2'" if "u_uri d = None" using that assms(7) by (cases s) (simp add: ss)
  have u2: "takes sdp_message_parse_u (CHR ''u'', id x) s2' s3" if "u_uri d = Some x" for x
    using sdp_message_parse_u_takes [of x s2'] that wf(3) by (simp add: ss)
  have i1: "s2' = s1" if "i_info d = None" using that assms(6) by (cases s) (simp add: ss)
  have i2: "takes sdp_message_parse_i (CHR ''i'', id x) s1 s2'" if "i_info d = Some x" for x
    using sdp_message_parse_i_takes [of x s1] that wf(2) assms(4) by (simp add: ss)
  have n1: "s1 = s" if "s_name d = None" using that assms(5) by (cases s) (simp add: ss)
  have n2: "takes sdp_message_parse_s (CHR ''s'', id x) s s1" if "s_name d = Some x" for x
    using sdp_message_parse_s_takes [of x s] that wf(1) by (simp add: ss)
  note u = chain_opt [OF assms(2) [folded s3_def] parsers_leave(4) u1 u2, where ends = False]
  have i: "step_chain (sdp_one False False sdp_message_parse_i # sdp_one False False sdp_message_parse_u # fs)
      (opt_rows CHR ''i'' id (i_info d) @ opt_rows CHR ''u'' id (u_uri d) @ ms) ({CHR ''i''} \<union> ({CHR ''u''} \<union> L)) ({CHR ''i''} \<union> ({CHR ''u''} \<union> A)) s1 s2"
    by (rule chain_opt [OF u parsers_leave(3) i1 i2]) (use assms(3,8) in auto)
  have "step_chain (sdp_one False False sdp_message_parse_s # sdp_one False False sdp_message_parse_i # sdp_one False False sdp_message_parse_u # fs)
      (opt_rows CHR ''s'' id (s_name d) @ opt_rows CHR ''i'' id (i_info d) @ opt_rows CHR ''u'' id (u_uri d) @ ms)
      ({CHR ''s''} \<union> ({CHR ''i''} \<union> ({CHR ''u''} \<union> L))) ({CHR ''s''} \<union> ({CHR ''i''} \<union> ({CHR ''u''} \<union> A))) s s2"
    by (rule chain_opt [OF i parsers_leave(2) n1 n2]) (use assms(3,8) in auto)
  then show ?thesis by blast
qed

lemma sdp_rows_eq: "sdp_rows d = (CHR ''v'', the (v_version d)) # (CHR ''o'', origin_text d)
    # opt_rows CHR ''s'' id (s_name d) @ opt_rows CHR ''i'' id (i_info d) @ opt_rows CHR ''u'' id (u_uri d)
    @ map (Pair CHR ''e'') (e_emails d) @ map (Pair CHR ''p'') (p_phones d)
    @ opt_rows CHR ''c'' connection_text (c_connection d) @ map (\<lambda>b. (CHR ''b'', bandwidth_text b)) (b_bandwidths d)
    @ times_rows (t_descrs d)
    @ opt_rows CHR ''z'' id (z_adjustments d) @ opt_rows CHR ''k'' key_text (k_key d)
    @ map (\<lambda>a. (CHR ''a'', attribute_text a)) (a_attributes d) @ medias_rows (m_medias d)"
  by (simp add: sdp_rows_def head_rows_def times_rows_def medias_rows_def)

text \<open>The steps behind the first line take the printed lines behind it.\<close>

lemma sdp_steps_read:
  assumes "sdp_wf d"
  shows "sdp_seq (tl sdp_steps) (sdp_message_init\<lparr>v_version := v_version d\<rparr>) (Some LF, rows_text (tl (sdp_rows d))) []
    = Some (Inl (OSIP_SUCCESS, d), [])"
proof -
  have wf: "origin_wf d" "list_all time_wf (t_descrs d)" "t_descrs d \<noteq> []" using assms by (simp_all add: sdp_wf_def)
  define s1 where "s1 = sdp_message_init\<lparr>v_version := v_version d\<rparr>"
  define s2 where "s2 = s1\<lparr>o_username := o_username d, o_sess_id := o_sess_id d, o_sess_version := o_sess_version d, o_nettype := o_nettype d,
    o_addrtype := o_addrtype d, o_addr := o_addr d\<rparr>"
  define s3 where "s3 = s2\<lparr>s_name := s_name d, i_info := i_info d, u_uri := u_uri d\<rparr>"
  define s4 where "s4 = s3\<lparr>e_emails := e_emails d, p_phones := p_phones d\<rparr>"
  define s5 where "s5 = s4\<lparr>c_connection := c_connection d, b_bandwidths := b_bandwidths d\<rparr>"
  define s6 where "s6 = s5\<lparr>t_descrs := t_descrs d\<rparr>"
  note ss = s6_def s5_def s4_def s3_def s2_def s1_def sdp_message_init_def
  have d: "s6\<lparr>z_adjustments := z_adjustments d, k_key := k_key d, a_attributes := a_attributes d, m_medias := m_medias d\<rparr> = d"
    by (cases d) (simp add: ss)
  have times: "times_rows (t_descrs d) \<noteq> []" using wf(3) by (cases "t_descrs d") simp_all
  let ?f6 = "[sdp_one False True sdp_message_parse_z, sdp_one False True sdp_message_parse_k, sdp_many True Attribute, sdp_media_loop]"
  let ?m6 = "opt_rows CHR ''z'' id (z_adjustments d) @ opt_rows CHR ''k'' key_text (k_key d)
    @ map (\<lambda>a. (CHR ''a'', attribute_text a)) (a_attributes d) @ medias_rows (m_medias d)"
  let ?f5 = "sdp_one True True sdp_message_parse_t # sdp_many True Repeat # sdp_one False True sdp_message_parse_t # sdp_times # ?f6"
  let ?m5 = "times_rows (t_descrs d) @ ?m6"
  let ?f4 = "sdp_one False False sdp_message_parse_c # sdp_many False Bandwidth # ?f5"
  let ?m4 = "opt_rows CHR ''c'' connection_text (c_connection d) @ map (\<lambda>b. (CHR ''b'', bandwidth_text b)) (b_bandwidths d) @ ?m5"
  let ?f3 = "sdp_many False Email # sdp_many False Phone # ?f4"
  let ?m3 = "map (Pair CHR ''e'') (e_emails d) @ map (Pair CHR ''p'') (p_phones d) @ ?m4"
  let ?f2 = "sdp_one False False sdp_message_parse_s # sdp_one False False sdp_message_parse_i # sdp_one False False sdp_message_parse_u # ?f3"
  let ?m2 = "opt_rows CHR ''s'' id (s_name d) @ opt_rows CHR ''i'' id (i_info d) @ opt_rows CHR ''u'' id (u_uri d) @ ?m3"
  have some: "?m5 \<noteq> []" using wf(3) by (cases "t_descrs d") simp_all
  then have more: "?m4 \<noteq> []" "?m3 \<noteq> []" "?m2 \<noteq> []" by simp_all
  obtain L6 where 6: "step_chain ?f6 ?m6 L6 ({CHR ''z''} \<union> ({CHR ''k''} \<union> ({CHR ''a''} \<union> {CHR ''m''}))) s6 d"
    using chain_tail [OF assms, of s6, unfolded d] by (auto simp: ss)
  obtain L5 where 5: "step_chain ?f5 ?m5 L5 {CHR ''t''} s5 d"
    using chain_all_times [OF 6 [unfolded s6_def] _ wf(2) _ wf(3)] by (auto simp: ss)
  have "s5 = s4\<lparr>c_connection := c_connection d, b_bandwidths := b_bandwidths d\<rparr>" by (rule s5_def)
  then obtain L4 where 4: "step_chain ?f4 ?m4 L4 ({CHR ''c''} \<union> ({CHR ''b''} \<union> {CHR ''t''})) s4 d"
    using chain_contact [OF assms 5 [unfolded s5_def] _ _ _ some] by (auto simp: ss)
  obtain L3 where 3: "step_chain ?f3 ?m3 L3 ({CHR ''e''} \<union> ({CHR ''p''} \<union> ({CHR ''c''} \<union> ({CHR ''b''} \<union> {CHR ''t''})))) s3 d"
    using chain_people [OF assms 4 [unfolded s4_def] _ _ _ more(1)] by (auto simp: ss)
  obtain L2 where 2: "step_chain ?f2 ?m2 L2
      ({CHR ''s''} \<union> ({CHR ''i''} \<union> ({CHR ''u''} \<union> ({CHR ''e''} \<union> ({CHR ''p''} \<union> ({CHR ''c''} \<union> ({CHR ''b''} \<union> {CHR ''t''}))))))) s2 d"
    using chain_names [OF assms 3 [unfolded s3_def] _ _ _ _ _ more(2)] by (auto simp: ss)
  have origin: "takes sdp_message_parse_o (CHR ''o'', origin_text d) s1 s2"
    unfolding s2_def by (rule sdp_message_parse_o_takes [OF wf(1)])
  have one: "step_chain (sdp_one True False sdp_message_parse_o # ?f2) ((CHR ''o'', origin_text d) # ?m2) L2 {CHR ''o''} s1 d"
    using chain_one [OF 2 origin, of False True] more(3) by simp
  have "step_chain (sdp_one False False sdp_message_parse_s # sdp_one True False sdp_message_parse_o # ?f2)
      (opt_rows CHR ''s'' id None @ (CHR ''o'', origin_text d) # ?m2) ({CHR ''s''} \<union> L2) ({CHR ''s''} \<union> {CHR ''o''}) s1 d"
    by (rule chain_opt [OF one parsers_leave(2)]) simp_all
  then have "reads True (sdp_seq (tl sdp_steps)) (tl (sdp_rows d)) ({CHR ''s''} \<union> L2) s1 d"
    by (simp only: step_chain_def sdp_steps_def sdp_rows_eq list.sel opt_rows_def option.case append_Nil)
  then show ?thesis unfolding s1_def [symmetric] by (rule reads_last) (simp_all add: sdp_rows_eq)
qed

theorem sdp_message_parse_printed:
  assumes "sdp_wf d"
  shows "sdp_message_parse sdp_message_init (sdp_message_text d) [] = Some ((OSIP_SUCCESS, d), [])"
proof -
  obtain v where v: "v_version d = Some v" "line_value v" using assms by (auto simp: sdp_wf_def dest!: has_Some)
  let ?s1 = "sdp_message_init\<lparr>v_version := v_version d\<rparr>" and ?rest = "tl (sdp_rows d)"
  have rows: "sdp_rows d = (CHR ''v'', v) # ?rest" by (simp add: sdp_rows_eq v)
  have "sdp_message_parse_v sdp_message_init (None, rows_text ((CHR ''v'', v) # ?rest)) [] = Some ((WF, ?s1, (Some LF, rows_text ?rest)), [])"
    unfolding v(1) by (rule takesD [OF sdp_message_parse_v_takes [OF v(2)]])
  then have one: "sdp_one True False sdp_message_parse_v sdp_message_init (None, sdp_message_text d) [] = Some (Inr (?s1, (Some LF, rows_text ?rest)), [])"
    by (simp add: sdp_one_def sdp_message_text_def rows [symmetric])
  have steps: "sdp_steps = sdp_one True False sdp_message_parse_v # tl sdp_steps" by (simp add: sdp_steps_def)
  have "sdp_seq sdp_steps sdp_message_init (None, sdp_message_text d) [] = Some (Inl (OSIP_SUCCESS, d), [])"
    by (subst steps) (simp only: sdp_seq.simps one option.case prod.case sum.case sdp_steps_read [OF assms])
  then show ?thesis by (simp add: sdp_message_parse_def)
qed

theorem sdp_message_clone_equal:
  assumes "sdp_wf d"
  shows "sdp_message_clone (Some d) [] = Some ((OSIP_SUCCESS, Some d), [])"
  by (simp add: sdp_message_clone_def alloc_or_def sdp_message_to_str_ok [OF assms] sdp_message_parse_printed [OF assms])

end
