(* ===== verification/Sdp_Safe.thy ===== *)
theory Sdp_Safe
  imports Sdp_Parse
begin

text \<open>
  The parser of session descriptions has no undefined behaviour, except where an \<^verbatim>\<open>m=\<close> line without
  a payload ends the text with a single carriage return or line feed.
\<close>

section \<open>Positions\<close>

text \<open>The text does not end in a lone carriage return or line feed.\<close>

definition text_closed :: "string \<Rightarrow> bool" where
  "text_closed s \<longleftrightarrow> (case rev s of d # c # _ \<Rightarrow> (d = CR \<or> d = LF) \<longrightarrow> c = CR \<or> c = LF | _ \<Rightarrow> True)"

lemma text_closed_suffix: "text_closed (a @ s) \<Longrightarrow> text_closed s"
  by (cases s rule: rev_cases; cases "butlast s" rule: rev_cases) (auto simp: text_closed_def)

definition safe_place :: "place \<Rightarrow> bool" where
  "safe_place p \<longleftrightarrow> (fst p = None \<longrightarrow> cur (snd p) \<noteq> CHR ''='') \<and> text_closed (snd p)"

lemma goes_on_safe: "goes_on p q \<Longrightarrow> safe_place p \<Longrightarrow> safe_place q"
  unfolding goes_on_def safe_place_def
  by (auto dest: text_closed_suffix [of "_ @ [_]", unfolded append_assoc append_Cons append_Nil])

section \<open>One line\<close>

lemma sdp_field_defined: "safe_place p \<Longrightarrow> sdp_field name refused p \<noteq> None"
proof -
  assume safe: "safe_place p"
  obtain before buf where p: "p = (before, buf)" by (cases p)
  let ?equal = "dropWhile (\<lambda>c. c \<noteq> CHR ''='') buf"
  have "before \<noteq> None" if "?equal = buf" "?equal \<noteq> []"
  proof -
    have "cur buf = CHR ''=''" using that hd_dropWhile [of "\<lambda>c. c \<noteq> CHR ''=''" buf] by (cases buf) (auto simp: cur_def)
    then show ?thesis using safe by (auto simp: safe_place_def p)
  qed
  then show ?thesis
    unfolding sdp_field_def p prod.case Let_def by (intro defined) auto
qed

text \<open>The value of a line, up to its end.\<close>

definition value_at :: "string \<Rightarrow> string \<Rightarrow> bool" where
  "value_at val crlf \<longleftrightarrow> crlf = dropWhile (\<lambda>c. c \<noteq> CR \<and> c \<noteq> LF) val \<and> tl crlf \<noteq> []"

lemma sdp_line_defined:
  assumes "safe_place p"
    and "\<And>val crlf m. length crlf \<le> length val \<Longrightarrow> crlf \<noteq> [] \<Longrightarrow> (text_closed (snd p) \<Longrightarrow> value_at val crlf) \<Longrightarrow> rest val crlf m \<noteq> None"
  shows "sdp_line name refused rest sdp p m \<noteq> None"
proof -
  obtain f where f: "sdp_field name refused p = Some f" using sdp_field_defined [OF assms(1)] by blast
  show ?thesis
  proof (cases f)
    case (Inr vc)
    obtain val crlf where vc: "vc = (val, crlf)" by (cases vc)
    obtain a v d r where l: "snd p = a @ CHR ''='' # v @ d # r" "val = v @ d # r" "crlf = d # r" "v \<noteq> []"
        "\<forall>c \<in> set v. c \<noteq> CR \<and> c \<noteq> LF" "d = CR \<or> d = LF"
      by (rule sdp_field_value [OF f [unfolded Inr vc]]) (rule that, assumption+)
    have "r \<noteq> []" if "text_closed (snd p)"
    proof
      assume "r = []"
      moreover obtain w c where "v = w @ [c]" using l(4) by (cases v rule: rev_cases) auto
      ultimately have "text_closed ((a @ CHR ''='' # w) @ [c, d])" using that l(1) by simp
      then have "text_closed [c, d]" by (rule text_closed_suffix)
      then show False using l(5,6) \<open>v = w @ [c]\<close> by (auto simp: text_closed_def)
    qed
    then have "text_closed (snd p) \<Longrightarrow> value_at val crlf" using l by (auto simp: value_at_def dropWhile_append)
    then have "rest val crlf m \<noteq> None" using l by (intro assms(2)) simp_all
    then show ?thesis using f Inr vc by (auto simp: sdp_line_def)
  qed (use f in \<open>simp add: sdp_line_def\<close>)
qed

lemma osip_set_next_token_defined: "osip_set_next_token tmp sep m \<noteq> None"
proof -
  have "length (dropWhile f tmp) \<le> length tmp" for f by (rule length_dropWhile_le)
  then show ?thesis
    unfolding osip_set_next_token_def Let_def by (intro defined) (auto simp: ptr_diff_def Suc_le_eq)
qed

lemma osip_set_next_token_cases:
  obtains i m' where "osip_set_next_token tmp sep m = Some ((i, None, None), m')" "i \<noteq> 0"
  | v r m' where "osip_set_next_token tmp sep m = Some ((0, Some v, Some r), m')" "tmp = v @ sep # r" "v \<noteq> []" "\<forall>c \<in> set v. c \<noteq> CR \<and> c \<noteq> LF"
proof -
  have "osip_set_next_token tmp sep m \<noteq> None" by (rule osip_set_next_token_defined)
  then obtain i v n m' where r: "osip_set_next_token tmp sep m = Some ((i, v, n), m')" by auto
  show thesis
  proof (cases "i = 0")
    case True
    then show thesis using osip_set_next_token_next [of tmp sep m v n m'] r that(2) by auto
  next
    case False
    then have "v = None \<and> n = None" using r by (auto simp: osip_set_next_token_def Let_def split: if_splits prod.splits bind_splits)
    then show thesis using r False that(1) by blast
  qed
qed

lemma sdp_token_defined_at:
  assumes "\<And>v r m. tmp = v @ sep # r \<Longrightarrow> \<forall>c \<in> set v. c \<noteq> CR \<and> c \<noteq> LF \<Longrightarrow> k v r m \<noteq> None"
  shows "sdp_token tmp sep failed m k \<noteq> None"
  by (rule osip_set_next_token_cases [of tmp sep m]) (use assms in \<open>auto simp: sdp_token_def\<close>)

lemma sdp_last_token_defined_at:
  assumes "\<And>v c r m. tmp = v @ c # r \<Longrightarrow> c = CR \<or> c = LF \<Longrightarrow> \<forall>c \<in> set v. c \<noteq> CR \<and> c \<noteq> LF \<Longrightarrow> k v r m \<noteq> None"
  shows "sdp_last_token tmp failed m k \<noteq> None"
proof (rule osip_set_next_token_cases [of tmp CR m])
  fix i m'
  assume "osip_set_next_token tmp CR m = Some ((i, None, None), m')" "i \<noteq> 0"
  then show ?thesis
    using sdp_token_defined_at [of tmp LF k "\<lambda>j. failed (if i = OSIP_NOMEM then i else j)" m'] assms by (simp add: sdp_last_token_def)
qed (use assms in \<open>auto simp: sdp_last_token_def\<close>)

lemma sdp_token_defined [defined]: "(\<And>v r m. k v r m \<noteq> None) \<Longrightarrow> sdp_token tmp sep failed m k \<noteq> None"
  by (rule sdp_token_defined_at)

lemma sdp_last_token_defined [defined]: "(\<And>v r m. k v r m \<noteq> None) \<Longrightarrow> sdp_last_token tmp failed m k \<noteq> None"
  by (rule sdp_last_token_defined_at)

lemma sdp_text_defined:
  assumes "length crlf \<le> length val" "\<And>v m. k v m \<noteq> None"
  shows "sdp_text failed val crlf m k \<noteq> None"
  unfolding sdp_text_def by (intro defined assms(2)) (use assms(1) in \<open>simp_all add: ptr_diff_def\<close>)

lemma new_element_defined [defined]: "(\<And>m. fill m \<noteq> None) \<Longrightarrow> new_element fill sdp m add \<noteq> None"
  unfolding new_element_def by (intro defined)

lemma sdp_name_value_defined [defined]: "sdp_name_value e alone both tmp crlf m \<noteq> None"
  unfolding sdp_name_value_def by (intro defined)

lemma sdp_connection_addr_defined [defined]: "sdp_connection_addr tmp crlf c m \<noteq> None"
  unfolding sdp_connection_addr_def Let_def
  by (intro defined) (auto simp: in_line_def advance_def split: option.splits dest: strchr_hd)

section \<open>Media\<close>

text \<open>A token that does not end in the end of the line is followed by the rest of the line.\<close>

lemma value_at_token:
  assumes "value_at (v @ sep # r) crlf" "sep \<noteq> CR" "sep \<noteq> LF" "\<forall>c \<in> set v. c \<noteq> CR \<and> c \<noteq> LF"
  shows "value_at r crlf"
proof -
  have "dropWhile (\<lambda>c. c \<noteq> CR \<and> c \<noteq> LF) (v @ sep # r) = dropWhile (\<lambda>c. c \<noteq> CR \<and> c \<noteq> LF) (sep # r)"
    by (rule dropWhile_append2) (use assms(4) in blast)
  then show ?thesis using assms(1-3) unfolding value_at_def by auto
qed

text \<open>Behind the end of the line there is more.\<close>

lemma value_at_end:
  assumes "value_at (v @ c # r) crlf" "c = CR \<or> c = LF" "\<forall>c \<in> set v. c \<noteq> CR \<and> c \<noteq> LF"
  shows "crlf = c # r" "r \<noteq> []"
proof -
  have "dropWhile (\<lambda>c. c \<noteq> CR \<and> c \<noteq> LF) (v @ c # r) = dropWhile (\<lambda>c. c \<noteq> CR \<and> c \<noteq> LF) (c # r)"
    by (rule dropWhile_append2) (use assms(3) in blast)
  moreover have "dropWhile (\<lambda>c. c \<noteq> CR \<and> c \<noteq> LF) (c # r) = c # r" using assms(2) by auto
  ultimately show "crlf = c # r" "r \<noteq> []" using assms(1) unfolding value_at_def by auto
qed

lemma value_at_nonempty: "value_at val crlf \<Longrightarrow> val \<noteq> []"
  by (auto simp: value_at_def)

text \<open>In front of the end of the line there is a blank, where the search finds one.\<close>

lemma sdp_payloads_defined:
  assumes "value_at tmp crlf \<or> crlf = c # tmp \<and> tmp \<noteq> []"
  shows "sdp_payloads crlf tmp ps m \<noteq> None"
  using assms
proof (induction crlf tmp ps m rule: sdp_payloads.induct)
  case (1 crlf tmp ps m)
  have "tmp \<noteq> []" using "1.prems" value_at_nonempty by auto
  then obtain behind where behind: "advance 1 tmp = Some behind" "length behind < length tmp" by (cases tmp) auto
  show ?case
  proof (cases "in_line (strchr behind CHR '' '') crlf")
    case True
    have at: "value_at tmp crlf"
    proof (rule ccontr)
      assume "\<not> value_at tmp crlf"
      then have "length behind < length crlf" using "1.prems" behind(2) by auto
      moreover have "length p \<le> length behind" if "strchr behind CHR '' '' = Some p" for p
        using strchr_hd [OF that] by auto
      ultimately show False using True by (fastforce simp: in_line_def split: option.splits)
    qed
    show ?thesis
    proof (cases rule: osip_set_next_token_cases [of tmp "CHR '' ''" m])
      case (1 i m')
      then show ?thesis using True behind(1) by (simp add: sdp_payloads.simps)
    next
      case (2 v r m')
      obtain qs m2 where add: "list_add ps v (-1) m' = (qs, m2)" by (cases "list_add ps v (-1) m'")
      have "value_at r crlf" using value_at_token at 2 by simp
      then have "sdp_payloads crlf r qs m2 \<noteq> None"
        using "1.IH" [OF behind(1) True 2(1) refl refl refl] add by simp
      then show ?thesis using True behind(1) 2(1) add by (simp add: sdp_payloads.simps [of crlf tmp])
    qed
  next
    case False
    show ?thesis
      unfolding sdp_payloads.simps [of crlf tmp] behind(1) option.case if_not_P [OF False] by (intro defined)
  qed
qed

lemma sdp_media_proto_defined:
  assumes "value_at tmp crlf"
  shows "sdp_media_proto crlf tmp med m \<noteq> None"
proof -
  let ?k = "\<lambda>v tmp m. do {
       ((i, ps), m) \<leftarrow> sdp_payloads crlf tmp [] m;
       Some ((i, med\<lparr>m_proto := Some v, m_payloads := ps\<rparr>), m)
     }"
  have k: "?k v r m' \<noteq> None" if "value_at r crlf \<or> crlf = c # r \<and> r \<noteq> []" for v r m' c
    using sdp_payloads_defined [OF that, of "[]" m'] by auto
  show ?thesis
  proof (cases rule: osip_set_next_token_cases [of tmp "CHR '' ''" m])
    case (1 i m')
    have "sdp_last_token tmp (\<lambda>_. med) m' ?k \<noteq> None"
    proof (rule sdp_last_token_defined_at)
      fix v c r n
      assume "tmp = v @ c # r" "c = CR \<or> c = LF" "\<forall>c \<in> set v. c \<noteq> CR \<and> c \<noteq> LF"
      then have "crlf = c # r \<and> r \<noteq> []" using value_at_end [where v = v and c = c and r = r and crlf = crlf] assms by simp
      then show "?k v r n \<noteq> None" using k by blast
    qed
    then show ?thesis using 1 by (simp add: sdp_media_proto_def Let_def)
  next
    case (2 v r m')
    have "value_at r crlf" using value_at_token assms 2 by simp
    then show ?thesis using 2 k [where r = r and v = v and m' = m'] by (simp add: sdp_media_proto_def Let_def)
  qed
qed

lemma sdp_media_fill_defined:
  assumes "value_at tmp crlf"
  shows "sdp_media_fill tmp crlf m \<noteq> None"
proof -
  have token: "sdp_token s c failed n k \<noteq> None"
    if at: "value_at s crlf" and k: "\<And>v r n. value_at r crlf \<Longrightarrow> k v r n \<noteq> None" and c: "c \<noteq> CR" "c \<noteq> LF" for s c failed n k
  proof (rule sdp_token_defined_at)
    fix v r n
    assume "s = v @ c # r" "\<forall>c \<in> set v. c \<noteq> CR \<and> c \<noteq> LF"
    then have "value_at r crlf" using value_at_token [where v = v and sep = c and r = r and crlf = crlf] at c by simp
    then show "k v r n \<noteq> None" by (rule k)
  qed
  show ?thesis
    unfolding sdp_media_fill_def Let_def
    by (intro token assms case_option_defined if_defined Some_defined sdp_media_proto_defined; (assumption | simp))
qed

section \<open>The whole description\<close>

lemma line_defined:
  assumes "safe_place p"
  shows "sdp_message_parse_v sdp p m \<noteq> None" "sdp_message_parse_o sdp p m \<noteq> None" "sdp_message_parse_s sdp p m \<noteq> None"
    "sdp_message_parse_i sdp p m \<noteq> None" "sdp_message_parse_u sdp p m \<noteq> None" "sdp_message_parse_e sdp p m \<noteq> None"
    "sdp_message_parse_p sdp p m \<noteq> None" "sdp_message_parse_c sdp p m \<noteq> None" "sdp_message_parse_b sdp p m \<noteq> None"
    "sdp_message_parse_t sdp p m \<noteq> None" "sdp_message_parse_r sdp p m \<noteq> None" "sdp_message_parse_z sdp p m \<noteq> None"
    "sdp_message_parse_k sdp p m \<noteq> None" "sdp_message_parse_a sdp p m \<noteq> None" "sdp_message_parse_m sdp p m \<noteq> None"
  unfolding line_parser_defs sdp_message_parse_v_def Let_def
  by (intro sdp_line_defined [OF assms] sdp_text_defined defined sdp_media_fill_defined; (use assms in \<open>simp add: safe_place_def\<close>)?)+

lemma parse_kind_defined: "safe_place p \<Longrightarrow> parse_kind k sdp p m \<noteq> None"
  by (cases k) (simp_all only: parse_kind.simps line_defined simp_thms)

text \<open>A step that starts at a safe place answers, and goes on at a safe place.\<close>

definition safe_step :: "(sdp_message \<Rightarrow> place \<Rightarrow> mem \<Rightarrow> sdp_step) \<Rightarrow> bool" where
  "safe_step f \<longleftrightarrow> (\<forall>sdp p m. safe_place p \<longrightarrow>
     f sdp p m \<noteq> None \<and> (\<forall>sdp' q m'. f sdp p m = Some (Inr (sdp', q), m') \<longrightarrow> safe_place q))"

lemma safe_step_goes_on:
  assumes "\<And>sdp p m. safe_place p \<Longrightarrow> f sdp p m \<noteq> None"
    "\<And>sdp p m sdp' q m'. f sdp p m = Some (Inr (sdp', q), m') \<Longrightarrow> goes_on p q"
  shows "safe_step f"
  unfolding safe_step_def using assms goes_on_safe by blast

lemma safe_one:
  assumes "\<And>sdp p m. safe_place p \<Longrightarrow> parse sdp p m \<noteq> None"
    "\<And>sdp p m i sdp' q m'. parse sdp p m = Some ((i, sdp', q), m') \<Longrightarrow> goes_on p q"
  shows "safe_step (sdp_one mandatory ends parse)"
proof (rule safe_step_goes_on)
  show "sdp_one mandatory ends parse sdp p m \<noteq> None" if "safe_place p" for sdp p m
    unfolding sdp_one_def by (intro defined assms(1) that)
  show "goes_on p q" if "sdp_one mandatory ends parse sdp p m = Some (Inr (sdp', q), m')" for sdp p m sdp' q m'
    by (rule sdp_one_goes_on [OF assms(2) that])
qed

lemma sdp_many_defined: "safe_place p \<Longrightarrow> sdp_many ends k sdp p m \<noteq> None"
proof (induction ends k sdp p m rule: sdp_many.induct)
  case (1 ends k sdp p m)
  obtain i s q n where step: "parse_kind k sdp p m = Some ((i, s, q), n)"
    using parse_kind_defined [OF "1.prems", of k sdp m] by auto
  have safe: "safe_place q" by (rule goes_on_safe [OF parse_kind_goes_on [OF step] "1.prems"])
  show ?case
  proof (cases "i = 1 \<and> \<not> (ends \<and> at_end q)")
    case True
    then have "sdp_many ends k s q n \<noteq> None" using "1.IH" [OF step refl refl refl] safe by simp
    then show ?thesis using step True by (subst sdp_many.simps) auto
  next
    case False
    then show ?thesis using step by (subst sdp_many.simps) auto
  qed
qed

lemma safe_many: "safe_step (sdp_many ends k)"
  by (rule safe_step_goes_on) (erule sdp_many_defined, erule sdp_many_goes_on)

lemma safe_seq: "\<forall>f \<in> set fs. safe_step f \<Longrightarrow> safe_step (sdp_seq fs)"
proof (induction fs)
  case (Cons f fs)
  then have f: "safe_step f" "safe_step (sdp_seq fs)" by simp_all
  show ?case
    unfolding safe_step_def
  proof (intro allI impI)
    fix sdp p m
    assume p: "safe_place p"
    have "f sdp p m \<noteq> None" using f(1) p unfolding safe_step_def by blast
    then obtain x n where x: "f sdp p m = Some (x, n)" by (cases "f sdp p m") auto
    show "sdp_seq (f # fs) sdp p m \<noteq> None \<and> (\<forall>sdp' q m'. sdp_seq (f # fs) sdp p m = Some (Inr (sdp', q), m') \<longrightarrow> safe_place q)"
    proof (cases x)
      case (Inr y)
      obtain s q where y: "y = (s, q)" by (cases y)
      have "safe_place q" using f(1) p x Inr y unfolding safe_step_def by blast
      then have "sdp_seq fs s q n \<noteq> None \<and> (\<forall>sdp' r m'. sdp_seq fs s q n = Some (Inr (sdp', r), m') \<longrightarrow> safe_place r)"
        using f(2) unfolding safe_step_def by blast
      then show ?thesis unfolding sdp_seq.simps x Inr y option.case prod.case sum.case .
    qed (simp add: x)
  qed
qed (simp add: safe_step_def)

lemma parse_v_goes_on: "sdp_message_parse_v sdp p m = Some ((i, sdp', q), m') \<Longrightarrow> goes_on p q"
  unfolding sdp_message_parse_v_def by (auto split: if_splits dest: sdp_line_goes_on)

lemmas safe_lines = safe_one [OF line_defined(2) line_goes_on] safe_one [OF line_defined(3) line_goes_on]
  safe_one [OF line_defined(4) line_goes_on] safe_one [OF line_defined(5) line_goes_on]
  safe_one [OF line_defined(8) line_goes_on] safe_one [OF line_defined(10) line_goes_on]
  safe_one [OF line_defined(12) line_goes_on] safe_one [OF line_defined(13) line_goes_on]
  safe_one [OF line_defined(1) parse_v_goes_on]

lemma safe_media_steps: "safe_step (sdp_seq media_steps)"
  by (rule safe_seq) (auto simp: media_steps_def intro: safe_many safe_lines)

lemma safe_times: "safe_step sdp_times"
proof -
  have "safe_place p \<Longrightarrow> sdp_times sdp p m \<noteq> None
      \<and> (\<forall>sdp' q m'. sdp_times sdp p m = Some (Inr (sdp', q), m') \<longrightarrow> safe_place q)" for sdp p m
  proof (induction sdp p m rule: sdp_times.induct)
    case (1 sdp p m)
    obtain x n where x: "sdp_many True Repeat sdp p m = Some (x, n)" using sdp_many_defined [OF "1.prems"] by fastforce
    show ?case
    proof (cases x)
      case (Inr y)
      obtain s q where y: "y = (s, q)" by (cases y)
      have q: "safe_place q" using goes_on_safe [OF sdp_many_goes_on "1.prems"] x Inr y by blast
      obtain i s' r n' where t: "sdp_message_parse_t s q n = Some ((i, s', r), n')" using line_defined(10) [OF q, of s n] by auto
      have r: "safe_place r" by (rule goes_on_safe [OF sdp_message_parse_t_place(1) [OF t] q])
      show ?thesis
      proof (cases "i \<noteq> -1 \<and> i \<noteq> 0 \<and> \<not> at_end r")
        case True
        then have go: "i \<noteq> -1" "\<not> at_end r" "i \<noteq> 0" by simp_all
        have "sdp_times sdp p m = sdp_times s' r n'" using x Inr y t go by (subst sdp_times.simps) simp
        then show ?thesis using "1.IH" [OF _ refl _ refl t refl refl refl go] x Inr y r by auto
      next
        case False
        then show ?thesis using x Inr y t r by (subst (1 2) sdp_times.simps) auto
      qed
    qed (subst (1 2) sdp_times.simps, simp add: x)
  qed
  then show ?thesis by (auto simp: safe_step_def)
qed

lemma safe_media_loop: "safe_step sdp_media_loop"
proof -
  have "safe_place p \<Longrightarrow> sdp_media_loop sdp p m \<noteq> None
      \<and> (\<forall>sdp' q m'. sdp_media_loop sdp p m = Some (Inr (sdp', q), m') \<longrightarrow> safe_place q)" for sdp p m
  proof (induction sdp p m rule: sdp_media_loop.induct)
    case (1 sdp p m)
    obtain i s q n where t: "sdp_message_parse_m sdp p m = Some ((i, s, q), n)" using line_defined(15) [OF "1.prems", of sdp m] by auto
    have q: "safe_place q" using goes_on_safe [OF line_goes_on [of sdp_message_parse_m, OF _ t] "1.prems"] by simp
    have "sdp_seq media_steps s q n \<noteq> None" using safe_media_steps q unfolding safe_step_def by blast
    then obtain x n' where x: "sdp_seq media_steps s q n = Some (x, n')" by (cases "sdp_seq media_steps s q n") auto
    show ?case
    proof (cases "i = -1 \<or> at_end q")
      case True
      then show ?thesis using t by (subst (1 2) sdp_media_loop.simps) auto
    next
      case False
      then have go: "i \<noteq> -1" "\<not> at_end q" by simp_all
      show ?thesis
      proof (cases x)
        case (Inl y)
        then show ?thesis using t x go by (subst (1 2) sdp_media_loop.simps) auto
      next
        case (Inr y)
        obtain s' r where y: "y = (s', r)" by (cases y)
        have r: "safe_place r" using safe_media_steps q x Inr y unfolding safe_step_def by blast
        show ?thesis
        proof (cases "i = 1")
          case True
          have "sdp_media_loop sdp p m = sdp_media_loop s' r n'" using t x go Inr y True by (subst sdp_media_loop.simps) simp
          then show ?thesis using "1.IH" [OF t refl refl refl go _ refl _ refl True] x Inr y r by auto
        next
          case neq: False
          then show ?thesis using t x go Inr y r by (subst (1 2) sdp_media_loop.simps) auto
        qed
      qed
    qed
  qed
  then show ?thesis by (auto simp: safe_step_def)
qed

theorem sdp_message_parse_defined:
  assumes "text_closed buf"
  shows "sdp_message_parse sdp buf m \<noteq> None"
proof (cases "cur buf = CHR ''=''")
  case True
  then show ?thesis by (simp add: sdp_message_parse_def sdp_steps_def sdp_one_def sdp_message_parse_v_def)
next
  case False
  have "safe_step (sdp_seq sdp_steps)"
    by (rule safe_seq) (auto simp: sdp_steps_def intro: safe_many safe_lines safe_times safe_media_loop)
  moreover have "safe_place (None, buf)" using assms False by (simp add: safe_place_def)
  ultimately have "sdp_seq sdp_steps sdp (None, buf) m \<noteq> None" by (simp add: safe_step_def)
  then show ?thesis by (auto simp: sdp_message_parse_def split: option.split sum.split)
qed

end
