(* ===== verification/Sdp_Samples.thy ===== *)
theory Sdp_Samples
  imports Sdp_Roundtrip Sdp_Safe
begin

text \<open>
  Session descriptions that the code reads, and the texts at which it leaves its contract: a read
  behind the NUL, a line that is dropped when memory runs out, and a copy that is another description.
\<close>

section \<open>A description with every kind of line\<close>

definition sample_audio :: sdp_media where
  "sample_audio = \<lparr>m_media = Some ''audio'', m_port = Some ''3456'', m_number_of_port = Some ''2'', m_proto = Some ''RTP/AVP'',
     m_payloads = [''0'', ''8''], m_i_info = Some ''voice'',
     m_c_connections = [\<lparr>c_nettype = Some ''IN'', c_addrtype = Some ''IP4'', c_addr = Some ''224.2.1.1'',
       c_addr_multicast_ttl = Some ''127'', c_addr_multicast_int = Some ''3''\<rparr>],
     m_b_bandwidths = [\<lparr>b_bwtype = Some ''AS'', b_bandwidth = Some ''64''\<rparr>],
     m_a_attributes = [\<lparr>a_att_field = Some ''rtpmap'', a_att_value = Some ''0 PCMU/8000''\<rparr>, \<lparr>a_att_field = Some ''sendrecv'', a_att_value = None\<rparr>],
     m_k_key = Some \<lparr>k_keytype = Some ''prompt'', k_keydata = None\<rparr>\<rparr>"

definition sample_sdp :: sdp_message where
  "sample_sdp = \<lparr>v_version = Some ''0'', o_username = Some ''user1'', o_sess_id = Some ''53655765'', o_sess_version = Some ''2353687637'',
     o_nettype = Some ''IN'', o_addrtype = Some ''IP4'', o_addr = Some ''128.3.4.5'', s_name = Some ''Mbone Audio'',
     i_info = Some ''Discussion'', u_uri = None, e_emails = [''mbone@somewhere.com''], p_phones = [],
     c_connection = Some \<lparr>c_nettype = Some ''IN'', c_addrtype = Some ''IP4'', c_addr = Some ''224.2.0.1'',
       c_addr_multicast_ttl = Some ''127'', c_addr_multicast_int = None\<rparr>,
     b_bandwidths = [], t_descrs = [\<lparr>t_start_time = Some ''0'', t_stop_time = Some ''0'', r_repeats = [''7d 1h 0 25h'']\<rparr>,
       \<lparr>t_start_time = Some ''1'', t_stop_time = Some ''2'', r_repeats = []\<rparr>],
     z_adjustments = None, k_key = Some \<lparr>k_keytype = Some ''clear'', k_keydata = Some ''secret''\<rparr>,
     a_attributes = [\<lparr>a_att_field = Some ''recvonly'', a_att_value = None\<rparr>],
     m_medias = [sample_audio, sdp_media_init\<lparr>m_media := Some ''video'', m_port := Some ''0'', m_proto := Some ''udp''\<rparr>]\<rparr>"

lemma sample_sdp_wf: "sdp_wf sample_sdp"
  by (simp add: sdp_wf_def sample_sdp_def sample_audio_def origin_wf_def connection_wf_def bandwidth_wf_def time_wf_def key_wf_def
      attribute_wf_def media_wf_def media_line_wf_def word_of_def line_value_def sdp_media_init_def)

section \<open>Texts\<close>

definition sdp_head :: string where
  "sdp_head = ''v=0'' @ CRLF @ ''o=a 1 1 IN IP4 h'' @ CRLF @ ''t=0 0'' @ CRLF"

text \<open>
  A medium without a payload whose line is ended by the last character of the text: the search for
  the next blank starts behind the NUL.
\<close>

lemma payload_search_behind_the_text: "sdp_message_parse sdp_message_init (sdp_head @ ''m=audio 0 RTP/AVP'' @ [LF]) [] = None"
  by code_simp

text \<open>No memory for the value of a \<^verbatim>\<open>z=\<close> line: the parser reports success and has dropped the rest of the text.\<close>

lemma rest_dropped_without_memory:
  "map_option (\<lambda>((i, s), m). (i, length (m_medias s)))
    (sdp_message_parse sdp_message_init (sdp_head @ ''z=0 1'' @ CRLF @ ''m=audio 0 RTP/AVP 0'' @ CRLF) (replicate 11 True @ [False])) = Some (0, 0)"
  by code_simp

lemma rest_read_with_memory:
  "map_option (\<lambda>((i, s), m). (i, length (m_medias s)))
    (sdp_message_parse sdp_message_init (sdp_head @ ''z=0 1'' @ CRLF @ ''m=audio 0 RTP/AVP 0'' @ CRLF) []) = Some (0, 1)"
  by code_simp

text \<open>A line of an unknown kind ends the parser, which reports success, too.\<close>

lemma unknown_line_ends_the_text:
  "map_option (\<lambda>((i, s), m). (i, length (m_medias s)))
    (sdp_message_parse sdp_message_init (sdp_head @ ''x=1'' @ CRLF @ ''m=audio 0 RTP/AVP 0'' @ CRLF) []) = Some (0, 0)"
  by code_simp

text \<open>Two connections that are different and printed alike: a copy has the interval as its time to live.\<close>

lemma interval_printed_as_time_to_live:
  "sdp_append_connection \<lparr>c_nettype = n, c_addrtype = t, c_addr = a, c_addr_multicast_ttl = None, c_addr_multicast_int = Some x\<rparr>
    = sdp_append_connection \<lparr>c_nettype = n, c_addrtype = t, c_addr = a, c_addr_multicast_ttl = Some x, c_addr_multicast_int = None\<rparr>"
  by (cases n; cases t; cases a) (simp_all add: sdp_append_connection_def)

end
