(* ===== verification/Sdp_Accessor.thy ===== *)
theory Sdp_Accessor
  imports Sdp_Parse
begin

text \<open>
  The functions of \<^verbatim>\<open>sdp_accessor.c\<close> by which a program reads and builds a session description. A
  position of \<open>-1\<close> stands for the whole description, any other for a medium. The strings that a
  setter replaces are not freed by the code, and belong to the caller here, too.
\<close>

section \<open>Parts of a description\<close>

type_synonym sdp_change = "int \<times> sdp_message option"

definition media_at :: "sdp_message option \<Rightarrow> int \<Rightarrow> sdp_media option" where
  "media_at sdp pos = do { s \<leftarrow> sdp; l_get (m_medias s) pos }"

definition put_media :: "sdp_message \<Rightarrow> int \<Rightarrow> sdp_media \<Rightarrow> sdp_message" where
  "put_media s pos med = s\<lparr>m_medias := (m_medias s)[nat pos := med]\<rparr>"

text \<open>A field is replaced in a description that is there.\<close>

definition sdp_set :: "sdp_message option \<Rightarrow> int \<Rightarrow> (sdp_message \<Rightarrow> sdp_message) \<Rightarrow> sdp_change" where
  "sdp_set sdp refused upd = (case sdp of None \<Rightarrow> (refused, None) | Some s \<Rightarrow> (OSIP_SUCCESS, Some (upd s)))"

section \<open>Fields of the whole description\<close>

definition sdp_message_v_version_set :: "sdp_message option \<Rightarrow> cstr \<Rightarrow> sdp_change" where
  "sdp_message_v_version_set sdp v = sdp_set sdp OSIP_BADPARAMETER (\<lambda>s. s\<lparr>v_version := v\<rparr>)"

definition sdp_message_v_version_get :: "sdp_message option \<Rightarrow> cstr" where
  "sdp_message_v_version_get sdp = do { s \<leftarrow> sdp; v_version s }"

definition sdp_message_o_origin_set ::
  "sdp_message option \<Rightarrow> cstr \<Rightarrow> cstr \<Rightarrow> cstr \<Rightarrow> cstr \<Rightarrow> cstr \<Rightarrow> cstr \<Rightarrow> sdp_change" where
  "sdp_message_o_origin_set sdp username sess_id sess_version nettype addrtype addr = sdp_set sdp OSIP_BADPARAMETER
    (\<lambda>s. s\<lparr>o_username := username, o_sess_id := sess_id, o_sess_version := sess_version, o_nettype := nettype,
       o_addrtype := addrtype, o_addr := addr\<rparr>)"

definition sdp_message_o_username_get :: "sdp_message option \<Rightarrow> cstr" where
  "sdp_message_o_username_get sdp = do { s \<leftarrow> sdp; o_username s }"

definition sdp_message_o_sess_id_get :: "sdp_message option \<Rightarrow> cstr" where
  "sdp_message_o_sess_id_get sdp = do { s \<leftarrow> sdp; o_sess_id s }"

definition sdp_message_o_sess_version_get :: "sdp_message option \<Rightarrow> cstr" where
  "sdp_message_o_sess_version_get sdp = do { s \<leftarrow> sdp; o_sess_version s }"

definition sdp_message_o_nettype_get :: "sdp_message option \<Rightarrow> cstr" where
  "sdp_message_o_nettype_get sdp = do { s \<leftarrow> sdp; o_nettype s }"

definition sdp_message_o_addrtype_get :: "sdp_message option \<Rightarrow> cstr" where
  "sdp_message_o_addrtype_get sdp = do { s \<leftarrow> sdp; o_addrtype s }"

definition sdp_message_o_addr_get :: "sdp_message option \<Rightarrow> cstr" where
  "sdp_message_o_addr_get sdp = do { s \<leftarrow> sdp; o_addr s }"

definition sdp_message_s_name_set :: "sdp_message option \<Rightarrow> cstr \<Rightarrow> sdp_change" where
  "sdp_message_s_name_set sdp v = sdp_set sdp (-1) (\<lambda>s. s\<lparr>s_name := v\<rparr>)"

definition sdp_message_s_name_get :: "sdp_message option \<Rightarrow> cstr" where
  "sdp_message_s_name_get sdp = do { s \<leftarrow> sdp; s_name s }"

definition sdp_message_u_uri_set :: "sdp_message option \<Rightarrow> cstr \<Rightarrow> sdp_change" where
  "sdp_message_u_uri_set sdp v = sdp_set sdp OSIP_BADPARAMETER (\<lambda>s. s\<lparr>u_uri := v\<rparr>)"

definition sdp_message_u_uri_get :: "sdp_message option \<Rightarrow> cstr" where
  "sdp_message_u_uri_get sdp = do { s \<leftarrow> sdp; u_uri s }"

definition sdp_message_z_adjustments_set :: "sdp_message option \<Rightarrow> cstr \<Rightarrow> sdp_change" where
  "sdp_message_z_adjustments_set sdp v = sdp_set sdp OSIP_BADPARAMETER (\<lambda>s. s\<lparr>z_adjustments := v\<rparr>)"

definition sdp_message_z_adjustments_get :: "sdp_message option \<Rightarrow> cstr" where
  "sdp_message_z_adjustments_get sdp = do { s \<leftarrow> sdp; z_adjustments s }"

definition sdp_message_i_info_set :: "sdp_message option \<Rightarrow> int \<Rightarrow> cstr \<Rightarrow> sdp_change" where
  "sdp_message_i_info_set sdp pos_media info =
    (case sdp of
       None \<Rightarrow> (OSIP_BADPARAMETER, None)
     | Some s \<Rightarrow>
         if pos_media = -1 then (OSIP_SUCCESS, Some (s\<lparr>i_info := info\<rparr>))
         else (case media_at sdp pos_media of
             None \<Rightarrow> (OSIP_UNDEFINED_ERROR, sdp)
           | Some med \<Rightarrow> (OSIP_SUCCESS, Some (put_media s pos_media (med\<lparr>m_i_info := info\<rparr>)))))"

definition sdp_message_i_info_get :: "sdp_message option \<Rightarrow> int \<Rightarrow> cstr" where
  "sdp_message_i_info_get sdp pos_media = do {
     s \<leftarrow> sdp;
     if pos_media = -1 then i_info s else do { med \<leftarrow> media_at sdp pos_media; m_i_info med }
   }"

section \<open>Lists of strings\<close>

definition sdp_message_e_email_add :: "sdp_message option \<Rightarrow> string \<Rightarrow> mem \<Rightarrow> sdp_change \<times> mem" where
  "sdp_message_e_email_add sdp v m =
    (case sdp of
       None \<Rightarrow> ((OSIP_BADPARAMETER, None), m)
     | Some s \<Rightarrow> (case list_add (e_emails s) v (-1) m of (vs, m) \<Rightarrow> ((OSIP_SUCCESS, Some (s\<lparr>e_emails := vs\<rparr>)), m)))"

definition sdp_message_e_email_get :: "sdp_message option \<Rightarrow> int \<Rightarrow> cstr" where
  "sdp_message_e_email_get sdp pos = do {
     s \<leftarrow> sdp;
     if int (length (e_emails s)) > pos then l_get (e_emails s) pos else None
   }"

definition sdp_message_p_phone_add :: "sdp_message option \<Rightarrow> string \<Rightarrow> mem \<Rightarrow> sdp_change \<times> mem" where
  "sdp_message_p_phone_add sdp v m =
    (case sdp of
       None \<Rightarrow> ((OSIP_BADPARAMETER, None), m)
     | Some s \<Rightarrow> (case list_add (p_phones s) v (-1) m of (vs, m) \<Rightarrow> ((OSIP_SUCCESS, Some (s\<lparr>p_phones := vs\<rparr>)), m)))"

definition sdp_message_p_phone_get :: "sdp_message option \<Rightarrow> int \<Rightarrow> cstr" where
  "sdp_message_p_phone_get sdp pos = do {
     s \<leftarrow> sdp;
     if int (length (p_phones s)) > pos then l_get (p_phones s) pos else None
   }"

section \<open>New elements, in the description or in a medium\<close>

text \<open>
  What the functions that add a connection, a bandwidth, a key or an attribute have in common. The
  test of the position lets a negative one pass; the code then writes through a NULL.
\<close>

definition sdp_add_in ::
  "sdp_message option \<Rightarrow> int \<Rightarrow> int \<Rightarrow> (sdp_message \<Rightarrow> mem \<Rightarrow> sdp_message \<times> mem) \<Rightarrow> (sdp_media \<Rightarrow> mem \<Rightarrow> sdp_media \<times> mem)
    \<Rightarrow> mem \<Rightarrow> (sdp_change \<times> mem) option" where
  "sdp_add_in sdp pos_media refused in_sdp in_media m =
    (case sdp of
       None \<Rightarrow> Some ((OSIP_BADPARAMETER, None), m)
     | Some s \<Rightarrow>
         if pos_media \<noteq> -1 \<and> int (length (m_medias s)) < pos_media + 1 then Some ((refused, sdp), m)
         else alloc_or m (OSIP_NOMEM, sdp) (\<lambda>m.
           if pos_media = -1 then (case in_sdp s m of (s, m) \<Rightarrow> Some ((OSIP_SUCCESS, Some s), m))
           else do {
             med \<leftarrow> media_at sdp pos_media;
             let (med, m) = in_media med m;
             Some ((OSIP_SUCCESS, Some (put_media s pos_media med)), m)
           }))"

definition sdp_message_c_connection_add ::
  "sdp_message option \<Rightarrow> int \<Rightarrow> cstr \<Rightarrow> cstr \<Rightarrow> cstr \<Rightarrow> cstr \<Rightarrow> cstr \<Rightarrow> mem \<Rightarrow> (sdp_change \<times> mem) option" where
  "sdp_message_c_connection_add sdp pos_media nettype addrtype addr ttl num =
    (let conn = \<lparr>c_nettype = nettype, c_addrtype = addrtype, c_addr = addr, c_addr_multicast_ttl = ttl, c_addr_multicast_int = num\<rparr>
     in sdp_add_in sdp pos_media (-1) (\<lambda>s m. (s\<lparr>c_connection := Some conn\<rparr>, m))
       (\<lambda>med m. (case list_add (m_c_connections med) conn (-1) m of (cs, m) \<Rightarrow> (med\<lparr>m_c_connections := cs\<rparr>, m))))"

definition sdp_message_b_bandwidth_add ::
  "sdp_message option \<Rightarrow> int \<Rightarrow> cstr \<Rightarrow> cstr \<Rightarrow> mem \<Rightarrow> (sdp_change \<times> mem) option" where
  "sdp_message_b_bandwidth_add sdp pos_media bwtype bandwidth =
    (let band = \<lparr>b_bwtype = bwtype, b_bandwidth = bandwidth\<rparr>
     in sdp_add_in sdp pos_media OSIP_UNDEFINED_ERROR
       (\<lambda>s m. (case list_add (b_bandwidths s) band (-1) m of (bs, m) \<Rightarrow> (s\<lparr>b_bandwidths := bs\<rparr>, m)))
       (\<lambda>med m. (case list_add (m_b_bandwidths med) band (-1) m of (bs, m) \<Rightarrow> (med\<lparr>m_b_bandwidths := bs\<rparr>, m))))"

definition sdp_message_k_key_set ::
  "sdp_message option \<Rightarrow> int \<Rightarrow> cstr \<Rightarrow> cstr \<Rightarrow> mem \<Rightarrow> (sdp_change \<times> mem) option" where
  "sdp_message_k_key_set sdp pos_media keytype keydata =
    (let key = \<lparr>k_keytype = keytype, k_keydata = keydata\<rparr>
     in sdp_add_in sdp pos_media OSIP_UNDEFINED_ERROR (\<lambda>s m. (s\<lparr>k_key := Some key\<rparr>, m)) (\<lambda>med m. (med\<lparr>m_k_key := Some key\<rparr>, m)))"

definition sdp_message_a_attribute_add ::
  "sdp_message option \<Rightarrow> int \<Rightarrow> cstr \<Rightarrow> cstr \<Rightarrow> mem \<Rightarrow> (sdp_change \<times> mem) option" where
  "sdp_message_a_attribute_add sdp pos_media att_field att_value =
    (let attr = \<lparr>a_att_field = att_field, a_att_value = att_value\<rparr>
     in sdp_add_in sdp pos_media OSIP_UNDEFINED_ERROR
       (\<lambda>s m. (case list_add (a_attributes s) attr (-1) m of (xs, m) \<Rightarrow> (s\<lparr>a_attributes := xs\<rparr>, m)))
       (\<lambda>med m. (case list_add (m_a_attributes med) attr (-1) m of (xs, m) \<Rightarrow> (med\<lparr>m_a_attributes := xs\<rparr>, m))))"

definition sdp_message_connection_get :: "sdp_message option \<Rightarrow> int \<Rightarrow> int \<Rightarrow> sdp_connection option" where
  "sdp_message_connection_get sdp pos_media pos = do {
     s \<leftarrow> sdp;
     if pos_media = -1 then c_connection s else do { med \<leftarrow> media_at sdp pos_media; l_get (m_c_connections med) pos }
   }"

definition sdp_message_c_nettype_get :: "sdp_message option \<Rightarrow> int \<Rightarrow> int \<Rightarrow> cstr" where
  "sdp_message_c_nettype_get sdp pos_media pos = do { e \<leftarrow> sdp_message_connection_get sdp pos_media pos; c_nettype e }"

definition sdp_message_c_addrtype_get :: "sdp_message option \<Rightarrow> int \<Rightarrow> int \<Rightarrow> cstr" where
  "sdp_message_c_addrtype_get sdp pos_media pos = do { e \<leftarrow> sdp_message_connection_get sdp pos_media pos; c_addrtype e }"

definition sdp_message_c_addr_get :: "sdp_message option \<Rightarrow> int \<Rightarrow> int \<Rightarrow> cstr" where
  "sdp_message_c_addr_get sdp pos_media pos = do { e \<leftarrow> sdp_message_connection_get sdp pos_media pos; c_addr e }"

definition sdp_message_c_addr_multicast_ttl_get :: "sdp_message option \<Rightarrow> int \<Rightarrow> int \<Rightarrow> cstr" where
  "sdp_message_c_addr_multicast_ttl_get sdp pos_media pos = do { e \<leftarrow> sdp_message_connection_get sdp pos_media pos; c_addr_multicast_ttl e }"

definition sdp_message_c_addr_multicast_int_get :: "sdp_message option \<Rightarrow> int \<Rightarrow> int \<Rightarrow> cstr" where
  "sdp_message_c_addr_multicast_int_get sdp pos_media pos = do { e \<leftarrow> sdp_message_connection_get sdp pos_media pos; c_addr_multicast_int e }"

definition sdp_message_bandwidth_get :: "sdp_message option \<Rightarrow> int \<Rightarrow> int \<Rightarrow> sdp_bandwidth option" where
  "sdp_message_bandwidth_get sdp pos_media pos = do {
     s \<leftarrow> sdp;
     if pos_media = -1 then l_get (b_bandwidths s) pos else do { med \<leftarrow> media_at sdp pos_media; l_get (m_b_bandwidths med) pos }
   }"

definition sdp_message_b_bwtype_get :: "sdp_message option \<Rightarrow> int \<Rightarrow> int \<Rightarrow> cstr" where
  "sdp_message_b_bwtype_get sdp pos_media pos = do { e \<leftarrow> sdp_message_bandwidth_get sdp pos_media pos; b_bwtype e }"

definition sdp_message_b_bandwidth_get :: "sdp_message option \<Rightarrow> int \<Rightarrow> int \<Rightarrow> cstr" where
  "sdp_message_b_bandwidth_get sdp pos_media pos = do { e \<leftarrow> sdp_message_bandwidth_get sdp pos_media pos; b_bandwidth e }"

definition sdp_message_attribute_get :: "sdp_message option \<Rightarrow> int \<Rightarrow> int \<Rightarrow> sdp_attribute option" where
  "sdp_message_attribute_get sdp pos_media pos = do {
     s \<leftarrow> sdp;
     if pos_media = -1 then l_get (a_attributes s) pos else do { med \<leftarrow> media_at sdp pos_media; l_get (m_a_attributes med) pos }
   }"

definition sdp_message_a_att_field_get :: "sdp_message option \<Rightarrow> int \<Rightarrow> int \<Rightarrow> cstr" where
  "sdp_message_a_att_field_get sdp pos_media pos = do { e \<leftarrow> sdp_message_attribute_get sdp pos_media pos; a_att_field e }"

definition sdp_message_a_att_value_get :: "sdp_message option \<Rightarrow> int \<Rightarrow> int \<Rightarrow> cstr" where
  "sdp_message_a_att_value_get sdp pos_media pos = do { e \<leftarrow> sdp_message_attribute_get sdp pos_media pos; a_att_value e }"

text \<open>The key of a medium, whose position is tested as above.\<close>

definition key_at :: "sdp_message option \<Rightarrow> int \<Rightarrow> (sdp_key \<Rightarrow> cstr) \<Rightarrow> cstr option" where
  "key_at sdp pos_media field =
    (case sdp of
       None \<Rightarrow> Some None
     | Some s \<Rightarrow>
         if pos_media = -1 then Some (do { k \<leftarrow> k_key s; field k })
         else if int (length (m_medias s)) < pos_media + 1 then Some None
         else do { med \<leftarrow> media_at sdp pos_media; Some (do { k \<leftarrow> m_k_key med; field k }) })"

definition sdp_message_k_keytype_get :: "sdp_message option \<Rightarrow> int \<Rightarrow> cstr option" where
  "sdp_message_k_keytype_get sdp pos_media = key_at sdp pos_media k_keytype"

definition sdp_message_k_keydata_get :: "sdp_message option \<Rightarrow> int \<Rightarrow> cstr option" where
  "sdp_message_k_keydata_get sdp pos_media = key_at sdp pos_media k_keydata"

section \<open>Times\<close>

definition sdp_message_t_time_descr_add :: "sdp_message option \<Rightarrow> cstr \<Rightarrow> cstr \<Rightarrow> mem \<Rightarrow> (sdp_change \<times> mem) option" where
  "sdp_message_t_time_descr_add sdp start stop m =
    (case sdp of
       None \<Rightarrow> Some ((OSIP_BADPARAMETER, None), m)
     | Some s \<Rightarrow> alloc_or m (OSIP_NOMEM, sdp) (\<lambda>m.
         (case list_add (t_descrs s) \<lparr>t_start_time = start, t_stop_time = stop, r_repeats = []\<rparr> (-1) m of (ts, m) \<Rightarrow>
            Some ((OSIP_SUCCESS, Some (s\<lparr>t_descrs := ts\<rparr>)), m))))"

definition time_at :: "sdp_message option \<Rightarrow> int \<Rightarrow> sdp_time_descr option" where
  "time_at sdp pos = do { s \<leftarrow> sdp; l_get (t_descrs s) pos }"

definition sdp_message_t_start_time_get :: "sdp_message option \<Rightarrow> int \<Rightarrow> cstr" where
  "sdp_message_t_start_time_get sdp pos_td = do { td \<leftarrow> time_at sdp pos_td; t_start_time td }"

definition sdp_message_t_stop_time_get :: "sdp_message option \<Rightarrow> int \<Rightarrow> cstr" where
  "sdp_message_t_stop_time_get sdp pos_td = do { td \<leftarrow> time_at sdp pos_td; t_stop_time td }"

definition sdp_message_r_repeat_add :: "sdp_message option \<Rightarrow> int \<Rightarrow> string \<Rightarrow> mem \<Rightarrow> sdp_change \<times> mem" where
  "sdp_message_r_repeat_add sdp pos_time_descr field m =
    (case sdp of
       None \<Rightarrow> ((OSIP_BADPARAMETER, None), m)
     | Some s \<Rightarrow>
         (case time_at sdp pos_time_descr of
            None \<Rightarrow> ((OSIP_UNDEFINED_ERROR, sdp), m)
          | Some td \<Rightarrow> (case list_add (r_repeats td) field (-1) m of (rs, m) \<Rightarrow>
              ((OSIP_SUCCESS, Some (s\<lparr>t_descrs := (t_descrs s)[nat pos_time_descr := td\<lparr>r_repeats := rs\<rparr>]\<rparr>)), m))))"

definition sdp_message_r_repeat_get :: "sdp_message option \<Rightarrow> int \<Rightarrow> int \<Rightarrow> cstr" where
  "sdp_message_r_repeat_get sdp pos_time_descr pos_repeat = do { td \<leftarrow> time_at sdp pos_time_descr; l_get (r_repeats td) pos_repeat }"

section \<open>Media\<close>

definition sdp_message_endof_media :: "sdp_message option \<Rightarrow> int \<Rightarrow> int" where
  "sdp_message_endof_media sdp i =
    (case sdp of
       None \<Rightarrow> OSIP_BADPARAMETER
     | Some s \<Rightarrow> if i = -1 then OSIP_SUCCESS else if \<not> l_eol (m_medias s) i then OSIP_SUCCESS else OSIP_UNDEFINED_ERROR)"

text \<open>The functions on media do not test the description.\<close>

definition sdp_message_m_media_add ::
  "sdp_message \<Rightarrow> cstr \<Rightarrow> cstr \<Rightarrow> cstr \<Rightarrow> cstr \<Rightarrow> mem \<Rightarrow> ((int \<times> sdp_message) \<times> mem) option" where
  "sdp_message_m_media_add s media port number_of_port proto m = alloc_or m (OSIP_NOMEM, s) (\<lambda>m.
     (case list_add (m_medias s) (sdp_media_init\<lparr>m_media := media, m_port := port, m_number_of_port := number_of_port, m_proto := proto\<rparr>) (-1) m of
        (ms, m) \<Rightarrow> Some ((OSIP_SUCCESS, s\<lparr>m_medias := ms\<rparr>), m)))"

definition sdp_message_m_media_get :: "sdp_message \<Rightarrow> int \<Rightarrow> cstr" where
  "sdp_message_m_media_get s pos_media = do { med \<leftarrow> l_get (m_medias s) pos_media; m_media med }"

definition sdp_message_m_port_get :: "sdp_message \<Rightarrow> int \<Rightarrow> cstr" where
  "sdp_message_m_port_get s pos_media = do { med \<leftarrow> l_get (m_medias s) pos_media; m_port med }"

definition sdp_message_m_number_of_port_get :: "sdp_message \<Rightarrow> int \<Rightarrow> cstr" where
  "sdp_message_m_number_of_port_get s pos_media = do { med \<leftarrow> l_get (m_medias s) pos_media; m_number_of_port med }"

definition sdp_message_m_proto_get :: "sdp_message \<Rightarrow> int \<Rightarrow> cstr" where
  "sdp_message_m_proto_get s pos_media = do { med \<leftarrow> l_get (m_medias s) pos_media; m_proto med }"

definition sdp_message_m_port_set :: "sdp_message \<Rightarrow> int \<Rightarrow> cstr \<Rightarrow> int \<times> sdp_message" where
  "sdp_message_m_port_set s pos_media port =
    (case l_get (m_medias s) pos_media of
       None \<Rightarrow> (OSIP_BADPARAMETER, s)
     | Some med \<Rightarrow> (OSIP_SUCCESS, put_media s pos_media (med\<lparr>m_port := port\<rparr>)))"

definition sdp_message_m_payload_add :: "sdp_message \<Rightarrow> int \<Rightarrow> string \<Rightarrow> mem \<Rightarrow> (int \<times> sdp_message) \<times> mem" where
  "sdp_message_m_payload_add s pos_media payload m =
    (case l_get (m_medias s) pos_media of
       None \<Rightarrow> ((OSIP_BADPARAMETER, s), m)
     | Some med \<Rightarrow> (case list_add (m_payloads med) payload (-1) m of (ps, m) \<Rightarrow>
         ((OSIP_SUCCESS, put_media s pos_media (med\<lparr>m_payloads := ps\<rparr>)), m)))"

definition sdp_message_m_payload_get :: "sdp_message \<Rightarrow> int \<Rightarrow> int \<Rightarrow> cstr" where
  "sdp_message_m_payload_get s pos_media pos = do { med \<leftarrow> l_get (m_medias s) pos_media; l_get (m_payloads med) pos }"

definition sdp_message_m_payload_del :: "sdp_message \<Rightarrow> int \<Rightarrow> int \<Rightarrow> int \<times> sdp_message" where
  "sdp_message_m_payload_del s pos_media pos =
    (case l_get (m_medias s) pos_media of
       None \<Rightarrow> (OSIP_BADPARAMETER, s)
     | Some med \<Rightarrow>
         if l_get (m_payloads med) pos = None then (OSIP_UNDEFINED_ERROR, s)
         else (OSIP_SUCCESS, put_media s pos_media (med\<lparr>m_payloads := l_remove (m_payloads med) pos\<rparr>)))"

section \<open>Deleting attributes\<close>

text \<open>The loop that removes the attributes of a name; undefined when a name is NULL.\<close>

function sdp_del_named :: "cstr \<Rightarrow> nat \<Rightarrow> sdp_attribute list \<Rightarrow> sdp_attribute list option" where
  "sdp_del_named name i xs =
    (if i < length xs
     then (case (a_att_field (xs ! i), name) of
         (Some f, Some n) \<Rightarrow> if f = n then sdp_del_named name i (l_remove xs (int i)) else sdp_del_named name (Suc i) xs
       | _ \<Rightarrow> None)
     else Some xs)"
  by pat_completeness auto
termination
  by (relation "measure (\<lambda>(name, i, xs). length xs - i)") (auto simp: l_remove_def)

declare sdp_del_named.simps [simp del]

definition sdp_message_a_attribute_del :: "sdp_message option \<Rightarrow> int \<Rightarrow> cstr \<Rightarrow> sdp_change option" where
  "sdp_message_a_attribute_del sdp pos_media att_field =
    (case sdp of
       None \<Rightarrow> Some (OSIP_BADPARAMETER, None)
     | Some s \<Rightarrow>
         if pos_media \<noteq> -1 \<and> int (length (m_medias s)) < pos_media + 1 then Some (OSIP_UNDEFINED_ERROR, sdp)
         else if pos_media = -1
         then do { xs \<leftarrow> sdp_del_named att_field 0 (a_attributes s); Some (OSIP_SUCCESS, Some (s\<lparr>a_attributes := xs\<rparr>)) }
         else (case media_at sdp pos_media of
             None \<Rightarrow> Some (OSIP_UNDEFINED_ERROR, sdp)
           | Some med \<Rightarrow> do {
               xs \<leftarrow> sdp_del_named att_field 0 (m_a_attributes med);
               Some (OSIP_SUCCESS, Some (put_media s pos_media (med\<lparr>m_a_attributes := xs\<rparr>)))
             }))"

text \<open>
  The same with the index of one attribute. In a medium the code looks for the index inside the
  loop, which then does not go on to the next attribute. No result: undefined, or the loop does not end.
\<close>

partial_function (option) sdp_del_in_media :: "cstr \<Rightarrow> int \<Rightarrow> nat \<Rightarrow> sdp_attribute list \<Rightarrow> sdp_attribute list option" where
  "sdp_del_in_media name pos_attr i xs =
    (if i < length xs
     then if pos_attr = -1
       then (case (a_att_field (xs ! i), name) of
           (Some f, Some n) \<Rightarrow> if f = n then sdp_del_in_media name pos_attr i (l_remove xs (int i)) else sdp_del_in_media name pos_attr (Suc i) xs
         | _ \<Rightarrow> None)
       else (case l_get xs pos_attr of
           Some attr \<Rightarrow> sdp_del_in_media name pos_attr i (l_remove xs pos_attr)
         | None \<Rightarrow> sdp_del_in_media name pos_attr i xs)
     else Some xs)"

definition sdp_message_a_attribute_del_at_index ::
  "sdp_message option \<Rightarrow> int \<Rightarrow> cstr \<Rightarrow> int \<Rightarrow> sdp_change option" where
  "sdp_message_a_attribute_del_at_index sdp pos_media att_field pos_attr =
    (case sdp of
       None \<Rightarrow> Some (OSIP_BADPARAMETER, None)
     | Some s \<Rightarrow>
         if pos_media \<noteq> -1 \<and> int (length (m_medias s)) < pos_media + 1 then Some (OSIP_UNDEFINED_ERROR, sdp)
         else if pos_media = -1
         then do {
           xs \<leftarrow> (if pos_attr = -1 then sdp_del_named att_field 0 (a_attributes s) else Some (l_remove (a_attributes s) pos_attr));
           Some (OSIP_SUCCESS, Some (s\<lparr>a_attributes := xs\<rparr>))
         }
         else (case media_at sdp pos_media of
             None \<Rightarrow> Some (OSIP_UNDEFINED_ERROR, sdp)
           | Some med \<Rightarrow> do {
               xs \<leftarrow> sdp_del_in_media att_field pos_attr 0 (m_a_attributes med);
               Some (OSIP_SUCCESS, Some (put_media s pos_media (med\<lparr>m_a_attributes := xs\<rparr>)))
             }))"

section \<open>What the loops do\<close>

lemma sdp_del_named_from:
  assumes "\<forall>a \<in> set xs. a_att_field a \<noteq> None" "i \<le> length xs"
  shows "sdp_del_named (Some n) i xs = Some (take i xs @ filter (\<lambda>a. a_att_field a \<noteq> Some n) (drop i xs))"
  using assms
proof (induction "Some n" i xs rule: sdp_del_named.induct)
  case (1 i xs)
  show ?case
  proof (cases "i < length xs")
    case True
    then obtain f where f: "a_att_field (xs ! i) = Some f" using 1(3) by fastforce
    have split: "drop i xs = xs ! i # drop (Suc i) xs" using True by (simp add: Cons_nth_drop_Suc)
    show ?thesis
    proof (cases "f = n")
      case eq: True
      have ok: "\<forall>a \<in> set (l_remove xs (int i)). a_att_field a \<noteq> None" "i \<le> length (l_remove xs (int i))"
        using 1(3) True by (auto simp: l_remove_def dest: in_set_takeD in_set_dropD)
      have "sdp_del_named (Some n) i xs = sdp_del_named (Some n) i (l_remove xs (int i))"
        using True f eq by (subst sdp_del_named.simps) simp
      also have "\<dots> = Some (take i (l_remove xs (int i)) @ filter (\<lambda>a. a_att_field a \<noteq> Some n) (drop i (l_remove xs (int i))))"
        using 1(1) True f eq ok by simp
      finally show ?thesis using True f eq split by (simp add: l_remove_def)
    next
      case False
      have "sdp_del_named (Some n) i xs = sdp_del_named (Some n) (Suc i) xs"
        using True f False by (subst sdp_del_named.simps) simp
      also have "\<dots> = Some (take (Suc i) xs @ filter (\<lambda>a. a_att_field a \<noteq> Some n) (drop (Suc i) xs))"
        using 1(2) True f False 1(3) by simp
      finally show ?thesis using True f False split by (simp add: take_Suc_conv_app_nth)
    qed
  qed (use 1(4) in \<open>simp add: sdp_del_named.simps\<close>)
qed

theorem sdp_del_named_filters:
  "\<forall>a \<in> set xs. a_att_field a \<noteq> None \<Longrightarrow> sdp_del_named (Some n) 0 xs = Some (filter (\<lambda>a. a_att_field a \<noteq> Some n) xs)"
  using sdp_del_named_from [of xs 0 n] by simp

text \<open>With the index of the first attribute all are removed, with any other the loop does not end.\<close>

theorem index_zero_removes_all: "sdp_del_in_media name 0 0 xs = Some []"
proof (induction xs)
  case (Cons x xs)
  then show ?case by (subst sdp_del_in_media.simps) simp
qed (simp add: sdp_del_in_media.simps)

lemma l_get_remove: "l_get xs pos = Some a \<Longrightarrow> pos \<noteq> 0 \<Longrightarrow> l_remove xs pos \<noteq> []"
  by (cases xs) (auto simp: l_get_def l_remove_def split: if_splits)

lemma sdp_del_in_media_returns:
  "sdp_del_in_media name pos i xs = Some ys \<Longrightarrow> i = 0 \<longrightarrow> pos \<noteq> -1 \<longrightarrow> pos \<noteq> 0 \<longrightarrow> xs = []"
proof (erule sdp_del_in_media.raw_induct [rotated])
  fix f name pos i xs ys
  assume IH: "\<And>name pos i xs ys. f name pos i xs = Some ys \<Longrightarrow> i = 0 \<longrightarrow> pos \<noteq> -1 \<longrightarrow> pos \<noteq> 0 \<longrightarrow> xs = []"
    and body: "(if i < length xs
     then if pos = -1
       then (case (a_att_field (xs ! i), name) of
           (Some g, Some n) \<Rightarrow> if g = n then f name pos i (l_remove xs (int i)) else f name pos (Suc i) xs
         | _ \<Rightarrow> None)
       else (case l_get xs pos of
           Some attr \<Rightarrow> f name pos i (l_remove xs pos)
         | None \<Rightarrow> f name pos i xs)
     else Some xs) = Some ys"
  show "i = 0 \<longrightarrow> pos \<noteq> -1 \<longrightarrow> pos \<noteq> 0 \<longrightarrow> xs = []"
  proof (intro impI, rule ccontr)
    assume a: "i = 0" "pos \<noteq> -1" "pos \<noteq> 0" "xs \<noteq> []"
    show False
    proof (cases "l_get xs pos")
      case None
      then have "f name pos 0 xs = Some ys" using body a by simp
      then show False using IH a by blast
    next
      case (Some b)
      then have "f name pos 0 (l_remove xs pos) = Some ys" using body a by simp
      then have "l_remove xs pos = []" using IH a by blast
      then show False using l_get_remove [OF Some a(3)] by simp
    qed
  qed
qed

theorem index_in_media_never_returns:
  assumes "pos \<noteq> -1" "pos \<noteq> 0" "xs \<noteq> []"
  shows "sdp_del_in_media name pos 0 xs = None"
  using sdp_del_in_media_returns [of name pos 0 xs] assms by (cases "sdp_del_in_media name pos 0 xs") auto

end
