(* ===== verification/Expiry.thy ===== *)
theory Expiry
  imports Stack_Steps
begin

text \<open>
  Progress: a transaction whose time has come ends. Every state but those that wait for the other
  side or for the user has a timer that ends the transaction; when it is due, one round of the timer loop and of
  the event loop brings the transaction to its final state, whatever the other transactions do.
\<close>

section \<open>The timer that ends a transaction\<close>

definition end_timer :: "osip_transaction \<Rightarrow> (type_t \<times> timeval) option" where
  "end_timer t =
    (case ctx_type t of
       ICT \<Rightarrow> do { c \<leftarrow> load (ict_context t);
         if state t = ICT_CALLING then Some (TIMEOUT_B, timer_b_start c)
         else if state t = ICT_COMPLETED then Some (TIMEOUT_D, timer_d_start c) else None }
     | IST \<Rightarrow> do { c \<leftarrow> load (ist_context t);
         if state t = IST_COMPLETED then Some (TIMEOUT_H, timer_h_start c)
         else if state t = IST_CONFIRMED then Some (TIMEOUT_I, timer_i_start c) else None }
     | NICT \<Rightarrow> do { c \<leftarrow> load (nict_context t);
         if state t = NICT_TRYING \<or> state t = NICT_PROCEEDING then Some (TIMEOUT_F, timer_f_start c)
         else if state t = NICT_COMPLETED then Some (TIMEOUT_K, timer_k_start c) else None }
     | NIST \<Rightarrow> do { c \<leftarrow> load (nist_context t);
         if state t = NIST_COMPLETED then Some (TIMEOUT_J, timer_j_start c) else None })"

text \<open>The timer is started, and the clock has passed it from the \<open>n\<close>-th look at the clock on.\<close>

definition overdue :: "osip_config \<Rightarrow> nat \<Rightarrow> timeval \<Rightarrow> bool" where
  "overdue cf n tv \<longleftrightarrow> tv_sec tv \<noteq> -1 \<and> (\<forall>k \<ge> n. osip_timer_gt (clock cf k) tv)"

lemma overdue_later: "overdue cf n tv \<Longrightarrow> n \<le> k \<Longrightarrow> overdue cf k tv"
  by (simp add: overdue_def)

lemma end_timer_ends:
  assumes "end_timer t = Some (ty, tv)"
  shows "rfc3261_diagram (ctx_type t) (state t) ty st \<longleftrightarrow> st = final_state (ctx_type t)"
  using assms
  by (cases "ctx_type t")
    (auto simp: end_timer_def rfc3261_diagram_def final_state_def ict_diagram_simps ist_diagram_simps nict_diagram_simps
      nist_diagram_simps split: if_splits bind_splits)

section \<open>The timer loop\<close>

definition timers_of :: "osip_config \<Rightarrow> osip_transaction \<Rightarrow> (osip \<Rightarrow> (osip_event option \<times> osip) option) list" where
  "timers_of cf t = (case ctx_type t of ICT \<Rightarrow> ict_timers cf t | IST \<Rightarrow> ist_timers cf t | NICT \<Rightarrow> nict_timers cf t | NIST \<Rightarrow> nist_timers cf t)"

lemmas need_timer_defs = osip_ict_need_timer_a_event_def osip_ict_need_timer_b_event_def osip_ict_need_timer_d_event_def
  osip_ist_need_timer_g_event_def osip_ist_need_timer_h_event_def osip_ist_need_timer_i_event_def
  osip_nict_need_timer_e_event_def osip_nict_need_timer_f_event_def osip_nict_need_timer_k_event_def
  osip_nist_need_timer_j_event_def

text \<open>Asking a timer reads the clock.\<close>

lemma need_timer_ticks:
  "osip_transaction_need_timer_x_event cf p f cond tid ty w = Some (e, w') \<Longrightarrow> ticks w' = Suc (ticks w)"
  by (auto simp: osip_transaction_need_timer_x_event_def osip_gettimeofday_def split: if_splits bind_splits prod.splits)

lemma first_event_ticks:
  assumes "\<forall>f \<in> set fs. \<forall>s e s'. f s = Some (e, s') \<longrightarrow> ticks s \<le> ticks s'"
  shows "first_event fs s = Some (e, s') \<Longrightarrow> ticks s \<le> ticks s'"
  using assms
proof (induction fs arbitrary: s)
  case (Cons f fs)
  then obtain e1 s1 where 1: "f s = Some (e1, s1)" "(case e1 of None \<Rightarrow> first_event fs s1 | Some e \<Rightarrow> Some (Some e, s1)) = Some (e, s')"
    by (auto split: bind_splits)
  have "ticks s \<le> ticks s1" using Cons.prems(2) 1(1) by simp
  moreover have "ticks s1 \<le> ticks s'"
  proof (cases e1)
    case None
    then show ?thesis using 1(2) Cons.prems(2) by (intro Cons.IH) simp_all
  qed (use 1(2) in simp)
  ultimately show ?case by simp
qed simp

lemma timers_of_ticks: "\<forall>f \<in> set (timers_of cf t). \<forall>s e s'. f s = Some (e, s') \<longrightarrow> ticks s \<le> ticks s'"
  by (cases "ctx_type t")
    (simp_all add: timers_of_def ict_timers_def ist_timers_def nict_timers_def nist_timers_def need_timer_defs need_timer_ticks)

lemma timers_of_asks: "tr_ok t \<Longrightarrow> \<forall>f \<in> set (timers_of cf t). asks f"
  by (cases "ctx_type t")
    (simp_all add: timers_of_def ict_timers_asks ist_timers_asks nict_timers_asks nist_timers_asks)

text \<open>The first event that is found is that of the timer that ends the transaction.\<close>

definition finds :: "(osip \<Rightarrow> (osip_event option \<times> osip) option) list \<Rightarrow> osip \<Rightarrow> osip_event \<Rightarrow> bool" where
  "finds fs s e \<longleftrightarrow> (\<forall>m n. never_fails m \<longrightarrow> ticks s \<le> n \<longrightarrow>
     (\<exists>m' n'. first_event fs (s\<lparr>mem := m, ticks := n\<rparr>) = Some (Some e, s\<lparr>mem := m', ticks := n'\<rparr>) \<and> never_fails m' \<and> n \<le> n'))"

lemma finds_here:
  assumes "overdue cf (ticks s) (f c)"
  shows "finds (osip_transaction_need_timer_x_event cf (Live c) f True tid ty # fs) s \<lparr>type = ty, ev_transactionid = tid, sip = None\<rparr>"
  unfolding finds_def
proof (intro allI impI)
  fix m n
  assume m: "never_fails m" "ticks s \<le> n"
  then have "tv_sec (f c) \<noteq> -1 \<and> osip_timer_gt (clock cf n) (f c)" using assms by (simp add: overdue_def)
  then obtain m' where "osip_transaction_need_timer_x_event cf (Live c) f True tid ty (s\<lparr>mem := m, ticks := n\<rparr>)
      = Some (Some \<lparr>type = ty, ev_transactionid = tid, sip = None\<rparr>, s\<lparr>mem := m', ticks := n + 1\<rparr>)" "never_fails m'"
    using need_timer_x_ok [of "Live c" c "s\<lparr>mem := m, ticks := n\<rparr>" cf f True tid ty] m(1) by auto
  then show "\<exists>m' n'. first_event (osip_transaction_need_timer_x_event cf (Live c) f True tid ty # fs) (s\<lparr>mem := m, ticks := n\<rparr>)
      = Some (Some \<lparr>type = ty, ev_transactionid = tid, sip = None\<rparr>, s\<lparr>mem := m', ticks := n'\<rparr>) \<and> never_fails m' \<and> n \<le> n'"
    by (intro exI [of _ m'] exI [of _ "n + 1"]) simp
qed

lemma finds_next:
  assumes "finds fs s e"
  shows "finds (osip_transaction_need_timer_x_event cf (Live c) f False tid ty # fs) s e"
  unfolding finds_def
proof (intro allI impI)
  fix m n
  assume m: "never_fails m" "ticks s \<le> n"
  then obtain m1 where 1: "osip_transaction_need_timer_x_event cf (Live c) f False tid ty (s\<lparr>mem := m, ticks := n\<rparr>)
      = Some (None, s\<lparr>mem := m1, ticks := n + 1\<rparr>)" "never_fails m1"
    using need_timer_x_ok [of "Live c" c "s\<lparr>mem := m, ticks := n\<rparr>" cf f False tid ty] by auto
  have "ticks s \<le> n + 1" using m(2) by simp
  then obtain m2 n2 where "first_event fs (s\<lparr>mem := m1, ticks := n + 1\<rparr>) = Some (Some e, s\<lparr>mem := m2, ticks := n2\<rparr>)" "never_fails m2" "n + 1 \<le> n2"
    using assms 1(2) unfolding finds_def by blast
  then show "\<exists>m' n'. first_event (osip_transaction_need_timer_x_event cf (Live c) f False tid ty # fs) (s\<lparr>mem := m, ticks := n\<rparr>)
      = Some (Some e, s\<lparr>mem := m', ticks := n'\<rparr>) \<and> never_fails m' \<and> n \<le> n'"
    using 1(1) by (intro exI [of _ m2] exI [of _ n2]) simp
qed

lemma finds_end_timer:
  assumes "tr_ok t" "end_timer t = Some (ty, tv)" "overdue cf (ticks s) tv"
  shows "finds (timers_of cf t) s \<lparr>type = ty, ev_transactionid = transactionid t, sip = None\<rparr>"
proof (cases "ctx_type t")
  case ICT
  obtain c where "ict_context t = Live c" using tr_ok_context(1) [OF assms(1) ICT] by blast
  then show ?thesis using assms(2,3) ICT
    by (auto simp: end_timer_def timers_of_def ict_timers_def need_timer_defs [abs_def] split: if_splits
        intro!: finds_here finds_next)
next
  case IST
  obtain c where "ist_context t = Live c" using tr_ok_context(2) [OF assms(1) IST] by blast
  then show ?thesis using assms(2,3) IST
    by (auto simp: end_timer_def timers_of_def ist_timers_def need_timer_defs [abs_def] split: if_splits
        intro!: finds_here finds_next)
next
  case NICT
  obtain c where "nict_context t = Live c" using tr_ok_context(3) [OF assms(1) NICT] by blast
  then show ?thesis using assms(2,3) NICT
    by (auto simp: end_timer_def timers_of_def nict_timers_def need_timer_defs [abs_def] split: if_splits
        intro!: finds_here finds_next)
next
  case NIST
  obtain c where "nist_context t = Live c" using tr_ok_context(4) [OF assms(1) NIST] by blast
  then show ?thesis using assms(2,3) NIST
    by (auto simp: end_timer_def timers_of_def nist_timers_def need_timer_defs [abs_def] split: if_splits
        intro!: finds_here)
qed

text \<open>A step of the loop on one transaction leaves the others alone, and looks at the clock.\<close>

definition one_step :: "nat \<Rightarrow> osip \<Rightarrow> osip \<Rightarrow> bool" where
  "one_step a s s' \<longleftrightarrow> keeps s s' \<and> ticks s \<le> ticks s' \<and> (\<forall>b. b \<noteq> a \<longrightarrow> transactions s' b = transactions s b)"

lemma queue_event_one:
  assumes "stack_ok s" "transactions s a = Some t" "timer_event e"
  shows "\<exists>s' ff. queue_event a e s = Some s' \<and> one_step a s s'
    \<and> transactions s' a = Some (t\<lparr>transactionff := Some ff\<rparr>) \<and> queue ff = queue_of t @ [e]"
proof -
  obtain ff where ff: "transactionff t = Some ff" "queue_of t = queue ff"
    using tr_wf_queue [OF stack_ok_tr(1) [OF assms(1,2)]] by blast
  have "queued_ok (msgs s) e" "set_option (sip e) \<inter> (set (holds t) \<union> others s a) = {}"
    using assms(3) by (simp_all add: timer_event_def queued_ok_def)
  from add_event_ok [OF assms(1,2) ff(1) this] obtain ff' m where
    "osip_fifo_add ff e (mem s) = ((OSIP_SUCCESS, ff'), m)" "queue ff' = queue ff @ [e]"
    "keeps s (put_tr a (t\<lparr>transactionff := Some ff'\<rparr>) (s\<lparr>mem := m\<rparr>))" by blast
  then show ?thesis
    using assms(2) ff by (intro exI [of _ "put_tr a (t\<lparr>transactionff := Some ff'\<rparr>) (s\<lparr>mem := m\<rparr>)"] exI [of _ ff'])
      (simp add: queue_event_def put_tr_def one_step_def)
qed

lemma timer_step_one:
  assumes s: "stack_ok s" and t: "transactions s a = Some t"
  shows "\<exists>s'. timer_step (timers_of cf) a s = Some s' \<and> one_step a s s'"
proof -
  have ok: "tr_ok t" by (rule stack_ok_tr_ok [OF s t])
  obtain e s1 where 1: "first_event (timers_of cf t) s = Some (e, s1)" "stack_ok s1"
    "transactions s1 = transactions s" "\<forall>ty. transactions_of ty s1 = transactions_of ty s"
    "\<forall>x. e = Some x \<longrightarrow> timer_event x"
    using first_event_ok [OF timers_of_asks [OF ok, of cf]] s unfolding asks_def by blast
  have ticks: "ticks s \<le> ticks s1" by (rule first_event_ticks [OF timers_of_ticks 1(1)])
  have k: "one_step a s s1" using keeps_same_tr 1(2-4) ticks by (simp add: one_step_def)
  show ?thesis
  proof (cases e)
    case None
    then show ?thesis using 1(1) t k by (simp add: timer_step_def)
  next
    case (Some x)
    then obtain s2 where 2: "queue_event a x s1 = Some s2" "one_step a s1 s2"
      using queue_event_one [OF 1(2), of a t x] 1(3,5) t by auto
    have "one_step a s s2" using k 2(2) keeps_trans by (auto simp: one_step_def)
    then show ?thesis using Some 1(1) t 2(1) by (auto simp: timer_step_def)
  qed
qed

text \<open>On the transaction itself the event of its end is queued.\<close>

lemma timer_step_end:
  assumes s: "stack_ok s" and t: "transactions s a = Some t" and e: "end_timer t = Some (ty, tv)" "overdue cf (ticks s) tv"
  shows "\<exists>s' ff. timer_step (timers_of cf) a s = Some s' \<and> one_step a s s' \<and> transactions s' a = Some (t\<lparr>transactionff := Some ff\<rparr>)
    \<and> queue ff = queue_of t @ [\<lparr>type = ty, ev_transactionid = transactionid t, sip = None\<rparr>]"
proof -
  let ?e = "\<lparr>type = ty, ev_transactionid = transactionid t, sip = None\<rparr>"
  have ok: "tr_ok t" by (rule stack_ok_tr_ok [OF s t])
  have same: "s\<lparr>mem := mem s, ticks := ticks s\<rparr> = s" by simp
  obtain m n where 1: "first_event (timers_of cf t) s = Some (Some ?e, s\<lparr>mem := m, ticks := n\<rparr>)" "never_fails m" "ticks s \<le> n"
    using finds_end_timer [OF ok e] stack_ok_mem [OF s] unfolding finds_def by (metis same order_refl)
  let ?s1 = "s\<lparr>mem := m, ticks := n\<rparr>"
  have s1: "stack_ok ?s1" using stack_ok_mem_upd [OF s 1(2)] stack_ok_ticks by simp
  have "timer_event ?e" using first_event_ok [OF timers_of_asks [OF ok, of cf]] s 1(1) unfolding asks_def by fastforce
  from queue_event_one [OF s1 _ this, of a t] obtain s2 ff where 2: "queue_event a ?e ?s1 = Some s2" "one_step a ?s1 s2"
    "transactions s2 a = Some (t\<lparr>transactionff := Some ff\<rparr>)" "queue ff = queue_of t @ [?e]"
    using t by auto
  have "keeps s ?s1" using s1 by (simp add: keeps_def)
  then have "one_step a s s2" using 2(2) 1(3) keeps_trans by (auto simp: one_step_def)
  then show ?thesis using 1(1) t 2 by (auto simp: timer_step_def)
qed

section \<open>The whole round\<close>

lemma one_step_list:
  assumes "one_step a s s'" "\<forall>b \<in> set l. \<exists>t. transactions s b = Some t \<and> ctx_type t = ty"
  shows "\<forall>b \<in> set l. \<exists>t. transactions s' b = Some t \<and> ctx_type t = ty"
proof
  fix b
  assume "b \<in> set l"
  then obtain u where u: "transactions s b = Some u" "ctx_type u = ty" using assms(2) by auto
  obtain u' where "transactions s' b = Some u'" "same_id u u'"
    using keeps_tr [OF _ u(1), of s'] assms(1) unfolding one_step_def by blast
  then show "\<exists>t. transactions s' b = Some t \<and> ctx_type t = ty" using u(2) by (simp add: same_id_def)
qed

lemma each_tr_others:
  assumes "\<And>b s t. stack_ok s \<Longrightarrow> transactions s b = Some t \<Longrightarrow> ctx_type t = ty \<Longrightarrow> \<exists>s'. f b s = Some s' \<and> one_step b s s'"
    and "stack_ok s" "\<forall>b \<in> set l. \<exists>t. transactions s b = Some t \<and> ctx_type t = ty" "a \<notin> set l"
  shows "\<exists>s'. each_tr f l s = Some s' \<and> keeps s s' \<and> transactions s' a = transactions s a"
  using assms(2-)
proof (induction l arbitrary: s)
  case Nil
  then show ?case by (simp add: keeps_refl)
next
  case (Cons b l)
  then obtain t where t: "transactions s b = Some t" "ctx_type t = ty" by auto
  obtain s1 where 1: "f b s = Some s1" "one_step b s s1" using assms(1) [OF Cons.prems(1) t] by blast
  have ok: "stack_ok s1" using 1(2) by (simp add: one_step_def keeps_def)
  have "\<forall>c \<in> set l. \<exists>t. transactions s1 c = Some t \<and> ctx_type t = ty"
    by (rule one_step_list [OF 1(2)]) (use Cons.prems(2) in simp)
  then obtain s2 where 2: "each_tr f l s1 = Some s2" "keeps s1 s2" "transactions s2 a = transactions s1 a"
    using Cons.IH [OF ok] Cons.prems(3) by auto
  have "keeps s s2" using 1(2) 2(2) keeps_trans by (auto simp: one_step_def)
  then show ?case using 1 2 Cons.prems(3) by (auto simp: one_step_def)
qed

lemma each_tr_end:
  assumes steps: "\<And>b s t. stack_ok s \<Longrightarrow> transactions s b = Some t \<Longrightarrow> ctx_type t = ty \<Longrightarrow> \<exists>s'. f b s = Some s' \<and> one_step b s s'"
    and last: "\<And>s. stack_ok s \<Longrightarrow> transactions s a = Some t \<Longrightarrow> n \<le> ticks s \<Longrightarrow> \<exists>s'. f a s = Some s' \<and> one_step a s s' \<and> Q (transactions s' a)"
    and "stack_ok s" "\<forall>b \<in> set l. \<exists>t. transactions s b = Some t \<and> ctx_type t = ty" "distinct l" "a \<in> set l"
      "transactions s a = Some t" "n \<le> ticks s"
  shows "\<exists>s'. each_tr f l s = Some s' \<and> keeps s s' \<and> Q (transactions s' a)"
  using assms(3-)
proof (induction l arbitrary: s)
  case (Cons b l)
  show ?case
  proof (cases "b = a")
    case True
    obtain s1 where 1: "f a s = Some s1" "one_step a s s1" "Q (transactions s1 a)"
      using last [OF Cons.prems(1,5,6)] by blast
    have ok: "stack_ok s1" using 1(2) by (simp add: one_step_def keeps_def)
    have l: "\<forall>c \<in> set l. \<exists>t. transactions s1 c = Some t \<and> ctx_type t = ty"
      by (rule one_step_list [OF 1(2)]) (use Cons.prems(2) in simp)
    have "\<exists>s2. each_tr f l s1 = Some s2 \<and> keeps s1 s2 \<and> transactions s2 a = transactions s1 a"
    proof (rule each_tr_others [where ty = ty])
      show "\<exists>s'. f b s = Some s' \<and> one_step b s s'" if "stack_ok s" "transactions s b = Some t" "ctx_type t = ty" for b s t
        by (rule steps [OF that])
      show "a \<notin> set l" using Cons.prems(3) True by simp
    qed (rule ok, rule l)
    then obtain s2 where 2: "each_tr f l s1 = Some s2" "keeps s1 s2" "transactions s2 a = transactions s1 a" by blast
    have "keeps s s2" using 1(2) 2(2) keeps_trans by (auto simp: one_step_def)
    then show ?thesis using True 1 2 by simp
  next
    case False
    obtain u where u: "transactions s b = Some u" "ctx_type u = ty" using Cons.prems(2) by auto
    obtain s1 where 1: "f b s = Some s1" "one_step b s s1" using steps [OF Cons.prems(1) u] by blast
    have ok: "stack_ok s1" using 1(2) by (simp add: one_step_def keeps_def)
    have "\<forall>c \<in> set l. \<exists>t. transactions s1 c = Some t \<and> ctx_type t = ty"
      by (rule one_step_list [OF 1(2)]) (use Cons.prems(2) in simp)
    moreover have "transactions s1 a = Some t" "n \<le> ticks s1" using 1(2) False Cons.prems(5,6) by (auto simp: one_step_def)
    ultimately obtain s2 where 2: "each_tr f l s1 = Some s2" "keeps s1 s2" "Q (transactions s2 a)"
      using Cons.IH [OF ok] Cons.prems(3,4) False by auto
    have "keeps s s2" using 1(2) 2(2) keeps_trans by (auto simp: one_step_def)
    then show ?thesis using 1 2 by simp
  qed
qed simp

text \<open>The timer loop of one kind, and its step.\<close>

definition loop_step :: "osip_fsm_type_t \<Rightarrow> osip_config \<Rightarrow> nat \<Rightarrow> osip \<Rightarrow> osip option" where
  "loop_step ty cf a s =
    (if ty = ICT then do { t \<leftarrow> transactions s a; ff \<leftarrow> transactionff t;
        if 1 \<le> osip_fifo_size ff then Some s else timer_step (ict_timers cf) a s }
     else timer_step (case ty of ICT \<Rightarrow> ict_timers cf | IST \<Rightarrow> ist_timers cf | NICT \<Rightarrow> nict_timers cf | NIST \<Rightarrow> nist_timers cf) a s)"

lemma timers_execute_loop: "osip_timers_execute ty cf s = each_tr (loop_step ty cf) (transactions_of ty s) s"
  by (cases ty)
    (simp_all add: osip_timers_execute_def osip_timers_ict_execute_def osip_timers_ist_execute_def osip_timers_nict_execute_def
      osip_timers_nist_execute_def transactions_of_def loop_step_def [abs_def])

lemma timer_step_kind:
  "transactions s a = Some t \<Longrightarrow> ctx_type t = ty \<Longrightarrow>
    timer_step (case ty of ICT \<Rightarrow> ict_timers cf | IST \<Rightarrow> ist_timers cf | NICT \<Rightarrow> nict_timers cf | NIST \<Rightarrow> nist_timers cf) a s
      = timer_step (timers_of cf) a s"
  by (cases ty) (simp_all add: timer_step_def timers_of_def)

lemma loop_step_eq:
  assumes "stack_ok s" "transactions s a = Some t" "ctx_type t = ty"
  shows "loop_step ty cf a s = (if ty = ICT \<and> queue_of t \<noteq> [] then Some s else timer_step (timers_of cf) a s)"
proof -
  obtain ff where ff: "transactionff t = Some ff" "fifo_ok ff" "queue_of t = queue ff"
    using tr_wf_queue [OF stack_ok_tr(1) [OF assms(1,2)]] by blast
  have "1 \<le> osip_fifo_size ff \<longleftrightarrow> queue ff \<noteq> []"
    using ff(2) by (cases "queue ff") (auto simp: fifo_ok_def osip_fifo_size_def)
  then show ?thesis
    using timer_step_kind [OF assms(2,3), of cf] assms ff by (cases ty) (simp_all add: loop_step_def)
qed

lemma loop_step_one:
  assumes "stack_ok s" "transactions s a = Some t" "ctx_type t = ty"
  shows "\<exists>s'. loop_step ty cf a s = Some s' \<and> one_step a s s'"
proof -
  have "one_step a s s" using keeps_refl [OF assms(1)] by (simp add: one_step_def)
  then show ?thesis using loop_step_eq [OF assms, of cf] timer_step_one [OF assms(1,2), of cf] by auto
qed

text \<open>Executing the event that ends a transaction.\<close>

lemma on_tr_ends:
  assumes s: "stack_ok s" and t: "transactions s a = Some t" and e: "timer_event e" "type e \<noteq> KILL_TRANSACTION"
    and ends: "\<And>st. rfc3261_diagram (ctx_type t) (state t) (type e) st \<longleftrightarrow> st = final_state (ctx_type t)"
  shows "\<exists>i s' t'. on_tr a (osip_transaction_execute cf e) s = Some (i, s') \<and> stack_ok s'
    \<and> transactions s' = (transactions s)(a \<mapsto> t') \<and> same_call t t' \<and> (\<forall>ty. transactions_of ty s' = transactions_of ty s)
    \<and> state t' = final_state (ctx_type t)"
proof -
  have q: "queued_ok (msgs s) e" "set_option (sip e) \<inter> (set (holds t) \<union> others s a) = {}" "set_option (sip e) \<inter> set (holds t) = {}"
    using e(1) by (simp_all add: timer_event_def queued_ok_def)
  obtain i s' t' where r: "on_tr a (osip_transaction_execute cf e) s = Some (i, s')" "stack_ok s'"
    "transactions s' = (transactions s)(a \<mapsto> t')" "same_call t t'" "\<forall>ty. transactions_of ty s' = transactions_of ty s"
    using on_tr_execute_ok [OF s t q(1,2), of cf] by blast
  have "tr (focus s t) = t" by (simp add: focus_def)
  then obtain w where w: "osip_transaction_execute cf e (focus s t) = Some (1, w)" "executes cf e (focus s t) w"
    using osip_transaction_execute_ok [OF focus_ok(1) [OF s t] _ focus_evt_ok [OF q(1,3)] e(2), of cf] focus_ok(2) [OF s t] by auto
  have "transactions s' = (transactions s)(a \<mapsto> tr w)" using r(1) t w(1) by (auto simp: on_tr_def unfocus_def)
  then have "t' = tr w" using r(3) by (metis fun_upd_same option.inject)
  moreover have "state (tr w) = final_state (ctx_type t)"
    using w(2) ends \<open>tr (focus s t) = t\<close> unfolding executes_def executed_def by metis
  ultimately show ?thesis using r by blast
qed

lemma drain_ends:
  assumes s: "stack_ok s" and t: "transactions s a = Some t" and q: "queue_of t = [e]"
    and e: "timer_event e" "type e \<noteq> KILL_TRANSACTION"
    and ends: "\<And>st. rfc3261_diagram (ctx_type t) (state t) (type e) st \<longleftrightarrow> st = final_state (ctx_type t)"
  shows "\<exists>s' t'. drain cf a s = Some s' \<and> stack_ok s' \<and> transactions s' = (transactions s)(a \<mapsto> t')
    \<and> state t' = final_state (ctx_type t)"
proof -
  obtain ff where ff: "transactionff t = Some ff" "fifo_ok ff" using tr_wf_queue [OF stack_ok_tr(1) [OF s t]] by blast
  then have qq: "queue ff = [e]" using q by (simp add: queue_of_def)
  obtain ff' where get: "osip_fifo_tryget ff = (Some e, ff')" "fifo_ok ff'" "queue ff' = []"
    using osip_fifo_tryget_ok [OF ff(2)] qq by auto
  let ?t = "t\<lparr>transactionff := Some ff'\<rparr>"
  let ?s = "put_tr a ?t s"
  have "stack_ok (put_tr a ?t (s\<lparr>mem := mem s\<rparr>))"
    by (rule stack_ok_queue [OF s t get(2)])
      (use stack_ok_tr [OF s t] stack_ok_mem [OF s] get(3) in \<open>auto simp: tr_wf_def holds_def\<close>)
  then have ok: "stack_ok ?s" by simp
  have at: "transactions ?s a = Some ?t" by (simp add: put_tr_def)
  obtain i s1 t1 where 1: "on_tr a (osip_transaction_execute cf e) ?s = Some (i, s1)" "stack_ok s1"
    "transactions s1 = (transactions ?s)(a \<mapsto> t1)" "same_call ?t t1" "state t1 = final_state (ctx_type t)"
    using on_tr_ends [OF ok at e, of cf] ends by auto
  have t1: "transactions s1 a = Some t1" "transactionff t1 = Some ff'" using 1(3,4) by (simp_all add: same_call_def)
  have none: "osip_fifo_tryget ff' = (None, ff')" using get(2,3) by (simp add: osip_fifo_tryget_def fifo_ok_def)
  have "t1\<lparr>transactionff := transactionff t1\<rparr> = t1" by simp
  then have same: "t1\<lparr>transactionff := Some ff'\<rparr> = t1" unfolding t1(2) .
  have "(transactions s1)(a \<mapsto> t1) = transactions s1" using t1(1) by auto
  then have "put_tr a (t1\<lparr>transactionff := Some ff'\<rparr>) s1 = s1" unfolding put_tr_def same by simp
  then have "drain cf a s1 = Some s1" using t1 none by (subst drain.simps) (simp add: Let_def)
  then have "drain cf a s = Some s1" using t ff(1) get(1) 1(1) by (subst drain.simps) (simp add: Let_def)
  moreover have "transactions s1 = (transactions s)(a \<mapsto> t1)" using 1(3) by (simp add: put_tr_def)
  ultimately show ?thesis using 1(2,5) by blast
qed

lemma drain_all_ends:
  assumes "stack_ok s" "set l \<subseteq> dom (transactions s)" "distinct l" "a \<in> set l" "transactions s a = Some t"
    "queue_of t = [e]" "timer_event e" "type e \<noteq> KILL_TRANSACTION"
    "\<And>st. rfc3261_diagram (ctx_type t) (state t) (type e) st \<longleftrightarrow> st = final_state (ctx_type t)"
  shows "\<exists>s' t'. drain_all cf l s = Some s' \<and> stack_ok s' \<and> transactions s' a = Some t' \<and> state t' = final_state (ctx_type t)"
  using assms(1-5)
proof (induction l arbitrary: s)
  case (Cons b l)
  show ?case
  proof (cases "b = a")
    case True
    obtain s1 t1 where 1: "drain cf a s = Some s1" "stack_ok s1" "transactions s1 = (transactions s)(a \<mapsto> t1)" "state t1 = final_state (ctx_type t)"
      using drain_ends [OF Cons.prems(1,5) assms(6-9), of cf] by blast
    have "set l \<subseteq> dom (transactions s1)" using Cons.prems(2) 1(3) by auto
    then obtain s2 where "drain_all cf l s1 = Some s2" "stack_ok s2" "\<forall>c. c \<notin> set l \<longrightarrow> transactions s2 c = transactions s1 c"
      using drain_all_ok [OF 1(2), of l cf] by blast
    then show ?thesis using True 1 Cons.prems(3) by auto
  next
    case False
    obtain u where u: "transactions s b = Some u" using Cons.prems(2) by auto
    obtain s1 u1 where 1: "drain cf b s = Some s1" "stack_ok s1" "transactions s1 = (transactions s)(b \<mapsto> u1)"
      using drain_ok [OF Cons.prems(1) u, of cf] by blast
    have "set l \<subseteq> dom (transactions s1)" "transactions s1 a = Some t" using Cons.prems(2,5) 1(3) False by auto
    then obtain s2 t2 where "drain_all cf l s1 = Some s2" "stack_ok s2" "transactions s2 a = Some t2" "state t2 = final_state (ctx_type t)"
      using Cons.IH [OF 1(2)] Cons.prems(3,4) False by auto
    then show ?thesis using 1(1) by auto
  qed
qed simp

theorem overdue_transaction_ends:
  assumes s: "stack_ok s" and a: "a \<in> set (transactions_of ty s)" and t: "transactions s a = Some t"
    and q: "queue_of t = []" and e: "end_timer t = Some (ev, tv)" "overdue cf (ticks s) tv"
  shows "\<exists>s1 s2 t2. osip_timers_execute ty cf s = Some s1 \<and> osip_execute ty cf s1 = Some (OSIP_SUCCESS, s2) \<and> stack_ok s2
    \<and> transactions s2 a = Some t2 \<and> state t2 = final_state ty"
proof -
  have lists: "distinct (transactions_of ty s)" "\<forall>b \<in> set (transactions_of ty s). \<exists>t. transactions s b = Some t \<and> ctx_type t = ty"
    using s by (auto simp: stack_ok_def lists_ok_def)
  have ty: "ctx_type t = ty" using lists(2) a t by auto
  let ?e = "\<lparr>type = ev, ev_transactionid = transactionid t, sip = None\<rparr>"
  let ?Q = "\<lambda>x. \<exists>ff. x = Some (t\<lparr>transactionff := Some ff\<rparr>) \<and> queue ff = [?e]"
  have last: "\<exists>s'. loop_step ty cf a s = Some s' \<and> one_step a s s' \<and> ?Q (transactions s' a)"
    if "stack_ok s" "transactions s a = Some t" "n \<le> ticks s" "overdue cf n tv" for s n
    using timer_step_end [OF that(1,2) e(1) overdue_later [OF that(4,3)]] loop_step_eq [OF that(1,2) ty, of cf] q by auto
  have "\<exists>s'. each_tr (loop_step ty cf) (transactions_of ty s) s = Some s' \<and> keeps s s' \<and> ?Q (transactions s' a)"
    by (rule each_tr_end [where ty = ty and t = t and n = "ticks s"], rule loop_step_one, assumption, assumption, assumption,
        rule last, assumption, assumption, assumption, rule e(2), rule s, rule lists(2), rule lists(1), rule a, rule t, rule order_refl)
  then obtain s1 where 1: "osip_timers_execute ty cf s = Some s1" "keeps s s1" "?Q (transactions s1 a)"
    unfolding timers_execute_loop by blast
  then obtain ff where ff: "transactions s1 a = Some (t\<lparr>transactionff := Some ff\<rparr>)" "queue ff = [?e]" by blast
  have ok: "stack_ok s1" "transactions_of ty s1 = transactions_of ty s" using 1(2) by (simp_all add: keeps_def)
  obtain m where m: "osip_malloc (mem s1) = (True, m)" "never_fails m" using osip_malloc_never_fails [OF stack_ok_mem [OF ok(1)]] by blast
  let ?s = "s1\<lparr>mem := m\<rparr>"
  have "ev \<noteq> KILL_TRANSACTION \<and> timer_event ?e"
    using e(1) by (auto simp: end_timer_def timer_event_def evt_kind_defs split: osip_fsm_type_t.splits if_splits bind_splits)
  then have "\<exists>s' t'. drain_all cf (transactions_of ty s) ?s = Some s' \<and> stack_ok s' \<and> transactions s' a = Some t' \<and> state t' = final_state (ctx_type (t\<lparr>transactionff := Some ff\<rparr>))"
    using stack_ok_mem_upd [OF ok(1) m(2)] lists_dom [OF ok(1), of ty] ok(2) lists(1) a ff end_timer_ends [OF e(1)]
    by (intro drain_all_ends [where e = ?e]) (simp_all add: queue_of_def)
  then obtain s2 t2 where 2: "drain_all cf (transactions_of ty s) ?s = Some s2" "stack_ok s2" "transactions s2 a = Some t2" "state t2 = final_state ty"
    using ty by auto
  have "transactions_of ty s \<noteq> []" using a by auto
  then have "execute_list cf (transactions_of ty s) s1 = Some (OSIP_SUCCESS, s2)"
    using 2(1) m(1) by (cases "transactions_of ty s") (auto simp: execute_list_def bind_eq_Some_conv)
  then have "osip_execute ty cf s1 = Some (OSIP_SUCCESS, s2)"
    using ok(2) by (cases ty) (simp_all add: osip_execute_def execute_as_list)
  then show ?thesis using 1(1) 2 by blast
qed

end
