(* ===== verification/Expiry_Samples.thy ===== *)
theory Expiry_Samples
  imports Samples Expiry
begin

text \<open>
  A stack whose INVITE client transaction has waited for an answer until timer B is due: a state where
  the theorem of progress in \<^verbatim>\<open>Expiry\<close> applies.
\<close>

definition sample_waiting :: osip_transaction where
  "sample_waiting = (sample_tr ICT)\<lparr>orig_request := Some 0, state := ICT_CALLING,
     ict_context := Live (ict_zero\<lparr>timer_b_start := \<lparr>tv_sec = 32, tv_usec = 0\<rparr>\<rparr>)\<rparr>"

definition sample_overdue :: osip where
  "sample_overdue = (sample_stack sample_invite)\<lparr>transactions := [0 \<mapsto> sample_waiting], osip_ict_transactions := [0],
     tr_brk := 1, next_transactionid := 2\<rparr>"

lemma sample_waiting_simps: "tr_ok sample_waiting" "call_ok sample_waiting" "ctx_type sample_waiting = ICT" "holds sample_waiting = [0]"
  "queue_of sample_waiting = []" "transactionid sample_waiting = 0" "transactionff sample_waiting = Some osip_fifo_init"
  "end_timer sample_waiting = Some (TIMEOUT_B, \<lparr>tv_sec = 32, tv_usec = 0\<rparr>)"
proof -
  show "call_ok sample_waiting"
    using sample_call_ok [of ICT] by (simp add: sample_waiting_def call_ok_def)
  show "tr_ok sample_waiting" "ctx_type sample_waiting = ICT" "holds sample_waiting = [0]"
    "queue_of sample_waiting = []" "transactionid sample_waiting = 0" "transactionff sample_waiting = Some osip_fifo_init"
    "end_timer sample_waiting = Some (TIMEOUT_B, \<lparr>tv_sec = 32, tv_usec = 0\<rparr>)"
    by (simp_all add: sample_waiting_def sample_tr_def transaction_zero_def tr_ok_def ict_ok_def holds_def owned3_def queue_of_def
        osip_fifo_init_def end_timer_def initial_state_def)
qed

lemma sample_overdue_stack: "stack_ok sample_overdue" "0 \<in> set (transactions_of ICT sample_overdue)"
  "transactions sample_overdue 0 = Some sample_waiting" "overdue sample_config (ticks sample_overdue) \<lparr>tv_sec = 32, tv_usec = 0\<rparr>"
proof -
  have ok: "stack_ok (sample_stack sample_invite)" by (rule sample_stack_ok) simp
  have m: "msgs (sample_stack sample_invite) = [0 \<mapsto> sample_invite]" "osip_ist_transactions (sample_stack sample_invite) = []"
    "osip_nict_transactions (sample_stack sample_invite) = []" "osip_nist_transactions (sample_stack sample_invite) = []"
    by (simp_all add: sample_stack_def message_arrives_def empty_stack_def)
  have h: "heap_ok (msgs sample_overdue) (brk sample_overdue) (mem sample_overdue) []"
    using ok by (simp add: stack_ok_def sample_overdue_def)
  have wf: "tr_wf (msgs sample_overdue) sample_waiting"
    by (simp add: tr_wf_def sample_waiting_simps sample_overdue_def m)
  show "stack_ok sample_overdue"
    unfolding stack_ok_def using h wf
    by (auto simp: sample_overdue_def lists_ok_def ids_ok_def others_def transactions_of_def m sample_waiting_simps split: osip_fsm_type_t.splits if_splits)
  show "0 \<in> set (transactions_of ICT sample_overdue)" "transactions sample_overdue 0 = Some sample_waiting"
    "overdue sample_config (ticks sample_overdue) \<lparr>tv_sec = 32, tv_usec = 0\<rparr>"
    by (simp_all add: sample_overdue_def transactions_of_def overdue_def sample_config_def osip_timer_gt_def)
qed

end
