(* ===== verification/Aes.thy ===== *)
theory Aes
  imports Rijndael
begin

text \<open>
  The Advanced Encryption Standard, FIPS 197, with 128 bit keys: the field of 256 elements, the
  substitution as inverse and affine map, the rounds on sixteen bytes in columns. The algebra of the field, so
  that an inverse is known when it is guessed.
\<close>

section \<open>The field\<close>

definition xtime :: "u8 \<Rightarrow> u8" where
  "xtime b = push_bit 1 b XOR (if bit b 7 then 0x1b else 0)"

text \<open>The product of \<open>a\<close> with the polynomial of the lowest \<open>n\<close> bits of \<open>b\<close>.\<close>

fun mul_bits :: "nat \<Rightarrow> u8 \<Rightarrow> u8 \<Rightarrow> u8" where
  "mul_bits 0 a b = 0"
| "mul_bits (Suc n) a b = (if bit b 0 then a else 0) XOR mul_bits n (xtime a) (drop_bit 1 b)"

definition gf_mul :: "u8 \<Rightarrow> u8 \<Rightarrow> u8" where "gf_mul a b = mul_bits 8 a b"

definition gf_inv :: "u8 \<Rightarrow> u8" where
  "gf_inv a = (case find (\<lambda>b. gf_mul a b = 1) (map of_nat [0..<256]) of None \<Rightarrow> 0 | Some b \<Rightarrow> b)"

section \<open>The cipher\<close>

text \<open>Bit \<open>i\<close> of the affine map is the sum of the bits \<open>i\<close>, \<open>i + 4\<close>, \<open>i + 5\<close>, \<open>i + 6\<close>, \<open>i + 7\<close> (modulo 8) and a constant.\<close>

definition rotl8 :: "nat \<Rightarrow> u8 \<Rightarrow> u8" where "rotl8 n b = push_bit n b OR drop_bit (8 - n) b"

definition affine :: "u8 \<Rightarrow> u8" where
  "affine b = b XOR rotl8 1 b XOR rotl8 2 b XOR rotl8 3 b XOR rotl8 4 b XOR 0x63"

definition sbox :: "u8 \<Rightarrow> u8" where "sbox a = affine (gf_inv a)"

text \<open>A state has the byte of row \<open>r\<close> and column \<open>c\<close> at \<open>r + 4 * c\<close>.\<close>

definition sub_bytes :: "u8 list \<Rightarrow> u8 list" where "sub_bytes = map sbox"

definition shift_rows :: "u8 list \<Rightarrow> u8 list" where
  "shift_rows s = map (\<lambda>i. s ! ((i + 4 * (i mod 4)) mod 16)) [0..<16]"

fun mix_columns :: "u8 list \<Rightarrow> u8 list" where
  "mix_columns (a # b # c # d # s) =
     (gf_mul a 2 XOR gf_mul b 3 XOR c XOR d) # (a XOR gf_mul b 2 XOR gf_mul c 3 XOR d)
       # (a XOR b XOR gf_mul c 2 XOR gf_mul d 3) # (gf_mul a 3 XOR b XOR c XOR gf_mul d 2) # mix_columns s"
| "mix_columns s = s"

definition xor_bytes :: "u8 list \<Rightarrow> u8 list \<Rightarrow> u8 list" where "xor_bytes = map2 (XOR)"

text \<open>The key expansion, on columns of four bytes; \<open>rcon j\<close> is the power of \<open>x\<close> in the field.\<close>

definition rcon :: "nat \<Rightarrow> u8 list" where "rcon j = [(xtime ^^ (j - 1)) 1, 0, 0, 0]"

fun key_columns :: "u8 list \<Rightarrow> nat \<Rightarrow> u8 list" where
  "key_columns key i =
    (if i < 4 then take 4 (drop (4 * i) key)
     else let temp = key_columns key (i - 1) in
       xor_bytes (key_columns key (i - 4))
         (if i mod 4 = 0 then xor_bytes (sub_bytes (rotate1 temp)) (rcon (i div 4)) else temp))"

declare key_columns.simps [simp del]

definition round_key :: "u8 list \<Rightarrow> nat \<Rightarrow> u8 list" where
  "round_key key n = concat (map (key_columns key) [4 * n..<4 * n + 4])"

definition aes_round :: "u8 list \<Rightarrow> nat \<Rightarrow> u8 list \<Rightarrow> u8 list" where
  "aes_round key n s = xor_bytes (mix_columns (shift_rows (sub_bytes s))) (round_key key n)"

definition aes_encrypt :: "u8 list \<Rightarrow> u8 list \<Rightarrow> u8 list" where
  "aes_encrypt key s =
    xor_bytes (shift_rows (sub_bytes (fold (aes_round key) [1..<10] (xor_bytes s (round_key key 0))))) (round_key key 10)"

section \<open>Algebra of the field\<close>

lemma xtime_0 [simp]: "xtime 0 = 0"
  by (simp add: xtime_def)

lemma xtime_xor: "xtime (a XOR b) = xtime a XOR xtime b"
  by (rule bit_word_eqI) (auto simp: xtime_def bit_xor_iff bit_push_bit_iff)

lemma mul_bits_xor_left: "mul_bits n (a XOR a') b = mul_bits n a b XOR mul_bits n a' b"
  by (induction n arbitrary: a a' b) (simp_all add: xtime_xor xor.assoc xor.left_commute)

lemma mul_bits_xor_right: "mul_bits n a (b XOR b') = mul_bits n a b XOR mul_bits n a b'"
  by (induction n arbitrary: a b b') (auto simp: bit_xor_iff ac_simps)

lemma mul_bits_0_left [simp]: "mul_bits n 0 b = 0"
  by (induction n arbitrary: b) simp_all

lemma mul_bits_0_right [simp]: "mul_bits n a 0 = 0"
  by (induction n arbitrary: a) simp_all

lemma mul_bits_xtime: "mul_bits n (xtime a) b = xtime (mul_bits n a b)"
  by (induction n arbitrary: a b) (simp_all add: xtime_xor)

lemma mul_bits_Suc: "mul_bits (Suc n) a b = mul_bits n a b XOR (if bit b n then (xtime ^^ n) a else 0)"
proof (induction n arbitrary: a b)
  case (Suc n)
  have "mul_bits (Suc (Suc n)) a b = (if bit b 0 then a else 0) XOR mul_bits (Suc n) (xtime a) (drop_bit 1 b)" by simp
  also have "\<dots> = (if bit b 0 then a else 0) XOR (mul_bits n (xtime a) (drop_bit 1 b) XOR (if bit b (Suc n) then (xtime ^^ Suc n) a else 0))"
    unfolding Suc.IH by (simp add: bit_drop_bit_eq funpow_swap1)
  finally show ?case by (simp add: xor.assoc)
qed simp

text \<open>The reduction: \<open>x ^ 8\<close> is \<open>x ^ 4 + x ^ 3 + x + 1\<close>.\<close>

lemma below_8: "(\<forall>i < 8. P i) \<longleftrightarrow> P 0 \<and> P 1 \<and> P 2 \<and> P 3 \<and> P 4 \<and> P 5 \<and> P 6 \<and> P (7 :: nat)"
  by (simp add: numeral_eq_Suc less_Suc_eq all_conj_distrib ac_simps)

lemma byte_eqI: "(\<forall>i < 8. bit a i = bit b i) \<Longrightarrow> a = (b :: u8)"
  by (rule bit_word_eqI) simp

lemma bit_xtime: "i < 8 \<Longrightarrow> bit (xtime a) i = ((i > 0 \<and> bit a (i - 1)) \<noteq> (bit a 7 \<and> i \<in> {0, 1, 3, 4}))"
proof -
  have "\<forall>i < 8. bit (0x1b :: u8) i \<longleftrightarrow> i \<in> {0, 1, 3, 4}" unfolding below_8 by simp
  then show "i < 8 \<Longrightarrow> bit (xtime a) i = ((i > 0 \<and> bit a (i - 1)) \<noteq> (bit a 7 \<and> i \<in> {0, 1, 3, 4}))"
    unfolding xtime_def bit_xor_iff bit_push_bit_iff by (cases "bit a 7") auto
qed

lemma bits_xtime:
  "bit (xtime a) 0 = bit a 7" "bit (xtime a) 1 = (bit a 0 \<noteq> bit a 7)" "bit (xtime a) 2 = bit a 1" "bit (xtime a) 3 = (bit a 2 \<noteq> bit a 7)"
  "bit (xtime a) 4 = (bit a 3 \<noteq> bit a 7)" "bit (xtime a) 5 = bit a 4" "bit (xtime a) 6 = bit a 5" "bit (xtime a) 7 = bit a 6"
  by (simp_all add: bit_xtime)

lemma xtime_funpow: "(xtime ^^ 3) a = xtime (xtime (xtime a))" "(xtime ^^ 4) a = xtime (xtime (xtime (xtime a)))"
  by (simp_all add: numeral_eq_Suc)

lemma xtime_reduction: "(xtime ^^ 8) a = a XOR xtime a XOR (xtime ^^ 3) a XOR (xtime ^^ 4) a"
proof -
  have f: "(xtime ^^ 8) a = xtime (xtime (xtime (xtime (xtime (xtime (xtime (xtime a)))))))" by (simp add: numeral_eq_Suc)
  show ?thesis
    by (rule byte_eqI, unfold below_8 f xtime_funpow bit_xor_iff bits_xtime, intro conjI; blast)
qed

lemma mul_bits_numeral [simp]:
  "mul_bits (numeral k) a b = (if bit b 0 then a else 0) XOR mul_bits (pred_numeral k) (xtime a) (drop_bit 1 b)"
  by (simp add: numeral_eq_Suc)

lemma mul_bits_cong: "(\<forall>i < n. bit b i = bit b' i) \<Longrightarrow> mul_bits n a b = mul_bits n a b'"
proof (induction n arbitrary: a b b')
  case (Suc n)
  have "mul_bits n (xtime a) (drop_bit 1 b) = mul_bits n (xtime a) (drop_bit 1 b')"
    by (rule Suc.IH) (use Suc.prems in \<open>simp add: bit_drop_bit_eq\<close>)
  moreover have "bit b 0 = bit b' 0" using Suc.prems by simp
  ultimately show ?case by (simp only: mul_bits.simps)
qed simp

lemma gf_mul_1b: "mul_bits 8 a 0x1b = a XOR xtime a XOR (xtime ^^ 3) a XOR (xtime ^^ 4) a"
  by (simp add: xtime_funpow xor.assoc)

lemma Suc7: "Suc 7 = (8 :: nat)"
  by simp

lemma gf_mul_xtime_right: "gf_mul a (xtime b) = xtime (gf_mul a b)"
proof -
  have shift: "mul_bits 8 a (push_bit 1 b) = mul_bits 7 (xtime a) b"
  proof -
    have "mul_bits (Suc 7) a (push_bit 1 b) = mul_bits 7 (xtime a) (drop_bit 1 (push_bit 1 b))"
      unfolding mul_bits.simps bit_push_bit_iff by (simp del: mul_bits_numeral push_bit_of_1 push_bit_Suc)
    also have "\<dots> = mul_bits 7 (xtime a) b"
      by (rule mul_bits_cong) (unfold bit_drop_bit_eq comp_def bit_push_bit_iff, simp)
    finally show ?thesis unfolding Suc7 .
  qed
  have "gf_mul a (xtime b) = mul_bits 7 (xtime a) b XOR (if bit b 7 then (xtime ^^ 8) a else 0)"
    unfolding gf_mul_def xtime_def [of b] mul_bits_xor_right shift gf_mul_1b xtime_reduction
    by (cases "bit b 7") (simp_all only: if_True if_False gf_mul_1b mul_bits_0_right)
  also have "(xtime ^^ 8) a = (xtime ^^ 7) (xtime a)"
    unfolding Suc7 [symmetric] funpow_Suc_right comp_def ..
  also have "mul_bits 7 (xtime a) b XOR (if bit b 7 then (xtime ^^ 7) (xtime a) else 0) = mul_bits (Suc 7) (xtime a) b"
    by (rule mul_bits_Suc [symmetric])
  finally show ?thesis unfolding gf_mul_def Suc7 mul_bits_xtime .
qed

lemma gf_mul_assoc: "gf_mul (gf_mul a b) c = gf_mul a (gf_mul b c)"
proof -
  have "mul_bits n (gf_mul a b) c = gf_mul a (mul_bits n b c)" for n
  proof (induction n arbitrary: b c)
    case 0
    then show ?case by (simp add: gf_mul_def del: mul_bits_numeral)
  next
    case (Suc n)
    have "gf_mul a (mul_bits (Suc n) b c) = (if bit c 0 then gf_mul a b else 0) XOR gf_mul a (mul_bits n (xtime b) (drop_bit 1 c))"
      by (simp add: gf_mul_def mul_bits_xor_right del: mul_bits_numeral)
    also have "gf_mul a (mul_bits n (xtime b) (drop_bit 1 c)) = mul_bits n (xtime (gf_mul a b)) (drop_bit 1 c)"
      by (simp only: Suc.IH [symmetric] gf_mul_xtime_right)
    finally show ?case by simp
  qed
  then show ?thesis unfolding gf_mul_def [of _ c] .
qed

lemma gf_mul_1_right [simp]: "gf_mul a 1 = a"
  by (simp add: gf_mul_def)

lemma gf_mul_1_left [simp]: "gf_mul 1 a = a"
proof -
  have p: "xtime 1 = 2" "xtime 2 = 4" "xtime 4 = 8" "xtime 8 = 16" "xtime 16 = 32" "xtime 32 = 64" "xtime 64 = 128"
    by (simp_all add: xtime_def)
  have d: "drop_bit 1 (drop_bit n a) = drop_bit (n + 1) a" for n :: nat by (simp add: ac_simps)
  have "mul_bits 8 1 a = (if bit a 0 then 1 else 0) XOR (if bit a 1 then 2 else 0) XOR (if bit a 2 then 4 else 0)
      XOR (if bit a 3 then 8 else 0) XOR (if bit a 4 then 16 else 0) XOR (if bit a 5 then 32 else 0) XOR (if bit a 6 then 64 else 0)
      XOR (if bit a 7 then 128 else 0)"
    unfolding mul_bits_numeral p by (simp add: p d bit_drop_bit_eq numeral_eq_Suc)
  then show ?thesis
    unfolding gf_mul_def by (intro byte_eqI) (simp add: below_8 bit_xor_iff)
qed

section \<open>Inverses\<close>

definition inverses :: "u8 list" where
  "inverses = [
    0x00, 0x01, 0x8d, 0xf6, 0xcb, 0x52, 0x7b, 0xd1, 0xe8, 0x4f, 0x29, 0xc0, 0xb0, 0xe1, 0xe5, 0xc7,
    0x74, 0xb4, 0xaa, 0x4b, 0x99, 0x2b, 0x60, 0x5f, 0x58, 0x3f, 0xfd, 0xcc, 0xff, 0x40, 0xee, 0xb2,
    0x3a, 0x6e, 0x5a, 0xf1, 0x55, 0x4d, 0xa8, 0xc9, 0xc1, 0x0a, 0x98, 0x15, 0x30, 0x44, 0xa2, 0xc2,
    0x2c, 0x45, 0x92, 0x6c, 0xf3, 0x39, 0x66, 0x42, 0xf2, 0x35, 0x20, 0x6f, 0x77, 0xbb, 0x59, 0x19,
    0x1d, 0xfe, 0x37, 0x67, 0x2d, 0x31, 0xf5, 0x69, 0xa7, 0x64, 0xab, 0x13, 0x54, 0x25, 0xe9, 0x09,
    0xed, 0x5c, 0x05, 0xca, 0x4c, 0x24, 0x87, 0xbf, 0x18, 0x3e, 0x22, 0xf0, 0x51, 0xec, 0x61, 0x17,
    0x16, 0x5e, 0xaf, 0xd3, 0x49, 0xa6, 0x36, 0x43, 0xf4, 0x47, 0x91, 0xdf, 0x33, 0x93, 0x21, 0x3b,
    0x79, 0xb7, 0x97, 0x85, 0x10, 0xb5, 0xba, 0x3c, 0xb6, 0x70, 0xd0, 0x06, 0xa1, 0xfa, 0x81, 0x82,
    0x83, 0x7e, 0x7f, 0x80, 0x96, 0x73, 0xbe, 0x56, 0x9b, 0x9e, 0x95, 0xd9, 0xf7, 0x02, 0xb9, 0xa4,
    0xde, 0x6a, 0x32, 0x6d, 0xd8, 0x8a, 0x84, 0x72, 0x2a, 0x14, 0x9f, 0x88, 0xf9, 0xdc, 0x89, 0x9a,
    0xfb, 0x7c, 0x2e, 0xc3, 0x8f, 0xb8, 0x65, 0x48, 0x26, 0xc8, 0x12, 0x4a, 0xce, 0xe7, 0xd2, 0x62,
    0x0c, 0xe0, 0x1f, 0xef, 0x11, 0x75, 0x78, 0x71, 0xa5, 0x8e, 0x76, 0x3d, 0xbd, 0xbc, 0x86, 0x57,
    0x0b, 0x28, 0x2f, 0xa3, 0xda, 0xd4, 0xe4, 0x0f, 0xa9, 0x27, 0x53, 0x04, 0x1b, 0xfc, 0xac, 0xe6,
    0x7a, 0x07, 0xae, 0x63, 0xc5, 0xdb, 0xe2, 0xea, 0x94, 0x8b, 0xc4, 0xd5, 0x9d, 0xf8, 0x90, 0x6b,
    0xb1, 0x0d, 0xd6, 0xeb, 0xc6, 0x0e, 0xcf, 0xad, 0x08, 0x4e, 0xd7, 0xe3, 0x5d, 0x50, 0x1e, 0xb3,
    0x5b, 0x23, 0x38, 0x34, 0x68, 0x46, 0x03, 0x8c, 0xdd, 0x9c, 0x7d, 0xa0, 0xcd, 0x1a, 0x41, 0x1c]"

lemma inverses_invert: "map2 gf_mul (map of_nat [0..<256]) inverses = 0 # replicate 255 1"
proof -
  have bytes: "(map of_nat [0..<256] :: u8 list) = [
      0, 1, 2, 3, 4, 5, 6, 7, 8, 9, 10, 11, 12, 13, 14, 15,
      16, 17, 18, 19, 20, 21, 22, 23, 24, 25, 26, 27, 28, 29, 30, 31,
      32, 33, 34, 35, 36, 37, 38, 39, 40, 41, 42, 43, 44, 45, 46, 47,
      48, 49, 50, 51, 52, 53, 54, 55, 56, 57, 58, 59, 60, 61, 62, 63,
      64, 65, 66, 67, 68, 69, 70, 71, 72, 73, 74, 75, 76, 77, 78, 79,
      80, 81, 82, 83, 84, 85, 86, 87, 88, 89, 90, 91, 92, 93, 94, 95,
      96, 97, 98, 99, 100, 101, 102, 103, 104, 105, 106, 107, 108, 109, 110, 111,
      112, 113, 114, 115, 116, 117, 118, 119, 120, 121, 122, 123, 124, 125, 126, 127,
      128, 129, 130, 131, 132, 133, 134, 135, 136, 137, 138, 139, 140, 141, 142, 143,
      144, 145, 146, 147, 148, 149, 150, 151, 152, 153, 154, 155, 156, 157, 158, 159,
      160, 161, 162, 163, 164, 165, 166, 167, 168, 169, 170, 171, 172, 173, 174, 175,
      176, 177, 178, 179, 180, 181, 182, 183, 184, 185, 186, 187, 188, 189, 190, 191,
      192, 193, 194, 195, 196, 197, 198, 199, 200, 201, 202, 203, 204, 205, 206, 207,
      208, 209, 210, 211, 212, 213, 214, 215, 216, 217, 218, 219, 220, 221, 222, 223,
      224, 225, 226, 227, 228, 229, 230, 231, 232, 233, 234, 235, 236, 237, 238, 239,
      240, 241, 242, 243, 244, 245, 246, 247, 248, 249, 250, 251, 252, 253, 254, 255]"
    by code_simp
  have ones: "(0 # replicate 255 1 :: u8 list) = [
      0, 1, 1, 1, 1, 1, 1, 1, 1, 1, 1, 1, 1, 1, 1, 1,
      1, 1, 1, 1, 1, 1, 1, 1, 1, 1, 1, 1, 1, 1, 1, 1,
      1, 1, 1, 1, 1, 1, 1, 1, 1, 1, 1, 1, 1, 1, 1, 1,
      1, 1, 1, 1, 1, 1, 1, 1, 1, 1, 1, 1, 1, 1, 1, 1,
      1, 1, 1, 1, 1, 1, 1, 1, 1, 1, 1, 1, 1, 1, 1, 1,
      1, 1, 1, 1, 1, 1, 1, 1, 1, 1, 1, 1, 1, 1, 1, 1,
      1, 1, 1, 1, 1, 1, 1, 1, 1, 1, 1, 1, 1, 1, 1, 1,
      1, 1, 1, 1, 1, 1, 1, 1, 1, 1, 1, 1, 1, 1, 1, 1,
      1, 1, 1, 1, 1, 1, 1, 1, 1, 1, 1, 1, 1, 1, 1, 1,
      1, 1, 1, 1, 1, 1, 1, 1, 1, 1, 1, 1, 1, 1, 1, 1,
      1, 1, 1, 1, 1, 1, 1, 1, 1, 1, 1, 1, 1, 1, 1, 1,
      1, 1, 1, 1, 1, 1, 1, 1, 1, 1, 1, 1, 1, 1, 1, 1,
      1, 1, 1, 1, 1, 1, 1, 1, 1, 1, 1, 1, 1, 1, 1, 1,
      1, 1, 1, 1, 1, 1, 1, 1, 1, 1, 1, 1, 1, 1, 1, 1,
      1, 1, 1, 1, 1, 1, 1, 1, 1, 1, 1, 1, 1, 1, 1, 1,
      1, 1, 1, 1, 1, 1, 1, 1, 1, 1, 1, 1, 1, 1, 1, 1]"
    by code_simp
  show ?thesis
    unfolding bytes ones
    by (simp only: inverses_def list.map zip_Cons_Cons zip_Nil prod.case gf_mul_def mul_bits_numeral) (simp add: xtime_def)
qed

end
