(* ===== verification/Aes_Tables.thy ===== *)
theory Aes_Tables
  imports Aes
begin

text \<open>
  The tables of \<^verbatim>\<open>rijndael.c\<close> hold what FIPS 197 defines: the substitution of a byte in each place of a
  word, and the column that a byte contributes to the mixed one. Every entry is checked.
\<close>

section \<open>Bytes as indices\<close>

lemma bytes_nth: "(map of_nat [0..<256] :: u8 list) ! unat a = a"
proof -
  have "unat a < 256" using unsigned_less [of a] by simp
  then show ?thesis by simp
qed

lemma nth_table:
  assumes "map f (map of_nat [0..<256]) = xs"
  shows "f (a :: u8) = xs ! unat a"
proof -
  have "unat a < 256" using unsigned_less [of a] by simp
  then show ?thesis using bytes_nth [of a] by (simp add: assms [symmetric])
qed

section \<open>The substitution\<close>

lemma inverses_length [simp]: "length inverses = 256"
  by (simp add: inverses_def)

lemma inverses_mul: "gf_mul a (inverses ! unat a) = (if a = 0 then 0 else 1)"
proof -
  have a: "unat a < 256" using unsigned_less [of a] by simp
  have "gf_mul a (inverses ! unat a) = map2 gf_mul (map of_nat [0..<256]) inverses ! unat a"
    using a bytes_nth [of a] by simp
  also have "\<dots> = (0 # replicate 255 1) ! unat a" by (simp only: inverses_invert)
  also have "\<dots> = (if a = 0 then 0 else 1)"
    using a by (cases "unat a") (auto simp: unat_eq_0 nth_Cons')
  finally show ?thesis .
qed

lemma gf_inv_unique:
  assumes "gf_mul a b = 1" "gf_mul a c = 1"
  shows "b = c"
proof -
  have zero: "gf_mul 0 x = 0" "gf_mul x 0 = 0" for x by (simp_all add: gf_mul_def del: mul_bits_numeral)
  have left: "gf_mul y x = 1" if "gf_mul x y = 1" for x y
  proof -
    have "y \<noteq> 0" using that zero by auto
    then have "gf_mul y (inverses ! unat y) = 1" by (simp add: inverses_mul)
    then show ?thesis using gf_mul_assoc [of x y "inverses ! unat y"] that by simp
  qed
  have "b = gf_mul b (gf_mul a c)" using assms(2) by simp
  also have "\<dots> = c" using gf_mul_assoc [of b a c] left [OF assms(1)] by simp
  finally show ?thesis .
qed

lemma gf_inv_inverses: "gf_inv a = inverses ! unat a"
proof (cases "a = 0")
  case True
  have "gf_mul 0 b \<noteq> 1" for b by (simp add: gf_mul_def del: mul_bits_numeral)
  then have "find (\<lambda>b. gf_mul 0 b = 1) (map of_nat [0..<256]) = None" by (simp only: find_None_iff) blast
  then show ?thesis by (simp add: True gf_inv_def inverses_def)
next
  case False
  let ?all = "map of_nat [0..<256] :: u8 list"
  have mem: "x \<in> set ?all" for x
  proof -
    have "unat x < length ?all" using unsigned_less [of x] by simp
    then have "?all ! unat x \<in> set ?all" by (rule nth_mem)
    then show ?thesis by (simp only: bytes_nth)
  qed
  have i: "gf_mul a (inverses ! unat a) = 1" using False by (simp add: inverses_mul)
  show ?thesis
  proof (cases "find (\<lambda>b. gf_mul a b = 1) ?all")
    case None
    then show ?thesis using i mem unfolding find_None_iff by blast
  next
    case (Some b)
    then have "gf_mul a b = 1" unfolding find_Some_iff by blast
    then show ?thesis using gf_inv_unique [OF _ i] Some by (simp add: gf_inv_def)
  qed
qed

lemma sbox_values: "map affine inverses = map byte0 fl_tab0"
  by (simp add: inverses_def fl_tab0_def affine_def rotl8_def byte0_def)

lemma fl_tab0_length [simp]: "length fl_tab0 = 256"
  by (simp add: fl_tab0_def)

lemma sbox_tab: "sbox a = byte0 (fl_tab0 ! unat a)"
proof -
  have a: "unat a < 256" using unsigned_less [of a] by simp
  then have "sbox a = map affine inverses ! unat a" by (simp add: sbox_def gf_inv_inverses)
  then show ?thesis using a by (simp only: sbox_values nth_map fl_tab0_length)
qed

section \<open>The tables\<close>

lemma fl_tabs:
  "fl_tab0 = map (\<lambda>w. u32_in [byte0 w, 0, 0, 0]) fl_tab0"
  "fl_tab1 = map (\<lambda>w. u32_in [0, byte0 w, 0, 0]) fl_tab0"
  "fl_tab2 = map (\<lambda>w. u32_in [0, 0, byte0 w, 0]) fl_tab0"
  "fl_tab3 = map (\<lambda>w. u32_in [0, 0, 0, byte0 w]) fl_tab0"
  by (simp_all add: fl_tab0_def fl_tab1_def fl_tab2_def fl_tab3_def u32_in_def byte0_def)

text \<open>The table for the first row is checked; the others are it, rotated.\<close>

lemma ft_tab0_entries: "ft_tab0 = map (\<lambda>w. let s = byte0 w; t = xtime s in u32_in [t, s, s, t XOR s]) fl_tab0"
  by (simp add: ft_tab0_def fl_tab0_def u32_in_def byte0_def xtime_def Let_def)

lemma ft_tabs_rotated:
  "ft_tab1 = map (\<lambda>w. push_bit 8 w OR drop_bit 24 w) ft_tab0"
  "ft_tab2 = map (\<lambda>w. push_bit 16 w OR drop_bit 16 w) ft_tab0"
  "ft_tab3 = map (\<lambda>w. push_bit 24 w OR drop_bit 8 w) ft_tab0"
  by (simp_all add: ft_tab0_def ft_tab1_def ft_tab2_def ft_tab3_def)

lemma gf_mul_2_3: "gf_mul s 2 = xtime s" "gf_mul s 3 = xtime s XOR s"
  by (simp_all add: gf_mul_def xor.commute)

lemma unat_256 [simp]: "unat (a :: u8) < 256"
  using unsigned_less [of a] by simp

lemma fl_tab_nth:
  "fl_tab0 ! unat a = u32_in [sbox a, 0, 0, 0]" "fl_tab1 ! unat a = u32_in [0, sbox a, 0, 0]"
  "fl_tab2 ! unat a = u32_in [0, 0, sbox a, 0]" "fl_tab3 ! unat a = u32_in [0, 0, 0, sbox a]"
proof -
  have w: "byte0 (fl_tab0 ! unat a) = sbox a" by (simp add: sbox_tab)
  have n: "xs ! unat a = f (fl_tab0 ! unat a)" if "xs = map f fl_tab0" for xs and f :: "u32 \<Rightarrow> u32" using that by simp
  show "fl_tab0 ! unat a = u32_in [sbox a, 0, 0, 0]" "fl_tab1 ! unat a = u32_in [0, sbox a, 0, 0]"
    "fl_tab2 ! unat a = u32_in [0, 0, sbox a, 0]" "fl_tab3 ! unat a = u32_in [0, 0, 0, sbox a]"
    unfolding n [OF fl_tabs(2)] n [OF fl_tabs(3)] n [OF fl_tabs(4)] w by (rule n [OF fl_tabs(1), unfolded w] refl)+
qed

lemma bit_u8: "bit (x :: u8) k \<Longrightarrow> k < 8"
  using bit_imp_le_length [of x k] by simp

lemma bit_u32_in:
  "bit (u32_in [a, b, c, d]) i \<longleftrightarrow> (if i < 8 then bit a i else if i < 16 then bit b (i - 8) else if i < 24 then bit c (i - 16) else bit d (i - 24))"
  by (auto simp: u32_in_def bit_or_iff bit_push_bit_iff bit_ucast_iff dest: bit_u8 bit_imp_le_length)

lemma rotated_word:
  "push_bit 8 (u32_in [a, b, c, d]) OR drop_bit 24 (u32_in [a, b, c, d]) = u32_in [d, a, b, c]"
  "push_bit 16 (u32_in [a, b, c, d]) OR drop_bit 16 (u32_in [a, b, c, d]) = u32_in [c, d, a, b]"
  "push_bit 24 (u32_in [a, b, c, d]) OR drop_bit 8 (u32_in [a, b, c, d]) = u32_in [b, c, d, a]"
  by (rule bit_word_eqI, auto simp: bit_or_iff bit_push_bit_iff bit_drop_bit_eq bit_u32_in dest: bit_u8)+

lemma ft_tab_nth:
  "ft_tab0 ! unat a = u32_in [gf_mul (sbox a) 2, sbox a, sbox a, gf_mul (sbox a) 3]"
  "ft_tab1 ! unat a = u32_in [gf_mul (sbox a) 3, gf_mul (sbox a) 2, sbox a, sbox a]"
  "ft_tab2 ! unat a = u32_in [sbox a, gf_mul (sbox a) 3, gf_mul (sbox a) 2, sbox a]"
  "ft_tab3 ! unat a = u32_in [sbox a, sbox a, gf_mul (sbox a) 3, gf_mul (sbox a) 2]"
proof -
  have 0: "ft_tab0 ! unat a = u32_in [gf_mul (sbox a) 2, sbox a, sbox a, gf_mul (sbox a) 3]"
    unfolding ft_tab0_entries by (simp add: Let_def sbox_tab [symmetric] gf_mul_2_3)
  have "length ft_tab0 = 256" unfolding ft_tab0_entries by simp
  then have n: "map f ft_tab0 ! unat a = f (ft_tab0 ! unat a)" for f :: "u32 \<Rightarrow> u32" by simp
  show "ft_tab0 ! unat a = u32_in [gf_mul (sbox a) 2, sbox a, sbox a, gf_mul (sbox a) 3]" by (rule 0)
  show "ft_tab1 ! unat a = u32_in [gf_mul (sbox a) 3, gf_mul (sbox a) 2, sbox a, sbox a]"
    "ft_tab2 ! unat a = u32_in [sbox a, gf_mul (sbox a) 3, gf_mul (sbox a) 2, sbox a]"
    "ft_tab3 ! unat a = u32_in [sbox a, sbox a, gf_mul (sbox a) 3, gf_mul (sbox a) 2]"
    unfolding ft_tabs_rotated n 0 rotated_word by (rule refl)+
qed

end
