(* ===== verification/Rijndael_Aes.thy ===== *)
theory Rijndael_Aes
  imports Aes_Tables
begin

text \<open>
  \<^verbatim>\<open>rijndael.c\<close> is the AES: the words of the state are its columns, a round by table lookups is the
  substitution, the shift of the rows, the mixing of the columns and the sum with the round key, and the
  words of the expanded key are the columns of FIPS 197.
\<close>

section \<open>Words are columns\<close>

lemma bytes_u32_in [simp]:
  "byte0 (u32_in [a, b, c, d]) = a" "byte1 (u32_in [a, b, c, d]) = b" "byte2 (u32_in [a, b, c, d]) = c" "byte3 (u32_in [a, b, c, d]) = d"
  by (rule bit_word_eqI, simp add: byte0_def byte1_def byte2_def byte3_def bit_ucast_iff bit_drop_bit_eq bit_u32_in)+

lemma bytes_xor [simp]:
  "byte0 (x XOR y) = byte0 x XOR byte0 y" "byte1 (x XOR y) = byte1 x XOR byte1 y" "byte2 (x XOR y) = byte2 x XOR byte2 y"
  "byte3 (x XOR y) = byte3 x XOR byte3 y"
  by (rule bit_word_eqI, simp add: byte0_def byte1_def byte2_def byte3_def bit_ucast_iff bit_drop_bit_eq bit_xor_iff)+

lemma u32_in_xor [simp]: "u32_in [a, b, c, d] XOR u32_in [a', b', c', d'] = u32_in [a XOR a', b XOR b', c XOR c', d XOR d']"
  by (rule bit_word_eqI) (simp add: bit_u32_in bit_xor_iff)

lemma u32_out_in: "4 \<le> length xs \<Longrightarrow> u32_out (u32_in xs) = take 4 xs"
proof -
  assume "4 \<le> length xs"
  then obtain a b c d r where "xs = a # b # c # d # r" by (auto simp: numeral_eq_Suc Suc_le_length_iff)
  moreover have "u32_in (a # b # c # d # r) = u32_in [a, b, c, d]" by (simp add: u32_in_def)
  ultimately show ?thesis by (simp add: u32_out_def)
qed

lemma u32_out_xor: "u32_out (x XOR y) = xor_bytes (u32_out x) (u32_out y)"
  by (simp add: u32_out_def xor_bytes_def)

lemma length_u32_out [simp]: "length (u32_out x) = 4"
  by (simp add: u32_out_def)

definition columns :: "u32 list \<Rightarrow> u8 list" where "columns ws = concat (map u32_out ws)"

lemma columns_simps [simp]: "columns [] = []" "columns (w # ws) = u32_out w @ columns ws" "columns (ws @ vs) = columns ws @ columns vs"
  by (simp_all add: columns_def)

lemma columns_xor: "length xs = length ys \<Longrightarrow> columns (map2 (XOR) xs ys) = xor_bytes (columns xs) (columns ys)"
  by (induction xs ys rule: list_induct2) (simp_all add: u32_out_xor xor_bytes_def)

lemma xor_bytes_length [simp]: "length (xor_bytes a b) = min (length a) (length b)"
  by (simp add: xor_bytes_def)

section \<open>A round\<close>

lemma shifted_columns:
  "shift_rows (sub_bytes (columns [x0, x1, x2, x3])) =
    [sbox (byte0 x0), sbox (byte1 x1), sbox (byte2 x2), sbox (byte3 x3),
     sbox (byte0 x1), sbox (byte1 x2), sbox (byte2 x3), sbox (byte3 x0),
     sbox (byte0 x2), sbox (byte1 x3), sbox (byte2 x0), sbox (byte3 x1),
     sbox (byte0 x3), sbox (byte1 x0), sbox (byte2 x1), sbox (byte3 x2)]"
  by (simp add: shift_rows_def sub_bytes_def u32_out_def upt_rec)

lemma f_rnds:
  "columns (map (f_rnd [x0, x1, x2, x3]) [0, 1, 2, 3]) = mix_columns (shift_rows (sub_bytes (columns [x0, x1, x2, x3])))"
  unfolding shifted_columns
  by (simp add: f_rnd_def ft_tab_nth u32_out_def xor.assoc)

lemma lf_rnds:
  "columns (map (lf_rnd [x0, x1, x2, x3]) [0, 1, 2, 3]) = shift_rows (sub_bytes (columns [x0, x1, x2, x3]))"
  unfolding shifted_columns
  by (simp add: lf_rnd_def fl_tab_nth u32_out_def)

lemma length_4: "length xs = 4 \<longleftrightarrow> (\<exists>a b c d. xs = [a, b, c, d])"
  by (auto simp: numeral_eq_Suc length_Suc_conv)

lemma f_round_columns:
  assumes "length bi = 4" "4 \<le> length k" "f_round (bi, k) = (bo, k')"
  shows "columns bo = xor_bytes (mix_columns (shift_rows (sub_bytes (columns bi)))) (columns (take 4 k))" "length bo = 4" "k' = drop 4 k"
proof -
  obtain x0 x1 x2 x3 where bi: "bi = [x0, x1, x2, x3]" using assms(1) unfolding length_4 by blast
  obtain k0 k1 k2 k3 r where k: "k = k0 # k1 # k2 # k3 # r" using assms(2) by (auto simp: numeral_eq_Suc Suc_le_length_iff)
  have bo: "bo = map2 (XOR) (map (f_rnd bi) [0, 1, 2, 3]) (take 4 k)" using assms(3) by (auto simp: f_round_def k)
  show "columns bo = xor_bytes (mix_columns (shift_rows (sub_bytes (columns bi)))) (columns (take 4 k))"
    unfolding bo using f_rnds [of x0 x1 x2 x3] by (subst columns_xor) (simp_all add: k bi)
  show "length bo = 4" "k' = drop 4 k" using assms(3) by (auto simp: f_round_def)
qed

section \<open>The key schedule\<close>

text \<open>The words made so far are the columns of the key expansion.\<close>

definition expands :: "u8 list \<Rightarrow> u32 list \<Rightarrow> bool" where
  "expands key E \<longleftrightarrow> (\<forall>i < length E. u32_out (E ! i) = key_columns key i)"

lemma u32_in_bytes: "u32_in [byte0 w, byte1 w, byte2 w, byte3 w] = w"
  by (rule bit_word_eqI) (auto simp: bit_u32_in byte0_def byte1_def byte2_def byte3_def bit_ucast_iff bit_drop_bit_eq)

lemma ls_box_rot3: "u32_out (ls_box (rot3 w)) = sub_bytes (rotate1 (u32_out w))"
proof -
  obtain a b c d where w: "w = u32_in [a, b, c, d]" using u32_in_bytes [of w] by metis
  have "rot3 w = u32_in [b, c, d, a]" by (simp add: w rot3_def rotated_word)
  then show ?thesis unfolding w by (simp add: ls_box_def fl_tab_nth u32_out_def sub_bytes_def)
qed

lemma expands_append:
  "expands key (E @ F) \<longleftrightarrow> expands key E \<and> (\<forall>i < length F. u32_out (F ! i) = key_columns key (length E + i))"
proof -
  have "expands key (E @ F) \<longleftrightarrow> (\<forall>i < length E + length F. u32_out ((E @ F) ! i) = key_columns key i)" by (simp add: expands_def)
  also have "\<dots> \<longleftrightarrow> (\<forall>i < length E. u32_out ((E @ F) ! i) = key_columns key i)
      \<and> (\<forall>i < length F. u32_out ((E @ F) ! (length E + i)) = key_columns key (length E + i))"
  proof (intro iffI conjI allI impI)
    fix i
    assume both: "(\<forall>i < length E. u32_out ((E @ F) ! i) = key_columns key i)
      \<and> (\<forall>i < length F. u32_out ((E @ F) ! (length E + i)) = key_columns key (length E + i))"
      and i: "i < length E + length F"
    show "u32_out ((E @ F) ! i) = key_columns key i"
    proof (cases "i < length E")
      case False
      then obtain k where "i = length E + k" using le_Suc_ex by (metis linorder_not_le)
      then show ?thesis using both i by simp
    qed (use both in blast)
  next
    fix i
    assume "\<forall>i < length E + length F. u32_out ((E @ F) ! i) = key_columns key i" "i < length F"
    then show "u32_out ((E @ F) ! (length E + i)) = key_columns key (length E + i)" by (meson nat_add_left_cancel_less)
  qed simp
  finally show ?thesis by (simp add: expands_def nth_append)
qed

lemma expands_four:
  "expands key (E @ [a, b, c, d]) \<longleftrightarrow> expands key E \<and> u32_out a = key_columns key (length E) \<and> u32_out b = key_columns key (length E + 1)
    \<and> u32_out c = key_columns key (length E + 2) \<and> u32_out d = key_columns key (length E + 3)"
  unfolding expands_append by (auto simp: numeral_eq_Suc less_Suc_eq all_conj_distrib)

lemma key_columns_step:
  "key_columns key (4 * j + 4) = xor_bytes (key_columns key (4 * j)) (xor_bytes (sub_bytes (rotate1 (key_columns key (4 * j + 3)))) (rcon (j + 1)))"
  "key_columns key (4 * j + 4 + 1) = xor_bytes (key_columns key (4 * j + 1)) (key_columns key (4 * j + 4))"
  "key_columns key (4 * j + 4 + 2) = xor_bytes (key_columns key (4 * j + 2)) (key_columns key (4 * j + 4 + 1))"
  "key_columns key (4 * j + 4 + 3) = xor_bytes (key_columns key (4 * j + 3)) (key_columns key (4 * j + 4 + 2))"
proof -
  have m: "(4 * j + 4) mod 4 = 0" "(4 * j + 4 + 1) mod 4 = 1" "(4 * j + 4 + 2) mod 4 = 2" "(4 * j + 4 + 3) mod 4 = 3"
    "(4 * j + 4) div 4 = j + 1" by presburger+
  have d: "4 * j + 4 - 1 = 4 * j + 3" "4 * j + 4 - 4 = 4 * j" "4 * j + 4 + 1 - 1 = 4 * j + 4" "4 * j + 4 + 1 - 4 = 4 * j + 1"
    "4 * j + 4 + 2 - 1 = 4 * j + 4 + 1" "4 * j + 4 + 2 - 4 = 4 * j + 2" "4 * j + 4 + 3 - 1 = 4 * j + 4 + 2" "4 * j + 4 + 3 - 4 = 4 * j + 3"
    by simp_all
  have n: "\<not> 4 * j + 4 < 4" "\<not> 4 * j + 4 + 1 < 4" "\<not> 4 * j + 4 + 2 < 4" "\<not> 4 * j + 4 + 3 < 4" by simp_all
  have z: "(1 :: nat) \<noteq> 0" "(2 :: nat) \<noteq> 0" "(3 :: nat) \<noteq> 0" by simp_all
  show "key_columns key (4 * j + 4) = xor_bytes (key_columns key (4 * j)) (xor_bytes (sub_bytes (rotate1 (key_columns key (4 * j + 3)))) (rcon (j + 1)))"
    by (subst key_columns.simps) (simp only: n(1) m d Let_def if_True if_False refl simp_thms)
  show "key_columns key (4 * j + 4 + 1) = xor_bytes (key_columns key (4 * j + 1)) (key_columns key (4 * j + 4))"
    by (subst key_columns.simps) (simp only: n(2) m d Let_def if_False z)
  show "key_columns key (4 * j + 4 + 2) = xor_bytes (key_columns key (4 * j + 2)) (key_columns key (4 * j + 4 + 1))"
    by (subst key_columns.simps) (simp only: n(3) m d Let_def if_False z)
  show "key_columns key (4 * j + 4 + 3) = xor_bytes (key_columns key (4 * j + 3)) (key_columns key (4 * j + 4 + 2))"
    by (subst key_columns.simps) (simp only: n(4) m d Let_def if_False z)
qed

lemma xor_bytes_assoc: "xor_bytes (xor_bytes a b) c = xor_bytes a (xor_bytes b c)"
  by (rule nth_equalityI) (simp_all add: xor_bytes_def xor.assoc)

lemma key_round_expands:
  assumes e: "expands key E" and l: "length E = 4 * j + 4" and rc: "u32_out rc = rcon (j + 1)"
  shows "expands key (key_round rc E)" "length (key_round rc E) = 4 * (j + 1) + 4"
proof -
  have "length (drop (length E - 4) E) = 4" using l by simp
  then obtain a b c d where d: "drop (length E - 4) E = [a, b, c, d]" unfolding length_4 by blast
  then have E: "E = take (length E - 4) E @ [a, b, c, d]" by (metis append_take_drop_id)
  have F: "length (take (length E - 4) E) = 4 * j" using l by simp
  define e4 where "e4 = a XOR ls_box (rot3 d) XOR rc"
  define e5 where "e5 = b XOR e4"
  define e6 where "e6 = c XOR e5"
  define e7 where "e7 = d XOR e6"
  have k: "key_round rc E = E @ [e4, e5, e6, e7]"
    by (simp add: key_round_def d Let_def e4_def e5_def e6_def e7_def)
  have "expands key (take (length E - 4) E @ [a, b, c, d])" using e E by simp
  then have old: "u32_out a = key_columns key (4 * j)" "u32_out b = key_columns key (4 * j + 1)" "u32_out c = key_columns key (4 * j + 2)"
    "u32_out d = key_columns key (4 * j + 3)"
    unfolding expands_four F by blast+
  have 4: "u32_out e4 = key_columns key (4 * j + 4)"
    unfolding e4_def u32_out_xor ls_box_rot3 old rc key_columns_step(1) xor_bytes_assoc ..
  have 5: "u32_out e5 = key_columns key (4 * j + 4 + 1)" unfolding e5_def u32_out_xor old 4 key_columns_step(2) ..
  have 6: "u32_out e6 = key_columns key (4 * j + 4 + 2)" unfolding e6_def u32_out_xor old 5 key_columns_step(3) ..
  have 7: "u32_out e7 = key_columns key (4 * j + 4 + 3)" unfolding e7_def u32_out_xor old 6 key_columns_step(4) ..
  show "length (key_round rc E) = 4 * (j + 1) + 4" using l by (simp add: k)
  show "expands key (key_round rc E)" unfolding k expands_four l using e 4 5 6 7 by blast
qed

lemma key_rounds_expand:
  assumes "expands key E" "length E = 4 * j + 4" "\<forall>i < length rcs. u32_out (rcs ! i) = rcon (j + 1 + i)"
  shows "expands key (fold key_round rcs E) \<and> length (fold key_round rcs E) = 4 * (j + length rcs) + 4"
  using assms
proof (induction rcs arbitrary: E j)
  case (Cons rc rcs)
  have "u32_out rc = rcon (j + 1)" using Cons.prems(3) by force
  note step = key_round_expands [OF Cons.prems(1,2) this]
  have "\<forall>i < length rcs. u32_out (rcs ! i) = rcon (j + 1 + 1 + i)" using Cons.prems(3) by force
  then show ?case using Cons.IH [OF step] by simp
qed simp

lemma rnd_con_rcon: "\<forall>i < length rnd_con. u32_out (rnd_con ! i) = rcon (0 + 1 + i)"
proof -
  have "map u32_out rnd_con = map (\<lambda>i. rcon (Suc i)) [0..<10]" by code_simp
  then show ?thesis by (auto simp: list_eq_iff_nth_eq)
qed

lemma key_schedule_expands:
  assumes "length key = 16"
  shows "expands key (RijndaelKeySchedule key)" "length (RijndaelKeySchedule key) = 44"
proof -
  have "expands key [u32_in key, u32_in (drop 4 key), u32_in (drop 8 key), u32_in (drop 12 key)]"
    using expands_four [of key "[]"] assms by (simp add: u32_out_in key_columns.simps expands_def)
  then have "expands key (RijndaelKeySchedule key) \<and> length (RijndaelKeySchedule key) = 4 * (0 + length rnd_con) + 4"
    unfolding RijndaelKeySchedule_def by (rule key_rounds_expand [OF _ _ rnd_con_rcon]) simp
  then show "expands key (RijndaelKeySchedule key)" "length (RijndaelKeySchedule key) = 44" by (simp_all add: rnd_con_def)
qed

section \<open>The encryption\<close>

lemma round_keys:
  assumes "expands key E" "4 * n + 4 \<le> length E"
  shows "columns (take 4 (drop (4 * n) E)) = round_key key n"
proof -
  have "take 4 (drop (4 * n) E) = map (\<lambda>i. E ! i) [4 * n..<4 * n + 4]"
    using assms(2) by (intro nth_equalityI) simp_all
  moreover have "map u32_out (map (\<lambda>i. E ! i) [4 * n..<4 * n + 4]) = map (key_columns key) [4 * n..<4 * n + 4]"
    using assms by (simp add: expands_def)
  ultimately show ?thesis unfolding columns_def round_key_def by (simp only:)
qed

theorem rijndael_encrypts:
  assumes "length key = 16" "length inp = 16"
  shows "RijndaelEncrypt (RijndaelKeySchedule key) inp = aes_encrypt key inp"
proof -
  define E where "E = RijndaelKeySchedule key"
  have E: "expands key E" "length E = 44" unfolding E_def by (rule key_schedule_expands [OF assms(1)])+
  define b0 where "b0 = [u32_in inp XOR E ! 0, u32_in (drop 4 inp) XOR E ! 1, u32_in (drop 8 inp) XOR E ! 2, u32_in (drop 12 inp) XOR E ! 3]"
  have b0: "columns b0 = xor_bytes inp (round_key key 0)" "length b0 = 4"
  proof -
    have "columns (take 4 E) = round_key key 0" using round_keys [OF E(1), of 0] E(2) by simp
    moreover have "take 4 E = [E ! 0, E ! 1, E ! 2, E ! 3]" using E(2) by (simp add: list_eq_iff_nth_eq numeral_eq_Suc less_Suc_eq all_conj_distrib)
    moreover have "columns [u32_in inp, u32_in (drop 4 inp), u32_in (drop 8 inp), u32_in (drop 12 inp)] = inp"
    proof -
      have "inp = take 4 inp @ take 4 (drop 4 inp) @ take 4 (drop 8 inp) @ take 4 (drop 12 inp)"
        using assms(2) by (simp add: list_eq_iff_nth_eq nth_append)
      then show ?thesis using assms(2) by (simp add: u32_out_in)
    qed
    moreover have "b0 = map2 (XOR) [u32_in inp, u32_in (drop 4 inp), u32_in (drop 8 inp), u32_in (drop 12 inp)] [E ! 0, E ! 1, E ! 2, E ! 3]"
      by (simp add: b0_def)
    moreover have "columns (map2 (XOR) [u32_in inp, u32_in (drop 4 inp), u32_in (drop 8 inp), u32_in (drop 12 inp)] [E ! 0, E ! 1, E ! 2, E ! 3])
        = xor_bytes (columns [u32_in inp, u32_in (drop 4 inp), u32_in (drop 8 inp), u32_in (drop 12 inp)]) (columns [E ! 0, E ! 1, E ! 2, E ! 3])"
      by (rule columns_xor) simp
    ultimately show "columns b0 = xor_bytes inp (round_key key 0)" by (simp only:)
  qed (simp add: b0_def)
  have "\<exists>b. (f_round ^^ j) (b0, drop 4 E) = (b, drop (4 * j + 4) E) \<and> length b = 4
      \<and> columns b = fold (aes_round key) [1..<j + 1] (columns b0)" if "j \<le> 9" for j
    using that
  proof (induction j)
    case (Suc j)
    then obtain b where b: "(f_round ^^ j) (b0, drop 4 E) = (b, drop (4 * j + 4) E)" "length b = 4"
      "columns b = fold (aes_round key) [1..<j + 1] (columns b0)" by auto
    obtain b' k' where f: "f_round (b, drop (4 * j + 4) E) = (b', k')" by fastforce
    have "4 \<le> length (drop (4 * j + 4) E)" using Suc.prems E(2) by simp
    note r = f_round_columns [OF b(2) this f]
    have "columns (take 4 (drop (4 * j + 4) E)) = round_key key (j + 1)"
      using round_keys [OF E(1), of "j + 1"] Suc.prems E(2) by (simp add: add.commute [of 4])
    then have "columns b' = aes_round key (j + 1) (columns b)" using r(1) by (simp add: aes_round_def)
    then show ?case using b f r(2,3) by simp
  qed (simp add: b0)
  from this [of 9] obtain b where b: "(f_round ^^ 9) (b0, drop 4 E) = (b, drop 40 E)" "length b = 4"
    "columns b = fold (aes_round key) [1..<10] (columns b0)" by auto
  obtain x0 x1 x2 x3 where x: "b = [x0, x1, x2, x3]" using b(2) unfolding length_4 by blast
  have lf: "columns (map (lf_rnd b) [0, 1, 2, 3]) = shift_rows (sub_bytes (columns b))" unfolding x by (rule lf_rnds)
  have "length (drop 40 E) = 4" using E(2) by simp
  then obtain k0 k1 k2 k3 where k: "drop 40 E = [k0, k1, k2, k3]" unfolding length_4 by blast
  have key: "columns [k0, k1, k2, k3] = round_key key 10" using round_keys [OF E(1), of 10] E(2) by (simp add: k)
  have "RijndaelEncrypt E inp = columns (map2 (XOR) (map (lf_rnd b) [0, 1, 2, 3]) [k0, k1, k2, k3])"
    unfolding RijndaelEncrypt_def Let_def b0_def [symmetric] b(1) k by simp
  also have "\<dots> = xor_bytes (columns (map (lf_rnd b) [0, 1, 2, 3])) (columns [k0, k1, k2, k3])"
    by (rule columns_xor) simp
  finally show ?thesis unfolding aes_encrypt_def E_def [symmetric] lf key b(3) b0(1) .
qed

end
