(* ===== verification/Milenage.thy ===== *)
theory Milenage
  imports Rijndael_Aes
begin

text \<open>
  \<^verbatim>\<open>milenage.c\<close>: the functions by which a subscriber and a network derive answers and keys from a challenge.
  The reference is 3GPP TS 35.206. The key schedule is a variable of \<^verbatim>\<open>rijndael.c\<close>; it is made
  of the key at the start of each function, and passed on. A loop that assigns to the places
  \<open>(i + n) % 16\<close> of an array is \<open>put_rotated\<close>.
\<close>

section \<open>The functions of the code\<close>

definition OP :: "u8 list" where "OP = replicate 16 0"

definition ComputeOPc :: "u32 list \<Rightarrow> u8 list" where
  "ComputeOPc Ekey = xor_bytes (RijndaelEncrypt Ekey OP) OP"

definition put_rotated :: "nat \<Rightarrow> u8 list \<Rightarrow> u8 list \<Rightarrow> u8 list" where
  "put_rotated n xs arr = fold (\<lambda>i arr. arr[(i + n) mod 16 := xs ! i]) [0..<16] arr"

text \<open>The arrays \<open>rijndaelInput\<close> of \<open>f1\<close> and \<open>f1star\<close>, what both do to the first eight and the last eight bytes of the output.\<close>

definition f1_out :: "u8 list \<Rightarrow> u8 list \<Rightarrow> u8 list \<Rightarrow> u8 list \<Rightarrow> u8 list" where
  "f1_out k rand sqn amf =
    (let Ekey = RijndaelKeySchedule k;
         op_c = ComputeOPc Ekey;
         rijndaelInput = xor_bytes rand op_c;
         temp = RijndaelEncrypt Ekey rijndaelInput;
         in1 = take 6 sqn @ take 2 amf @ take 6 sqn @ take 2 amf;
         rijndaelInput = put_rotated 8 (xor_bytes in1 op_c) rijndaelInput;
         rijndaelInput = xor_bytes rijndaelInput temp
     in xor_bytes (RijndaelEncrypt Ekey rijndaelInput) op_c)"

definition f1 :: "u8 list \<Rightarrow> u8 list \<Rightarrow> u8 list \<Rightarrow> u8 list \<Rightarrow> u8 list" where
  "f1 k rand sqn amf = take 8 (f1_out k rand sqn amf)"

definition f1star :: "u8 list \<Rightarrow> u8 list \<Rightarrow> u8 list \<Rightarrow> u8 list \<Rightarrow> u8 list" where
  "f1star k rand sqn amf = take 8 (drop 8 (f1_out k rand sqn amf))"

text \<open>One output block of \<open>f2345\<close> and \<open>f5star\<close>: rotate, change the last byte by a constant, encrypt.\<close>

definition out_block :: "u32 list \<Rightarrow> u8 list \<Rightarrow> u8 list \<Rightarrow> nat \<Rightarrow> u8 \<Rightarrow> u8 list \<Rightarrow> u8 list \<times> u8 list" where
  "out_block Ekey op_c temp n c rijndaelInput =
    (let rijndaelInput = put_rotated n (xor_bytes temp op_c) rijndaelInput;
         rijndaelInput = rijndaelInput[15 := rijndaelInput ! 15 XOR c]
     in (xor_bytes (RijndaelEncrypt Ekey rijndaelInput) op_c, rijndaelInput))"

definition f2345 :: "u8 list \<Rightarrow> u8 list \<Rightarrow> u8 list \<times> u8 list \<times> u8 list \<times> u8 list" where
  "f2345 k rand =
    (let Ekey = RijndaelKeySchedule k;
         op_c = ComputeOPc Ekey;
         rijndaelInput = xor_bytes rand op_c;
         temp = RijndaelEncrypt Ekey rijndaelInput;
         (out, rijndaelInput) = out_block Ekey op_c temp 0 1 rijndaelInput;
         res = take 8 (drop 8 out);
         ak = take 6 out;
         (out, rijndaelInput) = out_block Ekey op_c temp 12 2 rijndaelInput;
         ck = out;
         (out, rijndaelInput) = out_block Ekey op_c temp 8 4 rijndaelInput;
         ik = out
     in (res, ck, ik, ak))"

definition f5star :: "u8 list \<Rightarrow> u8 list \<Rightarrow> u8 list" where
  "f5star k rand =
    (let Ekey = RijndaelKeySchedule k;
         op_c = ComputeOPc Ekey;
         rijndaelInput = xor_bytes rand op_c;
         temp = RijndaelEncrypt Ekey rijndaelInput
     in take 6 (fst (out_block Ekey op_c temp 4 8 rijndaelInput)))"

section \<open>The functions of 3GPP TS 35.206\<close>

text \<open>
  \<open>rot x r\<close> rotates a block by \<open>r\<close> bits towards the most significant bit. The rotations are by whole
  bytes; the constants change one bit of the last byte.
\<close>

definition rot :: "u8 list \<Rightarrow> nat \<Rightarrow> u8 list" where "rot x r = rotate (r div 8) x"

definition c_block :: "u8 \<Rightarrow> u8 list" where "c_block c = replicate 15 0 @ [c]"

definition OPc :: "u8 list \<Rightarrow> u8 list \<Rightarrow> u8 list" where "OPc op k = xor_bytes op (aes_encrypt k op)"

definition TEMP :: "u8 list \<Rightarrow> u8 list \<Rightarrow> u8 list \<Rightarrow> u8 list" where
  "TEMP opc k rand = aes_encrypt k (xor_bytes rand opc)"

definition OUT1 :: "u8 list \<Rightarrow> u8 list \<Rightarrow> u8 list \<Rightarrow> u8 list \<Rightarrow> u8 list \<Rightarrow> u8 list" where
  "OUT1 opc k rand sqn amf = xor_bytes (aes_encrypt k (xor_bytes (TEMP opc k rand)
     (xor_bytes (rot (xor_bytes (sqn @ amf @ sqn @ amf) opc) 64) (c_block 0)))) opc"

definition OUT :: "nat \<Rightarrow> u8 \<Rightarrow> u8 list \<Rightarrow> u8 list \<Rightarrow> u8 list \<Rightarrow> u8 list" where
  "OUT r c opc k rand = xor_bytes (aes_encrypt k (xor_bytes (rot (xor_bytes (TEMP opc k rand) opc) r) (c_block c))) opc"

section \<open>The code computes them\<close>

lemma sixteen: "length xs = 16 \<longleftrightarrow> (\<exists>a b c d e f g h i j k l m n p q. xs = [a, b, c, d, e, f, g, h, i, j, k, l, m, n, p, q])"
  by (simp add: numeral_eq_Suc length_Suc_conv) metis

lemma put_rotated_rotate:
  assumes "length xs = 16" "length arr = 16"
  shows "put_rotated 0 xs arr = xs" "put_rotated 4 xs arr = rot xs 96" "put_rotated 8 xs arr = rot xs 64" "put_rotated 12 xs arr = rot xs 32"
proof -
  obtain a b c d e f g h i j k l m n p q where xs: "xs = [a, b, c, d, e, f, g, h, i, j, k, l, m, n, p, q]"
    using assms(1) unfolding sixteen by blast
  have u: "[0..<16] = [0, 1, 2, 3, 4, 5, 6, 7, 8, 9, 10, 11, 12, 13, 14, 15]" by (simp add: upt_rec)
  obtain a' b' c' d' e' f' g' h' i' j' k' l' m' n' p' q' where arr: "arr = [a', b', c', d', e', f', g', h', i', j', k', l', m', n', p', q']"
    using assms(2) unfolding sixteen by blast
  show "put_rotated 0 xs arr = xs" "put_rotated 4 xs arr = rot xs 96" "put_rotated 8 xs arr = rot xs 64" "put_rotated 12 xs arr = rot xs 32"
    by (simp_all add: put_rotated_def u xs arr rot_def rotate_drop_take)
qed

lemma RijndaelEncrypt_length [simp]: "length (RijndaelEncrypt Ekey s) = 16"
  by (simp add: RijndaelEncrypt_def Let_def split: prod.split)

lemma aes_length [simp]: "length key = 16 \<Longrightarrow> length s = 16 \<Longrightarrow> length (aes_encrypt key s) = 16"
  using rijndael_encrypts [of key s] RijndaelEncrypt_length [of "RijndaelKeySchedule key" s] by simp

lemma xor_bytes_commute: "xor_bytes a b = xor_bytes b a"
  by (rule nth_equalityI) (simp_all add: xor_bytes_def xor.commute)

lemma change_last: "length x = 16 \<Longrightarrow> x[15 := x ! 15 XOR c] = xor_bytes x (c_block c)"
  unfolding sixteen by (auto simp: xor_bytes_def c_block_def numeral_eq_Suc)

lemma rot_length [simp]: "length (rot x r) = length x"
  by (simp add: rot_def)

lemma length_OP [simp]: "length OP = 16"
  by (simp add: OP_def)

lemma ComputeOPc_ok: "length k = 16 \<Longrightarrow> ComputeOPc (RijndaelKeySchedule k) = OPc OP k"
  by (simp add: ComputeOPc_def OPc_def rijndael_encrypts xor_bytes_commute)

lemma length_OPc [simp]: "length k = 16 \<Longrightarrow> length (OPc OP k) = 16"
  by (simp add: OPc_def)

lemma put_rotated_rot:
  assumes "(n, r) \<in> {(0, 0), (4, 96), (8, 64), (12, 32)}" "length xs = 16" "length arr = 16"
  shows "put_rotated n xs arr = rot xs r"
  using assms put_rotated_rotate [OF assms(2,3)] by (auto simp: rot_def)

lemma out_block_ok:
  assumes "length k = 16" "length rand = 16" "length arr = 16" "(n, r) \<in> {(0, 0), (4, 96), (8, 64), (12, 32)}"
  shows "\<exists>arr'. out_block (RijndaelKeySchedule k) (OPc OP k) (TEMP (OPc OP k) k rand) n c arr = (OUT r c (OPc OP k) k rand, arr')
    \<and> length arr' = 16"
proof -
  have t: "length (xor_bytes (TEMP (OPc OP k) k rand) (OPc OP k)) = 16" using assms(1,2) by (simp add: TEMP_def)
  have c: "length (c_block c) = 16" by (simp add: c_block_def)
  show ?thesis
    using assms(1,2) t c
    by (simp add: out_block_def Let_def put_rotated_rot [OF assms(4) t assms(3)] change_last rijndael_encrypts OUT_def)
qed

lemma first_block:
  assumes "length k = 16" "length rand = 16"
  shows "RijndaelEncrypt (RijndaelKeySchedule k) (xor_bytes rand (OPc OP k)) = TEMP (OPc OP k) k rand"
  using assms by (simp add: TEMP_def rijndael_encrypts)

theorem f2345_ok:
  assumes "length k = 16" "length rand = 16"
  shows "f2345 k rand = (take 8 (drop 8 (OUT 0 1 (OPc OP k) k rand)), OUT 32 2 (OPc OP k) k rand, OUT 64 4 (OPc OP k) k rand,
    take 6 (OUT 0 1 (OPc OP k) k rand))"
proof -
  let ?block = "\<lambda>n c. out_block (RijndaelKeySchedule k) (OPc OP k) (TEMP (OPc OP k) k rand) n c"
  have 0: "length (xor_bytes rand (OPc OP k)) = 16" using assms by simp
  obtain a1 where 1: "?block 0 1 (xor_bytes rand (OPc OP k)) = (OUT 0 1 (OPc OP k) k rand, a1)" "length a1 = 16"
    using out_block_ok [OF assms 0, of 0 0 1] by auto
  obtain a2 where 2: "?block 12 2 a1 = (OUT 32 2 (OPc OP k) k rand, a2)" "length a2 = 16"
    using out_block_ok [OF assms 1(2), of 12 32 2] by auto
  obtain a3 where 3: "?block 8 4 a2 = (OUT 64 4 (OPc OP k) k rand, a3)"
    using out_block_ok [OF assms 2(2), of 8 64 4] by auto
  show ?thesis
    unfolding f2345_def Let_def ComputeOPc_ok [OF assms(1)] first_block [OF assms] 1(1) prod.case 2(1) 3 ..
qed

theorem f5star_ok:
  assumes "length k = 16" "length rand = 16"
  shows "f5star k rand = take 6 (OUT 96 8 (OPc OP k) k rand)"
proof -
  have l: "length (xor_bytes rand (OPc OP k)) = 16" using assms by simp
  obtain a where "out_block (RijndaelKeySchedule k) (OPc OP k) (TEMP (OPc OP k) k rand) 4 8 (xor_bytes rand (OPc OP k))
      = (OUT 96 8 (OPc OP k) k rand, a)"
    using out_block_ok [OF assms l, of 4 96 8] by auto
  then show ?thesis unfolding f5star_def Let_def ComputeOPc_ok [OF assms(1)] first_block [OF assms] by simp
qed

lemma f1_out_ok:
  assumes "length k = 16" "length rand = 16" "length sqn = 6" "length amf = 2"
  shows "f1_out k rand sqn amf = OUT1 (OPc OP k) k rand sqn amf"
proof -
  let ?in1 = "xor_bytes (sqn @ amf @ sqn @ amf) (OPc OP k)"
  have l: "length ?in1 = 16" "length (xor_bytes rand (OPc OP k)) = 16" using assms by simp_all
  have z: "xor_bytes x (c_block 0) = x" if "length x = 16" for x
    using that unfolding sixteen by (auto simp: xor_bytes_def c_block_def numeral_eq_Suc)
  have in1: "take 6 sqn @ take 2 amf @ take 6 sqn @ take 2 amf = sqn @ amf @ sqn @ amf" using assms by simp
  show ?thesis
    unfolding f1_out_def Let_def ComputeOPc_ok [OF assms(1)] first_block [OF assms(1,2)] in1
      put_rotated_rotate(3) [OF l] OUT1_def z [of "rot ?in1 64", unfolded rot_length, OF l(1)]
      xor_bytes_commute [of "rot ?in1 64" "TEMP (OPc OP k) k rand"]
    using assms by (subst rijndael_encrypts) (simp_all add: TEMP_def)
qed

theorem f1_ok:
  assumes "length k = 16" "length rand = 16" "length sqn = 6" "length amf = 2"
  shows "f1 k rand sqn amf = take 8 (OUT1 (OPc OP k) k rand sqn amf)"
    "f1star k rand sqn amf = take 8 (drop 8 (OUT1 (OPc OP k) k rand sqn amf))"
  by (simp_all add: f1_def f1star_def f1_out_ok [OF assms])

end
