(* ===== verification/Digest_Auth.thy ===== *)
theory Digest_Auth
  imports Message_Parse Osip_Quotes Milenage
begin

text \<open>
  \<^verbatim>\<open>jauth.c\<close>: the answer of the user agent to a challenge (RFC 2617), with MD5 or with the keys of a
  mobile network (AKA). A \<^verbatim>\<open>HASH\<close> is a list of sixteen bytes, a \<^verbatim>\<open>HASHHEX\<close> a string. What an uninitialised buffer of the digest
  holds is the parameter \<open>g\<close>. A password is hashed into \<open>ha1\<close>, which the
  application may give instead: it is an array of bytes, of which the code reads the first 32.
\<close>

section \<open>The digest\<close>

definition hex_char :: "u8 \<Rightarrow> char" where
  "hex_char j = (if j \<le> 9 then char_of (unat j + 48) else char_of (unat j + 87))"

definition CvtHex :: "byte list \<Rightarrow> string" where
  "CvtHex Bin = concat (map (\<lambda>b. [hex_char (drop_bit 4 b AND 15), hex_char (b AND 15)]) Bin)"

definition colon :: "byte list" where "colon = [0x3a]"

definition DigestCalcHA1 :: "byte list \<Rightarrow> cstr \<Rightarrow> cstr \<Rightarrow> cstr \<Rightarrow> cstr \<Rightarrow> cstr \<Rightarrow> cstr \<Rightarrow> cstr" where
  "DigestCalcHA1 g pszAlg pszUserName pszRealm pszPassword pszNonce pszCNonce = do {
     u \<leftarrow> pszUserName;
     r \<leftarrow> pszRealm;
     p \<leftarrow> pszPassword;
     HA1 \<leftarrow> md5_of_pieces g [bytes_of u, colon, bytes_of r, colon, bytes_of p];
     HA1 \<leftarrow> (case pszAlg of
         None \<Rightarrow> Some HA1
       | Some a \<Rightarrow> if osip_strcasecmp_eq a ''md5-sess''
           then do { n \<leftarrow> pszNonce; c \<leftarrow> pszCNonce; md5_of_pieces g [HA1, colon, bytes_of n, colon, bytes_of c] }
           else Some HA1);
     Some (CvtHex HA1)
   }"

text \<open>The code reads 32 bytes of \<open>HA1\<close> and of \<open>HEntity\<close>.\<close>

definition DigestCalcResponse ::
  "byte list \<Rightarrow> byte list \<Rightarrow> cstr \<Rightarrow> cstr \<Rightarrow> cstr \<Rightarrow> cstr \<Rightarrow> int \<Rightarrow> cstr \<Rightarrow> cstr \<Rightarrow> byte list \<Rightarrow> cstr" where
  "DigestCalcResponse g HA1 pszNonce pszNonceCount pszCNonce pszQop Aka pszMethod pszDigestUri HEntity = do {
     me \<leftarrow> pszMethod;
     uri \<leftarrow> pszDigestUri;
     let auth_int = (case pszQop of None \<Rightarrow> False | Some q \<Rightarrow> osip_strcasecmp_eq q ''auth-int'');
     let auth = (case pszQop of None \<Rightarrow> False | Some q \<Rightarrow> osip_strcasecmp_eq q ''auth'');
     let A2 = [bytes_of me, colon, bytes_of uri];
     ub_unless (auth_int \<longrightarrow> 32 \<le> length HEntity);
     HA2 \<leftarrow> md5_of_pieces g (if auth_int then A2 @ [colon, take 32 HEntity] else A2);
     ub_unless (32 \<le> length HA1);
     n \<leftarrow> pszNonce;
     fields \<leftarrow> (if (auth_int \<or> auth) \<and> Aka = 0
        then do { nc \<leftarrow> pszNonceCount; c \<leftarrow> pszCNonce; q \<leftarrow> pszQop;
                  Some [bytes_of nc, colon, bytes_of c, colon, bytes_of q, colon] }
        else Some []);
     RespHash \<leftarrow> md5_of_pieces g ([take 32 HA1, colon, bytes_of n, colon] @ fields @ [bytes_of (CvtHex HA2)]);
     Some (CvtHex RespHash)
   }"

section \<open>AKA\<close>

definition base64_alphabet :: string where
  "base64_alphabet = ''ABCDEFGHIJKLMNOPQRSTUVWXYZabcdefghijklmnopqrstuvwxyz0123456789+/''"

text \<open>The value of a character: \<open>-1\<close> for padding, zero for what is no character of the alphabet.\<close>

definition base64_val :: "char \<Rightarrow> int" where
  "base64_val x = (if x = CHR ''='' then -1
     else let i = length (takeWhile (\<lambda>c. c \<noteq> x) base64_alphabet) in if i < 64 then int i else 0)"

definition base64_byte1 :: "int \<Rightarrow> int \<Rightarrow> byte" where
  "base64_byte1 x1 x2 = word_of_int (push_bit 2 x1 OR drop_bit 4 (x2 AND 0x30))"

definition base64_byte2 :: "int \<Rightarrow> int \<Rightarrow> byte" where
  "base64_byte2 x2 x3 = word_of_int (push_bit 4 (x2 AND 0x0F) OR drop_bit 2 (x3 AND 0x3C))"

definition base64_byte3 :: "int \<Rightarrow> int \<Rightarrow> byte" where
  "base64_byte3 x3 x4 = word_of_int (push_bit 6 (x3 AND 0x03) OR (x4 AND 0x3F))"

text \<open>The loop takes four characters when more follow. The rest is padded with \<open>-1\<close>; behind the text is a NUL.\<close>

fun base64_loop :: "string \<Rightarrow> byte list" where
  "base64_loop (a # b # c # d # e # buf) =
     (let x1 = base64_val a; x2 = base64_val b; x3 = base64_val c; x4 = base64_val d
      in base64_byte1 x1 x2 # base64_byte2 x2 x3 # base64_byte3 x3 x4 # base64_loop (e # buf))"
| "base64_loop buf =
     (let x1 = base64_val (cur buf);
          x2 = (if 1 < length buf then base64_val (buf ! 1) else -1);
          x3 = (if 2 < length buf then base64_val (buf ! 2) else -1);
          x4 = (if 3 < length buf then base64_val (buf ! 3) else -1)
      in if x2 = -1 then []
         else base64_byte1 x1 x2 # (if x3 = -1 then []
           else base64_byte2 x2 x3 # (if x4 = -1 then [] else [base64_byte3 x3 x4])))"

text \<open>The output and its NUL must fit into the buffer.\<close>

definition base64_decode_string :: "string \<Rightarrow> mem \<Rightarrow> (byte list option \<times> mem) option" where
  "base64_decode_string buf m = alloc_or m None (\<lambda>m. do {
     let out = base64_loop buf;
     ub_unless (length out + 1 \<le> length buf * 3 div 4 + 8);
     Some (Some out, m)
   })"

text \<open>
  The password is copied into an array of sixteen bytes, whatever its length. The message
  authentication code of the network is computed by the code and then ignored, so it is left out. For a challenge that
  is too short the answer is the empty string.
\<close>

definition DigestCalcResponseAka :: "cstr \<Rightarrow> cstr \<Rightarrow> int \<Rightarrow> mem \<Rightarrow> (string \<times> mem) option" where
  "DigestCalcResponseAka pszPassword pszNonce version m = do {
     n \<leftarrow> pszNonce;
     (nonce, m) \<leftarrow> base64_decode_string (take 2047 n) m;
     (case nonce of
        None \<Rightarrow> Some ([], m)
      | Some nonce \<Rightarrow>
          if length nonce < 32 then Some ([], m)
          else do {
            p \<leftarrow> pszPassword;
            ub_unless (length p \<le> 16);
            let k = bytes_of p @ replicate (16 - length p) 0;
            let (res, ck, ik, ak) = f2345 k (take 16 nonce);
            let resp_hex = CvtHex res;
            Some (if version = 2 then resp_hex @ CvtHex ik @ CvtHex ck else resp_hex, m)
          })
   }"

section \<open>The header\<close>

type_synonym auth_answer = "((int \<times> osip_authorization option) \<times> mem) option"

text \<open>A string between quotes.\<close>

definition in_quotes :: "string \<Rightarrow> string" where "in_quotes s = [CHR 0x22] @ s @ [CHR 0x22]"

definition challenge_algorithm :: "cstr \<Rightarrow> cstr" where
  "challenge_algorithm a = (case a of
       None \<Rightarrow> Some ''MD5''
     | Some a \<Rightarrow>
         if osip_strcasecmp_eq ''MD5'' a \<or> osip_strcasecmp_eq (in_quotes ''MD5'') a then Some ''MD5''
         else if osip_strcasecmp_eq ''AKAv1-MD5'' a \<or> osip_strcasecmp_eq (in_quotes ''AKAv1-MD5'') a then Some ''AKAv1-MD5''
         else if osip_strcasecmp_eq ''AKAv2-MD5'' a \<or> osip_strcasecmp_eq (in_quotes ''AKAv2-MD5'') a then Some ''AKAv2-MD5''
         else None)"

text \<open>\<^verbatim>\<open>snprintf (szNonceCount, 9, "%.8i", n)\<close>: decimal digits.\<close>

definition nonce_count_text :: "int \<Rightarrow> string" where
  "nonce_count_text n = (let ds = decimal (nat \<bar>n\<bar>)
     in take 8 ((if n < 0 then ''-'' else []) @ replicate (8 - length ds) CHR ''0'' @ ds))"

text \<open>The fields that are copied. Most of the copies are not checked.\<close>

definition auth_copy ::
  "osip_www_authenticate \<Rightarrow> cstr \<Rightarrow> cstr \<Rightarrow> string \<Rightarrow> mem \<Rightarrow> (osip_authorization \<Rightarrow> mem \<Rightarrow> auth_answer) \<Rightarrow> auth_answer" where
  "auth_copy wa rquri username Alg m k = do {
     let (d, m) = osip_strdup (Some ''Digest'') m;
     let (r, m) = osip_strdup (www_realm wa) m;
     (r, m) \<leftarrow> (case r of
         Some r \<Rightarrow> Some (r, m)
       | None \<Rightarrow> (case osip_malloc m of (ok, m) \<Rightarrow> do { ub_unless ok; Some (in_quotes [], m) }));
     let (n, m) = osip_strdup (www_nonce wa) m;
     let (q, m) = osip_strdup (www_opaque wa) m;
     user \<leftarrow> username;
     alloc_or m (OSIP_NOMEM, None) (\<lambda>m. do {
       uri \<leftarrow> rquri;
       alloc_or m (OSIP_NOMEM, None) (\<lambda>m.
         (case osip_strdup (Some Alg) m of (a, m) \<Rightarrow>
            k (osip_authorization_init\<lparr>auth_type := d, auth_realm := Some r, auth_nonce := n, auth_opaque := q,
                 auth_username := Some (in_quotes user), auth_uri := Some (in_quotes uri), auth_algorithm := a\<rparr>) m))
     })
   }"

text \<open>The fields of the quality of protection, when the challenge offers one.\<close>

definition auth_qop ::
  "bool \<Rightarrow> cstr \<Rightarrow> int \<Rightarrow> osip_authorization \<Rightarrow> mem
    \<Rightarrow> (osip_authorization \<Rightarrow> cstr \<Rightarrow> cstr \<Rightarrow> cstr \<Rightarrow> mem \<Rightarrow> auth_answer) \<Rightarrow> auth_answer" where
  "auth_qop qop pCNonce iNonceCount aut m k =
    (if \<not> qop then k aut None None None m
     else alloc_or m (OSIP_NOMEM, None) (\<lambda>m. alloc_or m (OSIP_NOMEM, None) (\<lambda>m.
       let szNonceCount = nonce_count_text iNonceCount in
       (case osip_strdup pCNonce m of
          (None, m) \<Rightarrow> Some ((OSIP_NOMEM, None), m)
        | (Some pszCNonce, m) \<Rightarrow>
            let (mq, m) = osip_strdup (Some ''auth'') m;
                (nc, m) = osip_strdup (Some szNonceCount) m
            in alloc_or m (OSIP_NOMEM, None) (\<lambda>m.
              k (aut\<lparr>auth_message_qop := mq, auth_nonce_count := nc, auth_cnonce := Some (in_quotes pszCNonce)\<rparr>)
                (Some ''auth'') (Some szNonceCount) (Some pszCNonce) m)))))"

text \<open>The hash of the user is given or made of the password, or of the answer of the AKA; the array is ended by a NUL.\<close>

definition auth_ha1 :: "byte list option \<Rightarrow> cstr \<Rightarrow> byte list option" where
  "auth_ha1 ha1 made = (if (case ha1 of Some (b # _) \<Rightarrow> b \<noteq> 0 | _ \<Rightarrow> False) then ha1
     else do { h \<leftarrow> made; Some (bytes_of h @ [0]) })"

definition auth_response_text ::
  "byte list \<Rightarrow> string \<Rightarrow> cstr \<Rightarrow> cstr \<Rightarrow> cstr \<Rightarrow> cstr \<Rightarrow> byte list option \<Rightarrow> cstr \<Rightarrow> cstr \<Rightarrow> cstr \<Rightarrow> cstr \<Rightarrow> cstr \<Rightarrow> mem
    \<Rightarrow> (string \<times> mem) option" where
  "auth_response_text g Alg pszUser pszRealm pszPass pszNonce ha1 szNonceCount pszCNonce pszQop pszMethod pszURI m =
    (let HA2 = replicate 33 0 in
     if osip_strcasecmp_eq Alg ''MD5'' then do {
       pha1 \<leftarrow> auth_ha1 ha1 (DigestCalcHA1 g (Some ''MD5'') pszUser pszRealm pszPass pszNonce pszCNonce);
       r \<leftarrow> DigestCalcResponse g pha1 pszNonce szNonceCount pszCNonce pszQop 0 pszMethod pszURI HA2;
       Some (r, m)
     }
     else do {
       let version = (if osip_strcasecmp_eq Alg ''AKAv1-MD5'' then 1 else 2);
       (Response2, m) \<leftarrow> DigestCalcResponseAka pszPass pszNonce version m;
       pha1 \<leftarrow> auth_ha1 ha1 (DigestCalcHA1 g (Some ''MD5'') pszUser pszRealm (Some Response2) pszNonce pszCNonce);
       r \<leftarrow> DigestCalcResponse g pha1 pszNonce szNonceCount pszCNonce pszQop version pszMethod pszURI HA2;
       Some (r, m)
     })"

definition eXosip_create_proxy_authorization_header ::
  "byte list \<Rightarrow> osip_www_authenticate option \<Rightarrow> cstr \<Rightarrow> cstr \<Rightarrow> cstr \<Rightarrow> byte list option \<Rightarrow> cstr \<Rightarrow> cstr \<Rightarrow> int \<Rightarrow> mem \<Rightarrow> auth_answer" where
  "eXosip_create_proxy_authorization_header g wa rquri username passwd ha1 mtd pCNonce iNonceCount m =
    (case (passwd, wa) of
       (Some passwd, Some wa) \<Rightarrow>
         (case (www_auth_type wa, www_nonce wa) of
            (Some ty, Some nonce) \<Rightarrow>
              if \<not> osip_strcasecmp_eq ''Digest'' ty then Some ((OSIP_UNDEFINED_ERROR, None), m)
              else (case challenge_algorithm (www_algorithm wa) of
                  None \<Rightarrow> Some ((OSIP_UNDEFINED_ERROR, None), m)
                | Some Alg \<Rightarrow> alloc_or m (OSIP_NOMEM, None) (\<lambda>m.
                    auth_copy wa rquri username Alg m (\<lambda>aut m. do {
                      realm \<leftarrow> auth_realm aut;
                      (pszRealm, m) \<leftarrow> osip_strdup_without_quote realm m;
                      (pszNonce, m) \<leftarrow> osip_strdup_without_quote nonce m;
                      auth_qop (case www_qop_options wa of None \<Rightarrow> False | Some q \<Rightarrow> 4 \<le> length q) pCNonce iNonceCount aut m
                        (\<lambda>aut pszQop szNonceCount pszCNonce m. do {
                          (Response, m) \<leftarrow> auth_response_text g Alg username pszRealm (Some passwd) pszNonce ha1 szNonceCount pszCNonce
                            pszQop mtd rquri m;
                          alloc_or m (OSIP_NOMEM, None) (\<lambda>m.
                            Some ((OSIP_SUCCESS, Some (aut\<lparr>auth_response := Some (in_quotes Response)\<rparr>)), m))
                        })
                    })))
          | _ \<Rightarrow> Some ((OSIP_SYNTAXERROR, None), m))
     | _ \<Rightarrow> Some ((OSIP_BADPARAMETER, None), m))"

end
