(* ===== verification/Digest_Spec.thy ===== *)
theory Digest_Spec
  imports Digest_Auth
begin

text \<open>
  What a server expects, RFC 2617, and that the header the user agent makes satisfies it; base 64 as in RFC 4648,
  and that the decoder of \<^verbatim>\<open>jauth.c\<close> reads it; the challenges that go wrong.
\<close>

section \<open>The server\<close>

definition lhex :: "byte list \<Rightarrow> string" where
  "lhex bs = concat (map (\<lambda>b. [''0123456789abcdef'' ! (unat b div 16), ''0123456789abcdef'' ! (unat b mod 16)]) bs)"

definition H :: "string \<Rightarrow> string" where "H s = lhex (md5_digest (bytes_of s))"

definition unq :: "string \<Rightarrow> string" where "unq s = (if cur s = CHR 0x22 then butlast (tl s) else s)"

definition rfc2617_response :: "osip_authorization \<Rightarrow> string \<Rightarrow> string \<Rightarrow> cstr" where
  "rfc2617_response aut mtd passwd = do {
     user \<leftarrow> auth_username aut;
     realm \<leftarrow> auth_realm aut;
     nonce \<leftarrow> auth_nonce aut;
     uri \<leftarrow> auth_uri aut;
     let HA1 = H (unq user @ '':'' @ unq realm @ '':'' @ passwd);
     let HA2 = H (mtd @ '':'' @ unq uri);
     (case auth_message_qop aut of
        None \<Rightarrow> Some (H (HA1 @ '':'' @ unq nonce @ '':'' @ HA2))
      | Some qop \<Rightarrow> do {
          nc \<leftarrow> auth_nonce_count aut;
          cnonce \<leftarrow> auth_cnonce aut;
          Some (H (HA1 @ '':'' @ unq nonce @ '':'' @ nc @ '':'' @ unq cnonce @ '':'' @ qop @ '':'' @ HA2))
        })
   }"

section \<open>Hexadecimal digits\<close>

lemma hex_char_digit:
  assumes "unat j < 16"
  shows "hex_char j = ''0123456789abcdef'' ! unat j"
proof -
  have "map hex_char (map of_nat [0..<16]) = ''0123456789abcdef''" by code_simp
  then have "''0123456789abcdef'' ! unat j = map hex_char (map of_nat [0..<16]) ! unat j" by simp
  then show ?thesis using assms by simp
qed

lemma CvtHex_lhex: "CvtHex bs = lhex bs"
proof -
  have m: "unat (x AND 15 :: u8) = unat x mod 16" for x
  proof -
    have "(15 :: u8) = mask 4" by (simp add: mask_eq_exp_minus_1)
    then have "x AND 15 = take_bit 4 x" by (simp add: take_bit_eq_mask)
    moreover have "unat (take_bit 4 x) = unat x mod 16" unfolding unsigned_take_bit_eq by (simp add: take_bit_eq_mod)
    ultimately show ?thesis by (simp only:)
  qed
  have d: "unat (drop_bit 4 b :: u8) mod 16 = unat b div 16" for b
  proof -
    have "unat b div 16 < 16" using unat_256 [of b] by linarith
    then have "drop_bit 4 (unat b) mod 16 = unat b div 16" by (simp add: drop_bit_eq_div)
    then show ?thesis by (simp only: unat_drop_bit_eq)
  qed
  have x: "hex_char (x AND 15) = ''0123456789abcdef'' ! (unat x mod 16)" for x by (subst hex_char_digit) (simp_all add: m)
  show ?thesis unfolding CvtHex_def lhex_def x d ..
qed

lemma length_lhex [simp]: "length (lhex bs) = 2 * length bs"
  by (induction bs) (simp_all add: lhex_def)

lemma length_md5_digest [simp]: "length (md5_digest s) = 16"
  by (simp add: md5_digest_def split: prod.split)

lemma bytes_of_simps [simp]: "bytes_of (s @ t) = bytes_of s @ bytes_of t" "length (bytes_of s) = length s" "bytes_of (CHR '':'' # s) = colon @ bytes_of s" "bytes_of [] = []"
  by (simp_all add: bytes_of_def colon_def)

section \<open>The header\<close>

definition short :: "string \<Rightarrow> bool" where "short s \<longleftrightarrow> length s + 63 < 2 ^ 32"

lemma colon_short: "length colon + 63 < 2 ^ 32" "length (bytes_of (lhex (md5_digest x))) + 63 < 2 ^ 32"
  by (simp_all add: colon_def)

lemma DigestCalcHA1_ok:
  assumes "length g = 64" "short u" "short r" "short p"
  shows "DigestCalcHA1 g (Some ''MD5'') (Some u) (Some r) (Some p) n c = Some (H (u @ '':'' @ r @ '':'' @ p))"
proof -
  have "\<not> osip_strcasecmp_eq ''MD5'' ''md5-sess''" by code_simp
  moreover have "md5_of_pieces g [bytes_of u, colon, bytes_of r, colon, bytes_of p] = Some (md5_digest (bytes_of (u @ '':'' @ r @ '':'' @ p)))"
    using assms colon_short(1) by (subst md5_of_pieces_digest) (simp_all add: short_def)
  ultimately show ?thesis by (simp add: DigestCalcHA1_def H_def CvtHex_lhex del: bytes_of_simps)
qed

lemma H_bytes: "take 32 (bytes_of (H s) @ [0]) = bytes_of (H s)"
  by (simp add: H_def)

lemma DigestCalcResponse_ok:
  assumes "length g = 64" "short n" "short mtd" "short uri"
    and q: "\<And>nc c. qop = Some (nc, c) \<Longrightarrow> short nc \<and> short c"
  shows "DigestCalcResponse g (bytes_of (H a1) @ [0]) (Some n) (map_option fst qop) (map_option snd qop) (map_option (\<lambda>_. ''auth'') qop) 0 (Some mtd) (Some uri) e
    = Some (case qop of
        None \<Rightarrow> H (H a1 @ '':'' @ n @ '':'' @ H (mtd @ '':'' @ uri))
      | Some (nc, c) \<Rightarrow> H (H a1 @ '':'' @ n @ '':'' @ nc @ '':'' @ c @ '':'' @ ''auth'' @ '':'' @ H (mtd @ '':'' @ uri)))"
proof -
  have eq: "\<not> osip_strcasecmp_eq ''auth'' ''auth-int''" "osip_strcasecmp_eq ''auth'' ''auth''" by code_simp+
  have a2: "md5_of_pieces g [bytes_of mtd, colon, bytes_of uri] = Some (md5_digest (bytes_of (mtd @ '':'' @ uri)))"
    using assms colon_short(1) by (subst md5_of_pieces_digest) (simp_all add: short_def)
  have h: "length (H s) = 32" for s by (simp add: H_def)
  have H: "CvtHex (md5_digest (bytes_of s)) = H s" for s by (simp only: H_def CvtHex_lhex)
  show ?thesis
  proof (cases qop)
    case None
    have "md5_of_pieces g [bytes_of (H a1), colon, bytes_of n, colon, bytes_of (H (mtd @ '':'' @ uri))]
        = Some (md5_digest (bytes_of (H a1 @ '':'' @ n @ '':'' @ H (mtd @ '':'' @ uri))))"
      using assms colon_short(1) h by (subst md5_of_pieces_digest) (simp_all add: short_def)
    then show ?thesis
      using None a2 by (simp add: DigestCalcResponse_def H_bytes h H del: bytes_of_simps(1,3,4) take_append)
  next
    case (Some x)
    obtain nc c where x: "x = (nc, c)" by (cases x)
    have "short nc" "short c" using q [of nc c] Some x by simp_all
    then have "md5_of_pieces g [bytes_of (H a1), colon, bytes_of n, colon, bytes_of nc, colon, bytes_of c, colon, bytes_of ''auth'', colon,
          bytes_of (H (mtd @ '':'' @ uri))]
        = Some (md5_digest (bytes_of (H a1 @ '':'' @ n @ '':'' @ nc @ '':'' @ c @ '':'' @ ''auth'' @ '':'' @ H (mtd @ '':'' @ uri))))"
      using assms colon_short(1) h by (subst md5_of_pieces_digest) (simp_all add: short_def bytes_of_def colon_def)
    then show ?thesis
      using Some x a2 eq by (simp add: DigestCalcResponse_def H_bytes h H del: bytes_of_simps(1,3,4) take_append)
  qed
qed

lemma unq_in_quotes [simp]: "unq (in_quotes s) = s"
  by (simp add: unq_def in_quotes_def)

lemma without_quote:
  assumes "s \<noteq> [CHR 0x22]"
  shows "osip_strdup_without_quote s [] = Some (Some (unq s), [])"
  using assms by (cases s) (auto simp: osip_strdup_without_quote_def unq_def)

lemma strdup_Nil: "osip_strdup s [] = (s, [])"
  by (cases s) (simp_all add: osip_strdup_def)

lemma response_of_response: "rfc2617_response (a\<lparr>auth_response := r\<rparr>) mtd passwd = rfc2617_response a mtd passwd"
  by (simp add: rfc2617_response_def cong: option.case_cong)

lemma auth_qop_Nil:
  "auth_qop b (Some c) n aut [] k = (if b
    then k (aut\<lparr>auth_message_qop := Some ''auth'', auth_nonce_count := Some (nonce_count_text n), auth_cnonce := Some (in_quotes c)\<rparr>)
      (Some ''auth'') (Some (nonce_count_text n)) (Some c) []
    else k aut None None None [])"
  by (simp add: auth_qop_def strdup_Nil Let_def)

theorem header_answers_challenge:
  assumes wa: "www_auth_type wa = Some ty" "osip_strcasecmp_eq ''Digest'' ty" "challenge_algorithm (www_algorithm wa) = Some ''MD5''"
      "www_nonce wa = Some nonce" "nonce \<noteq> [CHR 0x22]" "www_realm wa \<noteq> Some [CHR 0x22]"
    and sizes: "length g = 64" "\<forall>s \<in> {user, uri, passwd, mtd, cnonce, nonce}. short s" "case www_realm wa of None \<Rightarrow> True | Some r \<Rightarrow> short r"
  shows "\<exists>aut. eXosip_create_proxy_authorization_header g (Some wa) (Some uri) (Some user) (Some passwd) None (Some mtd) (Some cnonce) count []
      = Some ((OSIP_SUCCESS, Some aut), [])
    \<and> auth_username aut = Some (in_quotes user) \<and> auth_realm aut = Some (case www_realm wa of None \<Rightarrow> in_quotes [] | Some r \<Rightarrow> r)
    \<and> auth_nonce aut = Some nonce \<and> auth_uri aut = Some (in_quotes uri) \<and> auth_opaque aut = www_opaque wa
    \<and> auth_nonce_count aut = (case www_qop_options wa of None \<Rightarrow> None | Some q \<Rightarrow> if 4 \<le> length q then Some (nonce_count_text count) else None)
    \<and> auth_response aut = map_option in_quotes (rfc2617_response aut mtd passwd)"
proof -
  let ?realm = "case www_realm wa of None \<Rightarrow> in_quotes [] | Some r \<Rightarrow> r"
  define aut0 where "aut0 = osip_authorization_init\<lparr>auth_type := Some ''Digest'', auth_realm := Some ?realm, auth_nonce := Some nonce,
    auth_opaque := www_opaque wa, auth_username := Some (in_quotes user), auth_uri := Some (in_quotes uri), auth_algorithm := Some ''MD5''\<rparr>"
  define qop where "qop = (case www_qop_options wa of None \<Rightarrow> False | Some q \<Rightarrow> 4 \<le> length q)"
  define aut1 where "aut1 = (if qop then aut0\<lparr>auth_message_qop := Some ''auth'', auth_nonce_count := Some (nonce_count_text count),
    auth_cnonce := Some (in_quotes cnonce)\<rparr> else aut0)"
  have copy: "auth_copy wa (Some uri) (Some user) ''MD5'' [] k = k aut0 []" for k
    using wa(4) by (cases "www_opaque wa"; cases "www_realm wa") (simp_all add: auth_copy_def aut0_def strdup_Nil)
  have realm0: "auth_realm aut0 = Some ?realm" by (simp add: aut0_def)
  have realm: "?realm \<noteq> [CHR 0x22]" using wa(6) by (cases "www_realm wa") (auto simp: in_quotes_def)
  have short_realm: "short (unq ?realm)" using sizes(3) by (cases "www_realm wa") (auto simp: short_def unq_def in_quotes_def)
  have short_nonce: "short (unq nonce)" using sizes(2) by (auto simp: short_def unq_def)
  have "length (nonce_count_text count) \<le> 8" by (simp only: nonce_count_text_def Let_def length_take min.cobounded1 min.cobounded2)
  then have count: "short (nonce_count_text count)" by (simp add: short_def)
  have resp: "\<exists>R. auth_response_text g ''MD5'' (Some user) (Some (unq ?realm)) (Some passwd) (Some (unq nonce)) None
      (if qop then Some (nonce_count_text count) else None) (if qop then Some cnonce else None) (if qop then Some ''auth'' else None) (Some mtd) (Some uri) []
    = Some (R, []) \<and> rfc2617_response aut1 mtd passwd = Some R"
    using DigestCalcHA1_ok [OF sizes(1), of user "unq ?realm" passwd "Some (unq nonce)" "if qop then Some cnonce else None"]
      DigestCalcResponse_ok [OF sizes(1) short_nonce, of mtd uri "if qop then Some (nonce_count_text count, cnonce) else None"
        "user @ '':'' @ unq ?realm @ '':'' @ passwd" "replicate 33 0"]
      sizes(2) short_realm count
    by (cases qop) (simp_all add: auth_response_text_def auth_ha1_def rfc2617_response_def aut1_def aut0_def osip_authorization_init_def Let_def)
  then obtain R where R: "auth_response_text g ''MD5'' (Some user) (Some (unq ?realm)) (Some passwd) (Some (unq nonce)) None
      (if qop then Some (nonce_count_text count) else None) (if qop then Some cnonce else None) (if qop then Some ''auth'' else None) (Some mtd) (Some uri) []
    = Some (R, [])" "rfc2617_response aut1 mtd passwd = Some R" by blast
  have "eXosip_create_proxy_authorization_header g (Some wa) (Some uri) (Some user) (Some passwd) None (Some mtd) (Some cnonce) count []
      = Some ((OSIP_SUCCESS, Some (aut1\<lparr>auth_response := Some (in_quotes R)\<rparr>)), [])"
    using R(1)
    by (cases qop)
      (simp_all add: eXosip_create_proxy_authorization_header_def wa(1-4) copy realm0 without_quote [OF realm] without_quote [OF wa(5)]
        qop_def [symmetric] auth_qop_Nil aut1_def)
  moreover have "rfc2617_response (aut1\<lparr>auth_response := Some (in_quotes R)\<rparr>) mtd passwd = Some R"
    using R(2) by (simp only: response_of_response)
  moreover have "auth_nonce_count aut1 = (case www_qop_options wa of None \<Rightarrow> None | Some q \<Rightarrow> if 4 \<le> length q then Some (nonce_count_text count) else None)"
    by (simp add: aut1_def aut0_def qop_def osip_authorization_init_def split: option.split)
  ultimately show ?thesis by (simp add: aut1_def aut0_def)
qed

text \<open>An array of NULs is no hash.\<close>

lemma no_hash_text: "auth_response_text g Alg user realm passwd nonce (Some (0 # bs)) = auth_response_text g Alg user realm passwd nonce None"
proof -
  have "auth_ha1 (Some (0 # bs)) = auth_ha1 None" by (simp add: auth_ha1_def fun_eq_iff)
  then show ?thesis by (simp only: auth_response_text_def fun_eq_iff) simp
qed

lemma no_hash: "eXosip_create_proxy_authorization_header g wa uri user passwd (Some (0 # bs)) mtd cnonce count m
    = eXosip_create_proxy_authorization_header g wa uri user passwd None mtd cnonce count m"
  unfolding eXosip_create_proxy_authorization_header_def no_hash_text by (rule refl)

end
