(* ===== verification/Base64_Aka.thy ===== *)
theory Base64_Aka
  imports Digest_Spec
begin

text \<open>
  The challenge of a mobile network: base 64 of RFC 4648, which the decoder of \<^verbatim>\<open>jauth.c\<close> reads back, and
  the answer to it, made with the functions of 3GPP TS 35.206.
\<close>

section \<open>Base 64\<close>

definition code64 :: "u8 \<Rightarrow> char" where "code64 w = base64_alphabet ! unat w"

fun base64 :: "byte list \<Rightarrow> string" where
  "base64 (a # b # c # bs) = code64 (drop_bit 2 a) # code64 (push_bit 4 (a AND 3) OR drop_bit 4 b)
     # code64 (push_bit 2 (b AND 15) OR drop_bit 6 c) # code64 (c AND 63) # base64 bs"
| "base64 [a, b] = [code64 (drop_bit 2 a), code64 (push_bit 4 (a AND 3) OR drop_bit 4 b), code64 (push_bit 2 (b AND 15)), CHR ''='']"
| "base64 [a] = [code64 (drop_bit 2 a), code64 (push_bit 4 (a AND 3)), CHR ''='', CHR ''='']"
| "base64 [] = []"

lemma base64_val_code64:
  assumes "unat w < 64"
  shows "base64_val (code64 w) = uint w"
proof -
  have "map base64_val base64_alphabet = map int [0..<64]" by code_simp
  moreover have "length base64_alphabet = 64" by code_simp
  ultimately have "base64_val (base64_alphabet ! unat w) = map int [0..<64] ! unat w"
    using assms by (metis nth_map)
  then show ?thesis using assms by (simp add: code64_def)
qed

lemma masks: "(3 :: 'a :: len word) = mask 2" "(15 :: 'a word) = mask 4" "(63 :: 'a word) = mask 6"
  "(3 :: int) = mask 2" "(15 :: int) = mask 4" "(63 :: int) = mask 6" "(48 :: int) = push_bit 4 (mask 2)" "(60 :: int) = push_bit 2 (mask 4)"
  by (simp_all add: mask_eq_exp_minus_1 push_bit_eq_mult)

lemma six_bitsI: "(\<And>i. bit (w :: u8) i \<Longrightarrow> i < 6) \<Longrightarrow> unat w < 64"
proof -
  assume b: "\<And>i. bit w i \<Longrightarrow> i < 6"
  have "w = take_bit 6 w" by (rule bit_word_eqI) (auto simp: bit_take_bit_iff dest: b)
  then have "unat w = take_bit 6 (unat w)" by (metis unsigned_take_bit_eq)
  also have "\<dots> < 2 ^ 6" by (rule take_bit_nat_less_exp)
  finally show ?thesis by simp
qed

lemma six_bits:
  "unat (drop_bit 2 a :: u8) < 64" "unat (push_bit 4 (a AND 3) OR drop_bit 4 b :: u8) < 64" "unat (push_bit 2 (b AND 15) OR drop_bit 6 c :: u8) < 64"
  "unat (c AND 63 :: u8) < 64" "unat (push_bit 4 (a AND 3) :: u8) < 64" "unat (push_bit 2 (b AND 15) :: u8) < 64"
  unfolding masks
  by (rule six_bitsI; auto simp: bit_or_iff bit_and_iff bit_push_bit_iff bit_drop_bit_eq bit_mask_iff dest: bit_u8)+

lemma base64_bytes:
  "base64_byte1 (uint (drop_bit 2 a)) (uint (push_bit 4 (a AND 3) OR drop_bit 4 b)) = a"
  "base64_byte2 (uint (push_bit 4 (a AND 3) OR drop_bit 4 b)) (uint (push_bit 2 (b AND 15) OR drop_bit 6 c)) = b"
  "base64_byte3 (uint (push_bit 2 (b AND 15) OR drop_bit 6 c)) (uint (c AND 63)) = c"
  "base64_byte1 (uint (drop_bit 2 a)) (uint (push_bit 4 (a AND 3))) = a"
  "base64_byte2 (uint (push_bit 4 (a AND 3) OR drop_bit 4 b)) (uint (push_bit 2 (b AND 15))) = b"
  unfolding base64_byte1_def base64_byte2_def base64_byte3_def masks
  by (rule byte_eqI, unfold below_8,
      auto simp: bit_or_iff bit_and_iff bit_push_bit_iff bit_drop_bit_eq bit_mask_iff bit_uint_iff bit_word_of_int_iff dest: bit_u8)+

lemma code64_val:
  "base64_val (code64 (drop_bit 2 a)) = uint (drop_bit 2 a)"
  "base64_val (code64 (push_bit 4 (a AND 3) OR drop_bit 4 b)) = uint (push_bit 4 (a AND 3) OR drop_bit 4 b)"
  "base64_val (code64 (push_bit 2 (b AND 15) OR drop_bit 6 c)) = uint (push_bit 2 (b AND 15) OR drop_bit 6 c)"
  "base64_val (code64 (c AND 63)) = uint (c AND 63)"
  "base64_val (code64 (push_bit 4 (a AND 3))) = uint (push_bit 4 (a AND 3))"
  "base64_val (code64 (push_bit 2 (b AND 15))) = uint (push_bit 2 (b AND 15))"
  by (rule base64_val_code64, rule six_bits)+

lemma uint_no_padding [simp]: "uint (w :: u8) \<noteq> -1"
  using uint_nonnegative [of w] by linarith

lemma base64_val_padding [simp]: "base64_val CHR ''='' = -1"
  by (simp add: base64_val_def)

lemma base64_loop_group:
  "base64_loop (code64 (drop_bit 2 a) # code64 (push_bit 4 (a AND 3) OR drop_bit 4 b) # code64 (push_bit 2 (b AND 15) OR drop_bit 6 c)
     # code64 (c AND 63) # buf) = a # b # c # (if buf = [] then [] else base64_loop buf)"
  by (cases buf) (simp_all only: base64_loop.simps cur_Cons nth_Cons_0 nth_Cons_numeral code64_val base64_bytes uint_no_padding Let_def if_False if_True
    list.size, simp_all add: code64_val base64_bytes del: push_bit_and)

lemma base64_Nil_iff: "base64 bs = [] \<longleftrightarrow> bs = []"
  by (cases bs rule: base64.cases) simp_all

lemma base64_loop_base64: "base64_loop (base64 bs) = bs"
proof (induction bs rule: base64.induct)
  case (1 a b c bs)
  then show ?case unfolding base64.simps base64_loop_group base64_Nil_iff by simp
next
  case (2 a b)
  then show ?case by (simp add: code64_val base64_bytes Let_def del: push_bit_and)
next
  case (3 a)
  then show ?case by (simp add: code64_val base64_bytes Let_def del: push_bit_and)
qed simp

lemma base64_loop_length: "length (base64_loop buf) \<le> length buf * 3 div 4"
proof (induction buf rule: base64_loop.induct)
  case (1 a b c d e buf)
  have "length (e # buf) * 3 div 4 + 3 = length (a # b # c # d # e # buf) * 3 div 4" by simp
  then show ?case using 1 [OF refl refl refl refl] by (simp add: Let_def)
qed (simp_all add: Let_def)

theorem base64_decodes:
  "base64_decode_string (base64 bs) [] = Some (Some bs, [])"
  using base64_loop_length [of "base64 bs"] by (simp add: base64_decode_string_def base64_loop_base64)

lemma base64_decode_string_defined: "base64_decode_string buf m \<noteq> None"
  using base64_loop_length [of buf] by (auto simp: base64_decode_string_def alloc_or_def split: prod.splits)

section \<open>The answer to a challenge\<close>

definition subscriber_key :: "string \<Rightarrow> u8 list" where "subscriber_key p = bytes_of p @ replicate (16 - length p) 0"

lemma length_subscriber_key [simp]: "length p \<le> 16 \<Longrightarrow> length (subscriber_key p) = 16"
  by (simp add: subscriber_key_def)

theorem aka_answer:
  assumes "length p \<le> 16" "length rand = 16" "16 \<le> length autn" "length (base64 (rand @ autn)) < 2048" "version \<in> {1, 2}"
  shows "DigestCalcResponseAka (Some p) (Some (base64 (rand @ autn))) version [] = Some
    (let k = subscriber_key p; out = (\<lambda>r c. OUT r c (OPc OP k) k rand)
     in lhex (take 8 (drop 8 (out 0 1))) @ (if version = 2 then lhex (out 64 4) @ lhex (out 32 2) else []), [])"
proof -
  have "take 2047 (base64 (rand @ autn)) = base64 (rand @ autn)" using assms(4) by simp
  moreover have "take 16 (rand @ autn) = rand" using assms(2) by simp
  ultimately show ?thesis
    using assms f2345_ok [of "subscriber_key p" rand]
    by (auto simp: DigestCalcResponseAka_def base64_decodes subscriber_key_def [symmetric] CvtHex_lhex Let_def)
qed

text \<open>A password of more than sixteen characters is written past the end of the key.\<close>

lemma aka_password_overflow:
  assumes "16 < length p" "length rand = 16" "16 \<le> length autn" "length (base64 (rand @ autn)) < 2048"
  shows "DigestCalcResponseAka (Some p) (Some (base64 (rand @ autn))) version [] = None"
proof -
  have "take 2047 (base64 (rand @ autn)) = base64 (rand @ autn)" using assms(4) by simp
  then show ?thesis using assms(1-3) by (simp add: DigestCalcResponseAka_def base64_decodes)
qed

text \<open>For the AKA the fields of the quality of protection are left out of the answer, although the header has them.\<close>

lemma aka_ignores_the_count:
  assumes "aka \<noteq> 0"
  shows "DigestCalcResponse g h n nc c (Some ''auth'') aka mtd uri e = DigestCalcResponse g h n None None None aka mtd uri e"
proof -
  have "\<not> osip_strcasecmp_eq ''auth'' ''auth-int''" by code_simp
  then show ?thesis using assms by (simp add: DigestCalcResponse_def cong: option.case_cong)
qed

text \<open>From the tenth use on, the count is not hexadecimal, as RFC 2617 demands: this is 16 to a server.\<close>

lemma tenth_count: "nonce_count_text 10 = ''00000010''"
  by code_simp

end
