(* ===== verification/Credentials.thy ===== *)
theory Credentials
  imports Base64_Aka Uri_Print Osip_Dialog Message_Clone
begin

text \<open>
  \<^verbatim>\<open>eXosip.c\<close> and \<^verbatim>\<open>jauth.c\<close>: the accounts an application has registered, the challenges of servers kept for the calls,
  and how a request gets its credentials, from the challenges of a response or from those that are kept. A
  list that the code links by pointers is a HOL list, with its head first; the table of a hundred challenges is
  a list, whose free slots have an empty Call-ID.
\<close>

abbreviation (input) OSIP_NOTFOUND :: int where "OSIP_NOTFOUND \<equiv> -6"

section \<open>Accounts\<close>

record jauthinfo =
  j_username :: string
  j_userid :: string
  j_passwd :: string
  j_ha1 :: string
  j_realm :: string

definition jauthinfo_zero :: jauthinfo where
  "jauthinfo_zero = \<lparr>j_username = [], j_userid = [], j_passwd = [], j_ha1 = [], j_realm = []\<rparr>"

text \<open>
  The test for the realm: equal, or equal without the quotes as far as the realm of the challenge
  goes. For a realm of less than two characters the length wraps around.
\<close>

definition realm_fits :: "cstr \<Rightarrow> string \<Rightarrow> bool option" where
  "realm_fits realm r = (case realm of
       None \<Rightarrow> Some True
     | Some s \<Rightarrow>
         if osip_strcasecmp_eq s r then Some True
         else do { rest \<leftarrow> advance 1 s; Some (osip_strncasecmp_eq rest r (if 2 \<le> length s then length s - 2 else 2 ^ 64 + length s - 2)) })"

text \<open>The first loop answers an account, or what to fall back on.\<close>

fun accounts_of_user :: "string \<Rightarrow> cstr \<Rightarrow> jauthinfo option \<Rightarrow> jauthinfo list \<Rightarrow> (jauthinfo + jauthinfo option) option" where
  "accounts_of_user username realm fallback [] = Some (Inr fallback)"
| "accounts_of_user username realm fallback (a # as) =
    (if osip_strcasecmp_eq (j_username a) username
     then if j_realm a = [] then accounts_of_user username realm (Some a) as
       else do {
         fits \<leftarrow> realm_fits realm (j_realm a);
         if fits then Some (Inl a) else accounts_of_user username realm fallback as
       }
     else accounts_of_user username realm fallback as)"

fun accounts_of_realm :: "cstr \<Rightarrow> jauthinfo option \<Rightarrow> jauthinfo list \<Rightarrow> jauthinfo option option" where
  "accounts_of_realm realm fallback [] = Some fallback"
| "accounts_of_realm realm fallback (a # as) =
    (if j_realm a = [] \<and> fallback = None then accounts_of_realm realm (Some a) as
     else do {
       fits \<leftarrow> realm_fits realm (j_realm a);
       if fits then Some (Some a) else accounts_of_realm realm fallback as
     })"

definition eXosip_find_authentication_info :: "jauthinfo list \<Rightarrow> string \<Rightarrow> cstr \<Rightarrow> jauthinfo option option" where
  "eXosip_find_authentication_info authinfos username realm = do {
     r \<leftarrow> accounts_of_user username realm None authinfos;
     (case r of Inl a \<Rightarrow> Some (Some a) | Inr fallback \<Rightarrow> accounts_of_realm realm fallback authinfos)
   }"

definition eXosip_clear_authentication_info :: "jauthinfo list \<Rightarrow> int \<times> jauthinfo list" where
  "eXosip_clear_authentication_info authinfos = (OSIP_SUCCESS, [])"

fun remove_account :: "string \<Rightarrow> cstr \<Rightarrow> jauthinfo list \<Rightarrow> int \<times> jauthinfo list" where
  "remove_account username realm [] = (OSIP_NOTFOUND, [])"
| "remove_account username realm (a # as) =
    (if osip_strcasecmp_eq username (j_username a) \<and> (case realm of None \<Rightarrow> j_realm a = [] | Some r \<Rightarrow> osip_strcasecmp_eq r (j_realm a))
     then (OSIP_SUCCESS, as)
     else (case remove_account username realm as of (i, as) \<Rightarrow> (i, a # as)))"

text \<open>NULL and the empty string are the same to the callers.\<close>

definition given :: "cstr \<Rightarrow> string" where "given s = (case s of None \<Rightarrow> [] | Some s \<Rightarrow> s)"

definition eXosip_remove_authentication_info :: "jauthinfo list \<Rightarrow> cstr \<Rightarrow> cstr \<Rightarrow> int \<times> jauthinfo list" where
  "eXosip_remove_authentication_info authinfos username realm =
    (if given username = [] then (OSIP_BADPARAMETER, authinfos) else remove_account (given username) realm authinfos)"

definition eXosip_add_authentication_info ::
  "jauthinfo list \<Rightarrow> cstr \<Rightarrow> cstr \<Rightarrow> cstr \<Rightarrow> cstr \<Rightarrow> cstr \<Rightarrow> mem \<Rightarrow> (int \<times> jauthinfo list) \<times> mem" where
  "eXosip_add_authentication_info authinfos username userid passwd ha1 realm m =
    (if given username = [] \<or> given userid = [] \<or> given passwd = [] \<and> given ha1 = [] then ((OSIP_BADPARAMETER, authinfos), m)
     else (case osip_malloc m of (ok, m) \<Rightarrow>
       if \<not> ok then ((OSIP_NOMEM, authinfos), m)
       else ((OSIP_SUCCESS,
         jauthinfo_zero\<lparr>j_username := take 49 (given username), j_userid := take 49 (given userid),
           j_passwd := take 49 (given passwd), j_ha1 := (if given passwd = [] then take 49 (given ha1) else []),
           j_realm := take 49 (given realm)\<rparr>
         # snd (eXosip_remove_authentication_info authinfos username realm)), m)))"

section \<open>The table of challenges\<close>

record eXosip_http_auth =
  pszCallId :: string
  h_wa :: "osip_www_authenticate option"
  pszCNonce :: string
  iNonceCount :: int
  answer_code :: int

definition http_auth_zero :: eXosip_http_auth where
  "http_auth_zero = \<lparr>pszCallId = [], h_wa = None, pszCNonce = [], iNonceCount = 0, answer_code = 0\<rparr>"

text \<open>The first position where a test holds; the test may follow a NULL pointer.\<close>

fun first_slot :: "(eXosip_http_auth \<Rightarrow> bool option) \<Rightarrow> eXosip_http_auth list \<Rightarrow> nat option option" where
  "first_slot test [] = Some None"
| "first_slot test (h # hs) = do {
     b \<leftarrow> test h;
     if b then Some (Some 0) else do { r \<leftarrow> first_slot test hs; Some (map_option Suc r) }
   }"

definition same_challenge :: "string \<Rightarrow> osip_www_authenticate \<Rightarrow> eXosip_http_auth \<Rightarrow> bool option" where
  "same_challenge number wa h =
    (if pszCallId h = [] \<or> \<not> osip_strcasecmp_eq (pszCallId h) number then Some False
     else do {
       w \<leftarrow> h_wa h;
       Some (case (www_realm w, www_realm wa) of
           (None, None) \<Rightarrow> True
         | (Some r, Some r') \<Rightarrow> osip_strcasecmp_eq r r'
         | _ \<Rightarrow> False)
     })"

text \<open>Without memory for the copy of the challenge the slot is cleared; success is reported all the same.\<close>

definition keep_copy :: "osip_www_authenticate \<Rightarrow> eXosip_http_auth \<Rightarrow> mem \<Rightarrow> eXosip_http_auth \<times> mem" where
  "keep_copy wa h m = (case osip_www_authenticate_clone wa m of ((i, w), m) \<Rightarrow>
     (if w = None then http_auth_zero else h\<lparr>h_wa := w\<rparr>, m))"

definition eXosip_store_nonce ::
  "eXosip_http_auth list \<Rightarrow> string \<Rightarrow> osip_www_authenticate \<Rightarrow> int \<Rightarrow> mem \<Rightarrow> ((int \<times> eXosip_http_auth list) \<times> mem) option" where
  "eXosip_store_nonce http_auths number wa code m = do {
     pos \<leftarrow> first_slot (same_challenge number wa) http_auths;
     (case pos of
        Some p \<Rightarrow> (case keep_copy wa ((http_auths ! p)\<lparr>iNonceCount := 1\<rparr>) m of (h, m) \<Rightarrow>
          Some ((OSIP_SUCCESS, http_auths[p := h]), m))
      | None \<Rightarrow> do {
          pos \<leftarrow> first_slot (\<lambda>h. Some (pszCallId h = [])) http_auths;
          (case pos of
             Some p \<Rightarrow> (case keep_copy wa \<lparr>pszCallId = take 63 number, h_wa = None, pszCNonce = ''0a4f113b'', iNonceCount = 1,
                 answer_code = code\<rparr> m of (h, m) \<Rightarrow> Some ((OSIP_SUCCESS, http_auths[p := h]), m))
           | None \<Rightarrow> Some ((OSIP_UNDEFINED_ERROR, http_auths), m))
        })
   }"

definition eXosip_delete_nonce :: "eXosip_http_auth list \<Rightarrow> string \<Rightarrow> int \<times> eXosip_http_auth list" where
  "eXosip_delete_nonce http_auths number =
    (case first_slot (\<lambda>h. Some (pszCallId h \<noteq> [] \<and> osip_strcasecmp_eq (pszCallId h) number)) http_auths of
       Some (Some p) \<Rightarrow> (OSIP_SUCCESS, http_auths[p := http_auth_zero])
     | _ \<Rightarrow> (OSIP_NOTFOUND, http_auths))"

section \<open>Requests with credentials\<close>

text \<open>What \<^verbatim>\<open>struct eXosip_t\<close> keeps for authentication.\<close>

record eXosip_t =
  authinfos :: "jauthinfo list"
  http_auths :: "eXosip_http_auth list"

text \<open>
  The account for a realm, and the text of the request's URI, or the error to return. Then the header itself: an array of 50
  bytes with NULs at the end is handed over for the hash.
\<close>

definition account_and_uri ::
  "jauthinfo list \<Rightarrow> sip_message \<Rightarrow> string \<Rightarrow> cstr \<Rightarrow> mem \<Rightarrow> ((int \<times> (jauthinfo \<times> cstr) option) \<times> mem) option" where
  "account_and_uri accounts req username realm m = do {
     authinfo \<leftarrow> eXosip_find_authentication_info accounts username realm;
     (case authinfo of
        None \<Rightarrow> Some ((OSIP_NOTFOUND, None), m)
      | Some a \<Rightarrow> do {
          ((i, uri), m) \<leftarrow> osip_uri_to_str (req_uri req) m;
          Some (if i \<noteq> 0 then ((i, None), m) else ((OSIP_SUCCESS, Some (a, uri)), m))
        })
   }"

definition ha1_array :: "jauthinfo \<Rightarrow> byte list" where
  "ha1_array a = bytes_of (j_ha1 a) @ replicate (50 - length (j_ha1 a)) 0"

definition account_header ::
  "byte list \<Rightarrow> osip_www_authenticate option \<Rightarrow> jauthinfo \<times> cstr \<Rightarrow> sip_message \<Rightarrow> string \<Rightarrow> int \<Rightarrow> mem \<Rightarrow> auth_answer" where
  "account_header g wa au req cnonce count m = (case au of (a, uri) \<Rightarrow>
     eXosip_create_proxy_authorization_header g wa uri (Some (j_userid a)) (Some (j_passwd a)) (Some (ha1_array a)) (sip_method req)
       (Some cnonce) count m)"

text \<open>The header is appended to the list for the server or for the proxy; whether there was memory for it is not asked.\<close>

definition add_credentials :: "bool \<Rightarrow> osip_authorization \<Rightarrow> sip_message \<Rightarrow> mem \<Rightarrow> sip_message \<times> mem" where
  "add_credentials server aut req m =
    (if server
     then (case list_add (authorizations req) aut (-1) m of (hs, m) \<Rightarrow> (req\<lparr>authorizations := hs, message_property := 2\<rparr>, m))
     else (case list_add (proxy_authorizations req) aut (-1) m of (hs, m) \<Rightarrow> (req\<lparr>proxy_authorizations := hs, message_property := 2\<rparr>, m)))"

text \<open>One round of the loop over the challenges that are kept.\<close>

definition kept_challenge ::
  "byte list \<Rightarrow> jauthinfo list \<Rightarrow> string \<Rightarrow> eXosip_http_auth \<Rightarrow> sip_message \<Rightarrow> mem
    \<Rightarrow> ((int \<times> eXosip_http_auth \<times> sip_message) \<times> mem) option" where
  "kept_challenge g accounts username h req m =
    (if pszCallId h = [] then Some ((OSIP_SUCCESS, h, req), m)
     else do {
       cid \<leftarrow> call_id req;
       number \<leftarrow> callid_number cid;
       if \<not> osip_strcasecmp_eq (pszCallId h) number then Some ((OSIP_SUCCESS, h, req), m)
       else do {
         wa \<leftarrow> h_wa h;
         ((i, au), m) \<leftarrow> account_and_uri accounts req username (www_realm wa) m;
         (case au of
            None \<Rightarrow> Some ((i, h, req), m)
          | Some au \<Rightarrow> do {
              let h = h\<lparr>iNonceCount := iNonceCount h + 1\<rparr>;
              ((i, aut), m) \<leftarrow> account_header g (h_wa h) au req (pszCNonce h) (iNonceCount h) m;
              Some (case (i = 0, aut) of
                  (True, Some aut) \<Rightarrow> (case add_credentials (answer_code h = 401) aut req m of (req, m) \<Rightarrow> ((OSIP_SUCCESS, h, req), m))
                | _ \<Rightarrow> ((i, h, req), m))
            })
       }
     })"

fun kept_challenges ::
  "byte list \<Rightarrow> jauthinfo list \<Rightarrow> string \<Rightarrow> eXosip_http_auth list \<Rightarrow> sip_message \<Rightarrow> mem
    \<Rightarrow> ((int \<times> eXosip_http_auth list \<times> sip_message) \<times> mem) option" where
  "kept_challenges g accounts username [] req m = Some ((OSIP_SUCCESS, [], req), m)"
| "kept_challenges g accounts username (h # hs) req m = do {
     ((i, h, req), m) \<leftarrow> kept_challenge g accounts username h req m;
     if i \<noteq> 0 then Some ((i, h # hs, req), m)
     else do {
       ((i, hs, req), m) \<leftarrow> kept_challenges g accounts username hs req m;
       Some ((i, h # hs, req), m)
     }
   }"

text \<open>Which challenges are kept: those of requests that start something, or that are part of a dialog.\<close>

definition keeps_challenge :: "sip_message \<Rightarrow> bool option" where
  "keeps_challenge req = do {
     mtd \<leftarrow> sip_method req;
     if list_ex (osip_strcasecmp_eq mtd) [''REGISTER'', ''INVITE'', ''SUBSCRIBE'', ''REFER''] then Some True
     else do {
       to \<leftarrow> msg_to req;
       to_tag \<leftarrow> param_byname (gen_params to) ''tag'';
       Some (to_tag \<noteq> None)
     }
   }"

text \<open>The loops over the challenges of a server and of a proxy.\<close>

fun answer_challenges ::
  "byte list \<Rightarrow> int \<Rightarrow> string \<Rightarrow> osip_www_authenticate list \<Rightarrow> eXosip_t \<Rightarrow> sip_message \<Rightarrow> mem
    \<Rightarrow> ((int \<times> eXosip_t \<times> sip_message) \<times> mem) option" where
  "answer_challenges g code username [] ex req m = Some ((OSIP_SUCCESS, ex, req), m)"
| "answer_challenges g code username (wa # was) ex req m = do {
     ((i, au), m) \<leftarrow> account_and_uri (authinfos ex) req username (www_realm wa) m;
     (case au of
        None \<Rightarrow> Some ((i, ex, req), m)
      | Some au \<Rightarrow> do {
          ((i, aut), m) \<leftarrow> account_header g (Some wa) au req ''0a4f113b'' 1 m;
          if i \<noteq> 0 then Some ((i, ex, req), m)
          else do {
            let (req, m) = (case aut of None \<Rightarrow> (req, m) | Some aut \<Rightarrow> add_credentials (code = 401) aut req m);
            keeps \<leftarrow> keeps_challenge req;
            (ex, m) \<leftarrow> (if keeps
              then do {
                cid \<leftarrow> call_id req;
                number \<leftarrow> callid_number cid;
                ((_, hs), m) \<leftarrow> eXosip_store_nonce (http_auths ex) number wa code m;
                Some (ex\<lparr>http_auths := hs\<rparr>, m)
              }
              else Some (ex, m));
            answer_challenges g code username was ex req m
          }
        })
   }"

definition from_username :: "sip_message \<Rightarrow> cstr" where
  "from_username req = do { from \<leftarrow> msg_from req; u \<leftarrow> url from; uri_username u }"

text \<open>
  The whole: without a response the challenges kept for the Call-ID are answered, with a response its own. The first test of the code, for a
  request that is NULL, is left to the type.
\<close>

definition eXosip_add_authentication_information ::
  "byte list \<Rightarrow> eXosip_t \<Rightarrow> sip_message \<Rightarrow> sip_message option \<Rightarrow> mem \<Rightarrow> ((int \<times> eXosip_t \<times> sip_message) \<times> mem) option" where
  "eXosip_add_authentication_information g ex req last_response m =
    (case from_username req of
       None \<Rightarrow> Some ((OSIP_BADPARAMETER, ex, req), m)
     | Some username \<Rightarrow>
         (case last_response of
            None \<Rightarrow> do {
              ((i, hs, req), m) \<leftarrow> kept_challenges g (authinfos ex) username (http_auths ex) req m;
              Some ((i, ex\<lparr>http_auths := hs\<rparr>, req), m)
            }
          | Some r \<Rightarrow>
              if www_authenticates r = [] \<and> proxy_authenticates r = [] then Some ((OSIP_SYNTAXERROR, ex, req), m)
              else do {
                ((i, ex, req), m) \<leftarrow> answer_challenges g 401 username (www_authenticates r) ex req m;
                if i \<noteq> 0 then Some ((i, ex, req), m)
                else answer_challenges g 407 username (proxy_authenticates r) ex req m
              }))"

end
