(* ===== verification/Digest_Samples.thy ===== *)
theory Digest_Samples
  imports Base64_Aka
begin

text \<open>The inputs of the examples of FIPS 197 (Appendix B) and of RFC 2617 (3.5).\<close>

definition fips197_key :: "u8 list" where
  "fips197_key = [0x2b, 0x7e, 0x15, 0x16, 0x28, 0xae, 0xd2, 0xa6, 0xab, 0xf7, 0x15, 0x88, 0x09, 0xcf, 0x4f, 0x3c]"

definition fips197_input :: "u8 list" where
  "fips197_input = [0x32, 0x43, 0xf6, 0xa8, 0x88, 0x5a, 0x30, 0x8d, 0x31, 0x31, 0x98, 0xa2, 0xe0, 0x37, 0x07, 0x34]"

definition mufasa_challenge :: osip_www_authenticate where
  "mufasa_challenge = osip_www_authenticate_init\<lparr>www_auth_type := Some ''Digest'', www_realm := Some (in_quotes ''testrealm@host.com''),
     www_nonce := Some (in_quotes ''dcd98b7102dd2f0e8b11d0f600bfb0c093''), www_qop_options := Some (in_quotes ''auth,auth-int''),
     www_opaque := Some (in_quotes ''5ccc069c403ebaf9f0171e9517f40e41'')\<rparr>"

lemma mufasa_facts:
  "www_auth_type mufasa_challenge = Some ''Digest''" "osip_strcasecmp_eq ''Digest'' ''Digest''"
  "challenge_algorithm (www_algorithm mufasa_challenge) = Some ''MD5''"
  "www_nonce mufasa_challenge = Some (in_quotes ''dcd98b7102dd2f0e8b11d0f600bfb0c093'')" "in_quotes ''dcd98b7102dd2f0e8b11d0f600bfb0c093'' \<noteq> [CHR 0x22]"
  "www_realm mufasa_challenge = Some (in_quotes ''testrealm@host.com'')" "www_realm mufasa_challenge \<noteq> Some [CHR 0x22]"
  "www_opaque mufasa_challenge = Some (in_quotes ''5ccc069c403ebaf9f0171e9517f40e41'')"
  by (simp_all add: mufasa_challenge_def challenge_algorithm_def osip_www_authenticate_init_def in_quotes_def osip_strcasecmp_eq_def)

end
