(* ===== verification/Call_Credentials.thy ===== *)
theory Call_Credentials
  imports Credentials Digest_Samples
begin

text \<open>
  What the accounts and the kept challenges do for a call: an account that was added is found for the realm it is for, the answer to a
  challenge goes into the request that is sent again, and later requests of the call are answered for without being asked. At the end,
  what goes wrong for odd realms and for long Call-IDs.
\<close>

section \<open>Accounts\<close>

lemma realm_fits_quoted: "realm_fits (Some (in_quotes r)) r = Some True"
  by (simp add: realm_fits_def in_quotes_def osip_strncasecmp_eq_def)

text \<open>The account that is added last is the one found for its name and realm.\<close>

lemma added_account_is_found:
  assumes "user \<noteq> []" "userid \<noteq> []" "passwd \<noteq> []" "length user < 50" "realm \<noteq> []" "length realm < 50"
  defines "a \<equiv> \<lparr>j_username = user, j_userid = take 49 userid, j_passwd = take 49 passwd, j_ha1 = [], j_realm = realm\<rparr>"
  shows "\<exists>rest. eXosip_add_authentication_info accounts (Some user) (Some userid) (Some passwd) None (Some realm) [] = ((OSIP_SUCCESS, a # rest), [])
      \<and> eXosip_find_authentication_info (a # rest) user (Some (in_quotes realm)) = Some (Some a)
      \<and> eXosip_remove_authentication_info (a # rest) (Some user) (Some realm) = (OSIP_SUCCESS, rest)"
  using assms
  by (simp add: eXosip_add_authentication_info_def given_def jauthinfo_zero_def eXosip_find_authentication_info_def realm_fits_quoted
      eXosip_remove_authentication_info_def)

text \<open>A challenge for the realm \<^verbatim>\<open>""\<close>, or for any prefix of the realm of an account, gets its credentials.\<close>

lemma prefix_of_realm_fits: "realm_fits (Some (in_quotes r)) (r @ s) = Some True"
  by (simp add: realm_fits_def in_quotes_def osip_strncasecmp_eq_def)

lemma prefix_of_realm_is_answered:
  assumes "j_realm a = r @ s" "r @ s \<noteq> []"
  shows "eXosip_find_authentication_info (a # accounts) (j_username a) (Some (in_quotes r)) = Some (Some a)"
  using assms prefix_of_realm_fits [of r s] by (auto simp: eXosip_find_authentication_info_def)

text \<open>A realm that is an empty string is read behind its end.\<close>

lemma empty_realm_is_undefined: "r \<noteq> [] \<Longrightarrow> realm_fits (Some []) r = None"
  by (simp add: realm_fits_def osip_strcasecmp_eq_def)

section \<open>The table\<close>

lemma checked_strdup_Nil: "checked_strdup s [] k = k s []"
  by (cases s) (simp_all add: checked_strdup_def strdup_Nil)

lemma challenge_clone:
  assumes "www_auth_type wa \<noteq> None"
  shows "osip_www_authenticate_clone wa [] = ((OSIP_SUCCESS, Some (wa\<lparr>www_auth_param := None\<rparr>)), [])"
  using assms by (simp add: osip_www_authenticate_clone_def checked_malloc_def checked_strdup_Nil)

lemma first_slot_none: "\<forall>h \<in> set hs. test h = Some False \<Longrightarrow> first_slot test hs = Some None"
  by (induction hs) auto

lemma first_slot_at:
  "\<forall>h \<in> set xs. test h = Some False \<Longrightarrow> test h = Some True \<Longrightarrow> first_slot test (xs @ h # ys) = Some (Some (length xs))"
  by (induction xs) auto

definition free_slot :: "eXosip_http_auth \<Rightarrow> bool" where "free_slot h \<longleftrightarrow> pszCallId h = []"

definition slot_of :: "string \<Rightarrow> eXosip_http_auth \<Rightarrow> bool" where
  "slot_of number h \<longleftrightarrow> pszCallId h \<noteq> [] \<and> osip_strcasecmp_eq (pszCallId h) number"

text \<open>What is kept of a challenge.\<close>

definition kept :: "string \<Rightarrow> osip_www_authenticate \<Rightarrow> int \<Rightarrow> int \<Rightarrow> eXosip_http_auth" where
  "kept number wa count code = \<lparr>pszCallId = take 63 number, h_wa = Some (wa\<lparr>www_auth_param := None\<rparr>), pszCNonce = ''0a4f113b'',
     iNonceCount = count, answer_code = code\<rparr>"

lemma store_in_free_slot:
  assumes "\<forall>h \<in> set (xs @ ys). \<not> slot_of number h" "\<forall>h \<in> set xs. \<not> free_slot h" "free_slot h" "www_auth_type wa \<noteq> None"
  shows "eXosip_store_nonce (xs @ h # ys) number wa code [] = Some ((OSIP_SUCCESS, xs @ kept number wa 1 code # ys), [])"
proof -
  have "first_slot (same_challenge number wa) (xs @ h # ys) = Some None"
    using assms(1,3) by (intro first_slot_none) (auto simp: same_challenge_def slot_of_def free_slot_def)
  moreover have "first_slot (\<lambda>h. Some (pszCallId h = [])) (xs @ h # ys) = Some (Some (length xs))"
    using assms(2,3) by (intro first_slot_at) (auto simp: free_slot_def)
  ultimately show ?thesis
    by (simp add: eXosip_store_nonce_def keep_copy_def challenge_clone [OF assms(4)] kept_def)
qed

text \<open>A new challenge for the same call and realm takes the slot of the old one, and the count begins again.\<close>

lemma store_again:
  assumes "\<forall>h \<in> set xs. \<not> slot_of number h" "number \<noteq> []" "length number < 64" "www_realm wa = www_realm wa'" "www_auth_type wa' \<noteq> None"
  shows "eXosip_store_nonce (xs @ kept number wa n code # ys) number wa' code' [] = Some ((OSIP_SUCCESS, xs @ kept number wa' 1 code # ys), [])"
proof -
  have "first_slot (same_challenge number wa') (xs @ kept number wa n code # ys) = Some (Some (length xs))"
    using assms(1-4) by (intro first_slot_at) (auto simp: same_challenge_def slot_of_def kept_def split: option.split)
  then show ?thesis
    by (simp add: eXosip_store_nonce_def keep_copy_def challenge_clone [OF assms(5)]) (simp add: kept_def)
qed

lemma delete_kept:
  assumes "\<forall>h \<in> set xs. \<not> slot_of number h" "number \<noteq> []" "length number < 64"
  shows "eXosip_delete_nonce (xs @ kept number wa n code # ys) number = (OSIP_SUCCESS, xs @ http_auth_zero # ys)"
proof -
  have "first_slot (\<lambda>h. Some (pszCallId h \<noteq> [] \<and> osip_strcasecmp_eq (pszCallId h) number)) (xs @ kept number wa n code # ys) = Some (Some (length xs))"
    using assms by (intro first_slot_at) (auto simp: slot_of_def kept_def)
  then show ?thesis by (simp add: eXosip_delete_nonce_def)
qed

text \<open>For a Call-ID of 64 characters or more each challenge takes a slot of its own, and none is freed.\<close>

lemma not_the_slot: "64 \<le> length number \<Longrightarrow> \<not> slot_of number (kept number wa n code)"
  using osip_strcasecmp_eq_length [of "take 63 number" number] by (auto simp: slot_of_def kept_def)

lemma long_call_id_fills_the_table:
  assumes "64 \<le> length number" "www_auth_type wa \<noteq> None" "\<forall>h \<in> set ys. \<not> slot_of number h" and h: "h = kept number wa 1 code"
  shows "eXosip_store_nonce (replicate k h @ http_auth_zero # ys) number wa code [] = Some ((OSIP_SUCCESS, replicate (Suc k) h @ ys), [])"
    and "eXosip_delete_nonce (replicate k h) number = (OSIP_NOTFOUND, replicate k h)"
proof -
  have busy: "\<not> free_slot h" "\<not> slot_of number h" using assms(1) not_the_slot unfolding h by (auto simp: free_slot_def kept_def)
  have "eXosip_store_nonce (replicate k h @ http_auth_zero # ys) number wa code [] = Some ((OSIP_SUCCESS, replicate k h @ kept number wa 1 code # ys), [])"
    using busy assms(2,3) by (intro store_in_free_slot) (auto simp: free_slot_def http_auth_zero_def)
  then show "eXosip_store_nonce (replicate k h @ http_auth_zero # ys) number wa code [] = Some ((OSIP_SUCCESS, replicate (Suc k) h @ ys), [])"
    unfolding h by (simp add: replicate_app_Cons_same)
  have "first_slot (\<lambda>h. Some (pszCallId h \<noteq> [] \<and> osip_strcasecmp_eq (pszCallId h) number)) (replicate k h) = Some None"
    using busy(2) by (intro first_slot_none) (auto simp: slot_of_def)
  then show "eXosip_delete_nonce (replicate k h) number = (OSIP_NOTFOUND, replicate k h)" by (simp add: eXosip_delete_nonce_def)
qed

section \<open>A call\<close>

text \<open>A request of a call, a digest challenge for a realm, and what a header with the answer is like.\<close>

definition call_request :: "sip_message \<Rightarrow> string \<Rightarrow> string \<Rightarrow> string \<Rightarrow> string \<Rightarrow> bool" where
  "call_request req number user mtd uri \<longleftrightarrow> map_option callid_number (call_id req) = Some (Some number) \<and> from_username req = Some user
     \<and> sip_method req = Some mtd \<and> osip_uri_to_str (req_uri req) [] = Some ((OSIP_SUCCESS, Some uri), []) \<and> short mtd \<and> short uri"

definition digest_challenge :: "osip_www_authenticate \<Rightarrow> string \<Rightarrow> bool" where
  "digest_challenge wa realm \<longleftrightarrow> (case (www_auth_type wa, www_nonce wa) of
       (Some ty, Some nonce) \<Rightarrow> osip_strcasecmp_eq ''Digest'' ty \<and> nonce \<noteq> [CHR 0x22] \<and> short nonce
     | _ \<Rightarrow> False)
     \<and> challenge_algorithm (www_algorithm wa) = Some ''MD5'' \<and> www_realm wa = Some (in_quotes realm)"

definition answers :: "osip_authorization \<Rightarrow> osip_www_authenticate \<Rightarrow> string \<Rightarrow> string \<Rightarrow> string \<Rightarrow> string \<Rightarrow> int \<Rightarrow> bool" where
  "answers aut wa userid passwd uri mtd count \<longleftrightarrow> auth_username aut = Some (in_quotes userid) \<and> auth_uri aut = Some (in_quotes uri)
     \<and> auth_realm aut = www_realm wa \<and> auth_nonce aut = www_nonce wa \<and> auth_opaque aut = www_opaque wa
     \<and> auth_nonce_count aut = (case www_qop_options wa of None \<Rightarrow> None | Some q \<Rightarrow> if 4 \<le> length q then Some (nonce_count_text count) else None)
     \<and> auth_response aut = map_option in_quotes (rfc2617_response aut mtd passwd)"

definition account_for :: "jauthinfo list \<Rightarrow> string \<Rightarrow> string \<Rightarrow> string \<Rightarrow> string \<Rightarrow> bool" where
  "account_for accounts user realm userid passwd \<longleftrightarrow> (\<exists>a. eXosip_find_authentication_info accounts user (Some (in_quotes realm)) = Some (Some a)
     \<and> j_userid a = userid \<and> j_passwd a = passwd \<and> j_ha1 a = [] \<and> short userid \<and> short passwd \<and> short (in_quotes realm))"

text \<open>The request with one more header.\<close>

definition with_credentials :: "int \<Rightarrow> osip_authorization \<Rightarrow> sip_message \<Rightarrow> sip_message" where
  "with_credentials code aut req = (if code = 401 then req\<lparr>authorizations := authorizations req @ [aut], message_property := 2\<rparr>
     else req\<lparr>proxy_authorizations := proxy_authorizations req @ [aut], message_property := 2\<rparr>)"

lemma add_credentials_ok: "add_credentials (code = 401) aut req [] = (with_credentials code aut req, [])"
  by (simp add: add_credentials_def with_credentials_def list_add_def)

lemma with_credentials_simps [simp]:
  "call_id (with_credentials code aut req) = call_id req"
  "sip_method (with_credentials code aut req) = sip_method req"
  "msg_to (with_credentials code aut req) = msg_to req"
  by (simp_all add: with_credentials_def)

lemma keeps_challenge_with [simp]: "keeps_challenge (with_credentials code aut req) = keeps_challenge req"
  by (simp add: keeps_challenge_def cong: if_cong)

lemma account_header_answers:
  assumes "length g = 64" "digest_challenge wa realm" "call_request req number user mtd uri"
    and "j_userid a = userid" "j_passwd a = passwd" "j_ha1 a = []" "short userid" "short passwd" "short (in_quotes realm)"
  shows "\<exists>aut. account_header g (Some wa) (a, Some uri) req ''0a4f113b'' count [] = Some ((OSIP_SUCCESS, Some aut), [])
    \<and> answers aut wa userid passwd uri mtd count"
proof -
  obtain ty nonce where wa: "www_auth_type wa = Some ty" "osip_strcasecmp_eq ''Digest'' ty" "challenge_algorithm (www_algorithm wa) = Some ''MD5''"
      "www_nonce wa = Some nonce" "nonce \<noteq> [CHR 0x22]" "short nonce" "www_realm wa = Some (in_quotes realm)"
    using assms(2) by (auto simp: digest_challenge_def split: option.splits)
  have hash: "ha1_array a = 0 # replicate 49 0"
    using assms(6) by (simp add: ha1_array_def numeral_eq_Suc)
  have s: "\<forall>s \<in> {userid, uri, passwd, mtd, ''0a4f113b'', nonce}. short s" "case www_realm wa of None \<Rightarrow> True | Some r \<Rightarrow> short r"
      "www_realm wa \<noteq> Some [CHR 0x22]"
    using assms(3,7-9) wa(6,7) by (simp_all add: short_def in_quotes_def call_request_def)
  have mtd: "sip_method req = Some mtd" using assms(3) by (simp add: call_request_def)
  obtain aut where aut: "eXosip_create_proxy_authorization_header g (Some wa) (Some uri) (Some userid) (Some passwd) None (Some mtd) (Some ''0a4f113b'') count []
      = Some ((OSIP_SUCCESS, Some aut), [])" "answers aut wa userid passwd uri mtd count"
    using header_answers_challenge [OF wa(1-5) s(3) assms(1) s(1,2), of count] wa(4,7) unfolding answers_def by auto
  then show ?thesis
    by (intro exI [of _ aut]) (simp add: account_header_def hash no_hash mtd assms(4,5))
qed

text \<open>The challenge of a response is answered, and kept.\<close>

lemma challenge_is_answered:
  assumes "length g = 64" "digest_challenge wa realm" "call_request req number user mtd uri" "keeps_challenge req = Some True"
    and acc: "account_for (authinfos ex) user realm userid passwd"
    and table: "http_auths ex = xs @ h # ys" "free_slot h" "\<forall>h \<in> set (xs @ ys). \<not> slot_of number h" "\<forall>h \<in> set xs. \<not> free_slot h"
    and code: "code = 401 \<or> code = 407"
    and response: "www_authenticates r = (if code = 401 then [wa] else [])" "proxy_authenticates r = (if code = 401 then [] else [wa])"
  shows "\<exists>aut. eXosip_add_authentication_information g ex req (Some r) []
      = Some ((OSIP_SUCCESS, ex\<lparr>http_auths := xs @ kept number wa 1 code # ys\<rparr>, with_credentials code aut req), [])
    \<and> answers aut wa userid passwd uri mtd 1"
proof -
  obtain a where a: "eXosip_find_authentication_info (authinfos ex) user (www_realm wa) = Some (Some a)"
      "j_userid a = userid" "j_passwd a = passwd" "j_ha1 a = []" "short userid" "short passwd" "short (in_quotes realm)"
    using acc assms(2) by (auto simp: account_for_def digest_challenge_def)
  obtain aut where aut: "account_header g (Some wa) (a, Some uri) req ''0a4f113b'' 1 [] = Some ((OSIP_SUCCESS, Some aut), [])"
      "answers aut wa userid passwd uri mtd 1"
    using account_header_answers [OF assms(1-3) a(2-7)] by blast
  obtain cid where cid: "call_id req = Some cid" "callid_number cid = Some number" using assms(3) by (auto simp: call_request_def)
  have "www_auth_type wa \<noteq> None" using assms(2) by (auto simp: digest_challenge_def split: option.splits)
  then have store: "eXosip_store_nonce (http_auths ex) number wa code [] = Some ((OSIP_SUCCESS, xs @ kept number wa 1 code # ys), [])"
    unfolding table(1) using store_in_free_slot [OF table(3,4,2)] by simp
  have "answer_challenges g code user [wa] ex req [] = Some ((OSIP_SUCCESS, ex\<lparr>http_auths := xs @ kept number wa 1 code # ys\<rparr>, with_credentials code aut req), [])"
    using assms(3,4) by (simp add: call_request_def account_and_uri_def a(1) aut(1) add_credentials_ok cid store)
  moreover have "from_username req = Some user" using assms(3) by (simp add: call_request_def)
  ultimately show ?thesis
    using code aut(2) by (intro exI [of _ aut], elim disjE) (simp_all add: eXosip_add_authentication_information_def response del: answer_challenges.simps(2))
qed

text \<open>A later request of the call is answered for from what is kept.\<close>

lemma kept_challenge_other:
  assumes "call_id req = Some cid" "callid_number cid = Some number" "\<not> slot_of number h"
  shows "kept_challenge g accounts user h req m = Some ((OSIP_SUCCESS, h, req), m)"
  using assms by (auto simp: kept_challenge_def slot_of_def)

lemma kept_challenges_others:
  assumes "call_id req = Some cid" "callid_number cid = Some number" "\<forall>h \<in> set hs. \<not> slot_of number h"
  shows "kept_challenges g accounts user hs req m = Some ((OSIP_SUCCESS, hs, req), m)"
  using assms(3) by (induction hs) (simp_all add: kept_challenge_other [OF assms(1,2)])

lemma kept_challenges_at:
  assumes "call_id req = Some cid" "callid_number cid = Some number" "\<forall>h \<in> set (xs @ ys). \<not> slot_of number h"
    and "kept_challenge g accounts user h req m = Some ((OSIP_SUCCESS, h', req'), m')" "call_id req' = call_id req"
  shows "kept_challenges g accounts user (xs @ h # ys) req m = Some ((OSIP_SUCCESS, xs @ h' # ys, req'), m')"
  using assms(3)
proof (induction xs)
  case Nil
  then show ?case using assms(1,2,4,5) kept_challenges_others [of req' cid number ys] by simp
next
  case (Cons x xs)
  then show ?case using kept_challenge_other [OF assms(1,2), of x] by simp
qed

lemma kept_challenge_is_answered:
  assumes "length g = 64" "digest_challenge wa realm" "call_request req number user mtd uri"
    and acc: "account_for (authinfos ex) user realm userid passwd"
    and table: "http_auths ex = xs @ kept number wa n code # ys" "\<forall>h \<in> set (xs @ ys). \<not> slot_of number h" "number \<noteq> []" "length number < 64"
  shows "\<exists>aut. eXosip_add_authentication_information g ex req None []
      = Some ((OSIP_SUCCESS, ex\<lparr>http_auths := xs @ kept number wa (n + 1) code # ys\<rparr>, with_credentials code aut req), [])
    \<and> answers aut wa userid passwd uri mtd (n + 1)"
proof -
  let ?wa = "wa\<lparr>www_auth_param := None\<rparr>"
  have wa: "digest_challenge ?wa realm" using assms(2) by (simp add: digest_challenge_def)
  obtain a where a: "eXosip_find_authentication_info (authinfos ex) user (www_realm wa) = Some (Some a)"
      "j_userid a = userid" "j_passwd a = passwd" "j_ha1 a = []" "short userid" "short passwd" "short (in_quotes realm)"
    using acc assms(2) by (auto simp: account_for_def digest_challenge_def)
  obtain aut where aut: "account_header g (Some ?wa) (a, Some uri) req ''0a4f113b'' (n + 1) [] = Some ((OSIP_SUCCESS, Some aut), [])"
      "answers aut ?wa userid passwd uri mtd (n + 1)"
    using account_header_answers [OF assms(1) wa assms(3) a(2-7)] by blast
  obtain cid where cid: "call_id req = Some cid" "callid_number cid = Some number" using assms(3) by (auto simp: call_request_def)
  have "kept_challenge g (authinfos ex) user (kept number wa n code) req []
      = Some ((OSIP_SUCCESS, kept number wa (n + 1) code, with_credentials code aut req), [])"
    using assms(3) table(3,4)
    by (simp add: kept_challenge_def kept_def cid call_request_def account_and_uri_def a(1) aut(1) add_credentials_ok)
  then have "kept_challenges g (authinfos ex) user (http_auths ex) req []
      = Some ((OSIP_SUCCESS, xs @ kept number wa (n + 1) code # ys, with_credentials code aut req), [])"
    unfolding table(1) by (intro kept_challenges_at [OF cid table(2)]) simp_all
  moreover have "from_username req = Some user" using assms(3) by (simp add: call_request_def)
  moreover have "answers aut wa userid passwd uri mtd (n + 1)" using aut(2) by (simp add: answers_def)
  ultimately show ?thesis by (intro exI [of _ aut]) (simp add: eXosip_add_authentication_information_def)
qed

text \<open>What becomes of several requests of a call, one after the other.\<close>

fun send_all :: "byte list \<Rightarrow> eXosip_t \<Rightarrow> sip_message list \<Rightarrow> (int \<times> sip_message) list option" where
  "send_all g ex [] = Some []"
| "send_all g ex (req # reqs) = do {
     ((i, ex, req), m) \<leftarrow> eXosip_add_authentication_information g ex req None [];
     sent \<leftarrow> send_all g ex reqs;
     Some ((i, req) # sent)
   }"

text \<open>Each of them is answered for, and they are counted.\<close>

lemma requests_are_answered_for:
  assumes "length g = 64" "digest_challenge wa realm" "\<forall>h \<in> set (xs @ ys). \<not> slot_of number h" "number \<noteq> []" "length number < 64"
    and "\<forall>req \<in> set reqs. \<exists>mtd uri. call_request req number user mtd uri"
    and "account_for (authinfos ex) user realm userid passwd" "http_auths ex = xs @ kept number wa n code # ys"
  shows "\<exists>auts. length auts = length reqs
    \<and> send_all g ex reqs = Some (map2 (\<lambda>aut req. (OSIP_SUCCESS, with_credentials code aut req)) auts reqs)
    \<and> (\<forall>i < length reqs. \<forall>mtd uri. call_request (reqs ! i) number user mtd uri
        \<longrightarrow> answers (auts ! i) wa userid passwd uri mtd (n + 1 + int i))"
  using assms(6-8)
proof (induction reqs arbitrary: ex n)
  case Nil
  show ?case by (intro exI [of _ "[]"]) simp
next
  case (Cons req reqs)
  obtain mtd uri where req: "call_request req number user mtd uri" using Cons.prems(1) by auto
  let ?ex = "ex\<lparr>http_auths := xs @ kept number wa (n + 1) code # ys\<rparr>"
  obtain aut where aut: "eXosip_add_authentication_information g ex req None [] = Some ((OSIP_SUCCESS, ?ex, with_credentials code aut req), [])"
      "answers aut wa userid passwd uri mtd (n + 1)"
    using kept_challenge_is_answered [OF assms(1,2) req Cons.prems(2,3) assms(3-5)] by blast
  obtain auts where auts: "length auts = length reqs"
      "send_all g ?ex reqs = Some (map2 (\<lambda>aut req. (OSIP_SUCCESS, with_credentials code aut req)) auts reqs)"
      "\<forall>i < length reqs. \<forall>mtd uri. call_request (reqs ! i) number user mtd uri \<longrightarrow> answers (auts ! i) wa userid passwd uri mtd (n + 1 + 1 + int i)"
    using Cons.IH [of ?ex "n + 1"] Cons.prems by auto
  have same: "mtd' = mtd \<and> uri' = uri" if "call_request req number user mtd' uri'" for mtd' uri'
    using that req by (simp add: call_request_def)
  have "answers ((aut # auts) ! i) wa userid passwd uri' mtd' (n + 1 + int i)"
    if "i < length (req # reqs)" "call_request ((req # reqs) ! i) number user mtd' uri'" for i mtd' uri'
    using that aut(2) auts(3) same by (cases i) (auto simp: algebra_simps)
  then show ?case using aut(1) auts(1,2) by (intro exI [of _ "aut # auts"]) simp
qed

text \<open>An account that was just added, with nothing cut off.\<close>

lemma account_for_added:
  assumes "user \<noteq> []" "userid \<noteq> []" "passwd \<noteq> []" "realm \<noteq> []" "\<forall>s \<in> {user, userid, passwd, realm}. length s < 50"
  shows "account_for (snd (fst (eXosip_add_authentication_info accounts (Some user) (Some userid) (Some passwd) None (Some realm) []))) user realm userid passwd"
  using assms added_account_is_found [of user userid passwd realm accounts]
  by (auto simp: account_for_def short_def in_quotes_def)

text \<open>The table has a free slot: before the first one all are taken.\<close>

lemma first_free_slot:
  assumes "\<exists>h \<in> set hs. free_slot h"
  obtains xs h ys where "hs = xs @ h # ys" "free_slot h" "\<forall>h \<in> set xs. \<not> free_slot h"
  using split_list_first_prop [OF assms] by blast

text \<open>The challenge of RFC 2617 put to a registration.\<close>

definition mufasa_context :: eXosip_t where
  "mufasa_context = \<lparr>authinfos = snd (fst (eXosip_add_authentication_info [] (Some ''Mufasa'') (Some ''Mufasa'') (Some ''Circle Of Life'') None
     (Some ''testrealm@host.com'') [])), http_auths = replicate 100 http_auth_zero\<rparr>"

definition mufasa_request :: sip_message where
  "mufasa_request = sip_message_init\<lparr>sip_method := Some ''REGISTER'',
     req_uri := Some (osip_uri_init\<lparr>uri_scheme := Some ''sip'', uri_host := Some ''host.com''\<rparr>),
     call_id := Some \<lparr>callid_number = Some ''7f3a'', callid_host = None\<rparr>,
     msg_from := Some (osip_from_init\<lparr>url := Some (osip_uri_init\<lparr>uri_scheme := Some ''sip'', uri_username := Some ''Mufasa'',
       uri_host := Some ''host.com''\<rparr>)\<rparr>)\<rparr>"

definition mufasa_response :: sip_message where
  "mufasa_response = sip_message_init\<lparr>status_code := 401, www_authenticates := [mufasa_challenge]\<rparr>"

lemma mufasa_call_request: "call_request mufasa_request ''7f3a'' ''Mufasa'' ''REGISTER'' ''sip:host.com''"
proof -
  have "osip_uri_to_str (req_uri mufasa_request) [] = Some ((OSIP_SUCCESS, Some ''sip:host.com''), [])" by code_simp
  moreover have "from_username mufasa_request = Some ''Mufasa''" by code_simp
  ultimately show ?thesis by (simp add: call_request_def short_def) (simp add: mufasa_request_def)
qed

lemma mufasa_keeps: "keeps_challenge mufasa_request = Some True"
  by (simp add: keeps_challenge_def mufasa_request_def)

lemma mufasa_digest: "digest_challenge mufasa_challenge ''testrealm@host.com''"
  using mufasa_facts by (simp add: digest_challenge_def short_def in_quotes_def)

end
