(* ===== verification/Message_Copies.thy ===== *)
theory Message_Copies
  imports Message_Clone
begin

text \<open>
  The contract of a function that copies a header, as a locale, with an interpretation for each of the thirteen; what it gives for lists and for
  headers that may be missing; and the copy of a whole message, which is the message without the parameters of challenges and
  credentials that no parser sets, and has the same text.
\<close>

section \<open>Functions that copy\<close>

text \<open>A step that succeeds and changes the copy by \<open>upd\<close>.\<close>

definition step_ok :: "clone_step \<Rightarrow> (sip_message \<Rightarrow> sip_message) \<Rightarrow> bool" where
  "step_ok step upd \<longleftrightarrow> (\<forall>copy m. never_fails m \<longrightarrow> (\<exists>m'. step copy m = ((OSIP_SUCCESS, Some (upd copy)), m') \<and> never_fails m'))"

lemma into_ok:
  assumes "\<And>m. never_fails m \<Longrightarrow> \<exists>m'. r m = ((0, x), m') \<and> never_fails m'"
  shows "step_ok (\<lambda>copy m. into (r m) (put copy)) (\<lambda>copy. put copy x)"
  using assms unfolding step_ok_def into_def by (intro allI impI checked_call_ok) auto

locale cloner =
  fixes clone :: "'h \<Rightarrow> mem \<Rightarrow> (int \<times> 'h option) \<times> mem"
    and wf :: "'h \<Rightarrow> bool"
    and copy_of :: "'h \<Rightarrow> 'h"
  assumes clone_copies: "wf h \<Longrightarrow> never_fails m \<Longrightarrow> \<exists>m'. clone h m = ((0, Some (copy_of h)), m') \<and> never_fails m'"
begin

lemma list_copies:
  assumes "\<forall>h \<in> set hs. wf h" "never_fails m"
  shows "\<exists>m'. osip_list_clone clone hs [] m = ((0, map copy_of hs), m') \<and> never_fails m'"
  using osip_list_clone_copies [of hs clone copy_of m "[]"] clone_copies assms by auto

lemma opt_copies:
  assumes "\<forall>h \<in> set_option h. wf h" "never_fails m"
  shows "\<exists>m'. clone_opt clone h m = ((0, map_option copy_of h), m') \<and> never_fails m'"
  using assms clone_copies by (cases h) (auto simp: clone_opt_def)

lemma list_step:
  "\<forall>h \<in> set hs. wf h \<Longrightarrow> step_ok (\<lambda>copy m. into (osip_list_clone clone hs [] m) (put copy)) (\<lambda>copy. put copy (map copy_of hs))"
  by (rule into_ok, rule list_copies)

lemma opt_step:
  "\<forall>h \<in> set_option h. wf h \<Longrightarrow> step_ok (\<lambda>copy m. into (clone_opt clone h m) (put copy)) (\<lambda>copy. put copy (map_option copy_of h))"
  by (rule into_ok, rule opt_copies)

end

interpretation uri_copy: cloner "\<lambda>u. osip_uri_clone (Some u)" uri_ok id
  by unfold_locales (simp add: osip_uri_clone_ok)

interpretation from_copy: cloner "\<lambda>f. osip_from_clone (Some f)" from_ok id
  by unfold_locales (simp add: osip_from_clone_ok)

interpretation via_copy: cloner "\<lambda>v. osip_via_clone (Some v)" via_ok id
  by unfold_locales (simp add: osip_via_clone_ok)

interpretation call_id_copy: cloner "\<lambda>c. osip_call_id_clone (Some c)" "\<lambda>c. callid_number c \<noteq> None" id
  by unfold_locales (simp add: osip_call_id_clone_ok del: not_None_eq)

interpretation cseq_copy: cloner "\<lambda>c. osip_cseq_clone (Some c)" cseq_typed id
  by unfold_locales (simp add: osip_cseq_clone_ok cseq_typed_def del: not_None_eq)

interpretation authorization_copy: cloner osip_authorization_clone "\<lambda>_. True" "\<lambda>a. a\<lparr>auth_param := None\<rparr>"
  by unfold_locales (rule osip_authorization_clone_ok)

interpretation www_authenticate_copy: cloner osip_www_authenticate_clone "\<lambda>a. www_auth_type a \<noteq> None" "\<lambda>a. a\<lparr>www_auth_param := None\<rparr>"
  by unfold_locales (unfold osip_www_authenticate_clone_def, simp del: not_None_eq, intro clone_ok, auto)

interpretation accept_encoding_copy: cloner osip_accept_encoding_clone element_typed id
  by unfold_locales
    (unfold osip_accept_encoding_clone_def element_typed_def, simp del: not_None_eq, intro clone_ok params_call_ok, auto)

interpretation call_info_copy: cloner osip_call_info_clone element_typed id
  by unfold_locales
    (unfold osip_call_info_clone_def element_typed_def, simp del: not_None_eq, intro clone_ok params_call_ok, auto)

interpretation content_length_copy: cloner osip_content_length_clone "\<lambda>_. True" id
  by unfold_locales (unfold osip_content_length_clone_def, simp, intro clone_ok, auto)

interpretation content_type_copy: cloner osip_content_type_clone "\<lambda>c. named (ct_params c)" id
  by unfold_locales (unfold osip_content_type_clone_def, simp, intro clone_ok params_call_ok, auto)

interpretation header_copy: cloner osip_header_clone "\<lambda>h. h_name h \<noteq> None" id
  by unfold_locales (unfold osip_header_clone_def, simp del: not_None_eq, intro clone_ok, auto)

interpretation authentication_info_copy: cloner osip_authentication_info_clone "\<lambda>_. True" id
  by unfold_locales (unfold osip_authentication_info_clone_def, simp, intro clone_ok, auto)

section \<open>The steps\<close>

lemma string_step: "step_ok (\<lambda>copy m. into_string s m (put copy)) (\<lambda>copy. put copy s)"
  unfolding step_ok_def into_string_def by (intro allI impI checked_strdup_ok) auto

lemma plain_step: "step_ok (\<lambda>copy m. ((OSIP_SUCCESS, Some (upd copy)), m)) upd"
  by (simp add: step_ok_def)

text \<open>From a copy the steps that are left make \<open>r\<close>.\<close>

definition makes :: "clone_step list \<Rightarrow> sip_message \<Rightarrow> sip_message \<Rightarrow> bool" where
  "makes steps copy r \<longleftrightarrow> (\<forall>m. never_fails m \<longrightarrow> (\<exists>m'. run_steps steps copy m = ((OSIP_SUCCESS, Some r), m') \<and> never_fails m'))"

lemma makes_Cons:
  assumes "step_ok step upd" "makes steps (upd copy) r"
  shows "makes (step # steps) copy r"
  unfolding makes_def
proof (intro allI impI)
  fix m :: mem
  assume "never_fails m"
  then obtain m1 where "step copy m = ((OSIP_SUCCESS, Some (upd copy)), m1)" "never_fails m1" using assms(1) unfolding step_ok_def by blast
  then show "\<exists>m'. run_steps (step # steps) copy m = ((OSIP_SUCCESS, Some r), m') \<and> never_fails m'"
    using assms(2) by (simp add: makes_def)
qed

lemma makes_Nil: "copy = r \<Longrightarrow> makes [] copy r"
  by (simp add: makes_def)

text \<open>The message without the parameters that are not copied.\<close>

definition without_auth_params :: "sip_message \<Rightarrow> sip_message" where
  "without_auth_params sip = sip\<lparr>authorizations := map (\<lambda>a. a\<lparr>auth_param := None\<rparr>) (authorizations sip),
     proxy_authorizations := map (\<lambda>a. a\<lparr>auth_param := None\<rparr>) (proxy_authorizations sip),
     www_authenticates := map (\<lambda>a. a\<lparr>www_auth_param := None\<rparr>) (www_authenticates sip),
     proxy_authenticates := map (\<lambda>a. a\<lparr>www_auth_param := None\<rparr>) (proxy_authenticates sip)\<rparr>"

lemma steps_make_the_message:
  assumes "headers_typed sip" "\<forall>u \<in> set_option (req_uri sip). uri_ok u"
  shows "makes (clone_steps sip) sip_message_init ((without_auth_params sip)\<lparr>bodies := [], message_property := 3\<rparr>)"
proof -
  have t: "\<forall>v \<in> set (vias sip). via_ok v" "\<forall>f \<in> set (contacts sip). from_ok f" "\<forall>f \<in> set (routes sip). from_ok f"
    "\<forall>f \<in> set (record_routes sip). from_ok f" "\<forall>f \<in> set_option (msg_from sip). from_ok f" "\<forall>f \<in> set_option (msg_to sip). from_ok f"
    "\<forall>c \<in> set_option (call_id sip). callid_number c \<noteq> None" "\<forall>c \<in> set_option (cseq sip). cseq_typed c"
    "\<forall>a \<in> set (www_authenticates sip). www_auth_type a \<noteq> None" "\<forall>a \<in> set (proxy_authenticates sip). www_auth_type a \<noteq> None"
    "\<forall>c \<in> set_option (content_type sip). named (ct_params c)" "\<forall>c \<in> set (accepts sip). named (ct_params c)"
    "\<forall>h \<in> set (accept_encodings sip). element_typed h" "\<forall>h \<in> set (accept_languages sip). element_typed h"
    "\<forall>h \<in> set (alert_infos sip). element_typed h" "\<forall>h \<in> set (call_infos sip). element_typed h" "\<forall>h \<in> set (error_infos sip). element_typed h"
    "\<forall>h \<in> set (headers sip). h_name h \<noteq> None"
    using assms(1) by (simp_all add: headers_typed_def)
  note steps = string_step plain_step uri_copy.opt_step from_copy.list_step from_copy.opt_step via_copy.list_step call_id_copy.opt_step
    cseq_copy.opt_step authorization_copy.list_step www_authenticate_copy.list_step accept_encoding_copy.list_step call_info_copy.list_step
    content_length_copy.list_step content_length_copy.opt_step content_type_copy.list_step content_type_copy.opt_step header_copy.list_step
    authentication_info_copy.list_step
  have all: "\<forall>h \<in> set hs. True" "\<forall>h \<in> set_option x. True" for hs :: "'a list" and x :: "'b option" by simp_all
  show ?thesis
    unfolding clone_steps_def
    apply (rule makes_Cons, rule steps, (rule t assms(2) all)?)+
    apply (rule makes_Nil)
    apply (simp add: without_auth_params_def sip_message_init_def osip_message_init_def osip_message.defs option.map_id)
    done
qed

section \<open>Messages\<close>

text \<open>A body that is not empty, and as long as it says.\<close>

definition body_ok :: "osip_body \<Rightarrow> bool" where
  "body_ok b \<longleftrightarrow> map_option length (b_body b) = Some (b_length b) \<and> 0 < b_length b
     \<and> (\<forall>ct \<in> set_option (b_content_type b). named (ct_params ct)) \<and> (\<forall>h \<in> set (b_headers b). h_name h \<noteq> None)"

lemma osip_body_init_ok:
  assumes "never_fails m"
  shows "\<exists>m'. osip_body_init m = Some ((0, Some \<lparr>b_body = None, b_length = 0, b_headers = [], b_content_type = None\<rparr>), m') \<and> never_fails m'"
  unfolding osip_body_init_def using assms by (intro alloc_or_ok) auto

lemma osip_body_clone_ok:
  assumes "body_ok b" "never_fails m"
  shows "\<exists>m'. osip_body_clone b m = Some ((0, Some b), m') \<and> never_fails m'"
proof -
  obtain bytes where b: "b_body b = Some bytes" "length bytes = b_length b" "0 < b_length b"
      "\<forall>ct \<in> set_option (b_content_type b). named (ct_params ct)" "\<forall>h \<in> set (b_headers b). h_name h \<noteq> None"
    using assms(1) by (auto simp: body_ok_def)
  obtain m1 where m1: "osip_body_init m = Some ((0, Some \<lparr>b_body = None, b_length = 0, b_headers = [], b_content_type = None\<rparr>), m1)" "never_fails m1"
    using osip_body_init_ok [OF assms(2)] by blast
  obtain m2 where m2: "osip_malloc m1 = (True, m2)" "never_fails m2" using osip_malloc_never_fails [OF m1(2)] by blast
  obtain m3 where m3: "(case b_content_type b of None \<Rightarrow> ((OSIP_SUCCESS, None), m2) | Some ct \<Rightarrow> osip_content_type_clone ct m2)
      = ((0, b_content_type b), m3)" "never_fails m3"
    using content_type_copy.opt_copies [OF b(4) m2(2)] by (auto simp: clone_opt_def option.map_id)
  obtain m4 where m4: "osip_list_clone osip_header_clone (b_headers b) [] m3 = ((0, b_headers b), m4)" "never_fails m4"
    using header_copy.list_copies [OF b(5) m3(2)] by auto
  show ?thesis
    using b(1-3) by (simp add: osip_body_clone_def m1(1) alloc_or_def m2(1) m3(1) checked_call_def m4)
qed

lemma clone_bodies_ok:
  "\<forall>b \<in> set bs. body_ok b \<Longrightarrow> never_fails m \<Longrightarrow> \<exists>m'. clone_bodies bs dst m = Some ((0, dst @ bs), m') \<and> never_fails m'"
proof (induction bs arbitrary: dst m)
  case Nil
  then show ?case by simp
next
  case (Cons b bs)
  obtain m1 where m1: "osip_body_clone b m = Some ((0, Some b), m1)" "never_fails m1" using osip_body_clone_ok [of b m] Cons.prems by auto
  obtain m2 where m2: "osip_malloc m1 = (True, m2)" "never_fails m2" using osip_malloc_never_fails [OF m1(2)] by blast
  show ?case using Cons.IH [of m2 "dst @ [b]"] Cons.prems(1) m1(1) m2 by (simp add: list_add_def)
qed

text \<open>The text that is kept is copied up to a NUL.\<close>

theorem message_clone_ok:
  assumes "headers_typed sip" "\<forall>u \<in> set_option (req_uri sip). uri_ok u" "\<forall>b \<in> set (bodies sip). body_ok b" "never_fails m"
  shows "\<exists>m'. osip_message_clone (Some sip) c m
      = Some ((OSIP_SUCCESS, Some (without_auth_params sip, map_option cstring_at (fst c), snd c)), m') \<and> never_fails m'"
proof -
  obtain m1 where m1: "osip_malloc m = (True, m1)" "never_fails m1" using osip_malloc_never_fails [OF assms(4)] by blast
  obtain m2 where m2: "run_steps (clone_steps sip) sip_message_init m1
      = ((OSIP_SUCCESS, Some ((without_auth_params sip)\<lparr>bodies := [], message_property := 3\<rparr>)), m2)" "never_fails m2"
    using steps_make_the_message [OF assms(1,2)] m1(2) unfolding makes_def by blast
  obtain m3 where m3: "clone_bodies (bodies sip) [] m2 = Some ((0, bodies sip), m3)" "never_fails m3"
    using clone_bodies_ok [OF assms(3) m2(2), of "[]"] by auto
  obtain m4 where m4: "osip_strdup (map_option cstring_at (fst c)) m3 = (map_option cstring_at (fst c), m4)" "never_fails m4"
    using osip_strdup_never_fails [OF m3(2), of "map_option cstring_at (fst c)"] by blast
  have eq: "(without_auth_params sip)\<lparr>bodies := [], message_property := 3, bodies := bodies sip, message_property := message_property sip\<rparr>
      = without_auth_params sip"
    by (simp add: without_auth_params_def)
  have some: "(map_option cstring_at (fst c) = None \<and> fst c \<noteq> None) = False" by (cases "fst c") simp_all
  have "osip_message_clone (Some sip) c m = Some ((OSIP_SUCCESS, Some (without_auth_params sip, map_option cstring_at (fst c), snd c)), m4)"
    by (simp only: osip_message_clone_def alloc_or_def m1(1) m2(1) m3(1) m4(1) some eq option.case prod.case if_True if_False Option.bind.bind_lunit
        not_True_eq_False simp_thms)
  then show ?thesis using m4(2) by blast
qed

section \<open>The text of a copy\<close>

lemma without_auth_params_simps [simp]:
  "sip_version (without_auth_params s) = sip_version s" "req_uri (without_auth_params s) = req_uri s" "sip_method (without_auth_params s) = sip_method s"
  "status_code (without_auth_params s) = status_code s" "reason_phrase (without_auth_params s) = reason_phrase s"
  "headers (without_auth_params s) = headers s" "bodies (without_auth_params s) = bodies s" "content_type (without_auth_params s) = content_type s"
  "mime_version (without_auth_params s) = mime_version s" "message_property (without_auth_params s) = message_property s"
  by (simp_all add: without_auth_params_def)

text \<open>The printers do not look at the parameters that are missing.\<close>

lemma www_to_str_without: "osip_www_authenticate_to_str (Some (a\<lparr>www_auth_param := None\<rparr>)) = osip_www_authenticate_to_str (Some a)"
proof -
  let ?a = "a\<lparr>www_auth_param := None\<rparr>"
  have "www_auth_type ?a = www_auth_type a" "www_realm ?a = www_realm a" "www_texts ?a = www_texts a" "www_length ?a t = www_length a t" for t
    by (simp_all add: www_texts_def www_length_def)
  note fields = this
  show ?thesis unfolding fun_eq_iff osip_www_authenticate_to_str_def option.case fields by simp
qed

lemma authorization_to_str_without: "osip_authorization_to_str (Some (a\<lparr>auth_param := None\<rparr>)) = osip_authorization_to_str (Some a)"
proof -
  let ?a = "a\<lparr>auth_param := None\<rparr>"
  have "auth_type ?a = auth_type a" "authorization_texts ?a = authorization_texts a" "authorization_length ?a t = authorization_length a t" for t
    by (simp_all add: authorization_texts_def authorization_length_def)
  note fields = this
  show ?thesis unfolding fun_eq_iff osip_authorization_to_str_def option.case fields by simp
qed

lemma lines_of_copies:
  assumes "\<And>h. to_str (Some (g h)) = to_str (Some h)"
  shows "strcat_headers_one_per_line n to_str (map g hs) = strcat_headers_one_per_line n to_str hs"
proof (induction hs)
  case (Cons h hs)
  have "strcat_simple_header n to_str (Some (g h)) = strcat_simple_header n to_str (Some h)"
    unfolding fun_eq_iff strcat_simple_header_def assms by simp
  note step = this
  show ?case unfolding fun_eq_iff list.map strcat_headers_one_per_line.simps step Cons.IH by simp
qed simp

lemma rows_of_copies: "\<forall>r \<in> set to_str_table. r (without_auth_params s) = r s"
  unfolding to_str_table_def
  by (simp add: list_row_def data_row_def without_auth_params_def fun_eq_iff
      lines_of_copies [of osip_www_authenticate_to_str, OF www_to_str_without]
      lines_of_copies [of osip_authorization_to_str, OF authorization_to_str_without])

lemma print_rows_cong: "\<forall>r \<in> set rs. r s = r s' \<Longrightarrow> print_rows rs s = print_rows rs s'"
proof (induction rs)
  case Nil
  show ?case by (simp add: fun_eq_iff)
next
  case (Cons r rs)
  then have "r s = r s'" "print_rows rs s = print_rows rs s'" by simp_all
  note step = this
  show ?case unfolding fun_eq_iff print_rows.simps step by simp
qed

lemma startline_of_copy: "osip_message_startline_to_str (Some (without_auth_params s)) = osip_message_startline_to_str (Some s)"
  unfolding osip_message_startline_to_str_def osip_message_startline_to_strreq_def osip_message_startline_to_strresp_def
  by (simp add: fun_eq_iff cong: if_cong option.case_cong)

lemma print_head_of_copy: "print_head (without_auth_params s) = print_head s"
  unfolding print_head_def fun_eq_iff startline_of_copy print_rows_cong [OF rows_of_copies] without_auth_params_simps by simp

lemma print_body_of_copy: "print_body (without_auth_params s) = print_body s"
  unfolding print_body_def print_boundary_def fun_eq_iff without_auth_params_simps by simp

text \<open>Error and text of what a printer answers.\<close>

definition text_of_answer :: "((int \<times> cstr \<times> 's) \<times> mem) option \<Rightarrow> (int \<times> cstr) option" where
  "text_of_answer r = map_option (\<lambda>((i, dest, _), _). (i, dest)) r"

lemma text_of_copy: "text_of_answer (message_to_str (Some (without_auth_params s)) c frag m) = text_of_answer (message_to_str (Some s) c frag m)"
  unfolding message_to_str_def text_of_answer_def
  by (auto simp: print_head_of_copy print_body_of_copy alloc_or_def split_def Let_def split: bind_splits option.splits if_splits)

text \<open>A text with a NUL that is kept is cut off in the copy, its length is not: printing the copy reads behind the text.\<close>

lemma text_with_nul_is_cut:
  assumes "headers_typed sip" "\<forall>u \<in> set_option (req_uri sip). uri_ok u" "\<forall>b \<in> set (bodies sip). body_ok b" "never_fails m"
    and "message_property sip = 1" "NUL \<notin> set x" "y \<noteq> []"
  shows "\<exists>copy c m'. osip_message_clone (Some sip) (Some (x @ NUL # y), length (x @ NUL # y)) m = Some ((OSIP_SUCCESS, Some (copy, c)), m')
    \<and> osip_message_to_str (Some copy) c [] = None"
proof -
  have "cstring_at (x @ NUL # y) = x" using assms(6) by (auto simp: cstring_at_def takeWhile_append)
  moreover have "osip_message_to_str (Some (without_auth_params sip)) (Some x, length (x @ NUL # y)) [] = None"
    using assms(5,7) by (cases y) (simp_all add: osip_message_to_str_def message_to_str_def ub_unless_def)
  ultimately show ?thesis
    using message_clone_ok [OF assms(1-4), of "(Some (x @ NUL # y), length (x @ NUL # y))"] by auto
qed

end
