(* ===== verification/Spec2Isabelle.thy ===== *)
theory Spec2Isabelle
  imports Samples Header_Codec Message_Event Message_Roundtrip Dialog_Samples Osip_Md5 Sdp_Samples Sdp_Accessor Expiry_Samples Call_Credentials Message_Copies
begin

text \<open>
  A verification of the transaction layer of the oSIP library, \<^verbatim>\<open>src/osip\<close>, the part of this
  SIP user agent that decides which message belongs to which transaction, when a message is sent
  again, and when a transaction ends; and of its parser, \<^verbatim>\<open>osipparser2\<close>, which makes messages of text
  from the network, with the printers of URIs and headers. The user agent \<^verbatim>\<open>src/exosip\<close> sits on top of it; of that the authentication is modelled.

  The program. Text from the network is parsed (\<^verbatim>\<open>osip_message_parse.c\<close>): folded lines are joined,
  the start line is read, every header line is split at its commas and handed to the parser of that
  header, found through a hash table (\<^verbatim>\<open>osip_parser_cfg.c\<close>), and the body is taken, in parts when it is
  multipart. A message that arrives or is about to leave becomes an event
  (\<^verbatim>\<open>osip_event.c\<close>). \<^verbatim>\<open>osip_find_transaction_and_add_event\<close> puts it into the queue
  (\<^verbatim>\<open>port_fifo.c\<close>) of the transaction it matches, \<^verbatim>\<open>osip_create_transaction\<close> starts a new one. The
  four loops \<^verbatim>\<open>osip_ict_execute\<close>, \<^verbatim>\<open>osip_ist_execute\<close>, \<^verbatim>\<open>osip_nict_execute\<close>,
  \<^verbatim>\<open>osip_nist_execute\<close> take the events out and call \<^verbatim>\<open>osip_transaction_execute\<close>, which looks the
  handler up in the table of one of four machines (\<^verbatim>\<open>ict_fsm.c\<close>, \<^verbatim>\<open>ist_fsm.c\<close>,
  \<^verbatim>\<open>nict_fsm.c\<close>, \<^verbatim>\<open>nist_fsm.c\<close>). The loops \<^verbatim>\<open>osip_timers_ict_execute\<close> and its like queue the events of
  timers that are due, and \<^verbatim>\<open>osip_timers_gettimeout\<close> says how long the thread may sleep. The
  application sends messages and learns what happened through callbacks, and frees a transaction
  with \<^verbatim>\<open>osip_transaction_free\<close>.

  The theories, in the order of their imports:

  \<^item> \<^verbatim>\<open>Prelude\<close>: error codes, C strings, the allocator as a schedule of answers, undefined
    behaviour (a NULL or dangling pointer followed, a double free) as the value \<open>None\<close>;
  \<^item> \<^verbatim>\<open>Osip_Time\<close> (\<^verbatim>\<open>osip_time.c\<close>), \<^verbatim>\<open>Osip_List\<close> (\<^verbatim>\<open>osip_list.c\<close> on a heap of nodes,
    refined to HOL lists), \<^verbatim>\<open>Port_Fifo\<close> (\<^verbatim>\<open>port_fifo.c\<close>, with the contract
    \<open>event_queue\<close> as a locale and its interpretation);
  \<^item> \<^verbatim>\<open>Osip_Headers\<close>, \<^verbatim>\<open>Osip_Compare\<close>, \<^verbatim>\<open>Osip_Message\<close> (\<^verbatim>\<open>osip_uri.c\<close>,
    \<^verbatim>\<open>osip_via.c\<close>, \<^verbatim>\<open>osip_from.c\<close> and their like): the headers, their clones, comparisons and
    printing;
  \<^item> \<^verbatim>\<open>Osip_Event\<close> (\<^verbatim>\<open>osip_event.c\<close> and the enumerations of \<^verbatim>\<open>osip.h\<close>);
  \<^item> \<^verbatim>\<open>Osip_Transaction_State\<close>: the transaction, its contexts, the world (the messages on
    their heap, the allocator, the clock, the log of callbacks and messages sent);
  \<^item> \<^verbatim>\<open>Fsm_Misc\<close> (\<^verbatim>\<open>fsm_misc.c\<close>, the callbacks, the timer test, the destinations) and
    \<^verbatim>\<open>Fsm_Inv\<close> (who owns which message; the locale \<open>fsm\<close>, what a machine must promise);
  \<^item> \<^verbatim>\<open>Ict\<close>, \<^verbatim>\<open>Ist\<close>, \<^verbatim>\<open>Nict\<close>, \<^verbatim>\<open>Nist\<close>: one machine each (context, timers, every handler,
    the table, the diagram of RFC 3261, the interpretation of \<open>fsm\<close>);
  \<^item> \<^verbatim>\<open>Osip_Transaction\<close> (\<^verbatim>\<open>osip_transaction.c\<close>: execution and matching) and
    \<^verbatim>\<open>Osip_Stack\<close> (\<^verbatim>\<open>osip.c\<close>: the lists, creating, finding, executing, timing, freeing);
  \<^item> \<^verbatim>\<open>Stack_Inv\<close> and \<^verbatim>\<open>Stack_Steps\<close>: the invariant of the whole stack, that every
    operation keeps it, and the stacks an application can reach;
  \<^item> \<^verbatim>\<open>Call_Matching\<close>, \<^verbatim>\<open>Timing\<close>, \<^verbatim>\<open>Retransmission\<close>: which messages of a call meet, how
    long the library sleeps, and the schedules of timers A, E and G;
  \<^item> \<^verbatim>\<open>Samples\<close>: a call the theorems are evaluated at;
  \<^item> \<^verbatim>\<open>Osip_Strings\<close> and \<^verbatim>\<open>Osip_Quotes\<close> (\<^verbatim>\<open>osip_port.c\<close>): pointers into a string, copies into
    buffers, trimming, quoted strings;
  \<^item> \<^verbatim>\<open>Uri_Escape\<close>, \<^verbatim>\<open>Uri_Parse\<close>, \<^verbatim>\<open>Uri_Print\<close>, \<^verbatim>\<open>Uri_Roundtrip\<close> (\<^verbatim>\<open>osip_uri.c\<close>): escaping,
    parsing and printing of URIs, safety on any text, and that the parser reads what is printed;
  \<^item> \<^verbatim>\<open>Generic_Param\<close>, \<^verbatim>\<open>Via_Parse\<close>, \<^verbatim>\<open>From_Parse\<close> (\<^verbatim>\<open>osip_from.c\<close>, \<^verbatim>\<open>osip_via.c\<close>,
    \<^verbatim>\<open>osip_call_id.c\<close>, \<^verbatim>\<open>osip_cseq.c\<close>, \<^verbatim>\<open>osip_to.c\<close>, \<^verbatim>\<open>osip_contact.c\<close>, \<^verbatim>\<open>osip_route.c\<close>,
    \<^verbatim>\<open>osip_record_route.c\<close>): the same for the headers;
  \<^item> \<^verbatim>\<open>Header_Codec\<close>: the locale \<open>header_codec\<close>, the contract of a printer and a parser, and its
    interpretations on all of them;
  \<^item> \<^verbatim>\<open>Message_Lines\<close> (\<^verbatim>\<open>osip_message_parse.c\<close>, \<^verbatim>\<open>osip_message_to_str.c\<close>): start lines, ends of
    lines, unfolding;
  \<^item> \<^verbatim>\<open>Simple_Headers\<close> (\<^verbatim>\<open>osip_content_type.c\<close>, \<^verbatim>\<open>osip_content_length.c\<close> and their like) and
    \<^verbatim>\<open>Auth_Parse\<close> (\<^verbatim>\<open>osip_www_authenticate.c\<close>, \<^verbatim>\<open>osip_authorization.c\<close>,
    \<^verbatim>\<open>osip_authentication_info.c\<close>: one loop over a table of fields);
  \<^item> \<^verbatim>\<open>Message_Headers\<close>: the whole message, the setters of all headers, the hash table, the loop over
    the header lines;
  \<^item> \<^verbatim>\<open>Message_Parse\<close> (\<^verbatim>\<open>osip_body.c\<close>, \<^verbatim>\<open>osip_message_parse.c\<close>): bodies, and the parser as a
    whole with its memory safety;
  \<^item> \<^verbatim>\<open>Message_Typed\<close>: what holds of every message it makes (a guarantee \<open>ensures\<close> of each
    operation, composed along the parser);
  \<^item> \<^verbatim>\<open>Message_Event\<close> (\<^verbatim>\<open>osip_parse\<close> of \<^verbatim>\<open>osip_event.c\<close>): from text to an event the stack may take.
  \<^item> \<^verbatim>\<open>Auth_Print\<close> and \<^verbatim>\<open>Message_Print\<close> (\<^verbatim>\<open>osip_message_to_str.c\<close>, \<^verbatim>\<open>osip_body_to_str\<close>): the printers of
    the authentication headers and of whole messages, in buffers that grow;
  \<^item> \<^verbatim>\<open>Simple_Codec\<close>, \<^verbatim>\<open>Auth_Codec\<close>, \<^verbatim>\<open>Message_Text\<close>, \<^verbatim>\<open>Message_Fields\<close>, \<^verbatim>\<open>Message_Rows\<close>,
    \<^verbatim>\<open>Message_Roundtrip\<close>: that the parser reads what the printer writes. Further interpretations of
    \<open>header_codec\<close>, the locales \<open>list_field\<close> and \<open>once_field\<close> where a row of the printer's table
    meets a setter of the parser's, with one interpretation for each of 22 headers, and the whole message;
  \<^item> \<^verbatim>\<open>Message_Clone\<close> (\<^verbatim>\<open>osip_message_clone\<close> and the clones of headers and bodies) and \<^verbatim>\<open>Message_Copies\<close>: the
    locale \<open>cloner\<close>, the contract of a function that copies, with an interpretation for each of the thirteen, and that a copy is equal;
  \<^item> \<^verbatim>\<open>Osip_Dialog\<close> (\<^verbatim>\<open>osip_dialog.c\<close>): creation, matching and updates of dialogs, and
    \<^verbatim>\<open>Dialog_Samples\<close>, what both ends of a call make;
  \<^item> \<^verbatim>\<open>Osip_Md5\<close> (\<^verbatim>\<open>osip_md5c.c\<close>): the digest, refined to RFC 1321;
  \<^item> \<^verbatim>\<open>Sdp_Parse\<close>, \<^verbatim>\<open>Sdp_Print\<close>, \<^verbatim>\<open>Sdp_Accessor\<close> (\<^verbatim>\<open>sdp_message.c\<close>, \<^verbatim>\<open>sdp_accessor.c\<close>): session
    descriptions. \<^verbatim>\<open>Sdp_Safe\<close>: that the parser stays in the text; \<^verbatim>\<open>Sdp_Text\<close>, \<^verbatim>\<open>Sdp_Rows\<close>,
    \<^verbatim>\<open>Sdp_Chain\<close>, \<^verbatim>\<open>Sdp_Roundtrip\<close>: the text of a description as a list of lines, what the parser makes of each,
    and that it reads what is printed; \<^verbatim>\<open>Sdp_Samples\<close>: a description, and texts that go wrong;
  \<^item> \<^verbatim>\<open>Expiry\<close> and \<^verbatim>\<open>Expiry_Samples\<close>: progress of the stack, a transaction whose time has come ends;
  \<^item> \<^verbatim>\<open>Rijndael\<close> (\<^verbatim>\<open>src/exosip/src/rijndael.c\<close>), a block cipher as lookups in tables; \<^verbatim>\<open>Aes\<close>, the cipher of
    FIPS 197 over the field of 256 elements; \<^verbatim>\<open>Aes_Tables\<close> and \<^verbatim>\<open>Rijndael_Aes\<close>: the entries of the tables, the rounds
    and the key schedule of the one are those of the other;
  \<^item> \<^verbatim>\<open>Milenage\<close> (\<^verbatim>\<open>milenage.c\<close>): the functions of a subscriber's card, refined to 3GPP TS 35.206;
  \<^item> \<^verbatim>\<open>Digest_Auth\<close> (\<^verbatim>\<open>jauth.c\<close>): the answer to a challenge. \<^verbatim>\<open>Digest_Spec\<close>: it is the one RFC 2617 asks for;
    \<^verbatim>\<open>Base64_Aka\<close>: base64, and the answers with the keys of a card; \<^verbatim>\<open>Digest_Samples\<close>: inputs of the standards;
  \<^item> \<^verbatim>\<open>Credentials\<close> (\<^verbatim>\<open>eXosip.c\<close>, \<^verbatim>\<open>jauth.c\<close>): the accounts, the challenges that are kept, and how a request gets its
    credentials; \<^verbatim>\<open>Call_Credentials\<close>: what this does for a call.

  State. A C struct is a record, a pointer to a header an option, a pointer to a message an
  address in the heap \<open>msgs\<close>, a pointer to a transaction an address in \<open>transactions\<close>. A context
  pointer is \<open>Null\<close>, \<open>Live c\<close> or \<open>Dangling\<close>. An operation takes the state and answers its
  result and the new state, or \<open>None\<close> for undefined behaviour. What the library sends and
  announces is appended to \<open>log\<close>. In the parsers a pointer into a string is the rest of the string
  from there, and reading or writing outside of it, or outside of a buffer, is \<open>None\<close>. What the transport answers, which callbacks are registered and
  what the clock reads are the parameters of \<open>osip_config\<close>.

  What is assumed. The invariants are stated for an allocator that does not fail
  (\<open>never_fails\<close>); the definitions model failures, and \<open>fifo_loses_the_event_without_memory\<close> says what the queue does then. Messages
  from outside satisfy \<open>msg_ok\<close> (parameters have names, a request has a method and a URI), which
  the parser establishes (C29), and the application owns the message it hands over (\<open>own_message\<close>).
  Callbacks read and do not change the transaction. A locked section is atomic. C \<^verbatim>\<open>int\<close> times and
  counters are unbounded integers: no length of a timer the library sets overflows 32 bits.

  Fuel and termination. Only the loop over one queue may run forever in principle; it is
  \<open>drain\<close>, a partial function, and C2 proves that it returns. The loops of
  the parsers are total functions, their measure the length of the rest. A loop of \<^verbatim>\<open>sdp_accessor.c\<close>
  does not always end, and is a partial function. The only fuel is that of
  the code, the thousand rounds of \<^verbatim>\<open>__osip_find_next_occurence\<close>.

  What is not modelled: the hash tables of transactions (not compiled in this build), the retransmission of 2xx and
  their ACKs, \<^verbatim>\<open>osip_release\<close>, the setters of callbacks, threads, sockets, and
  of \<^verbatim>\<open>src/exosip\<close> all but the authentication. The build options are those of the repository: threads, non-blocking sockets, no
  \<^verbatim>\<open>MINISIZE\<close>, no \<^verbatim>\<open>HAVE_DICT_DICT_H\<close>.

  The properties C1 to C7 are about the stack,
  C8 to C10 about one transaction,
  C11 to C16 about matching,
  C17 to C18 about timers,
  C19 about identities,
  C20 to C25 about the parsers and printers of URIs and headers,
  C26 to C29 about messages,
  C30 and C31 about dialogs, C32
  about the digest, C33 and C34 about session descriptions,
  C35 about progress, C36 to C39 about authentication, and
  C40 about copies.
\<close>
section \<open>The whole stack\<close>

text \<open>
  C1. From a fresh stack, no sequence of allowed calls reaches undefined behaviour: the next
  allowed call (create, deliver, execute, timers, sleep, free) returns, without following a NULL or
  freed pointer and without freeing twice, and the stack's invariant holds afterwards.
\<close>

theorem no_undefined_behaviour:
  assumes "stack_reachable cf s" "allowed s c"
  shows "\<exists>s'. call cf c s = Some s' \<and> stack_ok s'"
  by (rule call_ok [OF stack_reachable_ok [OF assms(1)] assms(2)])

theorem no_undefined_behaviour_witness:
  "\<exists>s'. call sample_config (Create (message_event RCV_REQINVITE 0)) (sample_stack sample_invite) = Some s'
    \<and> stack_ok s'"
  by (rule no_undefined_behaviour [OF sample_reachable]) (simp_all add: sample_own_message)



text \<open>
  C3. \<^verbatim>\<open>osip_timers_gettimeout\<close> answers exactly the time to the first deadline: zero when
  an INVITE client has pending events, else the smallest start time among the timers watched in
  the current states and the 2xx retransmissions, less the current time, at least zero and at
  most one year.
\<close>

theorem sleeps_until_the_first_deadline:
  assumes "stack_ok s" "timers_normal s" "tv_normal (clock cf (ticks s))"
  shows "\<exists>tv. osip_timers_gettimeout cf s = Some (tv, s\<lparr>ticks := ticks s + 1\<rparr>) \<and> tv_normal tv
    \<and> usecs tv = (if pending (transactions s) (osip_ict_transactions s) then 0
        else max 0 (Min (insert (usecs (clock cf (ticks s)) + usecs_per_year) (usecs ` set (deadlines s)))
               - usecs (clock cf (ticks s))))"
  using osip_timers_gettimeout_exact [OF assms] unfolding first_deadline_Min .

theorem sleeps_until_the_first_deadline_witness:
  "\<exists>tv. osip_timers_gettimeout sample_config (sample_stack sample_invite)
      = Some (tv, (sample_stack sample_invite)\<lparr>ticks := 1\<rparr>)
    \<and> usecs tv = usecs_per_year"
proof -
  let ?s = "sample_stack sample_invite"
  have lists: "transactions_of ty ?s = []" for ty
    by (cases ty) (simp_all add: transactions_of_def sample_stack_def message_arrives_def empty_stack_def)
  have s: "ticks ?s = 0" "ixt_retransmissions ?s = []" "osip_ict_transactions ?s = []"
    by (simp_all add: sample_stack_def message_arrives_def empty_stack_def)
  have "timers_normal ?s" using lists s by (simp add: timers_normal_def)
  moreover have "tv_normal (clock sample_config (ticks ?s))" by (simp add: sample_config_def tv_normal_def)
  ultimately show ?thesis
    using sleeps_until_the_first_deadline [OF sample_stack_ok [of sample_invite], of sample_config] lists s
    by (simp add: deadlines_def watched_timers_def pending_def usecs_per_year_def) blast
qed





text \<open>
  C6. Freeing a transaction frees exactly the messages it holds, its own and those of its
  queue, each once, and takes it off the list of its kind.
\<close>

theorem free_returns_what_it_holds:
  assumes "stack_ok s" "transactions s a = Some t"
  shows "\<exists>s'. osip_transaction_free (Some a) s = Some (OSIP_SUCCESS, s') \<and> stack_ok s'
    \<and> transactions s' = (transactions s)(a := None) \<and> dom (msgs s') = dom (msgs s) - set (holds t)
    \<and> (\<forall>ty. a \<notin> set (transactions_of ty s'))"
  by (rule free_stack_ok [OF assms])

theorem free_returns_what_it_holds_witness:
  "\<exists>s s'. sample_call RCV_REQINVITE = Some s \<and> transactions s 0 \<noteq> None
    \<and> osip_transaction_free (Some 0) s = Some (OSIP_SUCCESS, s') \<and> transactions s' 0 = None"
proof -
  obtain s t where s: "sample_call RCV_REQINVITE = Some s" "stack_ok s" "transactions s 0 = Some t"
    by (rule sample_call_stack)
  then show ?thesis using free_returns_what_it_holds [OF s(2,3)] by auto
qed




section \<open>One transaction\<close>

text \<open>
  C8. Refinement of RFC 3261, 17.1 and 17.2: executing an event returns, and either makes a step
  of the diagram of the transaction's machine from its state on that event, or the diagram has
  none, and then neither the transaction changes nor anything is sent or announced.
\<close>

theorem execute_refines_rfc3261:
  assumes "mem_ok s" "tr_ok (tr s)" "evt_ok e s" "type e \<noteq> KILL_TRANSACTION"
  shows "\<exists>s'. osip_transaction_execute cf e s = Some (1, s') \<and> tr_ok (tr s')
    \<and> (rfc3261_diagram (ctx_type (tr s)) (state (tr s)) (type e) (state (tr s'))
       \<or> (\<nexists>st. rfc3261_diagram (ctx_type (tr s)) (state (tr s)) (type e) st) \<and> tr s' = tr s \<and> log s' = log s)"
  using osip_transaction_execute_ok [OF assms, of cf] by (auto simp: executes_def executed_def)

theorem execute_refines_rfc3261_witness:
  "\<exists>s'. osip_transaction_execute sample_config (message_event SND_REQINVITE 0) (sample_st ICT sample_invite)
      = Some (1, s') \<and> state (tr s') \<in> {ICT_CALLING, ICT_TERMINATED}"
proof -
  have s: "state (tr (sample_st ICT sample_invite)) = ICT_PRE_CALLING"
    "ctx_type (tr (sample_st ICT sample_invite)) = ICT" "tr_ok (tr (sample_st ICT sample_invite))"
    by (simp_all add: sample_st_def, simp_all add: sample_tr_def initial_state_def)
  have e: "type (message_event SND_REQINVITE 0) = SND_REQINVITE" by (simp add: message_event_def)
  show ?thesis
    using execute_refines_rfc3261 [OF sample_mem_ok s(3) sample_evt_ok, of sample_config] s(1,2) e
    by (auto simp: rfc3261_diagram_def ict_diagram_simps)
qed

text \<open>
  C9. No leak and no double free: afterwards the live messages are those nobody gave to the
  transaction and those it owns, each in one place; the event's message is now owned or freed.
\<close>

theorem execute_accounts_for_every_message:
  assumes "mem_ok s" "tr_ok (tr s)" "evt_ok e s" "type e \<noteq> KILL_TRANSACTION"
  shows "\<exists>s'. osip_transaction_execute cf e s = Some (1, s') \<and> distinct (owned (tr s'))
    \<and> dom (msgs s') = (dom (msgs s) - set (owned (tr s)) - set_option (sip e)) \<union> set (owned (tr s'))
    \<and> (\<forall>a \<in> dom (msgs s') \<inter> dom (msgs s). msgs s' a = msgs s a)"
  using osip_transaction_execute_ok [OF assms, of cf]
  by (auto simp: executes_def executed_def heap_tidy_def heap_ok_def)

theorem execute_accounts_for_every_message_witness:
  "\<exists>s'. osip_transaction_execute sample_config (message_event SND_REQINVITE 0) (sample_st IST sample_invite)
      = Some (1, s') \<and> dom (msgs s') = set (owned (tr s'))"
proof -
  have s: "dom (msgs (sample_st IST sample_invite)) = {0}" "sip (message_event SND_REQINVITE 0) = Some 0"
    "tr_ok (tr (sample_st IST sample_invite))" "type (message_event SND_REQINVITE 0) \<noteq> KILL_TRANSACTION"
    by (simp_all add: sample_st_def message_event_def)
  show ?thesis
    using execute_accounts_for_every_message [OF sample_mem_ok s(3) sample_evt_ok s(4), of sample_config] s(1,2)
    by auto
qed

text \<open>
  C10. The end is announced once: on every path of events and arriving messages from a
  transaction that has not ended, the kill callback has been called once if it has ended, and
  not at all if it has not.
\<close>

theorem kill_callback_once:
  assumes "tr_path cf s s'" "mem_ok s" "tr_ok (tr s)" "state (tr s) \<noteq> final_state (ctx_type (tr s))"
    and "kill_callbacks cf (kill_type (ctx_type (tr s)))" "log s = []"
  shows "kills (log s') = (if state (tr s') = final_state (ctx_type (tr s)) then 1 else 0)"
proof -
  have "ctx_type (tr s') = ctx_type (tr s)"
    "kills (log s') + kills_due cf (tr s) = kills (log s) + kills_due cf (tr s')"
    using tr_path_invariant [OF assms(1-3)] by (simp_all add: same_call_def)
  then show ?thesis using assms(4-6) by (simp add: kills_due_def)
qed

theorem kill_callback_once_witness:
  "\<exists>s'. tr_path sample_config (sample_st ICT sample_invite) s'
    \<and> kills (log s') = (if state (tr s') = ICT_TERMINATED then 1 else 0)"
proof -
  let ?s = "sample_st ICT sample_invite"
  have s: "tr_ok (tr ?s)" "ctx_type (tr ?s) = ICT" "state (tr ?s) = ICT_PRE_CALLING" "log ?s = []"
    by (simp_all add: sample_st_def, simp_all add: sample_tr_def initial_state_def)
  have e: "type (message_event SND_REQINVITE 0) \<noteq> KILL_TRANSACTION" by (simp add: message_event_def)
  obtain s' where run: "osip_transaction_execute sample_config (message_event SND_REQINVITE 0) ?s = Some (1, s')"
    using osip_transaction_execute_ok [OF sample_mem_ok s(1) sample_evt_ok e, of sample_config] by auto
  have path: "tr_path sample_config ?s s'"
    by (rule tr_path_execute [OF tr_path_refl e sample_evt_ok run])
  have "kill_callbacks sample_config (kill_type ICT)" by (simp add: sample_config_def)
  then show ?thesis
    using kill_callback_once [OF path sample_mem_ok s(1)] s path
    by (auto simp: final_state_def)
qed

text \<open>
  A terminated transaction ignores every event: it stays as it is and sends and announces
  nothing; the message of the event is freed.
\<close>

theorem terminated_ignores_events:
  assumes "mem_ok s" "tr_ok (tr s)" "evt_ok e s" "type e \<noteq> KILL_TRANSACTION"
    and "state (tr s) = final_state (ctx_type (tr s))"
  shows "\<exists>s'. osip_transaction_execute cf e s = Some (1, s') \<and> tr s' = tr s \<and> log s' = log s
    \<and> dom (msgs s') = dom (msgs s) - set_option (sip e)"
proof -
  obtain s' where s': "osip_transaction_execute cf e s = Some (1, s')" "executes cf e s s'"
    using osip_transaction_execute_ok [OF assms(1-4), of cf] by blast
  then have same: "tr s' = tr s" "log s' = log s"
    using final_no_step [of "ctx_type (tr s)"] assms(5) by (auto simp: executes_def executed_def)
  have "dom (msgs s') = (dom (msgs s) - set (owned (tr s)) - set_option (sip e)) \<union> set (owned (tr s))"
    using s'(2) same(1) by (simp add: executes_def executed_def heap_tidy_def)
  moreover have "set (owned (tr s)) \<subseteq> dom (msgs s)" using assms(1) by (simp add: heap_ok_def)
  moreover have "set_option (sip e) \<inter> set (owned (tr s)) = {}"
    using assms(3) by (auto simp: evt_ok_def split: option.splits)
  ultimately show ?thesis using s'(1) same by (intro exI [of _ s']) auto
qed

theorem terminated_ignores_events_witness:
  "\<exists>s'. osip_transaction_execute sample_config (timer_event_of TIMEOUT_J)
        ((sample_st NIST sample_invite)\<lparr>tr := (sample_tr NIST)\<lparr>state := NIST_TERMINATED, orig_request := Some 0\<rparr>\<rparr>)
      = Some (1, s') \<and> log s' = []"
proof -
  let ?t = "(sample_tr NIST)\<lparr>state := NIST_TERMINATED, orig_request := Some 0\<rparr>"
  let ?s = "(sample_st NIST sample_invite)\<lparr>tr := ?t\<rparr>"
  have t: "tr_ok ?t" "ctx_type ?t = NIST" "owned ?t = [0]"
    by (simp_all add: tr_ok_def nist_ok_def sample_tr_def transaction_zero_def owned3_def)
  have "mem_ok ?s" using t(3) by (simp add: heap_ok_def sample_st_def)
  moreover have "evt_ok (timer_event_of TIMEOUT_J) ?s"
    by (simp add: evt_ok_def evt_kind_defs timer_event_of_def)
  ultimately show ?thesis
    using terminated_ignores_events [of ?s "timer_event_of TIMEOUT_J" sample_config] t
    by (simp add: timer_event_of_def final_state_def sample_st_def) blast
qed


section \<open>Matching\<close>

text \<open>
  C11. RFC 3261, 17.1.3: a response matches a client transaction exactly when the branch of its
  top Via is that of the request and the method of its CSeq is that of the request.
\<close>

theorem response_matching:
  assumes "ict_context t \<noteq> Null \<or> nict_context t \<noteq> Null" "call_ok t" "msg_ok r"
  shows "\<exists>i. matching_response_osip_to_xict_17_1_3 (Some t) (Some r) = Some i
    \<and> (i = OSIP_SUCCESS \<longleftrightarrow> response_of t r)"
  by (rule matching_response_ok [OF assms])

theorem response_matching_witness:
  "matching_response_osip_to_xict_17_1_3 (Some (sample_tr ICT)) (Some (sample_response 180)) = Some OSIP_SUCCESS"
proof -
  have "response_of (sample_tr ICT) (sample_response 180)"
    by (simp add: response_of_def sample_tr_def sample_defs topvia_of_def branch_of_def value_of_def
        has_name_def method_of_def)
  moreover have "ict_context (sample_tr ICT) \<noteq> Null" by (simp add: sample_tr_def)
  ultimately show ?thesis
    using response_matching [of "sample_tr ICT" "sample_response 180"] by auto
qed

text \<open>
  C12. RFC 3261, 17.2.3: when both branches have the magic cookie, a request matches a server
  transaction exactly when branch, sent-by value (port 5060 by default) and method agree, where an
  ACK counts as its INVITE.
\<close>

theorem request_matching:
  assumes "ist_context t \<noteq> Null \<or> nist_context t \<noteq> Null" "call_ok t" "msg_ok r"
    "topvia t = Some v" "has_cookie v" "topvia_of r = Some w" "has_cookie w"
  shows "\<exists>i. matching_request_osip_to_xist_17_2_3 h (Some t) (Some r) m = Some (i, m)
    \<and> (i = OSIP_SUCCESS \<longleftrightarrow> request_of t r)"
  by (rule matching_request_3261_ok [OF assms])

lemma sample_cookie: "has_cookie sample_via"
  by (simp add: has_cookie_def branch_of_def value_of_def has_name_def sample_via_def magic_cookie_def)

theorem request_matching_witness:
  "matching_request_osip_to_xist_17_2_3 Map.empty (Some (sample_tr IST)) (Some sample_invite) [] = Some (OSIP_SUCCESS, [])"
proof -
  have "request_of (sample_tr IST) sample_invite"
    by (simp add: request_of_def sample_tr_def sample_defs topvia_of_def method_of_def)
  moreover have "ist_context (sample_tr IST) \<noteq> Null" "topvia (sample_tr IST) = Some sample_via"
    "topvia_of sample_invite = Some sample_via"
    by (simp_all add: sample_tr_def) (simp add: sample_request_def osip_message_init_def topvia_of_def)
  ultimately show ?thesis
    using request_matching [of "sample_tr IST" sample_invite sample_via sample_via Map.empty "[]"] sample_cookie
    by auto
qed

text \<open>
  C13. The ACK that the client transaction builds for a final response matches the server
  transaction that the INVITE started: the two ends of the library agree.
\<close>

theorem ack_reaches_the_invite_server:
  assumes "keeps_headers orig t" "msg_ok orig" "ist_context t \<noteq> Null" "method_of (cseq orig) = Some ''INVITE''"
    and "topvia_of orig = Some v" "has_cookie v" "via_host v \<noteq> None"
    and "msg_ok resp" "cseq resp \<noteq> None" "req_uri orig \<noteq> None" "never_fails m"
    and "ict_create_ack_message orig resp m = ((OSIP_SUCCESS, Some a), m')"
  shows "matching_request_osip_to_xist_17_2_3 h (Some t) (Some a) mm = Some (OSIP_SUCCESS, mm)"
  by (rule ack_finds_server [OF assms])

theorem ack_reaches_the_invite_server_witness:
  "\<exists>a m'. ict_create_ack_message sample_invite (sample_response 486) [] = ((OSIP_SUCCESS, Some a), m')
    \<and> matching_request_osip_to_xist_17_2_3 Map.empty (Some (sample_tr IST)) (Some a) [] = Some (OSIP_SUCCESS, [])"
proof -
  have "(case ict_create_ack_message sample_invite (sample_response 486) [] of
      ((i, a), m') \<Rightarrow> i = OSIP_SUCCESS \<and> a \<noteq> None)" by code_simp
  then obtain a m' where a: "ict_create_ack_message sample_invite (sample_response 486) []
      = ((OSIP_SUCCESS, Some a), m')" by (auto split: prod.splits)
  have "ist_context (sample_tr IST) \<noteq> Null" by (simp add: sample_tr_def)
  from ack_reaches_the_invite_server [OF sample_keeps_headers sample_msg_ok(1) this _ _ sample_cookie
      _ _ _ _ _ a, of Map.empty "[]"]
  show ?thesis using a
    by (simp add: sample_request_def sample_response_def osip_message_init_def topvia_of_def method_of_def
        sample_via_def) (simp add: msg_ok_def method_ok_def named_from_def sample_defs)
qed





text \<open>
  C16. RFC 3261, 17.1.1.3: with an allocator that does not fail, building the ACK of a final
  response answers an error and no message, or exactly the ACK of the RFC: request URI, routes
  and only the top Via of the INVITE; From, To, Call-ID and CSeq number of the response; the
  credentials of the INVITE unless the response is a challenge.
\<close>

theorem ack_is_built_from_request_and_response:
  assumes "never_fails m" "ict_create_ack_message orig resp m = ((i, a), m')"
  shows "(i = OSIP_SUCCESS \<and> a = Some (ack_for orig resp) \<or> i \<noteq> OSIP_SUCCESS \<and> a = None) \<and> never_fails m'"
  using ict_create_ack_message_gives [OF assms(1), of orig resp] assms(2) by (auto simp: gives_opt_def)

theorem ack_is_built_from_request_and_response_witness:
  "fst (ict_create_ack_message sample_invite (sample_response 486) [])
    = (OSIP_SUCCESS, Some (ack_for sample_invite (sample_response 486)))"
proof -
  obtain i a m' where r: "ict_create_ack_message sample_invite (sample_response 486) [] = ((i, a), m')"
    by (metis surj_pair)
  have "fst (fst (ict_create_ack_message sample_invite (sample_response 486) [])) = OSIP_SUCCESS" by code_simp
  then show ?thesis
    using ack_is_built_from_request_and_response [OF never_fails_Nil r] r by simp
qed


section \<open>Retransmission\<close>


lemma sample_unreliable: "unreliable_request 0 (sample_sent ty)"
  by (simp add: unreliable_request_def sample_sent_def sample_st_def sample_tr_def topvia_of_def unreliable_def
      cstring_defs sample_defs)

lemma sample_accepting: "accepting sample_config"
  by (simp add: accepting_def sample_config_def)


text \<open>
  Timer E in the state Trying: n timeouts send the request n times more, and the length
  of the timer, T1 at first, is the smaller of \<open>2 ^ n * T1\<close> and T2.
\<close>

theorem timer_e_doubles_up_to_t2:
  assumes "unreliable_request a s" "nict_context (tr s) = Live c" "accepting cf"
    and "state (tr s) = NICT_TRYING" "timer_e_length c = DEFAULT_T1"
  shows "\<exists>s' c'. repeatedly n (osip_nict_timeout_e_event cf e) s = Some s'
    \<and> nict_context (tr s') = Live c' \<and> timer_e_length c' = min (2 ^ n * DEFAULT_T1) DEFAULT_T2
    \<and> state (tr s') = NICT_TRYING
    \<and> sends (log s') = sends (log s)
        @ replicate n (Send a (nict_destination c) (nict_port c) (out_socket (tr s)) 0)"
  using timer_e_schedule [OF assms, of n e] by blast

theorem timer_e_doubles_up_to_t2_witness:
  "\<exists>s' c'. repeatedly 5 (osip_nict_timeout_e_event sample_config (timer_event_of TIMEOUT_E)) (sample_sent NICT) = Some s'
    \<and> nict_context (tr s') = Live c' \<and> timer_e_length c' = 4000 \<and> length (sends (log s')) = 5"
proof -
  have "nict_context (tr (sample_sent NICT)) = Live (nict_zero\<lparr>timer_e_length := 500\<rparr>)" "log (sample_sent NICT) = []"
    "state (tr (sample_sent NICT)) = NICT_TRYING"
    by (simp_all add: sample_sent_def sample_tr_def sample_st_def)
  then show ?thesis
    using timer_e_doubles_up_to_t2 [OF sample_unreliable _ sample_accepting, of NICT _ 5 "timer_event_of TIMEOUT_E"]
    by fastforce
qed

text \<open>
  Timer G: a timeout sends the last response again to where its top Via says, and
  doubles the length up to T2.
\<close>

theorem timer_g_doubles_up_to_t2:
  assumes "config (tr s)" "last_response (tr s) = Some b" "msgs s b = Some r" "topvia_of r = Some v"
    "named (via_params v)" "via_destination v = Some (host, port)" "ist_context (tr s) = Live c" "accepting cf"
  shows "\<exists>s' c'. osip_ist_timeout_g_event cf e s = Some s' \<and> ist_context (tr s') = Live c'
    \<and> timer_g_length c' = min (2 * timer_g_length c) DEFAULT_T2
    \<and> timer_g_start c' = add_gettimeofday (clock cf (ticks s)) (timer_g_length c')
    \<and> state (tr s') = state (tr s)
    \<and> sends (log s') = sends (log s) @ [Send b host port (out_socket (tr s)) 0]"
  by (rule timer_g_step [OF assms])

theorem timer_g_doubles_up_to_t2_witness:
  "\<exists>s' c'. osip_ist_timeout_g_event sample_config (timer_event_of TIMEOUT_G)
        ((sample_st IST (sample_response 486))\<lparr>tr := (sample_tr IST)\<lparr>last_response := Some 0\<rparr>\<rparr>) = Some s'
    \<and> ist_context (tr s') = Live c' \<and> timer_g_length c' = 1000"
proof -
  let ?s = "(sample_st IST (sample_response 486))\<lparr>tr := (sample_tr IST)\<lparr>last_response := Some 0\<rparr>\<rparr>"
  have s: "config (tr ?s)" "last_response (tr ?s) = Some 0" "msgs ?s 0 = Some (sample_response 486)"
    "ist_context (tr ?s) = Live (ist_zero\<lparr>timer_g_length := 500\<rparr>)"
    by (simp_all add: sample_st_def, simp_all add: sample_tr_def)
  have r: "topvia_of (sample_response 486) = Some sample_via" "named (via_params sample_via)"
    by (simp_all add: sample_defs topvia_of_def)
  have d: "via_destination sample_via = Some (Some ''10.0.0.1'', 5070)" by code_simp
  show ?thesis
    using timer_g_doubles_up_to_t2 [OF s(1-3) r d s(4) sample_accepting, of "timer_event_of TIMEOUT_G"] by auto
qed

text \<open>
  A timer of a live context gives its event exactly when the state is the timer's, the
  timer is started, and its start time has passed.
\<close>

theorem timer_event_when_due:
  assumes "never_fails (mem w)"
  shows "\<exists>w'. osip_transaction_need_timer_x_event cf (Live c) timer active tid ty w
    = Some (if active \<and> tv_sec (timer c) \<noteq> -1 \<and> osip_timer_gt (clock cf (ticks w)) (timer c)
            then Some \<lparr>type = ty, ev_transactionid = tid, sip = None\<rparr> else None, w')"
  by (rule need_timer_event [OF assms])

theorem timer_event_when_due_witness:
  "\<exists>w'. osip_transaction_need_timer_x_event sample_config (Live ict_zero) timer_a_start True 7 TIMEOUT_A
      (sample_st ICT sample_invite) = Some (Some \<lparr>type = TIMEOUT_A, ev_transactionid = 7, sip = None\<rparr>, w')"
proof -
  have "mem (sample_st ICT sample_invite) = []" "ticks (sample_st ICT sample_invite) = 0"
    by (simp_all add: sample_st_def)
  then show ?thesis
    using timer_event_when_due [of "sample_st ICT sample_invite" sample_config ict_zero timer_a_start True 7 TIMEOUT_A]
    by (simp add: ict_zero_def sample_config_def osip_timer_gt_def)
qed

section \<open>Time\<close>

text \<open>
  Adding less than 1000 seconds to a time is exact to the microsecond and keeps the
  microseconds below one second; C division never sees a negative number.
\<close>

theorem adding_milliseconds_is_exact:
  assumes "tv_normal tv" "0 \<le> ms" "ms < 1000000"
  shows "usecs (add_gettimeofday tv ms) = usecs tv + ms * 1000 \<and> tv_normal (add_gettimeofday tv ms)"
  using add_gettimeofday_exact [OF assms] by simp

theorem adding_milliseconds_is_exact_witness:
  "usecs (add_gettimeofday \<lparr>tv_sec = 7, tv_usec = 900000\<rparr> 32000) = 39900000"
  using adding_milliseconds_is_exact [of "\<lparr>tv_sec = 7, tv_usec = 900000\<rparr>" 32000]
  by (simp add: tv_normal_def usecs_def)


text \<open>
  C18. The timers of a new transaction, from Table 4 of RFC 3261: B, F, H and (unreliable) J
  and D are 64 times T1; A, E and (unreliable) G are T1; (unreliable) I and K are T4; over a
  reliable transport D, I, J and K are zero. A, B and F run at once, the others not yet.
\<close>

theorem new_transactions_have_the_timers_of_the_rfc:
  assumes "msg_ok r" "req_uri r \<noteq> None" "topvia_of r = Some v" "via_protocol v = Some proto" "never_fails (mem w)"
  shows "(\<exists>c w'. osip_ict_init cf r w = Some ((OSIP_SUCCESS, Live c), w')
      \<and> timer_a_length c = 500 \<and> timer_a_start c = add_gettimeofday (clock cf (ticks w)) 500
      \<and> timer_b_length c = 32000 \<and> timer_b_start c = add_gettimeofday (clock cf (ticks w + 1)) 32000
      \<and> timer_d_length c = (if unreliable proto then 32000 else 0) \<and> timer_is_off (timer_d_start c))
    \<and> (\<exists>c w'. osip_nict_init cf r w = Some ((OSIP_SUCCESS, Live c), w')
      \<and> timer_e_length c = 500 \<and> timer_is_off (timer_e_start c)
      \<and> timer_f_length c = 32000 \<and> timer_f_start c = add_gettimeofday (clock cf (ticks w)) 32000
      \<and> timer_k_length c = (if unreliable proto then 5000 else 0) \<and> timer_is_off (timer_k_start c))
    \<and> (\<exists>c w'. osip_ist_init cf r w = Some ((OSIP_SUCCESS, Live c), w')
      \<and> timer_g_length c = (if unreliable proto then 500 else -1) \<and> timer_is_off (timer_g_start c)
      \<and> timer_h_length c = 32000 \<and> timer_is_off (timer_h_start c)
      \<and> timer_i_length c = (if unreliable proto then 5000 else 0) \<and> timer_is_off (timer_i_start c))
    \<and> (\<exists>c w'. osip_nist_init cf r w = Some ((OSIP_SUCCESS, Live c), w')
      \<and> timer_j_length c = (if unreliable proto then 32000 else 0) \<and> timer_is_off (timer_j_start c))"
  by (intro conjI client_timers [OF assms] server_timers [OF assms(3-5)])

theorem new_transactions_have_the_timers_of_the_rfc_witness:
  "\<exists>c w'. osip_ist_init sample_config sample_invite (sample_st IST sample_invite) = Some ((OSIP_SUCCESS, Live c), w')
    \<and> timer_h_length c = 32000 \<and> timer_i_length c = 5000"
proof -
  have "req_uri sample_invite \<noteq> None" "topvia_of sample_invite = Some sample_via" "via_protocol sample_via = Some ''UDP''"
    by (simp_all add: sample_request_def osip_message_init_def topvia_of_def) (simp add: sample_via_def)
  moreover have "never_fails (mem (sample_st IST sample_invite))" by (simp add: sample_st_def)
  moreover have "unreliable ''UDP''" by (simp add: unreliable_def cstring_defs)
  ultimately show ?thesis
    using new_transactions_have_the_timers_of_the_rfc [OF sample_msg_ok(1) [of "''INVITE''"], of sample_via "''UDP''"
        "sample_st IST sample_invite" sample_config] by auto
qed

section \<open>Queues and lists\<close>

text \<open>
  The queue of events is first in, first out: of the elements added to a new queue, the
  n-th call of \<^verbatim>\<open>osip_fifo_tryget\<close> takes the n-th. The allocator does not fail here.
\<close>

theorem fifo_order:
  assumes "n < length xs"
  shows "fst (osip_fifo_tryget (((snd \<circ> osip_fifo_tryget) ^^ n) (foldl fifo_add osip_fifo_init xs))) = Some (xs ! n)"
  by (rule fifo.first_in_first_out [OF assms])

theorem fifo_order_witness:
  "fst (osip_fifo_tryget (((snd \<circ> osip_fifo_tryget) ^^ 2) (foldl fifo_add osip_fifo_init [10, 20, 30 :: int]))) = Some 30"
  using fifo_order [of 2 "[10, 20, 30 :: int]"] by simp

text \<open>
  When the allocator fails, adding to the queue answers success all the same and counts an
  element that is not there: the event is lost, and the next get of an empty queue runs into the
  path the source calls impossible.
\<close>

theorem fifo_loses_the_event_without_memory:
  assumes "fifo_ok ff" "osip_malloc m = (False, m')"
  shows "\<exists>ff'. osip_fifo_add ff el m = ((OSIP_SUCCESS, ff'), m') \<and> queue ff' = queue ff
    \<and> qisempty ff' = length (queue ff') + 1 \<and> \<not> fifo_ok ff'"
  using fifo_add_lost [OF assms, of el] assms(1) by (simp add: fifo_ok_def)

theorem fifo_loses_the_event_without_memory_witness:
  "\<exists>ff'. osip_fifo_add osip_fifo_init (7 :: int) [False] = ((OSIP_SUCCESS, ff'), []) \<and> queue ff' = []"
  using fifo_loses_the_event_without_memory [OF fifo_ok_init, of "[False]" "[]" "7 :: int"] by auto

text \<open>
  Inserting into a linked list of the heap refines inserting into a HOL list, at every
  position the source distinguishes, takes one new node, and leaves the others where they are.
\<close>

theorem list_insert_refines:
  assumes "list_on h l xs" "a \<notin> dom h"
  shows "\<exists>h' l'. osip_list_add (Some a) h (Some l) el pos = Some (int (length xs) + 1, h', Some l')
    \<and> list_on h' l' (l_add xs el pos) \<and> dom h' = insert a (dom h)"
  by (rule osip_list_add_refines [OF assms, of el pos]) blast

theorem list_insert_refines_witness:
  "\<exists>h' l'. osip_list_add (Some 0) Map.empty (Some \<lparr>nb_elt = 0, node = None\<rparr>) (5 :: int) (-1) = Some (1, h', Some l')
    \<and> list_on h' l' [5]"
proof -
  have "list_on Map.empty \<lparr>nb_elt = 0, node = None\<rparr> ([] :: int list)"
    by (rule osip_list_init_refines [of "\<lparr>nb_elt = 0, node = None\<rparr>"]) (simp add: osip_list_init_def)
  from list_insert_refines [OF this, of 0 5 "-1"] show ?thesis by simp blast
qed

text \<open>
  Removing a position that exists unlinks and frees that node only; a position out of range
  is an error and changes nothing.
\<close>

theorem list_remove_refines:
  assumes "list_on h l xs"
  shows "if 0 \<le> pos \<and> pos < int (length xs)
    then \<exists>h' l'. osip_list_remove h (Some l) pos = Some (int (length xs) - 1, h', Some l')
           \<and> list_on h' l' (l_remove xs pos) \<and> dom h' \<subseteq> dom h
    else osip_list_remove h (Some l) pos = Some (OSIP_UNDEFINED_ERROR, h, Some l)"
proof (cases "0 \<le> pos \<and> pos < int (length xs)")
  case True
  then obtain h' l' where "osip_list_remove h (Some l) pos = Some (int (length xs) - 1, h', Some l')"
    "list_on h' l' (l_remove xs pos)" "dom h' \<subseteq> dom h"
    using osip_list_remove_refines [OF assms] by blast
  then show ?thesis using True by auto
next
  case False
  then have "osip_list_remove h (Some l) pos = Some (OSIP_UNDEFINED_ERROR, h, Some l)"
    by (intro osip_list_remove_out [OF assms]) auto
  then show ?thesis using False by auto
qed

theorem list_remove_refines_witness:
  "osip_list_remove Map.empty (Some \<lparr>nb_elt = 0, node = None\<rparr>) 0
    = Some (OSIP_UNDEFINED_ERROR, Map.empty :: int nodes, Some \<lparr>nb_elt = 0, node = None\<rparr>)"
proof -
  have "list_on Map.empty \<lparr>nb_elt = 0, node = None\<rparr> ([] :: int list)"
    by (rule osip_list_init_refines [of "\<lparr>nb_elt = 0, node = None\<rparr>"]) (simp add: osip_list_init_def)
  from list_remove_refines [OF this, of 0] show ?thesis by simp
qed



section \<open>Events\<close>

text \<open>
  The event made for a message, incoming or outgoing, agrees with it: request or response,
  INVITE, ACK or other, 1xx, 2xx or later; it exists for every message whose method can be read.
\<close>

theorem events_agree_with_messages:
  assumes "method_ok m"
  shows "(\<exists>ty. evt_set_type_incoming_sipmessage m = Some ty \<and> (type e = ty \<longrightarrow> event_for e m))
    \<and> (\<exists>ty. evt_set_type_outgoing_sipmessage m = Some ty \<and> (type e = ty \<longrightarrow> event_for e m))"
  using evt_set_type_incoming_event_for [OF assms] evt_set_type_outgoing_event_for [OF assms] by blast

theorem events_agree_with_messages_witness:
  "event_for (message_event RCV_STATUS_3456XX 0) (sample_response 486)"
proof -
  have "evt_set_type_incoming_sipmessage (sample_response 486) = Some RCV_STATUS_3456XX" by code_simp
  moreover have "method_ok (sample_response 486)" by simp
  ultimately show ?thesis
    using events_agree_with_messages [of "sample_response 486" "message_event RCV_STATUS_3456XX 0"]
    by (simp add: message_event_def)
qed

section \<open>Identities\<close>




section \<open>Parsers and printers of URIs and headers\<close>

text \<open>
  C20. Memory safety of the URI parser: on any string, NULL included, and with an allocator that
  may fail anywhere, \<^verbatim>\<open>osip_uri_parse\<close> returns without reading in front of the string or behind
  its NUL and without writing outside of a buffer it allocated.
\<close>

theorem uri_parser_is_safe: "\<exists>i uri' m'. osip_uri_parse uri buf m = Some ((i, uri'), m')"
  using osip_uri_parse_defined [of uri buf m] by auto

text \<open>
  C21. A URI of a SIP scheme (user and password of any characters but NUL, an IPv4, IPv6 or named
  host, port, parameters, headers) or of another scheme is printed within the buffers the
  printer allocates, and the parser reads the text back as the same URI, the escapes undone.
\<close>

theorem uri_roundtrip:
  assumes "uri_wf uri" "never_fails m"
  shows "\<exists>t m'. osip_uri_to_str (Some uri) m = Some ((OSIP_SUCCESS, Some t), m')
    \<and> osip_uri_parse osip_uri_init (Some t) [] = Some ((OSIP_SUCCESS, uri), [])"
  by (rule uri_codec.roundtrip [OF assms]) blast

theorem uri_roundtrip_witness:
  "osip_uri_parse osip_uri_init
      (Some ''sips:al%20ice:a%3Ab@[2001:db8::1]:5061;transport=tls;lr?subject=a%3Bb%26c'') []
    = Some ((OSIP_SUCCESS, full_uri), [])"
proof -
  obtain t m' where t: "osip_uri_to_str (Some full_uri) [] = Some ((OSIP_SUCCESS, Some t), m')"
    "osip_uri_parse osip_uri_init (Some t) [] = Some ((OSIP_SUCCESS, full_uri), [])"
    using uri_roundtrip [OF full_uri_wf never_fails_Nil] by blast
  have "uri_text full_uri = ''sips:al%20ice:a%3Ab@[2001:db8::1]:5061;transport=tls;lr?subject=a%3Bb%26c''"
    by code_simp
  then show ?thesis using t uri_codec.to_str_ok [OF full_uri_wf never_fails_Nil] by simp
qed

text \<open>
  C22. Escaping a component never writes past the buffer, which grows by doubling, whatever the
  allocator answers; the escaped text is at most three times as long, has only letters, digits,
  percent signs and characters of the component's set, and unescaping gives the component back.
\<close>

theorem component_escaping:
  assumes "CHR ''%'' \<notin> set def" "NUL \<notin> set s" "never_fails m"
  shows "(\<forall>m. osip_uri_escape_nonascii_and_nondef s def m \<noteq> None)
    \<and> (\<exists>e m'. osip_uri_escape_nonascii_and_nondef s def m = Some (Some e, m')
         \<and> osip_uri_unescape e = s \<and> length e \<le> 3 * length s
         \<and> list_all (plain def) e)"
  using escape_defined escape_ok [OF assms(3)] osip_uri_unescape_escape [OF assms(1,2)] escape_length
    set_escape unfolding list_all_iff by metis

theorem component_escaping_witness:
  "\<exists>e m'. osip_uri_escape_userinfo ''al ice'' [] = Some (Some e, m') \<and> osip_uri_unescape e = ''al ice''"
proof -
  have "CHR ''%'' \<notin> set userinfo_def" "NUL \<notin> set ''al ice''" by code_simp+
  from component_escaping [OF this never_fails_Nil] show ?thesis
    unfolding osip_uri_escape_userinfo_def by blast
qed

text \<open>
  The search for the closing quote, which jumps from quote to quote and counts backslashes
  backwards, is equivalent to a scanner that reads once from the left and skips the character
  behind every backslash; it never leaves the string.
\<close>

theorem quote_search_is_a_scanner: "osip_quote_find s = Some (scan_quote False s)"
  by (rule osip_quote_find_scan)

text \<open>
  C23. A Via header is printed within its buffer and read back as it was, with its port, an IPv6
  host, quoted parameters and the comment; so \<^verbatim>\<open>osip_via_match\<close>, which compares printed forms,
  tests equality.
\<close>

theorem via_roundtrip_and_match:
  assumes "via_wf v" "via_wf w" "never_fails m"
  shows "\<exists>t m1 m2. osip_via_to_str (Some v) m = Some ((OSIP_SUCCESS, Some t), m1)
    \<and> osip_via_parse osip_via_init (Some t) [] = Some ((OSIP_SUCCESS, v), [])
    \<and> osip_via_match (Some v) (Some w) m = Some (if v = w then OSIP_SUCCESS else OSIP_UNDEFINED_ERROR, m2)"
  using via_codec.roundtrip [OF assms(1,3)] osip_via_match_wf [OF assms] by metis

theorem via_roundtrip_and_match_witness:
  "\<exists>m'. osip_via_match (Some full_via) (Some sample_via) [] = Some (OSIP_UNDEFINED_ERROR, m')"
proof -
  have "via_wf sample_via" by code_simp
  moreover have "full_via \<noteq> sample_via" by (simp add: full_via_def sample_via_def)
  ultimately show ?thesis
    using via_roundtrip_and_match [OF full_via_wf, of sample_via "[]"] by auto
qed

text \<open>
  C24. A From header with a URI in brackets is printed and read back as it was, its display name a
  quoted string or tokens, its parameters with or without value or quoted. The same holds for
  To, Route, Record-Route and, unless the name begins with a star, Contact.
\<close>

theorem from_roundtrip_for_all:
  assumes "from_wf f" "never_fails m"
  shows "(\<exists>t m'. osip_from_to_str (Some f) m = Some ((OSIP_SUCCESS, Some t), m')
      \<and> osip_from_parse osip_from_init (Some t) [] = Some ((OSIP_SUCCESS, f), []))
    \<and> (\<exists>t m'. osip_to_to_str (Some f) m = Some ((OSIP_SUCCESS, Some t), m')
      \<and> osip_to_parse osip_from_init (Some t) [] = Some ((OSIP_SUCCESS, f), []))
    \<and> (\<exists>t m'. osip_route_to_str (Some f) m = Some ((OSIP_SUCCESS, Some t), m')
      \<and> osip_route_parse osip_from_init (Some t) [] = Some ((OSIP_SUCCESS, f), []))
    \<and> (\<exists>t m'. osip_record_route_to_str (Some f) m = Some ((OSIP_SUCCESS, Some t), m')
      \<and> osip_record_route_parse osip_from_init (Some t) [] = Some ((OSIP_SUCCESS, f), []))
    \<and> (contact_wf f \<longrightarrow> (\<exists>t m'. osip_contact_to_str (Some f) m = Some ((OSIP_SUCCESS, Some t), m')
      \<and> osip_contact_parse osip_from_init (Some t) [] = Some ((OSIP_SUCCESS, f), [])))"
  by (intro conjI impI; use assms from_codec.roundtrip to_codec.roundtrip route_codec.roundtrip
      record_route_codec.roundtrip contact_codec.roundtrip in metis)

theorem from_roundtrip_for_all_witness:
  "\<exists>t m'. osip_contact_to_str (Some full_from) [] = Some ((OSIP_SUCCESS, Some t), m')
    \<and> osip_contact_parse osip_from_init (Some t) [] = Some ((OSIP_SUCCESS, full_from), [])"
proof -
  have "contact_wf full_from" using full_from_wf by (simp add: contact_wf_def full_from_def)
  then show ?thesis using from_roundtrip_for_all [OF full_from_wf never_fails_Nil] by blast
qed

text \<open>
  C25. The parsers of From, Contact, Call-ID, CSeq and of a list of parameters have no undefined
  behaviour on any string and with any allocator; nor has that of Via on a string that does
  not end in a blank. (On \<open>SIP/2.0/ \<close> it reads behind the NUL.)
\<close>

theorem header_parsers_are_safe:
  "osip_from_parse f v m \<noteq> None \<and> osip_contact_parse f (Some s) m \<noteq> None
    \<and> osip_call_id_parse i s m \<noteq> None \<and> osip_cseq_parse q v m \<noteq> None
    \<and> osip_generic_param_parseall ps (CHR '';'' # s) m \<noteq> None
    \<and> (last (CHR '';'' # s) \<noteq> CHR '' '' \<longrightarrow> osip_via_parse via (Some s) m \<noteq> None)"
  by (intro conjI impI defined osip_contact_parse_defined osip_via_parse_defined) auto

theorem header_parsers_are_safe_witness: "osip_via_parse osip_via_init (Some ''SIP//UDP (;['') [False, True] \<noteq> None"
  using header_parsers_are_safe [of osip_from_init None "[]" "''SIP//UDP (;[''" osip_call_id_init None "[]" osip_via_init]
    header_parsers_are_safe [of osip_from_init None "[False, True]" "''SIP//UDP (;[''" osip_call_id_init None "[]" osip_via_init]
  by (simp del: not_None_eq)

section \<open>Messages\<close>

text \<open>
  C26. A whole message is printed within its buffer, and the parser reads the text back as the
  message: start line, all fields, the headers without a field of their own, and the body with any
  bytes; the number of bytes is a field of what is read. Printed once more it is the same text.
  (The message has a Via, no Authentication-Info, and at most one body, of less than 100000 bytes
  and not multipart; a header stands on a line of its own.)
\<close>

theorem printed_messages_are_read_back:
  assumes "message_wf s" "never_fails m" "message_property s \<noteq> 1"
  shows "\<exists>t s1 c1 m1 s2 c2 m2. osip_message_to_str (Some s) c m = Some ((OSIP_SUCCESS, Some t, s1, c1), m1)
    \<and> osip_message_parse sip_message_init t []
      = Some ((OSIP_SUCCESS, s\<lparr>message_property := 2, content_length := Some (length_field s)\<rparr>), [])
    \<and> osip_message_to_str (Some (s\<lparr>message_property := 2, content_length := Some (length_field s)\<rparr>)) c m
      = Some ((OSIP_SUCCESS, Some t, s2, c2), m2)"
proof -
  have "message_wf (read_back s)" "message_property (read_back s) \<noteq> 1" "message_text (read_back s) = message_text s"
    using assms(1) by (simp_all add: read_back_wf read_back_text) (simp add: read_back_def)
  then show ?thesis
    using message_to_str_ok [OF assms, of c] message_text_parses [OF assms(1)]
      message_to_str_ok [of "read_back s" m c, OF _ assms(2)] unfolding read_back_def by metis
qed

theorem printed_messages_are_read_back_witness:
  "\<exists>t s1 c1 m1. osip_message_to_str (Some full_message) (None, 0) [] = Some ((OSIP_SUCCESS, Some t, s1, c1), m1)
    \<and> osip_message_parse sip_message_init t []
      = Some ((OSIP_SUCCESS, full_message\<lparr>message_property := 2, content_length := Some \<lparr>cl_value = Some ''10''\<rparr>\<rparr>), [])"
proof -
  have "message_property full_message \<noteq> 1"
    by (simp add: full_message_def sip_message_init_def osip_message_init_def osip_message.defs)
  moreover have "length_field full_message = \<lparr>cl_value = Some ''10''\<rparr>"
  proof -
    have "decimal (length full_body) = ''10''" by code_simp
    then show ?thesis by (simp add: length_field_def full_message_def)
  qed
  ultimately show ?thesis
    using printed_messages_are_read_back [OF full_message_wf never_fails_Nil, of "(None, 0)"] by metis
qed

text \<open>
  The start line of a request or of a response is printed within its buffer, and the parser
  reads the line back: version, method and URI, or version, code and reason. What follows the line
  is left over.
\<close>

theorem start_lines_are_read_back:
  assumes "request_line_wf msg \<or> status_line_wf msg" "never_fails m"
  shows "\<exists>t m'. osip_message_startline_to_str (Some msg) m = Some ((OSIP_SUCCESS, Some t), m')
    \<and> osip_message_startline_parse dest (t @ CR # LF # rest) []
      = Some ((OSIP_SUCCESS, same_startline msg dest, rest), [])"
  by (rule startline_roundtrip [OF assms])

theorem start_lines_are_read_back_witness:
  "\<exists>t m'. osip_message_startline_to_str (Some options_message) [] = Some ((OSIP_SUCCESS, Some t), m')
    \<and> osip_message_startline_parse sip_message_init (t @ CR # LF # ''To: b'') []
      = Some ((OSIP_SUCCESS, same_startline options_message sip_message_init, ''To: b''), [])"
proof -
  have "request_line_wf options_message" by code_simp
  then show ?thesis using start_lines_are_read_back [OF _ never_fails_Nil] by blast
qed

text \<open>
  C27. The hash table of header names does what a search of the list of headers does: filling it
  succeeds, no two names share a slot, and looking a name up finds the header of that name, or -1.
\<close>

theorem header_table_is_a_search:
  "fst parser_init = OSIP_SUCCESS
    \<and> osip_message_is_known_header hname = search_header hname (map fst pconfig) 0"
  by (intro conjI parser_init_slots(1) osip_message_is_known_header_searches)

text \<open>
  C28. The message parser has no undefined behaviour: on any text that does not end in a blank, with
  any allocator, it reads and writes inside of its strings and buffers and follows no NULL. The
  parts of a multipart body must be two characters apart. (Both conditions are needed.)
\<close>

theorem message_parser_is_safe:
  assumes "text_ends buf"
    and "\<And>msg body m'. message_head sip_message_init buf False m = Some ((0, msg, body), m') \<Longrightarrow> parts_readable msg body"
  shows "\<exists>i msg m'. osip_message_parse sip_message_init buf m = Some ((i, msg), m')"
  using message_parse_safe [OF osip_message_init_typed assms] unfolding osip_message_parse_def by auto

theorem message_parser_is_safe_witness:
  "\<exists>i msg m'. osip_message_parse sip_message_init multipart_text [] = Some ((i, msg), m')"
proof (rule message_parser_is_safe)
  show "text_ends multipart_text" by code_simp
  fix msg body m'
  assume "message_head sip_message_init multipart_text False [] = Some ((0, msg, body), m')"
  then show "parts_readable msg body" by (rule multipart_readable)
qed

text \<open>
  C29. What the parser answers is well typed: the message of an event that \<^verbatim>\<open>osip_parse\<close> makes from
  text of the network has what the stack relies on (a request has a method and a URI, parameters
  have names), the event agrees with it, and the application may hand it over when it has a To
  and a CSeq header, which \<^verbatim>\<open>eXosip\<close> checks.
\<close>

theorem parsed_messages_may_be_delivered:
  assumes "stack_reachable cf s" "osip_parse buf s = Some (Some e, s')"
  shows "\<exists>x. allowed s (Arrive x) \<and> sip e = Some (brk s) \<and> msgs s' = (msgs s)(brk s \<mapsto> x) \<and> event_for e x
    \<and> (msg_to x \<noteq> None \<longrightarrow> cseq x \<noteq> None \<longrightarrow> own_message s' e)"
  by (rule osip_parse_own_message [OF stack_reachable_ok [OF assms(1)] assms(2)])

theorem parsed_messages_may_be_delivered_witness:
  "\<exists>e s'. osip_parse options_text (empty_stack [] 0 []) = Some (Some e, s') \<and> own_message s' e"
proof -
  obtain e s' where p: "osip_parse options_text (empty_stack [] 0 []) = Some (Some e, s')"
      "msgs s' 0 = Some (osip_message.truncate options_message)"
    using options_event by blast
  have "msg_to (osip_message.truncate options_message) \<noteq> None" "cseq (osip_message.truncate options_message) \<noteq> None"
    by (simp_all add: osip_message.truncate_def options_message_def)
  moreover have "stack_reachable sample_config (empty_stack [] 0 [])" by (rule stack_reachable.start) simp
  ultimately show ?thesis using p parsed_messages_may_be_delivered [OF _ p(1)] by (fastforce simp: empty_stack_def)
qed


section \<open>Dialogs and digests\<close>



text \<open>
  C31. Whatever messages a dialog is updated with, whatever the allocator answers, who the call is
  between stays: Call-ID, local tag, both addresses, the role and the local CSeq; the remote tag
  once it is set; and, once the dialog is confirmed, that it is and its route set.
\<close>

theorem settled_dialogs_stay:
  assumes "dialog_reaches d d'"
  shows "dlg_call_id d' = dlg_call_id d \<and> local_tag d' = local_tag d
    \<and> local_uri d' = local_uri d \<and> remote_uri d' = remote_uri d
    \<and> local_cseq d' = local_cseq d \<and> dlg_type d' = dlg_type d
    \<and> (remote_tag d \<noteq> None \<longrightarrow> remote_tag d' = remote_tag d)
    \<and> (dlg_state d = DIALOG_CONFIRMED \<longrightarrow> dlg_state d' = DIALOG_CONFIRMED \<and> route_set d' = route_set d)"
  using dialog_reaches_keeps [OF assms] unfolding dialog_keeps_def by blast

theorem settled_dialogs_stay_witness:
  "\<exists>d. dialog_reaches (uac_dialog sample_answer) d \<and> remote_tag d = remote_tag (uac_dialog sample_answer)
     \<and> remote_cseq d = 1"
proof -
  obtain d m where d: "dialog_after (UpdateCseqAsUas (Some sample_invite)) (uac_dialog sample_answer) []
      = Some (Some d, m)" "remote_cseq d = 1"
    using sample_update by blast
  then have r: "dialog_reaches (uac_dialog sample_answer) d" using dialog_reaches.step [OF dialog_reaches.refl] by blast
  moreover have "remote_tag (uac_dialog sample_answer) \<noteq> None" using dialog_tags [OF sample_answer_ok] by auto
  ultimately show ?thesis using settled_dialogs_stay [OF r] d(2) by blast
qed



section \<open>Session descriptions\<close>

text \<open>
  C33. Memory safety of the parser of session descriptions: whatever the text, also one that is no
  description, whatever the allocator answers and whatever the description holds already, there is
  no undefined behaviour, and the loops over the lines end. The text is such that a line end in its
  last place has another line end in front of it (with a lone line end there the search for payloads of
  a medium reads behind the NUL).
\<close>

theorem sdp_parser_is_safe:
  assumes "text_closed buf"
  shows "\<exists>i sdp' m'. sdp_message_parse sdp buf m = Some ((i, sdp'), m')"
  using sdp_message_parse_defined [OF assms, of sdp m] by (cases "sdp_message_parse sdp buf m") auto

theorem sdp_parser_is_safe_witness:
  "\<exists>i sdp' m'. sdp_message_parse sdp_message_init (sdp_head @ ''m=audio 0 RTP/AVP'' @ CRLF) [] = Some ((i, sdp'), m')"
proof -
  have "text_closed (sdp_head @ ''m=audio 0 RTP/AVP'' @ CRLF)" by code_simp
  then show ?thesis by (rule sdp_parser_is_safe)
qed

text \<open>
  C34. Session descriptions are printed, parsed and copied faithfully: the text of a description
  (names, addresses and values without blanks, colons or line ends where the syntax has these,
  version, origin and at least one time present) is read back as the same description, with its times, repeats,
  media, payloads, connections, bandwidths, keys and attributes, and a clone is equal to the original. The
  allocator does not fail.
\<close>

theorem sdp_copies_are_equal:
  assumes "sdp_wf d"
  shows "\<exists>t. sdp_message_to_str (Some d) [] = Some ((OSIP_SUCCESS, Some t), [])
    \<and> sdp_message_parse sdp_message_init t [] = Some ((OSIP_SUCCESS, d), [])
    \<and> sdp_message_clone (Some d) [] = Some ((OSIP_SUCCESS, Some d), [])"
  using sdp_message_to_str_ok [OF assms] sdp_message_parse_printed [OF assms] sdp_message_clone_equal [OF assms] by blast

theorem sdp_copies_are_equal_witness:
  "sdp_message_clone (Some sample_sdp) [] = Some ((OSIP_SUCCESS, Some sample_sdp), [])"
  using sdp_copies_are_equal [OF sample_sdp_wf] by blast

section \<open>Progress\<close>

text \<open>
  C35. A transaction whose time has come ends: when the timer that ends its state (B or D, H or I, F
  or K, J) is due and no event waits in its queue, one round of the timer loop and one of the event loop bring it to
  its final state, whatever the other transactions of the stack do meanwhile, and the stack stays sound.
\<close>

theorem overdue_transactions_end:
  assumes "stack_ok s" "a \<in> set (transactions_of ty s)" "transactions s a = Some t" "queue_of t = []"
    and "end_timer t = Some (ev, tv)" "overdue cf (ticks s) tv"
  shows "\<exists>s1 s2 t2. osip_timers_execute ty cf s = Some s1 \<and> osip_execute ty cf s1 = Some (OSIP_SUCCESS, s2) \<and> stack_ok s2
    \<and> transactions s2 a = Some t2 \<and> state t2 = final_state ty"
  by (rule overdue_transaction_ends [OF assms])

theorem overdue_transactions_end_witness:
  "\<exists>s1 s2 t2. osip_timers_execute ICT sample_config sample_overdue = Some s1 \<and> osip_execute ICT sample_config s1 = Some (OSIP_SUCCESS, s2)
    \<and> transactions s2 0 = Some t2 \<and> state t2 = ICT_TERMINATED"
  using overdue_transactions_end [OF sample_overdue_stack(1-3) sample_waiting_simps(5,8) sample_overdue_stack(4)]
  by (auto simp: final_state_def)

section \<open>Authentication\<close>

text \<open>
  C36. The block cipher of \<^verbatim>\<open>rijndael.c\<close>, table lookups on four words of 32 bits, is the AES of FIPS 197
  with a key of 128 bits: the key schedule and the ten rounds compute the substitution by inverses in
  the field of 256 elements, the shift of the rows, the mixed columns and the round keys.
\<close>

theorem rijndael_is_the_aes:
  assumes "length key = 16" "length inp = 16"
  shows "RijndaelEncrypt (RijndaelKeySchedule key) inp = aes_encrypt key inp"
  by (rule rijndael_encrypts [OF assms])

theorem rijndael_is_the_aes_witness:
  "RijndaelEncrypt (RijndaelKeySchedule fips197_key) fips197_input = aes_encrypt fips197_key fips197_input \<and> length fips197_input = 16"
  using rijndael_is_the_aes [of fips197_key fips197_input] by (simp add: fips197_key_def fips197_input_def)

text \<open>
  C37. The functions of \<^verbatim>\<open>milenage.c\<close> are f1, f1*, f2, f3, f4, f5 and f5* of 3GPP TS 35.206: the
  rotations, the constants and the AES of the standard, for every key, challenge, sequence number and
  management field. So the keys and answers are those of the network.
\<close>

theorem milenage_is_that_of_3gpp:
  assumes "length k = 16" "length rand = 16" "length sqn = 6" "length amf = 2"
  shows "f1 k rand sqn amf = take 8 (OUT1 (OPc OP k) k rand sqn amf) \<and> f1star k rand sqn amf = take 8 (drop 8 (OUT1 (OPc OP k) k rand sqn amf))
    \<and> f2345 k rand = (take 8 (drop 8 (OUT 0 1 (OPc OP k) k rand)), OUT 32 2 (OPc OP k) k rand, OUT 64 4 (OPc OP k) k rand,
        take 6 (OUT 0 1 (OPc OP k) k rand))
    \<and> f5star k rand = take 6 (OUT 96 8 (OPc OP k) k rand)"
  using f1_ok [OF assms] f2345_ok [OF assms(1,2)] f5star_ok [OF assms(1,2)] by blast

theorem milenage_is_that_of_3gpp_witness:
  "f5star fips197_key fips197_input = take 6 (OUT 96 8 (OPc OP fips197_key) fips197_key fips197_input)"
  using milenage_is_that_of_3gpp [of fips197_key fips197_input "replicate 6 0" "[0, 0]"]
  by (simp add: fips197_key_def fips197_input_def)





text \<open>
  C40. Copies of messages. Every message the parser accepts, whose bodies are not empty, can be copied; the copy is equal to it but for
  parameters of challenges and credentials that no parser sets, and is printed to the same text, or with the same error. Of the text that
  is kept with the message the copy has what is in front of a NUL.
\<close>

theorem message_copies_are_equal:
  assumes "osip_message_parse sip_message_init buf k = Some ((OSIP_SUCCESS, msg), k')" "\<forall>b \<in> set (bodies msg). body_ok b" "never_fails m"
  shows "\<exists>m'. osip_message_clone (Some msg) c m
      = Some ((OSIP_SUCCESS, Some (without_auth_params msg, map_option cstring_at (fst c), snd c)), m') \<and> never_fails m'
    \<and> (\<forall>c frag m. text_of_answer (message_to_str (Some (without_auth_params msg)) c frag m) = text_of_answer (message_to_str (Some msg) c frag m))"
proof -
  have "headers_typed msg" "\<forall>u \<in> set_option (req_uri msg). uri_ok u"
    using ensuresD [OF message_parse_typed [OF osip_message_init_typed] assms(1) [unfolded osip_message_parse_def]] by (auto simp: start_typed_def)
  then show ?thesis using message_clone_ok [OF _ _ assms(2,3), of c] text_of_copy by blast
qed

theorem message_copies_are_equal_witness:
  "\<exists>m'. osip_message_clone (Some options_message) (None, 0) [] = Some ((OSIP_SUCCESS, Some (options_message, None, 0)), m')"
proof -
  have "bodies options_message = []" "without_auth_params options_message = options_message"
    by (simp_all add: options_message_def without_auth_params_def sip_message_init_def osip_message_init_def osip_message.defs)
  then show ?thesis using message_copies_are_equal [OF options_parsed, of "[]" "(None, 0)"] by auto
qed


end
